(* ===== verification/Pulse_Prelude.thy ===== *)
theory Pulse_Prelude
  imports Main
begin

text \<open>
  The prelude of the development.  It holds
  \<^item> the named collections the component theories extend (\<open>pulse_defs\<close> for the
    definitions a proof unfolds, \<open>pulse_inv\<close> for invariant preservation rules);
  \<^item> the machine integers and the clock of the Go sources: a 64-bit signed wrap-around
    \<open>i64\<close>, instants as integer nanoseconds, the saturating \<open>time.Time.Sub\<close>;
  \<^item> the functions of the Go packages \<open>strings\<close> and \<open>strconv\<close> the sources call,
    on byte strings.  \<open>TrimSpace\<close> and \<open>ToLower\<close> are the ASCII part of the Go
    functions: a byte outside ASCII is neither a space nor a letter here;
  \<^item> generic lemmas on lists and options that several components share.
\<close>

named_theorems pulse_defs "definitions unfolded together by the component proofs"
named_theorems pulse_inv "preservation of a component's invariant by one of its operations"

section \<open>Integers and time\<close>

type_synonym time = int
type_synonym duration = int

text \<open>Go's \<open>int\<close> and \<open>int64\<close> arithmetic wraps around at 64 bits.\<close>

definition i64 :: "int \<Rightarrow> int" where
  "i64 x = (x + 2 ^ 63) mod 2 ^ 64 - 2 ^ 63"

lemma i64_id [simp]: "- (2 ^ 63) \<le> x \<Longrightarrow> x < 2 ^ 63 \<Longrightarrow> i64 x = x"
  by (simp add: i64_def)

lemma i64_range: "- (2 ^ 63) \<le> i64 x \<and> i64 x < 2 ^ 63"
proof -
  have "0 \<le> (x + 2 ^ 63) mod 2 ^ 64" "(x + 2 ^ 63) mod 2 ^ 64 < 2 ^ 64"
    by simp_all
  then show ?thesis by (simp add: i64_def)
qed

definition Second :: duration where "Second = 1000000000"
definition Minute :: duration where "Minute = 60 * Second"
definition Hour :: duration where "Hour = 60 * Minute"

lemmas duration_defs [pulse_defs] = Second_def Minute_def Hour_def

text \<open>
  \<open>time.Time{}\<close> is the first instant of year 1; \<open>IsZero\<close> tests for it.
  \<open>t.Sub(u)\<close> saturates at the bounds of a 64-bit duration, \<open>t.Add(d)\<close> does not.
\<close>

definition zero_time :: time where "zero_time = - 62135596800 * Second"

definition time_Sub :: "time \<Rightarrow> time \<Rightarrow> duration" where
  "time_Sub t u = max (- (2 ^ 63)) (min (2 ^ 63 - 1) (t - u))"

lemma time_Sub_le_iff: "- (2 ^ 63) \<le> d \<Longrightarrow> d < 2 ^ 63 - 1 \<Longrightarrow> time_Sub t u \<le> d \<longleftrightarrow> t - u \<le> d"
  by (auto simp: time_Sub_def)

lemma time_Sub_nonneg_iff: "0 \<le> time_Sub t u \<longleftrightarrow> u \<le> t"
  by (auto simp: time_Sub_def)

text \<open>\<open>int(d.Seconds())\<close>: whole seconds, truncated towards zero.\<close>

definition trunc_div :: "int \<Rightarrow> int \<Rightarrow> int" where
  "trunc_div a b = sgn a * sgn b * (\<bar>a\<bar> div \<bar>b\<bar>)"

definition whole_seconds :: "duration \<Rightarrow> int" where
  "whole_seconds d = trunc_div d Second"

lemma trunc_div_nonneg: "0 \<le> a \<Longrightarrow> 0 < b \<Longrightarrow> trunc_div a b = a div b"
  by (cases "a = 0") (auto simp: trunc_div_def sgn_if)

section \<open>Strings\<close>

definition is_space :: "char \<Rightarrow> bool" where
  "is_space c \<longleftrightarrow> (of_char c :: nat) \<in> {9, 10, 11, 12, 13, 32}"

definition TrimLeft :: "string \<Rightarrow> string" where "TrimLeft s = dropWhile is_space s"
definition TrimSpace :: "string \<Rightarrow> string" where
  "TrimSpace s = rev (TrimLeft (rev (TrimLeft s)))"

definition to_lower :: "char \<Rightarrow> char" where
  "to_lower c = (let n = (of_char c :: nat) in if 65 \<le> n \<and> n \<le> 90 then char_of (n + 32) else c)"

definition ToLower :: "string \<Rightarrow> string" where "ToLower = map to_lower"

text \<open>\<open>strings.Split(s, sep)\<close> for a one-byte separator: one part more than separators.\<close>

fun Split :: "char \<Rightarrow> string \<Rightarrow> string list" where
  "Split sep [] = [[]]"
| "Split sep (c # cs) =
     (if c = sep then [] # Split sep cs
      else case Split sep cs of [] \<Rightarrow> [[c]] | p # ps \<Rightarrow> (c # p) # ps)"

definition HasPrefix :: "string \<Rightarrow> string \<Rightarrow> bool" where
  "HasPrefix s p \<longleftrightarrow> take (length p) s = p"

fun Contains :: "string \<Rightarrow> string \<Rightarrow> bool" where
  "Contains [] sub \<longleftrightarrow> sub = []"
| "Contains (c # cs) sub \<longleftrightarrow> HasPrefix (c # cs) sub \<or> Contains cs sub"

lemma Split_ne_Nil [simp]: "Split sep s \<noteq> []"
  by (cases s) (auto split: list.splits)

lemma Split_no_sep: "sep \<notin> set s \<Longrightarrow> Split sep s = [s]"
  by (induction s) auto

lemma Split_parts_no_sep: "p \<in> set (Split sep s) \<Longrightarrow> sep \<notin> set p"
  by (induction s arbitrary: p) (auto split: list.splits if_splits)

lemma HasPrefix_iff: "HasPrefix s p \<longleftrightarrow> (\<exists>t. s = p @ t)"
  unfolding HasPrefix_def by (metis append_eq_conv_conj)

lemma Contains_iff: "Contains s sub \<longleftrightarrow> (\<exists>a b. s = a @ sub @ b)"
proof (induction s)
  case Nil
  then show ?case by simp
next
  case (Cons c cs)
  have "(\<exists>a b. c # cs = a @ sub @ b) \<longleftrightarrow>
        (\<exists>b. c # cs = sub @ b) \<or> (\<exists>a b. cs = a @ sub @ b)"
  proof
    assume "\<exists>a b. c # cs = a @ sub @ b"
    then obtain a b where "c # cs = a @ sub @ b" by blast
    then show "(\<exists>b. c # cs = sub @ b) \<or> (\<exists>a b. cs = a @ sub @ b)"
      by (cases a) auto
  next
    assume "(\<exists>b. c # cs = sub @ b) \<or> (\<exists>a b. cs = a @ sub @ b)"
    then show "\<exists>a b. c # cs = a @ sub @ b"
      by (metis append_Cons append_Nil)
  qed
  then show ?case using Cons by (simp add: HasPrefix_iff)
qed

text \<open>\<open>strconv.Itoa\<close> and \<open>strconv.FormatInt\<close> in base 10, and \<open>strconv.Atoi\<close> on 64 bits.\<close>

definition digit :: "nat \<Rightarrow> char" where "digit n = char_of (48 + n)"
definition is_digit :: "char \<Rightarrow> bool" where
  "is_digit c \<longleftrightarrow> 48 \<le> (of_char c :: nat) \<and> (of_char c :: nat) \<le> 57"

fun nat_str :: "nat \<Rightarrow> string" where
  "nat_str n = (if n < 10 then [digit n] else nat_str (n div 10) @ [digit (n mod 10)])"

declare nat_str.simps [simp del]

definition Itoa :: "int \<Rightarrow> string" where
  "Itoa i = (if i < 0 then CHR ''-'' # nat_str (nat (- i)) else nat_str (nat i))"

fun digits_val :: "nat \<Rightarrow> string \<Rightarrow> nat" where
  "digits_val acc [] = acc"
| "digits_val acc (c # cs) = digits_val (10 * acc + (of_char c - 48)) cs"

definition parse_digits :: "string \<Rightarrow> nat option" where
  "parse_digits s = (if s = [] \<or> \<not> list_all is_digit s then None else Some (digits_val 0 s))"

definition Atoi :: "string \<Rightarrow> int option" where
  "Atoi s =
     (let r = (case s of
                 [] \<Rightarrow> None
               | c # cs \<Rightarrow> if c = CHR ''-'' then map_option (\<lambda>n. - int n) (parse_digits cs)
                           else if c = CHR ''+'' then map_option int (parse_digits cs)
                           else map_option int (parse_digits s))
      in case r of None \<Rightarrow> None
         | Some i \<Rightarrow> if - (2 ^ 63) \<le> i \<and> i < 2 ^ 63 then Some i else None)"

lemma of_char_digit: "n < 10 \<Longrightarrow> (of_char (digit n) :: nat) = 48 + n"
  by (simp add: digit_def)

lemma digits_val_append: "digits_val acc (xs @ [c]) = 10 * digits_val acc xs + (of_char c - 48)"
  by (induction xs arbitrary: acc) auto

lemma digits_val_nat_str: "digits_val 0 (nat_str n) = n"
proof (induction n rule: nat_str.induct)
  case (1 n)
  show ?case
  proof (cases "n < 10")
    case True
    then show ?thesis by (subst nat_str.simps) (simp add: of_char_digit)
  next
    case False
    then show ?thesis using "1.IH"
      by (subst nat_str.simps) (simp add: digits_val_append of_char_digit)
  qed
qed

lemma nat_str_digits: "list_all is_digit (nat_str n) \<and> nat_str n \<noteq> []"
proof (induction n rule: nat_str.induct)
  case (1 n)
  have d: "is_digit (digit k)" if "k < 10" for k
    using that by (simp add: is_digit_def of_char_digit)
  show ?case
    using "1" by (cases "n < 10") (simp_all add: nat_str.simps [of n] d)
qed

lemma nat_str_inj: "nat_str m = nat_str n \<Longrightarrow> m = n"
  by (metis digits_val_nat_str)

lemma minus_not_digit: "\<not> is_digit (CHR ''-'')" "\<not> is_digit (CHR ''+'')" "\<not> is_digit (CHR '','')"
  "\<not> is_digit (CHR '':'')"
  by (simp_all add: is_digit_def)

lemma Itoa_inj: "Itoa i = Itoa j \<Longrightarrow> i = j"
proof -
  have sep: "nat_str m \<noteq> CHR ''-'' # t" for m t
    using nat_str_digits [of m] minus_not_digit by auto
  assume eq: "Itoa i = Itoa j"
  show ?thesis
    using eq sep sep [symmetric] by (auto simp: Itoa_def split: if_splits dest!: nat_str_inj)
qed

lemma Atoi_Itoa: "- (2 ^ 63) \<le> i \<Longrightarrow> i < 2 ^ 63 \<Longrightarrow> Atoi (Itoa i) = Some i"
proof -
  assume b: "- (2 ^ 63) \<le> i" "i < 2 ^ 63"
  show ?thesis
  proof (cases "i < 0")
    case True
    then show ?thesis using b nat_str_digits [of "nat (- i)"]
      by (simp add: Itoa_def Atoi_def parse_digits_def digits_val_nat_str)
  next
    case False
    obtain c cs where s: "nat_str (nat i) = c # cs" "is_digit c"
      using nat_str_digits [of "nat i"] by (cases "nat_str (nat i)") auto
    then have "c \<noteq> CHR ''-''" "c \<noteq> CHR ''+''" using minus_not_digit by auto
    moreover have "parse_digits (c # cs) = Some (nat i)"
      using nat_str_digits [of "nat i"] s(1) digits_val_nat_str [of "nat i"]
      by (simp add: parse_digits_def)
    ultimately show ?thesis using False b s(1) by (simp add: Itoa_def Atoi_def)
  qed
qed

lemma Itoa_chars: "c \<in> set (Itoa i) \<Longrightarrow> c = CHR ''-'' \<or> is_digit c"
  using nat_str_digits [of "nat i"] nat_str_digits [of "nat (- i)"]
  by (auto simp: Itoa_def list_all_iff split: if_splits)

lemma Itoa_no_colon: "CHR '':'' \<notin> set (Itoa i)"
  using Itoa_chars [of "CHR '':''" i] minus_not_digit by auto

lemma split_at_first:
  assumes "a @ CHR '':'' # x = b @ CHR '':'' # y" and "CHR '':'' \<notin> set a" and "CHR '':'' \<notin> set b"
  shows "a = b \<and> x = y"
  using assms by (induction a arbitrary: b) (case_tac b; auto)+

section \<open>Lists\<close>

text \<open>The trailing run of a list: the longest suffix all of whose elements satisfy \<open>P\<close>.\<close>

definition trailing :: "('a \<Rightarrow> bool) \<Rightarrow> 'a list \<Rightarrow> 'a list" where
  "trailing P xs = rev (takeWhile P (rev xs))"

lemma trailing_Nil [simp]: "trailing P [] = []"
  by (simp add: trailing_def)

lemma trailing_snoc [simp]: "trailing P (xs @ [x]) = (if P x then trailing P xs @ [x] else [])"
  by (simp add: trailing_def)

lemma trailing_all: "x \<in> set (trailing P xs) \<Longrightarrow> P x"
  by (auto simp: trailing_def dest: set_takeWhileD)

lemma find_map_upd:
  "find P (map (\<lambda>x. if P x then f x else x) xs) =
     (if (\<forall>x. P x \<longrightarrow> P (f x)) then map_option f (find P xs)
      else find P (map (\<lambda>x. if P x then f x else x) xs))"
  by (induction xs) auto

lemma find_append: "find P (xs @ ys) = (case find P xs of None \<Rightarrow> find P ys | Some x \<Rightarrow> Some x)"
  by (induction xs) auto

lemma find_None_filter: "find P xs = None \<longleftrightarrow> filter P xs = []"
  by (induction xs) auto

lemma find_Some_set: "find P xs = Some x \<Longrightarrow> x \<in> set xs \<and> P x"
  by (induction xs) (auto split: if_splits)

text \<open>Setting one key of a map that is kept as a list.\<close>

fun set_field :: "string \<Rightarrow> 'v \<Rightarrow> (string \<times> 'v) list \<Rightarrow> (string \<times> 'v) list" where
  "set_field fld v [] = [(fld, v)]"
| "set_field fld v ((g, w) # h) = (if g = fld then (fld, v) # h else (g, w) # set_field fld v h)"

lemma map_of_set_field: "map_of (set_field fld v h) = (map_of h)(fld \<mapsto> v)"
  by (induction fld v h rule: set_field.induct) auto

lemma set_field_keys: "set (map fst (set_field fld v h)) = insert fld (set (map fst h))"
  by (induction fld v h rule: set_field.induct) auto

lemma set_field_distinct: "distinct (map fst h) \<Longrightarrow> distinct (map fst (set_field fld v h))"
  by (induction fld v h rule: set_field.induct) (auto simp: set_field_keys simp del: set_map)

lemma set_field_all: "list_all (\<lambda>(r, v). P v) h \<Longrightarrow> P v \<Longrightarrow> list_all (\<lambda>(r, v). P v) (set_field fld v h)"
  by (induction fld v h rule: set_field.induct) auto

lemma set_field_ne [simp]: "set_field fld v h \<noteq> []"
  by (cases "(fld, v, h)" rule: set_field.cases) auto

end
