(* ===== verification/Pulse_Domain.thy ===== *)
theory Pulse_Domain
  imports Complex_Main Pulse_Prelude
begin

text \<open>
  The shared vocabulary of the services, \<open>internal/domain/domain.go\<close>: the structs as
  records, the string enums as datatypes, and the few pure functions of the package
  (the certificate warning level, the public status and banner of a status page, the
  webhook subscription test).

  A Go string enum is an open type: a value read from a database column or from the
  wire may be any string.  Where the code has a default branch for the other strings the
  datatype has an \<open>...Other\<close> constructor that carries the string, so that branch is part
  of the model.  Pointers that may be nil are options; the fields keep the order and the
  names of the Go structs with a short prefix, since record fields share one name space.
\<close>

section \<open>Enums\<close>

datatype MonitorType = MonitorHTTP | MonitorSSL | MonitorTypeOther string

datatype DownPolicy = DownPolicyAny | DownPolicyQuorum | DownPolicyAll | DownPolicyOther string

datatype Status = StatusDisabled | StatusPending | StatusDown | StatusUp

datatype FailureReason =
    ReasonConnectionError | ReasonTimeout | ReasonStatusMismatch | ReasonLatencyExceeded
  | ReasonBodyAssertion | ReasonBlockedTarget | ReasonCertExpired | ReasonCertExpiringSoon
  | ReasonCertInvalid | ReasonOther string

datatype ChannelType =
    ChannelSlack | ChannelDiscord | ChannelWebhook | ChannelSMTP | ChannelEmail
  | ChannelPagerDuty | ChannelOpsgenie | ChannelTelegram | ChannelTeams | ChannelTwilio
  | ChannelTypeOther string

datatype CloseReason = CloseRecovered | CloseDisabled | CloseManual

datatype StatusPageState = StatusPageDraft | StatusPagePublished

datatype StatusPageTheme = ThemeLight | ThemeDark | ThemeOther string

datatype PublicStatus = PublicOperational | PublicDown | PublicHidden

datatype PublicBanner = BannerOperational | BannerPartial | BannerMajor

datatype Role = RoleOwner | RoleAdmin | RoleMember | RoleViewer | RoleOther string

datatype IdentityProvider = ProviderGoogle | ProviderGitHub | ProviderDev | ProviderOther string

datatype InvitationState = InvitePending | InviteAccepted | InviteRevoked | InviteExpired

datatype OrgWebhookEvent =
    OrgEventMonitorDown | OrgEventMonitorRecover | OrgEventIncidentOpened | OrgEventIncidentClosed

section \<open>Structs\<close>

record Header =
  hdr_Key :: string
  hdr_Value :: string
  hdr_Secret :: bool

record Monitor =
  mon_ID :: int
  mon_OrgID :: int
  mon_Type :: MonitorType
  mon_Name :: string
  mon_URL :: string
  mon_Method :: string
  mon_Headers :: "Header list"
  mon_Body :: string
  mon_ExpectedStatusCodes :: string
  mon_TimeoutSeconds :: int
  mon_IntervalSeconds :: int
  mon_Enabled :: bool
  mon_MaxLatencyMs :: "int option"
  mon_BodyContains :: "string option"
  mon_FailureThreshold :: int
  mon_Regions :: "string list"
  mon_DownPolicy :: DownPolicy
  mon_ChannelIDs :: "int list"
  mon_CreatedAt :: time
  mon_UpdatedAt :: time

text \<open>
  The dynamic types a \<open>map[string]any\<close> config value can have.  A \<open>float64\<close> that equals an
  \<open>int64\<close> is \<open>CfgWhole\<close> of it, any other one is \<open>CfgFrac\<close> of its \<open>%v\<close> text.  A config is the list of
  its keys with their values.
\<close>

datatype cfg_value =
    CfgString string | CfgWhole int | CfgFrac string | CfgInt int | CfgInt64 int | CfgBool bool | CfgNil
  | CfgList "cfg_value list" | CfgMap "(string \<times> cfg_value) list"

type_synonym config = "(string \<times> cfg_value) list"

record Channel =
  ch_ID :: int
  ch_OrgID :: int
  ch_Name :: string
  ch_Type :: ChannelType
  ch_Config :: config
  ch_Enabled :: bool

record CertInfo =
  cert_Subject :: string
  cert_Issuer :: string
  cert_NotBefore :: time
  cert_NotAfter :: time
  cert_DNSNames :: "string list"
  cert_Serial :: string

record ResponseSnapshot =
  snap_StatusCode :: "int option"
  snap_Headers :: "(string \<times> string list) list"
  snap_Body :: string
  snap_Truncated :: bool

record CheckResult =
  res_ID :: int
  res_OrgID :: int
  res_MonitorID :: int
  res_Region :: string
  res_ScheduledAt :: time
  res_CheckedAt :: time
  res_Healthy :: bool
  res_FailureReason :: "FailureReason option"
  res_StatusCode :: "int option"
  res_LatencyMs :: "int option"
  res_ErrorText :: "string option"
  res_CertExpiresAt :: "time option"
  res_Snapshot :: "ResponseSnapshot option"
  res_CertInfo :: "CertInfo option"

record Incident =
  inc_ID :: int
  inc_OrgID :: int
  inc_MonitorID :: int
  inc_StartedAt :: time
  inc_EndedAt :: "time option"
  inc_CauseReason :: FailureReason
  inc_CloseReason :: "CloseReason option"
  inc_ClosedBy :: "int option"
  inc_FirstResultID :: "int option"

record IncidentAnnotation =
  ann_ID :: int
  ann_OrgID :: int
  ann_IncidentID :: int
  ann_AuthorUserID :: "int option"
  ann_Note :: string
  ann_CreatedAt :: time

record AlertState =
  as_ConsecutiveFails :: int
  as_FirstFailAt :: "time option"
  as_OpenIncident :: "Incident option"
  as_LastAppliedResultID :: "int option"
  as_SSLWarnedDays :: "int option"

record StatusPage =
  sp_ID :: int
  sp_OrgID :: int
  sp_Name :: string
  sp_Slug :: string
  sp_LogoURL :: string
  sp_AccentColor :: string
  sp_Theme :: StatusPageTheme
  sp_Published :: bool
  sp_CustomDomain :: "string option"
  sp_CreatedAt :: time
  sp_UpdatedAt :: time

record StatusPageMonitor =
  spm_ID :: int
  spm_OrgID :: int
  spm_PageID :: int
  spm_MonitorID :: int
  spm_DisplayName :: string
  spm_SortOrder :: int

text \<open>The public projection of a page.  A percentage is the exact quotient; the code computes it in floating point.\<close>

record UptimeSummary =
  ut_Uptime24h :: rat
  ut_Uptime7d :: rat
  ut_Uptime90d :: rat
  ut_Has24h :: bool
  ut_Has7d :: bool
  ut_Has90d :: bool

record PublicHistoryPoint =
  hp_At :: time
  hp_Up :: bool

record PublicDisplayedMonitor =
  pdm_DisplayName :: string
  pdm_Status :: PublicStatus
  pdm_Uptime :: UptimeSummary
  pdm_History :: "PublicHistoryPoint list"

record PublicIncident =
  pin_DisplayName :: string
  pin_StartedAt :: time
  pin_EndedAt :: "time option"
  pin_DurationSeconds :: "int option"
  pin_Resolved :: bool

record PublicStatusPage =
  psp_Name :: string
  psp_Slug :: string
  psp_LogoURL :: string
  psp_AccentColor :: string
  psp_Theme :: StatusPageTheme
  psp_Banner :: PublicBanner
  psp_Monitors :: "PublicDisplayedMonitor list"
  psp_Incidents :: "PublicIncident list"
  psp_UptimeMaxWindow :: string

record User =
  usr_ID :: int
  usr_Email :: string
  usr_EmailVerified :: bool
  usr_Name :: string
  usr_AvatarURL :: string
  usr_Locale :: string
  usr_Timezone :: string
  usr_Status :: string
  usr_DeletionPendingAt :: "time option"
  usr_CreatedAt :: time
  usr_LastLoginAt :: "time option"

record UserIdentity =
  idn_ID :: int
  idn_UserID :: int
  idn_Provider :: IdentityProvider
  idn_ProviderUserID :: string
  idn_CreatedAt :: time

record Organization =
  org_ID :: int
  org_Name :: string
  org_Slug :: string
  org_PlanID :: "int option"
  org_Plan :: string
  org_DefaultLocale :: string
  org_DefaultTimezone :: string
  org_CreatedAt :: time
  org_DeletedAt :: "time option"

record Membership =
  mem_ID :: int
  mem_OrgID :: int
  mem_UserID :: int
  mem_Role :: Role
  mem_CreatedAt :: time

record Invitation =
  inv_ID :: int
  inv_OrgID :: int
  inv_Email :: string
  inv_Role :: Role
  inv_State :: InvitationState
  inv_TokenHash :: string
  inv_Locale :: string
  inv_CreatedBy :: "int option"
  inv_CreatedAt :: time
  inv_ExpiresAt :: time
  inv_AcceptedAt :: "time option"

record APIKey =
  ak_ID :: int
  ak_OrgID :: int
  ak_Name :: string
  ak_Prefix :: string
  ak_TokenHash :: string
  ak_Role :: Role
  ak_CreatedBy :: "int option"
  ak_CreatedAt :: time
  ak_LastUsedAt :: "time option"
  ak_RevokedAt :: "time option"

record OrgWebhook =
  wh_ID :: int
  wh_OrgID :: int
  wh_URL :: string
  wh_SigningSecret :: string
  wh_Enabled :: bool
  wh_Events :: "OrgWebhookEvent list"
  wh_CreatedBy :: "int option"
  wh_CreatedAt :: time
  wh_UpdatedAt :: time
  wh_LastDeliveryAt :: "time option"
  wh_LastStatus :: string
  wh_LastError :: "string option"

record RefreshToken =
  rt_ID :: int
  rt_UserID :: int
  rt_FamilyID :: int
  rt_ReplacedBy :: "int option"
  rt_TokenHash :: string
  rt_CreatedAt :: time
  rt_ExpiresAt :: time
  rt_RevokedAt :: "time option"

section \<open>Functions\<close>

text \<open>A role as a string and back, \<open>string(r)\<close> and \<open>domain.Role(s)\<close>.\<close>

fun Role_string :: "Role \<Rightarrow> string" where
  "Role_string RoleOwner = ''owner''"
| "Role_string RoleAdmin = ''admin''"
| "Role_string RoleMember = ''member''"
| "Role_string RoleViewer = ''viewer''"
| "Role_string (RoleOther s) = s"

definition Role_of :: "string \<Rightarrow> Role" where
  "Role_of s =
     (if s = ''owner'' then RoleOwner else if s = ''admin'' then RoleAdmin
      else if s = ''member'' then RoleMember else if s = ''viewer'' then RoleViewer else RoleOther s)"


definition SSLWarnThresholds :: "int list" where "SSLWarnThresholds = [7, 3, 1]"

text \<open>
  \<open>daysLeft \<le> t\<close> compares \<open>expiresAt.Sub(now).Hours() / 24\<close> with the threshold as
  floats.  \<open>Hours\<close> keeps the whole hours exact and one nanosecond is more than twenty
  units in the last place of the quotient near 7, so the float comparison agrees with the
  comparison of the nanosecond counts that the model makes.
\<close>

definition SSLWarnLevel :: "time \<Rightarrow> time \<Rightarrow> int" where
  "SSLWarnLevel expiresAt now =
     (if \<not> now < expiresAt then 0
      else let left = time_Sub expiresAt now
           in foldl (\<lambda>level t. if left \<le> t * (24 * Hour) then t else level) (-1) SSLWarnThresholds)"

fun StatusPage_State :: "StatusPage \<Rightarrow> StatusPageState" where
  "StatusPage_State s = (if sp_Published s then StatusPagePublished else StatusPageDraft)"

fun DerivePublicStatus :: "Status \<Rightarrow> PublicStatus" where
  "DerivePublicStatus StatusDown = PublicDown"
| "DerivePublicStatus StatusDisabled = PublicHidden"
| "DerivePublicStatus _ = PublicOperational"

fun banner_count :: "PublicStatus list \<Rightarrow> int \<Rightarrow> int \<Rightarrow> int \<times> int" where
  "banner_count [] n down = (n, down)"
| "banner_count (s # ss) n down =
     (if s = PublicHidden then banner_count ss n down
      else banner_count ss (n + 1) (if s = PublicDown then down + 1 else down))"

definition DeriveBanner :: "PublicStatus list \<Rightarrow> PublicBanner" where
  "DeriveBanner statuses =
     (let (n, down) = banner_count statuses 0 0
      in if n = 0 \<or> down = 0 then BannerOperational
         else if down = n then BannerMajor
         else BannerPartial)"

fun subscribes_loop :: "OrgWebhookEvent list \<Rightarrow> OrgWebhookEvent \<Rightarrow> bool" where
  "subscribes_loop [] ev = False"
| "subscribes_loop (e # es) ev = (if e = ev then True else subscribes_loop es ev)"

definition Subscribes :: "OrgWebhook \<Rightarrow> OrgWebhookEvent \<Rightarrow> bool" where
  "Subscribes w ev = (if length (wh_Events w) = 0 then True else subscribes_loop (wh_Events w) ev)"

section \<open>Lemmas\<close>

lemma SSLWarnLevel_cases:
  "SSLWarnLevel e now =
     (if e \<le> now then 0
      else if e - now \<le> 24 * Hour then 1
      else if e - now \<le> 3 * (24 * Hour) then 3
      else if e - now \<le> 7 * (24 * Hour) then 7
      else -1)"
proof (cases "e \<le> now")
  case True
  then show ?thesis by (simp add: SSLWarnLevel_def)
next
  case False
  then show ?thesis
    by (simp add: SSLWarnLevel_def SSLWarnThresholds_def time_Sub_le_iff duration_defs)
qed

lemma SSLWarnLevel_values: "SSLWarnLevel e now \<in> {-1, 0, 1, 3, 7}"
  by (simp add: SSLWarnLevel_cases)

text \<open>
  The levels by how much they say: no warning yet is the loosest, then 7, 3, 1 days and
  expired (0).
\<close>

definition tightness :: "int \<Rightarrow> int" where
  "tightness level = (if level = -1 then 8 else level)"

text \<open>
  The warning level of a certificate never relaxes while time passes: at a later
  instant the level is the same or a tighter one of the fixed thresholds, it is always one
  of 7, 3, 1, expired or none, and it is expired exactly from the expiry instant on.
\<close>

theorem SSLWarnLevel_escalates:
  assumes "now \<le> later"
  shows "tightness (SSLWarnLevel e later) \<le> tightness (SSLWarnLevel e now)
         \<and> SSLWarnLevel e now \<in> set SSLWarnThresholds \<union> {0, -1}
         \<and> (SSLWarnLevel e now = 0 \<longleftrightarrow> e \<le> now)"
  using assms
  by (auto simp: SSLWarnLevel_cases tightness_def SSLWarnThresholds_def duration_defs)

theorem SSLWarnLevel_escalates_witness:
  "(0::int) \<le> 6 * (24 * Hour)
   \<and> tightness (SSLWarnLevel (7 * (24 * Hour)) (6 * (24 * Hour))) \<le> tightness (SSLWarnLevel (7 * (24 * Hour)) 0)
   \<and> SSLWarnLevel (7 * (24 * Hour)) 0 = 7 \<and> SSLWarnLevel (7 * (24 * Hour)) (6 * (24 * Hour)) = 1"
proof -
  have h: "(0::int) \<le> 6 * (24 * Hour)" by (simp add: duration_defs)
  show ?thesis
    using SSLWarnLevel_escalates [OF h, of "7 * (24 * Hour)"] h
    by (simp add: SSLWarnLevel_cases duration_defs)
qed

lemma banner_count_eq:
  "banner_count ss n down =
     (n + int (length (filter (\<lambda>s. s \<noteq> PublicHidden) ss)),
      down + int (length (filter (\<lambda>s. s = PublicDown) ss)))"
  by (induction ss arbitrary: n down) auto

lemma length_filter_eq_iff:
  "length (filter P xs) = length (filter Q xs) \<longleftrightarrow> (\<forall>x \<in> set xs. Q x \<longrightarrow> P x)"
  if "\<forall>x \<in> set xs. P x \<longrightarrow> Q x"
  using that
proof (induction xs)
  case Nil
  then show ?case by simp
next
  case (Cons x xs)
  have le: "length (filter P xs) \<le> length (filter Q xs)"
    using Cons.prems by (induction xs) auto
  show ?case using Cons le by (cases "P x"; cases "Q x") auto
qed

text \<open>
  The banner of a status page: it is operational exactly when no visible monitor is
  down (in particular when nothing is visible), a major outage exactly when something is
  visible and every visible monitor is down, and partial in the remaining case. Hidden
  monitors have no influence.
\<close>

theorem DeriveBanner_spec:
  "(DeriveBanner ss = BannerOperational \<longleftrightarrow> PublicDown \<notin> set ss)
   \<and> (DeriveBanner ss = BannerMajor \<longleftrightarrow>
        PublicDown \<in> set ss \<and> PublicOperational \<notin> set ss)
   \<and> DeriveBanner (filter (\<lambda>s. s \<noteq> PublicHidden) ss) = DeriveBanner ss"
proof -
  let ?d = "length (filter (\<lambda>s. s = PublicDown) ss)"
  let ?n = "length (filter (\<lambda>s. s \<noteq> PublicHidden) ss)"
  have d0: "?d = 0 \<longleftrightarrow> PublicDown \<notin> set ss" by (induction ss) auto
  have n0: "?n = 0 \<Longrightarrow> ?d = 0" by (induction ss) (auto split: if_splits)
  have dn: "?d = ?n \<longleftrightarrow> (\<forall>x \<in> set ss. x \<noteq> PublicHidden \<longrightarrow> x = PublicDown)"
    by (rule length_filter_eq_iff) auto
  have dn': "?d = ?n \<longleftrightarrow> PublicOperational \<notin> set ss"
    unfolding dn by (metis PublicStatus.exhaust PublicStatus.distinct)
  have f: "(\<lambda>x. x \<noteq> PublicHidden \<and> x = PublicDown) = (\<lambda>x. x = PublicDown)"
    by auto
  show ?thesis
    using d0 n0 dn' by (auto simp: DeriveBanner_def banner_count_eq f)
qed

lemma subscribes_loop_iff: "subscribes_loop es ev \<longleftrightarrow> ev \<in> set es"
  by (induction es) auto

lemma Subscribes_iff: "Subscribes w ev \<longleftrightarrow> wh_Events w = [] \<or> ev \<in> set (wh_Events w)"
  by (auto simp: Subscribes_def subscribes_loop_iff)

section \<open>Concrete values\<close>

definition ex_monitor :: "int \<Rightarrow> MonitorType \<Rightarrow> Monitor" where
  "ex_monitor threshold typ =
     \<lparr>mon_ID = 0, mon_OrgID = 1, mon_Type = typ, mon_Name = ''site'', mon_URL = ''https://example.com'',
      mon_Method = ''GET'', mon_Headers = [\<lparr>hdr_Key = ''X-Token'', hdr_Value = ''s'', hdr_Secret = True\<rparr>],
      mon_Body = '''', mon_ExpectedStatusCodes = ''200'',
      mon_TimeoutSeconds = 10, mon_IntervalSeconds = 60, mon_Enabled = True, mon_MaxLatencyMs = None,
      mon_BodyContains = None, mon_FailureThreshold = threshold, mon_Regions = [], mon_DownPolicy = DownPolicyAny,
      mon_ChannelIDs = [], mon_CreatedAt = 0, mon_UpdatedAt = 0\<rparr>"

definition ex_result :: "time \<Rightarrow> bool \<Rightarrow> CheckResult" where
  "ex_result t healthy =
     \<lparr>res_ID = 0, res_OrgID = 1, res_MonitorID = 1, res_Region = ''eu-central'', res_ScheduledAt = t,
      res_CheckedAt = t, res_Healthy = healthy,
      res_FailureReason = (if healthy then None else Some ReasonTimeout), res_StatusCode = None,
      res_LatencyMs = None, res_ErrorText = None, res_CertExpiresAt = None, res_Snapshot = None,
      res_CertInfo = None\<rparr>"

definition ex_open_incident :: Incident where
  "ex_open_incident = \<lparr>inc_ID = 1, inc_OrgID = 1, inc_MonitorID = 1, inc_StartedAt = 10, inc_EndedAt = None,
     inc_CauseReason = ReasonTimeout, inc_CloseReason = None, inc_ClosedBy = None, inc_FirstResultID = Some 1\<rparr>"

end
