(* ===== verification/Pulse_Entitlements.thy ===== *)
theory Pulse_Entitlements
  imports Pulse_Domain
begin

text \<open>
  What an org's plan allows: \<open>internal/region/region.go\<close> (the region codes) and
  \<open>internal/entitlements/entitlements.go\<close> (the per-plan tables, their resolvers and the
  public catalog).

  Every per-plan table is a Go map read through a resolver that falls back to the free
  tier for a plan the map does not hold.  The locale \<open>plan_table\<close> states that contract
  once and \<open>plan_ladder\<close> adds the ordering of the tiers; each table of the source is an
  interpretation of them.
\<close>

section \<open>Regions\<close>

definition EUCentral :: string where "EUCentral = ''eu-central''"
definition USEast :: string where "USEast = ''us-east''"
definition USWest :: string where "USWest = ''us-west''"
definition SAEast :: string where "SAEast = ''sa-east''"
definition DefaultRegion :: string where "DefaultRegion = EUCentral"
definition AllRegions :: "string list" where "AllRegions = [EUCentral, USEast, USWest, SAEast]"

fun in_loop :: "string list \<Rightarrow> string \<Rightarrow> bool" where
  "in_loop [] code = False"
| "in_loop (r # rs) code = (if r = code then True else in_loop rs code)"

definition Known :: "string \<Rightarrow> bool" where "Known code = in_loop AllRegions code"

lemmas region_defs = EUCentral_def USEast_def USWest_def SAEast_def DefaultRegion_def AllRegions_def

section \<open>Plans\<close>

datatype Plan = PlanTier1 | PlanTier2 | PlanTier3 | PlanTierCustom | PlanOther string

text \<open>The conversion \<open>Plan(s)\<close> of a stored string, and the string of a plan.\<close>

definition Plan_of :: "string \<Rightarrow> Plan" where
  "Plan_of s =
     (if s = ''tier1'' then PlanTier1 else if s = ''tier2'' then PlanTier2
      else if s = ''tier3'' then PlanTier3 else if s = ''tierCustom'' then PlanTierCustom
      else PlanOther s)"

fun Plan_string :: "Plan \<Rightarrow> string" where
  "Plan_string PlanTier1 = ''tier1''"
| "Plan_string PlanTier2 = ''tier2''"
| "Plan_string PlanTier3 = ''tier3''"
| "Plan_string PlanTierCustom = ''tierCustom''"
| "Plan_string (PlanOther s) = s"

definition ParsePlan :: "string \<Rightarrow> Plan" where
  "ParsePlan s =
     (case Plan_of s of
        PlanTier2 \<Rightarrow> PlanTier2 | PlanTier3 \<Rightarrow> PlanTier3 | PlanTierCustom \<Rightarrow> PlanTierCustom
      | _ \<Rightarrow> PlanTier1)"

definition IsKnownPlan :: "string \<Rightarrow> bool" where
  "IsKnownPlan s =
     (case Plan_of s of
        PlanTier1 \<Rightarrow> True | PlanTier2 \<Rightarrow> True | PlanTier3 \<Rightarrow> True | PlanTierCustom \<Rightarrow> True
      | _ \<Rightarrow> False)"

section \<open>The per-plan tables and their resolvers\<close>

fun seatCaps :: "Plan \<rightharpoonup> int" where
  "seatCaps PlanTier1 = Some 1"
| "seatCaps PlanTier2 = Some 3"
| "seatCaps PlanTier3 = Some 10"
| "seatCaps PlanTierCustom = Some 1000000"
| "seatCaps _ = None"

text \<open>
  Each resolver has the shape \<open>if v, ok := table[plan]; ok { return v }; return
  table[PlanTier1]\<close>; reading a missing key of the second index gives the zero value.
\<close>

definition table_or_free :: "'a \<Rightarrow> (Plan \<rightharpoonup> 'a) \<Rightarrow> Plan \<Rightarrow> 'a" where
  "table_or_free zero tbl plan =
     (case tbl plan of Some v \<Rightarrow> v
      | None \<Rightarrow> (case tbl PlanTier1 of Some v \<Rightarrow> v | None \<Rightarrow> zero))"

definition SeatCap :: "int \<Rightarrow> Plan \<Rightarrow> int" where
  "SeatCap orgID plan = table_or_free 0 seatCaps plan"

record SeatUsage =
  su_Used :: int
  su_Cap :: int

definition HasFreeSeat :: "SeatUsage \<Rightarrow> bool" where "HasFreeSeat u = (su_Used u < su_Cap u)"

definition HardIntervalFloorSeconds :: int where "HardIntervalFloorSeconds = 30"

record MonitorLimits =
  ml_MonitorsCap :: int
  ml_MinIntervalSeconds :: int
  ml_RegionsAllowed :: "string list"
  ml_RegionsPerMonitorCap :: int

fun monitorLimits :: "Plan \<rightharpoonup> MonitorLimits" where
  "monitorLimits PlanTier1 = Some \<lparr>ml_MonitorsCap = 10, ml_MinIntervalSeconds = 900,
     ml_RegionsAllowed = [EUCentral], ml_RegionsPerMonitorCap = 1\<rparr>"
| "monitorLimits PlanTier2 = Some \<lparr>ml_MonitorsCap = 25, ml_MinIntervalSeconds = 300,
     ml_RegionsAllowed = [EUCentral], ml_RegionsPerMonitorCap = 1\<rparr>"
| "monitorLimits PlanTier3 = Some \<lparr>ml_MonitorsCap = 50, ml_MinIntervalSeconds = 60,
     ml_RegionsAllowed = [EUCentral, USEast, USWest, SAEast], ml_RegionsPerMonitorCap = 4\<rparr>"
| "monitorLimits PlanTierCustom = Some \<lparr>ml_MonitorsCap = 1000, ml_MinIntervalSeconds = 30,
     ml_RegionsAllowed = [EUCentral, USEast, USWest, SAEast], ml_RegionsPerMonitorCap = 4\<rparr>"
| "monitorLimits _ = None"

definition zeroLimits :: MonitorLimits where
  "zeroLimits = \<lparr>ml_MonitorsCap = 0, ml_MinIntervalSeconds = 0, ml_RegionsAllowed = [],
     ml_RegionsPerMonitorCap = 0\<rparr>"

definition DefaultMonitors_MonitorLimits :: "int \<Rightarrow> Plan \<Rightarrow> MonitorLimits" where
  "DefaultMonitors_MonitorLimits orgID plan = table_or_free zeroLimits monitorLimits plan"

definition EffectiveIntervalFloor :: "MonitorLimits \<Rightarrow> int" where
  "EffectiveIntervalFloor l =
     (if ml_MinIntervalSeconds l > HardIntervalFloorSeconds then ml_MinIntervalSeconds l
      else HardIntervalFloorSeconds)"

definition AllowsRegion :: "MonitorLimits \<Rightarrow> string \<Rightarrow> bool" where
  "AllowsRegion l region = in_loop (ml_RegionsAllowed l) region"

fun statusPageCaps :: "Plan \<rightharpoonup> int" where
  "statusPageCaps PlanTier1 = Some 1"
| "statusPageCaps PlanTier2 = Some 3"
| "statusPageCaps PlanTier3 = Some 10"
| "statusPageCaps PlanTierCustom = Some 1000"
| "statusPageCaps _ = None"

definition StatusPageCap :: "int \<Rightarrow> Plan \<Rightarrow> int" where
  "StatusPageCap orgID plan = table_or_free 0 statusPageCaps plan"

fun retentionDays :: "Plan \<rightharpoonup> int" where
  "retentionDays PlanTier1 = Some 7"
| "retentionDays PlanTier2 = Some 30"
| "retentionDays PlanTier3 = Some 90"
| "retentionDays PlanTierCustom = Some 180"
| "retentionDays _ = None"

fun customDomainAllowed :: "Plan \<rightharpoonup> bool" where
  "customDomainAllowed PlanTier1 = Some False"
| "customDomainAllowed PlanTier2 = Some False"
| "customDomainAllowed PlanTier3 = Some True"
| "customDomainAllowed PlanTierCustom = Some True"
| "customDomainAllowed _ = None"

fun apiAccessAllowed :: "Plan \<rightharpoonup> bool" where
  "apiAccessAllowed PlanTier1 = Some False"
| "apiAccessAllowed PlanTier2 = Some True"
| "apiAccessAllowed PlanTier3 = Some True"
| "apiAccessAllowed PlanTierCustom = Some True"
| "apiAccessAllowed _ = None"

fun apiWriteAllowed :: "Plan \<rightharpoonup> bool" where
  "apiWriteAllowed PlanTier1 = Some False"
| "apiWriteAllowed PlanTier2 = Some False"
| "apiWriteAllowed PlanTier3 = Some True"
| "apiWriteAllowed PlanTierCustom = Some True"
| "apiWriteAllowed _ = None"

fun apiRatePerMin :: "Plan \<rightharpoonup> int" where
  "apiRatePerMin PlanTier1 = Some 30"
| "apiRatePerMin PlanTier2 = Some 120"
| "apiRatePerMin PlanTier3 = Some 300"
| "apiRatePerMin PlanTierCustom = Some 600"
| "apiRatePerMin _ = None"

fun channelTypesAllowed :: "Plan \<rightharpoonup> string list" where
  "channelTypesAllowed PlanTier1 = Some [''discord'', ''smtp'', ''telegram'']"
| "channelTypesAllowed PlanTier2 = Some [''slack'', ''discord'', ''smtp'', ''email'', ''telegram'']"
| "channelTypesAllowed PlanTier3 = Some [''slack'', ''discord'', ''webhook'', ''smtp'', ''email'',
     ''telegram'', ''pagerduty'', ''opsgenie'', ''teams'']"
| "channelTypesAllowed PlanTierCustom = Some [''slack'', ''discord'', ''webhook'', ''smtp'',
     ''email'', ''telegram'', ''pagerduty'', ''opsgenie'', ''teams'', ''twilio'']"
| "channelTypesAllowed _ = None"

definition ChannelTypesAllowed :: "Plan \<Rightarrow> string list" where
  "ChannelTypesAllowed plan = table_or_free [] channelTypesAllowed plan"

record CheckNowLimits =
  cn_CooldownSeconds :: int
  cn_MaxPerWindow :: int
  cn_WindowSeconds :: int

fun checkNowLimits :: "Plan \<rightharpoonup> CheckNowLimits" where
  "checkNowLimits PlanTier1 = Some \<lparr>cn_CooldownSeconds = 60, cn_MaxPerWindow = 10, cn_WindowSeconds = 1800\<rparr>"
| "checkNowLimits PlanTier2 = Some \<lparr>cn_CooldownSeconds = 30, cn_MaxPerWindow = 30, cn_WindowSeconds = 1800\<rparr>"
| "checkNowLimits PlanTier3 = Some \<lparr>cn_CooldownSeconds = 20, cn_MaxPerWindow = 60, cn_WindowSeconds = 1800\<rparr>"
| "checkNowLimits PlanTierCustom = Some \<lparr>cn_CooldownSeconds = 10, cn_MaxPerWindow = 200, cn_WindowSeconds = 1800\<rparr>"
| "checkNowLimits _ = None"

definition CheckNowLimitsFor :: "Plan \<Rightarrow> CheckNowLimits" where
  "CheckNowLimitsFor plan =
     table_or_free \<lparr>cn_CooldownSeconds = 0, cn_MaxPerWindow = 0, cn_WindowSeconds = 0\<rparr> checkNowLimits plan"

definition Retention :: "Plan \<Rightarrow> int" where "Retention plan = table_or_free 0 retentionDays plan"

text \<open>The three feature flags index their map directly: a missing key reads as false.\<close>

definition flag :: "(Plan \<rightharpoonup> bool) \<Rightarrow> Plan \<Rightarrow> bool" where
  "flag tbl plan = (case tbl plan of Some b \<Rightarrow> b | None \<Rightarrow> False)"

definition CustomDomainAllowed :: "Plan \<Rightarrow> bool" where "CustomDomainAllowed plan = flag customDomainAllowed plan"
definition APIAccessAllowed :: "Plan \<Rightarrow> bool" where "APIAccessAllowed plan = flag apiAccessAllowed plan"
definition APIWriteAllowed :: "Plan \<Rightarrow> bool" where "APIWriteAllowed plan = flag apiWriteAllowed plan"

definition APIRatePerMin :: "Plan \<Rightarrow> int" where "APIRatePerMin plan = table_or_free 0 apiRatePerMin plan"

text \<open>The resolver the worker is wired with: every feature for every org.\<close>

record entitlement_Set =
  FailureSnapshot :: bool

definition AllOn_For :: "int \<Rightarrow> entitlement_Set" where
  "AllOn_For orgID = \<lparr>FailureSnapshot = True\<rparr>"

definition FailureSnapshotAllowed :: "Plan \<Rightarrow> bool" where "FailureSnapshotAllowed plan = True"

section \<open>The catalog\<close>

record PlanEntry =
  pe_Plan :: Plan
  pe_MonitorsCap :: int
  pe_MinIntervalSeconds :: int
  pe_SeatsCap :: int
  pe_StatusPagesCap :: int
  pe_RetentionDays :: int
  pe_RegionsAllowed :: "string list"
  pe_RegionsPerMonitorCap :: int
  pe_CustomDomainAllowed :: bool
  pe_APIAccessAllowed :: bool
  pe_APIWriteAllowed :: bool
  pe_APIRatePerMin :: int
  pe_ChannelTypes :: "string list"

definition catalogOrder :: "Plan list" where
  "catalogOrder = [PlanTier1, PlanTier2, PlanTier3, PlanTierCustom]"

text \<open>A direct map index \<open>m[k]\<close>: the zero value when the key is missing.\<close>

definition idx :: "'a \<Rightarrow> (Plan \<rightharpoonup> 'a) \<Rightarrow> Plan \<Rightarrow> 'a" where
  "idx zero m k = (case m k of Some v \<Rightarrow> v | None \<Rightarrow> zero)"

definition catalog_entry :: "Plan \<Rightarrow> PlanEntry" where
  "catalog_entry p =
     (let ml = idx zeroLimits monitorLimits p
      in \<lparr>pe_Plan = p, pe_MonitorsCap = ml_MonitorsCap ml,
          pe_MinIntervalSeconds = EffectiveIntervalFloor ml,
          pe_SeatsCap = idx 0 seatCaps p, pe_StatusPagesCap = idx 0 statusPageCaps p,
          pe_RetentionDays = idx 0 retentionDays p, pe_RegionsAllowed = ml_RegionsAllowed ml,
          pe_RegionsPerMonitorCap = ml_RegionsPerMonitorCap ml,
          pe_CustomDomainAllowed = idx False customDomainAllowed p,
          pe_APIAccessAllowed = idx False apiAccessAllowed p,
          pe_APIWriteAllowed = idx False apiWriteAllowed p,
          pe_APIRatePerMin = idx 0 apiRatePerMin p,
          pe_ChannelTypes = idx [] channelTypesAllowed p\<rparr>)"

definition Catalog :: "PlanEntry list" where "Catalog = map catalog_entry catalogOrder"

section \<open>The contract of a plan table\<close>

fun real_plan :: "Plan \<Rightarrow> bool" where
  "real_plan (PlanOther s) = False"
| "real_plan _ = True"

text \<open>The position of a plan on the price ladder; an unknown code counts as the free tier.\<close>

fun plan_rank :: "Plan \<Rightarrow> nat" where
  "plan_rank PlanTier1 = 0"
| "plan_rank PlanTier2 = 1"
| "plan_rank PlanTier3 = 2"
| "plan_rank PlanTierCustom = 3"
| "plan_rank (PlanOther s) = 0"

lemma in_loop_iff [simp]: "in_loop rs code \<longleftrightarrow> code \<in> set rs"
  by (induction rs) auto

lemma ParsePlan_real [simp]: "real_plan (ParsePlan s)"
  by (simp add: ParsePlan_def split: Plan.splits)

lemma IsKnownPlan_iff: "IsKnownPlan s \<longleftrightarrow> s \<in> {''tier1'', ''tier2'', ''tier3'', ''tierCustom''}"
  by (simp add: IsKnownPlan_def Plan_of_def)

text \<open>
  The interface: a table that has a row for every real plan and none for any other
  string, and a resolver that reads it and falls back to the free tier.
\<close>

locale plan_table =
  fixes tbl :: "Plan \<rightharpoonup> 'a"
    and resolve :: "Plan \<Rightarrow> 'a"
  assumes complete: "real_plan p \<Longrightarrow> tbl p = Some (resolve p)"
    and fallback: "\<not> real_plan p \<Longrightarrow> resolve p = resolve PlanTier1"
begin

lemma resolve_unknown [simp]: "resolve (PlanOther s) = resolve PlanTier1"
  by (rule fallback) simp

lemma row_of_stored: "tbl (ParsePlan s) = Some (resolve (ParsePlan s))"
  by (rule complete) simp

lemma bad_code_is_free: "\<not> IsKnownPlan s \<Longrightarrow> resolve (ParsePlan s) = resolve PlanTier1"
  by (auto simp: ParsePlan_def IsKnownPlan_def split: Plan.splits)

end

text \<open>A ladder orders the rows: no tier is worth less than a cheaper one.\<close>

locale plan_ladder = plan_table +
  fixes better :: "'a \<Rightarrow> 'a \<Rightarrow> bool"
  assumes better_refl: "better x x"
    and better_trans: "better x y \<Longrightarrow> better y z \<Longrightarrow> better x z"
    and step12: "better (resolve PlanTier1) (resolve PlanTier2)"
    and step23: "better (resolve PlanTier2) (resolve PlanTier3)"
    and step3c: "better (resolve PlanTier3) (resolve PlanTierCustom)"
begin

lemma ladder:
  assumes "plan_rank p \<le> plan_rank q"
  shows "better (resolve p) (resolve q)"
proof -
  note s = step12 step23 step3c better_trans [OF step12 step23] better_trans [OF step23 step3c]
    better_trans [OF better_trans [OF step12 step23] step3c] better_refl
  show ?thesis
    using assms s by (cases p; cases q; simp)
qed

lemma free_is_least: "better (resolve PlanTier1) (resolve p)"
  by (rule ladder) simp

end

text \<open>The tables of the source.\<close>

named_theorems plan_tables
lemmas plan_table_defs [plan_tables] = table_or_free_def SeatCap_def StatusPageCap_def Retention_def
  APIRatePerMin_def ChannelTypesAllowed_def CheckNowLimitsFor_def DefaultMonitors_MonitorLimits_def

fun_cases real_planE: "real_plan p"
fun_cases not_real_planE: "\<not> real_plan p"

interpretation seats: plan_ladder seatCaps "SeatCap org" "(\<le>)"
  by unfold_locales (auto simp: plan_tables elim!: real_planE not_real_planE)

interpretation pages: plan_ladder statusPageCaps "StatusPageCap org" "(\<le>)"
  by unfold_locales (auto simp: plan_tables elim!: real_planE not_real_planE)

interpretation retention: plan_ladder retentionDays Retention "(\<le>)"
  by unfold_locales (auto simp: plan_tables elim!: real_planE not_real_planE)

interpretation api_rate: plan_ladder apiRatePerMin APIRatePerMin "(\<le>)"
  by unfold_locales (auto simp: plan_tables elim!: real_planE not_real_planE)

interpretation channels: plan_ladder channelTypesAllowed ChannelTypesAllowed "\<lambda>a b. set a \<subseteq> set b"
  by unfold_locales (auto simp: plan_tables elim!: real_planE not_real_planE)

definition check_now_looser :: "CheckNowLimits \<Rightarrow> CheckNowLimits \<Rightarrow> bool" where
  "check_now_looser a b \<longleftrightarrow>
     cn_CooldownSeconds b \<le> cn_CooldownSeconds a \<and> cn_MaxPerWindow a \<le> cn_MaxPerWindow b
     \<and> cn_WindowSeconds a = cn_WindowSeconds b"

interpretation check_now: plan_ladder checkNowLimits CheckNowLimitsFor check_now_looser
  by unfold_locales (auto simp: plan_tables check_now_looser_def elim!: real_planE not_real_planE)

definition limits_wider :: "MonitorLimits \<Rightarrow> MonitorLimits \<Rightarrow> bool" where
  "limits_wider a b \<longleftrightarrow>
     ml_MonitorsCap a \<le> ml_MonitorsCap b
     \<and> EffectiveIntervalFloor b \<le> EffectiveIntervalFloor a
     \<and> set (ml_RegionsAllowed a) \<subseteq> set (ml_RegionsAllowed b)
     \<and> ml_RegionsPerMonitorCap a \<le> ml_RegionsPerMonitorCap b"

interpretation monitors: plan_ladder monitorLimits "DefaultMonitors_MonitorLimits org" limits_wider
  by unfold_locales
    (auto simp: plan_tables limits_wider_def EffectiveIntervalFloor_def
      HardIntervalFloorSeconds_def elim!: real_planE not_real_planE)

lemma flags_monotone:
  "plan_rank p \<le> plan_rank q \<Longrightarrow>
     (CustomDomainAllowed p \<longrightarrow> CustomDomainAllowed q)
     \<and> (APIAccessAllowed p \<longrightarrow> APIAccessAllowed q)
     \<and> (APIWriteAllowed p \<longrightarrow> APIWriteAllowed q)"
  by (cases p; cases q)
    (simp_all add: CustomDomainAllowed_def APIAccessAllowed_def APIWriteAllowed_def flag_def)

section \<open>Properties\<close>

text \<open>
  The tiers form a ladder in every dimension the resolvers expose: for a plan that is
  not below another on the ladder, no cap is smaller, no interval floor higher, no region,
  channel type or feature flag missing and the manual check limits no tighter.
\<close>

theorem plan_upgrade_never_loses:
  assumes "plan_rank p \<le> plan_rank q"
  shows "SeatCap org p \<le> SeatCap org q
    \<and> limits_wider (DefaultMonitors_MonitorLimits org p) (DefaultMonitors_MonitorLimits org q)
    \<and> StatusPageCap org p \<le> StatusPageCap org q
    \<and> Retention p \<le> Retention q
    \<and> APIRatePerMin p \<le> APIRatePerMin q
    \<and> set (ChannelTypesAllowed p) \<subseteq> set (ChannelTypesAllowed q)
    \<and> check_now_looser (CheckNowLimitsFor p) (CheckNowLimitsFor q)
    \<and> (CustomDomainAllowed p \<longrightarrow> CustomDomainAllowed q)
    \<and> (APIAccessAllowed p \<longrightarrow> APIAccessAllowed q)
    \<and> (APIWriteAllowed p \<longrightarrow> APIWriteAllowed q)"
  using seats.ladder [OF assms] monitors.ladder [OF assms] pages.ladder [OF assms]
    retention.ladder [OF assms] api_rate.ladder [OF assms] channels.ladder [OF assms]
    check_now.ladder [OF assms] flags_monotone [OF assms]
  by blast

theorem plan_upgrade_never_loses_witness:
  "plan_rank PlanTier2 \<le> plan_rank PlanTier3
   \<and> limits_wider (DefaultMonitors_MonitorLimits 1 PlanTier2) (DefaultMonitors_MonitorLimits 1 PlanTier3)
   \<and> ml_MonitorsCap (DefaultMonitors_MonitorLimits 1 PlanTier2) = 25"
proof -
  have h: "plan_rank PlanTier2 \<le> plan_rank PlanTier3" by simp
  show ?thesis
    using plan_upgrade_never_loses [OF h, of 1] h by (simp add: plan_tables)
qed

text \<open>
  A stored plan code that is not one of the four real ones never grants more than
  the free tier: parsing it gives the free tier, and every resolver answers for it exactly
  as it answers for the free tier, feature flags included.
\<close>

theorem unknown_plan_fails_safe:
  assumes "\<not> IsKnownPlan s"
  shows "ParsePlan s = PlanTier1
    \<and> SeatCap org (Plan_of s) = SeatCap org PlanTier1
    \<and> DefaultMonitors_MonitorLimits org (Plan_of s) = DefaultMonitors_MonitorLimits org PlanTier1
    \<and> StatusPageCap org (Plan_of s) = StatusPageCap org PlanTier1
    \<and> Retention (Plan_of s) = Retention PlanTier1
    \<and> APIRatePerMin (Plan_of s) = APIRatePerMin PlanTier1
    \<and> ChannelTypesAllowed (Plan_of s) = ChannelTypesAllowed PlanTier1
    \<and> CheckNowLimitsFor (Plan_of s) = CheckNowLimitsFor PlanTier1
    \<and> \<not> CustomDomainAllowed (Plan_of s) \<and> \<not> APIAccessAllowed (Plan_of s)
    \<and> \<not> APIWriteAllowed (Plan_of s)"
proof -
  have o: "Plan_of s = PlanOther s"
    using assms by (simp add: IsKnownPlan_iff Plan_of_def)
  show ?thesis
    by (simp add: o ParsePlan_def CustomDomainAllowed_def APIAccessAllowed_def APIWriteAllowed_def flag_def)
qed

theorem unknown_plan_fails_safe_witness:
  "\<not> IsKnownPlan ''enterprise'' \<and> ParsePlan ''enterprise'' = PlanTier1
   \<and> SeatCap 7 (Plan_of ''enterprise'') = 1"
proof -
  have h: "\<not> IsKnownPlan ''enterprise''" by (simp add: IsKnownPlan_iff)
  show ?thesis
    using unknown_plan_fails_safe [OF h, of 7] h by (simp add: plan_tables)
qed

text \<open>
  The public catalog shows the limits the server enforces: it lists the four tiers
  once each, cheapest first, and every entry equals what the resolvers answer for its
  plan; every listed region is a known one and the default region is always among them.
\<close>

theorem catalog_matches_resolvers:
  "map pe_Plan Catalog = catalogOrder \<and> distinct catalogOrder \<and> sorted (map plan_rank catalogOrder)
   \<and> (\<forall>e \<in> set Catalog.
        pe_MonitorsCap e = ml_MonitorsCap (DefaultMonitors_MonitorLimits org (pe_Plan e))
        \<and> pe_MinIntervalSeconds e
            = EffectiveIntervalFloor (DefaultMonitors_MonitorLimits org (pe_Plan e))
        \<and> pe_RegionsAllowed e = ml_RegionsAllowed (DefaultMonitors_MonitorLimits org (pe_Plan e))
        \<and> pe_SeatsCap e = SeatCap org (pe_Plan e)
        \<and> pe_StatusPagesCap e = StatusPageCap org (pe_Plan e)
        \<and> pe_RetentionDays e = Retention (pe_Plan e)
        \<and> pe_APIRatePerMin e = APIRatePerMin (pe_Plan e)
        \<and> pe_ChannelTypes e = ChannelTypesAllowed (pe_Plan e)
        \<and> pe_CustomDomainAllowed e = CustomDomainAllowed (pe_Plan e)
        \<and> pe_APIAccessAllowed e = APIAccessAllowed (pe_Plan e)
        \<and> pe_APIWriteAllowed e = APIWriteAllowed (pe_Plan e)
        \<and> (\<forall>r \<in> set (pe_RegionsAllowed e). Known r)
        \<and> DefaultRegion \<in> set (pe_RegionsAllowed e)
        \<and> HardIntervalFloorSeconds \<le> pe_MinIntervalSeconds e)"
  by (simp add: Catalog_def catalogOrder_def catalog_entry_def idx_def plan_tables
      CustomDomainAllowed_def APIAccessAllowed_def APIWriteAllowed_def flag_def Known_def
      AllRegions_def DefaultRegion_def EffectiveIntervalFloor_def HardIntervalFloorSeconds_def)

theorem catalog_matches_resolvers_witness:
  "\<exists>e \<in> set Catalog. pe_Plan e = PlanTier3 \<and> pe_SeatsCap e = SeatCap 1 PlanTier3
     \<and> pe_MinIntervalSeconds e = 60"
proof (rule bexI [of _ "catalog_entry PlanTier3"])
  show m: "catalog_entry PlanTier3 \<in> set Catalog"
    by (simp add: Catalog_def catalogOrder_def)
  show "pe_Plan (catalog_entry PlanTier3) = PlanTier3
        \<and> pe_SeatsCap (catalog_entry PlanTier3) = SeatCap 1 PlanTier3
        \<and> pe_MinIntervalSeconds (catalog_entry PlanTier3) = 60"
    using bspec [OF catalog_matches_resolvers [of 1, THEN conjunct2, THEN conjunct2, THEN conjunct2] m]
    by (simp add: catalog_entry_def idx_def EffectiveIntervalFloor_def HardIntervalFloorSeconds_def)
qed

end
