(* ===== verification/Pulse_Authz.thy ===== *)
theory Pulse_Authz
  imports Pulse_Domain
begin

text \<open>
  The role gate, \<open>internal/authz/authz.go\<close>: the permission set of each role, the pure
  decision \<open>Can\<close> with its guards, and the last-owner helper.  A role or an action the
  tables do not know reads as an empty set, as a missing key of the Go maps does.
\<close>

section \<open>Actions, actors, resources\<close>

datatype Action =
    ActionViewMonitoring | ActionManageMonitors | ActionManageChannels | ActionAckIncident
  | ActionCloseIncident | ActionManageStatusPages | ActionConfigureCustomDomain
  | ActionViewMembers | ActionInviteMember | ActionManageInvitation | ActionChangeMemberRole
  | ActionRemoveMember | ActionViewAuditLog | ActionEditOrgSettings | ActionManageAPIKeys
  | ActionManageWebhooks | ActionViewBilling | ActionManageBilling | ActionTransferOwnership
  | ActionDeleteOrganization | ActionCreateOrganization

datatype ActorKind = ActorHuman | ActorAPIKey

record Actor =
  actor_Kind :: ActorKind
  actor_UserID :: int
  actor_KeyID :: int
  actor_OrgID :: int
  actor_Role :: Role

text \<open>\<open>noRole\<close> is the empty string, the zero value of a role.\<close>

definition noRole :: Role where "noRole = RoleOther ''''"

record Resource =
  rsc_OrgID :: int
  rsc_TargetRole :: Role
  rsc_NewRole :: Role
  rsc_OwnerCount :: int

record Decision =
  dec_Allowed :: bool
  dec_Reason :: string

definition allow :: Decision where "allow = \<lparr>dec_Allowed = True, dec_Reason = ''''\<rparr>"
definition deny :: "string \<Rightarrow> Decision" where "deny r = \<lparr>dec_Allowed = False, dec_Reason = r\<rparr>"

section \<open>The permission table\<close>

fun roleActions :: "Role \<Rightarrow> Action list" where
  "roleActions RoleViewer = [ActionViewMonitoring, ActionViewMembers, ActionCreateOrganization]"
| "roleActions RoleMember = [ActionViewMonitoring, ActionViewMembers, ActionCreateOrganization,
     ActionManageMonitors, ActionManageChannels, ActionAckIncident, ActionManageStatusPages]"
| "roleActions RoleAdmin = [ActionViewMonitoring, ActionViewMembers, ActionCreateOrganization,
     ActionManageMonitors, ActionManageChannels, ActionAckIncident, ActionManageStatusPages,
     ActionCloseIncident, ActionConfigureCustomDomain, ActionInviteMember, ActionManageInvitation,
     ActionChangeMemberRole, ActionRemoveMember, ActionViewAuditLog, ActionEditOrgSettings,
     ActionManageAPIKeys, ActionManageWebhooks, ActionViewBilling]"
| "roleActions RoleOwner = [ActionViewMonitoring, ActionViewMembers, ActionCreateOrganization,
     ActionManageMonitors, ActionManageChannels, ActionAckIncident, ActionManageStatusPages,
     ActionCloseIncident, ActionConfigureCustomDomain, ActionInviteMember, ActionManageInvitation,
     ActionChangeMemberRole, ActionRemoveMember, ActionViewAuditLog, ActionEditOrgSettings,
     ActionManageAPIKeys, ActionManageWebhooks, ActionViewBilling,
     ActionManageBilling, ActionTransferOwnership, ActionDeleteOrganization]"
| "roleActions (RoleOther s) = []"

section \<open>The decision\<close>

fun ownerOnly :: "Action \<Rightarrow> bool" where
  "ownerOnly ActionManageBilling = True"
| "ownerOnly ActionTransferOwnership = True"
| "ownerOnly ActionDeleteOrganization = True"
| "ownerOnly _ = False"

definition isLastOwner :: "Resource \<Rightarrow> bool" where "isLastOwner r = (rsc_OwnerCount r \<le> 1)"

definition guardChangeRole :: "Actor \<Rightarrow> Resource \<Rightarrow> Decision" where
  "guardChangeRole actor r =
     (if actor_Role actor = RoleAdmin \<and> (rsc_TargetRole r = RoleOwner \<or> rsc_NewRole r = RoleOwner)
      then deny ''admin cannot change a role to or from owner''
      else if rsc_TargetRole r = RoleOwner \<and> rsc_NewRole r \<noteq> RoleOwner \<and> isLastOwner r
      then deny ''cannot demote the last owner; transfer ownership first''
      else allow)"

definition guardRemoveMember :: "Actor \<Rightarrow> Resource \<Rightarrow> Decision" where
  "guardRemoveMember actor r =
     (if actor_Role actor = RoleAdmin \<and> rsc_TargetRole r = RoleOwner
      then deny ''admin cannot remove an owner''
      else if rsc_TargetRole r = RoleOwner \<and> isLastOwner r
      then deny ''cannot remove the last owner; transfer ownership first''
      else allow)"

definition Can :: "Actor \<Rightarrow> Action \<Rightarrow> Resource \<Rightarrow> Decision" where
  "Can actor action resource =
     (if action \<noteq> ActionCreateOrganization \<and> rsc_OrgID resource \<noteq> 0
         \<and> rsc_OrgID resource \<noteq> actor_OrgID actor
      then deny ''resource belongs to another org''
      else if actor_Kind actor = ActorAPIKey \<and> ownerOnly action
      then deny ''api keys cannot perform owner-only actions''
      else if action \<notin> set (roleActions (actor_Role actor))
      then deny ''role not permitted''
      else case action of
             ActionChangeMemberRole \<Rightarrow> guardChangeRole actor resource
           | ActionRemoveMember \<Rightarrow> guardRemoveMember actor resource
           | _ \<Rightarrow> allow)"

definition EnsureNotLastOwner :: "Role \<Rightarrow> int \<Rightarrow> Decision" where
  "EnsureNotLastOwner targetRole ownerCount =
     (if targetRole = RoleOwner \<and> ownerCount \<le> 1
      then deny ''cannot remove the last owner; transfer ownership or delete the org''
      else allow)"

lemmas authz_defs = Can_def guardChangeRole_def guardRemoveMember_def isLastOwner_def
  EnsureNotLastOwner_def allow_def deny_def

section \<open>Properties\<close>

fun role_rank :: "Role \<Rightarrow> nat" where
  "role_rank (RoleOther s) = 0"
| "role_rank RoleViewer = 1"
| "role_rank RoleMember = 2"
| "role_rank RoleAdmin = 3"
| "role_rank RoleOwner = 4"

lemma roleActions_mono: "role_rank r \<le> role_rank r' \<Longrightarrow> set (roleActions r) \<subseteq> set (roleActions r')"
  by (cases r; cases r') auto

lemma ownerOnly_only_owner: "ownerOnly a \<Longrightarrow> a \<in> set (roleActions r) \<Longrightarrow> r = RoleOwner"
  by (cases r; cases a) auto

text \<open>
  Promoting an actor never takes a permission away: whatever \<open>Can\<close> allows with one
  role it allows, for the same action on the same resource, with every higher role.
\<close>

theorem Can_monotone_in_role:
  assumes "role_rank (actor_Role a) \<le> role_rank r"
    and "dec_Allowed (Can a act rsc)"
  shows "dec_Allowed (Can (a\<lparr>actor_Role := r\<rparr>) act rsc)"
proof -
  have in_r: "act \<in> set (roleActions r)"
    using assms roleActions_mono by (auto simp: authz_defs split: if_splits)
  moreover have "actor_Role a = RoleAdmin \<or> actor_Role a = RoleOwner"
    if "act = ActionChangeMemberRole \<or> act = ActionRemoveMember"
    using assms(2) that by (cases "actor_Role a") (auto simp: authz_defs split: if_splits)
  ultimately show ?thesis
    using assms by (cases r; cases act) (auto simp: authz_defs split: if_splits)
qed

definition ex_admin :: Actor where
  "ex_admin = \<lparr>actor_Kind = ActorHuman, actor_UserID = 1, actor_KeyID = 0, actor_OrgID = 5, actor_Role = RoleAdmin\<rparr>"

definition ex_resource :: Resource where
  "ex_resource = \<lparr>rsc_OrgID = 5, rsc_TargetRole = RoleMember, rsc_NewRole = RoleViewer, rsc_OwnerCount = 1\<rparr>"

theorem Can_monotone_in_role_witness:
  "role_rank (actor_Role ex_admin) \<le> role_rank RoleOwner
   \<and> dec_Allowed (Can ex_admin ActionChangeMemberRole ex_resource)
   \<and> dec_Allowed (Can (ex_admin\<lparr>actor_Role := RoleOwner\<rparr>) ActionChangeMemberRole ex_resource)"
proof -
  have h: "role_rank (actor_Role ex_admin) \<le> role_rank RoleOwner"
    "dec_Allowed (Can ex_admin ActionChangeMemberRole ex_resource)"
    by (simp_all add: ex_admin_def ex_resource_def authz_defs)
  show ?thesis using h Can_monotone_in_role [OF h] by simp
qed

text \<open>
  What an allowed action implies, whoever asks: the resource is in the actor's own org
  (org creation and org-less resources aside), an API key is never allowed an owner-only
  action whatever role is stamped on it, an owner-only action needs an owner, and only an
  owner may change a role to or from owner or remove an owner.
\<close>

theorem Can_allowed_implies:
  assumes "dec_Allowed (Can a act rsc)"
  shows "(act = ActionCreateOrganization \<or> rsc_OrgID rsc = 0 \<or> rsc_OrgID rsc = actor_OrgID a)
    \<and> (ownerOnly act \<longrightarrow> actor_Kind a = ActorHuman \<and> actor_Role a = RoleOwner)
    \<and> (act = ActionChangeMemberRole \<and> (rsc_TargetRole rsc = RoleOwner \<or> rsc_NewRole rsc = RoleOwner)
         \<longrightarrow> actor_Role a = RoleOwner)
    \<and> (act = ActionRemoveMember \<and> rsc_TargetRole rsc = RoleOwner \<longrightarrow> actor_Role a = RoleOwner)"
proof -
  have role: "act \<in> set (roleActions (actor_Role a))"
    using assms by (auto simp: authz_defs split: if_splits)
  show ?thesis
    using assms role ownerOnly_only_owner [OF _ role]
    by (cases "actor_Role a"; cases "actor_Kind a") (auto simp: authz_defs split: if_splits)
qed

theorem Can_allowed_implies_witness:
  "dec_Allowed (Can (ex_admin\<lparr>actor_Role := RoleOwner\<rparr>) ActionDeleteOrganization ex_resource)
   \<and> ownerOnly ActionDeleteOrganization \<and> actor_Kind (ex_admin\<lparr>actor_Role := RoleOwner\<rparr>) = ActorHuman"
proof -
  have h: "dec_Allowed (Can (ex_admin\<lparr>actor_Role := RoleOwner\<rparr>) ActionDeleteOrganization ex_resource)"
    by (simp add: ex_admin_def ex_resource_def authz_defs)
  show ?thesis using h Can_allowed_implies [OF h] by simp
qed

text \<open>The last-owner guards, in the form the membership component uses.\<close>

lemma Can_change_role_keeps_owner:
  "dec_Allowed (Can a ActionChangeMemberRole rsc) \<Longrightarrow> rsc_TargetRole rsc = RoleOwner \<Longrightarrow>
   rsc_NewRole rsc \<noteq> RoleOwner \<Longrightarrow> 1 < rsc_OwnerCount rsc"
  by (auto simp: authz_defs split: if_splits)

lemma Can_remove_keeps_owner:
  "dec_Allowed (Can a ActionRemoveMember rsc) \<Longrightarrow> rsc_TargetRole rsc = RoleOwner \<Longrightarrow>
   1 < rsc_OwnerCount rsc"
  by (auto simp: authz_defs split: if_splits)

end
