(* ===== verification/Pulse_Alerting.thy ===== *)
theory Pulse_Alerting
  imports Pulse_Domain
begin

text \<open>
  The pure alerting state machine, \<open>internal/alerting/alerting.go\<close>: \<open>Apply\<close> turns a
  monitor, a new check result and the stored alert state into a decision; it reads no
  clock and writes nothing.  The persistence of a decision is in \<open>Pulse_Incident_Store\<close>,
  the consumer around both in \<open>Pulse_Alert_Service\<close>.

  \<open>alert_next\<close> is the abstract effect of one applied decision on the alert state; the
  lemmas describe a whole run of results with it: the counters are those of the trailing
  run of failures, and an incident is open exactly when that run is long enough.
\<close>

section \<open>Decisions\<close>

datatype AlertAction = ActNone | ActOpenIncident | ActCloseIncident

datatype NotifyEventType = EventDown | EventRecovery

record AlertNotify =
  ne_Type :: NotifyEventType
  ne_WarnDays :: "int option"

record AlertDecision =
  ad_Action :: AlertAction
  ad_NewConsecutive :: int
  ad_NewFirstFailAt :: "time option"
  ad_IncidentStartedAt :: time
  ad_CauseReason :: FailureReason
  ad_IncidentEndedAt :: time
  ad_CloseReason :: "CloseReason option"
  ad_Renotify :: bool
  ad_NewSSLWarnedDays :: "int option"
  ad_Notify :: "AlertNotify option"

text \<open>A decision literal with the zero values of the fields the code leaves out.\<close>

definition base_decision :: "int \<Rightarrow> time option \<Rightarrow> AlertDecision" where
  "base_decision newConsecutive firstFailAt =
     \<lparr>ad_Action = ActNone, ad_NewConsecutive = newConsecutive, ad_NewFirstFailAt = firstFailAt,
      ad_IncidentStartedAt = zero_time, ad_CauseReason = ReasonOther '''',
      ad_IncidentEndedAt = zero_time, ad_CloseReason = None, ad_Renotify = False,
      ad_NewSSLWarnedDays = None, ad_Notify = None\<rparr>"

section \<open>Apply\<close>

definition applyHealthy :: "CheckResult \<Rightarrow> AlertState \<Rightarrow> AlertDecision" where
  "applyHealthy res state =
     (let d = base_decision 0 None
      in if as_OpenIncident state \<noteq> None
         then d\<lparr>ad_Action := ActCloseIncident, ad_IncidentEndedAt := res_CheckedAt res,
                ad_CloseReason := Some CloseRecovered,
                ad_Notify := Some \<lparr>ne_Type = EventRecovery, ne_WarnDays = None\<rparr>\<rparr>
         else d)"

definition sslLevel :: "CheckResult \<Rightarrow> int" where
  "sslLevel res =
     (case res_CertExpiresAt res of None \<Rightarrow> -1
      | Some expiresAt \<Rightarrow> SSLWarnLevel expiresAt (res_CheckedAt res))"

definition applyUnhealthy :: "Monitor \<Rightarrow> CheckResult \<Rightarrow> AlertState \<Rightarrow> AlertDecision" where
  "applyUnhealthy m res state =
     (let newConsecutive = as_ConsecutiveFails state + 1;
          firstFailAt = (if as_ConsecutiveFails state = 0 then Some (res_CheckedAt res)
                         else as_FirstFailAt state);
          isSSL = (mon_Type m = MonitorSSL);
          level = (if isSSL then sslLevel res else 0);
          d = (base_decision newConsecutive firstFailAt)
                \<lparr>ad_NewSSLWarnedDays := (if isSSL then as_SSLWarnedDays state else None)\<rparr>
      in if as_OpenIncident state \<noteq> None
         then (if isSSL \<and> (case as_SSLWarnedDays state of None \<Rightarrow> True | Some w \<Rightarrow> level < w)
               then d\<lparr>ad_NewSSLWarnedDays := Some level, ad_Renotify := True,
                      ad_Notify := Some \<lparr>ne_Type = EventDown, ne_WarnDays = Some level\<rparr>\<rparr>
               else d)
         else if newConsecutive < mon_FailureThreshold m then d
         else let startedAt = (case firstFailAt of None \<Rightarrow> res_CheckedAt res | Some t \<Rightarrow> t);
                  d' = d\<lparr>ad_Action := ActOpenIncident, ad_IncidentStartedAt := startedAt,
                         ad_CauseReason := (case res_FailureReason res of None \<Rightarrow> ad_CauseReason d
                                            | Some r \<Rightarrow> r)\<rparr>
              in if isSSL
                 then d'\<lparr>ad_NewSSLWarnedDays := Some level,
                         ad_Notify := Some \<lparr>ne_Type = EventDown, ne_WarnDays = Some level\<rparr>\<rparr>
                 else d'\<lparr>ad_Notify := Some \<lparr>ne_Type = EventDown, ne_WarnDays = None\<rparr>\<rparr>)"

definition Apply :: "Monitor \<Rightarrow> CheckResult \<Rightarrow> AlertState \<Rightarrow> AlertDecision" where
  "Apply m res state =
     (if res_Healthy res then applyHealthy res state else applyUnhealthy m res state)"

lemmas apply_defs = Apply_def applyHealthy_def applyUnhealthy_def base_decision_def Let_def

section \<open>The effect of an applied decision\<close>

definition opened :: "Monitor \<Rightarrow> int \<Rightarrow> int \<Rightarrow> AlertDecision \<Rightarrow> Incident" where
  "opened m iid rid d =
     \<lparr>inc_ID = iid, inc_OrgID = mon_OrgID m, inc_MonitorID = mon_ID m,
      inc_StartedAt = ad_IncidentStartedAt d, inc_EndedAt = None, inc_CauseReason = ad_CauseReason d,
      inc_CloseReason = None, inc_ClosedBy = None,
      inc_FirstResultID = (if rid = 0 then None else Some rid)\<rparr>"

text \<open>
  The alert state after result \<open>rid\<close> was applied, when the incident an opening decision
  creates gets number \<open>iid\<close>.
\<close>

definition alert_next :: "Monitor \<Rightarrow> int \<Rightarrow> int \<Rightarrow> CheckResult \<Rightarrow> AlertState \<Rightarrow> AlertState" where
  "alert_next m iid rid res st =
     (let d = Apply m res st
      in st\<lparr>as_ConsecutiveFails := ad_NewConsecutive d, as_FirstFailAt := ad_NewFirstFailAt d,
            as_OpenIncident := (case ad_Action d of
                ActOpenIncident \<Rightarrow> Some (opened m iid rid d)
              | ActCloseIncident \<Rightarrow> None
              | ActNone \<Rightarrow> as_OpenIncident st),
            as_LastAppliedResultID := Some rid, as_SSLWarnedDays := ad_NewSSLWarnedDays d\<rparr>)"

fun alert_run :: "Monitor \<Rightarrow> (int \<times> int \<times> CheckResult) list \<Rightarrow> AlertState \<Rightarrow> AlertState" where
  "alert_run m [] st = st"
| "alert_run m ((iid, rid, res) # rs) st = alert_run m rs (alert_next m iid rid res st)"

definition initial_state :: AlertState where
  "initial_state = \<lparr>as_ConsecutiveFails = 0, as_FirstFailAt = None, as_OpenIncident = None,
     as_LastAppliedResultID = None, as_SSLWarnedDays = None\<rparr>"

text \<open>The failures since the last healthy result, oldest first.\<close>

definition failing_run :: "(int \<times> int \<times> CheckResult) list \<Rightarrow> CheckResult list" where
  "failing_run rs = trailing (\<lambda>r. \<not> res_Healthy r) (map (\<lambda>(i, j, r). r) rs)"

definition open_threshold :: "Monitor \<Rightarrow> nat" where
  "open_threshold m = nat (max 1 (mon_FailureThreshold m))"

text \<open>The specification: what a run of results should leave behind.\<close>

definition matches_run :: "Monitor \<Rightarrow> CheckResult list \<Rightarrow> AlertState \<Rightarrow> bool" where
  "matches_run m run st \<longleftrightarrow>
     as_ConsecutiveFails st = int (length run)
     \<and> as_FirstFailAt st = (case run of [] \<Rightarrow> None | r # _ \<Rightarrow> Some (res_CheckedAt r))
     \<and> (case as_OpenIncident st of
          None \<Rightarrow> length run < open_threshold m
        | Some i \<Rightarrow> open_threshold m \<le> length run
                   \<and> inc_StartedAt i = res_CheckedAt (hd run)
                   \<and> inc_EndedAt i = None \<and> inc_MonitorID i = mon_ID m
                   \<and> inc_CauseReason i =
                       (case res_FailureReason (run ! (open_threshold m - 1)) of
                          None \<Rightarrow> ReasonOther '''' | Some c \<Rightarrow> c))"

lemma alert_run_append: "alert_run m (xs @ ys) st = alert_run m ys (alert_run m xs st)"
  by (induction xs arbitrary: st) auto

lemma open_threshold_pos: "0 < open_threshold m"
  by (simp add: open_threshold_def)

lemma Apply_healthy_fields:
  "res_Healthy res \<Longrightarrow> ad_NewConsecutive (Apply m res st) = 0 \<and> ad_NewFirstFailAt (Apply m res st) = None
     \<and> ad_NewSSLWarnedDays (Apply m res st) = None \<and> \<not> ad_Renotify (Apply m res st)
     \<and> ad_Action (Apply m res st) = (if as_OpenIncident st = None then ActNone else ActCloseIncident)
     \<and> ad_Notify (Apply m res st) = (if as_OpenIncident st = None then None
          else Some \<lparr>ne_Type = EventRecovery, ne_WarnDays = None\<rparr>)"
  by (simp add: apply_defs)

lemma Apply_unhealthy_fields:
  "\<not> res_Healthy res \<Longrightarrow>
     ad_NewConsecutive (Apply m res st) = as_ConsecutiveFails st + 1
     \<and> ad_NewFirstFailAt (Apply m res st) =
         (if as_ConsecutiveFails st = 0 then Some (res_CheckedAt res) else as_FirstFailAt st)
     \<and> ad_Action (Apply m res st) =
         (if as_OpenIncident st = None \<and> mon_FailureThreshold m \<le> as_ConsecutiveFails st + 1
          then ActOpenIncident else ActNone)
     \<and> (ad_Action (Apply m res st) = ActOpenIncident \<longrightarrow>
          ad_IncidentStartedAt (Apply m res st) =
            (if as_ConsecutiveFails st = 0 then res_CheckedAt res
             else case as_FirstFailAt st of None \<Rightarrow> res_CheckedAt res | Some t \<Rightarrow> t)
          \<and> ad_CauseReason (Apply m res st) =
            (case res_FailureReason res of None \<Rightarrow> ReasonOther '''' | Some c \<Rightarrow> c))"
  by (auto simp: apply_defs split: option.splits)

lemma matches_run_healthy:
  assumes "res_Healthy res"
  shows "matches_run m [] (alert_next m iid rid res st)"
proof -
  have "(case ad_Action (Apply m res st) of
           ActOpenIncident \<Rightarrow> Some (opened m iid rid (Apply m res st))
         | ActCloseIncident \<Rightarrow> None | ActNone \<Rightarrow> as_OpenIncident st) = None"
    using Apply_healthy_fields [OF assms, of m st] by (cases "as_OpenIncident st") auto
  then show ?thesis
    using Apply_healthy_fields [OF assms, of m st] open_threshold_pos [of m]
    by (simp add: matches_run_def alert_next_def Let_def)
qed

lemma matches_run_unhealthy_open:
  assumes "\<not> res_Healthy res" and "matches_run m run st" and "as_OpenIncident st = Some i"
  shows "matches_run m (run @ [res]) (alert_next m iid rid res st)"
proof -
  have ne: "run \<noteq> []" and le: "open_threshold m \<le> length run"
    using assms(2,3) open_threshold_pos [of m] by (auto simp: matches_run_def)
  then show ?thesis
    using assms Apply_unhealthy_fields [OF assms(1), of m st] open_threshold_pos [of m]
    by (auto simp: matches_run_def alert_next_def Let_def nth_append split: list.splits)
qed

lemma matches_run_unhealthy_closed:
  assumes "\<not> res_Healthy res" and "matches_run m run st" and "as_OpenIncident st = None"
  shows "matches_run m (run @ [res]) (alert_next m iid rid res st)"
proof -
  have len: "length run < open_threshold m" and c: "as_ConsecutiveFails st = int (length run)"
    using assms(2,3) by (auto simp: matches_run_def)
  have thr: "mon_FailureThreshold m \<le> as_ConsecutiveFails st + 1 \<longleftrightarrow> open_threshold m = Suc (length run)"
    using len c by (auto simp: open_threshold_def)
  show ?thesis
  proof (cases "open_threshold m = Suc (length run)")
    case True
    then show ?thesis
      using assms Apply_unhealthy_fields [OF assms(1), of m st] thr c
      by (cases run) (auto simp: matches_run_def alert_next_def Let_def opened_def nth_append)
  next
    case False
    then show ?thesis
      using assms Apply_unhealthy_fields [OF assms(1), of m st] thr c len
      by (cases run) (auto simp: matches_run_def alert_next_def Let_def)
  qed
qed

lemma matches_run_step:
  assumes "matches_run m run st"
  shows "matches_run m (if res_Healthy res then [] else run @ [res]) (alert_next m iid rid res st)"
  using assms matches_run_healthy matches_run_unhealthy_open matches_run_unhealthy_closed
  by (cases "as_OpenIncident st") auto

lemma failing_run_snoc:
  "failing_run (rs @ [(i, j, r)]) = (if res_Healthy r then [] else failing_run rs @ [r])"
  by (simp add: failing_run_def)

lemma alert_run_matches:
  assumes "matches_run m [] st"
  shows "matches_run m (failing_run rs) (alert_run m rs st)"
proof (induction rs rule: rev_induct)
  case Nil
  then show ?case using assms by (simp add: failing_run_def)
next
  case (snoc x rs)
  obtain i j r where x: "x = (i, j, r)" by (cases x) auto
  show ?case
    using matches_run_step [OF snoc.IH, of r i j]
    by (simp add: x alert_run_append failing_run_snoc split: if_splits)
qed

section \<open>Certificate warnings\<close>

text \<open>The warning levels notified while a run of results is applied, in order.\<close>

fun ssl_warnings :: "Monitor \<Rightarrow> (int \<times> int \<times> CheckResult) list \<Rightarrow> AlertState \<Rightarrow> int list" where
  "ssl_warnings m [] st = []"
| "ssl_warnings m ((iid, rid, res) # rs) st =
     (case ad_Notify (Apply m res st) of
        Some n \<Rightarrow> (case ne_WarnDays n of Some w \<Rightarrow> [w] | None \<Rightarrow> [])
      | None \<Rightarrow> []) @ ssl_warnings m rs (alert_next m iid rid res st)"

lemma sslLevel_values: "sslLevel res \<in> {-1, 0, 1, 3, 7}"
  using SSLWarnLevel_values by (auto simp: sslLevel_def split: option.split)

lemma Apply_open_ssl:
  assumes "mon_Type m = MonitorSSL" and "as_OpenIncident st \<noteq> None" and "as_SSLWarnedDays st = Some w"
    and "\<not> res_Healthy res"
  shows "ad_Notify (Apply m res st) =
           (if sslLevel res < w then Some \<lparr>ne_Type = EventDown, ne_WarnDays = Some (sslLevel res)\<rparr> else None)
         \<and> as_OpenIncident (alert_next m iid rid res st) \<noteq> None
         \<and> as_SSLWarnedDays (alert_next m iid rid res st) = Some (min w (sslLevel res))"
  using assms by (auto simp: apply_defs alert_next_def)

lemma ssl_warnings_below:
  assumes "mon_Type m = MonitorSSL" and "as_OpenIncident st \<noteq> None" and "as_SSLWarnedDays st = Some w"
    and "list_all (\<lambda>(i, j, r). \<not> res_Healthy r) rs"
  shows "sorted_wrt (>) (w # ssl_warnings m rs st) \<and> set (ssl_warnings m rs st) \<subseteq> {-1, 0, 1, 3, 7}"
  using assms(2-4)
proof (induction rs arbitrary: st w)
  case Nil
  then show ?case by simp
next
  case (Cons x rs)
  obtain iid rid res where x: "x = (iid, rid, res)" by (cases x) auto
  have h: "\<not> res_Healthy res" using Cons.prems(3) x by simp
  note f = Apply_open_ssl [OF assms(1) Cons.prems(1,2) h, of iid rid]
  have IH: "sorted_wrt (>) (min w (sslLevel res) # ssl_warnings m rs (alert_next m iid rid res st))
      \<and> set (ssl_warnings m rs (alert_next m iid rid res st)) \<subseteq> {-1, 0, 1, 3, 7}"
    using Cons.IH [of "alert_next m iid rid res st" "min w (sslLevel res)"] f Cons.prems(3) x by simp
  show ?case
  proof (cases "sslLevel res < w")
    case True
    then show ?thesis using f IH sslLevel_values [of res] x by auto
  next
    case False
    then show ?thesis using f IH x by (auto simp: min_def split: if_splits)
  qed
qed

lemma strictly_decreasing_bound:
  "sorted_wrt (>) (xs :: int list) \<Longrightarrow> set xs \<subseteq> {-1, 0, 1, 3, 7} \<Longrightarrow> length xs \<le> 5"
proof -
  assume s: "sorted_wrt (>) xs" and sub: "set xs \<subseteq> {-1, 0, 1, 3, 7}"
  have "distinct xs" using s by (induction xs) auto
  then have "length xs = card (set xs)" by (simp add: distinct_card)
  also have "\<dots> \<le> card {-1, 0, 1, 3, 7 :: int}" using sub by (intro card_mono) auto
  finally show ?thesis by simp
qed

text \<open>
  Warnings of an ssl incident only get tighter: while the incident of an ssl monitor
  stays open, the levels of the notifications are among -1, 0, 1, 3 and 7, each strictly
  below the one before and below the level the incident was already warned at, so that a
  certificate that keeps failing causes at most five of them however many checks run.
\<close>

theorem ssl_warnings_tighten:
  assumes "mon_Type m = MonitorSSL" and "as_OpenIncident st \<noteq> None" and "as_SSLWarnedDays st = Some w"
    and "list_all (\<lambda>(i, j, r). \<not> res_Healthy r) rs"
  shows "sorted_wrt (>) (w # ssl_warnings m rs st)
         \<and> set (ssl_warnings m rs st) \<subseteq> {-1, 0, 1, 3, 7} \<and> length (ssl_warnings m rs st) \<le> 5"
  using ssl_warnings_below [OF assms] strictly_decreasing_bound [of "ssl_warnings m rs st"] by simp

text \<open>
  One failure without an expiry date silences the expiry warnings: when an ssl check
  of an open incident fails without reading a certificate (a connection error), the warned
  level becomes -1 and no later failure of that incident notifies again, not even when the
  certificate crosses 3 days, 1 day or its expiry.
\<close>

theorem ssl_connection_error_masks_expiry:
  assumes "mon_Type m = MonitorSSL" and "as_OpenIncident st \<noteq> None" and "as_SSLWarnedDays st = Some w"
    and "\<not> res_Healthy res" and "res_CertExpiresAt res = None" and "-1 \<le> w"
    and "list_all (\<lambda>(i, j, r). \<not> res_Healthy r) rs"
  shows "ssl_warnings m rs (alert_next m iid rid res st) = []"
proof -
  have l: "sslLevel res = -1" using assms(5) by (simp add: sslLevel_def)
  let ?st = "alert_next m iid rid res st"
  have st: "as_OpenIncident ?st \<noteq> None" "as_SSLWarnedDays ?st = Some (-1)"
    using Apply_open_ssl [OF assms(1-4), of iid rid] l assms(6) by auto
  have b: "sorted_wrt (>) (-1 # ssl_warnings m rs ?st)" "set (ssl_warnings m rs ?st) \<subseteq> {-1, 0, 1, 3, 7}"
    using ssl_warnings_below [OF assms(1) st assms(7)] by auto
  then have "x \<notin> set (ssl_warnings m rs ?st)" for x by fastforce
  then show ?thesis by (metis list.set_intros(1) neq_Nil_conv)
qed

definition ex_ssl_down :: "time \<Rightarrow> time option \<Rightarrow> CheckResult" where
  "ex_ssl_down t expires = (ex_result t False)\<lparr>res_CertExpiresAt := expires\<rparr>"

definition ex_ssl_state :: AlertState where
  "ex_ssl_state = \<lparr>as_ConsecutiveFails = 1, as_FirstFailAt = Some 0, as_OpenIncident = Some ex_open_incident,
     as_LastAppliedResultID = Some 1, as_SSLWarnedDays = Some 7\<rparr>"

theorem ssl_warnings_tighten_witness:
  "ssl_warnings (ex_monitor 1 MonitorSSL)
     [(0, 2, ex_ssl_down 0 (Some (24 * Hour))), (0, 3, ex_ssl_down 1 (Some (24 * Hour))),
      (0, 4, ex_ssl_down (24 * Hour) (Some (24 * Hour)))] ex_ssl_state = [1, 0]
   \<and> sorted_wrt (>) [7, 1, 0 :: int]"
proof -
  let ?rs = "[(0, 2, ex_ssl_down 0 (Some (24 * Hour))), (0, 3, ex_ssl_down 1 (Some (24 * Hour))),
      (0, 4, ex_ssl_down (24 * Hour) (Some (24 * Hour)))]"
  have eval: "ssl_warnings (ex_monitor 1 MonitorSSL) ?rs ex_ssl_state = [1, 0]"
    by (simp add: ex_ssl_state_def ex_ssl_down_def ex_result_def ex_monitor_def apply_defs alert_next_def
        sslLevel_def SSLWarnLevel_cases duration_defs)
  have "sorted_wrt (>) (7 # ssl_warnings (ex_monitor 1 MonitorSSL) ?rs ex_ssl_state)"
    using ssl_warnings_tighten [of "ex_monitor 1 MonitorSSL" ex_ssl_state 7 ?rs]
    by (simp add: ex_monitor_def ex_ssl_state_def ex_ssl_down_def ex_result_def del: ssl_warnings.simps)
  then show ?thesis by (simp only: eval)
qed

theorem ssl_connection_error_masks_expiry_witness:
  "ssl_warnings (ex_monitor 1 MonitorSSL) [(0, 3, ex_ssl_down (24 * Hour) (Some (24 * Hour)))]
     (alert_next (ex_monitor 1 MonitorSSL) 0 2 (ex_ssl_down 5 None) ex_ssl_state) = []"
  using ssl_connection_error_masks_expiry [of "ex_monitor 1 MonitorSSL" ex_ssl_state 7 "ex_ssl_down 5 None"
      "[(0, 3, ex_ssl_down (24 * Hour) (Some (24 * Hour)))]" 0 2]
  by (simp add: ex_monitor_def ex_ssl_state_def ex_ssl_down_def ex_result_def del: ssl_warnings.simps)

end
