(* ===== verification/Pulse_Incident_Store.thy ===== *)
theory Pulse_Incident_Store
  imports Pulse_Alerting Pulse_Entitlements
begin

text \<open>
  The tables behind monitoring and alerting and the store operations on them:
  \<open>internal/store/monitors.go\<close>, \<open>internal/store/incidents.go\<close> and the transaction wrapper
  \<open>WithOrg\<close> of \<open>internal/store/store.go\<close>.

  A table is the list of its rows in insertion order; an identity column is a counter that
  an insert advances whether or not the row survives.  An SQL statement is the table
  operation it denotes together with the constraints of \<open>schema.sql\<close> it can run into: the
  foreign keys, the unique key of \<open>check_results\<close> and the partial unique index
  \<open>uniq_incident_open\<close>.  \<open>WithOrg\<close> runs its body in a transaction: a body that fails is
  rolled back, and the connection may be lost before the transaction runs or after it
  committed, so that the caller sees an error in both cases.

  \<open>wf_db\<close> is the invariant of the tables.
\<close>

section \<open>The tables\<close>

datatype db_error = ErrNoRows | ErrIncidentNotOpen | ErrForeignKey | ErrUnique | ErrCheck | ErrCipher | ErrConn

record MonitorRow =
  row_Monitor :: Monitor
  row_ConsecutiveFails :: int
  row_FirstFailAt :: "time option"
  row_LastAppliedResultID :: "int option"
  row_SSLWarnedDays :: "int option"

record LastFailureRow =
  lf_MonitorID :: int
  lf_OrgID :: int
  lf_CheckedAt :: time
  lf_Snapshot :: ResponseSnapshot

record CertRow =
  cr_MonitorID :: int
  cr_OrgID :: int
  cr_Cert :: CertInfo
  cr_CheckedAt :: time

record db =
  db_orgs :: "int list"
  db_monitors :: "MonitorRow list"
  db_results :: "CheckResult list"
  db_incidents :: "Incident list"
  db_annotations :: "IncidentAnnotation list"
  db_last_failures :: "LastFailureRow list"
  db_certs :: "CertRow list"
  db_next_monitor :: int
  db_next_result :: int
  db_next_incident :: int
  db_next_annotation :: int

type_synonym 'a tx = "db \<Rightarrow> (db_error + 'a) \<times> db"

text \<open>What can go wrong around one transaction.\<close>

datatype fault = NoFault | FaultBefore | FaultAfterCommit

text \<open>A rollback undoes every row but not the numbers an identity column handed out.\<close>

definition rolled_back :: "db \<Rightarrow> db \<Rightarrow> db" where
  "rolled_back before failed =
     before\<lparr>db_next_monitor := db_next_monitor failed, db_next_result := db_next_result failed,
            db_next_incident := db_next_incident failed,
            db_next_annotation := db_next_annotation failed\<rparr>"

definition WithOrg :: "fault \<Rightarrow> 'a tx \<Rightarrow> 'a tx" where
  "WithOrg f fn db =
     (if f = FaultBefore then (Inl ErrConn, db)
      else case fn db of
             (Inl e, db') \<Rightarrow> (Inl e, rolled_back db db')
           | (Inr a, db') \<Rightarrow> (if f = FaultAfterCommit then Inl ErrConn else Inr a, db'))"

section \<open>Monitors\<close>

abbreviation row_ID :: "MonitorRow \<Rightarrow> int" where "row_ID r \<equiv> mon_ID (row_Monitor r)"
abbreviation row_OrgID :: "MonitorRow \<Rightarrow> int" where "row_OrgID r \<equiv> mon_OrgID (row_Monitor r)"

definition select_monitor :: "db \<Rightarrow> int \<Rightarrow> int \<Rightarrow> MonitorRow option" where
  "select_monitor db orgID monitorID =
     find (\<lambda>r. row_ID r = monitorID \<and> row_OrgID r = orgID) (db_monitors db)"

definition monitor_exists :: "db \<Rightarrow> int \<Rightarrow> bool" where
  "monitor_exists db monitorID \<longleftrightarrow> monitorID \<in> set (map row_ID (db_monitors db))"

text \<open>
  The secret cipher of the pool, absent in a development setup: an encryption and a
  decryption that may fail.  The code of both is in \<open>internal/crypto\<close>, over AES-GCM.
\<close>

type_synonym cipher = "((string \<Rightarrow> string option) \<times> (string \<Rightarrow> string option)) option"

fun encodeHeaders :: "cipher \<Rightarrow> Header list \<Rightarrow> Header list option" where
  "encodeHeaders c [] = Some []"
| "encodeHeaders c (h # hs) =
     (case (if hdr_Secret h \<and> hdr_Value h \<noteq> '''' \<and> c \<noteq> None
            then map_option (\<lambda>v. h\<lparr>hdr_Value := v\<rparr>) (fst (the c) (hdr_Value h))
            else Some h) of
        None \<Rightarrow> None
      | Some h' \<Rightarrow> map_option (\<lambda>hs'. h' # hs') (encodeHeaders c hs))"

fun decodeHeaders :: "cipher \<Rightarrow> Header list \<Rightarrow> Header list option" where
  "decodeHeaders c [] = Some []"
| "decodeHeaders c (h # hs) =
     (case (if hdr_Secret h \<and> hdr_Value h \<noteq> '''' \<and> c \<noteq> None
            then map_option (\<lambda>v. h\<lparr>hdr_Value := v\<rparr>) (snd (the c) (hdr_Value h))
            else Some h) of
        None \<Rightarrow> None
      | Some h' \<Rightarrow> map_option (\<lambda>hs'. h' # hs') (decodeHeaders c hs))"

definition scanMonitor :: "cipher \<Rightarrow> Monitor \<Rightarrow> db_error + Monitor" where
  "scanMonitor c m =
     (case decodeHeaders c (mon_Headers m) of
        None \<Rightarrow> Inl ErrCipher
      | Some hs \<Rightarrow> Inr (m\<lparr>mon_Headers := hs\<rparr>))"

definition GetMonitor :: "fault \<Rightarrow> cipher \<Rightarrow> int \<Rightarrow> int \<Rightarrow> Monitor tx" where
  "GetMonitor f c orgID monitorID = WithOrg f (\<lambda>db.
     (case select_monitor db orgID monitorID of
        None \<Rightarrow> Inl ErrNoRows
      | Some r \<Rightarrow> scanMonitor c (row_Monitor r), db))"

text \<open>The defaults both writes fill in before they encode the headers.\<close>

definition monitor_defaults :: "Monitor \<Rightarrow> Monitor" where
  "monitor_defaults m =
     (let m1 = (if mon_Type m = MonitorTypeOther '''' then m\<lparr>mon_Type := MonitorHTTP\<rparr> else m);
          m2 = (if mon_DownPolicy m1 = DownPolicyOther '''' then m1\<lparr>mon_DownPolicy := DownPolicyQuorum\<rparr>
                else m1)
      in if mon_Regions m2 = [] then m2\<lparr>mon_Regions := [DefaultRegion]\<rparr> else m2)"

definition CreateMonitor :: "fault \<Rightarrow> cipher \<Rightarrow> time \<Rightarrow> Monitor \<Rightarrow> int tx" where
  "CreateMonitor f c now m =
     (let m1 = monitor_defaults m
      in case encodeHeaders c (mon_Headers m1) of
           None \<Rightarrow> (\<lambda>db. (Inl ErrCipher, db))
         | Some headers \<Rightarrow> WithOrg f (\<lambda>db.
             (let newID = db_next_monitor db;
                  db1 = db\<lparr>db_next_monitor := newID + 1\<rparr>;
                  row = \<lparr>row_Monitor = m1\<lparr>mon_ID := newID, mon_Headers := headers,
                                         mon_CreatedAt := now, mon_UpdatedAt := now\<rparr>,
                         row_ConsecutiveFails = 0, row_FirstFailAt = None,
                         row_LastAppliedResultID = None, row_SSLWarnedDays = None\<rparr>
              in if mon_OrgID m1 \<notin> set (db_orgs db) then (Inl ErrForeignKey, db1)
                 else (Inr newID, db1\<lparr>db_monitors := db_monitors db @ [row]\<rparr>))))"

text \<open>An update leaves the alert columns, the id, the org and the creation time alone.\<close>

definition UpdateMonitor :: "fault \<Rightarrow> cipher \<Rightarrow> time \<Rightarrow> Monitor \<Rightarrow> Monitor tx" where
  "UpdateMonitor f c now m =
     (let m1 = monitor_defaults m
      in case encodeHeaders c (mon_Headers m1) of
           None \<Rightarrow> (\<lambda>db. (Inl ErrCipher, db))
         | Some headers \<Rightarrow> WithOrg f (\<lambda>db.
             (case select_monitor db (mon_OrgID m1) (mon_ID m1) of
                None \<Rightarrow> (Inl ErrNoRows, db)
              | Some old \<Rightarrow>
                  let new = m1\<lparr>mon_Headers := headers, mon_UpdatedAt := now,
                               mon_CreatedAt := mon_CreatedAt (row_Monitor old)\<rparr>
                  in (scanMonitor c new,
                      db\<lparr>db_monitors := map (\<lambda>r.
                           if row_ID r = mon_ID m1 \<and> row_OrgID r = mon_OrgID m1
                           then r\<lparr>row_Monitor := new\<rparr> else r) (db_monitors db)\<rparr>))))"

text \<open>
  A delete cascades to the results, the incidents, their annotations, the last failure and
  the certificate; an incident elsewhere that points at a deleted result loses the link.
\<close>

definition DeleteMonitor :: "fault \<Rightarrow> int \<Rightarrow> int \<Rightarrow> int tx" where
  "DeleteMonitor f orgID monitorID = WithOrg f (\<lambda>db.
     if select_monitor db orgID monitorID = None then (Inr 0, db)
     else
       let goneResults = map res_ID (filter (\<lambda>r. res_MonitorID r = monitorID) (db_results db));
           goneIncidents = map inc_ID (filter (\<lambda>i. inc_MonitorID i = monitorID) (db_incidents db))
       in (Inr 1,
           db\<lparr>db_monitors := filter (\<lambda>r. \<not> (row_ID r = monitorID \<and> row_OrgID r = orgID)) (db_monitors db),
              db_results := filter (\<lambda>r. res_MonitorID r \<noteq> monitorID) (db_results db),
              db_incidents := map (\<lambda>i. case inc_FirstResultID i of
                     Some rid \<Rightarrow> if rid \<in> set goneResults then i\<lparr>inc_FirstResultID := None\<rparr> else i
                   | None \<Rightarrow> i)
                 (filter (\<lambda>i. inc_MonitorID i \<noteq> monitorID) (db_incidents db)),
              db_annotations := filter (\<lambda>a. ann_IncidentID a \<notin> set goneIncidents) (db_annotations db),
              db_last_failures := filter (\<lambda>l. lf_MonitorID l \<noteq> monitorID) (db_last_failures db),
              db_certs := filter (\<lambda>l. cr_MonitorID l \<noteq> monitorID) (db_certs db)\<rparr>))"

definition CountEnabledMonitors :: "fault \<Rightarrow> int \<Rightarrow> int tx" where
  "CountEnabledMonitors f orgID = WithOrg f (\<lambda>db.
     (Inr (int (length (filter (\<lambda>r. row_OrgID r = orgID \<and> mon_Enabled (row_Monitor r)) (db_monitors db)))),
      db))"

text \<open>\<open>ORDER BY ... DESC\<close> of the list reads, a stable sort on the key.\<close>

definition order_desc :: "('a \<Rightarrow> int) \<Rightarrow> 'a list \<Rightarrow> 'a list" where
  "order_desc key xs = sort_key (\<lambda>x. - key x) xs"

definition last_result :: "db \<Rightarrow> int \<Rightarrow> CheckResult option" where
  "last_result db monitorID =
     (case order_desc res_CheckedAt (filter (\<lambda>r. res_MonitorID r = monitorID) (db_results db)) of
        [] \<Rightarrow> None | r # _ \<Rightarrow> Some r)"

record EnabledMonitor =
  em_Monitor :: Monitor
  em_LastCheckedAt :: "time option"

text \<open>A read of many rows fails on the first row whose headers do not decrypt.\<close>

fun scan_all :: "('a \<Rightarrow> db_error + 'b) \<Rightarrow> 'a list \<Rightarrow> db_error + 'b list" where
  "scan_all scan [] = Inr []"
| "scan_all scan (x # xs) =
     (case scan x of Inl e \<Rightarrow> Inl e
      | Inr y \<Rightarrow> (case scan_all scan xs of Inl e \<Rightarrow> Inl e | Inr ys \<Rightarrow> Inr (y # ys)))"

lemma scan_all_map: "scan_all scan xs = Inr ys \<Longrightarrow> (\<And>x y. scan x = Inr y \<Longrightarrow> g y = h x) \<Longrightarrow> map g ys = map h xs"
  by (induction xs arbitrary: ys) (auto split: sum.splits)

definition ListEnabledMonitorsWithLastCheck :: "fault \<Rightarrow> cipher \<Rightarrow> db \<Rightarrow> db_error + EnabledMonitor list" where
  "ListEnabledMonitorsWithLastCheck f c db =
     (if f \<noteq> NoFault then Inl ErrConn
      else scan_all (\<lambda>r. case scanMonitor c (row_Monitor r) of Inl e \<Rightarrow> Inl e
                      | Inr m \<Rightarrow> Inr \<lparr>em_Monitor = m,
                          em_LastCheckedAt = map_option res_CheckedAt (last_result db (mon_ID m))\<rparr>)
             (filter (\<lambda>r. mon_Enabled (row_Monitor r)) (db_monitors db)))"

record MonitorListRow =
  mlr_Monitor :: Monitor
  mlr_LastCheckedAt :: "time option"
  mlr_LastLatencyMs :: "int option"
  mlr_LastHealthy :: "bool option"
  mlr_IncidentOpen :: bool
  mlr_CertExpiresAt :: "time option"

definition scanMonitorListRow :: "cipher \<Rightarrow> db \<Rightarrow> MonitorRow \<Rightarrow> db_error + MonitorListRow" where
  "scanMonitorListRow c db r =
     (case scanMonitor c (row_Monitor r) of Inl e \<Rightarrow> Inl e
      | Inr m \<Rightarrow>
         let last = last_result db (mon_ID m)
         in Inr \<lparr>mlr_Monitor = m, mlr_LastCheckedAt = map_option res_CheckedAt last,
                 mlr_LastLatencyMs = Option.bind last res_LatencyMs,
                 mlr_LastHealthy = map_option res_Healthy last,
                 mlr_IncidentOpen = (\<exists>i \<in> set (db_incidents db). inc_MonitorID i = mon_ID m \<and> inc_EndedAt i = None),
                 mlr_CertExpiresAt = map_option (\<lambda>cr. cert_NotAfter (cr_Cert cr))
                    (find (\<lambda>cr. cr_MonitorID cr = mon_ID m) (db_certs db))\<rparr>)"

definition ListMonitors :: "fault \<Rightarrow> cipher \<Rightarrow> int \<Rightarrow> MonitorListRow list tx" where
  "ListMonitors f c orgID = WithOrg f (\<lambda>db.
     (scan_all (scanMonitorListRow c db)
        (sort_key row_ID (filter (\<lambda>r. row_OrgID r = orgID) (db_monitors db))), db))"

section \<open>Check results\<close>

text \<open>The columns of a stored result: the snapshot and the certificate are not among them.\<close>

definition result_row :: "int \<Rightarrow> CheckResult \<Rightarrow> CheckResult" where
  "result_row rid r = r\<lparr>res_ID := rid, res_Snapshot := None, res_CertInfo := None\<rparr>"

definition same_result_key :: "CheckResult \<Rightarrow> CheckResult \<Rightarrow> bool" where
  "same_result_key r s \<longleftrightarrow> res_OrgID r = res_OrgID s \<and> res_MonitorID r = res_MonitorID s
     \<and> res_Region r = res_Region s \<and> res_CheckedAt r = res_CheckedAt s"

definition find_result :: "db \<Rightarrow> CheckResult \<Rightarrow> CheckResult option" where
  "find_result db r = find (same_result_key r) (db_results db)"

text \<open>
  The identity column advances before the conflict is found.  The foreign keys are checked
  for a row that is inserted; the row a conflict keeps already satisfies them.
\<close>

definition UpsertCheckResult :: "fault \<Rightarrow> CheckResult \<Rightarrow> int tx" where
  "UpsertCheckResult f r = WithOrg f (\<lambda>db.
     let newID = db_next_result db;
         db1 = db\<lparr>db_next_result := newID + 1\<rparr>
     in case find_result db r of
          Some old \<Rightarrow> (Inr (res_ID old), db1)
        | None \<Rightarrow>
            if res_OrgID r \<in> set (db_orgs db) \<and> monitor_exists db (res_MonitorID r)
            then (Inr newID, db1\<lparr>db_results := db_results db @ [result_row newID r]\<rparr>)
            else (Inl ErrForeignKey, db1))"

definition InsertCheckResult :: "fault \<Rightarrow> CheckResult \<Rightarrow> unit tx" where
  "InsertCheckResult f r = WithOrg f (\<lambda>db.
     let newID = db_next_result db;
         db1 = db\<lparr>db_next_result := newID + 1\<rparr>
     in case find_result db r of
          Some old \<Rightarrow> (Inr (), db1)
        | None \<Rightarrow>
            if res_OrgID r \<in> set (db_orgs db) \<and> monitor_exists db (res_MonitorID r)
            then (Inr (), db1\<lparr>db_results := db_results db @ [result_row newID r]\<rparr>)
            else (Inl ErrForeignKey, db1))"

definition page_limit :: "int \<Rightarrow> nat" where
  "page_limit limit = nat (if limit \<le> 0 \<or> limit > 500 then 100 else limit)"

definition ListResults :: "fault \<Rightarrow> int \<Rightarrow> int \<Rightarrow> time \<Rightarrow> time option \<Rightarrow> string \<Rightarrow> int \<Rightarrow> CheckResult list tx" where
  "ListResults f orgID monitorID since before region limit = WithOrg f (\<lambda>db.
     (Inr (take (page_limit limit) (order_desc res_CheckedAt
        (filter (\<lambda>r. res_MonitorID r = monitorID \<and> res_OrgID r = orgID \<and> since \<le> res_CheckedAt r
           \<and> (case before of None \<Rightarrow> True | Some b \<Rightarrow> res_CheckedAt r < b)
           \<and> (region = '''' \<or> res_Region r = region)) (db_results db)))), db))"

definition UpsertMonitorLastFailure :: "fault \<Rightarrow> int \<Rightarrow> int \<Rightarrow> ResponseSnapshot \<Rightarrow> time \<Rightarrow> unit tx" where
  "UpsertMonitorLastFailure f orgID monitorID snap checkedAt = WithOrg f (\<lambda>db.
     let row = \<lparr>lf_MonitorID = monitorID, lf_OrgID = orgID, lf_CheckedAt = checkedAt, lf_Snapshot = snap\<rparr>
     in if orgID \<notin> set (db_orgs db) \<or> \<not> monitor_exists db monitorID then (Inl ErrForeignKey, db)
        else if monitorID \<in> set (map lf_MonitorID (db_last_failures db))
        then (Inr (), db\<lparr>db_last_failures :=
               map (\<lambda>l. if lf_MonitorID l = monitorID then row else l) (db_last_failures db)\<rparr>)
        else (Inr (), db\<lparr>db_last_failures := db_last_failures db @ [row]\<rparr>))"

definition UpsertMonitorCert :: "fault \<Rightarrow> int \<Rightarrow> int \<Rightarrow> CertInfo \<Rightarrow> time \<Rightarrow> unit tx" where
  "UpsertMonitorCert f orgID monitorID c checkedAt = WithOrg f (\<lambda>db.
     let row = \<lparr>cr_MonitorID = monitorID, cr_OrgID = orgID, cr_Cert = c, cr_CheckedAt = checkedAt\<rparr>
     in if orgID \<notin> set (db_orgs db) \<or> \<not> monitor_exists db monitorID then (Inl ErrForeignKey, db)
        else if monitorID \<in> set (map cr_MonitorID (db_certs db))
        then (Inr (), db\<lparr>db_certs :=
               map (\<lambda>l. if cr_MonitorID l = monitorID then row else l) (db_certs db)\<rparr>)
        else (Inr (), db\<lparr>db_certs := db_certs db @ [row]\<rparr>))"

definition GetMonitorCert :: "fault \<Rightarrow> int \<Rightarrow> int \<Rightarrow> CertInfo option tx" where
  "GetMonitorCert f orgID monitorID = WithOrg f (\<lambda>db.
     (Inr (map_option cr_Cert (find (\<lambda>c. cr_MonitorID c = monitorID \<and> cr_OrgID c = orgID) (db_certs db))), db))"

section \<open>Incidents\<close>

definition is_open :: "Incident \<Rightarrow> bool" where "is_open i \<longleftrightarrow> inc_EndedAt i = None"

definition getOpenIncidentTx :: "db \<Rightarrow> int \<Rightarrow> int \<Rightarrow> Incident option" where
  "getOpenIncidentTx db orgID monitorID =
     find (\<lambda>i. inc_MonitorID i = monitorID \<and> inc_OrgID i = orgID \<and> is_open i) (db_incidents db)"

definition scanAlertState :: "MonitorRow \<Rightarrow> AlertState" where
  "scanAlertState r =
     \<lparr>as_ConsecutiveFails = row_ConsecutiveFails r, as_FirstFailAt = row_FirstFailAt r,
      as_OpenIncident = None, as_LastAppliedResultID = row_LastAppliedResultID r,
      as_SSLWarnedDays = row_SSLWarnedDays r\<rparr>"

definition GetAlertState :: "fault \<Rightarrow> int \<Rightarrow> int \<Rightarrow> AlertState tx" where
  "GetAlertState f orgID monitorID = WithOrg f (\<lambda>db.
     (case select_monitor db orgID monitorID of
        None \<Rightarrow> Inl ErrNoRows
      | Some r \<Rightarrow> Inr ((scanAlertState r)\<lparr>as_OpenIncident := getOpenIncidentTx db orgID monitorID\<rparr>), db))"

datatype IncidentAction = IncidentNone | IncidentOpen | IncidentClose

record StoreDecision =
  sd_Action :: IncidentAction
  sd_NewConsecutive :: int
  sd_NewFirstFailAt :: "time option"
  sd_IncidentStartedAt :: time
  sd_CauseReason :: FailureReason
  sd_IncidentEndedAt :: time
  sd_NewSSLWarnedDays :: "int option"
  sd_Renotify :: bool

record AppliedDecision =
  apd_Applied :: bool
  apd_Skipped :: bool
  apd_Incident :: "Incident option"

definition no_decision :: AppliedDecision where
  "no_decision = \<lparr>apd_Applied = False, apd_Skipped = False, apd_Incident = None\<rparr>"

text \<open>
  The insert guarded by \<open>uniq_incident_open\<close>: it advances the identity column and returns
  no row when some incident of the monitor is open.
\<close>

definition insert_incident :: "Monitor \<Rightarrow> int \<Rightarrow> StoreDecision \<Rightarrow> db \<Rightarrow> Incident option \<times> db" where
  "insert_incident m firstResultID d db =
     (let newID = db_next_incident db;
          db1 = db\<lparr>db_next_incident := newID + 1\<rparr>;
          inc = \<lparr>inc_ID = newID, inc_OrgID = mon_OrgID m, inc_MonitorID = mon_ID m,
                 inc_StartedAt = sd_IncidentStartedAt d, inc_EndedAt = None,
                 inc_CauseReason = sd_CauseReason d, inc_CloseReason = None, inc_ClosedBy = None,
                 inc_FirstResultID = (if firstResultID \<noteq> 0 then Some firstResultID else None)\<rparr>
      in if \<exists>i \<in> set (db_incidents db). inc_MonitorID i = mon_ID m \<and> is_open i then (None, db1)
         else (Some inc, db1\<lparr>db_incidents := db_incidents db @ [inc]\<rparr>))"

text \<open>\<open>UPDATE incidents SET ... WHERE id = $n AND ended_at IS NULL\<close>.\<close>

definition close_incident :: "int \<Rightarrow> (Incident \<Rightarrow> Incident) \<Rightarrow> db \<Rightarrow> db" where
  "close_incident iid upd db =
     db\<lparr>db_incidents := map (\<lambda>i. if inc_ID i = iid \<and> is_open i then upd i else i) (db_incidents db)\<rparr>"

definition recovered :: "time \<Rightarrow> Incident \<Rightarrow> Incident" where
  "recovered endedAt i = i\<lparr>inc_EndedAt := Some endedAt, inc_CloseReason := Some CloseRecovered\<rparr>"

definition manually_closed :: "time \<Rightarrow> int option \<Rightarrow> Incident \<Rightarrow> Incident" where
  "manually_closed endedAt closedBy i =
     i\<lparr>inc_EndedAt := Some endedAt, inc_CloseReason := Some CloseManual, inc_ClosedBy := closedBy\<rparr>"

text \<open>The incident part of a decision: what was done, and the tables after it.\<close>

definition apply_incident :: "Monitor \<Rightarrow> int \<Rightarrow> StoreDecision \<Rightarrow> Incident option \<Rightarrow> db \<Rightarrow> AppliedDecision \<times> db" where
  "apply_incident m firstResultID d cur db =
     (case sd_Action d of
        IncidentOpen \<Rightarrow>
          (case insert_incident m firstResultID d db of
             (Some inc, db1) \<Rightarrow> (no_decision\<lparr>apd_Incident := Some inc, apd_Applied := True\<rparr>, db1)
           | (None, db1) \<Rightarrow> (no_decision, db1))
      | IncidentClose \<Rightarrow>
          (case cur of
             None \<Rightarrow> (no_decision, db)
           | Some inc \<Rightarrow>
               (no_decision\<lparr>apd_Applied := True,
                  apd_Incident := Some (recovered (sd_IncidentEndedAt d) inc)\<rparr>,
                close_incident (inc_ID inc) (recovered (sd_IncidentEndedAt d)) db))
      | IncidentNone \<Rightarrow> (no_decision, db))"

definition write_counters :: "Monitor \<Rightarrow> int \<Rightarrow> StoreDecision \<Rightarrow> db \<Rightarrow> db" where
  "write_counters m maxResultID d db =
     db\<lparr>db_monitors := map (\<lambda>r.
          if row_ID r = mon_ID m \<and> row_OrgID r = mon_OrgID m
             \<and> (case row_LastAppliedResultID r of None \<Rightarrow> True | Some w \<Rightarrow> w < maxResultID)
          then r\<lparr>row_ConsecutiveFails := sd_NewConsecutive d, row_FirstFailAt := sd_NewFirstFailAt d,
                 row_LastAppliedResultID := Some maxResultID, row_SSLWarnedDays := sd_NewSSLWarnedDays d\<rparr>
          else r) (db_monitors db)\<rparr>"

definition already_applied :: "int option \<Rightarrow> int \<Rightarrow> bool" where
  "already_applied watermark maxResultID =
     (case watermark of None \<Rightarrow> False | Some w \<Rightarrow> maxResultID \<le> w)"

definition ApplyAlertDecision :: "fault \<Rightarrow> Monitor \<Rightarrow> int \<Rightarrow> int \<Rightarrow> StoreDecision \<Rightarrow> AppliedDecision tx" where
  "ApplyAlertDecision f m maxResultID firstResultID d = WithOrg f (\<lambda>db.
     case select_monitor db (mon_OrgID m) (mon_ID m) of
       None \<Rightarrow> (Inl ErrNoRows, db)
     | Some row \<Rightarrow>
         if already_applied (row_LastAppliedResultID row) maxResultID
         then (Inr (no_decision\<lparr>apd_Skipped := True\<rparr>), db)
         else
           let cur = getOpenIncidentTx db (mon_OrgID m) (mon_ID m);
               (res, db1) = apply_incident m firstResultID d cur db;
               res' = (if sd_Renotify d \<and> cur \<noteq> None
                       then res\<lparr>apd_Incident := cur, apd_Applied := True\<rparr> else res)
           in (Inr res', write_counters m maxResultID d db1))"

definition GetIncident :: "fault \<Rightarrow> int \<Rightarrow> int \<Rightarrow> Incident tx" where
  "GetIncident f orgID iid = WithOrg f (\<lambda>db.
     (case find (\<lambda>i. inc_ID i = iid \<and> inc_OrgID i = orgID) (db_incidents db) of
        None \<Rightarrow> Inl ErrNoRows | Some i \<Rightarrow> Inr i, db))"

definition ManualCloseIncident :: "fault \<Rightarrow> int \<Rightarrow> int \<Rightarrow> int \<Rightarrow> time \<Rightarrow> Incident tx" where
  "ManualCloseIncident f orgID iid byUserID endedAt = WithOrg f (\<lambda>db.
     case find (\<lambda>i. inc_ID i = iid \<and> inc_OrgID i = orgID) (db_incidents db) of
       None \<Rightarrow> (Inl ErrNoRows, db)
     | Some got \<Rightarrow>
         if inc_EndedAt got \<noteq> None then (Inl ErrIncidentNotOpen, db)
         else
           let by_user = (if byUserID \<noteq> 0 then Some byUserID else None)
           in (Inr (manually_closed endedAt by_user got),
               close_incident iid (manually_closed endedAt by_user) db))"

definition ListOrgIncidents :: "fault \<Rightarrow> int \<Rightarrow> bool \<Rightarrow> time option \<Rightarrow> int \<Rightarrow> Incident list tx" where
  "ListOrgIncidents f orgID openOnly before limit = WithOrg f (\<lambda>db.
     (Inr (take (page_limit limit) (order_desc inc_StartedAt (order_desc inc_ID
        (filter (\<lambda>i. inc_OrgID i = orgID \<and> (\<not> openOnly \<or> is_open i)
           \<and> (case before of None \<Rightarrow> True | Some b \<Rightarrow> inc_StartedAt i < b)) (db_incidents db))))), db))"

definition ListIncidents :: "fault \<Rightarrow> int \<Rightarrow> int \<Rightarrow> time option \<Rightarrow> int \<Rightarrow> Incident list tx" where
  "ListIncidents f orgID monitorID before limit = WithOrg f (\<lambda>db.
     (Inr (take (page_limit limit) (order_desc inc_StartedAt
        (filter (\<lambda>i. inc_MonitorID i = monitorID \<and> inc_OrgID i = orgID
           \<and> (case before of None \<Rightarrow> True | Some b \<Rightarrow> inc_StartedAt i < b)) (db_incidents db)))), db))"

definition AddIncidentAnnotation :: "fault \<Rightarrow> int \<Rightarrow> int \<Rightarrow> int \<Rightarrow> string \<Rightarrow> time \<Rightarrow> IncidentAnnotation tx" where
  "AddIncidentAnnotation f orgID incidentID authorUserID note now = WithOrg f (\<lambda>db.
     if find (\<lambda>i. inc_ID i = incidentID \<and> inc_OrgID i = orgID) (db_incidents db) = None
     then (Inl ErrNoRows, db)
     else
       let newID = db_next_annotation db;
           a = \<lparr>ann_ID = newID, ann_OrgID = orgID, ann_IncidentID = incidentID,
                ann_AuthorUserID = (if authorUserID \<noteq> 0 then Some authorUserID else None),
                ann_Note = note, ann_CreatedAt = now\<rparr>
       in (Inr a, db\<lparr>db_next_annotation := newID + 1, db_annotations := db_annotations db @ [a]\<rparr>))"

definition ListIncidentAnnotations :: "fault \<Rightarrow> int \<Rightarrow> int \<Rightarrow> IncidentAnnotation list tx" where
  "ListIncidentAnnotations f orgID incidentID = WithOrg f (\<lambda>db.
     (Inr (sort_key ann_CreatedAt (sort_key ann_ID
        (filter (\<lambda>a. ann_IncidentID a = incidentID \<and> ann_OrgID a = orgID) (db_annotations db)))), db))"

section \<open>The invariant of the tables\<close>

definition monitor_keys :: "MonitorRow list \<Rightarrow> (int \<times> int) set" where
  "monitor_keys ms = (\<lambda>r. (row_ID r, row_OrgID r)) ` set ms"

definition wf_monitors :: "int list \<Rightarrow> MonitorRow list \<Rightarrow> int \<Rightarrow> int \<Rightarrow> bool" where
  "wf_monitors orgs ms nm nr \<longleftrightarrow>
     distinct (map row_ID ms)
     \<and> (\<forall>r \<in> set ms. 0 < row_ID r \<and> row_ID r < nm \<and> row_OrgID r \<in> set orgs
          \<and> (case row_LastAppliedResultID r of None \<Rightarrow> True | Some w \<Rightarrow> w < nr))"

definition result_key :: "CheckResult \<Rightarrow> int \<times> int \<times> string \<times> time" where
  "result_key r = (res_OrgID r, res_MonitorID r, res_Region r, res_CheckedAt r)"

definition wf_results :: "int set \<Rightarrow> CheckResult list \<Rightarrow> int \<Rightarrow> bool" where
  "wf_results mids rs nr \<longleftrightarrow>
     distinct (map res_ID rs) \<and> distinct (map result_key rs)
     \<and> (\<forall>r \<in> set rs. 0 < res_ID r \<and> res_ID r < nr \<and> res_MonitorID r \<in> mids)"

text \<open>At most one open incident per monitor; open means that there is no close reason either.\<close>

definition wf_incidents :: "(int \<times> int) set \<Rightarrow> Incident list \<Rightarrow> int \<Rightarrow> bool" where
  "wf_incidents keys is ni \<longleftrightarrow>
     distinct (map inc_ID is) \<and> distinct (map inc_MonitorID (filter is_open is))
     \<and> (\<forall>i \<in> set is. inc_ID i < ni \<and> (inc_MonitorID i, inc_OrgID i) \<in> keys
          \<and> (is_open i \<longleftrightarrow> inc_CloseReason i = None))"

definition wf_db :: "db \<Rightarrow> bool" where
  "wf_db db \<longleftrightarrow>
     0 < db_next_monitor db \<and> 0 < db_next_result db
     \<and> wf_monitors (db_orgs db) (db_monitors db) (db_next_monitor db) (db_next_result db)
     \<and> wf_results (fst ` monitor_keys (db_monitors db)) (db_results db) (db_next_result db)
     \<and> wf_incidents (monitor_keys (db_monitors db)) (db_incidents db) (db_next_incident db)"

definition seq_le :: "db \<Rightarrow> db \<Rightarrow> bool" where
  "seq_le a b \<longleftrightarrow> db_next_monitor a \<le> db_next_monitor b \<and> db_next_result a \<le> db_next_result b
     \<and> db_next_incident a \<le> db_next_incident b \<and> db_next_annotation a \<le> db_next_annotation b"

lemma seq_le_refl [simp]: "seq_le db db"
  by (simp add: seq_le_def)

lemma monitor_exists_keys: "monitor_exists db mid \<longleftrightarrow> mid \<in> fst ` monitor_keys (db_monitors db)"
  by (force simp: monitor_exists_def monitor_keys_def)

lemma monitor_keys_append [simp]:
  "monitor_keys (ms @ [r]) = insert (row_ID r, row_OrgID r) (monitor_keys ms)"
  by (simp add: monitor_keys_def)

lemma monitor_keys_map:
  "(\<And>r. r \<in> set ms \<Longrightarrow> row_ID (g r) = row_ID r \<and> row_OrgID (g r) = row_OrgID r)
   \<Longrightarrow> monitor_keys (map g ms) = monitor_keys ms"
  unfolding monitor_keys_def by (force simp: image_iff)

lemma wf_monitors_mono:
  "wf_monitors orgs ms nm nr \<Longrightarrow> nm \<le> nm' \<Longrightarrow> nr \<le> nr' \<Longrightarrow> wf_monitors orgs ms nm' nr'"
  unfolding wf_monitors_def by (fastforce split: option.splits)

lemma wf_results_mono:
  "wf_results mids rs nr \<Longrightarrow> mids \<subseteq> mids' \<Longrightarrow> nr \<le> nr' \<Longrightarrow> wf_results mids' rs nr'"
  unfolding wf_results_def by fastforce

lemma wf_incidents_mono:
  "wf_incidents keys is ni \<Longrightarrow> keys \<subseteq> keys' \<Longrightarrow> ni \<le> ni' \<Longrightarrow> wf_incidents keys' is ni'"
  unfolding wf_incidents_def by fastforce

lemma wf_monitors_map:
  assumes "wf_monitors orgs ms nm nr"
    and "\<And>r. r \<in> set ms \<Longrightarrow> row_ID (g r) = row_ID r \<and> row_OrgID (g r) = row_OrgID r
           \<and> (row_LastAppliedResultID (g r) = row_LastAppliedResultID r
              \<or> (\<exists>w < nr. row_LastAppliedResultID (g r) = Some w))"
  shows "wf_monitors orgs (map g ms) nm nr"
proof -
  have "map row_ID (map g ms) = map row_ID ms" using assms(2) by simp
  moreover have "case row_LastAppliedResultID (g r) of None \<Rightarrow> True | Some w \<Rightarrow> w < nr" if "r \<in> set ms" for r
    using assms(1) assms(2) [OF that] that by (auto simp: wf_monitors_def)
  ultimately show ?thesis
    using assms unfolding wf_monitors_def by (auto simp del: map_map)
qed

lemma wf_monitors_filter: "wf_monitors orgs ms nm nr \<Longrightarrow> wf_monitors orgs (filter P ms) nm nr"
  unfolding wf_monitors_def by (simp add: distinct_map_filter)

lemma wf_results_filter:
  "wf_results mids rs nr \<Longrightarrow> (\<And>r. r \<in> set rs \<Longrightarrow> P r \<Longrightarrow> res_MonitorID r \<in> mids') \<Longrightarrow> wf_results mids' (filter P rs) nr"
  unfolding wf_results_def by (simp add: distinct_map_filter)

lemma wf_results_snoc:
  assumes "wf_results mids rs nr" and "0 < nr" and "res_MonitorID r \<in> mids"
    and "result_key r \<notin> result_key ` set rs"
  shows "wf_results mids (rs @ [result_row nr r]) (nr + 1)"
proof -
  have "result_key (result_row nr r) = result_key r" by (simp add: result_key_def result_row_def)
  then show ?thesis
    using assms unfolding wf_results_def by (fastforce simp: result_row_def)
qed

lemma wf_incidents_snoc:
  assumes "wf_incidents keys is ni" and "inc_ID i = ni" and "(inc_MonitorID i, inc_OrgID i) \<in> keys"
    and "is_open i \<longleftrightarrow> inc_CloseReason i = None"
    and "is_open i \<Longrightarrow> \<not> (\<exists>j \<in> set is. inc_MonitorID j = inc_MonitorID i \<and> is_open j)"
  shows "wf_incidents keys (is @ [i]) (ni + 1)"
  using assms unfolding wf_incidents_def by fastforce

text \<open>Rows are closed, or lose a link, but never change id, monitor or org and never reopen.\<close>

lemma wf_incidents_map:
  assumes "wf_incidents keys is ni"
    and "\<And>i. i \<in> set is \<Longrightarrow> inc_ID (g i) = inc_ID i \<and> inc_MonitorID (g i) = inc_MonitorID i
           \<and> inc_OrgID (g i) = inc_OrgID i \<and> (is_open (g i) \<longrightarrow> is_open i)
           \<and> (is_open (g i) \<longleftrightarrow> inc_CloseReason (g i) = None)"
  shows "wf_incidents keys (map g is) ni"
proof -
  have ids: "map inc_ID (map g is) = map inc_ID is" using assms(2) by simp
  have "distinct (map inc_MonitorID (filter is_open (map g is)))"
    using assms
  proof (induction "is")
    case Nil
    then show ?case by simp
  next
    case (Cons i "is")
    have "wf_incidents keys is ni" using Cons.prems(1) by (auto simp: wf_incidents_def split: if_splits)
    then have IH: "distinct (map inc_MonitorID (filter is_open (map g is)))"
      using Cons by simp
    have "inc_MonitorID i \<notin> inc_MonitorID ` set (filter is_open (map g is))" if "is_open i"
    proof
      assume "inc_MonitorID i \<in> inc_MonitorID ` set (filter is_open (map g is))"
      then obtain j where j: "j \<in> set is" "is_open (g j)" "inc_MonitorID (g j) = inc_MonitorID i" by auto
      with Cons.prems(2) [of j] have "is_open j" "inc_MonitorID j = inc_MonitorID i" by auto
      then have "inc_MonitorID i \<in> inc_MonitorID ` set (filter is_open is)"
        using j(1) by (auto simp: image_iff intro!: bexI [of _ j])
      with that Cons.prems(1) show False by (simp add: wf_incidents_def)
    qed
    with IH Cons.prems(2) [of i] show ?case by auto
  qed
  with assms ids show ?thesis unfolding wf_incidents_def by (auto simp del: map_map)
qed

lemma wf_incidents_filter:
  assumes "wf_incidents keys is ni"
    and "\<And>i. i \<in> set is \<Longrightarrow> P i \<Longrightarrow> (inc_MonitorID i, inc_OrgID i) \<in> keys'"
  shows "wf_incidents keys' (filter P is) ni"
proof -
  have "filter is_open (filter P is) = filter P (filter is_open is)"
    by (simp add: conj_commute)
  then have "distinct (map inc_MonitorID (filter is_open (filter P is)))"
    using assms(1) by (simp only: wf_incidents_def distinct_map_filter)
  with assms show ?thesis unfolding wf_incidents_def by (simp add: distinct_map_filter)
qed

lemma wf_db_rolled_back: "wf_db db \<Longrightarrow> seq_le db db' \<Longrightarrow> wf_db (rolled_back db db')"
  unfolding wf_db_def seq_le_def rolled_back_def
  by (auto intro: wf_monitors_mono wf_results_mono wf_incidents_mono)

lemma WithOrg_wf:
  assumes "wf_db db" and "\<And>a db'. fn db = (Inr a, db') \<Longrightarrow> wf_db db'"
    and "\<And>e db'. fn db = (Inl e, db') \<Longrightarrow> seq_le db db'"
  shows "wf_db (snd (WithOrg f fn db))"
proof -
  obtain r db' where r: "fn db = (r, db')" by (cases "fn db") auto
  show ?thesis
    using assms r wf_db_rolled_back by (cases r) (auto simp: WithOrg_def)
qed

lemma WithOrg_read: "snd (WithOrg f (\<lambda>db. (q db, db)) db) = db"
  by (auto simp: WithOrg_def rolled_back_def split: sum.splits)

lemma WithOrg_read_ok: "fst (WithOrg NoFault (\<lambda>db. (q db, db)) db) = q db"
  by (auto simp: WithOrg_def split: sum.splits)

lemma select_monitor_Some:
  "select_monitor db orgID mid = Some r \<Longrightarrow> r \<in> set (db_monitors db) \<and> row_ID r = mid \<and> row_OrgID r = orgID"
  unfolding select_monitor_def by (drule find_Some_set) auto

lemma find_result_None: "find_result db r = None \<Longrightarrow> result_key r \<notin> result_key ` set (db_results db)"
  unfolding find_result_def find_None_iff
  by (auto simp: same_result_key_def result_key_def)

lemma find_result_Some: "find_result db r = Some s \<Longrightarrow> s \<in> set (db_results db) \<and> same_result_key r s"
  unfolding find_result_def by (rule find_Some_set)

lemma wf_db_next_result: "wf_db db \<Longrightarrow> n \<ge> db_next_result db \<Longrightarrow> wf_db (db\<lparr>db_next_result := n\<rparr>)"
  unfolding wf_db_def by (auto intro: wf_monitors_mono wf_results_mono wf_incidents_mono)

lemma insert_result_wf:
  assumes "wf_db db" and "find_result db r = None" and "monitor_exists db (res_MonitorID r)"
  shows "wf_db (db\<lparr>db_next_result := db_next_result db + 1,
                   db_results := db_results db @ [result_row (db_next_result db) r]\<rparr>)"
  using assms wf_results_snoc [of _ "db_results db" "db_next_result db" r] find_result_None
  by (auto simp: wf_db_def monitor_exists_keys intro: wf_monitors_mono)

lemma UpsertCheckResult_wf [pulse_inv]: "wf_db db \<Longrightarrow> wf_db (snd (UpsertCheckResult f r db))"
  unfolding UpsertCheckResult_def Let_def
  by (rule WithOrg_wf)
    (auto simp: seq_le_def insert_result_wf wf_db_next_result split: option.splits if_splits)

lemma InsertCheckResult_wf [pulse_inv]: "wf_db db \<Longrightarrow> wf_db (snd (InsertCheckResult f r db))"
  unfolding InsertCheckResult_def Let_def
  by (rule WithOrg_wf)
    (auto simp: seq_le_def insert_result_wf wf_db_next_result split: option.splits if_splits)

lemma wf_db_tables:
  assumes "wf_db db"
    and "wf_monitors (db_orgs db) ms (db_next_monitor db) (db_next_result db)"
    and "monitor_keys ms = monitor_keys (db_monitors db)"
  shows "wf_db (db\<lparr>db_monitors := ms\<rparr>)"
  using assms by (simp add: wf_db_def)

lemma monitor_defaults_key [simp]:
  "mon_ID (monitor_defaults m) = mon_ID m" "mon_OrgID (monitor_defaults m) = mon_OrgID m"
  by (simp_all add: monitor_defaults_def Let_def)

lemma CreateMonitor_wf [pulse_inv]: "wf_db db \<Longrightarrow> wf_db (snd (CreateMonitor f c now m db))"
proof -
  assume wf: "wf_db db"
  have new: "wf_db (db\<lparr>db_next_monitor := db_next_monitor db + 1, db_monitors := db_monitors db @ [row]\<rparr>)"
    if "row_ID row = db_next_monitor db" "row_OrgID row \<in> set (db_orgs db)"
       "row_LastAppliedResultID row = None" for row
  proof -
    have "wf_monitors (db_orgs db) (db_monitors db @ [row]) (db_next_monitor db + 1) (db_next_result db)"
      using wf that by (fastforce simp: wf_db_def wf_monitors_def)
    then show ?thesis
      using wf by (auto simp: wf_db_def intro: wf_results_mono wf_incidents_mono)
  qed
  show ?thesis
    unfolding CreateMonitor_def Let_def
    using wf by (auto split: option.splits intro!: WithOrg_wf new simp: seq_le_def split: if_splits)
qed

lemma UpdateMonitor_wf [pulse_inv]: "wf_db db \<Longrightarrow> wf_db (snd (UpdateMonitor f c now m db))"
proof -
  assume wf: "wf_db db"
  have upd: "wf_db (db\<lparr>db_monitors := map (\<lambda>r. if row_ID r = mon_ID n \<and> row_OrgID r = mon_OrgID n
               then r\<lparr>row_Monitor := n\<rparr> else r) (db_monitors db)\<rparr>)" for n
    using wf by (intro wf_db_tables wf_monitors_map monitor_keys_map) (auto simp: wf_db_def)
  show ?thesis
    unfolding UpdateMonitor_def Let_def
    using wf upd [of "(monitor_defaults m)\<lparr>mon_Headers := _, mon_UpdatedAt := _, mon_CreatedAt := _\<rparr>"]
    by (auto split: option.splits intro!: WithOrg_wf simp: seq_le_def split: if_splits)
qed

lemma DeleteMonitor_wf [pulse_inv]: "wf_db db \<Longrightarrow> wf_db (snd (DeleteMonitor f orgID mid db))"
proof -
  assume wf: "wf_db db"
  let ?ms = "filter (\<lambda>r. row_ID r = mid \<longrightarrow> row_OrgID r \<noteq> orgID) (db_monitors db)"
  have keep: "(a, b) \<in> monitor_keys ?ms" if "(a, b) \<in> monitor_keys (db_monitors db)" "a \<noteq> mid" for a b
    using that by (auto simp: monitor_keys_def)
  have keep1: "a \<in> fst ` monitor_keys ?ms" if ex: "a \<in> fst ` monitor_keys (db_monitors db)" and ne: "a \<noteq> mid" for a
  proof -
    obtain b where "(a, b) \<in> monitor_keys (db_monitors db)" using ex by auto
    from keep [OF this ne] show ?thesis by (rule image_eqI [rotated]) simp
  qed
  have wi: "wf_incidents (monitor_keys ?ms) (map g (filter (\<lambda>i. inc_MonitorID i \<noteq> mid) (db_incidents db))) n"
    if "n = db_next_incident db"
       "\<And>i. inc_ID (g i) = inc_ID i \<and> inc_MonitorID (g i) = inc_MonitorID i \<and> inc_OrgID (g i) = inc_OrgID i
           \<and> inc_EndedAt (g i) = inc_EndedAt i \<and> inc_CloseReason (g i) = inc_CloseReason i" for g n
    using wf that
    by (intro wf_incidents_map wf_incidents_filter [of "monitor_keys (db_monitors db)"])
      (auto simp: wf_db_def wf_incidents_def is_open_def intro: keep)
  have wr: "wf_results (fst ` monitor_keys ?ms) (filter (\<lambda>r. res_MonitorID r \<noteq> mid) (db_results db)) (db_next_result db)"
    using wf by (intro wf_results_filter [of "fst ` monitor_keys (db_monitors db)"])
      (auto simp: wf_db_def wf_results_def intro!: keep1)
  show ?thesis
    unfolding DeleteMonitor_def Let_def
    using wf by (intro WithOrg_wf)
      (auto intro!: wi wr wf_monitors_filter simp: wf_db_def split: if_splits option.splits)
qed

lemma getOpenIncidentTx_Some:
  "getOpenIncidentTx db orgID mid = Some i \<Longrightarrow>
     i \<in> set (db_incidents db) \<and> inc_MonitorID i = mid \<and> inc_OrgID i = orgID \<and> is_open i"
  unfolding getOpenIncidentTx_def by (drule find_Some_set) auto

text \<open>Inside the invariant the org filter of the read is redundant.\<close>

lemma getOpenIncidentTx_None:
  assumes "wf_db db" and "select_monitor db orgID mid = Some r"
  shows "getOpenIncidentTx db orgID mid = None \<longleftrightarrow> \<not> (\<exists>i \<in> set (db_incidents db). inc_MonitorID i = mid \<and> is_open i)"
proof -
  have r: "r \<in> set (db_monitors db)" "row_ID r = mid" "row_OrgID r = orgID"
    using select_monitor_Some [OF assms(2)] by auto
  have "inc_OrgID i = orgID" if "i \<in> set (db_incidents db)" "inc_MonitorID i = mid" for i
  proof -
    have "(mid, inc_OrgID i) \<in> monitor_keys (db_monitors db)"
      using assms(1) that by (auto simp: wf_db_def wf_incidents_def)
    then obtain r' where "r' \<in> set (db_monitors db)" "row_ID r' = mid" "row_OrgID r' = inc_OrgID i"
      by (auto simp: monitor_keys_def)
    moreover have "distinct (map row_ID (db_monitors db))"
      using assms(1) by (simp add: wf_db_def wf_monitors_def)
    ultimately show ?thesis
      using r by (metis distinct_map inj_onD)
  qed
  then show ?thesis by (auto simp: getOpenIncidentTx_def find_None_iff)
qed

lemma close_incident_wf:
  assumes "wf_db db"
    and "\<And>i. inc_ID (upd i) = inc_ID i \<and> inc_MonitorID (upd i) = inc_MonitorID i \<and> inc_OrgID (upd i) = inc_OrgID i
          \<and> \<not> is_open (upd i) \<and> inc_CloseReason (upd i) \<noteq> None"
  shows "wf_db (close_incident iid upd db)"
proof -
  have "wf_incidents (monitor_keys (db_monitors db))
          (map (\<lambda>i. if inc_ID i = iid \<and> is_open i then upd i else i) (db_incidents db)) (db_next_incident db)"
    using assms by (intro wf_incidents_map) (auto simp: wf_db_def wf_incidents_def)
  then show ?thesis using assms(1) by (simp add: wf_db_def close_incident_def)
qed

lemma recovered_fields [simp]:
  "inc_ID (recovered t i) = inc_ID i" "inc_MonitorID (recovered t i) = inc_MonitorID i"
  "inc_OrgID (recovered t i) = inc_OrgID i" "is_open (recovered t i) = False"
  "inc_CloseReason (recovered t i) = Some CloseRecovered"
  by (simp_all add: recovered_def is_open_def)

lemma manually_closed_fields [simp]:
  "inc_ID (manually_closed t u i) = inc_ID i" "inc_MonitorID (manually_closed t u i) = inc_MonitorID i"
  "inc_OrgID (manually_closed t u i) = inc_OrgID i" "is_open (manually_closed t u i) = False"
  "inc_CloseReason (manually_closed t u i) = Some CloseManual"
  by (simp_all add: manually_closed_def is_open_def)

lemma insert_incident_wf:
  assumes "wf_db db" and "select_monitor db (mon_OrgID m) (mon_ID m) = Some r"
  shows "wf_db (snd (insert_incident m rid d db))"
proof -
  have key: "(mon_ID m, mon_OrgID m) \<in> monitor_keys (db_monitors db)"
    using select_monitor_Some [OF assms(2)] by (force simp: monitor_keys_def)
  show ?thesis
    unfolding insert_incident_def Let_def using assms(1) key
    by (auto simp: wf_db_def is_open_def intro!: wf_incidents_snoc intro: wf_incidents_mono)
qed

lemma apply_incident_wf:
  assumes "wf_db db" and "select_monitor db (mon_OrgID m) (mon_ID m) = Some r"
  shows "wf_db (snd (apply_incident m rid d cur db))"
  using assms insert_incident_wf [OF assms, of rid d]
  by (auto simp: apply_incident_def intro: close_incident_wf
      split: IncidentAction.splits prod.splits option.splits)

lemma apply_incident_frame:
  "db_monitors (snd (apply_incident m rid d cur db)) = db_monitors db
   \<and> db_results (snd (apply_incident m rid d cur db)) = db_results db
   \<and> db_next_result (snd (apply_incident m rid d cur db)) = db_next_result db
   \<and> db_orgs (snd (apply_incident m rid d cur db)) = db_orgs db"
  by (auto simp: apply_incident_def insert_incident_def close_incident_def Let_def
      split: IncidentAction.splits option.splits)

lemma write_counters_wf:
  assumes "wf_db db" and "rid < db_next_result db"
  shows "wf_db (write_counters m rid d db)"
  unfolding write_counters_def using assms
  by (intro wf_db_tables wf_monitors_map monitor_keys_map) (auto simp: wf_db_def)

lemma ApplyAlertDecision_wf [pulse_inv]:
  assumes "wf_db db" and "maxResultID < db_next_result db"
  shows "wf_db (snd (ApplyAlertDecision f m maxResultID firstResultID d db))"
proof -
  have "wf_db (write_counters m maxResultID d db1)"
    if "select_monitor db (mon_OrgID m) (mon_ID m) = Some r" "apply_incident m firstResultID d cur db = (x, db1)"
    for r cur x db1
    using assms(2) apply_incident_wf [OF assms(1) that(1), of firstResultID d cur]
      apply_incident_frame [of m firstResultID d cur db] that(2)
    by (auto intro: write_counters_wf)
  then show ?thesis
    unfolding ApplyAlertDecision_def using assms(1)
    by (intro WithOrg_wf) (auto simp: Let_def split: option.splits if_splits prod.splits)
qed

lemma ManualCloseIncident_wf [pulse_inv]:
  "wf_db db \<Longrightarrow> wf_db (snd (ManualCloseIncident f orgID iid u t db))"
  unfolding ManualCloseIncident_def
  by (intro WithOrg_wf) (auto simp: Let_def intro: close_incident_wf split: option.splits if_splits)

lemma AddIncidentAnnotation_wf [pulse_inv]:
  "wf_db db \<Longrightarrow> wf_db (snd (AddIncidentAnnotation f orgID iid u note t db))"
  unfolding AddIncidentAnnotation_def
  by (intro WithOrg_wf) (auto simp: Let_def wf_db_def split: if_splits)

lemma UpsertMonitorLastFailure_wf [pulse_inv]:
  "wf_db db \<Longrightarrow> wf_db (snd (UpsertMonitorLastFailure f orgID mid snap t db))"
  unfolding UpsertMonitorLastFailure_def
  by (intro WithOrg_wf) (auto simp: Let_def wf_db_def split: if_splits)

lemma UpsertMonitorCert_wf [pulse_inv]:
  "wf_db db \<Longrightarrow> wf_db (snd (UpsertMonitorCert f orgID mid c t db))"
  unfolding UpsertMonitorCert_def
  by (intro WithOrg_wf) (auto simp: Let_def wf_db_def split: if_splits)

section \<open>Every sequence of operations\<close>

definition empty_db :: "int list \<Rightarrow> db" where
  "empty_db orgs =
     \<lparr>db_orgs = orgs, db_monitors = [], db_results = [], db_incidents = [], db_annotations = [],
      db_last_failures = [], db_certs = [], db_next_monitor = 1, db_next_result = 1,
      db_next_incident = 1, db_next_annotation = 1\<rparr>"

text \<open>
  The operations that change the tables, with any arguments and any fault.  A decision is
  applied under a result id that an insert handed out before; the monitor it is applied
  with may be stale or deleted by then.
\<close>

inductive db_step :: "db \<Rightarrow> db \<Rightarrow> bool" where
  create: "db_step db (snd (CreateMonitor f c now m db))"
| update: "db_step db (snd (UpdateMonitor f c now m db))"
| delete: "db_step db (snd (DeleteMonitor f orgID mid db))"
| upsert_result: "db_step db (snd (UpsertCheckResult f r db))"
| insert_result: "db_step db (snd (InsertCheckResult f r db))"
| apply_decision: "rid < db_next_result db \<Longrightarrow> db_step db (snd (ApplyAlertDecision f m rid frid d db))"
| manual_close: "db_step db (snd (ManualCloseIncident f orgID iid u t db))"
| annotate: "db_step db (snd (AddIncidentAnnotation f orgID iid u note t db))"
| last_failure: "db_step db (snd (UpsertMonitorLastFailure f orgID mid snap t db))"
| cert: "db_step db (snd (UpsertMonitorCert f orgID mid ci t db))"

inductive db_reachable :: "int list \<Rightarrow> db \<Rightarrow> bool" for orgs where
  start: "db_reachable orgs (empty_db orgs)"
| step: "db_reachable orgs db \<Longrightarrow> db_step db db' \<Longrightarrow> db_reachable orgs db'"

inductive_cases db_stepE: "db_step db db'"

lemma empty_db_wf: "wf_db (empty_db orgs)"
  by (simp add: wf_db_def empty_db_def wf_monitors_def wf_results_def wf_incidents_def monitor_keys_def)

lemma db_step_wf: "db_step db db' \<Longrightarrow> wf_db db \<Longrightarrow> wf_db db'"
  by (induction rule: db_step.induct) (simp_all add: pulse_inv)

lemma db_reachable_wf: "db_reachable orgs db \<Longrightarrow> wf_db db"
  by (induction rule: db_reachable.induct) (auto simp: empty_db_wf intro: db_step_wf)

lemma distinct_filter_inj:
  "distinct (map f (filter P xs)) \<Longrightarrow> x \<in> set xs \<Longrightarrow> y \<in> set xs \<Longrightarrow> P x \<Longrightarrow> P y \<Longrightarrow> f x = f y \<Longrightarrow> x = y"
  by (simp add: distinct_map inj_on_def)

lemma wf_db_one_open:
  assumes "wf_db db" and "i \<in> set (db_incidents db)" and "j \<in> set (db_incidents db)"
    and "is_open i" and "is_open j" and "inc_MonitorID i = inc_MonitorID j"
  shows "i = j"
  using assms distinct_filter_inj [of inc_MonitorID is_open "db_incidents db" i j]
  by (simp add: wf_db_def wf_incidents_def)

text \<open>
  C4. Whatever operations of the store run, in any order, with any arguments and with the
  connection lost at any point, a monitor never has two open incidents, no two stored
  results share an id or the key (org, monitor, region, checked_at), every result belongs
  to an existing monitor, every incident to an existing monitor of the same org, and the
  watermark of a monitor is a result id that has been handed out.
\<close>

theorem store_invariant:
  assumes "db_reachable orgs db"
  shows "(\<forall>i \<in> set (db_incidents db). \<forall>j \<in> set (db_incidents db).
            is_open i \<and> is_open j \<and> inc_MonitorID i = inc_MonitorID j \<longrightarrow> i = j)
         \<and> distinct (map res_ID (db_results db)) \<and> distinct (map result_key (db_results db))
         \<and> (\<forall>r \<in> set (db_results db). monitor_exists db (res_MonitorID r))
         \<and> (\<forall>i \<in> set (db_incidents db). (inc_MonitorID i, inc_OrgID i) \<in> monitor_keys (db_monitors db))
         \<and> (\<forall>r \<in> set (db_monitors db). \<forall>w. row_LastAppliedResultID r = Some w \<longrightarrow> w < db_next_result db)"
proof -
  have wf: "wf_db db" using assms by (rule db_reachable_wf)
  then have "\<forall>i \<in> set (db_incidents db). \<forall>j \<in> set (db_incidents db).
            is_open i \<and> is_open j \<and> inc_MonitorID i = inc_MonitorID j \<longrightarrow> i = j"
    using wf_db_one_open by blast
  then show ?thesis
    using wf by (auto simp: wf_db_def wf_results_def wf_incidents_def wf_monitors_def monitor_exists_keys)
qed

section \<open>Reads after writes\<close>

lemma GetAlertState_def2:
  "fst (GetAlertState NoFault orgID mid db) =
     (case select_monitor db orgID mid of None \<Rightarrow> Inl ErrNoRows
      | Some r \<Rightarrow> Inr ((scanAlertState r)\<lparr>as_OpenIncident := getOpenIncidentTx db orgID mid\<rparr>))"
  unfolding GetAlertState_def by (rule WithOrg_read_ok)

lemma find_filter_map:
  assumes "\<And>x. x \<in> set xs \<Longrightarrow> P (g x) = P x"
  shows "find P (map g xs) = map_option g (find P xs)"
  using assms by (induction xs) auto

lemma getOpenIncidentTx_close:
  assumes "wf_db db" and "i \<in> set (db_incidents db)" and "is_open i"
    and "\<And>j. inc_MonitorID (upd j) = inc_MonitorID j \<and> inc_OrgID (upd j) = inc_OrgID j \<and> \<not> is_open (upd j)"
  shows "getOpenIncidentTx (close_incident (inc_ID i) upd db) orgID mid =
         (if mid = inc_MonitorID i then None else getOpenIncidentTx db orgID mid)"
proof -
  let ?is = "db_incidents db"
  let ?g = "\<lambda>j. if inc_ID j = inc_ID i \<and> is_open j then upd j else j"
  have same: "j = i" if "j \<in> set ?is" "inc_ID j = inc_ID i" for j
    using assms(1,2) that distinct_filter_inj [of inc_ID "\<lambda>_. True" ?is j i]
    by (simp add: wf_db_def wf_incidents_def)
  show ?thesis
  proof (cases "mid = inc_MonitorID i")
    case True
    have "\<not> (inc_MonitorID (?g j) = mid \<and> is_open (?g j))" if "j \<in> set ?is" for j
      using True assms(3,4) wf_db_one_open [OF assms(1) that assms(2)] by (cases "is_open j") auto
    then have "find (\<lambda>j. inc_MonitorID j = mid \<and> inc_OrgID j = orgID \<and> is_open j) (map ?g ?is) = None"
      unfolding find_None_iff set_map by blast
    with True show ?thesis by (simp add: getOpenIncidentTx_def close_incident_def)
  next
    case False
    let ?P = "\<lambda>j. inc_MonitorID j = mid \<and> inc_OrgID j = orgID \<and> is_open j"
    have eq: "?P (?g j) = ?P j" if "j \<in> set ?is" for j
      using assms(4) False same [OF that] by auto
    have "find ?P (map ?g ?is) = map_option ?g (find ?P ?is)"
      by (rule find_filter_map) (rule eq)
    also have "\<dots> = find ?P ?is"
    proof (cases "find ?P ?is")
      case (Some k)
      then have "k \<in> set ?is" "?P k" using find_Some_set [OF Some] by auto
      with same False have "inc_ID k \<noteq> inc_ID i" by auto
      with Some show ?thesis by simp
    qed simp
    finally show ?thesis using False by (simp add: getOpenIncidentTx_def close_incident_def)
  qed
qed

text \<open>
  A manual close: an unknown incident (or one of another org) is \<open>ErrNoRows\<close>, a closed
  one is \<open>ErrIncidentNotOpen\<close>, and neither changes a table.  An open one is returned closed
  with the reason, the time and the user of the call; its monitor then has no open
  incident, its failure counter, watermark and warned level are as before, and the alert
  state of every other monitor is untouched.
\<close>

theorem ManualCloseIncident_spec:
  assumes "wf_db db"
  shows "case fst (GetIncident NoFault orgID iid db) of
      Inl e \<Rightarrow> ManualCloseIncident NoFault orgID iid u t db = (Inl ErrNoRows, db)
    | Inr i \<Rightarrow>
        if \<not> is_open i then ManualCloseIncident NoFault orgID iid u t db = (Inl ErrIncidentNotOpen, db)
        else \<exists>db'. ManualCloseIncident NoFault orgID iid u t db =
               (Inr (i\<lparr>inc_EndedAt := Some t, inc_CloseReason := Some CloseManual,
                       inc_ClosedBy := (if u = 0 then None else Some u)\<rparr>), db')
             \<and> (\<forall>org mid. fst (GetAlertState NoFault org mid db') =
                  (if mid = inc_MonitorID i
                   then map_sum id (\<lambda>st. st\<lparr>as_OpenIncident := None\<rparr>) (fst (GetAlertState NoFault org mid db))
                   else fst (GetAlertState NoFault org mid db)))"
proof (cases "find (\<lambda>i. inc_ID i = iid \<and> inc_OrgID i = orgID) (db_incidents db)")
  case None
  then show ?thesis
    by (simp add: GetIncident_def ManualCloseIncident_def WithOrg_def rolled_back_def)
next
  case (Some i)
  then have i: "i \<in> set (db_incidents db)" "inc_ID i = iid" using find_Some_set [OF Some] by auto
  show ?thesis
  proof (cases "is_open i")
    case False
    then show ?thesis using Some
      by (simp add: GetIncident_def ManualCloseIncident_def WithOrg_def rolled_back_def is_open_def)
  next
    case True
    have ge: "select_monitor (close_incident iid upd db) org mid = select_monitor db org mid" for upd org mid
      by (simp add: select_monitor_def close_incident_def)
    show ?thesis
      using Some True getOpenIncidentTx_close [OF assms i(1) True, unfolded i(2)]
      by (simp add: GetIncident_def ManualCloseIncident_def WithOrg_def Let_def is_open_def
          GetAlertState_def2 ge manually_closed_def split: option.splits)
  qed
qed

text \<open>
  Persisting a result is idempotent: when the first write succeeds, or commits and loses
  its reply, every later write of a result with the same key succeeds, returns the id the
  first one stored, and leaves every row of the database as it is; the stored row is the
  first result.
\<close>

theorem UpsertCheckResult_idempotent:
  assumes "f \<noteq> FaultBefore"
    and "res_OrgID r \<in> set (db_orgs db)" and "monitor_exists db (res_MonitorID r)"
    and "same_result_key r r'"
  shows "let db1 = snd (UpsertCheckResult f r db); (out, db2) = UpsertCheckResult NoFault r' db1
         in \<exists>row. row \<in> set (db_results db1) \<and> out = Inr (res_ID row) \<and> same_result_key r' row
              \<and> (find_result db r = None \<longrightarrow> row = result_row (db_next_result db) r)
              \<and> (f = NoFault \<longrightarrow> fst (UpsertCheckResult f r db) = Inr (res_ID row))
              \<and> db2 = db1\<lparr>db_next_result := db_next_result db1 + 1\<rparr>"
proof -
  have key: "same_result_key r' x \<longleftrightarrow> same_result_key r x" for x
    using assms(4) by (auto simp: same_result_key_def)
  have self: "same_result_key r' (result_row n r)" for n
    using assms(4) by (simp add: same_result_key_def result_row_def)
  show ?thesis
  proof (cases "find_result db r")
    case None
    then have "find (same_result_key r') (db_results db) = None"
      by (simp add: find_result_def find_None_iff key)
    then have f2: "find (same_result_key r') (db_results db @ [result_row n r]) = Some (result_row n r)" for n
      using self by (simp add: find_append)
    show ?thesis
      using None assms(1-3) f2 self
      by (cases f) (auto simp: UpsertCheckResult_def WithOrg_def Let_def find_result_def result_row_def)
  next
    case (Some old)
    have eq: "same_result_key r' = same_result_key r" using key by blast
    have "old \<in> set (db_results db)" "same_result_key r old"
      using find_result_Some [OF Some] by simp_all
    then show ?thesis
      using Some assms(1)
      by (cases f) (auto simp: UpsertCheckResult_def WithOrg_def Let_def find_result_def eq)
  qed
qed

lemma decode_encodeHeaders:
  assumes "\<And>v w. c = Some (enc, dec) \<Longrightarrow> enc v = Some w \<Longrightarrow> w \<noteq> '''' \<and> dec w = Some v"
    and "c = None \<or> c = Some (enc, dec)" and "encodeHeaders c hs = Some hs'"
  shows "decodeHeaders c hs' = Some hs"
  using assms(3)
proof (induction hs arbitrary: hs')
  case Nil
  then show ?case by simp
next
  case (Cons h hs)
  then obtain h1 hs1 where step: "hs' = h1 # hs1" "encodeHeaders c hs = Some hs1"
    "(if hdr_Secret h \<and> hdr_Value h \<noteq> '''' \<and> c \<noteq> None
      then map_option (\<lambda>v. h\<lparr>hdr_Value := v\<rparr>) (fst (the c) (hdr_Value h)) else Some h) = Some h1"
    by (auto split: option.splits)
  have "decodeHeaders c hs1 = Some hs" using step(2) by (rule Cons.IH)
  then show ?case using assms(1,2) step by (fastforce split: if_splits)
qed

lemma wf_monitor_ids: "wf_db db \<Longrightarrow> r \<in> set (db_monitors db) \<Longrightarrow> row_ID r < db_next_monitor db"
  by (simp add: wf_db_def wf_monitors_def)

lemma fresh_monitor: "wf_db db \<Longrightarrow> \<not> monitor_exists db (db_next_monitor db)"
proof
  assume wf: "wf_db db" and "monitor_exists db (db_next_monitor db)"
  then obtain r where r: "r \<in> set (db_monitors db)" "row_ID r = db_next_monitor db"
    by (auto simp: monitor_exists_def)
  with wf_monitor_ids [OF wf r(1)] show False by simp
qed

lemma select_monitor_snoc:
  assumes "wf_db db" and "row_ID row = db_next_monitor db"
  shows "select_monitor (db\<lparr>db_next_monitor := n, db_monitors := db_monitors db @ [row]\<rparr>)
           (row_OrgID row) (row_ID row) = Some row"
proof -
  have "find (\<lambda>r. row_ID r = row_ID row \<and> row_OrgID r = row_OrgID row) (db_monitors db) = None"
    using wf_monitor_ids [OF assms(1)] assms(2) less_irrefl unfolding find_None_iff by metis
  then show ?thesis by (simp add: select_monitor_def find_append)
qed

text \<open>
  A created monitor reads back as written: with a cipher whose decryption undoes its
  encryption (or with none), creating a monitor in an existing org returns a new id under
  which the org reads exactly the monitor that was given, secret headers in clear, with the
  defaults filled in; it starts with no failures, no open incident and no watermark.
\<close>

theorem CreateMonitor_roundtrip:
  assumes "wf_db db" and "mon_OrgID m \<in> set (db_orgs db)"
    and "c = None \<or> c = Some (enc, dec)"
    and "\<And>v w. c = Some (enc, dec) \<Longrightarrow> enc v = Some w \<Longrightarrow> w \<noteq> '''' \<and> dec w = Some v"
    and "encodeHeaders c (mon_Headers m) = Some stored"
  shows "\<exists>mid db'. CreateMonitor NoFault c now m db = (Inr mid, db')
     \<and> \<not> monitor_exists db mid
     \<and> fst (GetMonitor NoFault c (mon_OrgID m) mid db') =
         Inr ((monitor_defaults m)\<lparr>mon_ID := mid, mon_CreatedAt := now, mon_UpdatedAt := now\<rparr>)
     \<and> fst (GetAlertState NoFault (mon_OrgID m) mid db') = Inr initial_state"
proof -
  let ?mid = "db_next_monitor db"
  let ?mon = "(monitor_defaults m)\<lparr>mon_ID := ?mid, mon_Headers := stored, mon_CreatedAt := now, mon_UpdatedAt := now\<rparr>"
  let ?row = "\<lparr>row_Monitor = ?mon, row_ConsecutiveFails = 0, row_FirstFailAt = None,
               row_LastAppliedResultID = None, row_SSLWarnedDays = None\<rparr>"
  let ?db = "db\<lparr>db_next_monitor := ?mid + 1, db_monitors := db_monitors db @ [?row]\<rparr>"
  have hs: "mon_Headers (monitor_defaults m) = mon_Headers m"
    by (simp add: monitor_defaults_def Let_def)
  have fresh: "\<not> monitor_exists db ?mid"
    using assms(1) by (rule fresh_monitor)
  have create: "CreateMonitor NoFault c now m db = (Inr ?mid, ?db)"
    using assms(2,5) by (simp add: CreateMonitor_def Let_def hs WithOrg_def)
  have sel: "select_monitor ?db (mon_OrgID m) ?mid = Some ?row"
    using select_monitor_snoc [OF assms(1), of ?row "?mid + 1"] by simp
  have dec: "decodeHeaders c stored = Some (mon_Headers m)"
    using assms(3-5) by (intro decode_encodeHeaders [of c enc dec]) auto
  have noinc: "getOpenIncidentTx ?db (mon_OrgID m) ?mid = None"
  proof -
    have "\<not> (\<exists>i \<in> set (db_incidents db). inc_MonitorID i = ?mid)"
      using assms(1) fresh
      by (force simp: wf_db_def wf_incidents_def monitor_exists_keys image_iff)
    then show ?thesis by (auto simp: getOpenIncidentTx_def find_None_iff)
  qed
  have get: "fst (GetMonitor NoFault c (mon_OrgID m) ?mid ?db) = scanMonitor c ?mon"
    unfolding GetMonitor_def by (subst WithOrg_read_ok) (simp add: sel)
  have state: "fst (GetAlertState NoFault (mon_OrgID m) ?mid ?db) = Inr initial_state"
    by (simp only: GetAlertState_def2 sel noinc) (simp add: scanAlertState_def initial_state_def)
  have "scanMonitor c ?mon = Inr ((monitor_defaults m)\<lparr>mon_ID := ?mid, mon_CreatedAt := now, mon_UpdatedAt := now\<rparr>)"
    by (simp add: scanMonitor_def dec hs [symmetric])
  then show ?thesis using create fresh get state by metis
qed

section \<open>Concrete rows\<close>

definition ex_db :: "int \<Rightarrow> MonitorType \<Rightarrow> db" where
  "ex_db threshold typ = snd (CreateMonitor NoFault None 5 (ex_monitor threshold typ) (empty_db [1]))"

definition ex_mon :: "int \<Rightarrow> MonitorType \<Rightarrow> Monitor" where
  "ex_mon n typ = (monitor_defaults (ex_monitor n typ))\<lparr>mon_ID := 1, mon_CreatedAt := 5, mon_UpdatedAt := 5\<rparr>"

definition ex_db_open :: db where
  "ex_db_open = (ex_db 1 MonitorHTTP)\<lparr>db_incidents := [ex_open_incident], db_next_incident := 2\<rparr>"

lemma ex_db_reachable: "db_reachable [1] (ex_db n typ)"
  unfolding ex_db_def by (rule db_reachable.step [OF db_reachable.start db_step.create])

lemma ex_db_eval:
  "db_monitors (ex_db n typ) = [\<lparr>row_Monitor = (monitor_defaults (ex_monitor n typ))
       \<lparr>mon_ID := 1, mon_CreatedAt := 5, mon_UpdatedAt := 5\<rparr>,
     row_ConsecutiveFails = 0, row_FirstFailAt = None, row_LastAppliedResultID = None, row_SSLWarnedDays = None\<rparr>]
   \<and> db_orgs (ex_db n typ) = [1] \<and> db_results (ex_db n typ) = [] \<and> db_incidents (ex_db n typ) = []
   \<and> db_next_result (ex_db n typ) = 1 \<and> db_next_incident (ex_db n typ) = 1 \<and> db_next_monitor (ex_db n typ) = 2"
  by (simp add: ex_db_def CreateMonitor_def WithOrg_def empty_db_def Let_def ex_monitor_def monitor_defaults_def)

lemma ex_db_open_wf: "wf_db ex_db_open"
proof -
  have "wf_db (ex_db 1 MonitorHTTP)" using ex_db_reachable by (rule db_reachable_wf)
  then show ?thesis
    by (simp add: wf_db_def ex_db_open_def wf_incidents_def is_open_def ex_open_incident_def
        monitor_keys_def ex_db_eval) (simp add: ex_monitor_def)
qed

theorem store_invariant_witness:
  "db_reachable [1] (ex_db 1 MonitorHTTP)
   \<and> distinct (map result_key (db_results (snd (UpsertCheckResult NoFault (ex_result 20 False) (ex_db 1 MonitorHTTP)))))"
proof -
  have "db_reachable [1] (snd (UpsertCheckResult NoFault (ex_result 20 False) (ex_db 1 MonitorHTTP)))"
    by (rule db_reachable.step [OF ex_db_reachable db_step.upsert_result])
  from store_invariant [OF this] ex_db_reachable show ?thesis by blast
qed

theorem ManualCloseIncident_spec_witness:
  "\<exists>db'. ManualCloseIncident NoFault 1 1 7 99 ex_db_open =
      (Inr (ex_open_incident\<lparr>inc_EndedAt := Some 99, inc_CloseReason := Some CloseManual, inc_ClosedBy := Some 7\<rparr>), db')"
proof -
  have get: "fst (GetIncident NoFault 1 1 ex_db_open) = Inr ex_open_incident"
    by (simp add: GetIncident_def WithOrg_def ex_db_open_def ex_open_incident_def)
  have open_i: "is_open ex_open_incident" by (simp add: ex_open_incident_def is_open_def)
  show ?thesis
    using ManualCloseIncident_spec [OF ex_db_open_wf, of 1 1 7 99] get open_i by auto
qed

theorem UpsertCheckResult_idempotent_witness:
  "fst (UpsertCheckResult NoFault (ex_result 20 True)
     (snd (UpsertCheckResult FaultAfterCommit (ex_result 20 False) (ex_db 1 MonitorHTTP)))) = Inr 1"
proof -
  have k: "same_result_key (ex_result 20 False) (ex_result 20 True)"
    by (simp add: same_result_key_def ex_result_def)
  have o: "res_OrgID (ex_result 20 False) \<in> set (db_orgs (ex_db 1 MonitorHTTP))"
    by (simp add: ex_db_eval ex_result_def)
  have e: "monitor_exists (ex_db 1 MonitorHTTP) (res_MonitorID (ex_result 20 False))"
    by (simp add: monitor_exists_def ex_db_eval ex_result_def)
  have n: "find_result (ex_db 1 MonitorHTTP) (ex_result 20 False) = None"
    by (simp add: find_result_def ex_db_eval)
  show ?thesis
    using UpsertCheckResult_idempotent [OF _ o e k, of FaultAfterCommit] n
    by (auto simp: Let_def ex_db_eval result_row_def)
qed

theorem CreateMonitor_roundtrip_witness:
  "\<exists>mid db'. CreateMonitor NoFault (Some (\<lambda>v. Some (CHR ''x'' # v), \<lambda>w. Some (tl w))) 5 (ex_monitor 2 MonitorHTTP) (empty_db [1])
      = (Inr mid, db')
   \<and> fst (GetMonitor NoFault (Some (\<lambda>v. Some (CHR ''x'' # v), \<lambda>w. Some (tl w))) 1 mid db') =
      Inr ((monitor_defaults (ex_monitor 2 MonitorHTTP))\<lparr>mon_ID := mid, mon_CreatedAt := 5, mon_UpdatedAt := 5\<rparr>)"
proof -
  let ?c = "Some (\<lambda>v. Some (CHR ''x'' # v), \<lambda>w :: string. Some (tl w))"
  have o: "mon_OrgID (ex_monitor 2 MonitorHTTP) \<in> set (db_orgs (empty_db [1]))"
    by (simp add: ex_monitor_def empty_db_def)
  have h: "encodeHeaders ?c (mon_Headers (ex_monitor 2 MonitorHTTP)) =
      Some [\<lparr>hdr_Key = ''X-Token'', hdr_Value = ''xs'', hdr_Secret = True\<rparr>]"
    by (simp add: ex_monitor_def)
  have org: "mon_OrgID (ex_monitor 2 MonitorHTTP) = 1" by (simp add: ex_monitor_def)
  have "\<exists>mid db'. CreateMonitor NoFault ?c 5 (ex_monitor 2 MonitorHTTP) (empty_db [1]) = (Inr mid, db')
     \<and> \<not> monitor_exists (empty_db [1]) mid
     \<and> fst (GetMonitor NoFault ?c (mon_OrgID (ex_monitor 2 MonitorHTTP)) mid db') =
         Inr ((monitor_defaults (ex_monitor 2 MonitorHTTP))\<lparr>mon_ID := mid, mon_CreatedAt := 5, mon_UpdatedAt := 5\<rparr>)
     \<and> fst (GetAlertState NoFault (mon_OrgID (ex_monitor 2 MonitorHTTP)) mid db') = Inr initial_state"
    by (rule CreateMonitor_roundtrip [OF empty_db_wf o _ _ h,
          of "\<lambda>v. Some (CHR ''x'' # v)" "\<lambda>w. Some (tl w)"]) auto
  then show ?thesis unfolding org by blast
qed

end
