(* ===== verification/Pulse_Events.thy ===== *)
theory Pulse_Events
  imports Pulse_Domain
begin

text \<open>
  The payloads on the bus, \<open>internal/events/events.go\<close>.  The wire format is JSON; a
  consumer that cannot decode a record drops it, so a record of the bus is an option of a
  payload in the models of the consumers.
\<close>

record CheckJob =
  job_JobID :: string
  job_OrgID :: int
  job_Region :: string
  job_ScheduledAt :: time
  job_Monitor :: Monitor

record CheckResultEvent =
  cre_JobID :: string
  cre_ScheduledAt :: time
  cre_Result :: CheckResult

record NotifyEvent =
  nev_OrgID :: int
  nev_MonitorID :: int
  nev_IncidentID :: int
  nev_EventType :: string
  nev_DedupKey :: string
  nev_MonitorName :: string
  nev_MonitorURL :: string
  nev_MonitorMethod :: string
  nev_IncidentStartedAt :: time
  nev_IncidentEndedAt :: "time option"
  nev_DurationSeconds :: "int option"
  nev_Check :: CheckResult
  nev_ChannelIDs :: "int list"
  nev_RegionsObserved :: "string list"
  nev_SentAt :: time

text \<open>
  One \<open>Produce\<close>: the broker takes the record and says so, the record is lost, or the broker
  takes it and the acknowledgement is lost, so that the producer sees an error.
\<close>

datatype send = SendOk | SendLost | SendAckLost

definition Produce :: "send \<Rightarrow> 'a \<Rightarrow> 'a list \<Rightarrow> bool \<times> 'a list" where
  "Produce s x topic = (s = SendOk, if s = SendLost then topic else topic @ [x])"

text \<open>
  A result as it arrives: the two fields tagged \<open>json:"-"\<close> do not ride the event.
\<close>

definition wire_result :: "CheckResult \<Rightarrow> CheckResult" where
  "wire_result r = r\<lparr>res_Snapshot := None, res_CertInfo := None\<rparr>"

end
