(* ===== verification/Pulse_Bus.thy ===== *)
theory Pulse_Bus
  imports Pulse_Prelude
begin

text \<open>
  The event bus, \<open>internal/bus\<close>: topic names, the consumer over Redis Streams
  (\<open>redis.go\<close>) and the consumer over Kafka (\<open>kafka.go\<close>).

  A Redis consumer group is, per stream, the entries never delivered, the entries
  delivered to this consumer and not acknowledged, and the entries stranded on a dead
  consumer (idle long enough to be claimed).  \<open>XREADGROUP\<close>, \<open>XACK\<close> and \<open>XAUTOCLAIM\<close> act
  on these lists as their documentation says; the pending list is kept in the order of the
  entry ids.  A handler is a function of the message and the state of the service; an
  acknowledgement may fail on its own after the handler returned nil.

  A Kafka poll is a function of the batch the client library fetched.

  The locale \<open>at_least_once\<close> is the contract a consumer has to meet so that redelivery is
  harmless; the alerting and the notifier consumers are interpretations of it.
\<close>

section \<open>Topics\<close>

definition TopicCheckResults :: string where "TopicCheckResults = ''check.results''"
definition TopicNotifyEvents :: string where "TopicNotifyEvents = ''notify.events''"

definition CheckJobsTopic :: "string \<Rightarrow> string" where
  "CheckJobsTopic region = ''check.jobs.'' @ region"

section \<open>The Redis Streams consumer\<close>

definition redisBatch :: nat where "redisBatch = 64"

type_synonym 'm entry = "nat \<times> 'm"

record 'm stream =
  st_new :: "'m entry list"
  st_pending :: "'m entry list"
  st_stranded :: "'m entry list"

datatype handled = HandlerErr | AckFailed | Acked

type_synonym ('m, 's) handler = "'m \<Rightarrow> 's \<Rightarrow> handled \<times> 's"

text \<open>
  \<open>dispatch\<close> for the entries of a batch in order, up to the first error: whether all went
  through, the acknowledged entries, and the state of the service.
\<close>

fun dispatch_all :: "('m, 's) handler \<Rightarrow> 'm entry list \<Rightarrow> 's \<Rightarrow> bool \<times> 'm entry list \<times> 's" where
  "dispatch_all h [] s = (True, [], s)"
| "dispatch_all h (e # es) s =
     (case h (snd e) s of
        (Acked, s1) \<Rightarrow> (case dispatch_all h es s1 of (ok, acked, s2) \<Rightarrow> (ok, e # acked, s2))
      | (_, s1) \<Rightarrow> (False, [], s1))"

definition XAck :: "'m entry list \<Rightarrow> 'm entry list \<Rightarrow> 'm entry list" where
  "XAck acked pel = filter (\<lambda>e. fst e \<notin> fst ` set acked) pel"

text \<open>\<open>readInto\<close> at id 0: the oldest pending entries of one stream.\<close>

definition readPending :: "('m, 's) handler \<Rightarrow> 'm stream \<Rightarrow> 's \<Rightarrow> bool \<times> 'm stream \<times> 's" where
  "readPending h st s =
     (case dispatch_all h (take redisBatch (st_pending st)) s of
        (ok, acked, s1) \<Rightarrow> (ok, st\<lparr>st_pending := XAck acked (st_pending st)\<rparr>, s1))"

text \<open>A pass over the topics in order that stops at the first error.\<close>

fun each_stream :: "('m stream \<Rightarrow> 's \<Rightarrow> bool \<times> 'm stream \<times> 's) \<Rightarrow> 'm stream list \<Rightarrow> 's
    \<Rightarrow> bool \<times> 'm stream list \<times> 's" where
  "each_stream step [] s = (True, [], s)"
| "each_stream step (st # sts) s =
     (case step st s of
        (False, st', s1) \<Rightarrow> (False, st' # sts, s1)
      | (True, st', s1) \<Rightarrow> (case each_stream step sts s1 of (ok, sts', s2) \<Rightarrow> (ok, st' # sts', s2)))"

function reclaim :: "('m, 's) handler \<Rightarrow> 'm stream \<Rightarrow> 's \<Rightarrow> bool \<times> 'm stream \<times> 's" where
  "reclaim h st s =
     (let claimed = take redisBatch (st_stranded st);
          st1 = st\<lparr>st_stranded := drop redisBatch (st_stranded st),
                   st_pending := sort_key fst (st_pending st @ claimed)\<rparr>
      in case dispatch_all h claimed s of
           (ok, acked, s1) \<Rightarrow>
             let st2 = st1\<lparr>st_pending := XAck acked (st_pending st1)\<rparr>
             in if \<not> ok then (False, st2, s1)
                else if st_stranded st2 = [] then (True, st2, s1)
                else reclaim h st2 s1)"
  by pat_completeness auto
termination
  by (relation "measure (\<lambda>(h, st, s). length (st_stranded st))") (auto simp: redisBatch_def)

declare reclaim.simps [simp del]

text \<open>
  \<open>readNew\<close>: one \<open>XREADGROUP\<close> moves the next entries of every stream to the pending list,
  then the batches are dispatched stream by stream.
\<close>

definition deliver_new :: "'m stream \<Rightarrow> 'm stream" where
  "deliver_new st =
     st\<lparr>st_new := drop redisBatch (st_new st),
        st_pending := sort_key fst (st_pending st @ take redisBatch (st_new st))\<rparr>"

fun dispatch_new :: "('m, 's) handler \<Rightarrow> 'm stream list \<Rightarrow> 's \<Rightarrow> bool \<times> 'm stream list \<times> 's" where
  "dispatch_new h [] s = (True, [], s)"
| "dispatch_new h (st # sts) s =
     (case dispatch_all h (take redisBatch (st_new st)) s of
        (ok, acked, s1) \<Rightarrow>
          let st' = (deliver_new st)\<lparr>st_pending := XAck acked (st_pending (deliver_new st))\<rparr>
          in if \<not> ok then (False, st' # map deliver_new sts, s1)
             else (case dispatch_new h sts s1 of (ok2, sts', s2) \<Rightarrow> (ok2, st' # sts', s2)))"

definition redis_poll :: "('m, 's) handler \<Rightarrow> bool \<Rightarrow> 'm stream list \<Rightarrow> 's \<Rightarrow> bool \<times> 'm stream list \<times> 's" where
  "redis_poll h reclaimDue sts s =
     (case each_stream (readPending h) sts s of
        (False, sts1, s1) \<Rightarrow> (False, sts1, s1)
      | (True, sts1, s1) \<Rightarrow>
          (case (if reclaimDue then each_stream (reclaim h) sts1 s1 else (True, sts1, s1)) of
             (False, sts2, s2) \<Rightarrow> (False, sts2, s2)
           | (True, sts2, s2) \<Rightarrow> dispatch_new h sts2 s2))"

fun redis_polls :: "('m, 's) handler \<Rightarrow> bool list \<Rightarrow> 'm stream list \<Rightarrow> 's \<Rightarrow> 'm stream list \<times> 's" where
  "redis_polls h [] sts s = (sts, s)"
| "redis_polls h (due # dues) sts s =
     (case redis_poll h due sts s of (ok, sts1, s1) \<Rightarrow> redis_polls h dues sts1 s1)"

section \<open>The Kafka consumer\<close>

text \<open>
  \<open>EachRecord\<close> visits every record of the batch; once a handler failed the callback
  returns at once for the rest.  The handled records are returned along with the outcome.
\<close>

fun kafka_each :: "('m \<Rightarrow> 's \<Rightarrow> bool \<times> 's) \<Rightarrow> bool \<Rightarrow> 'm list \<Rightarrow> 's \<Rightarrow> bool \<times> 'm list \<times> 's" where
  "kafka_each h herr [] s = (herr, [], s)"
| "kafka_each h herr (r # rs) s =
     (if herr then kafka_each h herr rs s
      else case h r s of (ok, s1) \<Rightarrow>
             (case kafka_each h (\<not> ok) rs s1 of (e, seen, s2) \<Rightarrow> (e, r # seen, s2)))"

definition kafka_poll :: "('m \<Rightarrow> 's \<Rightarrow> bool \<times> 's) \<Rightarrow> bool \<Rightarrow> 'm list \<Rightarrow> 's \<Rightarrow> bool \<times> 'm list \<times> 's" where
  "kafka_poll h fetchErr batch s = (if fetchErr then (True, [], s) else kafka_each h False batch s)"

text \<open>The polls of one session, on the batches the client hands out one after the other.\<close>

fun kafka_session :: "('m \<Rightarrow> 's \<Rightarrow> bool \<times> 's) \<Rightarrow> 'm list list \<Rightarrow> 's \<Rightarrow> 'm list \<times> 's" where
  "kafka_session h [] s = ([], s)"
| "kafka_session h (b # bs) s =
     (case kafka_poll h False b s of (e, seen, s1) \<Rightarrow>
        (case kafka_session h bs s1 of (seen', s2) \<Rightarrow> (seen @ seen', s2)))"

section \<open>Redelivery\<close>

text \<open>
  A consumer is safe under at-least-once delivery when a message it has \<open>seen\<close> stays seen
  and handling it again does not change what the rest of the system observes.
\<close>

locale at_least_once =
  fixes step :: "'m \<Rightarrow> 's \<Rightarrow> 's" and ok :: "'s \<Rightarrow> bool" and seen :: "'s \<Rightarrow> 'm \<Rightarrow> bool" and view :: "'s \<Rightarrow> 'v"
  assumes step_ok: "ok s \<Longrightarrow> ok (step m s)"
    and seen_stable: "ok s \<Longrightarrow> seen s m \<Longrightarrow> seen s k \<Longrightarrow> seen (step k s) m"
    and seen_noop: "ok s \<Longrightarrow> seen s m \<Longrightarrow> view (step m s) = view s"
begin

lemma redeliveries_noop:
  "ok s \<Longrightarrow> (\<And>m. m \<in> set ms \<Longrightarrow> seen s m) \<Longrightarrow> view (fold step ms s) = view s \<and> ok (fold step ms s)"
proof (induction ms arbitrary: s)
  case (Cons m ms)
  then have "seen (step m s) k" if "k \<in> set ms" for k
    using that seen_stable [of s k m] by simp
  then show ?case
    using Cons.IH [of "step m s"] Cons.prems step_ok seen_noop by simp
qed simp

end

section \<open>Lemmas\<close>

definition accepts :: "('m, 's) handler \<Rightarrow> 'm entry \<Rightarrow> bool" where
  "accepts h e \<longleftrightarrow> (\<exists>t. fst (h (snd e) t) = Acked)"

lemma dispatch_all_prefix:
  "dispatch_all h es s = (ok, acked, s') \<Longrightarrow>
     (\<exists>rest. es = acked @ rest) \<and> (ok \<longrightarrow> acked = es) \<and> (\<forall>e \<in> set acked. accepts h e)"
proof (induction es arbitrary: s ok acked s')
  case Nil
  then show ?case by simp
next
  case (Cons e es)
  obtain r s1 where r: "h (snd e) s = (r, s1)" by (cases "h (snd e) s") auto
  show ?case
  proof (cases r)
    case Acked
    obtain ok2 a2 s2 where d: "dispatch_all h es s1 = (ok2, a2, s2)" by (cases "dispatch_all h es s1") auto
    have "accepts h e" unfolding accepts_def using r Acked by (intro exI [of _ s]) simp
    then show ?thesis using Cons.prems Cons.IH [OF d] d r Acked by auto
  qed (use Cons.prems r in auto)
qed

definition entries :: "'m stream \<Rightarrow> 'm entry set" where
  "entries st = set (st_new st) \<union> set (st_pending st) \<union> set (st_stranded st)"

text \<open>No entry appears, and one that leaves was acknowledged after its handler returned nil.\<close>

definition keeps :: "('m, 's) handler \<Rightarrow> 'm stream \<Rightarrow> 'm stream \<Rightarrow> bool" where
  "keeps h st st' \<longleftrightarrow>
     entries st' \<subseteq> entries st \<and> (\<forall>e \<in> entries st - entries st'. accepts h e)"

text \<open>Ids identify entries: an acknowledged id removes one entry only.\<close>

definition ids_unique :: "'m stream \<Rightarrow> bool" where
  "ids_unique st \<longleftrightarrow> inj_on fst (entries st)"

lemma keeps_refl [simp]: "keeps h st st"
  by (simp add: keeps_def)

lemma keeps_trans: "keeps h a b \<Longrightarrow> keeps h b c \<Longrightarrow> keeps h a c"
  unfolding keeps_def by blast

lemma keeps_ids: "keeps h a b \<Longrightarrow> ids_unique a \<Longrightarrow> ids_unique b"
  unfolding keeps_def ids_unique_def by (blast intro: inj_on_subset)

lemma XAck_keeps:
  assumes "ids_unique st" and "dispatch_all h es s = (ok, acked, s')" and "set es \<subseteq> entries st"
    and "entries st1 = entries st"
  shows "keeps h st (st1\<lparr>st_pending := XAck acked (st_pending st1)\<rparr>)"
proof -
  let ?st' = "st1\<lparr>st_pending := XAck acked (st_pending st1)\<rparr>"
  have sub: "entries ?st' \<subseteq> entries st"
    using assms(4) by (auto simp: entries_def XAck_def)
  have "accepts h e" if "e \<in> entries st - entries ?st'" for e
  proof -
    have "e \<in> set (st_pending st1)" "fst e \<in> fst ` set acked"
      using that assms(4) by (auto simp: entries_def XAck_def)
    moreover have "set acked \<subseteq> entries st"
      using dispatch_all_prefix [OF assms(2)] assms(3) by auto
    ultimately have "e \<in> set acked"
      using that assms(1) unfolding ids_unique_def by (auto dest: inj_onD)
    then show ?thesis using dispatch_all_prefix [OF assms(2)] by blast
  qed
  with sub show ?thesis by (auto simp: keeps_def)
qed

lemma readPending_keeps:
  assumes "ids_unique st" and "readPending h st s = (ok, st', s')" shows "keeps h st st'"
proof -
  obtain ok1 acked s1 where d: "dispatch_all h (take redisBatch (st_pending st)) s = (ok1, acked, s1)"
    by (cases "dispatch_all h (take redisBatch (st_pending st)) s") auto
  have "set (take redisBatch (st_pending st)) \<subseteq> entries st"
    using set_take_subset by (fastforce simp: entries_def)
  from XAck_keeps [OF assms(1) d this, of st] show ?thesis
    using assms(2) d by (simp add: readPending_def)
qed

lemma set_take_drop: "set (take n xs) \<union> set (drop n xs) = set xs"
  by (metis append_take_drop_id set_append)

lemma reclaim_keeps:
  "ids_unique st \<Longrightarrow> reclaim h st s = (ok, st', s') \<Longrightarrow> keeps h st st'"
proof (induction h st s arbitrary: ok st' s' rule: reclaim.induct)
  case (1 h st s)
  let ?claimed = "take redisBatch (st_stranded st)"
  let ?st1 = "st\<lparr>st_stranded := drop redisBatch (st_stranded st), st_pending := sort_key fst (st_pending st @ ?claimed)\<rparr>"
  obtain ok1 acked s1 where d: "dispatch_all h ?claimed s = (ok1, acked, s1)"
    by (cases "dispatch_all h ?claimed s") auto
  let ?st2 = "?st1\<lparr>st_pending := XAck acked (st_pending ?st1)\<rparr>"
  have e1: "entries ?st1 = entries st"
    using set_take_drop [of redisBatch "st_stranded st"] by (auto simp: entries_def)
  have "set ?claimed \<subseteq> entries st" using set_take_subset by (fastforce simp: entries_def)
  from XAck_keeps [OF "1.prems"(1) d this e1] have k: "keeps h st ?st2" .
  have step: "reclaim h st s =
      (if \<not> ok1 then (False, ?st2, s1) else if st_stranded ?st2 = [] then (True, ?st2, s1) else reclaim h ?st2 s1)"
    unfolding reclaim.simps [of h st s] Let_def d case_prod_conv by (rule refl)
  show ?case
  proof (cases "\<not> ok1 \<or> st_stranded ?st2 = []")
    case True
    then have "st' = ?st2" using "1.prems"(2) unfolding step by (auto split: if_splits)
    with k show ?thesis by simp
  next
    case False
    then have "reclaim h ?st2 s1 = (ok, st', s')" using "1.prems"(2) unfolding step by (simp split: if_splits)
    moreover have "ids_unique ?st2" using k "1.prems"(1) by (rule keeps_ids)
    ultimately have "keeps h ?st2 st'" using "1.IH" [OF refl refl d [symmetric] refl refl] False by auto
    with k show ?thesis by (rule keeps_trans)
  qed
qed

lemma each_stream_keeps:
  assumes "\<And>st s ok st' s'. ids_unique st \<Longrightarrow> step st s = (ok, st', s') \<Longrightarrow> keeps h st st'"
    and "list_all ids_unique sts" and "each_stream step sts s = (ok, sts', s')"
  shows "list_all2 (keeps h) sts sts'"
  using assms(2,3)
proof (induction sts arbitrary: s ok sts' s')
  case Nil
  then show ?case by simp
next
  case (Cons st sts)
  obtain ok1 st1 s1 where d: "step st s = (ok1, st1, s1)" by (cases "step st s") auto
  obtain ok2 sts2 s2 where e: "each_stream step sts s1 = (ok2, sts2, s2)" by (cases "each_stream step sts s1") auto
  show ?case
    using Cons.prems Cons.IH [OF _ e] d e assms(1) [OF _ d]
    by (cases ok1) (auto intro: list_all2_refl)
qed

lemma deliver_new_entries [simp]: "entries (deliver_new st) = entries st"
  using set_take_drop [of redisBatch "st_new st"] by (auto simp: entries_def deliver_new_def)

lemma deliver_new_keeps [simp]: "keeps h st (deliver_new st)"
  by (simp add: keeps_def)

lemma dispatch_new_keeps:
  assumes "list_all ids_unique sts" and "dispatch_new h sts s = (ok, sts', s')"
  shows "list_all2 (keeps h) sts sts'"
  using assms
proof (induction sts arbitrary: s ok sts' s')
  case Nil
  then show ?case by simp
next
  case (Cons st sts)
  obtain ok1 acked s1 where d: "dispatch_all h (take redisBatch (st_new st)) s = (ok1, acked, s1)"
    by (cases "dispatch_all h (take redisBatch (st_new st)) s") auto
  obtain ok2 sts2 s2 where e: "dispatch_new h sts s1 = (ok2, sts2, s2)" by (cases "dispatch_new h sts s1") auto
  have "set (take redisBatch (st_new st)) \<subseteq> entries st" using set_take_subset by (fastforce simp: entries_def)
  with Cons.prems(1) d have "keeps h st ((deliver_new st)\<lparr>st_pending := XAck acked (st_pending (deliver_new st))\<rparr>)"
    by (intro XAck_keeps) auto
  moreover have "list_all2 (keeps h) sts (map deliver_new sts)"
    by (simp add: list_all2_map2 list_all2_refl)
  ultimately show ?case
    using Cons.prems Cons.IH [OF _ e] d e by (cases ok1) (auto simp: Let_def)
qed

lemma keeps_list_ids: "list_all2 (keeps h) sts sts' \<Longrightarrow> list_all ids_unique sts \<Longrightarrow> list_all ids_unique sts'"
  unfolding list_all2_conv_all_nth list_all_length using keeps_ids by metis

lemma keeps_list_trans:
  "list_all2 (keeps h) a b \<Longrightarrow> list_all2 (keeps h) b c \<Longrightarrow> list_all2 (keeps h) a c"
  unfolding list_all2_conv_all_nth using keeps_trans by metis

lemma redis_poll_keeps:
  assumes "list_all ids_unique sts" and "redis_poll h due sts s = (ok, sts', s')"
  shows "list_all2 (keeps h) sts sts'"
proof -
  obtain ok1 sts1 s1 where a: "each_stream (readPending h) sts s = (ok1, sts1, s1)"
    by (cases "each_stream (readPending h) sts s") auto
  have k1: "list_all2 (keeps h) sts sts1"
    using readPending_keeps assms(1) a by (rule each_stream_keeps)
  then have u1: "list_all ids_unique sts1" using assms(1) by (rule keeps_list_ids)
  obtain ok2 sts2 s2 where b: "(if due then each_stream (reclaim h) sts1 s1 else (True, sts1, s1)) = (ok2, sts2, s2)"
    by (cases "if due then each_stream (reclaim h) sts1 s1 else (True, sts1, s1)") auto
  have "list_all2 (keeps h) sts1 sts2"
    using b each_stream_keeps [where step = "reclaim h" and h = h, OF reclaim_keeps u1]
    by (cases due) (auto intro: list_all2_refl)
  with k1 have k2: "list_all2 (keeps h) sts sts2" by (rule keeps_list_trans)
  then have u2: "list_all ids_unique sts2" using assms(1) by (rule keeps_list_ids)
  show ?thesis
    using assms(2) a b k1 k2 dispatch_new_keeps [OF u2, of h s2 ok sts' s'] keeps_list_trans [OF k2, of sts']
    by (auto simp: redis_poll_def split: bool.splits)
qed

text \<open>
  The Redis consumer loses nothing: over any number of polls, with or without the
  reclaim pass, whatever the handler does and whichever acknowledgement fails, an entry of
  the group disappears only after its handler returned nil, and no entry is invented.
\<close>

theorem redis_polls_lose_nothing:
  assumes "list_all ids_unique sts" and "redis_polls h dues sts s = (sts', s')"
  shows "length sts' = length sts \<and>
         (\<forall>i < length sts. entries (sts' ! i) \<subseteq> entries (sts ! i)
            \<and> (\<forall>e \<in> entries (sts ! i) - entries (sts' ! i). \<exists>t. fst (h (snd e) t) = Acked))"
proof -
  have "list_all2 (keeps h) sts sts'"
    using assms
  proof (induction dues arbitrary: sts s)
    case Nil
    then show ?case by (auto intro: list_all2_refl)
  next
    case (Cons due dues)
    obtain ok1 sts1 s1 where p: "redis_poll h due sts s = (ok1, sts1, s1)" by (cases "redis_poll h due sts s") auto
    have k: "list_all2 (keeps h) sts sts1" using Cons.prems(1) p by (rule redis_poll_keeps)
    then have "list_all ids_unique sts1" using Cons.prems(1) by (rule keeps_list_ids)
    with Cons.IH Cons.prems(2) p have "list_all2 (keeps h) sts1 sts'" by simp
    with k show ?case by (rule keeps_list_trans)
  qed
  then show ?thesis by (auto simp: list_all2_conv_all_nth keeps_def accepts_def)
qed

definition ex_handler :: "(nat, nat list) handler" where
  "ex_handler m s = (if m = 7 then (HandlerErr, s) else (Acked, s @ [m]))"

definition ex_stream :: "nat stream" where
  "ex_stream = \<lparr>st_new = [(3, 7), (4, 9)], st_pending = [(1, 5)], st_stranded = []\<rparr>"

theorem redis_polls_lose_nothing_witness:
  "fst (redis_polls ex_handler [False] [ex_stream] []) =
     [\<lparr>st_new = [], st_pending = [(3, 7), (4, 9)], st_stranded = []\<rparr>]
   \<and> length (fst (redis_polls ex_handler [False] [ex_stream] [])) = length [ex_stream]"
proof -
  have u: "list_all ids_unique [ex_stream]"
    by (auto simp: ids_unique_def entries_def ex_stream_def inj_on_def)
  have "redis_polls ex_handler [False] [ex_stream] [] =
      ([\<lparr>st_new = [], st_pending = [(3, 7), (4, 9)], st_stranded = []\<rparr>], [5])"
    by (simp add: redis_poll_def readPending_def ex_stream_def ex_handler_def XAck_def deliver_new_def
        redisBatch_def Let_def)
  with redis_polls_lose_nothing [OF u this] show ?thesis by simp
qed

text \<open>
  Head-of-line blocking: while the oldest pending entry of the first topic is refused
  by its handler, no poll hands over any other entry. The group stays exactly as it was, new
  entries included, for as many polls as are made, and each poll reports an error.
\<close>

theorem redis_head_of_line:
  assumes "st_pending st = e # es" and "\<And>t. fst (h (snd e) t) \<noteq> Acked"
  shows "fst (redis_polls h dues (st # sts) s) = st # sts
         \<and> \<not> fst (redis_poll h due (st # sts) s)"
proof -
  have one: "\<exists>s1. redis_poll h due (st # sts) s = (False, st # sts, s1)" for due s
  proof -
    obtain r s1 where r: "h (snd e) s = (r, s1)" "r \<noteq> Acked" using assms(2) [of s] by (cases "h (snd e) s") auto
    then have "dispatch_all h (take redisBatch (st_pending st)) s = (False, [], s1)"
      by (cases r) (auto simp: assms(1) redisBatch_def)
    then show ?thesis by (simp add: redis_poll_def readPending_def XAck_def)
  qed
  have "fst (redis_polls h dues (st # sts) s) = st # sts" for s
  proof (induction dues arbitrary: s)
    case (Cons due dues)
    obtain s1 where "redis_poll h due (st # sts) s = (False, st # sts, s1)" using one by blast
    then show ?case using Cons.IH [of s1] by simp
  qed simp
  with one show ?thesis by (metis fst_conv)
qed

theorem redis_head_of_line_witness:
  "fst (redis_polls ex_handler [True, False, True] [\<lparr>st_new = [(4, 9)], st_pending = [(3, 7)], st_stranded = []\<rparr>] [])
     = [\<lparr>st_new = [(4, 9)], st_pending = [(3, 7)], st_stranded = []\<rparr>]"
  using redis_head_of_line [of "\<lparr>st_new = [(4, 9)], st_pending = [(3, 7)], st_stranded = []\<rparr>" "(3, 7)" "[]"
      ex_handler "[True, False, True]" "[]" "[]" True]
  by (simp add: ex_handler_def)

section \<open>Order\<close>

definition stream_log :: "'m stream \<Rightarrow> 'm entry list" where "stream_log st = st_pending st @ st_new st"

text \<open>The group of a consumer that is alone and keeps its name: nothing stranded, one batch pending.\<close>

definition single_consumer :: "'m stream \<Rightarrow> bool" where
  "single_consumer st \<longleftrightarrow> st_stranded st = [] \<and> sorted_wrt (<) (map fst (stream_log st)) \<and> length (st_pending st) \<le> redisBatch"

lemma XAck_prefix: "sorted_wrt (<) (map fst (xs @ ys)) \<Longrightarrow> XAck xs (xs @ ys) = ys"
  by (fastforce simp: XAck_def sorted_wrt_append filter_empty_conv filter_id_conv)

lemma sorted_wrt_less_key: "sorted_wrt (<) (map fst xs) \<Longrightarrow> sort_key fst xs = (xs :: (nat \<times> 'a) list)"
  by (intro sort_key_id_if_sorted) (simp add: strict_sorted_imp_sorted)

lemma redis_poll_in_order:
  assumes "single_consumer st" and "redis_poll h due [st] s = (ok, sts', s')"
  shows "\<exists>st' done. sts' = [st'] \<and> single_consumer st' \<and> stream_log st = done @ stream_log st' \<and> (\<forall>e \<in> set done. accepts h e)"
proof -
  have str: "st_stranded st = []" and srt: "sorted_wrt (<) (map fst (st_pending st @ st_new st))"
    and len: "length (st_pending st) \<le> redisBatch"
    using assms(1) by (auto simp: single_consumer_def stream_log_def)
  obtain ok1 a1 s1 where d1: "dispatch_all h (st_pending st) s = (ok1, a1, s1)"
    by (cases "dispatch_all h (st_pending st) s") auto
  obtain r1 where r1: "st_pending st = a1 @ r1" "ok1 \<longrightarrow> a1 = st_pending st" "\<forall>e \<in> set a1. accepts h e"
    using dispatch_all_prefix [OF d1] by blast
  have x1: "XAck a1 (st_pending st) = r1"
    using srt unfolding r1(1) by (intro XAck_prefix) (simp add: sorted_wrt_append)
  show ?thesis
  proof (cases ok1)
    case False
    then have "sts' = [st\<lparr>st_pending := r1\<rparr>]"
      using assms(2) d1 len x1 by (auto simp: redis_poll_def readPending_def)
    then show ?thesis
      using r1 srt str len
      by (intro exI [of _ "st\<lparr>st_pending := r1\<rparr>"] exI [of _ a1])
        (auto simp: single_consumer_def stream_log_def sorted_wrt_append)
  next
    case True
    then have "a1 = st_pending st" "r1 = []" using r1 by auto
    let ?st1 = "st\<lparr>st_pending := []\<rparr>"
    let ?b = "take redisBatch (st_new st)"
    have rec: "reclaim h ?st1 s1 = (True, ?st1, s1)"
      using str by (subst reclaim.simps) (simp add: XAck_def)
    obtain ok2 a2 s2 where d2: "dispatch_all h ?b s1 = (ok2, a2, s2)" by (cases "dispatch_all h ?b s1") auto
    obtain r2 where r2: "?b = a2 @ r2" "\<forall>e \<in> set a2. accepts h e" using dispatch_all_prefix [OF d2] by blast
    have srt2: "sorted_wrt (<) (map fst (st_new st))" using srt by (simp add: sorted_wrt_append)
    have nb: "st_new st = ?b @ drop redisBatch (st_new st)" by simp
    have srt3: "sorted_wrt (<) (map fst ?b)" using srt2 by (metis map_append nb sorted_wrt_append)
    have x2: "XAck a2 (sort_key fst ?b) = r2"
      using srt3 sorted_wrt_less_key [OF srt3] XAck_prefix [of a2 r2] by (simp add: r2(1))
    let ?st' = "st\<lparr>st_new := drop redisBatch (st_new st), st_pending := r2\<rparr>"
    have "sts' = [?st']"
      using assms(2) d1 len x1 True d2 x2 rec \<open>r1 = []\<close>
      by (cases due; cases ok2) (auto simp: redis_poll_def readPending_def deliver_new_def Let_def)
    moreover have new: "st_new st = a2 @ r2 @ drop redisBatch (st_new st)" using r2(1) by (metis append.assoc nb)
    moreover have "length r2 \<le> redisBatch" using r2(1) by (metis length_append length_take le_add2 min.cobounded2 order_trans)
    moreover have "sorted_wrt (<) (map fst (r2 @ drop redisBatch (st_new st)))"
      using srt2 by (subst (asm) new) (simp add: sorted_wrt_append)
    ultimately show ?thesis
      using r1(3) r2(2) str \<open>a1 = st_pending st\<close>
      by (intro exI [of _ ?st'] exI [of _ "st_pending st @ a2"]) (auto simp: single_consumer_def stream_log_def)
  qed
qed

text \<open>
  C33. One consumer over Redis handles a topic in order: over any number of polls the entries
  that left the group are a prefix of the log (pending first, then new), every one of them
  accepted by its handler, and what remains is the rest of the log in the same order. An
  entry is therefore never acknowledged before an older one of its topic.
\<close>

theorem redis_polls_in_order:
  assumes "single_consumer st" and "redis_polls h dues [st] s = (sts', s')"
  shows "\<exists>st' done. sts' = [st'] \<and> single_consumer st' \<and> stream_log st = done @ stream_log st'
           \<and> (\<forall>e \<in> set done. \<exists>t. fst (h (snd e) t) = Acked)"
  using assms
proof (induction dues arbitrary: st s)
  case Nil
  then show ?case by (intro exI [of _ st] exI [of _ "[]"]) simp
next
  case (Cons due dues)
  obtain ok1 sts1 s1 where p: "redis_poll h due [st] s = (ok1, sts1, s1)" by (cases "redis_poll h due [st] s") auto
  obtain st1 d1 where st1: "sts1 = [st1]" "single_consumer st1" "stream_log st = d1 @ stream_log st1" "\<forall>e \<in> set d1. accepts h e"
    using redis_poll_in_order [OF Cons.prems(1) p] by blast
  obtain st' d2 where "sts' = [st']" "single_consumer st'" "stream_log st1 = d2 @ stream_log st'"
      "\<forall>e \<in> set d2. \<exists>t. fst (h (snd e) t) = Acked"
    using Cons.IH [OF st1(2), of s1] Cons.prems(2) p st1(1) by auto
  then show ?case
    using st1(3,4) by (intro exI [of _ st'] exI [of _ "d1 @ d2"]) (auto simp: accepts_def)
qed

theorem redis_polls_in_order_witness:
  "single_consumer ex_stream
   \<and> (\<exists>st' done. fst (redis_polls ex_handler [False, True] [ex_stream] []) = [st'] \<and> stream_log ex_stream = done @ stream_log st')"
proof -
  have s: "single_consumer ex_stream" by (simp add: single_consumer_def ex_stream_def stream_log_def redisBatch_def)
  obtain sts' s' where "redis_polls ex_handler [False, True] [ex_stream] [] = (sts', s')"
    by (cases "redis_polls ex_handler [False, True] [ex_stream] []") auto
  with redis_polls_in_order [OF s this] s show ?thesis by auto
qed

section \<open>What a Kafka session hands over\<close>

lemma kafka_each_err [simp]: "kafka_each h True rs s = (True, [], s)"
  by (induction rs) auto

lemma kafka_each_prefix:
  "kafka_each h False rs s = (e, seen, s') \<Longrightarrow> \<exists>rest. rs = seen @ rest \<and> (\<not> e \<longrightarrow> rest = [])"
proof (induction rs arbitrary: s e seen s')
  case (Cons r rs)
  then show ?case by (cases "fst (h r s)") (fastforce split: prod.splits)+
qed simp

lemma kafka_each_stops:
  assumes "\<And>t. \<not> fst (h r t)" and "kafka_each h False (pre @ r # post) s = (e, seen, s')"
  shows "set seen \<subseteq> set (pre @ [r]) \<and> e"
  using assms(2)
proof (induction pre arbitrary: s seen)
  case Nil
  then show ?case using assms(1) [of s] by (cases "h r s") auto
next
  case (Cons q pre)
  then show ?case by (cases "fst (h q s)") (fastforce split: prod.splits)+
qed

lemma kafka_session_append:
  "kafka_session h (bs @ cs) s =
     (case kafka_session h bs s of (a, s1) \<Rightarrow> (case kafka_session h cs s1 of (b, s2) \<Rightarrow> (a @ b, s2)))"
  by (induction bs arbitrary: s) (auto split: prod.split)

lemma kafka_session_subset: "set (fst (kafka_session h bs s)) \<subseteq> set (concat bs)"
proof (induction bs arbitrary: s)
  case (Cons b bs)
  obtain e seen s1 where k: "kafka_each h False b s = (e, seen, s1)" by (cases "kafka_each h False b s") auto
  obtain seen' s2 where k2: "kafka_session h bs s1 = (seen', s2)" by (cases "kafka_session h bs s1") auto
  have "set seen \<subseteq> set b" using kafka_each_prefix [OF k] by auto
  moreover have "set seen' \<subseteq> set (concat bs)" using Cons.IH [of s1] k2 by simp
  ultimately show ?case using k k2 by (auto simp: kafka_poll_def)
qed simp

text \<open>
  The Kafka consumer drops records after a handler error: when the client hands out
  each record of the log once (its position moves past every fetched record), and the
  handler fails on a record in the middle of a fetched batch, then no record behind it in
  that batch is handed to a handler for the rest of the session, and neither is the failing
  record again after its batch.
\<close>

theorem kafka_session_drops:
  assumes "distinct (concat (bs @ (pre @ r # post) # cs))" and "\<And>t. \<not> fst (h r t)"
  shows "set post \<inter> set (fst (kafka_session h (bs @ (pre @ r # post) # cs) s)) = {}
         \<and> r \<notin> set (fst (kafka_session h cs (snd (kafka_session h (bs @ [pre @ r # post]) s))))"
proof -
  obtain a s1 where a: "kafka_session h bs s = (a, s1)" by (cases "kafka_session h bs s") auto
  obtain e b s2 where b: "kafka_each h False (pre @ r # post) s1 = (e, b, s2)"
    by (cases "kafka_each h False (pre @ r # post) s1") auto
  obtain c s3 where c: "kafka_session h cs s2 = (c, s3)" by (cases "kafka_session h cs s2") auto
  have all: "fst (kafka_session h (bs @ (pre @ r # post) # cs) s) = a @ b @ c"
    "snd (kafka_session h (bs @ [pre @ r # post]) s) = s2"
    using a b c by (simp_all add: kafka_session_append kafka_poll_def)
  have "set a \<subseteq> set (concat bs)" "set c \<subseteq> set (concat cs)" "set b \<subseteq> set (pre @ [r])"
    using kafka_session_subset [of h bs s] kafka_session_subset [of h cs s2] a c
      kafka_each_stops [OF assms(2) b] by simp_all
  then show ?thesis using assms(1) all c by auto
qed

theorem kafka_session_drops_witness:
  "set [3 :: nat] \<inter> set (fst (kafka_session (\<lambda>r s. (r \<noteq> 2, s @ [r])) [[1, 2, 3], [4]] [])) = {}
   \<and> fst (kafka_session (\<lambda>r s. (r \<noteq> 2, s @ [r])) [[1 :: nat, 2, 3], [4]] []) = [1, 2, 4]"
  using kafka_session_drops [of "[]" "[1]" "2 :: nat" "[3]" "[[4]]" "\<lambda>r s. (r \<noteq> 2, s @ [r])" "[]"]
  by (simp add: kafka_poll_def)

end
