(* ===== verification/Pulse_Alert_Service.thy ===== *)
theory Pulse_Alert_Service
  imports Pulse_Incident_Store Pulse_Events Pulse_Bus
begin

text \<open>
  The alerting consumer, \<open>internal/alerting/service.go\<close>: \<open>handle\<close> persists a result,
  loads the monitor and its alert state, runs the pure state machine, persists the decision
  and emits a notify event.  Each store call may fail before or after its commit and the
  producer may fail, as the environment of one delivery says; a returned error leaves the
  offset uncommitted, so that the bus delivers the record again.

  SHA-256 with its hex encoding is a parameter of the definitions that use it.
\<close>

section \<open>The consumer\<close>

text \<open>What one delivery meets: a fault per store call, the producer, and the clock.\<close>

record DeliveryEnv =
  env_upsert :: fault
  env_getmon :: fault
  env_state :: fault
  env_apply :: fault
  env_produce_ok :: bool
  env_now :: time

definition calm :: "time \<Rightarrow> DeliveryEnv" where
  "calm now = \<lparr>env_upsert = NoFault, env_getmon = NoFault, env_state = NoFault, env_apply = NoFault,
     env_produce_ok = True, env_now = now\<rparr>"

fun NotifyEventType_string :: "NotifyEventType \<Rightarrow> string" where
  "NotifyEventType_string EventDown = ''down''"
| "NotifyEventType_string EventRecovery = ''recovery''"

definition dedupInput :: "int \<Rightarrow> string \<Rightarrow> int option \<Rightarrow> string" where
  "dedupInput incidentID eventType warnDays =
     (let s = Itoa incidentID @ '':'' @ eventType
      in case warnDays of None \<Rightarrow> s | Some w \<Rightarrow> s @ '':'' @ Itoa w)"

definition dedupKey :: "(string \<Rightarrow> string) \<Rightarrow> int \<Rightarrow> string \<Rightarrow> int option \<Rightarrow> string" where
  "dedupKey sha256hex incidentID eventType warnDays = sha256hex (dedupInput incidentID eventType warnDays)"

definition toStoreDecision :: "AlertDecision \<Rightarrow> StoreDecision" where
  "toStoreDecision d =
     \<lparr>sd_Action = (case ad_Action d of ActOpenIncident \<Rightarrow> IncidentOpen
                   | ActCloseIncident \<Rightarrow> IncidentClose | _ \<Rightarrow> IncidentNone),
      sd_NewConsecutive = ad_NewConsecutive d, sd_NewFirstFailAt = ad_NewFirstFailAt d,
      sd_IncidentStartedAt = ad_IncidentStartedAt d, sd_CauseReason = ad_CauseReason d,
      sd_IncidentEndedAt = ad_IncidentEndedAt d, sd_NewSSLWarnedDays = ad_NewSSLWarnedDays d,
      sd_Renotify = ad_Renotify d\<rparr>"

definition reduceToVerdict :: "CheckResult \<Rightarrow> int \<Rightarrow> CheckResult \<times> int" where
  "reduceToVerdict res resultID = (res, resultID)"

definition emit :: "(string \<Rightarrow> string) \<Rightarrow> time \<Rightarrow> Monitor \<Rightarrow> Incident \<Rightarrow> CheckResult \<Rightarrow> NotifyEventType
    \<Rightarrow> int option \<Rightarrow> NotifyEvent" where
  "emit sha256hex now m inc verdict kind warnDays =
     \<lparr>nev_OrgID = mon_OrgID m, nev_MonitorID = mon_ID m, nev_IncidentID = inc_ID inc,
      nev_EventType = NotifyEventType_string kind,
      nev_DedupKey = dedupKey sha256hex (inc_ID inc) (NotifyEventType_string kind) warnDays,
      nev_MonitorName = mon_Name m, nev_MonitorURL = mon_URL m, nev_MonitorMethod = mon_Method m,
      nev_IncidentStartedAt = inc_StartedAt inc, nev_IncidentEndedAt = inc_EndedAt inc,
      nev_DurationSeconds =
        (case inc_EndedAt inc of
           Some ended \<Rightarrow> if kind = EventRecovery then Some (whole_seconds (time_Sub ended (inc_StartedAt inc)))
                        else None
         | None \<Rightarrow> None),
      nev_Check = verdict, nev_ChannelIDs = mon_ChannelIDs m,
      nev_RegionsObserved = (if kind = EventDown \<and> res_Region verdict \<noteq> '''' then [res_Region verdict] else []),
      nev_SentAt = now\<rparr>"

text \<open>
  The result of one delivery: an error (the record will come again), or done with the
  notify events that reached the bus.
\<close>

datatype delivery = Failed db_error | Done "NotifyEvent list"

definition produced :: "DeliveryEnv \<Rightarrow> NotifyEvent \<Rightarrow> NotifyEvent list" where
  "produced env ev = (if env_produce_ok env then [ev] else [])"

definition handle :: "(string \<Rightarrow> string) \<Rightarrow> cipher \<Rightarrow> DeliveryEnv \<Rightarrow> CheckResultEvent option \<Rightarrow> db \<Rightarrow> delivery \<times> db" where
  "handle sha256hex c env rec db =
     (case rec of
        None \<Rightarrow> (Done [], db)
      | Some ev \<Rightarrow>
          let res = (cre_Result ev)\<lparr>res_ScheduledAt := cre_ScheduledAt ev\<rparr>
          in case UpsertCheckResult (env_upsert env) res db of
               (Inl e, db1) \<Rightarrow> (Failed e, db1)
             | (Inr resultID, db1) \<Rightarrow>
                 let res = res\<lparr>res_ID := resultID\<rparr>
                 in case GetMonitor (env_getmon env) c (res_OrgID res) (res_MonitorID res) db1 of
                      (Inl e, db2) \<Rightarrow> (if e = ErrNoRows then Done [] else Failed e, db2)
                    | (Inr m, db2) \<Rightarrow>
                        let (verdict, maxResultID) = reduceToVerdict res resultID
                        in case GetAlertState (env_state env) (mon_OrgID m) (mon_ID m) db2 of
                             (Inl e, db3) \<Rightarrow> (if e = ErrNoRows then Done [] else Failed e, db3)
                           | (Inr state, db3) \<Rightarrow>
                               let decision = Apply m verdict state
                               in case ApplyAlertDecision (env_apply env) m maxResultID resultID
                                         (toStoreDecision decision) db3 of
                                    (Inl e, db4) \<Rightarrow> (Failed e, db4)
                                  | (Inr applied, db4) \<Rightarrow>
                                      if apd_Skipped applied then (Done [], db4)
                                      else (case (ad_Notify decision, apd_Incident applied) of
                                              (Some n, Some inc) \<Rightarrow>
                                                if apd_Applied applied
                                                then (Done (produced env (emit sha256hex (env_now env) m inc verdict
                                                              (ne_Type n) (ne_WarnDays n))), db4)
                                                else (Done [], db4)
                                            | _ \<Rightarrow> (Done [], db4)))"

section \<open>One applied decision\<close>

definition alert_of :: "db \<Rightarrow> int \<Rightarrow> int \<Rightarrow> db_error + AlertState" where
  "alert_of db orgID mid = fst (GetAlertState NoFault orgID mid db)"

lemma alert_of_eq:
  "alert_of db orgID mid =
     (case select_monitor db orgID mid of None \<Rightarrow> Inl ErrNoRows
      | Some r \<Rightarrow> Inr ((scanAlertState r)\<lparr>as_OpenIncident := getOpenIncidentTx db orgID mid\<rparr>))"
  by (simp add: alert_of_def GetAlertState_def2)

lemma select_write_counters:
  assumes "select_monitor db (mon_OrgID m) (mon_ID m) = Some r"
    and "\<not> already_applied (row_LastAppliedResultID r) rid"
  shows "select_monitor (write_counters m rid d db) (mon_OrgID m) (mon_ID m) =
           Some (r\<lparr>row_ConsecutiveFails := sd_NewConsecutive d, row_FirstFailAt := sd_NewFirstFailAt d,
                 row_LastAppliedResultID := Some rid, row_SSLWarnedDays := sd_NewSSLWarnedDays d\<rparr>)"
proof -
  have r: "row_ID r = mon_ID m" "row_OrgID r = mon_OrgID m" using select_monitor_Some [OF assms(1)] by auto
  have w: "case row_LastAppliedResultID r of None \<Rightarrow> True | Some w \<Rightarrow> w < rid"
    using assms(2) by (auto simp: already_applied_def split: option.splits)
  show ?thesis
    using assms(1) r w unfolding select_monitor_def write_counters_def
    by (simp add: find_filter_map)
qed

lemma select_write_counters_other:
  "mid \<noteq> mon_ID m \<Longrightarrow> select_monitor (write_counters m rid d db) orgID mid = select_monitor db orgID mid"
  unfolding select_monitor_def write_counters_def
proof (simp, induction "db_monitors db" arbitrary: db)
  case (Cons a xs)
  show ?case using Cons(1) [of "db\<lparr>db_monitors := xs\<rparr>"] Cons(2,3) by (auto simp: Cons(2) [symmetric])
qed simp

lemma getOpen_write_counters [simp]:
  "getOpenIncidentTx (write_counters m rid d db) orgID mid = getOpenIncidentTx db orgID mid"
  by (simp add: getOpenIncidentTx_def write_counters_def)

lemma Apply_shape:
  "(ad_Action (Apply m res st) = ActOpenIncident \<longrightarrow> as_OpenIncident st = None)
   \<and> (ad_Action (Apply m res st) = ActCloseIncident \<longrightarrow> as_OpenIncident st \<noteq> None)
   \<and> (ad_Renotify (Apply m res st) \<longrightarrow> as_OpenIncident st \<noteq> None \<and> ad_Action (Apply m res st) = ActNone)
   \<and> (ad_Notify (Apply m res st) \<noteq> None \<longleftrightarrow> ad_Action (Apply m res st) \<noteq> ActNone \<or> ad_Renotify (Apply m res st))"
  by (auto simp: apply_defs split: option.splits)

lemma insert_incident_new:
  assumes "wf_db db" and "select_monitor db (mon_OrgID m) (mon_ID m) = Some r"
    and "getOpenIncidentTx db (mon_OrgID m) (mon_ID m) = None" and "rid \<noteq> 0"
  shows "insert_incident m rid (toStoreDecision d) db =
           (Some (opened m (db_next_incident db) rid d),
            db\<lparr>db_next_incident := db_next_incident db + 1,
               db_incidents := db_incidents db @ [opened m (db_next_incident db) rid d]\<rparr>)"
  using assms(4) getOpenIncidentTx_None [OF assms(1,2)] assms(3)
  by (simp add: insert_incident_def Let_def opened_def toStoreDecision_def)

lemma getOpen_snoc:
  assumes "getOpenIncidentTx db (inc_OrgID i) (inc_MonitorID i) = None" and "is_open i"
  shows "getOpenIncidentTx (db\<lparr>db_next_incident := n, db_incidents := db_incidents db @ [i]\<rparr>) orgID mid =
           (if mid = inc_MonitorID i \<and> orgID = inc_OrgID i then Some i else getOpenIncidentTx db orgID mid)"
  using assms by (auto simp: getOpenIncidentTx_def find_append split: option.splits)

lemma opened_fields [simp]:
  "inc_OrgID (opened m iid rid d) = mon_OrgID m" "inc_MonitorID (opened m iid rid d) = mon_ID m"
  "is_open (opened m iid rid d)" "inc_ID (opened m iid rid d) = iid"
  by (simp_all add: opened_def is_open_def)

text \<open>The incident a decision is about once it is applied.\<close>

definition subject_incident :: "Monitor \<Rightarrow> int \<Rightarrow> int \<Rightarrow> CheckResult \<Rightarrow> AlertState \<Rightarrow> Incident" where
  "subject_incident m iid rid res st =
     (let d = Apply m res st
      in case ad_Action d of
           ActOpenIncident \<Rightarrow> opened m iid rid d
         | ActCloseIncident \<Rightarrow> recovered (ad_IncidentEndedAt d) (the (as_OpenIncident st))
         | ActNone \<Rightarrow> the (as_OpenIncident st))"

definition open_after :: "Monitor \<Rightarrow> int \<Rightarrow> int \<Rightarrow> CheckResult \<Rightarrow> AlertState \<Rightarrow> Incident option" where
  "open_after m iid rid res st =
     (case ad_Action (Apply m res st) of
        ActOpenIncident \<Rightarrow> Some (opened m iid rid (Apply m res st))
      | ActCloseIncident \<Rightarrow> None
      | ActNone \<Rightarrow> as_OpenIncident st)"

lemma apply_incident_spec:
  assumes wf: "wf_db db" and sel: "select_monitor db (mon_OrgID m) (mon_ID m) = Some r"
    and cur: "as_OpenIncident st = getOpenIncidentTx db (mon_OrgID m) (mon_ID m)" and rid: "rid \<noteq> 0"
  shows "\<exists>ap db1. apply_incident m rid (toStoreDecision (Apply m res st)) (as_OpenIncident st) db = (ap, db1)
     \<and> \<not> apd_Skipped ap
     \<and> (ad_Action (Apply m res st) \<noteq> ActNone \<longrightarrow>
          apd_Applied ap \<and> apd_Incident ap = Some (subject_incident m (db_next_incident db) rid res st))
     \<and> getOpenIncidentTx db1 (mon_OrgID m) (mon_ID m) = open_after m (db_next_incident db) rid res st
     \<and> (\<forall>orgID mid. mid \<noteq> mon_ID m \<longrightarrow> getOpenIncidentTx db1 orgID mid = getOpenIncidentTx db orgID mid)"
proof (cases "ad_Action (Apply m res st)")
  case ActNone
  then show ?thesis
    using cur by (simp add: apply_incident_def toStoreDecision_def no_decision_def open_after_def)
next
  case ActOpenIncident
  then have none: "getOpenIncidentTx db (mon_OrgID m) (mon_ID m) = None" using Apply_shape cur by metis
  have act: "sd_Action (toStoreDecision (Apply m res st)) = IncidentOpen"
    by (simp add: toStoreDecision_def ActOpenIncident)
  show ?thesis
    using ActOpenIncident act insert_incident_new [OF wf sel none rid, of "Apply m res st"] none
      getOpen_snoc [of db "opened m (db_next_incident db) rid (Apply m res st)"]
    by (simp add: apply_incident_def no_decision_def open_after_def subject_incident_def Let_def)
next
  case ActCloseIncident
  then obtain i where i: "as_OpenIncident st = Some i" using Apply_shape by (metis option.exhaust)
  then have mem: "i \<in> set (db_incidents db)" "is_open i" "inc_MonitorID i = mon_ID m"
    using getOpenIncidentTx_Some [of db "mon_OrgID m" "mon_ID m" i] cur by auto
  have act: "sd_Action (toStoreDecision (Apply m res st)) = IncidentClose"
    "sd_IncidentEndedAt (toStoreDecision (Apply m res st)) = ad_IncidentEndedAt (Apply m res st)"
    by (simp_all add: toStoreDecision_def ActCloseIncident)
  show ?thesis
    using ActCloseIncident act i mem getOpenIncidentTx_close [OF wf mem(1,2), of "recovered t" for t]
    by (simp add: apply_incident_def no_decision_def open_after_def subject_incident_def Let_def)
qed

definition config_of :: "cipher \<Rightarrow> db \<Rightarrow> int \<Rightarrow> int \<Rightarrow> db_error + Monitor" where
  "config_of c db orgID mid = fst (GetMonitor NoFault c orgID mid db)"

definition configs :: "db \<Rightarrow> Monitor list" where "configs db = map row_Monitor (db_monitors db)"

lemma find_map_option: "find P (map f xs) = map_option f (find (\<lambda>x. P (f x)) xs)"
  by (induction xs) auto

lemma config_of_eq:
  "config_of c db orgID mid =
     (case find (\<lambda>m. mon_ID m = mid \<and> mon_OrgID m = orgID) (configs db) of
        None \<Rightarrow> Inl ErrNoRows | Some m \<Rightarrow> scanMonitor c m)"
  unfolding config_of_def GetMonitor_def WithOrg_read_ok configs_def
  by (simp add: find_map_option select_monitor_def split: option.splits)

lemma scanMonitor_key: "scanMonitor c m = Inr m' \<Longrightarrow> mon_ID m' = mon_ID m \<and> mon_OrgID m' = mon_OrgID m"
  by (auto simp: scanMonitor_def split: option.splits)

lemma config_of_key: "config_of c db orgID mid = Inr m \<Longrightarrow> mon_ID m = mid \<and> mon_OrgID m = orgID"
  by (auto simp: config_of_eq dest!: scanMonitor_key find_Some_set split: option.splits)

lemma alert_of_select:
  "alert_of db orgID mid = Inr st \<Longrightarrow>
     \<exists>r. select_monitor db orgID mid = Some r \<and> as_OpenIncident st = getOpenIncidentTx db orgID mid
       \<and> as_LastAppliedResultID st = row_LastAppliedResultID r"
  by (auto simp: alert_of_eq scanAlertState_def split: option.splits)

lemma alert_of_cong:
  "db_monitors db' = db_monitors db \<Longrightarrow> db_incidents db' = db_incidents db \<Longrightarrow>
     alert_of db' orgID mid = alert_of db orgID mid"
  by (simp add: alert_of_eq select_monitor_def getOpenIncidentTx_def split: option.split)

lemma ApplyAlertDecision_next:
  assumes wf: "wf_db db" and st: "alert_of db (mon_OrgID m) (mon_ID m) = Inr st"
    and new: "\<not> already_applied (as_LastAppliedResultID st) rid" and rid: "rid \<noteq> 0"
    and f: "f \<noteq> FaultBefore"
  shows "\<exists>ap db'. ApplyAlertDecision f m rid rid (toStoreDecision (Apply m res st)) db =
           (if f = FaultAfterCommit then Inl ErrConn else Inr ap, db')
     \<and> \<not> apd_Skipped ap
     \<and> (ad_Notify (Apply m res st) \<noteq> None \<longrightarrow>
          apd_Applied ap \<and> apd_Incident ap = Some (subject_incident m (db_next_incident db) rid res st))
     \<and> alert_of db' (mon_OrgID m) (mon_ID m) = Inr (alert_next m (db_next_incident db) rid res st)
     \<and> (\<forall>orgID mid. mid \<noteq> mon_ID m \<longrightarrow> alert_of db' orgID mid = alert_of db orgID mid)
     \<and> configs db' = configs db \<and> db_results db' = db_results db \<and> db_orgs db' = db_orgs db"
proof -
  obtain r where r: "select_monitor db (mon_OrgID m) (mon_ID m) = Some r"
      "as_OpenIncident st = getOpenIncidentTx db (mon_OrgID m) (mon_ID m)"
      "as_LastAppliedResultID st = row_LastAppliedResultID r"
    using alert_of_select [OF st] by blast
  let ?d = "toStoreDecision (Apply m res st)"
  obtain ap db1 where ap: "apply_incident m rid ?d (as_OpenIncident st) db = (ap, db1)" "\<not> apd_Skipped ap"
      "ad_Action (Apply m res st) \<noteq> ActNone \<longrightarrow>
          apd_Applied ap \<and> apd_Incident ap = Some (subject_incident m (db_next_incident db) rid res st)"
      "getOpenIncidentTx db1 (mon_OrgID m) (mon_ID m) = open_after m (db_next_incident db) rid res st"
      "\<forall>orgID mid. mid \<noteq> mon_ID m \<longrightarrow> getOpenIncidentTx db1 orgID mid = getOpenIncidentTx db orgID mid"
    using apply_incident_spec [OF wf r(1,2) rid, of res] by blast
  have frame: "db_monitors db1 = db_monitors db" "db_results db1 = db_results db" "db_orgs db1 = db_orgs db"
    using apply_incident_frame [of m rid ?d "as_OpenIncident st" db] ap(1) by simp_all
  let ?ap = "if sd_Renotify ?d \<and> as_OpenIncident st \<noteq> None
             then ap\<lparr>apd_Incident := as_OpenIncident st, apd_Applied := True\<rparr> else ap"
  let ?db = "write_counters m rid ?d db1"
  have sel1: "select_monitor db1 (mon_OrgID m) (mon_ID m) = Some r"
    using r(1) frame(1) by (simp add: select_monitor_def)
  have eq: "ApplyAlertDecision f m rid rid ?d db = (if f = FaultAfterCommit then Inl ErrConn else Inr ?ap, ?db)"
    using f r new ap(1) by (cases f) (auto simp: ApplyAlertDecision_def WithOrg_def Let_def)
  have renot: "sd_Renotify ?d = ad_Renotify (Apply m res st)" by (simp add: toStoreDecision_def)
  have noted: "apd_Applied ?ap \<and> apd_Incident ?ap = Some (subject_incident m (db_next_incident db) rid res st)"
    if "ad_Notify (Apply m res st) \<noteq> None"
    using that ap(3) Apply_shape [of m res st] renot
    by (auto simp: subject_incident_def Let_def split: AlertAction.splits)
  have state: "alert_of ?db (mon_OrgID m) (mon_ID m) = Inr (alert_next m (db_next_incident db) rid res st)"
    using select_write_counters [OF sel1, of rid ?d] new r st ap(4)
    by (simp add: alert_of_eq alert_next_def Let_def scanAlertState_def toStoreDecision_def open_after_def)
  have other: "alert_of ?db orgID mid = alert_of db orgID mid" if "mid \<noteq> mon_ID m" for orgID mid
    using that select_write_counters_other [OF that] ap(5) frame(1)
    by (simp add: alert_of_eq select_monitor_def split: option.split)
  have cfg: "configs ?db = configs db"
    using frame(1) by (auto simp: configs_def write_counters_def)
  show ?thesis
    using eq ap(2) noted state other cfg frame
    by (intro exI [of _ ?ap] exI [of _ ?db]) (auto simp: write_counters_def)
qed

lemma UpsertCheckResult_spec:
  assumes "wf_db db" and "f \<noteq> FaultBefore"
    and "res_OrgID res \<in> set (db_orgs db)" and "monitor_exists db (res_MonitorID res)"
  shows "\<exists>row db1. UpsertCheckResult f res db = (if f = FaultAfterCommit then Inl ErrConn else Inr (res_ID row), db1)
     \<and> find_result db1 res = Some row \<and> wf_db db1 \<and> res_ID row < db_next_result db1 \<and> 0 < res_ID row
     \<and> (case find_result db res of None \<Rightarrow> res_ID row = db_next_result db | Some old \<Rightarrow> row = old)
     \<and> db_monitors db1 = db_monitors db \<and> db_incidents db1 = db_incidents db
     \<and> db_next_incident db1 = db_next_incident db \<and> db_orgs db1 = db_orgs db"
proof -
  let ?n = "db_next_result db"
  have wf1: "wf_db (snd (UpsertCheckResult f res db))" using assms(1) by (rule UpsertCheckResult_wf)
  have pos: "0 < ?n" using assms(1) by (simp add: wf_db_def)
  show ?thesis
  proof (cases "find_result db res")
    case None
    have "find_result (db\<lparr>db_next_result := ?n + 1, db_results := db_results db @ [result_row ?n res]\<rparr>) res
        = Some (result_row ?n res)"
      using None by (simp add: find_result_def find_append) (simp add: same_result_key_def result_row_def)
    then show ?thesis
      using None assms wf1 pos
      by (intro exI [of _ "result_row ?n res"] exI [of _ "snd (UpsertCheckResult f res db)"])
        (cases f; simp add: UpsertCheckResult_def WithOrg_def Let_def; simp add: result_row_def)
  next
    case (Some old)
    then have "old \<in> set (db_results db)" using find_result_Some by blast
    then have "0 < res_ID old" "res_ID old < ?n" using assms(1) by (auto simp: wf_db_def wf_results_def)
    then show ?thesis
      using Some assms wf1
      by (intro exI [of _ old] exI [of _ "snd (UpsertCheckResult f res db)"])
        (cases f; simp add: UpsertCheckResult_def WithOrg_def Let_def find_result_def)
  qed
qed

section \<open>One delivery\<close>

definition event_result :: "CheckResultEvent \<Rightarrow> CheckResult" where
  "event_result ev = (cre_Result ev)\<lparr>res_ScheduledAt := cre_ScheduledAt ev\<rparr>"

abbreviation ev_org :: "CheckResultEvent \<Rightarrow> int" where "ev_org ev \<equiv> res_OrgID (cre_Result ev)"
abbreviation ev_mon :: "CheckResultEvent \<Rightarrow> int" where "ev_mon ev \<equiv> res_MonitorID (cre_Result ev)"

lemma event_result_fields [simp]:
  "res_OrgID (event_result ev) = ev_org ev" "res_MonitorID (event_result ev) = ev_mon ev"
  "res_Healthy (event_result ev) = res_Healthy (cre_Result ev)"
  "res_CheckedAt (event_result ev) = res_CheckedAt (cre_Result ev)"
  by (simp_all add: event_result_def)

text \<open>The id under which a result is, or would be, stored is new to its monitor's watermark.\<close>

definition pending :: "db \<Rightarrow> CheckResultEvent \<Rightarrow> bool" where
  "pending db ev \<longleftrightarrow>
     (case find_result db (event_result ev) of
        None \<Rightarrow> True
      | Some row \<Rightarrow> (case alert_of db (ev_org ev) (ev_mon ev) of
            Inl _ \<Rightarrow> False | Inr st \<Rightarrow> \<not> already_applied (as_LastAppliedResultID st) (res_ID row)))"

definition seen :: "db \<Rightarrow> CheckResultEvent \<Rightarrow> bool" where
  "seen db ev \<longleftrightarrow>
     (\<exists>row st. find_result db (event_result ev) = Some row \<and> alert_of db (ev_org ev) (ev_mon ev) = Inr st
        \<and> already_applied (as_LastAppliedResultID st) (res_ID row))"

text \<open>The notify events a decision calls for.\<close>

definition notifications :: "(string \<Rightarrow> string) \<Rightarrow> time \<Rightarrow> Monitor \<Rightarrow> int \<Rightarrow> int \<Rightarrow> CheckResult \<Rightarrow> AlertState
    \<Rightarrow> NotifyEvent list" where
  "notifications sha now m iid rid res st =
     (case ad_Notify (Apply m res st) of
        None \<Rightarrow> []
      | Some n \<Rightarrow> [emit sha now m (subject_incident m iid rid res st) (res\<lparr>res_ID := rid\<rparr>) (ne_Type n) (ne_WarnDays n)])"

lemma Apply_res_ID [simp]: "Apply m (res\<lparr>res_ID := x\<rparr>) st = Apply m res st"
  by (simp add: apply_defs sslLevel_def split: option.split)

lemma alert_of_org:
  assumes "wf_db db" and "alert_of db orgID mid = Inr st"
  shows "orgID \<in> set (db_orgs db) \<and> monitor_exists db mid"
proof -
  obtain r where "select_monitor db orgID mid = Some r" using alert_of_select [OF assms(2)] by blast
  then have r: "r \<in> set (db_monitors db)" "row_ID r = mid" "row_OrgID r = orgID"
    using select_monitor_Some by auto
  then show ?thesis using assms(1) by (auto simp: wf_db_def wf_monitors_def monitor_exists_def)
qed

lemma alert_of_watermark:
  assumes "wf_db db" and "alert_of db orgID mid = Inr st"
  shows "\<not> already_applied (as_LastAppliedResultID st) (db_next_result db)"
proof -
  obtain r where r: "select_monitor db orgID mid = Some r" "as_LastAppliedResultID st = row_LastAppliedResultID r"
    using alert_of_select [OF assms(2)] by blast
  have "case row_LastAppliedResultID r of None \<Rightarrow> True | Some w \<Rightarrow> w < db_next_result db"
    using assms(1) select_monitor_Some [OF r(1)] by (auto simp: wf_db_def wf_monitors_def)
  then show ?thesis by (auto simp: r(2) already_applied_def split: option.splits)
qed

text \<open>The tail of \<open>handle\<close> after the result was persisted under \<open>rid\<close>.\<close>

definition handle_persisted :: "(string \<Rightarrow> string) \<Rightarrow> cipher \<Rightarrow> DeliveryEnv \<Rightarrow> CheckResult \<Rightarrow> int \<Rightarrow> db \<Rightarrow> delivery \<times> db" where
  "handle_persisted sha256hex c env res rid db1 =
     (let res = res\<lparr>res_ID := rid\<rparr>
      in case GetMonitor (env_getmon env) c (res_OrgID res) (res_MonitorID res) db1 of
           (Inl e, db2) \<Rightarrow> (if e = ErrNoRows then Done [] else Failed e, db2)
         | (Inr m, db2) \<Rightarrow>
             (case GetAlertState (env_state env) (mon_OrgID m) (mon_ID m) db2 of
                (Inl e, db3) \<Rightarrow> (if e = ErrNoRows then Done [] else Failed e, db3)
              | (Inr state, db3) \<Rightarrow>
                  (case ApplyAlertDecision (env_apply env) m rid rid (toStoreDecision (Apply m res state)) db3 of
                     (Inl e, db4) \<Rightarrow> (Failed e, db4)
                   | (Inr applied, db4) \<Rightarrow>
                       if apd_Skipped applied then (Done [], db4)
                       else (case (ad_Notify (Apply m res state), apd_Incident applied) of
                               (Some n, Some inc) \<Rightarrow>
                                 if apd_Applied applied
                                 then (Done (produced env (emit sha256hex (env_now env) m inc res (ne_Type n) (ne_WarnDays n))), db4)
                                 else (Done [], db4)
                             | _ \<Rightarrow> (Done [], db4)))))"

lemma handle_eq:
  "handle sha c env (Some ev) db =
     (case UpsertCheckResult (env_upsert env) (event_result ev) db of
        (Inl e, db1) \<Rightarrow> (Failed e, db1)
      | (Inr rid, db1) \<Rightarrow> handle_persisted sha c env (event_result ev) rid db1)"
  unfolding handle_def handle_persisted_def event_result_def Let_def reduceToVerdict_def case_prod_conv option.case
  by (rule refl)

lemma GetMonitor_faulty: "f \<noteq> NoFault \<Longrightarrow> \<exists>e. GetMonitor f c orgID mid db = (Inl e, db) \<and> (e = ErrNoRows \<longrightarrow> (\<exists>e'. config_of c db orgID mid = Inl e'))"
  by (cases f) (auto simp: GetMonitor_def config_of_def WithOrg_def rolled_back_def split: sum.split option.split)

lemma GetMonitor_ok: "GetMonitor NoFault c orgID mid db = (config_of c db orgID mid, db)"
  by (rule prod_eqI) (simp_all add: config_of_def, simp add: GetMonitor_def WithOrg_read)

lemma GetAlertState_ok: "GetAlertState NoFault orgID mid db = (alert_of db orgID mid, db)"
  by (rule prod_eqI) (simp_all add: alert_of_def, simp add: GetAlertState_def WithOrg_read)

lemma GetAlertState_faulty: "f \<noteq> NoFault \<Longrightarrow> \<exists>e. GetAlertState f orgID mid db = (Inl e, db) \<and> (e = ErrNoRows \<longrightarrow> (\<exists>e'. alert_of db orgID mid = Inl e'))"
  by (cases f) (auto simp: GetAlertState_def alert_of_def WithOrg_def rolled_back_def split: sum.splits)

lemma handle_persisted_pending:
  assumes wf: "wf_db db" and st: "alert_of db (ev_org ev) (ev_mon ev) = Inr st"
    and m: "config_of c db (ev_org ev) (ev_mon ev) = Inr m"
    and new: "\<not> already_applied (as_LastAppliedResultID st) rid" and rid: "rid \<noteq> 0"
    and h: "handle_persisted sha c env (event_result ev) rid db = (out, db')"
  shows "(\<exists>e. out = Failed e) \<and> db' = db
    \<or> env_apply env \<noteq> FaultBefore
      \<and> out = (if env_apply env = FaultAfterCommit then Failed ErrConn
               else Done (if env_produce_ok env
                          then notifications sha (env_now env) m (db_next_incident db) rid (event_result ev) st else []))
      \<and> alert_of db' (ev_org ev) (ev_mon ev) = Inr (alert_next m (db_next_incident db) rid (event_result ev) st)
      \<and> (\<forall>orgID mid. mid \<noteq> ev_mon ev \<longrightarrow> alert_of db' orgID mid = alert_of db orgID mid)
      \<and> configs db' = configs db \<and> db_results db' = db_results db \<and> db_orgs db' = db_orgs db"
proof (cases "env_getmon env = NoFault \<and> env_state env = NoFault \<and> env_apply env \<noteq> FaultBefore")
  case False
  have key: "mon_ID m = ev_mon ev" "mon_OrgID m = ev_org ev" using config_of_key [OF m] by auto
  consider (get) "env_getmon env \<noteq> NoFault" | (state) "env_getmon env = NoFault" "env_state env \<noteq> NoFault"
    | (apply_) "env_getmon env = NoFault" "env_state env = NoFault" "env_apply env = FaultBefore"
    using False by blast
  then have "(\<exists>e. out = Failed e) \<and> db' = db"
  proof cases
    case get
    then show ?thesis
      using GetMonitor_faulty [OF get, of c "ev_org ev" "ev_mon ev" db] h m
      by (auto simp: handle_persisted_def split: if_splits)
  next
    case state
    then show ?thesis
      using GetAlertState_faulty [OF state(2), of "ev_org ev" "ev_mon ev" db] h m st key
      by (auto simp: handle_persisted_def GetMonitor_ok split: if_splits)
  next
    case apply_
    then show ?thesis
      using h m st key
      by (auto simp: handle_persisted_def GetMonitor_ok GetAlertState_ok ApplyAlertDecision_def WithOrg_def)
  qed
  then show ?thesis by blast
next
  case True
  have key: "mon_ID m = ev_mon ev" "mon_OrgID m = ev_org ev" using config_of_key [OF m] by auto
  obtain ap db4 where ap: "ApplyAlertDecision (env_apply env) m rid rid (toStoreDecision (Apply m (event_result ev) st)) db =
           (if env_apply env = FaultAfterCommit then Inl ErrConn else Inr ap, db4)" "\<not> apd_Skipped ap"
     "ad_Notify (Apply m (event_result ev) st) \<noteq> None \<longrightarrow> apd_Applied ap
        \<and> apd_Incident ap = Some (subject_incident m (db_next_incident db) rid (event_result ev) st)"
     "alert_of db4 (mon_OrgID m) (mon_ID m) = Inr (alert_next m (db_next_incident db) rid (event_result ev) st)"
     "\<forall>orgID mid. mid \<noteq> mon_ID m \<longrightarrow> alert_of db4 orgID mid = alert_of db orgID mid"
     "configs db4 = configs db" "db_results db4 = db_results db" "db_orgs db4 = db_orgs db"
    using ApplyAlertDecision_next [of db m st rid "env_apply env" "event_result ev"] wf st new rid True key by auto
  then show ?thesis
    using True h m st key
    by (cases "ad_Notify (Apply m (event_result ev) st)")
      (auto simp: handle_persisted_def Let_def GetMonitor_ok GetAlertState_ok notifications_def produced_def
        split: if_splits)
qed

lemma GetMonitor_snd [simp]: "snd (GetMonitor f c orgID mid db) = db"
  unfolding GetMonitor_def by (rule WithOrg_read)

lemma GetAlertState_snd [simp]: "snd (GetAlertState f orgID mid db) = db"
  unfolding GetAlertState_def by (rule WithOrg_read)

lemma ApplyAlertDecision_frame:
  "db_results (snd (ApplyAlertDecision f m rid frid d db)) = db_results db
   \<and> configs (snd (ApplyAlertDecision f m rid frid d db)) = configs db
   \<and> db_orgs (snd (ApplyAlertDecision f m rid frid d db)) = db_orgs db
   \<and> db_next_result (snd (ApplyAlertDecision f m rid frid d db)) = db_next_result db"
proof -
  have "db_results (write_counters m rid d db1) = db_results db \<and> configs (write_counters m rid d db1) = configs db
      \<and> db_orgs (write_counters m rid d db1) = db_orgs db \<and> db_next_result (write_counters m rid d db1) = db_next_result db"
    if "apply_incident m frid d cur db = (ap, db1)" for cur ap db1
    using apply_incident_frame [of m frid d cur db] that by (auto simp: configs_def write_counters_def)
  then show ?thesis
    by (auto simp: ApplyAlertDecision_def WithOrg_def rolled_back_def configs_def Let_def
        split: option.split prod.split)
qed

text \<open>After the persist, \<open>handle\<close> either stops without a change or is one applied decision.\<close>

lemma handle_persisted_db:
  "snd (handle_persisted sha c env res rid db) = db
   \<or> (\<exists>m st. config_of c db (res_OrgID res) (res_MonitorID res) = Inr m
        \<and> alert_of db (res_OrgID res) (res_MonitorID res) = Inr st
        \<and> snd (handle_persisted sha c env res rid db) =
            snd (ApplyAlertDecision (env_apply env) m rid rid (toStoreDecision (Apply m res st)) db))"
proof (cases "env_getmon env = NoFault \<and> env_state env = NoFault")
  case False
  then consider "env_getmon env \<noteq> NoFault" | "env_getmon env = NoFault" "env_state env \<noteq> NoFault" by blast
  then have "snd (handle_persisted sha c env res rid db) = db"
  proof cases
    case 1
    then show ?thesis
      using GetMonitor_faulty [OF 1, of c "res_OrgID res" "res_MonitorID res" db]
      by (auto simp: handle_persisted_def)
  next
    case 2
    show ?thesis
    proof (cases "config_of c db (res_OrgID res) (res_MonitorID res)")
      case (Inl e)
      then show ?thesis using 2 by (simp add: handle_persisted_def GetMonitor_ok)
    next
      case (Inr m)
      then show ?thesis
        using 2 GetAlertState_faulty [OF 2(2), of "mon_OrgID m" "mon_ID m" db]
        by (auto simp: handle_persisted_def GetMonitor_ok)
    qed
  qed
  then show ?thesis ..
next
  case True
  show ?thesis
  proof (cases "config_of c db (res_OrgID res) (res_MonitorID res)")
    case (Inl e)
    then show ?thesis using True by (simp add: handle_persisted_def GetMonitor_ok)
  next
    case (Inr m)
    have key: "mon_ID m = res_MonitorID res" "mon_OrgID m = res_OrgID res" using config_of_key [OF Inr] by auto
    show ?thesis
      using True Inr key
      by (cases "alert_of db (res_OrgID res) (res_MonitorID res)")
        (auto simp: handle_persisted_def Let_def GetMonitor_ok GetAlertState_ok split: prod.split sum.split option.split)
  qed
qed

lemma handle_persisted_frame:
  "db_results (snd (handle_persisted sha c env res rid db)) = db_results db
   \<and> configs (snd (handle_persisted sha c env res rid db)) = configs db
   \<and> db_orgs (snd (handle_persisted sha c env res rid db)) = db_orgs db
   \<and> db_next_result (snd (handle_persisted sha c env res rid db)) = db_next_result db"
  using handle_persisted_db [of sha c env res rid db] ApplyAlertDecision_frame by metis

lemma handle_persisted_wf:
  "wf_db db \<Longrightarrow> rid < db_next_result db \<Longrightarrow> wf_db (snd (handle_persisted sha c env res rid db))"
  using handle_persisted_db [of sha c env res rid db] ApplyAlertDecision_wf by metis

lemma UpsertCheckResult_frame:
  "db_monitors (snd (UpsertCheckResult f r db)) = db_monitors db
   \<and> db_incidents (snd (UpsertCheckResult f r db)) = db_incidents db
   \<and> db_next_incident (snd (UpsertCheckResult f r db)) = db_next_incident db
   \<and> db_orgs (snd (UpsertCheckResult f r db)) = db_orgs db
   \<and> (db_results (snd (UpsertCheckResult f r db)) = db_results db
      \<or> find_result db r = None \<and> (\<exists>n. db_results (snd (UpsertCheckResult f r db)) = db_results db @ [result_row n r]))
   \<and> (\<forall>rid. fst (UpsertCheckResult f r db) = Inr rid \<longrightarrow> wf_db db \<longrightarrow> rid < db_next_result (snd (UpsertCheckResult f r db)))"
proof -
  have "res_ID s < db_next_result db" if "find_result db r = Some s" "wf_db db" for s
    using find_result_Some [OF that(1)] that(2) by (auto simp: wf_db_def wf_results_def)
  then show ?thesis
    by (auto simp: UpsertCheckResult_def WithOrg_def rolled_back_def Let_def less_SucI
        split: option.split if_splits)
qed

lemma find_result_snoc:
  "find_result db r = Some row \<Longrightarrow> db_results db' = db_results db \<or> (\<exists>x. db_results db' = db_results db @ [x])
   \<Longrightarrow> find_result db' r = Some row"
  by (auto simp: find_result_def find_append)

lemma handle_frame:
  assumes wf: "wf_db db" and h: "handle sha c env (Some ev) db = (out, db')"
  shows "wf_db db' \<and> configs db' = configs db \<and> db_orgs db' = db_orgs db
    \<and> (db_results db' = db_results db
       \<or> find_result db (event_result ev) = None
         \<and> (\<exists>n. db_results db' = db_results db @ [result_row n (event_result ev)]))"
proof -
  obtain r db1 where u: "UpsertCheckResult (env_upsert env) (event_result ev) db = (r, db1)"
    by (cases "UpsertCheckResult (env_upsert env) (event_result ev) db") auto
  have wf1: "wf_db db1" using UpsertCheckResult_wf [OF wf] u by (metis snd_conv)
  have fr: "db_monitors db1 = db_monitors db" "db_orgs db1 = db_orgs db"
    "db_results db1 = db_results db
      \<or> find_result db (event_result ev) = None \<and> (\<exists>n. db_results db1 = db_results db @ [result_row n (event_result ev)])"
    "\<And>rid. r = Inr rid \<Longrightarrow> rid < db_next_result db1"
    using UpsertCheckResult_frame [of "env_upsert env" "event_result ev" db] u wf by auto
  show ?thesis
  proof (cases r)
    case (Inl e)
    then show ?thesis using h u wf1 fr by (simp add: handle_eq configs_def)
  next
    case (Inr rid)
    then have "db' = snd (handle_persisted sha c env (event_result ev) rid db1)"
      using h u by (simp add: handle_eq)
    then show ?thesis
      using handle_persisted_frame [of sha c env "event_result ev" rid db1] fr
        handle_persisted_wf [OF wf1 fr(4) [OF Inr]] by (simp add: configs_def)
  qed
qed

lemma handle_find_result:
  assumes "wf_db db" and "handle sha c env (Some ev) db = (out, db')"
  shows "find_result db r = Some row \<Longrightarrow> find_result db' r = Some row"
    and "\<not> same_result_key r (event_result ev) \<Longrightarrow> find_result db' r = find_result db r"
proof -
  have res: "db_results db' = db_results db \<or> (\<exists>n. db_results db' = db_results db @ [result_row n (event_result ev)])"
    using handle_frame [OF assms] by blast
  then show "find_result db r = Some row \<Longrightarrow> find_result db' r = Some row"
    using find_result_snoc by blast
  have "same_result_key r (result_row n (event_result ev)) = same_result_key r (event_result ev)" for n
    by (simp add: same_result_key_def result_row_def)
  then show "\<not> same_result_key r (event_result ev) \<Longrightarrow> find_result db' r = find_result db r"
    using res by (auto simp: find_result_def find_append split: option.split)
qed

text \<open>A delivery of a result that is not applied yet: it stays so, or it is applied exactly once.\<close>

lemma handle_pending:
  assumes wf: "wf_db db" and st: "alert_of db (ev_org ev) (ev_mon ev) = Inr st"
    and m: "config_of c db (ev_org ev) (ev_mon ev) = Inr m" and p: "pending db ev"
    and h: "handle sha c env (Some ev) db = (out, db')"
  shows "(\<exists>e. out = Failed e) \<and> alert_of db' = alert_of db \<and> pending db' ev \<and> db_next_incident db' = db_next_incident db
    \<or> env_apply env \<noteq> FaultBefore
      \<and> (\<exists>rid. out = (if env_apply env = FaultAfterCommit then Failed ErrConn
               else Done (if env_produce_ok env
                          then notifications sha (env_now env) m (db_next_incident db) rid (event_result ev) st else []))
        \<and> alert_of db' (ev_org ev) (ev_mon ev) = Inr (alert_next m (db_next_incident db) rid (event_result ev) st)
        \<and> (\<forall>orgID mid. mid \<noteq> ev_mon ev \<longrightarrow> alert_of db' orgID mid = alert_of db orgID mid)
        \<and> seen db' ev \<and> \<not> already_applied (as_LastAppliedResultID st) rid)"
proof (cases "env_upsert env = FaultBefore")
  case True
  then show ?thesis using h p by (auto simp: handle_eq UpsertCheckResult_def WithOrg_def)
next
  case False
  obtain row db1 where u: "UpsertCheckResult (env_upsert env) (event_result ev) db =
        (if env_upsert env = FaultAfterCommit then Inl ErrConn else Inr (res_ID row), db1)"
      "find_result db1 (event_result ev) = Some row" "wf_db db1" "0 < res_ID row"
      "case find_result db (event_result ev) of None \<Rightarrow> res_ID row = db_next_result db | Some old \<Rightarrow> row = old"
      "db_monitors db1 = db_monitors db" "db_incidents db1 = db_incidents db"
      "db_next_incident db1 = db_next_incident db"
    using UpsertCheckResult_spec [OF wf False, of "event_result ev"] alert_of_org [OF wf st] by auto
  have al: "alert_of db1 = alert_of db" using u(6,7) alert_of_cong by blast
  have new: "\<not> already_applied (as_LastAppliedResultID st) (res_ID row)"
    using p u(5) st alert_of_watermark [OF wf st] by (auto simp: pending_def split: option.splits)
  have p1: "pending db1 ev" using u(2) new st al by (simp add: pending_def)
  have m1: "config_of c db1 (ev_org ev) (ev_mon ev) = Inr m" using m u(6) by (simp add: config_of_eq configs_def)
  show ?thesis
  proof (cases "env_upsert env = FaultAfterCommit")
    case True
    then have "out = Failed ErrConn" "db' = db1" using h u(1) by (simp_all add: handle_eq)
    then show ?thesis using u(8) al p1 by simp
  next
    case False
    then have hp: "handle_persisted sha c env (event_result ev) (res_ID row) db1 = (out, db')"
      using h u(1) by (simp add: handle_eq)
    have fr: "find_result db' (event_result ev) = Some row"
      using handle_persisted_frame [of sha c env "event_result ev" "res_ID row" db1] hp u(2)
      by (simp add: find_result_def)
    have ap: "seen db' ev" if "alert_of db' (ev_org ev) (ev_mon ev) = Inr (alert_next m i (res_ID row) r st)" for i r
      using fr that by (auto simp: seen_def alert_next_def already_applied_def Let_def)
    have st1: "alert_of db1 (ev_org ev) (ev_mon ev) = Inr st" using st al by simp
    have rid0: "res_ID row \<noteq> 0" using u(4) by simp
    show ?thesis
      using handle_persisted_pending [OF u(3) st1 m1 new rid0 hp] ap p1 al u(8) new by fastforce
  qed
qed

text \<open>A delivery of a result that is applied already changes no table and emits nothing.\<close>

lemma handle_seen:
  assumes wf: "wf_db db" and s: "seen db ev" and h: "handle sha c env (Some ev) db = (out, db')"
  shows "(out = Done [] \<or> (\<exists>e. out = Failed e)) \<and> db' = db\<lparr>db_next_result := db_next_result db'\<rparr>
     \<and> db_next_result db \<le> db_next_result db'
     \<and> (env = calm now \<longrightarrow> config_of c db (ev_org ev) (ev_mon ev) = Inr m \<longrightarrow> out = Done [])"
proof (cases "env_upsert env = FaultBefore")
  case True
  then show ?thesis using h by (auto simp: handle_eq UpsertCheckResult_def WithOrg_def calm_def)
next
  case False
  obtain row st where row: "find_result db (event_result ev) = Some row"
      "alert_of db (ev_org ev) (ev_mon ev) = Inr st" "already_applied (as_LastAppliedResultID st) (res_ID row)"
    using s by (auto simp: seen_def)
  let ?db1 = "db\<lparr>db_next_result := db_next_result db + 1\<rparr>"
  have u: "UpsertCheckResult (env_upsert env) (event_result ev) db =
      (if env_upsert env = FaultAfterCommit then Inl ErrConn else Inr (res_ID row), ?db1)"
    using False row(1) by (cases "env_upsert env") (simp_all add: UpsertCheckResult_def WithOrg_def Let_def)
  have al: "alert_of ?db1 (ev_org ev) (ev_mon ev) = Inr st" using row(2) alert_of_cong [of ?db1 db] by simp
  have cf: "config_of c ?db1 (ev_org ev) (ev_mon ev) = config_of c db (ev_org ev) (ev_mon ev)"
    by (simp add: config_of_eq configs_def)
  obtain r where r: "select_monitor ?db1 (ev_org ev) (ev_mon ev) = Some r"
      "row_LastAppliedResultID r = as_LastAppliedResultID st"
    using alert_of_select [OF al] by auto
  have skip: "ApplyAlertDecision f m (res_ID row) (res_ID row) d ?db1 =
      (if f = NoFault then Inr (no_decision\<lparr>apd_Skipped := True\<rparr>) else Inl ErrConn, ?db1)"
    if "mon_ID m = ev_mon ev" "mon_OrgID m = ev_org ev" for f m d
    using that r row(3) by (cases f) (simp_all add: ApplyAlertDecision_def WithOrg_def)
  have hp: "(fst (handle_persisted sha c env (event_result ev) (res_ID row) ?db1) = Done []
              \<or> (\<exists>e. fst (handle_persisted sha c env (event_result ev) (res_ID row) ?db1) = Failed e))
          \<and> snd (handle_persisted sha c env (event_result ev) (res_ID row) ?db1) = ?db1"
  proof -
    obtain g where g: "GetMonitor (env_getmon env) c (ev_org ev) (ev_mon ev) ?db1 = (g, ?db1)"
      by (metis GetMonitor_snd prod.collapse)
    have key: "mon_ID n = ev_mon ev \<and> mon_OrgID n = ev_org ev" if "g = Inr n" for n
    proof -
      have "env_getmon env = NoFault"
        using that g GetMonitor_faulty [of "env_getmon env" c "ev_org ev" "ev_mon ev" ?db1] by auto
      then have "config_of c ?db1 (ev_org ev) (ev_mon ev) = Inr n" using that g by (simp add: GetMonitor_ok)
      then show ?thesis by (rule config_of_key)
    qed
    obtain q where q: "GetAlertState (env_state env) (ev_org ev) (ev_mon ev) ?db1 = (q, ?db1)"
      by (metis GetAlertState_snd prod.collapse)
    show ?thesis
    proof (cases g)
      case (Inl e)
      then show ?thesis using g by (simp add: handle_persisted_def Let_def)
    next
      case (Inr n)
      have n: "mon_ID n = ev_mon ev" "mon_OrgID n = ev_org ev" using key [OF Inr] by auto
      show ?thesis
        using g q n skip [OF n] Inr
        by (cases q; cases "env_apply env = NoFault") (simp_all add: handle_persisted_def Let_def no_decision_def)
    qed
  qed
  show ?thesis
  proof (cases "env_upsert env = FaultAfterCommit")
    case True
    then show ?thesis using h u by (auto simp: handle_eq calm_def)
  next
    case False
    then have "handle_persisted sha c env (event_result ev) (res_ID row) ?db1 = (out, db')"
      using h u by (simp add: handle_eq)
    moreover have "out = Done []" if "env = calm now" "config_of c db (ev_org ev) (ev_mon ev) = Inr m"
      using that calculation cf config_of_key [OF that(2)] al skip [of m NoFault]
      by (simp add: handle_persisted_def Let_def calm_def GetMonitor_ok GetAlertState_ok no_decision_def)
    ultimately show ?thesis using hp by auto
  qed
qed

lemma alert_of_other_org:
  assumes "wf_db db" and "alert_of db orgID mid = Inr st" and "orgID' \<noteq> orgID"
  shows "alert_of db orgID' mid = Inl ErrNoRows"
proof -
  obtain r where r: "select_monitor db orgID mid = Some r" using alert_of_select [OF assms(2)] by blast
  have "select_monitor db orgID' mid = None"
  proof (rule ccontr)
    assume "select_monitor db orgID' mid \<noteq> None"
    then obtain r' where r': "select_monitor db orgID' mid = Some r'" by blast
    have "distinct (map row_ID (db_monitors db))" using assms(1) by (simp add: wf_db_def wf_monitors_def)
    then have "r = r'"
      using select_monitor_Some [OF r] select_monitor_Some [OF r'] by (auto simp: distinct_map dest: inj_onD)
    then show False using select_monitor_Some [OF r] select_monitor_Some [OF r'] assms(3) by simp
  qed
  then show ?thesis by (simp add: alert_of_eq)
qed

lemma pending_or_seen: "alert_of db (ev_org ev) (ev_mon ev) = Inr st \<Longrightarrow> pending db ev \<or> seen db ev"
  by (auto simp: pending_def seen_def split: option.splits)

lemma seen_alert: "seen db ev \<Longrightarrow> \<exists>st. alert_of db (ev_org ev) (ev_mon ev) = Inr st"
  by (auto simp: seen_def)

lemma handle_other:
  assumes wf: "wf_db db" and h: "handle sha c env (Some ev) db = (out, db')"
    and ne: "\<not> (orgID = ev_org ev \<and> mid = ev_mon ev)"
  shows "alert_of db' orgID mid = alert_of db orgID mid"
proof (cases "\<exists>m st. config_of c db (ev_org ev) (ev_mon ev) = Inr m \<and> alert_of db (ev_org ev) (ev_mon ev) = Inr st")
  case True
  then obtain m st where m: "config_of c db (ev_org ev) (ev_mon ev) = Inr m"
    and st: "alert_of db (ev_org ev) (ev_mon ev) = Inr st" by blast
  have wf': "wf_db db'" using handle_frame [OF wf h] by blast
  show ?thesis
  proof (cases "pending db ev")
    case True
    have "alert_of db' = alert_of db
      \<or> (\<exists>st'. alert_of db' (ev_org ev) (ev_mon ev) = Inr st')
        \<and> (\<forall>orgID mid. mid \<noteq> ev_mon ev \<longrightarrow> alert_of db' orgID mid = alert_of db orgID mid)"
      using handle_pending [OF wf st m True h] by blast
    then show ?thesis
      using ne alert_of_other_org [OF wf st] alert_of_other_org [OF wf'] by (cases "mid = ev_mon ev") auto
  next
    case False
    then have "seen db ev" using pending_or_seen [OF st] by blast
    then have "db_monitors db' = db_monitors db" "db_incidents db' = db_incidents db"
      using handle_seen [OF wf _ h] by (metis db.simps(2,4) db.update_convs(9) db.surjective)+
    then show ?thesis by (rule alert_of_cong)
  qed
next
  case False
  obtain r db1 where u: "UpsertCheckResult (env_upsert env) (event_result ev) db = (r, db1)"
    by (cases "UpsertCheckResult (env_upsert env) (event_result ev) db") auto
  have fr: "db_monitors db1 = db_monitors db" "db_incidents db1 = db_incidents db"
    using UpsertCheckResult_frame [of "env_upsert env" "event_result ev" db] u by auto
  have al: "alert_of db1 o' m' = alert_of db o' m'" for o' m' using fr by (rule alert_of_cong)
  have cf: "config_of c db1 o' m' = config_of c db o' m'" for o' m'
    using fr by (simp add: config_of_eq configs_def)
  have "db' = db1"
  proof (cases r)
    case (Inl e)
    then show ?thesis using h u by (simp add: handle_eq)
  next
    case (Inr rid)
    then show ?thesis
      using handle_persisted_db [of sha c env "event_result ev" rid db1] False h u
      by (auto simp: handle_eq al cf)
  qed
  then show ?thesis using al by simp
qed

section \<open>Deliveries until success\<close>

text \<open>
  The bus hands a record over again until the handler succeeds: the notify events that
  reached the bus, whether a delivery succeeded, and the tables.
\<close>

fun deliver_retry :: "(string \<Rightarrow> string) \<Rightarrow> cipher \<Rightarrow> DeliveryEnv list \<Rightarrow> CheckResultEvent \<Rightarrow> db
    \<Rightarrow> NotifyEvent list \<times> bool \<times> db" where
  "deliver_retry sha c [] ev db = ([], False, db)"
| "deliver_retry sha c (env # envs) ev db =
     (case handle sha c env (Some ev) db of
        (Done evs, db') \<Rightarrow> (evs, True, db')
      | (Failed e, db') \<Rightarrow> deliver_retry sha c envs ev db')"

definition alert_view :: "db \<Rightarrow> MonitorRow list \<times> Incident list \<times> CheckResult list" where
  "alert_view db = (db_monitors db, db_incidents db, db_results db)"

lemma alert_of_view: "alert_view db' = alert_view db \<Longrightarrow> alert_of db' = alert_of db"
  by (intro ext alert_of_cong) (simp_all add: alert_view_def)

lemma handle_seen_view:
  assumes "wf_db db" and "seen db ev" and "handle sha c env (Some ev) db = (out, db')"
  shows "alert_view db' = alert_view db"
proof -
  have "db' = db\<lparr>db_next_result := db_next_result db'\<rparr>" using handle_seen [OF assms] by blast
  then have "alert_view db' = alert_view (db\<lparr>db_next_result := db_next_result db'\<rparr>)" by (rule arg_cong)
  then show ?thesis by (simp add: alert_view_def)
qed

lemma seen_view: "alert_view db' = alert_view db \<Longrightarrow> seen db' k = seen db k"
  using alert_of_view [of db' db] by (simp add: seen_def find_result_def alert_view_def)

text \<open>Redelivery under any faults: the consumer meets the contract of the bus.\<close>

interpretation alerting: at_least_once
  "\<lambda>(ev, env) db. snd (handle sha c env (Some ev) db)" wf_db "\<lambda>db (ev, env). seen db ev" alert_view
  for sha c
proof
  fix s :: db and m k :: "CheckResultEvent \<times> DeliveryEnv"
  obtain ev env where m: "m = (ev, env)" by (cases m) auto
  obtain ev' env' where k: "k = (ev', env')" by (cases k) auto
  assume wf: "wf_db s"
  show "wf_db ((\<lambda>(ev, env) db. snd (handle sha c env (Some ev) db)) m s)"
    using handle_frame [OF wf, of sha c env ev] by (simp add: m) (metis prod.collapse)
  have view: "alert_view (snd (handle sha c e (Some v) s)) = alert_view s" if "seen s v" for v e
    using handle_seen_view [OF wf that, of sha c e] by (metis prod.collapse)
  show "alert_view ((\<lambda>(ev, env) db. snd (handle sha c env (Some ev) db)) m s) = alert_view s"
    if "(\<lambda>db (ev, env). seen db ev) s m"
    using view [of ev env] that by (simp add: m)
  show "(\<lambda>db (ev, env). seen db ev) ((\<lambda>(ev, env) db. snd (handle sha c env (Some ev) db)) k s) m"
    if "(\<lambda>db (ev, env). seen db ev) s m" "(\<lambda>db (ev, env). seen db ev) s k"
    using seen_view [OF view [of ev' env']] that by (simp add: m k)
qed

lemma deliver_retry_frame:
  assumes "wf_db db" and "deliver_retry sha c envs ev db = (evs, ok, db')"
  shows "wf_db db' \<and> configs db' = configs db
    \<and> (\<forall>r row. find_result db r = Some row \<longrightarrow> find_result db' r = Some row)
    \<and> (\<forall>r. \<not> same_result_key r (event_result ev) \<longrightarrow> find_result db' r = find_result db r)
    \<and> (\<forall>orgID mid. \<not> (orgID = ev_org ev \<and> mid = ev_mon ev) \<longrightarrow> alert_of db' orgID mid = alert_of db orgID mid)"
  using assms
proof (induction envs arbitrary: db)
  case Nil
  then show ?case by simp
next
  case (Cons env envs)
  obtain out db1 where h: "handle sha c env (Some ev) db = (out, db1)"
    by (cases "handle sha c env (Some ev) db") auto
  note one = handle_frame [OF Cons.prems(1) h] handle_find_result [OF Cons.prems(1) h] handle_other [OF Cons.prems(1) h]
  show ?case
  proof (cases out)
    case (Failed e)
    then have "deliver_retry sha c envs ev db1 = (evs, ok, db')" using Cons.prems(2) h by simp
    then show ?thesis using Cons.IH [of db1] one by auto
  next
    case (Done x)
    then show ?thesis using Cons.prems(2) h one by auto
  qed
qed

lemma deliver_retry_seen:
  assumes "wf_db db" and "seen db ev" and "deliver_retry sha c envs ev db = (evs, ok, db')"
  shows "alert_view db' = alert_view db \<and> evs = []"
  using assms
proof (induction envs arbitrary: db)
  case (Cons env envs)
  obtain out db1 where h: "handle sha c env (Some ev) db = (out, db1)"
    by (cases "handle sha c env (Some ev) db") auto
  have v: "alert_view db1 = alert_view db" using handle_seen_view [OF Cons.prems(1,2) h] .
  have wf1: "wf_db db1" using handle_frame [OF Cons.prems(1) h] by blast
  have s1: "seen db1 ev" using seen_view [OF v] Cons.prems(2) by simp
  have o: "out = Done [] \<or> (\<exists>e. out = Failed e)" using handle_seen [OF Cons.prems(1,2) h] by blast
  show ?case
  proof (cases out)
    case (Failed e)
    then show ?thesis using Cons.IH [OF wf1 s1] Cons.prems(3) h v by simp
  next
    case (Done x)
    then show ?thesis using o Cons.prems(3) h v by simp
  qed
qed simp

lemma deliver_retry_seen_ok:
  assumes "wf_db db" and "seen db ev" and "config_of c db (ev_org ev) (ev_mon ev) = Inr m"
  shows "fst (snd (deliver_retry sha c (envs @ [calm now]) ev db))"
  using assms
proof (induction envs arbitrary: db)
  case Nil
  obtain out db1 where h: "handle sha c (calm now) (Some ev) db = (out, db1)"
    by (cases "handle sha c (calm now) (Some ev) db") auto
  then show ?case using handle_seen [OF Nil(1,2) h, of now m] Nil(3) by simp
next
  case (Cons env envs)
  obtain out db1 where h: "handle sha c env (Some ev) db = (out, db1)"
    by (cases "handle sha c env (Some ev) db") auto
  have v: "alert_view db1 = alert_view db" using handle_seen_view [OF Cons.prems(1,2) h] .
  have "wf_db db1" "configs db1 = configs db" using handle_frame [OF Cons.prems(1) h] by auto
  moreover have "seen db1 ev" using seen_view [OF v] Cons.prems(2) by simp
  ultimately show ?case
    using Cons.IH [of db1] Cons.prems(3) h by (cases out) (auto simp: config_of_eq)
qed

definition no_loss :: "DeliveryEnv \<Rightarrow> bool" where
  "no_loss env \<longleftrightarrow> env_apply env \<noteq> FaultAfterCommit \<and> env_produce_ok env"

lemma handle_calm:
  assumes wf: "wf_db db" and st: "alert_of db (ev_org ev) (ev_mon ev) = Inr st"
    and m: "config_of c db (ev_org ev) (ev_mon ev) = Inr m"
  shows "\<exists>evs db'. handle sha c (calm now) (Some ev) db = (Done evs, db')"
proof -
  obtain row :: CheckResult and db1 where u: "UpsertCheckResult NoFault (event_result ev) db = (Inr (res_ID row), db1)"
      "db_monitors db1 = db_monitors db" "db_incidents db1 = db_incidents db"
    using UpsertCheckResult_spec [OF wf, of NoFault "event_result ev"] alert_of_org [OF wf st] by auto
  have al: "alert_of db1 (ev_org ev) (ev_mon ev) = Inr st" using st alert_of_cong [OF u(2,3)] by simp
  have cf: "config_of c db1 (ev_org ev) (ev_mon ev) = Inr m" using m u(2) by (simp add: config_of_eq configs_def)
  have key: "mon_ID m = ev_mon ev" "mon_OrgID m = ev_org ev" using config_of_key [OF m] by auto
  obtain r where r: "select_monitor db1 (ev_org ev) (ev_mon ev) = Some r" using alert_of_select [OF al] by blast
  have "\<exists>(ap :: AppliedDecision) db2. ApplyAlertDecision NoFault m (res_ID row) (res_ID row)
      (toStoreDecision (Apply m (event_result ev) st)) db1 = (Inr ap, db2)"
    using r key by (simp add: ApplyAlertDecision_def WithOrg_def Let_def split: prod.split)
  then obtain ap db2 where ap: "ApplyAlertDecision NoFault m (res_ID row) (res_ID row)
      (toStoreDecision (Apply m (event_result ev) st)) db1 = (Inr ap, db2)" by blast
  show ?thesis
    using u al cf key ap
    by (auto simp: handle_eq calm_def handle_persisted_def Let_def GetMonitor_ok GetAlertState_ok split: option.split)
qed

lemma deliver_retry_pending:
  assumes "wf_db db" and "alert_of db (ev_org ev) (ev_mon ev) = Inr st"
    and "config_of c db (ev_org ev) (ev_mon ev) = Inr m" and "pending db ev"
    and "deliver_retry sha c (envs @ [calm now]) ev db = (evs, ok, db')"
  shows "ok \<and> (\<exists>rid. alert_of db' (ev_org ev) (ev_mon ev) =
             Inr (alert_next m (db_next_incident db) rid (event_result ev) st)
         \<and> seen db' ev \<and> \<not> already_applied (as_LastAppliedResultID st) rid
         \<and> (evs = [] \<or> (\<exists>t. evs = notifications sha t m (db_next_incident db) rid (event_result ev) st))
         \<and> (list_all no_loss envs \<longrightarrow>
              (\<exists>t. evs = notifications sha t m (db_next_incident db) rid (event_result ev) st)))"
  using assms
proof (induction envs arbitrary: db)
  case Nil
  obtain out db1 where h: "handle sha c (calm now) (Some ev) db = (out, db1)"
    by (cases "handle sha c (calm now) (Some ev) db") auto
  have "\<exists>x. out = Done x" using handle_calm [OF Nil.prems(1-3), of sha now] h by auto
  then obtain rid where "out = Done (notifications sha now m (db_next_incident db) rid (event_result ev) st)"
      "alert_of db1 (ev_org ev) (ev_mon ev) = Inr (alert_next m (db_next_incident db) rid (event_result ev) st)"
      "seen db1 ev" "\<not> already_applied (as_LastAppliedResultID st) rid"
    using handle_pending [OF Nil.prems(1-4) h] by (auto simp: calm_def)
  then show ?case using Nil.prems(5) h by (intro conjI exI [of _ rid]) auto
next
  case (Cons env envs)
  obtain out db1 where h: "handle sha c env (Some ev) db = (out, db1)"
    by (cases "handle sha c env (Some ev) db") auto
  have wf1: "wf_db db1" and cf: "configs db1 = configs db" using handle_frame [OF Cons.prems(1) h] by auto
  have m1: "config_of c db1 (ev_org ev) (ev_mon ev) = Inr m" using Cons.prems(3) cf by (simp add: config_of_eq)
  consider (still) e where "out = Failed e" "alert_of db1 = alert_of db" "pending db1 ev"
      "db_next_incident db1 = db_next_incident db"
    | (applied) rid where "env_apply env \<noteq> FaultBefore"
      "out = (if env_apply env = FaultAfterCommit then Failed ErrConn
              else Done (if env_produce_ok env
                then notifications sha (env_now env) m (db_next_incident db) rid (event_result ev) st else []))"
      "alert_of db1 (ev_org ev) (ev_mon ev) = Inr (alert_next m (db_next_incident db) rid (event_result ev) st)"
      "seen db1 ev" "\<not> already_applied (as_LastAppliedResultID st) rid"
    using handle_pending [OF Cons.prems(1-4) h] by blast
  then show ?case
  proof cases
    case still
    then show ?thesis
      using Cons.IH [OF wf1 _ m1 still(3)] Cons.prems(2,5) h by (simp add: still) blast
  next
    case applied
    show ?thesis
    proof (cases "env_apply env = FaultAfterCommit")
      case True
      then have r: "deliver_retry sha c (envs @ [calm now]) ev db1 = (evs, ok, db')"
        using Cons.prems(5) h applied(2) by simp
      have "alert_view db' = alert_view db1" "evs = []" using deliver_retry_seen [OF wf1 applied(4) r] by auto
      moreover have ok using deliver_retry_seen_ok [OF wf1 applied(4) m1, of sha envs now] r by simp
      ultimately show ?thesis
        using applied True seen_view [of db' db1] alert_of_view [of db' db1]
        by (intro conjI exI [of _ rid]) (auto simp: no_loss_def)
    next
      case False
      then have d: "(evs, ok, db') = (if env_produce_ok env
          then notifications sha (env_now env) m (db_next_incident db) rid (event_result ev) st else [], True, db1)"
        using Cons.prems(5) h applied(2) by simp
      show ?thesis
      proof (cases "env_produce_ok env")
        case True
        then show ?thesis
          using d applied by (intro conjI exI [of _ rid] disjI2 impI exI [of _ "env_now env"]) simp_all
      next
        case False
        then show ?thesis
          using d applied by (intro conjI exI [of _ rid]) (simp_all add: no_loss_def)
      qed
    qed
  qed
qed

text \<open>
  C3. Exactly once under at-least-once delivery: take a result that is not applied yet, of
  a monitor that exists and can be read. Let its deliveries fail in any way before or after
  the commit of any of the four store calls, as often as they like, before one delivery
  meets no fault. Then the monitor's alert state has moved by exactly one step of the state
  machine on that result, all other monitors' states are as before, the invariant holds,
  and the notify events that reached the bus are those of that one step or none at all;
  they are all there when no delivery lost its reply after the commit of the decision and no
  produce failed.
\<close>

theorem alert_exactly_once:
  assumes "wf_db db" and "alert_of db (ev_org ev) (ev_mon ev) = Inr st"
    and "config_of c db (ev_org ev) (ev_mon ev) = Inr m" and "pending db ev"
    and "deliver_retry sha c (envs @ [calm now]) ev db = (evs, ok, db')"
  shows "ok \<and> wf_db db'
    \<and> (\<forall>orgID mid. mid \<noteq> ev_mon ev \<longrightarrow> alert_of db' orgID mid = alert_of db orgID mid)
    \<and> (\<exists>rid. alert_of db' (ev_org ev) (ev_mon ev) =
             Inr (alert_next m (db_next_incident db) rid (event_result ev) st)
         \<and> (evs = [] \<or> (\<exists>t. evs = notifications sha t m (db_next_incident db) rid (event_result ev) st))
         \<and> (list_all no_loss envs \<longrightarrow>
              (\<exists>t. evs = notifications sha t m (db_next_incident db) rid (event_result ev) st)))"
  using deliver_retry_pending [OF assms] deliver_retry_frame [OF assms(1,5)] by blast

text \<open>
  Redelivery is harmless: once results are applied, delivering them again, in any order,
  any number of times and under any faults, changes no monitor row, no incident and no
  stored result.
\<close>

theorem alert_redelivery_noop:
  assumes "wf_db db" and "\<And>ev env. (ev, env) \<in> set ds \<Longrightarrow> seen db ev"
  shows "alert_view (fold (\<lambda>(ev, env) db. snd (handle sha c env (Some ev) db)) ds db) = alert_view db"
  using alerting.redeliveries_noop [OF assms(1), of ds sha c] assms(2) by auto

section \<open>Whole histories\<close>

text \<open>
  A history of the bus: records with the faulty deliveries each one goes through before a
  good one. Records of all monitors are interleaved and any record may come again later.
\<close>

type_synonym history = "(CheckResultEvent \<times> DeliveryEnv list \<times> time) list"

definition deliver_one :: "(string \<Rightarrow> string) \<Rightarrow> cipher \<Rightarrow> CheckResultEvent \<times> DeliveryEnv list \<times> time \<Rightarrow> db \<Rightarrow> db" where
  "deliver_one sha c d db = (case d of (ev, envs, now) \<Rightarrow> snd (snd (deliver_retry sha c (envs @ [calm now]) ev db)))"

definition deliver_all :: "(string \<Rightarrow> string) \<Rightarrow> cipher \<Rightarrow> history \<Rightarrow> db \<Rightarrow> db" where
  "deliver_all sha c ds db = fold (deliver_one sha c) ds db"

definition ev_key :: "CheckResultEvent \<Rightarrow> int \<times> int \<times> string \<times> time" where
  "ev_key ev = result_key (event_result ev)"

text \<open>The first delivery of each result.\<close>

fun firsts :: "(int \<times> int \<times> string \<times> time) list \<Rightarrow> CheckResultEvent list \<Rightarrow> CheckResultEvent list" where
  "firsts keys [] = []"
| "firsts keys (ev # evs) =
     (if ev_key ev \<in> set keys then firsts keys evs else ev # firsts (ev_key ev # keys) evs)"

definition monitor_history :: "int \<Rightarrow> int \<Rightarrow> history \<Rightarrow> CheckResultEvent list" where
  "monitor_history orgID mid ds =
     firsts [] (filter (\<lambda>ev. ev_org ev = orgID \<and> ev_mon ev = mid) (map fst ds))"

text \<open>The failures since the last healthy result.\<close>

definition current_run :: "CheckResultEvent list \<Rightarrow> CheckResult list" where
  "current_run evs = trailing (\<lambda>r. \<not> res_Healthy r) (map event_result evs)"

lemma firsts_snoc:
  "firsts keys (evs @ [ev]) =
     firsts keys evs @ (if ev_key ev \<in> set keys \<union> ev_key ` set evs then [] else [ev])"
  by (induction keys evs rule: firsts.induct) auto

lemma same_result_key_iff: "same_result_key r s \<longleftrightarrow> result_key r = result_key s"
  by (auto simp: same_result_key_def result_key_def)

definition tracked :: "cipher \<Rightarrow> int \<Rightarrow> int \<Rightarrow> Monitor \<Rightarrow> CheckResultEvent list \<Rightarrow> CheckResult list \<Rightarrow> db \<Rightarrow> bool" where
  "tracked c orgID mid m evs run db \<longleftrightarrow>
     wf_db db \<and> config_of c db orgID mid = Inr m
     \<and> (\<exists>st. alert_of db orgID mid = Inr st \<and> matches_run m run st)
     \<and> (\<forall>ev. ev_org ev = orgID \<longrightarrow> ev_mon ev = mid \<longrightarrow>
          (if ev_key ev \<in> ev_key ` set evs then seen db ev else find_result db (event_result ev) = None))"

lemma seen_later:
  assumes "seen db ev" and "find_result db' (event_result ev) = find_result db (event_result ev)"
    and "alert_of db (ev_org ev) (ev_mon ev) = Inr st" and "alert_of db' (ev_org ev) (ev_mon ev) = Inr st'"
    and "as_LastAppliedResultID st' = as_LastAppliedResultID st
         \<or> (\<exists>rid. as_LastAppliedResultID st' = Some rid \<and> \<not> already_applied (as_LastAppliedResultID st) rid)"
  shows "seen db' ev"
  using assms by (fastforce simp: seen_def already_applied_def split: option.splits)

lemma tracked_step:
  assumes t: "tracked c orgID mid m evs run db" and d: "d = (ev, envs, now)"
  shows "if ev_org ev = orgID \<and> ev_mon ev = mid
         then if ev_key ev \<in> ev_key ` set evs then tracked c orgID mid m (evs @ [ev]) run (deliver_one sha c d db)
              else tracked c orgID mid m (evs @ [ev]) (if res_Healthy (event_result ev) then [] else run @ [event_result ev])
                     (deliver_one sha c d db)
         else tracked c orgID mid m evs run (deliver_one sha c d db)"
proof -
  obtain out ok db' where r: "deliver_retry sha c (envs @ [calm now]) ev db = (out, ok, db')"
    by (cases "deliver_retry sha c (envs @ [calm now]) ev db") auto
  then have db': "deliver_one sha c d db = db'" by (simp add: deliver_one_def d)
  have wf: "wf_db db" and m: "config_of c db orgID mid = Inr m"
    and inv: "\<And>e. ev_org e = orgID \<Longrightarrow> ev_mon e = mid \<Longrightarrow>
          if ev_key e \<in> ev_key ` set evs then seen db e else find_result db (event_result e) = None"
    using t by (auto simp: tracked_def)
  obtain st where st: "alert_of db orgID mid = Inr st" "matches_run m run st"
    using t by (auto simp: tracked_def)
  note fr = deliver_retry_frame [OF wf r]
  have wf': "wf_db db'" and m': "config_of c db' orgID mid = Inr m" using fr m by (simp_all add: config_of_eq)
  have other: "find_result db' (event_result e) = find_result db (event_result e)" if "ev_key e \<noteq> ev_key ev" for e
    using fr that by (simp add: same_result_key_iff ev_key_def)
  have samekey: "find_result x (event_result e) = find_result x (event_result ev)" if "ev_key e = ev_key ev" for x e
  proof -
    have "same_result_key (event_result e) = same_result_key (event_result ev)"
      using that by (intro ext) (simp add: same_result_key_iff ev_key_def)
    then show ?thesis by (simp add: find_result_def)
  qed
  show ?thesis
  proof (cases "ev_org ev = orgID \<and> ev_mon ev = mid")
    case False
    then have al: "alert_of db' orgID mid = alert_of db orgID mid" using fr by auto
    have "if ev_key e \<in> ev_key ` set evs then seen db' e else find_result db' (event_result e) = None"
      if "ev_org e = orgID" "ev_mon e = mid" for e
    proof -
      have "ev_key e \<noteq> ev_key ev" using that False by (auto simp: ev_key_def result_key_def)
      then show ?thesis using inv [OF that] other [of e] al that by (auto simp: seen_def)
    qed
    with False wf' m' al st show ?thesis by (auto simp: tracked_def db')
  next
    case True
    then have st1: "alert_of db (ev_org ev) (ev_mon ev) = Inr st" using st(1) by simp
    show ?thesis
    proof (cases "ev_key ev \<in> ev_key ` set evs")
      case seen: True
      then have "seen db ev" using inv [of ev] True by simp
      then have v: "alert_view db' = alert_view db" using deliver_retry_seen [OF wf _ r] by blast
      then have "find_result db' = find_result db" by (intro ext) (simp add: alert_view_def find_result_def)
      then have "tracked c orgID mid m (evs @ [ev]) run db'"
        using wf' m' st alert_of_view [OF v] seen_view [OF v] inv seen by (auto simp: tracked_def)
      then show ?thesis using True seen by (simp add: db')
    next
      case fresh: False
      then have "find_result db (event_result ev) = None" using inv [of ev] True by simp
      then have p: "pending db ev" by (simp add: pending_def)
      have mm: "config_of c db (ev_org ev) (ev_mon ev) = Inr m" using m True by simp
      obtain rid where rid: "alert_of db' orgID mid = Inr (alert_next m (db_next_incident db) rid (event_result ev) st)"
          "seen db' ev" "\<not> already_applied (as_LastAppliedResultID st) rid"
        using deliver_retry_pending [OF wf st1 mm p r] True by auto
      let ?run = "if res_Healthy (event_result ev) then [] else run @ [event_result ev]"
      have run: "matches_run m ?run (alert_next m (db_next_incident db) rid (event_result ev) st)"
        using matches_run_step [OF st(2)] .
      have "if ev_key e \<in> ev_key ` set (evs @ [ev]) then seen db' e else find_result db' (event_result e) = None"
        if e: "ev_org e = orgID" "ev_mon e = mid" for e
      proof (cases "ev_key e = ev_key ev")
        case eq: True
        have "seen db' e"
          using rid(2) samekey [OF eq, of db'] e True by (auto simp: seen_def)
        then show ?thesis using eq by simp
      next
        case ne: False
        show ?thesis
        proof (cases "ev_key e \<in> ev_key ` set evs")
          case in_evs: True
          then have "seen db e" using inv [OF e] by simp
          then have "seen db' e"
            using other [OF ne] st(1) rid(1,3) e
            by (intro seen_later [of db e db' st]) (auto simp: alert_next_def Let_def)
          then show ?thesis using in_evs by simp
        next
          case out_evs: False
          then show ?thesis using inv [OF e] other [OF ne] ne by simp
        qed
      qed
      then have "tracked c orgID mid m (evs @ [ev]) ?run db'"
        using wf' m' rid(1) run by (auto simp: tracked_def)
      then show ?thesis using True fresh by (simp add: db')
    qed
  qed
qed

lemma current_run_snoc:
  "current_run (evs @ [ev]) = (if res_Healthy (event_result ev) then [] else current_run evs @ [event_result ev])"
  by (simp add: current_run_def)

lemma tracked_history:
  assumes "tracked c orgID mid m [] [] db"
  shows "tracked c orgID mid m (filter (\<lambda>ev. ev_org ev = orgID \<and> ev_mon ev = mid) (map fst ds))
           (current_run (monitor_history orgID mid ds)) (deliver_all sha c ds db)"
proof (induction ds rule: rev_induct)
  case Nil
  then show ?case using assms by (simp add: deliver_all_def monitor_history_def current_run_def)
next
  case (snoc d ds)
  obtain ev envs now where d: "d = (ev, envs, now)" by (cases d) auto
  let ?mine = "\<lambda>ev. ev_org ev = orgID \<and> ev_mon ev = mid"
  let ?evs = "filter ?mine (map fst ds)"
  let ?run = "current_run (firsts [] ?evs)"
  have last: "deliver_all sha c (ds @ [d]) db = deliver_one sha c d (deliver_all sha c ds db)"
    by (simp add: deliver_all_def)
  have step: "if ?mine ev
         then if ev_key ev \<in> ev_key ` set ?evs then tracked c orgID mid m (?evs @ [ev]) ?run (deliver_all sha c (ds @ [d]) db)
              else tracked c orgID mid m (?evs @ [ev]) (if res_Healthy (event_result ev) then [] else ?run @ [event_result ev])
                     (deliver_all sha c (ds @ [d]) db)
         else tracked c orgID mid m ?evs ?run (deliver_all sha c (ds @ [d]) db)"
    using tracked_step [OF snoc.IH d, of sha] unfolding last monitor_history_def .
  have evs: "filter ?mine (map fst (ds @ [d])) = ?evs @ (if ?mine ev then [ev] else [])"
    by (simp add: d)
  have runs: "current_run (firsts [] (?evs @ [ev])) =
      (if ev_key ev \<in> ev_key ` set ?evs then ?run
       else if res_Healthy (event_result ev) then [] else ?run @ [event_result ev])"
    unfolding firsts_snoc using current_run_snoc [of "firsts [] ?evs" ev] by simp
  show ?case
  proof (cases "?mine ev")
    case True
    then have "filter ?mine (map fst (ds @ [d])) = ?evs @ [ev]" unfolding evs by simp
    moreover have "tracked c orgID mid m (?evs @ [ev]) (current_run (firsts [] (?evs @ [ev]))) (deliver_all sha c (ds @ [d]) db)"
      using step True unfolding runs by (simp split: if_splits)
    ultimately show ?thesis unfolding monitor_history_def by simp
  next
    case False
    then have "filter ?mine (map fst (ds @ [d])) = ?evs" unfolding evs by simp
    moreover have "tracked c orgID mid m ?evs ?run (deliver_all sha c (ds @ [d]) db)"
      using step False by (simp split: if_splits)
    ultimately show ?thesis unfolding monitor_history_def by simp
  qed
qed

text \<open>
  C2. Alerting implements its specification on whole histories: start with a new monitor
  and let the bus deliver results of all monitors, interleaved, each after any number of
  faulty attempts and again any number of times later. Then the stored alert state is the one
  the specification reads off the distinct results of that monitor in the order of their
  first delivery: the failure count and first-failure time are those of the run of failures
  since the last healthy result, an incident is open exactly when that run has reached the
  failure threshold, and that incident started at the first failure of the run and carries
  the reason of the failure that reached the threshold.
\<close>

theorem alert_refines_runs:
  assumes "wf_db db" and "config_of c db orgID mid = Inr m"
    and "alert_of db orgID mid = Inr initial_state"
    and "\<And>r. r \<in> set (db_results db) \<Longrightarrow> res_MonitorID r \<noteq> mid"
  shows "\<exists>st. alert_of (deliver_all sha c ds db) orgID mid = Inr st
           \<and> matches_run m (current_run (monitor_history orgID mid ds)) st"
proof -
  have "find_result db (event_result e) = None" if "ev_mon e = mid" for e
    using assms(4) that unfolding find_result_def find_None_iff same_result_key_def event_result_fields by metis
  moreover have "matches_run m [] initial_state"
    using open_threshold_pos [of m] by (simp add: matches_run_def initial_state_def)
  ultimately have "tracked c orgID mid m [] [] db"
    using assms(1-3) by (auto simp: tracked_def)
  from tracked_history [OF this, of ds sha] show ?thesis by (auto simp: tracked_def)
qed

section \<open>Where the consumer stops or loses an event\<close>

text \<open>
  A result of a deleted monitor is never dropped: while the monitor is missing and the
  result is not stored, every delivery of it fails, whatever the faults, and leaves every
  row as it is. The foreign key of the result row is hit before the monitor lookup that is
  meant to drop the orphan.
\<close>

theorem orphan_result_never_dropped:
  assumes "\<not> monitor_exists db (ev_mon ev)" and "find_result db (event_result ev) = None"
  shows "\<exists>e. fst (handle sha c env (Some ev) db) = Failed e
           \<and> alert_view (snd (handle sha c env (Some ev) db)) = alert_view db
           \<and> (env_upsert env \<noteq> FaultBefore \<longrightarrow> e = ErrForeignKey)"
  using assms
  by (auto simp: handle_eq UpsertCheckResult_def WithOrg_def Let_def rolled_back_def alert_view_def)

text \<open>
  The alerting consumer behind the Redis bus: a delivery in the environment of that moment,
  taken from a supply, acknowledged unless the handler failed.
\<close>

definition alert_handler :: "(string \<Rightarrow> string) \<Rightarrow> cipher \<Rightarrow> (nat \<Rightarrow> DeliveryEnv) \<Rightarrow> (CheckResultEvent option, nat \<times> db) handler" where
  "alert_handler sha c envs rec s =
     (case handle sha c (envs (fst s)) rec (snd s) of
        (Failed e, db') \<Rightarrow> (HandlerErr, (Suc (fst s), db'))
      | (Done _, db') \<Rightarrow> (Acked, (Suc (fst s), db')))"

text \<open>
  Over the Redis bus such an orphan stops alerting altogether: when the oldest pending
  entry of the results stream is a result of a deleted monitor, polling any number of times
  hands no other entry to the consumer, so that no monitor, incident or result changes and
  every queued result of every other monitor stays where it is.
\<close>

theorem orphan_result_blocks_alerting:
  assumes "st_pending st = (n, Some ev) # es"
    and "\<not> monitor_exists db (ev_mon ev)" and "find_result db (event_result ev) = None"
    and "redis_polls (alert_handler sha c envs) dues (st # sts) (k, db) = (sts', (k', db'))"
  shows "sts' = st # sts \<and> alert_view db' = alert_view db"
  using assms(2-4)
proof (induction dues arbitrary: k db)
  case Nil
  then show ?case by simp
next
  case (Cons due dues)
  obtain e db1 where h: "handle sha c (envs k) (Some ev) db = (Failed e, db1)" "alert_view db1 = alert_view db"
    using orphan_result_never_dropped [OF Cons.prems(1,2), of sha c "envs k"] by (metis prod.collapse)
  have "dispatch_all (alert_handler sha c envs) (take redisBatch (st_pending st)) (k, db) = (False, [], (Suc k, db1))"
    by (simp add: assms(1) redisBatch_def alert_handler_def h(1))
  then have p: "redis_poll (alert_handler sha c envs) due (st # sts) (k, db) = (False, st # sts, (Suc k, db1))"
    by (simp add: redis_poll_def readPending_def XAck_def)
  have "\<not> monitor_exists db1 (ev_mon ev)" "find_result db1 (event_result ev) = None"
    using Cons.prems(1,2) h(2) by (auto simp: alert_view_def monitor_exists_def find_result_def)
  then show ?case using Cons.IH [of db1 "Suc k"] Cons.prems(3) p h(2) by simp
qed

lemma handle_not_stuck:
  assumes wf: "wf_db db" and st: "alert_of db (ev_org ev) (ev_mon ev) = Inr st"
    and m: "config_of c db (ev_org ev) (ev_mon ev) = Inr m" and p: "pending db ev"
    and ups: "env_upsert env = NoFault" "env_getmon env = NoFault" "env_state env = NoFault"
      "env_apply env \<noteq> FaultBefore"
    and h: "handle sha c env (Some ev) db = (out, db1)"
  shows "\<not> pending db1 ev"
proof -
  obtain row :: CheckResult and db2 where u: "UpsertCheckResult NoFault (event_result ev) db = (Inr (res_ID row), db2)"
      "find_result db2 (event_result ev) = Some row" "wf_db db2" "0 < res_ID row"
      "case find_result db (event_result ev) of None \<Rightarrow> res_ID row = db_next_result db | Some old \<Rightarrow> row = old"
      "db_monitors db2 = db_monitors db" "db_incidents db2 = db_incidents db"
    using UpsertCheckResult_spec [OF wf, of NoFault "event_result ev"] alert_of_org [OF wf st] by auto
  have al: "alert_of db2 (ev_org ev) (ev_mon ev) = Inr st" using st alert_of_cong [OF u(6,7)] by simp
  have cf: "config_of c db2 (ev_org ev) (ev_mon ev) = Inr m" using m u(6) by (simp add: config_of_eq configs_def)
  have key: "mon_ID m = ev_mon ev" "mon_OrgID m = ev_org ev" using config_of_key [OF m] by auto
  have new: "\<not> already_applied (as_LastAppliedResultID st) (res_ID row)"
    using p u(5) st alert_of_watermark [OF wf st] by (auto simp: pending_def split: option.splits)
  have al': "alert_of db2 (mon_OrgID m) (mon_ID m) = Inr st" using al key by simp
  obtain ap db3 where ap: "ApplyAlertDecision (env_apply env) m (res_ID row) (res_ID row)
        (toStoreDecision (Apply m (event_result ev) st)) db2 =
        (if env_apply env = FaultAfterCommit then Inl ErrConn else Inr ap, db3)"
      "alert_of db3 (ev_org ev) (ev_mon ev) =
        Inr (alert_next m (db_next_incident db2) (res_ID row) (event_result ev) st)"
      "db_results db3 = db_results db2"
    using ApplyAlertDecision_next [OF u(3) al' new _ ups(4), of "event_result ev"] u(4) key by auto
  have "db1 = db3"
    using h u(1) ups al cf key ap(1)
    by (auto simp: handle_eq handle_persisted_def Let_def GetMonitor_ok GetAlertState_ok
        split: option.splits if_splits)
  moreover have "find_result db3 (event_result ev) = Some row" using u(2) ap(3) by (simp add: find_result_def)
  ultimately show ?thesis
    using ap(2) by (simp add: pending_def alert_next_def already_applied_def Let_def)
qed

text \<open>
  A lost notification stays lost: when the decision commits but its reply is lost, or
  the produce fails, the redeliveries of that result emit nothing, even if the decision
  opened or closed an incident.
\<close>

theorem lost_notification_not_reemitted:
  assumes "wf_db db" and "alert_of db (ev_org ev) (ev_mon ev) = Inr st"
    and "config_of c db (ev_org ev) (ev_mon ev) = Inr m" and "pending db ev"
    and "env = (calm now)\<lparr>env_apply := FaultAfterCommit\<rparr> \<or> env = (calm now)\<lparr>env_produce_ok := False\<rparr>"
    and "handle sha c env (Some ev) db = (out, db1)"
  shows "(out = Failed ErrConn \<or> out = Done [])
         \<and> (\<exists>rid. alert_of db1 (ev_org ev) (ev_mon ev) =
                Inr (alert_next m (db_next_incident db) rid (event_result ev) st))
         \<and> (\<forall>envs'. fst (deliver_retry sha c envs' ev db1) = [])"
proof -
  obtain evs0 db0 where c0: "handle sha c (calm now) (Some ev) db = (Done evs0, db0)"
    using handle_calm [OF assms(1-3)] by blast
  have "\<not> ((\<exists>e. out = Failed e) \<and> alert_of db1 = alert_of db \<and> pending db1 ev
           \<and> db_next_incident db1 = db_next_incident db)"
  proof
    assume stuck: "(\<exists>e. out = Failed e) \<and> alert_of db1 = alert_of db \<and> pending db1 ev
           \<and> db_next_incident db1 = db_next_incident db"
    have ups: "env_upsert env = NoFault" "env_getmon env = NoFault" "env_state env = NoFault"
      "env_apply env \<noteq> FaultBefore"
      using assms(5) by (auto simp: calm_def)
    show False
      using handle_not_stuck [OF assms(1-4) ups assms(6)] stuck by blast
  qed
  then obtain rid where r: "out = (if env_apply env = FaultAfterCommit then Failed ErrConn
               else Done (if env_produce_ok env
                          then notifications sha (env_now env) m (db_next_incident db) rid (event_result ev) st else []))"
      "alert_of db1 (ev_org ev) (ev_mon ev) = Inr (alert_next m (db_next_incident db) rid (event_result ev) st)"
      "seen db1 ev"
    using handle_pending [OF assms(1-4,6)] by blast
  have wf1: "wf_db db1" using handle_frame [OF assms(1,6)] by blast
  have "fst (deliver_retry sha c envs' ev db1) = []" for envs'
    using deliver_retry_seen [OF wf1 r(3), of sha c envs'] by (metis prod.collapse)
  with r assms(5) show ?thesis by (auto simp: calm_def)
qed

section \<open>The dedup key\<close>

text \<open>
  The text that is hashed to the dedup key names the notification: two notifications
  have the same text only if they are about the same incident, the same kind of event and
  the same warning level, so that no two different notifications share a key unless SHA-256
  collides.
\<close>

theorem dedupInput_inj:
  assumes "dedupInput i (NotifyEventType_string k) w = dedupInput i' (NotifyEventType_string k') w'"
  shows "i = i' \<and> k = k' \<and> w = w'"
proof -
  let ?tail = "\<lambda>k w. NotifyEventType_string k @ (case w of None \<Rightarrow> [] | Some v \<Rightarrow> CHR '':'' # Itoa v)"
  have form: "dedupInput i (NotifyEventType_string k) w = Itoa i @ CHR '':'' # ?tail k w" for i k w
    by (simp add: dedupInput_def split: option.split)
  have "Itoa i = Itoa i'" and t: "?tail k w = ?tail k' w'"
    using split_at_first [OF assms [unfolded form]] Itoa_no_colon by auto
  then have "i = i'" by (simp add: Itoa_inj)
  moreover have "k = k' \<and> w = w'"
    using t by (cases k; cases k'; cases w; cases w') (auto dest: Itoa_inj)
  ultimately show ?thesis by simp
qed

theorem dedupInput_inj_witness:
  "dedupInput 12 (NotifyEventType_string EventDown) (Some 7) = ''12:down:7''
   \<and> dedupInput 12 (NotifyEventType_string EventDown) (Some 7) \<noteq> dedupInput 12 (NotifyEventType_string EventDown) (Some 3)"
proof -
  have "dedupInput 12 (NotifyEventType_string EventDown) (Some 7) = ''12:down:7''"
    by code_simp
  moreover have "dedupInput 12 (NotifyEventType_string EventDown) (Some 7) \<noteq> dedupInput 12 (NotifyEventType_string EventDown) (Some 3)"
    using dedupInput_inj [of 12 EventDown "Some 7" 12 EventDown "Some 3"] by auto
  ultimately show ?thesis by simp
qed

section \<open>Concrete deliveries\<close>

definition ex_event :: "time \<Rightarrow> bool \<Rightarrow> CheckResultEvent" where
  "ex_event t healthy = \<lparr>cre_JobID = '''', cre_ScheduledAt = t, cre_Result = ex_result t healthy\<rparr>"

lemma ex_facts:
  "wf_db (ex_db n typ)" "alert_of (ex_db n typ) 1 1 = Inr initial_state"
  "config_of None (ex_db n typ) 1 1 = Inr (ex_mon n typ)"
  "pending (ex_db n typ) (ex_event t healthy)" "ev_org (ex_event t healthy) = 1" "ev_mon (ex_event t healthy) = 1"
  "db_next_incident (ex_db n typ) = 1"
proof -
  show "wf_db (ex_db n typ)" using ex_db_reachable by (rule db_reachable_wf)
  show "alert_of (ex_db n typ) 1 1 = Inr initial_state"
    by (simp add: alert_of_eq select_monitor_def getOpenIncidentTx_def ex_db_eval scanAlertState_def initial_state_def)
      (simp add: ex_monitor_def)
  show "config_of None (ex_db n typ) 1 1 = Inr (ex_mon n typ)"
    by (simp add: config_of_eq configs_def ex_db_eval)
      (simp add: ex_mon_def ex_monitor_def scanMonitor_def monitor_defaults_def)
  show "pending (ex_db n typ) (ex_event t healthy)" by (simp add: pending_def find_result_def ex_db_eval)
  show "ev_org (ex_event t healthy) = 1" "ev_mon (ex_event t healthy) = 1"
    by (simp_all add: ex_event_def ex_result_def)
  show "db_next_incident (ex_db n typ) = 1" by (simp add: ex_db_eval)
qed

theorem alert_exactly_once_witness:
  "\<exists>rid. alert_of (snd (snd (deliver_retry (\<lambda>s. s) None
        ([(calm 0)\<lparr>env_upsert := FaultAfterCommit\<rparr>, (calm 0)\<lparr>env_apply := FaultBefore\<rparr>] @ [calm 0])
        (ex_event 20 False) (ex_db 1 MonitorHTTP)))) 1 1 =
      Inr (alert_next (ex_mon 1 MonitorHTTP) 1 rid (event_result (ex_event 20 False)) initial_state)"
proof -
  let ?envs = "[(calm 0)\<lparr>env_upsert := FaultAfterCommit\<rparr>, (calm 0)\<lparr>env_apply := FaultBefore\<rparr>]"
  obtain evs ok db' where d: "deliver_retry (\<lambda>s. s) None (?envs @ [calm 0]) (ex_event 20 False) (ex_db 1 MonitorHTTP) = (evs, ok, db')"
    by (cases "deliver_retry (\<lambda>s. s) None (?envs @ [calm 0]) (ex_event 20 False) (ex_db 1 MonitorHTTP)") auto
  show ?thesis
    using alert_exactly_once [OF ex_facts(1) _ _ ex_facts(4) d, of initial_state "ex_mon 1 MonitorHTTP"]
    by (simp only: ex_facts d snd_conv) blast
qed

text \<open>A database in which the result of \<open>ex_event 20\<close> is applied.\<close>

definition ex_db_seen :: db where
  "ex_db_seen = snd (snd (deliver_retry (\<lambda>s. s) None [calm 0] (ex_event 20 False) (ex_db 1 MonitorHTTP)))"

lemma ex_db_seen_facts: "wf_db ex_db_seen" "seen ex_db_seen (ex_event 20 False)"
proof -
  obtain evs ok db' where d: "deliver_retry (\<lambda>s. s) None ([] @ [calm 0]) (ex_event 20 False) (ex_db 1 MonitorHTTP) = (evs, ok, db')"
    by (cases "deliver_retry (\<lambda>s. s) None ([] @ [calm 0]) (ex_event 20 False) (ex_db 1 MonitorHTTP)") auto
  have "seen db' (ex_event 20 False)"
    using deliver_retry_pending [OF ex_facts(1) _ _ ex_facts(4) d, of initial_state "ex_mon 1 MonitorHTTP"]
    by (simp only: ex_facts) blast
  moreover have "wf_db db'" using deliver_retry_frame [OF ex_facts(1) d] by blast
  ultimately show "wf_db ex_db_seen" "seen ex_db_seen (ex_event 20 False)"
    using d unfolding ex_db_seen_def append_Nil by (simp_all only: snd_conv)
qed

theorem alert_redelivery_noop_witness:
  "alert_view (fold (\<lambda>(ev, env) db. snd (handle (\<lambda>s. s) None env (Some ev) db))
      [(ex_event 20 False, calm 3), (ex_event 20 False, (calm 4)\<lparr>env_apply := FaultAfterCommit\<rparr>)] ex_db_seen)
   = alert_view ex_db_seen"
  by (rule alert_redelivery_noop [OF ex_db_seen_facts(1)])
    (use ex_db_seen_facts(2) in \<open>simp only: set_simps insert_iff empty_iff prod.inject, blast\<close>)

theorem alert_refines_runs_witness:
  "\<exists>st. alert_of (deliver_all (\<lambda>s. s) None
        [(ex_event 10 False, [], 0), (ex_event 20 False, [(calm 0)\<lparr>env_state := FaultBefore\<rparr>], 0),
         (ex_event 10 False, [], 0)] (ex_db 2 MonitorHTTP)) 1 1 = Inr st
     \<and> matches_run (ex_mon 2 MonitorHTTP) [event_result (ex_event 10 False), event_result (ex_event 20 False)] st"
proof -
  have run: "current_run (monitor_history 1 1
      [(ex_event 10 False, [], 0), (ex_event 20 False, [(calm 0)\<lparr>env_state := FaultBefore\<rparr>], 0), (ex_event 10 False, [], 0)])
    = [event_result (ex_event 10 False), event_result (ex_event 20 False)]"
    by (simp add: current_run_def monitor_history_def ev_key_def result_key_def event_result_def ex_event_def
        ex_result_def trailing_def)
  show ?thesis
    using alert_refines_runs [OF ex_facts(1,3,2) [of 2 MonitorHTTP], of "\<lambda>s. s"
        "[(ex_event 10 False, [], 0), (ex_event 20 False, [(calm 0)\<lparr>env_state := FaultBefore\<rparr>], 0), (ex_event 10 False, [], 0)]"]
    unfolding run by (simp add: ex_db_eval)
qed

definition ex_orphan :: CheckResultEvent where
  "ex_orphan = (ex_event 20 False)\<lparr>cre_Result := (ex_result 20 False)\<lparr>res_MonitorID := 9\<rparr>\<rparr>"

lemma ex_orphan_facts:
  "\<not> monitor_exists (ex_db 1 MonitorHTTP) (ev_mon ex_orphan)"
  "find_result (ex_db 1 MonitorHTTP) (event_result ex_orphan) = None"
  by (simp_all add: monitor_exists_def ex_db_eval ex_orphan_def find_result_def)

theorem orphan_result_never_dropped_witness:
  "fst (handle (\<lambda>s. s) None (calm 0) (Some ex_orphan) (ex_db 1 MonitorHTTP)) = Failed ErrForeignKey"
  using orphan_result_never_dropped [OF ex_orphan_facts, of "\<lambda>s. s" None "calm 0"] by (auto simp: calm_def)

theorem orphan_result_blocks_alerting_witness:
  "fst (redis_polls (alert_handler (\<lambda>s. s) None (\<lambda>k. calm 0)) [False, True, False]
      [\<lparr>st_new = [(2, Some (ex_event 20 False))], st_pending = [(1, Some ex_orphan)], st_stranded = []\<rparr>]
      (0, ex_db 1 MonitorHTTP))
   = [\<lparr>st_new = [(2, Some (ex_event 20 False))], st_pending = [(1, Some ex_orphan)], st_stranded = []\<rparr>]"
proof -
  let ?st = "\<lparr>st_new = [(2, Some (ex_event 20 False))], st_pending = [(1, Some ex_orphan)], st_stranded = []\<rparr>"
  obtain sts' k' db' where p: "redis_polls (alert_handler (\<lambda>s. s) None (\<lambda>k. calm 0)) [False, True, False] [?st]
      (0, ex_db 1 MonitorHTTP) = (sts', (k', db'))"
    by (cases "redis_polls (alert_handler (\<lambda>s. s) None (\<lambda>k. calm 0)) [False, True, False] [?st] (0, ex_db 1 MonitorHTTP)") auto
  have "st_pending ?st = (1, Some ex_orphan) # []" by simp
  from orphan_result_blocks_alerting [OF this ex_orphan_facts p] show ?thesis unfolding p by simp
qed

theorem lost_notification_not_reemitted_witness:
  "fst (deliver_retry (\<lambda>s. s) None [calm 1, calm 2] (ex_event 20 False)
      (snd (handle (\<lambda>s. s) None ((calm 0)\<lparr>env_produce_ok := False\<rparr>) (Some (ex_event 20 False)) (ex_db 1 MonitorHTTP)))) = []"
proof -
  obtain out db1 where h: "handle (\<lambda>s. s) None ((calm 0)\<lparr>env_produce_ok := False\<rparr>) (Some (ex_event 20 False)) (ex_db 1 MonitorHTTP) = (out, db1)"
    by (cases "handle (\<lambda>s. s) None ((calm 0)\<lparr>env_produce_ok := False\<rparr>) (Some (ex_event 20 False)) (ex_db 1 MonitorHTTP)") auto
  show ?thesis
    using lost_notification_not_reemitted [OF ex_facts(1) _ _ ex_facts(4) _ h, of initial_state "ex_mon 1 MonitorHTTP" 0]
    by (simp only: ex_facts h snd_conv) blast
qed

end
