(* ===== verification/Pulse_Checker.thy ===== *)
theory Pulse_Checker
  imports Pulse_Domain "HOL-Library.Word"
begin

unbundle bit_operations_syntax

text \<open>
  One check of a monitor, \<open>internal/checker\<close>: the expected status codes
  (\<open>statuscodes.go\<close>), the guard against private targets (\<open>ssrf.go\<close>), the HTTP check
  (\<open>checker.go\<close>) and the certificate check (\<open>ssl.go\<close>).

  The network is an argument: a record of what the name lookup, the request, the body and
  the TLS handshake give in this check, with an error as the three ways in which it can
  say "timeout" and its text.  The body of a response is the bytes that arrive and the
  error after them, if any.  The URL parser of the standard library, the rune conversion and the
  chain verification of \<open>crypto/x509\<close> are arguments as well.  The HTTP client and the TLS dialer are functions of
  the \<open>Control\<close> hook of their dialer; besides their outcome they say to which addresses they connected.
\<close>

section \<open>Expected status codes\<close>

record statusMatcher =
  sm_explicit :: "int list"
  sm_ranges :: "int list"

definition Matches :: "statusMatcher \<Rightarrow> int \<Rightarrow> bool" where
  "Matches m code = (if code \<in> set (sm_explicit m) then True else trunc_div code 100 \<in> set (sm_ranges m))"

text \<open>\<open>int(lower[0] - '0')\<close>: the subtraction is on bytes and wraps around.\<close>

definition byte_digit :: "char \<Rightarrow> int" where
  "byte_digit c = (int (of_char c) - 48) mod 256"

datatype status_entry = EntryRange int | EntryCode int

definition parse_entry :: "string \<Rightarrow> status_entry option" where
  "parse_entry raw =
     (let part = TrimSpace raw
      in if part = '''' then None
         else let lower = ToLower part
              in if length lower = 3 \<and> lower ! 1 = CHR ''x'' \<and> lower ! 2 = CHR ''x''
                 then let d = byte_digit (lower ! 0)
                      in if d < 1 \<or> d > 5 then None else Some (EntryRange d)
                 else case Atoi part of
                        None \<Rightarrow> None
                      | Some code \<Rightarrow> if code < 100 \<or> code > 599 then None else Some (EntryCode code))"

fun parse_entries :: "string list \<Rightarrow> statusMatcher \<Rightarrow> statusMatcher option" where
  "parse_entries [] m = Some m"
| "parse_entries (raw # rest) m =
     (case parse_entry raw of
        None \<Rightarrow> None
      | Some (EntryRange d) \<Rightarrow> parse_entries rest (m\<lparr>sm_ranges := sm_ranges m @ [d]\<rparr>)
      | Some (EntryCode c) \<Rightarrow> parse_entries rest (m\<lparr>sm_explicit := sm_explicit m @ [c]\<rparr>))"

definition ParseStatusCodes :: "string \<Rightarrow> statusMatcher option" where
  "ParseStatusCodes spec =
     (let trimmed = TrimSpace spec
      in if trimmed = '''' then None
         else parse_entries (Split (CHR '','') trimmed) \<lparr>sm_explicit = [], sm_ranges = []\<rparr>)"

section \<open>Blocked targets\<close>

text \<open>
  An address is its bytes, 4 or 16 of them; \<open>To4\<close> also reads the IPv4-mapped form.  The
  predicates are those of the package \<open>net\<close>.
\<close>

type_synonym ip = "8 word list"

definition To4 :: "ip \<Rightarrow> ip option" where
  "To4 ip =
     (if length ip = 4 then Some ip
      else if length ip = 16 \<and> take 10 ip = replicate 10 0 \<and> ip ! 10 = 255 \<and> ip ! 11 = 255
      then Some (drop 12 ip)
      else None)"

definition IsLoopback :: "ip \<Rightarrow> bool" where
  "IsLoopback ip = (case To4 ip of Some v4 \<Rightarrow> v4 ! 0 = 127 | None \<Rightarrow> ip = replicate 15 0 @ [1])"

definition IsLinkLocalUnicast :: "ip \<Rightarrow> bool" where
  "IsLinkLocalUnicast ip =
     (case To4 ip of Some v4 \<Rightarrow> v4 ! 0 = 169 \<and> v4 ! 1 = 254
      | None \<Rightarrow> length ip = 16 \<and> ip ! 0 = 0xfe \<and> ip ! 1 AND 0xc0 = 0x80)"

definition IsLinkLocalMulticast :: "ip \<Rightarrow> bool" where
  "IsLinkLocalMulticast ip =
     (case To4 ip of Some v4 \<Rightarrow> v4 ! 0 = 224 \<and> v4 ! 1 = 0 \<and> v4 ! 2 = 0
      | None \<Rightarrow> length ip = 16 \<and> ip ! 0 = 0xff \<and> ip ! 1 AND 0x0f = 0x02)"

definition IsPrivate :: "ip \<Rightarrow> bool" where
  "IsPrivate ip =
     (case To4 ip of
        Some v4 \<Rightarrow> v4 ! 0 = 10 \<or> (v4 ! 0 = 172 \<and> v4 ! 1 AND 0xf0 = 16) \<or> (v4 ! 0 = 192 \<and> v4 ! 1 = 168)
      | None \<Rightarrow> length ip = 16 \<and> ip ! 0 AND 0xfe = 0xfc)"

definition isBlockedIP :: "ip \<Rightarrow> bool" where
  "isBlockedIP ip =
     (if ip = [] then False
      else if IsLoopback ip then True
      else if IsLinkLocalUnicast ip \<or> IsLinkLocalMulticast ip then True
      else if IsPrivate ip then True
      else False)"

datatype resolve_error = Blocked ip | LookupFailed string

fun first_blocked :: "ip list \<Rightarrow> ip option" where
  "first_blocked [] = None"
| "first_blocked (ip # ips) = (if isBlockedIP ip then Some ip else first_blocked ips)"

definition resolveAndCheck :: "(string \<Rightarrow> string + ip list) \<Rightarrow> string \<Rightarrow> resolve_error option" where
  "resolveAndCheck LookupIP host =
     (case LookupIP host of
        Inl err \<Rightarrow> Some (LookupFailed err)
      | Inr ips \<Rightarrow> map_option Blocked (first_blocked ips))"

text \<open>
  \<open>isBlockedErr\<close> looks for the words "blocked address" in the text of the error, which the
  block error always has; a lookup error is taken for a block only if its text has them too.
\<close>

definition isBlockedErr :: "resolve_error \<Rightarrow> bool" where
  "isBlockedErr e = (case e of Blocked _ \<Rightarrow> True | LookupFailed txt \<Rightarrow> Contains txt ''blocked address'')"

text \<open>\<open>dialControl\<close>: the address is refused unless it is a literal that is not blocked.\<close>

datatype dial_error = DialUnparsable | DialNotIP | DialBlocked ip

definition dialControl :: "(string \<Rightarrow> (string \<times> string) option) \<Rightarrow> (string \<Rightarrow> ip option) \<Rightarrow> string \<Rightarrow> dial_error option" where
  "dialControl SplitHostPort ParseIP address =
     (case SplitHostPort address of
        None \<Rightarrow> Some DialUnparsable
      | Some (host, port) \<Rightarrow>
          (case ParseIP host of
             None \<Rightarrow> Some DialNotIP
           | Some ip \<Rightarrow> if isBlockedIP ip then Some (DialBlocked ip) else None))"

section \<open>Checks\<close>

text \<open>The hook of a \<open>net.Dialer\<close>: none, or a test of the address that is about to be dialled.\<close>

type_synonym dial_hook = "(string \<Rightarrow> dial_error option) option"

record CheckerConfig =
  cfg_BlockPrivateNetworks :: bool
  cfg_BodyCapBytes :: int
  cfg_MaxErrorTextLen :: int

definition NewConfig :: "CheckerConfig \<Rightarrow> CheckerConfig" where
  "NewConfig cfg =
     (let cfg1 = (if cfg_BodyCapBytes cfg \<le> 0 then cfg\<lparr>cfg_BodyCapBytes := 64 * 1024\<rparr> else cfg)
      in if cfg_MaxErrorTextLen cfg1 \<le> 0 then cfg1\<lparr>cfg_MaxErrorTextLen := 500\<rparr> else cfg1)"

record net_err =
  err_ctx_deadline :: bool
  err_is_deadline :: bool
  err_net_timeout :: bool
  err_text :: string

definition isTimeoutErr :: "net_err \<Rightarrow> bool" where
  "isTimeoutErr e =
     (if err_ctx_deadline e then True
      else if err_is_deadline e then True
      else if err_net_timeout e then True
      else False)"

record url =
  url_Scheme :: string
  url_Host :: string
  url_Hostname :: string
  url_Port :: string

text \<open>
  The request of a check: the headers are set one after another, so that a later one replaces an
  earlier one of the same name, and the deadline is the timeout of the monitor, if it has one.
\<close>

record http_request =
  req_Method :: string
  req_URL :: string
  req_Body :: "string option"
  req_Headers :: "(string \<times> string) list"
  req_Timeout :: "duration option"

definition bodyReader :: "Monitor \<Rightarrow> string option" where
  "bodyReader m =
     (if mon_Body m = '''' then None
      else if mon_Method m \<in> {''POST'', ''PUT'', ''PATCH''} then Some (mon_Body m)
      else None)"

definition check_request :: "Monitor \<Rightarrow> http_request" where
  "check_request m =
     \<lparr>req_Method = mon_Method m, req_URL = mon_URL m, req_Body = bodyReader m,
      req_Headers = map (\<lambda>h. (hdr_Key h, hdr_Value h)) (mon_Headers m),
      req_Timeout = (if mon_TimeoutSeconds m > 0 then Some (mon_TimeoutSeconds m * Second) else None)\<rparr>"

text \<open>What the HTTP check meets: the clock readings are in nanoseconds since the start.\<close>

record http_response =
  resp_StatusCode :: int
  resp_Header :: "(string \<times> string list) list"
  resp_Body :: "string \<times> net_err option"

record check_env =
  env_Parse :: "string \<Rightarrow> url option"
  env_SplitHostPort :: "string \<Rightarrow> (string \<times> string) option"
  env_ParseIP :: "string \<Rightarrow> ip option"
  env_LookupIP :: "string \<Rightarrow> string + ip list"
  env_runes :: "string \<Rightarrow> string list"
  env_FormatDate :: "time \<Rightarrow> string"
  env_start :: time
  env_NewRequest :: "http_request \<Rightarrow> string option"
  env_Do :: "dial_hook \<Rightarrow> http_request \<Rightarrow> (net_err + http_response) \<times> string list"
  env_elapsed :: duration

text \<open>The hook that \<open>New\<close> and \<open>checkSSL\<close> give their dialers.\<close>

definition dialer_Control :: "CheckerConfig \<Rightarrow> check_env \<Rightarrow> dial_hook" where
  "dialer_Control cfg env =
     (if cfg_BlockPrivateNetworks cfg then Some (dialControl (env_SplitHostPort env) (env_ParseIP env)) else None)"

definition withReason :: "CheckResult \<Rightarrow> FailureReason \<Rightarrow> string \<Rightarrow> CheckResult" where
  "withReason res reason errText =
     (let r = res\<lparr>res_Healthy := False, res_FailureReason := Some reason\<rparr>
      in if errText \<noteq> '''' then r\<lparr>res_ErrorText := Some errText\<rparr> else r)"

definition truncateText :: "(string \<Rightarrow> string list) \<Rightarrow> CheckerConfig \<Rightarrow> string \<Rightarrow> string" where
  "truncateText runes cfg s =
     (let s = TrimSpace s
      in if int (length s) \<le> cfg_MaxErrorTextLen cfg then s
         else let rs = runes s
              in if int (length rs) \<le> cfg_MaxErrorTextLen cfg then s
                 else concat (take (nat (cfg_MaxErrorTextLen cfg)) rs))"

definition hostFromURL :: "(string \<Rightarrow> url option) \<Rightarrow> string \<Rightarrow> string" where
  "hostFromURL Parse raw = (case Parse raw of None \<Rightarrow> '''' | Some u \<Rightarrow> url_Hostname u)"

text \<open>A limited read stops one byte behind the cap, before any error that comes later.\<close>

definition readBodyCapped :: "string \<times> net_err option \<Rightarrow> int \<Rightarrow> net_err + string \<times> bool" where
  "readBodyCapped body capBytes =
     (case body of (bytes, err) \<Rightarrow>
        if int (length bytes) > capBytes then Inr (take (nat capBytes) bytes, True)
        else (case err of Some e \<Rightarrow> Inl e | None \<Rightarrow> Inr (bytes, False)))"

definition empty_result :: "int \<Rightarrow> CheckResult" where
  "empty_result monitorID =
     \<lparr>res_ID = 0, res_OrgID = 0, res_MonitorID = monitorID, res_Region = '''', res_ScheduledAt = zero_time,
      res_CheckedAt = zero_time, res_Healthy = False, res_FailureReason = None, res_StatusCode = None,
      res_LatencyMs = None, res_ErrorText = None, res_CertExpiresAt = None, res_Snapshot = None,
      res_CertInfo = None\<rparr>"

definition milliseconds :: "duration \<Rightarrow> int" where "milliseconds d = trunc_div d 1000000"

text \<open>
  The snapshot of a failed response: the body that was read for the assertion, or else a
  read of its own whose error is ignored.
\<close>

definition snapshot :: "CheckerConfig \<Rightarrow> http_response \<Rightarrow> (string \<times> bool) option \<Rightarrow> ResponseSnapshot" where
  "snapshot cfg resp bodyRead =
     (let (text, truncated) = (case bodyRead of
            Some b \<Rightarrow> b
          | None \<Rightarrow> (case readBodyCapped (resp_Body resp) (cfg_BodyCapBytes cfg) of
                       Inl _ \<Rightarrow> ('''', False) | Inr b \<Rightarrow> b))
      in \<lparr>snap_StatusCode = Some (resp_StatusCode resp), snap_Headers = resp_Header resp,
          snap_Body = text, snap_Truncated = truncated\<rparr>)"

definition fail_with_snapshot :: "CheckerConfig \<Rightarrow> http_response \<Rightarrow> (string \<times> bool) option \<Rightarrow> bool \<Rightarrow> CheckResult
    \<Rightarrow> FailureReason \<Rightarrow> CheckResult" where
  "fail_with_snapshot cfg resp bodyRead captureResponse res reason =
     withReason (if captureResponse then res\<lparr>res_Snapshot := Some (snapshot cfg resp bodyRead)\<rparr> else res) reason ''''"

definition status_ok :: "Monitor \<Rightarrow> int \<Rightarrow> bool" where
  "status_ok m status =
     (if TrimSpace (mon_ExpectedStatusCodes m) = '''' then True
      else case ParseStatusCodes (mon_ExpectedStatusCodes m) of None \<Rightarrow> False | Some matcher \<Rightarrow> Matches matcher status)"

text \<open>The assertions on a response, in their order, once its body was read if it had to be.\<close>

definition check_response :: "CheckerConfig \<Rightarrow> Monitor \<Rightarrow> bool \<Rightarrow> http_response \<Rightarrow> (string \<times> bool) option \<Rightarrow> int
    \<Rightarrow> CheckResult \<Rightarrow> CheckResult" where
  "check_response cfg m captureResponse resp bodyRead latency res =
     (let fail = fail_with_snapshot cfg resp bodyRead captureResponse res
      in if \<not> status_ok m (resp_StatusCode resp) then fail ReasonStatusMismatch
         else if (case mon_MaxLatencyMs m of Some mx \<Rightarrow> latency > mx | None \<Rightarrow> False) then fail ReasonLatencyExceeded
         else if (case (mon_BodyContains m, bodyRead) of
                    (Some sub, Some (text, _)) \<Rightarrow> \<not> Contains text sub
                  | (Some sub, None) \<Rightarrow> \<not> Contains '''' sub
                  | (None, _) \<Rightarrow> False) then fail ReasonBodyAssertion
         else res\<lparr>res_Healthy := True, res_FailureReason := None\<rparr>)"

text \<open>A check gives its result and the addresses it connected to.\<close>

definition checkHTTP_run :: "CheckerConfig \<Rightarrow> check_env \<Rightarrow> Monitor \<Rightarrow> bool \<Rightarrow> CheckResult \<times> string list" where
  "checkHTTP_run cfg env m captureResponse =
     (let res = empty_result (mon_ID m);
          stamped = res\<lparr>res_CheckedAt := env_start env\<rparr>;
          trunc = truncateText (env_runes env) cfg;
          host = hostFromURL (env_Parse env) (mon_URL m);
          refused = (if cfg_BlockPrivateNetworks cfg \<and> host \<noteq> ''''
                     then resolveAndCheck (env_LookupIP env) host else None)
      in case refused of
           Some e \<Rightarrow>
             (if isBlockedErr e then withReason stamped ReasonBlockedTarget ''''
              else withReason stamped ReasonConnectionError
                     (case e of LookupFailed txt \<Rightarrow> trunc txt | Blocked _ \<Rightarrow> ''''), [])
         | None \<Rightarrow>
             (case env_NewRequest env (check_request m) of
                Some txt \<Rightarrow> (withReason stamped ReasonConnectionError (trunc txt), [])
              | None \<Rightarrow>
                  (case env_Do env (dialer_Control cfg env) (check_request m) of
                     (Inl e, dialled) \<Rightarrow>
                       (withReason stamped (if isTimeoutErr e then ReasonTimeout else ReasonConnectionError)
                          (trunc (err_text e)), dialled)
                   | (Inr resp, dialled) \<Rightarrow>
                       let res1 = stamped\<lparr>res_StatusCode := Some (resp_StatusCode resp)\<rparr>;
                           latency = milliseconds (env_elapsed env);
                           res2 = res1\<lparr>res_LatencyMs := Some latency\<rparr>
                       in (if mon_BodyContains m \<noteq> None
                           then (case readBodyCapped (resp_Body resp) (cfg_BodyCapBytes cfg) of
                                   Inl e \<Rightarrow> withReason res2 (if isTimeoutErr e then ReasonTimeout else ReasonConnectionError)
                                              (trunc (err_text e))
                                 | Inr b \<Rightarrow> check_response cfg m captureResponse resp (Some b) latency res2)
                           else check_response cfg m captureResponse resp None latency res2, dialled))))"

definition checkHTTP :: "CheckerConfig \<Rightarrow> check_env \<Rightarrow> Monitor \<Rightarrow> bool \<Rightarrow> CheckResult" where
  "checkHTTP cfg env m captureResponse = fst (checkHTTP_run cfg env m captureResponse)"

subsection \<open>Certificates\<close>

definition sslHostPort :: "check_env \<Rightarrow> string \<Rightarrow> string \<times> string" where
  "sslHostPort env raw =
     (let raw = TrimSpace raw;
          bare = (case env_SplitHostPort env raw of
                    Some hp \<Rightarrow> hp
                  | None \<Rightarrow> if raw = '''' then ('''', '''') else (raw, ''443''))
      in case env_Parse env raw of
           Some u \<Rightarrow> if url_Hostname u \<noteq> ''''
                     then (url_Hostname u, if url_Port u = '''' then ''443'' else url_Port u)
                     else bare
         | None \<Rightarrow> bare)"

text \<open>The days are the whole days left, as \<open>Hours() / 24\<close> is converted towards zero.\<close>

definition expiryText :: "(time \<Rightarrow> string) \<Rightarrow> time \<Rightarrow> time \<Rightarrow> string" where
  "expiryText FormatDate notAfter now =
     (if \<not> now < notAfter then ''certificate expired on '' @ FormatDate notAfter
      else ''certificate expires in '' @ Itoa (trunc_div (time_Sub notAfter now) (24 * Hour)) @ '' days (''
           @ FormatDate notAfter @ '')'')"

text \<open>The verdict of \<open>leaf.Verify\<close> on a chain, for a host name and a time.\<close>

datatype verify_result = VerifyOK | VerifyExpired | VerifyInvalid string

record tls_env =
  tls_Dial :: "dial_hook \<Rightarrow> string \<times> string \<Rightarrow> (net_err + CertInfo list) \<times> string list"
  tls_Verify :: "time \<Rightarrow> string \<Rightarrow> CertInfo list \<Rightarrow> verify_result"

definition checkSSL_run :: "CheckerConfig \<Rightarrow> check_env \<Rightarrow> tls_env \<Rightarrow> Monitor \<Rightarrow> CheckResult \<times> string list" where
  "checkSSL_run cfg env tls m =
     (let now = env_start env;
          res = (empty_result (mon_ID m))\<lparr>res_CheckedAt := now\<rparr>;
          trunc = truncateText (env_runes env) cfg;
          (host, port) = sslHostPort env (mon_URL m)
      in if host = '''' then (withReason res ReasonConnectionError ''ssl monitor url has no host'', [])
         else case (if cfg_BlockPrivateNetworks cfg then resolveAndCheck (env_LookupIP env) host else None) of
           Some e \<Rightarrow>
             (if isBlockedErr e then withReason res ReasonBlockedTarget ''''
              else withReason res ReasonConnectionError
                     (case e of LookupFailed txt \<Rightarrow> trunc txt | Blocked _ \<Rightarrow> ''''), [])
         | None \<Rightarrow>
             (case tls_Dial tls (dialer_Control cfg env) (host, port) of
                (Inl e, dialled) \<Rightarrow>
                  (withReason res (if isTimeoutErr e then ReasonTimeout else ReasonConnectionError) (trunc (err_text e)), dialled)
              | (Inr certs, dialled) \<Rightarrow>
                  let res1 = res\<lparr>res_LatencyMs := Some (milliseconds (env_elapsed env))\<rparr>
                  in (case certs of
                        [] \<Rightarrow> withReason res1 ReasonConnectionError ''no peer certificate''
                      | leaf # _ \<Rightarrow>
                          let notAfter = cert_NotAfter leaf;
                              res2 = res1\<lparr>res_CertExpiresAt := Some notAfter, res_CertInfo := Some leaf\<rparr>
                          in (case tls_Verify tls now host certs of
                                VerifyExpired \<Rightarrow> withReason res2 ReasonCertExpired (expiryText (env_FormatDate env) notAfter now)
                              | VerifyInvalid txt \<Rightarrow> withReason res2 ReasonCertInvalid (trunc txt)
                              | VerifyOK \<Rightarrow>
                                  if SSLWarnLevel notAfter now \<ge> 1
                                  then withReason res2 ReasonCertExpiringSoon (expiryText (env_FormatDate env) notAfter now)
                                  else res2\<lparr>res_Healthy := True, res_FailureReason := None\<rparr>), dialled)))"

definition checkSSL :: "CheckerConfig \<Rightarrow> check_env \<Rightarrow> tls_env \<Rightarrow> Monitor \<Rightarrow> CheckResult" where
  "checkSSL cfg env tls m = fst (checkSSL_run cfg env tls m)"

definition Check_run :: "CheckerConfig \<Rightarrow> check_env \<Rightarrow> tls_env \<Rightarrow> Monitor \<Rightarrow> bool \<Rightarrow> CheckResult \<times> string list" where
  "Check_run cfg env tls m captureResponse =
     (if mon_Type m = MonitorSSL then checkSSL_run cfg env tls m
      else checkHTTP_run cfg env m captureResponse)"

definition Check :: "CheckerConfig \<Rightarrow> check_env \<Rightarrow> tls_env \<Rightarrow> Monitor \<Rightarrow> bool \<Rightarrow> CheckResult" where
  "Check cfg env tls m captureResponse = fst (Check_run cfg env tls m captureResponse)"

text \<open>What the client answers under the hook of the checker, and the results alone.\<close>

definition client_Do :: "CheckerConfig \<Rightarrow> check_env \<Rightarrow> http_request \<Rightarrow> net_err + http_response" where
  "client_Do cfg env req = fst (env_Do env (dialer_Control cfg env) req)"

lemma Check_cases: "Check cfg env tls m cap = (if mon_Type m = MonitorSSL then checkSSL cfg env tls m else checkHTTP cfg env m cap)"
  by (simp add: Check_def Check_run_def checkSSL_def checkHTTP_def)

lemma checkHTTP_result:
  "checkHTTP cfg env m captureResponse =
     (let res = empty_result (mon_ID m);
          stamped = res\<lparr>res_CheckedAt := env_start env\<rparr>;
          trunc = truncateText (env_runes env) cfg;
          host = hostFromURL (env_Parse env) (mon_URL m)
      in case (if cfg_BlockPrivateNetworks cfg \<and> host \<noteq> '''' then resolveAndCheck (env_LookupIP env) host else None) of
           Some e \<Rightarrow>
             if isBlockedErr e then withReason stamped ReasonBlockedTarget ''''
             else withReason stamped ReasonConnectionError
                    (case e of LookupFailed txt \<Rightarrow> trunc txt | Blocked _ \<Rightarrow> '''')
         | None \<Rightarrow>
             (case env_NewRequest env (check_request m) of
                Some txt \<Rightarrow> withReason stamped ReasonConnectionError (trunc txt)
              | None \<Rightarrow>
                  (case client_Do cfg env (check_request m) of
                     Inl e \<Rightarrow> withReason stamped (if isTimeoutErr e then ReasonTimeout else ReasonConnectionError)
                                (trunc (err_text e))
                   | Inr resp \<Rightarrow>
                       let res1 = stamped\<lparr>res_StatusCode := Some (resp_StatusCode resp)\<rparr>;
                           latency = milliseconds (env_elapsed env);
                           res2 = res1\<lparr>res_LatencyMs := Some latency\<rparr>
                       in if mon_BodyContains m \<noteq> None
                          then (case readBodyCapped (resp_Body resp) (cfg_BodyCapBytes cfg) of
                                  Inl e \<Rightarrow> withReason res2 (if isTimeoutErr e then ReasonTimeout else ReasonConnectionError)
                                             (trunc (err_text e))
                                | Inr b \<Rightarrow> check_response cfg m captureResponse resp (Some b) latency res2)
                          else check_response cfg m captureResponse resp None latency res2)))"
  by (cases "env_Do env (dialer_Control cfg env) (check_request m)")
    (simp add: checkHTTP_def checkHTTP_run_def Let_def client_Do_def split: option.split sum.split)

section \<open>Blocked addresses\<close>

text \<open>The mask \<open>0xf0\<close> of the source is the range 16 to 31: checked on all 256 bytes.\<close>

lemma high_nibble_16: "(b :: 8 word) AND 0xf0 = 16 \<longleftrightarrow> 16 \<le> unat b \<and> unat b \<le> 31"
proof -
  have all: "list_all (\<lambda>n. ((word_of_nat n :: 8 word) AND 0xf0 = 16) = (16 \<le> n \<and> n \<le> 31)) [0..<256]"
    by code_simp
  have "unat b \<in> set [0..<256]" using unsigned_less [of b, where ?'a = nat] by simp
  with all have "((word_of_nat (unat b) :: 8 word) AND 0xf0 = 16) = (16 \<le> unat b \<and> unat b \<le> 31)"
    unfolding list_all_iff by (rule bspec)
  then show ?thesis by simp
qed

definition mapped :: "ip \<Rightarrow> ip" where "mapped v4 = replicate 10 0 @ [255, 255] @ v4"

lemma To4_mapped: "length v4 = 4 \<Longrightarrow> To4 (mapped v4) = Some v4 \<and> To4 v4 = Some v4"
  by (simp add: To4_def mapped_def nth_append)

lemma isBlockedIP_mapped: "length v4 = 4 \<Longrightarrow> isBlockedIP (mapped v4) = isBlockedIP v4"
  using To4_mapped [of v4]
  by (auto simp: isBlockedIP_def IsLoopback_def IsLinkLocalUnicast_def IsLinkLocalMulticast_def IsPrivate_def mapped_def)

text \<open>
  The IPv4 addresses a monitor may not target are exactly 127/8, 10/8, 172.16/12, 192.168/16,
  169.254/16 and 224.0.0/24, in the plain and in the IPv4-mapped IPv6 form.  In particular the
  unspecified address 0.0.0.0, which a Linux host connects to its own loopback, is not
  refused.
\<close>

theorem isBlockedIP_v4_exact:
  "(isBlockedIP [a, b, c, d] \<longleftrightarrow>
      unat a = 127 \<or> unat a = 10 \<or> (unat a = 172 \<and> 16 \<le> unat b \<and> unat b \<le> 31)
      \<or> (unat a = 192 \<and> unat b = 168) \<or> (unat a = 169 \<and> unat b = 254)
      \<or> (unat a = 224 \<and> unat b = 0 \<and> unat c = 0))
   \<and> isBlockedIP (replicate 10 0 @ [255, 255, a, b, c, d]) = isBlockedIP [a, b, c, d]
   \<and> \<not> isBlockedIP [0, 0, 0, 0]"
proof -
  have "isBlockedIP [a, b, c, d] \<longleftrightarrow>
      unat a = 127 \<or> unat a = 10 \<or> (unat a = 172 \<and> 16 \<le> unat b \<and> unat b \<le> 31)
      \<or> (unat a = 192 \<and> unat b = 168) \<or> (unat a = 169 \<and> unat b = 254)
      \<or> (unat a = 224 \<and> unat b = 0 \<and> unat c = 0)"
    unfolding isBlockedIP_def IsLoopback_def IsLinkLocalUnicast_def IsLinkLocalMulticast_def IsPrivate_def To4_def
    by (simp add: high_nibble_16) (auto simp: word_unat_eq_iff)
  moreover have "isBlockedIP (replicate 10 0 @ [255, 255, a, b, c, d]) = isBlockedIP [a, b, c, d]"
    using isBlockedIP_mapped [of "[a, b, c, d]"] by (simp add: mapped_def)
  moreover have "\<not> isBlockedIP [0, 0, 0, 0]"
    by (simp add: isBlockedIP_def IsLoopback_def IsLinkLocalUnicast_def IsLinkLocalMulticast_def IsPrivate_def To4_def)
  ultimately show ?thesis by simp
qed

lemma first_blocked_None: "first_blocked ips = None \<longleftrightarrow> (\<forall>ip \<in> set ips. \<not> isBlockedIP ip)"
  by (induction ips) auto

lemma first_blocked_Some: "first_blocked ips = Some ip \<Longrightarrow> ip \<in> set ips \<and> isBlockedIP ip"
  by (induction ips) (auto split: if_splits)

lemma resolveAndCheck_None:
  "resolveAndCheck L h = None \<longleftrightarrow> (\<exists>ips. L h = Inr ips \<and> (\<forall>ip \<in> set ips. \<not> isBlockedIP ip))"
  by (auto simp: resolveAndCheck_def first_blocked_None split: sum.splits)

lemma resolveAndCheck_blocked:
  "L h = Inr ips \<Longrightarrow> ip \<in> set ips \<Longrightarrow> isBlockedIP ip \<Longrightarrow> \<exists>b. resolveAndCheck L h = Some (Blocked b)"
  using first_blocked_None [of ips] by (auto simp: resolveAndCheck_def)

section \<open>The verdict of a check\<close>

text \<open>
  \<open>guard_passes cfg env host\<close> says that the address guard lets the check of \<open>host\<close> go on;
  a host that the lookup does not know is stopped there as well.
\<close>

definition guard_passes :: "CheckerConfig \<Rightarrow> check_env \<Rightarrow> string \<Rightarrow> bool" where
  "guard_passes cfg env host \<longleftrightarrow>
     (cfg_BlockPrivateNetworks cfg \<and> host \<noteq> '''' \<longrightarrow>
        (\<exists>ips. env_LookupIP env host = Inr ips \<and> (\<forall>ip \<in> set ips. \<not> isBlockedIP ip)))"

definition body_holds :: "CheckerConfig \<Rightarrow> http_response \<Rightarrow> string \<Rightarrow> bool" where
  "body_holds cfg resp sub \<longleftrightarrow>
     (let bytes = fst (resp_Body resp); n = nat (cfg_BodyCapBytes cfg)
      in (snd (resp_Body resp) = None \<or> cfg_BodyCapBytes cfg < int (length bytes))
         \<and> (\<exists>a b. take n bytes = a @ sub @ b))"

lemma withReason_simps [simp]:
  "res_Healthy (withReason r c t) = False"
  "res_FailureReason (withReason r c t) = Some c"
  "res_MonitorID (withReason r c t) = res_MonitorID r"
  "res_StatusCode (withReason r c t) = res_StatusCode r"
  "res_Snapshot (withReason r c t) = res_Snapshot r"
  "res_CertExpiresAt (withReason r c t) = res_CertExpiresAt r"
  "res_CheckedAt (withReason r c t) = res_CheckedAt r"
  by (simp_all add: withReason_def Let_def)

lemma empty_result_simps [simp]:
  "res_MonitorID (empty_result i) = i" "res_Snapshot (empty_result i) = None"
  "res_FailureReason (empty_result i) = None" "res_Healthy (empty_result i) = False"
  "res_StatusCode (empty_result i) = None" "res_CertExpiresAt (empty_result i) = None"
  by (simp_all add: empty_result_def)

lemma fail_with_snapshot_simps [simp]:
  "res_Healthy (fail_with_snapshot cfg resp b cap r c) = False"
  "res_FailureReason (fail_with_snapshot cfg resp b cap r c) = Some c"
  "res_MonitorID (fail_with_snapshot cfg resp b cap r c) = res_MonitorID r"
  "res_Snapshot (fail_with_snapshot cfg resp b cap r c) = (if cap then Some (snapshot cfg resp b) else res_Snapshot r)"
  by (simp_all add: fail_with_snapshot_def)

lemma readBodyCapped_Inr:
  "readBodyCapped body k = Inr (t, tr) \<longleftrightarrow>
     (snd body = None \<or> k < int (length (fst body))) \<and> t = take (nat k) (fst body)
     \<and> tr = (k < int (length (fst body)))"
  by (cases body) (auto simp: readBodyCapped_def split: option.splits)

lemma body_holds_iff:
  "body_holds cfg resp sub \<longleftrightarrow>
     (\<exists>t tr. readBodyCapped (resp_Body resp) (cfg_BodyCapBytes cfg) = Inr (t, tr) \<and> Contains t sub)"
  by (auto simp: body_holds_def readBodyCapped_Inr Contains_iff Let_def)

lemma check_response_healthy:
  "res_Healthy (check_response cfg m cap resp bodyRead latency res) \<longleftrightarrow>
     status_ok m (resp_StatusCode resp)
     \<and> (case mon_MaxLatencyMs m of Some mx \<Rightarrow> latency \<le> mx | None \<Rightarrow> True)
     \<and> (case mon_BodyContains m of None \<Rightarrow> True
        | Some sub \<Rightarrow> Contains (case bodyRead of Some (t, _) \<Rightarrow> t | None \<Rightarrow> '''') sub)"
  by (auto simp: check_response_def Let_def split: option.splits prod.splits)

lemma checkHTTP_healthy:
  "res_Healthy (checkHTTP cfg env m cap) \<longleftrightarrow>
     guard_passes cfg env (hostFromURL (env_Parse env) (mon_URL m))
     \<and> env_NewRequest env (check_request m) = None
     \<and> (\<exists>resp. client_Do cfg env (check_request m) = Inr resp
          \<and> status_ok m (resp_StatusCode resp)
          \<and> (case mon_MaxLatencyMs m of Some mx \<Rightarrow> milliseconds (env_elapsed env) \<le> mx | None \<Rightarrow> True)
          \<and> (case mon_BodyContains m of Some sub \<Rightarrow> body_holds cfg resp sub | None \<Rightarrow> True))"
proof (cases "guard_passes cfg env (hostFromURL (env_Parse env) (mon_URL m))")
  case False
  then have "res_Healthy (checkHTTP cfg env m cap) = False"
    by (auto simp: checkHTTP_result Let_def guard_passes_def resolveAndCheck_None [symmetric] split: option.splits)
  with False show ?thesis by simp
next
  case True
  then have "(if cfg_BlockPrivateNetworks cfg \<and> hostFromURL (env_Parse env) (mon_URL m) \<noteq> ''''
              then resolveAndCheck (env_LookupIP env) (hostFromURL (env_Parse env) (mon_URL m)) else None) = None"
    by (simp add: guard_passes_def resolveAndCheck_None)
  then show ?thesis using True
    by (auto simp: checkHTTP_result Let_def check_response_healthy body_holds_iff
        split: option.splits sum.splits prod.splits)
qed

text \<open>
  C34. An HTTP check is healthy exactly when every condition holds: no resolved address is
  blocked, the request could be built and was answered, the status is an expected one, the
  latency is within the limit, and the body, cut at the cap and read without error, contains the
  text asked for.
\<close>

theorem checkHTTP_healthy_iff:
  "res_Healthy (checkHTTP cfg env m cap) \<longleftrightarrow>
     guard_passes cfg env (hostFromURL (env_Parse env) (mon_URL m))
     \<and> env_NewRequest env (check_request m) = None
     \<and> (\<exists>resp. client_Do cfg env (check_request m) = Inr resp
          \<and> status_ok m (resp_StatusCode resp)
          \<and> (case mon_MaxLatencyMs m of Some mx \<Rightarrow> milliseconds (env_elapsed env) \<le> mx | None \<Rightarrow> True)
          \<and> (case mon_BodyContains m of Some sub \<Rightarrow> body_holds cfg resp sub | None \<Rightarrow> True))"
  by (rule checkHTTP_healthy)

text \<open>
  The documented contract of the hook: it is asked before a connection is made, and an address it refuses is not connected to.
\<close>

definition hook_allows :: "dial_hook \<Rightarrow> string \<Rightarrow> bool" where
  "hook_allows hook a = (case hook of None \<Rightarrow> True | Some ctl \<Rightarrow> ctl a = None)"

definition hook_obeyed :: "check_env \<Rightarrow> tls_env \<Rightarrow> bool" where
  "hook_obeyed env tls \<longleftrightarrow>
     (\<forall>hook req. \<forall>a \<in> set (snd (env_Do env hook req)). hook_allows hook a)
     \<and> (\<forall>hook hp. \<forall>a \<in> set (snd (tls_Dial tls hook hp)). hook_allows hook a)"

lemma dialControl_allows:
  "dialControl split parse a = None \<longleftrightarrow> (\<exists>h p ip. split a = Some (h, p) \<and> parse h = Some ip \<and> \<not> isBlockedIP ip)"
  by (auto simp: dialControl_def split: option.splits prod.splits if_splits)

lemma dials_allowed:
  assumes "hook_obeyed env tls" and "a \<in> set (snd (Check_run cfg env tls m cap))"
  shows "hook_allows (dialer_Control cfg env) a"
proof -
  have "a \<in> set (snd (env_Do env (dialer_Control cfg env) (check_request m)))
      \<or> a \<in> set (snd (tls_Dial tls (dialer_Control cfg env) (sslHostPort env (mon_URL m))))"
    using assms(2)
    by (auto simp: Check_run_def checkSSL_run_def checkHTTP_run_def Let_def split: if_splits option.splits prod.splits sum.splits)
  then show ?thesis using assms(1) unfolding hook_obeyed_def by blast
qed

lemma blocked_lookup_stops:
  assumes "cfg_BlockPrivateNetworks cfg"
    and "host = (if mon_Type m = MonitorSSL then fst (sslHostPort env (mon_URL m)) else hostFromURL (env_Parse env) (mon_URL m))"
    and "host \<noteq> ''''" and "env_LookupIP env host = Inr ips" and "ip \<in> set ips" and "isBlockedIP ip"
  shows "Check_run cfg env tls m cap
    = (withReason ((empty_result (mon_ID m))\<lparr>res_CheckedAt := env_start env\<rparr>) ReasonBlockedTarget '''', [])"
proof -
  obtain b where b: "resolveAndCheck (env_LookupIP env) host = Some (Blocked b)"
    using resolveAndCheck_blocked assms(4-6) by metis
  have blk: "isBlockedErr (Blocked b)" by (simp add: isBlockedErr_def)
  show ?thesis
    using assms(1-3) b blk by (cases "sslHostPort env (mon_URL m)") (auto simp: Check_run_def checkSSL_run_def checkHTTP_run_def)
qed

text \<open>
  C35. With \<open>BlockPrivateNetworks\<close> set (it is off by default), a check connects to no blocked address, whatever the URL, the name server, redirects and the
  server do: every address it connects to (through \<open>net.Dialer\<close>, which asks the hook before it connects) is a literal that is not blocked.  And when one of the addresses of the host
  is blocked at the first lookup, the check of either kind ends as \<open>blocked_target\<close>, without status, certificate, snapshot or any connection.
\<close>

theorem blocked_networks_unreached:
  assumes "cfg_BlockPrivateNetworks cfg" and "hook_obeyed env tls"
    and "host = (if mon_Type m = MonitorSSL then fst (sslHostPort env (mon_URL m)) else hostFromURL (env_Parse env) (mon_URL m))"
  shows "(\<forall>a \<in> set (snd (Check_run cfg env tls m cap)).
       \<exists>h p ip. env_SplitHostPort env a = Some (h, p) \<and> env_ParseIP env h = Some ip \<and> \<not> isBlockedIP ip)
    \<and> (\<forall>ips ip. host \<noteq> '''' \<and> env_LookupIP env host = Inr ips \<and> ip \<in> set ips \<and> isBlockedIP ip \<longrightarrow>
         snd (Check_run cfg env tls m cap) = []
         \<and> res_FailureReason (Check cfg env tls m cap) = Some ReasonBlockedTarget
         \<and> res_StatusCode (Check cfg env tls m cap) = None \<and> res_CertExpiresAt (Check cfg env tls m cap) = None
         \<and> res_Snapshot (Check cfg env tls m cap) = None)"
proof (intro conjI ballI allI impI)
  fix a
  assume "a \<in> set (snd (Check_run cfg env tls m cap))"
  from dials_allowed [OF assms(2) this]
  show "\<exists>h p ip. env_SplitHostPort env a = Some (h, p) \<and> env_ParseIP env h = Some ip \<and> \<not> isBlockedIP ip"
    using assms(1) by (simp add: hook_allows_def dialer_Control_def dialControl_allows)
next
  fix ips ip
  assume "host \<noteq> '''' \<and> env_LookupIP env host = Inr ips \<and> ip \<in> set ips \<and> isBlockedIP ip"
  then have "Check_run cfg env tls m cap
      = (withReason ((empty_result (mon_ID m))\<lparr>res_CheckedAt := env_start env\<rparr>) ReasonBlockedTarget '''', [])"
    using blocked_lookup_stops [OF assms(1,3)] by blast
  then show "snd (Check_run cfg env tls m cap) = []" "res_FailureReason (Check cfg env tls m cap) = Some ReasonBlockedTarget"
    "res_StatusCode (Check cfg env tls m cap) = None" "res_CertExpiresAt (Check cfg env tls m cap) = None"
    "res_Snapshot (Check cfg env tls m cap) = None"
    by (simp_all add: Check_def)
qed

definition ex_checker_config :: CheckerConfig where
  "ex_checker_config = NewConfig \<lparr>cfg_BlockPrivateNetworks = True, cfg_BodyCapBytes = 0, cfg_MaxErrorTextLen = 0\<rparr>"

definition ex_net_err :: net_err where
  "ex_net_err = \<lparr>err_ctx_deadline = False, err_is_deadline = False, err_net_timeout = False, err_text = ''refused''\<rparr>"

definition ex_check_env :: "ip \<Rightarrow> string \<Rightarrow> check_env" where
  "ex_check_env ip body =
     \<lparr>env_Parse = (\<lambda>_. Some \<lparr>url_Scheme = ''https'', url_Host = ''example.com'', url_Hostname = ''example.com'', url_Port = ''''\<rparr>),
      env_SplitHostPort = (\<lambda>a. Some (''10.0.0.1'', ''443'')), env_ParseIP = (\<lambda>_. Some ip),
      env_LookupIP = (\<lambda>_. Inr [ip]), env_runes = map (\<lambda>c. [c]), env_FormatDate = (\<lambda>_. ''2030-01-01''),
      env_start = 5, env_NewRequest = (\<lambda>_. None),
      env_Do = (\<lambda>hook _. if hook_allows hook ''addr''
        then (Inr \<lparr>resp_StatusCode = 200, resp_Header = [], resp_Body = (body, None)\<rparr>, [''addr'']) else (Inl ex_net_err, [])),
      env_elapsed = 7000000\<rparr>"

definition ex_cert :: CertInfo where
  "ex_cert = \<lparr>cert_Subject = ''example.com'', cert_Issuer = ''ca'', cert_NotBefore = 0, cert_NotAfter = 90 * (24 * Hour),
              cert_DNSNames = [''example.com''], cert_Serial = ''1''\<rparr>"

definition ex_tls_env :: tls_env where
  "ex_tls_env = \<lparr>tls_Dial = (\<lambda>hook _. if hook_allows hook ''addr'' then (Inr [ex_cert], [''addr'']) else (Inl ex_net_err, [])), tls_Verify = (\<lambda>now host certs. VerifyOK)\<rparr>"

lemma ex_hook_obeyed: "hook_obeyed (ex_check_env ip body) ex_tls_env"
  by (auto simp: hook_obeyed_def ex_check_env_def ex_tls_env_def)

theorem blocked_networks_unreached_witness:
  "snd (Check_run ex_checker_config (ex_check_env [93, 1, 1, 1] ''ok'') ex_tls_env (ex_monitor 1 MonitorHTTP) True) = [''addr'']
   \<and> \<not> isBlockedIP [93, 1, 1, 1]
   \<and> res_FailureReason (Check ex_checker_config (ex_check_env [127, 0, 0, 1] ''ok'') ex_tls_env (ex_monitor 1 MonitorHTTP) True)
     = Some ReasonBlockedTarget"
proof -
  have open_target: "snd (Check_run ex_checker_config (ex_check_env [93, 1, 1, 1] ''ok'') ex_tls_env (ex_monitor 1 MonitorHTTP) True) = [''addr'']"
    by code_simp
  have flag: "cfg_BlockPrivateNetworks ex_checker_config" by code_simp
  note reached = blocked_networks_unreached [OF flag ex_hook_obeyed, where host = "''example.com''" and m = "ex_monitor 1 MonitorHTTP"]
  have host: "''example.com'' = (if mon_Type (ex_monitor 1 MonitorHTTP) = MonitorSSL
      then fst (sslHostPort (ex_check_env ip ''ok'') (mon_URL (ex_monitor 1 MonitorHTTP)))
      else hostFromURL (env_Parse (ex_check_env ip ''ok'')) (mon_URL (ex_monitor 1 MonitorHTTP)))" for ip
    by (simp add: ex_monitor_def ex_check_env_def hostFromURL_def)
  have "isBlockedIP [127, 0, 0, 1]" by code_simp
  moreover have "\<not> isBlockedIP [93, 1, 1, 1]"
    using conjunct1 [OF reached [OF host, of "[93, 1, 1, 1]" True]] open_target by (simp add: ex_check_env_def)
  ultimately show ?thesis
    using conjunct2 [OF reached [OF host, of "[127, 0, 0, 1]" True]] open_target by (simp add: ex_check_env_def)
qed

lemma snapshot_body: "0 \<le> cfg_BodyCapBytes cfg \<Longrightarrow>
    b = None \<or> (\<exists>t tr. b = Some (t, tr) \<and> readBodyCapped (resp_Body resp) (cfg_BodyCapBytes cfg) = Inr (t, tr)) \<Longrightarrow>
    int (length (snap_Body (snapshot cfg resp b))) \<le> cfg_BodyCapBytes cfg
    \<and> (\<exists>rest. fst (resp_Body resp) = snap_Body (snapshot cfg resp b) @ rest)"
proof -
  assume c: "0 \<le> cfg_BodyCapBytes cfg" and b: "b = None \<or> (\<exists>t tr. b = Some (t, tr) \<and> readBodyCapped (resp_Body resp) (cfg_BodyCapBytes cfg) = Inr (t, tr))"
  then have "snap_Body (snapshot cfg resp b) = '''' \<or> snap_Body (snapshot cfg resp b) = take (nat (cfg_BodyCapBytes cfg)) (fst (resp_Body resp))"
    by (auto simp: snapshot_def readBodyCapped_Inr split: sum.splits)
  with c show ?thesis by (auto intro: exI [of _ "drop (nat (cfg_BodyCapBytes cfg)) (fst (resp_Body resp))"])
qed

text \<open>Every value of the two functions has one of two forms; \<open>P\<close> is shown for each.\<close>

lemma check_response_forms:
  assumes "\<And>c. c \<in> {ReasonStatusMismatch, ReasonLatencyExceeded, ReasonBodyAssertion}
      \<Longrightarrow> P (fail_with_snapshot cfg resp b cap res c)"
    and "P (res\<lparr>res_Healthy := True, res_FailureReason := None\<rparr>)"
  shows "P (check_response cfg m cap resp b l res)"
  unfolding check_response_def Let_def using assms by simp

lemma checkHTTP_forms:
  assumes w: "\<And>r c t. res_Snapshot r = None \<Longrightarrow> res_MonitorID r = mon_ID m \<Longrightarrow> P (withReason r c t)"
    and q: "\<And>resp b r. client_Do cfg env (check_request m) = Inr resp \<Longrightarrow> res_Snapshot r = None \<Longrightarrow> res_MonitorID r = mon_ID m \<Longrightarrow>
        b = None \<or> (\<exists>t tr. b = Some (t, tr) \<and> readBodyCapped (resp_Body resp) (cfg_BodyCapBytes cfg) = Inr (t, tr)) \<Longrightarrow>
        P (check_response cfg m cap resp b (milliseconds (env_elapsed env)) r)"
  shows "P (checkHTTP cfg env m cap)"
  unfolding checkHTTP_result Let_def by (auto split: option.splits sum.splits intro!: w q)

lemma check_response_shape:
  assumes "0 \<le> cfg_BodyCapBytes cfg" and "res_Snapshot res = None"
    and "b = None \<or> (\<exists>t tr. b = Some (t, tr) \<and> readBodyCapped (resp_Body resp) (cfg_BodyCapBytes cfg) = Inr (t, tr))"
  shows "res_MonitorID (check_response cfg m cap resp b l res) = res_MonitorID res
    \<and> (res_Healthy (check_response cfg m cap resp b l res) \<longleftrightarrow> res_FailureReason (check_response cfg m cap resp b l res) = None)
    \<and> (case res_Snapshot (check_response cfg m cap resp b l res) of None \<Rightarrow> True
       | Some sn \<Rightarrow> cap
           \<and> res_FailureReason (check_response cfg m cap resp b l res)
                \<in> {Some ReasonStatusMismatch, Some ReasonLatencyExceeded, Some ReasonBodyAssertion}
           \<and> int (length (snap_Body sn)) \<le> cfg_BodyCapBytes cfg
           \<and> (\<exists>rest. fst (resp_Body resp) = snap_Body sn @ rest))"
  using snapshot_body [OF assms(1,3)] assms(2)
  by (intro check_response_forms [where P = "\<lambda>x. res_MonitorID x = res_MonitorID res
    \<and> (res_Healthy x \<longleftrightarrow> res_FailureReason x = None)
    \<and> (case res_Snapshot x of None \<Rightarrow> True
       | Some sn \<Rightarrow> cap
           \<and> res_FailureReason x \<in> {Some ReasonStatusMismatch, Some ReasonLatencyExceeded, Some ReasonBodyAssertion}
           \<and> int (length (snap_Body sn)) \<le> cfg_BodyCapBytes cfg
           \<and> (\<exists>rest. fst (resp_Body resp) = snap_Body sn @ rest))"]) auto

lemma checkSSL_shape:
  "res_MonitorID (checkSSL cfg env tls m) = mon_ID m
   \<and> (res_Healthy (checkSSL cfg env tls m) \<longleftrightarrow> res_FailureReason (checkSSL cfg env tls m) = None)
   \<and> res_Snapshot (checkSSL cfg env tls m) = None"
  by (cases "sslHostPort env (mon_URL m)")
     (auto simp: checkSSL_def checkSSL_run_def Let_def split: option.splits prod.splits sum.splits list.splits verify_result.splits)

text \<open>
  Every result of a check, of either kind, is of the monitor that was checked, has a failure reason
  exactly when it is not healthy, and carries a snapshot only when the caller asked for one
  and the response itself failed an assertion; the body in it is never longer than the
  cap and is a prefix of the body that arrived.
\<close>

theorem Check_result_shape:
  assumes "0 \<le> cfg_BodyCapBytes cfg"
  shows "res_MonitorID (Check cfg env tls m cap) = mon_ID m
    \<and> (res_Healthy (Check cfg env tls m cap) \<longleftrightarrow> res_FailureReason (Check cfg env tls m cap) = None)
    \<and> (case res_Snapshot (Check cfg env tls m cap) of None \<Rightarrow> True
       | Some sn \<Rightarrow> cap
           \<and> res_FailureReason (Check cfg env tls m cap)
                \<in> {Some ReasonStatusMismatch, Some ReasonLatencyExceeded, Some ReasonBodyAssertion}
           \<and> int (length (snap_Body sn)) \<le> cfg_BodyCapBytes cfg
           \<and> (\<exists>resp rest. client_Do cfg env (check_request m) = Inr resp \<and> fst (resp_Body resp) = snap_Body sn @ rest))"
proof -
  let ?P = "\<lambda>x. res_MonitorID x = mon_ID m
    \<and> (res_Healthy x \<longleftrightarrow> res_FailureReason x = None)
    \<and> (case res_Snapshot x of None \<Rightarrow> True
       | Some sn \<Rightarrow> cap
           \<and> res_FailureReason x \<in> {Some ReasonStatusMismatch, Some ReasonLatencyExceeded, Some ReasonBodyAssertion}
           \<and> int (length (snap_Body sn)) \<le> cfg_BodyCapBytes cfg
           \<and> (\<exists>resp rest. client_Do cfg env (check_request m) = Inr resp \<and> fst (resp_Body resp) = snap_Body sn @ rest))"
  have http: "?P (checkHTTP cfg env m cap)"
  proof (rule checkHTTP_forms)
    fix resp b and r :: CheckResult
    assume h: "client_Do cfg env (check_request m) = Inr resp" "res_Snapshot r = None" "res_MonitorID r = mon_ID m"
      "b = None \<or> (\<exists>t tr. b = Some (t, tr) \<and> readBodyCapped (resp_Body resp) (cfg_BodyCapBytes cfg) = Inr (t, tr))"
    show "?P (check_response cfg m cap resp b (milliseconds (env_elapsed env)) r)"
      using check_response_shape [OF assms h(2,4), of m cap "milliseconds (env_elapsed env)"] h(1,3)
      by (auto split: option.splits)
  qed simp
  show ?thesis
    unfolding Check_cases using http checkSSL_shape [of cfg env tls m] by (cases "mon_Type m = MonitorSSL") simp_all
qed

theorem Check_result_shape_witness:
  "res_MonitorID (Check ex_checker_config (ex_check_env [93, 1, 1, 1] ''ok'') ex_tls_env (ex_monitor 1 MonitorHTTP) True) = 0
   \<and> res_Healthy (Check ex_checker_config (ex_check_env [93, 1, 1, 1] ''ok'') ex_tls_env (ex_monitor 1 MonitorHTTP) True)
   \<and> res_FailureReason (Check ex_checker_config (ex_check_env [93, 1, 1, 1] ''ok'') ex_tls_env (ex_monitor 1 MonitorHTTP) True) = None"
proof -
  have "res_Healthy (Check ex_checker_config (ex_check_env [93, 1, 1, 1] ''ok'') ex_tls_env (ex_monitor 1 MonitorHTTP) True)"
    by code_simp
  then show ?thesis
    using Check_result_shape [of ex_checker_config "ex_check_env [93, 1, 1, 1] ''ok''" ex_tls_env "ex_monitor 1 MonitorHTTP" True]
    by (simp add: ex_checker_config_def NewConfig_def) (simp add: ex_monitor_def)
qed

section \<open>Status code specifications\<close>

text \<open>
  What an entry of the list says, read off its text: three bytes \<open>dxx\<close> stand for the hundred
  \<open>d\<close>, a number for itself.
\<close>

definition entry_says :: "string \<Rightarrow> int \<Rightarrow> bool" where
  "entry_says part code \<longleftrightarrow>
     (\<exists>d \<in> {1..5}. ToLower part = Itoa d @ ''xx'' \<and> 100 * d \<le> code \<and> code \<le> 100 * d + 99)
     \<or> (Atoi part = Some code \<and> 100 \<le> code \<and> code \<le> 599)"

lemma trunc_div_hundred: "1 \<le> d \<Longrightarrow> trunc_div code 100 = d \<longleftrightarrow> 100 * d \<le> code \<and> code \<le> 100 * d + 99"
proof (cases "0 \<le> code")
  case True
  then show ?thesis by (simp add: trunc_div_nonneg) linarith
next
  case False
  assume d: "1 \<le> d"
  have "trunc_div code 100 \<le> 0" using False by (simp add: trunc_div_def pos_imp_zdiv_nonneg_iff)
  with False d show ?thesis by auto
qed

lemma byte_sub_48: "n < 256 \<Longrightarrow> (int n - 48) mod 256 = (if n < 48 then int n + 208 else int n - 48)"
proof (cases "n < 48")
  case True
  then have "(int n - 48) mod 256 = (int n + 208) mod 256" using mod_add_self2 [of "int n - 48" 256] by simp
  with True show ?thesis by simp
qed simp

lemma Itoa_digit: "d \<in> {1..5} \<Longrightarrow> Itoa d = [digit (nat d)]"
  using nat_less_iff [of d 10] by (simp add: Itoa_def nat_str.simps)

lemma byte_digit_iff: "d \<in> {1..5} \<Longrightarrow> byte_digit c = d \<longleftrightarrow> [c] = Itoa d"
proof -
  assume d: "d \<in> {1..5}"
  have b: "(of_char c :: nat) < 256" using of_char_mod_256 [of c, where ?'a = nat] by (metis mod_less_divisor zero_less_numeral)
  have "byte_digit c = d \<longleftrightarrow> (of_char c :: nat) = 48 + nat d"
    unfolding byte_digit_def byte_sub_48 [OF b] using d b by auto
  also have "\<dots> \<longleftrightarrow> of_char c = (of_char (digit (nat d)) :: nat)"
    using d of_char_digit [of "nat d"] nat_less_iff [of d 10] by (simp del: of_char_eq_iff)
  also have "\<dots> \<longleftrightarrow> [c] = Itoa d" using d by (simp add: Itoa_digit)
  finally show ?thesis .
qed

lemma xx_iff: "(length s = 3 \<and> s ! 1 = CHR ''x'' \<and> s ! 2 = CHR ''x'') \<longleftrightarrow> (\<exists>c. s = c # ''xx'')"
  by (auto simp: length_Suc_conv numeral_3_eq_3 numeral_2_eq_2)

lemma Atoi_not_xx: "ToLower s = c # ''xx'' \<Longrightarrow> Atoi s = None"
proof -
  assume h: "ToLower s = c # ''xx''"
  then obtain a b c' where s: "s = [a, b, c']" "to_lower b = CHR ''x''"
    unfolding ToLower_def by (auto simp: map_eq_Cons_conv)
  have "\<not> is_digit b"
  proof
    assume "is_digit b"
    then have "to_lower b = b" by (auto simp: is_digit_def to_lower_def)
    with s \<open>is_digit b\<close> show False by (simp add: is_digit_def)
  qed
  with s show ?thesis by (simp add: Atoi_def parse_digits_def)
qed

lemma parse_entry_Some:
  assumes "parse_entry raw = Some e"
  shows "entry_says (TrimSpace raw) code \<longleftrightarrow>
    (case e of EntryRange d \<Rightarrow> trunc_div code 100 = d | EntryCode k \<Rightarrow> code = k)"
proof (cases "\<exists>c. ToLower (TrimSpace raw) = c # ''xx''")
  case True
  then obtain c where c: "ToLower (TrimSpace raw) = c # ''xx''" by blast
  then have e: "e = EntryRange (byte_digit c)" "byte_digit c \<in> {1..5}"
    using assms by (auto simp: parse_entry_def xx_iff Let_def ToLower_def split: if_splits)
  have "ToLower (TrimSpace raw) = Itoa d @ ''xx'' \<longleftrightarrow> d = byte_digit c" if "d \<in> {1..5}" for d
    using byte_digit_iff [OF that, of c] Itoa_digit [OF that] c by auto
  then show ?thesis
    unfolding entry_says_def using Atoi_not_xx [OF c] e trunc_div_hundred [of "byte_digit c" code] by auto
next
  case False
  then have "ToLower (TrimSpace raw) \<noteq> Itoa d @ ''xx''" if "d \<in> {1..5}" for d
    using Itoa_digit [OF that] by auto
  moreover obtain k where "e = EntryCode k" "Atoi (TrimSpace raw) = Some k" "100 \<le> k" "k \<le> 599"
    using assms False xx_iff [of "ToLower (TrimSpace raw)"]
    by (auto simp: parse_entry_def Let_def split: if_splits option.splits)
  ultimately show ?thesis by (auto simp: entry_says_def)
qed

lemma parse_entry_says: "(\<exists>e. parse_entry raw = Some e) \<longleftrightarrow> (\<exists>c. entry_says (TrimSpace raw) c)"
proof
  assume "\<exists>e. parse_entry raw = Some e"
  then obtain e where e: "parse_entry raw = Some e" by blast
  show "\<exists>c. entry_says (TrimSpace raw) c"
  proof (cases e)
    case (EntryRange d)
    then have "1 \<le> d" using e by (auto simp: parse_entry_def Let_def split: if_splits option.splits)
    then show ?thesis
      using parse_entry_Some [OF e, of "100 * d"] EntryRange trunc_div_hundred [of d "100 * d"] by auto
  next
    case (EntryCode k)
    then show ?thesis using parse_entry_Some [OF e, of k] by auto
  qed
next
  assume "\<exists>c. entry_says (TrimSpace raw) c"
  then obtain code where c: "entry_says (TrimSpace raw) code" by blast
  have ne: "TrimSpace raw \<noteq> ''''"
    using c by (auto simp: entry_says_def ToLower_def Atoi_def)
  from c consider d where "d \<in> {1..5}" "ToLower (TrimSpace raw) = Itoa d @ ''xx''"
    | "Atoi (TrimSpace raw) = Some code" "100 \<le> code" "code \<le> 599"
    unfolding entry_says_def by blast
  then show "\<exists>e. parse_entry raw = Some e"
  proof cases
    case (1 d)
    then have s: "ToLower (TrimSpace raw) = digit (nat d) # ''xx''" by (simp add: Itoa_digit)
    have "byte_digit (digit (nat d)) = d" using byte_digit_iff [OF 1(1)] Itoa_digit [OF 1(1)] by simp
    then show ?thesis using ne s 1(1) by (simp add: parse_entry_def)
  next
    case 2
    then show ?thesis using ne Atoi_not_xx [of "TrimSpace raw"] xx_iff [of "ToLower (TrimSpace raw)"]
      by (auto simp: parse_entry_def Let_def)
  qed
qed

lemma parse_entries_Some:
  "parse_entries raws m = Some m' \<Longrightarrow>
     Matches m' code \<longleftrightarrow> Matches m code \<or> (\<exists>raw \<in> set raws. entry_says (TrimSpace raw) code)"
proof (induction raws arbitrary: m)
  case (Cons raw raws)
  obtain e where e: "parse_entry raw = Some e" using Cons.prems by (auto split: option.splits)
  show ?case
    using Cons.prems Cons.IH e parse_entry_Some [OF e, of code]
    by (cases e) (auto simp: Matches_def)
qed simp

lemma parse_entries_None:
  "parse_entries raws m = None \<longleftrightarrow> (\<exists>raw \<in> set raws. \<not> (\<exists>c. entry_says (TrimSpace raw) c))"
  unfolding parse_entry_says [symmetric]
  by (induction raws arbitrary: m) (auto split: option.splits status_entry.splits)

text \<open>
  A parsed list of expected status codes accepts exactly the codes its entries name: a code is
  healthy if and only if some entry is that number, or is \<open>dxx\<close> for the hundred the code is in.
  A list is refused exactly when it is blank or one of its entries names no code.
\<close>

theorem ParseStatusCodes_spec:
  "case ParseStatusCodes spec of
     Some m \<Rightarrow> TrimSpace spec \<noteq> '''' \<and>
       (Matches m code \<longleftrightarrow> (\<exists>raw \<in> set (Split (CHR '','') (TrimSpace spec)). entry_says (TrimSpace raw) code))
   | None \<Rightarrow> TrimSpace spec = '''' \<or>
       (\<exists>raw \<in> set (Split (CHR '','') (TrimSpace spec)). \<not> (\<exists>c. entry_says (TrimSpace raw) c))"
  using parse_entries_None parse_entries_Some
  by (auto simp: ParseStatusCodes_def Let_def Matches_def split: option.splits)

section \<open>Certificate checks\<close>

lemma SSLWarnLevel_ge_1: "1 \<le> SSLWarnLevel e now \<longleftrightarrow> now < e \<and> e - now \<le> 7 * (24 * Hour)"
  by (auto simp: SSLWarnLevel_cases duration_defs)

text \<open>
  A certificate check is healthy exactly when a host was given and is not blocked, the handshake
  gave a chain that verifies, and its leaf is valid for more than seven days from now.  The
  chain verifier is assumed to accept no leaf outside its validity period, both ends included,
  and the one remaining case is the instant \<open>NotAfter\<close> itself, where the warning level is already
  that of an expired certificate and the check is healthy.
\<close>

theorem checkSSL_healthy_iff:
  assumes valid: "\<And>now host leaf chain. tls_Verify tls now host (leaf # chain) = VerifyOK \<Longrightarrow>
      cert_NotBefore leaf \<le> now \<and> now \<le> cert_NotAfter leaf"
  shows "res_Healthy (checkSSL cfg env tls m) \<longleftrightarrow>
     fst (sslHostPort env (mon_URL m)) \<noteq> ''''
     \<and> guard_passes cfg env (fst (sslHostPort env (mon_URL m)))
     \<and> (\<exists>leaf chain. fst (tls_Dial tls (dialer_Control cfg env) (sslHostPort env (mon_URL m))) = Inr (leaf # chain)
          \<and> tls_Verify tls (env_start env) (fst (sslHostPort env (mon_URL m))) (leaf # chain) = VerifyOK
          \<and> (env_start env + 7 * (24 * Hour) < cert_NotAfter leaf \<or> env_start env = cert_NotAfter leaf))"
proof -
  obtain host port where hp: "sslHostPort env (mon_URL m) = (host, port)" by fastforce
  define refused where "refused = (if cfg_BlockPrivateNetworks cfg then resolveAndCheck (env_LookupIP env) host else None)"
  have g: "refused = None \<longleftrightarrow> guard_passes cfg env host" if "host \<noteq> ''''"
    using that by (simp add: refused_def guard_passes_def resolveAndCheck_None)
  have window: "\<not> 1 \<le> SSLWarnLevel (cert_NotAfter leaf) (env_start env) \<longleftrightarrow>
      env_start env + 7 * (24 * Hour) < cert_NotAfter leaf \<or> env_start env = cert_NotAfter leaf"
    if "tls_Verify tls (env_start env) host (leaf # chain) = VerifyOK" for leaf chain
    using valid [OF that] by (auto simp: SSLWarnLevel_ge_1 duration_defs)
  show ?thesis
  proof (cases "host = '''' \<or> refused \<noteq> None")
    case True
    then have "\<not> res_Healthy (checkSSL cfg env tls m)"
      by (auto simp: checkSSL_def checkSSL_run_def hp refused_def Let_def split: if_splits)
    with True hp g show ?thesis by auto
  next
    case False
    then have "res_Healthy (checkSSL cfg env tls m) \<longleftrightarrow>
        (\<exists>leaf chain. fst (tls_Dial tls (dialer_Control cfg env) (host, port)) = Inr (leaf # chain) \<and> tls_Verify tls (env_start env) host (leaf # chain) = VerifyOK
          \<and> \<not> 1 \<le> SSLWarnLevel (cert_NotAfter leaf) (env_start env))"
      by (auto simp: checkSSL_def checkSSL_run_def hp refused_def [symmetric] Let_def
          split: prod.split sum.split list.split verify_result.split)
    also have "\<dots> \<longleftrightarrow> (\<exists>leaf chain. fst (tls_Dial tls (dialer_Control cfg env) (host, port)) = Inr (leaf # chain) \<and> tls_Verify tls (env_start env) host (leaf # chain) = VerifyOK
          \<and> (env_start env + 7 * (24 * Hour) < cert_NotAfter leaf \<or> env_start env = cert_NotAfter leaf))"
      using window by (metis (no_types))
    finally show ?thesis using False hp g by simp
  qed
qed

definition ex_verify :: "time \<Rightarrow> string \<Rightarrow> CertInfo list \<Rightarrow> verify_result" where
  "ex_verify now host certs =
     (case certs of [] \<Rightarrow> VerifyInvalid ''no leaf''
      | leaf # _ \<Rightarrow> if cert_NotBefore leaf \<le> now \<and> now \<le> cert_NotAfter leaf then VerifyOK else VerifyExpired)"

theorem checkSSL_healthy_iff_witness:
  "res_Healthy (checkSSL ex_checker_config (ex_check_env [93, 1, 1, 1] '''') (ex_tls_env\<lparr>tls_Verify := ex_verify\<rparr>)
     (ex_monitor 1 MonitorSSL))"
proof -
  have v: "ex_verify now host (leaf # chain) = VerifyOK \<Longrightarrow> cert_NotBefore leaf \<le> now \<and> now \<le> cert_NotAfter leaf"
    for now host leaf chain by (auto simp: ex_verify_def split: if_splits)
  have "ex_verify 5 h [ex_cert] = VerifyOK" for h by (simp add: ex_verify_def ex_cert_def duration_defs)
  moreover have "5 + 7 * (24 * Hour) < cert_NotAfter ex_cert" by (simp add: ex_cert_def duration_defs)
  moreover have "\<not> isBlockedIP [93, 1, 1, 1]"
    by (simp add: isBlockedIP_def IsLoopback_def To4_def IsLinkLocalUnicast_def IsLinkLocalMulticast_def IsPrivate_def)
  ultimately show ?thesis
    using checkSSL_healthy_iff [of "ex_tls_env\<lparr>tls_Verify := ex_verify\<rparr>" ex_checker_config "ex_check_env [93, 1, 1, 1] ''''"
        "ex_monitor 1 MonitorSSL"] v
    by (simp add: ex_tls_env_def ex_check_env_def sslHostPort_def guard_passes_def dialer_Control_def hook_allows_def dialControl_allows)
qed

end
