(* ===== verification/Pulse_KV.thy ===== *)
theory Pulse_KV
  imports Pulse_Prelude
begin

text \<open>
  The shared key-value store, \<open>internal/kv/kv.go\<close>: thin wrappers of Redis commands, modelled
  with the documented meaning of the commands on a table of keys.  A key holds a string or a hash
  and may have an instant of expiry, from which on it is absent.  Every command can fail in two
  ways, before it is executed or by a lost reply after it.

  \<open>once_store\<close> is the interface the clients rely on: a key that was claimed stays claimed
  until its time is over.  \<open>SetIfAbsent\<close> provides it; the manual-check cooldown and the
  notification dedup are its clients.
\<close>

section \<open>The store\<close>

datatype kv_value = KvString string | KvHash "(string \<times> string) list"

type_synonym kv = "string \<rightharpoonup> (kv_value \<times> time option)"

datatype kv_fault = KvOk | KvLost | KvReplyLost

datatype kv_error = KvConn | KvWrongType | KvNotInteger

text \<open>A command: its reply and the store after it, under a fault.\<close>

definition kv_command :: "kv_fault \<Rightarrow> (kv \<Rightarrow> (kv_error + 'a) \<times> kv) \<Rightarrow> kv \<Rightarrow> (kv_error + 'a) \<times> kv" where
  "kv_command f cmd s =
     (case f of
        KvOk \<Rightarrow> cmd s
      | KvLost \<Rightarrow> (Inl KvConn, s)
      | KvReplyLost \<Rightarrow> (Inl KvConn, snd (cmd s)))"

definition kv_live :: "time \<Rightarrow> kv \<Rightarrow> string \<Rightarrow> (kv_value \<times> time option) option" where
  "kv_live now s k =
     (case s k of
        None \<Rightarrow> None
      | Some (v, None) \<Rightarrow> Some (v, None)
      | Some (v, Some e) \<Rightarrow> if now < e then Some (v, Some e) else None)"

text \<open>A zero duration sets no expiry.\<close>

definition kv_expiry :: "time \<Rightarrow> duration \<Rightarrow> time option" where
  "kv_expiry now ttl = (if ttl = 0 then None else Some (now + ttl))"

section \<open>Commands\<close>

definition SetIfAbsent :: "kv_fault \<Rightarrow> time \<Rightarrow> string \<Rightarrow> string \<Rightarrow> duration \<Rightarrow> kv \<Rightarrow> (kv_error + bool) \<times> kv" where
  "SetIfAbsent f now k v ttl = kv_command f (\<lambda>s.
     if kv_live now s k \<noteq> None then (Inr False, s)
     else (Inr True, s(k \<mapsto> (KvString v, kv_expiry now ttl))))"

definition AcquireLock :: "kv_fault \<Rightarrow> time \<Rightarrow> string \<Rightarrow> string \<Rightarrow> duration \<Rightarrow> kv \<Rightarrow> (kv_error + bool) \<times> kv" where
  "AcquireLock f now k token ttl = kv_command f (\<lambda>s.
     if kv_live now s k \<noteq> None then (Inr False, s)
     else (Inr True, s(k \<mapsto> (KvString token, kv_expiry now ttl))))"

text \<open>The release script: one atomic compare and delete.\<close>

definition ReleaseLock :: "kv_fault \<Rightarrow> time \<Rightarrow> string \<Rightarrow> string \<Rightarrow> kv \<Rightarrow> (kv_error + unit) \<times> kv" where
  "ReleaseLock f now k token = kv_command f (\<lambda>s.
     case kv_live now s k of
       Some (KvHash _, _) \<Rightarrow> (Inl KvWrongType, s)
     | Some (KvString v, _) \<Rightarrow> if v = token then (Inr (), s(k := None)) else (Inr (), s)
     | None \<Rightarrow> (Inr (), s))"

text \<open>
  \<open>TTL\<close> replies in whole seconds, rounded to the nearest; -1 without expiry, -2 without key, which the
  client library hands on as that many nanoseconds.
\<close>

definition kv_TTL :: "kv_fault \<Rightarrow> time \<Rightarrow> string \<Rightarrow> kv \<Rightarrow> (kv_error + duration) \<times> kv" where
  "kv_TTL f now k = kv_command f (\<lambda>s.
     (Inr (case kv_live now s k of
             None \<Rightarrow> - 2
           | Some (_, None) \<Rightarrow> - 1
           | Some (_, Some e) \<Rightarrow> (((e - now) div 1000000 + 500) div 1000) * Second), s))"

definition Incr :: "kv_fault \<Rightarrow> time \<Rightarrow> string \<Rightarrow> kv \<Rightarrow> (kv_error + int) \<times> kv" where
  "Incr f now k = kv_command f (\<lambda>s.
     case kv_live now s k of
       None \<Rightarrow> (Inr 1, s(k \<mapsto> (KvString (Itoa 1), None)))
     | Some (KvHash _, _) \<Rightarrow> (Inl KvWrongType, s)
     | Some (KvString v, e) \<Rightarrow>
         (case Atoi v of
            None \<Rightarrow> (Inl KvNotInteger, s)
          | Some n \<Rightarrow> if n = 2 ^ 63 - 1 then (Inl KvNotInteger, s)
                      else (Inr (n + 1), s(k \<mapsto> (KvString (Itoa (n + 1)), e)))))"

definition Expire :: "kv_fault \<Rightarrow> time \<Rightarrow> string \<Rightarrow> duration \<Rightarrow> kv \<Rightarrow> (kv_error + unit) \<times> kv" where
  "Expire f now k ttl = kv_command f (\<lambda>s.
     (Inr (), case kv_live now s k of
                None \<Rightarrow> s
              | Some (v, _) \<Rightarrow> s(k \<mapsto> (v, Some (now + ttl)))))"

definition HSet :: "kv_fault \<Rightarrow> time \<Rightarrow> string \<Rightarrow> string \<Rightarrow> string \<Rightarrow> kv \<Rightarrow> (kv_error + unit) \<times> kv" where
  "HSet f now k fld v = kv_command f (\<lambda>s.
     case kv_live now s k of
       None \<Rightarrow> (Inr (), s(k \<mapsto> (KvHash [(fld, v)], None)))
     | Some (KvString _, _) \<Rightarrow> (Inl KvWrongType, s)
     | Some (KvHash h, e) \<Rightarrow> (Inr (), s(k \<mapsto> (KvHash (set_field fld v h), e))))"

definition hash_of :: "time \<Rightarrow> kv \<Rightarrow> string \<Rightarrow> kv_error + (string \<times> string) list" where
  "hash_of now s k =
     (case kv_live now s k of
        None \<Rightarrow> Inr []
      | Some (KvString _, _) \<Rightarrow> Inl KvWrongType
      | Some (KvHash h, _) \<Rightarrow> Inr h)"

definition HGetAll :: "kv_fault \<Rightarrow> time \<Rightarrow> string \<Rightarrow> kv \<Rightarrow> (kv_error + (string \<times> string) list) \<times> kv" where
  "HGetAll f now k = kv_command f (\<lambda>s. (hash_of now s k, s))"

text \<open>A pipeline of reads: the first failing one fails the whole; a key asked for twice is in the map once.\<close>

fun hashes_of :: "time \<Rightarrow> kv \<Rightarrow> string list \<Rightarrow> kv_error + (string \<times> (string \<times> string) list) list" where
  "hashes_of now s [] = Inr []"
| "hashes_of now s (k # ks) =
     (case hash_of now s k of
        Inl e \<Rightarrow> Inl e
      | Inr h \<Rightarrow> (case hashes_of now s ks of Inl e \<Rightarrow> Inl e | Inr hs \<Rightarrow> Inr ((k, h) # hs)))"

definition HGetAllMulti :: "kv_fault \<Rightarrow> time \<Rightarrow> string list \<Rightarrow> kv
    \<Rightarrow> (kv_error + (string \<times> (string \<times> string) list) list) \<times> kv" where
  "HGetAllMulti f now ks = kv_command f (\<lambda>s. (hashes_of now s (remdups ks), s))"

definition GetCache :: "kv_fault \<Rightarrow> time \<Rightarrow> string \<Rightarrow> kv \<Rightarrow> (kv_error + string option) \<times> kv" where
  "GetCache f now k = kv_command f (\<lambda>s.
     case kv_live now s k of
       None \<Rightarrow> (Inr None, s)
     | Some (KvString v, _) \<Rightarrow> (Inr (Some v), s)
     | Some (KvHash _, _) \<Rightarrow> (Inl KvWrongType, s))"

definition SetCache :: "kv_fault \<Rightarrow> time \<Rightarrow> string \<Rightarrow> string \<Rightarrow> duration \<Rightarrow> kv \<Rightarrow> (kv_error + unit) \<times> kv" where
  "SetCache f now k v ttl = kv_command f (\<lambda>s. (Inr (), s(k \<mapsto> (KvString v, kv_expiry now ttl))))"

definition DelCache :: "kv_fault \<Rightarrow> string \<Rightarrow> kv \<Rightarrow> (kv_error + unit) \<times> kv" where
  "DelCache f k = kv_command f (\<lambda>s. (Inr (), s(k := None)))"

definition GetDelCache :: "kv_fault \<Rightarrow> time \<Rightarrow> string \<Rightarrow> kv \<Rightarrow> (kv_error + string option) \<times> kv" where
  "GetDelCache f now k = kv_command f (\<lambda>s.
     case kv_live now s k of
       None \<Rightarrow> (Inr None, s)
     | Some (KvString v, _) \<Rightarrow> (Inr (Some v), s(k := None))
     | Some (KvHash _, _) \<Rightarrow> (Inl KvWrongType, s))"

lemmas kv_defs = kv_command_def SetIfAbsent_def kv_TTL_def Incr_def Expire_def HSet_def HGetAll_def
  GetCache_def SetCache_def DelCache_def GetDelCache_def AcquireLock_def ReleaseLock_def

section \<open>Laws\<close>

lemma kv_live_upd [simp]:
  "kv_live now (s(k \<mapsto> (v, e))) k' =
     (if k' = k then (case e of None \<Rightarrow> Some (v, None) | Some t \<Rightarrow> if now < t then Some (v, Some t) else None)
      else kv_live now s k')"
  by (simp add: kv_live_def split: option.split)

lemma kv_live_del [simp]: "kv_live now (s(k := None)) k' = (if k' = k then None else kv_live now s k')"
  by (simp add: kv_live_def)

lemma kv_live_mono: "kv_live later s k = Some ve \<Longrightarrow> now \<le> later \<Longrightarrow> kv_live now s k = Some ve"
  by (auto simp: kv_live_def split: option.splits prod.splits if_splits)

lemma kv_live_expiry: "kv_live now s k = Some (v, Some e) \<Longrightarrow> now < e"
  by (auto simp: kv_live_def split: option.splits prod.splits if_splits)

lemma kv_live_at: "s k = Some (v, Some e) \<Longrightarrow> kv_live now s k \<noteq> None \<longleftrightarrow> now < e"
  by (simp add: kv_live_def)

section \<open>Claims\<close>

text \<open>
  A store of claims.  \<open>claim now k s\<close> tries to claim \<open>k\<close> for the time \<open>ttl\<close> and answers whether it was
  first; \<open>held_until s k e\<close> says that \<open>k\<close> is taken until \<open>e\<close>.
\<close>

locale once_store =
  fixes ttl :: duration
    and claim :: "time \<Rightarrow> 'k \<Rightarrow> 's \<Rightarrow> bool \<times> 's"
    and held_until :: "'s \<Rightarrow> 'k \<Rightarrow> time \<Rightarrow> bool"
  assumes claim_first: "claim now k s = (True, s') \<Longrightarrow> 0 < ttl \<Longrightarrow> held_until s' k (now + ttl)"
    and claim_held: "held_until s k e \<Longrightarrow> now < e \<Longrightarrow> claim now k s = (False, s)"
    and claim_frame: "claim now k s = (b, s') \<Longrightarrow> k' \<noteq> k \<Longrightarrow> held_until s k' e \<Longrightarrow> held_until s' k' e"
begin

text \<open>A run of claims: the instants and keys, and the answers.\<close>

fun claims :: "(time \<times> 'k) list \<Rightarrow> 's \<Rightarrow> bool list \<times> 's" where
  "claims [] s = ([], s)"
| "claims ((now, k) # cs) s =
     (case claim now k s of (b, s1) \<Rightarrow> case claims cs s1 of (bs, s2) \<Rightarrow> (b # bs, s2))"

lemma claims_held:
  assumes "held_until s k e" and "\<forall>(t, k') \<in> set cs. k' = k \<longrightarrow> t < e"
  shows "\<forall>i < length cs. snd (cs ! i) = k \<longrightarrow> \<not> fst (claims cs s) ! i"
  using assms
proof (induction cs arbitrary: s)
  case (Cons c cs)
  obtain t k' where c: "c = (t, k')" by fastforce
  obtain b s1 where b: "claim t k' s = (b, s1)" by fastforce
  obtain bs s2 where bs: "claims cs s1 = (bs, s2)" by fastforce
  have h1: "held_until s1 k e" and nb: "k' = k \<longrightarrow> \<not> b"
    using Cons.prems c b claim_held [of s k e t] claim_frame [OF b, of k e] by (cases "k' = k"; auto)+
  have "\<forall>i < length cs. snd (cs ! i) = k \<longrightarrow> \<not> bs ! i"
    using Cons.IH [OF h1] Cons.prems(2) bs by simp
  with nb show ?case by (auto simp: c b bs nth_Cons split: nat.split)
qed simp

text \<open>After a first claim no claim of the same key is first again before the time is over.\<close>

lemma first_once:
  assumes "claim now k s = (True, s1)" and "0 < ttl"
    and "\<forall>(t, k') \<in> set cs. k' = k \<longrightarrow> t < now + ttl"
  shows "\<forall>i < length cs. snd (cs ! i) = k \<longrightarrow> \<not> fst (claims cs s1) ! i"
  using claims_held [OF claim_first [OF assms(1,2)] assms(3)] .

end

text \<open>\<open>SetIfAbsent\<close> without a fault, its reply read as the answer.\<close>

definition set_once :: "duration \<Rightarrow> time \<Rightarrow> string \<Rightarrow> kv \<Rightarrow> bool \<times> kv" where
  "set_once ttl now k s =
     (case SetIfAbsent KvOk now k ''1'' ttl s of (Inr b, s') \<Rightarrow> (b, s') | (Inl _, s') \<Rightarrow> (False, s'))"

definition kv_held_until :: "kv \<Rightarrow> string \<Rightarrow> time \<Rightarrow> bool" where
  "kv_held_until s k e \<longleftrightarrow> (\<exists>v. s k = Some (v, Some e))"

interpretation kv_once: once_store ttl "set_once ttl" kv_held_until for ttl
proof unfold_locales
  fix now k s s'
  assume "set_once ttl now k s = (True, s')" and "0 < ttl"
  then show "kv_held_until s' k (now + ttl)"
    by (auto simp: set_once_def kv_defs kv_held_until_def kv_expiry_def split: if_splits)
next
  fix s k e now
  assume "kv_held_until s k e" and "now < e"
  then show "set_once ttl now k s = (False, s)"
    by (auto simp: set_once_def kv_defs kv_held_until_def kv_live_def)
next
  fix now k s b s' k' e
  assume "set_once ttl now k s = (b, s')" and "k' \<noteq> k" and "kv_held_until s k' e"
  then show "kv_held_until s' k' e"
    by (auto simp: set_once_def kv_defs kv_held_until_def split: if_splits)
qed

end
