(* ===== verification/Pulse_Crypto.thy ===== *)
theory Pulse_Crypto
  imports Pulse_Prelude
begin

text \<open>
  Secret fields, \<open>internal/crypto/crypto.go\<close>.  The base64 encodings of the standard library
  are written out, on byte strings.  The AEAD is a pair of arguments, \<open>Seal\<close> and \<open>Open\<close> of
  a nonce, with the law that \<open>Open\<close> undoes \<open>Seal\<close> under the same nonce; SHA-256 is an
  argument too.  Random bytes are an argument, absent when the system source fails.
\<close>

section \<open>Base64\<close>

definition std_alphabet :: string where
  "std_alphabet = ''ABCDEFGHIJKLMNOPQRSTUVWXYZabcdefghijklmnopqrstuvwxyz0123456789+/''"

definition url_alphabet :: string where
  "url_alphabet = ''ABCDEFGHIJKLMNOPQRSTUVWXYZabcdefghijklmnopqrstuvwxyz0123456789-_''"

abbreviation byte :: "char \<Rightarrow> nat" where "byte c \<equiv> of_char c"

text \<open>\<open>pad\<close> is the padding behind an incomplete last group, empty for the raw encodings.\<close>

fun b64_encode :: "string \<Rightarrow> string \<Rightarrow> string \<Rightarrow> string" where
  "b64_encode alpha pad [] = []"
| "b64_encode alpha pad [a] =
     [alpha ! (byte a div 4), alpha ! (byte a mod 4 * 16)] @ pad @ pad"
| "b64_encode alpha pad [a, b] =
     [alpha ! (byte a div 4), alpha ! (byte a mod 4 * 16 + byte b div 16), alpha ! (byte b mod 16 * 4)] @ pad"
| "b64_encode alpha pad (a # b # c # rest) =
     [alpha ! (byte a div 4), alpha ! (byte a mod 4 * 16 + byte b div 16),
      alpha ! (byte b mod 16 * 4 + byte c div 64), alpha ! (byte c mod 64)] @ b64_encode alpha pad rest"

definition StdEncoding_Encode :: "string \<Rightarrow> string" where
  "StdEncoding_Encode = b64_encode std_alphabet ''=''"

definition RawURLEncoding_Encode :: "string \<Rightarrow> string" where
  "RawURLEncoding_Encode = b64_encode url_alphabet ''''"

fun index_of :: "char \<Rightarrow> string \<Rightarrow> nat option" where
  "index_of c [] = None"
| "index_of c (d # ds) = (if c = d then Some 0 else map_option Suc (index_of c ds))"

definition b64_value :: "char \<Rightarrow> nat option" where "b64_value c = index_of c std_alphabet"

text \<open>
  The decoder skips line breaks, takes groups of four, accepts padding in the last group only,
  and does not look at the unused bits of an incomplete group.
\<close>

fun b64_groups :: "string \<Rightarrow> string option" where
  "b64_groups [] = Some []"
| "b64_groups (w # x # y # z # rest) =
     (case (b64_value w, b64_value x) of
        (Some i, Some j) \<Rightarrow>
          (if y = CHR ''='' \<and> z = CHR ''='' then
             (if rest = [] then Some [char_of (i * 4 + j div 16)] else None)
           else case b64_value y of
             None \<Rightarrow> None
           | Some k \<Rightarrow>
               (if z = CHR ''='' then
                  (if rest = [] then Some [char_of (i * 4 + j div 16), char_of (j mod 16 * 16 + k div 4)] else None)
                else case b64_value z of
                  None \<Rightarrow> None
                | Some l \<Rightarrow>
                    map_option (\<lambda>bs. [char_of (i * 4 + j div 16), char_of (j mod 16 * 16 + k div 4),
                                      char_of (k mod 4 * 64 + l)] @ bs) (b64_groups rest)))
      | _ \<Rightarrow> None)"
| "b64_groups _ = None"

definition StdEncoding_Decode :: "string \<Rightarrow> string option" where
  "StdEncoding_Decode s = b64_groups (filter (\<lambda>c. c \<noteq> char_of (10 :: nat) \<and> c \<noteq> char_of (13 :: nat)) s)"

lemma byte_less [simp]: "byte c < 256"
  using of_char_mod_256 [of c, where ?'a = nat] by (metis mod_less_divisor zero_less_numeral)

lemma byte_char_of [simp]: "char_of (byte c) = c"
  by simp

lemma std_alphabet_facts:
  "list_all (\<lambda>n. b64_value (std_alphabet ! n) = Some n \<and> std_alphabet ! n \<noteq> CHR ''=''
      \<and> std_alphabet ! n \<noteq> char_of (10 :: nat) \<and> std_alphabet ! n \<noteq> char_of (13 :: nat)) [0..<64]"
  by code_simp

lemma std_alphabet_nth:
  assumes "n < 64"
  shows "b64_value (std_alphabet ! n) = Some n" "std_alphabet ! n \<noteq> CHR ''=''"
    "std_alphabet ! n \<noteq> char_of (10 :: nat)" "std_alphabet ! n \<noteq> char_of (13 :: nat)"
proof -
  have "n \<in> set [0..<64]" using assms by simp
  with std_alphabet_facts
  have "b64_value (std_alphabet ! n) = Some n \<and> std_alphabet ! n \<noteq> CHR ''=''
      \<and> std_alphabet ! n \<noteq> char_of (10 :: nat) \<and> std_alphabet ! n \<noteq> char_of (13 :: nat)"
    unfolding list_all_iff by (rule bspec)
  then show "b64_value (std_alphabet ! n) = Some n" "std_alphabet ! n \<noteq> CHR ''=''"
    "std_alphabet ! n \<noteq> char_of (10 :: nat)" "std_alphabet ! n \<noteq> char_of (13 :: nat)" by blast+
qed

text \<open>The digits of a group are below 64.\<close>

lemma b64_digits:
  "byte a div 4 < 64" "byte a mod 4 * 16 < 64" "byte a mod 4 * 16 + byte b div 16 < 64"
  "byte b mod 16 * 4 < 64" "byte b mod 16 * 4 + byte c div 64 < 64" "byte c mod 64 < 64"
proof -
  have "byte a div 4 < 64" "byte b div 16 < 16" "byte c div 64 < 4"
    using byte_less [of a] byte_less [of b] byte_less [of c] by linarith+
  moreover have "byte a mod 4 < 4" "byte b mod 16 < 16" "byte c mod 64 < 64" by simp_all
  ultimately show "byte a div 4 < 64" "byte a mod 4 * 16 < 64" "byte a mod 4 * 16 + byte b div 16 < 64"
    "byte b mod 16 * 4 < 64" "byte b mod 16 * 4 + byte c div 64 < 64" "byte c mod 64 < 64"
    by linarith+
qed

lemma b64_small: "byte b div 16 div 16 = 0" "byte b div 16 mod 16 = byte b div 16"
  "byte b div 64 div 4 = 0" "byte b div 64 mod 4 = byte b div 64"
proof -
  have "byte b div 16 < 16" "byte b div 64 < 4" using byte_less [of b] by linarith+
  then show "byte b div 16 div 16 = 0" "byte b div 16 mod 16 = byte b div 16"
    "byte b div 64 div 4 = 0" "byte b div 64 mod 4 = byte b div 64" by simp_all
qed

lemma pad_no_break: "CHR ''='' \<noteq> char_of (10 :: nat)" "CHR ''='' \<noteq> char_of (13 :: nat)"
  by code_simp+

lemma b64_encode_no_breaks:
  "c \<in> set (b64_encode std_alphabet ''='' bs) \<Longrightarrow> c \<noteq> char_of (10 :: nat) \<and> c \<noteq> char_of (13 :: nat)"
proof (induction std_alphabet "''=''" bs rule: b64_encode.induct)
  case (4 a b c' rest)
  then show ?case by (auto simp: std_alphabet_nth b64_digits)
qed (auto simp: std_alphabet_nth b64_digits pad_no_break)

lemma b64_groups_encode: "b64_groups (b64_encode std_alphabet ''='' bs) = Some bs"
proof (induction std_alphabet "''=''" bs rule: b64_encode.induct)
  case (2 a)
  then show ?case by (simp add: std_alphabet_nth b64_digits)
next
  case (3 a b)
  then show ?case by (simp add: std_alphabet_nth b64_digits b64_small)
next
  case (4 a b c rest)
  then show ?case by (simp add: std_alphabet_nth b64_digits b64_small)
qed simp

lemma StdEncoding_Decode_Encode: "StdEncoding_Decode (StdEncoding_Encode bs) = Some bs"
proof -
  have "filter (\<lambda>c. c \<noteq> char_of (10 :: nat) \<and> c \<noteq> char_of (13 :: nat)) (StdEncoding_Encode bs) = StdEncoding_Encode bs"
    unfolding StdEncoding_Encode_def by (rule filter_True) (use b64_encode_no_breaks in blast)
  then show ?thesis by (simp add: StdEncoding_Decode_def StdEncoding_Encode_def b64_groups_encode)
qed

section \<open>Tokens\<close>

definition NewOpaqueToken :: "string option \<Rightarrow> string option" where
  "NewOpaqueToken random32 = map_option RawURLEncoding_Encode random32"

lemma b64_encode_ne: "bs \<noteq> [] \<Longrightarrow> b64_encode alpha pad bs \<noteq> []"
  by (induction alpha pad bs rule: b64_encode.induct) simp_all

text \<open>\<open>HashToken\<close> is the hex text of the SHA-256 sum.\<close>

definition hex_digit :: "nat \<Rightarrow> char" where
  "hex_digit n = ''0123456789abcdef'' ! n"

definition hex_encode :: "string \<Rightarrow> string" where
  "hex_encode bs = concat (map (\<lambda>b. [hex_digit (byte b div 16), hex_digit (byte b mod 16)]) bs)"

definition HashToken :: "(string \<Rightarrow> string) \<Rightarrow> string \<Rightarrow> string" where
  "HashToken sha256 token = hex_encode (sha256 token)"

section \<open>The cipher\<close>

datatype crypto_error =
    KeyEmpty | KeyNotBase64 | KeyLength int | NoRandom | TextNotBase64 | TextTooShort | NotAuthentic

text \<open>
  \<open>LoadKey\<close>: the AES and GCM constructors accept every key of 32 bytes, so the result is the
  AEAD of the key.
\<close>

record aead =
  aead_Seal :: "string \<Rightarrow> string \<Rightarrow> string"
  aead_Open :: "string \<Rightarrow> string \<Rightarrow> string option"

definition LoadKey :: "(string \<Rightarrow> aead) \<Rightarrow> string \<Rightarrow> crypto_error + aead" where
  "LoadKey newGCM b64 =
     (if b64 = [] then Inl KeyEmpty
      else case StdEncoding_Decode b64 of
             None \<Rightarrow> Inl KeyNotBase64
           | Some key \<Rightarrow> if int (length key) \<noteq> 32 then Inl (KeyLength (int (length key)))
                         else Inr (newGCM key))"

definition nonceSize :: nat where "nonceSize = 12"

definition Encrypt :: "aead \<Rightarrow> string option \<Rightarrow> string \<Rightarrow> crypto_error + string" where
  "Encrypt c random plaintext =
     (case random of
        None \<Rightarrow> Inl NoRandom
      | Some nonce \<Rightarrow> Inr (StdEncoding_Encode (nonce @ aead_Seal c nonce plaintext)))"

definition Decrypt :: "aead \<Rightarrow> string \<Rightarrow> crypto_error + string" where
  "Decrypt c encoded =
     (case StdEncoding_Decode encoded of
        None \<Rightarrow> Inl TextNotBase64
      | Some raw \<Rightarrow>
          if length raw < nonceSize then Inl TextTooShort
          else case aead_Open c (take nonceSize raw) (drop nonceSize raw) of
                 None \<Rightarrow> Inl NotAuthentic
               | Some plaintext \<Rightarrow> Inr plaintext)"

text \<open>
  Encryption and decryption are inverse: with a key that \<open>LoadKey\<close> accepted, whatever 12 random
  bytes were drawn, decrypting an encrypted text gives the text back, provided that the
  AEAD opens what it sealed.  \<open>LoadKey\<close> accepts the encoding of a key exactly when the key has 32 bytes,
  and a text shorter than a nonce is refused, never opened.
\<close>

theorem Decrypt_Encrypt:
  assumes gcm: "\<And>key nonce p. length key = 32 \<Longrightarrow> aead_Open (newGCM key) nonce (aead_Seal (newGCM key) nonce p) = Some p"
    and "length nonce = 12"
  shows "(case LoadKey newGCM (StdEncoding_Encode key) of
            Inl e \<Rightarrow> key = [] \<and> e = KeyEmpty \<or> length key \<noteq> 32
          | Inr c \<Rightarrow> length key = 32 \<and>
              (case Encrypt c (Some nonce) plaintext of Inl _ \<Rightarrow> False | Inr t \<Rightarrow> Decrypt c t = Inr plaintext)
              \<and> (length short < 12 \<longleftrightarrow> Decrypt c (StdEncoding_Encode short) = Inl TextTooShort))"
proof (cases "length key = 32")
  case False
  have "StdEncoding_Encode key = [] \<longleftrightarrow> key = []"
    using StdEncoding_Decode_Encode [of key] by (cases "key = []") (auto simp: StdEncoding_Encode_def StdEncoding_Decode_def)
  with False show ?thesis by (simp add: LoadKey_def StdEncoding_Decode_Encode)
next
  case True
  have "StdEncoding_Encode key \<noteq> []"
    using StdEncoding_Decode_Encode [of key] True by (auto simp: StdEncoding_Decode_def)
  with True assms show ?thesis
    by (auto simp: LoadKey_def Encrypt_def Decrypt_def StdEncoding_Decode_Encode nonceSize_def split: option.split)
qed

text \<open>A stand-in for the AEAD whose sealed text is the text itself.\<close>

definition ex_aead :: aead where
  "ex_aead = \<lparr>aead_Seal = (\<lambda>n p. p), aead_Open = (\<lambda>n s. Some s)\<rparr>"

theorem Decrypt_Encrypt_witness:
  "(case Encrypt ex_aead (Some (replicate 12 CHR ''n'')) ''secret'' of Inl _ \<Rightarrow> False
    | Inr t \<Rightarrow> Decrypt ex_aead t = Inr ''secret'')"
  using Decrypt_Encrypt [of "\<lambda>_. ex_aead" "replicate 12 CHR ''n''" "replicate 32 CHR ''k''" "''secret''" "[]"]
  by (simp add: ex_aead_def LoadKey_def StdEncoding_Decode_Encode split: if_splits sum.splits)

end
