(* ===== verification/Pulse_Maglink.thy ===== *)
theory Pulse_Maglink
  imports Pulse_KV Pulse_Crypto
begin

text \<open>
  Sign-in links, \<open>internal/maglink/maglink.go\<close>: a token is minted into a record of the
  key-value store under the hash of the token and consumed by one atomic read-and-delete.  The hash
  and the JSON form of a record are arguments.
\<close>

record magic_record =
  mag_Email :: string
  mag_CreatedAt :: time

definition magic_TTL :: duration where "magic_TTL = 15 * Minute"

definition magic_key :: "string \<Rightarrow> string" where "magic_key tokenHash = ''magiclink:'' @ tokenHash"

datatype magic_error = ErrInvalid | MagicStore kv_error | MagicNoRandom

definition Mint :: "(string \<Rightarrow> string) \<Rightarrow> (magic_record \<Rightarrow> string) \<Rightarrow> kv_fault \<Rightarrow> time \<Rightarrow> string option \<Rightarrow> string
    \<Rightarrow> kv \<Rightarrow> (magic_error + string) \<times> kv" where
  "Mint sha256 marshal f now random email s =
     (case NewOpaqueToken random of
        None \<Rightarrow> (Inl MagicNoRandom, s)
      | Some raw \<Rightarrow>
          let b = marshal \<lparr>mag_Email = email, mag_CreatedAt = now\<rparr>
          in (case SetCache f now (magic_key (HashToken sha256 raw)) b magic_TTL s of
                (Inl e, s') \<Rightarrow> (Inl (MagicStore e), s')
              | (Inr _, s') \<Rightarrow> (Inr raw, s')))"

definition Consume :: "(string \<Rightarrow> string) \<Rightarrow> (string \<Rightarrow> magic_record option) \<Rightarrow> kv_fault \<Rightarrow> time \<Rightarrow> string
    \<Rightarrow> kv \<Rightarrow> (magic_error + string) \<times> kv" where
  "Consume sha256 unmarshal f now rawToken s =
     (if rawToken = '''' then (Inl ErrInvalid, s)
      else case GetDelCache f now (magic_key (HashToken sha256 rawToken)) s of
             (Inl e, s') \<Rightarrow> (Inl (MagicStore e), s')
           | (Inr None, s') \<Rightarrow> (Inl ErrInvalid, s')
           | (Inr (Some raw), s') \<Rightarrow>
               (case unmarshal raw of
                  None \<Rightarrow> (Inl ErrInvalid, s')
                | Some r \<Rightarrow> (Inr (mag_Email r), s')))"

section \<open>Single use\<close>

text \<open>A run of sign-in attempts: token, instant and fault of each, and the answers.\<close>

fun attempts :: "(string \<Rightarrow> string) \<Rightarrow> (string \<Rightarrow> magic_record option) \<Rightarrow> (kv_fault \<times> time \<times> string) list
    \<Rightarrow> kv \<Rightarrow> (magic_error + string) list" where
  "attempts sha256 unmarshal [] s = []"
| "attempts sha256 unmarshal ((f, now, tok) # as) s =
     (case Consume sha256 unmarshal f now tok s of (r, s') \<Rightarrow> r # attempts sha256 unmarshal as s')"

lemma Consume_absent:
  "s (magic_key (HashToken sha256 tok)) = None \<Longrightarrow>
     (case Consume sha256 unmarshal f now tok s of (r, s') \<Rightarrow> isl r \<and> s' = s)"
  by (auto simp: Consume_def kv_defs kv_live_def split: kv_fault.splits)

lemma Consume_removes:
  "Consume sha256 unmarshal f now tok s = (Inr email, s') \<Longrightarrow> s' (magic_key (HashToken sha256 tok)) = None"
  by (auto simp: Consume_def kv_defs split: kv_fault.splits option.splits kv_value.splits if_splits prod.splits)

lemma Consume_only_removes:
  "Consume sha256 unmarshal f now tok s = (r, s') \<Longrightarrow> s' k = s k \<or> s' k = None"
  by (auto simp: Consume_def kv_defs split: kv_fault.splits option.splits kv_value.splits if_splits prod.splits)

lemma attempts_absent:
  "s (magic_key (HashToken sha256 tok)) = None \<Longrightarrow>
     list_all2 (\<lambda>(f, now, t) r. t = tok \<longrightarrow> isl r) as (attempts sha256 unmarshal as s)"
proof (induction as arbitrary: s)
  case (Cons a as)
  obtain f now t where a: "a = (f, now, t)" by (metis prod_cases3)
  obtain r s' where c: "Consume sha256 unmarshal f now t s = (r, s')" by fastforce
  have "s' (magic_key (HashToken sha256 tok)) = None" using Consume_only_removes [OF c] Cons.prems by metis
  moreover have "t = tok \<longrightarrow> isl r" using Consume_absent [of s sha256 tok unmarshal f now] Cons.prems c by auto
  ultimately show ?case using Cons.IH a c by simp
qed simp

text \<open>
  A sign-in link works at most once: after one attempt with a token succeeded, every later attempt
  with it fails, at any time, interleaved with attempts on other tokens and whatever commands
  or replies get lost.
\<close>

theorem magic_link_single_use:
  assumes "Consume sha256 unmarshal f now tok s = (Inr email, s')"
    and "i < length as" and "as ! i = (f', later, tok)"
  shows "isl (attempts sha256 unmarshal as s' ! i)"
proof -
  have "list_all2 (\<lambda>(f, now, t) r. t = tok \<longrightarrow> isl r) as (attempts sha256 unmarshal as s')"
    using attempts_absent [of s' sha256 tok] Consume_removes [OF assms(1)] by simp
  from list_all2_nthD [OF this assms(2)] assms(3) show ?thesis by simp
qed

text \<open>
  A minted link signs in the address it was made for until fifteen minutes have passed, and nobody
  after that; two links do not disturb each other unless their hashes collide.
\<close>

theorem magic_link_valid_15_minutes:
  assumes "Mint sha256 marshal KvOk t0 (Some random) email s = (Inr tok, s1)"
    and "unmarshal (marshal \<lparr>mag_Email = email, mag_CreatedAt = t0\<rparr>) = Some \<lparr>mag_Email = email, mag_CreatedAt = t0\<rparr>"
    and "random \<noteq> []"
    and "Mint sha256 marshal f t1 random' email' s1 = (r, s2)"
    and "\<And>raw. NewOpaqueToken random' = Some raw \<Longrightarrow> HashToken sha256 raw \<noteq> HashToken sha256 tok"
  shows "fst (Consume sha256 unmarshal KvOk t tok s2) =
           (if t < t0 + 15 * Minute then Inr email else Inl ErrInvalid)"
proof -
  have tok: "tok = RawURLEncoding_Encode random"
    and s1: "s1 = s(magic_key (HashToken sha256 tok) \<mapsto>
       (KvString (marshal \<lparr>mag_Email = email, mag_CreatedAt = t0\<rparr>), Some (t0 + magic_TTL)))"
    using assms(1) by (auto simp: Mint_def NewOpaqueToken_def kv_defs kv_expiry_def magic_TTL_def duration_defs Let_def)
  have s2: "s2 (magic_key (HashToken sha256 tok)) = s1 (magic_key (HashToken sha256 tok))"
    using assms(4,5) by (auto simp: Mint_def kv_defs magic_key_def Let_def split: option.splits kv_fault.splits)
  have "tok \<noteq> []"
    using tok assms(3) b64_encode_ne [of random] unfolding RawURLEncoding_Encode_def by simp
  then show ?thesis using s1 s2 assms(2) by (simp add: Consume_def kv_defs kv_live_def magic_TTL_def)
qed

definition ex_marshal :: "magic_record \<Rightarrow> string" where "ex_marshal r = mag_Email r"
definition ex_unmarshal :: "time \<Rightarrow> string \<Rightarrow> magic_record option" where
  "ex_unmarshal t s = Some \<lparr>mag_Email = s, mag_CreatedAt = t\<rparr>"

definition ex_kv :: kv where
  "ex_kv = snd (Mint id ex_marshal KvOk 0 (Some ''abc'') ''a@b.c'' Map.empty)"

lemma ex_mint: "Mint id ex_marshal KvOk 0 (Some ''abc'') ''a@b.c'' Map.empty = (Inr (RawURLEncoding_Encode ''abc''), ex_kv)"
  by (simp add: ex_kv_def Mint_def NewOpaqueToken_def SetCache_def kv_command_def Let_def)

theorem magic_link_valid_15_minutes_witness:
  "fst (Consume id (ex_unmarshal 0) KvOk 60 (RawURLEncoding_Encode ''abc'')
      (snd (Mint id ex_marshal KvOk 5 None ''x@y.z'' ex_kv))) = Inr ''a@b.c''"
  using magic_link_valid_15_minutes [OF ex_mint, of "ex_unmarshal 0" KvOk 5 None "''x@y.z''"
      "Inl MagicNoRandom" "snd (Mint id ex_marshal KvOk 5 None ''x@y.z'' ex_kv)" 60]
  by (simp add: ex_unmarshal_def ex_marshal_def Mint_def NewOpaqueToken_def duration_defs)

theorem magic_link_single_use_witness:
  "isl (attempts id (ex_unmarshal 0) [(KvOk, 70, RawURLEncoding_Encode ''abc'')]
      (snd (Consume id (ex_unmarshal 0) KvOk 60 (RawURLEncoding_Encode ''abc'') ex_kv)) ! 0)"
proof -
  have "fst (Consume id (ex_unmarshal 0) KvOk 60 (RawURLEncoding_Encode ''abc'') ex_kv) = Inr ''a@b.c''"
    by (simp add: ex_kv_def Mint_def NewOpaqueToken_def SetCache_def kv_command_def Let_def Consume_def
        GetDelCache_def kv_expiry_def magic_TTL_def duration_defs ex_unmarshal_def ex_marshal_def RawURLEncoding_Encode_def)
  then have "Consume id (ex_unmarshal 0) KvOk 60 (RawURLEncoding_Encode ''abc'') ex_kv =
     (Inr ''a@b.c'', snd (Consume id (ex_unmarshal 0) KvOk 60 (RawURLEncoding_Encode ''abc'') ex_kv))"
    by (metis prod.collapse)
  from magic_link_single_use [OF this, of 0 "[(KvOk, 70, RawURLEncoding_Encode ''abc'')]"] show ?thesis by simp
qed

end
