(* ===== verification/Pulse_Monitor_Input.thy ===== *)
theory Pulse_Monitor_Input
  imports Pulse_Checker Pulse_Entitlements
begin

text \<open>
  The fields of a monitor as the api takes and shows them, the second half of
  \<open>internal/api/monitors.go\<close>: the validation of an input against the field rules and
  the plan limits, \<open>monitorFromInput\<close> with its helpers, and the mapping back to the api
  shape, which hides the secret header values.

  The map of field errors is a list of fields with their messages.  The message of a region
  outside the plan quotes the region with \<open>%q\<close>; it is a constructor of its own.  The URL
  parser and \<open>net.SplitHostPort\<close> are arguments, as in the checker.
\<close>

section \<open>Input\<close>

record MonitorHeaderInput =
  mh_Key :: string
  mh_Value :: "string option"
  mh_Secret :: bool

record MonitorInput =
  in_Type :: string
  in_Name :: string
  in_Url :: string
  in_Method :: string
  in_Headers :: "MonitorHeaderInput list"
  in_Body :: string
  in_ExpectedStatusCodes :: string
  in_TimeoutSeconds :: int
  in_IntervalSeconds :: int
  in_Enabled :: bool
  in_MaxLatencyMs :: "int option"
  in_BodyContains :: "string option"
  in_FailureThreshold :: int
  in_Regions :: "string list"
  in_DownPolicy :: string
  in_NotificationChannelIds :: "string list"

datatype field_message = FieldMsg string | RegionNotInPlan string

type_synonym field_errors = "(string \<times> field_message) list"

definition MonitorType_of :: "string \<Rightarrow> MonitorType" where
  "MonitorType_of s = (if s = ''http'' then MonitorHTTP else if s = ''ssl'' then MonitorSSL else MonitorTypeOther s)"

definition DownPolicy_of :: "string \<Rightarrow> DownPolicy" where
  "DownPolicy_of s =
     (if s = ''any'' then DownPolicyAny else if s = ''quorum'' then DownPolicyQuorum
      else if s = ''all'' then DownPolicyAll else DownPolicyOther s)"

definition maxMonitorNameLen :: int where "maxMonitorNameLen = 200"
definition maxBodyContainsLen :: int where "maxBodyContainsLen = 1000"
definition maxBodyBytes :: int where "maxBodyBytes = 2 ^ 20"
definition maxHeaders :: int where "maxHeaders = 50"
definition sslIntervalSeconds :: int where "sslIntervalSeconds = 86400"
definition sslTimeoutSeconds :: int where "sslTimeoutSeconds = 10"

section \<open>Field rules\<close>

definition validURL :: "(string \<Rightarrow> url option) \<Rightarrow> string \<Rightarrow> bool" where
  "validURL Parse raw =
     (case Parse raw of
        None \<Rightarrow> False
      | Some u \<Rightarrow>
          if url_Scheme u = '''' then False
          else if url_Scheme u \<noteq> ''http'' \<and> url_Scheme u \<noteq> ''https'' then False
          else url_Host u \<noteq> '''')"

definition validSSLTarget :: "(string \<Rightarrow> url option) \<Rightarrow> (string \<Rightarrow> (string \<times> string) option) \<Rightarrow> string \<Rightarrow> bool" where
  "validSSLTarget Parse SplitHostPort raw =
     (let raw = TrimSpace raw;
          bare = (if CHR ''/'' \<in> set raw \<or> CHR '' '' \<in> set raw then False
                  else case SplitHostPort raw of Some (host, _) \<Rightarrow> host \<noteq> '''' | None \<Rightarrow> True)
      in if raw = '''' then False
         else case Parse raw of
                Some u \<Rightarrow> if url_Scheme u \<noteq> '''' then url_Host u \<noteq> '''' else bare
              | None \<Rightarrow> bare)"

definition validMethod :: "string \<Rightarrow> bool" where
  "validMethod m = (m \<in> {''GET'', ''POST'', ''PUT'', ''PATCH'', ''DELETE'', ''HEAD''})"

definition bodyAllowed :: "string \<Rightarrow> bool" where
  "bodyAllowed m = (m \<in> {''POST'', ''PUT'', ''PATCH''})"

definition validDownPolicy :: "DownPolicy \<Rightarrow> bool" where
  "validDownPolicy d = (d \<in> {DownPolicyAny, DownPolicyQuorum, DownPolicyAll})"

fun valid_tokens :: "string list \<Rightarrow> bool \<Rightarrow> bool" where
  "valid_tokens [] seen = seen"
| "valid_tokens (part # parts) seen =
     (let tok = TrimSpace part
      in if tok = '''' then valid_tokens parts seen
         else if ToLower tok \<in> {''2xx'', ''3xx'', ''4xx'', ''5xx'', ''1xx''} then valid_tokens parts True
         else case Atoi tok of
                None \<Rightarrow> False
              | Some n \<Rightarrow> if n < 100 \<or> n > 599 then False else valid_tokens parts True)"

definition validExpectedStatusCodes :: "string \<Rightarrow> bool" where
  "validExpectedStatusCodes raw = valid_tokens (Split (CHR '','') raw) False"

fun header_loop :: "MonitorHeaderInput list \<Rightarrow> string list \<Rightarrow> Header list \<Rightarrow> string + Header list" where
  "header_loop [] seen out = Inr out"
| "header_loop (h # hs) seen out =
     (let key = TrimSpace (mh_Key h); lower = ToLower key
      in if key = '''' then Inl ''header keys cannot be empty''
         else if lower \<in> set seen then Inl ''header keys must be unique''
         else header_loop hs (lower # seen)
                (out @ [\<lparr>hdr_Key = key, hdr_Value = (case mh_Value h of Some v \<Rightarrow> v | None \<Rightarrow> ''''),
                         hdr_Secret = mh_Secret h\<rparr>]))"

definition validateHeaders :: "MonitorHeaderInput list \<Rightarrow> string + Header list" where
  "validateHeaders hs =
     (if hs = [] then Inr []
      else if int (length hs) > maxHeaders then Inl (''at most '' @ Itoa maxHeaders @ '' headers are allowed'')
      else header_loop hs [] [])"

fun region_loop :: "MonitorLimits \<Rightarrow> string list \<Rightarrow> string list \<Rightarrow> string list \<Rightarrow> field_message + string list" where
  "region_loop limits [] seen out = Inr out"
| "region_loop limits (r # rs) seen out =
     (let region = TrimSpace r
      in if region = '''' then Inl (FieldMsg ''region codes cannot be empty'')
         else if region \<in> set seen then Inl (FieldMsg ''regions must not contain duplicates'')
         else if \<not> AllowsRegion limits region then Inl (RegionNotInPlan region)
         else region_loop limits rs (region # seen) (out @ [region]))"

definition validateRegions :: "string list \<Rightarrow> MonitorLimits \<Rightarrow> field_message + string list" where
  "validateRegions rs limits =
     (if rs = [] then Inl (FieldMsg ''at least one region is required'')
      else case region_loop limits rs [] [] of
             Inl e \<Rightarrow> Inl e
           | Inr out \<Rightarrow>
               if int (length out) > ml_RegionsPerMonitorCap limits
               then Inl (FieldMsg (''your plan allows at most '' @ Itoa (ml_RegionsPerMonitorCap limits)
                                   @ '' regions per monitor''))
               else Inr out)"

fun parse_ids :: "string list \<Rightarrow> int list option" where
  "parse_ids [] = Some []"
| "parse_ids (raw # raws) =
     (case Atoi raw of None \<Rightarrow> None | Some n \<Rightarrow> map_option (\<lambda>ns. n # ns) (parse_ids raws))"

definition parseChannelIDs :: "string list \<Rightarrow> string + int list" where
  "parseChannelIDs raws =
     (case parse_ids raws of
        None \<Rightarrow> Inl ''notification_channel_ids must be channel ids''
      | Some ns \<Rightarrow> Inr ns)"

definition belowFloorMessage :: "int \<Rightarrow> string" where
  "belowFloorMessage flr = ''your plan's minimum check interval is '' @ Itoa flr @ '' seconds''"

section \<open>The whole input\<close>

text \<open>\<open>errs[field] = msg\<close> under a condition.\<close>

definition err_if :: "bool \<Rightarrow> string \<Rightarrow> field_message \<Rightarrow> field_errors \<Rightarrow> field_errors" where
  "err_if b field msg errs = (if b then set_field field msg errs else errs)"

definition err_from :: "string \<Rightarrow> ('e \<Rightarrow> field_message) \<Rightarrow> 'e + 'a \<Rightarrow> field_errors \<Rightarrow> field_errors" where
  "err_from field msg r errs = (case r of Inl e \<Rightarrow> set_field field (msg e) errs | Inr _ \<Rightarrow> errs)"

definition or_empty :: "'e + 'a list \<Rightarrow> 'a list" where
  "or_empty r = (case r of Inl _ \<Rightarrow> [] | Inr xs \<Rightarrow> xs)"

text \<open>The checks of the request fields of an http monitor, in the order of the code.\<close>

definition interval_error :: "MonitorInput \<Rightarrow> int \<Rightarrow> string option" where
  "interval_error inp flr =
     (if in_IntervalSeconds inp < HardIntervalFloorSeconds
      then Some (''interval_seconds must be at least '' @ Itoa HardIntervalFloorSeconds)
      else if in_TimeoutSeconds inp \<ge> 1 \<and> in_TimeoutSeconds inp \<le> 60 \<and> in_IntervalSeconds inp < in_TimeoutSeconds inp
      then Some ''interval_seconds must be greater than or equal to timeout_seconds''
      else if in_IntervalSeconds inp < flr then Some (belowFloorMessage flr)
      else None)"

definition request_errors :: "MonitorInput \<Rightarrow> string \<Rightarrow> string \<Rightarrow> field_errors \<Rightarrow> field_errors" where
  "request_errors inp meth expected =
     err_if (expected \<noteq> '''' \<and> \<not> validExpectedStatusCodes expected) ''expected_status_codes''
       (FieldMsg ''expected_status_codes must be codes (100..599) and/or 2xx/3xx/4xx/5xx'')
     \<circ> err_if (in_Body inp \<noteq> '''' \<and> bodyAllowed meth \<and> int (length (in_Body inp)) > maxBodyBytes) ''body''
         (FieldMsg ''body is too large'')
     \<circ> err_if (in_Body inp \<noteq> '''' \<and> \<not> bodyAllowed meth) ''body'' (FieldMsg ''body is only allowed for POST, PUT, or PATCH'')
     \<circ> err_if (\<not> validMethod meth) ''method'' (FieldMsg ''method must be one of GET, POST, PUT, PATCH, DELETE, HEAD'')"

definition schedule_errors :: "MonitorInput \<Rightarrow> MonitorLimits \<Rightarrow> string \<Rightarrow> DownPolicy \<Rightarrow> string + Header list
    \<Rightarrow> field_message + string list \<Rightarrow> field_errors \<Rightarrow> field_errors" where
  "schedule_errors inp limits expected dp hs rs errs =
     (let e1 = err_if (in_TimeoutSeconds inp < 1 \<or> in_TimeoutSeconds inp > 60) ''timeout_seconds''
                 (FieldMsg ''timeout_seconds must be between 1 and 60'') errs;
          e2 = (case interval_error inp (EffectiveIntervalFloor limits) of
                  Some msg \<Rightarrow> set_field ''interval_seconds'' (FieldMsg msg) e1 | None \<Rightarrow> e1);
          e3 = err_if (case in_MaxLatencyMs inp of Some v \<Rightarrow> v \<le> 0 | None \<Rightarrow> False) ''max_latency_ms''
                 (FieldMsg ''max_latency_ms must be a positive integer'') e2;
          e4 = err_if (case in_BodyContains inp of Some b \<Rightarrow> int (length b) > maxBodyContainsLen | None \<Rightarrow> False)
                 ''body_contains'' (FieldMsg (''body_contains must be at most '' @ Itoa maxBodyContainsLen @ '' characters'')) e3;
          hasBodyContains = (case in_BodyContains inp of Some b \<Rightarrow> TrimSpace b \<noteq> '''' | None \<Rightarrow> False);
          hasMaxLatency = (case in_MaxLatencyMs inp of Some v \<Rightarrow> v > 0 | None \<Rightarrow> False);
          e5 = err_if (expected = '''' \<and> \<not> hasBodyContains \<and> \<not> hasMaxLatency
                       \<and> map_of e4 ''expected_status_codes'' = None) ''expected_status_codes''
                 (FieldMsg ''set at least one assertion: expected status codes, body contains, or max latency'') e4;
          e6 = err_if (in_FailureThreshold inp < 1) ''failure_threshold'' (FieldMsg ''failure_threshold must be at least 1'') e5;
          e7 = err_from ''headers'' FieldMsg hs e6;
          e8 = err_if (\<not> validDownPolicy dp) ''down_policy'' (FieldMsg ''down_policy must be one of any, quorum, all'') e7
      in err_from ''regions'' id rs e8)"

text \<open>The values the code computes before it builds the monitor, for both kinds of monitor.\<close>

definition input_type :: "MonitorInput \<Rightarrow> MonitorType" where
  "input_type inp = (if in_Type inp = '''' then MonitorHTTP else MonitorType_of (in_Type inp))"

definition isSSL :: "MonitorInput \<Rightarrow> bool" where "isSSL inp = (input_type inp = MonitorSSL)"

definition input_method :: "MonitorInput \<Rightarrow> string" where
  "input_method inp = (if in_Method inp = '''' \<or> isSSL inp then ''GET'' else in_Method inp)"

definition input_expected :: "MonitorInput \<Rightarrow> string" where
  "input_expected inp = (if isSSL inp then ''200'' else TrimSpace (in_ExpectedStatusCodes inp))"

definition input_policy :: "MonitorInput \<Rightarrow> DownPolicy" where
  "input_policy inp =
     (if isSSL inp then DownPolicyAny
      else if in_DownPolicy inp = '''' then DownPolicyQuorum else DownPolicy_of (in_DownPolicy inp))"

definition input_headers :: "MonitorInput \<Rightarrow> string + Header list" where
  "input_headers inp = (if isSSL inp then Inr [] else validateHeaders (in_Headers inp))"

definition input_regions :: "MonitorInput \<Rightarrow> MonitorLimits \<Rightarrow> field_message + string list" where
  "input_regions inp limits = (if isSSL inp then Inr [DefaultRegion] else validateRegions (in_Regions inp) limits)"

text \<open>The checks of the type, the name and the url.\<close>

definition base_errors :: "(string \<Rightarrow> url option) \<Rightarrow> (string \<Rightarrow> (string \<times> string) option) \<Rightarrow> MonitorInput \<Rightarrow> field_errors" where
  "base_errors Parse SplitHostPort inp =
     (let e1 = err_if (input_type inp \<noteq> MonitorHTTP \<and> input_type inp \<noteq> MonitorSSL) ''type''
                 (FieldMsg ''type must be one of http, ssl'') [];
          name = TrimSpace (in_Name inp);
          e2 = (if name = '''' then set_field ''name'' (FieldMsg ''name is required'') e1
                else err_if (int (length name) > maxMonitorNameLen) ''name''
                       (FieldMsg (''name must be at most '' @ Itoa maxMonitorNameLen @ '' characters'')) e1)
      in if isSSL inp
         then err_if (\<not> validSSLTarget Parse SplitHostPort (in_Url inp)) ''url''
                (FieldMsg ''url must be a host (https URL or host[:port])'') e2
         else err_if (\<not> validURL Parse (in_Url inp)) ''url''
                (FieldMsg ''url must be an absolute http or https URL with a host'') e2)"

definition monitorFromInput :: "(string \<Rightarrow> url option) \<Rightarrow> (string \<Rightarrow> (string \<times> string) option) \<Rightarrow> int \<Rightarrow> int
    \<Rightarrow> MonitorInput \<Rightarrow> MonitorLimits \<Rightarrow> Monitor \<times> field_errors" where
  "monitorFromInput Parse SplitHostPort orgID mid inp limits =
     (let e1 = base_errors Parse SplitHostPort inp;
          e2 = (if isSSL inp then e1
                else schedule_errors inp limits (input_expected inp) (input_policy inp) (input_headers inp)
                       (input_regions inp limits) (request_errors inp (input_method inp) (input_expected inp) e1));
          channelIDs = parseChannelIDs (in_NotificationChannelIds inp);
          e3 = err_from ''notification_channel_ids'' FieldMsg channelIDs e2
      in (\<lparr>mon_ID = mid, mon_OrgID = orgID, mon_Type = input_type inp, mon_Name = TrimSpace (in_Name inp),
           mon_URL = in_Url inp, mon_Method = input_method inp, mon_Headers = or_empty (input_headers inp),
           mon_Body = (if isSSL inp then '''' else in_Body inp),
           mon_ExpectedStatusCodes = input_expected inp,
           mon_TimeoutSeconds = (if isSSL inp then sslTimeoutSeconds else in_TimeoutSeconds inp),
           mon_IntervalSeconds = (if isSSL inp then sslIntervalSeconds else in_IntervalSeconds inp),
           mon_Enabled = in_Enabled inp,
           mon_MaxLatencyMs = (if isSSL inp then None else in_MaxLatencyMs inp),
           mon_BodyContains = (if isSSL inp then None else in_BodyContains inp),
           mon_FailureThreshold = (if isSSL inp then 1 else in_FailureThreshold inp),
           mon_Regions = or_empty (input_regions inp limits), mon_DownPolicy = input_policy inp,
           mon_ChannelIDs = or_empty channelIDs,
           mon_CreatedAt = zero_time, mon_UpdatedAt = zero_time\<rparr>, e3))"

section \<open>The api shape\<close>

record MonitorDTO =
  dto_Id :: string
  dto_OrgId :: string
  dto_Type :: MonitorType
  dto_Name :: string
  dto_Url :: string
  dto_Method :: string
  dto_Headers :: "MonitorHeaderInput list"
  dto_Body :: string
  dto_ExpectedStatusCodes :: string
  dto_TimeoutSeconds :: int
  dto_IntervalSeconds :: int
  dto_Enabled :: bool
  dto_MaxLatencyMs :: "int option"
  dto_BodyContains :: "string option"
  dto_FailureThreshold :: int
  dto_NotificationChannelIds :: "string list"
  dto_Regions :: "string list"
  dto_DownPolicy :: DownPolicy
  dto_CreatedAt :: time
  dto_UpdatedAt :: time

definition header_dto :: "Header \<Rightarrow> MonitorHeaderInput" where
  "header_dto h = \<lparr>mh_Key = hdr_Key h, mh_Value = (if \<not> hdr_Secret h then Some (hdr_Value h) else None),
                   mh_Secret = hdr_Secret h\<rparr>"

definition monitorDTO :: "Monitor \<Rightarrow> MonitorDTO" where
  "monitorDTO m =
     \<lparr>dto_Id = Itoa (mon_ID m), dto_OrgId = Itoa (mon_OrgID m), dto_Type = mon_Type m, dto_Name = mon_Name m,
      dto_Url = mon_URL m, dto_Method = mon_Method m, dto_Headers = map header_dto (mon_Headers m),
      dto_Body = mon_Body m, dto_ExpectedStatusCodes = mon_ExpectedStatusCodes m,
      dto_TimeoutSeconds = mon_TimeoutSeconds m, dto_IntervalSeconds = mon_IntervalSeconds m,
      dto_Enabled = mon_Enabled m, dto_MaxLatencyMs = mon_MaxLatencyMs m, dto_BodyContains = mon_BodyContains m,
      dto_FailureThreshold = mon_FailureThreshold m, dto_NotificationChannelIds = map Itoa (mon_ChannelIDs m),
      dto_Regions = mon_Regions m, dto_DownPolicy = mon_DownPolicy m, dto_CreatedAt = mon_CreatedAt m,
      dto_UpdatedAt = mon_UpdatedAt m\<rparr>"

section \<open>What an accepted input is\<close>

lemma err_if_Nil [simp]: "err_if b f msg errs = [] \<longleftrightarrow> \<not> b \<and> errs = []"
  by (simp add: err_if_def)

lemma err_if_False [simp]: "err_if False f msg errs = errs"
  by (simp add: err_if_def)

lemma err_from_Nil [simp]: "err_from f msg r errs = [] \<longleftrightarrow> (\<exists>x. r = Inr x) \<and> errs = []"
  by (cases r) (simp_all add: err_from_def)

lemma request_errors_Nil:
  "request_errors inp meth expected errs = [] \<longleftrightarrow>
     errs = [] \<and> validMethod meth \<and> (in_Body inp \<noteq> '''' \<longrightarrow> bodyAllowed meth \<and> int (length (in_Body inp)) \<le> maxBodyBytes)
     \<and> (expected \<noteq> '''' \<longrightarrow> validExpectedStatusCodes expected)"
  unfolding request_errors_def comp_def by auto

lemma interval_error_None:
  "interval_error inp flr = None \<longleftrightarrow> HardIntervalFloorSeconds \<le> in_IntervalSeconds inp \<and> flr \<le> in_IntervalSeconds inp
     \<and> (1 \<le> in_TimeoutSeconds inp \<and> in_TimeoutSeconds inp \<le> 60 \<longrightarrow> in_TimeoutSeconds inp \<le> in_IntervalSeconds inp)"
  by (auto simp: interval_error_def)

lemma schedule_errors_Nil:
  assumes "schedule_errors inp limits expected dp hs rs errs = []"
  shows "errs = [] \<and> 1 \<le> in_TimeoutSeconds inp \<and> in_TimeoutSeconds inp \<le> 60
     \<and> interval_error inp (EffectiveIntervalFloor limits) = None
     \<and> (case in_MaxLatencyMs inp of Some v \<Rightarrow> 0 < v | None \<Rightarrow> True)
     \<and> (case in_BodyContains inp of Some b \<Rightarrow> int (length b) \<le> maxBodyContainsLen | None \<Rightarrow> True)
     \<and> (expected \<noteq> '''' \<or> (case in_BodyContains inp of Some b \<Rightarrow> TrimSpace b \<noteq> '''' | None \<Rightarrow> False)
        \<or> in_MaxLatencyMs inp \<noteq> None)
     \<and> 1 \<le> in_FailureThreshold inp \<and> (\<exists>h. hs = Inr h) \<and> validDownPolicy dp \<and> (\<exists>r. rs = Inr r)"
  using assms unfolding schedule_errors_def Let_def
  by (auto split: option.splits)

lemma header_loop_Inr:
  "header_loop hs seen out = Inr hs' \<Longrightarrow>
     (\<exists>new. hs' = out @ new \<and> length new = length hs \<and> (\<forall>h \<in> set new. hdr_Key h \<noteq> '''')
        \<and> distinct (map (\<lambda>h. ToLower (hdr_Key h)) new) \<and> set (map (\<lambda>h. ToLower (hdr_Key h)) new) \<inter> set seen = {})"
proof (induction hs arbitrary: seen out)
  case (Cons h hs)
  let ?k = "TrimSpace (mh_Key h)"
  let ?h = "\<lparr>hdr_Key = ?k, hdr_Value = (case mh_Value h of Some v \<Rightarrow> v | None \<Rightarrow> ''''), hdr_Secret = mh_Secret h\<rparr>"
  have k: "?k \<noteq> ''''" "ToLower ?k \<notin> set seen" and r: "header_loop hs (ToLower ?k # seen) (out @ [?h]) = Inr hs'"
    using Cons.prems by (auto simp: Let_def split: if_splits)
  from Cons.IH [OF r] obtain new where new: "hs' = (out @ [?h]) @ new" "length new = length hs"
    "\<forall>h \<in> set new. hdr_Key h \<noteq> ''''" "distinct (map (\<lambda>h. ToLower (hdr_Key h)) new)"
    "set (map (\<lambda>h. ToLower (hdr_Key h)) new) \<inter> set (ToLower ?k # seen) = {}" by blast
  then show ?case using k by (intro exI [of _ "?h # new"]) auto
qed simp

lemma region_loop_Inr:
  "region_loop limits rs seen out = Inr rs' \<Longrightarrow>
     (\<exists>new. rs' = out @ new \<and> length new = length rs \<and> (\<forall>r \<in> set new. AllowsRegion limits r)
        \<and> distinct new \<and> set new \<inter> set seen = {})"
proof (induction rs arbitrary: seen out)
  case (Cons r rs)
  let ?r = "TrimSpace r"
  have k: "?r \<notin> set seen" "AllowsRegion limits ?r" and l: "region_loop limits rs (?r # seen) (out @ [?r]) = Inr rs'"
    using Cons.prems by (auto simp: Let_def split: if_splits)
  from Cons.IH [OF l] obtain new where "rs' = (out @ [?r]) @ new" "length new = length rs"
    "\<forall>r \<in> set new. AllowsRegion limits r" "distinct new" "set new \<inter> set (?r # seen) = {}" by blast
  then show ?case using k by (intro exI [of _ "?r # new"]) auto
qed simp

lemma validateHeaders_Inr:
  "validateHeaders hs = Inr hs' \<Longrightarrow> length hs' \<le> 50 \<and> (\<forall>h \<in> set hs'. hdr_Key h \<noteq> '''')
     \<and> distinct (map (\<lambda>h. ToLower (hdr_Key h)) hs')"
  by (auto simp: validateHeaders_def maxHeaders_def split: if_splits dest!: header_loop_Inr)

lemma validateRegions_Inr:
  "validateRegions rs limits = Inr rs' \<Longrightarrow> rs' \<noteq> [] \<and> distinct rs' \<and> (\<forall>r \<in> set rs'. AllowsRegion limits r)
     \<and> int (length rs') \<le> ml_RegionsPerMonitorCap limits"
  by (auto simp: validateRegions_def split: if_splits sum.splits dest!: region_loop_Inr)

text \<open>The rules of a stored monitor that the store and the cap rely on; the whole field table is below.\<close>

definition accepted_monitor :: "MonitorLimits \<Rightarrow> Monitor \<Rightarrow> bool" where
  "accepted_monitor limits m \<longleftrightarrow>
     mon_Type m \<in> {MonitorHTTP, MonitorSSL}
     \<and> mon_Name m \<noteq> '''' \<and> length (mon_Name m) \<le> 200
     \<and> 1 \<le> mon_TimeoutSeconds m \<and> mon_TimeoutSeconds m \<le> 60
     \<and> mon_TimeoutSeconds m \<le> mon_IntervalSeconds m \<and> 30 \<le> mon_IntervalSeconds m
     \<and> EffectiveIntervalFloor limits \<le> mon_IntervalSeconds m
     \<and> 1 \<le> mon_FailureThreshold m
     \<and> mon_Regions m \<noteq> [] \<and> distinct (mon_Regions m) \<and> list_all (AllowsRegion limits) (mon_Regions m)
     \<and> int (length (mon_Regions m)) \<le> ml_RegionsPerMonitorCap limits
     \<and> mon_DownPolicy m \<in> {DownPolicyAny, DownPolicyQuorum, DownPolicyAll}
     \<and> validMethod (mon_Method m) \<and> (mon_Body m = '''' \<or> bodyAllowed (mon_Method m))
     \<and> length (mon_Headers m) \<le> 50 \<and> distinct (map (\<lambda>h. ToLower (hdr_Key h)) (mon_Headers m))
     \<and> (mon_ExpectedStatusCodes m \<noteq> '''' \<or> mon_BodyContains m \<noteq> None \<or> mon_MaxLatencyMs m \<noteq> None)
     \<and> (case mon_MaxLatencyMs m of Some v \<Rightarrow> 0 < v | None \<Rightarrow> True)"

lemma plan_limits_fit_ssl:
  "EffectiveIntervalFloor (DefaultMonitors_MonitorLimits orgID plan) \<le> 86400
   \<and> AllowsRegion (DefaultMonitors_MonitorLimits orgID plan) DefaultRegion
   \<and> 1 \<le> ml_RegionsPerMonitorCap (DefaultMonitors_MonitorLimits orgID plan)"
  by (cases plan)
     (simp_all add: DefaultMonitors_MonitorLimits_def table_or_free_def EffectiveIntervalFloor_def
       HardIntervalFloorSeconds_def AllowsRegion_def region_defs)

lemma base_errors_Nil:
  "base_errors Parse SplitHP inp = [] \<Longrightarrow>
     input_type inp \<in> {MonitorHTTP, MonitorSSL} \<and> TrimSpace (in_Name inp) \<noteq> [] \<and> length (TrimSpace (in_Name inp)) \<le> 200"
  by (simp add: base_errors_def Let_def maxMonitorNameLen_def split: if_splits)

lemma monitorFromInput_accepted:
  assumes "monitorFromInput Parse SplitHP orgID mid inp (DefaultMonitors_MonitorLimits orgID plan) = (m, [])"
  shows "accepted_monitor (DefaultMonitors_MonitorLimits orgID plan) m \<and> mon_ID m = mid \<and> mon_OrgID m = orgID
    \<and> mon_Enabled m = in_Enabled inp \<and> mon_URL m = in_Url inp"
proof -
  let ?L = "DefaultMonitors_MonitorLimits orgID plan"
  let ?sch = "schedule_errors inp ?L (input_expected inp) (input_policy inp) (input_headers inp) (input_regions inp ?L)
      (request_errors inp (input_method inp) (input_expected inp) (base_errors Parse SplitHP inp))"
  have m: "m = fst (monitorFromInput Parse SplitHP orgID mid inp ?L)"
    and e: "(if isSSL inp then base_errors Parse SplitHP inp else ?sch) = []"
    using assms by (simp, simp only: monitorFromInput_def Let_def prod.inject err_from_Nil)
  show ?thesis
  proof (cases "isSSL inp")
    case True
    then show ?thesis
      using e base_errors_Nil [of Parse SplitHP inp] plan_limits_fit_ssl [of orgID plan]
      by (simp add: m monitorFromInput_def Let_def accepted_monitor_def or_empty_def input_regions_def input_headers_def
          input_method_def input_expected_def input_policy_def sslTimeoutSeconds_def sslIntervalSeconds_def validMethod_def)
  next
    case False
    with e have sch: "?sch = []" by simp
    from schedule_errors_Nil [OF sch] obtain h r where
      s: "request_errors inp (input_method inp) (input_expected inp) (base_errors Parse SplitHP inp) = []"
        "1 \<le> in_TimeoutSeconds inp" "in_TimeoutSeconds inp \<le> 60"
        "interval_error inp (EffectiveIntervalFloor ?L) = None"
        "case in_MaxLatencyMs inp of Some v \<Rightarrow> 0 < v | None \<Rightarrow> True"
        "input_expected inp \<noteq> [] \<or> in_BodyContains inp \<noteq> None \<or> in_MaxLatencyMs inp \<noteq> None"
        "1 \<le> in_FailureThreshold inp" "validDownPolicy (input_policy inp)"
      and hr: "input_headers inp = Inr h" "input_regions inp ?L = Inr r"
      by (auto split: option.splits)
    have "validateHeaders (in_Headers inp) = Inr h" "validateRegions (in_Regions inp) ?L = Inr r"
      using False hr by (simp_all add: input_headers_def input_regions_def)
    note hr' = validateHeaders_Inr [OF this(1)] validateRegions_Inr [OF this(2)]
    have b: "base_errors Parse SplitHP inp = []" using s(1) by (simp add: request_errors_Nil)
    show ?thesis
      using False s hr' base_errors_Nil [OF b]
      by (simp add: m monitorFromInput_def Let_def accepted_monitor_def hr or_empty_def interval_error_None
          HardIntervalFloorSeconds_def request_errors_Nil validDownPolicy_def list_all_iff) blast
  qed
qed

definition ex_input :: "string \<Rightarrow> MonitorInput" where
  "ex_input codes =
     \<lparr>in_Type = ''http'', in_Name = ''site'', in_Url = ''https://example.com'', in_Method = ''GET'',
      in_Headers = [\<lparr>mh_Key = ''X-Token'', mh_Value = Some ''s'', mh_Secret = True\<rparr>], in_Body = '''',
      in_ExpectedStatusCodes = codes, in_TimeoutSeconds = 10, in_IntervalSeconds = 900, in_Enabled = True,
      in_MaxLatencyMs = None, in_BodyContains = None, in_FailureThreshold = 2, in_Regions = [''eu-central''],
      in_DownPolicy = ''any'', in_NotificationChannelIds = [''7'']\<rparr>"

definition ex_parse :: "string \<Rightarrow> url option" where
  "ex_parse s = Some \<lparr>url_Scheme = ''https'', url_Host = ''example.com'', url_Hostname = ''example.com'', url_Port = ''''\<rparr>"

section \<open>Expected status codes in the api and in the checker\<close>

lemma class_token: "ToLower tok \<in> {''2xx'', ''3xx'', ''4xx'', ''5xx'', ''1xx''} \<longleftrightarrow> (\<exists>d \<in> {1..5}. ToLower tok = Itoa d @ ''xx'')"
proof -
  have "{1..5 :: int} = {1, 2, 3, 4, 5}" by auto
  moreover have "Itoa 1 = ''1''" "Itoa 2 = ''2''" "Itoa 3 = ''3''" "Itoa 4 = ''4''" "Itoa 5 = ''5''"
    by code_simp+
  ultimately show ?thesis by auto
qed

lemma entry_says_ex:
  "(\<exists>c. entry_says tok c) \<longleftrightarrow> (\<exists>d \<in> {1..5}. ToLower tok = Itoa d @ ''xx'') \<or> (\<exists>n. Atoi tok = Some n \<and> 100 \<le> n \<and> n \<le> 599)"
proof
  assume "(\<exists>d \<in> {1..5}. ToLower tok = Itoa d @ ''xx'') \<or> (\<exists>n. Atoi tok = Some n \<and> 100 \<le> n \<and> n \<le> 599)"
  then show "\<exists>c. entry_says tok c"
  proof
    assume "\<exists>d \<in> {1..5}. ToLower tok = Itoa d @ ''xx''"
    then obtain d where "d \<in> {1..5}" "ToLower tok = Itoa d @ ''xx''" by blast
    then have "entry_says tok (100 * d)" by (auto simp: entry_says_def)
    then show ?thesis ..
  qed (auto simp: entry_says_def)
qed (auto simp: entry_says_def)

lemma entry_says_blank: "\<not> entry_says [] c"
  by (auto simp: entry_says_def ToLower_def Atoi_def)

lemma valid_tokens_iff:
  "valid_tokens parts seen \<longleftrightarrow>
     (\<forall>part \<in> set parts. TrimSpace part = '''' \<or> (\<exists>c. entry_says (TrimSpace part) c))
     \<and> (seen \<or> (\<exists>part \<in> set parts. TrimSpace part \<noteq> ''''))"
proof (induction parts arbitrary: seen)
  case (Cons part parts)
  show ?case
    by (auto simp: Cons.IH Let_def class_token entry_says_ex split: option.splits simp del: insert_iff)
qed simp

text \<open>
  The api and the checker read a list of status codes alike, up to empty entries: the checker can
  parse exactly the lists that the api accepts and that have no empty entry.
\<close>

theorem status_codes_api_vs_checker:
  assumes "TrimSpace spec = spec"
  shows "ParseStatusCodes spec \<noteq> None \<longleftrightarrow>
     validExpectedStatusCodes spec \<and> list_all (\<lambda>part. TrimSpace part \<noteq> '''') (Split (CHR '','') spec)"
proof (cases "spec = ''''")
  case True
  then show ?thesis by (simp add: ParseStatusCodes_def validExpectedStatusCodes_def TrimSpace_def TrimLeft_def)
next
  case False
  have "ParseStatusCodes spec \<noteq> None \<longleftrightarrow> (\<forall>part \<in> set (Split (CHR '','') spec). \<exists>c. entry_says (TrimSpace part) c)"
    using False assms parse_entries_None [of "Split (CHR '','') spec"] by (simp add: ParseStatusCodes_def Let_def)
  also have "\<dots> \<longleftrightarrow> validExpectedStatusCodes spec \<and> list_all (\<lambda>part. TrimSpace part \<noteq> '''') (Split (CHR '','') spec)"
    unfolding validExpectedStatusCodes_def valid_tokens_iff list_all_iff
    using entry_says_blank Split_ne_Nil [of "CHR '',''" spec] by (metis list.set_intros(1) neq_Nil_conv)
  finally show ?thesis .
qed

theorem status_codes_api_vs_checker_witness:
  "ParseStatusCodes ''200, 3xx'' \<noteq> None \<longleftrightarrow>
     validExpectedStatusCodes ''200, 3xx'' \<and> list_all (\<lambda>part. TrimSpace part \<noteq> '''') (Split (CHR '','') ''200, 3xx'')"
  by (rule status_codes_api_vs_checker) code_simp

lemma TrimLeft_idem: "TrimLeft (TrimLeft s) = TrimLeft s"
  by (simp add: TrimLeft_def)

lemma TrimSpace_idem: "TrimSpace (TrimSpace s) = TrimSpace s"
proof -
  let ?t = "TrimSpace s"
  have "TrimLeft ?t = ?t"
  proof (cases ?t)
    case (Cons c cs)
    have "\<exists>p. TrimLeft s = ?t @ p"
      unfolding TrimSpace_def TrimLeft_def by (metis rev_append rev_rev_ident takeWhile_dropWhile_id)
    then obtain p where "TrimLeft s = c # cs @ p" using Cons by auto
    then have "\<not> is_space c" unfolding TrimLeft_def by (metis dropWhile_eq_Cons_conv)
    with Cons show ?thesis by (simp add: TrimLeft_def)
  qed (simp add: TrimLeft_def)
  then show ?thesis by (metis TrimLeft_idem TrimSpace_def rev_rev_ident)
qed

lemma input_expected_trimmed: "TrimSpace (input_expected inp) = input_expected inp"
proof -
  have "TrimSpace ''200'' = ''200''" by code_simp
  then show ?thesis by (simp add: input_expected_def TrimSpace_idem)
qed

text \<open>
  An accepted list of status codes with an empty entry can never be satisfied: a monitor that passes
  the validation with such a list is unhealthy in every check, whatever the target answers.
\<close>

theorem empty_entry_never_healthy:
  assumes "monitorFromInput Parse SplitHP orgID mid inp limits = (m, [])"
    and "mon_ExpectedStatusCodes m \<noteq> ''''"
    and "part \<in> set (Split (CHR '','') (mon_ExpectedStatusCodes m))" and "TrimSpace part = ''''"
  shows "\<not> res_Healthy (checkHTTP cfg env m cap)"
proof -
  have "m = fst (monitorFromInput Parse SplitHP orgID mid inp limits)" using assms(1) by simp
  then have "mon_ExpectedStatusCodes m = input_expected inp" by (simp add: monitorFromInput_def Let_def)
  then have t: "TrimSpace (mon_ExpectedStatusCodes m) = mon_ExpectedStatusCodes m"
    by (simp add: input_expected_trimmed)
  have "ParseStatusCodes (mon_ExpectedStatusCodes m) = None"
    using assms(2-4) entry_says_blank parse_entries_None [of "Split (CHR '','') (mon_ExpectedStatusCodes m)"]
    by (simp add: ParseStatusCodes_def Let_def t) metis
  then have "\<not> status_ok m status" for status using assms(2) by (simp add: status_ok_def t)
  then show ?thesis by (simp add: checkHTTP_healthy)
qed

theorem empty_entry_never_healthy_witness:
  "\<not> res_Healthy (checkHTTP ex_checker_config (ex_check_env [93, 1, 1, 1] ''ok'')
        (fst (monitorFromInput ex_parse (\<lambda>_. None) 1 0 (ex_input ''200,'') (DefaultMonitors_MonitorLimits 1 PlanTier1))) True)"
proof -
  let ?in = "monitorFromInput ex_parse (\<lambda>_. None) 1 0 (ex_input ''200,'') (DefaultMonitors_MonitorLimits 1 PlanTier1)"
  have "snd ?in = []" by code_simp
  then have i: "?in = (fst ?in, [])" by (metis prod.collapse)
  have c: "mon_ExpectedStatusCodes (fst ?in) = ''200,''" by code_simp
  have "'''' \<in> set (Split (CHR '','') ''200,'')" "TrimSpace '''' = ''''" by code_simp+
  then show ?thesis using empty_entry_never_healthy [OF i, of "''''"] c by simp
qed

section \<open>The field table\<close>
























section \<open>What the api shows\<close>

text \<open>A monitor without its secrets.\<close>

definition without_secrets :: "Header \<Rightarrow> Header" where
  "without_secrets h = (if hdr_Secret h then h\<lparr>hdr_Value := ''''\<rparr> else h)"

lemma header_dto_eq: "header_dto h = header_dto h' \<longleftrightarrow> without_secrets h = without_secrets h'"
  by (cases h; cases h') (auto simp: header_dto_def without_secrets_def)

lemma map_header_dto_eq: "map header_dto hs = map header_dto hs' \<longleftrightarrow> map without_secrets hs = map without_secrets hs'"
  by (induction hs arbitrary: hs') (case_tac hs'; auto simp: header_dto_eq)+

lemma map_Itoa_eq: "map Itoa xs = map Itoa ys \<longleftrightarrow> xs = ys"
  using Itoa_inj by (metis inj_map_eq_map inj_onI)

text \<open>
  What the api returns of a monitor hides the secret header values and nothing else: two monitors have the same
  representation exactly when they agree after every secret value is blanked out.
\<close>

theorem monitorDTO_hides_secrets:
  "monitorDTO m = monitorDTO m' \<longleftrightarrow>
     m\<lparr>mon_Headers := map without_secrets (mon_Headers m)\<rparr> = m'\<lparr>mon_Headers := map without_secrets (mon_Headers m')\<rparr>"
  by (cases m; cases m') (auto simp: monitorDTO_def map_header_dto_eq map_Itoa_eq dest: Itoa_inj)

lemma header_loop_dto:
  assumes "list_all (\<lambda>h. hdr_Key h \<noteq> '''' \<and> TrimSpace (hdr_Key h) = hdr_Key h) hs"
    and "distinct (map (\<lambda>h. ToLower (hdr_Key h)) hs)" and "set (map (\<lambda>h. ToLower (hdr_Key h)) hs) \<inter> set seen = {}"
  shows "header_loop (map header_dto hs) seen out = Inr (out @ map without_secrets hs)"
  using assms
proof (induction hs arbitrary: seen out)
  case (Cons h hs)
  have "\<lparr>hdr_Key = TrimSpace (mh_Key (header_dto h)), hdr_Value = (case mh_Value (header_dto h) of Some v \<Rightarrow> v | None \<Rightarrow> ''''),
         hdr_Secret = mh_Secret (header_dto h)\<rparr> = without_secrets h" "mh_Key (header_dto h) = hdr_Key h"
    using Cons.prems(1) by (cases h; simp add: header_dto_def without_secrets_def)+
  moreover have "header_loop (map header_dto hs) (ToLower (hdr_Key h) # seen) (out @ [without_secrets h]) =
      Inr ((out @ [without_secrets h]) @ map without_secrets hs)"
    using Cons.prems by (intro Cons.IH) auto
  ultimately show ?case
    using Cons.prems by (simp add: Let_def)
qed simp

text \<open>
  Writing back what was read loses the secrets: the header list of an api representation, sent as
  an update, is accepted, keeps every plain header and stores every secret header with an empty value.
\<close>

theorem resubmitted_headers_lose_secrets:
  assumes "validateHeaders hin = Inr hs" and "hs \<noteq> []"
    and "list_all (\<lambda>h. TrimSpace (mh_Key h) = mh_Key h) (map header_dto hs)"
  shows "validateHeaders (map header_dto hs) = Inr (map without_secrets hs)"
  using validateHeaders_Inr [OF assms(1)] assms(2,3) header_loop_dto [of hs "[]" "[]"]
  by (auto simp: validateHeaders_def maxHeaders_def list_all_iff header_dto_def)

theorem resubmitted_headers_lose_secrets_witness:
  "validateHeaders (map header_dto [\<lparr>hdr_Key = ''X-Token'', hdr_Value = ''s'', hdr_Secret = True\<rparr>])
     = Inr [\<lparr>hdr_Key = ''X-Token'', hdr_Value = '''', hdr_Secret = True\<rparr>]"
proof -
  have v: "validateHeaders [\<lparr>mh_Key = ''X-Token'', mh_Value = Some ''s'', mh_Secret = True\<rparr>]
     = Inr [\<lparr>hdr_Key = ''X-Token'', hdr_Value = ''s'', hdr_Secret = True\<rparr>]" by code_simp
  have t: "TrimSpace ''X-Token'' = ''X-Token''" by code_simp
  show ?thesis using resubmitted_headers_lose_secrets [OF v] t by (simp add: header_dto_def without_secrets_def)
qed

end
