(* ===== verification/Pulse_Principal.thy ===== *)
theory Pulse_Principal
  imports Pulse_Authz
begin

text \<open>
  The caller of a request as the middleware of \<open>internal/authn/middleware.go\<close> resolves it, and how the
  handlers of \<open>internal/api\<close> read it: \<open>FromContext\<close> is the optional principal of the request,
  \<open>humanInOrg\<close> asks for one with an org and a role.
\<close>

record Principal =
  p_Kind :: ActorKind
  p_UserID :: int
  p_KeyID :: int
  p_Email :: string
  p_OrgID :: int
  p_Role :: Role

definition principal_Actor :: "Principal \<Rightarrow> Actor" where
  "principal_Actor p = \<lparr>actor_Kind = p_Kind p, actor_UserID = p_UserID p, actor_KeyID = p_KeyID p,
     actor_OrgID = p_OrgID p, actor_Role = p_Role p\<rparr>"

definition humanInOrg :: "Principal option \<Rightarrow> Principal option" where
  "humanInOrg ctx =
     (case ctx of
        None \<Rightarrow> None
      | Some p \<Rightarrow> if p_OrgID p = 0 \<or> p_Role p = noRole then None else Some p)"

definition org_resource :: "int \<Rightarrow> Resource" where
  "org_resource orgID = \<lparr>rsc_OrgID = orgID, rsc_TargetRole = noRole, rsc_NewRole = noRole, rsc_OwnerCount = 0\<rparr>"

end
