(* ===== verification/Pulse_Checkstate.thy ===== *)
theory Pulse_Checkstate
  imports Pulse_Domain Pulse_KV
begin

text \<open>
  The live state of checks, \<open>internal/checkstate/checkstate.go\<close>: one hash per monitor, one field
  per region, written by the scheduler, the worker and the manual check and read by the
  monitor pages.  The JSON form of a state is an argument (\<open>marshal\<close>, \<open>unmarshal\<close>).

  A write is two commands, so that its fault is a pair.
\<close>

section \<open>States\<close>

definition StateScheduled :: string where "StateScheduled = ''scheduled''"
definition StateRunning :: string where "StateRunning = ''running''"
definition StateDone :: string where "StateDone = ''done''"
definition StateFailed :: string where "StateFailed = ''failed''"

lemmas state_defs [pulse_defs] = StateScheduled_def StateRunning_def StateDone_def StateFailed_def

record RegionState =
  rs_State :: string
  rs_Healthy :: "bool option"
  rs_StatusCode :: "int option"
  rs_LatencyMs :: "int option"
  rs_FailureReason :: "FailureReason option"
  rs_UpdatedAt :: time

record Outcome =
  out_Healthy :: bool
  out_StatusCode :: "int option"
  out_LatencyMs :: "int option"
  out_FailureReason :: "FailureReason option"

definition region_state :: "string \<Rightarrow> RegionState" where
  "region_state st = \<lparr>rs_State = st, rs_Healthy = None, rs_StatusCode = None, rs_LatencyMs = None,
     rs_FailureReason = None, rs_UpdatedAt = zero_time\<rparr>"

definition minTTL :: duration where "minTTL = Hour"

definition state_Key :: "int \<Rightarrow> string" where "state_Key monitorID = ''checkstate:'' @ Itoa monitorID"

text \<open>The products are those of 64-bit durations.\<close>

definition TTLFor :: "int \<Rightarrow> duration" where
  "TTLFor intervalSeconds =
     (let ttl = i64 (i64 (intervalSeconds * 3) * Second)
      in if ttl < minTTL then minTTL else ttl)"

type_synonym codec = "(RegionState \<Rightarrow> string) \<times> (string \<Rightarrow> RegionState option)"

definition writeRegion :: "codec \<Rightarrow> kv_fault \<times> kv_fault \<Rightarrow> time \<Rightarrow> int \<Rightarrow> string \<Rightarrow> int \<Rightarrow> RegionState
    \<Rightarrow> kv \<Rightarrow> (kv_error + unit) \<times> kv" where
  "writeRegion js f now monitorID region intervalSeconds rs s =
     (let b = fst js (rs\<lparr>rs_UpdatedAt := now\<rparr>); key = state_Key monitorID
      in case HSet (fst f) now key region b s of
           (Inl e, s1) \<Rightarrow> (Inl e, s1)
         | (Inr _, s1) \<Rightarrow> Expire (snd f) now key (TTLFor intervalSeconds) s1)"

definition SetScheduled :: "codec \<Rightarrow> kv_fault \<times> kv_fault \<Rightarrow> time \<Rightarrow> int \<Rightarrow> string \<Rightarrow> int \<Rightarrow> kv \<Rightarrow> (kv_error + unit) \<times> kv" where
  "SetScheduled js f now monitorID region intervalSeconds =
     writeRegion js f now monitorID region intervalSeconds (region_state StateScheduled)"

definition SetRunning :: "codec \<Rightarrow> kv_fault \<times> kv_fault \<Rightarrow> time \<Rightarrow> int \<Rightarrow> string \<Rightarrow> int \<Rightarrow> kv \<Rightarrow> (kv_error + unit) \<times> kv" where
  "SetRunning js f now monitorID region intervalSeconds =
     writeRegion js f now monitorID region intervalSeconds (region_state StateRunning)"

definition result_state :: "Outcome \<Rightarrow> RegionState" where
  "result_state out =
     (region_state (if \<not> out_Healthy out then StateFailed else StateDone))
       \<lparr>rs_Healthy := Some (out_Healthy out), rs_StatusCode := out_StatusCode out,
        rs_LatencyMs := out_LatencyMs out, rs_FailureReason := out_FailureReason out\<rparr>"

definition SetResult :: "codec \<Rightarrow> kv_fault \<times> kv_fault \<Rightarrow> time \<Rightarrow> int \<Rightarrow> string \<Rightarrow> int \<Rightarrow> Outcome
    \<Rightarrow> kv \<Rightarrow> (kv_error + unit) \<times> kv" where
  "SetResult js f now monitorID region intervalSeconds out =
     writeRegion js f now monitorID region intervalSeconds (result_state out)"

datatype read_error = ReadStore kv_error | ReadBadState

fun decode_fields :: "codec \<Rightarrow> (string \<times> string) list \<Rightarrow> (string \<times> RegionState) list option" where
  "decode_fields js [] = Some []"
| "decode_fields js ((region, v) # h) =
     (case snd js v of
        None \<Rightarrow> None
      | Some rs \<Rightarrow> map_option (\<lambda>out. (region, rs) # out) (decode_fields js h))"

text \<open>The result is absent when the hash is empty.\<close>

definition decode :: "codec \<Rightarrow> (string \<times> string) list \<Rightarrow> read_error + (string \<times> RegionState) list option" where
  "decode js raw =
     (if length raw = 0 then Inr None
      else case decode_fields js raw of None \<Rightarrow> Inl ReadBadState | Some out \<Rightarrow> Inr (Some out))"

definition state_Get :: "codec \<Rightarrow> kv_fault \<Rightarrow> time \<Rightarrow> int \<Rightarrow> kv \<Rightarrow> read_error + (string \<times> RegionState) list option" where
  "state_Get js f now monitorID s =
     (case fst (HGetAll f now (state_Key monitorID) s) of
        Inl e \<Rightarrow> Inl (ReadStore e)
      | Inr raw \<Rightarrow> decode js raw)"

text \<open>\<open>keyToID\<close>: a later id of the same key would win, but keys determine ids.\<close>

fun decode_many :: "codec \<Rightarrow> (string \<rightharpoonup> int) \<Rightarrow> (string \<times> (string \<times> string) list) list
    \<Rightarrow> read_error + (int \<times> (string \<times> RegionState) list) list" where
  "decode_many js keyToID [] = Inr []"
| "decode_many js keyToID ((k, h) # raw) =
     (case decode js h of
        Inl e \<Rightarrow> Inl e
      | Inr found \<Rightarrow>
          (case decode_many js keyToID raw of
             Inl e \<Rightarrow> Inl e
           | Inr out \<Rightarrow> Inr (case (found, keyToID k) of
                 (Some regions, Some i) \<Rightarrow> (i, regions) # out
               | (Some regions, None) \<Rightarrow> (0, regions) # out
               | (None, _) \<Rightarrow> out)))"

definition GetMany :: "codec \<Rightarrow> kv_fault \<Rightarrow> time \<Rightarrow> int list \<Rightarrow> kv \<Rightarrow> read_error + (int \<times> (string \<times> RegionState) list) list" where
  "GetMany js f now monitorIDs s =
     (case fst (HGetAllMulti f now (map state_Key monitorIDs) s) of
        Inl e \<Rightarrow> Inl (ReadStore e)
      | Inr raw \<Rightarrow> decode_many js (map_of (rev (map (\<lambda>i. (state_Key i, i)) monitorIDs))) raw)"

section \<open>Rollup\<close>

datatype Phase = PhasePending | PhaseRunning | PhaseComplete

record counts =
  cnt_total :: int
  cnt_terminal :: int
  cnt_scheduled :: int
  cnt_healthy :: int

definition count_state :: "RegionState \<Rightarrow> counts \<Rightarrow> counts" where
  "count_state rs c =
     (let c1 = c\<lparr>cnt_total := cnt_total c + 1\<rparr>
      in if rs_State rs = StateScheduled then c1\<lparr>cnt_scheduled := cnt_scheduled c1 + 1\<rparr>
         else if rs_State rs = StateDone \<or> rs_State rs = StateFailed
         then let c2 = c1\<lparr>cnt_terminal := cnt_terminal c1 + 1\<rparr>
              in if rs_Healthy rs = Some True then c2\<lparr>cnt_healthy := cnt_healthy c2 + 1\<rparr> else c2
         else c1)"

definition reduceHealthy :: "int \<Rightarrow> int \<Rightarrow> DownPolicy \<Rightarrow> bool" where
  "reduceHealthy healthy n policy =
     (let down = n - healthy
      in case policy of
           DownPolicyAll \<Rightarrow> down < n
         | DownPolicyQuorum \<Rightarrow> down * 2 \<le> n
         | _ \<Rightarrow> down = 0)"

definition Rollup :: "RegionState list \<Rightarrow> DownPolicy \<Rightarrow> Phase \<times> bool option" where
  "Rollup regions policy =
     (if regions = [] then (PhasePending, None)
      else let c = fold count_state regions \<lparr>cnt_total = 0, cnt_terminal = 0, cnt_scheduled = 0, cnt_healthy = 0\<rparr>
           in if cnt_terminal c = cnt_total c
              then (PhaseComplete, Some (reduceHealthy (cnt_healthy c) (cnt_total c) policy))
              else if cnt_scheduled c = cnt_total c then (PhasePending, None)
              else (PhaseRunning, None))"

definition is_terminal :: "RegionState \<Rightarrow> bool" where
  "is_terminal rs \<longleftrightarrow> rs_State rs \<in> {StateDone, StateFailed}"

definition count_of :: "('a \<Rightarrow> bool) \<Rightarrow> 'a list \<Rightarrow> int" where "count_of P xs = int (length (filter P xs))"

lemma count_of_simps [simp]: "count_of P [] = 0" "count_of P (x # xs) = (if P x then 1 else 0) + count_of P xs"
  by (simp_all add: count_of_def)

lemma count_of_all: "count_of P xs = int (length xs) \<longleftrightarrow> list_all P xs"
proof -
  have "count_of P xs = int (length xs) \<longleftrightarrow> length (filter P xs) = length xs" by (simp add: count_of_def)
  also have "\<dots> \<longleftrightarrow> filter P xs = xs" by (metis filter_id_conv length_filter_less less_irrefl)
  finally show ?thesis by (simp add: list_all_iff filter_id_conv)
qed

lemma count_of_zero: "count_of P xs = 0 \<longleftrightarrow> list_all (\<lambda>x. \<not> P x) xs"
  by (auto simp: count_of_def list_all_iff filter_empty_conv)

lemma count_of_nonneg: "0 \<le> count_of P xs"
  by (simp add: count_of_def)

lemma fold_count_state:
  "fold count_state regions c =
     \<lparr>cnt_total = cnt_total c + int (length regions),
      cnt_terminal = cnt_terminal c + count_of is_terminal regions,
      cnt_scheduled = cnt_scheduled c + count_of (\<lambda>rs. rs_State rs = StateScheduled) regions,
      cnt_healthy = cnt_healthy c + count_of (\<lambda>rs. is_terminal rs \<and> rs_Healthy rs = Some True) regions,
      \<dots> = counts.more c\<rparr>"
proof (induction regions arbitrary: c)
  case Nil
  then show ?case by simp
next
  case (Cons rs regions)
  show ?case by (simp add: Cons.IH) (simp add: count_state_def is_terminal_def state_defs Let_def)
qed

text \<open>
  The rollup of a monitor's regions, as a function of the set of states: pending when nothing has
  started, complete exactly when every region is terminal, running in between; a
  complete rollup is healthy under \<open>any\<close> when no region is down, under \<open>all\<close> when some region is up,
  under \<open>quorum\<close> when at least as many regions are up as down.  The verdict is never stricter under a
  weaker policy.
\<close>

theorem Rollup_spec:
  "fst (Rollup regions policy) =
     (if regions = [] \<or> list_all (\<lambda>rs. rs_State rs = StateScheduled) regions then PhasePending
      else if list_all is_terminal regions then PhaseComplete else PhaseRunning)
   \<and> (snd (Rollup regions policy) \<noteq> None \<longleftrightarrow> regions \<noteq> [] \<and> list_all is_terminal regions)
   \<and> (case snd (Rollup regions DownPolicyAny) of None \<Rightarrow> True | Some v \<Rightarrow> v = list_all (\<lambda>rs. rs_Healthy rs = Some True) regions)
   \<and> (case snd (Rollup regions DownPolicyAll) of None \<Rightarrow> True | Some v \<Rightarrow> v = list_ex (\<lambda>rs. rs_Healthy rs = Some True) regions)
   \<and> (case snd (Rollup regions DownPolicyQuorum) of None \<Rightarrow> True
      | Some v \<Rightarrow> v = (count_of (\<lambda>rs. rs_Healthy rs \<noteq> Some True) regions \<le> count_of (\<lambda>rs. rs_Healthy rs = Some True) regions))"
proof (cases "regions = []")
  case False
  let ?up = "\<lambda>rs. rs_Healthy rs = Some True"
  have split: "count_of ?up regions + count_of (\<lambda>rs. \<not> ?up rs) regions = int (length regions)"
    by (induction regions) auto
  have both: "\<not> (list_all is_terminal regions \<and> list_all (\<lambda>rs. rs_State rs = StateScheduled) regions)"
    using False by (cases regions) (auto simp: is_terminal_def state_defs)
  have up: "count_of (\<lambda>rs. is_terminal rs \<and> ?up rs) regions = count_of ?up regions" if "list_all is_terminal regions"
    using that by (induction regions) auto
  have none: "list_ex ?up regions \<longleftrightarrow> count_of ?up regions \<noteq> 0"
    by (simp add: count_of_zero list_ex_iff list_all_iff)
  have all: "list_all ?up regions \<longleftrightarrow> count_of ?up regions = int (length regions)"
    by (simp add: count_of_all)
  show ?thesis
  proof (cases "list_all is_terminal regions")
    case True
    then have R: "Rollup regions p = (PhaseComplete, Some (reduceHealthy (count_of ?up regions) (int (length regions)) p))" for p
      using False up by (simp add: Rollup_def fold_count_state count_of_all Let_def)
    from True both False split count_of_nonneg [of ?up regions] show ?thesis
      unfolding R none all by (auto simp: reduceHealthy_def)
  next
    case nt: False
    then show ?thesis
      using False by (simp add: Rollup_def fold_count_state count_of_all Let_def)
  qed
qed (simp add: Rollup_def)

section \<open>Time to live\<close>

lemma TTLFor_int32: "0 \<le> n \<Longrightarrow> n < 2 ^ 31 \<Longrightarrow> TTLFor n = max Hour (3 * n * Second)"
  by (simp add: TTLFor_def minTTL_def duration_defs Let_def max_def)

lemma TTLFor_ge: "Hour \<le> TTLFor n"
  by (simp add: TTLFor_def minTTL_def Let_def)

section \<open>Reading back\<close>

lemma decode_fields_keys: "decode_fields js h = Some out \<Longrightarrow> map fst out = map fst h"
  by (induction js h arbitrary: out rule: decode_fields.induct) (auto split: option.splits)

lemma decode_fields_map_of:
  "decode_fields js h = Some out \<Longrightarrow> map_of out r = (case map_of h r of None \<Rightarrow> None | Some v \<Rightarrow> snd js v)"
  by (induction js h arbitrary: out rule: decode_fields.induct) (auto split: option.splits)

lemma decode_fields_iff: "decode_fields js h \<noteq> None \<longleftrightarrow> list_all (\<lambda>(r, v). snd js v \<noteq> None) h"
  by (induction js h rule: decode_fields.induct) (auto split: option.splits)

text \<open>The hash of a monitor at a time, when it is well formed.\<close>

definition live_hash :: "time \<Rightarrow> kv \<Rightarrow> int \<Rightarrow> (string \<times> string) list \<Rightarrow> bool" where
  "live_hash now s i h \<longleftrightarrow> (if h = [] then kv_live now s (state_Key i) = None
     else (\<exists>e. kv_live now s (state_Key i) = Some (KvHash h, e)))"

lemma writeRegion_ok:
  assumes "live_hash now s i h"
  shows "\<exists>s'. writeRegion js (KvOk, KvOk) now i r n rs s = (Inr (), s')
     \<and> s' (state_Key i) = Some (KvHash (set_field r (fst js (rs\<lparr>rs_UpdatedAt := now\<rparr>)) h), Some (now + TTLFor n))
     \<and> (\<forall>k. k \<noteq> state_Key i \<longrightarrow> s' k = s k)"
  using assms
  by (auto simp: writeRegion_def live_hash_def kv_defs Let_def split: if_splits option.split dest: kv_live_expiry)

lemma live_hash_Get:
  "live_hash now s i h \<Longrightarrow> state_Get js KvOk now i s = decode js h"
  by (auto simp: live_hash_def state_Get_def kv_defs hash_of_def split: if_splits)

text \<open>
  What a writer of the live state puts into a region is what the pages read: until the time to live is
  over, which is three intervals and at least an hour, the region reads back as
  written with the time of the write, the other regions of the monitor read as before and so do all other monitors.
  The codec is assumed to read what it wrote, and the state before the write could be read.
\<close>

theorem region_roundtrip:
  assumes h: "live_hash now s i h" "state_Get js KvOk now i s = Inr old"
    and codec: "snd js (fst js (rs\<lparr>rs_UpdatedAt := now\<rparr>)) = Some (rs\<lparr>rs_UpdatedAt := now\<rparr>)"
    and n: "0 \<le> n" "n < 2 ^ 31" and t: "now \<le> t" "t < now + max Hour (3 * n * Second)"
    and j: "j \<noteq> i"
  shows "(case writeRegion js (KvOk, KvOk) now i r n rs s of
            (Inl _, s') \<Rightarrow> False
          | (Inr _, s') \<Rightarrow>
              (case state_Get js KvOk t i s' of
                 Inr (Some new) \<Rightarrow> map_of new r = Some (rs\<lparr>rs_UpdatedAt := now\<rparr>)
                   \<and> (r' = r \<or> map_of new r' = (case old of None \<Rightarrow> None | Some o' \<Rightarrow> map_of o' r'))
               | _ \<Rightarrow> False)
              \<and> state_Get js KvOk t j s' = state_Get js KvOk t j s)"
proof -
  let ?rs = "rs\<lparr>rs_UpdatedAt := now\<rparr>" and ?h' = "set_field r (fst js (rs\<lparr>rs_UpdatedAt := now\<rparr>)) h"
  obtain s' where w: "writeRegion js (KvOk, KvOk) now i r n rs s = (Inr (), s')"
    and s': "s' (state_Key i) = Some (KvHash ?h', Some (now + TTLFor n))" "\<And>k. k \<noteq> state_Key i \<Longrightarrow> s' k = s k"
    using writeRegion_ok [OF h(1), of js r n rs] by blast
  have k: "state_Key j \<noteq> state_Key i" using j Itoa_inj by (auto simp: state_Key_def)
  have "live_hash t s' i ?h'"
    using s'(1) t TTLFor_int32 [OF n] by (simp add: live_hash_def kv_live_def)
  then have get: "state_Get js KvOk t i s' = decode js ?h'" by (rule live_hash_Get)
  have old: "decode js h = Inr old" using h live_hash_Get by metis
  have "list_all (\<lambda>(r, v). snd js v \<noteq> None) h"
    using old decode_fields_iff [of js h] by (auto simp: decode_def split: if_splits option.splits)
  then have "decode_fields js ?h' \<noteq> None"
    unfolding decode_fields_iff using codec by (intro set_field_all) simp_all
  then obtain new where new: "decode_fields js ?h' = Some new" by blast
  have m: "map_of new q = (case map_of ?h' q of None \<Rightarrow> None | Some v \<Rightarrow> snd js v)" for q
    by (rule decode_fields_map_of [OF new])
  have o: "(case old of None \<Rightarrow> None | Some o' \<Rightarrow> map_of o' q) = (case map_of h q of None \<Rightarrow> None | Some v \<Rightarrow> snd js v)" for q
    using old decode_fields_map_of [of js h] by (auto simp: decode_def split: if_splits option.splits)
  have "state_Get js KvOk t j s' = state_Get js KvOk t j s"
    using s'(2) [OF k] by (simp add: state_Get_def kv_defs hash_of_def kv_live_def)
  then show ?thesis
    using w get new codec m [of r] m [of r'] o [of r'] by (simp add: decode_def map_of_set_field)
qed

definition ex_codec :: codec where
  "ex_codec = ((\<lambda>rs. rs_State rs), (\<lambda>v. Some ((region_state v)\<lparr>rs_UpdatedAt := 5\<rparr>)))"

theorem region_roundtrip_witness:
  "(case writeRegion ex_codec (KvOk, KvOk) 5 1 ''eu-central'' 60 (region_state StateRunning) Map.empty of
      (Inl _, s') \<Rightarrow> False
    | (Inr _, s') \<Rightarrow>
        (case state_Get ex_codec KvOk 100 1 s' of
           Inr (Some new) \<Rightarrow> map_of new ''eu-central'' = Some ((region_state StateRunning)\<lparr>rs_UpdatedAt := 5\<rparr>)
         | _ \<Rightarrow> False))"
proof -
  have "live_hash 5 Map.empty 1 []" by (simp add: live_hash_def kv_live_def)
  moreover have "state_Get ex_codec KvOk 5 1 Map.empty = Inr None"
    by (simp add: state_Get_def kv_defs hash_of_def kv_live_def decode_def)
  ultimately show ?thesis
    using region_roundtrip [of 5 Map.empty 1 "[]" ex_codec None "region_state StateRunning" 60 100 2 "''eu-central''" "''us-east''"]
    by (simp add: ex_codec_def region_state_def duration_defs split: prod.splits sum.splits option.splits)
qed

end
