(* ===== verification/Pulse_Monitor_Api.thy ===== *)
theory Pulse_Monitor_Api
  imports Pulse_Monitor_Input Pulse_Principal Pulse_Incident_Store Pulse_Checkstate Pulse_Events
begin

text \<open>
  The monitor handlers of \<open>internal/api/monitors.go\<close>: list, read, create, update, delete and the
  manual check with its rate limit, over the tables of the store, the key-value store, the
  published changes and the queued check jobs.  A handler gets the caller the middleware found, the plan
  text of the org (absent when it could not be read) and a fault for each of its store calls;
  it answers with the status of the response and its body.
\<close>

section \<open>Callers and responses\<close>

definition orgPlan :: "string option \<Rightarrow> Plan" where
  "orgPlan org = (case org of None \<Rightarrow> PlanTier1 | Some plan \<Rightarrow> ParsePlan plan)"

datatype monitorAction = authzView | authzManage

definition canMonitor :: "Principal \<Rightarrow> monitorAction \<Rightarrow> Decision" where
  "canMonitor p action =
     Can (principal_Actor p) (case action of authzManage \<Rightarrow> ActionManageMonitors | authzView \<Rightarrow> ActionViewMonitoring)
       (org_resource (p_OrgID p))"

record rateDecision =
  rd_allowed :: bool
  rd_retryAfter :: int
  rd_limit :: string
  rd_scope :: string
  rd_max :: int
  rd_windowSeconds :: int

datatype 'a response =
    Ok 'a | Unauthorized | Forbidden string | NotFound | Conflict string
  | Invalid field_errors | BodyRequired | LimitReached int | RateLimited rateDecision | ServerError

definition parseMonitorID :: "string \<Rightarrow> int option" where
  "parseMonitorID raw = (case Atoi raw of None \<Rightarrow> None | Some i \<Rightarrow> if i \<le> 0 then None else Some i)"

section \<open>State\<close>

record api_state =
  api_db :: db
  api_kv :: kv
  api_changed :: "(int \<times> int) list"
  api_jobs :: "CheckJob list"

record api_env =
  ae_ctx :: "Principal option"
  ae_plan :: "string option"
  ae_cipher :: cipher
  ae_Parse :: "string \<Rightarrow> url option"
  ae_SplitHostPort :: "string \<Rightarrow> (string \<times> string) option"
  ae_now :: time

definition api_limits :: "api_env \<Rightarrow> int \<Rightarrow> MonitorLimits" where
  "api_limits env orgID = DefaultMonitors_MonitorLimits orgID (orgPlan (ae_plan env))"

text \<open>The change signal: a failed publish is ignored, so that it may or may not arrive.\<close>

definition publishChanged :: "bool \<Rightarrow> int \<Rightarrow> int \<Rightarrow> api_state \<Rightarrow> api_state" where
  "publishChanged ok orgID monitorID s =
     (if ok then s\<lparr>api_changed := api_changed s @ [(orgID, monitorID)]\<rparr> else s)"

section \<open>Reads\<close>

record MonitorListItem =
  mli_Id :: string
  mli_Type :: MonitorType
  mli_Name :: string
  mli_Url :: string
  mli_Enabled :: bool
  mli_Status :: Status
  mli_LastCheckAt :: "time option"
  mli_NextCheckAt :: "time option"
  mli_IntervalSeconds :: int
  mli_LastLatencyMs :: "int option"
  mli_IncidentOpen :: bool
  mli_CertExpiresAt :: "time option"

definition DeriveStatus :: "bool \<Rightarrow> bool \<Rightarrow> bool \<Rightarrow> Status" where
  "DeriveStatus enabled hasResults openIncident =
     (if \<not> enabled then StatusDisabled
      else if \<not> hasResults then StatusPending
      else if openIncident then StatusDown
      else StatusUp)"

definition nextCheckAt :: "bool \<Rightarrow> time option \<Rightarrow> int \<Rightarrow> time option" where
  "nextCheckAt enabled lastCheckedAt intervalSeconds =
     (case lastCheckedAt of
        None \<Rightarrow> None
      | Some t \<Rightarrow> if \<not> enabled then None else Some (t + i64 (intervalSeconds * Second)))"

definition monitorListItemDTO :: "MonitorListRow \<Rightarrow> int \<Rightarrow> MonitorListItem" where
  "monitorListItemDTO row intervalFloor =
     (let m = mlr_Monitor row;
          status = DeriveStatus (mon_Enabled m) (mlr_LastCheckedAt row \<noteq> None) (mlr_IncidentOpen row);
          eff = (if mon_IntervalSeconds m < intervalFloor then intervalFloor else mon_IntervalSeconds m)
      in \<lparr>mli_Id = Itoa (mon_ID m), mli_Type = mon_Type m, mli_Name = mon_Name m, mli_Url = mon_URL m,
          mli_Enabled = mon_Enabled m, mli_Status = status, mli_LastCheckAt = mlr_LastCheckedAt row,
          mli_NextCheckAt = nextCheckAt (mon_Enabled m) (mlr_LastCheckedAt row) eff,
          mli_IntervalSeconds = eff, mli_LastLatencyMs = mlr_LastLatencyMs row,
          mli_IncidentOpen = mlr_IncidentOpen row, mli_CertExpiresAt = mlr_CertExpiresAt row\<rparr>)"

definition api_ListMonitors :: "api_env \<Rightarrow> fault \<Rightarrow> api_state \<Rightarrow> MonitorListItem list response \<times> api_state" where
  "api_ListMonitors env f s =
     (case humanInOrg (ae_ctx env) of
        None \<Rightarrow> (Unauthorized, s)
      | Some p \<Rightarrow>
          let d = canMonitor p authzView
          in if \<not> dec_Allowed d then (Forbidden (dec_Reason d), s)
             else case ListMonitors f (ae_cipher env) (p_OrgID p) (api_db s) of
                    (Inl _, db') \<Rightarrow> (ServerError, s\<lparr>api_db := db'\<rparr>)
                  | (Inr rows, db') \<Rightarrow>
                      (Ok (map (\<lambda>row. monitorListItemDTO row (EffectiveIntervalFloor (api_limits env (p_OrgID p)))) rows),
                       s\<lparr>api_db := db'\<rparr>))"

text \<open>The read of one monitor; an ssl monitor comes with its certificate.\<close>

definition api_GetMonitor :: "api_env \<Rightarrow> fault \<times> fault \<Rightarrow> string \<Rightarrow> api_state
    \<Rightarrow> (MonitorDTO \<times> CertInfo option) response \<times> api_state" where
  "api_GetMonitor env f rawID s =
     (case humanInOrg (ae_ctx env) of
        None \<Rightarrow> (Unauthorized, s)
      | Some p \<Rightarrow>
          let d = canMonitor p authzView
          in if \<not> dec_Allowed d then (Forbidden (dec_Reason d), s)
             else case parseMonitorID rawID of
               None \<Rightarrow> (NotFound, s)
             | Some i \<Rightarrow>
                 (case GetMonitor (fst f) (ae_cipher env) (p_OrgID p) i (api_db s) of
                    (Inl e, db1) \<Rightarrow> (if e = ErrNoRows then NotFound else ServerError, s\<lparr>api_db := db1\<rparr>)
                  | (Inr m, db1) \<Rightarrow>
                      if mon_Type m = MonitorSSL
                      then (case GetMonitorCert (snd f) (p_OrgID p) i db1 of
                              (Inl _, db2) \<Rightarrow> (ServerError, s\<lparr>api_db := db2\<rparr>)
                            | (Inr cert, db2) \<Rightarrow> (Ok (monitorDTO m, cert), s\<lparr>api_db := db2\<rparr>))
                      else (Ok (monitorDTO m, None), s\<lparr>api_db := db1\<rparr>)))"

section \<open>Writes\<close>

text \<open>The cap of enabled monitors: the reply, if the request ends here.\<close>

definition cap_check :: "fault \<Rightarrow> MonitorLimits \<Rightarrow> int \<Rightarrow> bool \<Rightarrow> db \<Rightarrow> 'a response option \<times> db" where
  "cap_check f limits orgID counts db =
     (if \<not> counts then (None, db)
      else case CountEnabledMonitors f orgID db of
             (Inl _, db') \<Rightarrow> (Some ServerError, db')
           | (Inr used, db') \<Rightarrow>
               (if used \<ge> ml_MonitorsCap limits then Some (LimitReached (ml_MonitorsCap limits)) else None, db'))"

definition api_CreateMonitor :: "api_env \<Rightarrow> fault \<times> fault \<Rightarrow> bool \<Rightarrow> MonitorInput option \<Rightarrow> api_state
    \<Rightarrow> MonitorDTO response \<times> api_state" where
  "api_CreateMonitor env f published body s =
     (case humanInOrg (ae_ctx env) of
        None \<Rightarrow> (Unauthorized, s)
      | Some p \<Rightarrow>
          let d = canMonitor p authzManage
          in if \<not> dec_Allowed d then (Forbidden (dec_Reason d), s)
             else case body of
               None \<Rightarrow> (BodyRequired, s)
             | Some inp \<Rightarrow>
                 let limits = api_limits env (p_OrgID p);
                     (m, fieldErrs) = monitorFromInput (ae_Parse env) (ae_SplitHostPort env) (p_OrgID p) 0 inp limits
                 in if fieldErrs \<noteq> [] then (Invalid fieldErrs, s)
                    else case cap_check (fst f) limits (p_OrgID p) (mon_Enabled m) (api_db s) of
                      (Some r, db1) \<Rightarrow> (r, s\<lparr>api_db := db1\<rparr>)
                    | (None, db1) \<Rightarrow>
                        (case CreateMonitor (snd f) (ae_cipher env) (ae_now env) m db1 of
                           (Inl _, db2) \<Rightarrow> (ServerError, s\<lparr>api_db := db2\<rparr>)
                         | (Inr newID, db2) \<Rightarrow>
                             (Ok (monitorDTO ((monitor_defaults m)\<lparr>mon_ID := newID\<rparr>)),
                              publishChanged published (p_OrgID p) newID (s\<lparr>api_db := db2\<rparr>))))"

definition api_UpdateMonitor :: "api_env \<Rightarrow> fault \<times> fault \<times> fault \<Rightarrow> bool \<Rightarrow> string \<Rightarrow> MonitorInput option \<Rightarrow> api_state
    \<Rightarrow> MonitorDTO response \<times> api_state" where
  "api_UpdateMonitor env f published rawID body s =
     (case humanInOrg (ae_ctx env) of
        None \<Rightarrow> (Unauthorized, s)
      | Some p \<Rightarrow>
          let d = canMonitor p authzManage
          in if \<not> dec_Allowed d then (Forbidden (dec_Reason d), s)
             else case body of
               None \<Rightarrow> (BodyRequired, s)
             | Some inp \<Rightarrow>
                 (case parseMonitorID rawID of
                    None \<Rightarrow> (NotFound, s)
                  | Some i \<Rightarrow>
                      (case GetMonitor (fst f) (ae_cipher env) (p_OrgID p) i (api_db s) of
                         (Inl e, db1) \<Rightarrow> (if e = ErrNoRows then NotFound else ServerError, s\<lparr>api_db := db1\<rparr>)
                       | (Inr existing, db1) \<Rightarrow>
                           let limits = api_limits env (p_OrgID p);
                               (m, fieldErrs) = monitorFromInput (ae_Parse env) (ae_SplitHostPort env) (p_OrgID p) i inp limits
                           in if fieldErrs \<noteq> [] then (Invalid fieldErrs, s\<lparr>api_db := db1\<rparr>)
                              else case cap_check (fst (snd f)) limits (p_OrgID p)
                                          (mon_Enabled m \<and> \<not> mon_Enabled existing) db1 of
                                (Some r, db2) \<Rightarrow> (r, s\<lparr>api_db := db2\<rparr>)
                              | (None, db2) \<Rightarrow>
                                  (case UpdateMonitor (snd (snd f)) (ae_cipher env) (ae_now env) m db2 of
                                     (Inl e, db3) \<Rightarrow> (if e = ErrNoRows then NotFound else ServerError, s\<lparr>api_db := db3\<rparr>)
                                   | (Inr updated, db3) \<Rightarrow>
                                       (Ok (monitorDTO updated),
                                        publishChanged published (p_OrgID p) (mon_ID updated) (s\<lparr>api_db := db3\<rparr>))))))"

definition api_DeleteMonitor :: "api_env \<Rightarrow> fault \<Rightarrow> bool \<Rightarrow> string \<Rightarrow> api_state \<Rightarrow> unit response \<times> api_state" where
  "api_DeleteMonitor env f published rawID s =
     (case humanInOrg (ae_ctx env) of
        None \<Rightarrow> (Unauthorized, s)
      | Some p \<Rightarrow>
          let d = canMonitor p authzManage
          in if \<not> dec_Allowed d then (Forbidden (dec_Reason d), s)
             else case parseMonitorID rawID of
               None \<Rightarrow> (Ok (), s)
             | Some i \<Rightarrow>
                 (case DeleteMonitor f (p_OrgID p) i (api_db s) of
                    (Inl _, db1) \<Rightarrow> (ServerError, s\<lparr>api_db := db1\<rparr>)
                  | (Inr _, db1) \<Rightarrow> (Ok (), publishChanged published (p_OrgID p) i (s\<lparr>api_db := db1\<rparr>))))"

section \<open>Manual checks\<close>

text \<open>The faults of the commands of the rate limit.\<close>

record gate_faults =
  gf_peek :: kv_fault
  gf_claim :: kv_fault
  gf_incr :: kv_fault
  gf_expire :: kv_fault
  gf_ttl :: kv_fault

definition retryAfterFrom :: "kv_fault \<Rightarrow> time \<Rightarrow> string \<Rightarrow> duration \<Rightarrow> kv \<Rightarrow> int" where
  "retryAfterFrom f now k full s =
     (let remaining = (case fst (kv_TTL f now k s) of Inr ttl \<Rightarrow> if ttl > 0 then ttl else full | Inl _ \<Rightarrow> full);
          secs = whole_seconds remaining
      in if secs < 1 then 1 else secs)"

definition cdKey :: "int \<Rightarrow> int \<Rightarrow> string" where
  "cdKey orgID monitorID = ''checknow:cd:'' @ Itoa orgID @ '':'' @ Itoa monitorID"

definition winKey :: "int \<Rightarrow> string" where "winKey orgID = ''checknow:win:'' @ Itoa orgID"

definition rate_allowed :: rateDecision where
  "rate_allowed = \<lparr>rd_allowed = True, rd_retryAfter = 0, rd_limit = '''', rd_scope = '''', rd_max = 0, rd_windowSeconds = 0\<rparr>"

definition checkNowAllowed :: "gate_faults \<Rightarrow> time \<Rightarrow> int \<Rightarrow> int \<Rightarrow> CheckNowLimits \<Rightarrow> kv \<Rightarrow> rateDecision \<times> kv" where
  "checkNowAllowed f now orgID monitorID lm s =
     (let cd = cdKey orgID monitorID;
          win = winKey orgID;
          window = cn_WindowSeconds lm * Second;
          cooldown = cn_CooldownSeconds lm * Second;
          window_hit = (\<lambda>st. \<lparr>rd_allowed = False, rd_retryAfter = retryAfterFrom (gf_ttl f) now win window st,
                              rd_limit = ''window'', rd_scope = ''org'', rd_max = cn_MaxPerWindow lm,
                              rd_windowSeconds = cn_WindowSeconds lm\<rparr>)
      in if (case fst (GetCache (gf_peek f) now win s) of
               Inr (Some v) \<Rightarrow> (case Atoi v of Some n \<Rightarrow> n \<ge> cn_MaxPerWindow lm | None \<Rightarrow> False)
             | _ \<Rightarrow> False)
         then (window_hit s, s)
         else case SetIfAbsent (gf_claim f) now cd ''1'' cooldown s of
                (Inl _, s1) \<Rightarrow> (rate_allowed, s1)
              | (Inr False, s1) \<Rightarrow>
                  (\<lparr>rd_allowed = False, rd_retryAfter = retryAfterFrom (gf_ttl f) now cd cooldown s1, rd_limit = ''burst'',
                    rd_scope = ''monitor'', rd_max = 1, rd_windowSeconds = cn_CooldownSeconds lm\<rparr>, s1)
              | (Inr True, s1) \<Rightarrow>
                  (case Incr (gf_incr f) now win s1 of
                     (Inl _, s2) \<Rightarrow> (rate_allowed, s2)
                   | (Inr n, s2) \<Rightarrow>
                       let s3 = (if n = 1 then snd (Expire (gf_expire f) now win window s2) else s2)
                       in if n > cn_MaxPerWindow lm then (window_hit s3, s3) else (rate_allowed, s3)))"

text \<open>The fan-out: one job per region, each with the faults of its state write and of its publish.\<close>

record job_faults =
  jf_state :: "kv_fault \<times> kv_fault"
  jf_publish :: bool

definition check_job :: "Monitor \<Rightarrow> int \<Rightarrow> string \<Rightarrow> time \<Rightarrow> CheckJob" where
  "check_job m orgID region now =
     \<lparr>job_JobID = ''checknow:'' @ Itoa (mon_ID m) @ '':'' @ region @ '':'' @ Itoa (now div Second),
      job_OrgID = orgID, job_Region = region, job_ScheduledAt = now, job_Monitor = m\<rparr>"

fun fan_out :: "codec \<Rightarrow> time \<Rightarrow> int \<Rightarrow> Monitor \<Rightarrow> (string \<times> job_faults) list \<Rightarrow> api_state \<Rightarrow> bool \<times> api_state" where
  "fan_out js now orgID m [] s = (True, s)"
| "fan_out js now orgID m ((region, f) # rest) s =
     (case SetScheduled js (jf_state f) now (mon_ID m) region (mon_IntervalSeconds m) (api_kv s) of
        (Inl _, kv1) \<Rightarrow> (False, s\<lparr>api_kv := kv1\<rparr>)
      | (Inr _, kv1) \<Rightarrow>
          let s1 = s\<lparr>api_kv := kv1\<rparr>
          in if \<not> jf_publish f then (False, s1)
             else fan_out js now orgID m rest (s1\<lparr>api_jobs := api_jobs s1 @ [check_job m orgID region now]\<rparr>))"

definition check_regions :: "Monitor \<Rightarrow> string list" where
  "check_regions m = (if mon_Regions m = [] then [DefaultRegion] else mon_Regions m)"

definition api_CheckNow :: "api_env \<Rightarrow> codec \<Rightarrow> fault \<Rightarrow> gate_faults \<Rightarrow> (string \<Rightarrow> job_faults) \<Rightarrow> string \<Rightarrow> api_state
    \<Rightarrow> (string \<times> string list) response \<times> api_state" where
  "api_CheckNow env js f gf jf rawID s =
     (case humanInOrg (ae_ctx env) of
        None \<Rightarrow> (Unauthorized, s)
      | Some p \<Rightarrow>
          let d = canMonitor p authzManage
          in if \<not> dec_Allowed d then (Forbidden (dec_Reason d), s)
             else let plan = orgPlan (ae_plan env)
             in if p_Kind p = ActorAPIKey \<and> \<not> APIWriteAllowed plan then (Forbidden ''your plan's API access is read-only; upgrade to trigger checks via the API'', s)
             else case parseMonitorID rawID of
               None \<Rightarrow> (NotFound, s)
             | Some i \<Rightarrow>
                 (case GetMonitor f (ae_cipher env) (p_OrgID p) i (api_db s) of
                    (Inl e, db1) \<Rightarrow> (if e = ErrNoRows then NotFound else ServerError, s\<lparr>api_db := db1\<rparr>)
                  | (Inr m, db1) \<Rightarrow>
                      if \<not> mon_Enabled m then (Conflict ''enable the monitor to run a check'', s\<lparr>api_db := db1\<rparr>)
                      else case checkNowAllowed gf (ae_now env) (p_OrgID p) (mon_ID m) (CheckNowLimitsFor plan) (api_kv s) of
                        (dec, kv1) \<Rightarrow>
                          if \<not> rd_allowed dec then (RateLimited dec, s\<lparr>api_db := db1, api_kv := kv1\<rparr>)
                          else (case fan_out js (ae_now env) (p_OrgID p) m (map (\<lambda>r. (r, jf r)) (check_regions m))
                                       (s\<lparr>api_db := db1, api_kv := kv1\<rparr>) of
                                  (False, s2) \<Rightarrow> (ServerError, s2)
                                | (True, s2) \<Rightarrow> (Ok (Itoa (mon_ID m), check_regions m), s2))))"

section \<open>The effect of a request\<close>

datatype api_request =
    ReqList fault
  | ReqGet "fault \<times> fault" string
  | ReqCreate "fault \<times> fault" bool "MonitorInput option"
  | ReqUpdate "fault \<times> fault \<times> fault" bool string "MonitorInput option"
  | ReqDelete fault bool string
  | ReqCheckNow codec fault gate_faults "string \<Rightarrow> job_faults" string

fun serve :: "api_env \<Rightarrow> api_request \<Rightarrow> api_state \<Rightarrow> api_state" where
  "serve env (ReqList f) s = snd (api_ListMonitors env f s)"
| "serve env (ReqGet f i) s = snd (api_GetMonitor env f i s)"
| "serve env (ReqCreate f pub body) s = snd (api_CreateMonitor env f pub body s)"
| "serve env (ReqUpdate f pub i body) s = snd (api_UpdateMonitor env f pub i body s)"
| "serve env (ReqDelete f pub i) s = snd (api_DeleteMonitor env f pub i s)"
| "serve env (ReqCheckNow js f gf jf i) s = snd (api_CheckNow env js f gf jf i s)"

definition enabled_count :: "db \<Rightarrow> int \<Rightarrow> int" where
  "enabled_count db orgID = int (length (filter (\<lambda>r. row_OrgID r = orgID \<and> mon_Enabled (row_Monitor r)) (db_monitors db)))"

text \<open>
  What a request of a caller in org \<open>orgID\<close> can do to the tables: nothing, or one write of the store with
  a monitor that passed the validation, after the cap was checked where the write enables a monitor.
\<close>

inductive api_effect :: "MonitorLimits \<Rightarrow> int \<Rightarrow> db \<Rightarrow> db \<Rightarrow> bool" for limits orgID where
  unchanged: "api_effect limits orgID db db"
| created: "api_effect limits orgID db (snd (CreateMonitor f c now m db))"
    if "accepted_monitor limits m" "mon_OrgID m = orgID"
      "mon_Enabled m \<Longrightarrow> enabled_count db orgID < ml_MonitorsCap limits"
| updated: "api_effect limits orgID db (snd (UpdateMonitor f c now m db))"
    if "accepted_monitor limits m" "mon_OrgID m = orgID" "select_monitor db orgID (mon_ID m) = Some old"
      "mon_Enabled m \<Longrightarrow> mon_Enabled (row_Monitor old) \<or> enabled_count db orgID < ml_MonitorsCap limits"
| deleted: "api_effect limits orgID db (snd (DeleteMonitor f orgID i db))"

lemma WithOrg_read_db: "WithOrg f (\<lambda>db. (q db, db)) db = (r, db') \<Longrightarrow> db' = db"
  using WithOrg_read [of f q db] by simp

lemma GetMonitor_db: "GetMonitor f c org i db = (r, db') \<Longrightarrow> db' = db"
  unfolding GetMonitor_def by (rule WithOrg_read_db)

lemma CountEnabled_db: "CountEnabledMonitors f org db = (r, db') \<Longrightarrow> db' = db"
  unfolding CountEnabledMonitors_def by (rule WithOrg_read_db)

lemma CountEnabled_Inr: "CountEnabledMonitors f org db = (Inr n, db') \<Longrightarrow> n = enabled_count db org"
  by (auto simp: CountEnabledMonitors_def WithOrg_def enabled_count_def split: if_splits)

lemma ListMonitors_db: "ListMonitors f c org db = (r, db') \<Longrightarrow> db' = db"
  unfolding ListMonitors_def by (rule WithOrg_read_db)

lemma GetMonitorCert_db: "GetMonitorCert f org i db = (r, db') \<Longrightarrow> db' = db"
  unfolding GetMonitorCert_def by (rule WithOrg_read_db)

lemmas read_db = GetMonitor_db CountEnabled_db ListMonitors_db GetMonitorCert_db

lemma GetMonitor_Inr:
  "GetMonitor f c org i db = (Inr m, db') \<Longrightarrow>
     \<exists>row. select_monitor db org i = Some row \<and> mon_Enabled (row_Monitor row) = mon_Enabled m"
  by (auto simp: GetMonitor_def WithOrg_def scanMonitor_def split: if_splits option.splits sum.splits)

lemma cap_check_None:
  "cap_check f limits org b db = (None, db') \<Longrightarrow> db' = db \<and> (b \<longrightarrow> enabled_count db org < ml_MonitorsCap limits)"
  by (auto simp: cap_check_def split: if_splits prod.splits sum.splits dest: CountEnabled_db CountEnabled_Inr)

lemma cap_check_Some: "cap_check f limits org b db = (Some r, db') \<Longrightarrow> db' = db"
  by (auto simp: cap_check_def split: if_splits prod.splits sum.splits dest: CountEnabled_db)

lemma api_limits_sound:
  assumes "monitorFromInput (ae_Parse env) (ae_SplitHostPort env) org i inp (api_limits env org) = (m, [])"
  shows "accepted_monitor (api_limits env org) m" "mon_OrgID m = org" "mon_ID m = i" "mon_Enabled m = in_Enabled inp"
  using monitorFromInput_accepted [of "ae_Parse env" "ae_SplitHostPort env" org i inp "orgPlan (ae_plan env)" m] assms
  by (simp_all add: api_limits_def)

lemma publishChanged_db [simp]: "api_db (publishChanged ok org i s) = api_db s"
  by (simp add: publishChanged_def)

lemma fan_out_db: "fan_out js now org m rs s = (b, s') \<Longrightarrow> api_db s' = api_db s"
  by (induction js now org m rs s rule: fan_out.induct) (auto simp: Let_def split: prod.splits sum.splits if_splits)

lemma create_effect:
  assumes "humanInOrg (ae_ctx env) = Some p"
  shows "api_effect (api_limits env (p_OrgID p)) (p_OrgID p) (api_db s) (api_db (snd (api_CreateMonitor env f pub body s)))"
proof (cases body)
  case None
  then show ?thesis using assms by (simp add: api_CreateMonitor_def api_effect.unchanged Let_def)
next
  case (Some inp)
  obtain m errs where i: "monitorFromInput (ae_Parse env) (ae_SplitHostPort env) (p_OrgID p) 0 inp (api_limits env (p_OrgID p)) = (m, errs)"
    by fastforce
  show ?thesis
  proof (cases "dec_Allowed (canMonitor p authzManage) \<and> errs = []")
    case False
    then show ?thesis using assms Some i by (auto simp: api_CreateMonitor_def api_effect.unchanged Let_def)
  next
    case True
    note ok = api_limits_sound [of env "p_OrgID p" 0 inp m] i True
    obtain r :: "MonitorDTO response option" and db1 where c: "cap_check (fst f) (api_limits env (p_OrgID p)) (p_OrgID p) (mon_Enabled m) (api_db s) = (r, db1)"
      by fastforce
    show ?thesis
    proof (cases r)
      case None
      with c have d: "db1 = api_db s" and cap: "mon_Enabled m \<Longrightarrow> enabled_count (api_db s) (p_OrgID p) < ml_MonitorsCap (api_limits env (p_OrgID p))"
        using cap_check_None by blast+
      have "api_db (snd (api_CreateMonitor env f pub body s)) = snd (CreateMonitor (snd f) (ae_cipher env) (ae_now env) m (api_db s))"
        using assms Some i True c None d
        by (simp add: api_CreateMonitor_def Let_def split: prod.split sum.split)
      then show ?thesis using ok cap by (auto intro!: api_effect.created)
    next
      case (Some r')
      with c have "db1 = api_db s" by (auto dest: cap_check_Some)
      then show ?thesis using assms \<open>body = Some inp\<close> i True c Some
        by (simp add: api_CreateMonitor_def Let_def api_effect.unchanged)
    qed
  qed
qed

lemma update_effect:
  assumes "humanInOrg (ae_ctx env) = Some p"
  shows "api_effect (api_limits env (p_OrgID p)) (p_OrgID p) (api_db s) (api_db (snd (api_UpdateMonitor env f pub rawID body s)))"
proof -
  let ?o = "p_OrgID p" and ?L = "api_limits env (p_OrgID p)"
  consider "api_db (snd (api_UpdateMonitor env f pub rawID body s)) = api_db s"
    | inp i existing m where "body = Some inp" "parseMonitorID rawID = Some i"
        "GetMonitor (fst f) (ae_cipher env) ?o i (api_db s) = (Inr existing, api_db s)"
        "monitorFromInput (ae_Parse env) (ae_SplitHostPort env) ?o i inp ?L = (m, [])"
        "mon_Enabled m \<and> \<not> mon_Enabled existing \<longrightarrow> enabled_count (api_db s) ?o < ml_MonitorsCap ?L"
        "api_db (snd (api_UpdateMonitor env f pub rawID body s)) =
           snd (UpdateMonitor (snd (snd f)) (ae_cipher env) (ae_now env) m (api_db s))"
  proof (cases "dec_Allowed (canMonitor p authzManage)")
    case False
    then show ?thesis using assms that(1) by (simp add: api_UpdateMonitor_def Let_def)
  next
    case al: True
    show ?thesis
    proof (cases "body = None \<or> parseMonitorID rawID = None")
      case True
      then show ?thesis using assms al that(1) by (auto simp: api_UpdateMonitor_def Let_def split: option.splits)
    next
      case False
      then obtain inp i where bi: "body = Some inp" "parseMonitorID rawID = Some i" by auto
      obtain g db1 where g: "GetMonitor (fst f) (ae_cipher env) ?o i (api_db s) = (g, db1)" by fastforce
      then have db1: "db1 = api_db s" using GetMonitor_db by blast
      obtain m errs where mi: "monitorFromInput (ae_Parse env) (ae_SplitHostPort env) ?o i inp ?L = (m, errs)" by fastforce
      show ?thesis
      proof (cases "\<exists>existing. g = Inr existing \<and> errs = []")
        case False
        then show ?thesis using assms al bi g db1 mi that(1)
          by (cases g) (auto simp: api_UpdateMonitor_def Let_def)
      next
        case True
        then obtain existing where ex: "g = Inr existing" "errs = []" by blast
        obtain r :: "MonitorDTO response option" and db2 where
          c: "cap_check (fst (snd f)) ?L ?o (mon_Enabled m \<and> \<not> mon_Enabled existing) (api_db s) = (r, db2)" by fastforce
        show ?thesis
        proof (cases r)
          case None
          then have "db2 = api_db s" "mon_Enabled m \<and> \<not> mon_Enabled existing \<longrightarrow> enabled_count (api_db s) ?o < ml_MonitorsCap ?L"
            using cap_check_None c by blast+
          then show ?thesis using assms al bi g db1 mi ex c None
            by (intro that(2) [of inp i existing m]) (simp_all add: api_UpdateMonitor_def Let_def split: prod.split sum.split)
        next
          case (Some r')
          with c have "db2 = api_db s" by (auto dest: cap_check_Some)
          then show ?thesis using assms al bi g db1 mi ex c Some
            by (intro that(1)) (simp add: api_UpdateMonitor_def Let_def)
        qed
      qed
    qed
  qed
  then show ?thesis
  proof cases
    case 1
    then show ?thesis by (simp add: api_effect.unchanged)
  next
    case (2 inp i existing m)
    obtain old where "select_monitor (api_db s) ?o i = Some old" "mon_Enabled (row_Monitor old) = mon_Enabled existing"
      using GetMonitor_Inr [OF 2(3)] by blast
    then show ?thesis unfolding 2(6)
      using api_limits_sound [OF 2(4)] 2(5) by (intro api_effect.updated [of _ _ _ _ old]) auto
  qed
qed

lemma delete_effect:
  assumes "humanInOrg (ae_ctx env) = Some p"
  shows "api_effect (api_limits env (p_OrgID p)) (p_OrgID p) (api_db s) (api_db (snd (api_DeleteMonitor env f pub rawID s)))"
proof (cases "dec_Allowed (canMonitor p authzManage) \<and> parseMonitorID rawID \<noteq> None")
  case False
  then show ?thesis using assms by (auto simp: api_DeleteMonitor_def Let_def intro: api_effect.unchanged split: option.splits)
next
  case True
  then obtain i where "parseMonitorID rawID = Some i" by blast
  then have "api_db (snd (api_DeleteMonitor env f pub rawID s)) = snd (DeleteMonitor f (p_OrgID p) i (api_db s))"
    using True assms by (simp add: api_DeleteMonitor_def Let_def split: prod.split sum.split)
  then show ?thesis by (simp add: api_effect.deleted)
qed

lemma read_effect:
  "api_db (snd (api_ListMonitors env f s)) = api_db s"
  "api_db (snd (api_GetMonitor env f2 rawID s)) = api_db s"
  "api_db (snd (api_CheckNow env js f gf jf rawID s)) = api_db s"
proof -
  show "api_db (snd (api_ListMonitors env f s)) = api_db s"
    by (simp add: api_ListMonitors_def Let_def split: option.split prod.split sum.split) (auto dest: read_db)
  show "api_db (snd (api_GetMonitor env f2 rawID s)) = api_db s"
    by (simp add: api_GetMonitor_def Let_def split: option.split prod.split sum.split) (auto dest: read_db)
  show "api_db (snd (api_CheckNow env js f gf jf rawID s)) = api_db s"
    by (simp add: api_CheckNow_def Let_def split: option.split prod.split sum.split bool.split)
       (auto dest!: GetMonitor_db fan_out_db)
qed

lemma no_caller:
  "humanInOrg (ae_ctx env) = None \<Longrightarrow> serve env req s = s"
  by (cases req) (simp_all add: api_ListMonitors_def api_GetMonitor_def api_CreateMonitor_def api_UpdateMonitor_def
      api_DeleteMonitor_def api_CheckNow_def)

lemma serve_effect:
  assumes "humanInOrg (ae_ctx env) = Some p"
  shows "api_effect (api_limits env (p_OrgID p)) (p_OrgID p) (api_db s) (api_db (serve env req s))"
  by (cases req) (simp_all add: create_effect update_effect delete_effect read_effect api_effect.unchanged assms)

section \<open>Tenants and caps\<close>

lemma rolled_back_monitors [simp]: "db_monitors (rolled_back db db2) = db_monitors db"
  by (simp add: rolled_back_def)

text \<open>The rows of the monitors after each write.\<close>

lemma CreateMonitor_rows:
  "db_monitors (snd (CreateMonitor f c now m db)) = db_monitors db
   \<or> (\<exists>row. db_monitors (snd (CreateMonitor f c now m db)) = db_monitors db @ [row]
        \<and> row_OrgID row = mon_OrgID m \<and> mon_Enabled (row_Monitor row) = mon_Enabled m)"
  by (simp add: CreateMonitor_def WithOrg_def Let_def split: option.split)
     (auto simp: monitor_defaults_def Let_def)

lemma UpdateMonitor_rows:
  "db_monitors (snd (UpdateMonitor f c now m db)) = db_monitors db
   \<or> (\<exists>new. mon_ID new = mon_ID m \<and> mon_OrgID new = mon_OrgID m \<and> mon_Enabled new = mon_Enabled m
        \<and> db_monitors (snd (UpdateMonitor f c now m db)) =
           map (\<lambda>r. if row_ID r = mon_ID m \<and> row_OrgID r = mon_OrgID m then r\<lparr>row_Monitor := new\<rparr> else r) (db_monitors db))"
proof (cases "encodeHeaders c (mon_Headers (monitor_defaults m))")
  case None
  then show ?thesis by (simp add: UpdateMonitor_def Let_def)
next
  case (Some hs)
  have d: "mon_ID (monitor_defaults m) = mon_ID m" "mon_OrgID (monitor_defaults m) = mon_OrgID m"
    "mon_Enabled (monitor_defaults m) = mon_Enabled m" by (simp_all add: monitor_defaults_def Let_def)
  show ?thesis
  proof (cases "select_monitor db (mon_OrgID m) (mon_ID m)")
    case None
    then show ?thesis using Some d by (simp add: UpdateMonitor_def Let_def WithOrg_def)
  next
    case row: (Some old)
    let ?new = "(monitor_defaults m)\<lparr>mon_Headers := hs, mon_UpdatedAt := now, mon_CreatedAt := mon_CreatedAt (row_Monitor old)\<rparr>"
    have "db_monitors (snd (UpdateMonitor f c now m db)) = db_monitors db
      \<or> db_monitors (snd (UpdateMonitor f c now m db)) =
           map (\<lambda>r. if row_ID r = mon_ID m \<and> row_OrgID r = mon_OrgID m then r\<lparr>row_Monitor := ?new\<rparr> else r) (db_monitors db)"
      using Some row d by (simp add: UpdateMonitor_def Let_def WithOrg_def split: sum.split)
    then show ?thesis
    proof
      assume "db_monitors (snd (UpdateMonitor f c now m db)) =
           map (\<lambda>r. if row_ID r = mon_ID m \<and> row_OrgID r = mon_OrgID m then r\<lparr>row_Monitor := ?new\<rparr> else r) (db_monitors db)"
      then show ?thesis using d by (intro disjI2 exI [of _ ?new]) simp
    qed simp
  qed
qed

lemma DeleteMonitor_rows:
  "db_monitors (snd (DeleteMonitor f org i db)) = db_monitors db
   \<or> db_monitors (snd (DeleteMonitor f org i db)) = filter (\<lambda>r. \<not> (row_ID r = i \<and> row_OrgID r = org)) (db_monitors db)"
  by (simp add: DeleteMonitor_def WithOrg_def Let_def)

lemma filter_map_other:
  "(\<And>r. P r \<Longrightarrow> g r = r) \<Longrightarrow> (\<And>r. \<not> P r \<Longrightarrow> \<not> P (g r)) \<Longrightarrow> filter P (map g xs) = filter P xs"
  by (induction xs) auto

lemma length_filter_map_one:
  assumes "distinct (map key xs)"
  shows "length (filter P (map (\<lambda>x. if key x = k then g x else x) xs)) \<le> Suc (length (filter P xs))"
  using assms
proof (induction xs)
  case (Cons x xs)
  show ?case
  proof (cases "key x = k")
    case True
    then have "map (\<lambda>x. if key x = k then g x else x) xs = xs" using Cons.prems by (auto intro!: map_idI) (metis imageI)
    then show ?thesis by simp
  next
    case False
    then show ?thesis using Cons by simp
  qed
qed simp

lemma length_filter_map_le:
  "(\<And>x. x \<in> set xs \<Longrightarrow> P (h x) \<Longrightarrow> P x) \<Longrightarrow> length (filter P (map h xs)) \<le> length (filter P xs)"
  by (induction xs) (auto simp: le_SucI)

lemma api_effect_other_orgs:
  assumes "api_effect limits org db db'"
  shows "filter (\<lambda>r. row_OrgID r \<noteq> org) (db_monitors db') = filter (\<lambda>r. row_OrgID r \<noteq> org) (db_monitors db)"
  using assms
proof cases
  case (created m f c now)
  then show ?thesis using CreateMonitor_rows [of f c now m db] by auto
next
  case (updated m old f c now)
  from UpdateMonitor_rows [of f c now m db] show ?thesis
  proof
    assume "\<exists>new. mon_ID new = mon_ID m \<and> mon_OrgID new = mon_OrgID m \<and> mon_Enabled new = mon_Enabled m
        \<and> db_monitors (snd (UpdateMonitor f c now m db)) =
           map (\<lambda>r. if row_ID r = mon_ID m \<and> row_OrgID r = mon_OrgID m then r\<lparr>row_Monitor := new\<rparr> else r) (db_monitors db)"
    then show ?thesis using updated by (auto intro!: filter_map_other split: if_splits)
  qed (use updated in simp)
next
  case (deleted f i)
  have k: "filter (\<lambda>r. row_OrgID r \<noteq> org) (filter (\<lambda>r. \<not> (row_ID r = i \<and> row_OrgID r = org)) rows) =
      filter (\<lambda>r. row_OrgID r \<noteq> org) rows" for rows by (induction rows) auto
  from DeleteMonitor_rows [of f org i db] show ?thesis
    unfolding deleted(1) by (rule disjE) (simp_all only: k)
qed simp

lemma api_effect_cap:
  assumes "api_effect limits org db db'" and wf: "wf_db db"
  shows "enabled_count db' org' \<le> max (enabled_count db org') (if org' = org then ml_MonitorsCap limits else 0)"
  using assms(1)
proof cases
  case (created m f c now)
  from CreateMonitor_rows [of f c now m db] show ?thesis
    using created by (auto simp: enabled_count_def)
next
  case (updated m old f c now)
  let ?P = "\<lambda>r. row_OrgID r = org' \<and> mon_Enabled (row_Monitor r)"
  have d: "distinct (map row_ID (db_monitors db))" using wf by (simp add: wf_db_def wf_monitors_def)
  have old: "old \<in> set (db_monitors db)" "row_ID old = mon_ID m" "row_OrgID old = org"
    using select_monitor_Some [OF updated(4)] by blast+
  from UpdateMonitor_rows [of f c now m db] show ?thesis
  proof
    assume "\<exists>new. mon_ID new = mon_ID m \<and> mon_OrgID new = mon_OrgID m \<and> mon_Enabled new = mon_Enabled m
        \<and> db_monitors (snd (UpdateMonitor f c now m db)) =
           map (\<lambda>r. if row_ID r = mon_ID m \<and> row_OrgID r = mon_OrgID m then r\<lparr>row_Monitor := new\<rparr> else r) (db_monitors db)"
    then obtain new where new: "mon_OrgID new = org" "mon_Enabled new = mon_Enabled m"
      and eq: "db_monitors db' = map (\<lambda>r. if row_ID r = mon_ID m \<and> row_OrgID r = org then r\<lparr>row_Monitor := new\<rparr> else r) (db_monitors db)"
      unfolding updated(1) using updated(3) by blast
    have same: "r = old" if "r \<in> set (db_monitors db)" "row_ID r = mon_ID m" for r
      using d that old(1,2) by (simp add: distinct_map inj_on_def)
    have eq': "db_monitors db' = map (\<lambda>r. if row_ID r = mon_ID m then r\<lparr>row_Monitor := new\<rparr> else r) (db_monitors db)"
      unfolding eq by (rule map_cong [OF refl]) (metis same old(3))
    show ?thesis
    proof (cases "mon_Enabled m \<and> \<not> mon_Enabled (row_Monitor old) \<and> org' = org")
      case True
      then have "enabled_count db org < ml_MonitorsCap limits" using updated(5) by blast
      moreover have "length (filter ?P (db_monitors db')) \<le> Suc (length (filter ?P (db_monitors db)))"
        unfolding eq' by (rule length_filter_map_one [OF d])
      ultimately show ?thesis using True by (simp add: enabled_count_def)
    next
      case False
      have "length (filter ?P (db_monitors db')) \<le> length (filter ?P (db_monitors db))"
        unfolding eq'
      proof (rule length_filter_map_le)
        fix r assume r: "r \<in> set (db_monitors db)" "?P (if row_ID r = mon_ID m then r\<lparr>row_Monitor := new\<rparr> else r)"
        show "?P r"
        proof (cases "row_ID r = mon_ID m")
          case True
          have "row_OrgID old = org'" "mon_Enabled (row_Monitor old)" using True False r(2) new old(3) by auto
          then show ?thesis using same [OF r(1) True] by simp
        qed (use r in simp)
      qed
      then show ?thesis by (simp add: enabled_count_def)
    qed
  qed (use updated in \<open>simp add: enabled_count_def\<close>)
next
  case (deleted f i)
  have k: "length (filter P (filter Q rows)) \<le> length (filter P rows)" for P Q and rows :: "MonitorRow list"
    by (induction rows) auto
  from DeleteMonitor_rows [of f org i db] have "enabled_count db' org' \<le> enabled_count db org'"
    unfolding enabled_count_def deleted(1) by (elim disjE; simp only: of_nat_le_iff order_refl k)
  then show ?thesis by simp
qed simp

lemma api_effect_wf: "api_effect limits org db db' \<Longrightarrow> wf_db db \<Longrightarrow> wf_db db'"
  by (induction rule: api_effect.induct) (simp_all add: pulse_inv)

lemma viewer_cannot_manage: "p_Role p = RoleViewer \<Longrightarrow> \<not> dec_Allowed (canMonitor p authzManage)"
  by (simp add: canMonitor_def Can_def principal_Actor_def deny_def org_resource_def)

text \<open>
  The rows of the other orgs are those that hang on no monitor of the caller's org: the results, the last
  failures, the certificates and the incidents of such a monitor, and the annotations of such an incident.  A delete
  clears a link from an incident to a result that goes with the monitor (\<open>ON DELETE SET NULL\<close>), so the
  incidents are compared without links to the results of the org's own monitors.
\<close>

definition own_monitors :: "int \<Rightarrow> db \<Rightarrow> int set" where
  "own_monitors org db = {i. select_monitor db org i \<noteq> None}"

definition unlink :: "int set \<Rightarrow> Incident \<Rightarrow> Incident" where
  "unlink gone i = (case inc_FirstResultID i of
       Some rid \<Rightarrow> if rid \<in> gone then i\<lparr>inc_FirstResultID := None\<rparr> else i
     | None \<Rightarrow> i)"

definition other_orgs_kept :: "int \<Rightarrow> db \<Rightarrow> db \<Rightarrow> bool" where
  "other_orgs_kept org db db' \<longleftrightarrow>
     (let own = own_monitors org db;
          ownResults = res_ID ` {r \<in> set (db_results db). res_MonitorID r \<in> own};
          ownIncidents = inc_ID ` {i \<in> set (db_incidents db). inc_MonitorID i \<in> own}
      in db_orgs db' = db_orgs db
         \<and> filter (\<lambda>r. row_OrgID r \<noteq> org) (db_monitors db') = filter (\<lambda>r. row_OrgID r \<noteq> org) (db_monitors db)
         \<and> filter (\<lambda>r. res_MonitorID r \<notin> own) (db_results db') = filter (\<lambda>r. res_MonitorID r \<notin> own) (db_results db)
         \<and> map (unlink ownResults) (filter (\<lambda>i. inc_MonitorID i \<notin> own) (db_incidents db'))
             = map (unlink ownResults) (filter (\<lambda>i. inc_MonitorID i \<notin> own) (db_incidents db))
         \<and> filter (\<lambda>a. ann_IncidentID a \<notin> ownIncidents) (db_annotations db')
             = filter (\<lambda>a. ann_IncidentID a \<notin> ownIncidents) (db_annotations db)
         \<and> filter (\<lambda>l. lf_MonitorID l \<notin> own) (db_last_failures db') = filter (\<lambda>l. lf_MonitorID l \<notin> own) (db_last_failures db)
         \<and> filter (\<lambda>c. cr_MonitorID c \<notin> own) (db_certs db') = filter (\<lambda>c. cr_MonitorID c \<notin> own) (db_certs db))"

lemma filter_weaker: "(\<And>x. P x \<Longrightarrow> Q x) \<Longrightarrow> filter P (filter Q xs) = filter P xs"
  by (induction xs) auto

lemma unlink_again: "A \<subseteq> B \<Longrightarrow> unlink B (unlink A i) = unlink B i"
  by (auto simp: unlink_def split: option.splits)

lemma unlink_incidents:
  assumes "A \<subseteq> B" and "\<And>i. P i \<Longrightarrow> Q i" and "\<And>i. P (unlink A i) = P i"
  shows "map (unlink B) (filter P (map (unlink A) (filter Q is))) = map (unlink B) (filter P is)"
  by (induction "is") (use assms in \<open>auto simp: unlink_again\<close>)

text \<open>A write that touches the monitors alone leaves the rest of the tables to compare equal.\<close>

lemma kept_if_monitors_only:
  assumes "filter (\<lambda>r. row_OrgID r \<noteq> org) (db_monitors db') = filter (\<lambda>r. row_OrgID r \<noteq> org) (db_monitors db)"
    and "db_orgs db' = db_orgs db" "db_results db' = db_results db" "db_incidents db' = db_incidents db"
      "db_annotations db' = db_annotations db" "db_last_failures db' = db_last_failures db" "db_certs db' = db_certs db"
  shows "other_orgs_kept org db db'"
  using assms by (simp add: other_orgs_kept_def)

lemma CreateMonitor_tables:
  "db_orgs (snd (CreateMonitor f c now m db)) = db_orgs db" "db_results (snd (CreateMonitor f c now m db)) = db_results db"
  "db_incidents (snd (CreateMonitor f c now m db)) = db_incidents db"
  "db_annotations (snd (CreateMonitor f c now m db)) = db_annotations db"
  "db_last_failures (snd (CreateMonitor f c now m db)) = db_last_failures db" "db_certs (snd (CreateMonitor f c now m db)) = db_certs db"
  by (simp_all add: CreateMonitor_def WithOrg_def rolled_back_def Let_def split: option.split)

lemma UpdateMonitor_tables:
  "db_orgs (snd (UpdateMonitor f c now m db)) = db_orgs db" "db_results (snd (UpdateMonitor f c now m db)) = db_results db"
  "db_incidents (snd (UpdateMonitor f c now m db)) = db_incidents db"
  "db_annotations (snd (UpdateMonitor f c now m db)) = db_annotations db"
  "db_last_failures (snd (UpdateMonitor f c now m db)) = db_last_failures db" "db_certs (snd (UpdateMonitor f c now m db)) = db_certs db"
  by (simp_all add: UpdateMonitor_def WithOrg_def rolled_back_def Let_def split: option.split sum.split)

lemma DeleteMonitor_kept: "other_orgs_kept org db (snd (DeleteMonitor f org i db))"
proof (cases "i \<in> own_monitors org db \<and> f \<noteq> FaultBefore")
  case False
  then have "snd (DeleteMonitor f org i db) = db"
    by (auto simp: DeleteMonitor_def WithOrg_def own_monitors_def)
  then show ?thesis by (simp add: kept_if_monitors_only)
next
  case True
  let ?gone = "set (map res_ID (filter (\<lambda>r. res_MonitorID r = i) (db_results db)))"
  have links: "?gone \<subseteq> res_ID ` {r \<in> set (db_results db). res_MonitorID r \<in> own_monitors org db}" using True by auto
  have mon: "inc_MonitorID (unlink A x) = inc_MonitorID x" for A x by (simp add: unlink_def split: option.split)
  have "snd (DeleteMonitor f org i db) =
      db\<lparr>db_monitors := filter (\<lambda>r. \<not> (row_ID r = i \<and> row_OrgID r = org)) (db_monitors db),
         db_results := filter (\<lambda>r. res_MonitorID r \<noteq> i) (db_results db),
         db_incidents := map (unlink ?gone) (filter (\<lambda>x. inc_MonitorID x \<noteq> i) (db_incidents db)),
         db_annotations := filter (\<lambda>a. ann_IncidentID a \<notin> set (map inc_ID (filter (\<lambda>x. inc_MonitorID x = i) (db_incidents db)))) (db_annotations db),
         db_last_failures := filter (\<lambda>l. lf_MonitorID l \<noteq> i) (db_last_failures db),
         db_certs := filter (\<lambda>l. cr_MonitorID l \<noteq> i) (db_certs db)\<rparr>"
    using True by (auto simp: DeleteMonitor_def WithOrg_def own_monitors_def unlink_def [abs_def] Let_def simp del: set_map set_filter)
  then show ?thesis
    using True by (auto simp: other_orgs_kept_def Let_def mon simp del: filter_filter set_map set_filter
      intro!: filter_weaker unlink_incidents [OF links])
       (auto simp: image_iff)
qed

lemma api_effect_kept:
  assumes "api_effect limits org db db'"
  shows "other_orgs_kept org db db'"
  using assms
proof cases
  case unchanged
  then show ?thesis by (simp add: kept_if_monitors_only)
next
  case created
  then show ?thesis
    using api_effect_other_orgs [OF assms] by (intro kept_if_monitors_only) (simp_all add: CreateMonitor_tables)
next
  case updated
  then show ?thesis
    using api_effect_other_orgs [OF assms] by (intro kept_if_monitors_only) (simp_all add: UpdateMonitor_tables)
next
  case deleted
  then show ?thesis by (simp add: DeleteMonitor_kept)
qed

lemma without_right_unchanged:
  assumes "humanInOrg (ae_ctx env) = Some p" and "\<not> dec_Allowed (canMonitor p authzManage)"
  shows "serve env req s = s"
proof (cases req)
  case (ReqList f)
  then show ?thesis using read_effect(1) [of env f s]
    by (auto simp: api_ListMonitors_def Let_def split: option.splits prod.splits sum.splits)
next
  case (ReqGet f i)
  then show ?thesis using read_effect(2) [of env f i s]
    by (auto simp: api_GetMonitor_def Let_def split: option.splits prod.splits sum.splits)
qed (use assms in \<open>simp_all add: api_CreateMonitor_def api_UpdateMonitor_def api_DeleteMonitor_def api_CheckNow_def Let_def\<close>)

text \<open>
  C5. Tenants are isolated: whatever a request asks for and whatever fails underneath, it leaves every row
  of the other orgs as it was, in every table of the monitors, their results, incidents, annotations, last failures and
  certificates (a link to a deleted result of the caller's own org apart); a request without a
  caller, or of a caller who has no right to manage monitors, changes nothing at all and queues nothing.
\<close>

theorem api_tenant_isolation:
  "case humanInOrg (ae_ctx env) of
     None \<Rightarrow> serve env req s = s
   | Some p \<Rightarrow>
       other_orgs_kept (p_OrgID p) (api_db s) (api_db (serve env req s))
       \<and> (dec_Allowed (canMonitor p authzManage) \<or> serve env req s = s)"
proof (cases "humanInOrg (ae_ctx env)")
  case None
  then show ?thesis by (simp add: no_caller)
next
  case (Some p)
  then show ?thesis
    using api_effect_kept [OF serve_effect [OF Some, of s req]] without_right_unchanged [OF Some] by auto
qed

fun serve_all :: "(api_env \<times> api_request) list \<Rightarrow> api_state \<Rightarrow> api_state" where
  "serve_all [] s = s"
| "serve_all ((env, req) # rest) s = serve_all rest (serve env req s)"

text \<open>
  The plan of an org as the requests of its members see it: the one on record, or none where it could not be
  read.  The requests of other orgs are not constrained.
\<close>

definition sees_plan :: "int \<Rightarrow> string \<Rightarrow> api_env \<Rightarrow> bool" where
  "sees_plan org plan env =
     (case humanInOrg (ae_ctx env) of
        Some p \<Rightarrow> p_OrgID p \<noteq> org \<or> ae_plan env \<in> {Some plan, None}
      | None \<Rightarrow> True)"

lemma least_cap: "ml_MonitorsCap (DefaultMonitors_MonitorLimits org PlanTier1) \<le> ml_MonitorsCap (DefaultMonitors_MonitorLimits org plan)"
  by (cases plan) (simp_all add: DefaultMonitors_MonitorLimits_def table_or_free_def)

lemma own_cap:
  assumes "sees_plan org plan env" and "humanInOrg (ae_ctx env) = Some p" and "p_OrgID p = org"
  shows "ml_MonitorsCap (api_limits env org) \<le> ml_MonitorsCap (DefaultMonitors_MonitorLimits org (ParsePlan plan))"
  using assms least_cap [of org "ParsePlan plan"] by (auto simp: sees_plan_def api_limits_def orgPlan_def)

lemma serve_step:
  assumes "wf_db (api_db s)" and "sees_plan org plan env"
  shows "wf_db (api_db (serve env req s))
    \<and> enabled_count (api_db (serve env req s)) org
        \<le> max (enabled_count (api_db s) org) (ml_MonitorsCap (DefaultMonitors_MonitorLimits org (ParsePlan plan)))"
proof (cases "humanInOrg (ae_ctx env)")
  case None
  then show ?thesis using assms by (simp add: no_caller)
next
  case (Some p)
  note e = serve_effect [OF Some, of s req]
  have "0 \<le> enabled_count (api_db s) org" by (simp add: enabled_count_def)
  then show ?thesis
    using api_effect_wf [OF e assms(1)] api_effect_cap [OF e assms(1), of org] own_cap [OF assms(2) Some]
    by (cases "org = p_OrgID p") auto
qed

text \<open>
  C6. The tables stay well formed and each org stays under the cap of its own plan, over every sequence of requests, of
  any callers of any orgs and plans, with any arguments and faults: the number of enabled monitors of the org never grows beyond the larger
  of what it was and the cap of the plan the org has (also when its plan cannot be read).
\<close>

theorem api_cap_invariant:
  assumes "wf_db (api_db s)" and "\<forall>(env, req) \<in> set reqs. sees_plan org plan env"
  shows "wf_db (api_db (serve_all reqs s))
    \<and> enabled_count (api_db (serve_all reqs s)) org
        \<le> max (enabled_count (api_db s) org) (ml_MonitorsCap (DefaultMonitors_MonitorLimits org (ParsePlan plan)))"
  using assms
proof (induction reqs arbitrary: s)
  case (Cons er reqs)
  obtain env req where er: "er = (env, req)" by fastforce
  note st = serve_step [OF Cons.prems(1), of org plan env req]
  from Cons.IH [of "serve env req s"] Cons.prems(2) st er show ?case by auto
qed simp

definition ex_principal :: Principal where
  "ex_principal = \<lparr>p_Kind = ActorHuman, p_UserID = 1, p_KeyID = 0, p_Email = ''ann@example.com'', p_OrgID = 1, p_Role = RoleMember\<rparr>"

definition ex_env :: api_env where
  "ex_env = \<lparr>ae_ctx = Some ex_principal, ae_plan = Some ''tier1'', ae_cipher = None, ae_Parse = ex_parse,
     ae_SplitHostPort = (\<lambda>_. None), ae_now = 100 * Second\<rparr>"

definition ex_api_state :: api_state where
  "ex_api_state = \<lparr>api_db = empty_db [1], api_kv = Map.empty, api_changed = [], api_jobs = []\<rparr>"

definition ex_create :: api_request where
  "ex_create = ReqCreate (NoFault, NoFault) True (Some (ex_input ''200''))"

definition ex_other_env :: api_env where
  "ex_other_env = ex_env\<lparr>ae_ctx := Some (ex_principal\<lparr>p_UserID := 2, p_OrgID := 2\<rparr>), ae_plan := Some ''tier_custom''\<rparr>"

theorem api_cap_invariant_witness:
  "enabled_count (api_db (serve_all [(ex_env, ex_create), (ex_other_env, ex_create)] ex_api_state)) 1 = 1
   \<and> enabled_count (api_db (serve_all [(ex_env, ex_create), (ex_other_env, ex_create)] ex_api_state)) 1 \<le> 10"
proof -
  let ?rs = "[(ex_env, ex_create), (ex_other_env, ex_create)]"
  have "\<forall>(env, req) \<in> set ?rs. sees_plan 1 ''tier1'' env" by code_simp
  moreover have "wf_db (api_db ex_api_state)" by (simp add: ex_api_state_def empty_db_wf)
  moreover have "enabled_count (api_db (serve_all ?rs ex_api_state)) 1 = 1" "enabled_count (api_db ex_api_state) 1 = 0"
    "ml_MonitorsCap (DefaultMonitors_MonitorLimits 1 (ParsePlan ''tier1'')) = 10" by code_simp+
  ultimately show ?thesis using api_cap_invariant [of ex_api_state ?rs 1 "''tier1''"] by simp
qed

theorem api_tenant_isolation_witness:
  "humanInOrg (ae_ctx (ex_env\<lparr>ae_ctx := Some (ex_principal\<lparr>p_Role := RoleViewer\<rparr>)\<rparr>))
     = Some (ex_principal\<lparr>p_Role := RoleViewer\<rparr>)
   \<and> db_monitors (api_db (serve ex_env ex_create ex_api_state)) \<noteq> []
   \<and> db_monitors (api_db (serve (ex_env\<lparr>ae_ctx := Some (ex_principal\<lparr>p_Role := RoleViewer\<rparr>)\<rparr>) ex_create ex_api_state)) = []"
proof -
  let ?v = "ex_principal\<lparr>p_Role := RoleViewer\<rparr>"
  let ?e = "ex_env\<lparr>ae_ctx := Some ?v\<rparr>"
  have h: "humanInOrg (ae_ctx ?e) = Some ?v" by code_simp
  have "db_monitors (api_db (serve ex_env ex_create ex_api_state)) \<noteq> []" by code_simp
  moreover have "db_monitors (api_db ex_api_state) = []" by (simp add: ex_api_state_def empty_db_def)
  moreover have "\<not> dec_Allowed (canMonitor ?v authzManage)" by (simp add: viewer_cannot_manage)
  ultimately show ?thesis using api_tenant_isolation [of ?e ex_create ex_api_state] h by simp
qed

lemma monitorFromInput_times:
  "monitorFromInput P S org i inp limits = (m, e) \<Longrightarrow> mon_CreatedAt m = zero_time \<and> mon_UpdatedAt m = zero_time"
  by (auto simp: monitorFromInput_def Let_def)

lemma cap_check_not_Ok: "cap_check f limits org b db \<noteq> (Some (Ok x), db')"
  by (auto simp: cap_check_def split: prod.splits sum.splits if_splits)

lemma CreateMonitor_Inr:
  assumes "CreateMonitor f c now m db = (Inr i, db')"
  shows "\<exists>row. db_monitors db' = db_monitors db @ [row] \<and> row_ID row = i \<and> mon_CreatedAt (row_Monitor row) = now
     \<and> mon_UpdatedAt (row_Monitor row) = now \<and> mon_Name (row_Monitor row) = mon_Name m
     \<and> mon_Regions (row_Monitor row) = mon_Regions (monitor_defaults m)"
proof -
  have "mon_Name (monitor_defaults m) = mon_Name m" by (simp add: monitor_defaults_def Let_def)
  then show ?thesis using assms
    by (auto simp: CreateMonitor_def WithOrg_def Let_def split: option.splits if_splits)
qed

text \<open>
  What the create handler answers is not what it stored: the row has the time of the write, the answer shows
  the zero time in both time fields, while every other field is the one a later read shows.
\<close>

theorem create_answer_has_no_times:
  assumes "api_CreateMonitor env f pub body s = (Ok dto, s')"
  shows "dto_CreatedAt dto = zero_time \<and> dto_UpdatedAt dto = zero_time
    \<and> (\<exists>row \<in> set (db_monitors (api_db s')). Itoa (row_ID row) = dto_Id dto
         \<and> mon_CreatedAt (row_Monitor row) = ae_now env \<and> mon_UpdatedAt (row_Monitor row) = ae_now env
         \<and> mon_Name (row_Monitor row) = dto_Name dto \<and> mon_Regions (row_Monitor row) = dto_Regions dto)"
proof -
  have "\<exists>(p :: Principal) inp m db1 newID.
      monitorFromInput (ae_Parse env) (ae_SplitHostPort env) (p_OrgID p) 0 inp (api_limits env (p_OrgID p)) = (m, [])
      \<and> CreateMonitor (snd f) (ae_cipher env) (ae_now env) m db1 = (Inr newID, api_db s')
      \<and> dto = monitorDTO ((monitor_defaults m)\<lparr>mon_ID := newID\<rparr>)"
    using assms
    by (auto simp: api_CreateMonitor_def Let_def cap_check_not_Ok split: option.splits prod.splits sum.splits if_splits)
       (intro exI conjI, assumption, assumption, rule refl)
  then obtain p :: Principal and inp m db1 newID where
    m: "monitorFromInput (ae_Parse env) (ae_SplitHostPort env) (p_OrgID p) 0 inp (api_limits env (p_OrgID p)) = (m, [])"
    and c: "CreateMonitor (snd f) (ae_cipher env) (ae_now env) m db1 = (Inr newID, api_db s')"
    and d: "dto = monitorDTO ((monitor_defaults m)\<lparr>mon_ID := newID\<rparr>)"
    by blast
  have "mon_CreatedAt (monitor_defaults m) = zero_time" "mon_UpdatedAt (monitor_defaults m) = zero_time"
    "mon_Name (monitor_defaults m) = mon_Name m"
    using monitorFromInput_times [OF m] by (simp_all add: monitor_defaults_def Let_def)
  with CreateMonitor_Inr [OF c] show ?thesis by (auto simp: d monitorDTO_def)
qed

theorem create_answer_has_no_times_witness:
  "(case api_CreateMonitor ex_env (NoFault, NoFault) True (Some (ex_input ''200'')) ex_api_state of
      (Ok dto, s') \<Rightarrow> dto_CreatedAt dto = zero_time | _ \<Rightarrow> False)"
proof -
  have "(case fst (api_CreateMonitor ex_env (NoFault, NoFault) True (Some (ex_input ''200'')) ex_api_state) of Ok _ \<Rightarrow> True | _ \<Rightarrow> False)"
    by code_simp
  then obtain dto s' where c: "api_CreateMonitor ex_env (NoFault, NoFault) True (Some (ex_input ''200'')) ex_api_state = (Ok dto, s')"
    by (cases "api_CreateMonitor ex_env (NoFault, NoFault) True (Some (ex_input ''200'')) ex_api_state")
       (auto split: response.splits)
  then show ?thesis using create_answer_has_no_times [OF c] by simp
qed

section \<open>The budget of manual checks\<close>

lemma cdKey_inj: "cdKey org i = cdKey org' i' \<Longrightarrow> org = org' \<and> i = i'"
  using split_at_first [of "Itoa org" "Itoa i" "Itoa org'" "Itoa i'"] Itoa_no_colon
  by (auto simp: cdKey_def dest: Itoa_inj)

lemma cdKey_ne_winKey [simp]: "cdKey org i \<noteq> winKey org'" "winKey org' \<noteq> cdKey org i"
  by (auto simp: cdKey_def winKey_def)

lemma winKey_inj: "winKey org = winKey org' \<Longrightarrow> org = org'"
  by (auto simp: winKey_def dest: Itoa_inj)

definition gate_ok :: gate_faults where
  "gate_ok = \<lparr>gf_peek = KvOk, gf_claim = KvOk, gf_incr = KvOk, gf_expire = KvOk, gf_ttl = KvOk\<rparr>"

lemma plan_check_limits:
  "0 < cn_CooldownSeconds (CheckNowLimitsFor plan) \<and> 0 < cn_WindowSeconds (CheckNowLimitsFor plan)
   \<and> 1 \<le> cn_MaxPerWindow (CheckNowLimitsFor plan) \<and> cn_MaxPerWindow (CheckNowLimitsFor plan) \<le> 200"
  by (cases plan) (simp_all add: CheckNowLimitsFor_def table_or_free_def)

text \<open>A manual check under the limits of a plan without faults, as a claim of the cooldown of its monitor.\<close>

definition manual_check :: "CheckNowLimits \<Rightarrow> time \<Rightarrow> int \<times> int \<Rightarrow> kv \<Rightarrow> bool \<times> kv" where
  "manual_check lm now k s =
     (case checkNowAllowed gate_ok now (fst k) (snd k) lm s of (d, s') \<Rightarrow> (rd_allowed d, s'))"

definition cooling :: "kv \<Rightarrow> int \<times> int \<Rightarrow> time \<Rightarrow> bool" where
  "cooling s k e \<longleftrightarrow> kv_held_until s (cdKey (fst k) (snd k)) e"

lemma Incr_other: "Incr f now k s = (r, s') \<Longrightarrow> k' \<noteq> k \<Longrightarrow> s' k' = s k'"
  by (auto simp: kv_defs split: kv_fault.splits option.splits prod.splits kv_value.splits if_splits)

lemma Expire_other: "k' \<noteq> k \<Longrightarrow> snd (Expire f now k ttl s) k' = s k'"
  by (auto simp: kv_defs split: kv_fault.splits option.splits prod.splits)

lemma SetIfAbsent_other: "SetIfAbsent f now k v ttl s = (r, s') \<Longrightarrow> k' \<noteq> k \<Longrightarrow> s' k' = s k'"
  by (auto simp: kv_defs split: kv_fault.splits if_splits)

lemma checkNowAllowed_other:
  assumes "checkNowAllowed f now org i lm s = (d, s')" and "k \<noteq> cdKey org i" and "k \<noteq> winKey org"
  shows "s' k = s k"
  using assms
  by (auto simp: checkNowAllowed_def Let_def Expire_other split: if_splits prod.splits sum.splits bool.splits
      dest!: SetIfAbsent_other [OF _ assms(2)] Incr_other [OF _ assms(3)])

lemma checkNowAllowed_cd:
  assumes "checkNowAllowed gate_ok now org i lm s = (d, s')"
  shows "rd_allowed d \<Longrightarrow> s' (cdKey org i) = Some (KvString ''1'', kv_expiry now (cn_CooldownSeconds lm * Second))"
    and "kv_live now s (cdKey org i) \<noteq> None \<Longrightarrow> \<not> rd_allowed d \<and> s' = s"
proof -
  show "kv_live now s (cdKey org i) \<noteq> None \<Longrightarrow> \<not> rd_allowed d \<and> s' = s"
    using assms by (auto simp: checkNowAllowed_def gate_ok_def SetIfAbsent_def kv_command_def Let_def split: if_splits)
  assume al: "rd_allowed d"
  obtain b s1 where c: "SetIfAbsent KvOk now (cdKey org i) ''1'' (cn_CooldownSeconds lm * Second) s = (b, s1)" by fastforce
  have b: "b = Inr True" and s': "s' (cdKey org i) = s1 (cdKey org i)"
    using assms al c
    by (auto simp: checkNowAllowed_def gate_ok_def Let_def Expire_other split: if_splits prod.splits sum.splits bool.splits
        dest: Incr_other [where k' = "cdKey org i"])
       (auto simp: SetIfAbsent_def kv_command_def split: if_splits)
  from c b have "s1 (cdKey org i) = Some (KvString ''1'', kv_expiry now (cn_CooldownSeconds lm * Second))"
    by (auto simp: SetIfAbsent_def kv_command_def split: if_splits)
  with s' show "s' (cdKey org i) = Some (KvString ''1'', kv_expiry now (cn_CooldownSeconds lm * Second))" by simp
qed

interpretation manual: once_store "cn_CooldownSeconds lm * Second" "manual_check lm" cooling for lm
proof unfold_locales
  fix now and k :: "int \<times> int" and s s'
  assume "manual_check lm now k s = (True, s')" and pos: "0 < cn_CooldownSeconds lm * Second"
  then obtain d where "checkNowAllowed gate_ok now (fst k) (snd k) lm s = (d, s')" "rd_allowed d"
    by (auto simp: manual_check_def split: prod.splits)
  from checkNowAllowed_cd(1) [OF this] pos show "cooling s' k (now + cn_CooldownSeconds lm * Second)"
    by (auto simp: cooling_def kv_held_until_def kv_expiry_def)
next
  fix s and k :: "int \<times> int" and e now
  assume "cooling s k e" and "now < e"
  then have "kv_live now s (cdKey (fst k) (snd k)) \<noteq> None" by (auto simp: cooling_def kv_held_until_def kv_live_def)
  then show "manual_check lm now k s = (False, s)"
    using checkNowAllowed_cd(2) by (auto simp: manual_check_def split: prod.split)
next
  fix now and k :: "int \<times> int" and s b s' and k' :: "int \<times> int" and e
  assume m: "manual_check lm now k s = (b, s')" and ne: "k' \<noteq> k" and c: "cooling s k' e"
  have "cdKey (fst k') (snd k') \<noteq> cdKey (fst k) (snd k)" using ne cdKey_inj by (metis prod.collapse)
  with m have "s' (cdKey (fst k') (snd k')) = s (cdKey (fst k') (snd k'))"
    by (auto simp: manual_check_def split: prod.splits dest: checkNowAllowed_other)
  with c show "cooling s' k' e" by (simp add: cooling_def kv_held_until_def)
qed

fun manual_checks :: "CheckNowLimits \<Rightarrow> (time \<times> int \<times> int) list \<Rightarrow> kv \<Rightarrow> bool list" where
  "manual_checks lm [] s = []"
| "manual_checks lm ((now, k) # cs) s =
     (case manual_check lm now k s of (b, s1) \<Rightarrow> b # manual_checks lm cs s1)"

lemma manual_checks_claims: "manual_checks lm cs s = fst (manual.claims lm cs s)"
  by (induction lm cs s rule: manual_checks.induct) (auto split: prod.split)

text \<open>
  The cooldown of manual checks holds: after one manual check of a monitor was let through, every further one
  before the cooldown of the plan is over is refused, however many checks of other monitors and
  orgs come in between.
\<close>

theorem checkNow_cooldown:
  assumes "lm = CheckNowLimitsFor plan"
    and "manual_checks lm [(t0, org, i)] s = [True]" and "s1 = snd (manual_check lm t0 (org, i) s)"
    and "j < length cs" and "cs ! j = (t, org, i)"
    and "list_all (\<lambda>(u, k). u < t0 + cn_CooldownSeconds lm * Second) cs"
  shows "manual_checks lm cs s1 ! j = False"
proof -
  have f: "manual_check lm t0 (org, i) s = (True, s1)" using assms(2,3) by (auto split: prod.splits)
  have pos: "0 < cn_CooldownSeconds lm * Second" using plan_check_limits [of plan] assms(1) by (simp add: duration_defs)
  have "\<forall>(u, k) \<in> set cs. k = (org, i) \<longrightarrow> u < t0 + cn_CooldownSeconds lm * Second"
    using assms(6) by (auto simp: list_all_iff)
  from manual.first_once [OF f pos this] show ?thesis
    using assms(4,5) by (simp add: manual_checks_claims)
qed

theorem checkNow_cooldown_witness:
  "manual_checks (CheckNowLimitsFor PlanTier1) [(5, 1, 7)] (snd (manual_check (CheckNowLimitsFor PlanTier1) 0 (1, 7) Map.empty)) ! 0 = False"
proof -
  have "manual_checks (CheckNowLimitsFor PlanTier1) [(0, 1, 7)] Map.empty = [True]" by code_simp
  moreover have "list_all (\<lambda>(u, k). u < 0 + cn_CooldownSeconds (CheckNowLimitsFor PlanTier1) * Second) [(5, 1 :: int, 7 :: int)]"
    by code_simp
  ultimately show ?thesis
    using checkNow_cooldown [of "CheckNowLimitsFor PlanTier1" PlanTier1 0 1 7 Map.empty
        "snd (manual_check (CheckNowLimitsFor PlanTier1) 0 (1, 7) Map.empty)" 0 "[(5, 1, 7)]" 5] by simp
qed

text \<open>
  The counter of an org: a number with an instant of expiry or none.  As long as it does not expire, at
  most the rest of the budget is let through.
\<close>

definition counter :: "kv \<Rightarrow> int \<Rightarrow> int \<Rightarrow> time option \<Rightarrow> bool" where
  "counter s org n e \<longleftrightarrow> s (winKey org) = Some (KvString (Itoa n), e)"

fun before :: "time \<Rightarrow> time option \<Rightarrow> bool" where
  "before t None = True"
| "before t (Some e) = (t < e)"

lemma counter_live: "counter s org n e \<Longrightarrow> before t e \<Longrightarrow> kv_live t s (winKey org) = Some (KvString (Itoa n), e)"
  by (cases e) (auto simp: counter_def kv_live_def)

lemma manual_check_counter:
  assumes c: "counter s org n e" "before t e" and n: "1 \<le> n" "n \<le> 200"
    and lm: "lm = CheckNowLimitsFor plan" and m: "manual_check lm t (org, i) s = (b, s')"
  shows "\<exists>n'. counter s' org n' e \<and> n \<le> n' \<and> n' \<le> max n (cn_MaxPerWindow lm)
           \<and> (if b then n' = n + 1 \<and> n < cn_MaxPerWindow lm else True)"
proof -
  note live = counter_live [OF c]
  have at: "Atoi (Itoa n) = Some n" using n by (intro Atoi_Itoa) auto
  have ne: "n \<noteq> 2 ^ 63 - 1" using n by simp
  show ?thesis
  proof (cases "n \<ge> cn_MaxPerWindow lm")
    case True
    then have "b = False \<and> s' = s" using m at live
      by (simp add: manual_check_def checkNowAllowed_def gate_ok_def GetCache_def kv_command_def Let_def)
    then show ?thesis using c(1) by auto
  next
    case False
    obtain r s1 where cl: "SetIfAbsent KvOk t (cdKey org i) ''1'' (cn_CooldownSeconds lm * Second) s = (r, s1)" by fastforce
    then have s1: "s1 (winKey org) = s (winKey org)" and r: "r = Inr True \<or> r = Inr False \<and> s1 = s"
      by (auto simp: SetIfAbsent_def kv_command_def split: if_splits)
    have live1: "kv_live t s1 (winKey org) = Some (KvString (Itoa n), e)" using live s1 by (simp add: kv_live_def)
    have inc: "Incr KvOk t (winKey org) s1 = (Inr (n + 1), s1(winKey org \<mapsto> (KvString (Itoa (n + 1)), e)))"
      using live1 at ne by (simp add: Incr_def kv_command_def)
    from r show ?thesis
    proof
      assume "r = Inr True"
      then have "b = True \<and> s' = s1(winKey org \<mapsto> (KvString (Itoa (n + 1)), e))"
        using m False at live cl inc n
        by (simp add: manual_check_def checkNowAllowed_def gate_ok_def GetCache_def kv_command_def Let_def rate_allowed_def)
      then show ?thesis using False by (intro exI [of _ "n + 1"]) (simp add: counter_def)
    next
      assume "r = Inr False \<and> s1 = s"
      then have "b = False \<and> s' = s"
        using m False at live cl
        by (simp add: manual_check_def checkNowAllowed_def gate_ok_def GetCache_def kv_command_def Let_def)
      then show ?thesis using c(1) by auto
    qed
  qed
qed

lemma manual_check_other_org:
  "manual_check lm t (org', i) s = (b, s') \<Longrightarrow> org' \<noteq> org \<Longrightarrow> counter s org n e \<Longrightarrow> counter s' org n e"
  by (auto simp: manual_check_def counter_def split: prod.splits dest!: checkNowAllowed_other [where k = "winKey org"] winKey_inj)

text \<open>How many checks of an org a run lets through.\<close>

definition let_through :: "int \<Rightarrow> (time \<times> int \<times> int) list \<Rightarrow> bool list \<Rightarrow> int" where
  "let_through org cs bs = int (length (filter (\<lambda>cb. fst (snd (fst cb)) = org \<and> snd cb) (zip cs bs)))"

lemma counter_bounds_run:
  assumes "lm = CheckNowLimitsFor plan" and "counter s org n e" and "1 \<le> n" and "n \<le> cn_MaxPerWindow lm"
    and "list_all (\<lambda>(t, k). before t e) cs"
  shows "let_through org cs (manual_checks lm cs s) \<le> cn_MaxPerWindow lm - n"
  using assms(2-5)
proof (induction cs arbitrary: s n)
  case (Cons c cs)
  obtain t org' i where c: "c = (t, org', i)" by (metis prod_cases3)
  obtain b s' where m: "manual_check lm t (org', i) s = (b, s')" by fastforce
  have max: "cn_MaxPerWindow lm \<le> 200" using plan_check_limits assms(1) by simp
  show ?case
  proof (cases "org' = org")
    case True
    obtain n' where n': "counter s' org n' e" "n \<le> n'" "n' \<le> max n (cn_MaxPerWindow lm)" "b \<longrightarrow> n' = n + 1"
      using manual_check_counter [OF Cons.prems(1) _ Cons.prems(2) _ assms(1), of t i b s'] Cons.prems c m max True
      by (auto split: if_splits)
    have "let_through org cs (manual_checks lm cs s') \<le> cn_MaxPerWindow lm - n'"
      using Cons.IH [OF n'(1)] n' Cons.prems by simp
    then show ?thesis using n' c m True by (auto simp: let_through_def)
  next
    case False
    then have "let_through org cs (manual_checks lm cs s') \<le> cn_MaxPerWindow lm - n"
      using Cons.IH [OF manual_check_other_org [OF m False Cons.prems(1)]] Cons.prems by simp
    then show ?thesis using c m False by (simp add: let_through_def)
  qed
qed (simp add: let_through_def)

lemma first_check:
  assumes "lm = CheckNowLimitsFor plan" and "kv_live t0 s (winKey org) = None"
    and "checkNowAllowed (gate_ok\<lparr>gf_expire := f\<rparr>) t0 org i lm s = (d, s1)" and "rd_allowed d"
  shows "counter s1 org 1 (if f = KvLost then None else Some (t0 + cn_WindowSeconds lm * Second))"
proof -
  obtain r s0 where cl: "SetIfAbsent KvOk t0 (cdKey org i) ''1'' (cn_CooldownSeconds lm * Second) s = (r, s0)" by fastforce
  have s0: "kv_live t0 s0 (winKey org) = None"
    using cl assms(2) by (auto simp: SetIfAbsent_def kv_command_def split: if_splits)
  have r: "r = Inr True"
    using assms(2-4) cl by (auto simp: checkNowAllowed_def gate_ok_def GetCache_def SetIfAbsent_def kv_command_def Let_def split: if_splits)
  have inc: "Incr KvOk t0 (winKey org) s0 = (Inr 1, s0(winKey org \<mapsto> (KvString (Itoa 1), None)))"
    using s0 by (simp add: Incr_def kv_command_def)
  have "s1 = snd (Expire f t0 (winKey org) (cn_WindowSeconds lm * Second) (s0(winKey org \<mapsto> (KvString (Itoa 1), None))))"
    using assms(2-4) cl r inc plan_check_limits [of plan] assms(1)
    by (auto simp: checkNowAllowed_def gate_ok_def GetCache_def kv_command_def Let_def)
  then show ?thesis
    by (cases f) (simp_all add: counter_def Expire_def kv_command_def)
qed

text \<open>
  The budget of manual checks holds: within one window an org gets at most as many manual checks as its plan
  allows, counted from the check that starts the window, over all its monitors and
  interleaved with any checks of other orgs.
\<close>

theorem checkNow_budget:
  assumes "lm = CheckNowLimitsFor plan" and "kv_live t0 s (winKey org) = None"
    and "checkNowAllowed gate_ok t0 org i lm s = (d, s1)" and "rd_allowed d"
    and "list_all (\<lambda>(t, k). t < t0 + cn_WindowSeconds lm * Second) cs"
  shows "1 + let_through org cs (manual_checks lm cs s1) \<le> cn_MaxPerWindow lm"
proof -
  have "counter s1 org 1 (Some (t0 + cn_WindowSeconds lm * Second))"
    using first_check [of lm plan t0 s org KvOk i d s1] assms(1-4) by (simp add: gate_ok_def)
  moreover have "list_all (\<lambda>(t, k). before t (Some (t0 + cn_WindowSeconds lm * Second))) cs" using assms(5) by simp
  ultimately show ?thesis
    using counter_bounds_run [OF assms(1), of s1 org 1 "Some (t0 + cn_WindowSeconds lm * Second)" cs]
      plan_check_limits [of plan] assms(1) by simp
qed

theorem checkNow_budget_witness:
  "1 + let_through 1 [(5, 1, 8)] (manual_checks (CheckNowLimitsFor PlanTier1) [(5, 1, 8)]
      (snd (checkNowAllowed gate_ok 0 1 7 (CheckNowLimitsFor PlanTier1) Map.empty))) \<le> 10"
proof -
  have "rd_allowed (fst (checkNowAllowed gate_ok 0 1 7 (CheckNowLimitsFor PlanTier1) Map.empty))"
    "cn_MaxPerWindow (CheckNowLimitsFor PlanTier1) = 10"
    "list_all (\<lambda>(t, k). t < 0 + cn_WindowSeconds (CheckNowLimitsFor PlanTier1) * Second) [(5, 1 :: int, 8 :: int)]"
    by code_simp+
  then show ?thesis
    using checkNow_budget [of "CheckNowLimitsFor PlanTier1" PlanTier1 0 Map.empty 1 7
        "fst (checkNowAllowed gate_ok 0 1 7 (CheckNowLimitsFor PlanTier1) Map.empty)"
        "snd (checkNowAllowed gate_ok 0 1 7 (CheckNowLimitsFor PlanTier1) Map.empty)" "[(5, 1, 8)]"]
    by (simp add: kv_live_def)
qed

text \<open>
  One lost command ends the manual checks of an org: if the command that starts the window does not arrive,
  the counter never expires, and from then on the org gets less than one window's budget of manual checks in all,
  at whatever later times it asks.
\<close>

theorem checkNow_lost_expire:
  assumes "lm = CheckNowLimitsFor plan" and "kv_live t0 s (winKey org) = None"
    and "checkNowAllowed (gate_ok\<lparr>gf_expire := KvLost\<rparr>) t0 org i lm s = (d, s1)" and "rd_allowed d"
  shows "1 + let_through org cs (manual_checks lm cs s1) \<le> cn_MaxPerWindow lm"
proof -
  have "counter s1 org 1 None" using first_check [OF assms] by simp
  then show ?thesis
    using counter_bounds_run [OF assms(1), of s1 org 1 None cs] plan_check_limits [of plan] assms(1)
    by (simp add: list_all_iff)
qed

theorem checkNow_lost_expire_witness:
  "1 + let_through 1 [(3600 * Second, 1, 8)] (manual_checks (CheckNowLimitsFor PlanTier1) [(3600 * Second, 1, 8)]
      (snd (checkNowAllowed (gate_ok\<lparr>gf_expire := KvLost\<rparr>) 0 1 7 (CheckNowLimitsFor PlanTier1) Map.empty))) \<le> 10"
proof -
  have "rd_allowed (fst (checkNowAllowed (gate_ok\<lparr>gf_expire := KvLost\<rparr>) 0 1 7 (CheckNowLimitsFor PlanTier1) Map.empty))"
    "cn_MaxPerWindow (CheckNowLimitsFor PlanTier1) = 10"
    by code_simp+
  then show ?thesis
    using checkNow_lost_expire [of "CheckNowLimitsFor PlanTier1" PlanTier1 0 Map.empty 1 7
        "fst (checkNowAllowed (gate_ok\<lparr>gf_expire := KvLost\<rparr>) 0 1 7 (CheckNowLimitsFor PlanTier1) Map.empty)"
        "snd (checkNowAllowed (gate_ok\<lparr>gf_expire := KvLost\<rparr>) 0 1 7 (CheckNowLimitsFor PlanTier1) Map.empty)"
        "[(3600 * Second, 1, 8)]"]
    by (simp add: kv_live_def)
qed

section \<open>The fan-out of a manual check\<close>

lemma fan_out_jobs:
  "fan_out js now org m rfs s = (b, s') \<Longrightarrow>
     \<exists>done rest. map fst rfs = done @ rest \<and> (b \<longrightarrow> rest = []) \<and> api_changed s' = api_changed s
       \<and> api_jobs s' = api_jobs s @ map (\<lambda>r. check_job m org r now) done"
proof (induction js now org m rfs s rule: fan_out.induct)
  case (2 js now org m region f rest s)
  obtain r kv1 where w: "SetScheduled js (jf_state f) now (mon_ID m) region (mon_IntervalSeconds m) (api_kv s) = (r, kv1)"
    by fastforce
  show ?case
  proof (cases "isl r \<or> \<not> jf_publish f")
    case True
    then have "\<not> b" "api_jobs s' = api_jobs s" "api_changed s' = api_changed s"
      using "2.prems" w by (auto simp: Let_def split: sum.splits if_splits)
    then show ?thesis by (intro exI [of _ "[]"] exI [of _ "map fst ((region, f) # rest)"]) simp
  next
    case False
    then obtain u where u: "r = Inr u" "jf_publish f" by (cases r) auto
    let ?s1 = "s\<lparr>api_kv := kv1\<rparr>"
    have "fan_out js now org m rest (?s1\<lparr>api_jobs := api_jobs ?s1 @ [check_job m org region now]\<rparr>) = (b, s')"
      using "2.prems" w u by simp
    from "2.IH" [OF w [symmetric] u(1) refl _ this] u(2)
    obtain don rst where "map fst rest = don @ rst" "b \<longrightarrow> rst = []" "api_changed s' = api_changed s"
      "api_jobs s' = (api_jobs s @ [check_job m org region now]) @ map (\<lambda>r. check_job m org r now) don" by auto
    then show ?thesis by (intro exI [of _ "region # don"] exI [of _ rst]) simp
  qed
qed simp

text \<open>The ends of a request: refused before the fan-out, or after it.\<close>

lemma CheckNow_forms:
  assumes w: "\<And>r s'. (case r of Ok _ \<Rightarrow> False | _ \<Rightarrow> True) \<Longrightarrow> api_jobs s' = api_jobs s \<Longrightarrow> P (r, s')"
    and q: "\<And>p i m db1 kv1 b s2. humanInOrg (ae_ctx env) = Some p \<Longrightarrow>
        GetMonitor f (ae_cipher env) (p_OrgID p) i (api_db s) = (Inr m, db1) \<Longrightarrow> mon_Enabled m \<Longrightarrow>
        fan_out js (ae_now env) (p_OrgID p) m (map (\<lambda>r. (r, jf r)) (check_regions m)) (s\<lparr>api_db := db1, api_kv := kv1\<rparr>) = (b, s2) \<Longrightarrow>
        P (case b of True \<Rightarrow> (Ok (Itoa (mon_ID m), check_regions m), s2) | False \<Rightarrow> (ServerError, s2))"
  shows "P (api_CheckNow env js f gf jf rawID s)"
  unfolding api_CheckNow_def Let_def
  by (auto split: option.split prod.split sum.split intro!: w intro: q)

text \<open>
  An accepted manual check queues exactly one job per region of the enabled monitor it was asked for, with the
  monitor, the org and the time of the request in it, and reports those regions; a refused request queues
  nothing, and one that fails on the way has queued a first part of the regions.
\<close>

theorem CheckNow_fan_out:
  "case api_CheckNow env js f gf jf rawID s of
     (Ok (mid, regions), s') \<Rightarrow>
       (\<exists>p m. humanInOrg (ae_ctx env) = Some p \<and> GetMonitor f (ae_cipher env) (p_OrgID p) (mon_ID m) (api_db s) = (Inr m, api_db s)
          \<and> mon_Enabled m \<and> mid = Itoa (mon_ID m) \<and> regions = check_regions m
          \<and> api_jobs s' = api_jobs s @ map (\<lambda>r. check_job m (p_OrgID p) r (ae_now env)) regions)
   | (ServerError, s') \<Rightarrow> (\<exists>part. api_jobs s' = api_jobs s @ part)
   | (_, s') \<Rightarrow> api_jobs s' = api_jobs s"
proof (rule CheckNow_forms)
  fix r :: "(string \<times> string list) response" and s' :: api_state
  assume "case r of Ok _ \<Rightarrow> False | _ \<Rightarrow> True" and "api_jobs s' = api_jobs s"
  then show "case (r, s') of
     (Ok (mid, regions), s') \<Rightarrow>
       (\<exists>p m. humanInOrg (ae_ctx env) = Some p \<and> GetMonitor f (ae_cipher env) (p_OrgID p) (mon_ID m) (api_db s) = (Inr m, api_db s)
          \<and> mon_Enabled m \<and> mid = Itoa (mon_ID m) \<and> regions = check_regions m
          \<and> api_jobs s' = api_jobs s @ map (\<lambda>r. check_job m (p_OrgID p) r (ae_now env)) regions)
   | (ServerError, s') \<Rightarrow> (\<exists>part. api_jobs s' = api_jobs s @ part)
   | (_, s') \<Rightarrow> api_jobs s' = api_jobs s"
    by (cases r) auto
next
  fix p i m db1 kv1 b s2
  assume p: "humanInOrg (ae_ctx env) = Some p" and g: "GetMonitor f (ae_cipher env) (p_OrgID p) i (api_db s) = (Inr m, db1)"
    and en: "mon_Enabled m"
    and fo: "fan_out js (ae_now env) (p_OrgID p) m (map (\<lambda>r. (r, jf r)) (check_regions m)) (s\<lparr>api_db := db1, api_kv := kv1\<rparr>) = (b, s2)"
  have "mon_ID m = i"
    using g by (auto simp: GetMonitor_def WithOrg_def scanMonitor_def split: if_splits option.splits sum.splits dest: select_monitor_Some)
  then have g': "GetMonitor f (ae_cipher env) (p_OrgID p) (mon_ID m) (api_db s) = (Inr m, api_db s)"
    using g GetMonitor_db [OF g] by simp
  show "case (case b of True \<Rightarrow> (Ok (Itoa (mon_ID m), check_regions m), s2) | False \<Rightarrow> (ServerError, s2)) of
     (Ok (mid, regions), s') \<Rightarrow>
       (\<exists>p m. humanInOrg (ae_ctx env) = Some p \<and> GetMonitor f (ae_cipher env) (p_OrgID p) (mon_ID m) (api_db s) = (Inr m, api_db s)
          \<and> mon_Enabled m \<and> mid = Itoa (mon_ID m) \<and> regions = check_regions m
          \<and> api_jobs s' = api_jobs s @ map (\<lambda>r. check_job m (p_OrgID p) r (ae_now env)) regions)
   | (ServerError, s') \<Rightarrow> (\<exists>part. api_jobs s' = api_jobs s @ part)
   | (_, s') \<Rightarrow> api_jobs s' = api_jobs s"
    using fan_out_jobs [OF fo] p en g' by (cases b) (auto simp: comp_def)
qed

end
