(* ===== verification/Pulse_Scheduler.thy ===== *)
theory Pulse_Scheduler
  imports Pulse_Monitor_Api
begin

text \<open>
  The scheduler, \<open>internal/scheduler/scheduler.go\<close>.  A dispatcher keeps the next run of
  every monitor it has seen in memory, and at every tick it reads the enabled monitors with
  the instant of their last result and fans the due ones out, one job per region.

  The state is that map together with what the dispatcher writes: the jobs topic, in the
  order of publication, and the live region states.  A tick is one call of
  \<open>dispatchDue\<close>: the instant, the tables as they are then and what fails during it.  The
  duration of an interval is computed on 64 bits, as the code does.  The dispatch lag feeds
  a metric only and is left out with the other metrics.
\<close>

section \<open>State\<close>

record dispatcher =
  sch_nextRun :: "int \<rightharpoonup> time"
  sch_kv :: kv
  sch_jobs :: "CheckJob list"

record dispatch_faults =
  df_marshal :: bool
  df_produce :: send
  df_state :: "kv_fault \<times> kv_fault"

section \<open>Dispatch\<close>

definition sched_interval :: "Monitor \<Rightarrow> duration" where
  "sched_interval m =
     (let interval = i64 (mon_IntervalSeconds m * Second) in if interval \<le> 0 then Minute else interval)"

definition sched_regions :: "Monitor \<Rightarrow> string list" where
  "sched_regions m =
     (let regions = (if mon_Regions m = [] then [DefaultRegion] else mon_Regions m)
      in if mon_Type m = MonitorSSL \<and> length regions > 1 then take 1 regions else regions)"

definition sched_job :: "Monitor \<Rightarrow> time \<Rightarrow> string \<Rightarrow> CheckJob" where
  "sched_job m dispatchedAt region =
     \<lparr>job_JobID = Itoa (mon_ID m) @ '':'' @ region @ '':'' @ Itoa (dispatchedAt div Second),
      job_OrgID = mon_OrgID m, job_Region = region, job_ScheduledAt = dispatchedAt, job_Monitor = m\<rparr>"

fun dispatch_regions :: "codec \<Rightarrow> (string \<Rightarrow> dispatch_faults) \<Rightarrow> Monitor \<Rightarrow> time \<Rightarrow> string list \<Rightarrow> dispatcher \<Rightarrow> dispatcher" where
  "dispatch_regions js f m dispatchedAt [] d = d"
| "dispatch_regions js f m dispatchedAt (region # rest) d =
     dispatch_regions js f m dispatchedAt rest
       (if \<not> df_marshal (f region) then d
        else case Produce (df_produce (f region)) (sched_job m dispatchedAt region) (sch_jobs d) of
               (False, jobs) \<Rightarrow> d\<lparr>sch_jobs := jobs\<rparr>
             | (True, jobs) \<Rightarrow>
                 d\<lparr>sch_jobs := jobs,
                   sch_kv := snd (SetScheduled js (df_state (f region)) dispatchedAt (mon_ID m) region
                                    (mon_IntervalSeconds m) (sch_kv d))\<rparr>)"

definition dispatch :: "codec \<Rightarrow> (string \<Rightarrow> dispatch_faults) \<Rightarrow> Monitor \<Rightarrow> time \<Rightarrow> dispatcher \<Rightarrow> dispatcher" where
  "dispatch js f m dispatchedAt d = dispatch_regions js f m dispatchedAt (sched_regions m) d"

definition set_next :: "int \<Rightarrow> time \<Rightarrow> dispatcher \<Rightarrow> dispatcher" where
  "set_next mid t d = d\<lparr>sch_nextRun := (sch_nextRun d)(mid \<mapsto> t)\<rparr>"

definition fire :: "codec \<Rightarrow> (string \<Rightarrow> dispatch_faults) \<Rightarrow> time \<Rightarrow> Monitor \<Rightarrow> dispatcher \<Rightarrow> dispatcher" where
  "fire js f now m d = set_next (mon_ID m) (now + sched_interval m) (dispatch js f m now d)"

definition due_step :: "codec \<Rightarrow> (int \<Rightarrow> string \<Rightarrow> dispatch_faults) \<Rightarrow> time \<Rightarrow> EnabledMonitor \<Rightarrow> dispatcher \<Rightarrow> dispatcher" where
  "due_step js f now em d =
     (let m = em_Monitor em; interval = sched_interval m
      in case sch_nextRun d (mon_ID m) of
           None \<Rightarrow>
             (case em_LastCheckedAt em of
                Some t \<Rightarrow> (if now < t + interval then set_next (mon_ID m) (t + interval) d
                           else fire js (f (mon_ID m)) now m d)
              | None \<Rightarrow> fire js (f (mon_ID m)) now m d)
         | Some next \<Rightarrow> (if now < next then d else fire js (f (mon_ID m)) now m d))"

fun due_loop :: "codec \<Rightarrow> (int \<Rightarrow> string \<Rightarrow> dispatch_faults) \<Rightarrow> time \<Rightarrow> EnabledMonitor list \<Rightarrow> dispatcher \<Rightarrow> dispatcher" where
  "due_loop js f now [] d = d"
| "due_loop js f now (em # rest) d = due_loop js f now rest (due_step js f now em d)"

record tick =
  tk_now :: time
  tk_db :: db
  tk_list :: fault
  tk_faults :: "int \<Rightarrow> string \<Rightarrow> dispatch_faults"

definition dispatchDue :: "codec \<Rightarrow> cipher \<Rightarrow> tick \<Rightarrow> dispatcher \<Rightarrow> dispatcher" where
  "dispatchDue js c tk d =
     (case ListEnabledMonitorsWithLastCheck (tk_list tk) c (tk_db tk) of
        Inl _ \<Rightarrow> d
      | Inr monitors \<Rightarrow> due_loop js (tk_faults tk) (tk_now tk) monitors d)"

fun sched_Run :: "codec \<Rightarrow> cipher \<Rightarrow> tick list \<Rightarrow> dispatcher \<Rightarrow> dispatcher" where
  "sched_Run js c [] d = d"
| "sched_Run js c (tk # rest) d = sched_Run js c rest (dispatchDue js c tk d)"

section \<open>What one tick does\<close>

definition arrives :: "dispatch_faults \<Rightarrow> bool" where
  "arrives f \<longleftrightarrow> df_marshal f \<and> df_produce f \<noteq> SendLost"

definition round_jobs :: "(string \<Rightarrow> dispatch_faults) \<Rightarrow> time \<Rightarrow> Monitor \<Rightarrow> CheckJob list" where
  "round_jobs f now m = map (sched_job m now) (filter (\<lambda>r. arrives (f r)) (sched_regions m))"

definition due :: "time \<Rightarrow> (int \<rightharpoonup> time) \<Rightarrow> EnabledMonitor \<Rightarrow> bool" where
  "due now nextRun em =
     (case nextRun (mon_ID (em_Monitor em)) of
        Some next \<Rightarrow> next \<le> now
      | None \<Rightarrow> (case em_LastCheckedAt em of None \<Rightarrow> True | Some t \<Rightarrow> t + sched_interval (em_Monitor em) \<le> now))"

definition seeded :: "time \<Rightarrow> (int \<rightharpoonup> time) \<Rightarrow> EnabledMonitor \<Rightarrow> time option" where
  "seeded now nextRun em =
     (if due now nextRun em then Some (now + sched_interval (em_Monitor em))
      else case nextRun (mon_ID (em_Monitor em)) of
             Some next \<Rightarrow> Some next
           | None \<Rightarrow> map_option (\<lambda>t. t + sched_interval (em_Monitor em)) (em_LastCheckedAt em))"

lemma sched_interval_pos [simp]: "0 < sched_interval m"
  by (simp add: sched_interval_def Let_def duration_defs)

lemma sched_regions_ne [simp]: "sched_regions m \<noteq> []"
  by (simp add: sched_regions_def Let_def)

lemma later_by_interval: "t \<le> now \<Longrightarrow> t \<le> now + sched_interval m"
  using sched_interval_pos [of m] by linarith

lemma sched_job_simps [simp]:
  "job_Monitor (sched_job m now r) = m" "job_ScheduledAt (sched_job m now r) = now"
  "job_Region (sched_job m now r) = r" "job_OrgID (sched_job m now r) = mon_OrgID m"
  by (simp_all add: sched_job_def)

lemma dispatch_regions_nextRun [simp]: "sch_nextRun (dispatch_regions js f m now rs d) = sch_nextRun d"
  by (induction rs arbitrary: d) (auto simp: Produce_def split: prod.splits bool.splits)

lemma dispatch_regions_jobs:
  "sch_jobs (dispatch_regions js f m now rs d) = sch_jobs d @ map (sched_job m now) (filter (\<lambda>r. arrives (f r)) rs)"
  by (induction rs arbitrary: d) (auto simp: Produce_def arrives_def split: prod.splits bool.splits)

lemma fire_nextRun [simp]: "sch_nextRun (fire js f now m d) = (sch_nextRun d)(mon_ID m \<mapsto> now + sched_interval m)"
  by (simp add: fire_def set_next_def dispatch_def)

lemma fire_jobs [simp]: "sch_jobs (fire js f now m d) = sch_jobs d @ round_jobs f now m"
  by (simp add: fire_def set_next_def dispatch_def dispatch_regions_jobs round_jobs_def)

lemma set_next_simps [simp]:
  "sch_jobs (set_next mid t d) = sch_jobs d" "sch_nextRun (set_next mid t d) = (sch_nextRun d)(mid \<mapsto> t)"
  by (simp_all add: set_next_def)

lemma due_step_jobs:
  "sch_jobs (due_step js f now em d) =
     sch_jobs d @ (if due now (sch_nextRun d) em then round_jobs (f (mon_ID (em_Monitor em))) now (em_Monitor em) else [])"
  by (auto simp: due_step_def due_def Let_def split: option.splits)

lemma due_step_nextRun:
  "sch_nextRun (due_step js f now em d) = (sch_nextRun d)(mon_ID (em_Monitor em) := seeded now (sch_nextRun d) em)"
  by (auto simp: due_step_def due_def seeded_def Let_def fun_eq_iff split: option.splits)

lemma seeded_mono: "nextRun mid = Some next \<Longrightarrow> mid = mon_ID (em_Monitor em)
  \<Longrightarrow> \<exists>next'. seeded now nextRun em = Some next' \<and> next \<le> next'"
  by (auto simp: seeded_def due_def later_by_interval)

lemma round_jobs_mem: "job \<in> set (round_jobs f now m)
  \<Longrightarrow> job_Monitor job = m \<and> job_ScheduledAt job = now \<and> job_Region job \<in> set (sched_regions m) \<and> job_OrgID job = mon_OrgID m"
  by (auto simp: round_jobs_def)

lemma due_cong:
  "nextRun (mon_ID (em_Monitor em)) = nextRun' (mon_ID (em_Monitor em)) \<Longrightarrow> due now nextRun em = due now nextRun' em"
  by (simp add: due_def)

text \<open>A tick over distinct monitors: each due one gets its round, in the order of the list.\<close>

lemma due_loop_jobs:
  assumes "distinct (map (mon_ID \<circ> em_Monitor) ems)"
  shows "sch_jobs (due_loop js f now ems d) = sch_jobs d
    @ concat (map (\<lambda>em. round_jobs (f (mon_ID (em_Monitor em))) now (em_Monitor em)) (filter (due now (sch_nextRun d)) ems))"
  using assms
proof (induction ems arbitrary: d)
  case (Cons em ems)
  let ?d = "due_step js f now em d"
  have "filter (due now (sch_nextRun ?d)) ems = filter (due now (sch_nextRun d)) ems"
    using Cons.prems by (intro filter_cong refl due_cong) (auto simp: due_step_nextRun image_iff)
  with Cons show ?case by (simp add: due_step_jobs)
qed simp

lemma due_loop_nextRun_other:
  "mid \<notin> (mon_ID \<circ> em_Monitor) ` set ems \<Longrightarrow> sch_nextRun (due_loop js f now ems d) mid = sch_nextRun d mid"
  by (induction ems arbitrary: d) (auto simp: due_step_nextRun)

lemma due_loop_nextRun:
  assumes "distinct (map (mon_ID \<circ> em_Monitor) ems)" "em \<in> set ems"
  shows "sch_nextRun (due_loop js f now ems d) (mon_ID (em_Monitor em)) = seeded now (sch_nextRun d) em"
  using assms
proof (induction ems arbitrary: d)
  case (Cons e ems)
  show ?case
  proof (cases "em = e")
    case True
    then show ?thesis using Cons.prems by (auto simp: due_loop_nextRun_other due_step_nextRun)
  next
    case False
    with Cons.prems have "mon_ID (em_Monitor em) \<noteq> mon_ID (em_Monitor e)" by (auto simp: image_iff)
    with False Cons show ?thesis by (auto simp: due_step_nextRun seeded_def due_def cong: option.case_cong)
  qed
qed simp

text \<open>The monitors a tick lists are distinct, because the ids in the table are.\<close>

lemma listed_ids:
  "ListEnabledMonitorsWithLastCheck f c db = Inr ems \<Longrightarrow>
     map (mon_ID \<circ> em_Monitor) ems = map (mon_ID \<circ> row_Monitor) (filter (\<lambda>r. mon_Enabled (row_Monitor r)) (db_monitors db))"
  by (rule scan_all_map)
    (auto simp: ListEnabledMonitorsWithLastCheck_def scanMonitor_def split: if_splits sum.splits option.splits)

lemma listed_distinct:
  "ListEnabledMonitorsWithLastCheck f c db = Inr ems \<Longrightarrow> wf_db db \<Longrightarrow> distinct (map (mon_ID \<circ> em_Monitor) ems)"
  unfolding listed_ids by (rule distinct_map_filter) (simp add: wf_db_def wf_monitors_def comp_def)

section \<open>Rounds are an interval apart\<close>

text \<open>Two jobs of one monitor, the first published before the second: they are of one round,
  or the second is of a round at least the interval of the first later.\<close>

definition spaced :: "CheckJob \<Rightarrow> CheckJob \<Rightarrow> bool" where
  "spaced a b \<longleftrightarrow>
     (mon_ID (job_Monitor a) = mon_ID (job_Monitor b) \<longrightarrow>
        (job_ScheduledAt b = job_ScheduledAt a \<and> job_Monitor b = job_Monitor a)
        \<or> job_ScheduledAt a + sched_interval (job_Monitor a) \<le> job_ScheduledAt b)"

definition booked :: "dispatcher \<Rightarrow> CheckJob \<Rightarrow> bool" where
  "booked d job \<longleftrightarrow>
     (case sch_nextRun d (mon_ID (job_Monitor job)) of
        None \<Rightarrow> False
      | Some next \<Rightarrow> job_ScheduledAt job + sched_interval (job_Monitor job) \<le> next)"

definition sched_inv :: "dispatcher \<Rightarrow> bool" where
  "sched_inv d \<longleftrightarrow> sorted_wrt spaced (sch_jobs d) \<and> list_all (booked d) (sch_jobs d)"

lemma booked_step: "booked d job \<Longrightarrow> booked (due_step js f now em d) job"
proof -
  assume b: "booked d job"
  then obtain nx where n: "sch_nextRun d (mon_ID (job_Monitor job)) = Some nx"
      "job_ScheduledAt job + sched_interval (job_Monitor job) \<le> nx"
    by (auto simp: booked_def split: option.splits)
  show ?thesis
  proof (cases "mon_ID (job_Monitor job) = mon_ID (em_Monitor em)")
    case True
    then show ?thesis
      using seeded_mono [of "sch_nextRun d" "mon_ID (job_Monitor job)" nx em now] n True by (auto simp: booked_def due_step_nextRun)
  qed (use n in \<open>simp add: booked_def due_step_nextRun\<close>)
qed

lemma booked_round:
  "job \<in> set (round_jobs f' now (em_Monitor em)) \<Longrightarrow> due now (sch_nextRun d) em \<Longrightarrow> booked (due_step js f now em d) job"
  by (auto simp: booked_def due_step_nextRun seeded_def dest!: round_jobs_mem)

lemma spaced_round:
  assumes "booked d a" "due now (sch_nextRun d) em" "b \<in> set (round_jobs f now (em_Monitor em))"
  shows "spaced a b"
  using assms by (auto simp: spaced_def booked_def due_def dest!: round_jobs_mem split: option.splits)

lemma sorted_wrt_round: "sorted_wrt spaced (round_jobs f now m)"
  unfolding round_jobs_def by (simp add: sorted_wrt_map spaced_def sorted_wrt_iff_nth_less)

lemma sched_inv_step: "sched_inv d \<Longrightarrow> sched_inv (due_step js f now em d)"
  by (auto simp: sched_inv_def due_step_jobs list_all_iff sorted_wrt_append sorted_wrt_round
      intro: booked_step booked_round spaced_round)

lemma sched_inv_loop: "sched_inv d \<Longrightarrow> sched_inv (due_loop js f now ems d)"
  by (induction ems arbitrary: d) (auto intro: sched_inv_step)

lemma sched_inv_tick: "sched_inv d \<Longrightarrow> sched_inv (dispatchDue js c tk d)"
  by (auto simp: dispatchDue_def intro: sched_inv_loop split: sum.split)

lemma sched_inv_Run: "sched_inv d \<Longrightarrow> sched_inv (sched_Run js c ticks d)"
  by (induction ticks arbitrary: d) (auto intro: sched_inv_tick)

definition sched_New :: "kv \<Rightarrow> dispatcher" where
  "sched_New s = \<lparr>sch_nextRun = Map.empty, sch_kv = s, sch_jobs = []\<rparr>"

lemma sched_inv_New: "sched_inv (sched_New s)"
  by (simp add: sched_inv_def sched_New_def)

text \<open>
  C32. The scheduler never checks a monitor more often than its interval: over any sequence of
  ticks of one process, whatever the clock, the tables (monitors edited, disabled, created
  between ticks) and the failures of each, two jobs of one monitor belong to one round or are
  at least the interval apart that the monitor had at the earlier one.
\<close>

theorem rounds_are_spaced: "sorted_wrt spaced (sch_jobs (sched_Run js c ticks (sched_New s)))"
  using sched_inv_Run [OF sched_inv_New] by (simp add: sched_inv_def)

section \<open>What a tick publishes\<close>

text \<open>
  What one tick does, failures included: it publishes one job per region, in order, for
  exactly the monitors that are due (all regions whose publish reached the broker), and
  afterwards the next run of every listed monitor is known: one interval from now when it was
  due, the booked instant when it was seen before, and one interval after the last result when
  this is the first sight of it.
\<close>

theorem dispatchDue_spec:
  assumes "ListEnabledMonitorsWithLastCheck (tk_list tk) c (tk_db tk) = Inr ems"
    and "wf_db (tk_db tk)"
  shows "sch_jobs (dispatchDue js c tk d) = sch_jobs d @
           concat (map (\<lambda>em. round_jobs (tk_faults tk (mon_ID (em_Monitor em))) (tk_now tk) (em_Monitor em))
                     (filter (due (tk_now tk) (sch_nextRun d)) ems))
         \<and> map (\<lambda>em. sch_nextRun (dispatchDue js c tk d) (mon_ID (em_Monitor em))) ems
           = map (seeded (tk_now tk) (sch_nextRun d)) ems
         \<and> sch_nextRun (dispatchDue js c tk d) |` (- set (map (mon_ID \<circ> em_Monitor) ems))
           = sch_nextRun d |` (- set (map (mon_ID \<circ> em_Monitor) ems))"
  using assms(1) listed_distinct [OF assms]
  by (auto simp: dispatchDue_def due_loop_jobs due_loop_nextRun due_loop_nextRun_other restrict_map_def fun_eq_iff)

section \<open>Quiet until the next run\<close>

definition jobs_of :: "int \<Rightarrow> CheckJob list \<Rightarrow> CheckJob list" where
  "jobs_of mid = filter (\<lambda>j. mon_ID (job_Monitor j) = mid)"

lemma jobs_of_append [simp]: "jobs_of mid [] = []" "jobs_of mid (xs @ ys) = jobs_of mid xs @ jobs_of mid ys"
  by (simp_all add: jobs_of_def)

lemma jobs_of_round: "jobs_of mid (round_jobs f now m) = (if mon_ID m = mid then round_jobs f now m else [])"
  by (auto simp: jobs_of_def filter_empty_conv filter_id_conv dest!: round_jobs_mem)

definition quiet :: "int \<Rightarrow> time \<Rightarrow> dispatcher \<Rightarrow> bool" where
  "quiet mid t d \<longleftrightarrow> (case sch_nextRun d mid of None \<Rightarrow> False | Some next \<Rightarrow> t \<le> next)"

lemma quiet_step:
  assumes "quiet mid t d" "now < t"
  shows "jobs_of mid (sch_jobs (due_step js f now em d)) = jobs_of mid (sch_jobs d)"
    and "quiet mid t (due_step js f now em d)"
proof -
  from assms(1) obtain nx where n: "sch_nextRun d mid = Some nx" "t \<le> nx"
    by (auto simp: quiet_def split: option.splits)
  show "jobs_of mid (sch_jobs (due_step js f now em d)) = jobs_of mid (sch_jobs d)"
    using n assms(2) by (auto simp: due_step_jobs jobs_of_round due_def)
  show "quiet mid t (due_step js f now em d)"
    using n seeded_mono [of "sch_nextRun d" mid nx em now]
    by (cases "mid = mon_ID (em_Monitor em)") (auto simp: quiet_def due_step_nextRun)
qed

lemma quiet_loop:
  "quiet mid t d \<Longrightarrow> now < t \<Longrightarrow>
     jobs_of mid (sch_jobs (due_loop js f now ems d)) = jobs_of mid (sch_jobs d) \<and> quiet mid t (due_loop js f now ems d)"
  by (induction ems arbitrary: d) (simp_all add: quiet_step)

lemma quiet_tick:
  "quiet mid t d \<Longrightarrow> tk_now tk < t \<Longrightarrow>
     jobs_of mid (sch_jobs (dispatchDue js c tk d)) = jobs_of mid (sch_jobs d) \<and> quiet mid t (dispatchDue js c tk d)"
  by (simp add: dispatchDue_def quiet_loop split: sum.split)

lemma quiet_Run:
  "quiet mid t d \<Longrightarrow> list_all (\<lambda>tk. tk_now tk < t) ticks \<Longrightarrow>
     jobs_of mid (sch_jobs (sched_Run js c ticks d)) = jobs_of mid (sch_jobs d) \<and> quiet mid t (sched_Run js c ticks d)"
  by (induction ticks arbitrary: d) (simp_all add: quiet_tick)

text \<open>
  A failed publish costs the whole round: when at some tick a monitor is due and every
  publish of its jobs is lost, it gets no job at any tick before one interval has passed,
  although the broker may be back at the next tick.
\<close>

theorem failed_publish_skips_round:
  assumes "ListEnabledMonitorsWithLastCheck (tk_list tk) c (tk_db tk) = Inr ems"
    and "wf_db (tk_db tk)"
    and "em \<in> set ems" "due (tk_now tk) (sch_nextRun d) em"
    and "list_all (\<lambda>r. df_produce (tk_faults tk (mon_ID (em_Monitor em)) r) = SendLost) (sched_regions (em_Monitor em))"
    and "list_all (\<lambda>tk'. tk_now tk' < tk_now tk + sched_interval (em_Monitor em)) ticks"
  shows "jobs_of (mon_ID (em_Monitor em)) (sch_jobs (sched_Run js c (tk # ticks) d))
           = jobs_of (mon_ID (em_Monitor em)) (sch_jobs d)"
proof -
  let ?mid = "mon_ID (em_Monitor em)" and ?d = "dispatchDue js c tk d"
  note ids = listed_distinct [OF assms(1,2)]
  have "quiet ?mid (tk_now tk + sched_interval (em_Monitor em)) ?d"
    using assms(1,3,4) ids by (simp add: quiet_def dispatchDue_def due_loop_nextRun seeded_def)
  then have "jobs_of ?mid (sch_jobs (sched_Run js c ticks ?d)) = jobs_of ?mid (sch_jobs ?d)"
    using assms(6) by (simp add: quiet_Run)
  moreover have "jobs_of ?mid (round_jobs (tk_faults tk (mon_ID (em_Monitor e))) (tk_now tk) (em_Monitor e)) = []"
    if "e \<in> set ems" for e
  proof (cases "e = em")
    case True
    then show ?thesis using assms(5) by (simp add: round_jobs_def arrives_def list_all_iff filter_empty_conv)
  next
    case False
    then show ?thesis using that ids assms(3) by (auto simp: jobs_of_round distinct_map inj_on_def)
  qed
  then have "jobs_of ?mid (sch_jobs ?d) = jobs_of ?mid (sch_jobs d)"
    using assms(1) ids by (simp add: dispatchDue_def due_loop_jobs jobs_of_def filter_concat concat_eq_Nil_conv comp_def)
  ultimately show ?thesis by simp
qed

section \<open>A restart\<close>

text \<open>What every tick sees of one monitor: a last result not before \<open>t\<close> and the interval \<open>i\<close>.\<close>

definition sees :: "cipher \<Rightarrow> int \<Rightarrow> time \<Rightarrow> duration \<Rightarrow> tick \<Rightarrow> bool" where
  "sees c mid t i tk =
     (case ListEnabledMonitorsWithLastCheck (tk_list tk) c (tk_db tk) of
        Inl _ \<Rightarrow> True
      | Inr ems \<Rightarrow> list_all (\<lambda>em. mon_ID (em_Monitor em) = mid \<longrightarrow>
          sched_interval (em_Monitor em) = i \<and> (case em_LastCheckedAt em of None \<Rightarrow> False | Some t' \<Rightarrow> t \<le> t')) ems)"

definition resumed :: "int \<Rightarrow> time \<Rightarrow> dispatcher \<Rightarrow> bool" where
  "resumed mid t d \<longleftrightarrow>
     (case sch_nextRun d mid of None \<Rightarrow> True | Some next \<Rightarrow> t \<le> next)
     \<and> list_all (\<lambda>j. t \<le> job_ScheduledAt j) (jobs_of mid (sch_jobs d))"

lemma resumed_step:
  assumes "resumed mid (t + i) d"
    and "mon_ID (em_Monitor em) = mid \<longrightarrow> sched_interval (em_Monitor em) = i
           \<and> (case em_LastCheckedAt em of None \<Rightarrow> False | Some t' \<Rightarrow> t \<le> t')"
  shows "resumed mid (t + i) (due_step js f now em d)"
proof (cases "mon_ID (em_Monitor em) = mid")
  case True
  then obtain t' where t': "em_LastCheckedAt em = Some t'" "t \<le> t'" "sched_interval (em_Monitor em) = i"
    using assms(2) by (auto split: option.splits)
  have late: "t + i \<le> now" if "due now (sch_nextRun d) em"
    using that assms(1) t' True by (auto simp: due_def resumed_def split: option.splits)
  moreover have "t \<le> now" if "due now (sch_nextRun d) em"
    using late [OF that] sched_interval_pos [of "em_Monitor em"] t'(3) by linarith
  ultimately show ?thesis
    using assms(1) t' True
    by (auto simp: resumed_def due_step_jobs due_step_nextRun seeded_def jobs_of_round list_all_iff
        dest!: round_jobs_mem split: option.splits)
next
  case False
  then show ?thesis
    using assms(1) by (auto simp: resumed_def due_step_jobs due_step_nextRun jobs_of_round)
qed

lemma resumed_loop:
  "resumed mid (t + i) d \<Longrightarrow> list_all (\<lambda>em. mon_ID (em_Monitor em) = mid \<longrightarrow>
     sched_interval (em_Monitor em) = i \<and> (case em_LastCheckedAt em of None \<Rightarrow> False | Some t' \<Rightarrow> t \<le> t')) ems
   \<Longrightarrow> resumed mid (t + i) (due_loop js f now ems d)"
  by (induction ems arbitrary: d) (simp_all add: resumed_step)

lemma resumed_Run:
  "resumed mid (t + i) d \<Longrightarrow> list_all (sees c mid t i) ticks \<Longrightarrow> resumed mid (t + i) (sched_Run js c ticks d)"
  by (induction ticks arbitrary: d) (auto simp: dispatchDue_def sees_def intro!: resumed_loop split: sum.splits)

text \<open>
  A restart resumes the schedule: a fresh process, which remembers nothing, gives a
  monitor no job before one interval has passed since its last stored result.
\<close>

theorem restart_resumes_schedule:
  assumes "list_all (sees c mid t i) ticks"
  shows "list_all (\<lambda>j. t + i \<le> job_ScheduledAt j) (jobs_of mid (sch_jobs (sched_Run js c ticks (sched_New s))))"
  using resumed_Run [OF _ assms, of "sched_New s"] by (auto simp: resumed_def sched_New_def)

section \<open>Scheduled and manual checks\<close>

definition no_faults :: dispatch_faults where
  "no_faults = \<lparr>df_marshal = True, df_produce = SendOk, df_state = (KvOk, KvOk)\<rparr>"

text \<open>
  C37. A manual check and a scheduled round are the same work for every monitor but an ssl
  monitor with several regions: with no failure both publish, in the same order, jobs that
  differ in their id only.  For such an ssl monitor the scheduler publishes one job and the
  manual check one for each region.
\<close>

theorem manual_check_like_schedule:
  assumes "fan_out js now (mon_OrgID m) m (map (\<lambda>r. (r, f r)) (check_regions m)) s = (True, s')"
    and "api_jobs s = []" and "sch_jobs d = []"
  shows "map (\<lambda>j. j\<lparr>job_JobID := [] \<rparr>) (sch_jobs (dispatch js (\<lambda>_. no_faults) m now d))
     = (if mon_Type m = MonitorSSL \<and> length (mon_Regions m) > 1 then take 1 else id)
         (map (\<lambda>j. j\<lparr>job_JobID := []\<rparr>) (api_jobs s'))"
proof -
  have jobs: "api_jobs s' = map (\<lambda>r. check_job m (mon_OrgID m) r now) (check_regions m)"
    using fan_out_jobs [OF assms(1)] assms(2) by (auto simp: comp_def)
  have "arrives no_faults" by (simp add: arrives_def no_faults_def)
  then have "sch_jobs (dispatch js (\<lambda>_. no_faults) m now d) = map (sched_job m now) (sched_regions m)"
    using assms(3) by (simp add: dispatch_def dispatch_regions_jobs)
  then show ?thesis
    by (simp add: jobs sched_job_def check_job_def check_regions_def sched_regions_def take_map Let_def comp_def)
qed

section \<open>Concrete runs\<close>

definition ex_tick :: "time \<Rightarrow> db \<Rightarrow> dispatch_faults \<Rightarrow> tick" where
  "ex_tick now db f = \<lparr>tk_now = now, tk_db = db, tk_list = NoFault, tk_faults = (\<lambda>_ _. f)\<rparr>"

definition ex_enabled :: EnabledMonitor where
  "ex_enabled = \<lparr>em_Monitor = ex_mon 1 MonitorHTTP, em_LastCheckedAt = None\<rparr>"

definition ex_lost :: dispatch_faults where
  "ex_lost = no_faults\<lparr>df_produce := SendLost\<rparr>"

lemma ex_listed: "ListEnabledMonitorsWithLastCheck (tk_list (ex_tick t (ex_db 1 MonitorHTTP) f)) None
    (tk_db (ex_tick t (ex_db 1 MonitorHTTP) f)) = Inr [ex_enabled]"
  by (simp add: ex_tick_def ListEnabledMonitorsWithLastCheck_def ex_db_eval ex_enabled_def ex_mon_def scanMonitor_def
      last_result_def monitor_defaults_def ex_monitor_def order_desc_def)

lemma ex_wf: "wf_db (ex_db n ty)"
  using ex_db_reachable by (rule db_reachable_wf)

lemma ex_interval: "sched_interval (ex_mon n ty) = Minute"
  by (simp add: sched_interval_def ex_mon_def monitor_defaults_def ex_monitor_def duration_defs)

lemma ex_mon_ID: "mon_ID (ex_mon n ty) = 1"
  by (simp add: ex_mon_def)

lemma ex_due: "due t (sch_nextRun (sched_New s)) ex_enabled"
  by (simp add: due_def sched_New_def ex_enabled_def)

theorem dispatchDue_spec_witness:
  "map job_Region (sch_jobs (dispatchDue ex_codec None (ex_tick 0 (ex_db 1 MonitorHTTP) no_faults) (sched_New Map.empty)))
     = [DefaultRegion]"
  using dispatchDue_spec [OF ex_listed, of 0 no_faults ex_codec "sched_New Map.empty"] ex_wf ex_due
  by (simp add: ex_tick_def sched_New_def round_jobs_def no_faults_def arrives_def sched_regions_def ex_enabled_def
      ex_mon_def monitor_defaults_def ex_monitor_def Let_def)

theorem failed_publish_skips_round_witness:
  "jobs_of 1 (sch_jobs (sched_Run ex_codec None
     [ex_tick 0 (ex_db 1 MonitorHTTP) ex_lost, ex_tick Second (ex_db 1 MonitorHTTP) no_faults] (sched_New Map.empty))) = []"
proof -
  let ?tk = "ex_tick 0 (ex_db 1 MonitorHTTP) ex_lost"
  have "jobs_of (mon_ID (em_Monitor ex_enabled)) (sch_jobs (sched_Run ex_codec None
      (?tk # [ex_tick Second (ex_db 1 MonitorHTTP) no_faults]) (sched_New Map.empty)))
    = jobs_of (mon_ID (em_Monitor ex_enabled)) (sch_jobs (sched_New Map.empty))"
    using ex_wf ex_due
    by (intro failed_publish_skips_round [OF ex_listed])
      (simp_all add: ex_tick_def ex_lost_def ex_enabled_def ex_interval duration_defs list_all_iff)
  then show ?thesis by (simp add: ex_enabled_def ex_mon_ID sched_New_def)
qed

theorem restart_resumes_schedule_witness:
  "list_all (\<lambda>j. 20 + Minute \<le> job_ScheduledAt j) (jobs_of 1 (sch_jobs (sched_Run ex_codec None
     [ex_tick 30 ((ex_db 1 MonitorHTTP)\<lparr>db_results := [ex_result 20 True]\<rparr>) no_faults,
      ex_tick (20 + Minute) ((ex_db 1 MonitorHTTP)\<lparr>db_results := [ex_result 20 True]\<rparr>) no_faults] (sched_New Map.empty))))"
  by (rule restart_resumes_schedule)
    (simp add: sees_def ex_tick_def ListEnabledMonitorsWithLastCheck_def ex_db_eval scanMonitor_def
      last_result_def monitor_defaults_def ex_monitor_def order_desc_def ex_result_def sched_interval_def duration_defs)

theorem manual_check_like_schedule_witness:
  "map job_Region (sch_jobs (dispatch ex_codec (\<lambda>_. no_faults) (ex_mon 1 MonitorHTTP) 0 (sched_New Map.empty))) = [DefaultRegion]"
proof -
  let ?m = "ex_mon 1 MonitorHTTP"
  let ?g = "\<lambda>r. \<lparr>jf_state = (KvOk, KvOk), jf_publish = True\<rparr>"
  let ?s = "\<lparr>api_db = ex_db 1 MonitorHTTP, api_kv = Map.empty, api_changed = [], api_jobs = []\<rparr>"
  have org: "mon_OrgID ?m = 1" and reg: "check_regions ?m = [DefaultRegion]"
    by (simp_all add: ex_mon_def monitor_defaults_def ex_monitor_def check_regions_def)
  obtain s' where f: "fan_out ex_codec 0 (mon_OrgID ?m) ?m (map (\<lambda>r. (r, ?g r)) (check_regions ?m)) ?s = (True, s')"
    and j: "map job_Region (api_jobs s') = [DefaultRegion]"
    by (simp add: reg SetScheduled_def writeRegion_def kv_defs kv_live_def ex_codec_def Let_def check_job_def split: prod.split)
  have "map (\<lambda>j. j\<lparr>job_JobID := [] \<rparr>) (sch_jobs (dispatch ex_codec (\<lambda>_. no_faults) ?m 0 (sched_New Map.empty)))
      = map (\<lambda>j. j\<lparr>job_JobID := []\<rparr>) (api_jobs s')"
    using manual_check_like_schedule [OF f, of "sched_New Map.empty"]
    by (simp add: sched_New_def ex_mon_def monitor_defaults_def ex_monitor_def)
  then have "map job_Region (map (\<lambda>j. j\<lparr>job_JobID := [] \<rparr>) (sch_jobs (dispatch ex_codec (\<lambda>_. no_faults) ?m 0 (sched_New Map.empty))))
      = map job_Region (map (\<lambda>j. j\<lparr>job_JobID := []\<rparr>) (api_jobs s'))" by simp
  then show ?thesis using j by (simp add: comp_def)
qed

end
