(* ===== verification/Pulse_Worker.thy ===== *)
theory Pulse_Worker
  imports Pulse_Scheduler Pulse_Checker Pulse_Alert_Service
begin

text \<open>
  The worker, \<open>internal/worker/worker.go\<close>: the handler of one check job.  It marks the
  region running, runs the checker, marks the outcome, emits the result event and then
  stores the response snapshot and the certificate.  The record of the bus is \<open>None\<close> when it
  does not decode.  Every write has its own fault; the checker and its environment (network,
  clock) are those of \<open>Pulse_Checker\<close>.  The handler reads no state of an earlier job, so that
  the state of the worker is what it writes: the live states, the results topic and two
  tables.
\<close>

record worker_state =
  wk_kv :: kv
  wk_results :: "CheckResultEvent list"
  wk_db :: db

record worker_env =
  we_cfg :: CheckerConfig
  we_check :: check_env
  we_tls :: tls_env
  we_running :: "kv_fault \<times> kv_fault"
  we_result :: "kv_fault \<times> kv_fault"
  we_marshal :: bool
  we_produce :: send
  we_snapshot :: fault
  we_cert :: fault
  we_now :: time

section \<open>Operations\<close>

definition markRunning :: "codec \<Rightarrow> worker_env \<Rightarrow> Monitor \<Rightarrow> string \<Rightarrow> worker_state \<Rightarrow> worker_state" where
  "markRunning js env m region s =
     s\<lparr>wk_kv := snd (SetRunning js (we_running env) (we_now env) (mon_ID m) region (mon_IntervalSeconds m) (wk_kv s))\<rparr>"

definition check_outcome :: "CheckResult \<Rightarrow> Outcome" where
  "check_outcome result =
     \<lparr>out_Healthy = res_Healthy result, out_StatusCode = res_StatusCode result,
      out_LatencyMs = res_LatencyMs result, out_FailureReason = res_FailureReason result\<rparr>"

definition markResult :: "codec \<Rightarrow> worker_env \<Rightarrow> Monitor \<Rightarrow> string \<Rightarrow> CheckResult \<Rightarrow> worker_state \<Rightarrow> worker_state" where
  "markResult js env m region result s =
     s\<lparr>wk_kv := snd (SetResult js (we_result env) (we_now env) (mon_ID m) region (mon_IntervalSeconds m)
                       (check_outcome result) (wk_kv s))\<rparr>"

definition result_event :: "CheckJob \<Rightarrow> CheckResult \<Rightarrow> CheckResultEvent" where
  "result_event job result =
     \<lparr>cre_JobID = job_JobID job, cre_ScheduledAt = job_ScheduledAt job, cre_Result = wire_result result\<rparr>"

definition worker_emit :: "worker_env \<Rightarrow> CheckJob \<Rightarrow> CheckResult \<Rightarrow> worker_state \<Rightarrow> bool \<times> worker_state" where
  "worker_emit env job result s =
     (if \<not> we_marshal env then (True, s)
      else case Produce (we_produce env) (result_event job result) (wk_results s) of
             (ok, topic) \<Rightarrow> (ok, s\<lparr>wk_results := topic\<rparr>))"

definition save_snapshot :: "worker_env \<Rightarrow> CheckResult \<Rightarrow> worker_state \<Rightarrow> worker_state" where
  "save_snapshot env result s =
     (case res_Snapshot result of
        None \<Rightarrow> s
      | Some snap \<Rightarrow> s\<lparr>wk_db := snd (UpsertMonitorLastFailure (we_snapshot env) (res_OrgID result) (res_MonitorID result)
                                        snap (res_CheckedAt result) (wk_db s))\<rparr>)"

definition save_cert :: "worker_env \<Rightarrow> CheckResult \<Rightarrow> worker_state \<Rightarrow> worker_state" where
  "save_cert env result s =
     (case res_CertInfo result of
        None \<Rightarrow> s
      | Some ci \<Rightarrow> s\<lparr>wk_db := snd (UpsertMonitorCert (we_cert env) (res_OrgID result) (res_MonitorID result)
                                      ci (res_CheckedAt result) (wk_db s))\<rparr>)"

definition job_result :: "worker_env \<Rightarrow> CheckJob \<Rightarrow> CheckResult" where
  "job_result env job =
     (Check (we_cfg env) (we_check env) (we_tls env) (job_Monitor job) (FailureSnapshot (AllOn_For (job_OrgID job))))
       \<lparr>res_OrgID := job_OrgID job, res_Region := job_Region job\<rparr>"

text \<open>The boolean is true when the handler returns nil.\<close>

definition worker_handle :: "codec \<Rightarrow> worker_env \<Rightarrow> CheckJob option \<Rightarrow> worker_state \<Rightarrow> bool \<times> worker_state" where
  "worker_handle js env rec s =
     (case rec of
        None \<Rightarrow> (True, s)
      | Some job \<Rightarrow>
          let m = job_Monitor job;
              s1 = markRunning js env m (job_Region job) s;
              result = job_result env job;
              s2 = markResult js env m (job_Region job) result s1
          in case worker_emit env job result s2 of
               (False, s3) \<Rightarrow> (False, s3)
             | (True, s3) \<Rightarrow> (True, save_cert env result (save_snapshot env result s3)))"

section \<open>What the handler promises\<close>

lemma check_response_stamp:
  "res_CheckedAt (check_response cfg m cap resp b lat r) = res_CheckedAt r
   \<and> res_MonitorID (check_response cfg m cap resp b lat r) = res_MonitorID r"
  by (auto simp: check_response_def fail_with_snapshot_def Let_def)

lemma Check_stamp:
  "res_CheckedAt (Check cfg env tls m cap) = env_start env \<and> res_MonitorID (Check cfg env tls m cap) = mon_ID m"
proof (cases "mon_Type m = MonitorSSL")
  case True
  then show ?thesis
    by (cases "sslHostPort env (mon_URL m)")
      (auto simp: Check_cases checkSSL_def checkSSL_run_def Let_def split: option.splits prod.splits sum.splits list.splits verify_result.splits)
next
  case False
  then show ?thesis
    by (auto simp: Check_cases checkHTTP_result Let_def check_response_stamp split: option.splits sum.splits)
qed

lemma job_result_simps [simp]:
  "res_CheckedAt (job_result env job) = env_start (we_check env)"
  "res_MonitorID (job_result env job) = mon_ID (job_Monitor job)"
  "res_OrgID (job_result env job) = job_OrgID job"
  "res_Region (job_result env job) = job_Region job"
  by (simp_all add: job_result_def Check_stamp)

lemma mark_simps [simp]:
  "wk_results (markRunning js env m r s) = wk_results s" "wk_db (markRunning js env m r s) = wk_db s"
  "wk_results (markResult js env m r x s) = wk_results s" "wk_db (markResult js env m r x s) = wk_db s"
  "wk_results (save_snapshot env x s) = wk_results s" "wk_kv (save_snapshot env x s) = wk_kv s"
  "wk_results (save_cert env x s) = wk_results s" "wk_kv (save_cert env x s) = wk_kv s"
  by (simp_all add: markRunning_def markResult_def save_snapshot_def save_cert_def split: option.split)

text \<open>The tables of the alerting path.\<close>

definition same_core :: "db \<Rightarrow> db \<Rightarrow> bool" where
  "same_core a b \<longleftrightarrow> db_orgs b = db_orgs a \<and> db_monitors b = db_monitors a \<and> db_results b = db_results a
     \<and> db_incidents b = db_incidents a \<and> db_annotations b = db_annotations a"

lemma same_core_refl [simp]: "same_core db db"
  by (simp add: same_core_def)

lemma save_core: "wk_db s = db \<Longrightarrow> same_core db (wk_db (save_cert env x (save_snapshot env x s)))"
  by (auto simp: same_core_def save_cert_def save_snapshot_def UpsertMonitorLastFailure_def UpsertMonitorCert_def
      WithOrg_def rolled_back_def Let_def split: option.split prod.split sum.split if_splits)

text \<open>
  What handling one job does, whatever fails: the handler returns an error exactly when the
  result could be encoded and the broker did not acknowledge it; it publishes at most one
  event, which carries the id and the tick of the job and a result of the job's monitor, org
  and region, stamped with the start of this run; and it writes no monitor, incident,
  annotation or result row (the result row is written by alerting).
\<close>

theorem worker_handle_spec:
  assumes "worker_handle js env (Some job) s = (ok, s')"
  shows "(ok \<longleftrightarrow> (we_marshal env \<longrightarrow> we_produce env = SendOk))
    \<and> wk_results s' = wk_results s @
        (if we_marshal env \<and> we_produce env \<noteq> SendLost then [result_event job (job_result env job)] else [])
    \<and> cre_JobID (result_event job (job_result env job)) = job_JobID job
    \<and> cre_ScheduledAt (result_event job (job_result env job)) = job_ScheduledAt job
    \<and> result_key (cre_Result (result_event job (job_result env job)))
        = (job_OrgID job, mon_ID (job_Monitor job), job_Region job, env_start (we_check env))
    \<and> same_core (wk_db s) (wk_db s')"
proof -
  have "result_key (cre_Result (result_event job (job_result env job)))
      = (job_OrgID job, mon_ID (job_Monitor job), job_Region job, env_start (we_check env))"
    by (simp add: result_key_def result_event_def wire_result_def)
  moreover have "same_core (wk_db s) (wk_db s')"
    using assms
    by (auto simp: worker_handle_def worker_emit_def Let_def intro!: save_core split: prod.splits bool.splits if_splits)
  ultimately show ?thesis
    using assms
    by (auto simp: worker_handle_def worker_emit_def Produce_def Let_def result_event_def split: prod.splits bool.splits if_splits)
qed

text \<open>Jobs handled one after the other, each in its own environment.\<close>

fun worker_run :: "codec \<Rightarrow> (worker_env \<times> CheckJob) list \<Rightarrow> worker_state \<Rightarrow> worker_state" where
  "worker_run js [] s = s"
| "worker_run js ((env, job) # rest) s = worker_run js rest (snd (worker_handle js env (Some job) s))"

definition published :: "worker_env \<times> CheckJob \<Rightarrow> CheckResultEvent" where
  "published r = result_event (snd r) (job_result (fst r) (snd r))"

definition delivered :: "worker_env \<times> CheckJob \<Rightarrow> bool" where
  "delivered r \<longleftrightarrow> we_marshal (fst r) \<and> we_produce (fst r) \<noteq> SendLost"

lemma worker_handle_results:
  "wk_results (snd (worker_handle js env (Some job) s)) = wk_results s @ (if delivered (env, job) then [published (env, job)] else [])"
  by (simp add: worker_handle_def worker_emit_def Produce_def Let_def delivered_def published_def split: bool.split)

lemma worker_run_results:
  "wk_results (worker_run js runs s) = wk_results s @ map published (filter delivered runs)"
  by (induction js runs s rule: worker_run.induct) (simp_all add: worker_handle_results)

theorem worker_handle_spec_witness:
  "fst (worker_handle ex_codec \<lparr>we_cfg = ex_checker_config, we_check = ex_check_env [10, 0, 0, 1] ''ok'', we_tls = ex_tls_env,
     we_running = (KvOk, KvOk), we_result = (KvOk, KvOk), we_marshal = True, we_produce = SendAckLost, we_snapshot = NoFault,
     we_cert = NoFault, we_now = 0\<rparr> (Some (sched_job (ex_mon 1 MonitorHTTP) 0 DefaultRegion))
     \<lparr>wk_kv = Map.empty, wk_results = [], wk_db = ex_db 1 MonitorHTTP\<rparr>) = False"
  (is "fst (worker_handle ex_codec ?env (Some ?job) ?s) = False")
proof -
  obtain ok s' where h: "worker_handle ex_codec ?env (Some ?job) ?s = (ok, s')" by fastforce
  from worker_handle_spec [OF h] have "\<not> ok" by simp
  with h show ?thesis by simp
qed

end
