(* ===== verification/Pulse_Channels.thy ===== *)
theory Pulse_Channels
  imports Pulse_Incident_Store
begin

text \<open>
  Notification channels: the descriptor registry (\<open>internal/notify/descriptor.go\<close>,
  \<open>registry.go\<close>), \<open>cfgString\<close> of \<open>notify.go\<close>, and the tables behind it
  (\<open>internal/store/channels.go\<close>, \<open>internal/store/webhooks.go\<close>): channels with encrypted secrets, the dedup ids, the
  delivery outcomes and the org webhooks.

  The provider of a channel type is reached through its descriptor, so that its semantic
  check is a field of the descriptor.  A stored config is the JSON object the code writes;
  encoding it and decoding it again gives the same object.  The transactions are those of
  \<open>Pulse_Incident_Store\<close>: they may fail before or after the commit, and a failed one undoes
  its rows and not the numbers it took.
\<close>

section \<open>Descriptors\<close>

datatype FieldType =
    FieldString | FieldInt | FieldBool | FieldEnum | FieldStringList | FieldMemberList

record ConfigField =
  cf_Key :: string
  cf_Label :: string
  cf_Type :: FieldType
  cf_Required :: bool
  cf_Secret :: bool
  cf_Enum :: "string list"
  cf_Default :: string
  cf_Help :: string

datatype config_error =
    UnknownType ChannelType | FieldRequired string | FieldNotInteger string | FieldNotBool string
  | FieldNotInEnum string "string list" string | FieldNotList string | ProviderRejects string

record Descriptor =
  d_Type :: ChannelType
  d_DisplayName :: string
  d_Capability :: string
  d_ConfigFields :: "ConfigField list"
  d_Validate :: "config \<Rightarrow> config_error option"

type_synonym registry = "ChannelType \<rightharpoonup> Descriptor"

definition Register :: "Descriptor \<Rightarrow> registry \<Rightarrow> registry" where
  "Register d r = r(d_Type d \<mapsto> d)"

definition SecretKeys :: "registry \<Rightarrow> ChannelType \<Rightarrow> string list" where
  "SecretKeys r t =
     (case r t of None \<Rightarrow> [] | Some d \<Rightarrow> map cf_Key (filter cf_Secret (d_ConfigFields d)))"

text \<open>A list or a map has no text of its own in the model; no caller asks for one.\<close>

definition cfg_text :: "cfg_value \<Rightarrow> string" where
  "cfg_text v =
     (case v of CfgString s \<Rightarrow> s | CfgWhole n \<Rightarrow> Itoa n | CfgFrac s \<Rightarrow> s | CfgInt n \<Rightarrow> Itoa n | CfgInt64 n \<Rightarrow> Itoa n
      | CfgBool b \<Rightarrow> (if b then ''true'' else ''false'') | CfgNil \<Rightarrow> '''' | CfgList _ \<Rightarrow> '''' | CfgMap _ \<Rightarrow> '''')"

definition cfgString :: "config \<Rightarrow> string \<Rightarrow> string" where
  "cfgString cfg key = (case map_of cfg key of None \<Rightarrow> '''' | Some v \<Rightarrow> cfg_text v)"

fun contains_loop :: "string list \<Rightarrow> string \<Rightarrow> bool" where
  "contains_loop [] v = False"
| "contains_loop (s # rest) v = (if s = v then True else contains_loop rest v)"

fun isIntLike :: "cfg_value \<Rightarrow> bool" where
  "isIntLike (CfgInt _) = True"
| "isIntLike (CfgInt64 _) = True"
| "isIntLike (CfgWhole _) = True"
| "isIntLike (CfgFrac _) = True"
| "isIntLike (CfgString s) = (Atoi s \<noteq> None)"
| "isIntLike _ = False"

fun isListLike :: "cfg_value \<Rightarrow> bool" where
  "isListLike (CfgList _) = True"
| "isListLike (CfgMap _) = True"
| "isListLike _ = False"

fun isBoolLike :: "cfg_value \<Rightarrow> bool" where
  "isBoolLike (CfgBool _) = True"
| "isBoolLike (CfgString _) = True"
| "isBoolLike _ = False"

definition missing :: "config \<Rightarrow> string \<Rightarrow> bool" where
  "missing cfg key =
     (case map_of cfg key of None \<Rightarrow> True | Some v \<Rightarrow> v = CfgNil \<or> v = CfgString '''')"

definition validateField :: "ConfigField \<Rightarrow> config \<Rightarrow> config_error option" where
  "validateField f cfg =
     (if missing cfg (cf_Key f) then (if cf_Required f then Some (FieldRequired (cf_Key f)) else None)
      else let raw = the (map_of cfg (cf_Key f)) in
        case cf_Type f of
          FieldInt \<Rightarrow> (if isIntLike raw then None else Some (FieldNotInteger (cf_Key f)))
        | FieldBool \<Rightarrow> (if isBoolLike raw then None else Some (FieldNotBool (cf_Key f)))
        | FieldEnum \<Rightarrow>
            (let got = cfgString cfg (cf_Key f)
             in if contains_loop (cf_Enum f) got then None else Some (FieldNotInEnum (cf_Key f) (cf_Enum f) got))
        | FieldStringList \<Rightarrow> (if isListLike raw then None else Some (FieldNotList (cf_Key f)))
        | FieldMemberList \<Rightarrow> (if isListLike raw then None else Some (FieldNotList (cf_Key f)))
        | FieldString \<Rightarrow> None)"

fun validate_fields :: "ConfigField list \<Rightarrow> config \<Rightarrow> config_error option" where
  "validate_fields [] cfg = None"
| "validate_fields (f # fs) cfg = (case validateField f cfg of Some e \<Rightarrow> Some e | None \<Rightarrow> validate_fields fs cfg)"

definition ValidateConfig :: "registry \<Rightarrow> ChannelType \<Rightarrow> config \<Rightarrow> config_error option" where
  "ValidateConfig r t cfg =
     (case r t of
        None \<Rightarrow> Some (UnknownType t)
      | Some d \<Rightarrow> (case validate_fields (d_ConfigFields d) cfg of Some e \<Rightarrow> Some e | None \<Rightarrow> d_Validate d cfg))"

section \<open>Secrets at rest\<close>

fun crypt_map :: "(string \<Rightarrow> string option) \<Rightarrow> (string \<times> cfg_value) list \<Rightarrow> (string \<times> cfg_value) list option" where
  "crypt_map f [] = Some []"
| "crypt_map f ((hk, hv) # rest) =
     (case (case hv of CfgString s \<Rightarrow> if s = '''' then Some hv else map_option CfgString (f s) | _ \<Rightarrow> Some hv) of
        None \<Rightarrow> None
      | Some hv' \<Rightarrow> map_option (\<lambda>r. (hk, hv') # r) (crypt_map f rest))"

definition crypt_value :: "(string \<Rightarrow> string option) \<Rightarrow> cfg_value \<Rightarrow> cfg_value option" where
  "crypt_value f v =
     (case v of
        CfgString s \<Rightarrow> if s = '''' then Some v else map_option CfgString (f s)
      | CfgMap kvs \<Rightarrow> map_option CfgMap (crypt_map f kvs)
      | _ \<Rightarrow> Some v)"

text \<open>The loop over the secret keys, the same on the way in and on the way out.\<close>

fun crypt_keys :: "(string \<Rightarrow> string option) \<Rightarrow> string list \<Rightarrow> config \<Rightarrow> config option" where
  "crypt_keys f [] cfg = Some cfg"
| "crypt_keys f (key # keys) cfg =
     (case map_of cfg key of
        None \<Rightarrow> crypt_keys f keys cfg
      | Some v \<Rightarrow> (case crypt_value f v of None \<Rightarrow> None | Some v' \<Rightarrow> crypt_keys f keys (set_field key v' cfg)))"

definition decryptChannelConfig :: "cipher \<Rightarrow> ChannelType \<Rightarrow> config \<Rightarrow> (ChannelType \<Rightarrow> string list) option \<Rightarrow> config option" where
  "decryptChannelConfig c t cfg secretKeysFor =
     (case (c, secretKeysFor) of
        (Some (_, dec), Some keysFor) \<Rightarrow> crypt_keys dec (keysFor t) cfg
      | _ \<Rightarrow> Some cfg)"

definition EncryptChannelConfig :: "cipher \<Rightarrow> ChannelType \<Rightarrow> config \<Rightarrow> (ChannelType \<Rightarrow> string list) option \<Rightarrow> config option" where
  "EncryptChannelConfig c t cfg secretKeysFor =
     (case (c, secretKeysFor) of
        (Some (enc, _), Some keysFor) \<Rightarrow> crypt_keys enc (keysFor t) cfg
      | _ \<Rightarrow> Some cfg)"

section \<open>Tables\<close>

record DeliveryRow =
  dl_OrgID :: int
  dl_IncidentID :: int
  dl_ChannelID :: int
  dl_EventType :: string
  dl_Status :: string
  dl_Attempts :: int
  dl_LastError :: "string option"
  dl_DeliveredAt :: time

record notify_db =
  nd_base :: db
  nd_channels :: "Channel list"
  nd_dedup :: "(int \<times> string) list"
  nd_deliveries :: "DeliveryRow list"
  nd_webhooks :: "OrgWebhook list"
  nd_next_channel :: int
  nd_next_webhook :: int

type_synonym 'a ntx = "notify_db \<Rightarrow> (db_error + 'a) \<times> notify_db"

definition nd_WithOrg :: "fault \<Rightarrow> 'a ntx \<Rightarrow> 'a ntx" where
  "nd_WithOrg f fn s =
     (if f = FaultBefore then (Inl ErrConn, s)
      else case fn s of
             (Inl e, s') \<Rightarrow> (Inl e, s\<lparr>nd_next_channel := nd_next_channel s', nd_next_webhook := nd_next_webhook s'\<rparr>)
           | (Inr a, s') \<Rightarrow> (if f = FaultAfterCommit then Inl ErrConn else Inr a, s'))"

subsection \<open>Channels\<close>

type_synonym keysFor = "(ChannelType \<Rightarrow> string list) option"

definition scanChannel :: "cipher \<Rightarrow> keysFor \<Rightarrow> Channel \<Rightarrow> db_error + Channel" where
  "scanChannel c keys ch =
     (case decryptChannelConfig c (ch_Type ch) (ch_Config ch) keys of
        None \<Rightarrow> Inl ErrCipher
      | Some cfg \<Rightarrow> Inr (ch\<lparr>ch_Config := cfg\<rparr>))"

definition attached_ids :: "db \<Rightarrow> int \<Rightarrow> int \<Rightarrow> int list" where
  "attached_ids db orgID monitorID =
     concat (map (\<lambda>r. mon_ChannelIDs (row_Monitor r))
       (filter (\<lambda>r. mon_ID (row_Monitor r) = monitorID \<and> mon_OrgID (row_Monitor r) = orgID) (db_monitors db)))"

definition GetChannelsForMonitor :: "fault \<Rightarrow> cipher \<Rightarrow> keysFor \<Rightarrow> int \<Rightarrow> int \<Rightarrow> Channel list ntx" where
  "GetChannelsForMonitor f c keys orgID monitorID = nd_WithOrg f (\<lambda>s.
     (scan_all (scanChannel c keys)
        (sort_key ch_ID (filter (\<lambda>ch. ch_OrgID ch = orgID \<and> ch_Enabled ch
            \<and> ch_ID ch \<in> set (attached_ids (nd_base s) orgID monitorID)) (nd_channels s))), s))"

definition ListChannels :: "fault \<Rightarrow> cipher \<Rightarrow> keysFor \<Rightarrow> int \<Rightarrow> Channel list ntx" where
  "ListChannels f c keys orgID = nd_WithOrg f (\<lambda>s.
     (scan_all (scanChannel c keys) (sort_key ch_ID (filter (\<lambda>ch. ch_OrgID ch = orgID) (nd_channels s))), s))"

definition GetChannel :: "fault \<Rightarrow> cipher \<Rightarrow> keysFor \<Rightarrow> int \<Rightarrow> int \<Rightarrow> Channel ntx" where
  "GetChannel f c keys orgID i = nd_WithOrg f (\<lambda>s.
     (case find (\<lambda>ch. ch_ID ch = i \<and> ch_OrgID ch = orgID) (nd_channels s) of
        None \<Rightarrow> (Inl ErrNoRows, s)
      | Some ch \<Rightarrow> (scanChannel c keys ch, s)))"

definition CreateChannel :: "fault \<Rightarrow> cipher \<Rightarrow> keysFor \<Rightarrow> Channel \<Rightarrow> int ntx" where
  "CreateChannel f c keys ch s0 =
     (case EncryptChannelConfig c (ch_Type ch) (ch_Config ch) keys of
        None \<Rightarrow> (Inl ErrCipher, s0)
      | Some cfg \<Rightarrow>
          nd_WithOrg f (\<lambda>s.
            let i = nd_next_channel s; s1 = s\<lparr>nd_next_channel := i + 1\<rparr>
            in if ch_OrgID ch \<notin> set (db_orgs (nd_base s)) then (Inl ErrForeignKey, s1)
               else (Inr i, s1\<lparr>nd_channels := nd_channels s1 @ [ch\<lparr>ch_ID := i, ch_Config := cfg\<rparr>]\<rparr>)) s0)"

definition UpdateChannel :: "fault \<Rightarrow> cipher \<Rightarrow> keysFor \<Rightarrow> Channel \<Rightarrow> unit ntx" where
  "UpdateChannel f c keys ch s0 =
     (case EncryptChannelConfig c (ch_Type ch) (ch_Config ch) keys of
        None \<Rightarrow> (Inl ErrCipher, s0)
      | Some cfg \<Rightarrow>
          nd_WithOrg f (\<lambda>s.
            let here = (\<lambda>r. ch_ID r = ch_ID ch \<and> ch_OrgID r = ch_OrgID ch)
            in if \<not> list_ex here (nd_channels s) then (Inl ErrNoRows, s)
               else (Inr (), s\<lparr>nd_channels := map (\<lambda>r. if here r
                       then r\<lparr>ch_Name := ch_Name ch, ch_Type := ch_Type ch, ch_Config := cfg, ch_Enabled := ch_Enabled ch\<rparr>
                       else r) (nd_channels s)\<rparr>)) s0)"

text \<open>The deliveries of a channel go with it.\<close>

definition DeleteChannel :: "fault \<Rightarrow> int \<Rightarrow> int \<Rightarrow> bool ntx" where
  "DeleteChannel f orgID i = nd_WithOrg f (\<lambda>s.
     let here = (\<lambda>r. ch_ID r = i \<and> ch_OrgID r = orgID)
     in if \<not> list_ex here (nd_channels s) then (Inr False, s)
        else (Inr True, s\<lparr>nd_channels := filter (\<lambda>r. \<not> here r) (nd_channels s),
                nd_deliveries := filter (\<lambda>d. dl_ChannelID d \<noteq> i) (nd_deliveries s)\<rparr>))"

definition ClaimNotifyDedup :: "fault \<Rightarrow> int \<Rightarrow> string \<Rightarrow> bool ntx" where
  "ClaimNotifyDedup f orgID dedupID = nd_WithOrg f (\<lambda>s.
     if (orgID, dedupID) \<in> set (nd_dedup s) then (Inr False, s)
     else if orgID \<notin> set (db_orgs (nd_base s)) then (Inl ErrForeignKey, s)
     else (Inr True, s\<lparr>nd_dedup := nd_dedup s @ [(orgID, dedupID)]\<rparr>))"

definition same_delivery :: "DeliveryRow \<Rightarrow> DeliveryRow \<Rightarrow> bool" where
  "same_delivery a b \<longleftrightarrow> dl_OrgID a = dl_OrgID b \<and> dl_IncidentID a = dl_IncidentID b
     \<and> dl_ChannelID a = dl_ChannelID b \<and> dl_EventType a = dl_EventType b"

definition statusDelivered :: string where "statusDelivered = ''delivered''"
definition statusFailed :: string where "statusFailed = ''failed''"

definition RecordDelivery :: "fault \<Rightarrow> time \<Rightarrow> int \<Rightarrow> int \<Rightarrow> int \<Rightarrow> string \<Rightarrow> string \<Rightarrow> int \<Rightarrow> string \<Rightarrow> unit ntx" where
  "RecordDelivery f now orgID incidentID channelID eventType status attempts lastError = nd_WithOrg f (\<lambda>s.
     let row = \<lparr>dl_OrgID = orgID, dl_IncidentID = incidentID, dl_ChannelID = channelID, dl_EventType = eventType,
                dl_Status = status, dl_Attempts = attempts,
                dl_LastError = (if lastError \<noteq> '''' then Some lastError else None), dl_DeliveredAt = now\<rparr>
     in if status \<noteq> statusDelivered \<and> status \<noteq> statusFailed then (Inl ErrCheck, s)
        else if orgID \<notin> set (db_orgs (nd_base s)) \<or> channelID \<notin> set (map ch_ID (nd_channels s)) then (Inl ErrForeignKey, s)
        else if list_ex (same_delivery row) (nd_deliveries s)
        then (Inr (), s\<lparr>nd_deliveries := map (\<lambda>d. if same_delivery row d then row else d) (nd_deliveries s)\<rparr>)
        else (Inr (), s\<lparr>nd_deliveries := nd_deliveries s @ [row]\<rparr>))"

subsection \<open>Org webhooks\<close>

definition scanOrgWebhook :: "cipher \<Rightarrow> OrgWebhook \<Rightarrow> db_error + OrgWebhook" where
  "scanOrgWebhook c w =
     (case c of
        Some (_, dec) \<Rightarrow>
          if wh_SigningSecret w = '''' then Inr w
          else (case dec (wh_SigningSecret w) of None \<Rightarrow> Inl ErrCipher | Some p \<Rightarrow> Inr (w\<lparr>wh_SigningSecret := p\<rparr>))
      | None \<Rightarrow> Inr w)"

definition encryptSecret :: "cipher \<Rightarrow> string \<Rightarrow> string option" where
  "encryptSecret c plaintext =
     (case c of None \<Rightarrow> Some plaintext | Some (enc, _) \<Rightarrow> if plaintext = '''' then Some plaintext else enc plaintext)"

definition CreateWebhook :: "fault \<Rightarrow> cipher \<Rightarrow> time \<Rightarrow> OrgWebhook \<Rightarrow> int ntx" where
  "CreateWebhook f c now w s0 =
     (case encryptSecret c (wh_SigningSecret w) of
        None \<Rightarrow> (Inl ErrCipher, s0)
      | Some e \<Rightarrow>
          nd_WithOrg f (\<lambda>s.
            let i = nd_next_webhook s; s1 = s\<lparr>nd_next_webhook := i + 1\<rparr>
            in if wh_OrgID w \<notin> set (db_orgs (nd_base s)) then (Inl ErrForeignKey, s1)
               else (Inr i, s1\<lparr>nd_webhooks := nd_webhooks s1 @
                       [w\<lparr>wh_ID := i, wh_SigningSecret := e, wh_CreatedAt := now, wh_UpdatedAt := now,
                          wh_LastDeliveryAt := None, wh_LastStatus := '''', wh_LastError := None\<rparr>]\<rparr>)) s0)"

definition ListWebhooks :: "fault \<Rightarrow> cipher \<Rightarrow> int \<Rightarrow> OrgWebhook list ntx" where
  "ListWebhooks f c orgID = nd_WithOrg f (\<lambda>s.
     (scan_all (scanOrgWebhook c) (order_desc wh_ID (filter (\<lambda>w. wh_OrgID w = orgID) (nd_webhooks s))), s))"

definition GetWebhook :: "fault \<Rightarrow> cipher \<Rightarrow> int \<Rightarrow> int \<Rightarrow> OrgWebhook ntx" where
  "GetWebhook f c orgID i = nd_WithOrg f (\<lambda>s.
     (case find (\<lambda>w. wh_ID w = i \<and> wh_OrgID w = orgID) (nd_webhooks s) of
        None \<Rightarrow> (Inl ErrNoRows, s)
      | Some w \<Rightarrow> (scanOrgWebhook c w, s)))"

definition change_webhook :: "fault \<Rightarrow> int \<Rightarrow> int \<Rightarrow> (OrgWebhook \<Rightarrow> OrgWebhook) \<Rightarrow> unit ntx" where
  "change_webhook f orgID i upd = nd_WithOrg f (\<lambda>s.
     let here = (\<lambda>r. wh_ID r = i \<and> wh_OrgID r = orgID)
     in if \<not> list_ex here (nd_webhooks s) then (Inl ErrNoRows, s)
        else (Inr (), s\<lparr>nd_webhooks := map (\<lambda>r. if here r then upd r else r) (nd_webhooks s)\<rparr>))"

definition UpdateWebhook :: "fault \<Rightarrow> time \<Rightarrow> OrgWebhook \<Rightarrow> unit ntx" where
  "UpdateWebhook f now w = change_webhook f (wh_OrgID w) (wh_ID w)
     (\<lambda>r. r\<lparr>wh_URL := wh_URL w, wh_Enabled := wh_Enabled w, wh_Events := wh_Events w, wh_UpdatedAt := now\<rparr>)"

definition RotateWebhookSecret :: "fault \<Rightarrow> cipher \<Rightarrow> time \<Rightarrow> int \<Rightarrow> int \<Rightarrow> string \<Rightarrow> unit ntx" where
  "RotateWebhookSecret f c now orgID i rawSecret s0 =
     (case encryptSecret c rawSecret of
        None \<Rightarrow> (Inl ErrCipher, s0)
      | Some e \<Rightarrow> change_webhook f orgID i (\<lambda>r. r\<lparr>wh_SigningSecret := e, wh_UpdatedAt := now\<rparr>) s0)"

definition DeleteWebhook :: "fault \<Rightarrow> int \<Rightarrow> int \<Rightarrow> int ntx" where
  "DeleteWebhook f orgID i = nd_WithOrg f (\<lambda>s.
     let here = (\<lambda>r. wh_ID r = i \<and> wh_OrgID r = orgID)
     in (Inr (int (length (filter here (nd_webhooks s)))), s\<lparr>nd_webhooks := filter (\<lambda>r. \<not> here r) (nd_webhooks s)\<rparr>))"

definition ListEnabledWebhooks :: "fault \<Rightarrow> cipher \<Rightarrow> int \<Rightarrow> OrgWebhook list ntx" where
  "ListEnabledWebhooks f c orgID = nd_WithOrg f (\<lambda>s.
     (scan_all (scanOrgWebhook c) (sort_key wh_ID (filter (\<lambda>w. wh_OrgID w = orgID \<and> wh_Enabled w) (nd_webhooks s))), s))"

text \<open>An update that meets no row is no error here, unlike in the two above.\<close>

definition RecordWebhookDelivery :: "fault \<Rightarrow> time \<Rightarrow> int \<Rightarrow> int \<Rightarrow> string \<Rightarrow> string \<Rightarrow> unit ntx" where
  "RecordWebhookDelivery f now orgID i status lastError = nd_WithOrg f (\<lambda>s.
     if status \<noteq> statusDelivered \<and> status \<noteq> statusFailed
        \<and> list_ex (\<lambda>r. wh_ID r = i \<and> wh_OrgID r = orgID) (nd_webhooks s) then (Inl ErrCheck, s)
     else (Inr (), s\<lparr>nd_webhooks := map (\<lambda>r. if wh_ID r = i \<and> wh_OrgID r = orgID
             then r\<lparr>wh_LastDeliveryAt := Some now, wh_LastStatus := status,
                    wh_LastError := (if lastError \<noteq> '''' then Some lastError else None)\<rparr> else r) (nd_webhooks s)\<rparr>))"

section \<open>Round trips\<close>

lemma set_field_same: "map_of cfg k = Some v \<Longrightarrow> set_field k v cfg = cfg"
  by (induction k v cfg rule: set_field.induct) auto

lemma set_field_twice: "set_field k v (set_field k w cfg) = set_field k v cfg"
  by (induction k w cfg rule: set_field.induct) auto

lemma set_field_comm:
  "k \<noteq> k' \<Longrightarrow> map_of cfg k' \<noteq> None \<Longrightarrow> set_field k v (set_field k' v' cfg) = set_field k' v' (set_field k v cfg)"
  by (induction k v cfg rule: set_field.induct) auto

definition inverse_cipher :: "(string \<Rightarrow> string option) \<Rightarrow> (string \<Rightarrow> string option) \<Rightarrow> bool" where
  "inverse_cipher enc dec \<longleftrightarrow> (\<forall>s e. enc s = Some e \<longrightarrow> e \<noteq> '''' \<and> dec e = Some s)"

lemma crypt_map_inverse: "inverse_cipher enc dec \<Longrightarrow> crypt_map enc kvs = Some kvs' \<Longrightarrow> crypt_map dec kvs' = Some kvs"
  by (induction enc kvs arbitrary: kvs' rule: crypt_map.induct)
    (auto simp: inverse_cipher_def split: option.splits cfg_value.splits if_splits)

lemma crypt_value_inverse: "inverse_cipher enc dec \<Longrightarrow> crypt_value enc v = Some v' \<Longrightarrow> crypt_value dec v' = Some v"
  by (auto simp: crypt_value_def crypt_map_inverse split: cfg_value.splits if_splits)
    (auto simp: inverse_cipher_def)

lemma crypt_keys_other: "crypt_keys f keys cfg = Some cfg' \<Longrightarrow> k \<notin> set keys \<Longrightarrow> map_of cfg' k = map_of cfg k"
  by (induction f keys cfg rule: crypt_keys.induct) (auto simp: map_of_set_field split: option.splits)

lemma crypt_keys_set_field:
  "k \<notin> set keys \<Longrightarrow> crypt_keys f keys (set_field k v cfg) = map_option (set_field k v) (crypt_keys f keys cfg)"
  by (induction f keys cfg rule: crypt_keys.induct)
    (auto simp: map_of_set_field set_field_comm split: option.splits)

lemma crypt_keys_inverse:
  "inverse_cipher enc dec \<Longrightarrow> distinct keys \<Longrightarrow> crypt_keys enc keys cfg = Some cfg' \<Longrightarrow> crypt_keys dec keys cfg' = Some cfg"
proof (induction keys arbitrary: cfg)
  case (Cons k keys)
  show ?case
  proof (cases "map_of cfg k")
    case None
    then show ?thesis using Cons crypt_keys_other [of enc keys cfg cfg' k] by simp
  next
    case (Some v)
    then obtain v' where v': "crypt_value enc v = Some v'" "crypt_keys enc keys (set_field k v' cfg) = Some cfg'"
      using Cons.prems by (auto split: option.splits)
    have "map_of cfg' k = Some v'"
      using crypt_keys_other [OF v'(2)] Cons.prems(2) by (simp add: map_of_set_field)
    moreover have "crypt_keys dec keys cfg' = Some (set_field k v' cfg)"
      using Cons.IH [OF Cons.prems(1) _ v'(2)] Cons.prems(2) by simp
    ultimately show ?thesis
      using Cons.prems(2) crypt_value_inverse [OF Cons.prems(1) v'(1)] Some
      by (simp add: crypt_keys_set_field set_field_twice set_field_same)
  qed
qed simp

text \<open>
  A channel reads back as it was written: with a cipher whose decryption inverts its
  encryption and a registry that lists a secret key once, the channel that was created under
  a new id is returned with its config unchanged, secrets included, while the row holds the
  encrypted config; another org does not find it.
\<close>

theorem channel_roundtrip:
  assumes "inverse_cipher enc dec" and "distinct (SecretKeys reg (ch_Type ch))"
    and "nd_next_channel s \<notin> set (map ch_ID (nd_channels s))"
    and "CreateChannel NoFault (Some (enc, dec)) (Some (SecretKeys reg)) ch s = (Inr i, s')"
  shows "GetChannel NoFault (Some (enc, dec)) (Some (SecretKeys reg)) (ch_OrgID ch) i s' = (Inr (ch\<lparr>ch_ID := i\<rparr>), s')
    \<and> (\<exists>cfg. crypt_keys enc (SecretKeys reg (ch_Type ch)) (ch_Config ch) = Some cfg
         \<and> nd_channels s' = nd_channels s @ [ch\<lparr>ch_ID := i, ch_Config := cfg\<rparr>])
    \<and> (\<forall>orgID. orgID \<noteq> ch_OrgID ch \<longrightarrow>
         GetChannel NoFault (Some (enc, dec)) (Some (SecretKeys reg)) orgID i s' = (Inl ErrNoRows, s'))"
proof -
  obtain cfg where cfg: "crypt_keys enc (SecretKeys reg (ch_Type ch)) (ch_Config ch) = Some cfg"
    using assms(4) by (cases "crypt_keys enc (SecretKeys reg (ch_Type ch)) (ch_Config ch)")
      (simp_all add: CreateChannel_def EncryptChannelConfig_def)
  have i: "i = nd_next_channel s"
    and s': "nd_channels s' = nd_channels s @ [ch\<lparr>ch_ID := i, ch_Config := cfg\<rparr>]"
    using assms(4) by (cases "ch_OrgID ch \<in> set (db_orgs (nd_base s))";
        auto simp: CreateChannel_def EncryptChannelConfig_def cfg nd_WithOrg_def Let_def)+
  have no: "find (\<lambda>r. ch_ID r = i \<and> P r) (nd_channels s @ [x]) = (if ch_ID x = i \<and> P x then Some x else None)" for P x
  proof -
    have "find (\<lambda>r. ch_ID r = i \<and> P r) (nd_channels s) = None"
      using assms(3) i by (auto simp: find_None_iff image_iff)
    then show ?thesis by (simp add: find_append)
  qed
  have "crypt_keys dec (SecretKeys reg (ch_Type ch)) cfg = Some (ch_Config ch)"
    using crypt_keys_inverse [OF assms(1,2) cfg] .
  then show ?thesis
    using cfg s' unfolding GetChannel_def nd_WithOrg_def
    by (simp add: no [of "\<lambda>r. ch_OrgID r = _"] scanChannel_def decryptChannelConfig_def)
qed

text \<open>A secret that is given as a list is stored as it is.\<close>

lemma list_secret_in_clear:
  "crypt_value f (CfgList xs) = Some (CfgList xs)"
  "cf_Type fld = FieldStringList \<Longrightarrow> map_of cfg (cf_Key fld) = Some (CfgList xs) \<Longrightarrow> validateField fld cfg = None"
  by (simp_all add: crypt_value_def validateField_def missing_def)

section \<open>Concrete values\<close>

definition ex_descriptor :: Descriptor where
  "ex_descriptor = \<lparr>d_Type = ChannelSlack, d_DisplayName = ''Slack'', d_Capability = ''channel.slack'',
     d_ConfigFields = [\<lparr>cf_Key = ''webhook_url'', cf_Label = ''URL'', cf_Type = FieldString, cf_Required = True, cf_Secret = True,
       cf_Enum = [], cf_Default = '''', cf_Help = ''''\<rparr>],
     d_Validate = (\<lambda>_. None)\<rparr>"

definition ex_registry :: registry where
  "ex_registry = Register ex_descriptor Map.empty"

definition ex_channel :: Channel where
  "ex_channel = \<lparr>ch_ID = 0, ch_OrgID = 1, ch_Name = ''ops'', ch_Type = ChannelSlack,
     ch_Config = [(''webhook_url'', CfgString ''https://hooks'')], ch_Enabled = True\<rparr>"

text \<open>One monitor with channel 1 attached.\<close>

definition ex_notify_db :: "Channel list \<Rightarrow> notify_db" where
  "ex_notify_db chs =
     \<lparr>nd_base = (empty_db [1])\<lparr>db_monitors := [\<lparr>row_Monitor = (ex_monitor 1 MonitorHTTP)\<lparr>mon_ID := 1, mon_ChannelIDs := [1]\<rparr>,
        row_ConsecutiveFails = 0, row_FirstFailAt = None, row_LastAppliedResultID = None, row_SSLWarnedDays = None\<rparr>]\<rparr>,
      nd_channels = chs, nd_dedup = [], nd_deliveries = [], nd_webhooks = [], nd_next_channel = 1, nd_next_webhook = 1\<rparr>"

definition ex_enc :: "string \<Rightarrow> string option" where "ex_enc s = Some (CHR ''x'' # s)"
definition ex_dec :: "string \<Rightarrow> string option" where "ex_dec s = (if s = '''' then None else Some (tl s))"

lemma ex_inverse: "inverse_cipher ex_enc ex_dec"
  by (auto simp: inverse_cipher_def ex_enc_def ex_dec_def)

lemma ex_SecretKeys: "SecretKeys ex_registry ChannelSlack = [''webhook_url'']"
  by (simp add: SecretKeys_def ex_registry_def Register_def ex_descriptor_def)

theorem channel_roundtrip_witness:
  "fst (GetChannel NoFault (Some (ex_enc, ex_dec)) (Some (SecretKeys ex_registry)) 1 1
     (snd (CreateChannel NoFault (Some (ex_enc, ex_dec)) (Some (SecretKeys ex_registry)) ex_channel (ex_notify_db []))))
   = Inr (ex_channel\<lparr>ch_ID := 1\<rparr>)"
proof -
  obtain s' where c: "CreateChannel NoFault (Some (ex_enc, ex_dec)) (Some (SecretKeys ex_registry)) ex_channel (ex_notify_db []) = (Inr 1, s')"
    by (simp add: CreateChannel_def EncryptChannelConfig_def ex_channel_def ex_SecretKeys crypt_value_def ex_enc_def
        nd_WithOrg_def ex_notify_db_def empty_db_def Let_def)
  have "GetChannel NoFault (Some (ex_enc, ex_dec)) (Some (SecretKeys ex_registry)) (ch_OrgID ex_channel) 1 s' = (Inr (ex_channel\<lparr>ch_ID := 1\<rparr>), s')"
    using channel_roundtrip [OF ex_inverse _ _ c] by (simp add: ex_channel_def ex_SecretKeys ex_notify_db_def)
  with c show ?thesis by (simp add: ex_channel_def)
qed

end
