(* ===== verification/Pulse_Notify.thy ===== *)
theory Pulse_Notify
  imports Pulse_Channels Pulse_KV Pulse_Events Pulse_Bus
begin

text \<open>
  The notifier, \<open>internal/notify\<close>: the dispatch loop of the manager (\<open>notify.go\<close>), the consumer
  of the notify events (\<open>service.go\<close>) and the org webhooks (\<open>webhookdeliver.go\<close>).

  The state is what the notifier reads and writes: the dedup keys in Redis, the tables of
  \<open>Pulse_Channels\<close>, the messages it handed to providers and the requests it posted to
  webhooks.  The environment of one delivery says what fails: the result of every attempt of
  every channel, when the context is cancelled, the faults of the store calls.  The channels
  are served by one goroutine each and share nothing but the collector, which is keyed by
  the channel; the model serves them in order.
\<close>

section \<open>Events\<close>

record Event =
  ev_EventType :: string
  ev_Monitor :: Monitor
  ev_Incident :: Incident
  ev_Check :: CheckResult
  ev_DurationSeconds :: "int option"
  ev_AvgLatencyMs :: "int option"
  ev_SentAt :: time
  ev_Test :: bool
  ev_ChannelName :: string
  ev_OrgID :: int

text \<open>The zero values of the structs the notifier fills only in part.\<close>

definition zero_Monitor :: Monitor where
  "zero_Monitor = \<lparr>mon_ID = 0, mon_OrgID = 0, mon_Type = MonitorTypeOther '''', mon_Name = '''', mon_URL = '''',
     mon_Method = '''', mon_Headers = [], mon_Body = '''', mon_ExpectedStatusCodes = '''', mon_TimeoutSeconds = 0,
     mon_IntervalSeconds = 0, mon_Enabled = False, mon_MaxLatencyMs = None, mon_BodyContains = None,
     mon_FailureThreshold = 0, mon_Regions = [], mon_DownPolicy = DownPolicyOther '''', mon_ChannelIDs = [],
     mon_CreatedAt = zero_time, mon_UpdatedAt = zero_time\<rparr>"

definition zero_Incident :: Incident where
  "zero_Incident = \<lparr>inc_ID = 0, inc_OrgID = 0, inc_MonitorID = 0, inc_StartedAt = zero_time, inc_EndedAt = None,
     inc_CauseReason = ReasonOther '''', inc_CloseReason = None, inc_ClosedBy = None, inc_FirstResultID = None\<rparr>"

definition notify_EventDown :: string where "notify_EventDown = ''down''"
definition notify_EventRecovery :: string where "notify_EventRecovery = ''recovery''"

section \<open>The manager\<close>

text \<open>The squares in seconds, capped at 30 seconds.\<close>

definition defaultBackoff :: "nat \<Rightarrow> duration" where
  "defaultBackoff attempt =
     (let d = int (attempt * attempt) * Second; cap = 30 * Second in if d > cap then cap else d)"

definition defaultMaxRetries :: nat where "defaultMaxRetries = 3"

definition SetRetryPolicy :: "int \<Rightarrow> nat" where
  "SetRetryPolicy attempts = nat (if attempts < 1 then 1 else attempts)"

text \<open>What the collector holds for a channel: the number of sends and the error of the last one.\<close>

record attemptResult =
  ar_attempts :: int
  ar_err :: "string option"

record send_env =
  se_Send :: "nat \<Rightarrow> string option"
  se_cancelled :: "nat \<Rightarrow> bool"
  se_slept :: "nat \<Rightarrow> bool"

text \<open>
  The attempts of one channel from \<open>attempt\<close> on: \<open>se_Send\<close> is the error of an attempt,
  \<open>se_cancelled\<close> says that the context was done before it and \<open>se_slept\<close> that the wait after it ran its
  full time.  The result is the collector entry.
\<close>

function send_loop :: "nat \<Rightarrow> send_env \<Rightarrow> nat \<Rightarrow> attemptResult option \<Rightarrow> attemptResult option" where
  "send_loop maxRetries env attempt r =
     (if attempt > maxRetries then r
      else if se_cancelled env attempt then r
      else let r1 = Some \<lparr>ar_attempts = int attempt, ar_err = se_Send env attempt\<rparr>
           in if se_Send env attempt = None then r1
              else if attempt < maxRetries \<and> \<not> se_slept env attempt then r1
              else send_loop maxRetries env (attempt + 1) r1)"
  by pat_completeness auto
termination by (relation "measure (\<lambda>(maxRetries, env, attempt, r). Suc maxRetries - attempt)") auto

declare send_loop.simps [simp del]

definition sendWithRetry :: "nat \<Rightarrow> registry \<Rightarrow> send_env \<Rightarrow> Channel \<Rightarrow> attemptResult option" where
  "sendWithRetry maxRetries reg env ch =
     (case reg (ch_Type ch) of None \<Rightarrow> None | Some _ \<Rightarrow> send_loop maxRetries env 1 None)"

text \<open>\<open>Dispatch\<close>: the collector after all channels are done, as a function of the channel id.\<close>

fun Dispatch :: "nat \<Rightarrow> registry \<Rightarrow> (int \<Rightarrow> send_env) \<Rightarrow> Channel list \<Rightarrow> (int \<rightharpoonup> attemptResult) \<Rightarrow> (int \<rightharpoonup> attemptResult)" where
  "Dispatch maxRetries reg envs [] col = col"
| "Dispatch maxRetries reg envs (ch # rest) col =
     Dispatch maxRetries reg envs rest
       (if \<not> ch_Enabled ch then col
        else case sendWithRetry maxRetries reg (envs (ch_ID ch)) ch of
               None \<Rightarrow> col
             | Some r \<Rightarrow> col(ch_ID ch \<mapsto> r))"

section \<open>Org webhooks\<close>

definition OrgWebhookEvent_string :: "OrgWebhookEvent \<Rightarrow> string" where
  "OrgWebhookEvent_string e =
     (case e of OrgEventMonitorDown \<Rightarrow> ''monitor.down'' | OrgEventMonitorRecover \<Rightarrow> ''monitor.recovery''
      | OrgEventIncidentOpened \<Rightarrow> ''incident.opened'' | OrgEventIncidentClosed \<Rightarrow> ''incident.closed'')"

definition orgEventTypes :: "string \<Rightarrow> OrgWebhookEvent list" where
  "orgEventTypes t =
     (if t = notify_EventDown then [OrgEventMonitorDown, OrgEventIncidentOpened]
      else if t = notify_EventRecovery then [OrgEventMonitorRecover, OrgEventIncidentClosed] else [])"

definition orgEventID :: "(string \<Rightarrow> string) \<Rightarrow> int \<Rightarrow> OrgWebhookEvent \<Rightarrow> string" where
  "orgEventID sha256hex incidentID et =
     ''evt_'' @ take 32 (sha256hex (Itoa incidentID @ [CHR 0x00] @ OrgWebhookEvent_string et))"

record orgEventEnvelope =
  oe_EventID :: string
  oe_Event :: string
  oe_OrgID :: string
  oe_OccurredAt :: string
  oe_MonitorID :: string
  oe_MonitorName :: string
  oe_MonitorURL :: string
  oe_MonitorMethod :: string
  oe_IncidentID :: string
  oe_StartedAt :: string
  oe_EndedAt :: "string option"
  oe_DurationSeconds :: "int option"

definition buildOrgEnvelope :: "(string \<Rightarrow> string) \<Rightarrow> (time \<Rightarrow> string) \<Rightarrow> NotifyEvent \<Rightarrow> OrgWebhookEvent \<Rightarrow> time \<Rightarrow> orgEventEnvelope \<times> string" where
  "buildOrgEnvelope sha256hex rfc3339UTC ev et now =
     (let occurred = (if nev_SentAt ev = zero_time then now else nev_SentAt ev);
          eventID = orgEventID sha256hex (nev_IncidentID ev) et
      in (\<lparr>oe_EventID = eventID, oe_Event = OrgWebhookEvent_string et, oe_OrgID = ''org_'' @ Itoa (nev_OrgID ev),
           oe_OccurredAt = rfc3339UTC occurred, oe_MonitorID = ''mon_'' @ Itoa (nev_MonitorID ev),
           oe_MonitorName = nev_MonitorName ev, oe_MonitorURL = nev_MonitorURL ev, oe_MonitorMethod = nev_MonitorMethod ev,
           oe_IncidentID = ''inc_'' @ Itoa (nev_IncidentID ev), oe_StartedAt = rfc3339UTC (nev_IncidentStartedAt ev),
           oe_EndedAt = map_option rfc3339UTC (nev_IncidentEndedAt ev), oe_DurationSeconds = nev_DurationSeconds ev\<rparr>, eventID))"

definition signBody :: "(string \<Rightarrow> string \<Rightarrow> string) \<Rightarrow> string \<Rightarrow> string \<Rightarrow> string \<Rightarrow> string" where
  "signBody hmacSHA256hex secret ts raw = hmacSHA256hex secret (ts @ ''.'' @ raw)"

text \<open>One signed request: where it goes, its body and the two headers.\<close>

record signed_post =
  sp_URL :: string
  sp_Body :: string
  sp_Signature :: string
  sp_EventID :: string

definition signed_request :: "(string \<Rightarrow> string \<Rightarrow> string) \<Rightarrow> OrgWebhook \<Rightarrow> string \<Rightarrow> string \<Rightarrow> time \<Rightarrow> signed_post" where
  "signed_request hmac hook raw eventID now =
     (let ts = Itoa (now div Second)
      in \<lparr>sp_URL = wh_URL hook, sp_Body = raw,
          sp_Signature = ''t='' @ ts @ '',v1='' @ signBody hmac (wh_SigningSecret hook) ts raw, sp_EventID = eventID\<rparr>)"

datatype post_outcome = BadRequest string | NoResponse string | StatusCode int

record post_env =
  pe_now :: "nat \<Rightarrow> time"
  pe_cancelled :: "nat \<Rightarrow> string option"
  pe_outcome :: "nat \<Rightarrow> post_outcome"
  pe_slept :: "nat \<Rightarrow> string option"
  pe_record :: fault

text \<open>\<open>postSigned\<close>: its error and what it put on the wire.\<close>

definition postSigned :: "post_outcome \<Rightarrow> signed_post \<Rightarrow> string option \<times> signed_post list" where
  "postSigned out req =
     (case out of
        BadRequest e \<Rightarrow> (Some e, [])
      | NoResponse e \<Rightarrow> (Some e, [req])
      | StatusCode c \<Rightarrow> (if c < 200 \<or> c \<ge> 300 then Some (''HTTP '' @ Itoa c) else None, [req]))"

definition webhookBudget :: duration where "webhookBudget = 24 * Hour"
definition webhookMaxAttempts :: nat where "webhookMaxAttempts = 4"

definition over_budget :: "time \<Rightarrow> time \<Rightarrow> bool" where
  "over_budget sentAt now \<longleftrightarrow> webhookBudget > 0 \<and> sentAt \<noteq> zero_time \<and> time_Sub now sentAt > webhookBudget"

function post_loop :: "nat \<Rightarrow> post_env \<Rightarrow> time \<Rightarrow> (time \<Rightarrow> signed_post) \<Rightarrow> nat \<Rightarrow> string option \<Rightarrow> string option \<times> signed_post list" where
  "post_loop maxAttempts env sentAt req attempt lastErr =
     (if attempt > maxAttempts then (lastErr, [])
      else if pe_cancelled env attempt \<noteq> None then (pe_cancelled env attempt, [])
      else if over_budget sentAt (pe_now env attempt)
      then (Some ''retry budget of 24h0m0s elapsed since the event'', [])
      else case postSigned (pe_outcome env attempt) (req (pe_now env attempt)) of
             (None, ps) \<Rightarrow> (None, ps)
           | (Some e, ps) \<Rightarrow>
               if attempt < maxAttempts \<and> pe_slept env attempt \<noteq> None then (pe_slept env attempt, ps)
               else (case post_loop maxAttempts env sentAt req (attempt + 1) (Some e) of (r, qs) \<Rightarrow> (r, ps @ qs)))"
  by pat_completeness auto
termination by (relation "measure (\<lambda>(maxAttempts, env, sentAt, req, attempt, lastErr). Suc maxAttempts - attempt)") auto

declare post_loop.simps [simp del]

section \<open>The consumer\<close>

record notifier =
  nt_kv :: kv
  nt_db :: notify_db
  nt_sent :: "(int \<times> Event) list"
  nt_posts :: "signed_post list"

text \<open>What the notifier is built with, and what happens during one delivery.\<close>

record notify_cfg =
  nc_registry :: registry
  nc_maxRetries :: nat
  nc_cipher :: cipher
  nc_sha256hex :: "string \<Rightarrow> string"
  nc_hmac :: "string \<Rightarrow> string \<Rightarrow> string"
  nc_rfc3339UTC :: "time \<Rightarrow> string"
  nc_marshal :: "orgEventEnvelope \<Rightarrow> string option"

record notify_env =
  ne_now :: time
  ne_redis :: kv_fault
  ne_claim :: fault
  ne_channels :: fault
  ne_avg :: "(unit + int option) option"
  ne_send :: "int \<Rightarrow> send_env"
  ne_record :: "int \<Rightarrow> fault"
  ne_hooks :: fault
  ne_post :: "int \<Rightarrow> OrgWebhookEvent \<Rightarrow> post_env"

definition deliverOne :: "notify_cfg \<Rightarrow> notify_env \<Rightarrow> NotifyEvent \<Rightarrow> OrgWebhook \<Rightarrow> OrgWebhookEvent \<Rightarrow> notifier \<Rightarrow> notifier" where
  "deliverOne cfg env ev hook et s =
     (case buildOrgEnvelope (nc_sha256hex cfg) (nc_rfc3339UTC cfg) ev et (ne_now env) of
        (body, eventID) \<Rightarrow>
          (case nc_marshal cfg body of
             None \<Rightarrow> s
           | Some raw \<Rightarrow>
               (let pe = ne_post env (wh_ID hook) et
                in case post_loop webhookMaxAttempts pe (nev_SentAt ev) (signed_request (nc_hmac cfg) hook raw eventID) 1 None of
                     (lastErr, posts) \<Rightarrow>
                       let status = (if lastErr \<noteq> None then statusFailed else statusDelivered);
                           errText = (case lastErr of None \<Rightarrow> '''' | Some e \<Rightarrow> e)
                       in s\<lparr>nt_posts := nt_posts s @ posts,
                            nt_db := snd (RecordWebhookDelivery (pe_record pe) (ne_now env) (wh_OrgID hook) (wh_ID hook)
                                            status errText (nt_db s))\<rparr>)))"

fun deliver_types :: "notify_cfg \<Rightarrow> notify_env \<Rightarrow> NotifyEvent \<Rightarrow> OrgWebhook \<Rightarrow> OrgWebhookEvent list \<Rightarrow> notifier \<Rightarrow> notifier" where
  "deliver_types cfg env ev hook [] s = s"
| "deliver_types cfg env ev hook (et # rest) s =
     deliver_types cfg env ev hook rest (if Subscribes hook et then deliverOne cfg env ev hook et s else s)"

fun deliverOrgWebhooks :: "notify_cfg \<Rightarrow> notify_env \<Rightarrow> NotifyEvent \<Rightarrow> OrgWebhook list \<Rightarrow> notifier \<Rightarrow> notifier" where
  "deliverOrgWebhooks cfg env ev [] s = s"
| "deliverOrgWebhooks cfg env ev (hook # rest) s =
     deliverOrgWebhooks cfg env ev rest
       (if wh_Enabled hook then deliver_types cfg env ev hook (orgEventTypes (nev_EventType ev)) s else s)"

definition deliverWebhooks :: "notify_cfg \<Rightarrow> notify_env \<Rightarrow> NotifyEvent \<Rightarrow> notifier \<Rightarrow> notifier" where
  "deliverWebhooks cfg env ev s =
     (if orgEventTypes (nev_EventType ev) = [] then s
      else case ListEnabledWebhooks (ne_hooks env) (nc_cipher cfg) (nev_OrgID ev) (nt_db s) of
             (Inl _, d) \<Rightarrow> s\<lparr>nt_db := d\<rparr>
           | (Inr hooks, d) \<Rightarrow> deliverOrgWebhooks cfg env ev hooks (s\<lparr>nt_db := d\<rparr>))"

definition buildEvent :: "time \<Rightarrow> NotifyEvent \<Rightarrow> Event" where
  "buildEvent now ev =
     \<lparr>ev_EventType = nev_EventType ev,
      ev_Monitor = zero_Monitor\<lparr>mon_ID := nev_MonitorID ev, mon_OrgID := nev_OrgID ev, mon_Name := nev_MonitorName ev,
        mon_URL := nev_MonitorURL ev, mon_Method := nev_MonitorMethod ev\<rparr>,
      ev_Incident = zero_Incident\<lparr>inc_ID := nev_IncidentID ev, inc_OrgID := nev_OrgID ev, inc_MonitorID := nev_MonitorID ev,
        inc_StartedAt := nev_IncidentStartedAt ev, inc_EndedAt := nev_IncidentEndedAt ev\<rparr>,
      ev_Check = nev_Check ev, ev_DurationSeconds = nev_DurationSeconds ev, ev_AvgLatencyMs = None,
      ev_SentAt = (if nev_SentAt ev = zero_time then now else nev_SentAt ev),
      ev_Test = False, ev_ChannelName = '''', ev_OrgID = nev_OrgID ev\<rparr>"

definition enriched :: "notify_env \<Rightarrow> Event \<Rightarrow> Event" where
  "enriched env nev =
     (case (ne_avg env, res_LatencyMs (ev_Check nev)) of
        (Some (Inr avg), Some _) \<Rightarrow> nev\<lparr>ev_AvgLatencyMs := avg\<rparr>
      | _ \<Rightarrow> nev)"

text \<open>The second loop of \<open>dispatch\<close>: the outcomes are recorded; a failed write is logged only.\<close>

fun record_outcomes :: "notify_env \<Rightarrow> NotifyEvent \<Rightarrow> Event \<Rightarrow> (int \<rightharpoonup> attemptResult) \<Rightarrow> Channel list \<Rightarrow> notifier \<Rightarrow> notifier" where
  "record_outcomes env ev nev col [] s = s"
| "record_outcomes env ev nev col (ch # rest) s =
     record_outcomes env ev nev col rest
       (if \<not> ch_Enabled ch then s
        else case col (ch_ID ch) of
               None \<Rightarrow> s
             | Some r \<Rightarrow>
                 let status = (if ar_err r \<noteq> None then statusFailed else statusDelivered);
                     lastError = (case ar_err r of None \<Rightarrow> '''' | Some e \<Rightarrow> e)
                 in s\<lparr>nt_sent := nt_sent s @ replicate (nat (ar_attempts r)) (ch_ID ch, nev),
                      nt_db := snd (RecordDelivery (ne_record env (ch_ID ch)) (ne_now env) (nev_OrgID ev) (nev_IncidentID ev)
                                      (ch_ID ch) (nev_EventType ev) status (ar_attempts r) lastError (nt_db s))\<rparr>)"

definition notify_dispatch :: "notify_cfg \<Rightarrow> notify_env \<Rightarrow> NotifyEvent \<Rightarrow> Channel list \<Rightarrow> notifier \<Rightarrow> notifier" where
  "notify_dispatch cfg env ev channels s =
     (let nev = enriched env (buildEvent (ne_now env) ev);
          col = Dispatch (nc_maxRetries cfg) (nc_registry cfg) (ne_send env) channels Map.empty
      in record_outcomes env ev nev col channels s)"

definition notify_DedupKey :: "(string \<Rightarrow> string) \<Rightarrow> int \<Rightarrow> string \<Rightarrow> string" where
  "notify_DedupKey sha256hex incidentID eventType = sha256hex (Itoa incidentID @ [CHR 0x00] @ eventType)"

definition dedupTTL :: duration where "dedupTTL = 24 * Hour"

definition dedup_cache_key :: "string \<Rightarrow> string" where
  "dedup_cache_key dedupID = ''pulse:notify:dedup:'' @ dedupID"

definition dedup :: "notify_env \<Rightarrow> int \<Rightarrow> string \<Rightarrow> notifier \<Rightarrow> (db_error + bool) \<times> notifier" where
  "dedup env orgID dedupID s =
     (case SetIfAbsent (ne_redis env) (ne_now env) (dedup_cache_key dedupID) ''1'' dedupTTL (nt_kv s) of
        (cached, kv1) \<Rightarrow>
          let s1 = s\<lparr>nt_kv := kv1\<rparr>
          in if cached = Inr False then (Inr False, s1)
             else (case ClaimNotifyDedup (ne_claim env) orgID dedupID (nt_db s1) of
                     (r, d) \<Rightarrow> (r, s1\<lparr>nt_db := d\<rparr>)))"

definition event_dedup_id :: "notify_cfg \<Rightarrow> NotifyEvent \<Rightarrow> string" where
  "event_dedup_id cfg ev =
     (if nev_DedupKey ev = '''' then notify_DedupKey (nc_sha256hex cfg) (nev_IncidentID ev) (nev_EventType ev)
      else nev_DedupKey ev)"

text \<open>The boolean is true when the handler returns nil.\<close>

definition notify_handle :: "notify_cfg \<Rightarrow> notify_env \<Rightarrow> NotifyEvent option \<Rightarrow> notifier \<Rightarrow> bool \<times> notifier" where
  "notify_handle cfg env rec s =
     (case rec of
        None \<Rightarrow> (True, s)
      | Some ev \<Rightarrow>
          (case dedup env (nev_OrgID ev) (event_dedup_id cfg ev) s of
             (Inl _, s1) \<Rightarrow> (False, s1)
           | (Inr False, s1) \<Rightarrow> (True, s1)
           | (Inr True, s1) \<Rightarrow>
               (case GetChannelsForMonitor (ne_channels env) (nc_cipher cfg) (Some (SecretKeys (nc_registry cfg)))
                       (nev_OrgID ev) (nev_MonitorID ev) (nt_db s1) of
                  (Inl _, d) \<Rightarrow> (False, s1\<lparr>nt_db := d\<rparr>)
                | (Inr channels, d) \<Rightarrow>
                    let s2 = s1\<lparr>nt_db := d\<rparr>;
                        s3 = (if channels = [] then s2 else notify_dispatch cfg env ev channels s2)
                    in (True, deliverWebhooks cfg env ev s3))))"

section \<open>Retries\<close>

text \<open>How the attempts of one channel end, from the attempt \<open>k\<close> on.\<close>

lemma send_loop_result:
  assumes "send_loop n env k r0 = Some r" and "1 \<le> k" and "r0 = None \<longrightarrow> k = 1"
    and "r0 \<noteq> None \<longrightarrow> 1 < k \<and> r0 = Some \<lparr>ar_attempts = int (k - 1), ar_err = se_Send env (k - 1)\<rparr>
           \<and> se_Send env (k - 1) \<noteq> None \<and> k - 1 \<le> n"
    and "\<forall>j. 1 \<le> j \<longrightarrow> j < k \<longrightarrow> se_Send env j \<noteq> None \<and> \<not> se_cancelled env j"
  shows "\<exists>a. r = \<lparr>ar_attempts = int a, ar_err = se_Send env a\<rparr> \<and> 1 \<le> a \<and> a \<le> n
    \<and> (\<forall>j. 1 \<le> j \<longrightarrow> j < a \<longrightarrow> se_Send env j \<noteq> None)
    \<and> (se_Send env a = None \<or> a = n \<or> se_cancelled env (a + 1) \<or> \<not> se_slept env a)"
  using assms
proof (induction n env k r0 rule: send_loop.induct)
  case (1 n env k r0)
  show ?case
  proof (cases "k > n \<or> se_cancelled env k")
    case True
    then have "r0 = Some r" using "1.prems"(1) by (auto simp: send_loop.simps [of n env k] split: if_splits)
    with "1.prems"(4) have r: "1 < k" "r = \<lparr>ar_attempts = int (k - 1), ar_err = se_Send env (k - 1)\<rparr>" "k - 1 \<le> n" by auto
    with True "1.prems"(5) show ?thesis by (intro exI [of _ "k - 1"]) auto
  next
    case False
    let ?r = "\<lparr>ar_attempts = int k, ar_err = se_Send env k\<rparr>"
    show ?thesis
    proof (cases "se_Send env k = None \<or> k < n \<and> \<not> se_slept env k")
      case True
      then have "r = ?r" using False "1.prems"(1) by (auto simp: send_loop.simps [of n env k] Let_def split: if_splits)
      then show ?thesis using True False "1.prems"(2,5) by (intro exI [of _ k]) auto
    next
      case again: False
      then have "send_loop n env (k + 1) (Some ?r) = Some r"
        using False "1.prems"(1) by (simp add: send_loop.simps [of n env k] Let_def split: if_splits)
      moreover have "\<forall>j. 1 \<le> j \<longrightarrow> j < k + 1 \<longrightarrow> se_Send env j \<noteq> None \<and> \<not> se_cancelled env j"
        using again False "1.prems"(5) by (auto simp: less_Suc_eq)
      ultimately show ?thesis
        using again False "1.prems"(2) by (intro "1.IH" [OF _ _ refl]) auto
    qed
  qed
qed

text \<open>
  C39. The retries of a channel end and are bounded: for every number of retries and whatever the
  provider answers and the context does, the loop stops (it is a total function), and when it
  sent anything it made between one and the allowed number of attempts, every attempt before
  the last failed, the recorded error is that of the last attempt, and it gave up early only
  because the context was cancelled.
\<close>

theorem sendWithRetry_bounded:
  assumes "sendWithRetry n reg env ch = Some r"
  shows "\<exists>a. r = \<lparr>ar_attempts = int a, ar_err = se_Send env a\<rparr> \<and> 1 \<le> a \<and> a \<le> n
    \<and> (\<forall>j. 1 \<le> j \<longrightarrow> j < a \<longrightarrow> se_Send env j \<noteq> None)
    \<and> (se_Send env a = None \<or> a = n \<or> se_cancelled env (a + 1) \<or> \<not> se_slept env a)"
  using assms send_loop_result [of n env 1 None r] by (auto simp: sendWithRetry_def split: option.splits)

lemma send_loop_success:
  assumes "\<forall>j. \<not> se_cancelled env j \<and> se_slept env j" and "k \<le> a" "a \<le> n" "se_Send env a = None"
    and "\<forall>j. k \<le> j \<longrightarrow> j < a \<longrightarrow> se_Send env j \<noteq> None"
  shows "send_loop n env k r0 = Some \<lparr>ar_attempts = int a, ar_err = None\<rparr>"
  using assms
proof (induction "a - k" arbitrary: k r0)
  case 0
  then show ?case by (simp add: send_loop.simps [of n env k] Let_def)
next
  case (Suc d)
  then have "se_Send env k \<noteq> None" "k < a" by auto
  with Suc show ?case by (simp add: send_loop.simps [of n env k] Let_def)
qed

section \<open>What a delivery keeps\<close>

lemma nd_WithOrg_read:
  "(\<And>s. snd (fn s) = s) \<Longrightarrow> snd (nd_WithOrg f fn s) = s"
proof -
  assume r: "\<And>s. snd (fn s) = s"
  show ?thesis
    using r [of s] by (cases "fn s"; cases "fst (fn s)") (simp_all add: nd_WithOrg_def)
qed

lemma nd_WithOrg_faulty: "f \<noteq> NoFault \<Longrightarrow> \<exists>e. fst (nd_WithOrg f fn s) = Inl e"
  by (cases f; cases "fn s"; cases "fst (fn s)") (simp_all add: nd_WithOrg_def)

lemma GetChannelsForMonitor_snd [simp]: "snd (GetChannelsForMonitor f c keys orgID mid s) = s"
  unfolding GetChannelsForMonitor_def by (rule nd_WithOrg_read) simp

lemma ListEnabledWebhooks_snd [simp]: "snd (ListEnabledWebhooks f c orgID s) = s"
  unfolding ListEnabledWebhooks_def by (rule nd_WithOrg_read) simp

lemma ClaimNotifyDedup_seen:
  "(orgID, i) \<in> set (nd_dedup s) \<Longrightarrow> ClaimNotifyDedup f orgID i s = (if f = NoFault then Inr False else Inl ErrConn, s)"
  by (cases f) (simp_all add: ClaimNotifyDedup_def nd_WithOrg_def)

lemma ClaimNotifyDedup_grows:
  "set (nd_dedup s) \<subseteq> set (nd_dedup (snd (ClaimNotifyDedup f orgID i s)))"
  by (auto simp: ClaimNotifyDedup_def nd_WithOrg_def)

lemma ClaimNotifyDedup_first:
  "ClaimNotifyDedup f orgID i s = (Inr True, s') \<Longrightarrow> (orgID, i) \<in> set (nd_dedup s')"
  by (auto simp: ClaimNotifyDedup_def nd_WithOrg_def split: if_splits)

lemma RecordDelivery_dedup [simp]: "nd_dedup (snd (RecordDelivery f now o' i ch et st n e s)) = nd_dedup s"
  by (auto simp: RecordDelivery_def nd_WithOrg_def Let_def)

lemma RecordWebhookDelivery_dedup [simp]: "nd_dedup (snd (RecordWebhookDelivery f now o' i st e s)) = nd_dedup s"
  by (auto simp: RecordWebhookDelivery_def nd_WithOrg_def)

lemma record_outcomes_dedup [simp]: "nd_dedup (nt_db (record_outcomes env ev nev col chs s)) = nd_dedup (nt_db s)"
  by (induction env ev nev col chs s rule: record_outcomes.induct) (auto simp: Let_def split: option.splits)

lemma notify_dispatch_dedup [simp]: "nd_dedup (nt_db (notify_dispatch cfg env ev chs s)) = nd_dedup (nt_db s)"
  by (simp add: notify_dispatch_def Let_def)

lemma deliverOne_dedup [simp]: "nd_dedup (nt_db (deliverOne cfg env ev hook et s)) = nd_dedup (nt_db s)"
  by (auto simp: deliverOne_def Let_def split: prod.splits option.splits)

lemma deliver_types_dedup [simp]: "nd_dedup (nt_db (deliver_types cfg env ev hook ets s)) = nd_dedup (nt_db s)"
  by (induction cfg env ev hook ets s rule: deliver_types.induct) auto

lemma deliverOrgWebhooks_dedup [simp]: "nd_dedup (nt_db (deliverOrgWebhooks cfg env ev hooks s)) = nd_dedup (nt_db s)"
  by (induction cfg env ev hooks s rule: deliverOrgWebhooks.induct) auto

lemma deliverWebhooks_dedup [simp]: "nd_dedup (nt_db (deliverWebhooks cfg env ev s)) = nd_dedup (nt_db s)"
  using ListEnabledWebhooks_snd [of "ne_hooks env" "nc_cipher cfg" "nev_OrgID ev" "nt_db s"]
  by (auto simp: deliverWebhooks_def simp del: ListEnabledWebhooks_snd split: prod.splits sum.splits)

section \<open>Once only\<close>

text \<open>What a receiver or a reader of the tables can see of the notifier.\<close>

definition notify_view :: "notifier \<Rightarrow> (int \<times> Event) list \<times> signed_post list \<times> notify_db" where
  "notify_view s = (nt_sent s, nt_posts s, nt_db s)"

definition claimed :: "notify_cfg \<Rightarrow> notifier \<Rightarrow> NotifyEvent \<Rightarrow> bool" where
  "claimed cfg s ev \<longleftrightarrow> (nev_OrgID ev, event_dedup_id cfg ev) \<in> set (nd_dedup (nt_db s))"

lemma dedup_claimed:
  assumes "claimed cfg s ev"
  shows "notify_view (snd (dedup env (nev_OrgID ev) (event_dedup_id cfg ev) s)) = notify_view s
    \<and> fst (dedup env (nev_OrgID ev) (event_dedup_id cfg ev) s) \<noteq> Inr True"
  using assms
  by (auto simp: dedup_def claimed_def ClaimNotifyDedup_seen notify_view_def Let_def split: prod.splits)

lemma dedup_grows:
  "dedup env orgID i s = (r, s1) \<Longrightarrow> set (nd_dedup (nt_db s)) \<subseteq> set (nd_dedup (nt_db s1))
     \<and> nt_sent s1 = nt_sent s \<and> nt_posts s1 = nt_posts s
     \<and> (r = Inr True \<longrightarrow> (orgID, i) \<in> set (nd_dedup (nt_db s1)))"
  using ClaimNotifyDedup_grows [of "nt_db s" "ne_claim env" orgID i]
  by (auto simp: dedup_def Let_def dest!: ClaimNotifyDedup_first split: prod.splits if_splits)

lemma handle_claimed:
  assumes "claimed cfg s ev"
  shows "notify_view (snd (notify_handle cfg env (Some ev) s)) = notify_view s"
  using dedup_claimed [OF assms, of env]
  by (cases "dedup env (nev_OrgID ev) (event_dedup_id cfg ev) s")
    (auto simp: notify_handle_def split: sum.splits bool.splits)

lemma GetChannels_faulty: "f \<noteq> NoFault \<Longrightarrow> \<exists>e. fst (GetChannelsForMonitor f c keys orgID mid s) = Inl e"
  unfolding GetChannelsForMonitor_def by (rule nd_WithOrg_faulty)

lemma GetChannels_state: "GetChannelsForMonitor f c keys orgID mid s = (r, s') \<Longrightarrow> s' = s"
  using GetChannelsForMonitor_snd [of f c keys orgID mid s] by simp

lemma handle_dedup_mono:
  "set (nd_dedup (nt_db s)) \<subseteq> set (nd_dedup (nt_db (snd (notify_handle cfg env rec s))))"
  by (auto simp: notify_handle_def Let_def split: option.splits prod.splits sum.splits bool.splits
      dest!: dedup_grows GetChannels_state)

interpretation notifier: at_least_once
  "\<lambda>(ev, env) s. snd (notify_handle cfg env (Some ev) s)" "\<lambda>s. True" "\<lambda>s (ev, env). claimed cfg s ev" notify_view
  for cfg
  by unfold_locales
    (use handle_dedup_mono in \<open>auto simp: claimed_def handle_claimed dest!: subsetD split: prod.splits\<close>)

lemma claim_stays:
  assumes "claimed cfg s ev"
  shows "claimed cfg (fold (\<lambda>(r, env, kv) t. snd (notify_handle cfg env r (t\<lparr>nt_kv := kv\<rparr>))) ds s) ev"
  using assms
proof (induction ds arbitrary: s)
  case (Cons d ds)
  obtain r env kv where d: "d = (r, env, kv)" by (cases d) auto
  have "claimed cfg (snd (notify_handle cfg env r (s\<lparr>nt_kv := kv\<rparr>))) ev"
    using handle_dedup_mono [of "s\<lparr>nt_kv := kv\<rparr>" cfg env r] Cons.prems by (auto simp: claimed_def)
  then show ?case using Cons.IH d by simp
qed simp

lemma sent_claims:
  assumes "notify_handle cfg env (Some ev) s = (ok, s1)" and "nt_sent s1 \<noteq> nt_sent s \<or> nt_posts s1 \<noteq> nt_posts s"
  shows "claimed cfg s1 ev"
proof -
  obtain r s0 where d: "dedup env (nev_OrgID ev) (event_dedup_id cfg ev) s = (r, s0)" by fastforce
  have "r = Inr True"
  proof (rule ccontr)
    assume "r \<noteq> Inr True"
    then have "s1 = s0" using assms(1) d by (auto simp: notify_handle_def split: sum.splits bool.splits)
    then show False using assms(2) dedup_grows [OF d] by simp
  qed
  moreover from this have "(nev_OrgID ev, event_dedup_id cfg ev) \<in> set (nd_dedup (nt_db s0))" using dedup_grows [OF d] by simp
  ultimately show ?thesis
    using assms(1) d by (auto simp: notify_handle_def claimed_def Let_def split: prod.splits sum.splits dest!: GetChannels_state)
qed

text \<open>
  C30. No duplicates: once a delivery of an event has sent anything, to a channel or to a webhook, a later delivery
  of that event sends nothing and changes no table, whatever was delivered in between, under any faults, and whatever
  Redis holds at each delivery (it may have lost everything).
\<close>

theorem notify_no_duplicates:
  assumes "notify_handle cfg env (Some ev) s = (ok, s1)" and "nt_sent s1 \<noteq> nt_sent s \<or> nt_posts s1 \<noteq> nt_posts s"
    and "t = fold (\<lambda>(r, env, kv) t. snd (notify_handle cfg env r (t\<lparr>nt_kv := kv\<rparr>))) ds s1"
  shows "notify_view (snd (notify_handle cfg env' (Some ev) (t\<lparr>nt_kv := kv'\<rparr>))) = notify_view t"
proof -
  have "claimed cfg (t\<lparr>nt_kv := kv'\<rparr>) ev"
    using claim_stays [OF sent_claims [OF assms(1,2)], of ds] assms(3) by (simp add: claimed_def)
  from handle_claimed [OF this, of env'] show ?thesis by (simp add: notify_view_def)
qed

section \<open>Every channel is served\<close>

definition outcome_of :: "notify_cfg \<Rightarrow> notify_env \<Rightarrow> Channel \<Rightarrow> attemptResult option" where
  "outcome_of cfg env ch = sendWithRetry (nc_maxRetries cfg) (nc_registry cfg) (ne_send env (ch_ID ch)) ch"

definition sends_of :: "notify_cfg \<Rightarrow> notify_env \<Rightarrow> Channel \<Rightarrow> nat" where
  "sends_of cfg env ch = (case outcome_of cfg env ch of None \<Rightarrow> 0 | Some r \<Rightarrow> nat (ar_attempts r))"

text \<open>The row that should stand for a channel after the delivery of an event.\<close>

definition delivery_row :: "notify_env \<Rightarrow> NotifyEvent \<Rightarrow> int \<Rightarrow> attemptResult \<Rightarrow> DeliveryRow" where
  "delivery_row env ev i r =
     \<lparr>dl_OrgID = nev_OrgID ev, dl_IncidentID = nev_IncidentID ev, dl_ChannelID = i, dl_EventType = nev_EventType ev,
      dl_Status = (if ar_err r \<noteq> None then statusFailed else statusDelivered), dl_Attempts = ar_attempts r,
      dl_LastError = (case ar_err r of None \<Rightarrow> None | Some e \<Rightarrow> if e \<noteq> '''' then Some e else None),
      dl_DeliveredAt = ne_now env\<rparr>"

lemma Dispatch_other: "i \<notin> ch_ID ` set chs \<Longrightarrow> Dispatch n reg envs chs col i = col i"
  by (induction n reg envs chs col rule: Dispatch.induct) (auto split: option.splits)

lemma Dispatch_outcome:
  "distinct (map ch_ID chs) \<Longrightarrow> ch \<in> set chs \<Longrightarrow> ch_Enabled ch \<Longrightarrow> ch_ID ch \<notin> dom col \<Longrightarrow>
     Dispatch n reg envs chs col (ch_ID ch) = sendWithRetry n reg (envs (ch_ID ch)) ch"
proof (induction n reg envs chs col rule: Dispatch.induct)
  case (2 n reg envs c rest col)
  show ?case
  proof (cases "ch = c")
    case True
    then show ?thesis using 2 by (auto simp: Dispatch_other domIff split: option.split)
  next
    case False
    then have "ch_ID c \<noteq> ch_ID ch" using 2 by (auto simp: image_iff)
    with False 2 show ?thesis by (auto split: option.splits)
  qed
qed simp

lemma record_outcomes_sent:
  "list_all ch_Enabled chs \<Longrightarrow> nt_sent (record_outcomes env ev nev col chs s) =
     nt_sent s @ concat (map (\<lambda>ch. case col (ch_ID ch) of None \<Rightarrow> [] | Some r \<Rightarrow> replicate (nat (ar_attempts r)) (ch_ID ch, nev)) chs)"
  by (induction env ev nev col chs s rule: record_outcomes.induct) (auto simp: Let_def split: option.split)

lemma RecordDelivery_row:
  assumes "nev_OrgID ev \<in> set (db_orgs (nd_base s))" "i \<in> set (map ch_ID (nd_channels s))"
  shows "delivery_row env ev i r \<in> set (nd_deliveries (snd (RecordDelivery NoFault (ne_now env) (nev_OrgID ev) (nev_IncidentID ev) i
     (nev_EventType ev) (if ar_err r \<noteq> None then statusFailed else statusDelivered) (ar_attempts r)
     (case ar_err r of None \<Rightarrow> '''' | Some e \<Rightarrow> e) s)))"
  using assms
  by (auto simp: RecordDelivery_def nd_WithOrg_def Let_def delivery_row_def same_delivery_def list_ex_iff image_iff
      split: option.split)

lemma RecordDelivery_keeps:
  "dl_ChannelID row \<noteq> i \<Longrightarrow> row \<in> set (nd_deliveries s) \<Longrightarrow>
     row \<in> set (nd_deliveries (snd (RecordDelivery f now orgID inc i et st n e s)))"
  by (auto simp: RecordDelivery_def nd_WithOrg_def Let_def same_delivery_def image_iff)

lemma RecordDelivery_tables [simp]:
  "nd_base (snd (RecordDelivery f now orgID inc i et st n e s)) = nd_base s"
  "nd_channels (snd (RecordDelivery f now orgID inc i et st n e s)) = nd_channels s"
  by (auto simp: RecordDelivery_def nd_WithOrg_def Let_def)

lemma record_outcomes_keeps:
  "dl_ChannelID row \<notin> ch_ID ` set chs \<Longrightarrow> row \<in> set (nd_deliveries (nt_db s)) \<Longrightarrow>
     row \<in> set (nd_deliveries (nt_db (record_outcomes env ev nev col chs s)))"
  by (induction env ev nev col chs s rule: record_outcomes.induct)
    (auto simp: Let_def RecordDelivery_keeps split: option.split)

lemma record_outcomes_row:
  assumes "distinct (map ch_ID chs)" "ch \<in> set chs" "ch_Enabled ch" "col (ch_ID ch) = Some r"
    and "ne_record env (ch_ID ch) = NoFault"
    and "nev_OrgID ev \<in> set (db_orgs (nd_base (nt_db s)))" "ch_ID ch \<in> set (map ch_ID (nd_channels (nt_db s)))"
  shows "delivery_row env ev (ch_ID ch) r \<in> set (nd_deliveries (nt_db (record_outcomes env ev nev col chs s)))"
  using assms
proof (induction env ev nev col chs s rule: record_outcomes.induct)
  case (2 env ev nev col c rest s)
  show ?case
  proof (cases "ch = c")
    case True
    then show ?thesis
      using 2 RecordDelivery_row [of ev "nt_db s" "ch_ID ch" env r]
      by (auto simp: Let_def delivery_row_def intro!: record_outcomes_keeps)
  next
    case False
    then show ?thesis using 2 by (auto simp: Let_def split: option.splits)
  qed
qed simp

lemma deliverOne_frame [simp]:
  "nt_sent (deliverOne cfg env ev hook et s) = nt_sent s"
  "nd_deliveries (nt_db (deliverOne cfg env ev hook et s)) = nd_deliveries (nt_db s)"
  by (auto simp: deliverOne_def Let_def RecordWebhookDelivery_def nd_WithOrg_def split: prod.splits option.splits)

lemma deliver_types_frame [simp]:
  "nt_sent (deliver_types cfg env ev hook ets s) = nt_sent s"
  "nd_deliveries (nt_db (deliver_types cfg env ev hook ets s)) = nd_deliveries (nt_db s)"
  by (induction cfg env ev hook ets s rule: deliver_types.induct) auto

lemma deliverOrgWebhooks_frame [simp]:
  "nt_sent (deliverOrgWebhooks cfg env ev hooks s) = nt_sent s"
  "nd_deliveries (nt_db (deliverOrgWebhooks cfg env ev hooks s)) = nd_deliveries (nt_db s)"
  by (induction cfg env ev hooks s rule: deliverOrgWebhooks.induct) auto

lemma ListEnabled_state: "ListEnabledWebhooks f c orgID s = (r, s') \<Longrightarrow> s' = s"
  using ListEnabledWebhooks_snd [of f c orgID s] by simp

lemma deliverWebhooks_frame [simp]:
  "nt_sent (deliverWebhooks cfg env ev s) = nt_sent s"
  "nd_deliveries (nt_db (deliverWebhooks cfg env ev s)) = nd_deliveries (nt_db s)"
  by (auto simp: deliverWebhooks_def dest!: ListEnabled_state split: prod.splits sum.splits)

lemma scanChannel_fields:
  "scanChannel c keys ch = Inr ch' \<Longrightarrow> ch_ID ch' = ch_ID ch \<and> ch_Enabled ch' = ch_Enabled ch \<and> ch_OrgID ch' = ch_OrgID ch"
  by (auto simp: scanChannel_def split: option.splits)

definition attached_channels :: "notify_db \<Rightarrow> int \<Rightarrow> int \<Rightarrow> Channel list" where
  "attached_channels s orgID monitorID =
     sort_key ch_ID (filter (\<lambda>ch. ch_OrgID ch = orgID \<and> ch_Enabled ch
       \<and> ch_ID ch \<in> set (attached_ids (nd_base s) orgID monitorID)) (nd_channels s))"

lemma GetChannelsForMonitor_ids:
  assumes "GetChannelsForMonitor f c keys orgID mid s = (Inr chs, s')"
  shows "map (\<lambda>ch. (ch_ID ch, ch_Enabled ch)) chs = map (\<lambda>ch. (ch_ID ch, ch_Enabled ch)) (attached_channels s orgID mid)"
proof (rule scan_all_map [where scan = "scanChannel c keys"])
  show "scan_all (scanChannel c keys) (attached_channels s orgID mid) = Inr chs"
    using assms unfolding attached_channels_def GetChannelsForMonitor_def nd_WithOrg_def
    by (auto split: if_splits sum.splits)
qed (auto dest: scanChannel_fields)

lemma attached_enabled: "ch \<in> set (attached_channels s orgID mid) \<Longrightarrow> ch_Enabled ch \<and> ch \<in> set (nd_channels s)"
  by (simp add: attached_channels_def)

lemma attached_distinct: "distinct (map ch_ID (nd_channels s)) \<Longrightarrow> distinct (map ch_ID (attached_channels s orgID mid))"
  unfolding attached_channels_def by (simp add: distinct_map inj_on_def)

lemma dedup_first_tables:
  "dedup env orgID i s = (Inr True, s1) \<Longrightarrow>
     nd_channels (nt_db s1) = nd_channels (nt_db s) \<and> nd_base (nt_db s1) = nd_base (nt_db s)
     \<and> orgID \<in> set (db_orgs (nd_base (nt_db s)))"
  by (auto simp: dedup_def ClaimNotifyDedup_def nd_WithOrg_def Let_def split: prod.splits if_splits)

text \<open>
  C31. Every channel is served: when a delivery claims its event and can read the channels, it
  hands the message to exactly the enabled channels of the org that are attached to the
  monitor, to each as often as its own retries ask for, whatever happens to the others; the
  outcome of each channel whose record is written without a fault stands in the table with its
  status, number of attempts and last error; and the event is acknowledged.
\<close>

theorem notify_serves_channels:
  assumes "dedup env (nev_OrgID ev) (event_dedup_id cfg ev) s = (Inr True, s1)"
    and "GetChannelsForMonitor (ne_channels env) (nc_cipher cfg) (Some (SecretKeys (nc_registry cfg)))
           (nev_OrgID ev) (nev_MonitorID ev) (nt_db s1) = (Inr chs, d)"
    and "distinct (map ch_ID (nd_channels (nt_db s)))"
    and "notify_handle cfg env (Some ev) s = (ok, s')"
  shows "ok \<and> map ch_ID chs = map ch_ID (attached_channels (nt_db s) (nev_OrgID ev) (nev_MonitorID ev))
    \<and> nt_sent s' = nt_sent s @ concat (map (\<lambda>ch. replicate (sends_of cfg env ch)
         (ch_ID ch, enriched env (buildEvent (ne_now env) ev))) chs)
    \<and> (\<forall>ch \<in> set chs. \<forall>r. outcome_of cfg env ch = Some r \<longrightarrow> ne_record env (ch_ID ch) = NoFault \<longrightarrow>
         delivery_row env ev (ch_ID ch) r \<in> set (nd_deliveries (nt_db s')))"
proof -
  let ?att = "attached_channels (nt_db s) (nev_OrgID ev) (nev_MonitorID ev)"
  let ?nev = "enriched env (buildEvent (ne_now env) ev)"
  let ?col = "Dispatch (nc_maxRetries cfg) (nc_registry cfg) (ne_send env) chs Map.empty"
  note t = dedup_first_tables [OF assms(1)]
  have d: "d = nt_db s1" using GetChannels_state [OF assms(2)] .
  have s1: "nt_sent s1 = nt_sent s" using dedup_grows [OF assms(1)] by simp
  have pairs: "map (\<lambda>ch. (ch_ID ch, ch_Enabled ch)) chs = map (\<lambda>ch. (ch_ID ch, ch_Enabled ch)) ?att"
    using GetChannelsForMonitor_ids [OF assms(2)] t by (simp add: attached_channels_def)
  have ids: "map ch_ID chs = map ch_ID ?att" using arg_cong [OF pairs, of "map fst"] by (simp add: comp_def)
  have "map ch_Enabled chs = map ch_Enabled ?att" using arg_cong [OF pairs, of "map snd"] by (simp add: comp_def)
  then have en: "list_all ch_Enabled chs"
    using attached_enabled [of _ "nt_db s"] by (metis (no_types, lifting) in_set_conv_nth length_map list_all_length nth_map)
  have dist: "distinct (map ch_ID chs)" unfolding ids by (rule attached_distinct [OF assms(3)])
  have col: "?col (ch_ID ch) = outcome_of cfg env ch" if "ch \<in> set chs" for ch
    using Dispatch_outcome [OF dist that, of Map.empty] en that by (simp add: outcome_of_def list_all_iff)
  have h: "ok" "s' = deliverWebhooks cfg env ev (if chs = [] then s1 else notify_dispatch cfg env ev chs s1)"
    using assms(1,2,4) d by (auto simp: notify_handle_def Let_def)
  have sent: "nt_sent (notify_dispatch cfg env ev chs s1) = nt_sent s @
      concat (map (\<lambda>ch. replicate (sends_of cfg env ch) (ch_ID ch, ?nev)) chs)"
    unfolding notify_dispatch_def Let_def record_outcomes_sent [OF en] s1
    by (intro arg_cong [of _ _ "\<lambda>x. nt_sent s @ concat x"] map_cong refl) (auto simp: col sends_of_def split: option.split)
  have "delivery_row env ev (ch_ID ch) r \<in> set (nd_deliveries (nt_db (notify_dispatch cfg env ev chs s1)))"
    if "ch \<in> set chs" "outcome_of cfg env ch = Some r" "ne_record env (ch_ID ch) = NoFault" for ch r
    unfolding notify_dispatch_def Let_def
  proof (rule record_outcomes_row [OF dist that(1) _ _ that(3)])
    show "ch_Enabled ch" using en that(1) by (simp add: list_all_iff)
    show "?col (ch_ID ch) = Some r" using col that by simp
    show "nev_OrgID ev \<in> set (db_orgs (nd_base (nt_db s1)))" using t by simp
    have "ch_ID ch \<in> set (map ch_ID ?att)" using that(1) ids by (metis image_eqI set_map)
    then show "ch_ID ch \<in> set (map ch_ID (nd_channels (nt_db s1)))"
      using t attached_enabled [of _ "nt_db s"] by auto
  qed
  with h ids sent s1 show ?thesis by (cases chs) auto
qed

section \<open>Where an alert is lost\<close>

fun redeliver :: "notify_cfg \<Rightarrow> NotifyEvent \<Rightarrow> notify_env list \<Rightarrow> notifier \<Rightarrow> bool list \<times> notifier" where
  "redeliver cfg ev [] s = ([], s)"
| "redeliver cfg ev (env # envs) s =
     (case notify_handle cfg env (Some ev) s of (ok, s1) \<Rightarrow>
        case redeliver cfg ev envs s1 of (oks, s2) \<Rightarrow> (ok # oks, s2))"

lemma handle_cached:
  assumes "kv_held_until (nt_kv s) (dedup_cache_key (event_dedup_id cfg ev)) e" "ne_redis env = KvOk" "ne_now env < e"
  shows "notify_handle cfg env (Some ev) s = (True, s)"
  using assms
  by (auto simp: notify_handle_def dedup_def kv_held_until_def kv_defs kv_live_def Let_def)

lemma redeliver_cached:
  "kv_held_until (nt_kv s) (dedup_cache_key (event_dedup_id cfg ev)) e \<Longrightarrow>
   list_all (\<lambda>env. ne_redis env = KvOk \<and> ne_now env < e) envs \<Longrightarrow>
   redeliver cfg ev envs s = (replicate (length envs) True, s)"
  by (induction envs) (simp_all add: handle_cached)

text \<open>
  One failed write of the database loses an alert: when Redis takes the dedup key of a new
  event and the claim in the database then fails, the handler asks for a redelivery, and every
  redelivery of the next 24 hours finds the key in Redis, is acknowledged as a duplicate and
  sends nothing.
\<close>

theorem alert_lost_after_failed_claim:
  assumes "ne_redis env = KvOk" and "ne_claim env = FaultBefore"
    and "kv_live (ne_now env) (nt_kv s) (dedup_cache_key (event_dedup_id cfg ev)) = None"
    and "list_all (\<lambda>env'. ne_redis env' = KvOk \<and> ne_now env' < ne_now env + dedupTTL) envs"
  shows "\<exists>s1. notify_handle cfg env (Some ev) s = (False, s1) \<and> notify_view s1 = notify_view s
    \<and> redeliver cfg ev envs s1 = (replicate (length envs) True, s1)"
proof -
  let ?k = "dedup_cache_key (event_dedup_id cfg ev)"
  let ?s = "s\<lparr>nt_kv := (nt_kv s)(?k \<mapsto> (KvString ''1'', Some (ne_now env + dedupTTL)))\<rparr>"
  have h: "notify_handle cfg env (Some ev) s = (False, ?s)"
    using assms(1-3)
    by (simp add: notify_handle_def dedup_def kv_defs kv_expiry_def dedupTTL_def duration_defs Let_def
        ClaimNotifyDedup_def nd_WithOrg_def)
  have "kv_held_until (nt_kv ?s) ?k (ne_now env + dedupTTL)" by (simp add: kv_held_until_def)
  with h assms(4) show ?thesis by (intro exI [of _ ?s]) (simp add: redeliver_cached notify_view_def)
qed

text \<open>
  A failed read of the channels loses it too, and for good: the event is claimed by then.
\<close>

lemma alert_lost_after_channel_read:
  assumes "dedup env (nev_OrgID ev) (event_dedup_id cfg ev) s = (Inr True, s1)" and "ne_channels env \<noteq> NoFault"
    and "notify_handle cfg env (Some ev) s = (ok, s2)"
  shows "\<not> ok \<and> nt_sent s2 = nt_sent s
    \<and> notify_view (fold (\<lambda>env' t. snd (notify_handle cfg env' (Some ev) t)) envs s2) = notify_view s2"
proof -
  obtain e d where g: "GetChannelsForMonitor (ne_channels env) (nc_cipher cfg) (Some (SecretKeys (nc_registry cfg)))
           (nev_OrgID ev) (nev_MonitorID ev) (nt_db s1) = (Inl e, d)"
  proof -
    obtain r d where rd: "GetChannelsForMonitor (ne_channels env) (nc_cipher cfg) (Some (SecretKeys (nc_registry cfg)))
           (nev_OrgID ev) (nev_MonitorID ev) (nt_db s1) = (r, d)" by fastforce
    have "\<exists>e. r = Inl e"
      using GetChannels_faulty [OF assms(2), of "nc_cipher cfg" "Some (SecretKeys (nc_registry cfg))" "nev_OrgID ev" "nev_MonitorID ev" "nt_db s1"] rd
      by simp
    then obtain e where "r = Inl e" ..
    with rd that show ?thesis by simp
  qed
  have s2: "\<not> ok" "s2 = s1" using assms(1,3) g GetChannels_state [OF g] by (auto simp: notify_handle_def)
  have "claimed cfg s2 ev" using dedup_grows [OF assms(1)] s2 by (simp add: claimed_def)
  then show ?thesis
    using notifier.redeliveries_noop [where ms = "map (Pair ev) envs" and s = s2 and cfg = cfg] dedup_grows [OF assms(1)] s2
    by (auto simp: fold_map comp_def)
qed

section \<open>Org webhooks\<close>

lemma postSigned_posts: "set (snd (postSigned out req)) \<subseteq> {req} \<and> length (snd (postSigned out req)) \<le> 1"
  by (auto simp: postSigned_def split: post_outcome.splits)

lemma post_loop_posts:
  "length (snd (post_loop n env sentAt req k e)) \<le> Suc n - k
   \<and> (\<forall>p \<in> set (snd (post_loop n env sentAt req k e)). \<exists>t. p = req t \<and> \<not> over_budget sentAt t)"
proof (induction n env sentAt req k e rule: post_loop.induct)
  case (1 n env sentAt req k e)
  let ?p = "postSigned (pe_outcome env k) (req (pe_now env k))"
  obtain er ps where p: "?p = (er, ps)" by fastforce
  have ps: "set ps \<subseteq> {req (pe_now env k)}" "length ps \<le> 1" using postSigned_posts [of "pe_outcome env k" "req (pe_now env k)"] p by auto
  show ?case
  proof (cases "k > n \<or> pe_cancelled env k \<noteq> None \<or> over_budget sentAt (pe_now env k)
       \<or> er = None \<or> k < n \<and> pe_slept env k \<noteq> None")
    case True
    then show ?thesis
      using ps by (subst (1 2) post_loop.simps) (auto simp: p split: option.splits)
  next
    case False
    then obtain e' where er: "er = Some e'" by auto
    have eq: "snd (post_loop n env sentAt req k e) = ps @ snd (post_loop n env sentAt req (k + 1) (Some e'))"
      using False er by (subst post_loop.simps) (auto simp: p split: prod.splits)
    have "length (snd (post_loop n env sentAt req (k + 1) (Some e'))) \<le> Suc n - (k + 1)
      \<and> (\<forall>q \<in> set (snd (post_loop n env sentAt req (k + 1) (Some e'))). \<exists>t. q = req t \<and> \<not> over_budget sentAt t)"
      using False er p by (intro "1.IH") auto
    then show ?thesis unfolding eq using ps False by auto
  qed
qed

text \<open>What may be posted for one hook and event type.\<close>

definition good_post :: "notify_cfg \<Rightarrow> notify_env \<Rightarrow> NotifyEvent \<Rightarrow> OrgWebhook \<Rightarrow> OrgWebhookEvent \<Rightarrow> signed_post \<Rightarrow> bool" where
  "good_post cfg env ev hook et p \<longleftrightarrow>
     Subscribes hook et \<and> et \<in> set (orgEventTypes (nev_EventType ev))
     \<and> (\<exists>raw t. nc_marshal cfg (fst (buildOrgEnvelope (nc_sha256hex cfg) (nc_rfc3339UTC cfg) ev et (ne_now env))) = Some raw
          \<and> \<not> over_budget (nev_SentAt ev) t
          \<and> p = \<lparr>sp_URL = wh_URL hook, sp_Body = raw,
                 sp_Signature = ''t='' @ Itoa (t div Second) @ '',v1=''
                   @ nc_hmac cfg (wh_SigningSecret hook) (Itoa (t div Second) @ ''.'' @ raw),
                 sp_EventID = orgEventID (nc_sha256hex cfg) (nev_IncidentID ev) et\<rparr>)"

lemma deliverOne_posts:
  assumes "Subscribes hook et" "et \<in> set (orgEventTypes (nev_EventType ev))"
  shows "\<exists>new. nt_posts (deliverOne cfg env ev hook et s) = nt_posts s @ new
           \<and> length new \<le> webhookMaxAttempts \<and> list_all (good_post cfg env ev hook et) new"
proof -
  obtain body eid where b: "buildOrgEnvelope (nc_sha256hex cfg) (nc_rfc3339UTC cfg) ev et (ne_now env) = (body, eid)" by fastforce
  have eid: "eid = orgEventID (nc_sha256hex cfg) (nev_IncidentID ev) et"
    using b by (auto simp: buildOrgEnvelope_def Let_def)
  show ?thesis
  proof (cases "nc_marshal cfg body")
    case None
    then show ?thesis by (simp add: deliverOne_def b)
  next
    case (Some raw)
    let ?req = "signed_request (nc_hmac cfg) hook raw eid"
    let ?new = "snd (post_loop webhookMaxAttempts (ne_post env (wh_ID hook) et) (nev_SentAt ev) ?req 1 None)"
    have "nt_posts (deliverOne cfg env ev hook et s) = nt_posts s @ ?new"
      by (simp add: deliverOne_def b Some Let_def split: prod.split)
    moreover have "good_post cfg env ev hook et p" if "p = ?req t" "\<not> over_budget (nev_SentAt ev) t" for p t
      using assms that by (auto simp: good_post_def b Some signed_request_def signBody_def Let_def eid)
    then have "list_all (good_post cfg env ev hook et) ?new"
      using post_loop_posts [of webhookMaxAttempts "ne_post env (wh_ID hook) et" "nev_SentAt ev" ?req 1 None]
      by (auto simp: list_all_iff)
    moreover have "length ?new \<le> webhookMaxAttempts"
      using post_loop_posts [of webhookMaxAttempts "ne_post env (wh_ID hook) et" "nev_SentAt ev" ?req 1 None] by simp
    ultimately show ?thesis by blast
  qed
qed

lemma deliver_types_posts:
  assumes "set ets \<subseteq> set (orgEventTypes (nev_EventType ev))"
  shows "\<exists>new. nt_posts (deliver_types cfg env ev hook ets s) = nt_posts s @ new
           \<and> length new \<le> webhookMaxAttempts * length ets \<and> list_all (\<lambda>p. \<exists>et. good_post cfg env ev hook et p) new"
  using assms
proof (induction cfg env ev hook ets s rule: deliver_types.induct)
  case (2 cfg env ev hook et rest s)
  let ?s = "if Subscribes hook et then deliverOne cfg env ev hook et s else s"
  have "\<exists>a. nt_posts ?s = nt_posts s @ a \<and> length a \<le> webhookMaxAttempts
      \<and> list_all (\<lambda>p. \<exists>et. good_post cfg env ev hook et p) a"
    using deliverOne_posts [of hook et ev cfg env s] "2.prems"
    by (cases "Subscribes hook et") (fastforce simp: list_all_iff, simp)
  then obtain a where a: "nt_posts ?s = nt_posts s @ a" "length a \<le> webhookMaxAttempts"
      "list_all (\<lambda>p. \<exists>et. good_post cfg env ev hook et p) a" by blast
  obtain b where "nt_posts (deliver_types cfg env ev hook rest ?s) = nt_posts ?s @ b"
      "length b \<le> webhookMaxAttempts * length rest" "list_all (\<lambda>p. \<exists>et. good_post cfg env ev hook et p) b"
    using 2 by auto
  then show ?case using a by (intro exI [of _ "a @ b"]) auto
qed simp

lemma deliverOrgWebhooks_posts:
  "\<exists>new. nt_posts (deliverOrgWebhooks cfg env ev hooks s) = nt_posts s @ new
     \<and> length new \<le> webhookMaxAttempts * length (orgEventTypes (nev_EventType ev)) * length hooks
     \<and> list_all (\<lambda>p. \<exists>hook et. hook \<in> set hooks \<and> wh_Enabled hook \<and> good_post cfg env ev hook et p) new"
proof (induction cfg env ev hooks s rule: deliverOrgWebhooks.induct)
  case (2 cfg env ev hook rest s)
  let ?n = "webhookMaxAttempts * length (orgEventTypes (nev_EventType ev))"
  let ?s = "if wh_Enabled hook then deliver_types cfg env ev hook (orgEventTypes (nev_EventType ev)) s else s"
  have "\<exists>a. nt_posts ?s = nt_posts s @ a \<and> length a \<le> ?n
      \<and> list_all (\<lambda>p. \<exists>et. wh_Enabled hook \<and> good_post cfg env ev hook et p) a"
    using deliver_types_posts [of "orgEventTypes (nev_EventType ev)" ev cfg env hook s]
    by (cases "wh_Enabled hook") simp_all
  then obtain a where a: "nt_posts ?s = nt_posts s @ a" "length a \<le> ?n"
      "list_all (\<lambda>p. \<exists>et. wh_Enabled hook \<and> good_post cfg env ev hook et p) a" by blast
  obtain b where "nt_posts (deliverOrgWebhooks cfg env ev rest ?s) = nt_posts ?s @ b" "length b \<le> ?n * length rest"
      "list_all (\<lambda>p. \<exists>h et. h \<in> set rest \<and> wh_Enabled h \<and> good_post cfg env ev h et p) b"
    using 2 by auto
  then show ?case using a by (intro exI [of _ "a @ b"]) (simp add: list_all_iff, blast)
qed simp

text \<open>
  What is posted to org webhooks, whatever fails: only enabled hooks of the list get
  requests, for event types they subscribe to and that the event stands for, at most four for
  each; every request carries the JSON envelope, a signature over its own timestamp and
  exactly that body with the secret of that hook, and the event id of the incident and type;
  and none is made once the event is older than the budget of 24 hours.
\<close>

theorem webhook_posts_signed:
  assumes "ListEnabledWebhooks (ne_hooks env) (nc_cipher cfg) (nev_OrgID ev) (nt_db s) = (Inr hooks, d)"
  shows "\<exists>new. nt_posts (deliverWebhooks cfg env ev s) = nt_posts s @ new \<and> length new \<le> 8 * length hooks
     \<and> list_all (\<lambda>p. \<exists>hook et. hook \<in> set hooks \<and> wh_Enabled hook \<and> good_post cfg env ev hook et p) new"
proof (cases "orgEventTypes (nev_EventType ev) = []")
  case False
  then have "length (orgEventTypes (nev_EventType ev)) = 2" by (auto simp: orgEventTypes_def split: if_splits)
  then show ?thesis
    using False assms deliverOrgWebhooks_posts [of cfg env ev hooks "s\<lparr>nt_db := d\<rparr>"]
    by (auto simp: deliverWebhooks_def webhookMaxAttempts_def)
qed (simp add: deliverWebhooks_def)

text \<open>The id of a webhook event depends on the incident and the type only.\<close>

lemma webhook_event_id_per_incident:
  "nev_IncidentID ev = nev_IncidentID ev' \<Longrightarrow>
     snd (buildOrgEnvelope sha fmt ev et now) = snd (buildOrgEnvelope sha fmt ev' et now')"
  by (simp add: buildOrgEnvelope_def Let_def)

section \<open>Concrete deliveries\<close>

definition ex_notify_cfg :: notify_cfg where
  "ex_notify_cfg = \<lparr>nc_registry = ex_registry, nc_maxRetries = 3, nc_cipher = None, nc_sha256hex = (\<lambda>s. s),
     nc_hmac = (\<lambda>k s. s), nc_rfc3339UTC = (\<lambda>_. ''now''), nc_marshal = (\<lambda>e. Some (oe_Event e))\<rparr>"

definition ex_post_env :: post_env where
  "ex_post_env = \<lparr>pe_now = (\<lambda>_. 0), pe_cancelled = (\<lambda>_. None), pe_outcome = (\<lambda>_. StatusCode 200),
     pe_slept = (\<lambda>_. None), pe_record = NoFault\<rparr>"

text \<open>The second attempt of every channel succeeds.\<close>

definition ex_send_env :: send_env where
  "ex_send_env = \<lparr>se_Send = (\<lambda>k. if k = 2 then None else Some ''503''), se_cancelled = (\<lambda>_. False), se_slept = (\<lambda>_. True)\<rparr>"

definition ex_notify_env :: "fault \<Rightarrow> notify_env" where
  "ex_notify_env f = \<lparr>ne_now = 0, ne_redis = KvOk, ne_claim = f, ne_channels = NoFault, ne_avg = None,
     ne_send = (\<lambda>_. ex_send_env), ne_record = (\<lambda>_. NoFault), ne_hooks = NoFault, ne_post = (\<lambda>_ _. ex_post_env)\<rparr>"

definition ex_notify_event :: NotifyEvent where
  "ex_notify_event = \<lparr>nev_OrgID = 1, nev_MonitorID = 1, nev_IncidentID = 7, nev_EventType = ''down'', nev_DedupKey = ''k'',
     nev_MonitorName = ''site'', nev_MonitorURL = ''https://example.com'', nev_MonitorMethod = ''GET'', nev_IncidentStartedAt = 5,
     nev_IncidentEndedAt = None, nev_DurationSeconds = None, nev_Check = ex_result 5 False, nev_ChannelIDs = [1],
     nev_RegionsObserved = [], nev_SentAt = 6\<rparr>"

definition ex_hook :: OrgWebhook where
  "ex_hook = \<lparr>wh_ID = 1, wh_OrgID = 1, wh_URL = ''https://hook'', wh_SigningSecret = ''s'', wh_Enabled = True,
     wh_Events = [OrgEventMonitorDown], wh_CreatedBy = None, wh_CreatedAt = 0, wh_UpdatedAt = 0, wh_LastDeliveryAt = None,
     wh_LastStatus = '''', wh_LastError = None\<rparr>"

definition ex_notifier :: notifier where
  "ex_notifier = \<lparr>nt_kv = Map.empty, nt_db = (ex_notify_db [ex_channel\<lparr>ch_ID := 1\<rparr>])\<lparr>nd_webhooks := [ex_hook]\<rparr>,
     nt_sent = [], nt_posts = []\<rparr>"

lemma ex_outcome: "outcome_of ex_notify_cfg (ex_notify_env f) (ex_channel\<lparr>ch_ID := i\<rparr>) = Some \<lparr>ar_attempts = 2, ar_err = None\<rparr>"
proof -
  have "send_loop 3 ex_send_env 1 None = Some \<lparr>ar_attempts = int 2, ar_err = None\<rparr>"
    by (rule send_loop_success) (auto simp: ex_send_env_def)
  then show ?thesis
    by (simp add: outcome_of_def sendWithRetry_def ex_notify_cfg_def ex_notify_env_def ex_registry_def Register_def
        ex_descriptor_def ex_channel_def)
qed

definition ex_notifier_claimed :: notifier where
  "ex_notifier_claimed = ex_notifier
     \<lparr>nt_kv := [dedup_cache_key ''k'' \<mapsto> (KvString ''1'', Some dedupTTL)],
      nt_db := (nt_db ex_notifier)\<lparr>nd_dedup := [(1, ''k'')]\<rparr>\<rparr>"

lemma ex_dedup: "dedup (ex_notify_env NoFault) (nev_OrgID ex_notify_event) (event_dedup_id ex_notify_cfg ex_notify_event) ex_notifier
    = (Inr True, ex_notifier_claimed)"
  by (simp add: dedup_def ex_notify_env_def ex_notify_event_def event_dedup_id_def ex_notifier_def ex_notifier_claimed_def kv_defs
      kv_live_def kv_expiry_def ClaimNotifyDedup_def nd_WithOrg_def ex_notify_db_def empty_db_def Let_def dedupTTL_def duration_defs)

lemma ex_channels: "GetChannelsForMonitor (ne_channels (ex_notify_env NoFault)) (nc_cipher ex_notify_cfg)
     (Some (SecretKeys (nc_registry ex_notify_cfg))) (nev_OrgID ex_notify_event) (nev_MonitorID ex_notify_event) (nt_db ex_notifier_claimed)
   = (Inr [ex_channel\<lparr>ch_ID := 1\<rparr>], nt_db ex_notifier_claimed)"
  by (simp add: GetChannelsForMonitor_def ex_notify_env_def ex_notify_cfg_def ex_notify_event_def ex_notifier_claimed_def ex_notifier_def
      ex_notify_db_def nd_WithOrg_def attached_ids_def ex_monitor_def ex_channel_def scanChannel_def decryptChannelConfig_def)

theorem sendWithRetry_bounded_witness:
  "\<exists>a. \<lparr>ar_attempts = 2, ar_err = None\<rparr> = \<lparr>ar_attempts = int a, ar_err = se_Send ex_send_env a\<rparr> \<and> a \<le> 3"
  using sendWithRetry_bounded [of 3 ex_registry ex_send_env "ex_channel\<lparr>ch_ID := 1\<rparr>"] ex_outcome [of NoFault 1]
  by (auto simp: outcome_of_def ex_notify_cfg_def ex_notify_env_def)

theorem notify_serves_channels_witness:
  "map fst (nt_sent (snd (notify_handle ex_notify_cfg (ex_notify_env NoFault) (Some ex_notify_event) ex_notifier))) = [1, 1]"
proof -
  obtain ok s' where h: "notify_handle ex_notify_cfg (ex_notify_env NoFault) (Some ex_notify_event) ex_notifier = (ok, s')" by fastforce
  from notify_serves_channels [OF ex_dedup ex_channels _ h]
  have "nt_sent s' = nt_sent ex_notifier @ concat (map (\<lambda>ch. replicate (sends_of ex_notify_cfg (ex_notify_env NoFault) ch)
      (ch_ID ch, enriched (ex_notify_env NoFault) (buildEvent (ne_now (ex_notify_env NoFault)) ex_notify_event))) [ex_channel\<lparr>ch_ID := 1\<rparr>])"
    by (simp add: ex_notifier_def ex_notify_db_def)
  with h show ?thesis by (simp add: sends_of_def ex_outcome ex_notifier_def numeral_2_eq_2)
qed

theorem notify_no_duplicates_witness:
  "notify_view (snd (notify_handle ex_notify_cfg (ex_notify_env NoFault) (Some ex_notify_event)
     ((snd (notify_handle ex_notify_cfg (ex_notify_env NoFault) (Some ex_notify_event) ex_notifier))\<lparr>nt_kv := Map.empty\<rparr>)))
   = notify_view (snd (notify_handle ex_notify_cfg (ex_notify_env NoFault) (Some ex_notify_event) ex_notifier))"
proof -
  let ?h = "notify_handle ex_notify_cfg (ex_notify_env NoFault) (Some ex_notify_event) ex_notifier"
  have "map fst (nt_sent (snd ?h)) = [1, 1]" by code_simp
  moreover have "nt_sent ex_notifier = []" by (simp add: ex_notifier_def)
  ultimately have "nt_sent (snd ?h) \<noteq> nt_sent ex_notifier" by auto
  from notify_no_duplicates [OF prod.collapse [symmetric] disjI1 [OF this], of "snd ?h" "[]" "ex_notify_env NoFault" Map.empty]
  show ?thesis by simp
qed

theorem alert_lost_after_failed_claim_witness:
  "\<exists>s1. notify_handle ex_notify_cfg (ex_notify_env FaultBefore) (Some ex_notify_event) ex_notifier = (False, s1)
     \<and> redeliver ex_notify_cfg ex_notify_event [ex_notify_env NoFault] s1 = ([True], s1) \<and> nt_sent s1 = []"
  using alert_lost_after_failed_claim [of "ex_notify_env FaultBefore" ex_notifier ex_notify_cfg ex_notify_event "[ex_notify_env NoFault]"]
  by (auto simp: ex_notify_env_def ex_notifier_def kv_live_def notify_view_def dedupTTL_def duration_defs)

theorem webhook_posts_signed_witness:
  "\<exists>new. nt_posts (deliverWebhooks ex_notify_cfg (ex_notify_env NoFault) ex_notify_event ex_notifier) = new \<and> length new \<le> 8"
proof -
  have "ListEnabledWebhooks (ne_hooks (ex_notify_env NoFault)) (nc_cipher ex_notify_cfg) (nev_OrgID ex_notify_event) (nt_db ex_notifier)
      = (Inr [ex_hook], nt_db ex_notifier)"
    by (simp add: ListEnabledWebhooks_def ex_notify_env_def ex_notify_cfg_def ex_notify_event_def ex_notifier_def nd_WithOrg_def
        ex_hook_def scanOrgWebhook_def)
  from webhook_posts_signed [OF this] show ?thesis by (simp add: ex_notifier_def)
qed

end
