(* ===== verification/Pulse_Tenancy.thy ===== *)
theory Pulse_Tenancy
  imports Pulse_Authz Pulse_Incident_Store Pulse_Crypto
begin

text \<open>
  The tables of people, orgs and access, and the store operations on them:
  \<open>internal/store/users.go\<close>, \<open>organizations.go\<close>, \<open>memberships.go\<close>, \<open>invitations.go\<close>,
  \<open>refreshtokens.go\<close> and \<open>apikeys.go\<close>.

  As in \<open>Pulse_Incident_Store\<close> a table is the list of its rows in insertion order, an identity
  column is a counter, and a statement is the table operation it denotes with the constraints of
  \<open>schema.sql\<close> it can run into: the checks, the unique indexes, the foreign keys and the trigger
  \<open>enforce_last_owner\<close>.  \<open>lower\<close> of the database is the ASCII \<open>ToLower\<close>.  A transaction that fails is
  rolled back, up to the identity counters; a call can fail before it runs or after its commit.

  A statement that reads before it writes is given the tables it reads as a separate argument where
  the isolation level makes a difference: under \<open>READ COMMITTED\<close> two transactions can both read the state
  before either of them commits.

  \<open>wf_tenant\<close> is the invariant of the tables and \<open>tn_step\<close> the transactions of all services.
\<close>

section \<open>The tables\<close>

text \<open>The token column of an invitation may be null; a null reads as the empty string.\<close>

record InviteRow =
  ir_Inv :: Invitation
  ir_TokenHash :: "string option"

record tenant_db =
  tn_users :: "User list"
  tn_identities :: "UserIdentity list"
  tn_orgs :: "Organization list"
  tn_members :: "Membership list"
  tn_invites :: "InviteRow list"
  tn_refresh :: "RefreshToken list"
  tn_keys :: "APIKey list"
  tn_next_user :: int
  tn_next_identity :: int
  tn_next_org :: int
  tn_next_member :: int
  tn_next_invite :: int
  tn_next_refresh :: int
  tn_next_key :: int

type_synonym 'a ttx = "tenant_db \<Rightarrow> (db_error + 'a) \<times> tenant_db"

definition tn_rolled_back :: "tenant_db \<Rightarrow> tenant_db \<Rightarrow> tenant_db" where
  "tn_rolled_back before failed =
     before\<lparr>tn_next_user := tn_next_user failed, tn_next_identity := tn_next_identity failed,
            tn_next_org := tn_next_org failed, tn_next_member := tn_next_member failed,
            tn_next_invite := tn_next_invite failed, tn_next_refresh := tn_next_refresh failed,
            tn_next_key := tn_next_key failed\<rparr>"

definition tn_run :: "fault \<Rightarrow> 'a ttx \<Rightarrow> 'a ttx" where
  "tn_run f fn s =
     (if f = FaultBefore then (Inl ErrConn, s)
      else case fn s of
             (Inl e, s') \<Rightarrow> (Inl e, tn_rolled_back s s')
           | (Inr a, s') \<Rightarrow> (if f = FaultAfterCommit then Inl ErrConn else Inr a, s'))"

text \<open>Statements of one transaction in sequence: the first error ends it.\<close>

definition tx_return :: "'a \<Rightarrow> 'a ttx" where "tx_return a s = (Inr a, s)"

definition tx_bind :: "'a ttx \<Rightarrow> ('a \<Rightarrow> 'b ttx) \<Rightarrow> 'b ttx" where
  "tx_bind m k s = (case m s of (Inl e, s1) \<Rightarrow> (Inl e, s1) | (Inr a, s1) \<Rightarrow> k a s1)"

lemma tx_bind_Inr: "tx_bind m k s = (Inr b, s') \<longleftrightarrow> (\<exists>a s1. m s = (Inr a, s1) \<and> k a s1 = (Inr b, s'))"
  by (auto simp: tx_bind_def split: prod.split sum.split)

lemma tx_return_Inr [simp]: "tx_return a s = (Inr b, s') \<longleftrightarrow> b = a \<and> s' = s"
  by (auto simp: tx_return_def)

text \<open>A transaction that only reads.\<close>

definition tn_read :: "fault \<Rightarrow> db_error + 'a \<Rightarrow> db_error + 'a" where
  "tn_read f r = (if f = NoFault then r else Inl ErrConn)"

definition row_or_none :: "'a option \<Rightarrow> db_error + 'a" where
  "row_or_none r = (case r of None \<Rightarrow> Inl ErrNoRows | Some x \<Rightarrow> Inr x)"

definition role_known :: "Role \<Rightarrow> bool" where
  "role_known r \<longleftrightarrow> r \<in> {RoleOwner, RoleAdmin, RoleMember, RoleViewer}"

definition lower_eq :: "string \<Rightarrow> string \<Rightarrow> bool" where
  "lower_eq a b \<longleftrightarrow> ToLower a = ToLower b"

section \<open>Users and identities\<close>

definition default_to :: "string \<Rightarrow> string \<Rightarrow> string" where
  "default_to d s = (if s = '''' then d else s)"

text \<open>\<open>uniq_users_email\<close> leaves deleted users out.\<close>

definition email_taken :: "tenant_db \<Rightarrow> string \<Rightarrow> bool" where
  "email_taken s e \<longleftrightarrow> list_ex (\<lambda>u. lower_eq (usr_Email u) e \<and> usr_Status u \<noteq> ''deleted'') (tn_users s)"

definition user_row :: "time \<Rightarrow> int \<Rightarrow> User \<Rightarrow> User" where
  "user_row now newID u =
     u\<lparr>usr_ID := newID, usr_Locale := default_to ''en'' (usr_Locale u),
       usr_Timezone := default_to ''UTC'' (usr_Timezone u), usr_Status := ''active'',
       usr_DeletionPendingAt := None, usr_CreatedAt := now, usr_LastLoginAt := None\<rparr>"

definition insert_user :: "time \<Rightarrow> User \<Rightarrow> int ttx" where
  "insert_user now u s =
     (let newID = tn_next_user s; s1 = s\<lparr>tn_next_user := newID + 1\<rparr>
      in if email_taken s (usr_Email u) then (Inl ErrUnique, s1)
         else (Inr newID, s1\<lparr>tn_users := tn_users s @ [user_row now newID u]\<rparr>))"

definition CreateUser :: "fault \<Rightarrow> time \<Rightarrow> User \<Rightarrow> int ttx" where
  "CreateUser f now u = tn_run f (insert_user now u)"

definition GetUser :: "fault \<Rightarrow> int \<Rightarrow> tenant_db \<Rightarrow> db_error + User" where
  "GetUser f i s = tn_read f (row_or_none (find (\<lambda>u. usr_ID u = i) (tn_users s)))"

definition GetUserByEmail :: "fault \<Rightarrow> string \<Rightarrow> tenant_db \<Rightarrow> db_error + User" where
  "GetUserByEmail f email s = tn_read f (row_or_none
     (find (\<lambda>u. lower_eq (usr_Email u) email \<and> usr_Status u \<noteq> ''deleted'') (tn_users s)))"

definition UpdateUser :: "fault \<Rightarrow> User \<Rightarrow> unit ttx" where
  "UpdateUser f u = tn_run f (\<lambda>s. (Inr (), s\<lparr>tn_users := map (\<lambda>v.
     if usr_ID v = usr_ID u
     then v\<lparr>usr_Name := usr_Name u, usr_AvatarURL := usr_AvatarURL u, usr_Locale := usr_Locale u,
            usr_Timezone := usr_Timezone u\<rparr> else v) (tn_users s)\<rparr>))"

definition SetLastLogin :: "fault \<Rightarrow> time \<Rightarrow> int \<Rightarrow> unit ttx" where
  "SetLastLogin f now userID = tn_run f (\<lambda>s. (Inr (), s\<lparr>tn_users := map (\<lambda>v.
     if usr_ID v = userID then v\<lparr>usr_LastLoginAt := Some now\<rparr> else v) (tn_users s)\<rparr>))"

definition insert_identity :: "time \<Rightarrow> UserIdentity \<Rightarrow> int ttx" where
  "insert_identity now idn s =
     (let newID = tn_next_identity s; s1 = s\<lparr>tn_next_identity := newID + 1\<rparr>
      in if idn_Provider idn \<notin> {ProviderGoogle, ProviderGitHub, ProviderDev} then (Inl ErrCheck, s1)
         else if list_ex (\<lambda>i. idn_Provider i = idn_Provider idn
             \<and> (idn_UserID i = idn_UserID idn \<or> idn_ProviderUserID i = idn_ProviderUserID idn)) (tn_identities s)
         then (Inl ErrUnique, s1)
         else if \<not> list_ex (\<lambda>u. usr_ID u = idn_UserID idn) (tn_users s) then (Inl ErrForeignKey, s1)
         else (Inr newID, s1\<lparr>tn_identities := tn_identities s @ [idn\<lparr>idn_ID := newID, idn_CreatedAt := now\<rparr>]\<rparr>))"

definition LinkIdentity :: "fault \<Rightarrow> time \<Rightarrow> UserIdentity \<Rightarrow> int ttx" where
  "LinkIdentity f now idn = tn_run f (insert_identity now idn)"

definition UnlinkIdentity :: "fault \<Rightarrow> int \<Rightarrow> IdentityProvider \<Rightarrow> int ttx" where
  "UnlinkIdentity f userID provider = tn_run f (\<lambda>s.
     (let gone = (\<lambda>i. idn_UserID i = userID \<and> idn_Provider i = provider)
      in (Inr (int (length (filter gone (tn_identities s)))),
          s\<lparr>tn_identities := filter (\<lambda>i. \<not> gone i) (tn_identities s)\<rparr>)))"

definition GetIdentity :: "fault \<Rightarrow> IdentityProvider \<Rightarrow> string \<Rightarrow> tenant_db \<Rightarrow> db_error + UserIdentity" where
  "GetIdentity f provider subject s = tn_read f (row_or_none
     (find (\<lambda>i. idn_Provider i = provider \<and> idn_ProviderUserID i = subject) (tn_identities s)))"

definition ListIdentitiesForUser :: "fault \<Rightarrow> int \<Rightarrow> tenant_db \<Rightarrow> db_error + UserIdentity list" where
  "ListIdentitiesForUser f userID s =
     tn_read f (Inr (sort_key idn_ID (filter (\<lambda>i. idn_UserID i = userID) (tn_identities s))))"

section \<open>Organizations\<close>

definition org_active :: "tenant_db \<Rightarrow> int \<Rightarrow> bool" where
  "org_active s i \<longleftrightarrow> list_ex (\<lambda>o'. org_ID o' = i \<and> org_DeletedAt o' = None) (tn_orgs s)"

text \<open>\<open>uniq_org_slug\<close> leaves soft-deleted orgs out.\<close>

definition slug_taken :: "tenant_db \<Rightarrow> string \<Rightarrow> bool" where
  "slug_taken s slug \<longleftrightarrow> list_ex (\<lambda>o'. lower_eq (org_Slug o') slug \<and> org_DeletedAt o' = None) (tn_orgs s)"

definition org_row :: "time \<Rightarrow> int \<Rightarrow> Organization \<Rightarrow> Organization" where
  "org_row now newID org =
     org\<lparr>org_ID := newID, org_Plan := ''tier1'', org_CreatedAt := now, org_DeletedAt := None\<rparr>"

definition insert_org :: "time \<Rightarrow> Organization \<Rightarrow> int ttx" where
  "insert_org now org s =
     (let newID = tn_next_org s; s1 = s\<lparr>tn_next_org := newID + 1\<rparr>
      in if slug_taken s (org_Slug org) then (Inl ErrUnique, s1)
         else (Inr newID, s1\<lparr>tn_orgs := tn_orgs s @ [org_row now newID org]\<rparr>))"

definition CreateOrganization :: "fault \<Rightarrow> time \<Rightarrow> Organization \<Rightarrow> int ttx" where
  "CreateOrganization f now org = tn_run f (insert_org now
     (org\<lparr>org_DefaultLocale := default_to ''en'' (org_DefaultLocale org),
          org_DefaultTimezone := default_to ''UTC'' (org_DefaultTimezone org)\<rparr>))"

definition new_org :: "string \<Rightarrow> string \<Rightarrow> Organization" where
  "new_org name slug = \<lparr>org_ID = 0, org_Name = name, org_Slug = slug, org_PlanID = None, org_Plan = ''tier1'',
     org_DefaultLocale = ''en'', org_DefaultTimezone = ''UTC'', org_CreatedAt = zero_time, org_DeletedAt = None\<rparr>"

section \<open>Memberships\<close>

definition insert_member :: "time \<Rightarrow> int \<Rightarrow> int \<Rightarrow> Role \<Rightarrow> int ttx" where
  "insert_member now orgID userID role s =
     (let newID = tn_next_member s; s1 = s\<lparr>tn_next_member := newID + 1\<rparr>
      in if \<not> role_known role then (Inl ErrCheck, s1)
         else if list_ex (\<lambda>m. mem_OrgID m = orgID \<and> mem_UserID m = userID) (tn_members s) then (Inl ErrUnique, s1)
         else if \<not> list_ex (\<lambda>o'. org_ID o' = orgID) (tn_orgs s) \<or> \<not> list_ex (\<lambda>u. usr_ID u = userID) (tn_users s)
         then (Inl ErrForeignKey, s1)
         else (Inr newID, s1\<lparr>tn_members := tn_members s @
                 [\<lparr>mem_ID = newID, mem_OrgID = orgID, mem_UserID = userID, mem_Role = role, mem_CreatedAt = now\<rparr>]\<rparr>))"

definition CreateMembership :: "fault \<Rightarrow> time \<Rightarrow> Membership \<Rightarrow> int ttx" where
  "CreateMembership f now m = tn_run f (insert_member now (mem_OrgID m) (mem_UserID m) (mem_Role m))"

definition select_member :: "tenant_db \<Rightarrow> int \<Rightarrow> int \<Rightarrow> Membership option" where
  "select_member s orgID userID = find (\<lambda>m. mem_OrgID m = orgID \<and> mem_UserID m = userID) (tn_members s)"

definition GetMembership :: "fault \<Rightarrow> int \<Rightarrow> int \<Rightarrow> tenant_db \<Rightarrow> db_error + Membership" where
  "GetMembership f userID orgID s = tn_read f (row_or_none (select_member s orgID userID))"

definition store_ListMembers :: "fault \<Rightarrow> int \<Rightarrow> tenant_db \<Rightarrow> db_error + Membership list" where
  "store_ListMembers f orgID s = tn_read f (Inr (sort_key mem_ID (filter (\<lambda>m. mem_OrgID m = orgID) (tn_members s))))"

text \<open>The trigger, run before a row leaves the owners; it reads the tables as \<open>snap\<close>.\<close>

definition enforce_last_owner :: "tenant_db \<Rightarrow> Membership \<Rightarrow> Role option \<Rightarrow> bool" where
  "enforce_last_owner snap old new \<longleftrightarrow>
     new = Some RoleOwner \<or> \<not> org_active snap (mem_OrgID old)
     \<or> list_ex (\<lambda>m. mem_OrgID m = mem_OrgID old \<and> mem_Role m = RoleOwner \<and> mem_ID m \<noteq> mem_ID old) (tn_members snap)"

definition set_role :: "int \<Rightarrow> int \<Rightarrow> Role \<Rightarrow> Membership \<Rightarrow> Membership" where
  "set_role orgID userID role m = (if mem_OrgID m = orgID \<and> mem_UserID m = userID then m\<lparr>mem_Role := role\<rparr> else m)"

definition update_role_from :: "tenant_db \<Rightarrow> int \<Rightarrow> int \<Rightarrow> Role \<Rightarrow> int ttx" where
  "update_role_from snap orgID userID role s =
     (case select_member s orgID userID of
        None \<Rightarrow> (Inr 0, s)
      | Some old \<Rightarrow>
          if \<not> enforce_last_owner snap old (Some role) \<or> \<not> role_known role then (Inl ErrCheck, s)
          else (Inr 1, s\<lparr>tn_members := map (set_role orgID userID role) (tn_members s)\<rparr>))"

definition UpdateMemberRole :: "fault \<Rightarrow> int \<Rightarrow> int \<Rightarrow> Role \<Rightarrow> int ttx" where
  "UpdateMemberRole f orgID userID role = tn_run f (\<lambda>s. update_role_from s orgID userID role s)"

definition store_RemoveMember :: "fault \<Rightarrow> int \<Rightarrow> int \<Rightarrow> int ttx" where
  "store_RemoveMember f orgID userID = tn_run f (\<lambda>s.
     case select_member s orgID userID of
       None \<Rightarrow> (Inr 0, s)
     | Some old \<Rightarrow>
         if \<not> enforce_last_owner s old None then (Inl ErrCheck, s)
         else (Inr 1, s\<lparr>tn_members := filter (\<lambda>m. \<not> (mem_OrgID m = orgID \<and> mem_UserID m = userID)) (tn_members s)\<rparr>))"

text \<open>The members of an org that are active users, with the address of each.\<close>

definition active_members :: "tenant_db \<Rightarrow> int \<Rightarrow> int list \<Rightarrow> (Membership \<times> User) list" where
  "active_members s orgID userIDs =
     filter (\<lambda>(m, u). mem_OrgID m = orgID \<and> mem_UserID m \<in> set userIDs \<and> usr_ID u = mem_UserID m
                       \<and> usr_Status u = ''active'') (List.product (tn_members s) (tn_users s))"

text \<open>\<open>collate\<close> is the order of the database on text.\<close>

definition ActiveMemberEmails :: "(string list \<Rightarrow> string list) \<Rightarrow> fault \<Rightarrow> int \<Rightarrow> int list \<Rightarrow> tenant_db \<Rightarrow> db_error + string list" where
  "ActiveMemberEmails collate f orgID userIDs s =
     (if userIDs = [] then Inr []
      else tn_read f (Inr (collate (map (\<lambda>(m, u). usr_Email u) (active_members s orgID userIDs)))))"

fun dedupe_loop :: "int list \<Rightarrow> int list \<Rightarrow> int list \<Rightarrow> int list" where
  "dedupe_loop [] seen out = out"
| "dedupe_loop (i # is) seen out = (if i \<in> set seen then dedupe_loop is seen out else dedupe_loop is (i # seen) (out @ [i]))"

definition dedupeIDs :: "int list \<Rightarrow> int list" where
  "dedupeIDs userIDs = dedupe_loop userIDs [] []"

definition AreActiveMembers :: "fault \<Rightarrow> int \<Rightarrow> int list \<Rightarrow> tenant_db \<Rightarrow> db_error + bool" where
  "AreActiveMembers f orgID userIDs s =
     (if userIDs = [] then Inr False
      else tn_read f (Inr (length (remdups (map (\<lambda>(m, u). mem_UserID m) (active_members s orgID userIDs)))
                           = length (dedupeIDs userIDs))))"

definition CountMembers :: "fault \<Rightarrow> int \<Rightarrow> tenant_db \<Rightarrow> db_error + int" where
  "CountMembers f orgID s = tn_read f (Inr (int (length (filter (\<lambda>m. mem_OrgID m = orgID) (tn_members s)))))"

definition CountOwners :: "fault \<Rightarrow> int \<Rightarrow> tenant_db \<Rightarrow> db_error + int" where
  "CountOwners f orgID s =
     tn_read f (Inr (int (length (filter (\<lambda>m. mem_OrgID m = orgID \<and> mem_Role m = RoleOwner) (tn_members s)))))"

section \<open>Slugs and new orgs\<close>

definition slug_char :: "char \<Rightarrow> string" where
  "slug_char c =
     (let n = (of_char c :: nat)
      in if 97 \<le> n \<and> n \<le> 122 \<or> 48 \<le> n \<and> n \<le> 57 then [c]
         else if c = CHR '' '' \<or> c = CHR ''-'' \<or> c = CHR ''_'' \<or> c = CHR ''.'' then ''-'' else '''')"

definition Trim_dashes :: "string \<Rightarrow> string" where
  "Trim_dashes s = rev (dropWhile (\<lambda>c. c = CHR ''-'') (rev (dropWhile (\<lambda>c. c = CHR ''-'') s)))"

definition slugify :: "string \<Rightarrow> string" where
  "slugify s = default_to ''workspace'' (Trim_dashes (concat (map slug_char (ToLower s))))"

text \<open>\<open>raw\<close> are the four random bytes of the suffix.\<close>

definition deriveSlug :: "string \<Rightarrow> string \<Rightarrow> string" where
  "deriveSlug name raw = slugify name @ ''-'' @ ToLower (RawURLEncoding_Encode raw)"

text \<open>The body of the transaction: the org, then its owner.\<close>

definition org_with_owner :: "time \<Rightarrow> string \<Rightarrow> string \<Rightarrow> int \<Rightarrow> Organization ttx" where
  "org_with_owner now name slug ownerID =
     tx_bind (insert_org now (new_org name slug)) (\<lambda>orgID.
     tx_bind (insert_member now orgID ownerID RoleOwner) (\<lambda>_.
     tx_return ((new_org name slug)\<lparr>org_ID := orgID, org_CreatedAt := now\<rparr>)))"

datatype org_error = ErrSlugTaken | OrgStore db_error

text \<open>The attempts that are left, each with its fault and the random bytes of the next suffix.\<close>

fun create_org_loop :: "(fault \<times> string) list \<Rightarrow> bool \<Rightarrow> time \<Rightarrow> string \<Rightarrow> string \<Rightarrow> int \<Rightarrow> tenant_db
    \<Rightarrow> (org_error + Organization \<times> Role) \<times> tenant_db" where
  "create_org_loop [] explicitSlug now name slug ownerID s = (Inl ErrSlugTaken, s)"
| "create_org_loop ((f, raw) # rest) explicitSlug now name slug ownerID s =
     (case tn_run f (org_with_owner now name slug ownerID) s of
        (Inr org, s1) \<Rightarrow> (Inr (org, RoleOwner), s1)
      | (Inl e, s1) \<Rightarrow>
          if e = ErrUnique
          then (if explicitSlug then (Inl ErrSlugTaken, s1)
                else create_org_loop rest explicitSlug now name (deriveSlug name raw) ownerID s1)
          else (Inl (OrgStore e), s1))"

definition maxTries :: nat where "maxTries = 5"

definition CreateOrgWithOwner :: "(nat \<Rightarrow> fault \<times> string) \<Rightarrow> string \<Rightarrow> time \<Rightarrow> string \<Rightarrow> string \<Rightarrow> int \<Rightarrow> tenant_db
    \<Rightarrow> (org_error + Organization \<times> Role) \<times> tenant_db" where
  "CreateOrgWithOwner tries raw0 now name slug ownerID =
     create_org_loop (map tries [0..<maxTries]) (slug \<noteq> '''') now name
       (if slug = '''' then deriveSlug name raw0 else slug) ownerID"

record FirstSignIn =
  fs_UserID :: int
  fs_IdentityID :: int
  fs_OrgID :: int
  fs_MembershipID :: int

text \<open>The body of the first-sign-in transaction: user, identity if there is one, org and owner.\<close>

definition first_sign_in :: "time \<Rightarrow> User \<Rightarrow> UserIdentity option \<Rightarrow> string \<Rightarrow> string \<Rightarrow> FirstSignIn ttx" where
  "first_sign_in now u idn orgName orgSlug =
     tx_bind (insert_user now u) (\<lambda>userID.
     tx_bind (case idn of None \<Rightarrow> tx_return 0 | Some i \<Rightarrow> insert_identity now (i\<lparr>idn_UserID := userID\<rparr>)) (\<lambda>identityID.
     tx_bind (insert_org now (new_org orgName orgSlug)) (\<lambda>orgID.
     tx_bind (insert_member now orgID userID RoleOwner) (\<lambda>membershipID.
     tx_return \<lparr>fs_UserID = userID, fs_IdentityID = identityID, fs_OrgID = orgID, fs_MembershipID = membershipID\<rparr>))))"

definition CreateUserWithPersonalOrg :: "fault \<Rightarrow> time \<Rightarrow> User \<Rightarrow> UserIdentity option \<Rightarrow> string \<Rightarrow> string \<Rightarrow> FirstSignIn ttx" where
  "CreateUserWithPersonalOrg f now u idn orgName orgSlug = tn_run f (first_sign_in now u idn orgName orgSlug)"

definition GetOrganization :: "fault \<Rightarrow> int \<Rightarrow> tenant_db \<Rightarrow> db_error + Organization" where
  "GetOrganization f i s = tn_read f (row_or_none (find (\<lambda>o'. org_ID o' = i) (tn_orgs s)))"

definition GetOrganizationBySlug :: "fault \<Rightarrow> string \<Rightarrow> tenant_db \<Rightarrow> db_error + Organization" where
  "GetOrganizationBySlug f slug s = tn_read f (row_or_none
     (find (\<lambda>o'. lower_eq (org_Slug o') slug \<and> org_DeletedAt o' = None) (tn_orgs s)))"

definition ListOrganizationsForUser :: "fault \<Rightarrow> int \<Rightarrow> tenant_db \<Rightarrow> db_error + Organization list" where
  "ListOrganizationsForUser f userID s = tn_read f (Inr (sort_key org_ID
     (concat (map (\<lambda>o'. if org_DeletedAt o' = None
                         then map (\<lambda>m. o') (filter (\<lambda>m. mem_OrgID m = org_ID o' \<and> mem_UserID m = userID) (tn_members s))
                         else []) (tn_orgs s)))))"

text \<open>The new slug may clash with that of another active org.\<close>

definition UpdateOrganization :: "fault \<Rightarrow> Organization \<Rightarrow> unit ttx" where
  "UpdateOrganization f org = tn_run f (\<lambda>s.
     if list_ex (\<lambda>o'. org_ID o' = org_ID org \<and> org_DeletedAt o' = None) (tn_orgs s)
        \<and> list_ex (\<lambda>o'. org_ID o' \<noteq> org_ID org \<and> lower_eq (org_Slug o') (org_Slug org) \<and> org_DeletedAt o' = None) (tn_orgs s)
     then (Inl ErrUnique, s)
     else (Inr (), s\<lparr>tn_orgs := map (\<lambda>o'. if org_ID o' = org_ID org
             then o'\<lparr>org_Name := org_Name org, org_Slug := org_Slug org, org_DefaultLocale := org_DefaultLocale org,
                     org_DefaultTimezone := org_DefaultTimezone org\<rparr> else o') (tn_orgs s)\<rparr>))"

definition AdminListOrganizations :: "fault \<Rightarrow> tenant_db \<Rightarrow> db_error + Organization list" where
  "AdminListOrganizations f s = tn_read f (Inr (rev (sort_key org_CreatedAt (sort_key org_ID
     (filter (\<lambda>o'. org_DeletedAt o' = None) (tn_orgs s))))))"

definition SetOrganizationPlan :: "fault \<Rightarrow> int \<Rightarrow> string \<Rightarrow> unit ttx" where
  "SetOrganizationPlan f orgID plan = tn_run f (\<lambda>s.
     if \<not> org_active s orgID then (Inl ErrNoRows, s)
     else (Inr (), s\<lparr>tn_orgs := map (\<lambda>o'. if org_ID o' = orgID \<and> org_DeletedAt o' = None
                                             then o'\<lparr>org_Plan := plan\<rparr> else o') (tn_orgs s)\<rparr>))"

definition SoftDeleteOrganization :: "fault \<Rightarrow> time \<Rightarrow> int \<Rightarrow> unit ttx" where
  "SoftDeleteOrganization f now orgID = tn_run f (\<lambda>s.
     (Inr (), s\<lparr>tn_orgs := map (\<lambda>o'. if org_ID o' = orgID \<and> org_DeletedAt o' = None
                                      then o'\<lparr>org_DeletedAt := Some now\<rparr> else o') (tn_orgs s)\<rparr>))"

section \<open>Invitations\<close>

abbreviation ir_ID :: "InviteRow \<Rightarrow> int" where "ir_ID r \<equiv> inv_ID (ir_Inv r)"
abbreviation ir_OrgID :: "InviteRow \<Rightarrow> int" where "ir_OrgID r \<equiv> inv_OrgID (ir_Inv r)"
abbreviation ir_State :: "InviteRow \<Rightarrow> InvitationState" where "ir_State r \<equiv> inv_State (ir_Inv r)"
abbreviation ir_Email :: "InviteRow \<Rightarrow> string" where "ir_Email r \<equiv> inv_Email (ir_Inv r)"
abbreviation ir_pending :: "InviteRow \<Rightarrow> bool" where "ir_pending r \<equiv> ir_State r = InvitePending"

definition scanInvite :: "InviteRow \<Rightarrow> Invitation" where
  "scanInvite r = (ir_Inv r)\<lparr>inv_TokenHash := (case ir_TokenHash r of None \<Rightarrow> '''' | Some h \<Rightarrow> h)\<rparr>"

definition token_taken :: "tenant_db \<Rightarrow> string \<Rightarrow> bool" where
  "token_taken s h \<longleftrightarrow> list_ex (\<lambda>r. ir_TokenHash r = Some h) (tn_invites s)"

definition invite_ttl :: duration where "invite_ttl = 7 * 24 * Hour"

definition invite_defaults :: "time \<Rightarrow> Invitation \<Rightarrow> Invitation" where
  "invite_defaults now iv =
     iv\<lparr>inv_Locale := default_to ''en'' (inv_Locale iv),
         inv_ExpiresAt := (if inv_ExpiresAt iv = zero_time then now + invite_ttl else inv_ExpiresAt iv)\<rparr>"

definition invite_row :: "time \<Rightarrow> int \<Rightarrow> Invitation \<Rightarrow> InviteRow" where
  "invite_row now newID iv =
     \<lparr>ir_Inv = iv\<lparr>inv_ID := newID, inv_State := InvitePending, inv_TokenHash := '''', inv_CreatedAt := now,
                   inv_AcceptedAt := None\<rparr>,
      ir_TokenHash = (if inv_TokenHash iv = '''' then None else Some (inv_TokenHash iv))\<rparr>"

definition store_CreateInvitation :: "fault \<Rightarrow> time \<Rightarrow> Invitation \<Rightarrow> int ttx" where
  "store_CreateInvitation f now inv0 = tn_run f (\<lambda>s.
     let iv = invite_defaults now inv0; newID = tn_next_invite s; s1 = s\<lparr>tn_next_invite := newID + 1\<rparr>
     in if \<not> role_known (inv_Role iv) then (Inl ErrCheck, s1)
        else if list_ex (\<lambda>r. ir_OrgID r = inv_OrgID iv \<and> lower_eq (ir_Email r) (inv_Email iv) \<and> ir_pending r) (tn_invites s)
                \<or> inv_TokenHash iv \<noteq> '''' \<and> token_taken s (inv_TokenHash iv)
        then (Inl ErrUnique, s1)
        else if \<not> list_ex (\<lambda>o'. org_ID o' = inv_OrgID iv) (tn_orgs s)
                \<or> (case inv_CreatedBy iv of None \<Rightarrow> False | Some u \<Rightarrow> \<not> list_ex (\<lambda>v. usr_ID v = u) (tn_users s))
        then (Inl ErrForeignKey, s1)
        else (Inr newID, s1\<lparr>tn_invites := tn_invites s @ [invite_row now newID iv]\<rparr>))"

text \<open>The policy \<open>invitations_token_lookup\<close> lets exactly the row of a non-empty hash through.\<close>

definition GetInvitationByToken :: "fault \<Rightarrow> string \<Rightarrow> tenant_db \<Rightarrow> db_error + Invitation" where
  "GetInvitationByToken f h s = tn_read f (row_or_none (map_option scanInvite
     (find (\<lambda>r. ir_TokenHash r = Some h \<and> h \<noteq> '''') (tn_invites s))))"

definition store_ListInvitations :: "fault \<Rightarrow> int \<Rightarrow> tenant_db \<Rightarrow> db_error + Invitation list" where
  "store_ListInvitations f orgID s =
     tn_read f (Inr (map scanInvite (rev (sort_key ir_ID (filter (\<lambda>r. ir_OrgID r = orgID) (tn_invites s))))))"

definition CountPendingInvitations :: "fault \<Rightarrow> int \<Rightarrow> tenant_db \<Rightarrow> db_error + int" where
  "CountPendingInvitations f orgID s =
     tn_read f (Inr (int (length (filter (\<lambda>r. ir_OrgID r = orgID \<and> ir_pending r) (tn_invites s)))))"

definition GetInvitation :: "fault \<Rightarrow> int \<Rightarrow> int \<Rightarrow> tenant_db \<Rightarrow> db_error + Invitation" where
  "GetInvitation f orgID inviteID s = tn_read f (row_or_none (map_option scanInvite
     (find (\<lambda>r. ir_ID r = inviteID \<and> ir_OrgID r = orgID) (tn_invites s))))"

text \<open>An update of the pending invitation with the given id, and how many rows it touched.\<close>

definition on_pending :: "int \<Rightarrow> int \<Rightarrow> InviteRow \<Rightarrow> bool" where
  "on_pending orgID inviteID r \<longleftrightarrow> ir_ID r = inviteID \<and> ir_OrgID r = orgID \<and> ir_pending r"

definition update_pending :: "int \<Rightarrow> int \<Rightarrow> (InviteRow \<Rightarrow> InviteRow) \<Rightarrow> int ttx" where
  "update_pending orgID inviteID upd s =
     (Inr (int (length (filter (on_pending orgID inviteID) (tn_invites s)))),
      s\<lparr>tn_invites := map (\<lambda>r. if on_pending orgID inviteID r then upd r else r) (tn_invites s)\<rparr>)"

definition with_state :: "InvitationState \<Rightarrow> InviteRow \<Rightarrow> InviteRow" where
  "with_state st r = r\<lparr>ir_Inv := (ir_Inv r)\<lparr>inv_State := st\<rparr>\<rparr>"

definition mark_accepted :: "time \<Rightarrow> InviteRow \<Rightarrow> InviteRow" where
  "mark_accepted now r = r\<lparr>ir_Inv := (ir_Inv r)\<lparr>inv_State := InviteAccepted, inv_AcceptedAt := Some now\<rparr>\<rparr>"

definition store_ResendInvitation :: "fault \<Rightarrow> int \<Rightarrow> int \<Rightarrow> time \<Rightarrow> int ttx" where
  "store_ResendInvitation f orgID inviteID expiresAt = tn_run f
     (update_pending orgID inviteID (\<lambda>r. r\<lparr>ir_Inv := (ir_Inv r)\<lparr>inv_ExpiresAt := expiresAt\<rparr>\<rparr>))"

definition SetInvitationToken :: "fault \<Rightarrow> int \<Rightarrow> int \<Rightarrow> string \<Rightarrow> int ttx" where
  "SetInvitationToken f orgID inviteID h = tn_run f (\<lambda>s.
     if list_ex (on_pending orgID inviteID) (tn_invites s)
        \<and> list_ex (\<lambda>r. ir_ID r \<noteq> inviteID \<and> ir_TokenHash r = Some h) (tn_invites s)
     then (Inl ErrUnique, s)
     else update_pending orgID inviteID (\<lambda>r. r\<lparr>ir_TokenHash := Some h\<rparr>) s)"

definition store_AcceptInvitation :: "fault \<Rightarrow> time \<Rightarrow> int \<Rightarrow> int \<Rightarrow> int \<Rightarrow> int ttx" where
  "store_AcceptInvitation f now orgID inviteID userID = tn_run f (\<lambda>s.
     case find (on_pending orgID inviteID) (tn_invites s) of
       None \<Rightarrow> (Inl ErrNoRows, s)
     | Some r \<Rightarrow>
         insert_member now orgID userID (inv_Role (ir_Inv r))
           (snd (update_pending orgID inviteID (mark_accepted now) s)))"

definition store_RevokeInvitation :: "fault \<Rightarrow> int \<Rightarrow> int \<Rightarrow> int ttx" where
  "store_RevokeInvitation f orgID inviteID = tn_run f (update_pending orgID inviteID (with_state InviteRevoked))"

definition ExpireInvitations :: "fault \<Rightarrow> time \<Rightarrow> int ttx" where
  "ExpireInvitations f now = tn_run f (\<lambda>s.
     let due = (\<lambda>r. ir_pending r \<and> inv_ExpiresAt (ir_Inv r) \<le> now)
     in (Inr (int (length (filter due (tn_invites s)))),
         s\<lparr>tn_invites := map (\<lambda>r. if due r then with_state InviteExpired r else r) (tn_invites s)\<rparr>))"

section \<open>The invariant\<close>

definition wf_ids :: "int list \<Rightarrow> int \<Rightarrow> bool" where
  "wf_ids is n \<longleftrightarrow> distinct is \<and> list_all (\<lambda>i. i < n) is"

definition wf_users :: "tenant_db \<Rightarrow> bool" where
  "wf_users s \<longleftrightarrow> wf_ids (map usr_ID (tn_users s)) (tn_next_user s)
     \<and> distinct (map (ToLower \<circ> usr_Email) (filter (\<lambda>u. usr_Status u \<noteq> ''deleted'') (tn_users s)))"

definition wf_identities :: "tenant_db \<Rightarrow> bool" where
  "wf_identities s \<longleftrightarrow> wf_ids (map idn_ID (tn_identities s)) (tn_next_identity s)
     \<and> distinct (map (\<lambda>i. (idn_Provider i, idn_ProviderUserID i)) (tn_identities s))
     \<and> distinct (map (\<lambda>i. (idn_UserID i, idn_Provider i)) (tn_identities s))
     \<and> list_all (\<lambda>i. idn_UserID i \<in> usr_ID ` set (tn_users s)) (tn_identities s)"

definition wf_orgs :: "tenant_db \<Rightarrow> bool" where
  "wf_orgs s \<longleftrightarrow> wf_ids (map org_ID (tn_orgs s)) (tn_next_org s)
     \<and> distinct (map (ToLower \<circ> org_Slug) (filter (\<lambda>o'. org_DeletedAt o' = None) (tn_orgs s)))"

definition wf_members :: "tenant_db \<Rightarrow> bool" where
  "wf_members s \<longleftrightarrow> wf_ids (map mem_ID (tn_members s)) (tn_next_member s)
     \<and> distinct (map (\<lambda>m. (mem_OrgID m, mem_UserID m)) (tn_members s))
     \<and> list_all (\<lambda>m. role_known (mem_Role m) \<and> mem_OrgID m \<in> org_ID ` set (tn_orgs s)
                       \<and> mem_UserID m \<in> usr_ID ` set (tn_users s)) (tn_members s)"

definition wf_invites :: "tenant_db \<Rightarrow> bool" where
  "wf_invites s \<longleftrightarrow> wf_ids (map ir_ID (tn_invites s)) (tn_next_invite s)
     \<and> distinct (map (\<lambda>r. (ir_OrgID r, ToLower (ir_Email r))) (filter ir_pending (tn_invites s)))
     \<and> distinct (map ir_TokenHash (filter (\<lambda>r. ir_TokenHash r \<noteq> None) (tn_invites s)))
     \<and> list_all (\<lambda>r. ir_OrgID r \<in> org_ID ` set (tn_orgs s)) (tn_invites s)"

definition has_owner :: "tenant_db \<Rightarrow> int \<Rightarrow> bool" where
  "has_owner s i \<longleftrightarrow> list_ex (\<lambda>m. mem_OrgID m = i \<and> mem_Role m = RoleOwner) (tn_members s)"

definition all_owned :: "tenant_db \<Rightarrow> bool" where
  "all_owned s \<longleftrightarrow> list_all (\<lambda>o'. org_DeletedAt o' = None \<longrightarrow> has_owner s (org_ID o')) (tn_orgs s)"

definition wf_rows :: "tenant_db \<Rightarrow> bool" where
  "wf_rows s \<longleftrightarrow> wf_users s \<and> wf_identities s \<and> wf_orgs s \<and> wf_members s \<and> wf_invites s"

definition wf_tenant :: "tenant_db \<Rightarrow> bool" where
  "wf_tenant s \<longleftrightarrow> wf_rows s \<and> all_owned s"

lemmas wf_tables = wf_users_def wf_identities_def wf_orgs_def wf_members_def wf_invites_def

lemma list_ex_image: "list_ex (\<lambda>x. f x = k) xs \<longleftrightarrow> k \<in> f ` set xs"
  by (auto simp: list_ex_iff)

lemma wf_ids_snoc: "wf_ids is n \<Longrightarrow> wf_ids (is @ [n]) (n + 1)"
  by (auto simp: wf_ids_def list_all_iff)

lemma wf_ids_mono: "wf_ids is n \<Longrightarrow> n \<le> n' \<Longrightarrow> wf_ids is n'"
  by (auto simp: wf_ids_def list_all_iff)

lemma wf_ids_filter: "wf_ids (map f xs) n \<Longrightarrow> wf_ids (map f (filter P xs)) n"
  by (auto simp: wf_ids_def list_all_iff distinct_map_filter)

text \<open>A rollback keeps everything but the counters, which only grow.\<close>

definition counters_le :: "tenant_db \<Rightarrow> tenant_db \<Rightarrow> bool" where
  "counters_le s s' \<longleftrightarrow> tn_next_user s \<le> tn_next_user s' \<and> tn_next_identity s \<le> tn_next_identity s'
     \<and> tn_next_org s \<le> tn_next_org s' \<and> tn_next_member s \<le> tn_next_member s' \<and> tn_next_invite s \<le> tn_next_invite s'
     \<and> tn_next_refresh s \<le> tn_next_refresh s' \<and> tn_next_key s \<le> tn_next_key s'"

lemma counters_le_refl [simp]: "counters_le s s"
  by (simp add: counters_le_def)

lemma counters_le_trans: "counters_le a b \<Longrightarrow> counters_le b c \<Longrightarrow> counters_le a c"
  by (auto simp: counters_le_def)

lemma rolled_back_rows: "wf_rows s \<Longrightarrow> counters_le s s' \<Longrightarrow> wf_rows (tn_rolled_back s s')"
  by (auto simp: wf_rows_def wf_tables tn_rolled_back_def counters_le_def elim: wf_ids_mono)

lemma rolled_back_all_owned [simp]: "all_owned (tn_rolled_back s s') = all_owned s"
  by (simp add: all_owned_def has_owner_def tn_rolled_back_def)

text \<open>A body that keeps the invariant when it succeeds and moves no counter back keeps it as a transaction.\<close>

definition keeps :: "(tenant_db \<Rightarrow> bool) \<Rightarrow> 'a ttx \<Rightarrow> bool" where
  "keeps I fn \<longleftrightarrow> (\<forall>s. I s \<longrightarrow> counters_le s (snd (fn s)) \<and> (\<forall>a s'. fn s = (Inr a, s') \<longrightarrow> I s'))"

lemma tn_run_keeps:
  assumes "keeps wf_tenant fn" and "wf_tenant s"
  shows "wf_tenant (snd (tn_run f fn s))"
proof (cases "fn s")
  case (Pair r s')
  have "counters_le s s'" and ok: "\<And>a. r = Inr a \<Longrightarrow> wf_tenant s'"
    using assms Pair by (auto simp: keeps_def)
  then have "wf_tenant (tn_rolled_back s s')" using assms(2) by (simp add: wf_tenant_def rolled_back_rows)
  with ok show ?thesis using assms(2) by (cases r) (simp_all add: tn_run_def Pair)
qed

section \<open>Inserts\<close>

lemma insert_user_ok:
  assumes "insert_user now u s = (Inr i, s')"
  shows "i = tn_next_user s \<and> \<not> email_taken s (usr_Email u)
    \<and> s' = s\<lparr>tn_next_user := i + 1, tn_users := tn_users s @ [user_row now i u]\<rparr>"
  using assms by (auto simp: insert_user_def Let_def split: if_splits)

lemma insert_identity_ok:
  assumes "insert_identity now idn s = (Inr i, s')"
  shows "i = tn_next_identity s \<and> idn_UserID idn \<in> usr_ID ` set (tn_users s)
    \<and> (\<forall>x \<in> set (tn_identities s). idn_Provider x = idn_Provider idn \<longrightarrow>
          idn_UserID x \<noteq> idn_UserID idn \<and> idn_ProviderUserID x \<noteq> idn_ProviderUserID idn)
    \<and> s' = s\<lparr>tn_next_identity := i + 1, tn_identities := tn_identities s @ [idn\<lparr>idn_ID := i, idn_CreatedAt := now\<rparr>]\<rparr>"
  using assms by (simp add: insert_identity_def Let_def list_ex_image split: if_splits) (auto simp: list_ex_iff)

lemma insert_org_ok:
  assumes "insert_org now org s = (Inr i, s')"
  shows "i = tn_next_org s \<and> \<not> slug_taken s (org_Slug org)
    \<and> s' = s\<lparr>tn_next_org := i + 1, tn_orgs := tn_orgs s @ [org_row now i org]\<rparr>"
  using assms by (auto simp: insert_org_def Let_def split: if_splits)

lemma insert_member_ok:
  assumes "insert_member now orgID userID role s = (Inr i, s')"
  shows "i = tn_next_member s \<and> role_known role \<and> orgID \<in> org_ID ` set (tn_orgs s) \<and> userID \<in> usr_ID ` set (tn_users s)
    \<and> (orgID, userID) \<notin> (\<lambda>m. (mem_OrgID m, mem_UserID m)) ` set (tn_members s)
    \<and> s' = s\<lparr>tn_next_member := i + 1, tn_members := tn_members s @
          [\<lparr>mem_ID = i, mem_OrgID = orgID, mem_UserID = userID, mem_Role = role, mem_CreatedAt = now\<rparr>]\<rparr>"
  using assms by (simp add: insert_member_def Let_def list_ex_image split: if_splits) (auto simp: list_ex_iff)

lemma insert_counters [simp]:
  "counters_le s (snd (insert_user now u s))" "counters_le s (snd (insert_identity now idn s))"
  "counters_le s (snd (insert_org now org s))" "counters_le s (snd (insert_member now orgID userID role s))"
  by (auto simp: insert_user_def insert_identity_def insert_org_def insert_member_def counters_le_def Let_def)

lemma row_fields [simp]:
  "usr_ID (user_row now i u) = i" "usr_Email (user_row now i u) = usr_Email u" "usr_Status (user_row now i u) = ''active''"
  "org_ID (org_row now i org) = i" "org_Slug (org_row now i org) = org_Slug org" "org_DeletedAt (org_row now i org) = None"
  by (simp_all add: user_row_def org_row_def)

lemma insert_user_rows:
  assumes "insert_user now u s = (Inr i, s')" and "wf_rows s"
  shows "wf_rows s'"
  using assms(2) insert_user_ok [OF assms(1)] wf_ids_snoc [of "map usr_ID (tn_users s)" "tn_next_user s"]
  by (auto simp: wf_rows_def wf_tables email_taken_def lower_eq_def list_ex_iff list_all_iff)

lemma insert_identity_rows:
  assumes "insert_identity now idn s = (Inr i, s')" and "wf_rows s"
  shows "wf_rows s'"
  using assms(2) insert_identity_ok [OF assms(1)] wf_ids_snoc [of "map idn_ID (tn_identities s)" "tn_next_identity s"]
  by (auto simp: wf_rows_def wf_tables list_all_iff)

lemma insert_org_rows:
  assumes "insert_org now org s = (Inr i, s')" and "wf_rows s"
  shows "wf_rows s'"
  using assms(2) insert_org_ok [OF assms(1)] wf_ids_snoc [of "map org_ID (tn_orgs s)" "tn_next_org s"]
  by (auto simp: wf_rows_def wf_tables slug_taken_def lower_eq_def list_ex_iff list_all_iff)

lemma insert_member_rows:
  assumes "insert_member now orgID userID role s = (Inr i, s')" and "wf_rows s"
  shows "wf_rows s'"
  using assms(2) insert_member_ok [OF assms(1)] wf_ids_snoc [of "map mem_ID (tn_members s)" "tn_next_member s"]
  by (auto simp: wf_rows_def wf_tables list_all_iff)

lemma insert_member_owned: "insert_member now orgID userID role s = (Inr i, s') \<Longrightarrow> all_owned s \<Longrightarrow> all_owned s'"
  by (drule insert_member_ok) (auto simp: all_owned_def has_owner_def list_all_iff list_ex_iff)

text \<open>An org that is inserted together with its owner.\<close>

lemma new_org_owned:
  assumes "insert_org now org s = (Inr i, s1)" and "insert_member now' i userID RoleOwner s2 = (Inr k, s3)"
    and "tn_orgs s2 = tn_orgs s1" and "tn_members s2 = tn_members s" and "all_owned s"
  shows "all_owned s3"
  using insert_org_ok [OF assms(1)] insert_member_ok [OF assms(2)] assms(3-5)
  by (auto simp: all_owned_def has_owner_def list_all_iff list_ex_iff)

text \<open>Counters through a sequence of statements.\<close>

definition grows :: "'a ttx \<Rightarrow> bool" where
  "grows m \<longleftrightarrow> (\<forall>s. counters_le s (snd (m s)))"

lemma grows_bind: "grows m \<Longrightarrow> (\<And>a. grows (k a)) \<Longrightarrow> grows (tx_bind m k)"
  unfolding grows_def tx_bind_def
  by (auto split: prod.split sum.split) (metis counters_le_trans snd_conv)+

lemma grows_inserts [simp]:
  "grows (tx_return a)" "grows (insert_user now u)" "grows (insert_identity now idn)" "grows (insert_org now org)"
  "grows (insert_member now orgID userID role)"
  by (simp_all add: grows_def tx_return_def)

lemma keepsI: "grows fn \<Longrightarrow> (\<And>s a s'. I s \<Longrightarrow> fn s = (Inr a, s') \<Longrightarrow> I s') \<Longrightarrow> keeps I fn"
  by (auto simp: keeps_def grows_def)

lemma org_with_owner_keeps: "keeps wf_tenant (org_with_owner now name slug ownerID)"
proof (rule keepsI)
  fix s a s' assume w: "wf_tenant s" and "org_with_owner now name slug ownerID s = (Inr a, s')"
  then obtain i s1 k where i: "insert_org now (new_org name slug) s = (Inr i, s1)"
    and k: "insert_member now i ownerID RoleOwner s1 = (Inr k, s')"
    by (auto simp: org_with_owner_def tx_bind_Inr)
  have "tn_members s1 = tn_members s" using insert_org_ok [OF i] by auto
  then have "all_owned s'" using new_org_owned [OF i k] w by (simp add: wf_tenant_def)
  moreover have "wf_rows s'" using insert_member_rows [OF k] insert_org_rows [OF i] w by (simp add: wf_tenant_def)
  ultimately show "wf_tenant s'" by (simp add: wf_tenant_def)
qed (simp add: org_with_owner_def grows_bind)

lemma first_sign_in_keeps: "keeps wf_tenant (first_sign_in now u idn orgName orgSlug)"
proof (rule keepsI)
  show "grows (first_sign_in now u idn orgName orgSlug)"
    by (auto simp: first_sign_in_def intro!: grows_bind split: option.split)
next
  fix s a s' assume w: "wf_tenant s" and "first_sign_in now u idn orgName orgSlug s = (Inr a, s')"
  then obtain userID s1 j s2 orgID s3 k where u: "insert_user now u s = (Inr userID, s1)"
    and id: "(case idn of None \<Rightarrow> tx_return 0 | Some i \<Rightarrow> insert_identity now (i\<lparr>idn_UserID := userID\<rparr>)) s1 = (Inr j, s2)"
    and o3: "insert_org now (new_org orgName orgSlug) s2 = (Inr orgID, s3)"
    and m: "insert_member now orgID userID RoleOwner s3 = (Inr k, s')"
    by (auto simp: first_sign_in_def tx_bind_Inr)
  have "wf_rows s1" using insert_user_rows [OF u] w by (simp add: wf_tenant_def)
  with id have "wf_rows s2" by (auto split: option.splits intro: insert_identity_rows)
  with o3 m have r: "wf_rows s'" by (blast intro: insert_org_rows insert_member_rows)
  have s1: "tn_orgs s1 = tn_orgs s" "tn_members s1 = tn_members s" using insert_user_ok [OF u] by auto
  with id have s2: "tn_orgs s2 = tn_orgs s" "tn_members s2 = tn_members s"
    by (auto split: option.splits dest: insert_identity_ok)
  have "tn_members s3 = tn_members s2" using insert_org_ok [OF o3] by auto
  moreover have "all_owned s2" using w s2 by (simp add: wf_tenant_def all_owned_def has_owner_def)
  ultimately have "all_owned s'" using new_org_owned [OF o3 m] by simp
  with r show "wf_tenant s'" by (simp add: wf_tenant_def)
qed

section \<open>Updates\<close>

lemma map_upd_same: "(\<And>x. P x \<Longrightarrow> f (g x) = f x) \<Longrightarrow> map f (map (\<lambda>x. if P x then g x else x) xs) = map f xs"
  by (induction xs) auto

lemma filter_upd_same:
  "(\<And>x. P x \<Longrightarrow> Q (g x) = Q x) \<Longrightarrow>
     filter Q (map (\<lambda>x. if P x then g x else x) xs) = map (\<lambda>x. if P x then g x else x) (filter Q xs)"
  by (induction xs) auto

lemma filter_upd_drop:
  "(\<And>x. P x \<Longrightarrow> \<not> Q (g x)) \<Longrightarrow> filter Q (map (\<lambda>x. if P x then g x else x) xs) = filter (\<lambda>x. \<not> P x) (filter Q xs)"
  by (induction xs) auto

lemma image_upd_same: "(\<And>x. P x \<Longrightarrow> f (g x) = f x) \<Longrightarrow> f ` set (map (\<lambda>x. if P x then g x else x) xs) = f ` set xs"
  by (induction xs) auto

lemma upd_users_keeps:
  assumes "\<And>u. P u \<Longrightarrow> usr_ID (g u) = usr_ID u \<and> usr_Email (g u) = usr_Email u \<and> usr_Status (g u) = usr_Status u"
  shows "keeps wf_tenant (\<lambda>s. (Inr a, s\<lparr>tn_users := map (\<lambda>u. if P u then g u else u) (tn_users s)\<rparr>))"
proof (rule keepsI)
  fix s b s' assume w: "wf_tenant s" and "(Inr a, s\<lparr>tn_users := map (\<lambda>u. if P u then g u else u) (tn_users s)\<rparr>) = (Inr b, s')"
  then have s': "s' = s\<lparr>tn_users := map (\<lambda>u. if P u then g u else u) (tn_users s)\<rparr>" by simp
  have e: "map (ToLower \<circ> usr_Email) (filter (\<lambda>u. usr_Status u \<noteq> ''deleted'') (map (\<lambda>u. if P u then g u else u) (tn_users s)))
      = map (ToLower \<circ> usr_Email) (filter (\<lambda>u. usr_Status u \<noteq> ''deleted'') (tn_users s))"
    using assms by (subst filter_upd_same) (simp_all add: map_upd_same del: map_map)
  show "wf_tenant s'"
    using w e assms
    by (simp add: s' wf_tenant_def wf_rows_def wf_tables all_owned_def has_owner_def map_upd_same image_upd_same del: map_map set_map)
qed (simp add: grows_def counters_le_def)

lemma upd_orgs_keeps:
  assumes "\<And>o'. P o' \<Longrightarrow> org_ID (g o') = org_ID o' \<and> (org_DeletedAt (g o') = None \<longrightarrow> org_DeletedAt o' = None)"
    and "\<And>s b s'. I s \<Longrightarrow> distinct (map (ToLower \<circ> org_Slug) (filter (\<lambda>o'. org_DeletedAt o' = None) (tn_orgs s))) \<Longrightarrow>
      distinct (map (ToLower \<circ> org_Slug) (filter (\<lambda>o'. org_DeletedAt o' = None) (map (\<lambda>o'. if P o' then g o' else o') (tn_orgs s))))"
    and "wf_tenant s" and "I s"
  shows "wf_tenant (s\<lparr>tn_orgs := map (\<lambda>o'. if P o' then g o' else o') (tn_orgs s)\<rparr>)"
proof -
  have "all_owned (s\<lparr>tn_orgs := map (\<lambda>o'. if P o' then g o' else o') (tn_orgs s)\<rparr>)"
    using assms(1,3) by (auto simp: wf_tenant_def all_owned_def has_owner_def list_all_iff)
  moreover have "distinct (map (ToLower \<circ> org_Slug) (filter (\<lambda>o'. org_DeletedAt o' = None) (map (\<lambda>o'. if P o' then g o' else o') (tn_orgs s))))"
    using assms(2) [OF assms(4)] assms(3) by (simp add: wf_tenant_def wf_rows_def wf_orgs_def)
  ultimately show ?thesis
    using assms(1,3) by (simp add: wf_tenant_def wf_rows_def wf_tables map_upd_same image_upd_same del: map_map set_map)
qed

lemma select_member_Some:
  assumes "select_member s orgID userID = Some old"
  shows "old \<in> set (tn_members s) \<and> mem_OrgID old = orgID \<and> mem_UserID old = userID"
  using find_Some_set [OF assms [unfolded select_member_def]] by simp

lemma select_member_unique:
  assumes "wf_members s" and "select_member s orgID userID = Some old" and "m \<in> set (tn_members s)"
    and "mem_OrgID m = orgID" and "mem_UserID m = userID"
  shows "m = old"
  using assms select_member_Some [OF assms(2)]
  by (auto simp: wf_members_def distinct_map dest!: inj_onD)

text \<open>Another owner is left when the trigger lets a row of an active org go.\<close>

lemma enforce_last_owner_left:
  assumes "wf_members s" and "select_member s orgID userID = Some old" and "enforce_last_owner s old r"
    and "r \<noteq> Some RoleOwner" and "org_active s orgID"
  shows "\<exists>m \<in> set (tn_members s). mem_OrgID m = orgID \<and> mem_Role m = RoleOwner \<and> mem_UserID m \<noteq> userID"
  using assms select_member_Some [OF assms(2)] select_member_unique [OF assms(1,2)]
  by (auto simp: enforce_last_owner_def list_ex_iff)

lemma org_active_iff: "org_active s i \<longleftrightarrow> (\<exists>o' \<in> set (tn_orgs s). org_ID o' = i \<and> org_DeletedAt o' = None)"
  by (auto simp: org_active_def list_ex_iff)

lemma set_role_fields [simp]:
  "mem_ID (set_role i u r m) = mem_ID m" "mem_OrgID (set_role i u r m) = mem_OrgID m" "mem_UserID (set_role i u r m) = mem_UserID m"
  "mem_Role (set_role i u r m) = (if mem_OrgID m = i \<and> mem_UserID m = u then r else mem_Role m)"
  by (simp_all add: set_role_def)

lemma update_role_keeps: "keeps wf_tenant (\<lambda>s. update_role_from s orgID userID role s)"
proof (rule keepsI)
  fix s b s' assume w: "wf_tenant s" and u: "update_role_from s orgID userID role s = (Inr b, s')"
  show "wf_tenant s'"
  proof (cases "select_member s orgID userID")
    case (Some old)
    let ?g = "set_role orgID userID role"
    have g: "enforce_last_owner s old (Some role)" "role_known role" and s': "s' = s\<lparr>tn_members := map ?g (tn_members s)\<rparr>"
      using u by (auto simp: update_role_from_def Some split: if_splits)
    have "has_owner s' (org_ID o')" if o': "o' \<in> set (tn_orgs s)" "org_DeletedAt o' = None" for o'
    proof (cases "org_ID o' = orgID \<and> role \<noteq> RoleOwner")
      case True
      then have "org_active s orgID" using o' by (auto simp: org_active_iff)
      with True w enforce_last_owner_left [OF _ Some g(1)] obtain m where
        "m \<in> set (tn_members s)" "mem_OrgID m = orgID" "mem_Role m = RoleOwner" "mem_UserID m \<noteq> userID"
        by (auto simp: wf_tenant_def wf_rows_def)
      with True show ?thesis by (auto simp: s' has_owner_def list_ex_iff)
    next
      case False
      from o' w obtain m where "m \<in> set (tn_members s)" "mem_OrgID m = org_ID o'" "mem_Role m = RoleOwner"
        by (auto simp: wf_tenant_def all_owned_def has_owner_def list_all_iff list_ex_iff)
      with False have "?g m \<in> set (tn_members s')" "mem_OrgID (?g m) = org_ID o'" "mem_Role (?g m) = RoleOwner"
        by (auto simp: s')
      then show ?thesis unfolding has_owner_def list_ex_iff by blast
    qed
    moreover have "wf_members s'"
      using w g(2) by (auto simp: s' wf_tenant_def wf_rows_def wf_members_def list_all_iff comp_def)
    ultimately show ?thesis
      using w by (simp add: s' wf_tenant_def wf_rows_def wf_tables all_owned_def list_all_iff)
  qed (use w u in \<open>simp add: update_role_from_def\<close>)
qed (auto simp: grows_def update_role_from_def counters_le_def split: option.split)

lemma RemoveMember_body_keeps: "keeps wf_tenant (\<lambda>s. case select_member s orgID userID of
       None \<Rightarrow> (Inr 0, s)
     | Some old \<Rightarrow>
         if \<not> enforce_last_owner s old None then (Inl ErrCheck, s)
         else (Inr 1, s\<lparr>tn_members := filter (\<lambda>m. \<not> (mem_OrgID m = orgID \<and> mem_UserID m = userID)) (tn_members s)\<rparr>))"
    (is "keeps _ ?fn")
proof (rule keepsI)
  fix s b s' assume w: "wf_tenant s" and u: "?fn s = (Inr b, s')"
  show "wf_tenant s'"
  proof (cases "select_member s orgID userID")
    case (Some old)
    have g: "enforce_last_owner s old None"
      and s': "s' = s\<lparr>tn_members := filter (\<lambda>m. \<not> (mem_OrgID m = orgID \<and> mem_UserID m = userID)) (tn_members s)\<rparr>"
      using u by (auto simp: Some split: if_splits)
    have "has_owner s' (org_ID o')" if o': "o' \<in> set (tn_orgs s)" "org_DeletedAt o' = None" for o'
    proof (cases "org_ID o' = orgID")
      case True
      then have "org_active s orgID" using o' by (auto simp: org_active_iff)
      with w enforce_last_owner_left [OF _ Some g] show ?thesis
        by (auto simp: s' True wf_tenant_def wf_rows_def has_owner_def list_ex_iff)
    next
      case False
      from o' w obtain m where "m \<in> set (tn_members s)" "mem_OrgID m = org_ID o'" "mem_Role m = RoleOwner"
        by (auto simp: wf_tenant_def all_owned_def has_owner_def list_all_iff list_ex_iff)
      with False show ?thesis by (auto simp: s' has_owner_def list_ex_iff)
    qed
    moreover have "wf_members s'"
      using w wf_ids_filter [of mem_ID "tn_members s"]
      by (auto simp: s' wf_tenant_def wf_rows_def wf_members_def list_all_iff distinct_map_filter)
    ultimately show ?thesis
      using w by (simp add: s' wf_tenant_def wf_rows_def wf_tables all_owned_def list_all_iff)
  qed (use w u in simp)
qed (auto simp: grows_def counters_le_def split: option.split)

lemma upd_invites_wf:
  assumes "wf_tenant s"
    and "\<And>r. P r \<Longrightarrow> ir_ID (g r) = ir_ID r \<and> ir_OrgID (g r) = ir_OrgID r \<and> ir_TokenHash (g r) = ir_TokenHash r"
    and "(\<forall>r. P r \<longrightarrow> \<not> ir_pending (g r)) \<or> (\<forall>r. P r \<longrightarrow> ir_pending (g r) = ir_pending r \<and> ir_Email (g r) = ir_Email r)"
  shows "wf_tenant (s\<lparr>tn_invites := map (\<lambda>r. if P r then g r else r) (tn_invites s)\<rparr>)"
proof -
  let ?is = "map (\<lambda>r. if P r then g r else r) (tn_invites s)"
  have d: "distinct (map (\<lambda>r. (ir_OrgID r, ToLower (ir_Email r))) (filter ir_pending (tn_invites s)))"
    using assms(1) by (simp add: wf_tenant_def wf_rows_def wf_invites_def)
  have "distinct (map (\<lambda>r. (ir_OrgID r, ToLower (ir_Email r))) (filter ir_pending ?is))"
    using assms(3)
  proof
    assume "\<forall>r. P r \<longrightarrow> \<not> ir_pending (g r)"
    then show ?thesis using distinct_map_filter [OF d, of "\<lambda>r. \<not> P r"] by (simp add: filter_upd_drop del: filter_filter)
  next
    assume "\<forall>r. P r \<longrightarrow> ir_pending (g r) = ir_pending r \<and> ir_Email (g r) = ir_Email r"
    then show ?thesis using d assms(2) by (subst filter_upd_same) (simp_all add: map_upd_same del: map_map)
  qed
  moreover have "map ir_TokenHash (filter (\<lambda>r. ir_TokenHash r \<noteq> None) ?is) = map ir_TokenHash (filter (\<lambda>r. ir_TokenHash r \<noteq> None) (tn_invites s))"
    using assms(2) by (subst filter_upd_same) (simp_all add: map_upd_same del: map_map)
  moreover have "map ir_ID ?is = map ir_ID (tn_invites s)" using assms(2) by (intro map_upd_same) simp
  moreover have "list_all (\<lambda>r. ir_OrgID r \<in> org_ID ` set (tn_orgs s)) ?is"
    using assms(1,2) by (auto simp: wf_tenant_def wf_rows_def wf_invites_def list_all_iff)
  ultimately show ?thesis
    using assms(1) by (simp add: wf_tenant_def wf_rows_def wf_tables all_owned_def has_owner_def del: map_map)
qed

lemma update_pending_keeps:
  assumes "\<And>r. ir_ID (upd r) = ir_ID r \<and> ir_OrgID (upd r) = ir_OrgID r \<and> ir_TokenHash (upd r) = ir_TokenHash r"
    and "(\<forall>r. \<not> ir_pending (upd r)) \<or> (\<forall>r. ir_pending (upd r) = ir_pending r \<and> ir_Email (upd r) = ir_Email r)"
  shows "keeps wf_tenant (update_pending orgID inviteID upd)"
proof (rule keepsI)
  fix s a s' assume "wf_tenant s" and "update_pending orgID inviteID upd s = (Inr a, s')"
  then show "wf_tenant s'" using assms by (auto simp: update_pending_def intro!: upd_invites_wf)
qed (simp add: grows_def update_pending_def counters_le_def)

lemma update_pending_wf:
  "keeps wf_tenant (update_pending orgID inviteID upd) \<Longrightarrow> wf_tenant s \<Longrightarrow> wf_tenant (snd (update_pending orgID inviteID upd s))"
  by (auto simp: keeps_def update_pending_def)

lemma accepted_keeps: "keeps wf_tenant (update_pending orgID inviteID (mark_accepted now))"
  by (rule update_pending_keeps) (simp_all add: mark_accepted_def)

lemma invite_body_keeps:
  "keeps wf_tenant (update_pending orgID inviteID (\<lambda>r. r\<lparr>ir_Inv := (ir_Inv r)\<lparr>inv_ExpiresAt := e\<rparr>\<rparr>))"
  "keeps wf_tenant (update_pending orgID inviteID (with_state InviteRevoked))"
  by (rule update_pending_keeps; simp add: with_state_def)+

lemma distinct_token_upd:
  assumes "distinct (map f (filter (\<lambda>x. f x \<noteq> None) xs))" and "distinct (map k xs)"
    and "\<And>x. x \<in> set xs \<Longrightarrow> k x \<noteq> i \<Longrightarrow> f x \<noteq> Some h"
    and "\<And>x. P x \<Longrightarrow> k x = i" and "\<And>x. f (g x) = Some h"
  shows "distinct (map f (filter (\<lambda>x. f x \<noteq> None) (map (\<lambda>x. if P x then g x else x) xs)))"
  using assms
proof (induction xs)
  case (Cons x xs)
  have ih: "distinct (map f (filter (\<lambda>x. f x \<noteq> None) (map (\<lambda>x. if P x then g x else x) xs)))"
    using Cons by (auto split: if_splits)
  show ?case
  proof (cases "P x")
    case True
    then have "\<not> P y" "f y \<noteq> Some h" if "y \<in> set xs" for y
      using Cons.prems that by (auto simp: image_iff)
    with True ih Cons.prems(5) show ?thesis by auto
  next
    case False
    with Cons.prems have "f x \<noteq> Some h \<or> (\<forall>y \<in> set xs. \<not> P y)" by (auto simp: image_iff)
    with False ih Cons.prems show ?thesis by (auto simp: image_iff split: if_splits)
  qed
qed simp

lemma set_token_keeps: "keeps wf_tenant (\<lambda>s.
     if list_ex (on_pending orgID inviteID) (tn_invites s)
        \<and> list_ex (\<lambda>r. ir_ID r \<noteq> inviteID \<and> ir_TokenHash r = Some h) (tn_invites s)
     then (Inl ErrUnique, s)
     else update_pending orgID inviteID (\<lambda>r. r\<lparr>ir_TokenHash := Some h\<rparr>) s)" (is "keeps _ ?fn")
proof (rule keepsI)
  fix s a s' assume w: "wf_tenant s" and u: "?fn s = (Inr a, s')"
  let ?is = "map (\<lambda>r. if on_pending orgID inviteID r then r\<lparr>ir_TokenHash := Some h\<rparr> else r) (tn_invites s)"
  have s': "s' = s\<lparr>tn_invites := ?is\<rparr>"
    and c: "\<not> list_ex (on_pending orgID inviteID) (tn_invites s) \<or> list_all (\<lambda>r. ir_ID r \<noteq> inviteID \<longrightarrow> ir_TokenHash r \<noteq> Some h) (tn_invites s)"
    using u by (auto simp: update_pending_def list_ex_iff list_all_iff split: if_splits)
  show "wf_tenant s'"
  proof (cases "list_ex (on_pending orgID inviteID) (tn_invites s)")
    case False
    then have "?is = tn_invites s" by (auto simp: list_ex_iff intro!: map_idI)
    with w show ?thesis by (simp add: s')
  next
    case True
    have "distinct (map ir_TokenHash (filter (\<lambda>r. ir_TokenHash r \<noteq> None) ?is))"
      using w c True
      by (intro distinct_token_upd [where k = ir_ID and i = inviteID and h = h])
         (auto simp: wf_tenant_def wf_rows_def wf_invites_def wf_ids_def on_pending_def list_all_iff)
    moreover have "map (\<lambda>r. (ir_OrgID r, ToLower (ir_Email r))) (filter ir_pending ?is)
        = map (\<lambda>r. (ir_OrgID r, ToLower (ir_Email r))) (filter ir_pending (tn_invites s))"
      by (subst filter_upd_same) (simp_all add: map_upd_same del: map_map)
    moreover have "map ir_ID ?is = map ir_ID (tn_invites s)" by (rule map_upd_same) simp
    moreover have "list_all (\<lambda>r. ir_OrgID r \<in> org_ID ` set (tn_orgs s)) ?is"
      using w by (auto simp: wf_tenant_def wf_rows_def wf_invites_def list_all_iff)
    ultimately show ?thesis
      using w by (simp add: s' wf_tenant_def wf_rows_def wf_tables all_owned_def has_owner_def del: map_map)
  qed
qed (auto simp: grows_def update_pending_def counters_le_def)

lemma create_invite_keeps:
  "keeps wf_tenant (\<lambda>s.
     let iv = invite_defaults now iv0; newID = tn_next_invite s; s1 = s\<lparr>tn_next_invite := newID + 1\<rparr>
     in if \<not> role_known (inv_Role iv) then (Inl ErrCheck, s1)
        else if list_ex (\<lambda>r. ir_OrgID r = inv_OrgID iv \<and> lower_eq (ir_Email r) (inv_Email iv) \<and> ir_pending r) (tn_invites s)
                \<or> inv_TokenHash iv \<noteq> '''' \<and> token_taken s (inv_TokenHash iv)
        then (Inl ErrUnique, s1)
        else if \<not> list_ex (\<lambda>o'. org_ID o' = inv_OrgID iv) (tn_orgs s)
                \<or> (case inv_CreatedBy iv of None \<Rightarrow> False | Some u \<Rightarrow> \<not> list_ex (\<lambda>v. usr_ID v = u) (tn_users s))
        then (Inl ErrForeignKey, s1)
        else (Inr newID, s1\<lparr>tn_invites := tn_invites s @ [invite_row now newID iv]\<rparr>))" (is "keeps _ ?fn")
proof (rule keepsI)
  fix s a s' assume w: "wf_tenant s" and u: "?fn s = (Inr a, s')"
  let ?iv = "invite_defaults now iv0"
  let ?row = "invite_row now (tn_next_invite s) ?iv"
  have s': "s' = s\<lparr>tn_next_invite := tn_next_invite s + 1, tn_invites := tn_invites s @ [?row]\<rparr>"
    and p: "\<And>r. r \<in> set (tn_invites s) \<Longrightarrow> ir_pending r \<Longrightarrow> ir_OrgID r = inv_OrgID ?iv \<Longrightarrow> ToLower (ir_Email r) \<noteq> ToLower (inv_Email ?iv)"
    and t: "inv_TokenHash ?iv = '''' \<or> Some (inv_TokenHash ?iv) \<notin> ir_TokenHash ` set (tn_invites s)"
    and o': "inv_OrgID ?iv \<in> org_ID ` set (tn_orgs s)"
    using u by (simp add: Let_def list_ex_image token_taken_def split: if_splits; auto simp: list_ex_iff lower_eq_def)+
  show "wf_tenant s'"
  proof -
    have "(inv_OrgID ?iv, ToLower (inv_Email ?iv)) \<notin> (\<lambda>r. (ir_OrgID r, ToLower (ir_Email r))) ` set (filter ir_pending (tn_invites s))"
      using p by force
    then have "wf_invites s'"
      using w t o' wf_ids_snoc [of "map ir_ID (tn_invites s)" "tn_next_invite s"]
      by (auto simp: s' wf_tenant_def wf_rows_def wf_invites_def invite_row_def list_all_iff)
    then show ?thesis
      using w by (simp add: s' wf_tenant_def wf_rows_def wf_tables all_owned_def has_owner_def)
  qed
qed (auto simp: grows_def counters_le_def Let_def)

lemma accept_body_keeps:
  "keeps wf_tenant (\<lambda>s. case find (on_pending orgID inviteID) (tn_invites s) of
       None \<Rightarrow> (Inl ErrNoRows, s)
     | Some r \<Rightarrow>
         insert_member now orgID userID (inv_Role (ir_Inv r))
           (snd (update_pending orgID inviteID (mark_accepted now) s)))" (is "keeps _ ?fn")
proof (rule keepsI)
  show "grows ?fn"
    unfolding grows_def
  proof
    fix s
    let ?s1 = "snd (update_pending orgID inviteID (mark_accepted now) s)"
    have "counters_le s ?s1" by (simp add: update_pending_def counters_le_def)
    then show "counters_le s (snd (?fn s))"
      using insert_counters(4) [of ?s1 now orgID userID] by (auto split: option.split intro: counters_le_trans)
  qed
next
  fix s a s' assume w: "wf_tenant s" and "?fn s = (Inr a, s')"
  then obtain r :: InviteRow where "insert_member now orgID userID (inv_Role (ir_Inv r))
           (snd (update_pending orgID inviteID (mark_accepted now) s)) = (Inr a, s')"
    by (auto split: option.splits)
  then show "wf_tenant s'"
    using update_pending_wf [OF accepted_keeps w, of orgID inviteID now]
    by (auto simp: wf_tenant_def intro: insert_member_rows insert_member_owned)
qed

lemma expire_keeps: "keeps wf_tenant (\<lambda>s.
     let due = (\<lambda>r. ir_pending r \<and> inv_ExpiresAt (ir_Inv r) \<le> now)
     in (Inr (int (length (filter due (tn_invites s)))),
         s\<lparr>tn_invites := map (\<lambda>r. if due r then with_state InviteExpired r else r) (tn_invites s)\<rparr>))" (is "keeps _ ?fn")
proof (rule keepsI)
  fix s a s' assume "wf_tenant s" and "?fn s = (Inr a, s')"
  then show "wf_tenant s'" by (auto simp: Let_def with_state_def intro!: upd_invites_wf)
qed (simp add: grows_def counters_le_def Let_def)

lemma set_plan_keeps: "keeps wf_tenant (\<lambda>s.
     if \<not> org_active s orgID then (Inl ErrNoRows, s)
     else (Inr (), s\<lparr>tn_orgs := map (\<lambda>o'. if org_ID o' = orgID \<and> org_DeletedAt o' = None
                                             then o'\<lparr>org_Plan := plan\<rparr> else o') (tn_orgs s)\<rparr>))" (is "keeps _ ?fn")
proof (rule keepsI)
  fix s a s' assume "wf_tenant s" and "?fn s = (Inr a, s')"
  then show "wf_tenant s'"
    by (auto split: if_splits intro!: upd_orgs_keeps [where I = "\<lambda>_. True"])
       (subst filter_upd_same, simp_all add: map_upd_same del: map_map)
qed (simp add: grows_def counters_le_def)

lemma soft_delete_keeps: "keeps wf_tenant (\<lambda>s.
     (Inr (), s\<lparr>tn_orgs := map (\<lambda>o'. if org_ID o' = orgID \<and> org_DeletedAt o' = None
                                      then o'\<lparr>org_DeletedAt := Some now\<rparr> else o') (tn_orgs s)\<rparr>))" (is "keeps _ ?fn")
proof (rule keepsI)
  fix s a s' assume "wf_tenant s" and "?fn s = (Inr a, s')"
  then show "wf_tenant s'"
    by (auto intro!: upd_orgs_keeps [where I = "\<lambda>_. True"])
       (subst filter_upd_drop, auto simp: distinct_map_filter simp del: filter_filter)
qed (simp add: grows_def counters_le_def)

lemma link_keeps: "keeps wf_tenant (insert_identity now idn)"
proof (rule keepsI)
  fix s a s' assume "wf_tenant s" and i: "insert_identity now idn s = (Inr a, s')"
  moreover have "tn_orgs s' = tn_orgs s \<and> tn_members s' = tn_members s" using insert_identity_ok [OF i] by simp
  ultimately show "wf_tenant s'"
    using insert_identity_rows [OF i] by (simp add: wf_tenant_def all_owned_def has_owner_def)
qed simp

lemma unlink_keeps: "keeps wf_tenant (\<lambda>s.
     (let gone = (\<lambda>i. idn_UserID i = userID \<and> idn_Provider i = provider)
      in (Inr (int (length (filter gone (tn_identities s)))),
          s\<lparr>tn_identities := filter (\<lambda>i. \<not> gone i) (tn_identities s)\<rparr>)))" (is "keeps _ ?fn")
proof (rule keepsI)
  fix s a s' assume w: "wf_tenant s" and "?fn s = (Inr a, s')"
  then have s': "s' = s\<lparr>tn_identities := filter (\<lambda>i. \<not> (idn_UserID i = userID \<and> idn_Provider i = provider)) (tn_identities s)\<rparr>"
    by (simp add: Let_def)
  have "wf_identities s'"
    using w wf_ids_filter [of idn_ID "tn_identities s"]
    by (auto simp: s' wf_tenant_def wf_rows_def wf_identities_def list_all_iff distinct_map_filter)
  then show "wf_tenant s'"
    using w by (simp add: s' wf_tenant_def wf_rows_def wf_tables all_owned_def has_owner_def)
qed (simp add: grows_def counters_le_def Let_def)

lemma empty_body_keeps:
  "keeps wf_tenant (\<lambda>s. (Inr (), s\<lparr>tn_users := map (\<lambda>v. if usr_ID v = usr_ID u
     then v\<lparr>usr_Name := usr_Name u, usr_AvatarURL := usr_AvatarURL u, usr_Locale := usr_Locale u,
            usr_Timezone := usr_Timezone u\<rparr> else v) (tn_users s)\<rparr>))"
  "keeps wf_tenant (\<lambda>s. (Inr (), s\<lparr>tn_users := map (\<lambda>v. if usr_ID v = userID
     then v\<lparr>usr_LastLoginAt := Some now\<rparr> else v) (tn_users s)\<rparr>))"
  by (rule upd_users_keeps; simp)+

section \<open>The transactions of the services\<close>

text \<open>
  One transaction of any service, with any arguments and any fault.  \<open>CreateUser\<close>, \<open>CreateOrganization\<close>,
  \<open>CreateMembership\<close> and \<open>UpdateOrganization\<close> are called by no service and are left out.
\<close>

inductive tn_step :: "tenant_db \<Rightarrow> tenant_db \<Rightarrow> bool" where
  "tn_step s (snd (tn_run f (org_with_owner now name slug ownerID) s))"
| "tn_step s (snd (CreateUserWithPersonalOrg f now u idn orgName orgSlug s))"
| "tn_step s (snd (UpdateUser f u s))"
| "tn_step s (snd (SetLastLogin f now userID s))"
| "tn_step s (snd (LinkIdentity f now i s))"
| "tn_step s (snd (UnlinkIdentity f userID provider s))"
| "tn_step s (snd (UpdateMemberRole f orgID userID role s))"
| "tn_step s (snd (store_RemoveMember f orgID userID s))"
| "tn_step s (snd (store_CreateInvitation f now iv s))"
| "tn_step s (snd (store_ResendInvitation f orgID inviteID expiresAt s))"
| "tn_step s (snd (SetInvitationToken f orgID inviteID h s))"
| "tn_step s (snd (store_AcceptInvitation f now orgID inviteID userID s))"
| "tn_step s (snd (store_RevokeInvitation f orgID inviteID s))"
| "tn_step s (snd (ExpireInvitations f now s))"
| "tn_step s (snd (SetOrganizationPlan f orgID plan s))"
| "tn_step s (snd (SoftDeleteOrganization f now orgID s))"

abbreviation tn_reachable :: "tenant_db \<Rightarrow> tenant_db \<Rightarrow> bool" where
  "tn_reachable \<equiv> tn_step\<^sup>*\<^sup>*"

lemmas body_keeps = org_with_owner_keeps first_sign_in_keeps empty_body_keeps link_keeps unlink_keeps update_role_keeps
  RemoveMember_body_keeps create_invite_keeps invite_body_keeps set_token_keeps accept_body_keeps expire_keeps
  set_plan_keeps soft_delete_keeps

lemmas tenant_ops = CreateUserWithPersonalOrg_def UpdateUser_def SetLastLogin_def LinkIdentity_def UnlinkIdentity_def
  UpdateMemberRole_def store_RemoveMember_def store_CreateInvitation_def store_ResendInvitation_def SetInvitationToken_def
  store_AcceptInvitation_def store_RevokeInvitation_def ExpireInvitations_def SetOrganizationPlan_def SoftDeleteOrganization_def

lemma tn_step_wf: "tn_step s s' \<Longrightarrow> wf_tenant s \<Longrightarrow> wf_tenant s'"
  by (induction rule: tn_step.induct) (unfold tenant_ops, (rule tn_run_keeps, rule body_keeps, assumption)+)

lemma tn_reachable_wf: "tn_reachable s s' \<Longrightarrow> wf_tenant s \<Longrightarrow> wf_tenant s'"
  by (induction rule: rtranclp_induct) (auto intro: tn_step_wf)

definition empty_tenant :: tenant_db where
  "empty_tenant = \<lparr>tn_users = [], tn_identities = [], tn_orgs = [], tn_members = [], tn_invites = [], tn_refresh = [],
     tn_keys = [], tn_next_user = 1, tn_next_identity = 1, tn_next_org = 1, tn_next_member = 1, tn_next_invite = 1,
     tn_next_refresh = 1, tn_next_key = 1\<rparr>"

lemma empty_tenant_wf: "wf_tenant empty_tenant"
  by (simp add: empty_tenant_def wf_tenant_def wf_rows_def wf_tables wf_ids_def all_owned_def)

text \<open>
  C7. The tables of people and orgs under every sequence of transactions of the services, with any
  arguments and any faults: an active org always has an owner; no two live users share an address and no two active orgs a
  slug, in any case of the letters; a user is in an org at most once, with a role of the ladder; an address
  has at most one pending invitation per org; a provider account belongs to one user and a user has one account
  per provider; no two invitations share a token; and every identity, membership and invitation refers to a
  user and an org that exist.
\<close>

theorem tenancy_invariant:
  assumes "tn_reachable empty_tenant s"
  shows "(\<forall>i. org_active s i \<longrightarrow> has_owner s i)
    \<and> distinct (map (\<lambda>u. ToLower (usr_Email u)) (filter (\<lambda>u. usr_Status u \<noteq> ''deleted'') (tn_users s)))
    \<and> distinct (map (\<lambda>o'. ToLower (org_Slug o')) (filter (\<lambda>o'. org_DeletedAt o' = None) (tn_orgs s)))
    \<and> distinct (map (\<lambda>m. (mem_OrgID m, mem_UserID m)) (tn_members s))
    \<and> distinct (map (\<lambda>r. (ir_OrgID r, ToLower (ir_Email r))) (filter ir_pending (tn_invites s)))
    \<and> distinct (map (\<lambda>i. (idn_Provider i, idn_ProviderUserID i)) (tn_identities s))
    \<and> distinct (map (\<lambda>i. (idn_UserID i, idn_Provider i)) (tn_identities s))
    \<and> distinct (map ir_TokenHash (filter (\<lambda>r. ir_TokenHash r \<noteq> None) (tn_invites s)))
    \<and> (\<forall>m \<in> set (tn_members s). role_known (mem_Role m) \<and> mem_OrgID m \<in> org_ID ` set (tn_orgs s)
          \<and> mem_UserID m \<in> usr_ID ` set (tn_users s))
    \<and> (\<forall>i \<in> set (tn_identities s). idn_UserID i \<in> usr_ID ` set (tn_users s))
    \<and> (\<forall>r \<in> set (tn_invites s). ir_OrgID r \<in> org_ID ` set (tn_orgs s))"
proof -
  have wf: "wf_rows s" and own: "all_owned s"
    using tn_reachable_wf [OF assms empty_tenant_wf] by (simp_all add: wf_tenant_def)
  have "\<forall>i. org_active s i \<longrightarrow> has_owner s i" using own by (auto simp: all_owned_def list_all_iff org_active_iff)
  then show ?thesis using wf by (simp add: wf_rows_def wf_tables list_all_iff comp_def)
qed

definition ex_user :: "string \<Rightarrow> User" where
  "ex_user email = \<lparr>usr_ID = 0, usr_Email = email, usr_EmailVerified = True, usr_Name = ''Ann'', usr_AvatarURL = '''',
     usr_Locale = '''', usr_Timezone = '''', usr_Status = '''', usr_DeletionPendingAt = None, usr_CreatedAt = 0,
     usr_LastLoginAt = None\<rparr>"

definition ex_tenant :: tenant_db where
  "ex_tenant = snd (CreateUserWithPersonalOrg NoFault 0 (ex_user ''ann@example.com'') None ''Ann'' ''ann'' empty_tenant)"

lemma ex_tenant_reachable: "tn_reachable empty_tenant ex_tenant"
  unfolding ex_tenant_def by (rule r_into_rtranclp, rule tn_step.intros)

theorem tenancy_invariant_witness:
  "org_active ex_tenant 1 \<and> has_owner ex_tenant 1
   \<and> snd (UpdateMemberRole NoFault 1 1 RoleAdmin ex_tenant) = ex_tenant"
proof -
  have a: "org_active ex_tenant 1" by code_simp
  moreover have "snd (UpdateMemberRole NoFault 1 1 RoleAdmin ex_tenant) = ex_tenant" by code_simp
  moreover have "has_owner ex_tenant 1" using tenancy_invariant [OF ex_tenant_reachable] a by simp
  ultimately show ?thesis by simp
qed

lemma find_map_pres: "(\<And>x. P (g x) = P x) \<Longrightarrow> find P (map g xs) = map_option g (find P xs)"
  by (induction xs) auto

text \<open>
  The trigger reads what is committed.  Two owners who step down at the same time each find the other, so
  that both transactions commit and the org is left without an owner; one after the other, the second is refused.
\<close>

theorem last_owner_race:
  assumes "wf_members s" and "org_active s i"
    and "select_member s i u = Some a" and "select_member s i v = Some b" and "u \<noteq> v"
    and "\<forall>m \<in> set (tn_members s). mem_OrgID m = i \<and> mem_Role m = RoleOwner \<longleftrightarrow> m = a \<or> m = b"
    and "r \<noteq> RoleOwner" and "role_known r"
  shows "\<exists>s1 s2. update_role_from s i u r s = (Inr 1, s1) \<and> update_role_from s i v r s1 = (Inr 1, s2)
    \<and> org_active s2 i \<and> \<not> has_owner s2 i \<and> fst (update_role_from s1 i v r s1) = Inl ErrCheck"
proof -
  let ?g = "\<lambda>w. set_role i w r"
  let ?s1 = "s\<lparr>tn_members := map (?g u) (tn_members s)\<rparr>"
  let ?s2 = "?s1\<lparr>tn_members := map (?g v) (tn_members ?s1)\<rparr>"
  have a: "a \<in> set (tn_members s)" "mem_OrgID a = i" "mem_UserID a = u"
    and b: "b \<in> set (tn_members s)" "mem_OrgID b = i" "mem_UserID b = v"
    using select_member_Some [OF assms(3)] select_member_Some [OF assms(4)] by auto
  have ne: "mem_ID a \<noteq> mem_ID b"
    using assms(1,5) a b by (auto simp: wf_members_def wf_ids_def distinct_map inj_on_def)
  have ab: "mem_Role a = RoleOwner" "mem_Role b = RoleOwner" using assms(6) a b by auto
  have own: "mem_UserID m = u \<or> mem_UserID m = v" if "m \<in> set (tn_members s)" "mem_OrgID m = i" "mem_Role m = RoleOwner" for m
    using assms(6) that a b by auto
  have sv: "select_member ?s1 i v = Some b"
    using assms(4,5) b by (simp add: select_member_def find_map_pres set_role_def)
  have "enforce_last_owner s a (Some r)"
    unfolding enforce_last_owner_def list_ex_iff using a b ab ne by metis
  moreover have "enforce_last_owner s b (Some r)"
    unfolding enforce_last_owner_def list_ex_iff using a b ab ne by metis
  ultimately have u: "update_role_from s i u r s = (Inr 1, ?s1)" "update_role_from s i v r ?s1 = (Inr 1, ?s2)"
    using assms(3,8) sv by (simp_all add: update_role_from_def)
  have "\<not> has_owner ?s2 i"
    using own assms(7) by (auto simp: has_owner_def list_ex_iff split: if_splits)
  moreover have "org_active ?s1 i" "org_active ?s2 i" using assms(2) by (simp_all add: org_active_def)
  moreover have "\<not> enforce_last_owner ?s1 b (Some r)"
  proof -
    have "m = b" if "m \<in> set (tn_members s)" "mem_OrgID m = i" "mem_Role m = RoleOwner" "mem_UserID m \<noteq> u" for m
      using assms(6) that a by auto
    then show ?thesis
      using \<open>org_active ?s1 i\<close> b(2) assms(7) by (auto simp: enforce_last_owner_def list_ex_iff split: if_splits)
  qed
  then have "fst (update_role_from ?s1 i v r ?s1) = Inl ErrCheck" using sv by (simp add: update_role_from_def)
  ultimately show ?thesis using u by blast
qed

definition ex_two_owners :: tenant_db where
  "ex_two_owners =
     (let s = snd (CreateUserWithPersonalOrg NoFault 0 (ex_user ''bob@example.com'') None ''Bob'' ''bob'' ex_tenant)
      in snd (tn_run NoFault (insert_member 0 1 2 RoleOwner) s))"

theorem last_owner_race_witness:
  "\<exists>s1 s2. update_role_from ex_two_owners 1 1 RoleAdmin ex_two_owners = (Inr 1, s1)
     \<and> update_role_from ex_two_owners 1 2 RoleAdmin s1 = (Inr 1, s2) \<and> \<not> has_owner s2 1"
proof -
  have w: "wf_members ex_two_owners" "org_active ex_two_owners 1" by code_simp+
  let ?m = "\<lambda>k i u. \<lparr>mem_ID = k, mem_OrgID = i, mem_UserID = u, mem_Role = RoleOwner, mem_CreatedAt = 0\<rparr>"
  have m: "tn_members ex_two_owners = [?m 1 1 1, ?m 2 2 2, ?m 3 1 2]" by code_simp
  have "select_member ex_two_owners 1 1 = Some (?m 1 1 1)" "select_member ex_two_owners 1 2 = Some (?m 3 1 2)"
    by (simp_all add: select_member_def m)
  from last_owner_race [OF w this] show ?thesis
    by (simp add: m role_known_def) blast
qed

end
