(* ===== verification/Pulse_Refresh.thy ===== *)
theory Pulse_Refresh
  imports Pulse_Tenancy
begin

text \<open>
  Sessions: the table of refresh tokens (\<open>internal/store/refreshtokens.go\<close>) and the service that
  issues, rotates and revokes them (\<open>internal/authn/refresh.go\<close>).  A login roots a family of
  tokens; a rotation replaces the presented token by a new one of the same family, and a token that is
  presented after its rotation revokes the family.

  The first token of a login is written by two statements that are no transaction, so that each has
  a fault of its own.  \<open>rotate_from\<close> takes the tables its first statement reads as a separate
  argument, so that two concurrent rotations can be modelled.
\<close>

section \<open>The table\<close>

definition refresh_row :: "time \<Rightarrow> int \<Rightarrow> int \<Rightarrow> int \<Rightarrow> string \<Rightarrow> time \<Rightarrow> RefreshToken" where
  "refresh_row now i userID familyID h expires =
     \<lparr>rt_ID = i, rt_UserID = userID, rt_FamilyID = familyID, rt_ReplacedBy = None, rt_TokenHash = h,
      rt_CreatedAt = now, rt_ExpiresAt = expires, rt_RevokedAt = None\<rparr>"

definition insert_refresh :: "time \<Rightarrow> int \<Rightarrow> int \<Rightarrow> string \<Rightarrow> time \<Rightarrow> int ttx" where
  "insert_refresh now userID familyID h expires s =
     (let newID = tn_next_refresh s; s1 = s\<lparr>tn_next_refresh := newID + 1\<rparr>
      in if list_ex (\<lambda>t. rt_TokenHash t = h) (tn_refresh s) then (Inl ErrUnique, s1)
         else if \<not> list_ex (\<lambda>u. usr_ID u = userID) (tn_users s) then (Inl ErrForeignKey, s1)
         else (Inr newID, s1\<lparr>tn_refresh := tn_refresh s @ [refresh_row now newID userID familyID h expires]\<rparr>))"

definition upd_refresh :: "(RefreshToken \<Rightarrow> bool) \<Rightarrow> (RefreshToken \<Rightarrow> RefreshToken) \<Rightarrow> tenant_db \<Rightarrow> tenant_db" where
  "upd_refresh P g s = s\<lparr>tn_refresh := map (\<lambda>t. if P t then g t else t) (tn_refresh s)\<rparr>"

text \<open>The id of the new row and the family it is in.\<close>

definition CreateRefreshToken :: "fault \<times> fault \<Rightarrow> time \<Rightarrow> RefreshToken \<Rightarrow> (int \<times> int) ttx" where
  "CreateRefreshToken f now rt s =
     (if rt_FamilyID rt = 0 then
        (case tn_run (fst f) (insert_refresh now (rt_UserID rt) 0 (rt_TokenHash rt) (rt_ExpiresAt rt)) s of
           (Inl e, s1) \<Rightarrow> (Inl e, s1)
         | (Inr i, s1) \<Rightarrow>
             tn_run (snd f) (\<lambda>s. (Inr (i, i), upd_refresh (\<lambda>t. rt_ID t = i) (\<lambda>t. t\<lparr>rt_FamilyID := i\<rparr>) s)) s1)
      else
        (case tn_run (fst f) (insert_refresh now (rt_UserID rt) (rt_FamilyID rt) (rt_TokenHash rt) (rt_ExpiresAt rt)) s of
           (Inl e, s1) \<Rightarrow> (Inl e, s1)
         | (Inr i, s1) \<Rightarrow> (Inr (i, rt_FamilyID rt), s1)))"

definition GetRefreshTokenByHash :: "fault \<Rightarrow> string \<Rightarrow> tenant_db \<Rightarrow> db_error + RefreshToken" where
  "GetRefreshTokenByHash f h s = tn_read f (row_or_none (find (\<lambda>t. rt_TokenHash t = h) (tn_refresh s)))"

definition rt_usable :: "RefreshToken \<Rightarrow> bool" where
  "rt_usable t \<longleftrightarrow> rt_ReplacedBy t = None \<and> rt_RevokedAt t = None"

text \<open>The expiry of the new row is read again by the insert; a row that is gone would give a null.\<close>

definition rotate_from :: "tenant_db \<Rightarrow> time \<Rightarrow> string \<Rightarrow> string \<Rightarrow> int ttx" where
  "rotate_from snap now oldHash newHash s =
     (case find (\<lambda>t. rt_TokenHash t = oldHash \<and> rt_usable t) (tn_refresh snap) of
        None \<Rightarrow> (Inl ErrNoRows, s)
      | Some t \<Rightarrow>
          (case find (\<lambda>t. rt_TokenHash t = oldHash) (tn_refresh s) of
             None \<Rightarrow> (Inl ErrCheck, s\<lparr>tn_next_refresh := tn_next_refresh s + 1\<rparr>)
           | Some old \<Rightarrow>
               tx_bind (insert_refresh now (rt_UserID t) (rt_FamilyID t) newHash (rt_ExpiresAt old))
                 (\<lambda>newID s1. (Inr newID, upd_refresh (\<lambda>t. rt_TokenHash t = oldHash) (\<lambda>t. t\<lparr>rt_ReplacedBy := Some newID\<rparr>) s1)) s))"

definition RotateRefreshToken :: "fault \<Rightarrow> time \<Rightarrow> string \<Rightarrow> string \<Rightarrow> int ttx" where
  "RotateRefreshToken f now oldHash newHash = tn_run f (\<lambda>s. rotate_from s now oldHash newHash s)"

definition revoke_where :: "fault \<Rightarrow> time \<Rightarrow> (RefreshToken \<Rightarrow> bool) \<Rightarrow> int ttx" where
  "revoke_where f now P = tn_run f (\<lambda>s.
     (Inr (int (length (filter (\<lambda>t. P t \<and> rt_RevokedAt t = None) (tn_refresh s)))),
      upd_refresh (\<lambda>t. P t \<and> rt_RevokedAt t = None) (\<lambda>t. t\<lparr>rt_RevokedAt := Some now\<rparr>) s))"

definition RevokeRefreshTokenFamily :: "fault \<Rightarrow> time \<Rightarrow> int \<Rightarrow> int ttx" where
  "RevokeRefreshTokenFamily f now familyID = revoke_where f now (\<lambda>t. rt_FamilyID t = familyID)"

definition RevokeAllForUser :: "fault \<Rightarrow> time \<Rightarrow> int \<Rightarrow> int ttx" where
  "RevokeAllForUser f now userID = revoke_where f now (\<lambda>t. rt_UserID t = userID)"

text \<open>A row that a surviving one points to cannot be deleted.\<close>

definition DeleteExpiredRefreshTokens :: "fault \<Rightarrow> time \<Rightarrow> int ttx" where
  "DeleteExpiredRefreshTokens f now = tn_run f (\<lambda>s.
     let gone = (\<lambda>t. rt_ExpiresAt t \<le> now); rest = filter (\<lambda>t. \<not> gone t) (tn_refresh s)
     in if list_ex (\<lambda>t. gone t \<and> list_ex (\<lambda>r. rt_ReplacedBy r = Some (rt_ID t)) rest) (tn_refresh s)
        then (Inl ErrForeignKey, s)
        else (Inr (int (length (filter gone (tn_refresh s)))), s\<lparr>tn_refresh := rest\<rparr>))"

section \<open>The service\<close>

definition refreshTTL :: duration where "refreshTTL = 30 * 24 * Hour"

datatype refresh_error = ErrReuseDetected | ErrRefreshInvalid | RefreshStore db_error | RefreshNoRandom

record IssuedRefresh =
  is_Raw :: string
  is_FamilyID :: int
  is_Expires :: time

definition Issue :: "(string \<Rightarrow> string) \<Rightarrow> fault \<times> fault \<Rightarrow> time \<Rightarrow> string option \<Rightarrow> int \<Rightarrow> tenant_db
    \<Rightarrow> (refresh_error + IssuedRefresh) \<times> tenant_db" where
  "Issue sha256 f now random userID s =
     (case NewOpaqueToken random of
        None \<Rightarrow> (Inl RefreshNoRandom, s)
      | Some raw \<Rightarrow>
          let expires = now + refreshTTL
          in (case CreateRefreshToken f now (refresh_row now 0 userID 0 (HashToken sha256 raw) expires) s of
                (Inl e, s1) \<Rightarrow> (Inl (RefreshStore e), s1)
              | (Inr (i, fam), s1) \<Rightarrow> (Inr \<lparr>is_Raw = raw, is_FamilyID = fam, is_Expires = expires\<rparr>, s1)))"

record Rotated =
  ro_Raw :: string
  ro_UserID :: int
  ro_FamilyID :: int
  ro_Expires :: time

text \<open>The faults of the read, the rotation and the revocation, and the random bytes of the new token.\<close>

record rotate_env =
  rv_get :: fault
  rv_rotate :: fault
  rv_revoke :: fault
  rv_random :: "string option"

definition Rotate :: "(string \<Rightarrow> string) \<Rightarrow> rotate_env \<Rightarrow> time \<Rightarrow> string \<Rightarrow> tenant_db
    \<Rightarrow> (refresh_error + Rotated) \<times> tenant_db" where
  "Rotate sha256 env now presented s =
     (let oldHash = HashToken sha256 presented
      in case GetRefreshTokenByHash (rv_get env) oldHash s of
           Inl e \<Rightarrow> (Inl (if e = ErrNoRows then ErrRefreshInvalid else RefreshStore e), s)
         | Inr existing \<Rightarrow>
             if rt_ReplacedBy existing \<noteq> None
             then (Inl ErrReuseDetected, snd (RevokeRefreshTokenFamily (rv_revoke env) now (rt_FamilyID existing) s))
             else if rt_RevokedAt existing \<noteq> None \<or> \<not> now < rt_ExpiresAt existing then (Inl ErrRefreshInvalid, s)
             else case NewOpaqueToken (rv_random env) of
               None \<Rightarrow> (Inl RefreshNoRandom, s)
             | Some raw \<Rightarrow>
                 (case RotateRefreshToken (rv_rotate env) now oldHash (HashToken sha256 raw) s of
                    (Inl e, s1) \<Rightarrow>
                      if e = ErrNoRows
                      then (Inl ErrReuseDetected, snd (RevokeRefreshTokenFamily (rv_revoke env) now (rt_FamilyID existing) s1))
                      else (Inl (RefreshStore e), s1)
                  | (Inr _, s1) \<Rightarrow>
                      (Inr \<lparr>ro_Raw = raw, ro_UserID = rt_UserID existing, ro_FamilyID = rt_FamilyID existing,
                            ro_Expires = rt_ExpiresAt existing\<rparr>, s1)))"

definition RevokeFamily :: "(string \<Rightarrow> string) \<Rightarrow> fault \<times> fault \<Rightarrow> time \<Rightarrow> string \<Rightarrow> unit ttx" where
  "RevokeFamily sha256 f now presented s =
     (case GetRefreshTokenByHash (fst f) (HashToken sha256 presented) s of
        Inl e \<Rightarrow> (if e = ErrNoRows then Inr () else Inl e, s)
      | Inr existing \<Rightarrow>
          (case RevokeRefreshTokenFamily (snd f) now (rt_FamilyID existing) s of
             (Inl e, s1) \<Rightarrow> (Inl e, s1)
           | (Inr _, s1) \<Rightarrow> (Inr (), s1)))"

definition RevokeAll :: "fault \<Rightarrow> time \<Rightarrow> int \<Rightarrow> unit ttx" where
  "RevokeAll f now userID s =
     (case RevokeAllForUser f now userID s of (Inl e, s1) \<Rightarrow> (Inl e, s1) | (Inr _, s1) \<Rightarrow> (Inr (), s1))"

section \<open>The invariant of sessions\<close>

definition same_family :: "RefreshToken \<Rightarrow> RefreshToken \<Rightarrow> bool" where
  "same_family t t' \<longleftrightarrow> rt_FamilyID t = rt_FamilyID t' \<and> rt_FamilyID t \<noteq> 0"

text \<open>
  A family is rooted at its first token, belongs to one user, ends at one instant and has at most \<open>n\<close> usable tokens; \<open>n\<close> is 1 as long as no two rotations overlap.
  A token of family 0 is one whose login failed half-way; it was never handed out.
\<close>

definition usable :: "int \<Rightarrow> tenant_db \<Rightarrow> nat" where
  "usable fam s = length (filter (\<lambda>t. rt_FamilyID t = fam \<and> rt_usable t) (tn_refresh s))"

definition wf_sessions :: "nat \<Rightarrow> tenant_db \<Rightarrow> bool" where
  "wf_sessions n s \<longleftrightarrow> wf_ids (map rt_ID (tn_refresh s)) (tn_next_refresh s) \<and> 0 < tn_next_refresh s
     \<and> distinct (map rt_TokenHash (tn_refresh s))
     \<and> (\<forall>t \<in> set (tn_refresh s). rt_FamilyID t \<noteq> 0 \<longrightarrow>
           (\<exists>r \<in> set (tn_refresh s). rt_ID r = rt_FamilyID t \<and> rt_FamilyID r = rt_FamilyID t))
     \<and> (\<forall>t \<in> set (tn_refresh s). \<forall>t' \<in> set (tn_refresh s). same_family t t' \<longrightarrow>
           rt_UserID t = rt_UserID t' \<and> rt_ExpiresAt t = rt_ExpiresAt t')
     \<and> (\<forall>fam. fam \<noteq> 0 \<longrightarrow> usable fam s \<le> n)"

lemma length_filter_map_le':
  "(\<And>x. x \<in> set xs \<Longrightarrow> P (h x) \<Longrightarrow> Q x) \<Longrightarrow> length (filter P (map h xs)) \<le> length (filter Q xs)"
  by (induction xs) (auto simp: le_SucI)

lemma length_filter_map_less:
  assumes "\<And>x. x \<in> set xs \<Longrightarrow> P (h x) \<Longrightarrow> Q x" and "t \<in> set xs" and "Q t" and "\<not> P (h t)"
  shows "length (filter P (map h xs)) < length (filter Q xs)"
  using assms
proof (induction xs)
  case (Cons x xs)
  have le: "length (filter P (map h xs)) \<le> length (filter Q xs)" by (rule length_filter_map_le') (use Cons.prems in simp)
  show ?case
  proof (cases "t \<in> set xs")
    case True
    then show ?thesis using Cons by simp
  next
    case False
    then show ?thesis using Cons.prems le by auto
  qed
qed simp

lemma length_filter_key_le_1: "distinct (map f xs) \<Longrightarrow> length (filter (\<lambda>x. f x = k \<and> Q x) xs) \<le> 1"
proof (induction xs)
  case (Cons x xs)
  then show ?case by (cases "f x = k") (auto simp: filter_empty_conv image_iff)
qed simp

lemma usable_upd:
  "usable fam (upd_refresh P g s) = length (filter (\<lambda>t. rt_FamilyID t = fam \<and> rt_usable t) (map (\<lambda>t. if P t then g t else t) (tn_refresh s)))"
  by (simp add: usable_def upd_refresh_def)

lemma tn_run_keepsI:
  assumes "keeps I fn" and "\<And>s s'. I s \<Longrightarrow> counters_le s s' \<Longrightarrow> I (tn_rolled_back s s')" and "I s"
  shows "I (snd (tn_run f fn s))"
proof (cases "fn s")
  case (Pair r s')
  then show ?thesis using assms by (cases r) (auto simp: keeps_def tn_run_def)
qed

lemma sessions_rolled_back: "wf_sessions n s \<Longrightarrow> counters_le s s' \<Longrightarrow> wf_sessions n (tn_rolled_back s s')"
  by (auto simp: wf_sessions_def usable_def tn_rolled_back_def counters_le_def elim: wf_ids_mono)

lemma grows_refresh [simp]: "grows (insert_refresh now userID familyID h expires)"
  by (auto simp: grows_def insert_refresh_def counters_le_def Let_def)

lemma insert_refresh_ok:
  assumes "insert_refresh now userID familyID h expires s = (Inr i, s')"
  shows "i = tn_next_refresh s \<and> h \<notin> rt_TokenHash ` set (tn_refresh s)
    \<and> s' = s\<lparr>tn_next_refresh := i + 1, tn_refresh := tn_refresh s @ [refresh_row now i userID familyID h expires]\<rparr>"
  using assms by (auto simp: insert_refresh_def Let_def list_ex_image split: if_splits)

lemma refresh_row_fields [simp]:
  "rt_ID (refresh_row now i u fam h e) = i" "rt_UserID (refresh_row now i u fam h e) = u"
  "rt_FamilyID (refresh_row now i u fam h e) = fam" "rt_TokenHash (refresh_row now i u fam h e) = h"
  "rt_ExpiresAt (refresh_row now i u fam h e) = e" "rt_ReplacedBy (refresh_row now i u fam h e) = None"
  "rt_RevokedAt (refresh_row now i u fam h e) = None" "rt_usable (refresh_row now i u fam h e)"
  by (simp_all add: refresh_row_def rt_usable_def)

lemma append_row_wf:
  assumes w: "wf_sessions n s" and i: "rt_ID row = tn_next_refresh s" and h: "rt_TokenHash row \<notin> rt_TokenHash ` set (tn_refresh s)"
    and root: "rt_FamilyID row \<noteq> 0 \<Longrightarrow> \<exists>r \<in> set (tn_refresh s). rt_ID r = rt_FamilyID row \<and> rt_FamilyID r = rt_FamilyID row"
    and compat: "\<And>t. t \<in> set (tn_refresh s) \<Longrightarrow> same_family t row \<Longrightarrow>
        rt_UserID t = rt_UserID row \<and> rt_ExpiresAt t = rt_ExpiresAt row"
    and room: "rt_FamilyID row \<noteq> 0 \<Longrightarrow> Suc (usable (rt_FamilyID row) s) \<le> n"
  shows "wf_sessions n (s\<lparr>tn_next_refresh := tn_next_refresh s + 1, tn_refresh := tn_refresh s @ [row]\<rparr>)"
proof -
  have sym: "same_family t t' = same_family t' t" for t t' by (auto simp: same_family_def)
  have "\<forall>t \<in> insert row (set (tn_refresh s)). \<forall>t' \<in> insert row (set (tn_refresh s)). same_family t t' \<longrightarrow>
      rt_UserID t = rt_UserID t' \<and> rt_ExpiresAt t = rt_ExpiresAt t'"
    using w compat unfolding wf_sessions_def by (metis insert_iff sym)
  moreover have "\<forall>t \<in> insert row (set (tn_refresh s)). rt_FamilyID t \<noteq> 0 \<longrightarrow>
      (\<exists>r \<in> insert row (set (tn_refresh s)). rt_ID r = rt_FamilyID t \<and> rt_FamilyID r = rt_FamilyID t)"
    using w root unfolding wf_sessions_def by (metis insert_iff)
  moreover have "\<forall>fam. fam \<noteq> 0 \<longrightarrow> usable fam (s\<lparr>tn_next_refresh := tn_next_refresh s + 1, tn_refresh := tn_refresh s @ [row]\<rparr>) \<le> n"
    using w room by (auto simp: wf_sessions_def usable_def)
  ultimately show ?thesis
    using w i h wf_ids_snoc [of "map rt_ID (tn_refresh s)" "tn_next_refresh s"] by (simp add: wf_sessions_def)
qed

lemma insert_orphan_keeps: "keeps (wf_sessions n) (insert_refresh now userID 0 h expires)"
proof (rule keepsI)
  fix s i s' assume "wf_sessions n s" and "insert_refresh now userID 0 h expires s = (Inr i, s')"
  note ok = this(1) insert_refresh_ok [OF this(2)]
  then have "wf_sessions n (s\<lparr>tn_next_refresh := tn_next_refresh s + 1,
      tn_refresh := tn_refresh s @ [refresh_row now (tn_next_refresh s) userID 0 h expires]\<rparr>)"
    by (intro append_row_wf) (simp_all add: same_family_def)
  with ok show "wf_sessions n s'" by simp
qed simp

lemma upd_refresh_fields:
  assumes "\<And>t. rt_ID (g t) = rt_ID t \<and> rt_TokenHash (g t) = rt_TokenHash t"
  shows "map rt_ID (tn_refresh (upd_refresh P g s)) = map rt_ID (tn_refresh s)"
    and "map rt_TokenHash (tn_refresh (upd_refresh P g s)) = map rt_TokenHash (tn_refresh s)"
    and "tn_next_refresh (upd_refresh P g s) = tn_next_refresh s"
  using assms by (simp_all add: upd_refresh_def map_upd_same del: map_map)

text \<open>A change that keeps everything but the usability of tokens, which it may only end.\<close>

lemma weaken_keeps:
  assumes "\<And>t. rt_ID (g t) = rt_ID t \<and> rt_TokenHash (g t) = rt_TokenHash t \<and> rt_FamilyID (g t) = rt_FamilyID t
      \<and> rt_UserID (g t) = rt_UserID t \<and> rt_ExpiresAt (g t) = rt_ExpiresAt t \<and> (rt_usable (g t) \<longrightarrow> rt_usable t)"
    and w: "wf_sessions n s"
  shows "wf_sessions n (upd_refresh P g s)"
proof -
  let ?h = "\<lambda>t. if P t then g t else t"
  have h: "rt_ID (?h t) = rt_ID t \<and> rt_FamilyID (?h t) = rt_FamilyID t
      \<and> rt_UserID (?h t) = rt_UserID t \<and> rt_ExpiresAt (?h t) = rt_ExpiresAt t \<and> (rt_usable (?h t) \<longrightarrow> rt_usable t)" for t
    using assms(1) by simp
  have m: "set (tn_refresh (upd_refresh P g s)) = ?h ` set (tn_refresh s)" by (simp add: upd_refresh_def)
  have sf: "same_family (?h t) (?h t') = same_family t t'" for t t' using h by (simp add: same_family_def)
  have "\<forall>t \<in> set (tn_refresh s). \<forall>t' \<in> set (tn_refresh s). same_family t t' \<longrightarrow>
      rt_UserID (?h t) = rt_UserID (?h t') \<and> rt_ExpiresAt (?h t) = rt_ExpiresAt (?h t')"
    using w h unfolding wf_sessions_def by metis
  moreover have "\<forall>t \<in> set (tn_refresh s). rt_FamilyID (?h t) \<noteq> 0 \<longrightarrow>
      (\<exists>r \<in> set (tn_refresh s). rt_ID (?h r) = rt_FamilyID (?h t) \<and> rt_FamilyID (?h r) = rt_FamilyID (?h t))"
    using w h unfolding wf_sessions_def by metis
  moreover have "usable fam (upd_refresh P g s) \<le> usable fam s" for fam
  proof -
    have "length (filter (\<lambda>t. rt_FamilyID t = fam \<and> rt_usable t) (map ?h (tn_refresh s)))
        \<le> length (filter (\<lambda>t. rt_FamilyID t = fam \<and> rt_usable t) (tn_refresh s))"
    proof (rule length_filter_map_le')
      fix t assume "rt_FamilyID (?h t) = fam \<and> rt_usable (?h t)"
      then show "rt_FamilyID t = fam \<and> rt_usable t" using h [of t] by metis
    qed
    then show ?thesis unfolding usable_upd unfolding usable_def .
  qed
  then have "\<forall>fam. fam \<noteq> 0 \<longrightarrow> usable fam (upd_refresh P g s) \<le> n"
    using w unfolding wf_sessions_def by (meson order_trans)
  ultimately show ?thesis
    using w upd_refresh_fields [of g P s] assms(1)
    unfolding wf_sessions_def m ball_simps bex_simps sf by simp
qed

lemma revoke_wf:
  assumes "wf_sessions n s"
  shows "wf_sessions n (snd (revoke_where f now P s))"
proof -
  have "wf_sessions n (upd_refresh (\<lambda>t. P t \<and> rt_RevokedAt t = None) (\<lambda>t. t\<lparr>rt_RevokedAt := Some now\<rparr>) s')" if "wf_sessions n s'" for s'
    using that by (intro weaken_keeps) (simp_all add: rt_usable_def)
  then have "keeps (wf_sessions n) (\<lambda>s. (Inr (int (length (filter (\<lambda>t. P t \<and> rt_RevokedAt t = None) (tn_refresh s)))),
      upd_refresh (\<lambda>t. P t \<and> rt_RevokedAt t = None) (\<lambda>t. t\<lparr>rt_RevokedAt := Some now\<rparr>) s))"
    by (auto intro!: keepsI simp: grows_def) (simp add: upd_refresh_def counters_le_def)
  from tn_run_keepsI [OF this sessions_rolled_back assms] show ?thesis by (simp add: revoke_where_def)
qed

lemma revoke_family_wf: "wf_sessions n s \<Longrightarrow> wf_sessions n (snd (RevokeRefreshTokenFamily f now familyID s))"
  by (simp add: RevokeRefreshTokenFamily_def revoke_wf)

text \<open>The second statement of a login gives the row its own id as the family.\<close>

lemma root_family_wf:
  assumes w: "wf_sessions n s" and n: "1 \<le> n" and r: "row \<in> set (tn_refresh s)" "rt_ID row = i" "rt_FamilyID row = 0"
  shows "wf_sessions n (upd_refresh (\<lambda>t. rt_ID t = i) (\<lambda>t. t\<lparr>rt_FamilyID := i\<rparr>) s)"
proof -
  let ?h = "\<lambda>t. if rt_ID t = i then t\<lparr>rt_FamilyID := i\<rparr> else t"
  have only: "t = row" if "t \<in> set (tn_refresh s)" "rt_ID t = i" for t
    using w r that by (auto simp: wf_sessions_def wf_ids_def distinct_map inj_on_def)
  have fresh: "rt_FamilyID t \<noteq> i \<or> i = 0" if "t \<in> set (tn_refresh s)" for t
    using w r(3) only that unfolding wf_sessions_def by metis
  have h: "rt_ID (?h t) = rt_ID t" "rt_UserID (?h t) = rt_UserID t" "rt_ExpiresAt (?h t) = rt_ExpiresAt t"
    "rt_usable (?h t) = rt_usable t" "rt_FamilyID (?h t) = (if rt_ID t = i then i else rt_FamilyID t)" for t
    by (simp_all add: rt_usable_def)
  have m: "set (tn_refresh (upd_refresh (\<lambda>t. rt_ID t = i) (\<lambda>t. t\<lparr>rt_FamilyID := i\<rparr>) s)) = ?h ` set (tn_refresh s)"
    by (simp add: upd_refresh_def)
  have sf: "same_family t t' \<or> t = t'" if "t \<in> set (tn_refresh s)" "t' \<in> set (tn_refresh s)" "same_family (?h t) (?h t')" for t t'
    using that fresh only unfolding same_family_def h by metis
  have "\<forall>t \<in> set (tn_refresh s). \<forall>t' \<in> set (tn_refresh s). same_family (?h t) (?h t') \<longrightarrow>
      rt_UserID t = rt_UserID t' \<and> rt_ExpiresAt t = rt_ExpiresAt t'"
    using w sf unfolding wf_sessions_def by metis
  moreover have "\<forall>t \<in> set (tn_refresh s). rt_FamilyID (?h t) \<noteq> 0 \<longrightarrow>
      (\<exists>r' \<in> set (tn_refresh s). rt_ID r' = rt_FamilyID (?h t) \<and> rt_FamilyID (?h r') = rt_FamilyID (?h t))"
  proof (intro ballI impI)
    fix t assume t: "t \<in> set (tn_refresh s)" "rt_FamilyID (?h t) \<noteq> 0"
    show "\<exists>r' \<in> set (tn_refresh s). rt_ID r' = rt_FamilyID (?h t) \<and> rt_FamilyID (?h r') = rt_FamilyID (?h t)"
    proof (cases "rt_ID t = i")
      case True
      then show ?thesis using r by (intro bexI [of _ row]) simp_all
    next
      case False
      with t w obtain r' where r': "r' \<in> set (tn_refresh s)" "rt_ID r' = rt_FamilyID t" "rt_FamilyID r' = rt_FamilyID t"
        unfolding wf_sessions_def by auto
      moreover have "rt_ID r' \<noteq> i" using only r(3) r' t False by auto
      ultimately show ?thesis using False by (intro bexI [of _ r']) simp_all
    qed
  qed
  moreover have "usable fam (upd_refresh (\<lambda>t. rt_ID t = i) (\<lambda>t. t\<lparr>rt_FamilyID := i\<rparr>) s) \<le> n" if "fam \<noteq> 0" for fam
  proof (cases "fam = i")
    case True
    have "length (filter (\<lambda>t. rt_FamilyID t = fam \<and> rt_usable t) (map ?h (tn_refresh s)))
        \<le> length (filter (\<lambda>t. rt_ID t = i \<and> True) (tn_refresh s))"
      by (rule length_filter_map_le') (use fresh that True in \<open>auto split: if_splits\<close>)
    also have "\<dots> \<le> 1" using w by (intro length_filter_key_le_1) (simp add: wf_sessions_def wf_ids_def)
    finally show ?thesis using n unfolding usable_upd by simp
  next
    case False
    then have "usable fam (upd_refresh (\<lambda>t. rt_ID t = i) (\<lambda>t. t\<lparr>rt_FamilyID := i\<rparr>) s) \<le> usable fam s"
      unfolding usable_upd unfolding usable_def by (intro length_filter_map_le') (auto simp: rt_usable_def split: if_splits)
    then show ?thesis using w that unfolding wf_sessions_def by (meson order_trans)
  qed
  ultimately show ?thesis
    using w upd_refresh_fields [of "\<lambda>t. t\<lparr>rt_FamilyID := i\<rparr>" "\<lambda>t. rt_ID t = i" s]
    unfolding wf_sessions_def m ball_simps bex_simps by (simp add: h(1-4))
qed

lemma Issue_wf:
  assumes w: "wf_sessions n s" and n: "1 \<le> n"
  shows "wf_sessions n (snd (Issue sha256 f now random userID s))"
proof (cases "NewOpaqueToken random")
  case (Some raw)
  let ?ins = "insert_refresh now userID 0 (HashToken sha256 raw) (now + refreshTTL)"
  let ?fam = "\<lambda>i s. (Inr (i, i), upd_refresh (\<lambda>t. rt_ID t = i) (\<lambda>t. t\<lparr>rt_FamilyID := i\<rparr>) s)"
  obtain r s1 where r: "tn_run (fst f) ?ins s = (r, s1)" by fastforce
  have w1: "wf_sessions n s1"
    using tn_run_keepsI [OF insert_orphan_keeps sessions_rolled_back w, of "fst f" now userID "HashToken sha256 raw" "now + refreshTTL"] r by simp
  have "wf_sessions n (snd (tn_run (snd f) (?fam i) s1))" if "r = Inr i" for i
  proof -
    have "?ins s = (Inr i, s1)" using r that by (auto simp: tn_run_def split: if_splits prod.splits sum.splits)
    from insert_refresh_ok [OF this] have "\<exists>row \<in> set (tn_refresh s1). rt_ID row = i \<and> rt_FamilyID row = 0"
      by (auto simp: refresh_row_def)
    with w1 have "wf_sessions n (upd_refresh (\<lambda>t. rt_ID t = i) (\<lambda>t. t\<lparr>rt_FamilyID := i\<rparr>) s1)" using root_family_wf n by blast
    with w1 show ?thesis by (simp add: tn_run_def)
  qed
  with w1 show ?thesis
    by (auto simp: Issue_def Some Let_def CreateRefreshToken_def r refresh_row_def split: sum.split prod.split)
qed (simp add: Issue_def w)

text \<open>What a successful rotation does: a new row, and the old one marked.\<close>

lemma rotate_ok:
  assumes "wf_sessions n s" and "rotate_from s now old new s = (Inr i, s')"
  shows "\<exists>t \<in> set (tn_refresh s). rt_TokenHash t = old \<and> rt_usable t \<and> i = tn_next_refresh s
     \<and> new \<notin> rt_TokenHash ` set (tn_refresh s)
     \<and> tn_next_refresh s' = i + 1 \<and> tn_refresh s' = map (\<lambda>t. if rt_TokenHash t = old then t\<lparr>rt_ReplacedBy := Some i\<rparr> else t) (tn_refresh s)
            @ [refresh_row now i (rt_UserID t) (rt_FamilyID t) new (rt_ExpiresAt t)]"
proof -
  from assms(2) obtain t u where t: "find (\<lambda>t. rt_TokenHash t = old \<and> rt_usable t) (tn_refresh s) = Some t"
    and u: "find (\<lambda>t. rt_TokenHash t = old) (tn_refresh s) = Some u"
    by (auto simp: rotate_from_def split: option.splits)
  have t': "t \<in> set (tn_refresh s)" "rt_TokenHash t = old" "rt_usable t" using find_Some_set [OF t] by auto
  have u': "u \<in> set (tn_refresh s)" "rt_TokenHash u = old" using find_Some_set [OF u] by auto
  have "u = t" using assms(1) t' u' by (auto simp: wf_sessions_def distinct_map inj_on_def)
  then obtain s1 where i: "insert_refresh now (rt_UserID t) (rt_FamilyID t) new (rt_ExpiresAt t) s = (Inr i, s1)"
    and s': "s' = upd_refresh (\<lambda>t. rt_TokenHash t = old) (\<lambda>t. t\<lparr>rt_ReplacedBy := Some i\<rparr>) s1"
    using assms(2) t u by (auto simp: rotate_from_def tx_bind_Inr)
  have "new \<noteq> old" using insert_refresh_ok [OF i] t' by auto
  then show ?thesis
    using insert_refresh_ok [OF i] t' by (intro bexI [of _ t]) (simp_all add: s' upd_refresh_def refresh_row_def)
qed

lemma wf_sessions_cong:
  "tn_refresh s' = tn_refresh s \<Longrightarrow> tn_next_refresh s' = tn_next_refresh s \<Longrightarrow> wf_sessions n s' = wf_sessions n s"
  by (simp add: wf_sessions_def usable_def)

lemma rotate_wf:
  assumes w: "wf_sessions n s" and r: "rotate_from s now old new s = (Inr i, s')"
  shows "wf_sessions n s'"
proof -
  let ?m = "\<lambda>t. t\<lparr>rt_ReplacedBy := Some i\<rparr>"
  let ?s1 = "upd_refresh (\<lambda>t. rt_TokenHash t = old) ?m s"
  from rotate_ok [OF w r] obtain t where t: "t \<in> set (tn_refresh s)" "rt_TokenHash t = old" "rt_usable t"
    and new: "new \<notin> rt_TokenHash ` set (tn_refresh s)" and i: "i = tn_next_refresh s"
    and s': "tn_next_refresh s' = i + 1" "tn_refresh s' = map (\<lambda>t. if rt_TokenHash t = old then ?m t else t) (tn_refresh s)
            @ [refresh_row now i (rt_UserID t) (rt_FamilyID t) new (rt_ExpiresAt t)]"
    by blast
  let ?row = "refresh_row now i (rt_UserID t) (rt_FamilyID t) new (rt_ExpiresAt t)"
  have w1: "wf_sessions n ?s1" using w by (rule weaken_keeps [rotated]) (simp add: rt_usable_def)
  have "wf_sessions n (?s1\<lparr>tn_next_refresh := tn_next_refresh ?s1 + 1, tn_refresh := tn_refresh ?s1 @ [?row]\<rparr>)"
  proof (rule append_row_wf [OF w1])
    show "rt_TokenHash ?row \<notin> rt_TokenHash ` set (tn_refresh ?s1)"
      using new by (auto simp: upd_refresh_def)
    assume "rt_FamilyID ?row \<noteq> 0"
    with w t obtain r where "r \<in> set (tn_refresh s)" "rt_ID r = rt_FamilyID t" "rt_FamilyID r = rt_FamilyID t"
      unfolding wf_sessions_def by auto
    then show "\<exists>r \<in> set (tn_refresh ?s1). rt_ID r = rt_FamilyID ?row \<and> rt_FamilyID r = rt_FamilyID ?row"
      by (intro bexI [of _ "if rt_TokenHash r = old then ?m r else r"]) (auto simp: upd_refresh_def)
  next
    fix x assume "x \<in> set (tn_refresh ?s1)" and f: "same_family x ?row"
    then obtain y where y: "y \<in> set (tn_refresh s)" "x = (if rt_TokenHash y = old then ?m y else y)" by (auto simp: upd_refresh_def)
    with f have sf: "same_family y t" by (auto simp: same_family_def split: if_splits)
    have "rt_UserID y = rt_UserID t \<and> rt_ExpiresAt y = rt_ExpiresAt t" using w y(1) t(1) sf unfolding wf_sessions_def by blast
    then show "rt_UserID x = rt_UserID ?row \<and> rt_ExpiresAt x = rt_ExpiresAt ?row" using y(2) by simp
  next
    assume f: "rt_FamilyID ?row \<noteq> 0"
    have "usable (rt_FamilyID t) ?s1 < usable (rt_FamilyID t) s"
      unfolding usable_upd unfolding usable_def by (rule length_filter_map_less [OF _ t(1)]) (use t in \<open>auto simp: rt_usable_def split: if_splits\<close>)
    moreover have "usable (rt_FamilyID t) s \<le> n" using w f by (simp add: wf_sessions_def)
    ultimately show "Suc (usable (rt_FamilyID ?row) ?s1) \<le> n" by simp
  qed (simp add: i upd_refresh_def)
  then show ?thesis
    by (rule iffD2 [OF wf_sessions_cong, rotated -1]) (simp_all add: s' i upd_refresh_def)
qed

lemma rotate_keeps: "keeps (wf_sessions n) (\<lambda>s. rotate_from s now old new s)"
proof (rule keepsI)
  show "grows (\<lambda>s. rotate_from s now old new s)"
    unfolding grows_def
  proof
    fix s
    have "grows (tx_bind (insert_refresh now u fam new e)
        (\<lambda>newID s1. (Inr newID, upd_refresh (\<lambda>t. rt_TokenHash t = old) (\<lambda>t. t\<lparr>rt_ReplacedBy := Some newID\<rparr>) s1)))" for u fam e
      by (rule grows_bind, rule grows_refresh) (simp add: grows_def upd_refresh_def counters_le_def)
    then show "counters_le s (snd (rotate_from s now old new s))"
      by (auto simp: rotate_from_def grows_def split: option.split) (simp add: counters_le_def)
  qed
qed (rule rotate_wf)

lemma Rotate_wf:
  assumes "wf_sessions n s"
  shows "wf_sessions n (snd (Rotate sha256 env now presented s))"
proof -
  have "wf_sessions n s1" if "RotateRefreshToken f now old new s = (r, s1)" for f old new r s1
    using tn_run_keepsI [OF rotate_keeps sessions_rolled_back assms, of f now old new] that by (simp add: RotateRefreshToken_def)
  then show ?thesis
    using assms revoke_family_wf by (auto simp: Rotate_def Let_def split: sum.split option.split prod.split)
qed

section \<open>Runs of sessions\<close>

text \<open>A request of the session service with any arguments and faults, or a transaction of another part.\<close>

inductive session_step :: "(string \<Rightarrow> string) \<Rightarrow> tenant_db \<Rightarrow> tenant_db \<Rightarrow> bool" for sha256 where
  login: "session_step sha256 s (snd (Issue sha256 f2 now random userID s))"
| refresh: "session_step sha256 s (snd (Rotate sha256 env now presented s))"
| logout: "session_step sha256 s (snd (RevokeFamily sha256 f2 now presented s))"
| logout_all: "session_step sha256 s (snd (RevokeAll f now userID s))"
| other: "tn_step s s' \<Longrightarrow> session_step sha256 s s'"

lemma empty_sessions: "wf_sessions n empty_tenant"
  by (simp add: empty_tenant_def wf_sessions_def wf_ids_def usable_def)

definition spares :: "'a ttx \<Rightarrow> bool" where
  "spares fn \<longleftrightarrow> (\<forall>s. tn_refresh (snd (fn s)) = tn_refresh s \<and> tn_next_refresh (snd (fn s)) = tn_next_refresh s)"

lemma spares_run: "spares fn \<Longrightarrow> spares (tn_run f fn)"
  unfolding spares_def
proof
  fix s assume a: "\<forall>s. tn_refresh (snd (fn s)) = tn_refresh s \<and> tn_next_refresh (snd (fn s)) = tn_next_refresh s"
  show "tn_refresh (snd (tn_run f fn s)) = tn_refresh s \<and> tn_next_refresh (snd (tn_run f fn s)) = tn_next_refresh s"
    using a [rule_format, of s] by (cases "fn s") (auto simp: tn_run_def tn_rolled_back_def split: sum.split)
qed

lemma spares_bind: "spares m \<Longrightarrow> (\<And>a. spares (k a)) \<Longrightarrow> spares (tx_bind m k)"
  by (auto simp: spares_def tx_bind_def split: prod.split sum.split) (metis snd_conv)+

lemma spares_inserts:
  "spares (insert_user now u)" "spares (insert_identity now i)" "spares (insert_org now org)" "spares (insert_member now o' w r)"
  "spares (tx_return a)" "spares (update_pending o' k upd)" "spares (\<lambda>s. update_role_from s o' w r s)"
  by (simp_all add: spares_def insert_user_def insert_identity_def insert_org_def insert_member_def tx_return_def
      update_pending_def update_role_from_def Let_def split: option.split)

lemma spares_bodies:
  "spares (org_with_owner now name slug ownerID)" "spares (first_sign_in now u idn orgName orgSlug)"
  by (auto simp: org_with_owner_def first_sign_in_def intro!: spares_bind spares_inserts split: option.split)

lemma tn_step_sessions: "tn_step s s' \<Longrightarrow> tn_refresh s' = tn_refresh s \<and> tn_next_refresh s' = tn_next_refresh s"
proof (induction rule: tn_step.induct)
  case (1 s f now name slug ownerID)
  show ?case using spares_run [OF spares_bodies(1), of f now name slug ownerID] by (simp add: spares_def)
next
  case (2 s f now u idn orgName orgSlug)
  show ?case
    using spares_run [OF spares_bodies(2), of f now u idn orgName orgSlug] by (simp add: spares_def CreateUserWithPersonalOrg_def)
qed (unfold tenant_ops, (rule spares_run [unfolded spares_def, rule_format];
       simp add: Let_def spares_inserts [unfolded spares_def] update_pending_def split: option.split)+)

lemma session_step_wf: "session_step sha256 s s' \<Longrightarrow> 1 \<le> n \<Longrightarrow> wf_sessions n s \<Longrightarrow> wf_sessions n s'"
proof (induction rule: session_step.induct)
  case (logout s f2 now presented)
  then show ?case
    using revoke_family_wf [OF logout(2), of "snd f2" now] by (auto simp: RevokeFamily_def split: sum.split prod.split) (metis snd_conv)+
next
  case (logout_all s f now userID)
  then show ?case
    using revoke_wf [OF logout_all(2), of f now "\<lambda>t. rt_UserID t = userID"]
    by (auto simp: RevokeAll_def RevokeAllForUser_def split: sum.split prod.split)
qed (auto simp: Issue_wf Rotate_wf dest!: tn_step_sessions wf_sessions_cong)

lemma session_run_wf: "(session_step sha256)\<^sup>*\<^sup>* s s' \<Longrightarrow> 1 \<le> n \<Longrightarrow> wf_sessions n s \<Longrightarrow> wf_sessions n s'"
  by (induction rule: rtranclp_induct) (auto intro: session_step_wf)

text \<open>
  What a step leaves of the rows: each stays under its hash, in its family, replaced or revoked if it was; and an
  existing family with no live token gets none.
\<close>

definition kept :: "RefreshToken \<Rightarrow> RefreshToken \<Rightarrow> bool" where
  "kept t t' \<longleftrightarrow> rt_TokenHash t' = rt_TokenHash t \<and> rt_UserID t' = rt_UserID t \<and> rt_ExpiresAt t' = rt_ExpiresAt t \<and> (rt_FamilyID t \<noteq> 0 \<longrightarrow> rt_FamilyID t' = rt_FamilyID t)
     \<and> (rt_ReplacedBy t \<noteq> None \<longrightarrow> rt_ReplacedBy t' \<noteq> None) \<and> (rt_RevokedAt t \<noteq> None \<longrightarrow> rt_RevokedAt t' \<noteq> None)"

definition dead :: "int \<Rightarrow> tenant_db \<Rightarrow> bool" where
  "dead fam s \<longleftrightarrow> list_all (\<lambda>t. rt_FamilyID t = fam \<longrightarrow> rt_RevokedAt t \<noteq> None) (tn_refresh s)"

definition has_family :: "int \<Rightarrow> tenant_db \<Rightarrow> bool" where
  "has_family fam s \<longleftrightarrow> list_ex (\<lambda>t. rt_FamilyID t = fam) (tn_refresh s)"

definition later :: "tenant_db \<Rightarrow> tenant_db \<Rightarrow> bool" where
  "later s s' \<longleftrightarrow> (\<forall>t \<in> set (tn_refresh s). \<exists>t' \<in> set (tn_refresh s'). kept t t')
     \<and> (\<forall>fam. fam \<noteq> 0 \<and> has_family fam s \<and> dead fam s \<longrightarrow> dead fam s')"

lemma kept_refl [simp]: "kept t t"
  by (simp add: kept_def)

lemma kept_trans: "kept a b \<Longrightarrow> kept b c \<Longrightarrow> kept a c"
  by (auto simp: kept_def)

lemma later_refl [simp]: "later s s"
  unfolding later_def using kept_refl by blast

lemma later_same: "tn_refresh s' = tn_refresh s \<Longrightarrow> later s s'"
  by (simp add: later_def dead_def) (use kept_refl in blast)

lemma later_family: "later s s' \<Longrightarrow> fam \<noteq> 0 \<Longrightarrow> has_family fam s \<Longrightarrow> has_family fam s'"
  unfolding later_def has_family_def list_ex_iff kept_def by metis

lemma later_trans: "later a b \<Longrightarrow> later b c \<Longrightarrow> later a c"
  using later_family [of a b] unfolding later_def by (meson kept_trans)

lemma later_upd:
  assumes "\<And>t. kept t (g t)" and "\<And>t. rt_FamilyID (g t) = rt_FamilyID t"
  shows "later s (upd_refresh P g s)"
proof -
  have "\<exists>t' \<in> set (tn_refresh (upd_refresh P g s)). kept t t'" if "t \<in> set (tn_refresh s)" for t
    using that assms(1) by (intro bexI [of _ "if P t then g t else t"]) (auto simp: upd_refresh_def)
  moreover have "dead fam (upd_refresh P g s)" if "dead fam s" for fam
    using that assms by (auto simp: dead_def upd_refresh_def list_all_iff kept_def)
  ultimately show ?thesis by (simp add: later_def)
qed

lemma later_run:
  assumes "\<And>a s'. fn s = (Inr a, s') \<Longrightarrow> later s s'"
  shows "later s (snd (tn_run f fn s))"
  using assms by (cases "fn s") (auto simp: tn_run_def tn_rolled_back_def intro: later_same split: sum.split)

lemma later_revoke: "later s (snd (revoke_where f now P s))"
  unfolding revoke_where_def by (rule later_run) (auto intro!: later_upd simp: kept_def)

lemma later_append:
  assumes "tn_refresh s' = tn_refresh s @ [row]" and "rt_FamilyID row \<noteq> 0 \<Longrightarrow> \<not> dead (rt_FamilyID row) s"
  shows "later s s'"
proof -
  have "\<forall>t \<in> set (tn_refresh s). \<exists>t' \<in> set (tn_refresh s'). kept t t'" using assms(1) kept_refl by fastforce
  then show ?thesis using assms by (auto simp: later_def dead_def)
qed

lemma later_rotate:
  assumes "wf_sessions n s" and "rotate_from s now old new s = (Inr i, s')"
  shows "later s s'"
proof -
  let ?m = "\<lambda>t. t\<lparr>rt_ReplacedBy := Some i\<rparr>"
  let ?s1 = "upd_refresh (\<lambda>t. rt_TokenHash t = old) ?m s"
  from rotate_ok [OF assms] obtain t where t: "t \<in> set (tn_refresh s)" "rt_TokenHash t = old" "rt_usable t"
    and s': "tn_refresh s' = tn_refresh ?s1 @ [refresh_row now i (rt_UserID t) (rt_FamilyID t) new (rt_ExpiresAt t)]"
    by (auto simp: upd_refresh_def)
  have "?m t \<in> set (tn_refresh ?s1)" using t by (force simp: upd_refresh_def)
  then have "\<not> dead (rt_FamilyID t) ?s1" using t(3) unfolding dead_def list_all_iff rt_usable_def by (auto intro: bexI [of _ "?m t"])
  then have "later ?s1 s'" by (intro later_append [OF s']) simp
  moreover have "later s ?s1" by (intro later_upd) (auto simp: kept_def)
  ultimately show ?thesis by (rule later_trans [rotated])
qed

lemma later_Rotate:
  assumes "wf_sessions n s"
  shows "later s (snd (Rotate sha256 env now presented s))"
proof -
  have r: "later s s1" if "RotateRefreshToken f now old new s = (r, s1)" for f old new r s1
    using later_run [of "\<lambda>s. rotate_from s now old new s" s f] later_rotate [OF assms] that by (auto simp: RotateRefreshToken_def)
  have v: "later s1 (snd (RevokeRefreshTokenFamily f now fam s1))" for f fam s1
    by (simp add: RevokeRefreshTokenFamily_def later_revoke)
  show ?thesis
    by (auto simp: Rotate_def Let_def v split: sum.split option.split prod.split dest!: r intro: later_trans [OF _ v])
qed

lemma later_Issue:
  assumes w: "wf_sessions n s"
  shows "later s (snd (Issue sha256 f now random userID s))"
proof (cases "NewOpaqueToken random")
  case (Some raw)
  let ?ins = "insert_refresh now userID 0 (HashToken sha256 raw) (now + refreshTTL)"
  obtain r s1 where r: "tn_run (fst f) ?ins s = (r, s1)" by fastforce
  have "later s s'" if "?ins s = (Inr i, s')" for i s'
    using insert_refresh_ok [OF that] by (intro later_append [where row = "refresh_row now i userID 0 (HashToken sha256 raw) (now + refreshTTL)"]) simp_all
  then have l1: "later s s1" using later_run [of ?ins s "fst f"] r by auto
  have l2: "later s s2" if i: "r = Inr i" and s2: "s2 = upd_refresh (\<lambda>t. rt_ID t = i) (\<lambda>t. t\<lparr>rt_FamilyID := i\<rparr>) s1" for i s2
  proof -
    have ok: "?ins s = (Inr i, s1)" using r i by (auto simp: tn_run_def split: if_splits prod.splits sum.splits)
    have s1: "tn_refresh s1 = tn_refresh s @ [refresh_row now i userID 0 (HashToken sha256 raw) (now + refreshTTL)]"
      and i': "i = tn_next_refresh s" using insert_refresh_ok [OF ok] by simp_all
    have old: "rt_ID t \<noteq> i" if "t \<in> set (tn_refresh s)" for t
    proof -
      have "wf_ids (map rt_ID (tn_refresh s)) i" using w by (simp only: i' wf_sessions_def)
      then show ?thesis using that by (auto simp: wf_ids_def list_all_iff)
    qed
    then have same: "map (\<lambda>t. if rt_ID t = i then t\<lparr>rt_FamilyID := i\<rparr> else t) (tn_refresh s) = tn_refresh s"
      by (intro map_idI if_not_P)
    have "tn_refresh s2 = tn_refresh s @ [refresh_row now i userID i (HashToken sha256 raw) (now + refreshTTL)]"
      unfolding s2 upd_refresh_def by (simp add: s1 same refresh_row_def)
    moreover have "\<not> has_family i s \<or> i = 0"
      using w old unfolding wf_sessions_def has_family_def list_ex_iff by metis
    moreover have "\<forall>t \<in> set (tn_refresh s). \<exists>t' \<in> set (tn_refresh s2). kept t t'" using calculation(1) kept_refl by fastforce
    ultimately show ?thesis by (auto simp: later_def dead_def has_family_def)
  qed
  have l3: "later s (snd (tn_run (snd f) (\<lambda>s. (Inr (i, i), upd_refresh (\<lambda>t. rt_ID t = i) (\<lambda>t. t\<lparr>rt_FamilyID := i\<rparr>) s)) s1))"
    if "r = Inr i" for i
    using l1 l2 [OF that refl] by (simp add: tn_run_def)
  show ?thesis
  proof (cases r)
    case (Inl e)
    then show ?thesis using l1 by (simp add: Issue_def Some Let_def CreateRefreshToken_def r)
  next
    case (Inr i)
    then show ?thesis using l3 [OF Inr]
      by (auto simp: Issue_def Some Let_def CreateRefreshToken_def r split: prod.split sum.split)
  qed
qed (simp add: Issue_def)

lemma session_step_later:
  assumes "session_step sha256 s s'" and "wf_sessions n s"
  shows "later s s'"
  using assms
proof (induction rule: session_step.induct)
  case (logout s f2 now presented)
  then show ?case
    using later_revoke [of s "snd f2" now]
    by (auto simp: RevokeFamily_def RevokeRefreshTokenFamily_def split: sum.split prod.split) (metis snd_conv)+
next
  case (logout_all s f now userID)
  then show ?case
    using later_revoke [of s f now "\<lambda>t. rt_UserID t = userID"]
    by (auto simp: RevokeAll_def RevokeAllForUser_def split: sum.split prod.split)
next
  case (other s s')
  then show ?case using tn_step_sessions later_same by blast
qed (simp_all add: later_Issue later_Rotate)

lemma session_run_later: "(session_step sha256)\<^sup>*\<^sup>* s s' \<Longrightarrow> 1 \<le> n \<Longrightarrow> wf_sessions n s \<Longrightarrow> later s s' \<and> wf_sessions n s'"
  by (induction rule: rtranclp_induct) (auto intro: session_step_later session_step_wf later_trans)

section \<open>Properties of sessions\<close>

text \<open>
  Requests that overlap.  A rotation reads the token in its first statement and writes in later ones, with
  other requests in between: its first statement reads any state that the tables had since
  its request came in, the others the tables as they are.  A history is the list of the states so far, the last one first; \<open>k\<close> counts
  the rotations in it whose read may be out of date.  The revocation that follows a reuse is a transaction of its own.
\<close>

inductive session_history :: "(string \<Rightarrow> string) \<Rightarrow> nat \<Rightarrow> tenant_db list \<Rightarrow> bool" for sha256 where
  start: "session_history sha256 0 [empty_tenant]"
| serial: "session_history sha256 k (s # past) \<Longrightarrow> session_step sha256 s s' \<Longrightarrow> session_history sha256 k (s' # s # past)"
| revoke: "session_history sha256 k (s # past) \<Longrightarrow>
    session_history sha256 k (snd (RevokeRefreshTokenFamily f now fam s) # s # past)"
| overlap: "session_history sha256 k (s # past) \<Longrightarrow> snap \<in> set (s # past) \<Longrightarrow>
    session_history sha256 (Suc k) (snd (tn_run f (rotate_from snap now old new) s) # s # past)"

definition rows_kept :: "tenant_db \<Rightarrow> tenant_db \<Rightarrow> bool" where
  "rows_kept s s' \<longleftrightarrow> (\<forall>t \<in> set (tn_refresh s). \<exists>t' \<in> set (tn_refresh s'). kept t t')"

lemma rows_kept_refl [simp]: "rows_kept s s"
  unfolding rows_kept_def using kept_refl by blast

lemma rows_kept_trans: "rows_kept a b \<Longrightarrow> rows_kept b c \<Longrightarrow> rows_kept a c"
  unfolding rows_kept_def by (meson kept_trans)

lemma later_rows: "later s s' \<Longrightarrow> rows_kept s s'"
  by (simp add: later_def rows_kept_def)

text \<open>A rotation whose read is out of date: one more row, and the presented one marked, whatever happened to it since.\<close>

lemma overlap_ok:
  assumes "wf_sessions n s" and "rows_kept snap s" and "rotate_from snap now old new s = (Inr i, s')"
  shows "\<exists>t \<in> set (tn_refresh snap). \<exists>u \<in> set (tn_refresh s). rt_TokenHash u = old \<and> kept t u \<and> i = tn_next_refresh s
     \<and> new \<notin> rt_TokenHash ` set (tn_refresh s)
     \<and> tn_next_refresh s' = i + 1
     \<and> tn_refresh s' = tn_refresh (upd_refresh (\<lambda>t. rt_TokenHash t = old) (\<lambda>t. t\<lparr>rt_ReplacedBy := Some i\<rparr>) s)
            @ [refresh_row now i (rt_UserID t) (rt_FamilyID t) new (rt_ExpiresAt u)]"
proof -
  from assms(3) obtain t u where t: "find (\<lambda>t. rt_TokenHash t = old \<and> rt_usable t) (tn_refresh snap) = Some t"
    and u: "find (\<lambda>t. rt_TokenHash t = old) (tn_refresh s) = Some u"
    by (auto simp: rotate_from_def split: option.splits)
  have t': "t \<in> set (tn_refresh snap)" "rt_TokenHash t = old" using find_Some_set [OF t] by auto
  have u': "u \<in> set (tn_refresh s)" "rt_TokenHash u = old" using find_Some_set [OF u] by auto
  obtain v where v: "v \<in> set (tn_refresh s)" "kept t v" using assms(2) t'(1) by (auto simp: rows_kept_def)
  have "v = u" using assms(1) t' u' v by (auto simp: wf_sessions_def distinct_map inj_on_def kept_def)
  from assms(3) t u obtain s1 where i: "insert_refresh now (rt_UserID t) (rt_FamilyID t) new (rt_ExpiresAt u) s = (Inr i, s1)"
    and s': "s' = upd_refresh (\<lambda>t. rt_TokenHash t = old) (\<lambda>t. t\<lparr>rt_ReplacedBy := Some i\<rparr>) s1"
    by (auto simp: rotate_from_def tx_bind_Inr)
  have "new \<noteq> old" using insert_refresh_ok [OF i] u' by auto
  then show ?thesis
    using insert_refresh_ok [OF i] t' u' v \<open>v = u\<close>
    by (intro bexI [of _ t] bexI [of _ u]) (simp_all add: s' upd_refresh_def refresh_row_def)
qed

lemma overlap_wf:
  assumes w: "wf_sessions n s" and k: "rows_kept snap s" and r: "rotate_from snap now old new s = (Inr i, s')"
  shows "wf_sessions (Suc n) s' \<and> rows_kept s s'"
proof -
  let ?m = "\<lambda>t. t\<lparr>rt_ReplacedBy := Some i\<rparr>"
  let ?s1 = "upd_refresh (\<lambda>t. rt_TokenHash t = old) ?m s"
  from overlap_ok [OF w k r] obtain t u where u: "u \<in> set (tn_refresh s)" "rt_TokenHash u = old" "kept t u"
    and new: "new \<notin> rt_TokenHash ` set (tn_refresh s)" and i: "i = tn_next_refresh s" and n': "tn_next_refresh s' = i + 1"
    and s': "tn_refresh s' = tn_refresh ?s1 @ [refresh_row now i (rt_UserID t) (rt_FamilyID t) new (rt_ExpiresAt u)]"
    by blast
  let ?row = "refresh_row now i (rt_UserID t) (rt_FamilyID t) new (rt_ExpiresAt u)"
  have ur: "rt_FamilyID t \<noteq> 0 \<Longrightarrow> rt_FamilyID u = rt_FamilyID t" "rt_UserID u = rt_UserID t" using u(3) by (simp_all add: kept_def)
  have w1: "wf_sessions n ?s1" using w by (rule weaken_keeps [rotated]) (simp add: rt_usable_def)
  then have w2: "wf_sessions (Suc n) ?s1" by (auto simp: wf_sessions_def intro: le_SucI)
  have mu: "?m u \<in> set (tn_refresh ?s1)" using u by (force simp: upd_refresh_def)
  have "wf_sessions (Suc n) (?s1\<lparr>tn_next_refresh := tn_next_refresh ?s1 + 1, tn_refresh := tn_refresh ?s1 @ [?row]\<rparr>)"
  proof (rule append_row_wf [OF w2])
    show "rt_TokenHash ?row \<notin> rt_TokenHash ` set (tn_refresh ?s1)" using new by (auto simp: upd_refresh_def)
    assume f: "rt_FamilyID ?row \<noteq> 0"
    then have "rt_FamilyID (?m u) \<noteq> 0" "rt_FamilyID (?m u) = rt_FamilyID ?row" using ur(1) by simp_all
    then show "\<exists>r \<in> set (tn_refresh ?s1). rt_ID r = rt_FamilyID ?row \<and> rt_FamilyID r = rt_FamilyID ?row"
      using w1 mu unfolding wf_sessions_def by metis
    show "Suc (usable (rt_FamilyID ?row) ?s1) \<le> Suc n" using w1 f by (simp add: wf_sessions_def)
  next
    fix x assume x: "x \<in> set (tn_refresh ?s1)" and f: "same_family x ?row"
    then have "same_family x (?m u)" using ur(1) by (auto simp: same_family_def)
    then have "rt_UserID x = rt_UserID (?m u) \<and> rt_ExpiresAt x = rt_ExpiresAt (?m u)"
      using w1 x mu unfolding wf_sessions_def by blast
    then show "rt_UserID x = rt_UserID ?row \<and> rt_ExpiresAt x = rt_ExpiresAt ?row" using ur(2) by simp
  qed (simp add: i upd_refresh_def)
  then have "wf_sessions (Suc n) s'"
    by (rule iffD2 [OF wf_sessions_cong, rotated -1]) (simp_all add: s' n' i upd_refresh_def)
  moreover have "rows_kept s ?s1" by (intro later_rows later_upd) (auto simp: kept_def)
  then have "rows_kept s s'" by (auto simp: rows_kept_def s')
  ultimately show ?thesis by simp
qed

lemma overlap_run:
  assumes w: "wf_sessions n s" and k: "rows_kept snap s"
  shows "wf_sessions (Suc n) (snd (tn_run f (rotate_from snap now old new) s))
    \<and> rows_kept s (snd (tn_run f (rotate_from snap now old new) s))"
proof -
  have grow: "counters_le s (snd (rotate_from snap now old new s))"
  proof -
    have "grows (tx_bind (insert_refresh now u fam new e)
        (\<lambda>newID s1. (Inr newID, upd_refresh (\<lambda>t. rt_TokenHash t = old) (\<lambda>t. t\<lparr>rt_ReplacedBy := Some newID\<rparr>) s1)))" for u fam e
      by (rule grows_bind, rule grows_refresh) (simp add: grows_def upd_refresh_def counters_le_def)
    then show ?thesis
      by (auto simp: rotate_from_def grows_def split: option.split) (simp add: counters_le_def)
  qed
  have same: "wf_sessions (Suc n) s" using w by (auto simp: wf_sessions_def intro: le_SucI)
  have kept: "rows_kept s (tn_rolled_back s s2)" for s2
    by (rule later_rows [OF later_same]) (simp add: tn_rolled_back_def)
  obtain r s1 where r: "rotate_from snap now old new s = (r, s1)" by fastforce
  show ?thesis
  proof (cases r)
    case (Inl e)
    then show ?thesis using r same kept grow sessions_rolled_back [OF same, of s1] by (simp add: tn_run_def)
  next
    case (Inr i)
    then show ?thesis using r same kept overlap_wf [OF w k] by (auto simp: tn_run_def)
  qed
qed

lemma history_invariant:
  assumes "session_history sha256 k h"
  shows "\<exists>s past. h = s # past \<and> wf_sessions (Suc k) s \<and> (\<forall>p \<in> set h. rows_kept p s)"
  using assms
proof (induction rule: session_history.induct)
  case start
  then show ?case using empty_sessions by (simp add: rows_kept_def empty_tenant_def)
next
  case (serial k s past s')
  then have "rows_kept s s'" "wf_sessions (Suc k) s'"
    using session_step_later later_rows session_step_wf [of sha256 s s' "Suc k"] by auto
  with serial.IH show ?case by (auto intro: rows_kept_trans)
next
  case (revoke k s past f now fam)
  let ?s' = "snd (RevokeRefreshTokenFamily f now fam s)"
  have "rows_kept s ?s'" "wf_sessions (Suc k) ?s'"
    using revoke.IH revoke_family_wf later_rows [OF later_revoke] by (auto simp: RevokeRefreshTokenFamily_def)
  with revoke.IH show ?case by (auto intro: rows_kept_trans)
next
  case (overlap k s past snap f now old new)
  let ?s' = "snd (tn_run f (rotate_from snap now old new) s)"
  have "rows_kept s ?s'" "wf_sessions (Suc (Suc k)) ?s'"
    using overlap_run [of "Suc k" s snap f now old new] overlap.IH overlap.hyps by auto
  with overlap.IH show ?case by (auto intro: rows_kept_trans)
qed

text \<open>
  C11. Over every history of logins, refreshes and logouts with any arguments and any faults, rotations that
  overlap included: the tokens of a login belong to one user and end together, a token that was replaced or revoked stays so, and
  the number of its usable tokens is at most one more than the number of rotations that overlapped;
  so at most one of them can be used as long as no two rotations overlap.
\<close>

theorem session_invariant:
  assumes "session_history sha256 k (s # past)"
  shows "(\<forall>t \<in> set (tn_refresh s). \<forall>t' \<in> set (tn_refresh s). rt_FamilyID t = rt_FamilyID t' \<and> rt_FamilyID t \<noteq> 0 \<longrightarrow>
        rt_UserID t = rt_UserID t' \<and> rt_ExpiresAt t = rt_ExpiresAt t')
    \<and> (\<forall>p \<in> set past. \<forall>t \<in> set (tn_refresh p). \<exists>t' \<in> set (tn_refresh s). rt_TokenHash t' = rt_TokenHash t
          \<and> (rt_ReplacedBy t \<noteq> None \<longrightarrow> rt_ReplacedBy t' \<noteq> None) \<and> (rt_RevokedAt t \<noteq> None \<longrightarrow> rt_RevokedAt t' \<noteq> None))
    \<and> (\<forall>fam. fam \<noteq> 0 \<longrightarrow>
          length (filter (\<lambda>t. rt_FamilyID t = fam \<and> rt_ReplacedBy t = None \<and> rt_RevokedAt t = None) (tn_refresh s)) \<le> 1 + k)"
proof -
  have w: "wf_sessions (Suc k) s" and kp: "\<forall>p \<in> set past. rows_kept p s" using history_invariant [OF assms] by auto
  show ?thesis
  proof (intro conjI)
    show "\<forall>t \<in> set (tn_refresh s). \<forall>t' \<in> set (tn_refresh s). rt_FamilyID t = rt_FamilyID t' \<and> rt_FamilyID t \<noteq> 0 \<longrightarrow>
        rt_UserID t = rt_UserID t' \<and> rt_ExpiresAt t = rt_ExpiresAt t'"
      using w unfolding wf_sessions_def same_family_def by blast
    show "\<forall>p \<in> set past. \<forall>t \<in> set (tn_refresh p). \<exists>t' \<in> set (tn_refresh s). rt_TokenHash t' = rt_TokenHash t
          \<and> (rt_ReplacedBy t \<noteq> None \<longrightarrow> rt_ReplacedBy t' \<noteq> None) \<and> (rt_RevokedAt t \<noteq> None \<longrightarrow> rt_RevokedAt t' \<noteq> None)"
      using kp unfolding rows_kept_def kept_def by meson
    show "\<forall>fam. fam \<noteq> 0 \<longrightarrow>
          length (filter (\<lambda>t. rt_FamilyID t = fam \<and> rt_ReplacedBy t = None \<and> rt_RevokedAt t = None) (tn_refresh s)) \<le> 1 + k"
      using w by (simp add: wf_sessions_def usable_def rt_usable_def)
  qed
qed

definition ok_rotate :: "string \<Rightarrow> rotate_env" where
  "ok_rotate rnd = \<lparr>rv_get = NoFault, rv_rotate = NoFault, rv_revoke = NoFault, rv_random = Some rnd\<rparr>"

lemma Rotate_Inr:
  assumes "Rotate sha256 env now presented s = (Inr rot, s')" and "wf_sessions n s"
  shows "\<exists>t \<in> set (tn_refresh s). rt_TokenHash t = HashToken sha256 presented \<and> rt_usable t \<and> now < rt_ExpiresAt t
     \<and> ro_FamilyID rot = rt_FamilyID t \<and> ro_UserID rot = rt_UserID t \<and> ro_Expires rot = rt_ExpiresAt t
     \<and> (\<exists>i. rotate_from s now (HashToken sha256 presented) (HashToken sha256 (ro_Raw rot)) s = (Inr i, s'))"
proof -
  let ?h = "HashToken sha256 presented"
  from assms(1) obtain t raw i where t: "find (\<lambda>t. rt_TokenHash t = ?h) (tn_refresh s) = Some t"
    and u: "rt_usable t" "now < rt_ExpiresAt t"
    and r: "RotateRefreshToken (rv_rotate env) now ?h (HashToken sha256 raw) s = (Inr i, s')"
    and rot: "rot = \<lparr>ro_Raw = raw, ro_UserID = rt_UserID t, ro_FamilyID = rt_FamilyID t, ro_Expires = rt_ExpiresAt t\<rparr>"
    by (auto simp: Rotate_def Let_def GetRefreshTokenByHash_def tn_read_def row_or_none_def rt_usable_def
        split: sum.splits option.splits prod.splits if_splits)
  have "rotate_from s now ?h (HashToken sha256 raw) s = (Inr i, s')"
    using r by (auto simp: RotateRefreshToken_def tn_run_def split: if_splits prod.splits sum.splits)
  with find_Some_set [OF t] u rot show ?thesis by auto
qed

text \<open>
  C10. Theft detection.  A token that was rotated is never accepted again, whatever happened since; the second
  presentation, if the store works, is answered as a reuse and revokes the whole family, and from then on
  no token of the family is ever rotated.
\<close>

theorem refresh_reuse_kills_family:
  assumes "(session_step sha256)\<^sup>*\<^sup>* empty_tenant s" and "Rotate sha256 env now raw s = (Inr rot, s1)" and "ro_FamilyID rot \<noteq> 0"
    and "(session_step sha256)\<^sup>*\<^sup>* s1 s2" and "Rotate sha256 (ok_rotate rnd) now2 raw s2 = (r, s3)"
    and "(session_step sha256)\<^sup>*\<^sup>* s3 s4" and "Rotate sha256 env' now4 any s4 = (r', s5)"
  shows "r = Inl ErrReuseDetected \<and> dead (ro_FamilyID rot) s4
    \<and> (case r' of Inr rot' \<Rightarrow> ro_FamilyID rot' \<noteq> ro_FamilyID rot | Inl _ \<Rightarrow> True)"
proof -
  let ?h = "HashToken sha256 raw" and ?fam = "ro_FamilyID rot"
  have w: "wf_sessions 1 s"
    using session_run_wf [OF assms(1), of 1] empty_sessions by simp
  from Rotate_Inr [OF assms(2) w] obtain t i where t: "t \<in> set (tn_refresh s)" "rt_TokenHash t = ?h" "rt_FamilyID t = ?fam"
    and rf: "rotate_from s now ?h (HashToken sha256 (ro_Raw rot)) s = (Inr i, s1)" by auto
  have w1: "wf_sessions 1 s1" using rotate_wf [OF w rf] .
  have "t\<lparr>rt_ReplacedBy := Some i\<rparr> \<in> set (tn_refresh s1)"
    using rotate_ok [OF w rf] t by force
  then obtain t1 where t1: "t1 \<in> set (tn_refresh s1)" "rt_TokenHash t1 = ?h" "rt_FamilyID t1 = ?fam" "rt_ReplacedBy t1 \<noteq> None"
    using t by force
  have l2: "later s1 s2" "wf_sessions 1 s2" using session_run_later [OF assms(4) _ w1] by auto
  then obtain t2 where t2: "t2 \<in> set (tn_refresh s2)" "rt_TokenHash t2 = ?h" "rt_FamilyID t2 = ?fam" "rt_ReplacedBy t2 \<noteq> None"
    using t1 assms(3) unfolding later_def kept_def by metis
  have "find (\<lambda>t. rt_TokenHash t = ?h) (tn_refresh s2) = Some t2"
  proof (cases "find (\<lambda>t. rt_TokenHash t = ?h) (tn_refresh s2)")
    case None
    then show ?thesis using t2 by (auto simp: find_None_iff)
  next
    case (Some x)
    with find_Some_set [OF Some] l2(2) t2 show ?thesis by (auto simp: wf_sessions_def distinct_map inj_on_def)
  qed
  then have r: "r = Inl ErrReuseDetected" and s3: "s3 = snd (RevokeRefreshTokenFamily NoFault now2 ?fam s2)"
    using assms(5) t2 by (auto simp: Rotate_def Let_def ok_rotate_def GetRefreshTokenByHash_def tn_read_def row_or_none_def)
  have d3: "dead ?fam s3"
    by (auto simp: s3 RevokeRefreshTokenFamily_def revoke_where_def tn_run_def upd_refresh_def dead_def list_all_iff)
  have "later s2 s3" by (simp add: s3 RevokeRefreshTokenFamily_def later_revoke)
  moreover have "has_family ?fam s2" using t2 by (auto simp: has_family_def list_ex_iff)
  ultimately have f3: "has_family ?fam s3" using later_family assms(3) by blast
  have w3: "wf_sessions 1 s3" using revoke_family_wf [OF l2(2)] by (simp add: s3)
  have l4: "later s3 s4" "wf_sessions 1 s4" using session_run_later [OF assms(6) _ w3] by auto
  then have d4: "dead ?fam s4" using d3 f3 assms(3) by (simp add: later_def)
  have "ro_FamilyID rot' \<noteq> ?fam" if "r' = Inr rot'" for rot'
    using Rotate_Inr [OF _ l4(2), of sha256 env' now4 any rot' s5] assms(7) that d4
    by (auto simp: dead_def list_all_iff rt_usable_def)
  then show ?thesis using r d4 by (auto split: sum.split)
qed

text \<open>A concrete family: a login, two rotations of its tokens and the first token presented again.\<close>

definition ex_sha :: "string \<Rightarrow> string" where
  "ex_sha x = x"

definition ex_login :: tenant_db where
  "ex_login = snd (Issue ex_sha (NoFault, NoFault) 0 (Some ''abc'') 1 ex_tenant)"

definition ex_refreshed :: tenant_db where
  "ex_refreshed = snd (Rotate ex_sha (ok_rotate ''def'') 10 (RawURLEncoding_Encode ''abc'') ex_login)"

definition ex_reused :: tenant_db where
  "ex_reused = snd (Rotate ex_sha (ok_rotate ''ghi'') 20 (RawURLEncoding_Encode ''abc'') ex_refreshed)"

lemma ex_login_run: "(session_step ex_sha)\<^sup>*\<^sup>* empty_tenant ex_login"
proof -
  have "(session_step ex_sha)\<^sup>*\<^sup>* empty_tenant ex_tenant"
    using ex_tenant_reachable by (induction rule: rtranclp_induct) (auto intro: session_step.other rtranclp.rtrancl_into_rtrancl)
  then show ?thesis
    unfolding ex_login_def by (rule rtranclp.rtrancl_into_rtrancl) (rule session_step.login)
qed

lemma ex_refreshed_run: "(session_step ex_sha)\<^sup>*\<^sup>* empty_tenant ex_refreshed"
  unfolding ex_refreshed_def by (rule rtranclp.rtrancl_into_rtrancl [OF ex_login_run]) (rule session_step.refresh)

definition ex_token :: "int \<Rightarrow> string \<Rightarrow> int option \<Rightarrow> time \<Rightarrow> RefreshToken" where
  "ex_token i raw rep t = (refresh_row t i 1 1 (HashToken ex_sha (RawURLEncoding_Encode raw)) refreshTTL)\<lparr>rt_ReplacedBy := rep\<rparr>"

lemma session_history_run:
  assumes "(session_step sha256)\<^sup>*\<^sup>* empty_tenant s"
  shows "\<exists>past. session_history sha256 0 (s # past)"
  using assms by (induction rule: rtranclp_induct) (auto intro: session_history.intros)

definition ex_overlap :: tenant_db where
  "ex_overlap = snd (tn_run NoFault (rotate_from ex_login 12 (HashToken ex_sha (RawURLEncoding_Encode ''abc'')) ''n2'') ex_refreshed)"

theorem session_invariant_witness:
  "length (filter (\<lambda>t. rt_FamilyID t = 1 \<and> rt_ReplacedBy t = None \<and> rt_RevokedAt t = None) (tn_refresh ex_refreshed)) \<le> 1
   \<and> length (filter (\<lambda>t. rt_FamilyID t = 1 \<and> rt_ReplacedBy t = None \<and> rt_RevokedAt t = None) (tn_refresh ex_overlap)) = 2
   \<and> map rt_ExpiresAt (tn_refresh ex_overlap) = [refreshTTL, refreshTTL, refreshTTL]"
proof -
  obtain past where p: "session_history ex_sha 0 (ex_login # past)" using session_history_run [OF ex_login_run] by blast
  then have h: "session_history ex_sha 0 (ex_refreshed # ex_login # past)"
    unfolding ex_refreshed_def by (rule session_history.serial) (rule session_step.refresh)
  then have o: "session_history ex_sha (Suc 0) (ex_overlap # ex_refreshed # ex_login # past)"
    unfolding ex_overlap_def by (rule session_history.overlap) simp
  have two: "length (filter (\<lambda>t. rt_FamilyID t = 1 \<and> rt_ReplacedBy t = None \<and> rt_RevokedAt t = None) (tn_refresh ex_overlap)) = 2"
    "map rt_ExpiresAt (tn_refresh ex_overlap) = [refreshTTL, refreshTTL, refreshTTL]" by code_simp+
  show ?thesis using session_invariant [OF h] session_invariant [OF o] two by simp
qed

theorem refresh_reuse_kills_family_witness:
  "fst (Rotate ex_sha (ok_rotate ''ghi'') 20 (RawURLEncoding_Encode ''abc'') ex_refreshed) = Inl ErrReuseDetected
   \<and> dead 1 ex_reused
   \<and> fst (Rotate ex_sha (ok_rotate ''jkl'') 30 (RawURLEncoding_Encode ''def'') ex_reused) = Inl ErrRefreshInvalid"
proof -
  let ?rot = "\<lparr>ro_Raw = RawURLEncoding_Encode ''def'', ro_UserID = 1, ro_FamilyID = 1, ro_Expires = refreshTTL\<rparr>"
  have "fst (Rotate ex_sha (ok_rotate ''def'') 10 (RawURLEncoding_Encode ''abc'') ex_login) = Inr ?rot" by code_simp
  then have r: "Rotate ex_sha (ok_rotate ''def'') 10 (RawURLEncoding_Encode ''abc'') ex_login = (Inr ?rot, ex_refreshed)"
    by (simp add: ex_refreshed_def prod_eq_iff)
  have q: "Rotate ex_sha (ok_rotate ''ghi'') 20 (RawURLEncoding_Encode ''abc'') ex_refreshed
      = (fst (Rotate ex_sha (ok_rotate ''ghi'') 20 (RawURLEncoding_Encode ''abc'') ex_refreshed), ex_reused)"
    by (simp add: ex_reused_def)
  have "fst (Rotate ex_sha (ok_rotate ''jkl'') 30 (RawURLEncoding_Encode ''def'') ex_reused) = Inl ErrRefreshInvalid" by code_simp
  then show ?thesis
    using refresh_reuse_kills_family [OF ex_login_run r _ rtranclp.rtrancl_refl q rtranclp.rtrancl_refl prod.collapse [symmetric]]
    by simp
qed

text \<open>What a rotation does to tables that hold the token, whatever its first statement read.\<close>

definition mark_replaced :: "string \<Rightarrow> int \<Rightarrow> RefreshToken \<Rightarrow> RefreshToken" where
  "mark_replaced h i t = (if rt_TokenHash t = h then t\<lparr>rt_ReplacedBy := Some i\<rparr> else t)"

lemma mark_replaced_fields [simp]:
  "rt_TokenHash (mark_replaced h i t) = rt_TokenHash t" "rt_UserID (mark_replaced h i t) = rt_UserID t"
  "rt_ExpiresAt (mark_replaced h i t) = rt_ExpiresAt t"
  by (simp_all add: mark_replaced_def)

lemma rotate_from_Inr:
  assumes "find (\<lambda>t. rt_TokenHash t = h \<and> rt_usable t) (tn_refresh snap) = Some t"
    and "find (\<lambda>t. rt_TokenHash t = h) (tn_refresh s) = Some old"
    and "\<not> list_ex (\<lambda>t. rt_TokenHash t = n) (tn_refresh s)" and "list_ex (\<lambda>u. usr_ID u = rt_UserID t) (tn_users s)"
    and "n \<noteq> h"
  shows "\<exists>s'. rotate_from snap now h n s = (Inr (tn_next_refresh s), s') \<and> tn_users s' = tn_users s
     \<and> tn_next_refresh s' = tn_next_refresh s + 1
     \<and> tn_refresh s' = map (mark_replaced h (tn_next_refresh s)) (tn_refresh s)
          @ [refresh_row now (tn_next_refresh s) (rt_UserID t) (rt_FamilyID t) n (rt_ExpiresAt old)]"
  using assms by (simp add: rotate_from_def tx_bind_def insert_refresh_def Let_def upd_refresh_def mark_replaced_def [abs_def])

lemma find_hash:
  assumes "t \<in> set ts" and "distinct (map rt_TokenHash ts)" and "P t"
  shows "find (\<lambda>x. rt_TokenHash x = rt_TokenHash t \<and> P x) ts = Some t"
  using assms by (induction ts) (auto simp: image_iff)

text \<open>
  Two rotations of one token that overlap.  The first statement takes no lock and the update does not look at
  what it replaces, so both read the token as unused, both succeed and the family has two usable tokens from then
  on; one after the other, the second finds no row, which the service answers as a reuse.
\<close>

theorem rotation_race:
  assumes "t \<in> set (tn_refresh s)" and "rt_usable t" and "distinct (map rt_TokenHash (tn_refresh s))"
    and "list_ex (\<lambda>u. usr_ID u = rt_UserID t) (tn_users s)"
    and "n1 \<notin> rt_TokenHash ` set (tn_refresh s)" and "n2 \<notin> rt_TokenHash ` set (tn_refresh s)" and "n1 \<noteq> n2"
  shows "\<exists>i1 i2 s1 s2. rotate_from s now (rt_TokenHash t) n1 s = (Inr i1, s1)
     \<and> rotate_from s now (rt_TokenHash t) n2 s1 = (Inr i2, s2) \<and> i1 \<noteq> i2
     \<and> refresh_row now i1 (rt_UserID t) (rt_FamilyID t) n1 (rt_ExpiresAt t) \<in> set (tn_refresh s2)
     \<and> refresh_row now i2 (rt_UserID t) (rt_FamilyID t) n2 (rt_ExpiresAt t) \<in> set (tn_refresh s2)
     \<and> fst (rotate_from s1 now (rt_TokenHash t) n2 s1) = Inl ErrNoRows"
proof -
  let ?h = "rt_TokenHash t" and ?i = "tn_next_refresh s"
  let ?row = "\<lambda>i n. refresh_row now i (rt_UserID t) (rt_FamilyID t) n (rt_ExpiresAt t)"
  note at = find_hash [OF assms(1,3), of rt_usable, OF assms(2)]
  have ne: "n1 \<noteq> ?h" "n2 \<noteq> ?h" using assms(1,5,6) by auto
  obtain s1 where s1: "rotate_from s now ?h n1 s = (Inr ?i, s1)" "tn_users s1 = tn_users s" "tn_next_refresh s1 = ?i + 1"
      "tn_refresh s1 = map (mark_replaced ?h ?i) (tn_refresh s) @ [?row ?i n1]"
    using rotate_from_Inr [OF at, of s t n1 now] find_hash [OF assms(1,3), of "\<lambda>_. True"] assms(4,5) ne
    by (auto simp: list_ex_iff image_iff)
  have "find (\<lambda>x. rt_TokenHash x = rt_TokenHash (mark_replaced ?h ?i t) \<and> True) (tn_refresh s1) = Some (mark_replaced ?h ?i t)"
    using assms(1,3,5) by (intro find_hash) (auto simp: s1(4) comp_def)
  moreover have "\<not> list_ex (\<lambda>x. rt_TokenHash x = n2) (tn_refresh s1)"
    using assms(6,7) by (auto simp: s1(4) list_ex_iff image_iff)
  ultimately obtain s2 where s2: "rotate_from s now ?h n2 s1 = (Inr (?i + 1), s2)"
      "tn_refresh s2 = map (mark_replaced ?h (?i + 1)) (tn_refresh s1) @ [?row (?i + 1) n2]"
    using rotate_from_Inr [OF at, of s1 "mark_replaced ?h ?i t" n2 now] assms(4) ne s1(2,3) by auto
  have "?row ?i n1 \<in> set (tn_refresh s2)"
    using ne(1) by (auto simp: s2(2) s1(4) mark_replaced_def)
  moreover have "fst (rotate_from s1 now ?h n2 s1) = Inl ErrNoRows"
  proof -
    have "find (\<lambda>x. rt_TokenHash x = ?h \<and> rt_usable x) (tn_refresh s1) = None"
      using ne(1) by (auto simp: find_None_iff s1(4) mark_replaced_def rt_usable_def)
    then show ?thesis by (simp add: rotate_from_def)
  qed
  ultimately show ?thesis using s1(1) s2 by auto
qed

theorem rotation_race_witness:
  "\<exists>i1 i2 s1 s2. rotate_from ex_login 5 (rt_TokenHash (ex_token 1 ''abc'' None 0)) ''n1'' ex_login = (Inr i1, s1)
     \<and> rotate_from ex_login 5 (rt_TokenHash (ex_token 1 ''abc'' None 0)) ''n2'' s1 = (Inr i2, s2) \<and> i1 \<noteq> i2"
proof -
  have ts: "tn_refresh ex_login = [ex_token 1 ''abc'' None 0]" by code_simp
  have "rt_usable (ex_token 1 ''abc'' None 0)" "list_ex (\<lambda>u. usr_ID u = rt_UserID (ex_token 1 ''abc'' None 0)) (tn_users ex_login)"
    "rt_TokenHash (ex_token 1 ''abc'' None 0) \<noteq> ''n1''" "rt_TokenHash (ex_token 1 ''abc'' None 0) \<noteq> ''n2''" by code_simp+
  then show ?thesis
    using rotation_race [of "ex_token 1 ''abc'' None 0" ex_login "''n1''" "''n2''" 5] ts by auto
qed

text \<open>A rotation does not extend a session: the new token ends when the presented one would have.\<close>

lemma rotation_keeps_expiry:
  assumes "wf_sessions n s" and "Rotate sha256 env now raw s = (Inr rot, s')"
  shows "\<exists>t \<in> set (tn_refresh s). rt_TokenHash t = HashToken sha256 raw \<and> ro_Expires rot = rt_ExpiresAt t"
  using Rotate_Inr [OF assms(2,1)] by blast

end
