(* ===== verification/Pulse_Cache.thy ===== *)
theory Pulse_Cache
  imports Pulse_KV
begin

text \<open>
  The contract of the caches that the api server keeps in Redis in front of its tables: a lookup takes a
  live entry or the value the table read gave it, and stores the latter with a time to live; a change of the
  table drops the entry.  The locale states what a lookup and a drop do to the store and proves, for any history
  of the table and any interleaving of lookups and drops with lost commands, how old an answer can be.

  A lookup reads the table at \<open>read\<close> and writes the cache at \<open>now\<close>; \<open>d\<close> bounds the time between.
\<close>

datatype ('k, 'f, 'g) cache_event =
    Lookup 'f time time 'k
  | Drop 'g 'k
  | Foreign string "(kv_value \<times> time option) option"

fun cache_step :: "('f \<Rightarrow> time \<Rightarrow> 'k \<Rightarrow> 'v \<Rightarrow> kv \<Rightarrow> 'v option \<times> kv) \<Rightarrow> ('g \<Rightarrow> 'k \<Rightarrow> kv \<Rightarrow> kv)
    \<Rightarrow> (time \<Rightarrow> 'k \<Rightarrow> 'v) \<Rightarrow> ('k, 'f, 'g) cache_event \<Rightarrow> kv \<Rightarrow> kv" where
  "cache_step look forget truth (Lookup f r now k) s = snd (look f now k (truth r k) s)"
| "cache_step look forget truth (Drop g k) s = forget g k s"
| "cache_step look forget truth (Foreign key v) s = s(key := v)"

definition cache_run :: "('f \<Rightarrow> time \<Rightarrow> 'k \<Rightarrow> 'v \<Rightarrow> kv \<Rightarrow> 'v option \<times> kv) \<Rightarrow> ('g \<Rightarrow> 'k \<Rightarrow> kv \<Rightarrow> kv)
    \<Rightarrow> (time \<Rightarrow> 'k \<Rightarrow> 'v) \<Rightarrow> ('k, 'f, 'g) cache_event list \<Rightarrow> kv \<Rightarrow> kv" where
  "cache_run look forget truth evs s = fold (cache_step look forget truth) evs s"

text \<open>Events between \<open>lo\<close> and \<open>hi\<close>; the rest of the program does not write the cache's keys.\<close>

fun cache_fits :: "('k \<Rightarrow> string) \<Rightarrow> time \<Rightarrow> time \<Rightarrow> duration \<Rightarrow> ('k, 'f, 'g) cache_event \<Rightarrow> bool" where
  "cache_fits key_of lo hi d (Lookup f r now k) \<longleftrightarrow> lo \<le> r \<and> r \<le> now \<and> now \<le> r + d \<and> now \<le> hi"
| "cache_fits key_of lo hi d (Drop g k) \<longleftrightarrow> True"
| "cache_fits key_of lo hi d (Foreign key v) \<longleftrightarrow> key \<notin> range key_of"

locale read_through =
  fixes ttl :: duration
    and key_of :: "'k \<Rightarrow> string"
    and dec :: "string \<Rightarrow> 'v option"
    and valid :: "'v \<Rightarrow> bool"
    and look :: "'f \<Rightarrow> time \<Rightarrow> 'k \<Rightarrow> 'v \<Rightarrow> kv \<Rightarrow> 'v option \<times> kv"
    and forget :: "'g \<Rightarrow> 'k \<Rightarrow> kv \<Rightarrow> kv"
  assumes ttl_pos: "0 < ttl"
    and key_inj: "key_of k = key_of k' \<Longrightarrow> k = k'"
    and look_result: "look f now k x s = (Some v, s') \<Longrightarrow>
          v = x \<or> (\<exists>w eo. s (key_of k) = Some (KvString w, eo) \<and> (\<forall>e. eo = Some e \<longrightarrow> now < e) \<and> dec w = Some v)"
    and look_effect: "valid x \<Longrightarrow> look f now k x s = (r, s') \<Longrightarrow>
          s' = s \<or> (\<exists>w e. s' = s(key_of k \<mapsto> (KvString w, Some e)) \<and> e \<le> now + ttl \<and> dec w = Some x)"
    and forget_effect: "forget g k s = s \<or> forget g k s = s(key_of k := None)"
begin

text \<open>Every entry for a key was true at an instant not before \<open>lo\<close> and expires in time.\<close>

definition backed :: "(time \<Rightarrow> 'k \<Rightarrow> 'v) \<Rightarrow> time \<Rightarrow> time \<Rightarrow> duration \<Rightarrow> 'k \<Rightarrow> kv \<Rightarrow> bool" where
  "backed truth lo hi d k s \<longleftrightarrow>
     (\<forall>w eo v. s (key_of k) = Some (KvString w, eo) \<longrightarrow> dec w = Some v \<longrightarrow>
        (\<exists>t e. eo = Some e \<and> lo \<le> t \<and> t \<le> hi \<and> truth t k = v \<and> e \<le> t + d + ttl))"

lemma backed_absent: "s (key_of k) = None \<Longrightarrow> backed truth lo hi d k s"
  by (simp add: backed_def)

lemma backed_other: "s' (key_of k) = s (key_of k) \<Longrightarrow> backed truth lo hi d k s \<Longrightarrow> backed truth lo hi d k s'"
  by (simp add: backed_def)

lemma backed_step:
  assumes "backed truth lo hi d k s" and "cache_fits key_of lo hi d ev" and "\<And>t k. valid (truth t k)"
  shows "backed truth lo hi d k (cache_step look forget truth ev s)"
proof (cases ev)
  case (Lookup f r now k')
  obtain v s' where l: "look f now k' (truth r k') s = (v, s')" by fastforce
  from look_effect [OF assms(3) l] consider "s' = s"
    | w e where "s' = s(key_of k' \<mapsto> (KvString w, Some e))" "e \<le> now + ttl" "dec w = Some (truth r k')" by blast
  then have "backed truth lo hi d k s'"
  proof cases
    case 2
    show ?thesis
    proof (cases "k' = k")
      case True
      then show ?thesis using 2 assms(2) Lookup unfolding backed_def by (fastforce intro: exI [of _ r])
    next
      case False
      then have "s' (key_of k) = s (key_of k)" using 2(1) key_inj by auto
      then show ?thesis using assms(1) backed_other by blast
    qed
  qed (simp add: assms(1))
  then show ?thesis using Lookup l by simp
next
  case (Drop g k')
  then show ?thesis
    using forget_effect [of g k' s] assms(1) by (auto simp: backed_def split: if_splits)
next
  case (Foreign key v)
  then show ?thesis using assms(1,2) by (auto simp: backed_def)
qed

lemma backed_run:
  assumes "\<And>t k. valid (truth t k)"
  shows "backed truth lo hi d k s \<Longrightarrow> list_all (cache_fits key_of lo hi d) evs
    \<Longrightarrow> backed truth lo hi d k (cache_run look forget truth evs s)"
  unfolding cache_run_def
  by (induction evs arbitrary: s) (simp_all add: backed_step assms)

text \<open>
  An answer was true within the time to live, and not before the entry was last seen absent: from the start
  for an empty cache, from the drop on after one.
\<close>

lemma answer_was_true:
  assumes "\<And>t k. valid (truth t k)" and "s (key_of k) = None" and "list_all (cache_fits key_of lo now d) evs"
    and "look f now k (truth r k) (cache_run look forget truth evs s) = (Some v, s')"
    and "lo \<le> r" and "r \<le> now" and "now \<le> r + d"
  shows "\<exists>t. lo \<le> t \<and> t \<le> now \<and> now < t + d + ttl \<and> truth t k = v"
proof -
  have b: "backed truth lo now d k (cache_run look forget truth evs s)"
    by (rule backed_run) (simp_all add: assms(1-3) backed_absent)
  from look_result [OF assms(4)] consider "v = truth r k"
    | w eo where "cache_run look forget truth evs s (key_of k) = Some (KvString w, eo)" "\<forall>e. eo = Some e \<longrightarrow> now < e" "dec w = Some v"
    by blast
  then show ?thesis
  proof cases
    case 1
    then show ?thesis using assms(5-7) ttl_pos by (intro exI [of _ r]) simp
  next
    case 2
    then obtain t e where "eo = Some e" "lo \<le> t" "t \<le> now" "truth t k = v" "e \<le> t + d + ttl"
      using b unfolding backed_def by blast
    then show ?thesis using 2(2) by (intro exI [of _ t]) auto
  qed
qed

end

lemma GetCache_same: "snd (GetCache f now k s) = s"
  by (cases f) (auto simp: kv_defs split: option.split kv_value.split)

lemma GetCache_hit:
  "fst (GetCache f now k s) = Inr (Some w) \<Longrightarrow> \<exists>eo. s k = Some (KvString w, eo) \<and> (\<forall>e. eo = Some e \<longrightarrow> now < e)"
  by (cases f) (auto simp: kv_defs kv_live_def split: option.splits kv_value.splits prod.splits if_splits)

end
