(* ===== verification/Pulse_Apikeys.thy ===== *)
theory Pulse_Apikeys
  imports Pulse_Tenancy Pulse_Cache Pulse_Principal
begin

text \<open>
  API keys: the table (\<open>internal/store/apikeys.go\<close>) and the verifier with its Redis cache
  (\<open>internal/authn/apikey.go\<close>).  The hash and the JSON form of the cached descriptor are arguments.
  A verifier without a cache behaves as one whose commands are all lost.
\<close>

section \<open>The table\<close>

definition key_row :: "time \<Rightarrow> int \<Rightarrow> APIKey \<Rightarrow> APIKey" where
  "key_row now i k = k\<lparr>ak_ID := i, ak_CreatedAt := now, ak_LastUsedAt := None, ak_RevokedAt := None\<rparr>"

definition store_CreateAPIKey :: "fault \<Rightarrow> time \<Rightarrow> APIKey \<Rightarrow> int ttx" where
  "store_CreateAPIKey f now k = tn_run f (\<lambda>s.
     let newID = tn_next_key s; s1 = s\<lparr>tn_next_key := newID + 1\<rparr>
     in if ak_Role k \<noteq> RoleMember \<and> ak_Role k \<noteq> RoleAdmin then (Inl ErrCheck, s1)
        else if list_ex (\<lambda>r. ak_TokenHash r = ak_TokenHash k) (tn_keys s) then (Inl ErrUnique, s1)
        else if \<not> list_ex (\<lambda>org. org_ID org = ak_OrgID k) (tn_orgs s)
              \<or> (case ak_CreatedBy k of None \<Rightarrow> False | Some u \<Rightarrow> \<not> list_ex (\<lambda>r. usr_ID r = u) (tn_users s))
        then (Inl ErrForeignKey, s1)
        else (Inr newID, s1\<lparr>tn_keys := tn_keys s @ [key_row now newID k]\<rparr>))"

definition GetAPIKeyByHash :: "fault \<Rightarrow> string \<Rightarrow> tenant_db \<Rightarrow> db_error + APIKey" where
  "GetAPIKeyByHash f h s = tn_read f (row_or_none (find (\<lambda>k. ak_TokenHash k = h) (tn_keys s)))"

definition GetAPIKey :: "fault \<Rightarrow> int \<Rightarrow> int \<Rightarrow> tenant_db \<Rightarrow> db_error + APIKey" where
  "GetAPIKey f orgID keyID s = tn_read f (row_or_none (find (\<lambda>k. ak_ID k = keyID \<and> ak_OrgID k = orgID) (tn_keys s)))"

definition store_ListAPIKeys :: "fault \<Rightarrow> int \<Rightarrow> tenant_db \<Rightarrow> db_error + APIKey list" where
  "store_ListAPIKeys f orgID s =
     tn_read f (Inr (rev (sort_key ak_ID (filter (\<lambda>k. ak_OrgID k = orgID) (tn_keys s)))))"

definition revoke_key :: "time \<Rightarrow> int \<Rightarrow> int \<Rightarrow> APIKey \<Rightarrow> APIKey" where
  "revoke_key now orgID keyID k =
     (if ak_ID k = keyID \<and> ak_OrgID k = orgID \<and> ak_RevokedAt k = None then k\<lparr>ak_RevokedAt := Some now\<rparr> else k)"

definition store_RevokeAPIKey :: "fault \<Rightarrow> time \<Rightarrow> int \<Rightarrow> int \<Rightarrow> int ttx" where
  "store_RevokeAPIKey f now orgID keyID = tn_run f (\<lambda>s.
     (Inr (int (length (filter (\<lambda>k. ak_ID k = keyID \<and> ak_OrgID k = orgID \<and> ak_RevokedAt k = None) (tn_keys s)))),
      s\<lparr>tn_keys := map (revoke_key now orgID keyID) (tn_keys s)\<rparr>))"

section \<open>The verifier\<close>

definition APIKeyPrefix :: string where "APIKeyPrefix = ''pulse_sk_''"

definition apiKeyCacheTTL :: duration where "apiKeyCacheTTL = 5 * Minute"

definition apiKeyNegTTL :: duration where "apiKeyNegTTL = 30 * Second"

record KeyPrincipal =
  kp_KeyID :: int
  kp_OrgID :: int
  kp_Role :: Role

record cachedDescriptor =
  cd_KeyID :: int
  cd_OrgID :: int
  cd_Role :: Role
  cd_Revoked :: bool

datatype key_error = ErrAPIKeyInvalid | KeyStore db_error

definition key_cacheKey :: "string \<Rightarrow> string" where "key_cacheKey h = ''apikey:'' @ h"

definition cacheDescriptor :: "(cachedDescriptor \<Rightarrow> string) \<Rightarrow> kv_fault \<Rightarrow> time \<Rightarrow> string \<Rightarrow> cachedDescriptor \<Rightarrow> duration \<Rightarrow> kv \<Rightarrow> kv" where
  "cacheDescriptor marshal f now ck d ttl s = snd (SetCache f now ck (marshal d) ttl s)"

definition no_key :: cachedDescriptor where
  "no_key = \<lparr>cd_KeyID = 0, cd_OrgID = 0, cd_Role = noRole, cd_Revoked = True\<rparr>"

definition descriptor_of :: "APIKey \<Rightarrow> cachedDescriptor" where
  "descriptor_of k = \<lparr>cd_KeyID = ak_ID k, cd_OrgID = ak_OrgID k, cd_Role = ak_Role k, cd_Revoked = False\<rparr>"

definition principal_of :: "cachedDescriptor \<Rightarrow> KeyPrincipal" where
  "principal_of d = \<lparr>kp_KeyID = cd_KeyID d, kp_OrgID = cd_OrgID d, kp_Role = cd_Role d\<rparr>"

record key_codec =
  kc_sha256 :: "string \<Rightarrow> string"
  kc_marshal :: "cachedDescriptor \<Rightarrow> string"
  kc_unmarshal :: "string \<Rightarrow> cachedDescriptor option"

text \<open>The lookup of a hash; \<open>row\<close> is what the table read gives.\<close>

definition verify_hash :: "key_codec \<Rightarrow> kv_fault \<times> kv_fault \<Rightarrow> time \<Rightarrow> string \<Rightarrow> db_error + APIKey \<Rightarrow> kv
    \<Rightarrow> (key_error + KeyPrincipal) \<times> kv" where
  "verify_hash c f now h row s =
     (case GetCache (fst f) now (key_cacheKey h) s of
        (r, s1) \<Rightarrow>
          (case (case r of Inr (Some raw) \<Rightarrow> kc_unmarshal c raw | _ \<Rightarrow> None) of
             Some d \<Rightarrow> (if cd_Revoked d then Inl ErrAPIKeyInvalid else Inr (principal_of d), s1)
           | None \<Rightarrow>
               (case row of
                  Inl e \<Rightarrow>
                    if e = ErrNoRows
                    then (Inl ErrAPIKeyInvalid, cacheDescriptor (kc_marshal c) (snd f) now (key_cacheKey h) no_key apiKeyNegTTL s1)
                    else (Inl (KeyStore e), s1)
                | Inr key \<Rightarrow>
                    if ak_RevokedAt key \<noteq> None
                    then (Inl ErrAPIKeyInvalid, cacheDescriptor (kc_marshal c) (snd f) now (key_cacheKey h) no_key apiKeyNegTTL s1)
                    else (Inr (principal_of (descriptor_of key)),
                          cacheDescriptor (kc_marshal c) (snd f) now (key_cacheKey h) (descriptor_of key) apiKeyCacheTTL s1))))"

definition key_Verify :: "key_codec \<Rightarrow> kv_fault \<times> kv_fault \<Rightarrow> fault \<Rightarrow> time \<Rightarrow> string \<Rightarrow> tenant_db \<Rightarrow> kv
    \<Rightarrow> (key_error + KeyPrincipal) \<times> kv" where
  "key_Verify c f fdb now presented db s =
     (if \<not> HasPrefix presented APIKeyPrefix \<or> length presented \<le> length APIKeyPrefix then (Inl ErrAPIKeyInvalid, s)
      else let h = HashToken (kc_sha256 c) presented in verify_hash c f now h (GetAPIKeyByHash fdb h db) s)"

definition InvalidateAPIKey :: "kv_fault \<Rightarrow> string \<Rightarrow> kv \<Rightarrow> kv" where
  "InvalidateAPIKey f h s = snd (DelCache f (key_cacheKey h) s)"

section \<open>The invariant of the table\<close>

definition wf_keys :: "tenant_db \<Rightarrow> bool" where
  "wf_keys s \<longleftrightarrow> wf_ids (map ak_ID (tn_keys s)) (tn_next_key s) \<and> distinct (map ak_TokenHash (tn_keys s))
     \<and> list_all (\<lambda>k. (ak_Role k = RoleMember \<or> ak_Role k = RoleAdmin)) (tn_keys s)"

lemma revoke_key_fields [simp]:
  "ak_ID (revoke_key now o' i k) = ak_ID k" "ak_TokenHash (revoke_key now o' i k) = ak_TokenHash k"
  "ak_Role (revoke_key now o' i k) = ak_Role k" "ak_OrgID (revoke_key now o' i k) = ak_OrgID k"
  by (simp_all add: revoke_key_def)

lemma key_row_fields [simp]:
  "ak_ID (key_row now i k) = i" "ak_TokenHash (key_row now i k) = ak_TokenHash k"
  "ak_Role (key_row now i k) = ak_Role k" "ak_OrgID (key_row now i k) = ak_OrgID k" "ak_RevokedAt (key_row now i k) = None"
  by (simp_all add: key_row_def)

text \<open>No key has the rights of an owner, whatever is asked for.\<close>

lemma CreateAPIKey_wf:
  assumes "wf_keys s"
  shows "wf_keys (snd (store_CreateAPIKey f now k s))"
proof -
  have grow: "wf_ids xs n \<Longrightarrow> wf_ids xs (n + 1)" for xs n using wf_ids_mono [of xs n "n + 1"] by simp
  show ?thesis
    using assms
    by (auto simp: store_CreateAPIKey_def tn_run_def Let_def wf_keys_def tn_rolled_back_def grow list_ex_iff)
       (auto simp: wf_ids_def list_all_iff)
qed

lemma RevokeAPIKey_wf: "wf_keys s \<Longrightarrow> wf_keys (snd (store_RevokeAPIKey f now orgID keyID s))"
  by (simp add: store_RevokeAPIKey_def tn_run_def wf_keys_def comp_def list_all_iff)

section \<open>How old an answer of the verifier can be\<close>

text \<open>What the table says of a hash.\<close>

definition live_key :: "tenant_db \<Rightarrow> string \<Rightarrow> KeyPrincipal option" where
  "live_key db h =
     (case find (\<lambda>k. ak_TokenHash k = h) (tn_keys db) of
        None \<Rightarrow> None
      | Some k \<Rightarrow> if ak_RevokedAt k \<noteq> None then None else Some (principal_of (descriptor_of k)))"

definition key_answer :: "key_error + KeyPrincipal \<Rightarrow> KeyPrincipal option option" where
  "key_answer r = (case r of Inr p \<Rightarrow> Some (Some p) | Inl ErrAPIKeyInvalid \<Rightarrow> Some None | Inl (KeyStore e) \<Rightarrow> None)"

text \<open>The lookup when the table read gives the live key \<open>x\<close>, or fails with the given fault.\<close>

definition key_read :: "fault \<Rightarrow> KeyPrincipal option \<Rightarrow> db_error + APIKey" where
  "key_read fdb x =
     tn_read fdb (case x of
       None \<Rightarrow> Inl ErrNoRows
     | Some p \<Rightarrow> Inr \<lparr>ak_ID = kp_KeyID p, ak_OrgID = kp_OrgID p, ak_Name = '''', ak_Prefix = '''', ak_TokenHash = '''',
                      ak_Role = kp_Role p, ak_CreatedBy = None, ak_CreatedAt = 0, ak_LastUsedAt = None, ak_RevokedAt = None\<rparr>)"

definition key_look :: "key_codec \<Rightarrow> kv_fault \<times> kv_fault \<times> fault \<Rightarrow> time \<Rightarrow> string \<Rightarrow> KeyPrincipal option \<Rightarrow> kv
    \<Rightarrow> KeyPrincipal option option \<times> kv" where
  "key_look c f now h x s =
     (case verify_hash c (fst f, fst (snd f)) now h (key_read (snd (snd f)) x) s of (r, s') \<Rightarrow> (key_answer r, s'))"

text \<open>The verifier on the tables is this lookup.\<close>

lemma verify_hash_live:
  "ak_RevokedAt k = None \<Longrightarrow> ak_RevokedAt k' = None \<Longrightarrow> descriptor_of k = descriptor_of k'
     \<Longrightarrow> verify_hash c f now h (Inr k) s = verify_hash c f now h (Inr k') s"
  by (simp add: verify_hash_def split: prod.split option.split)

lemma verify_hash_revoked: "ak_RevokedAt k = Some t \<Longrightarrow> verify_hash c f now h (Inr k) s = verify_hash c f now h (Inl ErrNoRows) s"
  by (simp add: verify_hash_def split: prod.split option.split)

lemma verify_hash_look:
  "(case verify_hash c (f1, f2) now h (GetAPIKeyByHash fdb h db) s of (r, s') \<Rightarrow> (key_answer r, s'))
     = key_look c (f1, f2, fdb) now h (live_key db h) s"
proof (cases "fdb = NoFault \<and> find (\<lambda>k. ak_TokenHash k = h) (tn_keys db) \<noteq> None")
  case False
  then show ?thesis
    by (auto simp: key_look_def key_read_def live_key_def GetAPIKeyByHash_def row_or_none_def tn_read_def)
next
  case True
  then obtain k where k: "find (\<lambda>k. ak_TokenHash k = h) (tn_keys db) = Some k" "fdb = NoFault" by auto
  show ?thesis
  proof (cases "ak_RevokedAt k")
    case None
    let ?k = "\<lparr>ak_ID = ak_ID k, ak_OrgID = ak_OrgID k, ak_Name = '''', ak_Prefix = '''', ak_TokenHash = '''',
      ak_Role = ak_Role k, ak_CreatedBy = None, ak_CreatedAt = 0, ak_LastUsedAt = None, ak_RevokedAt = None\<rparr>"
    have "verify_hash c (f1, f2) now h (Inr k) s = verify_hash c (f1, f2) now h (Inr ?k) s"
      using None by (intro verify_hash_live) (simp_all add: descriptor_of_def)
    then show ?thesis
      using k None by (simp add: key_look_def key_read_def live_key_def GetAPIKeyByHash_def row_or_none_def tn_read_def
          descriptor_of_def principal_of_def)
  next
    case (Some t)
    then show ?thesis
      using k by (simp add: key_look_def key_read_def live_key_def GetAPIKeyByHash_def row_or_none_def tn_read_def
          verify_hash_revoked)
  qed
qed

definition key_dec :: "key_codec \<Rightarrow> string \<Rightarrow> KeyPrincipal option option" where
  "key_dec c w = (case kc_unmarshal c w of None \<Rightarrow> None | Some d \<Rightarrow> Some (if cd_Revoked d then None else Some (principal_of d)))"

lemma cacheDescriptor_effect:
  "cacheDescriptor m f now ck d ttl s = s \<or> cacheDescriptor m f now ck d ttl s = s(ck \<mapsto> (KvString (m d), kv_expiry now ttl))"
  by (cases f) (simp_all add: cacheDescriptor_def kv_defs)

text \<open>The descriptor that is cached for an answer, and that it is read back as it was written.\<close>

definition descriptor_for :: "KeyPrincipal option \<Rightarrow> cachedDescriptor" where
  "descriptor_for x =
     (case x of None \<Rightarrow> no_key | Some p \<Rightarrow> \<lparr>cd_KeyID = kp_KeyID p, cd_OrgID = kp_OrgID p, cd_Role = kp_Role p, cd_Revoked = False\<rparr>)"

definition reads_back :: "key_codec \<Rightarrow> KeyPrincipal option \<Rightarrow> bool" where
  "reads_back c x \<longleftrightarrow> kc_unmarshal c (kc_marshal c (descriptor_for x)) = Some (descriptor_for x)"

interpretation key_cache: read_through apiKeyCacheTTL key_cacheKey "key_dec c" "reads_back c" "key_look c" InvalidateAPIKey for c
proof unfold_locales
  show "0 < apiKeyCacheTTL" by (simp add: apiKeyCacheTTL_def duration_defs)
  show "k = k'" if "key_cacheKey k = key_cacheKey k'" for k k' using that by (simp add: key_cacheKey_def)
  show "InvalidateAPIKey g k s = s \<or> InvalidateAPIKey g k s = s(key_cacheKey k := None)" for g k s
    by (cases g) (simp_all add: InvalidateAPIKey_def kv_defs)
next
  fix f now k x s v s'
  assume l: "key_look c f now k x s = (Some v, s')"
  obtain f1 f2 f3 where f: "f = (f1, f2, f3)" by (metis prod_cases3)
  obtain r where g: "GetCache f1 now (key_cacheKey k) s = (r, s)" using GetCache_same by (metis prod.collapse)
  show "v = x \<or> (\<exists>w eo. s (key_cacheKey k) = Some (KvString w, eo) \<and> (\<forall>e. eo = Some e \<longrightarrow> now < e) \<and> key_dec c w = Some v)"
  proof (cases "\<exists>w d. r = Inr (Some w) \<and> kc_unmarshal c w = Some d")
    case True
    then obtain w d where w: "r = Inr (Some w)" "kc_unmarshal c w = Some d" by blast
    then have "key_dec c w = Some v" using l g by (auto simp: f key_look_def verify_hash_def key_answer_def key_dec_def)
    moreover have "\<exists>eo. s (key_cacheKey k) = Some (KvString w, eo) \<and> (\<forall>e. eo = Some e \<longrightarrow> now < e)"
      using GetCache_hit [of f1 now "key_cacheKey k" s w] g w by simp
    ultimately show ?thesis by blast
  next
    case False
    then have "(case r of Inr (Some raw) \<Rightarrow> kc_unmarshal c raw | _ \<Rightarrow> None) = None"
      by (auto split: sum.splits option.splits)
    then have "v = x"
      using l g by (auto simp: f key_look_def verify_hash_def key_answer_def key_read_def tn_read_def principal_of_def descriptor_of_def
          split: if_splits option.splits)
    then show ?thesis by simp
  qed
next
  fix x f now k s r s'
  assume b: "reads_back c x" and l: "key_look c f now k x s = (r, s')"
  obtain f1 f2 f3 where f: "f = (f1, f2, f3)" by (metis prod_cases3)
  obtain q where g: "GetCache f1 now (key_cacheKey k) s = (q, s)" using GetCache_same by (metis prod.collapse)
  let ?w = "\<lambda>d ttl. cacheDescriptor (kc_marshal c) f2 now (key_cacheKey k) d ttl s"
  let ?d = "descriptor_for x"
  let ?t = "case x of None \<Rightarrow> apiKeyNegTTL | Some p \<Rightarrow> apiKeyCacheTTL"
  have "s' = s \<or> s' = ?w ?d ?t"
    using l g by (auto simp: f key_look_def verify_hash_def key_read_def tn_read_def descriptor_of_def descriptor_for_def split: option.splits if_splits)
  moreover have "?w ?d ?t = s \<or> ?w ?d ?t = s(key_cacheKey k \<mapsto> (KvString (kc_marshal c ?d), Some (now + ?t)))"
    using cacheDescriptor_effect [of "kc_marshal c" f2 now "key_cacheKey k" ?d ?t s]
    by (simp add: kv_expiry_def apiKeyNegTTL_def apiKeyCacheTTL_def duration_defs split: option.splits)
  moreover have "now + ?t \<le> now + apiKeyCacheTTL"
    by (simp add: apiKeyNegTTL_def apiKeyCacheTTL_def duration_defs split: option.splits)
  moreover have "key_dec c (kc_marshal c ?d) = Some x"
    using b by (cases x) (simp_all add: reads_back_def key_dec_def descriptor_for_def no_key_def principal_of_def)
  ultimately show "s' = s \<or> (\<exists>w e. s' = s(key_cacheKey k \<mapsto> (KvString w, Some e)) \<and> e \<le> now + apiKeyCacheTTL \<and> key_dec c w = Some x)"
    by blast
qed

text \<open>
  C19. A key that is let through was live within the last five minutes (and the duration \<open>d\<close> of a request),
  with the org and the role the answer gives, whatever commands were lost; and not before \<open>lo\<close>, when its
  entry was last absent: after a revocation whose invalidation arrived the key is refused at once, after one
  whose invalidation was lost for at most five minutes.
\<close>

theorem api_key_answer_recent:
  assumes "\<And>t h. reads_back c (live_key (db t) h)"
    and "kv0 (key_cacheKey h) = None" and "h = HashToken (kc_sha256 c) presented"
    and "list_all (cache_fits key_cacheKey lo now d) evs"
    and "key_Verify c (f1, f2) fdb now presented (db r) (cache_run (key_look c) InvalidateAPIKey (\<lambda>t. live_key (db t)) evs kv0) = (Inr p, kv')"
    and "lo \<le> r" and "r \<le> now" and "now \<le> r + d"
  shows "\<exists>t. lo \<le> t \<and> t \<le> now \<and> now < t + d + 5 * Minute \<and> live_key (db t) h = Some p"
proof -
  let ?s = "cache_run (key_look c) InvalidateAPIKey (\<lambda>t. live_key (db t)) evs kv0"
  have "verify_hash c (f1, f2) now h (GetAPIKeyByHash fdb h (db r)) ?s = (Inr p, kv')"
    using assms(3,5) by (auto simp: key_Verify_def Let_def split: if_splits)
  then have "key_look c (f1, f2, fdb) now h (live_key (db r) h) ?s = (Some (Some p), kv')"
    using verify_hash_look [of c f1 f2 now h fdb "db r" ?s] by (simp add: key_answer_def)
  from key_cache.answer_was_true [of c "\<lambda>t. live_key (db t)", OF assms(1,2,4) this assms(6-8)]
  show ?thesis by (simp add: apiKeyCacheTTL_def)
qed

text \<open>A key that is revoked after ten seconds while its invalidation is lost, and is let through from the cache.\<close>

definition ex_secret :: string where "ex_secret = ''pulse_sk_abcdef''"

definition ex_key :: APIKey where
  "ex_key = \<lparr>ak_ID = 0, ak_OrgID = 1, ak_Name = ''ci'', ak_Prefix = ''pulse_sk_abc'', ak_TokenHash = HashToken id ex_secret,
     ak_Role = RoleAdmin, ak_CreatedBy = Some 1, ak_CreatedAt = 0, ak_LastUsedAt = None, ak_RevokedAt = None\<rparr>"

definition ex_keyed :: tenant_db where
  "ex_keyed = snd (store_CreateAPIKey NoFault 0 ex_key ex_tenant)"

definition ex_revoked :: tenant_db where
  "ex_revoked = snd (store_RevokeAPIKey NoFault (10 * Second) 1 1 ex_keyed)"

definition ex_key_db :: "time \<Rightarrow> tenant_db" where
  "ex_key_db t = (if t < 10 * Second then ex_keyed else ex_revoked)"

definition ex_key_codec :: key_codec where
  "ex_key_codec = \<lparr>kc_sha256 = id, kc_marshal = (\<lambda>d. if cd_Revoked d then ''none'' else ''key''),
     kc_unmarshal = (\<lambda>w. Some (if w = ''none'' then no_key else descriptor_of (key_row 0 1 ex_key)))\<rparr>"

lemma live_key_cases:
  assumes "tn_keys db = [k]"
  shows "live_key db h = (if ak_TokenHash k = h \<and> ak_RevokedAt k = None then Some (principal_of (descriptor_of k)) else None)"
  using assms by (simp add: live_key_def)

theorem api_key_answer_recent_witness:
  "\<exists>t. 0 \<le> t \<and> t \<le> 100 * Second \<and> 100 * Second < t + 0 + 5 * Minute
     \<and> live_key (ex_key_db t) (HashToken id ex_secret) = Some \<lparr>kp_KeyID = 1, kp_OrgID = 1, kp_Role = RoleAdmin\<rparr>"
proof -
  let ?evs = "[Lookup (KvOk, KvOk, NoFault) 0 0 (HashToken id ex_secret), Drop KvLost (HashToken id ex_secret)]"
  let ?kv = "cache_run (key_look ex_key_codec) InvalidateAPIKey (\<lambda>t. live_key (ex_key_db t)) ?evs Map.empty"
  let ?p = "\<lparr>kp_KeyID = 1, kp_OrgID = 1, kp_Role = RoleAdmin\<rparr>"
  have keys: "tn_keys ex_keyed = [key_row 0 1 ex_key]" "tn_keys ex_revoked = [revoke_key (10 * Second) 1 1 (key_row 0 1 ex_key)]"
    by code_simp+
  have b: "reads_back ex_key_codec None" "reads_back ex_key_codec (Some (principal_of (descriptor_of (key_row 0 1 ex_key))))" by code_simp+
  have r: "ak_RevokedAt (revoke_key (10 * Second) 1 1 (key_row 0 1 ex_key)) \<noteq> None" by code_simp
  have rb: "reads_back ex_key_codec (live_key (ex_key_db t) h)" for t h
    using b r by (auto simp: ex_key_db_def live_key_cases [OF keys(1)] live_key_cases [OF keys(2)])
  have v: "fst (key_Verify ex_key_codec (KvOk, KvOk) NoFault (100 * Second) ex_secret (ex_key_db (100 * Second)) ?kv) = Inr ?p" by code_simp
  then have v: "key_Verify ex_key_codec (KvOk, KvOk) NoFault (100 * Second) ex_secret (ex_key_db (100 * Second)) ?kv
      = (Inr ?p, snd (key_Verify ex_key_codec (KvOk, KvOk) NoFault (100 * Second) ex_secret (ex_key_db (100 * Second)) ?kv))"
    by (simp add: prod_eq_iff)
  have "list_all (cache_fits key_cacheKey 0 (100 * Second) 0) ?evs" by code_simp
  then show ?thesis
    using api_key_answer_recent [of ex_key_codec ex_key_db Map.empty "HashToken id ex_secret" ex_secret 0 "100 * Second" 0 ?evs, OF rb _ _ _ v]
    by (simp add: ex_key_codec_def duration_defs)
qed

end
