(* ===== verification/Pulse_Authn.thy ===== *)
theory Pulse_Authn
  imports Pulse_Apikeys
begin

text \<open>
  From a request to the principal the handlers see: the access token (\<open>internal/authn/jwt.go\<close>) and the
  middleware (\<open>internal/authn/middleware.go\<close>).  \<open>Identify\<close> takes an API key or an access token,
  \<open>RequireOrg\<close> the org of the URL and the cached role of the member.

  The JWT library is an argument: \<open>jl_SignedString\<close> signs claims under a private key and a key id,
  \<open>jl_ParseWithClaims\<close> checks a token with the key function, the methods, the issuer, the audience and
  the time it is given.
\<close>

section \<open>Access tokens\<close>

definition tokenUseAccess :: string where "tokenUseAccess = ''access''"

definition accessTTL :: duration where "accessTTL = 15 * Minute"

record accessClaims =
  ac_Email :: string
  ac_TokenUse :: string
  ac_Issuer :: string
  ac_Audience :: "string list"
  ac_Subject :: string
  ac_IssuedAt :: time
  ac_ExpiresAt :: time
  ac_ID :: string

text \<open>\<open>jwt.NewNumericDate\<close> keeps whole seconds.\<close>

definition NumericDate :: "time \<Rightarrow> time" where "NumericDate t = (t div Second) * Second"

record ('priv, 'pub) jwt_lib =
  jl_SignedString :: "'priv \<Rightarrow> string \<Rightarrow> accessClaims \<Rightarrow> string option"
  jl_ParseWithClaims :: "string list \<Rightarrow> string \<Rightarrow> string \<Rightarrow> time \<Rightarrow> (string \<Rightarrow> 'pub option) \<Rightarrow> string \<Rightarrow> accessClaims option"

record ('priv, 'pub) JWTIssuer =
  ji_issuer :: string
  ji_audience :: string
  ji_kid :: string
  ji_priv :: 'priv
  ji_verifyKeys :: "string \<rightharpoonup> 'pub"

definition NewJWTIssuer :: "string \<Rightarrow> string \<Rightarrow> string \<Rightarrow> 'priv \<Rightarrow> 'pub \<Rightarrow> ('priv, 'pub) JWTIssuer" where
  "NewJWTIssuer iss aud kid priv pub =
     \<lparr>ji_issuer = iss, ji_audience = aud, ji_kid = kid, ji_priv = priv, ji_verifyKeys = [kid \<mapsto> pub]\<rparr>"

definition AddVerifyKey :: "string \<Rightarrow> 'pub \<Rightarrow> ('priv, 'pub) JWTIssuer \<Rightarrow> ('priv, 'pub) JWTIssuer" where
  "AddVerifyKey kid pub j = j\<lparr>ji_verifyKeys := (ji_verifyKeys j)(kid \<mapsto> pub)\<rparr>"

definition access_claims :: "('priv, 'pub) JWTIssuer \<Rightarrow> time \<Rightarrow> string \<Rightarrow> int \<Rightarrow> string \<Rightarrow> accessClaims" where
  "access_claims j now jti userID email =
     \<lparr>ac_Email = email, ac_TokenUse = tokenUseAccess, ac_Issuer = ji_issuer j, ac_Audience = [ji_audience j],
      ac_Subject = Itoa userID, ac_IssuedAt = NumericDate now, ac_ExpiresAt = NumericDate (now + accessTTL), ac_ID = jti\<rparr>"

definition jwt_Issue :: "('priv, 'pub) jwt_lib \<Rightarrow> ('priv, 'pub) JWTIssuer \<Rightarrow> time \<Rightarrow> string option \<Rightarrow> int \<Rightarrow> string
    \<Rightarrow> (string \<times> time) option" where
  "jwt_Issue lib j now random userID email =
     (case NewOpaqueToken random of
        None \<Rightarrow> None
      | Some jti \<Rightarrow>
          map_option (\<lambda>signed. (signed, now + accessTTL))
            (jl_SignedString lib (ji_priv j) (ji_kid j) (access_claims j now jti userID email)))"

text \<open>
  \<open>fmt.Sscanf(s, "%d", &n)\<close>: blanks are skipped, a sign and the longest run of digits are read, the
  rest of the text is not looked at.
\<close>

definition Sscanf_d :: "string \<Rightarrow> int option" where
  "Sscanf_d s =
     (let s1 = dropWhile (\<lambda>c. is_space c \<and> c \<noteq> CHR 0x0A) s;
          sign = (case s1 of c # _ \<Rightarrow> if c = CHR ''-'' \<or> c = CHR ''+'' then [c] else [] | [] \<Rightarrow> []);
          ds = takeWhile is_digit (drop (length sign) s1)
      in if ds = [] then None else Atoi (sign @ ds))"

record VerifiedToken =
  vt_UserID :: int
  vt_Email :: string

definition jwt_Verify :: "('priv, 'pub) jwt_lib \<Rightarrow> ('priv, 'pub) JWTIssuer \<Rightarrow> time \<Rightarrow> string \<Rightarrow> VerifiedToken option" where
  "jwt_Verify lib j now raw =
     (case jl_ParseWithClaims lib [''RS256''] (ji_issuer j) (ji_audience j) now (ji_verifyKeys j) raw of
        None \<Rightarrow> None
      | Some claims \<Rightarrow>
          if ac_TokenUse claims \<noteq> tokenUseAccess then None
          else case Sscanf_d (ac_Subject claims) of
                 None \<Rightarrow> None
               | Some userID \<Rightarrow> if userID = 0 then None else Some \<lparr>vt_UserID = userID, vt_Email = ac_Email claims\<rparr>)"

section \<open>Reading a request\<close>

text \<open>The parts of a request the middleware reads; an absent header is the empty text.\<close>

record request =
  rq_Authorization :: string
  rq_AccessCookie :: "string option"
  rq_orgId :: string
  rq_XPulseOrg :: string

definition bearerToken :: "request \<Rightarrow> string option" where
  "bearerToken r =
     (let h = rq_Authorization r; p = ''Bearer ''
      in if length p < length h \<and> lower_eq (take (length p) h) p then Some (TrimSpace (drop (length p) h)) else None)"

definition bearerAPIKey :: "request \<Rightarrow> string option" where
  "bearerAPIKey r =
     (case bearerToken r of None \<Rightarrow> None | Some tok \<Rightarrow> if HasPrefix tok APIKeyPrefix then Some tok else None)"

definition accessJWT :: "request \<Rightarrow> string option" where
  "accessJWT r =
     (case rq_AccessCookie r of
        Some v \<Rightarrow> if v \<noteq> '''' then Some v
                   else (case bearerToken r of None \<Rightarrow> None | Some tok \<Rightarrow> if HasPrefix tok APIKeyPrefix then None else Some tok)
      | None \<Rightarrow> (case bearerToken r of None \<Rightarrow> None | Some tok \<Rightarrow> if HasPrefix tok APIKeyPrefix then None else Some tok))"

definition orgIDFromRequest :: "request \<Rightarrow> int option" where
  "orgIDFromRequest r =
     (if rq_orgId r \<noteq> '''' then Atoi (rq_orgId r)
      else if rq_XPulseOrg r \<noteq> '''' then Atoi (rq_XPulseOrg r) else None)"

section \<open>The role of a member\<close>

definition memberRoleTTL :: duration where "memberRoleTTL = 5 * Minute"

definition memberRoleCacheKey :: "int \<Rightarrow> int \<Rightarrow> string" where
  "memberRoleCacheKey userID orgID = ''member:'' @ Itoa userID @ '':'' @ Itoa orgID"

datatype role_error = errNotMember | RoleStore db_error

text \<open>The lookup of a role; \<open>row\<close> is what the table read gives.\<close>

definition resolve_with :: "kv_fault \<times> kv_fault \<Rightarrow> time \<Rightarrow> string \<Rightarrow> db_error + Membership \<Rightarrow> kv \<Rightarrow> (role_error + Role) \<times> kv" where
  "resolve_with f now ck row s =
     (case GetCache (fst f) now ck s of
        (Inr (Some v), s1) \<Rightarrow> (if v = '''' then Inl errNotMember else Inr (Role_of v), s1)
      | (_, s1) \<Rightarrow>
          (case row of
             Inl e \<Rightarrow>
               if e = ErrNoRows then (Inl errNotMember, snd (SetCache (snd f) now ck '''' memberRoleTTL s1))
               else (Inl (RoleStore e), s1)
           | Inr m \<Rightarrow> (Inr (mem_Role m), snd (SetCache (snd f) now ck (Role_string (mem_Role m)) memberRoleTTL s1))))"

definition resolveRole :: "kv_fault \<times> kv_fault \<Rightarrow> fault \<Rightarrow> time \<Rightarrow> int \<Rightarrow> int \<Rightarrow> tenant_db \<Rightarrow> kv \<Rightarrow> (role_error + Role) \<times> kv" where
  "resolveRole f fdb now userID orgID db s =
     resolve_with f now (memberRoleCacheKey userID orgID) (GetMembership fdb userID orgID db) s"

definition InvalidateMemberRole :: "kv_fault \<Rightarrow> int \<Rightarrow> int \<Rightarrow> kv \<Rightarrow> kv" where
  "InvalidateMemberRole f userID orgID s = snd (DelCache f (memberRoleCacheKey userID orgID) s)"

section \<open>The middleware\<close>

text \<open>What a request needs: the clock, the faults of its calls, the key codec and the token issuer.\<close>

record ('priv, 'pub) auth_env =
  au_now :: time
  au_codec :: key_codec
  au_lib :: "('priv, 'pub) jwt_lib"
  au_jwt :: "('priv, 'pub) JWTIssuer"
  au_key_faults :: "kv_fault \<times> kv_fault"
  au_key_db :: fault
  au_role_faults :: "kv_fault \<times> kv_fault"
  au_role_db :: fault

datatype auth_result = Rejected int string | Passed Principal

definition Identify :: "('priv, 'pub) auth_env \<Rightarrow> request \<Rightarrow> tenant_db \<Rightarrow> kv \<Rightarrow> auth_result \<times> kv" where
  "Identify env r db s =
     (case bearerAPIKey r of
        Some rawKey \<Rightarrow>
          (case key_Verify (au_codec env) (au_key_faults env) (au_key_db env) (au_now env) rawKey db s of
             (Inl _, s1) \<Rightarrow> (Rejected 401 ''invalid api key'', s1)
           | (Inr kp, s1) \<Rightarrow>
               (Passed \<lparr>p_Kind = ActorAPIKey, p_UserID = 0, p_KeyID = kp_KeyID kp, p_Email = '''',
                        p_OrgID = kp_OrgID kp, p_Role = kp_Role kp\<rparr>, s1))
      | None \<Rightarrow>
          (case accessJWT r of
             None \<Rightarrow> (Rejected 401 ''sign in required'', s)
           | Some raw \<Rightarrow>
               (case jwt_Verify (au_lib env) (au_jwt env) (au_now env) raw of
                  None \<Rightarrow> (Rejected 401 ''invalid token'', s)
                | Some vt \<Rightarrow>
                    (Passed \<lparr>p_Kind = ActorHuman, p_UserID = vt_UserID vt, p_KeyID = 0, p_Email = vt_Email vt,
                             p_OrgID = 0, p_Role = noRole\<rparr>, s))))"

definition RequireOrg :: "('priv, 'pub) auth_env \<Rightarrow> request \<Rightarrow> Principal \<Rightarrow> tenant_db \<Rightarrow> kv \<Rightarrow> auth_result \<times> kv" where
  "RequireOrg env r p db s =
     (if p_Kind p = ActorAPIKey then (Passed p, s)
      else case orgIDFromRequest r of
             None \<Rightarrow> (Rejected 400 ''missing or invalid org id'', s)
           | Some orgID \<Rightarrow>
               (case resolveRole (au_role_faults env) (au_role_db env) (au_now env) (p_UserID p) orgID db s of
                  (Inl errNotMember, s1) \<Rightarrow> (Rejected 403 ''not a member of this org'', s1)
                | (Inl (RoleStore _), s1) \<Rightarrow> (Rejected 500 ''could not resolve membership'', s1)
                | (Inr role, s1) \<Rightarrow> (Passed (p\<lparr>p_OrgID := orgID, p_Role := role\<rparr>), s1)))"

text \<open>The chain of the org routes: \<open>identify(requireOrg(handler))\<close>.\<close>

definition org_chain :: "('priv, 'pub) auth_env \<Rightarrow> request \<Rightarrow> tenant_db \<Rightarrow> kv \<Rightarrow> auth_result \<times> kv" where
  "org_chain env r db s =
     (case Identify env r db s of
        (Rejected c m, s1) \<Rightarrow> (Rejected c m, s1)
      | (Passed p, s1) \<Rightarrow> RequireOrg env r p db s1)"

section \<open>How old the role of a member can be\<close>

text \<open>What the table says of a user in an org.\<close>

definition member_role :: "tenant_db \<Rightarrow> int \<times> int \<Rightarrow> Role option" where
  "member_role db k = map_option mem_Role (select_member db (snd k) (fst k))"

definition role_key :: "int \<times> int \<Rightarrow> string" where
  "role_key k = memberRoleCacheKey (fst k) (snd k)"

definition role_dec :: "string \<Rightarrow> Role option option" where
  "role_dec w = Some (if w = '''' then None else Some (Role_of w))"

definition role_answer :: "role_error + Role \<Rightarrow> Role option option" where
  "role_answer r = (case r of Inr role \<Rightarrow> Some (Some role) | Inl errNotMember \<Rightarrow> Some None | Inl (RoleStore e) \<Rightarrow> None)"

definition role_read :: "fault \<Rightarrow> Role option \<Rightarrow> db_error + Membership" where
  "role_read fdb x =
     tn_read fdb (case x of
       None \<Rightarrow> Inl ErrNoRows
     | Some role \<Rightarrow> Inr \<lparr>mem_ID = 0, mem_OrgID = 0, mem_UserID = 0, mem_Role = role, mem_CreatedAt = 0\<rparr>)"

definition role_look :: "kv_fault \<times> kv_fault \<times> fault \<Rightarrow> time \<Rightarrow> int \<times> int \<Rightarrow> Role option \<Rightarrow> kv \<Rightarrow> Role option option \<times> kv" where
  "role_look f now k x s =
     (case resolve_with (fst f, fst (snd f)) now (role_key k) (role_read (snd (snd f)) x) s of (r, s') \<Rightarrow> (role_answer r, s'))"

definition role_forget :: "kv_fault \<Rightarrow> int \<times> int \<Rightarrow> kv \<Rightarrow> kv" where
  "role_forget f k s = InvalidateMemberRole f (fst k) (snd k) s"

definition role_ok :: "Role option \<Rightarrow> bool" where
  "role_ok x \<longleftrightarrow> (case x of None \<Rightarrow> True | Some r \<Rightarrow> role_known r)"

lemma resolve_row: "mem_Role m = mem_Role m' \<Longrightarrow> resolve_with f now ck (Inr m) s = resolve_with f now ck (Inr m') s"
  by (simp add: resolve_with_def split: prod.split sum.split option.split)

lemma resolveRole_look:
  "(case resolveRole (f1, f2) fdb now userID orgID db s of (r, s') \<Rightarrow> (role_answer r, s'))
     = role_look (f1, f2, fdb) now (userID, orgID) (member_role db (userID, orgID)) s"
proof (cases "fdb = NoFault \<and> select_member db orgID userID \<noteq> None")
  case False
  then show ?thesis
    by (auto simp: role_look_def role_read_def resolveRole_def GetMembership_def row_or_none_def tn_read_def member_role_def role_key_def)
next
  case True
  then obtain m where m: "select_member db orgID userID = Some m" "fdb = NoFault" by auto
  have "resolve_with (f1, f2) now ck (Inr m) s
      = resolve_with (f1, f2) now ck (Inr \<lparr>mem_ID = 0, mem_OrgID = 0, mem_UserID = 0, mem_Role = mem_Role m, mem_CreatedAt = 0\<rparr>) s" for ck
    by (rule resolve_row) simp
  then show ?thesis
    using m by (simp add: role_look_def role_read_def resolveRole_def GetMembership_def row_or_none_def tn_read_def member_role_def role_key_def)
qed

lemma role_key_inj: "role_key k = role_key k' \<Longrightarrow> k = k'"
  using split_at_first [of "Itoa (fst k)" "Itoa (snd k)" "Itoa (fst k')" "Itoa (snd k')"] Itoa_no_colon
  by (auto simp: role_key_def memberRoleCacheKey_def prod_eq_iff dest: Itoa_inj)

lemma SetCache_effect:
  "snd (SetCache f now k v ttl s) = s \<or> snd (SetCache f now k v ttl s) = s(k \<mapsto> (KvString v, kv_expiry now ttl))"
  by (cases f) (simp_all add: kv_defs)

lemma role_text: "role_known r \<Longrightarrow> Role_string r \<noteq> '''' \<and> Role_of (Role_string r) = r"
  by (cases r) (simp_all add: role_known_def Role_of_def)

interpretation role_cache: read_through memberRoleTTL role_key role_dec role_ok role_look role_forget
proof unfold_locales
  show "0 < memberRoleTTL" by (simp add: memberRoleTTL_def duration_defs)
  show "k = k'" if "role_key k = role_key k'" for k k' using that by (rule role_key_inj)
  show "role_forget g k s = s \<or> role_forget g k s = s(role_key k := None)" for g k s
    by (cases g) (simp_all add: role_forget_def InvalidateMemberRole_def role_key_def kv_defs)
next
  fix f now k x s v s'
  assume l: "role_look f now k x s = (Some v, s')"
  obtain f1 f2 f3 where f: "f = (f1, f2, f3)" by (metis prod_cases3)
  obtain r where g: "GetCache f1 now (role_key k) s = (r, s)" using GetCache_same by (metis prod.collapse)
  show "v = x \<or> (\<exists>w eo. s (role_key k) = Some (KvString w, eo) \<and> (\<forall>e. eo = Some e \<longrightarrow> now < e) \<and> role_dec w = Some v)"
  proof (cases "\<exists>w. r = Inr (Some w)")
    case True
    then obtain w where w: "r = Inr (Some w)" by blast
    then have "role_dec w = Some v" using l g by (auto simp: f role_look_def resolve_with_def role_answer_def role_dec_def)
    then show ?thesis using GetCache_hit [of f1 now "role_key k" s w] g w by auto
  next
    case False
    then have "v = x"
      using l g by (auto simp: f role_look_def resolve_with_def role_answer_def role_read_def tn_read_def
          split: if_splits option.splits sum.splits)
    then show ?thesis by simp
  qed
next
  fix x f now k s r s'
  assume ok: "role_ok x" and l: "role_look f now k x s = (r, s')"
  obtain f1 f2 f3 where f: "f = (f1, f2, f3)" by (metis prod_cases3)
  obtain q where g: "GetCache f1 now (role_key k) s = (q, s)" using GetCache_same by (metis prod.collapse)
  let ?v = "case x of None \<Rightarrow> '''' | Some role \<Rightarrow> Role_string role"
  have "s' = s \<or> s' = snd (SetCache f2 now (role_key k) ?v memberRoleTTL s)"
    using l g by (auto simp: f role_look_def resolve_with_def role_read_def tn_read_def split: option.splits if_splits sum.splits)
  moreover have "role_dec ?v = Some x"
    using ok role_text by (auto simp: role_dec_def role_ok_def split: option.splits)
  ultimately show "s' = s \<or> (\<exists>w e. s' = s(role_key k \<mapsto> (KvString w, Some e)) \<and> e \<le> now + memberRoleTTL \<and> role_dec w = Some x)"
    using SetCache_effect [of f2 now "role_key k" ?v memberRoleTTL s]
    by (auto simp: kv_expiry_def memberRoleTTL_def duration_defs)
qed

text \<open>
  C18. A human who reaches the handlers of an org is the user of the token, in the org of the URL, with a role the
  user had there within the last five minutes (and the duration \<open>d\<close> of a request); and not before
  \<open>lo\<close>, when the entry of the role was last absent, so that a change whose invalidation arrived counts at once.
\<close>

theorem org_chain_role_recent:
  assumes "\<And>t k. role_ok (member_role (db t) k)" and "kv0 (memberRoleCacheKey u orgID) = None"
    and "list_all (cache_fits role_key lo (au_now env) d) evs"
    and "org_chain env req (db r) (cache_run role_look role_forget (\<lambda>t. member_role (db t)) evs kv0) = (Passed p, kv')"
    and "p_Kind p = ActorHuman" and "p_UserID p = u" and "p_OrgID p = orgID"
    and "lo \<le> r" and "r \<le> au_now env" and "au_now env \<le> r + d"
  shows "orgIDFromRequest req = Some orgID
    \<and> (\<exists>raw vt. accessJWT req = Some raw \<and> jwt_Verify (au_lib env) (au_jwt env) (au_now env) raw = Some vt \<and> vt_UserID vt = u)
    \<and> (\<exists>t. lo \<le> t \<and> t \<le> au_now env \<and> au_now env < t + d + 5 * Minute \<and> member_role (db t) (u, orgID) = Some (p_Role p))"
proof -
  let ?s = "cache_run role_look role_forget (\<lambda>t. member_role (db t)) evs kv0"
  have b: "bearerAPIKey req = None"
    using assms(4,5) by (auto simp: org_chain_def Identify_def RequireOrg_def split: option.splits prod.splits sum.splits)
  from assms(4) b obtain raw vt where t: "accessJWT req = Some raw" "jwt_Verify (au_lib env) (au_jwt env) (au_now env) raw = Some vt"
    by (auto simp: org_chain_def Identify_def split: option.splits)
  let ?p0 = "\<lparr>p_Kind = ActorHuman, p_UserID = vt_UserID vt, p_KeyID = 0, p_Email = vt_Email vt, p_OrgID = 0, p_Role = noRole\<rparr>"
  have "RequireOrg env req ?p0 (db r) ?s = (Passed p, kv')" using assms(4) b t by (simp add: org_chain_def Identify_def)
  then have o': "orgIDFromRequest req = Some orgID" "vt_UserID vt = u"
    and rr: "resolveRole (au_role_faults env) (au_role_db env) (au_now env) u orgID (db r) ?s = (Inr (p_Role p), kv')"
    using assms(6,7) by (auto simp: RequireOrg_def split: option.splits prod.splits sum.splits role_error.splits)
  obtain f1 f2 where f: "au_role_faults env = (f1, f2)" by fastforce
  have "role_look (f1, f2, au_role_db env) (au_now env) (u, orgID) (member_role (db r) (u, orgID)) ?s = (Some (Some (p_Role p)), kv')"
    using resolveRole_look [of f1 f2 "au_role_db env" "au_now env" u orgID "db r" ?s] rr by (simp add: f role_answer_def)
  from role_cache.answer_was_true [of "\<lambda>t. member_role (db t)", OF assms(1) _ assms(3) this assms(8-10)] assms(2)
  have "\<exists>t. lo \<le> t \<and> t \<le> au_now env \<and> au_now env < t + d + memberRoleTTL \<and> member_role (db t) (u, orgID) = Some (p_Role p)"
    by (simp add: role_key_def)
  then show ?thesis using o' t by (simp add: memberRoleTTL_def)
qed

section \<open>The life of an access token\<close>

text \<open>
  What the library promises of a key pair: a token that \<open>SignedString\<close> gives under a key id is parsed back to
  its claims by whoever has the public key under that id, exactly when issuer and audience are the expected
  ones and the expiry is in the future.
\<close>

definition signs_for :: "('priv, 'pub) jwt_lib \<Rightarrow> 'priv \<Rightarrow> 'pub \<Rightarrow> bool" where
  "signs_for lib priv pub \<longleftrightarrow>
     (\<forall>kid c raw iss aud now keys. jl_SignedString lib priv kid c = Some raw \<longrightarrow> keys kid = Some pub \<longrightarrow>
        jl_ParseWithClaims lib [''RS256''] iss aud now keys raw =
          (if ac_Issuer c = iss \<and> aud \<in> set (ac_Audience c) \<and> now < ac_ExpiresAt c then Some c else None))"

lemma Sscanf_Itoa:
  assumes "- (2 ^ 63) \<le> i" and "i < 2 ^ 63"
  shows "Sscanf_d (Itoa i) = Some i"
proof -
  have d: "takeWhile is_digit (nat_str n) = nat_str n" for n
    using nat_str_digits [of n] by (intro takeWhile_eq_all_conv [THEN iffD2]) (auto simp: list_all_iff)
  have sp: "\<not> is_space c \<and> c \<noteq> CHR ''-'' \<and> c \<noteq> CHR ''+''" if "is_digit c" for c
    using that by (auto simp: is_digit_def is_space_def)
  show ?thesis
  proof (cases "i < 0")
    case True
    have "\<not> is_space (CHR ''-'')" by (simp add: is_space_def)
    moreover have "nat_str (nat (- i)) \<noteq> []" using nat_str_digits by blast
    ultimately have "Sscanf_d (Itoa i) = Atoi (Itoa i)" using True d [of "nat (- i)"] by (simp add: Sscanf_d_def Itoa_def Let_def del: takeWhile_eq_all_conv)
    then show ?thesis using Atoi_Itoa [OF assms] by simp
  next
    case False
    obtain c cs where n: "nat_str (nat i) = c # cs" "is_digit c"
      using nat_str_digits [of "nat i"] by (cases "nat_str (nat i)") auto
    have "Sscanf_d (Itoa i) = Atoi (Itoa i)"
      using False n sp [OF n(2)] d [of "nat i"] by (simp add: Sscanf_d_def Itoa_def Let_def del: takeWhile_eq_all_conv)
    then show ?thesis using Atoi_Itoa [OF assms] by simp
  qed
qed

text \<open>
  C38. An access token names the user it was issued to, to every verifier of the same service that has the public key of
  its signer, later keys of a rotation included, until fifteen minutes have passed (less the fraction of a second that the
  expiry claim drops), and nobody after that.
\<close>

theorem access_token_roundtrip:
  assumes "signs_for lib (ji_priv j) pub" and "ji_verifyKeys j' (ji_kid j) = Some pub"
    and "ji_issuer j' = ji_issuer j" and "ji_audience j' = ji_audience j"
    and "jwt_Issue lib j t random userID email = Some (raw, expiry)"
    and "userID \<noteq> 0" and "- (2 ^ 63) \<le> userID" and "userID < 2 ^ 63"
  shows "jwt_Verify lib j' t' raw =
           (if t' < (t + 15 * Minute) div Second * Second then Some \<lparr>vt_UserID = userID, vt_Email = email\<rparr> else None)
         \<and> expiry = t + 15 * Minute"
proof -
  from assms(5) obtain jti where s: "jl_SignedString lib (ji_priv j) (ji_kid j) (access_claims j t jti userID email) = Some raw"
    and e: "expiry = t + accessTTL"
    by (auto simp: jwt_Issue_def split: option.splits)
  have "jl_ParseWithClaims lib [''RS256''] (ji_issuer j') (ji_audience j') t' (ji_verifyKeys j') raw
      = (if t' < NumericDate (t + accessTTL) then Some (access_claims j t jti userID email) else None)"
    using assms(1) [unfolded signs_for_def, rule_format, OF s, of "ji_verifyKeys j'"] assms(2-4) by (simp add: access_claims_def)
  then show ?thesis
    using Sscanf_Itoa [OF assms(7,8)] assms(6) e
    by (simp add: jwt_Verify_def access_claims_def NumericDate_def accessTTL_def)
qed

definition ex_issuer :: "(unit, unit) JWTIssuer" where
  "ex_issuer = NewJWTIssuer ''pulse'' ''pulse-api'' ''k1'' () ()"

definition ex_claims :: accessClaims where
  "ex_claims = access_claims ex_issuer 0 (RawURLEncoding_Encode ''abc'') 1 ''ann@example.com''"

text \<open>A library that signs one set of claims and refuses the others.\<close>

definition ex_lib :: "(unit, unit) jwt_lib" where
  "ex_lib = \<lparr>jl_SignedString = (\<lambda>_ kid c. if kid = ''k1'' \<and> c = ex_claims then Some ''tok'' else None),
     jl_ParseWithClaims = (\<lambda>ms iss aud now keys raw.
       if raw = ''tok'' \<and> keys ''k1'' = Some () \<and> ac_Issuer ex_claims = iss \<and> aud \<in> set (ac_Audience ex_claims) \<and> now < ac_ExpiresAt ex_claims
       then Some ex_claims else None)\<rparr>"

lemma ex_lib_signs: "signs_for ex_lib () ()"
  by (auto simp: signs_for_def ex_lib_def split: if_splits)

theorem access_token_roundtrip_witness:
  "jwt_Verify ex_lib (AddVerifyKey ''k2'' () ex_issuer) Minute ''tok'' = Some \<lparr>vt_UserID = 1, vt_Email = ''ann@example.com''\<rparr>
   \<and> jwt_Verify ex_lib (AddVerifyKey ''k2'' () ex_issuer) (15 * Minute) ''tok'' = None"
proof -
  have i: "jwt_Issue ex_lib ex_issuer 0 (Some ''abc'') 1 ''ann@example.com'' = Some (''tok'', 15 * Minute)" by code_simp
  have k: "signs_for ex_lib (ji_priv ex_issuer) ()" using ex_lib_signs by simp
  have v: "ji_verifyKeys (AddVerifyKey ''k2'' () ex_issuer) (ji_kid ex_issuer) = Some ()"
    "ji_issuer (AddVerifyKey ''k2'' () ex_issuer) = ji_issuer ex_issuer"
    "ji_audience (AddVerifyKey ''k2'' () ex_issuer) = ji_audience ex_issuer"
    by (simp_all add: AddVerifyKey_def ex_issuer_def NewJWTIssuer_def)
  show ?thesis using access_token_roundtrip [OF k v i] by (simp add: duration_defs)
qed

text \<open>A request of the owner of an org whose role is in the cache.\<close>

definition ex_auth :: "time \<Rightarrow> (unit, unit) auth_env" where
  "ex_auth now = \<lparr>au_now = now, au_codec = ex_key_codec, au_lib = ex_lib, au_jwt = ex_issuer,
     au_key_faults = (KvOk, KvOk), au_key_db = NoFault, au_role_faults = (KvOk, KvOk), au_role_db = NoFault\<rparr>"

definition ex_request :: request where
  "ex_request = \<lparr>rq_Authorization = '''', rq_AccessCookie = Some ''tok'', rq_orgId = ''1'', rq_XPulseOrg = ''''\<rparr>"

theorem org_chain_role_recent_witness:
  "orgIDFromRequest ex_request = Some 1
   \<and> (\<exists>t. 0 \<le> t \<and> t \<le> Minute \<and> Minute < t + 0 + 5 * Minute \<and> member_role ex_tenant (1, 1) = Some RoleOwner)"
proof -
  let ?evs = "[Lookup (KvOk, KvOk, NoFault) 0 0 (1, 1)]"
  let ?kv = "cache_run role_look role_forget (\<lambda>t. member_role ex_tenant) ?evs Map.empty"
  let ?p = "\<lparr>p_Kind = ActorHuman, p_UserID = 1, p_KeyID = 0, p_Email = ''ann@example.com'', p_OrgID = 1, p_Role = RoleOwner\<rparr>"
  have "fst (org_chain (ex_auth Minute) ex_request ex_tenant ?kv) = Passed ?p" by code_simp
  then have c: "org_chain (ex_auth Minute) ex_request ex_tenant ?kv = (Passed ?p, snd (org_chain (ex_auth Minute) ex_request ex_tenant ?kv))"
    by (simp add: prod_eq_iff)
  have w: "wf_members ex_tenant" by code_simp
  have ok: "role_ok (member_role ex_tenant k)" for k
    using w by (auto simp: role_ok_def member_role_def wf_members_def list_all_iff select_member_def dest!: find_Some_set split: option.splits)
  have "list_all (cache_fits role_key 0 Minute 0) ?evs" by code_simp
  then show ?thesis
    using org_chain_role_recent [of "\<lambda>_. ex_tenant" Map.empty 1 1 0 "ex_auth Minute" 0 ?evs, OF ok _ _ c]
    by (simp add: ex_auth_def duration_defs)
qed

end
