(* ===== verification/Pulse_Email.thy ===== *)
theory Pulse_Email
  imports Pulse_Tenancy Pulse_Maglink Pulse_Events
begin

text \<open>
  Transactional email: the intents the api publishes (\<open>internal/events/events.go\<close>) and the consumer of
  the notifier that mints a token and sends one mail for each (\<open>internal/notify/emailintent.go\<close>).
  The texts of the mails are an argument; the answer of the mailer is one flag per mail.  The time stamp of an
  intent, which no consumer reads, is left out.
\<close>

section \<open>Intents\<close>

datatype EmailIntentType = EmailMagicLink | EmailInvitation | EmailChannelTest | EmailOther string

record MagicLinkRequested =
  mr_Email :: string
  mr_Country :: string
  mr_UserAgent :: string

record InvitationRequested =
  ivr_InvitationID :: int
  ivr_OrgID :: int
  ivr_OrgName :: string
  ivr_Inviter :: string
  ivr_Role :: string
  ivr_Email :: string

record ChannelTestRequested =
  ctr_ChannelID :: int
  ctr_ChannelName :: string
  ctr_OrgID :: int
  ctr_RequestedByEmail :: string

record EmailIntent =
  em_Type :: EmailIntentType
  em_Locale :: string
  em_MagicLink :: "MagicLinkRequested option"
  em_Invitation :: "InvitationRequested option"
  em_ChannelTest :: "ChannelTestRequested option"

section \<open>The consumer\<close>

record Mail =
  mail_To :: string
  mail_From :: string
  mail_Subject :: string
  mail_Body :: string
  mail_HTML :: string

type_synonym rendered = "string \<times> string \<times> string"

record mail_texts =
  mt_MagicLinkEmail :: "string \<Rightarrow> string \<Rightarrow> string \<Rightarrow> string \<Rightarrow> rendered"
  mt_InviteEmail :: "string \<Rightarrow> string \<Rightarrow> string \<Rightarrow> string \<Rightarrow> string \<Rightarrow> rendered"
  mt_TestEmail :: "string \<Rightarrow> string \<Rightarrow> int \<Rightarrow> rendered"

record email_env =
  ee_sha256 :: "string \<Rightarrow> string"
  ee_marshal :: "magic_record \<Rightarrow> string"
  ee_texts :: mail_texts
  ee_appBaseURL :: string
  ee_fromAccount :: string
  ee_fromAlerts :: string
  ee_now :: time

text \<open>What a run of the handler depends on: the random bytes, the faults of the two stores, the answer of the mailer.\<close>

record email_luck =
  el_random :: "string option"
  el_kv :: kv_fault
  el_db :: fault
  el_sent :: bool

record email_state =
  es_kv :: kv
  es_db :: tenant_db
  es_sent :: "Mail list"

definition mail_of :: "string \<Rightarrow> string \<Rightarrow> rendered \<Rightarrow> Mail" where
  "mail_of recipient sender r =
     \<lparr>mail_To = recipient, mail_From = sender, mail_Subject = fst r, mail_Body = fst (snd r), mail_HTML = snd (snd r)\<rparr>"

text \<open>The result of the handler is whether it returned nil; a mail whose sending failed did not go out.\<close>

definition mailer_Send :: "email_luck \<Rightarrow> Mail \<Rightarrow> email_state \<Rightarrow> bool \<times> email_state" where
  "mailer_Send l m s = (if el_sent l then (True, s\<lparr>es_sent := es_sent s @ [m]\<rparr>) else (False, s))"

definition verify_url :: "string \<Rightarrow> string \<Rightarrow> string" where
  "verify_url base raw = base @ ''/auth/email/verify?token='' @ raw"

definition accept_url :: "string \<Rightarrow> string \<Rightarrow> string" where
  "accept_url base raw = base @ ''/invitations/'' @ raw"

definition sendMagicLink :: "email_env \<Rightarrow> email_luck \<Rightarrow> EmailIntent \<Rightarrow> email_state \<Rightarrow> bool \<times> email_state" where
  "sendMagicLink e l i s =
     (case em_MagicLink i of
        None \<Rightarrow> (True, s)
      | Some p \<Rightarrow>
          if mr_Email p = '''' then (True, s)
          else case Mint (ee_sha256 e) (ee_marshal e) (el_kv l) (ee_now e) (el_random l) (mr_Email p) (es_kv s) of
                 (Inl _, kv1) \<Rightarrow> (False, s\<lparr>es_kv := kv1\<rparr>)
               | (Inr raw, kv1) \<Rightarrow>
                   mailer_Send l (mail_of (mr_Email p) (ee_fromAccount e)
                     (mt_MagicLinkEmail (ee_texts e) (verify_url (ee_appBaseURL e) raw) (em_Locale i) (mr_Country p) (mr_UserAgent p)))
                     (s\<lparr>es_kv := kv1\<rparr>))"

definition sendInvitation :: "email_env \<Rightarrow> email_luck \<Rightarrow> EmailIntent \<Rightarrow> email_state \<Rightarrow> bool \<times> email_state" where
  "sendInvitation e l i s =
     (case em_Invitation i of
        None \<Rightarrow> (True, s)
      | Some p \<Rightarrow>
          if ivr_InvitationID p = 0 \<or> ivr_OrgID p = 0 then (True, s)
          else case NewOpaqueToken (el_random l) of
                 None \<Rightarrow> (False, s)
               | Some raw \<Rightarrow>
                   (case SetInvitationToken (el_db l) (ivr_OrgID p) (ivr_InvitationID p) (HashToken (ee_sha256 e) raw) (es_db s) of
                      (Inl _, db1) \<Rightarrow> (False, s\<lparr>es_db := db1\<rparr>)
                    | (Inr affected, db1) \<Rightarrow>
                        if affected = 0 then (True, s\<lparr>es_db := db1\<rparr>)
                        else mailer_Send l (mail_of (ivr_Email p) (ee_fromAccount e)
                               (mt_InviteEmail (ee_texts e) (ivr_OrgName p) (ivr_Inviter p) (ivr_Role p)
                                  (accept_url (ee_appBaseURL e) raw) (em_Locale i)))
                               (s\<lparr>es_db := db1\<rparr>)))"

definition sendChannelTest :: "email_env \<Rightarrow> email_luck \<Rightarrow> EmailIntent \<Rightarrow> email_state \<Rightarrow> bool \<times> email_state" where
  "sendChannelTest e l i s =
     (case em_ChannelTest i of
        None \<Rightarrow> (True, s)
      | Some p \<Rightarrow>
          if ctr_RequestedByEmail p = '''' then (True, s)
          else mailer_Send l (mail_of (ctr_RequestedByEmail p) (ee_fromAlerts e)
                 (mt_TestEmail (ee_texts e) (ctr_ChannelName p) ''the Team email channel works'' (ctr_OrgID p))) s)"

text \<open>\<open>r\<close> is the decoded record, or none for one that does not parse.\<close>

definition email_handle :: "email_env \<Rightarrow> email_luck \<Rightarrow> EmailIntent option \<Rightarrow> email_state \<Rightarrow> bool \<times> email_state" where
  "email_handle e l r s =
     (case r of
        None \<Rightarrow> (True, s)
      | Some i \<Rightarrow>
          (case em_Type i of
             EmailMagicLink \<Rightarrow> sendMagicLink e l i s
           | EmailInvitation \<Rightarrow> sendInvitation e l i s
           | EmailChannelTest \<Rightarrow> sendChannelTest e l i s
           | EmailOther _ \<Rightarrow> (True, s)))"

end
