(* ===== verification/Pulse_Web.thy ===== *)
theory Pulse_Web
  imports Pulse_Authn Pulse_Refresh Pulse_Email
begin

text \<open>
  What the handlers of \<open>internal/api\<close> share: the answer of a request, the state it works on (the tables,
  Redis and the mail intents that were published), and the idioms the handlers repeat, each as a combinator
  that continues with the rest of the handler.

  The n-th store call of a handler fails by the fault \<open>f n\<close>, the n-th Redis command by \<open>g n\<close>.
  An error that a handler returns is the answer \<open>Internal\<close> (the router writes a 500).
\<close>

datatype 'a answer = Answer 'a | Refuse int string | Internal

record web =
  wb_db :: tenant_db
  wb_kv :: kv
  wb_mail :: "EmailIntent list"

type_synonym 'a handler = "web \<Rightarrow> 'a answer \<times> web"

definition answer :: "'a \<Rightarrow> 'a handler" where "answer a w = (Answer a, w)"

definition refuse :: "int \<Rightarrow> string \<Rightarrow> 'a handler" where "refuse code msg w = (Refuse code msg, w)"

definition internal :: "'a handler" where "internal w = (Internal, w)"

text \<open>A read of the tables, and a write.\<close>

definition db_read :: "(tenant_db \<Rightarrow> 'a) \<Rightarrow> ('a \<Rightarrow> 'b handler) \<Rightarrow> 'b handler" where
  "db_read q k w = k (q (wb_db w)) w"

definition db_write :: "(tenant_db \<Rightarrow> 'r \<times> tenant_db) \<Rightarrow> ('r \<Rightarrow> 'b handler) \<Rightarrow> 'b handler" where
  "db_write op k w = (case op (wb_db w) of (r, db) \<Rightarrow> k r (w\<lparr>wb_db := db\<rparr>))"

definition kv_write :: "(kv \<Rightarrow> kv) \<Rightarrow> 'b handler \<Rightarrow> 'b handler" where
  "kv_write op k w = k (w\<lparr>wb_kv := op (wb_kv w)\<rparr>)"

text \<open>\<open>if err != nil { return nil, err }\<close>, and the same with a 404 for a missing row.\<close>

definition or_internal :: "db_error + 'a \<Rightarrow> ('a \<Rightarrow> 'b handler) \<Rightarrow> 'b handler" where
  "or_internal r k = (case r of Inl _ \<Rightarrow> internal | Inr a \<Rightarrow> k a)"

definition or_missing :: "string \<Rightarrow> db_error + 'a \<Rightarrow> ('a \<Rightarrow> 'b handler) \<Rightarrow> 'b handler" where
  "or_missing msg r k = (case r of Inl e \<Rightarrow> if e = ErrNoRows then refuse 404 msg else internal | Inr a \<Rightarrow> k a)"

text \<open>The caller in an org, a signed-in human, and the role gate.\<close>

definition in_org :: "Principal option \<Rightarrow> (Principal \<Rightarrow> 'b handler) \<Rightarrow> 'b handler" where
  "in_org ctx k = (case humanInOrg ctx of None \<Rightarrow> refuse 401 ''sign in required'' | Some p \<Rightarrow> k p)"

definition signed_in :: "Principal option \<Rightarrow> (Principal \<Rightarrow> 'b handler) \<Rightarrow> 'b handler" where
  "signed_in ctx k =
     (case ctx of
        None \<Rightarrow> refuse 401 ''sign in required''
      | Some p \<Rightarrow> if p_Kind p \<noteq> ActorHuman then refuse 401 ''sign in required'' else k p)"

definition gate :: "Principal \<Rightarrow> Action \<Rightarrow> 'b handler \<Rightarrow> 'b handler" where
  "gate p action k =
     (let d = Can (principal_Actor p) action (org_resource (p_OrgID p))
      in if \<not> dec_Allowed d then refuse 403 (dec_Reason d) else k)"

lemmas web_defs = answer_def refuse_def internal_def db_read_def db_write_def kv_write_def or_internal_def or_missing_def
  in_org_def signed_in_def gate_def

section \<open>What a handler does to the tables\<close>

text \<open>
  A handler ends on tables that are related by \<open>R\<close> to those it started on, whatever it answers.  For a
  relation that is reflexive and transitive the rules follow the idioms, down to the single writes.
\<close>

definition tables :: "(tenant_db \<Rightarrow> tenant_db \<Rightarrow> bool) \<Rightarrow> 'a handler \<Rightarrow> web \<Rightarrow> bool" where
  "tables R h w \<longleftrightarrow> R (wb_db w) (wb_db (snd (h w)))"

locale table_effect =
  fixes R :: "tenant_db \<Rightarrow> tenant_db \<Rightarrow> bool"
  assumes R_refl: "R db db"
    and R_trans: "R a b \<Longrightarrow> R b c \<Longrightarrow> R a c"
begin

lemma t_end: "tables R (answer a) w" "tables R (refuse c m) w" "tables R internal w"
  by (simp_all add: tables_def answer_def refuse_def internal_def R_refl)

lemma t_read: "tables R (k (q (wb_db w))) w \<Longrightarrow> tables R (db_read q k) w"
  by (simp add: tables_def db_read_def)

lemma t_kv: "(\<And>w'. wb_db w' = wb_db w \<Longrightarrow> tables R k w') \<Longrightarrow> tables R (kv_write op k) w"
  unfolding tables_def kv_write_def by (metis select_convs(1) surjective update_convs(2))

lemma t_write:
  assumes "R (wb_db w) (snd (op (wb_db w)))" and "\<And>r w'. op (wb_db w) = (r, wb_db w') \<Longrightarrow> tables R (k r) w'"
  shows "tables R (db_write op k) w"
proof -
  obtain r db where o': "op (wb_db w) = (r, db)" by fastforce
  then have "tables R (k r) (w\<lparr>wb_db := db\<rparr>)" using assms(2) [of r "w\<lparr>wb_db := db\<rparr>"] by simp
  then show ?thesis using assms(1) o' R_trans by (auto simp: tables_def db_write_def)
qed

lemma t_or_internal: "(\<And>a. r = Inr a \<Longrightarrow> tables R (k a) w) \<Longrightarrow> tables R (or_internal r k) w"
  by (cases r) (simp_all add: or_internal_def t_end)

lemma t_or_missing: "(\<And>a. r = Inr a \<Longrightarrow> tables R (k a) w) \<Longrightarrow> tables R (or_missing msg r k) w"
  by (cases r) (simp_all add: or_missing_def t_end)

lemma t_in_org: "(\<And>p. humanInOrg ctx = Some p \<Longrightarrow> tables R (k p) w) \<Longrightarrow> tables R (in_org ctx k) w"
  by (simp add: in_org_def t_end split: option.split)

lemma t_signed_in: "(\<And>p. ctx = Some p \<Longrightarrow> p_Kind p = ActorHuman \<Longrightarrow> tables R (k p) w) \<Longrightarrow> tables R (signed_in ctx k) w"
  by (simp add: signed_in_def t_end split: option.split)

lemma t_gate:
  "(dec_Allowed (Can (principal_Actor p) action (org_resource (p_OrgID p))) \<Longrightarrow> tables R k w) \<Longrightarrow> tables R (gate p action k) w"
  by (simp add: gate_def Let_def t_end)

lemma t_if: "(b \<Longrightarrow> tables R h w) \<Longrightarrow> (\<not> b \<Longrightarrow> tables R k w) \<Longrightarrow> tables R (if b then h else k) w"
  by simp

lemma t_option: "(x = None \<Longrightarrow> tables R h w) \<Longrightarrow> (\<And>a. x = Some a \<Longrightarrow> tables R (k a) w) \<Longrightarrow> tables R (case x of None \<Rightarrow> h | Some a \<Rightarrow> k a) w"
  by (cases x) simp_all

lemma t_sum: "(\<And>e. x = Inl e \<Longrightarrow> tables R (h e) w) \<Longrightarrow> (\<And>a. x = Inr a \<Longrightarrow> tables R (k a) w) \<Longrightarrow> tables R (case x of Inl e \<Rightarrow> h e | Inr a \<Rightarrow> k a) w"
  by (cases x) simp_all

lemma t_pair: "(\<And>a b. x = (a, b) \<Longrightarrow> tables R (k a b) w) \<Longrightarrow> tables R (case x of (a, b) \<Rightarrow> k a b) w"
  by (cases x) simp

lemma t_let: "tables R (k x) w \<Longrightarrow> tables R (let y = x in k y) w"
  by simp

lemmas rules = t_end t_read t_kv t_or_internal t_or_missing t_in_org t_signed_in t_gate t_if t_option t_sum t_pair t_let

end

text \<open>The same down to a store transaction: what holds of a committed body, and of the counters a rollback leaves, holds of the call.\<close>

locale row_effect =
  fixes R :: "tenant_db \<Rightarrow> tenant_db \<Rightarrow> bool"
  assumes R_same: "R s s"
    and R_rolled_back: "R s (tn_rolled_back s s')"
begin

lemma run: "(\<And>a s'. fn s = (Inr a, s') \<Longrightarrow> R s s') \<Longrightarrow> R s (snd (tn_run f fn s))"
  using R_same R_rolled_back by (cases "fn s"; cases "fst (fn s)") (auto simp: tn_run_def)

end

end
