(* ===== verification/Pulse_Members.thy ===== *)
theory Pulse_Members
  imports Pulse_Web Pulse_Monitor_Api
begin

text \<open>
  The members and invitations of an org, \<open>internal/api/members.go\<close>: the eleven handlers over the store, the
  role cache and the mail intents.  \<open>ctx\<close> is the principal of the request, \<open>now\<close> the clock of the
  process; the path parameters are the raw texts.
\<close>

section \<open>Shapes\<close>

record MemberDTO =
  mb_UserId :: string
  mb_Email :: string
  mb_Name :: string
  mb_AvatarUrl :: "string option"
  mb_Role :: Role
  mb_JoinedAt :: time

record InvitationDTO =
  id_Id :: string
  id_Email :: string
  id_Role :: Role
  id_State :: InvitationState
  id_CreatedAt :: time
  id_ExpiresAt :: time
  id_InvitedBy :: "string option"

record InvitationPreview =
  ip_OrgName :: string
  ip_Role :: Role
  ip_State :: InvitationState
  ip_Email :: string
  ip_InviterName :: "string option"

record OrgMembership =
  om_OrgId :: string
  om_Name :: string
  om_Slug :: string
  om_Role :: Role
  om_Plan :: Plan

definition avatar_of :: "User \<Rightarrow> string option" where
  "avatar_of u = (if usr_AvatarURL u \<noteq> '''' then Some (usr_AvatarURL u) else None)"

definition memberDTO :: "Membership \<Rightarrow> User \<Rightarrow> MemberDTO" where
  "memberDTO m u = \<lparr>mb_UserId = Itoa (usr_ID u), mb_Email = usr_Email u, mb_Name = usr_Name u, mb_AvatarUrl = avatar_of u,
     mb_Role = mem_Role m, mb_JoinedAt = mem_CreatedAt m\<rparr>"

definition invitationDTO :: "Invitation \<Rightarrow> InvitationDTO" where
  "invitationDTO iv = \<lparr>id_Id = Itoa (inv_ID iv), id_Email = inv_Email iv, id_Role = inv_Role iv, id_State = inv_State iv,
     id_CreatedAt = inv_CreatedAt iv, id_ExpiresAt = inv_ExpiresAt iv, id_InvitedBy = map_option Itoa (inv_CreatedBy iv)\<rparr>"

definition orgMembershipDTO :: "Organization \<Rightarrow> Role \<Rightarrow> OrgMembership" where
  "orgMembershipDTO org role = \<lparr>om_OrgId = Itoa (org_ID org), om_Name = org_Name org, om_Slug = org_Slug org, om_Role = role,
     om_Plan = ParsePlan (org_Plan org)\<rparr>"

definition validRole :: "Role \<Rightarrow> bool" where
  "validRole r \<longleftrightarrow> r = RoleOwner \<or> r = RoleAdmin \<or> r = RoleMember \<or> r = RoleViewer"

definition isLastOwnerReason :: "string \<Rightarrow> bool" where "isLastOwnerReason reason = Contains reason ''last owner''"

definition isLastOwnerDBError :: "db_error \<Rightarrow> bool" where "isLastOwnerDBError e \<longleftrightarrow> e = ErrCheck"

definition seatLimitReached :: "int \<Rightarrow> string" where
  "seatLimitReached limit = ''your plan allows '' @ Itoa limit @ '' seats; remove a member or invite, or upgrade to add more''"

definition inviteTTL :: duration where "inviteTTL = 7 * 24 * Hour"

section \<open>Members\<close>

fun member_list :: "(nat \<Rightarrow> fault) \<Rightarrow> nat \<Rightarrow> Membership list \<Rightarrow> tenant_db \<Rightarrow> MemberDTO list option" where
  "member_list f n [] db = Some []"
| "member_list f n (m # ms) db =
     (case GetUser (f n) (mem_UserID m) db of
        Inl e \<Rightarrow> if e = ErrNoRows then member_list f (Suc n) ms db else None
      | Inr u \<Rightarrow> map_option ((#) (memberDTO m u)) (member_list f (Suc n) ms db))"

definition ListMembers :: "Principal option \<Rightarrow> (nat \<Rightarrow> fault) \<Rightarrow> MemberDTO list handler" where
  "ListMembers ctx f =
     in_org ctx (\<lambda>p.
     gate p ActionViewMembers (
     db_read (store_ListMembers (f 0) (p_OrgID p)) (\<lambda>r. or_internal r (\<lambda>members.
     db_read (member_list f 1 members) (\<lambda>out. case out of None \<Rightarrow> internal | Some l \<Rightarrow> answer l)))))"

definition role_resource :: "int \<Rightarrow> Role \<Rightarrow> Role \<Rightarrow> int \<Rightarrow> Resource" where
  "role_resource orgID target new owners =
     \<lparr>rsc_OrgID = orgID, rsc_TargetRole = target, rsc_NewRole = new, rsc_OwnerCount = owners\<rparr>"

text \<open>A denial because of the last owner is a conflict, any other is forbidden.\<close>

definition unless_denied :: "Decision \<Rightarrow> 'a handler \<Rightarrow> 'a handler" where
  "unless_denied d k =
     (if \<not> dec_Allowed d then refuse (if isLastOwnerReason (dec_Reason d) then 409 else 403) (dec_Reason d) else k)"

text \<open>After a write that touched \<open>n\<close> rows.\<close>

definition if_affected :: "string \<Rightarrow> db_error + int \<Rightarrow> 'a handler \<Rightarrow> 'a handler \<Rightarrow> 'a handler" where
  "if_affected msg r none k =
     (case r of
        Inl e \<Rightarrow> if isLastOwnerDBError e then refuse 409 msg else internal
      | Inr n \<Rightarrow> if n = 0 then none else k)"

definition ChangeMemberRole :: "Principal option \<Rightarrow> (nat \<Rightarrow> fault) \<Rightarrow> kv_fault \<Rightarrow> string \<Rightarrow> string option \<Rightarrow> MemberDTO handler" where
  "ChangeMemberRole ctx f g userId body =
     in_org ctx (\<lambda>p.
     case body of None \<Rightarrow> refuse 422 ''body required'' | Some roleText \<Rightarrow>
     let newRole = Role_of roleText in
     if \<not> validRole newRole then refuse 422 ''invalid role''
     else case Atoi userId of None \<Rightarrow> refuse 404 ''member not found'' | Some targetID \<Rightarrow>
     db_read (GetMembership (f 0) targetID (p_OrgID p)) (\<lambda>r. or_missing ''member not found'' r (\<lambda>target.
     db_read (CountOwners (f 1) (p_OrgID p)) (\<lambda>r. or_internal r (\<lambda>owners.
     unless_denied (Can (principal_Actor p) ActionChangeMemberRole (role_resource (p_OrgID p) (mem_Role target) newRole owners)) (
     if newRole = mem_Role target
     then db_read (GetUser (f 2) targetID) (\<lambda>r. or_internal r (\<lambda>u. answer (memberDTO target u)))
     else db_write (UpdateMemberRole (f 2) (p_OrgID p) targetID newRole) (\<lambda>r.
       if_affected ''cannot demote the last owner; transfer ownership first'' r (refuse 404 ''member not found'') (
       kv_write (InvalidateMemberRole g targetID (p_OrgID p)) (
       db_read (GetUser (f 3) targetID) (\<lambda>r. or_internal r (\<lambda>u.
       answer (memberDTO (target\<lparr>mem_Role := newRole\<rparr>) u))))))))))))"

definition RemoveMember :: "Principal option \<Rightarrow> (nat \<Rightarrow> fault) \<Rightarrow> kv_fault \<Rightarrow> string \<Rightarrow> unit handler" where
  "RemoveMember ctx f g userId =
     in_org ctx (\<lambda>p.
     case Atoi userId of None \<Rightarrow> refuse 404 ''member not found'' | Some targetID \<Rightarrow>
     db_read (GetMembership (f 0) targetID (p_OrgID p)) (\<lambda>r. or_missing ''member not found'' r (\<lambda>target.
     db_read (CountOwners (f 1) (p_OrgID p)) (\<lambda>r. or_internal r (\<lambda>owners.
     unless_denied (Can (principal_Actor p) ActionRemoveMember (role_resource (p_OrgID p) (mem_Role target) noRole owners)) (
     db_write (store_RemoveMember (f 2) (p_OrgID p) targetID) (\<lambda>r.
     if_affected ''cannot remove the last owner; transfer ownership first'' r (refuse 404 ''member not found'') (
     kv_write (InvalidateMemberRole g targetID (p_OrgID p)) (answer ())))))))))"

definition LeaveOrg :: "Principal option \<Rightarrow> (nat \<Rightarrow> fault) \<Rightarrow> kv_fault \<Rightarrow> unit handler" where
  "LeaveOrg ctx f g =
     in_org ctx (\<lambda>p.
     let leave = db_write (store_RemoveMember (f 1) (p_OrgID p) (p_UserID p)) (\<lambda>r.
       if_affected ''cannot leave as the last owner; transfer ownership or delete the org'' r (refuse 403 ''not a member of this org'') (
       kv_write (InvalidateMemberRole g (p_UserID p) (p_OrgID p)) (answer ())))
     in if p_Role p = RoleOwner
        then db_read (CountOwners (f 0) (p_OrgID p)) (\<lambda>r. or_internal r (\<lambda>owners.
          let d = EnsureNotLastOwner RoleOwner owners in if \<not> dec_Allowed d then refuse 409 (dec_Reason d) else leave))
        else leave)"

text \<open>The body: the new owner's id and whether the caller steps down.\<close>

definition TransferOwnership :: "Principal option \<Rightarrow> (nat \<Rightarrow> fault) \<Rightarrow> (nat \<Rightarrow> kv_fault) \<Rightarrow> (string \<times> bool option) option \<Rightarrow> unit handler" where
  "TransferOwnership ctx f g body =
     in_org ctx (\<lambda>p.
     gate p ActionTransferOwnership (
     case body of None \<Rightarrow> refuse 422 ''user_id required'' | Some (userId, stepDown) \<Rightarrow>
     if userId = '''' then refuse 422 ''user_id required''
     else case Atoi userId of None \<Rightarrow> refuse 422 ''invalid user_id'' | Some targetID \<Rightarrow>
     if targetID = p_UserID p then refuse 422 ''cannot transfer ownership to yourself''
     else db_read (GetMembership (f 0) targetID (p_OrgID p)) (\<lambda>r. or_missing ''the new owner must already be a member'' r (\<lambda>_.
     db_write (UpdateMemberRole (f 1) (p_OrgID p) targetID RoleOwner) (\<lambda>r. or_internal r (\<lambda>_.
     kv_write (InvalidateMemberRole (g 0) targetID (p_OrgID p)) (
     if stepDown = Some True
     then db_write (UpdateMemberRole (f 2) (p_OrgID p) (p_UserID p) RoleAdmin) (\<lambda>r. or_internal r (\<lambda>_.
       kv_write (InvalidateMemberRole (g 1) (p_UserID p) (p_OrgID p)) (answer ())))
     else answer ())))))))"

section \<open>Invitations\<close>

definition ListInvitations :: "Principal option \<Rightarrow> (nat \<Rightarrow> fault) \<Rightarrow> InvitationDTO list handler" where
  "ListInvitations ctx f =
     in_org ctx (\<lambda>p.
     gate p ActionManageInvitation (
     db_read (store_ListInvitations (f 0) (p_OrgID p)) (\<lambda>r. or_internal r (\<lambda>all.
     answer (map invitationDTO (filter (\<lambda>iv. inv_State iv = InvitePending) all))))))"

definition inviterDisplay :: "fault \<Rightarrow> Invitation \<Rightarrow> tenant_db \<Rightarrow> string" where
  "inviterDisplay f iv db =
     (case inv_CreatedBy iv of
        None \<Rightarrow> ''''
      | Some i \<Rightarrow>
          (case GetUser f i db of
             Inl _ \<Rightarrow> ''''
           | Inr u \<Rightarrow> if usr_Name u = '''' then usr_Email u else usr_Name u @ '' ('' @ usr_Email u @ '')''))"

definition invite_intent :: "Invitation \<Rightarrow> string \<Rightarrow> string \<Rightarrow> EmailIntent" where
  "invite_intent iv orgName inviter =
     \<lparr>em_Type = EmailInvitation, em_Locale = inv_Locale iv, em_MagicLink = None,
      em_Invitation = Some \<lparr>ivr_InvitationID = inv_ID iv, ivr_OrgID = inv_OrgID iv, ivr_OrgName = orgName, ivr_Inviter = inviter,
        ivr_Role = Role_string (inv_Role iv), ivr_Email = inv_Email iv\<rparr>,
      em_ChannelTest = None\<rparr>"

text \<open>\<open>published\<close> is false when the publish fails or no publisher is wired; both are ignored.\<close>

definition publishInviteEmail :: "fault \<Rightarrow> bool \<Rightarrow> Invitation \<Rightarrow> string \<Rightarrow> 'a handler \<Rightarrow> 'a handler" where
  "publishInviteEmail f published iv orgName k w =
     (let i = invite_intent iv orgName (inviterDisplay f iv (wb_db w))
      in k (if published then w\<lparr>wb_mail := wb_mail w @ [i]\<rparr> else w))"

definition org_plan :: "fault \<Rightarrow> int \<Rightarrow> tenant_db \<Rightarrow> Plan" where
  "org_plan f orgID db = orgPlan (case GetOrganization f orgID db of Inl _ \<Rightarrow> None | Inr org \<Rightarrow> Some (org_Plan org))"

definition seatUsage :: "(nat \<Rightarrow> fault) \<Rightarrow> int \<Rightarrow> tenant_db \<Rightarrow> db_error + SeatUsage" where
  "seatUsage f orgID db =
     (case CountMembers (f 0) orgID db of
        Inl e \<Rightarrow> Inl e
      | Inr members \<Rightarrow>
          (case CountPendingInvitations (f 1) orgID db of
             Inl e \<Rightarrow> Inl e
           | Inr pending \<Rightarrow> Inr \<lparr>su_Used = members + pending, su_Cap = SeatCap orgID (org_plan (f 2) orgID db)\<rparr>))"

record InvitationInput =
  ii_Email :: string
  ii_Role :: string
  ii_Locale :: "string option"

definition new_invitation :: "Principal \<Rightarrow> time \<Rightarrow> string \<Rightarrow> Role \<Rightarrow> string \<Rightarrow> Invitation" where
  "new_invitation p now email role locale =
     \<lparr>inv_ID = 0, inv_OrgID = p_OrgID p, inv_Email = email, inv_Role = role, inv_State = InvitePending, inv_TokenHash = '''',
      inv_Locale = locale, inv_CreatedBy = Some (p_UserID p), inv_CreatedAt = zero_time, inv_ExpiresAt = now + inviteTTL,
      inv_AcceptedAt = None\<rparr>"

definition invite_locale :: "Organization \<Rightarrow> string option \<Rightarrow> string" where
  "invite_locale org asked =
     default_to ''en'' (case asked of None \<Rightarrow> org_DefaultLocale org | Some l \<Rightarrow> if l = '''' then org_DefaultLocale org else l)"

definition save_invitation :: "(nat \<Rightarrow> fault) \<Rightarrow> bool \<Rightarrow> time \<Rightarrow> Organization \<Rightarrow> Invitation \<Rightarrow> InvitationDTO handler" where
  "save_invitation f published now org iv =
     db_write (store_CreateInvitation (f 4) now iv) (\<lambda>r.
     case r of
       Inl e \<Rightarrow> if e = ErrUnique then refuse 409 ''a pending invitation for this email already exists'' else internal
     | Inr i \<Rightarrow>
         publishInviteEmail (f 5) published (iv\<lparr>inv_ID := i\<rparr>) (org_Name org) (answer (invitationDTO (iv\<lparr>inv_ID := i\<rparr>))))"

definition CreateInvitation :: "Principal option \<Rightarrow> (nat \<Rightarrow> fault) \<Rightarrow> bool \<Rightarrow> time \<Rightarrow> InvitationInput option \<Rightarrow> InvitationDTO handler" where
  "CreateInvitation ctx f published now body =
     in_org ctx (\<lambda>p.
     gate p ActionInviteMember (
     case body of None \<Rightarrow> refuse 422 ''body required'' | Some b \<Rightarrow>
     let email = TrimSpace (ii_Email b); role = Role_of (ii_Role b) in
     if email = '''' then refuse 422 ''email required''
     else if \<not> validRole role then refuse 422 ''invalid role''
     else if role = RoleOwner then refuse 422 ''cannot invite as owner; use transfer ownership''
     else db_read (seatUsage f (p_OrgID p)) (\<lambda>r. or_internal r (\<lambda>usage.
     if \<not> HasFreeSeat usage then refuse 402 (seatLimitReached (su_Cap usage))
     else db_read (GetOrganization (f 3) (p_OrgID p)) (\<lambda>r. or_internal r (\<lambda>org.
     save_invitation f published now org (new_invitation p now email role (invite_locale org (ii_Locale b)))))))))"

definition RevokeInvitation :: "Principal option \<Rightarrow> (nat \<Rightarrow> fault) \<Rightarrow> string \<Rightarrow> unit handler" where
  "RevokeInvitation ctx f rawID =
     in_org ctx (\<lambda>p.
     gate p ActionManageInvitation (
     case Atoi rawID of None \<Rightarrow> refuse 404 ''invitation not found'' | Some inviteID \<Rightarrow>
     db_read (GetInvitation (f 0) (p_OrgID p) inviteID) (\<lambda>r. or_missing ''invitation not found'' r (\<lambda>_.
     db_write (store_RevokeInvitation (f 1) (p_OrgID p) inviteID) (\<lambda>r. or_internal r (\<lambda>affected.
     if affected = 0 then refuse 409 ''invitation is no longer pending'' else answer ()))))))"

definition ResendInvitation :: "Principal option \<Rightarrow> (nat \<Rightarrow> fault) \<Rightarrow> bool \<Rightarrow> time \<Rightarrow> string \<Rightarrow> InvitationDTO handler" where
  "ResendInvitation ctx f published now rawID =
     in_org ctx (\<lambda>p.
     gate p ActionManageInvitation (
     case Atoi rawID of None \<Rightarrow> refuse 404 ''invitation not found'' | Some inviteID \<Rightarrow>
     db_read (GetInvitation (f 0) (p_OrgID p) inviteID) (\<lambda>r. or_missing ''invitation not found'' r (\<lambda>iv.
     if inv_State iv \<noteq> InvitePending then refuse 409 ''invitation is no longer pending''
     else db_write (store_ResendInvitation (f 1) (p_OrgID p) inviteID (now + inviteTTL)) (\<lambda>r. or_internal r (\<lambda>affected.
     if affected = 0 then refuse 409 ''invitation is no longer pending''
     else db_read (GetOrganization (f 2) (p_OrgID p)) (\<lambda>r. or_internal r (\<lambda>org.
       let iv1 = iv\<lparr>inv_ExpiresAt := now + inviteTTL\<rparr> in
       publishInviteEmail (f 3) published iv1 (org_Name org) (answer (invitationDTO iv1))))))))))"

section \<open>The accept flow\<close>

definition invite_closed :: "time \<Rightarrow> Invitation \<Rightarrow> bool" where
  "invite_closed now iv \<longleftrightarrow> inv_State iv \<noteq> InvitePending \<or> inv_ExpiresAt iv < now"

definition GetInvitationPreview :: "(string \<Rightarrow> string) \<Rightarrow> (nat \<Rightarrow> fault) \<Rightarrow> time \<Rightarrow> string \<Rightarrow> InvitationPreview handler" where
  "GetInvitationPreview sha256 f now token =
     db_read (GetInvitationByToken (f 0) (HashToken sha256 token)) (\<lambda>r. or_missing ''invitation not found'' r (\<lambda>iv.
     if invite_closed now iv then refuse 409 ''this invitation is no longer valid''
     else db_read (GetOrganization (f 1) (inv_OrgID iv)) (\<lambda>r. or_internal r (\<lambda>org.
     db_read (\<lambda>db. case inv_CreatedBy iv of
         None \<Rightarrow> None
       | Some i \<Rightarrow> (case GetUser (f 2) i db of Inl _ \<Rightarrow> None | Inr u \<Rightarrow> Some (usr_Name u))) (\<lambda>inviter.
     answer \<lparr>ip_OrgName = org_Name org, ip_Role = inv_Role iv, ip_State = inv_State iv, ip_Email = inv_Email iv,
              ip_InviterName = inviter\<rparr>)))))"

definition AcceptInvitation :: "(string \<Rightarrow> string) \<Rightarrow> Principal option \<Rightarrow> (nat \<Rightarrow> fault) \<Rightarrow> kv_fault \<Rightarrow> time \<Rightarrow> string \<Rightarrow> OrgMembership handler" where
  "AcceptInvitation sha256 ctx f g now token =
     signed_in ctx (\<lambda>pr.
     db_read (GetInvitationByToken (f 0) (HashToken sha256 token)) (\<lambda>r. or_missing ''invitation not found'' r (\<lambda>iv.
     if invite_closed now iv then refuse 409 ''this invitation is no longer valid''
     else db_read (GetUser (f 1) (p_UserID pr)) (\<lambda>r. or_internal r (\<lambda>u.
     if \<not> usr_EmailVerified u \<or> \<not> lower_eq (usr_Email u) (inv_Email iv)
     then refuse 403 (''this invite was sent to '' @ inv_Email iv @ ''; sign in with that account or ask for a new invite'')
     else db_read (GetMembership (f 2) (p_UserID pr) (inv_OrgID iv)) (\<lambda>r.
     case r of
       Inr existing \<Rightarrow>
         db_write (store_RevokeInvitation (f 3) (inv_OrgID iv) (inv_ID iv)) (\<lambda>_.
         db_read (GetOrganization (f 4) (inv_OrgID iv)) (\<lambda>r. or_internal r (\<lambda>org.
         answer (orgMembershipDTO org (mem_Role existing)))))
     | Inl e \<Rightarrow>
         if e \<noteq> ErrNoRows then internal
         else db_write (store_AcceptInvitation (f 3) now (inv_OrgID iv) (inv_ID iv) (p_UserID pr)) (\<lambda>r.
           case r of
             Inl e \<Rightarrow> if e = ErrNoRows then refuse 409 ''this invitation is no longer valid'' else internal
           | Inr _ \<Rightarrow>
               kv_write (InvalidateMemberRole g (p_UserID pr) (inv_OrgID iv)) (
               db_read (GetOrganization (f 4) (inv_OrgID iv)) (\<lambda>r. or_internal r (\<lambda>org.
               answer (orgMembershipDTO org (inv_Role iv))))))))))))"

section \<open>What a request does to the tables\<close>

definition org_view :: "tenant_db \<Rightarrow> int \<Rightarrow> Membership list \<times> InviteRow list" where
  "org_view db i = (filter (\<lambda>m. mem_OrgID m = i) (tn_members db), filter (\<lambda>r. ir_OrgID r = i) (tn_invites db))"

text \<open>The seats an org uses: its members and its pending invitations.\<close>

definition seats :: "tenant_db \<Rightarrow> int \<Rightarrow> int" where
  "seats db i = int (length (filter (\<lambda>m. mem_OrgID m = i) (tn_members db)))
     + int (length (filter (\<lambda>r. ir_OrgID r = i \<and> ir_pending r) (tn_invites db)))"

definition seat_cap :: "tenant_db \<Rightarrow> int \<Rightarrow> int" where
  "seat_cap db i = SeatCap i (org_plan NoFault i db)"

definition owners :: "tenant_db \<Rightarrow> (int \<times> int) set" where
  "owners db = (\<lambda>m. (mem_OrgID m, mem_UserID m)) ` set (filter (\<lambda>m. mem_Role m = RoleOwner) (tn_members db))"

definition no_owner_invites :: "tenant_db \<Rightarrow> bool" where
  "no_owner_invites db \<longleftrightarrow> list_all (\<lambda>r. inv_Role (ir_Inv r) \<noteq> RoleOwner) (tn_invites db)"

text \<open>
  A request in org \<open>i\<close>: users, orgs and the rows of other orgs stay, the seats of the org grow at most to its cap,
  and nobody becomes an owner unless \<open>own\<close>.
\<close>

definition member_effect :: "int \<Rightarrow> bool \<Rightarrow> tenant_db \<Rightarrow> tenant_db \<Rightarrow> bool" where
  "member_effect i own db db' \<longleftrightarrow>
     tn_users db' = tn_users db \<and> tn_orgs db' = tn_orgs db \<and> (\<forall>j. j \<noteq> i \<longrightarrow> org_view db' j = org_view db j)
     \<and> seats db' i \<le> max (seats db i) (seat_cap db i)
     \<and> (no_owner_invites db \<longrightarrow> no_owner_invites db' \<and> (own \<or> owners db' \<subseteq> owners db))"

lemma seat_cap_same: "tn_orgs db' = tn_orgs db \<Longrightarrow> seat_cap db' i = seat_cap db i"
  by (simp add: seat_cap_def org_plan_def GetOrganization_def)

lemma member_effect_refl: "member_effect i own db db"
  by (simp add: member_effect_def)

lemma member_effect_trans: "member_effect i own a b \<Longrightarrow> member_effect i own b c \<Longrightarrow> member_effect i own a c"
  unfolding member_effect_def using seat_cap_same [of b a i] by (elim conjE, intro conjI) auto

lemma member_effect_own: "member_effect i False a b \<Longrightarrow> member_effect i own a b"
  by (simp add: member_effect_def)

interpretation me: row_effect "member_effect i own" for i own
proof unfold_locales
  show "member_effect i own s (tn_rolled_back s s')" for s s'
    by (simp add: tn_rolled_back_def member_effect_def org_view_def seats_def owners_def no_owner_invites_def)
qed (rule member_effect_refl)

text \<open>Writes of the members of one org.\<close>

lemma member_effect_members:
  assumes "s' = s\<lparr>tn_members := ms\<rparr>" and "\<And>j. j \<noteq> i \<Longrightarrow> filter (\<lambda>m. mem_OrgID m = j) ms = filter (\<lambda>m. mem_OrgID m = j) (tn_members s)"
    and "length (filter (\<lambda>m. mem_OrgID m = i) ms) \<le> length (filter (\<lambda>m. mem_OrgID m = i) (tn_members s))"
    and "own \<or> owners s' \<subseteq> owners s"
  shows "member_effect i own s s'"
  using assms by (auto simp: member_effect_def org_view_def seats_def no_owner_invites_def)

lemma UpdateMemberRole_effect: "member_effect i (role = RoleOwner) s (snd (UpdateMemberRole f i u role s))"
proof -
  have "member_effect i (role = RoleOwner) s s'" if b: "update_role_from s i u role s = (Inr a, s')" for a s'
  proof (cases "select_member s i u = None")
    case True
    then show ?thesis using b by (simp add: update_role_from_def member_effect_refl)
  next
    case False
    then have s': "s' = s\<lparr>tn_members := map (set_role i u role) (tn_members s)\<rparr>"
      using b by (auto simp: update_role_from_def split: if_splits)
    have other: "filter (\<lambda>m. mem_OrgID m = j) (map (set_role i u role) ms) = filter (\<lambda>m. mem_OrgID m = j) ms" if "j \<noteq> i" for j ms
      using that by (induction ms) (auto simp: set_role_def)
    have same: "length (filter (\<lambda>m. mem_OrgID m = i) (map (set_role i u role) ms)) = length (filter (\<lambda>m. mem_OrgID m = i) ms)" for ms
      by (induction ms) (auto simp: set_role_def)
    have "role \<noteq> RoleOwner \<Longrightarrow> owners s' \<subseteq> owners s"
      by (auto simp: owners_def s' set_role_def split: if_splits)
    then show ?thesis using other same by (intro member_effect_members [OF s']) auto
  qed
  then show ?thesis unfolding UpdateMemberRole_def by (rule me.run)
qed

lemma RemoveMember_effect: "member_effect i own s (snd (store_RemoveMember f i u s))"
  unfolding store_RemoveMember_def
proof (rule me.run)
  fix a s'
  assume b: "(case select_member s i u of None \<Rightarrow> (Inr 0, s)
     | Some old \<Rightarrow>
         if \<not> enforce_last_owner s old None then (Inl ErrCheck, s)
         else (Inr 1, s\<lparr>tn_members := filter (\<lambda>m. \<not> (mem_OrgID m = i \<and> mem_UserID m = u)) (tn_members s)\<rparr>)) = (Inr a, s')"
  let ?keep = "\<lambda>m. \<not> (mem_OrgID m = i \<and> mem_UserID m = u)"
  show "member_effect i own s s'"
  proof (cases "select_member s i u = None")
    case True
    then show ?thesis using b by (simp add: member_effect_refl)
  next
    case False
    then have s': "s' = s\<lparr>tn_members := filter ?keep (tn_members s)\<rparr>" using b by (auto split: if_splits)
    have other: "filter (\<lambda>m. mem_OrgID m = j) (filter ?keep ms) = filter (\<lambda>m. mem_OrgID m = j) ms" if "j \<noteq> i" for j ms
      using that by (induction ms) auto
    have less: "length (filter (\<lambda>m. mem_OrgID m = i) (filter ?keep ms)) \<le> length (filter (\<lambda>m. mem_OrgID m = i) ms)" for ms
      by (induction ms) auto
    have "owners s' \<subseteq> owners s" by (auto simp: owners_def s')
    then show ?thesis using other less by (intro member_effect_members [OF s']) auto
  qed
qed

text \<open>Updates of a pending invitation that keep its org and role and open nothing.\<close>

lemma member_effect_invites:
  assumes "s' = s\<lparr>tn_invites := map (\<lambda>r. if on_pending i n r then g r else r) (tn_invites s)\<rparr>"
    and "\<And>r. ir_OrgID (g r) = ir_OrgID r \<and> inv_Role (ir_Inv (g r)) = inv_Role (ir_Inv r)"
  shows "member_effect i own s s'"
proof -
  let ?g = "\<lambda>r. if on_pending i n r then g r else r"
  have other: "filter (\<lambda>r. ir_OrgID r = j) (map ?g rs) = filter (\<lambda>r. ir_OrgID r = j) rs" if "j \<noteq> i" for j rs
    using that assms(2) by (induction rs) (auto simp: on_pending_def)
  have less: "length (filter (\<lambda>r. ir_OrgID r = i \<and> ir_pending r) (map ?g rs)) \<le> length (filter (\<lambda>r. ir_OrgID r = i \<and> ir_pending r) rs)" for rs
    using assms(2) by (induction rs) (auto simp: on_pending_def)
  have "no_owner_invites s \<Longrightarrow> no_owner_invites s'"
    using assms(2) by (auto simp: assms(1) no_owner_invites_def list_all_iff)
  then show ?thesis
    using other less [of "tn_invites s"] by (simp add: assms(1) member_effect_def org_view_def seats_def owners_def)
qed

lemma update_pending_effect:
  assumes "update_pending i n g s = (Inr a, s')"
    and "\<And>r. ir_OrgID (g r) = ir_OrgID r \<and> inv_Role (ir_Inv (g r)) = inv_Role (ir_Inv r)"
  shows "member_effect i own s s'"
  using assms(1) by (intro member_effect_invites [OF _ assms(2)]) (auto simp: update_pending_def)

lemma ResendInvitation_effect: "member_effect i own s (snd (store_ResendInvitation f i n t s))"
  unfolding store_ResendInvitation_def by (rule me.run, erule update_pending_effect) simp

lemma RevokeInvitation_effect: "member_effect i own s (snd (store_RevokeInvitation f i n s))"
  unfolding store_RevokeInvitation_def by (rule me.run, erule update_pending_effect) (simp add: with_state_def)

lemma CreateInvitation_effect:
  assumes "inv_OrgID iv = i" and "inv_Role iv \<noteq> RoleOwner" and "seats s i < seat_cap s i"
  shows "member_effect i own s (snd (store_CreateInvitation f now iv s))"
  unfolding store_CreateInvitation_def
proof (rule me.run)
  fix a s'
  let ?iv = "invite_defaults now iv"
  let ?row = "invite_row now (tn_next_invite s) ?iv"
  assume b: "(let iv = ?iv; newID = tn_next_invite s; s1 = s\<lparr>tn_next_invite := newID + 1\<rparr>
     in if \<not> role_known (inv_Role iv) then (Inl ErrCheck, s1)
        else if list_ex (\<lambda>r. ir_OrgID r = inv_OrgID iv \<and> lower_eq (ir_Email r) (inv_Email iv) \<and> ir_pending r) (tn_invites s)
                \<or> inv_TokenHash iv \<noteq> '''' \<and> token_taken s (inv_TokenHash iv)
        then (Inl ErrUnique, s1)
        else if \<not> list_ex (\<lambda>o'. org_ID o' = inv_OrgID iv) (tn_orgs s)
                \<or> (case inv_CreatedBy iv of None \<Rightarrow> False | Some u \<Rightarrow> \<not> list_ex (\<lambda>v. usr_ID v = u) (tn_users s))
        then (Inl ErrForeignKey, s1)
        else (Inr newID, s1\<lparr>tn_invites := tn_invites s @ [invite_row now newID iv]\<rparr>)) = (Inr a, s')"
  then have s': "s' = s\<lparr>tn_next_invite := tn_next_invite s + 1, tn_invites := tn_invites s @ [?row]\<rparr>"
    by (auto simp: Let_def split: if_splits)
  have row: "ir_OrgID ?row = i" "ir_pending ?row" "inv_Role (ir_Inv ?row) \<noteq> RoleOwner"
    using assms(1,2) by (simp_all add: invite_row_def invite_defaults_def)
  have "seats s' i = seats s i + 1" using row(1,2) by (simp add: s' seats_def)
  moreover have "org_view s' j = org_view s j" if "j \<noteq> i" for j using that row(1) by (simp add: s' org_view_def)
  moreover have "no_owner_invites s \<Longrightarrow> no_owner_invites s'" using row(3) by (simp add: s' no_owner_invites_def)
  moreover have "owners s' = owners s" by (simp add: s' owners_def)
  ultimately show "member_effect i own s s'" using assms(3) by (simp add: member_effect_def s')
qed

text \<open>An accepted invitation turns its seat into that of the member.\<close>

lemma accept_seats:
  assumes "find (on_pending i n) rs = Some r"
  shows "length (filter (\<lambda>r. ir_OrgID r = i \<and> ir_pending r) (map (\<lambda>r. if on_pending i n r then mark_accepted now r else r) rs)) + 1
     \<le> length (filter (\<lambda>r. ir_OrgID r = i \<and> ir_pending r) rs)"
  using assms
proof (induction rs)
  case (Cons x rs)
  have le: "length (filter (\<lambda>r. ir_OrgID r = i \<and> ir_pending r) (map (\<lambda>r. if on_pending i n r then mark_accepted now r else r) rs))
      \<le> length (filter (\<lambda>r. ir_OrgID r = i \<and> ir_pending r) rs)" for rs
    by (induction rs) (auto simp: on_pending_def mark_accepted_def)
  show ?case
  proof (cases "on_pending i n x")
    case True
    then show ?thesis using le [of rs] by (auto simp: on_pending_def mark_accepted_def)
  next
    case False
    then show ?thesis using Cons by (auto simp: on_pending_def split: if_splits)
  qed
qed simp

lemma AcceptInvitation_effect: "member_effect i own s (snd (store_AcceptInvitation f now i n u s))"
  unfolding store_AcceptInvitation_def
proof (rule me.run)
  fix a s'
  assume b: "(case find (on_pending i n) (tn_invites s) of None \<Rightarrow> (Inl ErrNoRows, s)
     | Some r \<Rightarrow> insert_member now i u (inv_Role (ir_Inv r)) (snd (update_pending i n (mark_accepted now) s))) = (Inr a, s')"
  then obtain r where r: "find (on_pending i n) (tn_invites s) = Some r"
    and m: "insert_member now i u (inv_Role (ir_Inv r)) (snd (update_pending i n (mark_accepted now) s)) = (Inr a, s')"
    by (auto split: option.splits)
  let ?s1 = "snd (update_pending i n (mark_accepted now) s)"
  let ?g = "\<lambda>r. if on_pending i n r then mark_accepted now r else r"
  have s1: "?s1 = s\<lparr>tn_invites := map ?g (tn_invites s)\<rparr>" by (simp add: update_pending_def)
  obtain row where s': "tn_members s' = tn_members s @ [row]" "tn_invites s' = map ?g (tn_invites s)"
      "tn_users s' = tn_users s" "tn_orgs s' = tn_orgs s" and row: "mem_OrgID row = i" "mem_Role row = inv_Role (ir_Inv r)"
    using insert_member_ok [OF m] by (auto simp: s1)
  have e1: "member_effect i False s ?s1" by (rule member_effect_invites [OF s1]) (simp add: mark_accepted_def)
  have "seats s' i \<le> seats s i"
    using accept_seats [OF r, of now] by (simp add: seats_def s' row)
  moreover have "org_view s' j = org_view s j" if "j \<noteq> i" for j
  proof -
    have "org_view s' j = org_view ?s1 j" using that row by (simp add: org_view_def s' s1)
    then show ?thesis using e1 that by (simp add: member_effect_def)
  qed
  moreover have "no_owner_invites s \<Longrightarrow> no_owner_invites s' \<and> owners s' \<subseteq> owners s"
  proof -
    assume w: "no_owner_invites s"
    then have "mem_Role row \<noteq> RoleOwner" using find_Some_set [OF r] row by (auto simp: no_owner_invites_def list_all_iff)
    then have "owners s' \<subseteq> owners s" by (simp add: owners_def s')
    moreover have "no_owner_invites s'" using w e1 by (simp add: member_effect_def no_owner_invites_def s' s1)
    ultimately show ?thesis by simp
  qed
  ultimately show "member_effect i own s s'" by (auto simp: member_effect_def s')
qed

text \<open>The same with the invariant of the tables, as an effect of handlers.\<close>

definition member_step :: "int \<Rightarrow> bool \<Rightarrow> tenant_db \<Rightarrow> tenant_db \<Rightarrow> bool" where
  "member_step i own db db' \<longleftrightarrow> member_effect i own db db' \<and> (wf_tenant db \<longrightarrow> wf_tenant db')"

interpretation ms: table_effect "member_step i own" for i own
  by unfold_locales (auto simp: member_step_def intro: member_effect_refl member_effect_trans)

lemma member_step_wf: "member_effect i own db db' \<Longrightarrow> tn_step db db' \<Longrightarrow> member_step i own db db'"
  using tn_step_wf by (auto simp: member_step_def)

lemma UpdateMemberRole_step: "role = RoleOwner \<longrightarrow> own \<Longrightarrow> member_step i own s (snd (UpdateMemberRole f i u role s))"
  using UpdateMemberRole_effect [of i role s f u]
  by (intro member_step_wf tn_step.intros) (auto simp: member_effect_def)

lemma RemoveMember_step: "member_step i own s (snd (store_RemoveMember f i u s))"
  by (rule member_step_wf [OF RemoveMember_effect]) (rule tn_step.intros)

lemma ResendInvitation_step: "member_step i own s (snd (store_ResendInvitation f i n t s))"
  by (rule member_step_wf [OF ResendInvitation_effect]) (rule tn_step.intros)

lemma RevokeInvitation_step: "member_step i own s (snd (store_RevokeInvitation f i n s))"
  by (rule member_step_wf [OF RevokeInvitation_effect]) (rule tn_step.intros)

lemma AcceptInvitation_step: "member_step i own s (snd (store_AcceptInvitation f now i n u s))"
  by (rule member_step_wf [OF AcceptInvitation_effect]) (rule tn_step.intros)

lemma CreateInvitation_step:
  "inv_OrgID iv = i \<Longrightarrow> inv_Role iv \<noteq> RoleOwner \<Longrightarrow> seats s i < seat_cap s i \<Longrightarrow> member_step i own s (snd (store_CreateInvitation f now iv s))"
  by (rule member_step_wf [OF CreateInvitation_effect]) (assumption+, rule tn_step.intros)

lemmas step_rules = ms.rules ms.t_write RemoveMember_step ResendInvitation_step RevokeInvitation_step AcceptInvitation_step

text \<open>The caller's org, and whether the caller is an owner there; 0 and no for a request with neither.\<close>

definition ctx_org :: "Principal option \<Rightarrow> int" where
  "ctx_org ctx = (case ctx of None \<Rightarrow> 0 | Some p \<Rightarrow> p_OrgID p)"

definition ctx_owner :: "Principal option \<Rightarrow> bool" where
  "ctx_owner ctx = (case ctx of None \<Rightarrow> False | Some p \<Rightarrow> p_Role p = RoleOwner)"

lemma humanInOrg_ctx: "humanInOrg ctx = Some p \<Longrightarrow> ctx = Some p \<and> ctx_org ctx = p_OrgID p \<and> ctx_owner ctx = (p_Role p = RoleOwner)"
  by (auto simp: humanInOrg_def ctx_org_def ctx_owner_def split: option.splits if_splits)

lemma tables_unless_denied: "(dec_Allowed d \<Longrightarrow> tables (member_step i own) k w) \<Longrightarrow> tables (member_step i own) (unless_denied d k) w"
  by (simp add: unless_denied_def ms.t_end)

lemma tables_if_affected:
  "tables (member_step i own) h w \<Longrightarrow> tables (member_step i own) k w \<Longrightarrow> tables (member_step i own) (if_affected msg r h k) w"
  by (simp add: if_affected_def ms.t_end split: sum.split)

lemma tables_publish: "(\<And>w'. wb_db w' = wb_db w \<Longrightarrow> tables (member_step i own) k w') \<Longrightarrow> tables (member_step i own) (publishInviteEmail f b iv nm k) w"
  by (simp add: publishInviteEmail_def tables_def Let_def)

lemmas member_rules = step_rules tables_unless_denied tables_if_affected tables_publish

text \<open>Only an owner may hand out ownership.\<close>

lemma owner_action:
  assumes "dec_Allowed (Can (principal_Actor p) ActionTransferOwnership r)"
  shows "p_Role p = RoleOwner"
  using assms by (cases "p_Role p") (auto simp: Can_def principal_Actor_def deny_def split: if_splits)

lemma owner_change:
  assumes "dec_Allowed (Can (principal_Actor p) ActionChangeMemberRole (role_resource i t new n))"
  shows "new = RoleOwner \<longrightarrow> p_Role p = RoleOwner"
  using assms by (cases "p_Role p") (auto simp: Can_def principal_Actor_def guardChangeRole_def role_resource_def deny_def split: if_splits)

lemma ListMembers_step: "tables (member_step i own) (ListMembers ctx f) w"
  unfolding ListMembers_def by (intro member_rules)

lemma ctx_fields [simp]: "ctx_org (Some p) = p_OrgID p" "ctx_owner (Some p) = (p_Role p = RoleOwner)"
  by (simp_all add: ctx_org_def ctx_owner_def)

lemma ChangeMemberRole_step: "tables (member_step (ctx_org ctx) (ctx_owner ctx)) (ChangeMemberRole ctx f g userId body) w"
  unfolding ChangeMemberRole_def
  by (intro member_rules) (auto dest!: humanInOrg_ctx owner_change intro!: UpdateMemberRole_step)

lemma RemoveMember_handler_step: "tables (member_step (ctx_org ctx) own) (RemoveMember ctx f g userId) w"
  unfolding RemoveMember_def by (intro member_rules) (auto dest!: humanInOrg_ctx intro: RemoveMember_step)

lemma LeaveOrg_step: "tables (member_step (ctx_org ctx) own) (LeaveOrg ctx f g) w"
  unfolding LeaveOrg_def by (intro member_rules) (auto dest!: humanInOrg_ctx intro: RemoveMember_step)

lemma TransferOwnership_step: "tables (member_step (ctx_org ctx) (ctx_owner ctx)) (TransferOwnership ctx f g body) w"
  unfolding TransferOwnership_def
  by (intro member_rules) (auto dest!: humanInOrg_ctx dest: owner_action intro!: UpdateMemberRole_step)

lemma ListInvitations_step: "tables (member_step i own) (ListInvitations ctx f) w"
  unfolding ListInvitations_def by (intro member_rules)

lemma free_plan_least: "SeatCap i PlanTier1 \<le> SeatCap i plan"
  by (cases plan) (simp_all add: SeatCap_def table_or_free_def)

lemma org_plan_cap: "SeatCap i (org_plan f i db) \<le> seat_cap db i"
  unfolding seat_cap_def org_plan_def GetOrganization_def using free_plan_least
  by (cases f) (auto simp: tn_read_def orgPlan_def)

lemma seatUsage_free: "seatUsage f i db = Inr usage \<Longrightarrow> HasFreeSeat usage \<Longrightarrow> seats db i < seat_cap db i"
  using org_plan_cap [of i "f 2" db]
  by (auto simp: seatUsage_def HasFreeSeat_def seats_def CountMembers_def CountPendingInvitations_def tn_read_def
      split: sum.splits if_splits)

lemma CreateInvitation_handler_step: "tables (member_step (ctx_org ctx) own) (CreateInvitation ctx f published now body) w"
  unfolding CreateInvitation_def save_invitation_def
  by (intro member_rules) (auto dest!: humanInOrg_ctx dest: seatUsage_free intro!: CreateInvitation_step simp: new_invitation_def)

lemma RevokeInvitation_handler_step: "tables (member_step (ctx_org ctx) own) (RevokeInvitation ctx f rawID) w"
  unfolding RevokeInvitation_def by (intro member_rules) (auto dest!: humanInOrg_ctx intro: RevokeInvitation_step)

lemma ResendInvitation_handler_step: "tables (member_step (ctx_org ctx) own) (ResendInvitation ctx f published now rawID) w"
  unfolding ResendInvitation_def by (intro member_rules) (auto dest!: humanInOrg_ctx intro: ResendInvitation_step)

lemma Preview_step: "tables (member_step i own) (GetInvitationPreview sha256 f now token) w"
  unfolding GetInvitationPreview_def by (intro member_rules)

text \<open>The org a token opens, 0 if none.\<close>

definition token_org :: "(string \<Rightarrow> string) \<Rightarrow> tenant_db \<Rightarrow> string \<Rightarrow> int" where
  "token_org sha256 db token =
     (case GetInvitationByToken NoFault (HashToken sha256 token) db of Inl _ \<Rightarrow> 0 | Inr iv \<Rightarrow> inv_OrgID iv)"

lemma token_read: "GetInvitationByToken f (HashToken sha256 token) db = Inr iv \<Longrightarrow> token_org sha256 db token = inv_OrgID iv"
  by (auto simp: token_org_def GetInvitationByToken_def tn_read_def split: if_splits)

lemma AcceptInvitation_handler_step:
  "tables (member_step (token_org sha256 (wb_db w) token) own) (AcceptInvitation sha256 ctx f g now token) w"
  unfolding AcceptInvitation_def
  by (intro member_rules) (auto dest!: token_read intro: AcceptInvitation_step RevokeInvitation_step)

section \<open>Requests\<close>

datatype member_request =
    ReqListMembers "nat \<Rightarrow> fault"
  | ReqChangeRole "nat \<Rightarrow> fault" kv_fault string "string option"
  | ReqRemoveMember "nat \<Rightarrow> fault" kv_fault string
  | ReqLeave "nat \<Rightarrow> fault" kv_fault
  | ReqTransfer "nat \<Rightarrow> fault" "nat \<Rightarrow> kv_fault" "(string \<times> bool option) option"
  | ReqListInvites "nat \<Rightarrow> fault"
  | ReqInvite "nat \<Rightarrow> fault" bool time "InvitationInput option"
  | ReqRevokeInvite "nat \<Rightarrow> fault" string
  | ReqResendInvite "nat \<Rightarrow> fault" bool time string
  | ReqPreview "nat \<Rightarrow> fault" time string
  | ReqAccept "nat \<Rightarrow> fault" kv_fault time string

fun serve_member :: "(string \<Rightarrow> string) \<Rightarrow> Principal option \<Rightarrow> member_request \<Rightarrow> web \<Rightarrow> web" where
  "serve_member sha256 ctx (ReqListMembers f) w = snd (ListMembers ctx f w)"
| "serve_member sha256 ctx (ReqChangeRole f g u b) w = snd (ChangeMemberRole ctx f g u b w)"
| "serve_member sha256 ctx (ReqRemoveMember f g u) w = snd (RemoveMember ctx f g u w)"
| "serve_member sha256 ctx (ReqLeave f g) w = snd (LeaveOrg ctx f g w)"
| "serve_member sha256 ctx (ReqTransfer f g b) w = snd (TransferOwnership ctx f g b w)"
| "serve_member sha256 ctx (ReqListInvites f) w = snd (ListInvitations ctx f w)"
| "serve_member sha256 ctx (ReqInvite f pub now b) w = snd (CreateInvitation ctx f pub now b w)"
| "serve_member sha256 ctx (ReqRevokeInvite f i) w = snd (RevokeInvitation ctx f i w)"
| "serve_member sha256 ctx (ReqResendInvite f pub now i) w = snd (ResendInvitation ctx f pub now i w)"
| "serve_member sha256 ctx (ReqPreview f now t) w = snd (GetInvitationPreview sha256 f now t w)"
| "serve_member sha256 ctx (ReqAccept f g now t) w = snd (AcceptInvitation sha256 ctx f g now t w)"

text \<open>The org a request works on, and whether it may make an owner.\<close>

fun request_org :: "(string \<Rightarrow> string) \<Rightarrow> Principal option \<Rightarrow> member_request \<Rightarrow> tenant_db \<Rightarrow> int" where
  "request_org sha256 ctx (ReqAccept f g now t) db = token_org sha256 db t"
| "request_org sha256 ctx _ db = ctx_org ctx"

fun may_own :: "Principal option \<Rightarrow> member_request \<Rightarrow> bool" where
  "may_own ctx (ReqChangeRole f g u b) = ctx_owner ctx"
| "may_own ctx (ReqTransfer f g b) = ctx_owner ctx"
| "may_own ctx _ = False"

lemmas handler_steps = ListMembers_step ChangeMemberRole_step RemoveMember_handler_step LeaveOrg_step TransferOwnership_step
  ListInvitations_step CreateInvitation_handler_step RevokeInvitation_handler_step ResendInvitation_handler_step
  Preview_step AcceptInvitation_handler_step

lemma serve_member_step:
  "member_step (request_org sha256 ctx req (wb_db w)) (may_own ctx req) (wb_db w) (wb_db (serve_member sha256 ctx req w))"
  by (cases req) (simp_all add: handler_steps [unfolded tables_def])

fun serve_members :: "(string \<Rightarrow> string) \<Rightarrow> (Principal option \<times> member_request) list \<Rightarrow> web \<Rightarrow> web" where
  "serve_members sha256 [] w = w"
| "serve_members sha256 ((ctx, req) # rest) w = serve_members sha256 rest (serve_member sha256 ctx req w)"

section \<open>Properties of members and invitations\<close>

text \<open>
  C12. Over any sequence of requests by anybody, with any faults, the tables stay well formed (every active org keeps
  an owner), no invitation gives ownership, and the members and pending invitations of an org never exceed the seats
  of its plan, or what it had if that was more.
\<close>

theorem seat_cap_invariant:
  assumes "wf_tenant (wb_db w)" and "no_owner_invites (wb_db w)"
  shows "wf_tenant (wb_db (serve_members sha256 reqs w)) \<and> no_owner_invites (wb_db (serve_members sha256 reqs w))
    \<and> seats (wb_db (serve_members sha256 reqs w)) i \<le> max (seats (wb_db w) i) (SeatCap i (org_plan NoFault i (wb_db w)))"
  using assms
proof (induction reqs arbitrary: w)
  case (Cons a reqs)
  obtain ctx req where a: "a = (ctx, req)" by fastforce
  let ?w1 = "serve_member sha256 ctx req w"
  have st: "member_step (request_org sha256 ctx req (wb_db w)) (may_own ctx req) (wb_db w) (wb_db ?w1)" by (rule serve_member_step)
  then have w1: "wf_tenant (wb_db ?w1)" "no_owner_invites (wb_db ?w1)" using Cons.prems by (simp_all add: member_step_def member_effect_def)
  have eff: "tn_orgs (wb_db ?w1) = tn_orgs (wb_db w)"
    "\<And>j. j \<noteq> request_org sha256 ctx req (wb_db w) \<Longrightarrow> org_view (wb_db ?w1) j = org_view (wb_db w) j"
    "seats (wb_db ?w1) (request_org sha256 ctx req (wb_db w))
       \<le> max (seats (wb_db w) (request_org sha256 ctx req (wb_db w))) (seat_cap (wb_db w) (request_org sha256 ctx req (wb_db w)))"
    using st by (simp_all add: member_step_def member_effect_def)
  have view: "seats db' j = seats db j" if "org_view db' j = org_view db j" for db db' j
  proof -
    have i: "filter (\<lambda>r. ir_OrgID r = j) (tn_invites db') = filter (\<lambda>r. ir_OrgID r = j) (tn_invites db)"
      and m: "filter (\<lambda>m. mem_OrgID m = j) (tn_members db') = filter (\<lambda>m. mem_OrgID m = j) (tn_members db)"
      using that by (simp_all add: org_view_def)
    show ?thesis
      using arg_cong [OF i, of "filter (\<lambda>r. ir_pending r)"] m unfolding filter_filter by (simp add: seats_def)
  qed
  have "seats (wb_db ?w1) i \<le> max (seats (wb_db w) i) (seat_cap (wb_db w) i)"
    using eff(3) view [OF eff(2)] by (cases "i = request_org sha256 ctx req (wb_db w)") auto
  moreover have "seat_cap (wb_db ?w1) i = seat_cap (wb_db w) i" by (rule seat_cap_same [OF eff(1)])
  ultimately show ?case using Cons.IH [OF w1] by (auto simp: a seat_cap_def)
qed simp

text \<open>
  C13. A request touches no user, no org and no row of another org than that of its caller, or of the invitation for an
  accept; and it makes somebody an owner only if its caller acts as an owner of that org.
\<close>

theorem member_request_contained:
  assumes "no_owner_invites (wb_db w)"
  shows "tn_users (wb_db (serve_member sha256 ctx req w)) = tn_users (wb_db w)
    \<and> tn_orgs (wb_db (serve_member sha256 ctx req w)) = tn_orgs (wb_db w)
    \<and> (\<forall>j. j \<noteq> request_org sha256 ctx req (wb_db w) \<longrightarrow>
           org_view (wb_db (serve_member sha256 ctx req w)) j = org_view (wb_db w) j)
    \<and> ((j, u) \<in> owners (wb_db (serve_member sha256 ctx req w)) \<longrightarrow>
         (j, u) \<in> owners (wb_db w) \<or> (\<exists>p. ctx = Some p \<and> p_OrgID p = j \<and> p_Role p = RoleOwner))"
proof -
  let ?db' = "wb_db (serve_member sha256 ctx req w)" and ?i = "request_org sha256 ctx req (wb_db w)"
  have e: "member_effect ?i (may_own ctx req) (wb_db w) ?db'" using serve_member_step by (simp add: member_step_def)
  have view: "(j, u) \<in> owners db \<longleftrightarrow> (\<exists>m \<in> set (fst (org_view db j)). mem_UserID m = u \<and> mem_Role m = RoleOwner)" for db
    by (auto simp: owners_def org_view_def)
  have "(\<exists>p. ctx = Some p \<and> p_OrgID p = j \<and> p_Role p = RoleOwner)" if n: "(j, u) \<in> owners ?db'" "(j, u) \<notin> owners (wb_db w)"
  proof -
    have "j = ?i" using e n view by (metis member_effect_def)
    moreover have own: "may_own ctx req" using e n assms by (auto simp: member_effect_def)
    then have "?i = ctx_org ctx" "ctx_owner ctx" by (cases req; simp)+
    ultimately show ?thesis by (cases ctx) (auto simp: ctx_org_def ctx_owner_def)
  qed
  then show ?thesis using e by (auto simp: member_effect_def)
qed

section \<open>An invitation from the click to the membership\<close>

text \<open>What a created invitation leaves behind.\<close>

lemma invite_defaults_fields [simp]:
  "inv_OrgID (invite_defaults now iv) = inv_OrgID iv" "inv_Role (invite_defaults now iv) = inv_Role iv"
  "inv_Email (invite_defaults now iv) = inv_Email iv" "inv_TokenHash (invite_defaults now iv) = inv_TokenHash iv"
  by (simp_all add: invite_defaults_def)

lemma store_CreateInvitation_ok:
  assumes "store_CreateInvitation f now iv s = (Inr i, s')"
  shows "i = tn_next_invite s \<and> role_known (inv_Role iv) \<and> inv_OrgID iv \<in> org_ID ` set (tn_orgs s)
    \<and> s' = s\<lparr>tn_next_invite := i + 1, tn_invites := tn_invites s @ [invite_row now i (invite_defaults now iv)]\<rparr>"
  using assms by (auto simp: store_CreateInvitation_def tn_run_def Let_def list_ex_image split: if_splits prod.splits sum.splits)

lemma save_invitation_Answer:
  assumes "save_invitation f True now org iv w = (Answer dto, w1)"
  shows "\<exists>inviter. store_CreateInvitation (f 4) now iv (wb_db w) = (Inr (tn_next_invite (wb_db w)), wb_db w1)
    \<and> wb_mail w1 = wb_mail w @ [invite_intent (iv\<lparr>inv_ID := tn_next_invite (wb_db w)\<rparr>) (org_Name org) inviter]"
proof -
  obtain r db where o': "store_CreateInvitation (f 4) now iv (wb_db w) = (r, db)" by fastforce
  with assms obtain i where "r = Inr i" by (cases r) (auto simp: save_invitation_def db_write_def refuse_def internal_def split: if_splits)
  with o' assms store_CreateInvitation_ok [of "f 4" now iv "wb_db w" i db] show ?thesis
    by (auto simp: save_invitation_def db_write_def publishInviteEmail_def Let_def answer_def)
qed

lemma CreateInvitation_Answer:
  assumes "CreateInvitation (Some p) f True now (Some b) w = (Answer dto, w1)"
  shows "\<exists>org locale. GetOrganization (f 3) (p_OrgID p) (wb_db w) = Inr org \<and> Role_of (ii_Role b) \<noteq> RoleOwner \<and> p_OrgID p \<noteq> 0
    \<and> save_invitation f True now org (new_invitation p now (TrimSpace (ii_Email b)) (Role_of (ii_Role b)) locale) w = (Answer dto, w1)"
  using assms
  by (auto simp: CreateInvitation_def in_org_def gate_def Let_def db_read_def or_internal_def refuse_def internal_def humanInOrg_def
      split: if_splits sum.splits option.splits)

text \<open>The mailer gives the new row its token and sends the link.\<close>

definition lucky :: "string \<Rightarrow> email_luck" where
  "lucky rnd = \<lparr>el_random = Some rnd, el_kv = KvOk, el_db = NoFault, el_sent = True\<rparr>"

lemma map_last:
  assumes "\<And>x. x \<in> set xs \<Longrightarrow> \<not> P x" and "P y"
  shows "map (\<lambda>x. if P x then g x else x) (xs @ [y]) = xs @ [g y]"
proof -
  have "map (\<lambda>x. if P x then g x else x) xs = xs" using assms(1) by (intro map_idI) auto
  then show ?thesis using assms(2) by simp
qed

lemma SetInvitationToken_last:
  assumes "tn_invites s = rs @ [row]" and "\<And>r. r \<in> set rs \<Longrightarrow> ir_ID r \<noteq> ir_ID row" and "ir_pending row"
    and "\<And>r. r \<in> set rs \<Longrightarrow> ir_TokenHash r \<noteq> Some h"
  shows "SetInvitationToken NoFault (ir_OrgID row) (ir_ID row) h s = (Inr 1, s\<lparr>tn_invites := rs @ [row\<lparr>ir_TokenHash := Some h\<rparr>]\<rparr>)"
proof -
  let ?P = "on_pending (ir_OrgID row) (ir_ID row)"
  have no: "\<not> ?P r" if "r \<in> set rs" for r using that assms(2) by (auto simp: on_pending_def)
  have yes: "?P row" using assms(3) by (simp add: on_pending_def)
  have "filter ?P (rs @ [row]) = [row]" using no yes by (simp add: filter_empty_conv)
  moreover have "\<not> list_ex (\<lambda>r. ir_ID r \<noteq> ir_ID row \<and> ir_TokenHash r = Some h) (rs @ [row])"
    using assms(4) by (auto simp: list_ex_iff)
  ultimately show ?thesis
    using map_last [of rs ?P row "\<lambda>r. r\<lparr>ir_TokenHash := Some h\<rparr>"] no yes
    by (simp add: SetInvitationToken_def tn_run_def update_pending_def assms(1))
qed

lemma store_AcceptInvitation_last:
  assumes "tn_invites s = rs @ [row]" and "\<And>r. r \<in> set rs \<Longrightarrow> ir_ID r \<noteq> ir_ID row" and "ir_pending row"
    and "role_known (inv_Role (ir_Inv row))" and "ir_OrgID row \<in> org_ID ` set (tn_orgs s)" and "u \<in> usr_ID ` set (tn_users s)"
    and "select_member s (ir_OrgID row) u = None"
  shows "\<exists>s'. store_AcceptInvitation NoFault now (ir_OrgID row) (ir_ID row) u s = (Inr (tn_next_member s), s')
    \<and> select_member s' (ir_OrgID row) u
      = Some \<lparr>mem_ID = tn_next_member s, mem_OrgID = ir_OrgID row, mem_UserID = u, mem_Role = inv_Role (ir_Inv row), mem_CreatedAt = now\<rparr>
    \<and> tn_orgs s' = tn_orgs s"
proof -
  let ?P = "on_pending (ir_OrgID row) (ir_ID row)"
  have "find ?P rs = None" using assms(2) by (auto simp: find_None_iff on_pending_def)
  then have f: "find ?P (tn_invites s) = Some row" using assms(1,3) by (simp add: find_append on_pending_def)
  have none: "\<not> list_ex (\<lambda>m. mem_OrgID m = ir_OrgID row \<and> mem_UserID m = u) (tn_members s)"
    using assms(7) by (auto simp: select_member_def find_None_iff list_ex_iff)
  show ?thesis
    using f none assms(4-7)
    by (simp add: store_AcceptInvitation_def tn_run_def insert_member_def update_pending_def Let_def list_ex_iff select_member_def)
       (auto simp: find_append)
qed

lemma AcceptInvitation_ok:
  assumes "GetInvitationByToken NoFault (HashToken sha256 tok) (wb_db w) = Inr iv" and "\<not> invite_closed now iv"
    and "p_Kind q = ActorHuman" and "find (\<lambda>u. usr_ID u = p_UserID q) (tn_users (wb_db w)) = Some u"
    and "usr_EmailVerified u" and "lower_eq (usr_Email u) (inv_Email iv)"
    and "select_member (wb_db w) (inv_OrgID iv) (p_UserID q) = None"
    and "store_AcceptInvitation NoFault now (inv_OrgID iv) (inv_ID iv) (p_UserID q) (wb_db w) = (Inr i, db')"
    and "find (\<lambda>org. org_ID org = inv_OrgID iv) (tn_orgs db') = Some org"
  shows "\<exists>w2. AcceptInvitation sha256 (Some q) (\<lambda>_. NoFault) g now tok w = (Answer (orgMembershipDTO org (inv_Role iv)), w2) \<and> wb_db w2 = db'"
  using assms
  by (simp add: AcceptInvitation_def signed_in_def db_read_def or_missing_def or_internal_def db_write_def kv_write_def answer_def
      GetUser_def GetMembership_def GetOrganization_def tn_read_def row_or_none_def)

text \<open>
  C14. Inviting somebody works end to end.  After an invitation was created, the mailer that handles the published intent sends one
  mail to the invited address, and its text is rendered from the link that ends in the random token, the name of the org and the invited role;
  who presents the token of that link within seven days, signed in with that verified address and not yet a member, is a
  member with the invited role and nothing more.
\<close>

theorem invitation_end_to_end:
  assumes created: "CreateInvitation (Some p) f True now (Some b) w = (Answer dto, w1)" and wf: "wf_tenant (wb_db w)"
    and fresh: "\<not> token_taken (wb_db w) (HashToken (ee_sha256 env) (RawURLEncoding_Encode rnd))" "HashToken (ee_sha256 env) (RawURLEncoding_Encode rnd) \<noteq> ''''"
    and mailed: "email_handle env (lucky rnd) (Some (last (wb_mail w1))) \<lparr>es_kv = kv0, es_db = wb_db w1, es_sent = []\<rparr> = (ok, s2)"
    and next_id: "0 < tn_next_invite (wb_db w)"
    and accepted: "AcceptInvitation (ee_sha256 env) (Some q) (\<lambda>_. NoFault) g now2 (RawURLEncoding_Encode rnd) (w1\<lparr>wb_db := es_db s2\<rparr>) = (r, w2)"
    and guest: "p_Kind q = ActorHuman" "find (\<lambda>u. usr_ID u = p_UserID q) (tn_users (wb_db w)) = Some u" "usr_EmailVerified u"
      "lower_eq (usr_Email u) (TrimSpace (ii_Email b))" "select_member (wb_db w) (p_OrgID p) (p_UserID q) = None"
    and intime: "now2 \<le> now + 7 * 24 * Hour"
  shows "ok
    \<and> (\<exists>org \<in> set (tn_orgs (wb_db w)). \<exists>inviter lc. org_ID org = p_OrgID p
         \<and> es_sent s2 = [mail_of (TrimSpace (ii_Email b)) (ee_fromAccount env)
              (mt_InviteEmail (ee_texts env) (org_Name org) inviter (Role_string (Role_of (ii_Role b)))
                (accept_url (ee_appBaseURL env) (RawURLEncoding_Encode rnd)) lc)])
    \<and> (\<exists>m. r = Answer m \<and> om_Role m = Role_of (ii_Role b))
    \<and> member_role (wb_db w2) (p_UserID q, p_OrgID p) = Some (Role_of (ii_Role b)) \<and> Role_of (ii_Role b) \<noteq> RoleOwner"
proof -
  let ?s = "wb_db w" and ?n = "tn_next_invite (wb_db w)" and ?h = "HashToken (ee_sha256 env) (RawURLEncoding_Encode rnd)"
  from CreateInvitation_Answer [OF created] obtain org lc where
    org: "GetOrganization (f 3) (p_OrgID p) ?s = Inr org" "Role_of (ii_Role b) \<noteq> RoleOwner" "p_OrgID p \<noteq> 0"
    and sv: "save_invitation f True now org (new_invitation p now (TrimSpace (ii_Email b)) (Role_of (ii_Role b)) lc) w = (Answer dto, w1)" by blast
  let ?iv = "new_invitation p now (TrimSpace (ii_Email b)) (Role_of (ii_Role b)) lc"
  let ?row = "invite_row now ?n (invite_defaults now ?iv)"
  have iv: "inv_OrgID ?iv = p_OrgID p" "inv_Role ?iv = Role_of (ii_Role b)" "inv_Email ?iv = TrimSpace (ii_Email b)" "inv_TokenHash ?iv = ''''"
    by (simp_all add: new_invitation_def)
  from save_invitation_Answer [OF sv] obtain inviter where
    st: "store_CreateInvitation (f 4) now ?iv ?s = (Inr ?n, wb_db w1)"
    and ml: "wb_mail w1 = wb_mail w @ [invite_intent (?iv\<lparr>inv_ID := ?n\<rparr>) (org_Name org) inviter]" by blast
  have db1: "wb_db w1 = ?s\<lparr>tn_next_invite := ?n + 1, tn_invites := tn_invites ?s @ [?row]\<rparr>" "role_known (Role_of (ii_Role b))"
    "p_OrgID p \<in> org_ID ` set (tn_orgs ?s)"
    using store_CreateInvitation_ok [OF st] iv by simp_all
  have row: "ir_ID ?row = ?n" "ir_OrgID ?row = p_OrgID p" "ir_pending ?row" "inv_Role (ir_Inv ?row) = Role_of (ii_Role b)"
    "inv_Email (ir_Inv ?row) = TrimSpace (ii_Email b)" "inv_ExpiresAt (ir_Inv ?row) = now + 7 * 24 * Hour"
    using iv by (simp_all add: invite_row_def) (simp add: invite_defaults_def new_invitation_def inviteTTL_def invite_ttl_def)
  have old: "ir_ID x \<noteq> ?n" if "x \<in> set (tn_invites ?s)" for x
    using wf that by (auto simp: wf_tenant_def wf_rows_def wf_invites_def wf_ids_def list_all_iff)
  have unused: "ir_TokenHash x \<noteq> Some ?h" if "x \<in> set (tn_invites ?s)" for x
    using fresh(1) that by (auto simp: token_taken_def list_ex_iff)
  have tok: "SetInvitationToken NoFault (p_OrgID p) ?n ?h (wb_db w1) = (Inr 1, (wb_db w1)\<lparr>tn_invites := tn_invites ?s @ [?row\<lparr>ir_TokenHash := Some ?h\<rparr>]\<rparr>)"
    using SetInvitationToken_last [of "wb_db w1" "tn_invites ?s" ?row ?h] old unused row db1(1) by simp
  let ?db2 = "(wb_db w1)\<lparr>tn_invites := tn_invites ?s @ [?row\<lparr>ir_TokenHash := Some ?h\<rparr>]\<rparr>"
  have s2: "ok" "es_db s2 = ?db2" "es_sent s2 = [mail_of (TrimSpace (ii_Email b)) (ee_fromAccount env)
      (mt_InviteEmail (ee_texts env) (org_Name org) inviter (Role_string (Role_of (ii_Role b)))
        (accept_url (ee_appBaseURL env) (RawURLEncoding_Encode rnd)) (inv_Locale ?iv))]"
    using mailed tok org(3) next_id iv
    by (auto simp: ml email_handle_def invite_intent_def sendInvitation_def lucky_def NewOpaqueToken_def mailer_Send_def)
  have theirs: "org \<in> set (tn_orgs ?s) \<and> org_ID org = p_OrgID p"
    using org(1) find_Some_set by (fastforce simp: GetOrganization_def tn_read_def row_or_none_def split: if_splits option.splits)
  let ?row2 = "?row\<lparr>ir_TokenHash := Some ?h\<rparr>"
  have "find (\<lambda>x. ir_TokenHash x = Some ?h \<and> ?h \<noteq> '''') (tn_invites ?s) = None" using unused by (auto simp: find_None_iff)
  then have get: "GetInvitationByToken NoFault ?h ?db2 = Inr (scanInvite ?row2)"
    using fresh(2) by (simp add: GetInvitationByToken_def tn_read_def row_or_none_def find_append)
  have sc: "inv_OrgID (scanInvite ?row2) = p_OrgID p" "inv_ID (scanInvite ?row2) = ?n" "inv_Role (scanInvite ?row2) = Role_of (ii_Role b)"
    "inv_Email (scanInvite ?row2) = TrimSpace (ii_Email b)" "\<not> invite_closed now2 (scanInvite ?row2)"
    using row intime by (simp_all add: scanInvite_def invite_closed_def)
  have mem: "select_member ?db2 (p_OrgID p) (p_UserID q) = None" "p_UserID q \<in> usr_ID ` set (tn_users ?db2)"
    using guest(5) find_Some_set [OF guest(2)] by (auto simp: db1(1) select_member_def image_iff intro: bexI [of _ u])
  obtain db3 where acc: "store_AcceptInvitation NoFault now2 (p_OrgID p) ?n (p_UserID q) ?db2 = (Inr (tn_next_member ?db2), db3)"
    and sel: "select_member db3 (p_OrgID p) (p_UserID q) = Some \<lparr>mem_ID = tn_next_member ?db2, mem_OrgID = p_OrgID p, mem_UserID = p_UserID q,
      mem_Role = Role_of (ii_Role b), mem_CreatedAt = now2\<rparr>" and orgs: "tn_orgs db3 = tn_orgs ?s"
    using store_AcceptInvitation_last [of ?db2 "tn_invites ?s" ?row2 "p_UserID q" now2] old row db1 mem by auto
  obtain org' where "find (\<lambda>org. org_ID org = p_OrgID p) (tn_orgs db3) = Some org'"
    using org(1) orgs by (auto simp: GetOrganization_def tn_read_def row_or_none_def split: if_splits option.splits)
  with AcceptInvitation_ok [of "ee_sha256 env" "RawURLEncoding_Encode rnd" "w1\<lparr>wb_db := ?db2\<rparr>" "scanInvite ?row2" now2 q u _ db3 org' g]
  have "r = Answer (orgMembershipDTO org' (Role_of (ii_Role b)))" "wb_db w2 = db3"
    using get sc guest mem(1) acc accepted s2(2) by (auto simp: db1(1))
  then show ?thesis using s2(1) sel org(2) theirs
    by (auto simp: member_role_def orgMembershipDTO_def intro!: bexI [of _ org] s2(3))
qed

text \<open>Ann owns org 1 on a plan with three seats; Bob has an account.\<close>

definition ex_two_users :: tenant_db where
  "ex_two_users = snd (SetOrganizationPlan NoFault 1 ''tier2''
     (snd (CreateUserWithPersonalOrg NoFault 0 (ex_user ''bob@example.com'') None ''Bob'' ''bob'' ex_tenant)))"

definition ex_web :: web where
  "ex_web = \<lparr>wb_db = ex_two_users, wb_kv = Map.empty, wb_mail = []\<rparr>"

definition ex_ann :: Principal where
  "ex_ann = \<lparr>p_Kind = ActorHuman, p_UserID = 1, p_KeyID = 0, p_Email = ''ann@example.com'', p_OrgID = 1, p_Role = RoleOwner\<rparr>"

definition ex_bob :: Principal where
  "ex_bob = \<lparr>p_Kind = ActorHuman, p_UserID = 2, p_KeyID = 0, p_Email = ''bob@example.com'', p_OrgID = 0, p_Role = noRole\<rparr>"

definition ex_invite :: InvitationInput where
  "ex_invite = \<lparr>ii_Email = '' Bob@example.com '', ii_Role = ''admin'', ii_Locale = None\<rparr>"

lemma ex_two_users_ok: "wf_tenant ex_two_users" "no_owner_invites ex_two_users"
proof -
  have "tn_reachable ex_tenant ex_two_users"
    unfolding ex_two_users_def by (rule rtranclp.rtrancl_into_rtrancl [OF r_into_rtranclp]) (rule tn_step.intros)+
  then show "wf_tenant ex_two_users" using tn_reachable_wf ex_tenant_reachable empty_tenant_wf by blast
  show "no_owner_invites ex_two_users" by code_simp
qed

theorem seat_cap_invariant_witness:
  "seats (wb_db (serve_members id [(Some ex_ann, ReqInvite (\<lambda>_. NoFault) True 0 (Some ex_invite))] ex_web)) 1 = 2
   \<and> seats (wb_db (serve_members id [(Some ex_ann, ReqInvite (\<lambda>_. NoFault) True 0 (Some ex_invite))] ex_web)) 1 \<le> 3"
proof -
  have a: "seats (wb_db (serve_members id [(Some ex_ann, ReqInvite (\<lambda>_. NoFault) True 0 (Some ex_invite))] ex_web)) 1 = 2" by code_simp
  have c: "max (seats (wb_db ex_web) 1) (SeatCap 1 (org_plan NoFault 1 (wb_db ex_web))) = 3" by code_simp
  have "wf_tenant (wb_db ex_web)" "no_owner_invites (wb_db ex_web)" using ex_two_users_ok by (simp_all add: ex_web_def)
  from seat_cap_invariant [OF this, of id "[(Some ex_ann, ReqInvite (\<lambda>_. NoFault) True 0 (Some ex_invite))]" 1] c a
  show ?thesis by simp
qed

theorem member_request_contained_witness:
  "org_view (wb_db (serve_member id (Some ex_ann) (ReqInvite (\<lambda>_. NoFault) True 0 (Some ex_invite)) ex_web)) 2 = org_view ex_two_users 2
   \<and> (1, 2) \<notin> owners (wb_db (serve_member id (Some ex_bob) (ReqLeave (\<lambda>_. NoFault) KvOk) ex_web))"
proof -
  have w: "no_owner_invites (wb_db ex_web)" using ex_two_users_ok by (simp add: ex_web_def)
  have n: "(1, 2) \<notin> owners (wb_db ex_web)" by code_simp
  show ?thesis
    using member_request_contained [OF w, of id "Some ex_ann" "ReqInvite (\<lambda>_. NoFault) True 0 (Some ex_invite)"]
      member_request_contained [OF w, of id "Some ex_bob" "ReqLeave (\<lambda>_. NoFault) KvOk" 1 2] n
    by (auto simp: ex_ann_def ex_bob_def ex_web_def)
qed

definition ex_email_env :: email_env where
  "ex_email_env = \<lparr>ee_sha256 = id, ee_marshal = mag_Email,
     ee_texts = \<lparr>mt_MagicLinkEmail = (\<lambda>l _ _ _. ('''', l, '''')), mt_InviteEmail = (\<lambda>_ _ _ l _. ('''', l, '''')), mt_TestEmail = (\<lambda>_ _ _. ('''', '''', ''''))\<rparr>,
     ee_appBaseURL = ''https://app'', ee_fromAccount = ''account@pulse'', ee_fromAlerts = ''alerts@pulse'', ee_now = 0\<rparr>"

theorem invitation_end_to_end_witness:
  "\<exists>dto w1 s2 m w2. CreateInvitation (Some ex_ann) (\<lambda>_. NoFault) True 0 (Some ex_invite) ex_web = (Answer dto, w1)
     \<and> email_handle ex_email_env (lucky ''abc'') (Some (last (wb_mail w1))) \<lparr>es_kv = Map.empty, es_db = wb_db w1, es_sent = []\<rparr> = (True, s2)
     \<and> map mail_To (es_sent s2) = [''Bob@example.com''] \<and> map mail_Body (es_sent s2) = [''https://app/invitations/YWJj'']
     \<and> AcceptInvitation id (Some ex_bob) (\<lambda>_. NoFault) KvOk (24 * Hour) (RawURLEncoding_Encode ''abc'') (w1\<lparr>wb_db := es_db s2\<rparr>) = (Answer m, w2)
     \<and> member_role (wb_db w2) (2, 1) = Some RoleAdmin"
proof -
  let ?c = "CreateInvitation (Some ex_ann) (\<lambda>_. NoFault) True 0 (Some ex_invite) ex_web"
  let ?e = "email_handle ex_email_env (lucky ''abc'') (Some (last (wb_mail (snd ?c)))) \<lparr>es_kv = Map.empty, es_db = wb_db (snd ?c), es_sent = []\<rparr>"
  let ?a = "AcceptInvitation id (Some ex_bob) (\<lambda>_. NoFault) KvOk (24 * Hour) (RawURLEncoding_Encode ''abc'') ((snd ?c)\<lparr>wb_db := es_db (snd ?e)\<rparr>)"
  have "case fst ?c of Answer _ \<Rightarrow> True | _ \<Rightarrow> False" by code_simp
  then obtain dto where c: "?c = (Answer dto, snd ?c)" by (cases "fst ?c") (auto simp: prod_eq_iff)
  have w: "wf_tenant (wb_db ex_web)" using ex_two_users_ok by (simp add: ex_web_def)
  have h: "\<not> token_taken (wb_db ex_web) (HashToken (ee_sha256 ex_email_env) (RawURLEncoding_Encode ''abc''))"
    "HashToken (ee_sha256 ex_email_env) (RawURLEncoding_Encode ''abc'') \<noteq> ''''" by code_simp+
  have i: "0 < tn_next_invite (wb_db ex_web)" by code_simp
  have u: "p_Kind ex_bob = ActorHuman"
    "find (\<lambda>u. usr_ID u = p_UserID ex_bob) (tn_users (wb_db ex_web)) = Some (user_row 0 2 (ex_user ''bob@example.com''))"
    "usr_EmailVerified (user_row 0 2 (ex_user ''bob@example.com''))"
    "lower_eq (usr_Email (user_row 0 2 (ex_user ''bob@example.com''))) (TrimSpace (ii_Email ex_invite))"
    "select_member (wb_db ex_web) (p_OrgID ex_ann) (p_UserID ex_bob) = None" by code_simp+
  have t: "TrimSpace (ii_Email ex_invite) = ''Bob@example.com''" "Role_of (ii_Role ex_invite) = RoleAdmin" by code_simp+
  have s: "ee_sha256 ex_email_env = id" by (simp add: ex_email_env_def)
  have l: "RawURLEncoding_Encode ''abc'' = ''YWJj''" by code_simp
  have "(24 * Hour :: int) \<le> 0 + 7 * 24 * Hour" by (simp add: duration_defs)
  note r = invitation_end_to_end [OF c w h prod.collapse [symmetric] i prod.collapse [symmetric] u this, unfolded t s]
  from r [of Map.empty KvOk] show ?thesis
    using c by (intro exI [of _ dto] exI [of _ "snd ?c"] exI [of _ "snd ?e"])
      (auto simp: prod_eq_iff ex_ann_def ex_bob_def mail_of_def ex_email_env_def accept_url_def l)
qed

text \<open>
  The creator of an invitation is the user of the caller.  An API key has none, its user id is 0, so that
  a key that may invite by its role never succeeds.
\<close>

lemma api_key_cannot_invite:
  assumes "p_UserID p \<notin> usr_ID ` set (tn_users (wb_db w))"
  shows "fst (CreateInvitation (Some p) f True now (Some b) w) \<noteq> Answer dto"
proof
  assume "fst (CreateInvitation (Some p) f True now (Some b) w) = Answer dto"
  then have "CreateInvitation (Some p) f True now (Some b) w = (Answer dto, snd (CreateInvitation (Some p) f True now (Some b) w))"
    by (simp add: prod_eq_iff)
  from CreateInvitation_Answer [OF this] obtain org lc where
    "save_invitation f True now org (new_invitation p now (TrimSpace (ii_Email b)) (Role_of (ii_Role b)) lc) w
       = (Answer dto, snd (CreateInvitation (Some p) f True now (Some b) w))" by blast
  from save_invitation_Answer [OF this] obtain iv db where "store_CreateInvitation (f 4) now iv (wb_db w) = (Inr (tn_next_invite (wb_db w)), db)"
    and "iv = new_invitation p now (TrimSpace (ii_Email b)) (Role_of (ii_Role b)) lc" by blast
  then show False
    using assms by (auto simp: store_CreateInvitation_def tn_run_def Let_def list_ex_image invite_defaults_def new_invitation_def
        split: if_splits prod.splits sum.splits)
qed

text \<open>The answer to a new invitation has the zero time as its creation: the insert gives back only the id.\<close>

lemma invite_answer_has_no_time:
  assumes "CreateInvitation (Some p) f True now (Some b) w = (Answer dto, w1)"
  shows "id_CreatedAt dto = zero_time"
proof -
  from CreateInvitation_Answer [OF assms] obtain org lc where
    s: "save_invitation f True now org (new_invitation p now (TrimSpace (ii_Email b)) (Role_of (ii_Role b)) lc) w = (Answer dto, w1)" by blast
  from save_invitation_Answer [OF s] obtain db i where
    "store_CreateInvitation (f 4) now (new_invitation p now (TrimSpace (ii_Email b)) (Role_of (ii_Role b)) lc) (wb_db w) = (Inr i, db)" by blast
  with s show ?thesis
    by (auto simp: save_invitation_def db_write_def publishInviteEmail_def Let_def answer_def invitationDTO_def new_invitation_def)
qed

end
