(* ===== verification/Pulse_Account.thy ===== *)
theory Pulse_Account
  imports Pulse_Members
begin

text \<open>
  The account of the signed-in user and the API keys of an org: the handlers of \<open>internal/api/api.go\<close> and
  \<open>internal/api/apikeys.go\<close> over the store, with the conventions of \<open>Pulse_Web\<close>.  The allowlist of
  platform admins is an argument.
\<close>

section \<open>The profile\<close>

record Me =
  me_UserId :: string
  me_Email :: string
  me_Name :: string
  me_AvatarUrl :: "string option"
  me_Locale :: string
  me_Timezone :: string
  me_Orgs :: "OrgMembership list"
  me_IsPlatformAdmin :: bool

text \<open>The addresses of the allowlist are lower-cased when the server is built.\<close>

definition platform_admins :: "string list \<Rightarrow> string list" where
  "platform_admins cfg = map ToLower cfg"

definition isPlatformAdmin :: "string list \<Rightarrow> string \<Rightarrow> bool" where
  "isPlatformAdmin admins email \<longleftrightarrow> ToLower (TrimSpace email) \<in> set admins"

fun membership_list :: "(nat \<Rightarrow> fault) \<Rightarrow> nat \<Rightarrow> int \<Rightarrow> Organization list \<Rightarrow> tenant_db \<Rightarrow> db_error + OrgMembership list" where
  "membership_list f n userID [] db = Inr []"
| "membership_list f n userID (org # orgs) db =
     (case GetMembership (f n) userID (org_ID org) db of
        Inl e \<Rightarrow> if e = ErrNoRows then membership_list f (Suc n) userID orgs db else Inl e
      | Inr m \<Rightarrow>
          (case membership_list f (Suc n) userID orgs db of
             Inl e \<Rightarrow> Inl e
           | Inr l \<Rightarrow> Inr (orgMembershipDTO org (mem_Role m) # l)))"

definition orgMemberships :: "(nat \<Rightarrow> fault) \<Rightarrow> nat \<Rightarrow> int \<Rightarrow> tenant_db \<Rightarrow> db_error + OrgMembership list" where
  "orgMemberships f n userID db =
     (case ListOrganizationsForUser (f n) userID db of
        Inl e \<Rightarrow> Inl e
      | Inr orgs \<Rightarrow> membership_list f (Suc n) userID orgs db)"

definition buildMe :: "string list \<Rightarrow> (nat \<Rightarrow> fault) \<Rightarrow> nat \<Rightarrow> int \<Rightarrow> tenant_db \<Rightarrow> db_error + Me" where
  "buildMe admins f n userID db =
     (case GetUser (f n) userID db of
        Inl e \<Rightarrow> Inl e
      | Inr u \<Rightarrow>
          (case orgMemberships f (Suc n) userID db of
             Inl e \<Rightarrow> Inl e
           | Inr memberships \<Rightarrow>
               Inr \<lparr>me_UserId = Itoa (usr_ID u), me_Email = usr_Email u, me_Name = usr_Name u, me_AvatarUrl = avatar_of u,
                     me_Locale = usr_Locale u, me_Timezone = usr_Timezone u, me_Orgs = memberships,
                     me_IsPlatformAdmin = isPlatformAdmin admins (usr_Email u)\<rparr>))"

definition GetMe :: "string list \<Rightarrow> Principal option \<Rightarrow> (nat \<Rightarrow> fault) \<Rightarrow> Me handler" where
  "GetMe admins ctx f =
     signed_in ctx (\<lambda>p. db_read (buildMe admins f 0 (p_UserID p)) (\<lambda>r. or_internal r answer))"

record MeUpdate =
  mu_Name :: "string option"
  mu_Locale :: "string option"
  mu_Timezone :: "string option"

definition profile_edit :: "MeUpdate \<Rightarrow> User \<Rightarrow> User" where
  "profile_edit b u =
     u\<lparr>usr_Name := (case mu_Name b of None \<Rightarrow> usr_Name u | Some n \<Rightarrow> n),
       usr_Locale := (case mu_Locale b of None \<Rightarrow> usr_Locale u | Some l \<Rightarrow> l),
       usr_Timezone := (case mu_Timezone b of None \<Rightarrow> usr_Timezone u | Some z \<Rightarrow> z)\<rparr>"

definition UpdateMe :: "string list \<Rightarrow> Principal option \<Rightarrow> (nat \<Rightarrow> fault) \<Rightarrow> MeUpdate option \<Rightarrow> Me handler" where
  "UpdateMe admins ctx f body =
     signed_in ctx (\<lambda>p.
     case body of None \<Rightarrow> refuse 422 ''body required'' | Some b \<Rightarrow>
     db_read (GetUser (f 0) (p_UserID p)) (\<lambda>r. or_internal r (\<lambda>u.
     if mu_Name b = Some '''' then refuse 422 ''name cannot be empty''
     else db_write (UpdateUser (f 1) (profile_edit b u)) (\<lambda>r. or_internal r (\<lambda>_.
     db_read (buildMe admins f 2 (p_UserID p)) (\<lambda>r. or_internal r answer))))))"

section \<open>Identities and sessions\<close>

record IdentityDTO =
  ido_Provider :: IdentityProvider
  ido_ProviderUserId :: string
  ido_CreatedAt :: time

definition identityDTO :: "UserIdentity \<Rightarrow> IdentityDTO" where
  "identityDTO i = \<lparr>ido_Provider = idn_Provider i, ido_ProviderUserId = idn_ProviderUserID i, ido_CreatedAt = idn_CreatedAt i\<rparr>"

definition ListMyIdentities :: "Principal option \<Rightarrow> (nat \<Rightarrow> fault) \<Rightarrow> IdentityDTO list handler" where
  "ListMyIdentities ctx f =
     signed_in ctx (\<lambda>p. db_read (ListIdentitiesForUser (f 0) (p_UserID p)) (\<lambda>r. or_internal r (\<lambda>idns.
     answer (map identityDTO idns))))"

definition UnlinkMyIdentity :: "Principal option \<Rightarrow> (nat \<Rightarrow> fault) \<Rightarrow> IdentityProvider \<Rightarrow> unit handler" where
  "UnlinkMyIdentity ctx f provider =
     signed_in ctx (\<lambda>p.
     db_read (ListIdentitiesForUser (f 0) (p_UserID p)) (\<lambda>r. or_internal r (\<lambda>idns.
     if find (\<lambda>i. idn_Provider i = provider) idns = None then refuse 404 ''identity not linked''
     else if length idns \<le> 1 then refuse 409 ''cannot unlink your only sign-in method''
     else db_write (UnlinkIdentity (f 1) (p_UserID p) provider) (\<lambda>r. or_internal r (\<lambda>_. answer ())))))"

definition LogoutAll :: "Principal option \<Rightarrow> fault \<Rightarrow> time \<Rightarrow> unit handler" where
  "LogoutAll ctx f now =
     signed_in ctx (\<lambda>p. db_write (RevokeAll f now (p_UserID p)) (\<lambda>r. or_internal r (\<lambda>_. answer ())))"

section \<open>Organizations\<close>

definition ListOrgs :: "Principal option \<Rightarrow> (nat \<Rightarrow> fault) \<Rightarrow> OrgMembership list handler" where
  "ListOrgs ctx f =
     signed_in ctx (\<lambda>p. db_read (orgMemberships f 0 (p_UserID p)) (\<lambda>r. or_internal r answer))"

text \<open>The body: name and slug.  \<open>tries\<close> and \<open>raw0\<close> are the faults and random bytes of \<open>CreateOrgWithOwner\<close>.\<close>

definition CreateOrg :: "Principal option \<Rightarrow> (nat \<Rightarrow> fault \<times> string) \<Rightarrow> string \<Rightarrow> time \<Rightarrow> (string \<times> string option) option
    \<Rightarrow> OrgMembership handler" where
  "CreateOrg ctx tries raw0 now body =
     signed_in ctx (\<lambda>p.
     case body of None \<Rightarrow> refuse 422 ''name required'' | Some (name, slug) \<Rightarrow>
     if name = '''' then refuse 422 ''name required''
     else db_write (CreateOrgWithOwner tries raw0 now name (case slug of None \<Rightarrow> '''' | Some s \<Rightarrow> s) (p_UserID p)) (\<lambda>r.
     case r of
       Inl e \<Rightarrow> if e = ErrSlugTaken then refuse 422 ''slug already taken'' else internal
     | Inr (org, role) \<Rightarrow> answer (orgMembershipDTO org role)))"

definition GetOrg :: "Principal option \<Rightarrow> fault \<Rightarrow> string \<Rightarrow> OrgMembership handler" where
  "GetOrg ctx f orgId =
     signed_in ctx (\<lambda>p.
     case Atoi orgId of None \<Rightarrow> refuse 403 ''not a member of this org'' | Some orgID \<Rightarrow>
     db_read (GetOrganization f orgID) (\<lambda>r.
     case r of
       Inl e \<Rightarrow> if e = ErrNoRows then refuse 403 ''not a member of this org'' else internal
     | Inr org \<Rightarrow> answer (orgMembershipDTO org (p_Role p))))"

section \<open>API keys\<close>

definition apiKeyPrefixLen :: nat where "apiKeyPrefixLen = 6"

record APIKeyDTO =
  ad_Id :: string
  ad_Name :: string
  ad_Prefix :: string
  ad_Role :: Role
  ad_CreatedBy :: "string option"
  ad_CreatedAt :: time
  ad_LastUsedAt :: "time option"

definition apiKeyDTO :: "APIKey \<Rightarrow> APIKeyDTO" where
  "apiKeyDTO k = \<lparr>ad_Id = Itoa (ak_ID k), ad_Name = ak_Name k, ad_Prefix = ak_Prefix k, ad_Role = ak_Role k,
     ad_CreatedBy = map_option Itoa (ak_CreatedBy k), ad_CreatedAt = ak_CreatedAt k, ad_LastUsedAt = ak_LastUsedAt k\<rparr>"

definition newAPIKeySecret :: "string option \<Rightarrow> string option" where
  "newAPIKeySecret random = map_option (\<lambda>b. APIKeyPrefix @ RawURLEncoding_Encode b) random"

definition apiKeyListablePrefix :: "string \<Rightarrow> string" where
  "apiKeyListablePrefix secret =
     (let body = (if HasPrefix secret APIKeyPrefix then drop (length APIKeyPrefix) secret else secret);
          n = (if length body < apiKeyPrefixLen then length body else apiKeyPrefixLen)
      in APIKeyPrefix @ take n body)"

definition ListAPIKeys :: "Principal option \<Rightarrow> (nat \<Rightarrow> fault) \<Rightarrow> APIKeyDTO list handler" where
  "ListAPIKeys ctx f =
     in_org ctx (\<lambda>p.
     gate p ActionManageAPIKeys (
     db_read (store_ListAPIKeys (f 0) (p_OrgID p)) (\<lambda>r. or_internal r (\<lambda>keys. answer (map apiKeyDTO keys)))))"

definition new_key :: "(string \<Rightarrow> string) \<Rightarrow> Principal \<Rightarrow> string \<Rightarrow> Role \<Rightarrow> string \<Rightarrow> APIKey" where
  "new_key sha256 p name role secret =
     \<lparr>ak_ID = 0, ak_OrgID = p_OrgID p, ak_Name = name, ak_Prefix = apiKeyListablePrefix secret, ak_TokenHash = HashToken sha256 secret,
      ak_Role = role, ak_CreatedBy = Some (p_UserID p), ak_CreatedAt = zero_time, ak_LastUsedAt = None, ak_RevokedAt = None\<rparr>"

text \<open>The answer is the metadata of the key and its secret.\<close>

definition CreateAPIKey :: "(string \<Rightarrow> string) \<Rightarrow> Principal option \<Rightarrow> (nat \<Rightarrow> fault) \<Rightarrow> time \<Rightarrow> string option \<Rightarrow> (string \<times> string) option
    \<Rightarrow> (APIKeyDTO \<times> string) handler" where
  "CreateAPIKey sha256 ctx f now random body =
     in_org ctx (\<lambda>p.
     gate p ActionManageAPIKeys (
     db_read (org_plan (f 0) (p_OrgID p)) (\<lambda>plan.
     if \<not> APIAccessAllowed plan then refuse 403 ''api keys are not available on your plan; upgrade to use the API''
     else case body of None \<Rightarrow> refuse 422 ''body required'' | Some (rawName, roleText) \<Rightarrow>
     let name = TrimSpace rawName; role = Role_of roleText in
     if name = '''' then refuse 422 ''name required''
     else if role \<noteq> RoleMember \<and> role \<noteq> RoleAdmin then refuse 422 ''role must be member or admin''
     else case newAPIKeySecret random of None \<Rightarrow> internal | Some secret \<Rightarrow>
     db_write (store_CreateAPIKey (f 1) now (new_key sha256 p name role secret)) (\<lambda>r. or_internal r (\<lambda>i.
     db_read (GetAPIKey (f 2) (p_OrgID p) i) (\<lambda>r. or_internal r (\<lambda>stored.
     answer (apiKeyDTO stored, secret))))))))"

definition RevokeAPIKey :: "Principal option \<Rightarrow> (nat \<Rightarrow> fault) \<Rightarrow> kv_fault \<Rightarrow> time \<Rightarrow> string \<Rightarrow> unit handler" where
  "RevokeAPIKey ctx f g now rawID =
     in_org ctx (\<lambda>p.
     gate p ActionManageAPIKeys (
     case Atoi rawID of None \<Rightarrow> refuse 404 ''api key not found'' | Some keyID \<Rightarrow>
     db_read (GetAPIKey (f 0) (p_OrgID p) keyID) (\<lambda>r. or_missing ''api key not found'' r (\<lambda>key.
     db_write (store_RevokeAPIKey (f 1) now (p_OrgID p) keyID) (\<lambda>r. or_internal r (\<lambda>_.
     kv_write (InvalidateAPIKey g (ak_TokenHash key)) (answer ())))))))"

section \<open>What an account request does to the tables\<close>

definition has_identity :: "int \<Rightarrow> tenant_db \<Rightarrow> bool" where
  "has_identity u db \<longleftrightarrow> list_ex (\<lambda>i. idn_UserID i = u) (tn_identities db)"

text \<open>
  A request of user \<open>u\<close>: the rows of other users, all addresses, invitations and keys stay, orgs and memberships
  are only added, and only for \<open>u\<close>.
\<close>

definition self_effect :: "int \<Rightarrow> tenant_db \<Rightarrow> tenant_db \<Rightarrow> bool" where
  "self_effect u db db' \<longleftrightarrow>
     map (\<lambda>v. if usr_ID v = u then None else Some v) (tn_users db') = map (\<lambda>v. if usr_ID v = u then None else Some v) (tn_users db)
     \<and> map usr_Email (tn_users db') = map usr_Email (tn_users db)
     \<and> filter (\<lambda>i. idn_UserID i \<noteq> u) (tn_identities db') = filter (\<lambda>i. idn_UserID i \<noteq> u) (tn_identities db)
     \<and> filter (\<lambda>t. rt_UserID t \<noteq> u) (tn_refresh db') = filter (\<lambda>t. rt_UserID t \<noteq> u) (tn_refresh db)
     \<and> (\<exists>orgs. tn_orgs db' = tn_orgs db @ orgs)
     \<and> (\<exists>ms. tn_members db' = tn_members db @ ms \<and> list_all (\<lambda>m. mem_UserID m = u) ms)
     \<and> tn_invites db' = tn_invites db \<and> tn_keys db' = tn_keys db"

text \<open>With the invariant, and with a linked identity left to whoever had one.\<close>

definition self_step :: "int \<Rightarrow> tenant_db \<Rightarrow> tenant_db \<Rightarrow> bool" where
  "self_step u db db' \<longleftrightarrow> self_effect u db db' \<and> (wf_tenant db \<longrightarrow> wf_tenant db' \<and> (has_identity u db \<longrightarrow> has_identity u db'))"

lemma self_effect_refl: "self_effect u db db"
  by (simp add: self_effect_def)

lemma self_effect_trans: "self_effect u a b \<Longrightarrow> self_effect u b c \<Longrightarrow> self_effect u a c"
  by (auto simp: self_effect_def)

interpretation se: table_effect "self_step u" for u
  by unfold_locales (auto simp: self_step_def intro: self_effect_refl self_effect_trans)

interpretation sr: row_effect "\<lambda>db db'. self_effect u db db' \<and> (wf_tenant db \<longrightarrow> has_identity u db \<longrightarrow> has_identity u db')" for u
proof unfold_locales
  show "self_effect u s (tn_rolled_back s s') \<and> (wf_tenant s \<longrightarrow> has_identity u s \<longrightarrow> has_identity u (tn_rolled_back s s'))" for s s'
    by (simp add: tn_rolled_back_def self_effect_def has_identity_def)
qed (simp add: self_effect_refl)

lemma self_step_run:
  assumes "\<And>a s'. fn s = (Inr a, s') \<Longrightarrow> self_effect u s s' \<and> (wf_tenant s \<longrightarrow> has_identity u s \<longrightarrow> has_identity u s')"
    and "tn_step s (snd (tn_run f fn s))"
  shows "self_step u s (snd (tn_run f fn s))"
  using sr.run [of fn s u f, OF assms(1)] tn_step_wf [OF assms(2)] by (simp add: self_step_def)

lemma UpdateUser_self: "usr_ID v = u \<Longrightarrow> self_step u s (snd (UpdateUser f v s))"
  unfolding UpdateUser_def
  by (rule self_step_run [OF _ tn_step.intros(3) [unfolded UpdateUser_def]]) (auto simp: self_effect_def has_identity_def)

lemma RevokeAll_self: "self_step u s (snd (RevokeAll f now u s))"
proof -
  have "self_effect u s (snd (RevokeAll f now u s)) \<and> tn_identities (snd (RevokeAll f now u s)) = tn_identities s"
  proof -
    have "filter (\<lambda>t. rt_UserID t \<noteq> u) (map (\<lambda>t. if rt_UserID t = u \<and> rt_RevokedAt t = None then t\<lparr>rt_RevokedAt := Some now\<rparr> else t) ts)
        = filter (\<lambda>t. rt_UserID t \<noteq> u) ts" for ts
      by (induction ts) auto
    then show ?thesis
      by (cases f) (auto simp: RevokeAll_def RevokeAllForUser_def revoke_where_def tn_run_def upd_refresh_def self_effect_def)
  qed
  moreover have "wf_tenant s \<Longrightarrow> wf_tenant (snd (RevokeAll f now u s))"
    by (cases f) (auto simp: RevokeAll_def RevokeAllForUser_def revoke_where_def tn_run_def upd_refresh_def wf_tenant_def wf_rows_def
        wf_tables all_owned_def has_owner_def)
  ultimately show ?thesis by (simp add: self_step_def has_identity_def)
qed

lemma org_with_owner_self: "self_step u s (snd (tn_run f (org_with_owner now name slug u) s))"
proof (rule self_step_run [OF _ tn_step.intros(1)])
  fix a s' assume "org_with_owner now name slug u s = (Inr a, s')"
  then show "self_effect u s s' \<and> (wf_tenant s \<longrightarrow> has_identity u s \<longrightarrow> has_identity u s')"
    by (auto simp: org_with_owner_def tx_bind_Inr self_effect_def has_identity_def dest!: insert_org_ok insert_member_ok)
qed

lemma create_org_loop_self: "self_step u s (snd (create_org_loop ts ex now name slug u s))"
proof (induction ts arbitrary: slug s)
  case (Cons t ts)
  obtain f raw where t: "t = (f, raw)" by fastforce
  obtain r s1 where r: "tn_run f (org_with_owner now name slug u) s = (r, s1)" by fastforce
  have "self_step u s s1" using org_with_owner_self [of u s f now name slug] r by simp
  then show ?case using Cons.IH [of s1] se.R_trans by (auto simp: t r split: sum.split)
qed (simp add: se.R_refl)

lemma CreateOrgWithOwner_self: "self_step u s (snd (CreateOrgWithOwner tries raw now name slug u s))"
  by (simp add: CreateOrgWithOwner_def create_org_loop_self)

text \<open>One of two identities may go: they are of different providers.\<close>

lemma UnlinkIdentity_self:
  assumes "1 < length (filter (\<lambda>i. idn_UserID i = u) (tn_identities s))"
  shows "self_step u s (snd (UnlinkIdentity f u provider s))"
  unfolding UnlinkIdentity_def
proof (rule self_step_run [OF _ tn_step.intros(6) [unfolded UnlinkIdentity_def]])
  fix a s'
  let ?mine = "filter (\<lambda>i. idn_UserID i = u) (tn_identities s)"
  assume "(let gone = (\<lambda>i. idn_UserID i = u \<and> idn_Provider i = provider)
      in (Inr (int (length (filter gone (tn_identities s)))), s\<lparr>tn_identities := filter (\<lambda>i. \<not> gone i) (tn_identities s)\<rparr>)) = (Inr a, s')"
  then have s': "s' = s\<lparr>tn_identities := filter (\<lambda>i. \<not> (idn_UserID i = u \<and> idn_Provider i = provider)) (tn_identities s)\<rparr>"
    by (auto simp: Let_def)
  have "has_identity u s'" if w: "wf_tenant s"
  proof (rule ccontr)
    assume "\<not> has_identity u s'"
    then have "\<forall>i \<in> set ?mine. idn_Provider i = provider" by (auto simp: has_identity_def s' list_ex_iff)
    then have "map (\<lambda>i. (idn_UserID i, idn_Provider i)) ?mine = replicate (length ?mine) (u, provider)"
      by (intro map_replicate_const [THEN trans [rotated]] map_cong) auto
    moreover have "distinct (map (\<lambda>i. (idn_UserID i, idn_Provider i)) ?mine)"
      using w by (auto simp: wf_tenant_def wf_rows_def wf_identities_def distinct_map_filter)
    moreover obtain n where "length ?mine = Suc (Suc n)" using assms by (metis One_nat_def Suc_less_eq2 gr0_conv_Suc)
    ultimately show False by simp
  qed
  moreover have "self_effect u s s'" by (auto simp: self_effect_def s' intro!: filter_cong)
  ultimately show "self_effect u s s' \<and> (wf_tenant s \<longrightarrow> has_identity u s \<longrightarrow> has_identity u s')" by simp
qed

definition ctx_user :: "Principal option \<Rightarrow> int" where
  "ctx_user ctx = (case ctx of None \<Rightarrow> 0 | Some p \<Rightarrow> p_UserID p)"

lemma ctx_user_Some [simp]: "ctx_user (Some p) = p_UserID p"
  by (simp add: ctx_user_def)

lemmas self_rules = se.rules se.t_write RevokeAll_self CreateOrgWithOwner_self

lemma GetUser_id: "GetUser f i db = Inr u \<Longrightarrow> usr_ID u = i"
  by (auto simp: GetUser_def tn_read_def row_or_none_def split: if_splits option.splits dest: find_Some_set)

lemma UpdateMe_self: "tables (self_step (ctx_user ctx)) (UpdateMe admins ctx f body) w"
  unfolding UpdateMe_def by (intro self_rules) (auto dest!: GetUser_id intro!: UpdateUser_self simp: profile_edit_def)

lemma ListIdentities_two: "ListIdentitiesForUser f u db = Inr idns \<Longrightarrow> length idns = length (filter (\<lambda>i. idn_UserID i = u) (tn_identities db))"
  by (auto simp: ListIdentitiesForUser_def tn_read_def split: if_splits)

lemma UnlinkMyIdentity_self: "tables (self_step (ctx_user ctx)) (UnlinkMyIdentity ctx f provider) w"
  unfolding UnlinkMyIdentity_def by (intro self_rules) (auto dest!: ListIdentities_two intro!: UnlinkIdentity_self)

lemma LogoutAll_self: "tables (self_step (ctx_user ctx)) (LogoutAll ctx f now) w"
  unfolding LogoutAll_def by (intro self_rules) (auto intro!: RevokeAll_self)

lemma CreateOrg_self: "tables (self_step (ctx_user ctx)) (CreateOrg ctx tries raw0 now body) w"
  unfolding CreateOrg_def by (intro self_rules) (auto intro!: CreateOrgWithOwner_self)

lemma account_reads_self:
  "tables (self_step u) (GetMe admins ctx f) w" "tables (self_step u) (ListMyIdentities ctx f) w"
  "tables (self_step u) (ListOrgs ctx f) w" "tables (self_step u) (GetOrg ctx f0 orgId) w"
  unfolding GetMe_def ListMyIdentities_def ListOrgs_def GetOrg_def by (intro self_rules)+

datatype account_request =
    ReqGetMe "nat \<Rightarrow> fault"
  | ReqUpdateMe "nat \<Rightarrow> fault" "MeUpdate option"
  | ReqIdentities "nat \<Rightarrow> fault"
  | ReqUnlink "nat \<Rightarrow> fault" IdentityProvider
  | ReqLogoutAll fault time
  | ReqListOrgs "nat \<Rightarrow> fault"
  | ReqCreateOrg "nat \<Rightarrow> fault \<times> string" string time "(string \<times> string option) option"
  | ReqGetOrg fault string

fun serve_account :: "string list \<Rightarrow> Principal option \<Rightarrow> account_request \<Rightarrow> web \<Rightarrow> web" where
  "serve_account admins ctx (ReqGetMe f) w = snd (GetMe admins ctx f w)"
| "serve_account admins ctx (ReqUpdateMe f b) w = snd (UpdateMe admins ctx f b w)"
| "serve_account admins ctx (ReqIdentities f) w = snd (ListMyIdentities ctx f w)"
| "serve_account admins ctx (ReqUnlink f p) w = snd (UnlinkMyIdentity ctx f p w)"
| "serve_account admins ctx (ReqLogoutAll f now) w = snd (LogoutAll ctx f now w)"
| "serve_account admins ctx (ReqListOrgs f) w = snd (ListOrgs ctx f w)"
| "serve_account admins ctx (ReqCreateOrg ts raw now b) w = snd (CreateOrg ctx ts raw now b w)"
| "serve_account admins ctx (ReqGetOrg f i) w = snd (GetOrg ctx f i w)"

lemma serve_account_self: "self_step (ctx_user ctx) (wb_db w) (wb_db (serve_account admins ctx r w))"
  using UpdateMe_self UnlinkMyIdentity_self LogoutAll_self CreateOrg_self account_reads_self
  by (cases r) (simp_all add: tables_def)

text \<open>Nobody but a signed-in human is served, and a key does not count as one.\<close>

lemma serve_account_human: "(case ctx of None \<Rightarrow> True | Some p \<Rightarrow> p_Kind p \<noteq> ActorHuman) \<Longrightarrow> serve_account admins ctx r w = w"
  by (cases r; cases ctx) (simp_all add: GetMe_def UpdateMe_def ListMyIdentities_def UnlinkMyIdentity_def LogoutAll_def ListOrgs_def
      CreateOrg_def GetOrg_def signed_in_def refuse_def)

text \<open>
  C25. Over any sequence of account requests of one caller with any faults: the rows of other users (profile,
  identities, sessions) and every address stay as they are, orgs and memberships are only added and only with the caller as
  the member, invitations and keys are not touched; whoever had a linked identity keeps one; and a caller that is
  no signed-in human changes nothing.
\<close>

theorem account_requests_self_scoped:
  assumes "wf_tenant (wb_db w)" and "w' = fold (serve_account admins ctx) rs w"
  shows "self_effect (ctx_user ctx) (wb_db w) (wb_db w') \<and> wf_tenant (wb_db w')
    \<and> (has_identity (ctx_user ctx) (wb_db w) \<longrightarrow> has_identity (ctx_user ctx) (wb_db w'))
    \<and> ((case ctx of None \<Rightarrow> True | Some p \<Rightarrow> p_Kind p \<noteq> ActorHuman) \<longrightarrow> w' = w)"
proof -
  have "self_step (ctx_user ctx) (wb_db w) (wb_db (fold (serve_account admins ctx) rs w))" for w
    by (induction rs arbitrary: w) (auto simp: se.R_refl intro: se.R_trans serve_account_self)
  moreover have "(case ctx of None \<Rightarrow> True | Some p \<Rightarrow> p_Kind p \<noteq> ActorHuman) \<Longrightarrow> fold (serve_account admins ctx) rs w = w"
    by (induction rs) (simp_all add: serve_account_human)
  ultimately show ?thesis using assms(1) by (auto simp: self_step_def assms(2))
qed

section \<open>The life of a key\<close>

text \<open>What an answered creation leaves behind.\<close>

lemma store_CreateAPIKey_ok:
  assumes "store_CreateAPIKey f now k s = (Inr i, s')"
  shows "i = tn_next_key s \<and> s' = s\<lparr>tn_next_key := i + 1, tn_keys := tn_keys s @ [key_row now i k]\<rparr>
    \<and> ak_TokenHash k \<notin> ak_TokenHash ` set (tn_keys s)"
  using assms by (auto simp: store_CreateAPIKey_def tn_run_def Let_def list_ex_iff split: if_splits)

lemma CreateAPIKey_Answer:
  assumes "CreateAPIKey sha256 ctx f now random body w = (Answer (dto, secret), w1)" and "wf_keys (wb_db w)"
  obtains p rawName roleText name role b where "humanInOrg ctx = Some p" "role = RoleMember \<or> role = RoleAdmin"
    "body = Some (rawName, roleText)" "name = TrimSpace rawName" "role = Role_of roleText"
    "random = Some b" "secret = APIKeyPrefix @ RawURLEncoding_Encode b"
    "APIAccessAllowed (org_plan (f 0) (p_OrgID p) (wb_db w))"
    "dto = apiKeyDTO (key_row now (tn_next_key (wb_db w)) (new_key sha256 p name role secret))"
    "w1 = w\<lparr>wb_db := (wb_db w)\<lparr>tn_next_key := tn_next_key (wb_db w) + 1,
       tn_keys := tn_keys (wb_db w) @ [key_row now (tn_next_key (wb_db w)) (new_key sha256 p name role secret)]\<rparr>\<rparr>"
    "HashToken sha256 secret \<notin> ak_TokenHash ` set (tn_keys (wb_db w))"
proof -
  obtain p rawName roleText b where p: "humanInOrg ctx = Some p" and ok: "random = Some b" "body = Some (rawName, roleText)"
      "Role_of roleText = RoleMember \<or> Role_of roleText = RoleAdmin" "APIAccessAllowed (org_plan (f 0) (p_OrgID p) (wb_db w))"
    using assms(1)
    by (auto simp: CreateAPIKey_def web_defs newAPIKeySecret_def Let_def split: option.splits if_splits prod.splits)
  let ?k = "new_key sha256 p (TrimSpace rawName) (Role_of roleText) (APIKeyPrefix @ RawURLEncoding_Encode b)"
  obtain i db stored where c: "store_CreateAPIKey (f 1) now ?k (wb_db w) = (Inr i, db)"
    and g: "GetAPIKey (f 2) (p_OrgID p) i db = Inr stored"
    and r: "dto = apiKeyDTO stored" "secret = APIKeyPrefix @ RawURLEncoding_Encode b" "w1 = w\<lparr>wb_db := db\<rparr>"
    using assms(1) p ok
    by (auto simp: CreateAPIKey_def web_defs newAPIKeySecret_def Let_def split: if_splits prod.splits sum.splits)
  have i: "i = tn_next_key (wb_db w)" and db: "db = (wb_db w)\<lparr>tn_next_key := i + 1, tn_keys := tn_keys (wb_db w) @ [key_row now i ?k]\<rparr>"
    and new: "HashToken sha256 secret \<notin> ak_TokenHash ` set (tn_keys (wb_db w))"
    using store_CreateAPIKey_ok [OF c] by (auto simp: r new_key_def)
  have "find (\<lambda>k. ak_ID k = i \<and> ak_OrgID k = p_OrgID p) (tn_keys (wb_db w)) = None"
    using assms(2) by (auto simp: wf_keys_def wf_ids_def list_all_iff i find_None_iff)
  then have "stored = key_row now i ?k"
    using g by (auto simp: GetAPIKey_def tn_read_def row_or_none_def db find_append new_key_def split: if_splits)
  then show ?thesis using that [OF p, of "Role_of roleText" rawName roleText "TrimSpace rawName" b] ok r i db new by simp
qed

text \<open>The row of a secret that was just created: under its hash, and under its id.\<close>

lemma find_new_key:
  assumes "HashToken sha256 secret \<notin> ak_TokenHash ` set ks" and "ak_TokenHash row = HashToken sha256 secret"
  shows "find (\<lambda>k. ak_TokenHash k = HashToken sha256 secret) (ks @ [row]) = Some row"
proof -
  have "find (\<lambda>k. ak_TokenHash k = HashToken sha256 secret) ks = None" using assms(1) by (force simp: find_None_iff)
  then show ?thesis using assms(2) by (simp add: find_append)
qed

text \<open>An id that is written out and read back is the same, or too large to be read.\<close>

lemma Atoi_Itoa_Some: "Atoi (Itoa i) = Some j \<Longrightarrow> j = i"
proof (cases "- (2 ^ 63) \<le> i \<and> i < 2 ^ 63")
  case False
  have p: "parse_digits (nat_str n) = Some n" for n
    using nat_str_digits [of n] digits_val_nat_str [of n] by (simp add: parse_digits_def)
  obtain c cs where s: "nat_str (nat i) = c # cs" "c \<noteq> CHR ''-''" "c \<noteq> CHR ''+''"
    using nat_str_digits [of "nat i"] minus_not_digit by (cases "nat_str (nat i)") auto
  assume "Atoi (Itoa i) = Some j"
  then show ?thesis
    using False s(2,3) p [of "nat i"] p [of "nat (- i)"] by (auto simp: Itoa_def Atoi_def s(1) split: if_splits)
qed (use Atoi_Itoa in auto)

lemma key_Verify_row:
  assumes "HasPrefix secret APIKeyPrefix" and "length APIKeyPrefix < length secret"
    and "find (\<lambda>k. ak_TokenHash k = HashToken (kc_sha256 c) secret) (tn_keys db) = Some row"
    and "kv_live t s (key_cacheKey (HashToken (kc_sha256 c) secret)) = None"
  shows "fst (key_Verify c g NoFault t secret db s)
     = (if ak_RevokedAt row \<noteq> None then Inl ErrAPIKeyInvalid else Inr (principal_of (descriptor_of row)))"
  using assms
  by (cases "fst g") (auto simp: key_Verify_def verify_hash_def Let_def GetAPIKeyByHash_def tn_read_def row_or_none_def
      GetCache_def kv_command_def)

lemma RevokeAPIKey_Answer:
  assumes "RevokeAPIKey ctx f g now rawID w = (Answer (), w1)"
  obtains p :: Principal and i key where "Atoi rawID = Some i"
    "find (\<lambda>k. ak_ID k = i \<and> ak_OrgID k = p_OrgID p) (tn_keys (wb_db w)) = Some key"
    "w1 = w\<lparr>wb_db := (wb_db w)\<lparr>tn_keys := map (revoke_key now (p_OrgID p) i) (tn_keys (wb_db w))\<rparr>,
             wb_kv := InvalidateAPIKey g (ak_TokenHash key) (wb_kv w)\<rparr>"
proof -
  obtain p i where p: "humanInOrg ctx = Some p" "Atoi rawID = Some i" "dec_Allowed (Can (principal_Actor p) ActionManageAPIKeys (org_resource (p_OrgID p)))"
    using assms by (auto simp: RevokeAPIKey_def in_org_def gate_def refuse_def Let_def split: option.splits if_splits)
  moreover obtain key where "find (\<lambda>k. ak_ID k = i \<and> ak_OrgID k = p_OrgID p) (tn_keys (wb_db w)) = Some key" "f 0 = NoFault"
    using assms p by (auto simp: RevokeAPIKey_def web_defs GetAPIKey_def tn_read_def row_or_none_def split: option.splits if_splits)
  ultimately show ?thesis
    using assms by (intro that [of i p key]) (auto simp: RevokeAPIKey_def web_defs GetAPIKey_def store_RevokeAPIKey_def tn_run_def tn_read_def
        row_or_none_def split: option.splits if_splits)
qed

text \<open>
  C29. The secret that a creation answers is a working key of the caller's org, under the name and with exactly the role that the body asked for,
  which is member or admin, never owner.  When any later revocation of its id is answered, whatever the caches held before, the secret is refused from
  then on if its cache entry could be deleted, and otherwise as soon as that entry has run out.
\<close>

theorem api_key_lifecycle:
  assumes create: "CreateAPIKey (kc_sha256 c) ctx f now random (Some (rawName, roleText)) w = (Answer (dto, secret), w1)"
    and fresh: "wb_kv w (key_cacheKey (HashToken (kc_sha256 c) secret)) = None"
    and "wf_keys (wb_db w)" and "random \<noteq> Some ''''"
  shows "(Role_of roleText = RoleMember \<or> Role_of roleText = RoleAdmin)
    \<and> ad_Role dto = Role_of roleText \<and> ad_Name dto = TrimSpace rawName
    \<and> fst (key_Verify c g NoFault t secret (wb_db w1) (wb_kv w1))
        = Inr \<lparr>kp_KeyID = tn_next_key (wb_db w), kp_OrgID = ctx_org ctx, kp_Role = Role_of roleText\<rparr>
    \<and> (\<forall>ctx' f' del now' w2 w3 g' t'. wb_db w2 = wb_db w1 \<longrightarrow> RevokeAPIKey ctx' f' del now' (ad_Id dto) w2 = (Answer (), w3) \<longrightarrow>
         del = KvOk \<or> kv_live t' (wb_kv w2) (key_cacheKey (HashToken (kc_sha256 c) secret)) = None \<longrightarrow>
         fst (key_Verify c g' NoFault t' secret (wb_db w3) (wb_kv w3)) = Inl ErrAPIKeyInvalid)"
proof -
  obtain p name role b where p: "humanInOrg ctx = Some p" "role = RoleMember \<or> role = RoleAdmin"
    and asked: "name = TrimSpace rawName" "role = Role_of roleText"
    and secret: "random = Some b" "secret = APIKeyPrefix @ RawURLEncoding_Encode b"
    and dto: "dto = apiKeyDTO (key_row now (tn_next_key (wb_db w)) (new_key (kc_sha256 c) p name role secret))"
    and w1: "w1 = w\<lparr>wb_db := (wb_db w)\<lparr>tn_next_key := tn_next_key (wb_db w) + 1,
       tn_keys := tn_keys (wb_db w) @ [key_row now (tn_next_key (wb_db w)) (new_key (kc_sha256 c) p name role secret)]\<rparr>\<rparr>"
    and new: "HashToken (kc_sha256 c) secret \<notin> ak_TokenHash ` set (tn_keys (wb_db w))"
    by (rule CreateAPIKey_Answer [OF create assms(3)]) simp
  define i where "i = tn_next_key (wb_db w)"
  define row where "row = key_row now i (new_key (kc_sha256 c) p name role secret)"
  have row: "ak_ID row = i" "ak_OrgID row = p_OrgID p" "ak_Role row = role" "ak_Name row = name" "ak_TokenHash row = HashToken (kc_sha256 c) secret"
      "ak_RevokedAt row = None"
    by (simp_all add: row_def new_key_def key_row_def)
  have shape: "HasPrefix secret APIKeyPrefix" "length APIKeyPrefix < length secret"
    using secret assms(4) b64_encode_ne [of b url_alphabet "''''"] by (auto simp: HasPrefix_iff RawURLEncoding_Encode_def)
  have keys: "tn_keys (wb_db w1) = tn_keys (wb_db w) @ [row]" "wb_kv w1 = wb_kv w" by (simp_all add: w1 row_def i_def)
  note found = find_new_key [OF new row(5)]
  have "fst (key_Verify c g NoFault t secret (wb_db w1) (wb_kv w1)) = Inr \<lparr>kp_KeyID = i, kp_OrgID = ctx_org ctx, kp_Role = role\<rparr>"
    using key_Verify_row [OF shape, of c "wb_db w1" row t "wb_kv w1" g] found fresh row humanInOrg_ctx [OF p(1)]
    by (simp add: keys principal_of_def descriptor_of_def kv_live_def)
  moreover have "fst (key_Verify c g' NoFault t' secret (wb_db w3) (wb_kv w3)) = Inl ErrAPIKeyInvalid"
    if same: "wb_db w2 = wb_db w1" and rv: "RevokeAPIKey ctx' f' del now' (ad_Id dto) w2 = (Answer (), w3)"
      and gone: "del = KvOk \<or> kv_live t' (wb_kv w2) (key_cacheKey (HashToken (kc_sha256 c) secret)) = None"
    for ctx' f' del now' w2 w3 g' t'
  proof -
    have idn: "ad_Id dto = Itoa i" by (simp add: dto apiKeyDTO_def i_def)
    obtain q :: Principal and j key where j: "Atoi (ad_Id dto) = Some j"
      and key: "find (\<lambda>k. ak_ID k = j \<and> ak_OrgID k = p_OrgID q) (tn_keys (wb_db w2)) = Some key"
      and w3: "w3 = w2\<lparr>wb_db := (wb_db w2)\<lparr>tn_keys := map (revoke_key now' (p_OrgID q) j) (tn_keys (wb_db w2))\<rparr>,
             wb_kv := InvalidateAPIKey del (ak_TokenHash key) (wb_kv w2)\<rparr>"
      by (rule RevokeAPIKey_Answer [OF rv])
    have ji: "j = i" using j by (auto simp: idn dest: Atoi_Itoa_Some)
    note key = key [unfolded ji same keys] and w3 = w3 [unfolded ji same keys]
    have "key = row"
      using find_Some_set [OF key] assms(3) by (auto simp: wf_keys_def wf_ids_def list_all_iff i_def)
    then have "revoke_key now' (p_OrgID q) i row = row\<lparr>ak_RevokedAt := Some now'\<rparr>"
      using find_Some_set [OF key] row by (simp add: revoke_key_def)
    moreover have "find (\<lambda>k. ak_TokenHash k = HashToken (kc_sha256 c) secret) (map (revoke_key now' (p_OrgID q) i) (tn_keys (wb_db w) @ [row]))
        = Some (revoke_key now' (p_OrgID q) i row)"
      using found by (subst find_map_pres) auto
    moreover have "kv_live t' (wb_kv w3) (key_cacheKey (HashToken (kc_sha256 c) secret)) = None"
      using gone row \<open>key = row\<close> by (cases del) (auto simp: w3 InvalidateAPIKey_def DelCache_def kv_command_def kv_live_def)
    ultimately show ?thesis
      using key_Verify_row [OF shape, of c "wb_db w3" "row\<lparr>ak_RevokedAt := Some now'\<rparr>" t' "wb_kv w3" g'] row \<open>key = row\<close>
      by (simp add: w3)
  qed
  ultimately show ?thesis using p(2) row asked by (simp add: dto apiKeyDTO_def row_def i_def)
qed

section \<open>Witnesses\<close>

theorem account_requests_self_scoped_witness:
  "map usr_Name (tn_users (wb_db (fold (serve_account [] (Some ex_bob))
      [ReqUpdateMe (\<lambda>_. NoFault) (Some \<lparr>mu_Name = Some ''Bob'', mu_Locale = None, mu_Timezone = None\<rparr>),
       ReqCreateOrg (\<lambda>_. (NoFault, ''abcd'')) ''wxyz'' 5 (Some (''Lab'', None))] ex_web))) = [''Ann'', ''Bob'']
   \<and> self_effect 2 ex_two_users (wb_db (fold (serve_account [] (Some ex_bob))
      [ReqUpdateMe (\<lambda>_. NoFault) (Some \<lparr>mu_Name = Some ''Bob'', mu_Locale = None, mu_Timezone = None\<rparr>),
       ReqCreateOrg (\<lambda>_. (NoFault, ''abcd'')) ''wxyz'' 5 (Some (''Lab'', None))] ex_web))"
proof -
  let ?rs = "[ReqUpdateMe (\<lambda>_. NoFault) (Some \<lparr>mu_Name = Some ''Bob'', mu_Locale = None, mu_Timezone = None\<rparr>),
       ReqCreateOrg (\<lambda>_. (NoFault, ''abcd'')) ''wxyz'' 5 (Some (''Lab'', None))]"
  have "map usr_Name (tn_users (wb_db (fold (serve_account [] (Some ex_bob)) ?rs ex_web))) = [''Ann'', ''Bob'']" by code_simp
  moreover have "wf_tenant (wb_db ex_web)" using ex_two_users_ok by (simp add: ex_web_def)
  moreover have "ctx_user (Some ex_bob) = 2" by code_simp
  ultimately show ?thesis
    using account_requests_self_scoped [of ex_web _ "[]" "Some ex_bob" ?rs] by (simp add: ex_web_def)
qed

definition ex_new_key :: "(APIKeyDTO \<times> string) answer \<times> web" where
  "ex_new_key = CreateAPIKey id (Some ex_ann) (\<lambda>_. NoFault) 0 (Some ''abc'') (Some ('' ci '', ''member'')) ex_web"

definition ex_new_secret :: string where "ex_new_secret = APIKeyPrefix @ RawURLEncoding_Encode ''abc''"

theorem api_key_lifecycle_witness:
  "fst (key_Verify ex_key_codec (KvOk, KvOk) NoFault 5 ex_new_secret (wb_db (snd ex_new_key)) (wb_kv (snd ex_new_key)))
     = Inr \<lparr>kp_KeyID = 1, kp_OrgID = 1, kp_Role = RoleMember\<rparr>
   \<and> fst (RevokeAPIKey (Some ex_ann) (\<lambda>_. NoFault) KvOk 9 ''1'' (snd ex_new_key)) = Answer ()
   \<and> fst (key_Verify ex_key_codec (KvOk, KvOk) NoFault 10 ex_new_secret
        (wb_db (snd (RevokeAPIKey (Some ex_ann) (\<lambda>_. NoFault) KvOk 9 ''1'' (snd ex_new_key))))
        (wb_kv (snd (RevokeAPIKey (Some ex_ann) (\<lambda>_. NoFault) KvOk 9 ''1'' (snd ex_new_key))))) = Inl ErrAPIKeyInvalid"
proof -
  define dto where "dto = \<lparr>ad_Id = ''1'', ad_Name = ''ci'', ad_Prefix = ''pulse_sk_YWJj'', ad_Role = RoleMember,
     ad_CreatedBy = Some ''1'', ad_CreatedAt = 0, ad_LastUsedAt = None\<rparr>"
  have "fst ex_new_key = Answer (dto, ex_new_secret)" unfolding dto_def by code_simp
  then have create: "CreateAPIKey (kc_sha256 ex_key_codec) (Some ex_ann) (\<lambda>_. NoFault) 0 (Some ''abc'') (Some ('' ci '', ''member'')) ex_web
      = (Answer (dto, ex_new_secret), snd ex_new_key)"
    by (simp add: ex_new_key_def ex_key_codec_def prod_eq_iff)
  have rv: "fst (RevokeAPIKey (Some ex_ann) (\<lambda>_. NoFault) KvOk 9 ''1'' (snd ex_new_key)) = Answer ()" by code_simp
  have w: "wb_kv ex_web (key_cacheKey (HashToken (kc_sha256 ex_key_codec) ex_new_secret)) = None" "wf_keys (wb_db ex_web)"
    by (simp add: ex_web_def) code_simp
  have n: "tn_next_key (wb_db ex_web) = 1" "ctx_org (Some ex_ann) = 1" "Role_of ''member'' = RoleMember" "ad_Id dto = ''1''"
    by (code_simp, code_simp, code_simp) (simp add: dto_def)
  note life = api_key_lifecycle [OF create w, unfolded n, of "(KvOk, KvOk)" 5]
  have "RevokeAPIKey (Some ex_ann) (\<lambda>_. NoFault) KvOk 9 ''1'' (snd ex_new_key)
      = (Answer (), snd (RevokeAPIKey (Some ex_ann) (\<lambda>_. NoFault) KvOk 9 ''1'' (snd ex_new_key)))"
    using rv by (simp add: prod_eq_iff)
  with life rv show ?thesis by blast
qed

end
