(* ===== verification/Pulse_Login.thy ===== *)
theory Pulse_Login
  imports Pulse_Web
begin

text \<open>
  Signing in: the social login (\<open>internal/authn/login.go\<close>, \<open>google.go\<close>, \<open>github.go\<close>), the
  sign-in by mail (\<open>internal/authn/magiclink.go\<close>, \<open>internal/api/maglink.go\<close>), the development login
  (\<open>internal/api/devlogin.go\<close>), the cookies (\<open>internal/authn/cookies.go\<close>) and the hand-wired
  handlers of the auth plane (\<open>internal/api/router.go\<close>).

  The identity provider is an argument: what its token endpoint, its key set and its API answer for a code.
  The JSON form of the flow record, the hash and the JWT library are arguments as before.  The n-th store
  call of a function fails by \<open>f n\<close>, the n-th Redis command by \<open>g n\<close>, and \<open>rnd n\<close> are the bytes of its
  n-th random token, \<open>None\<close> when the source of randomness fails.
\<close>

section \<open>Providers\<close>

record Profile =
  pf_Provider :: IdentityProvider
  pf_ProviderUserID :: string
  pf_Email :: string
  pf_Name :: string
  pf_AvatarURL :: string

datatype login_error =
    ErrStateMismatch
  | ErrLinkNeedsSession
  | ErrEmailNotVerified
  | ErrLinkedElsewhere
  | ErrUnknownProvider
  | ErrExchange string
  | ErrLoginRandom
  | LoginStore db_error
  | LoginRedis kv_error

record Provider =
  pv_Name :: IdentityProvider
  pv_AuthCodeURL :: "string \<Rightarrow> string \<Rightarrow> string \<Rightarrow> string"
  pv_Exchange :: "string \<Rightarrow> string \<Rightarrow> string \<Rightarrow> login_error + Profile"

definition pkceChallenge :: "(string \<Rightarrow> string) \<Rightarrow> string \<Rightarrow> string" where
  "pkceChallenge sha256 verifier = RawURLEncoding_Encode (sha256 verifier)"

text \<open>Google: the id token of the exchange, verified by the OIDC library, with the nonce and the claims it carries.\<close>

record google_claims =
  gc_Sub :: string
  gc_Email :: string
  gc_EmailVerified :: bool
  gc_Name :: string
  gc_Picture :: string

record oidc_lib =
  ol_AuthCodeURL :: "string \<Rightarrow> (string \<times> string) list \<Rightarrow> string"
  ol_Exchange :: "string \<Rightarrow> (string \<times> string) list \<Rightarrow> string option option"
  ol_Verify :: "string \<Rightarrow> (string \<times> google_claims option) option"

definition google_AuthCodeURL :: "oidc_lib \<Rightarrow> string \<Rightarrow> string \<Rightarrow> string \<Rightarrow> string" where
  "google_AuthCodeURL lib state nonce challenge =
     ol_AuthCodeURL lib state [(''nonce'', nonce), (''code_challenge'', challenge), (''code_challenge_method'', ''S256'')]"

definition google_Exchange :: "oidc_lib \<Rightarrow> string \<Rightarrow> string \<Rightarrow> string \<Rightarrow> login_error + Profile" where
  "google_Exchange lib code verifier nonce =
     (case ol_Exchange lib code [(''code_verifier'', verifier)] of
        None \<Rightarrow> Inl (ErrExchange ''google token exchange'')
      | Some None \<Rightarrow> Inl (ErrExchange ''google response had no id_token'')
      | Some (Some rawID) \<Rightarrow>
          if rawID = '''' then Inl (ErrExchange ''google response had no id_token'')
          else case ol_Verify lib rawID of
            None \<Rightarrow> Inl (ErrExchange ''google id token verify'')
          | Some (n, claims) \<Rightarrow>
              if n \<noteq> nonce then Inl (ErrExchange ''google id token nonce mismatch'')
              else case claims of
                None \<Rightarrow> Inl (ErrExchange ''google id token claims'')
              | Some c \<Rightarrow>
                  if gc_Email c = '''' \<or> \<not> gc_EmailVerified c then Inl ErrEmailNotVerified
                  else Inr \<lparr>pf_Provider = ProviderGoogle, pf_ProviderUserID = gc_Sub c, pf_Email = gc_Email c,
                            pf_Name = gc_Name c, pf_AvatarURL = gc_Picture c\<rparr>)"

definition NewGoogleProvider :: "oidc_lib \<Rightarrow> Provider" where
  "NewGoogleProvider lib = \<lparr>pv_Name = ProviderGoogle, pv_AuthCodeURL = google_AuthCodeURL lib, pv_Exchange = google_Exchange lib\<rparr>"

text \<open>GitHub: the profile and the list of addresses, each read from the API with the token of the exchange.\<close>

record github_user =
  gu_ID :: int
  gu_Login :: string
  gu_Name :: string
  gu_AvatarURL :: string

record github_email =
  ge_Email :: string
  ge_Primary :: bool
  ge_Verified :: bool

record github_lib =
  gl_AuthCodeURL :: "string \<Rightarrow> (string \<times> string) list \<Rightarrow> string"
  gl_Exchange :: "string \<Rightarrow> (string \<times> string) list \<Rightarrow> string option"
  gl_Do :: "string \<Rightarrow> string \<Rightarrow> (int \<times> string) option"
  gl_decode_user :: "string \<Rightarrow> github_user option"
  gl_decode_emails :: "string \<Rightarrow> github_email list option"

definition getJSON :: "(string \<Rightarrow> (int \<times> string) option) \<Rightarrow> (string \<Rightarrow> 'a option) \<Rightarrow> string \<Rightarrow> 'a option" where
  "getJSON fetch decode url =
     (case fetch url of None \<Rightarrow> None | Some (status, body) \<Rightarrow> if status \<noteq> 200 then None else decode body)"

definition github_AuthCodeURL :: "github_lib \<Rightarrow> string \<Rightarrow> string \<Rightarrow> string \<Rightarrow> string" where
  "github_AuthCodeURL lib state nonce challenge =
     gl_AuthCodeURL lib state [(''code_challenge'', challenge), (''code_challenge_method'', ''S256'')]"

definition email_or_empty :: "github_email option \<Rightarrow> string" where
  "email_or_empty e = (case e of None \<Rightarrow> '''' | Some x \<Rightarrow> ge_Email x)"

definition pick_email :: "github_email list \<Rightarrow> string" where
  "pick_email emails =
     (let picked = email_or_empty (find (\<lambda>e. ge_Verified e \<and> ge_Primary e) emails)
      in if picked = '''' then email_or_empty (find ge_Verified emails) else picked)"

definition github_Exchange :: "github_lib \<Rightarrow> string \<Rightarrow> string \<Rightarrow> string \<Rightarrow> string \<Rightarrow> login_error + Profile" where
  "github_Exchange lib apiBaseURL code verifier nonce =
     (case gl_Exchange lib code [(''code_verifier'', verifier)] of
        None \<Rightarrow> Inl (ErrExchange ''github token exchange'')
      | Some tok \<Rightarrow>
          (case getJSON (gl_Do lib tok) (gl_decode_user lib) (apiBaseURL @ ''/user'') of
             None \<Rightarrow> Inl (ErrExchange ''github /user'')
           | Some user \<Rightarrow>
               (case getJSON (gl_Do lib tok) (gl_decode_emails lib) (apiBaseURL @ ''/user/emails'') of
                  None \<Rightarrow> Inl (ErrExchange ''github /user/emails'')
                | Some emails \<Rightarrow>
                    let picked = pick_email emails
                    in if picked = '''' then Inl ErrEmailNotVerified
                       else Inr \<lparr>pf_Provider = ProviderGitHub, pf_ProviderUserID = Itoa (gu_ID user), pf_Email = picked,
                                 pf_Name = default_to (gu_Login user) (gu_Name user), pf_AvatarURL = gu_AvatarURL user\<rparr>)))"

definition defaultGitHubAPIBase :: string where "defaultGitHubAPIBase = ''https://api.github.com''"

definition NewGitHubProvider :: "github_lib \<Rightarrow> string \<Rightarrow> Provider" where
  "NewGitHubProvider lib apiBaseURL = \<lparr>pv_Name = ProviderGitHub, pv_AuthCodeURL = github_AuthCodeURL lib,
     pv_Exchange = github_Exchange lib (default_to defaultGitHubAPIBase apiBaseURL)\<rparr>"

section \<open>The flow\<close>

definition flowTTL :: duration where "flowTTL = 10 * Minute"

datatype FlowKind = FlowLogin | FlowLink | FlowOther string

record flowState =
  fl_Provider :: IdentityProvider
  fl_Verifier :: string
  fl_Nonce :: string
  fl_Flow :: FlowKind
  fl_ReturnTo :: string
  fl_LinkUserID :: int

record flow_codec =
  fc_marshal :: "flowState \<Rightarrow> string"
  fc_unmarshal :: "string \<Rightarrow> flowState option"

definition flowKey :: "string \<Rightarrow> string" where "flowKey state = ''oauth_flow:'' @ state"

definition NewLoginService :: "Provider list \<Rightarrow> IdentityProvider \<rightharpoonup> Provider" where
  "NewLoginService providers = fold (\<lambda>p m. m(pv_Name p \<mapsto> p)) providers Map.empty"

text \<open>A path of the app itself: one slash, not followed by a slash or a backslash.\<close>

definition safeReturnTo :: "string \<Rightarrow> string" where
  "safeReturnTo returnTo =
     (if returnTo = '''' \<or> hd returnTo \<noteq> CHR ''/'' then ''/''
      else if HasPrefix returnTo ''//'' \<or> HasPrefix returnTo [CHR ''/'', CHR 0x5C] then ''/''
      else returnTo)"

definition flow_record :: "IdentityProvider \<Rightarrow> FlowKind \<Rightarrow> string \<Rightarrow> int \<Rightarrow> string \<Rightarrow> string \<Rightarrow> flowState" where
  "flow_record provider flow returnTo linkUserID nonce verifier =
     \<lparr>fl_Provider = provider, fl_Verifier = verifier, fl_Nonce = nonce, fl_Flow = flow, fl_ReturnTo = safeReturnTo returnTo,
      fl_LinkUserID = linkUserID\<rparr>"

text \<open>State and redirect URL.\<close>

definition StartLogin :: "(string \<Rightarrow> string) \<Rightarrow> flow_codec \<Rightarrow> (IdentityProvider \<rightharpoonup> Provider) \<Rightarrow> kv_fault \<Rightarrow> time \<Rightarrow> (nat \<Rightarrow> string option)
    \<Rightarrow> IdentityProvider \<Rightarrow> FlowKind \<Rightarrow> string \<Rightarrow> int \<Rightarrow> kv \<Rightarrow> (login_error + string \<times> string) \<times> kv" where
  "StartLogin sha256 codec providers g now rnd provider flow returnTo linkUserID s =
     (case providers provider of
        None \<Rightarrow> (Inl ErrUnknownProvider, s)
      | Some p \<Rightarrow>
          (case (NewOpaqueToken (rnd 0), NewOpaqueToken (rnd 1), NewOpaqueToken (rnd 2)) of
             (Some state, Some nonce, Some verifier) \<Rightarrow>
               (case SetCache g now (flowKey state) (fc_marshal codec (flow_record provider flow returnTo linkUserID nonce verifier)) flowTTL s of
                  (Inl e, s1) \<Rightarrow> (Inl (LoginRedis e), s1)
                | (Inr _, s1) \<Rightarrow> (Inr (state, pv_AuthCodeURL p state nonce (pkceChallenge sha256 verifier)), s1))
           | _ \<Rightarrow> (Inl ErrLoginRandom, s)))"

record CallbackResult =
  cr_UserID :: int
  cr_Email :: string
  cr_IsNew :: bool
  cr_OrgID :: int
  cr_ReturnTo :: string

definition existing_account :: "int \<Rightarrow> string \<Rightarrow> string \<Rightarrow> CallbackResult" where
  "existing_account userID email returnTo =
     \<lparr>cr_UserID = userID, cr_Email = email, cr_IsNew = False, cr_OrgID = 0, cr_ReturnTo = returnTo\<rparr>"

text \<open>The suffix of a slug; a failing source of randomness gives an empty one.\<close>

definition slug_suffix :: "string option \<Rightarrow> string" where
  "slug_suffix random = ToLower (take 6 (case NewOpaqueToken random of None \<Rightarrow> '''' | Some t \<Rightarrow> t))"

definition authn_slugify :: "string \<Rightarrow> string" where
  "authn_slugify s = default_to ''workspace'' (Trim_dashes (concat (map slug_char (ToLower s))))"

definition nameFromEmail :: "string \<Rightarrow> string" where
  "nameFromEmail email = hd (Split (CHR ''@'') email)"

definition workspace_name :: "string \<Rightarrow> string" where
  "workspace_name base = base @ CHR 0x27 # ''s workspace''"

definition personalOrgNaming :: "string option \<Rightarrow> Profile \<Rightarrow> string \<times> string" where
  "personalOrgNaming random profile =
     (let base = default_to (nameFromEmail (pf_Email profile)) (pf_Name profile)
      in (workspace_name base, authn_slugify base @ ''-'' @ slug_suffix random))"

definition fresh_user :: "string \<Rightarrow> string \<Rightarrow> string \<Rightarrow> User" where
  "fresh_user email name avatar =
     \<lparr>usr_ID = 0, usr_Email = email, usr_EmailVerified = True, usr_Name = name, usr_AvatarURL = avatar, usr_Locale = '''',
      usr_Timezone = '''', usr_Status = '''', usr_DeletionPendingAt = None, usr_CreatedAt = zero_time, usr_LastLoginAt = None\<rparr>"

definition fresh_identity :: "int \<Rightarrow> IdentityProvider \<Rightarrow> string \<Rightarrow> UserIdentity" where
  "fresh_identity userID provider subject =
     \<lparr>idn_ID = 0, idn_UserID = userID, idn_Provider = provider, idn_ProviderUserID = subject, idn_CreatedAt = zero_time\<rparr>"

definition resolveLogin :: "(nat \<Rightarrow> fault) \<Rightarrow> time \<Rightarrow> string option \<Rightarrow> Profile \<Rightarrow> string \<Rightarrow> tenant_db
    \<Rightarrow> (login_error + CallbackResult) \<times> tenant_db" where
  "resolveLogin f now random profile returnTo s =
     (case GetIdentity (f 0) (pf_Provider profile) (pf_ProviderUserID profile) s of
        Inr idn \<Rightarrow>
          (Inr (existing_account (idn_UserID idn) (pf_Email profile) returnTo), snd (SetLastLogin (f 1) now (idn_UserID idn) s))
      | Inl e0 \<Rightarrow>
          if e0 \<noteq> ErrNoRows then (Inl (LoginStore e0), s)
          else case GetUserByEmail (f 1) (pf_Email profile) s of
            Inr existing \<Rightarrow>
              (case LinkIdentity (f 2) now (fresh_identity (usr_ID existing) (pf_Provider profile) (pf_ProviderUserID profile)) s of
                 (Inl e, s1) \<Rightarrow> (Inl (LoginStore e), s1)
               | (Inr _, s1) \<Rightarrow>
                   (Inr (existing_account (usr_ID existing) (pf_Email profile) returnTo), snd (SetLastLogin (f 3) now (usr_ID existing) s1)))
          | Inl e1 \<Rightarrow>
              if e1 \<noteq> ErrNoRows then (Inl (LoginStore e1), s)
              else case personalOrgNaming random profile of (name, slug) \<Rightarrow>
                (case CreateUserWithPersonalOrg (f 2) now (fresh_user (pf_Email profile) (pf_Name profile) (pf_AvatarURL profile))
                        (Some (fresh_identity 0 (pf_Provider profile) (pf_ProviderUserID profile))) name slug s of
                   (Inl e, s1) \<Rightarrow> (Inl (LoginStore e), s1)
                 | (Inr res, s1) \<Rightarrow>
                     (Inr \<lparr>cr_UserID = fs_UserID res, cr_Email = pf_Email profile, cr_IsNew = True, cr_OrgID = fs_OrgID res,
                            cr_ReturnTo = returnTo\<rparr>, s1)))"

definition resolveLink :: "(nat \<Rightarrow> fault) \<Rightarrow> time \<Rightarrow> int \<Rightarrow> Profile \<Rightarrow> string \<Rightarrow> tenant_db
    \<Rightarrow> (login_error + CallbackResult) \<times> tenant_db" where
  "resolveLink f now linkUserID profile returnTo s =
     (if linkUserID = 0 then (Inl ErrLinkNeedsSession, s)
      else case GetIdentity (f 0) (pf_Provider profile) (pf_ProviderUserID profile) s of
        Inr existing \<Rightarrow>
          if idn_UserID existing \<noteq> linkUserID then (Inl ErrLinkedElsewhere, s)
          else (Inr (existing_account linkUserID (pf_Email profile) returnTo), s)
      | Inl e0 \<Rightarrow>
          if e0 \<noteq> ErrNoRows then (Inl (LoginStore e0), s)
          else case LinkIdentity (f 1) now (fresh_identity linkUserID (pf_Provider profile) (pf_ProviderUserID profile)) s of
            (Inl e, s1) \<Rightarrow> (Inl (LoginStore e), s1)
          | (Inr _, s1) \<Rightarrow> (Inr (existing_account linkUserID (pf_Email profile) returnTo), s1))"

text \<open>The record is deleted before the exchange; a failing delete is ignored.\<close>

definition HandleCallback :: "flow_codec \<Rightarrow> (IdentityProvider \<rightharpoonup> Provider) \<Rightarrow> (nat \<Rightarrow> fault) \<Rightarrow> (nat \<Rightarrow> kv_fault) \<Rightarrow> time
    \<Rightarrow> string option \<Rightarrow> string \<Rightarrow> string \<Rightarrow> string \<Rightarrow> web \<Rightarrow> (login_error + CallbackResult) \<times> web" where
  "HandleCallback codec providers f g now random cookieState queryState code w =
     (if queryState = '''' \<or> cookieState \<noteq> queryState then (Inl ErrStateMismatch, w)
      else case fst (GetCache (g 0) now (flowKey queryState) (wb_kv w)) of
        Inl e \<Rightarrow> (Inl (LoginRedis e), w)
      | Inr None \<Rightarrow> (Inl ErrStateMismatch, w)
      | Inr (Some raw) \<Rightarrow>
          let w1 = w\<lparr>wb_kv := snd (DelCache (g 1) (flowKey queryState) (wb_kv w))\<rparr>
          in case fc_unmarshal codec raw of
               None \<Rightarrow> (Inl ErrStateMismatch, w1)
             | Some rec \<Rightarrow>
                 (case providers (fl_Provider rec) of
                    None \<Rightarrow> (Inl ErrUnknownProvider, w1)
                  | Some p \<Rightarrow>
                      (case pv_Exchange p code (fl_Verifier rec) (fl_Nonce rec) of
                         Inl e \<Rightarrow> (Inl e, w1)
                       | Inr profile \<Rightarrow>
                           (case (if fl_Flow rec = FlowLink
                                  then resolveLink f now (fl_LinkUserID rec) profile (fl_ReturnTo rec) (wb_db w1)
                                  else resolveLogin f now random profile (fl_ReturnTo rec) (wb_db w1)) of
                              (r, db) \<Rightarrow> (r, w1\<lparr>wb_db := db\<rparr>)))))"

section \<open>Sign-in by mail and for development\<close>

definition normalizeEmail :: "string \<Rightarrow> string" where "normalizeEmail email = ToLower (TrimSpace email)"

definition magicLinkOrgNaming :: "string option \<Rightarrow> string \<Rightarrow> string \<times> string" where
  "magicLinkOrgNaming random email =
     (let base = nameFromEmail email in (workspace_name base, authn_slugify base @ ''-'' @ slug_suffix random))"

definition magic_Start :: "(string \<Rightarrow> string) \<Rightarrow> (magic_record \<Rightarrow> string) \<Rightarrow> kv_fault \<Rightarrow> time \<Rightarrow> string option \<Rightarrow> string
    \<Rightarrow> kv \<Rightarrow> (magic_error + string) \<times> kv" where
  "magic_Start sha256 marshal g now random email = Mint sha256 marshal g now random (normalizeEmail email)"

datatype verify_error = ErrMagicLinkInvalid | VerifyMagic magic_error | VerifyStore db_error

text \<open>The account of an address: the existing one, or a new one without identity.\<close>

definition resolve_address :: "(nat \<Rightarrow> fault) \<Rightarrow> time \<Rightarrow> string option \<Rightarrow> string \<Rightarrow> tenant_db \<Rightarrow> (db_error + int \<times> bool) \<times> tenant_db" where
  "resolve_address f now random email s =
     (case GetUserByEmail (f 0) email s of
        Inr existing \<Rightarrow> (Inr (usr_ID existing, False), snd (SetLastLogin (f 1) now (usr_ID existing) s))
      | Inl e0 \<Rightarrow>
          if e0 \<noteq> ErrNoRows then (Inl e0, s)
          else case magicLinkOrgNaming random email of (name, slug) \<Rightarrow>
            (case CreateUserWithPersonalOrg (f 1) now (fresh_user email (nameFromEmail email) '''') None name slug s of
               (Inl e, s1) \<Rightarrow> (Inl e, s1)
             | (Inr res, s1) \<Rightarrow> (Inr (fs_UserID res, True), s1)))"

text \<open>The id of the account, its address and whether it is new.\<close>

definition magic_Verify :: "(string \<Rightarrow> string) \<Rightarrow> (string \<Rightarrow> magic_record option) \<Rightarrow> (nat \<Rightarrow> fault) \<Rightarrow> kv_fault \<Rightarrow> time \<Rightarrow> string option \<Rightarrow> string
    \<Rightarrow> web \<Rightarrow> (verify_error + int \<times> string \<times> bool) \<times> web" where
  "magic_Verify sha256 unmarshal f g now random rawToken w =
     (case Consume sha256 unmarshal g now rawToken (wb_kv w) of
        (Inl e, s1) \<Rightarrow> (Inl (if e = ErrInvalid then ErrMagicLinkInvalid else VerifyMagic e), w\<lparr>wb_kv := s1\<rparr>)
      | (Inr email, s1) \<Rightarrow>
          (case resolve_address f now random email (wb_db w) of
             (Inl e, db) \<Rightarrow> (Inl (VerifyStore e), w\<lparr>wb_kv := s1, wb_db := db\<rparr>)
           | (Inr (userID, isNew), db) \<Rightarrow> (Inr (userID, email, isNew), w\<lparr>wb_kv := s1, wb_db := db\<rparr>)))"

text \<open>\<open>strings.IndexByte\<close>, -1 when the byte does not occur.\<close>

definition IndexByte :: "string \<Rightarrow> char \<Rightarrow> int" where
  "IndexByte s c = (if c \<in> set s then int (length (takeWhile (\<lambda>x. x \<noteq> c) s)) else - 1)"

definition looksLikeEmail :: "string \<Rightarrow> bool" where
  "looksLikeEmail s =
     (let i = IndexByte s (CHR ''@'')
      in if i \<le> 0 \<or> i = int (length s) - 1 then False
         else let part = take (nat i) s; domainPart = drop (nat (i + 1)) s
           in if part = '''' \<or> CHR ''@'' \<in> set domainPart then False
              else let dot = IndexByte domainPart (CHR ''.'') in 0 < dot \<and> dot < int (length domainPart) - 1)"

definition devSlugify :: "string \<Rightarrow> string" where
  "devSlugify s = default_to ''workspace'' (Trim_dashes (concat (map slug_char (ToLower s))))"

definition devOrgNaming :: "string option \<Rightarrow> string \<Rightarrow> string \<Rightarrow> string \<times> string" where
  "devOrgNaming random name email =
     (let base = default_to (nameFromEmail email) name in (workspace_name base, devSlugify base @ ''-'' @ slug_suffix random))"

definition resolveDevUser :: "(nat \<Rightarrow> fault) \<Rightarrow> time \<Rightarrow> string option \<Rightarrow> string \<Rightarrow> string \<Rightarrow> int ttx" where
  "resolveDevUser f now random email name0 s =
     (case GetUserByEmail (f 0) email s of
        Inr existing \<Rightarrow> (Inr (usr_ID existing), snd (SetLastLogin (f 1) now (usr_ID existing) s))
      | Inl e0 \<Rightarrow>
          if e0 \<noteq> ErrNoRows then (Inl e0, s)
          else let name = default_to (nameFromEmail email) name0
            in case devOrgNaming random name email of (orgName, orgSlug) \<Rightarrow>
              (case CreateUserWithPersonalOrg (f 1) now (fresh_user email name '''') (Some (fresh_identity 0 ProviderDev email)) orgName orgSlug s of
                 (Inl e, s1) \<Rightarrow> (Inl e, s1)
               | (Inr res, s1) \<Rightarrow> (Inr (fs_UserID res), s1)))"

section \<open>Cookies and replies\<close>

text \<open>Every cookie is \<open>SameSite=Lax\<close>.  \<open>Location\<close> is the target that is handed to \<open>http.Redirect\<close>.\<close>

record cookie =
  ck_Name :: string
  ck_Value :: string
  ck_Path :: string
  ck_Expires :: "time option"
  ck_MaxAge :: int
  ck_HttpOnly :: bool
  ck_Secure :: bool

record reply =
  rp_Status :: int
  rp_Location :: "string option"
  rp_Cookies :: "cookie list"
  rp_Error :: "(string \<times> string) option"

definition AccessCookie :: string where "AccessCookie = ''pulse_at''"
definition RefreshCookie :: string where "RefreshCookie = ''pulse_rt''"
definition CSRFCookie :: string where "CSRFCookie = ''pulse_csrf''"
definition OAuthStateCookie :: string where "OAuthStateCookie = ''pulse_oauth_state''"
definition refreshPath :: string where "refreshPath = ''/auth''"

definition SetSession :: "bool \<Rightarrow> string \<Rightarrow> string \<Rightarrow> string \<Rightarrow> time \<Rightarrow> time \<Rightarrow> cookie list" where
  "SetSession secure access refreshToken csrf accessExp refreshExp =
     [\<lparr>ck_Name = AccessCookie, ck_Value = access, ck_Path = ''/'', ck_Expires = Some accessExp, ck_MaxAge = 0,
       ck_HttpOnly = True, ck_Secure = secure\<rparr>,
      \<lparr>ck_Name = RefreshCookie, ck_Value = refreshToken, ck_Path = refreshPath, ck_Expires = Some refreshExp, ck_MaxAge = 0,
       ck_HttpOnly = True, ck_Secure = secure\<rparr>,
      \<lparr>ck_Name = CSRFCookie, ck_Value = csrf, ck_Path = ''/'', ck_Expires = Some accessExp, ck_MaxAge = 0,
       ck_HttpOnly = False, ck_Secure = secure\<rparr>]"

definition ClearSession :: "bool \<Rightarrow> cookie list" where
  "ClearSession secure =
     map (\<lambda>(name, path). \<lparr>ck_Name = name, ck_Value = '''', ck_Path = path, ck_Expires = None, ck_MaxAge = - 1,
        ck_HttpOnly = (name \<noteq> CSRFCookie), ck_Secure = secure\<rparr>)
       [(AccessCookie, ''/''), (RefreshCookie, refreshPath), (CSRFCookie, ''/'')]"

definition SetOAuthState :: "bool \<Rightarrow> string \<Rightarrow> duration \<Rightarrow> cookie" where
  "SetOAuthState secure state ttl = \<lparr>ck_Name = OAuthStateCookie, ck_Value = state, ck_Path = ''/auth'', ck_Expires = None,
     ck_MaxAge = whole_seconds ttl, ck_HttpOnly = True, ck_Secure = secure\<rparr>"

definition ClearOAuthState :: "bool \<Rightarrow> cookie" where
  "ClearOAuthState secure = \<lparr>ck_Name = OAuthStateCookie, ck_Value = '''', ck_Path = ''/auth'', ck_Expires = None,
     ck_MaxAge = - 1, ck_HttpOnly = True, ck_Secure = secure\<rparr>"

definition writeEnvelope :: "cookie list \<Rightarrow> int \<Rightarrow> string \<Rightarrow> string \<Rightarrow> reply" where
  "writeEnvelope cookies status code msg =
     \<lparr>rp_Status = status, rp_Location = None, rp_Cookies = cookies, rp_Error = Some (code, msg)\<rparr>"

definition http_Redirect :: "cookie list \<Rightarrow> string \<Rightarrow> reply" where
  "http_Redirect cookies target = \<lparr>rp_Status = 302, rp_Location = Some target, rp_Cookies = cookies, rp_Error = None\<rparr>"

definition no_content :: "cookie list \<Rightarrow> reply" where
  "no_content cookies = \<lparr>rp_Status = 204, rp_Location = None, rp_Cookies = cookies, rp_Error = None\<rparr>"

section \<open>The auth plane\<close>

text \<open>What the server is built from.\<close>

record ('priv, 'pub) server =
  sv_sha256 :: "string \<Rightarrow> string"
  sv_codec :: flow_codec
  sv_unmarshal :: "string \<Rightarrow> magic_record option"
  sv_providers :: "IdentityProvider \<rightharpoonup> Provider"
  sv_lib :: "('priv, 'pub) jwt_lib"
  sv_jwt :: "('priv, 'pub) JWTIssuer"
  sv_secure :: bool
  sv_appBaseURL :: string

text \<open>The clock of one request, its faults and its random bytes; the refresh token of a login is written by two statements.\<close>

record luck =
  lk_now :: time
  lk_db :: "nat \<Rightarrow> fault"
  lk_kv :: "nat \<Rightarrow> kv_fault"
  lk_issue :: "fault \<times> fault"
  lk_rnd :: "nat \<Rightarrow> string option"

definition redirectToApp :: "('priv, 'pub) server \<Rightarrow> cookie list \<Rightarrow> string \<Rightarrow> reply" where
  "redirectToApp sv cookies dest0 =
     (let dest = (if dest0 = '''' \<or> hd dest0 \<noteq> CHR ''/'' then ''/'' else dest0)
      in http_Redirect cookies (if sv_appBaseURL sv \<noteq> '''' then sv_appBaseURL sv @ dest else dest))"

text \<open>The cookies of a new session; the tokens are the random ones 10 to 12.\<close>

definition issueSession :: "('priv, 'pub) server \<Rightarrow> luck \<Rightarrow> int \<Rightarrow> string \<Rightarrow> web \<Rightarrow> cookie list option \<times> web" where
  "issueSession sv lk userID email w =
     (case Issue (sv_sha256 sv) (lk_issue lk) (lk_now lk) (lk_rnd lk 10) userID (wb_db w) of
        (Inl _, db) \<Rightarrow> (None, w\<lparr>wb_db := db\<rparr>)
      | (Inr issued, db) \<Rightarrow>
          ((case jwt_Issue (sv_lib sv) (sv_jwt sv) (lk_now lk) (lk_rnd lk 11) userID email of
              None \<Rightarrow> None
            | Some (access, accessExp) \<Rightarrow>
                (case NewOpaqueToken (lk_rnd lk 12) of
                   None \<Rightarrow> None
                 | Some csrf \<Rightarrow> Some (SetSession (sv_secure sv) access (is_Raw issued) csrf accessExp (is_Expires issued)))),
           w\<lparr>wb_db := db\<rparr>))"

definition start_reply :: "('priv, 'pub) server \<Rightarrow> login_error + string \<times> string \<Rightarrow> reply" where
  "start_reply sv r =
     (case r of
        Inl _ \<Rightarrow> writeEnvelope [] 400 ''invalid_provider'' ''unknown or misconfigured provider''
      | Inr (state, url) \<Rightarrow> http_Redirect [SetOAuthState (sv_secure sv) state (10 * Minute)] url)"

definition handleLogin :: "('priv, 'pub) server \<Rightarrow> luck \<Rightarrow> IdentityProvider \<Rightarrow> string \<Rightarrow> web \<Rightarrow> reply \<times> web" where
  "handleLogin sv lk provider returnTo w =
     (case StartLogin (sv_sha256 sv) (sv_codec sv) (sv_providers sv) (lk_kv lk 0) (lk_now lk) (lk_rnd lk) provider FlowLogin returnTo 0 (wb_kv w) of
        (r, s) \<Rightarrow> (start_reply sv r, w\<lparr>wb_kv := s\<rparr>))"

definition handleLinkStart :: "('priv, 'pub) server \<Rightarrow> luck \<Rightarrow> Principal option \<Rightarrow> IdentityProvider \<Rightarrow> string \<Rightarrow> web \<Rightarrow> reply \<times> web" where
  "handleLinkStart sv lk ctx provider returnTo w =
     (case ctx of
        None \<Rightarrow> (writeEnvelope [] 401 ''unauthenticated'' ''sign in required'', w)
      | Some p \<Rightarrow>
          if p_Kind p \<noteq> ActorHuman then (writeEnvelope [] 401 ''unauthenticated'' ''sign in required'', w)
          else case StartLogin (sv_sha256 sv) (sv_codec sv) (sv_providers sv) (lk_kv lk 0) (lk_now lk) (lk_rnd lk) provider FlowLink returnTo
                      (p_UserID p) (wb_kv w) of
                 (r, s) \<Rightarrow> (start_reply sv r, w\<lparr>wb_kv := s\<rparr>))"

text \<open>The arguments are the state cookie and the query parameters \<open>state\<close> and \<open>code\<close>, empty when absent.\<close>

definition handleCallback :: "('priv, 'pub) server \<Rightarrow> luck \<Rightarrow> string \<Rightarrow> string \<Rightarrow> string \<Rightarrow> web \<Rightarrow> reply \<times> web" where
  "handleCallback sv lk cookieState queryState code w =
     (let clear = [ClearOAuthState (sv_secure sv)]
      in case HandleCallback (sv_codec sv) (sv_providers sv) (lk_db lk) (lk_kv lk) (lk_now lk) (lk_rnd lk 0) cookieState queryState code w of
           (Inl _, w1) \<Rightarrow> (redirectToApp sv clear ''/login?error=auth_failed'', w1)
         | (Inr res, w1) \<Rightarrow>
             (case issueSession sv lk (cr_UserID res) (cr_Email res) w1 of
                (None, w2) \<Rightarrow> (redirectToApp sv clear ''/login?error=session_failed'', w2)
              | (Some session, w2) \<Rightarrow>
                  (redirectToApp sv (clear @ session)
                     (if cr_IsNew res then ''/onboarding'' else if cr_ReturnTo res = '''' then ''/'' else cr_ReturnTo res), w2)))"

text \<open>The refresh cookie, empty when absent.\<close>

definition handleRefresh :: "('priv, 'pub) server \<Rightarrow> luck \<Rightarrow> rotate_env \<Rightarrow> string \<Rightarrow> web \<Rightarrow> reply \<times> web" where
  "handleRefresh sv lk env presented w =
     (if presented = '''' then (writeEnvelope [] 401 ''unauthenticated'' ''no refresh token'', w)
      else case Rotate (sv_sha256 sv) env (lk_now lk) presented (wb_db w) of
        (Inl _, db) \<Rightarrow>
          (writeEnvelope (ClearSession (sv_secure sv)) 401 ''unauthenticated'' ''refresh failed, please sign in again'', w\<lparr>wb_db := db\<rparr>)
      | (Inr rot, db) \<Rightarrow>
          ((case jwt_Issue (sv_lib sv) (sv_jwt sv) (lk_now lk) (lk_rnd lk 11) (ro_UserID rot) '''' of
              None \<Rightarrow> writeEnvelope [] 500 ''internal'' ''could not issue token''
            | Some (access, accessExp) \<Rightarrow>
                no_content (SetSession (sv_secure sv) access (ro_Raw rot)
                  (case NewOpaqueToken (lk_rnd lk 12) of None \<Rightarrow> '''' | Some t \<Rightarrow> t) accessExp (ro_Expires rot))),
           w\<lparr>wb_db := db\<rparr>))"

definition handleLogout :: "('priv, 'pub) server \<Rightarrow> luck \<Rightarrow> string \<Rightarrow> web \<Rightarrow> reply \<times> web" where
  "handleLogout sv lk presented w =
     (no_content (ClearSession (sv_secure sv)),
      if presented = '''' then w
      else w\<lparr>wb_db := snd (RevokeFamily (sv_sha256 sv) (lk_db lk 0, lk_db lk 1) (lk_now lk) presented (wb_db w))\<rparr>)"

text \<open>The access and the refresh cookie, empty when absent; the user is that of the one or the other.\<close>

definition handleLogoutAll :: "('priv, 'pub) server \<Rightarrow> luck \<Rightarrow> rotate_env \<Rightarrow> string \<Rightarrow> string \<Rightarrow> web \<Rightarrow> reply \<times> web" where
  "handleLogoutAll sv lk env access presented w =
     (let u0 = (if access = '''' then 0
                else case jwt_Verify (sv_lib sv) (sv_jwt sv) (lk_now lk) access of None \<Rightarrow> 0 | Some vt \<Rightarrow> vt_UserID vt)
      in case (if u0 = 0 \<and> presented \<noteq> ''''
               then (case Rotate (sv_sha256 sv) env (lk_now lk) presented (wb_db w) of
                       (Inl _, db) \<Rightarrow> (0, db) | (Inr rot, db) \<Rightarrow> (ro_UserID rot, db))
               else (u0, wb_db w)) of
           (userID, db) \<Rightarrow>
             if userID = 0 then (writeEnvelope [] 401 ''unauthenticated'' ''sign in required'', w\<lparr>wb_db := db\<rparr>)
             else (no_content (ClearSession (sv_secure sv)), w\<lparr>wb_db := snd (RevokeAll (lk_db lk 0) (lk_now lk) userID db)\<rparr>))"

section \<open>The handlers of the sign-in by mail\<close>

definition magicLinkPerEmailLimit :: int where "magicLinkPerEmailLimit = 3"
definition magicLinkPerEmailWindow :: duration where "magicLinkPerEmailWindow = 15 * Minute"
definition magicLinkPerIPLimit :: int where "magicLinkPerIPLimit = 10"
definition magicLinkPerIPWindow :: duration where "magicLinkPerIPWindow = Hour"

definition magicLinkNeutralMessage :: string where
  "magicLinkNeutralMessage = ''if that email has an account, we sent a link''"

text \<open>Whether the window is exceeded, by the counter after this request.\<close>

definition overLimit :: "kv_fault \<times> kv_fault \<Rightarrow> time \<Rightarrow> string \<Rightarrow> int \<Rightarrow> duration \<Rightarrow> kv \<Rightarrow> bool \<times> kv" where
  "overLimit g now key limit window s =
     (case Incr (fst g) now key s of
        (Inl _, s1) \<Rightarrow> (False, s1)
      | (Inr n, s1) \<Rightarrow> (limit < n, if n = 1 then snd (Expire (snd g) now key window s1) else s1))"

text \<open>The parts of the request the handler reads; \<open>rm_host\<close> is the host of \<open>RemoteAddr\<close> when it splits.\<close>

record mail_request =
  rm_Body :: "string option"
  rm_XForwardedFor :: string
  rm_RemoteAddr :: string
  rm_host :: "string option"
  rm_AcceptLanguage :: string
  rm_Country :: string
  rm_UserAgent :: string

definition clientIP :: "mail_request \<Rightarrow> string" where
  "clientIP r =
     (if rm_XForwardedFor r \<noteq> '''' then TrimSpace (takeWhile (\<lambda>c. c \<noteq> CHR '','') (rm_XForwardedFor r))
      else case rm_host r of None \<Rightarrow> rm_RemoteAddr r | Some host \<Rightarrow> host)"

definition magicLinkLocale :: "mail_request \<Rightarrow> string" where
  "magicLinkLocale r = (let al = ToLower (TrimSpace (rm_AcceptLanguage r)) in if 2 \<le> length al then take 2 al else ''en'')"

definition email_counter :: "string \<Rightarrow> string" where "email_counter email = ''ratelimit:magiclink:email:'' @ email"
definition ip_counter :: "string \<Rightarrow> string" where "ip_counter ip = ''ratelimit:magiclink:ip:'' @ ip"

text \<open>\<open>redis\<close> is false when no Redis is wired.\<close>

definition magicLimited :: "bool \<Rightarrow> (nat \<Rightarrow> kv_fault) \<Rightarrow> time \<Rightarrow> mail_request \<Rightarrow> string \<Rightarrow> kv \<Rightarrow> bool \<times> kv" where
  "magicLimited redis g now r email s =
     (if \<not> redis then (False, s)
      else case overLimit (g 0, g 1) now (email_counter email) magicLinkPerEmailLimit magicLinkPerEmailWindow s of
        (emailOver, s1) \<Rightarrow>
          (case overLimit (g 2, g 3) now (ip_counter (clientIP r)) magicLinkPerIPLimit magicLinkPerIPWindow s1 of
             (ipOver, s2) \<Rightarrow> (emailOver \<or> ipOver, s2)))"

definition magic_intent :: "mail_request \<Rightarrow> string \<Rightarrow> EmailIntent" where
  "magic_intent r email =
     \<lparr>em_Type = EmailMagicLink, em_Locale = magicLinkLocale r,
      em_MagicLink = Some \<lparr>mr_Email = email, mr_Country = rm_Country r, mr_UserAgent = rm_UserAgent r\<rparr>,
      em_Invitation = None, em_ChannelTest = None\<rparr>"

text \<open>\<open>published\<close> is false when the publish fails or no publisher is wired; both are ignored.\<close>

definition handleEmailStart :: "bool \<Rightarrow> luck \<Rightarrow> bool \<Rightarrow> mail_request \<Rightarrow> web \<Rightarrow> reply \<times> web" where
  "handleEmailStart redis lk published r w =
     (case rm_Body r of
        None \<Rightarrow> (writeEnvelope [] 422 ''validation_failed'' ''invalid JSON body'', w)
      | Some raw \<Rightarrow>
          let email = ToLower (TrimSpace raw)
          in if \<not> looksLikeEmail email then (writeEnvelope [] 422 ''validation_failed'' ''a valid email is required'', w)
             else case magicLimited redis (lk_kv lk) (lk_now lk) r email (wb_kv w) of
               (limited, s) \<Rightarrow>
                 if limited then (writeEnvelope [] 429 ''rate_limited'' magicLinkNeutralMessage, w\<lparr>wb_kv := s\<rparr>)
                 else (writeEnvelope [] 200 ''ok'' magicLinkNeutralMessage,
                       w\<lparr>wb_kv := s, wb_mail := wb_mail w @ (if published then [magic_intent r email] else [])\<rparr>))"

text \<open>\<open>wired\<close> is false when the server has no magic-link service.\<close>

definition handleEmailVerify :: "bool \<Rightarrow> ('priv, 'pub) server \<Rightarrow> luck \<Rightarrow> string \<Rightarrow> web \<Rightarrow> reply \<times> web" where
  "handleEmailVerify wired sv lk token w =
     (if \<not> wired then (redirectToApp sv [] ''/login?error=auth_failed'', w)
      else case magic_Verify (sv_sha256 sv) (sv_unmarshal sv) (lk_db lk) (lk_kv lk 0) (lk_now lk) (lk_rnd lk 0) token w of
        (Inl _, w1) \<Rightarrow> (redirectToApp sv [] ''/login?error=auth_failed'', w1)
      | (Inr (userID, email, isNew), w1) \<Rightarrow>
          (case issueSession sv lk userID email w1 of
             (None, w2) \<Rightarrow> (redirectToApp sv [] ''/login?error=session_failed'', w2)
           | (Some session, w2) \<Rightarrow> (redirectToApp sv session (if isNew then ''/onboarding'' else ''/''), w2)))"

text \<open>The body: address and name, \<open>None\<close> when it does not decode.\<close>

definition handleDevLogin :: "('priv, 'pub) server \<Rightarrow> luck \<Rightarrow> (string \<times> string) option \<Rightarrow> web \<Rightarrow> reply \<times> web" where
  "handleDevLogin sv lk body w =
     (case body of
        None \<Rightarrow> (writeEnvelope [] 422 ''validation_failed'' ''invalid JSON body'', w)
      | Some (rawEmail, rawName) \<Rightarrow>
          let email = TrimSpace rawEmail
          in if \<not> looksLikeEmail email then (writeEnvelope [] 422 ''validation_failed'' ''a valid email is required'', w)
             else case resolveDevUser (lk_db lk) (lk_now lk) (lk_rnd lk 0) email (TrimSpace rawName) (wb_db w) of
               (Inl _, db) \<Rightarrow> (writeEnvelope [] 500 ''internal'' ''could not sign in'', w\<lparr>wb_db := db\<rparr>)
             | (Inr userID, db) \<Rightarrow>
                 (case issueSession sv lk userID email (w\<lparr>wb_db := db\<rparr>) of
                    (None, w2) \<Rightarrow> (writeEnvelope [] 500 ''internal'' ''could not issue session'', w2)
                  | (Some session, w2) \<Rightarrow> (no_content session, w2)))"

end
