(* ===== verification/Pulse_Signin.thy ===== *)
theory Pulse_Signin
  imports Pulse_Login
begin

text \<open>
  What signing in means: \<open>account_of\<close> is the specification of which account a provider identity or an address
  stands for.  Every way to sign in refines it, no request of the auth plane moves an account, and a session that is
  handed out belongs to the account that signed in.
\<close>

section \<open>Accounts\<close>

definition identity_owner :: "tenant_db \<Rightarrow> IdentityProvider \<times> string \<rightharpoonup> int" where
  "identity_owner s k =
     map_option idn_UserID (find (\<lambda>i. idn_Provider i = fst k \<and> idn_ProviderUserID i = snd k) (tn_identities s))"

definition email_owner :: "tenant_db \<Rightarrow> string \<rightharpoonup> int" where
  "email_owner s email =
     map_option usr_ID (find (\<lambda>u. lower_eq (usr_Email u) email \<and> usr_Status u \<noteq> ''deleted'') (tn_users s))"

definition account_of :: "tenant_db \<Rightarrow> (IdentityProvider \<times> string) option \<Rightarrow> string \<Rightarrow> int option" where
  "account_of s idn email =
     (case (case idn of None \<Rightarrow> None | Some k \<Rightarrow> identity_owner s k) of Some u \<Rightarrow> Some u | None \<Rightarrow> email_owner s email)"

definition owns_org :: "tenant_db \<Rightarrow> int \<Rightarrow> bool" where
  "owns_org s u \<longleftrightarrow> list_ex (\<lambda>m. mem_UserID m = u \<and> mem_Role m = RoleOwner) (tn_members s)"

text \<open>Accounts are only added: identities and addresses stay with their owner, and a new account owns an org.\<close>

definition accounts_le :: "tenant_db \<Rightarrow> tenant_db \<Rightarrow> bool" where
  "accounts_le s s' \<longleftrightarrow> identity_owner s \<subseteq>\<^sub>m identity_owner s' \<and> email_owner s \<subseteq>\<^sub>m email_owner s'
     \<and> set (tn_members s) \<subseteq> set (tn_members s') \<and> usr_ID ` set (tn_users s) \<subseteq> usr_ID ` set (tn_users s')
     \<and> (\<forall>u \<in> usr_ID ` set (tn_users s'). u \<in> usr_ID ` set (tn_users s) \<or> owns_org s' u)"

lemma accounts_le_refl: "accounts_le s s"
  by (simp add: accounts_le_def)

lemma owns_org_mono: "owns_org s u \<Longrightarrow> set (tn_members s) \<subseteq> set (tn_members s') \<Longrightarrow> owns_org s' u"
  by (auto simp: owns_org_def list_ex_iff)

lemma accounts_le_trans:
  assumes "accounts_le a b" and "accounts_le b c"
  shows "accounts_le a c"
proof -
  have "u \<in> usr_ID ` set (tn_users a) \<or> owns_org c u" if "u \<in> usr_ID ` set (tn_users c)" for u
    using assms that owns_org_mono [of b u c] unfolding accounts_le_def by blast
  moreover have "identity_owner a \<subseteq>\<^sub>m identity_owner c" "email_owner a \<subseteq>\<^sub>m email_owner c"
    using assms map_le_trans [of "identity_owner a" "identity_owner b"] map_le_trans [of "email_owner a" "email_owner b"] by (simp_all add: accounts_le_def)
  moreover have "set (tn_members a) \<subseteq> set (tn_members c)" "usr_ID ` set (tn_users a) \<subseteq> usr_ID ` set (tn_users c)"
    using assms order_trans [of "set (tn_members a)" "set (tn_members b)"] order_trans [of "usr_ID ` set (tn_users a)" "usr_ID ` set (tn_users b)"]
    by (simp_all add: accounts_le_def)
  ultimately show ?thesis unfolding accounts_le_def by simp
qed

lemma identity_owner_append: "tn_identities s' = tn_identities s @ is \<Longrightarrow> identity_owner s \<subseteq>\<^sub>m identity_owner s'"
  by (auto simp: map_le_def identity_owner_def find_append)

lemma email_owner_append: "tn_users s' = tn_users s @ us \<Longrightarrow> email_owner s \<subseteq>\<^sub>m email_owner s'"
  by (auto simp: map_le_def email_owner_def find_append)

lemma accounts_le_tables:
  assumes "tn_users s' = tn_users s" and "tn_identities s' = tn_identities s @ is" and "set (tn_members s) \<subseteq> set (tn_members s')"
  shows "accounts_le s s'"
  using assms identity_owner_append [OF assms(2)] email_owner_append [of s' s "[]"] by (simp add: accounts_le_def)

interpretation al: row_effect accounts_le
  by unfold_locales (simp add: accounts_le_refl, rule accounts_le_tables [of _ _ "[]"], simp_all add: tn_rolled_back_def)

text \<open>The writes of a sign-in.\<close>

lemma SetLastLogin_accounts: "accounts_le s (snd (SetLastLogin f now u s))"
  unfolding SetLastLogin_def
proof (rule al.run)
  fix a s'
  let ?g = "\<lambda>v. if usr_ID v = u then v\<lparr>usr_LastLoginAt := Some now\<rparr> else v"
  assume "(Inr (), s\<lparr>tn_users := map ?g (tn_users s)\<rparr>) = (Inr a, s')"
  then have s': "s' = s\<lparr>tn_users := map ?g (tn_users s)\<rparr>" by simp
  have "email_owner s' = email_owner s"
    unfolding email_owner_def s' by (simp add: find_map_pres option.map_comp) (auto intro!: option.map_cong)
  moreover have "identity_owner s' = identity_owner s" by (simp add: fun_eq_iff identity_owner_def s')
  moreover have "map usr_ID (tn_users s') = map usr_ID (tn_users s)" by (simp add: s')
  then have "usr_ID ` set (tn_users s') = usr_ID ` set (tn_users s)" by (metis list.set_map)
  ultimately show "accounts_le s s'" by (simp add: accounts_le_def s')
qed

lemma LinkIdentity_accounts: "accounts_le s (snd (LinkIdentity f now i s))"
  unfolding LinkIdentity_def by (rule al.run) (auto dest!: insert_identity_ok intro!: accounts_le_tables)

text \<open>A committed first sign-in.\<close>

lemma first_sign_in_ok:
  assumes "first_sign_in now u idn orgName orgSlug s = (Inr r, s')"
  obtains org ms where "fs_UserID r = tn_next_user s"
    "tn_users s' = tn_users s @ [user_row now (tn_next_user s) u]" "\<not> email_taken s (usr_Email u)"
    "tn_identities s' = tn_identities s @ (case idn of None \<Rightarrow> [] | Some i \<Rightarrow>
        [i\<lparr>idn_UserID := tn_next_user s, idn_ID := tn_next_identity s, idn_CreatedAt := now\<rparr>])"
    "tn_members s' = tn_members s @ [ms]" "mem_UserID ms = tn_next_user s" "mem_Role ms = RoleOwner" "tn_orgs s' = tn_orgs s @ [org]"
proof -
  obtain i1 s1 i2 s2 i3 s3 i4 where u: "insert_user now u s = (Inr i1, s1)"
    and i: "(case idn of None \<Rightarrow> tx_return 0 | Some i \<Rightarrow> insert_identity now (i\<lparr>idn_UserID := i1\<rparr>)) s1 = (Inr i2, s2)"
    and o': "insert_org now (new_org orgName orgSlug) s2 = (Inr i3, s3)"
    and m: "insert_member now i3 i1 RoleOwner s3 = (Inr i4, s')" and r: "fs_UserID r = i1"
    using assms by (auto simp: first_sign_in_def tx_bind_Inr)
  have s2: "tn_users s2 = tn_users s1" "tn_members s2 = tn_members s1" "tn_orgs s2 = tn_orgs s1"
      "tn_identities s2 = tn_identities s1 @ (case idn of None \<Rightarrow> [] | Some i \<Rightarrow>
        [i\<lparr>idn_UserID := i1, idn_ID := tn_next_identity s1, idn_CreatedAt := now\<rparr>])"
    using i by (auto split: option.splits dest!: insert_identity_ok)
  show ?thesis
    using insert_user_ok [OF u] s2 insert_org_ok [OF o'] insert_member_ok [OF m] r
    by (intro that [of "\<lparr>mem_ID = i4, mem_OrgID = i3, mem_UserID = i1, mem_Role = RoleOwner, mem_CreatedAt = now\<rparr>"
          "org_row now i3 (new_org orgName orgSlug)"]) (simp_all split: option.split)
qed

lemma first_sign_in_accounts: "accounts_le s (snd (CreateUserWithPersonalOrg f now u idn orgName orgSlug s))"
  unfolding CreateUserWithPersonalOrg_def
proof (rule al.run)
  fix r s' assume "first_sign_in now u idn orgName orgSlug s = (Inr r, s')"
  then show "accounts_le s s'"
    by (rule first_sign_in_ok) (simp add: accounts_le_def identity_owner_append email_owner_append owns_org_def subset_insertI)
qed

section \<open>Every way to sign in\<close>

datatype sign_in_method = SocialLogin Profile | MailLogin string | DevLogin string string

fun method_identity :: "sign_in_method \<Rightarrow> (IdentityProvider \<times> string) option" where
  "method_identity (SocialLogin p) = Some (pf_Provider p, pf_ProviderUserID p)"
| "method_identity _ = None"

fun method_email :: "sign_in_method \<Rightarrow> string" where
  "method_email (SocialLogin p) = pf_Email p"
| "method_email (MailLogin e) = e"
| "method_email (DevLogin e name) = e"

fun sign_in :: "(nat \<Rightarrow> fault) \<Rightarrow> time \<Rightarrow> string option \<Rightarrow> sign_in_method \<Rightarrow> tenant_db \<Rightarrow> int option \<times> tenant_db" where
  "sign_in f now random (SocialLogin p) s =
     (case resolveLogin f now random p ''/'' s of (Inl _, s') \<Rightarrow> (None, s') | (Inr r, s') \<Rightarrow> (Some (cr_UserID r), s'))"
| "sign_in f now random (MailLogin e) s =
     (case resolve_address f now random e s of (Inl _, s') \<Rightarrow> (None, s') | (Inr r, s') \<Rightarrow> (Some (fst r), s'))"
| "sign_in f now random (DevLogin e name) s =
     (case resolveDevUser f now random e name s of (Inl _, s') \<Rightarrow> (None, s') | (Inr u, s') \<Rightarrow> (Some u, s'))"

lemma GetIdentity_owner:
  "GetIdentity f p k s = Inr i \<Longrightarrow> identity_owner s (p, k) = Some (idn_UserID i)"
  "GetIdentity f p k s = Inl ErrNoRows \<Longrightarrow> identity_owner s (p, k) = None"
  by (auto simp: GetIdentity_def identity_owner_def tn_read_def row_or_none_def split: if_splits option.splits)

lemma GetUserByEmail_owner:
  "GetUserByEmail f e s = Inr u \<Longrightarrow> email_owner s e = Some (usr_ID u)"
  "GetUserByEmail f e s = Inl ErrNoRows \<Longrightarrow> email_owner s e = None"
  by (auto simp: GetUserByEmail_def email_owner_def tn_read_def row_or_none_def split: if_splits option.splits)

lemma tn_run_Inr: "tn_run f fn s = (Inr a, s') \<Longrightarrow> fn s = (Inr a, s')"
  by (auto simp: tn_run_def split: if_splits prod.splits sum.splits)

text \<open>A new account: the next id, found under its address and under its identity if it has one.\<close>

lemma new_account:
  assumes "CreateUserWithPersonalOrg f now u idn orgName orgSlug s = (Inr r, s')" and "email_owner s (usr_Email u) = None"
    and "wf_tenant s"
  shows "email_owner s' (usr_Email u) = Some (fs_UserID r) \<and> fs_UserID r \<notin> usr_ID ` set (tn_users s) \<and> owns_org s' (fs_UserID r)
    \<and> (\<forall>i. idn = Some i \<longrightarrow> identity_owner s (idn_Provider i, idn_ProviderUserID i) = None
         \<longrightarrow> identity_owner s' (idn_Provider i, idn_ProviderUserID i) = Some (fs_UserID r))"
proof -
  have "first_sign_in now u idn orgName orgSlug s = (Inr r, s')"
    using assms(1) by (auto simp: CreateUserWithPersonalOrg_def dest: tn_run_Inr)
  moreover have "tn_next_user s \<notin> usr_ID ` set (tn_users s)"
    using assms(3) by (auto simp: wf_tenant_def wf_rows_def wf_users_def wf_ids_def list_all_iff)
  ultimately show ?thesis
    using assms(2)
    by (elim first_sign_in_ok)
      (auto simp: email_owner_def identity_owner_def find_append owns_org_def lower_eq_def split: option.splits)
qed

lemma linked_account:
  assumes "LinkIdentity f now (fresh_identity u p k) s = (Inr i, s')" and "identity_owner s (p, k) = None"
  shows "identity_owner s' (p, k) = Some u \<and> tn_users s' = tn_users s"
proof -
  have "insert_identity now (fresh_identity u p k) s = (Inr i, s')"
    using assms(1) by (auto simp: LinkIdentity_def dest: tn_run_Inr)
  from insert_identity_ok [OF this] assms(2) show ?thesis
    by (auto simp: identity_owner_def find_append fresh_identity_def)
qed

lemma SetLastLogin_same:
  "map usr_ID (tn_users (snd (SetLastLogin f now u s))) = map usr_ID (tn_users s)"
  "tn_identities (snd (SetLastLogin f now u s)) = tn_identities s"
  by (cases f; simp add: SetLastLogin_def tn_run_def comp_def cong: map_cong)+

lemma accounts_identity: "accounts_le s s' \<Longrightarrow> identity_owner s k = Some u \<Longrightarrow> identity_owner s' k = Some u"
  unfolding accounts_le_def map_le_def by (metis domI)

lemma accounts_email: "accounts_le s s' \<Longrightarrow> email_owner s e = Some u \<Longrightarrow> email_owner s' e = Some u"
  unfolding accounts_le_def map_le_def by (metis domI)

text \<open>What a method should have done: the account it stands for, or a new one that owns an org.\<close>

definition signed_into :: "tenant_db \<Rightarrow> sign_in_method \<Rightarrow> int \<Rightarrow> tenant_db \<Rightarrow> bool" where
  "signed_into s m u s' \<longleftrightarrow> account_of s' (method_identity m) (method_email m) = Some u
     \<and> (case account_of s (method_identity m) (method_email m) of
          Some v \<Rightarrow> u = v \<and> map usr_ID (tn_users s') = map usr_ID (tn_users s)
        | None \<Rightarrow> u \<notin> usr_ID ` set (tn_users s) \<and> owns_org s' u)"

lemma resolveLogin_signed:
  assumes "resolveLogin f now random p rt s = (Inr r, s')" and "wf_tenant s"
  shows "signed_into s (SocialLogin p) (cr_UserID r) s' \<and> identity_owner s' (pf_Provider p, pf_ProviderUserID p) = Some (cr_UserID r)"
proof (cases "GetIdentity (f 0) (pf_Provider p) (pf_ProviderUserID p) s")
  case (Inr i)
  then have r: "cr_UserID r = idn_UserID i" and s': "s' = snd (SetLastLogin (f 1) now (idn_UserID i) s)"
    using assms(1) by (auto simp: resolveLogin_def existing_account_def)
  have "identity_owner s' (pf_Provider p, pf_ProviderUserID p) = Some (idn_UserID i)"
    using accounts_identity [OF SetLastLogin_accounts] GetIdentity_owner(1) [OF Inr] s' by metis
  then show ?thesis
    using GetIdentity_owner(1) [OF Inr] by (simp add: signed_into_def account_of_def r s' SetLastLogin_same)
next
  case none: (Inl e)
  then have "e = ErrNoRows" using assms(1) by (auto simp: resolveLogin_def split: if_splits)
  note no_identity = GetIdentity_owner(2) [OF none [unfolded this]]
  show ?thesis
  proof (cases "GetUserByEmail (f 1) (pf_Email p) s")
    case (Inr u)
    obtain i s1 where l: "LinkIdentity (f 2) now (fresh_identity (usr_ID u) (pf_Provider p) (pf_ProviderUserID p)) s = (Inr i, s1)"
      and r: "cr_UserID r = usr_ID u" and s': "s' = snd (SetLastLogin (f 3) now (usr_ID u) s1)"
      using assms(1) none Inr by (auto simp: resolveLogin_def existing_account_def split: prod.splits sum.splits if_splits)
    note link = linked_account [OF l no_identity]
    have "identity_owner s' (pf_Provider p, pf_ProviderUserID p) = Some (usr_ID u)"
      using accounts_identity [OF SetLastLogin_accounts] link s' by metis
    then show ?thesis
      using GetUserByEmail_owner(1) [OF Inr] no_identity link by (simp add: signed_into_def account_of_def r s' SetLastLogin_same)
  next
    case (Inl e')
    then have e': "e' = ErrNoRows" using assms(1) none by (auto simp: resolveLogin_def split: if_splits)
    note no_email = GetUserByEmail_owner(2) [OF Inl [unfolded e']]
    obtain res where c: "CreateUserWithPersonalOrg (f 2) now (fresh_user (pf_Email p) (pf_Name p) (pf_AvatarURL p))
        (Some (fresh_identity 0 (pf_Provider p) (pf_ProviderUserID p))) (fst (personalOrgNaming random p)) (snd (personalOrgNaming random p)) s
        = (Inr res, s')" and r: "cr_UserID r = fs_UserID res"
      using assms(1) none Inl by (auto simp: resolveLogin_def split: prod.splits sum.splits if_splits)
    show ?thesis
      using new_account [OF c _ assms(2)] no_identity no_email
      by (simp add: signed_into_def account_of_def r fresh_user_def fresh_identity_def)
  qed
qed

lemma known_address_signed:
  assumes "email_owner s e = Some v" and "method_identity m = None" and "method_email m = e"
  shows "signed_into s m v (snd (SetLastLogin f now v s))"
proof -
  have "email_owner (snd (SetLastLogin f now v s)) e = Some v" using accounts_email [OF SetLastLogin_accounts] assms(1) by blast
  then show ?thesis using assms by (simp add: signed_into_def account_of_def SetLastLogin_same)
qed

lemma new_address_signed:
  assumes "CreateUserWithPersonalOrg f now (fresh_user e nm av) idn orgName orgSlug s = (Inr r, s')" and "email_owner s e = None"
    and "wf_tenant s" and "method_identity m = None" and "method_email m = e"
  shows "signed_into s m (fs_UserID r) s'"
  using assms(2,4,5) new_account [OF assms(1) _ assms(3)] by (simp add: signed_into_def account_of_def fresh_user_def)

lemma resolve_address_signed:
  assumes "resolve_address f now random e s = (Inr r, s')" and "wf_tenant s"
  shows "signed_into s (MailLogin e) (fst r) s'"
proof (cases "GetUserByEmail (f 0) e s")
  case (Inr v)
  then show ?thesis
    using assms(1) known_address_signed [OF GetUserByEmail_owner(1) [OF Inr]] by (auto simp: resolve_address_def)
next
  case (Inl e0)
  then have "email_owner s e = None" using assms(1) GetUserByEmail_owner(2) by (auto simp: resolve_address_def split: if_splits)
  moreover obtain res where "CreateUserWithPersonalOrg (f 1) now (fresh_user e (nameFromEmail e) '''') None
      (fst (magicLinkOrgNaming random e)) (snd (magicLinkOrgNaming random e)) s = (Inr res, s')" "fst r = fs_UserID res"
    using assms(1) Inl by (auto simp: resolve_address_def split: prod.splits sum.splits if_splits)
  ultimately show ?thesis using new_address_signed [OF _ _ assms(2)] by simp
qed

lemma resolveDevUser_signed:
  assumes "resolveDevUser f now random e name s = (Inr u, s')" and "wf_tenant s"
  shows "signed_into s (DevLogin e name) u s'"
proof (cases "GetUserByEmail (f 0) e s")
  case (Inr v)
  then show ?thesis
    using assms(1) known_address_signed [OF GetUserByEmail_owner(1) [OF Inr]] by (auto simp: resolveDevUser_def)
next
  case (Inl e0)
  let ?name = "default_to (nameFromEmail e) name"
  have "email_owner s e = None" using Inl assms(1) GetUserByEmail_owner(2) by (auto simp: resolveDevUser_def split: if_splits)
  moreover obtain res where "CreateUserWithPersonalOrg (f 1) now (fresh_user e ?name '''') (Some (fresh_identity 0 ProviderDev e))
      (fst (devOrgNaming random ?name e)) (snd (devOrgNaming random ?name e)) s = (Inr res, s')" "u = fs_UserID res"
    using assms(1) Inl by (auto simp: resolveDevUser_def Let_def split: prod.splits sum.splits if_splits)
  ultimately show ?thesis using new_address_signed [OF _ _ assms(2)] by simp
qed

text \<open>
  C20. Whatever way and whatever faults: a sign-in that succeeds ends in the account the identity, or else the
  address, stands for; without one it ends in a new account with a new id that owns an org; and from then on the identity
  and the address stand for the account that signed in.
\<close>

theorem sign_in_refines_account:
  assumes "sign_in f now random m s = (Some u, s')" and "wf_tenant s"
  shows "account_of s' (method_identity m) (method_email m) = Some u
    \<and> (case account_of s (method_identity m) (method_email m) of
         Some v \<Rightarrow> u = v \<and> map usr_ID (tn_users s') = map usr_ID (tn_users s)
       | None \<Rightarrow> u \<notin> usr_ID ` set (tn_users s) \<and> owns_org s' u)"
proof -
  have "signed_into s m u s'"
  proof (cases m)
    case (SocialLogin p)
    then show ?thesis using assms resolveLogin_signed by (auto split: prod.splits sum.splits)
  next
    case (MailLogin e)
    then show ?thesis using assms resolve_address_signed by (fastforce split: prod.splits sum.splits)
  next
    case (DevLogin e name)
    then show ?thesis using assms resolveDevUser_signed by (auto split: prod.splits sum.splits)
  qed
  then show ?thesis by (simp add: signed_into_def)
qed

section \<open>Requests of the auth plane\<close>

text \<open>The session operations touch the refresh tokens only.\<close>

definition session_only :: "tenant_db \<Rightarrow> tenant_db \<Rightarrow> bool" where
  "session_only s s' \<longleftrightarrow> s' = s\<lparr>tn_refresh := tn_refresh s', tn_next_refresh := tn_next_refresh s'\<rparr>"

lemma session_onlyI: "s' = s\<lparr>tn_refresh := rs, tn_next_refresh := n\<rparr> \<Longrightarrow> session_only s s'"
  by (simp add: session_only_def)

lemma session_only_refl: "session_only s s"
  by (simp add: session_only_def)

lemma session_only_trans:
  assumes "session_only a b" and "session_only b c"
  shows "session_only a c"
proof -
  obtain rs n where b: "b = a\<lparr>tn_refresh := rs, tn_next_refresh := n\<rparr>" using assms(1) by (metis session_only_def)
  obtain rs' n' where "c = b\<lparr>tn_refresh := rs', tn_next_refresh := n'\<rparr>" using assms(2) by (metis session_only_def)
  then have "c = a\<lparr>tn_refresh := rs', tn_next_refresh := n'\<rparr>" by (simp add: b)
  then show ?thesis by (rule session_onlyI)
qed

text \<open>Here a failing statement may have moved the counter of the table.\<close>

lemma session_only_run:
  assumes "session_only s (snd (fn s))"
  shows "session_only s (snd (tn_run f fn s))"
proof (cases "fn s")
  case (Pair r s')
  have "s' = s\<lparr>tn_refresh := tn_refresh s', tn_next_refresh := tn_next_refresh s'\<rparr>" using assms Pair by (simp add: session_only_def)
  then obtain rs n where s': "s' = s\<lparr>tn_refresh := rs, tn_next_refresh := n\<rparr>" by blast
  then have "session_only s (tn_rolled_back s s')" by (simp add: tn_rolled_back_def session_only_def)
  then show ?thesis using assms Pair by (cases r) (auto simp: tn_run_def session_only_refl)
qed

lemma insert_refresh_session: "session_only s (snd (insert_refresh now u fam h e s))"
  by (auto simp: insert_refresh_def Let_def session_only_def)

lemma upd_refresh_session: "session_only s (upd_refresh P g s)"
  by (simp add: session_only_def upd_refresh_def)

lemma revoke_session: "session_only s (snd (revoke_where f now P s))"
  unfolding revoke_where_def by (rule session_only_run) (simp add: upd_refresh_session)

lemma rotate_session: "session_only s (snd (rotate_from snap now h h' s))"
proof -
  have "session_only s (snd (tx_bind (insert_refresh now u fam h' e) (\<lambda>i s1. (Inr i, upd_refresh P (g i) s1)) s))" for u fam e P g
    using insert_refresh_session [of s now u fam h' e] upd_refresh_session
    by (auto simp: tx_bind_def split: prod.splits sum.splits) (metis session_only_trans snd_conv)
  then show ?thesis
    by (auto simp: rotate_from_def split: option.split) (auto simp: session_only_def)
qed

lemma Issue_session: "session_only s (snd (Issue sha256 f now random u s))"
proof -
  have "session_only s (snd (CreateRefreshToken f now rt s))" for rt
  proof (cases "tn_run (fst f) (insert_refresh now (rt_UserID rt) (rt_FamilyID rt) (rt_TokenHash rt) (rt_ExpiresAt rt)) s")
    case (Pair r s1)
    have one: "session_only s s1" using session_only_run [of s "insert_refresh now (rt_UserID rt) (rt_FamilyID rt) (rt_TokenHash rt) (rt_ExpiresAt rt)", OF insert_refresh_session] Pair by (metis snd_conv)
    have "session_only s1 (snd (tn_run (snd f) (\<lambda>s. (Inr (i, i), upd_refresh (\<lambda>t. rt_ID t = i) (\<lambda>t. t\<lparr>rt_FamilyID := i\<rparr>) s)) s1))" for i
      by (rule session_only_run) (simp add: upd_refresh_session)
    then show ?thesis
      using one session_only_trans [OF one] Pair by (cases r) (auto simp: CreateRefreshToken_def split: prod.splits)
  qed
  then show ?thesis by (auto simp: Issue_def Let_def session_only_refl split: option.split prod.splits sum.splits) (metis snd_conv)+
qed

lemma Rotate_session: "session_only s (snd (Rotate sha256 env now presented s))"
proof -
  have "session_only s s1 \<Longrightarrow> session_only s (snd (RevokeRefreshTokenFamily f now fam s1))" for s1 f fam
    unfolding RevokeRefreshTokenFamily_def by (rule session_only_trans [OF _ revoke_session])
  moreover have "RotateRefreshToken f now h h' s = (r, s1) \<Longrightarrow> session_only s s1" for f h h' r s1
    using session_only_run [of s "\<lambda>s. rotate_from s now h h' s", OF rotate_session] unfolding RotateRefreshToken_def by (metis snd_conv)
  ultimately show ?thesis
    by (auto simp: Rotate_def Let_def session_only_refl split: sum.split option.split prod.split)
qed

lemma RevokeFamily_session: "session_only s (snd (RevokeFamily sha256 f now presented s))"
  using revoke_session [of s "snd f" now]
  by (auto simp: RevokeFamily_def RevokeRefreshTokenFamily_def session_only_refl split: sum.split prod.split) (metis snd_conv)+

lemma RevokeAll_session: "session_only s (snd (RevokeAll f now u s))"
  using revoke_session [of s f now]
  by (auto simp: RevokeAll_def RevokeAllForUser_def split: sum.split prod.split) (metis snd_conv)+

text \<open>A step of the auth plane: accounts are only added and the invariant of the tables is kept.\<close>

definition login_step :: "tenant_db \<Rightarrow> tenant_db \<Rightarrow> bool" where
  "login_step s s' \<longleftrightarrow> accounts_le s s' \<and> (wf_tenant s \<longrightarrow> wf_tenant s')"

lemma login_step_refl: "login_step s s"
  by (simp add: login_step_def accounts_le_refl)

lemma login_step_trans: "login_step a b \<Longrightarrow> login_step b c \<Longrightarrow> login_step a c"
  using accounts_le_trans by (auto simp: login_step_def)

lemma session_login_step:
  assumes "session_only s s'"
  shows "login_step s s'"
proof -
  obtain rs n where s': "s' = s\<lparr>tn_refresh := rs, tn_next_refresh := n\<rparr>" using assms by (metis session_only_def)
  have "accounts_le s s'" by (rule accounts_le_tables [of _ _ "[]"]) (simp_all add: s')
  moreover have "wf_tenant s' = wf_tenant s"
    by (simp add: s' wf_tenant_def wf_rows_def wf_tables all_owned_def has_owner_def)
  ultimately show ?thesis by (simp add: login_step_def)
qed

lemma store_login_steps:
  "login_step s (snd (SetLastLogin f now u s))" "login_step s (snd (LinkIdentity f now i s))"
  "login_step s (snd (CreateUserWithPersonalOrg f now v idn orgName orgSlug s))"
  using tn_step_wf [OF tn_step.intros(4)] tn_step_wf [OF tn_step.intros(5)] tn_step_wf [OF tn_step.intros(2)]
  by (auto simp: login_step_def SetLastLogin_accounts LinkIdentity_accounts first_sign_in_accounts)

lemma login_step_pair: "login_step s (snd p) \<Longrightarrow> p = (r, s') \<Longrightarrow> login_step s s'"
  by simp

lemma resolve_steps:
  "login_step s (snd (resolveLogin f now random p rt s))" "login_step s (snd (resolveLink f now u p rt s))"
  "login_step s (snd (resolve_address f now random e s))" "login_step s (snd (resolveDevUser f now random e name s))"
proof -
  note steps = login_step_refl store_login_steps login_step_pair [OF store_login_steps(2)] login_step_pair [OF store_login_steps(3)]
  show "login_step s (snd (resolveLogin f now random p rt s))"
    by (auto simp: resolveLogin_def steps split: sum.split prod.split intro: login_step_trans [OF steps(5)])
  show "login_step s (snd (resolveLink f now u p rt s))" "login_step s (snd (resolve_address f now random e s))"
    "login_step s (snd (resolveDevUser f now random e name s))"
    by (auto simp: resolveLink_def resolve_address_def resolveDevUser_def Let_def steps split: sum.split prod.split)
qed

datatype login_request =
    LrLogin luck IdentityProvider string
  | LrLinkStart luck "Principal option" IdentityProvider string
  | LrCallback luck string string string
  | LrRefresh luck rotate_env string
  | LrLogout luck string
  | LrLogoutAll luck rotate_env string string
  | LrEmailStart bool luck bool mail_request
  | LrEmailVerify bool luck string
  | LrDevLogin luck "(string \<times> string) option"

fun serve_login :: "('priv, 'pub) server \<Rightarrow> login_request \<Rightarrow> web \<Rightarrow> reply \<times> web" where
  "serve_login sv (LrLogin lk p rt) w = handleLogin sv lk p rt w"
| "serve_login sv (LrLinkStart lk ctx p rt) w = handleLinkStart sv lk ctx p rt w"
| "serve_login sv (LrCallback lk c q code) w = handleCallback sv lk c q code w"
| "serve_login sv (LrRefresh lk env t) w = handleRefresh sv lk env t w"
| "serve_login sv (LrLogout lk t) w = handleLogout sv lk t w"
| "serve_login sv (LrLogoutAll lk env a t) w = handleLogoutAll sv lk env a t w"
| "serve_login sv (LrEmailStart redis lk pub r) w = handleEmailStart redis lk pub r w"
| "serve_login sv (LrEmailVerify wired lk t) w = handleEmailVerify wired sv lk t w"
| "serve_login sv (LrDevLogin lk b) w = handleDevLogin sv lk b w"

lemma issueSession_step: "login_step (wb_db w) (wb_db (snd (issueSession sv lk u e w)))"
  using session_login_step [OF Issue_session [of "wb_db w" "sv_sha256 sv" "lk_issue lk" "lk_now lk" "lk_rnd lk 10" u]]
  by (auto simp: issueSession_def split: prod.splits sum.splits)

lemma issue_after: "login_step s (wb_db w) \<Longrightarrow> issueSession sv lk u e w = (r, w') \<Longrightarrow> login_step s (wb_db w')"
  using issueSession_step [of w sv lk u e] login_step_trans by auto

lemma HandleCallback_step: "login_step (wb_db w) (wb_db (snd (HandleCallback codec ps f g now random c q code w)))"
proof -
  note r = login_step_pair [OF resolve_steps(1)] login_step_pair [OF resolve_steps(2)]
  show ?thesis
    by (auto simp: HandleCallback_def Let_def login_step_refl split: sum.split option.split prod.split if_split intro: r)
qed

lemma magic_Verify_step: "login_step (wb_db w) (wb_db (snd (magic_Verify sha256 um f g now random t w)))"
  using login_step_pair [OF resolve_steps(3)]
  by (auto simp: magic_Verify_def login_step_refl split: sum.split prod.split)

lemma handleLogoutAll_step: "login_step (wb_db w) (wb_db (snd (handleLogoutAll sv lk env a t w)))"
proof -
  let ?r = "Rotate (sv_sha256 sv) env (lk_now lk) t (wb_db w)"
  have rot: "login_step (wb_db w) (snd ?r)" by (rule session_login_step [OF Rotate_session])
  have revoke: "login_step (wb_db w) s \<Longrightarrow> login_step (wb_db w) (snd (RevokeAll f now u s))" for f now u s
    using session_login_step [OF RevokeAll_session] login_step_trans by blast
  show ?thesis
    using rot revoke [OF rot] revoke [OF login_step_refl]
    by (cases ?r) (auto simp: handleLogoutAll_def Let_def login_step_refl split: sum.splits prod.splits option.splits if_splits)
qed

lemma handleDevLogin_step: "login_step (wb_db w) (wb_db (snd (handleDevLogin sv lk b w)))"
proof (cases b)
  case (Some en)
  obtain e name where en: "en = (e, name)" by fastforce
  obtain x db where d: "resolveDevUser (lk_db lk) (lk_now lk) (lk_rnd lk 0) (TrimSpace e) (TrimSpace name) (wb_db w) = (x, db)" by fastforce
  have step: "login_step (wb_db w) db" by (rule login_step_pair [OF resolve_steps(4) d])
  have "issueSession sv lk u (TrimSpace e) (w\<lparr>wb_db := db\<rparr>) = (r, w2) \<Longrightarrow> login_step (wb_db w) (wb_db w2)" for u r w2
    using issue_after [of "wb_db w" "w\<lparr>wb_db := db\<rparr>"] step by simp
  then show ?thesis
    using step d by (simp add: handleDevLogin_def Some en Let_def login_step_refl split: option.split prod.split sum.split)
qed (simp add: handleDevLogin_def login_step_refl)

lemma serve_login_step: "login_step (wb_db w) (wb_db (snd (serve_login sv r w)))"
proof (cases r)
  case (LrCallback lk c q code)
  then show ?thesis
    using HandleCallback_step [of w "sv_codec sv" "sv_providers sv" "lk_db lk" "lk_kv lk" "lk_now lk" "lk_rnd lk 0" c q code]
    by (auto simp: handleCallback_def Let_def split: prod.splits sum.splits option.splits intro: issue_after)
next
  case (LrRefresh lk env t)
  then show ?thesis
    using session_login_step [OF Rotate_session [of "wb_db w" "sv_sha256 sv" env "lk_now lk" t]]
    by (auto simp: handleRefresh_def login_step_refl split: prod.splits sum.splits)
next
  case (LrLogout lk t)
  then show ?thesis using session_login_step [OF RevokeFamily_session] by (simp add: handleLogout_def login_step_refl)
next
  case (LrLogoutAll lk env a t)
  then show ?thesis using handleLogoutAll_step by simp
next
  case (LrEmailVerify wired lk t)
  then show ?thesis
    using magic_Verify_step [of w "sv_sha256 sv" "sv_unmarshal sv" "lk_db lk" "lk_kv lk 0" "lk_now lk" "lk_rnd lk 0" t]
    by (auto simp: handleEmailVerify_def login_step_refl split: prod.splits sum.splits option.splits intro: issue_after)
next
  case (LrDevLogin lk b)
  then show ?thesis using handleDevLogin_step by simp
qed (auto simp: handleLogin_def handleLinkStart_def handleEmailStart_def Let_def login_step_refl split: option.splits prod.splits)

text \<open>
  C22. Over any sequence of requests of the auth plane (logins, links, callbacks, refreshes, logouts, mail and
  development sign-ins), by anybody and with any faults: a provider identity or an address that stands for an account stands
  for the same account at the end, nobody loses a membership, every account that was created owns an org, and the
  invariant of the tables holds.
\<close>

theorem logins_never_move_accounts:
  assumes "wf_tenant (wb_db w)" and "w' = fold (\<lambda>r w. snd (serve_login sv r w)) rs w"
  shows "identity_owner (wb_db w) \<subseteq>\<^sub>m identity_owner (wb_db w') \<and> email_owner (wb_db w) \<subseteq>\<^sub>m email_owner (wb_db w')
    \<and> set (tn_members (wb_db w)) \<subseteq> set (tn_members (wb_db w'))
    \<and> (\<forall>u \<in> usr_ID ` set (tn_users (wb_db w')). u \<in> usr_ID ` set (tn_users (wb_db w)) \<or> owns_org (wb_db w') u)
    \<and> wf_tenant (wb_db w')"
proof -
  have "login_step (wb_db w) (wb_db (fold (\<lambda>r w. snd (serve_login sv r w)) rs w))" for w
    by (induction rs arbitrary: w) (auto simp: login_step_refl intro: login_step_trans serve_login_step)
  then show ?thesis using assms by (simp add: login_step_def accounts_le_def)
qed

section \<open>Where a browser is sent\<close>

definition safe_path :: "string \<Rightarrow> bool" where
  "safe_path p \<longleftrightarrow> p \<noteq> '''' \<and> hd p = CHR ''/'' \<and> \<not> HasPrefix p ''//'' \<and> \<not> HasPrefix p [CHR ''/'', CHR 0x5C]"

lemma safeReturnTo_safe: "safe_path (safeReturnTo r)"
  by (simp add: safe_path_def safeReturnTo_def HasPrefix_def)

text \<open>Every flow record the store holds has a safe path; the JSON form of a record keeps it.\<close>

definition flows_safe :: "flow_codec \<Rightarrow> kv \<Rightarrow> bool" where
  "flows_safe codec s \<longleftrightarrow> (\<forall>q v e rec. s (flowKey q) = Some (KvString v, e) \<longrightarrow> fc_unmarshal codec v = Some rec \<longrightarrow> safe_path (fl_ReturnTo rec))"

definition flow_codec_ok :: "flow_codec \<Rightarrow> bool" where
  "flow_codec_ok codec \<longleftrightarrow>
     (\<forall>rec rec'. fc_unmarshal codec (fc_marshal codec rec) = Some rec' \<longrightarrow> fl_ReturnTo rec' = fl_ReturnTo rec)"

lemma flows_safe_sub: "flows_safe codec s \<Longrightarrow> (\<And>q. s' (flowKey q) = s (flowKey q) \<or> s' (flowKey q) = None) \<Longrightarrow> flows_safe codec s'"
  unfolding flows_safe_def by (metis option.distinct(1))

lemma flowKey_inj [simp]: "flowKey a = flowKey b \<longleftrightarrow> a = b"
  by (simp add: flowKey_def)

lemma StartLogin_kv:
  assumes "StartLogin sha256 codec ps g now rnd provider flow rt u s = (r, s')"
  shows "s' = s \<or> (\<exists>state nonce verifier. NewOpaqueToken (rnd 0) = Some state
    \<and> s' = s(flowKey state \<mapsto> (KvString (fc_marshal codec (flow_record provider flow rt u nonce verifier)), kv_expiry now flowTTL)))"
  using assms by (cases g) (auto simp: StartLogin_def SetCache_def kv_command_def split: option.splits prod.splits sum.splits)

lemma StartLogin_safe:
  assumes "StartLogin sha256 codec ps g now rnd provider flow rt u s = (r, s')" and "flows_safe codec s" and "flow_codec_ok codec"
  shows "flows_safe codec s'"
proof -
  have new: "fc_unmarshal codec (fc_marshal codec (flow_record provider flow rt u n v)) = Some rec \<Longrightarrow> safe_path (fl_ReturnTo rec)" for n v rec
    using assms(3) safeReturnTo_safe [of rt] unfolding flow_codec_ok_def flow_record_def by fastforce
  show ?thesis
    using StartLogin_kv [OF assms(1)] assms(2) unfolding flows_safe_def
    by (elim disjE exE conjE) (auto split: if_splits intro: new)
qed

lemma DelCache_sub: "snd (DelCache g k s) k' = s k' \<or> snd (DelCache g k s) k' = None"
  by (cases g) (simp_all add: DelCache_def kv_command_def)

lemma HandleCallback_kv: "wb_kv (snd (HandleCallback codec ps f g now random c q code w)) k = wb_kv w k
    \<or> wb_kv (snd (HandleCallback codec ps f g now random c q code w)) k = None"
  using DelCache_sub [of "g 1" "flowKey q" "wb_kv w" k]
  by (auto simp: HandleCallback_def Let_def split: sum.split option.split prod.split)

lemma magic_Verify_kv: "wb_kv (snd (magic_Verify sha256 um f g now random t w)) k = wb_kv w k
    \<or> wb_kv (snd (magic_Verify sha256 um f g now random t w)) k = None"
  using Consume_only_removes [of sha256 um g now t "wb_kv w" _ _ k]
  by (auto simp: magic_Verify_def split: sum.split prod.split)

lemma issueSession_kv [simp]: "wb_kv (snd (issueSession sv lk u e w)) = wb_kv w"
  by (auto simp: issueSession_def split: prod.split sum.split)

lemma issue_kv: "issueSession sv lk u e w = (r, w') \<Longrightarrow> wb_kv w' = wb_kv w"
  using issueSession_kv [of sv lk u e w] by simp

lemma overLimit_kv: "k' \<noteq> k \<Longrightarrow> snd (overLimit g now k n d s) k' = s k'"
  by (cases "fst g"; cases "snd g")
    (auto simp: overLimit_def Incr_def Expire_def kv_command_def split: option.split kv_value.split prod.split sum.split)

lemma flow_not_counter: "flowKey q \<noteq> email_counter e" "flowKey q \<noteq> ip_counter i"
  by (simp_all add: flowKey_def email_counter_def ip_counter_def)

lemma magicLimited_kv: "snd (magicLimited redis g now r e s) (flowKey q) = s (flowKey q)"
  using overLimit_kv [OF flow_not_counter(1)] overLimit_kv [OF flow_not_counter(2)]
  by (auto simp: magicLimited_def split: prod.split) (metis snd_conv)

text \<open>What a request does to the flow records: a start may write the one of its state, all others only remove.\<close>

definition starts_state :: "login_request \<Rightarrow> string option" where
  "starts_state r =
     (case r of LrLogin lk _ _ \<Rightarrow> NewOpaqueToken (lk_rnd lk 0) | LrLinkStart lk _ _ _ \<Rightarrow> NewOpaqueToken (lk_rnd lk 0) | _ \<Rightarrow> None)"

lemma serve_login_flow:
  "starts_state r \<noteq> Some q \<Longrightarrow> wb_kv (snd (serve_login sv r w)) (flowKey q) = wb_kv w (flowKey q)
     \<or> wb_kv (snd (serve_login sv r w)) (flowKey q) = None"
proof (cases r)
  case (LrLogin lk p rt)
  assume "starts_state r \<noteq> Some q"
  then show ?thesis using LrLogin by (auto simp: handleLogin_def starts_state_def split: prod.split dest!: StartLogin_kv)
next
  case (LrLinkStart lk ctx p rt)
  assume "starts_state r \<noteq> Some q"
  then show ?thesis
    using LrLinkStart by (auto simp: handleLinkStart_def starts_state_def split: prod.split option.split dest!: StartLogin_kv)
next
  case (LrCallback lk c q' code)
  then show ?thesis
    using HandleCallback_kv [of "sv_codec sv" "sv_providers sv" "lk_db lk" "lk_kv lk" "lk_now lk" "lk_rnd lk 0" c q' code w "flowKey q"]
    by (auto simp: handleCallback_def Let_def split: prod.splits sum.splits option.splits dest!: issue_kv)
next
  case (LrEmailVerify wired lk t)
  then show ?thesis
    using magic_Verify_kv [of "sv_sha256 sv" "sv_unmarshal sv" "lk_db lk" "lk_kv lk 0" "lk_now lk" "lk_rnd lk 0" t w "flowKey q"]
    by (auto simp: handleEmailVerify_def split: prod.splits sum.splits option.splits dest!: issue_kv)
next
  case (LrEmailStart redis lk pub m)
  have "magicLimited redis (lk_kv lk) (lk_now lk) m e (wb_kv w) = (b, s) \<Longrightarrow> s (flowKey q) = wb_kv w (flowKey q)" for e b s
    using magicLimited_kv [of redis "lk_kv lk" "lk_now lk" m e "wb_kv w" q] by simp
  then show ?thesis using LrEmailStart by (auto simp: handleEmailStart_def Let_def split: option.split prod.split)
qed (auto simp: handleRefresh_def handleLogout_def handleLogoutAll_def handleDevLogin_def Let_def
     split: option.split prod.split sum.split dest!: issue_kv)

lemma serve_login_flows_safe:
  assumes "flows_safe (sv_codec sv) (wb_kv w)" and "flow_codec_ok (sv_codec sv)"
  shows "flows_safe (sv_codec sv) (wb_kv (snd (serve_login sv r w)))"
proof (cases "starts_state r")
  case None
  then show ?thesis using serve_login_flow [of r _ sv w] by (intro flows_safe_sub [OF assms(1)]) auto
next
  case (Some q)
  then show ?thesis
    using assms
    by (cases r) (auto simp: starts_state_def handleLogin_def handleLinkStart_def split: prod.split option.split intro: StartLogin_safe)
qed

lemma redirectToApp_target:
  "safe_path d \<Longrightarrow> rp_Location (redirectToApp sv cs d) = Some (sv_appBaseURL sv @ d)"
  by (simp add: redirectToApp_def http_Redirect_def safe_path_def Let_def)

lemma fixed_paths_safe: "safe_path ''/''" "safe_path ''/onboarding''" "safe_path ''/login?error=auth_failed''" "safe_path ''/login?error=session_failed''"
  by (simp_all add: safe_path_def HasPrefix_def)

lemma resolve_ReturnTo:
  "resolveLogin f now random p rt s = (Inr r, s') \<Longrightarrow> cr_ReturnTo r = rt"
  "resolveLink f now u p rt s = (Inr r, s') \<Longrightarrow> cr_ReturnTo r = rt"
  by (auto simp: resolveLogin_def resolveLink_def existing_account_def split: sum.splits prod.splits if_splits)

text \<open>What a callback that succeeds has seen.\<close>

lemma GetCache_Some: "fst (GetCache g now k s) = Inr (Some v) \<Longrightarrow> \<exists>e. kv_live now s k = Some (KvString v, e)"
  by (cases g) (auto simp: GetCache_def kv_command_def split: option.splits kv_value.splits prod.splits)

lemma kv_live_Some: "kv_live now s k = Some (v, e) \<Longrightarrow> s k = Some (v, e)"
  by (auto simp: kv_live_def split: option.splits prod.splits if_splits)

lemma HandleCallback_Inr:
  assumes "HandleCallback codec ps f g now random c q code w = (Inr res, w')"
  obtains raw e rec p profile where "c = q" "q \<noteq> ''''" "kv_live now (wb_kv w) (flowKey q) = Some (KvString raw, e)"
    "fc_unmarshal codec raw = Some rec" "ps (fl_Provider rec) = Some p"
    "pv_Exchange p code (fl_Verifier rec) (fl_Nonce rec) = Inr profile"
    "(if fl_Flow rec = FlowLink then resolveLink f now (fl_LinkUserID rec) profile (fl_ReturnTo rec) (wb_db w)
      else resolveLogin f now random profile (fl_ReturnTo rec) (wb_db w)) = (Inr res, wb_db w')"
    "wb_kv w' = snd (DelCache (g 1) (flowKey q) (wb_kv w))"
proof -
  obtain raw where q: "c = q" "q \<noteq> ''''" and g: "fst (GetCache (g 0) now (flowKey q) (wb_kv w)) = Inr (Some raw)"
    using assms by (auto simp: HandleCallback_def split: if_splits sum.splits option.splits)
  obtain rec where rec: "fc_unmarshal codec raw = Some rec"
    using assms q g by (auto simp: HandleCallback_def Let_def split: option.splits)
  obtain p where p: "ps (fl_Provider rec) = Some p"
    using assms q g rec by (auto simp: HandleCallback_def Let_def split: option.splits)
  obtain profile where x: "pv_Exchange p code (fl_Verifier rec) (fl_Nonce rec) = Inr profile"
    using assms q g rec p by (auto simp: HandleCallback_def Let_def split: sum.splits)
  have "(if fl_Flow rec = FlowLink then resolveLink f now (fl_LinkUserID rec) profile (fl_ReturnTo rec) (wb_db w)
      else resolveLogin f now random profile (fl_ReturnTo rec) (wb_db w)) = (Inr res, wb_db w')"
      "wb_kv w' = snd (DelCache (g 1) (flowKey q) (wb_kv w))"
    using assms q g rec p x by (auto simp: HandleCallback_def Let_def split: prod.splits if_splits)
  then show ?thesis using GetCache_Some [OF g] that [OF q _ rec p x] by blast
qed

lemma callback_return_safe:
  assumes "HandleCallback codec ps f g now random c q code w = (Inr res, w')" and "flows_safe codec (wb_kv w)"
  shows "safe_path (cr_ReturnTo res)"
  using assms(1)
proof (rule HandleCallback_Inr)
  fix raw e rec p profile
  assume raw: "kv_live now (wb_kv w) (flowKey q) = Some (KvString raw, e)" "fc_unmarshal codec raw = Some rec"
    and r: "(if fl_Flow rec = FlowLink then resolveLink f now (fl_LinkUserID rec) profile (fl_ReturnTo rec) (wb_db w)
      else resolveLogin f now random profile (fl_ReturnTo rec) (wb_db w)) = (Inr res, wb_db w')"
  have "safe_path (fl_ReturnTo rec)" using kv_live_Some [OF raw(1)] raw(2) assms(2) by (auto simp: flows_safe_def)
  then show ?thesis using r resolve_ReturnTo by (auto split: if_splits)
qed

lemma callback_in_app:
  assumes "flows_safe (sv_codec sv) (wb_kv w)"
  shows "\<exists>d. safe_path d \<and> rp_Location (fst (handleCallback sv lk c q code w)) = Some (sv_appBaseURL sv @ d)"
proof -
  obtain r w1 where h: "HandleCallback (sv_codec sv) (sv_providers sv) (lk_db lk) (lk_kv lk) (lk_now lk) (lk_rnd lk 0) c q code w = (r, w1)" by fastforce
  show ?thesis
  proof (cases r)
    case (Inl e)
    then show ?thesis using h fixed_paths_safe(3) by (auto simp: handleCallback_def Let_def redirectToApp_target)
  next
    case (Inr res)
    have d: "safe_path (if cr_IsNew res then ''/onboarding'' else if cr_ReturnTo res = '''' then ''/'' else cr_ReturnTo res)"
      using callback_return_safe [OF h [unfolded Inr] assms] fixed_paths_safe by simp
    obtain s w2 where i: "issueSession sv lk (cr_UserID res) (cr_Email res) w1 = (s, w2)" by fastforce
    show ?thesis
      using h Inr i redirectToApp_target [OF d, of sv] redirectToApp_target [OF fixed_paths_safe(4), of sv] d fixed_paths_safe(4)
      by (cases s) (auto simp: handleCallback_def Let_def)
  qed
qed

lemma verify_in_app: "\<exists>d. safe_path d \<and> rp_Location (fst (handleEmailVerify wired sv lk t w)) = Some (sv_appBaseURL sv @ d)"
  using fixed_paths_safe redirectToApp_target
  by (auto simp: handleEmailVerify_def split: prod.split sum.split option.split)

text \<open>
  C23. No open redirect: over any sequence of requests of the auth plane that starts with no flow record, with any
  \<open>return_to\<close> and any faults, a redirect goes to the app, to a path with one leading slash that no browser reads as the
  start of a host, or to the authorize page of a configured provider.
\<close>

theorem redirects_stay_in_app:
  assumes "flow_codec_ok (sv_codec sv)" and "\<forall>q. wb_kv w (flowKey q) = None"
    and "w' = fold (\<lambda>r w. snd (serve_login sv r w)) rs w"
    and "rp_Location (fst (serve_login sv r w')) = Some target"
  shows "(\<exists>d. target = sv_appBaseURL sv @ d \<and> d \<noteq> '''' \<and> hd d = CHR ''/'' \<and> \<not> HasPrefix d ''//'' \<and> \<not> HasPrefix d [CHR ''/'', CHR 0x5C])
    \<or> (\<exists>p provider state nonce challenge. sv_providers sv p = Some provider \<and> target = pv_AuthCodeURL provider state nonce challenge)"
proof -
  have "flows_safe (sv_codec sv) (wb_kv w)" using assms(2) by (simp add: flows_safe_def)
  then have safe: "flows_safe (sv_codec sv) (wb_kv w')"
    unfolding assms(3) by (induction rs arbitrary: w) (auto intro: serve_login_flows_safe [OF _ assms(1)])
  have start: "\<exists>p provider state nonce challenge. sv_providers sv p = Some provider \<and> target = pv_AuthCodeURL provider state nonce challenge"
    if "StartLogin sha256 codec (sv_providers sv) g now rnd provider flow rt u s = (x, s')" "rp_Location (start_reply sv x) = Some target"
    for sha256 codec g now rnd provider flow rt u s x s'
    using that by (auto simp: StartLogin_def start_reply_def writeEnvelope_def http_Redirect_def split: option.splits prod.splits sum.splits)
      blast
  show ?thesis
  proof (cases r)
    case (LrCallback lk c q code)
    then show ?thesis using callback_in_app [OF safe, of lk c q code] assms(4) by (auto simp: safe_path_def)
  next
    case (LrEmailVerify wired lk t)
    then show ?thesis using verify_in_app [of wired sv lk t w'] assms(4) by (auto simp: safe_path_def)
  next
    case (LrLogin lk p rt)
    obtain x s' where x: "StartLogin (sv_sha256 sv) (sv_codec sv) (sv_providers sv) (lk_kv lk 0) (lk_now lk) (lk_rnd lk) p FlowLogin rt 0 (wb_kv w') = (x, s')"
      by fastforce
    have "rp_Location (start_reply sv x) = Some target" using assms(4) x LrLogin by (simp add: handleLogin_def)
    then show ?thesis by (intro disjI2 start [OF x])
  next
    case (LrLinkStart lk ctx p rt)
    then obtain pr where pr: "ctx = Some pr" "p_Kind pr = ActorHuman"
      using assms(4) by (auto simp: handleLinkStart_def writeEnvelope_def split: option.splits if_splits)
    obtain x s' where x: "StartLogin (sv_sha256 sv) (sv_codec sv) (sv_providers sv) (lk_kv lk 0) (lk_now lk) (lk_rnd lk) p FlowLink rt (p_UserID pr) (wb_kv w') = (x, s')"
      by fastforce
    have "rp_Location (start_reply sv x) = Some target" using assms(4) x LrLinkStart pr by (simp add: handleLinkStart_def)
    then show ?thesis by (intro disjI2 start [OF x])
  qed (use assms(4) in \<open>auto simp: handleRefresh_def handleLogout_def handleLogoutAll_def handleEmailStart_def handleDevLogin_def
        writeEnvelope_def no_content_def Let_def split: prod.splits sum.splits option.splits if_splits\<close>)
qed

section \<open>Who gets a session\<close>

text \<open>The refresh token of a session is a usable row of its user.\<close>

definition session_row :: "(string \<Rightarrow> string) \<Rightarrow> tenant_db \<Rightarrow> string \<Rightarrow> int \<Rightarrow> time \<Rightarrow> bool" where
  "session_row sha256 s refreshToken u expires \<longleftrightarrow>
     list_ex (\<lambda>t. rt_TokenHash t = HashToken sha256 refreshToken \<and> rt_UserID t = u \<and> rt_usable t \<and> rt_ExpiresAt t = expires) (tn_refresh s)"

lemma Issue_row:
  assumes "Issue sha256 f now random u s = (Inr issued, s')"
  shows "session_row sha256 s' (is_Raw issued) u (now + refreshTTL) \<and> is_Expires issued = now + refreshTTL"
proof -
  obtain raw where raw: "NewOpaqueToken random = Some raw" "is_Raw issued = raw" "is_Expires issued = now + refreshTTL"
    using assms by (auto simp: Issue_def Let_def split: option.splits prod.splits sum.splits)
  let ?h = "HashToken sha256 raw"
  obtain i s1 where i: "tn_run (fst f) (insert_refresh now u 0 ?h (now + refreshTTL)) s = (Inr i, s1)"
    and s': "tn_run (snd f) (\<lambda>s. (Inr (i, i), upd_refresh (\<lambda>t. rt_ID t = i) (\<lambda>t. t\<lparr>rt_FamilyID := i\<rparr>) s)) s1 = (Inr (i, i), s')"
    using assms raw
    by (auto simp: Issue_def Let_def CreateRefreshToken_def tn_run_def split: prod.splits sum.splits if_splits)
  have "s' = upd_refresh (\<lambda>t. rt_ID t = i) (\<lambda>t. t\<lparr>rt_FamilyID := i\<rparr>) s1" using tn_run_Inr [OF s'] by simp
  moreover have "refresh_row now i u 0 ?h (now + refreshTTL) \<in> set (tn_refresh s1)"
    using insert_refresh_ok [OF tn_run_Inr [OF i]] by simp
  ultimately have "(refresh_row now i u 0 ?h (now + refreshTTL))\<lparr>rt_FamilyID := i\<rparr> \<in> set (tn_refresh s')"
    by (force simp: upd_refresh_def)
  then show ?thesis
    using raw unfolding session_row_def list_ex_iff by (intro conjI bexI) (auto simp: refresh_row_def rt_usable_def)
qed

lemma issueSession_Some:
  assumes "issueSession sv lk u e w = (Some cs, w')"
  obtains access accessExp refreshToken csrf where
    "cs = SetSession (sv_secure sv) access refreshToken csrf accessExp (lk_now lk + refreshTTL)"
    "jwt_Issue (sv_lib sv) (sv_jwt sv) (lk_now lk) (lk_rnd lk 11) u e = Some (access, accessExp)"
    "session_row (sv_sha256 sv) (wb_db w') refreshToken u (lk_now lk + refreshTTL)"
    "session_only (wb_db w) (wb_db w')"
proof -
  obtain issued where i: "Issue (sv_sha256 sv) (lk_issue lk) (lk_now lk) (lk_rnd lk 10) u (wb_db w) = (Inr issued, wb_db w')"
    using assms by (auto simp: issueSession_def split: prod.splits sum.splits)
  obtain access accessExp csrf where "jwt_Issue (sv_lib sv) (sv_jwt sv) (lk_now lk) (lk_rnd lk 11) u e = Some (access, accessExp)"
    "cs = SetSession (sv_secure sv) access (is_Raw issued) csrf accessExp (is_Expires issued)"
    using assms i by (auto simp: issueSession_def split: option.splits)
  then show ?thesis
    using that Issue_row [OF i] Issue_session [of "wb_db w" "sv_sha256 sv" "lk_issue lk" "lk_now lk" "lk_rnd lk 10" u] i by auto
qed

lemma session_only_owner: "session_only s s' \<Longrightarrow> identity_owner s' = identity_owner s"
proof -
  assume "session_only s s'"
  then obtain rs n where "s' = s\<lparr>tn_refresh := rs, tn_next_refresh := n\<rparr>" by (metis session_only_def)
  then show ?thesis by (simp add: identity_owner_def fun_eq_iff)
qed

text \<open>A resolved profile belongs to the account from then on, in both flows.\<close>

lemma resolved_identity:
  assumes "(if fl_Flow rec = FlowLink then resolveLink f now u p rt s else resolveLogin f now random p rt s) = (Inr res, s')" and "wf_tenant s"
  shows "identity_owner s' (pf_Provider p, pf_ProviderUserID p) = Some (cr_UserID res) \<and> cr_Email res = pf_Email p
    \<and> (fl_Flow rec = FlowLink \<longrightarrow> cr_UserID res = u \<and> u \<noteq> 0)"
proof (cases "fl_Flow rec = FlowLink")
  case True
  then show ?thesis
    using assms(1) GetIdentity_owner [of "f 0" "pf_Provider p" "pf_ProviderUserID p" s]
    by (auto simp: resolveLink_def existing_account_def split: if_splits sum.splits prod.splits dest: linked_account)
next
  case False
  then have r: "resolveLogin f now random p rt s = (Inr res, s')" using assms(1) by simp
  have "identity_owner s' (pf_Provider p, pf_ProviderUserID p) = Some (cr_UserID res)"
    using resolveLogin_signed [OF r assms(2)] by simp
  then show ?thesis using False r by (auto simp: resolveLogin_def existing_account_def split: if_splits sum.splits prod.splits)
qed

definition sets_session :: "reply \<Rightarrow> bool" where
  "sets_session rp \<longleftrightarrow> list_ex (\<lambda>c. ck_Name c = AccessCookie \<and> ck_MaxAge c \<ge> 0) (rp_Cookies rp)"

lemma no_session: "\<not> sets_session (redirectToApp sv [ClearOAuthState b] d)"
  by (simp add: sets_session_def redirectToApp_def http_Redirect_def ClearOAuthState_def OAuthStateCookie_def AccessCookie_def Let_def)

lemma redirect_cookies [simp]: "rp_Cookies (redirectToApp sv cs d) = cs"
  by (simp add: redirectToApp_def http_Redirect_def Let_def)

lemma handleCallback_session:
  assumes "handleCallback sv lk c q code w = (rp, w')" and "sets_session rp"
  obtains res w1 cs where
    "HandleCallback (sv_codec sv) (sv_providers sv) (lk_db lk) (lk_kv lk) (lk_now lk) (lk_rnd lk 0) c q code w = (Inr res, w1)"
    "issueSession sv lk (cr_UserID res) (cr_Email res) w1 = (Some cs, w')" "rp_Cookies rp = ClearOAuthState (sv_secure sv) # cs"
  using assms no_session by (auto simp: handleCallback_def Let_def split: prod.splits sum.splits option.splits)

text \<open>
  C21. A callback hands out a session only to the browser that started the flow, for a flow that is still open, and
  only if the provider vouches for a profile under the verifier and the nonce of that flow.  The session is for the account the
  profile's identity belongs to at the end, which in a link flow is the user who started it; its access token is
  issued for this account and its refresh token is a usable row of it that ends after thirty days.
\<close>

theorem callback_session_sound:
  assumes "handleCallback sv lk c q code w = (rp, w')" and "sets_session rp" and "wf_tenant (wb_db w)"
  shows "c = q \<and> (\<exists>raw e rec p profile u access accessExp refreshToken csrf.
      kv_live (lk_now lk) (wb_kv w) (flowKey q) = Some (KvString raw, e) \<and> fc_unmarshal (sv_codec sv) raw = Some rec
      \<and> sv_providers sv (fl_Provider rec) = Some p \<and> pv_Exchange p code (fl_Verifier rec) (fl_Nonce rec) = Inr profile
      \<and> identity_owner (wb_db w') (pf_Provider profile, pf_ProviderUserID profile) = Some u
      \<and> (fl_Flow rec = FlowLink \<longrightarrow> u = fl_LinkUserID rec \<and> u \<noteq> 0)
      \<and> jwt_Issue (sv_lib sv) (sv_jwt sv) (lk_now lk) (lk_rnd lk 11) u (pf_Email profile) = Some (access, accessExp)
      \<and> session_row (sv_sha256 sv) (wb_db w') refreshToken u (lk_now lk + refreshTTL)
      \<and> rp_Cookies rp = ClearOAuthState (sv_secure sv)
          # SetSession (sv_secure sv) access refreshToken csrf accessExp (lk_now lk + refreshTTL))"
proof -
  obtain res w1 cs where h: "HandleCallback (sv_codec sv) (sv_providers sv) (lk_db lk) (lk_kv lk) (lk_now lk) (lk_rnd lk 0) c q code w = (Inr res, w1)"
    and i: "issueSession sv lk (cr_UserID res) (cr_Email res) w1 = (Some cs, w')" and rp: "rp_Cookies rp = ClearOAuthState (sv_secure sv) # cs"
    by (rule handleCallback_session [OF assms(1,2)])
  obtain access accessExp refreshToken csrf where
      s: "cs = SetSession (sv_secure sv) access refreshToken csrf accessExp (lk_now lk + refreshTTL)"
      "jwt_Issue (sv_lib sv) (sv_jwt sv) (lk_now lk) (lk_rnd lk 11) (cr_UserID res) (cr_Email res) = Some (access, accessExp)"
      "session_row (sv_sha256 sv) (wb_db w') refreshToken (cr_UserID res) (lk_now lk + refreshTTL)"
    and only: "session_only (wb_db w1) (wb_db w')"
    by (rule issueSession_Some [OF i])
  show ?thesis
  proof (rule HandleCallback_Inr [OF h])
    fix raw e rec p profile
    assume seen: "c = q" "kv_live (lk_now lk) (wb_kv w) (flowKey q) = Some (KvString raw, e)" "fc_unmarshal (sv_codec sv) raw = Some rec"
        "sv_providers sv (fl_Provider rec) = Some p" "pv_Exchange p code (fl_Verifier rec) (fl_Nonce rec) = Inr profile"
      and r: "(if fl_Flow rec = FlowLink then resolveLink (lk_db lk) (lk_now lk) (fl_LinkUserID rec) profile (fl_ReturnTo rec) (wb_db w)
        else resolveLogin (lk_db lk) (lk_now lk) (lk_rnd lk 0) profile (fl_ReturnTo rec) (wb_db w)) = (Inr res, wb_db w1)"
    from resolved_identity [OF r assms(3)] seen s rp session_only_owner [OF only] show ?thesis
      by (intro conjI exI [of _ raw] exI [of _ e] exI [of _ rec] exI [of _ p] exI [of _ profile] exI [of _ "cr_UserID res"]
          exI [of _ access] exI [of _ accessExp] exI [of _ refreshToken] exI [of _ csrf]) auto
  qed
qed

lemma HandleCallback_absent:
  assumes "kv_live now (wb_kv w) (flowKey q) = None"
  shows "\<exists>e. HandleCallback codec ps f g now random c q code w = (Inl e, w)"
proof -
  have "fst (GetCache (g 0) now (flowKey q) (wb_kv w)) = (if g 0 = KvOk then Inr None else Inl KvConn)"
    using assms by (cases "g 0") (simp_all add: GetCache_def kv_command_def)
  then show ?thesis by (simp add: HandleCallback_def)
qed

lemma flow_gone:
  assumes "wb_kv w (flowKey q) = None" and "\<forall>r \<in> set rs. starts_state r \<noteq> Some q"
  shows "wb_kv (fold (\<lambda>r w. snd (serve_login sv r w)) rs w) (flowKey q) = None"
  using assms
proof (induction rs arbitrary: w)
  case (Cons r rs)
  then have "wb_kv (snd (serve_login sv r w)) (flowKey q) = None" using serve_login_flow [of r q sv w] by auto
  with Cons show ?case by simp
qed simp

text \<open>
  A state is good for one login: once a callback with it has handed out a session, and the record could be
  deleted, no later callback with the state hands out another or changes the tables, whatever requests came between,
  unless one of them drew the same random state again.
\<close>

theorem oauth_state_single_use:
  assumes "handleCallback sv lk c q code w = (rp, w1)" and "sets_session rp" and "lk_kv lk 1 \<noteq> KvLost"
    and "w2 = fold (\<lambda>r w. snd (serve_login sv r w)) rs w1" and "\<forall>r \<in> set rs. starts_state r \<noteq> Some q"
    and "handleCallback sv lk' c' q code' w2 = (rp', w3)"
  shows "\<not> sets_session rp' \<and> wb_db w3 = wb_db w2"
proof -
  obtain res wa cs where h: "HandleCallback (sv_codec sv) (sv_providers sv) (lk_db lk) (lk_kv lk) (lk_now lk) (lk_rnd lk 0) c q code w = (Inr res, wa)"
    and i: "issueSession sv lk (cr_UserID res) (cr_Email res) wa = (Some cs, w1)"
    by (rule handleCallback_session [OF assms(1,2)])
  have "wb_kv w1 (flowKey q) = None"
    using h assms(3) issue_kv [OF i] by (elim HandleCallback_Inr) (cases "lk_kv lk 1"; simp add: DelCache_def kv_command_def)
  from flow_gone [OF this assms(5), of sv, folded assms(4)] have "kv_live (lk_now lk') (wb_kv w2) (flowKey q) = None"
    by (simp add: kv_live_def)
  then obtain e where "HandleCallback (sv_codec sv) (sv_providers sv) (lk_db lk') (lk_kv lk') (lk_now lk') (lk_rnd lk' 0) c' q code' w2 = (Inl e, w2)"
    using HandleCallback_absent by metis
  then show ?thesis using assms(6) no_session by (auto simp: handleCallback_def Let_def)
qed

text \<open>The access token of a refreshed session carries no address.\<close>

lemma refreshed_token_has_no_email:
  assumes "handleRefresh sv lk env presented w = (rp, w')" and "rp_Status rp = 204"
  shows "\<exists>u access accessExp refreshToken csrf refreshExp.
    jwt_Issue (sv_lib sv) (sv_jwt sv) (lk_now lk) (lk_rnd lk 11) u '''' = Some (access, accessExp)
    \<and> rp_Cookies rp = SetSession (sv_secure sv) access refreshToken csrf accessExp refreshExp"
  using assms by (auto simp: handleRefresh_def writeEnvelope_def no_content_def split: if_splits prod.splits sum.splits option.splits)
    blast+

text \<open>
  \<open>POST /auth/logout-all\<close> with a valid access cookie: when its write is not lost, no refresh token of the user that
  exists can be rotated any more, whenever and with whatever faults it is tried, so that no device gets a new session.
\<close>

theorem logout_all_ends_sessions:
  assumes "jwt_Verify (sv_lib sv) (sv_jwt sv) (lk_now lk) access = Some vt" and "access \<noteq> ''''" and "vt_UserID vt \<noteq> 0"
    and "lk_db lk 0 \<noteq> FaultBefore" and "w' = snd (handleLogoutAll sv lk env access presented w)"
    and "GetRefreshTokenByHash NoFault (HashToken (sv_sha256 sv) tok) (wb_db w') = Inr t" and "rt_UserID t = vt_UserID vt"
  shows "isl (fst (Rotate (sv_sha256 sv) env' now tok (wb_db w')))"
proof -
  let ?P = "\<lambda>t. rt_UserID t = vt_UserID vt \<and> rt_RevokedAt t = None"
  have w': "wb_db w' = upd_refresh ?P (\<lambda>t. t\<lparr>rt_RevokedAt := Some (lk_now lk)\<rparr>) (wb_db w)"
    using assms(1-4) unfolding assms(5)
    by (cases "lk_db lk 0") (auto simp: handleLogoutAll_def RevokeAll_def RevokeAllForUser_def revoke_where_def tn_run_def)
  have "t \<in> set (tn_refresh (wb_db w'))"
    using assms(6) by (auto simp: GetRefreshTokenByHash_def tn_read_def row_or_none_def split: option.splits dest: find_Some_set)
  then have "rt_RevokedAt t \<noteq> None" using assms(7) by (auto simp: w' upd_refresh_def split: if_splits)
  moreover have "GetRefreshTokenByHash (rv_get env') (HashToken (sv_sha256 sv) tok) (wb_db w') \<in> {Inr t, Inl ErrConn}"
    using assms(6) by (auto simp: GetRefreshTokenByHash_def tn_read_def)
  ultimately show ?thesis by (auto simp: Rotate_def Let_def)
qed

section \<open>How many mails one address gets\<close>

definition mails_to :: "string \<Rightarrow> web \<Rightarrow> int" where
  "mails_to e w = int (length (filter (\<lambda>i. case em_MagicLink i of None \<Rightarrow> False | Some r \<Rightarrow> mr_Email r = e) (wb_mail w)))"

text \<open>
  The counter of an address: absent, or a positive number with or without an expiry.  \<open>allowance\<close> is what it still lets
  through before \<open>t1\<close>: the rest of the present window, and a whole window more when the present one ends before \<open>t1\<close>.
\<close>

fun counter_below :: "int \<Rightarrow> (kv_value \<times> time option) option \<Rightarrow> bool" where
  "counter_below m None = True"
| "counter_below m (Some (KvString v, _)) = (case Atoi v of Some n \<Rightarrow> 1 \<le> n \<and> n < m | None \<Rightarrow> False)"
| "counter_below m (Some (KvHash _, _)) = False"

fun allowance :: "time \<Rightarrow> (kv_value \<times> time option) option \<Rightarrow> int" where
  "allowance t1 None = magicLinkPerEmailLimit"
| "allowance t1 (Some (KvString v, x)) =
     max 0 (magicLinkPerEmailLimit - (case Atoi v of Some n \<Rightarrow> n | None \<Rightarrow> 0))
     + (case x of Some x \<Rightarrow> if x < t1 then magicLinkPerEmailLimit else 0 | None \<Rightarrow> 0)"
| "allowance t1 (Some (KvHash _, _)) = 0"

lemma allowance_nonneg: "0 \<le> allowance t1 c"
  by (induction t1 c rule: allowance.induct) (auto simp: magicLinkPerEmailLimit_def split: option.split)

lemma allowance_bound: "counter_below m c \<Longrightarrow> allowance t1 c \<le> (if c = None then 3 else 5)"
  by (induction m c rule: counter_below.induct) (auto simp: magicLinkPerEmailLimit_def split: option.splits)

lemma counter_below_mono: "counter_below m c \<Longrightarrow> m \<le> m' \<Longrightarrow> counter_below m' c"
  by (induction m c rule: counter_below.induct) (auto split: option.splits)

lemma counter_belowE:
  assumes "counter_below m (Some c)"
  obtains v x n where "c = (KvString v, x)" "Atoi v = Some n" "1 \<le> n" "n < m"
  using assms by (cases "(m, Some c)" rule: counter_below.cases) (auto split: option.splits)

lemma overLimit_allowance:
  assumes ok: "counter_below m (s k)" and m: "m < 2 ^ 62" and now: "t1 \<le> now + d"
    and o: "overLimit (KvOk, KvOk) now k magicLinkPerEmailLimit d s = (over, s')" and nw: "now < t1"
  shows "counter_below (max 2 (m + 1)) (s' k) \<and> allowance t1 (s' k) + (if over then 0 else 1) \<le> allowance t1 (s k)"
proof (cases "kv_live now s k")
  case None
  then have "over = (magicLinkPerEmailLimit < 1)" "s' k = Some (KvString (Itoa 1), Some (now + d))"
    using o by (auto simp: overLimit_def Incr_def Expire_def kv_command_def kv_live_def magicLinkPerEmailLimit_def)
  moreover have "magicLinkPerEmailLimit \<le> allowance t1 (s k)"
  proof (cases "s k")
    case (Some c)
    with ok obtain v x n where "c = (KvString v, x)" by (auto elim: counter_belowE)
    then show ?thesis using None Some nw by (auto simp: kv_live_def split: option.splits if_splits)
  qed simp
  moreover have "Atoi (Itoa 1) = Some 1" by (intro Atoi_Itoa) auto
  ultimately show ?thesis using now by (auto simp: magicLinkPerEmailLimit_def)
next
  case (Some c)
  then have sk: "s k = Some c" by (auto simp: kv_live_def split: option.splits prod.splits if_splits)
  with ok obtain v x n where c: "c = (KvString v, x)" and v: "Atoi v = Some n" and n: "1 \<le> n" "n < m"
    by (auto elim: counter_belowE)
  have "n \<noteq> 2 ^ 63 - 1" using n m by auto
  then have o': "over = (magicLinkPerEmailLimit < n + 1)" "s' k = Some (KvString (Itoa (n + 1)), x)"
    using o Some c v n by (auto simp: overLimit_def Incr_def kv_command_def)
  moreover have "Atoi (Itoa (n + 1)) = Some (n + 1)" using n m by (intro Atoi_Itoa) auto
  ultimately show ?thesis using n v by (auto simp: sk c max_def split: option.split)
qed

lemma counters_differ: "ip_counter i \<noteq> email_counter e" "email_counter a = email_counter b \<longleftrightarrow> a = b"
  by (simp_all add: ip_counter_def email_counter_def)

lemma magicLimited_allowance:
  assumes "counter_below m (s (email_counter e))" and "m < 2 ^ 62" and "t1 \<le> now + magicLinkPerEmailWindow" and "now < t1" and "2 \<le> m"
    and "magicLimited True (\<lambda>_. KvOk) now r e' s = (limited, s')"
  shows "counter_below (m + 1) (s' (email_counter e))
    \<and> allowance t1 (s' (email_counter e)) + (if e' = e \<and> \<not> limited then 1 else 0) \<le> allowance t1 (s (email_counter e))"
proof -
  obtain b1 s1 where o1: "overLimit (KvOk, KvOk) now (email_counter e') magicLinkPerEmailLimit magicLinkPerEmailWindow s = (b1, s1)" by fastforce
  obtain b2 s2 where o2: "overLimit (KvOk, KvOk) now (ip_counter (clientIP r)) magicLinkPerIPLimit magicLinkPerIPWindow s1 = (b2, s2)" by fastforce
  have l: "limited = (b1 \<or> b2)" "s' = s2" using assms(6) o1 o2 by (simp_all add: magicLimited_def)
  have ip: "s2 (email_counter e) = s1 (email_counter e)" using overLimit_kv [of "email_counter e" "ip_counter (clientIP r)"] o2 counters_differ(1)
    by (metis snd_conv)
  show ?thesis
  proof (cases "e' = e")
    case True
    then show ?thesis using overLimit_allowance [OF assms(1-3) o1 [unfolded True] assms(4)] l ip assms(5) by (auto simp: max_def split: if_splits)
  next
    case False
    then have "s1 (email_counter e) = s (email_counter e)"
      using overLimit_kv [of "email_counter e" "email_counter e'"] o1 counters_differ(2) by (metis snd_conv)
    moreover have "counter_below (m + 1) (s (email_counter e))"
      using counter_below_mono [OF assms(1)] by simp
    ultimately show ?thesis using False l ip by simp
  qed
qed

text \<open>A sign-in request by mail on a working Redis, at an instant of the quarter of an hour from \<open>t0\<close>.\<close>

definition mail_request_in :: "time \<Rightarrow> login_request \<Rightarrow> bool" where
  "mail_request_in t0 r \<longleftrightarrow>
     (case r of LrEmailStart redis lk pub m \<Rightarrow> redis \<and> lk_kv lk = (\<lambda>_. KvOk) \<and> t0 \<le> lk_now lk \<and> lk_now lk < t0 + magicLinkPerEmailWindow | _ \<Rightarrow> False)"

lemma email_start_allowance:
  assumes "counter_below m (wb_kv w (email_counter e))" and "mail_request_in t0 r" and "m < 2 ^ 62" and "2 \<le> m"
    and "t1 = t0 + magicLinkPerEmailWindow" and "w' = snd (serve_login sv r w)"
  shows "counter_below (m + 1) (wb_kv w' (email_counter e))
    \<and> mails_to e w' + allowance t1 (wb_kv w' (email_counter e)) \<le> mails_to e w + allowance t1 (wb_kv w (email_counter e))"
proof -
  obtain lk pub q where r: "r = LrEmailStart True lk pub q" "lk_kv lk = (\<lambda>_. KvOk)" "t0 \<le> lk_now lk" "lk_now lk < t0 + magicLinkPerEmailWindow"
    using assms(2) by (auto simp: mail_request_in_def split: login_request.splits)
  show ?thesis
  proof (cases "\<exists>raw. rm_Body q = Some raw \<and> looksLikeEmail (ToLower (TrimSpace raw))")
    case False
    then have "w' = w" by (auto simp: assms(6) r(1) handleEmailStart_def Let_def split: option.split)
    moreover have "counter_below (m + 1) (wb_kv w (email_counter e))"
      using counter_below_mono [OF assms(1)] by simp
    ultimately show ?thesis by simp
  next
    case True
    then obtain raw where raw: "rm_Body q = Some raw" "looksLikeEmail (ToLower (TrimSpace raw))" by blast
    let ?e = "ToLower (TrimSpace raw)"
    obtain limited s where l: "magicLimited True (\<lambda>_. KvOk) (lk_now lk) q ?e (wb_kv w) = (limited, s)" by fastforce
    show ?thesis
      using magicLimited_allowance [OF assms(1,3) _ _ assms(4) l, of t1] r assms(5) l raw
      by (auto simp: assms(6) handleEmailStart_def mails_to_def magic_intent_def split: if_splits)
  qed
qed

text \<open>
  C24. How many sign-in links one inbox can get while Redis is wired and answers: in any quarter of an hour, any sequence of sign-in requests for any
  addresses, from any clients, sends at most three mails to one address when its counter was absent at the start, and at most five when
  a window was already counting (a fixed window, so that a quarter of an hour can straddle two).  Without Redis, or on an error of it, the
  code lets every request through.
\<close>

theorem magic_link_mail_budget:
  assumes "counter_below (2 ^ 61) (wb_kv w (email_counter e))" and "list_all (mail_request_in t0) rs" and "int (length rs) < 2 ^ 61"
  shows "mails_to e (fold (\<lambda>r w. snd (serve_login sv r w)) rs w) \<le> mails_to e w + (if wb_kv w (email_counter e) = None then 3 else 5)"
proof -
  let ?t1 = "t0 + magicLinkPerEmailWindow"
  have "mails_to e (fold (\<lambda>r w. snd (serve_login sv r w)) rs w) \<le> mails_to e w + allowance ?t1 (wb_kv w (email_counter e))"
    if "counter_below m (wb_kv w (email_counter e))" "m + int (length rs) \<le> 2 ^ 62" "2 \<le> m" for m
    using that assms(2)
  proof (induction rs arbitrary: w m)
    case Nil
    then show ?case using allowance_nonneg by simp
  next
    case (Cons r rs)
    let ?w = "snd (serve_login sv r w)"
    have "counter_below (m + 1) (wb_kv ?w (email_counter e))"
      "mails_to e ?w + allowance ?t1 (wb_kv ?w (email_counter e)) \<le> mails_to e w + allowance ?t1 (wb_kv w (email_counter e))"
      using email_start_allowance [OF Cons.prems(1), of t0 r ?t1 ?w sv] Cons.prems by auto
    with Cons.IH [of "m + 1" ?w] Cons.prems show ?case by simp
  qed
  from this [OF assms(1)] assms(3) allowance_bound [OF assms(1), of ?t1] show ?thesis by simp
qed

section \<open>Witnesses\<close>

text \<open>One provider that knows Ann, whose account has no identity yet.\<close>

definition ex_profile :: Profile where
  "ex_profile = \<lparr>pf_Provider = ProviderGoogle, pf_ProviderUserID = ''g1'', pf_Email = ''ann@example.com'', pf_Name = ''Ann'', pf_AvatarURL = ''''\<rparr>"

definition ex_provider :: Provider where
  "ex_provider = \<lparr>pv_Name = ProviderGoogle, pv_AuthCodeURL = (\<lambda>state _ _. ''https://idp?state='' @ state), pv_Exchange = (\<lambda>_ _ _. Inr ex_profile)\<rparr>"

definition ex_flow_codec :: flow_codec where
  "ex_flow_codec = \<lparr>fc_marshal = fl_ReturnTo,
     fc_unmarshal = (\<lambda>v. Some \<lparr>fl_Provider = ProviderGoogle, fl_Verifier = '''', fl_Nonce = '''', fl_Flow = FlowLogin, fl_ReturnTo = v, fl_LinkUserID = 0\<rparr>)\<rparr>"

definition ex_server :: "(unit, unit) server" where
  "ex_server = \<lparr>sv_sha256 = id, sv_codec = ex_flow_codec, sv_unmarshal = ex_unmarshal 0, sv_providers = NewLoginService [ex_provider],
     sv_lib = ex_lib, sv_jwt = ex_issuer, sv_secure = True, sv_appBaseURL = ''https://app''\<rparr>"

definition ex_luck :: luck where
  "ex_luck = \<lparr>lk_now = 0, lk_db = (\<lambda>_. NoFault), lk_kv = (\<lambda>_. KvOk), lk_issue = (NoFault, NoFault), lk_rnd = (\<lambda>_. Some ''abc'')\<rparr>"

definition ex_sign_web :: web where
  "ex_sign_web = \<lparr>wb_db = ex_tenant, wb_kv = Map.empty, wb_mail = []\<rparr>"

definition ex_state :: string where "ex_state = RawURLEncoding_Encode ''abc''"

text \<open>Ann starts a login that wants to leave the app, and comes back.\<close>

definition ex_started :: web where
  "ex_started = snd (handleLogin ex_server ex_luck ProviderGoogle ''//evil.example'' ex_sign_web)"

definition ex_callback :: "reply \<times> web" where
  "ex_callback = handleCallback ex_server ex_luck ex_state ex_state ''code'' ex_started"

lemma ex_tenant_wf: "wf_tenant ex_tenant"
  using tn_reachable_wf [OF ex_tenant_reachable empty_tenant_wf] .

lemma ex_callback_facts: "sets_session (fst ex_callback)" "rp_Location (fst ex_callback) = Some ''https://app/''" "wb_db ex_started = ex_tenant"
  by (code_simp, code_simp) (simp add: ex_started_def handleLogin_def ex_sign_web_def split: prod.split)

lemma ex_callback_eq: "handleCallback ex_server ex_luck ex_state ex_state ''code'' ex_started = (fst ex_callback, snd ex_callback)"
  by (simp add: ex_callback_def)

theorem sign_in_refines_account_witness:
  "account_of (snd (sign_in (\<lambda>_. NoFault) 5 None (SocialLogin ex_profile) ex_tenant)) (Some (ProviderGoogle, ''g1'')) ''ann@example.com'' = Some 1"
proof -
  have "fst (sign_in (\<lambda>_. NoFault) 5 None (SocialLogin ex_profile) ex_tenant) = Some 1" by code_simp
  then have "sign_in (\<lambda>_. NoFault) 5 None (SocialLogin ex_profile) ex_tenant
      = (Some 1, snd (sign_in (\<lambda>_. NoFault) 5 None (SocialLogin ex_profile) ex_tenant))" by (simp add: prod_eq_iff)
  from sign_in_refines_account [OF this ex_tenant_wf] show ?thesis by (simp add: ex_profile_def)
qed

theorem logins_never_move_accounts_witness:
  "email_owner ex_tenant ''ANN@example.com'' = Some 1
   \<and> email_owner (wb_db (fold (\<lambda>r w. snd (serve_login ex_server r w))
       [LrDevLogin ex_luck (Some (''bob@example.com'', '''')), LrLogin ex_luck ProviderGoogle ''/'', LrCallback ex_luck ex_state ex_state ''c''] ex_sign_web))
       ''ANN@example.com'' = Some 1"
proof -
  have e: "email_owner ex_tenant ''ANN@example.com'' = Some 1" by code_simp
  have "wf_tenant (wb_db ex_sign_web)" "wb_db ex_sign_web = ex_tenant" using ex_tenant_wf by (simp_all add: ex_sign_web_def)
  from logins_never_move_accounts [OF this(1) refl, of ex_server
      "[LrDevLogin ex_luck (Some (''bob@example.com'', '''')), LrLogin ex_luck ProviderGoogle ''/'', LrCallback ex_luck ex_state ex_state ''c'']"]
  show ?thesis using e \<open>wb_db ex_sign_web = ex_tenant\<close> unfolding map_le_def by (metis domI)
qed

theorem redirects_stay_in_app_witness:
  "(\<exists>d. ''https://app/'' = ''https://app'' @ d \<and> d \<noteq> '''' \<and> hd d = CHR ''/'' \<and> \<not> HasPrefix d ''//'' \<and> \<not> HasPrefix d [CHR ''/'', CHR 0x5C])
    \<or> (\<exists>p provider state nonce challenge. sv_providers ex_server p = Some provider \<and> ''https://app/'' = pv_AuthCodeURL provider state nonce challenge)"
proof -
  have codec: "flow_codec_ok (sv_codec ex_server)" by (simp add: flow_codec_ok_def ex_server_def ex_flow_codec_def)
  have start: "ex_started = fold (\<lambda>r w. snd (serve_login ex_server r w)) [LrLogin ex_luck ProviderGoogle ''//evil.example''] ex_sign_web"
    by (simp add: ex_started_def)
  have "rp_Location (fst (serve_login ex_server (LrCallback ex_luck ex_state ex_state ''code'') ex_started)) = Some ''https://app/''"
    using ex_callback_facts(2) by (simp add: ex_callback_def)
  from redirects_stay_in_app [OF codec _ start this] show ?thesis by (simp add: ex_sign_web_def ex_server_def)
qed

theorem callback_session_sound_witness:
  "\<exists>(profile :: Profile) u refreshToken. identity_owner (wb_db (snd ex_callback)) (pf_Provider profile, pf_ProviderUserID profile) = Some u
     \<and> session_row (sv_sha256 ex_server) (wb_db (snd ex_callback)) refreshToken u (lk_now ex_luck + refreshTTL)"
proof -
  have "wf_tenant (wb_db ex_started)" using ex_callback_facts(3) ex_tenant_wf by simp
  from callback_session_sound [OF ex_callback_eq ex_callback_facts(1) this] show ?thesis by blast
qed

theorem oauth_state_single_use_witness:
  "\<not> sets_session (fst (handleCallback ex_server ex_luck ex_state ex_state ''code'' (snd ex_callback)))"
proof -
  let ?w2 = "fold (\<lambda>r w. snd (serve_login ex_server r w)) [LrLogout ex_luck ''''] (snd ex_callback)"
  have same: "?w2 = snd ex_callback" by (simp add: handleLogout_def)
  have "lk_kv ex_luck 1 \<noteq> KvLost" "\<forall>r \<in> set [LrLogout ex_luck '''']. starts_state r \<noteq> Some ex_state"
    by (simp_all add: ex_luck_def starts_state_def)
  from oauth_state_single_use [OF ex_callback_eq ex_callback_facts(1) this(1) refl this(2), of ex_luck ex_state "''code''",
      unfolded same, OF prod.collapse [symmetric]]
  show ?thesis by simp
qed

theorem logout_all_ends_sessions_witness:
  "isl (fst (Rotate id \<lparr>rv_get = NoFault, rv_rotate = NoFault, rv_revoke = NoFault, rv_random = Some ''x''\<rparr> 5 ex_state
      (wb_db (snd (handleLogoutAll ex_server ex_luck \<lparr>rv_get = NoFault, rv_rotate = NoFault, rv_revoke = NoFault, rv_random = Some ''x''\<rparr>
        ''tok'' '''' (snd ex_callback))))))"
proof -
  let ?env = "\<lparr>rv_get = NoFault, rv_rotate = NoFault, rv_revoke = NoFault, rv_random = Some ''x''\<rparr>"
  let ?w = "snd (handleLogoutAll ex_server ex_luck ?env ''tok'' '''' (snd ex_callback))"
  have v: "jwt_Verify (sv_lib ex_server) (sv_jwt ex_server) (lk_now ex_luck) ''tok'' = Some \<lparr>vt_UserID = 1, vt_Email = ''ann@example.com''\<rparr>"
    by code_simp
  have "(case GetRefreshTokenByHash NoFault (HashToken (sv_sha256 ex_server) ex_state) (wb_db ?w) of
      Inl _ \<Rightarrow> False | Inr t \<Rightarrow> rt_UserID t = 1)" by code_simp
  then obtain t where t: "GetRefreshTokenByHash NoFault (HashToken (sv_sha256 ex_server) ex_state) (wb_db ?w) = Inr t" "rt_UserID t = 1"
    by (auto split: sum.splits)
  have "isl (fst (Rotate (sv_sha256 ex_server) ?env 5 ex_state (wb_db ?w)))"
    by (rule logout_all_ends_sessions [OF v _ _ _ refl t(1)]) (use t(2) in \<open>simp_all add: ex_luck_def\<close>)
  then show ?thesis by (simp add: ex_server_def)
qed

definition ex_mail_request :: login_request where
  "ex_mail_request = LrEmailStart True ex_luck True \<lparr>rm_Body = Some '' Ann@Example.com '', rm_XForwardedFor = '''', rm_RemoteAddr = ''1.2.3.4:5'',
     rm_host = Some ''1.2.3.4'', rm_AcceptLanguage = ''de-DE'', rm_Country = '''', rm_UserAgent = ''''\<rparr>"

theorem magic_link_mail_budget_witness:
  "mails_to ''ann@example.com'' (fold (\<lambda>r w. snd (serve_login ex_server r w)) (replicate 5 ex_mail_request) ex_sign_web) = 3
   \<and> mails_to ''ann@example.com'' (fold (\<lambda>r w. snd (serve_login ex_server r w)) (replicate 5 ex_mail_request) ex_sign_web)
     \<le> mails_to ''ann@example.com'' ex_sign_web + 3"
proof -
  have "mails_to ''ann@example.com'' (fold (\<lambda>r w. snd (serve_login ex_server r w)) (replicate 5 ex_mail_request) ex_sign_web) = 3" by code_simp
  moreover have "list_all (mail_request_in 0) (replicate 5 ex_mail_request)"
    by (simp add: list_all_iff mail_request_in_def ex_mail_request_def ex_luck_def magicLinkPerEmailWindow_def duration_defs)
  ultimately show ?thesis
    using magic_link_mail_budget [of ex_sign_web "''ann@example.com''" 0 "replicate 5 ex_mail_request" ex_server] by (simp add: ex_sign_web_def)
qed

end
