(* ===== verification/Pulse_Billing_Store.thy ===== *)
theory Pulse_Billing_Store
  imports Pulse_Tenancy Pulse_Entitlements
begin

text \<open>
  The billing tables and the store operations on them: \<open>internal/store/billing_events.go\<close>,
  \<open>subscriptions.go\<close>, \<open>payments.go\<close> and \<open>plan_prices.go\<close>, with the unique indexes, foreign keys and
  row-level policies of the migrations 4 to 10, among them the functions \<open>subscription_org_by_customer\<close> and
  \<open>person_had_recent_inactive_subscription\<close>.

  The tables are those of \<open>Pulse_Tenancy\<close> beside four more.  An insert with \<open>ON CONFLICT\<close> draws an
  identity value whether or not it inserts.  A statement on the bare pool is a transaction of its own.
\<close>

section \<open>Rows\<close>

record Subscription =
  sub_ID :: int
  sub_OrgID :: int
  sub_Plan :: string
  sub_BillingCycle :: string
  sub_Status :: string
  sub_Provider :: string
  sub_ProviderCustomerID :: string
  sub_ProviderSubscriptionID :: string
  sub_ProviderPriceID :: string
  sub_CurrentPeriodEnd :: "time option"
  sub_CancelAtPeriodEnd :: bool
  sub_CreatedAt :: time
  sub_UpdatedAt :: time

record Payment =
  pay_ID :: int
  pay_OrgID :: int
  pay_Provider :: string
  pay_ProviderPaymentID :: string
  pay_Amount :: int
  pay_Currency :: string
  pay_Status :: string
  pay_Period :: string
  pay_HostedInvoiceURL :: string
  pay_RefundedAmount :: int
  pay_CreatedAt :: time

record PlanPrice =
  pp_ID :: int
  pp_Provider :: string
  pp_Plan :: string
  pp_Cycle :: string
  pp_ProviderPriceID :: string
  pp_HasTrial :: bool
  pp_TrialDays :: int
  pp_CustomData :: string
  pp_CreatedAt :: time
  pp_UpdatedAt :: time

text \<open>The row of a subscription has the anchor of the trial window, which the struct leaves out.\<close>

record SubRow =
  sr_Sub :: Subscription
  sr_EndedAt :: "time option"

record EventRow =
  er_ID :: int
  er_Provider :: string
  er_EventID :: string
  er_Type :: string
  er_Payload :: string
  er_ReceivedAt :: time
  er_ProcessedAt :: "time option"

record bill_db =
  bl_tenant :: tenant_db
  bl_subs :: "SubRow list"
  bl_payments :: "Payment list"
  bl_events :: "EventRow list"
  bl_prices :: "PlanPrice list"
  bl_next_sub :: int
  bl_next_payment :: int
  bl_next_event :: int
  bl_next_price :: int

text \<open>\<open>RowSecurity\<close>: the row in conflict is hidden by the policy of its table.\<close>

datatype bill_error = ErrOrgNotFound | RowSecurity | NotJson | NoPaymentData | BillStore db_error

type_synonym 'a btx = "bill_db \<Rightarrow> (bill_error + 'a) \<times> bill_db"

definition bl_rolled_back :: "bill_db \<Rightarrow> bill_db \<Rightarrow> bill_db" where
  "bl_rolled_back before failed =
     before\<lparr>bl_next_sub := bl_next_sub failed, bl_next_payment := bl_next_payment failed,
            bl_next_event := bl_next_event failed, bl_next_price := bl_next_price failed\<rparr>"

definition bl_run :: "fault \<Rightarrow> 'a btx \<Rightarrow> 'a btx" where
  "bl_run f fn s =
     (if f = FaultBefore then (Inl (BillStore ErrConn), s)
      else case fn s of
             (Inl e, s') \<Rightarrow> (Inl e, bl_rolled_back s s')
           | (Inr a, s') \<Rightarrow> (if f = FaultAfterCommit then Inl (BillStore ErrConn) else Inr a, s'))"

definition bl_read :: "fault \<Rightarrow> bill_error + 'a \<Rightarrow> bill_error + 'a" where
  "bl_read f r = (if f = NoFault then r else Inl (BillStore ErrConn))"

definition found :: "'a option \<Rightarrow> bill_error + 'a" where
  "found r = (case r of None \<Rightarrow> Inl (BillStore ErrNoRows) | Some x \<Rightarrow> Inr x)"

section \<open>The webhook inbox\<close>

definition event_key :: "string \<Rightarrow> string \<Rightarrow> EventRow \<Rightarrow> bool" where
  "event_key provider eventID r \<longleftrightarrow> er_Provider r = provider \<and> er_EventID r = eventID"

text \<open>\<open>jsonb\<close> says whether the database takes a text as a value of the type.\<close>

definition insert_event :: "(string \<Rightarrow> bool) \<Rightarrow> time \<Rightarrow> string \<Rightarrow> string \<Rightarrow> string \<Rightarrow> string \<Rightarrow> unit btx" where
  "insert_event jsonb now provider eventID eventType payload s =
     (let newID = bl_next_event s; s1 = s\<lparr>bl_next_event := newID + 1\<rparr>
      in if \<not> jsonb payload then (Inl NotJson, s1)
         else if list_ex (event_key provider eventID) (bl_events s) then (Inr (), s1)
         else (Inr (), s1\<lparr>bl_events := bl_events s @
                [\<lparr>er_ID = newID, er_Provider = provider, er_EventID = eventID, er_Type = eventType, er_Payload = payload,
                  er_ReceivedAt = now, er_ProcessedAt = None\<rparr>]\<rparr>))"

definition RecordBillingEvent :: "(string \<Rightarrow> bool) \<Rightarrow> fault \<times> fault \<Rightarrow> time \<Rightarrow> string \<Rightarrow> string \<Rightarrow> string \<Rightarrow> string \<Rightarrow> bool btx" where
  "RecordBillingEvent jsonb f now provider eventID eventType payload s =
     (case bl_run (fst f) (insert_event jsonb now provider eventID eventType payload) s of
        (Inl e, s1) \<Rightarrow> (Inl e, s1)
      | (Inr _, s1) \<Rightarrow>
          (case bl_read (snd f) (found (find (event_key provider eventID) (bl_events s1))) of
             Inl e \<Rightarrow> (Inl e, s1)
           | Inr r \<Rightarrow> (Inr (er_ProcessedAt r \<noteq> None), s1)))"

definition MarkBillingEventProcessed :: "fault \<Rightarrow> time \<Rightarrow> string \<Rightarrow> string \<Rightarrow> unit btx" where
  "MarkBillingEventProcessed f now provider eventID = bl_run f (\<lambda>s.
     (Inr (), s\<lparr>bl_events := map (\<lambda>r. if event_key provider eventID r then r\<lparr>er_ProcessedAt := Some now\<rparr> else r) (bl_events s)\<rparr>))"

text \<open>
  \<open>LIMIT 1\<close> without an order takes any of the rows: \<open>pick\<close>.  The answer is 0 when there is none.
\<close>

definition OrgByCustomer :: "(int list \<Rightarrow> int) \<Rightarrow> fault \<Rightarrow> string \<Rightarrow> string \<Rightarrow> bill_db \<Rightarrow> bill_error + int" where
  "OrgByCustomer pick f provider customerID s = bl_read f (Inr
     (let orgs = map (sub_OrgID \<circ> sr_Sub) (filter (\<lambda>r. sub_Provider (sr_Sub r) = provider
                       \<and> sub_ProviderCustomerID (sr_Sub r) = customerID) (bl_subs s))
      in if orgs = [] then 0 else pick orgs))"

section \<open>Subscriptions\<close>

definition of_org :: "int \<Rightarrow> SubRow \<Rightarrow> bool" where
  "of_org orgID r \<longleftrightarrow> sub_OrgID (sr_Sub r) = orgID"

definition active_status :: "string \<Rightarrow> bool" where
  "active_status st \<longleftrightarrow> st = ''active'' \<or> st = ''trialing''"

definition GetSubscriptionByOrg :: "fault \<Rightarrow> int \<Rightarrow> bill_db \<Rightarrow> bill_error + Subscription" where
  "GetSubscriptionByOrg f orgID s = bl_read f (found (map_option sr_Sub (find (of_org orgID) (bl_subs s))))"

definition insert_sub :: "time \<Rightarrow> int \<Rightarrow> Subscription \<Rightarrow> SubRow" where
  "insert_sub now newID sub =
     \<lparr>sr_Sub = sub\<lparr>sub_ID := newID, sub_CreatedAt := now, sub_UpdatedAt := now\<rparr>,
      sr_EndedAt = (if active_status (sub_Status sub) then None else Some now)\<rparr>"

definition update_sub :: "time \<Rightarrow> Subscription \<Rightarrow> SubRow \<Rightarrow> SubRow" where
  "update_sub now sub r =
     \<lparr>sr_Sub = sub\<lparr>sub_ID := sub_ID (sr_Sub r), sub_CreatedAt := sub_CreatedAt (sr_Sub r), sub_UpdatedAt := now\<rparr>,
      sr_EndedAt = (if active_status (sub_Status sub) then None
                    else if active_status (sub_Status (sr_Sub r)) then Some now else sr_EndedAt r)\<rparr>"

definition upsertSubscriptionTx :: "time \<Rightarrow> Subscription \<Rightarrow> unit btx" where
  "upsertSubscriptionTx now sub s =
     (let newID = bl_next_sub s; s1 = s\<lparr>bl_next_sub := newID + 1\<rparr>
      in if list_ex (of_org (sub_OrgID sub)) (bl_subs s)
         then (Inr (), s1\<lparr>bl_subs := map (\<lambda>r. if of_org (sub_OrgID sub) r then update_sub now sub r else r) (bl_subs s)\<rparr>)
         else if sub_OrgID sub \<notin> org_ID ` set (tn_orgs (bl_tenant s)) then (Inl (BillStore ErrForeignKey), s1)
         else (Inr (), s1\<lparr>bl_subs := bl_subs s @ [insert_sub now newID sub]\<rparr>))"

text \<open>\<open>UPDATE organizations SET plan\<close> of an active org.\<close>

definition set_plan :: "int \<Rightarrow> string \<Rightarrow> bill_db \<Rightarrow> bill_db" where
  "set_plan orgID plan s = s\<lparr>bl_tenant := (bl_tenant s)\<lparr>tn_orgs := map (\<lambda>o'.
     if org_ID o' = orgID \<and> org_DeletedAt o' = None then o'\<lparr>org_Plan := plan\<rparr> else o') (tn_orgs (bl_tenant s))\<rparr>\<rparr>"

definition ApplySubscriptionEvent :: "fault \<Rightarrow> time \<Rightarrow> Subscription \<Rightarrow> unit btx" where
  "ApplySubscriptionEvent f now sub = bl_run f (\<lambda>s.
     case upsertSubscriptionTx now sub s of
       (Inl e, s1) \<Rightarrow> (Inl e, s1)
     | (Inr _, s1) \<Rightarrow>
         if \<not> org_active (bl_tenant s1) (sub_OrgID sub) then (Inl ErrOrgNotFound, s1)
         else (Inr (), set_plan (sub_OrgID sub) (sub_Plan sub) s1))"

text \<open>An update of the subscription of an org; no row is \<open>pgx.ErrNoRows\<close>.\<close>

definition change_sub :: "int \<Rightarrow> (SubRow \<Rightarrow> SubRow) \<Rightarrow> unit btx" where
  "change_sub orgID g s =
     (if list_ex (of_org orgID) (bl_subs s)
      then (Inr (), s\<lparr>bl_subs := map (\<lambda>r. if of_org orgID r then g r else r) (bl_subs s)\<rparr>)
      else (Inl (BillStore ErrNoRows), s))"

definition UpdateSubscriptionPlan :: "fault \<Rightarrow> time \<Rightarrow> int \<Rightarrow> string \<Rightarrow> string \<Rightarrow> string \<Rightarrow> unit btx" where
  "UpdateSubscriptionPlan f now orgID plan cycle priceID = bl_run f (change_sub orgID (\<lambda>r.
     r\<lparr>sr_Sub := (sr_Sub r)\<lparr>sub_Plan := plan, sub_BillingCycle := cycle, sub_ProviderPriceID := priceID, sub_UpdatedAt := now\<rparr>\<rparr>))"

definition SetSubscriptionCancelAtPeriodEnd :: "fault \<Rightarrow> time \<Rightarrow> int \<Rightarrow> unit btx" where
  "SetSubscriptionCancelAtPeriodEnd f now orgID = bl_run f (change_sub orgID (\<lambda>r.
     r\<lparr>sr_Sub := (sr_Sub r)\<lparr>sub_CancelAtPeriodEnd := True, sub_UpdatedAt := now\<rparr>\<rparr>))"

definition cancel_sub :: "time \<Rightarrow> SubRow \<Rightarrow> SubRow" where
  "cancel_sub now r =
     \<lparr>sr_Sub = (sr_Sub r)\<lparr>sub_Status := ''canceled'', sub_CancelAtPeriodEnd := False, sub_UpdatedAt := now\<rparr>,
      sr_EndedAt = (if active_status (sub_Status (sr_Sub r)) then Some now else sr_EndedAt r)\<rparr>"

definition CancelSubscriptionNow :: "fault \<Rightarrow> time \<Rightarrow> int \<Rightarrow> unit btx" where
  "CancelSubscriptionNow f now orgID = bl_run f (\<lambda>s.
     case change_sub orgID (cancel_sub now) s of
       (Inl e, s1) \<Rightarrow> (Inl e, s1)
     | (Inr _, s1) \<Rightarrow> (Inr (), set_plan orgID ''tier1'' s1))"

text \<open>
  Whether a user owns or administers an org whose subscription ended less than the given number of days ago.
\<close>

definition PersonHadRecentInactiveSubscription :: "fault \<Rightarrow> time \<Rightarrow> int \<Rightarrow> int \<Rightarrow> bill_db \<Rightarrow> bill_error + bool" where
  "PersonHadRecentInactiveSubscription f now userID withinDays s = bl_read f (Inr
     (list_ex (\<lambda>r. list_ex (\<lambda>m. mem_OrgID m = sub_OrgID (sr_Sub r) \<and> mem_UserID m = userID
                             \<and> (mem_Role m = RoleOwner \<or> mem_Role m = RoleAdmin)) (tn_members (bl_tenant s))
                 \<and> \<not> active_status (sub_Status (sr_Sub r))
                 \<and> (case sr_EndedAt r of None \<Rightarrow> False | Some t \<Rightarrow> now - withinDays * (24 * Hour) < t)) (bl_subs s)))"

section \<open>Payments and prices\<close>

definition same_payment :: "Payment \<Rightarrow> Payment \<Rightarrow> bool" where
  "same_payment p q \<longleftrightarrow> pay_Provider q = pay_Provider p \<and> pay_ProviderPaymentID q = pay_ProviderPaymentID p"

definition ApplyPaymentEvent :: "fault \<Rightarrow> time \<Rightarrow> Payment \<Rightarrow> unit btx" where
  "ApplyPaymentEvent f now pay = bl_run f (\<lambda>s.
     if \<not> org_active (bl_tenant s) (pay_OrgID pay) then (Inl ErrOrgNotFound, s)
     else let newID = bl_next_payment s; s1 = s\<lparr>bl_next_payment := newID + 1\<rparr>
       in case find (same_payment pay) (bl_payments s) of
            None \<Rightarrow> (Inr (), s1\<lparr>bl_payments := bl_payments s @ [pay\<lparr>pay_ID := newID, pay_CreatedAt := now\<rparr>]\<rparr>)
          | Some old \<Rightarrow>
              if pay_OrgID old \<noteq> pay_OrgID pay then (Inl RowSecurity, s1)
              else (Inr (), s1\<lparr>bl_payments := map (\<lambda>q. if same_payment pay q
                       then pay\<lparr>pay_ID := pay_ID q, pay_CreatedAt := pay_CreatedAt q\<rparr> else q) (bl_payments s)\<rparr>))"


definition ListPayments :: "fault \<Rightarrow> int \<Rightarrow> bill_db \<Rightarrow> bill_error + Payment list" where
  "ListPayments f orgID s = bl_read f (Inr
     (sort_key (\<lambda>p. - pay_CreatedAt p) (sort_key (\<lambda>p. - pay_ID p) (filter (\<lambda>p. pay_OrgID p = orgID) (bl_payments s)))))"

text \<open>\<open>collate\<close> is the order of the database on plan and cycle.\<close>

definition ListPlanPrices :: "(PlanPrice list \<Rightarrow> PlanPrice list) \<Rightarrow> fault \<Rightarrow> string \<Rightarrow> bill_db \<Rightarrow> bill_error + PlanPrice list" where
  "ListPlanPrices collate f provider s = bl_read f (Inr (collate (filter (\<lambda>p. pp_Provider p = provider) (bl_prices s))))"

definition same_price :: "PlanPrice \<Rightarrow> PlanPrice \<Rightarrow> bool" where
  "same_price p q \<longleftrightarrow> pp_Provider q = pp_Provider p \<and> pp_Plan q = pp_Plan p \<and> pp_Cycle q = pp_Cycle p \<and> pp_HasTrial q = pp_HasTrial p"

definition UpsertPlanPrice :: "fault \<Rightarrow> time \<Rightarrow> PlanPrice \<Rightarrow> unit btx" where
  "UpsertPlanPrice f now pp = bl_run f (\<lambda>s.
     let newID = bl_next_price s; s1 = s\<lparr>bl_next_price := newID + 1\<rparr>; cd = default_to ''{}'' (pp_CustomData pp)
     in if list_ex (same_price pp) (bl_prices s)
        then (Inr (), s1\<lparr>bl_prices := map (\<lambda>q. if same_price pp q
                then q\<lparr>pp_ProviderPriceID := pp_ProviderPriceID pp, pp_TrialDays := pp_TrialDays pp, pp_CustomData := cd,
                       pp_UpdatedAt := now\<rparr> else q) (bl_prices s)\<rparr>)
        else (Inr (), s1\<lparr>bl_prices := bl_prices s @ [pp\<lparr>pp_ID := newID, pp_CustomData := cd, pp_CreatedAt := now, pp_UpdatedAt := now\<rparr>]\<rparr>))"

end
