(* ===== verification/Pulse_Billing.thy ===== *)
theory Pulse_Billing
  imports Pulse_Billing_Store "HOL-Library.AList"
begin

text \<open>
  Payments: the provider seam of \<open>internal/billing/billing.go\<close>, its two adapters
  (\<open>stub.go\<close> and \<open>paddle/paddle.go\<close>) and the webhook ingest \<open>ingest.go\<close>.

  Given as arguments: HMAC-SHA256, the JSON decoders of the payloads, the signature verifier and the calls of the
  Paddle SDK, and the iteration order of Go maps.  A delivery is the request as the handler reads it; the n-th
  store call of a delivery fails by the fault \<open>f n\<close>.
\<close>

section \<open>The seam\<close>

record Money =
  mo_Minor :: int
  mo_Currency :: string

datatype CancelWhen = CancelImmediate | CancelPeriodEnd

record PlanChange =
  pc_Plan :: string
  pc_Cycle :: string
  pc_Mode :: string

datatype EventKind = EventKindUnknown | EventKindSubscription | EventKindPayment

record EventPayment =
  ep_ProviderPaymentID :: string
  ep_Amount :: Money
  ep_Status :: string
  ep_Period :: string
  ep_HostedInvoiceURL :: string
  ep_RefundedAmount :: Money

record BillingEvent =
  be_ID :: string
  be_Type :: string
  be_Kind :: EventKind
  be_Provider :: string
  be_OrgID :: int
  be_ProviderCustomerID :: string
  be_ProviderSubscriptionID :: string
  be_ProviderPriceID :: string
  be_Plan :: string
  be_Cycle :: string
  be_Status :: string
  be_CurrentPeriodEnd :: "time option"
  be_CancelAtPeriodEnd :: bool
  be_Payment :: "EventPayment option"

datatype webhook_error = ErrBadSignature | BadBody

datatype provider_error = ErrNotImplemented | ErrProvider string

record BillingProvider =
  bp_Name :: string
  bp_SignatureHeader :: string
  bp_Checkout :: "int \<Rightarrow> string \<Rightarrow> string \<Rightarrow> bool \<Rightarrow> provider_error + string"
  bp_PortalURL :: "string \<Rightarrow> string \<Rightarrow> provider_error + string"
  bp_UpdateSubscription :: "string \<Rightarrow> PlanChange \<Rightarrow> provider_error option"
  bp_CancelSubscription :: "string \<Rightarrow> CancelWhen \<Rightarrow> provider_error option"
  bp_Refund :: "string \<Rightarrow> Money option \<Rightarrow> string \<Rightarrow> provider_error option"
  bp_SetCustomPrice :: "int \<Rightarrow> Money \<Rightarrow> string \<Rightarrow> provider_error + string"
  bp_VerifyWebhook :: "string \<Rightarrow> string \<Rightarrow> webhook_error + BillingEvent"

section \<open>The stub\<close>

text \<open>\<open>strings.Cut\<close> at a one-byte separator.\<close>

definition Cut :: "char \<Rightarrow> string \<Rightarrow> (string \<times> string) option" where
  "Cut sep s = (if sep \<in> set s then Some (takeWhile (\<lambda>c. c \<noteq> sep) s, drop 1 (dropWhile (\<lambda>c. c \<noteq> sep) s)) else None)"

record stubPayment =
  sp_PaymentID :: string
  sp_Amount :: int
  sp_Currency :: string
  sp_Status :: string
  sp_Period :: string
  sp_HostedInvoiceURL :: string
  sp_RefundedAmount :: int

record stubEnvelope =
  se_ID :: string
  se_Type :: string
  se_OrgID :: int
  se_CustomerID :: string
  se_SubscriptionID :: string
  se_PriceID :: string
  se_Plan :: string
  se_Cycle :: string
  se_Status :: string
  se_CurrentPeriodEnd :: "time option"
  se_CancelAtPeriodEnd :: bool
  se_Payment :: "stubPayment option"

definition stubSubscriptionEvents :: "string list" where
  "stubSubscriptionEvents = [''subscription.created'', ''subscription.activated'', ''subscription.updated'', ''subscription.canceled'',
     ''subscription.past_due'', ''subscription.paused'', ''subscription.resumed'', ''subscription.trialing'', ''subscription.imported'']"

definition stubPaymentEvents :: "string list" where
  "stubPaymentEvents = [''transaction.completed'', ''transaction.paid'']"

definition stubEventKind :: "string \<Rightarrow> EventKind" where
  "stubEventKind eventType =
     (if eventType \<in> set stubSubscriptionEvents then EventKindSubscription
      else if eventType \<in> set stubPaymentEvents then EventKindPayment
      else EventKindUnknown)"

fun sig_loop :: "string list \<Rightarrow> string \<Rightarrow> string \<Rightarrow> string \<times> string" where
  "sig_loop [] ts mac = (ts, mac)"
| "sig_loop (part # parts) ts mac =
     (case Cut (CHR ''='') (TrimSpace part) of
        None \<Rightarrow> sig_loop parts ts mac
      | Some (k, v) \<Rightarrow>
          if k = ''ts'' then sig_loop parts v mac
          else if k = ''h1'' then sig_loop parts ts v
          else sig_loop parts ts mac)"

definition parseStubSig :: "string \<Rightarrow> (string \<times> string) option" where
  "parseStubSig sig =
     (case sig_loop (Split (CHR '';'') sig) '''' '''' of (ts, mac) \<Rightarrow>
        if ts = '''' \<or> mac = '''' then None else Some (ts, mac))"

definition stubSign :: "(string \<Rightarrow> string \<Rightarrow> string) \<Rightarrow> string \<Rightarrow> string \<Rightarrow> string \<Rightarrow> string" where
  "stubSign hmac secret ts body = hex_encode (hmac secret (ts @ ''.'' @ body))"

definition SignStubWebhook :: "(string \<Rightarrow> string \<Rightarrow> string) \<Rightarrow> string \<Rightarrow> string \<Rightarrow> string \<Rightarrow> string" where
  "SignStubWebhook hmac secret ts body = ''ts='' @ ts @ '';h1='' @ stubSign hmac secret ts body"

definition stub_payment :: "stubPayment \<Rightarrow> EventPayment" where
  "stub_payment p =
     \<lparr>ep_ProviderPaymentID = sp_PaymentID p, ep_Amount = \<lparr>mo_Minor = sp_Amount p, mo_Currency = sp_Currency p\<rparr>, ep_Status = sp_Status p,
      ep_Period = sp_Period p, ep_HostedInvoiceURL = sp_HostedInvoiceURL p,
      ep_RefundedAmount = \<lparr>mo_Minor = sp_RefundedAmount p, mo_Currency = sp_Currency p\<rparr>\<rparr>"

definition stub_event :: "stubEnvelope \<Rightarrow> BillingEvent" where
  "stub_event env =
     \<lparr>be_ID = se_ID env, be_Type = se_Type env, be_Kind = stubEventKind (se_Type env), be_Provider = ''stub'',
      be_OrgID = se_OrgID env, be_ProviderCustomerID = se_CustomerID env, be_ProviderSubscriptionID = se_SubscriptionID env,
      be_ProviderPriceID = se_PriceID env, be_Plan = se_Plan env, be_Cycle = se_Cycle env, be_Status = se_Status env,
      be_CurrentPeriodEnd = se_CurrentPeriodEnd env, be_CancelAtPeriodEnd = se_CancelAtPeriodEnd env,
      be_Payment = map_option stub_payment (se_Payment env)\<rparr>"

definition stub_VerifyWebhook :: "(string \<Rightarrow> string \<Rightarrow> string) \<Rightarrow> (string \<Rightarrow> stubEnvelope option) \<Rightarrow> string \<Rightarrow> string \<Rightarrow> string
    \<Rightarrow> webhook_error + BillingEvent" where
  "stub_VerifyWebhook hmac decode secret payload sig =
     (case parseStubSig sig of
        None \<Rightarrow> Inl ErrBadSignature
      | Some (ts, mac) \<Rightarrow>
          if stubSign hmac secret ts payload \<noteq> mac then Inl ErrBadSignature
          else case decode payload of None \<Rightarrow> Inl BadBody | Some env \<Rightarrow> Inr (stub_event env))"

definition stubBaseURL :: string where "stubBaseURL = ''https://stub.billing.local''"

definition stub_Checkout :: "int \<Rightarrow> string \<Rightarrow> string \<Rightarrow> bool \<Rightarrow> provider_error + string" where
  "stub_Checkout orgID plan cycle withTrial =
     Inr (stubBaseURL @ ''/checkout?org='' @ Itoa orgID @ ''&plan='' @ plan @ ''&cycle='' @ cycle
          @ ''&trial='' @ (if withTrial then ''true'' else ''false''))"

definition stub_PortalURL :: "string \<Rightarrow> string \<Rightarrow> provider_error + string" where
  "stub_PortalURL customer subscription = Inr (stubBaseURL @ ''/portal?customer='' @ customer @ ''&subscription='' @ subscription)"

definition stub_SetCustomPrice :: "int \<Rightarrow> Money \<Rightarrow> string \<Rightarrow> provider_error + string" where
  "stub_SetCustomPrice orgID amount cycle =
     Inr (''price_custom_'' @ Itoa orgID @ ''_'' @ Itoa (mo_Minor amount) @ ToLower (mo_Currency amount) @ ''_'' @ cycle)"

definition NewStub :: "(string \<Rightarrow> string \<Rightarrow> string) \<Rightarrow> (string \<Rightarrow> stubEnvelope option) \<Rightarrow> string \<Rightarrow> BillingProvider" where
  "NewStub hmac decode secret =
     \<lparr>bp_Name = ''stub'', bp_SignatureHeader = ''X-Billing-Signature'', bp_Checkout = stub_Checkout, bp_PortalURL = stub_PortalURL,
      bp_UpdateSubscription = (\<lambda>_ _. None), bp_CancelSubscription = (\<lambda>_ _. None), bp_Refund = (\<lambda>_ _ _. None),
      bp_SetCustomPrice = stub_SetCustomPrice, bp_VerifyWebhook = stub_VerifyWebhook hmac decode secret\<rparr>"

section \<open>Paddle\<close>

text \<open>A Go map as the association list of its entries.\<close>

definition price_key :: "string \<Rightarrow> string \<Rightarrow> string" where "price_key plan cycle = plan @ '':'' @ cycle"

fun price_loop :: "PlanPrice list \<Rightarrow> (string \<times> string) list \<Rightarrow> (string \<times> string) list \<Rightarrow> (string \<times> string) list \<times> (string \<times> string) list" where
  "price_loop [] withTrial noTrial = (withTrial, noTrial)"
| "price_loop (r # rs) withTrial noTrial =
     (if pp_HasTrial r
      then price_loop rs (AList.update (price_key (pp_Plan r) (pp_Cycle r)) (pp_ProviderPriceID r) withTrial) noTrial
      else price_loop rs withTrial (AList.update (price_key (pp_Plan r) (pp_Cycle r)) (pp_ProviderPriceID r) noTrial))"

definition PriceMaps :: "PlanPrice list \<Rightarrow> (string \<times> string) list \<times> (string \<times> string) list" where
  "PriceMaps rows = price_loop rows [] []"

text \<open>The adapter: its price maps, the reverse map and the SDK.\<close>

record planCycle =
  pcy_plan :: string
  pcy_cycle :: string

definition key_parts :: "string \<Rightarrow> planCycle" where
  "key_parts key = (case Cut (CHR '':'') key of None \<Rightarrow> \<lparr>pcy_plan = key, pcy_cycle = ''''\<rparr> | Some (p, c) \<Rightarrow> \<lparr>pcy_plan = p, pcy_cycle = c\<rparr>)"

definition by_price :: "((string \<times> string) list \<Rightarrow> (string \<times> string) list) \<Rightarrow> (string \<times> string) list \<Rightarrow> (string \<times> string) list
    \<Rightarrow> string \<rightharpoonup> planCycle" where
  "by_price order prices pricesNoTrial =
     fold (\<lambda>(key, i) m. m(i \<mapsto> key_parts key)) (order prices @ order pricesNoTrial) Map.empty"

definition priceFor :: "(string \<times> string) list \<Rightarrow> (string \<times> string) list \<Rightarrow> string \<Rightarrow> string \<Rightarrow> bool \<Rightarrow> string option" where
  "priceFor prices pricesNoTrial plan cycle withTrial =
     (let key = price_key plan cycle
      in case (if \<not> withTrial then map_of pricesNoTrial key else None) of
           Some i \<Rightarrow> Some i
         | None \<Rightarrow> map_of prices key)"

text \<open>
  The SDK: the checkout URL of a transaction for a price with the org id as custom data, the portal session,
  the cancellation and the refund, each with \<open>None\<close> for an error of the API.
\<close>

record paddle_sdk =
  sdk_CreateTransaction :: "string \<Rightarrow> string \<Rightarrow> string option option"
  sdk_CreatePortal :: "string \<Rightarrow> string list \<Rightarrow> string option"
  sdk_Cancel :: "string \<Rightarrow> bool \<Rightarrow> bool"
  sdk_Refund :: "string \<Rightarrow> string \<Rightarrow> bool"
  sdk_Verify :: "string \<Rightarrow> string \<Rightarrow> bool"

definition paddle_Checkout :: "paddle_sdk \<Rightarrow> (string \<times> string) list \<Rightarrow> (string \<times> string) list \<Rightarrow> int \<Rightarrow> string \<Rightarrow> string \<Rightarrow> bool
    \<Rightarrow> provider_error + string" where
  "paddle_Checkout sdk prices pricesNoTrial orgID plan cycle withTrial =
     (case priceFor prices pricesNoTrial plan cycle withTrial of
        None \<Rightarrow> Inl (ErrProvider ''no price configured'')
      | Some priceID \<Rightarrow>
          (case sdk_CreateTransaction sdk priceID (Itoa orgID) of
             None \<Rightarrow> Inl (ErrProvider ''create transaction'')
           | Some None \<Rightarrow> Inl (ErrProvider ''no checkout url returned'')
           | Some (Some url) \<Rightarrow> if url = '''' then Inl (ErrProvider ''no checkout url returned'') else Inr url))"

definition paddle_CancelSubscription :: "paddle_sdk \<Rightarrow> string \<Rightarrow> CancelWhen \<Rightarrow> provider_error option" where
  "paddle_CancelSubscription sdk providerSubID when' =
     (if sdk_Cancel sdk providerSubID (when' = CancelImmediate) then None else Some (ErrProvider ''cancel subscription''))"

definition paddle_Refund :: "paddle_sdk \<Rightarrow> string \<Rightarrow> Money option \<Rightarrow> string \<Rightarrow> provider_error option" where
  "paddle_Refund sdk providerPaymentID amount reason =
     (if amount \<noteq> None then Some (ErrProvider ''partial refunds are not supported yet'')
      else if sdk_Refund sdk providerPaymentID (default_to ''requested by operator'' reason) then None
      else Some (ErrProvider ''create refund adjustment''))"

definition paddle_PortalURL :: "paddle_sdk \<Rightarrow> string \<Rightarrow> string \<Rightarrow> provider_error + string" where
  "paddle_PortalURL sdk customer subscription =
     (if customer = '''' then Inl (ErrProvider ''portal session needs a customer id'')
      else case sdk_CreatePortal sdk customer (if subscription \<noteq> '''' then [subscription] else []) of
             None \<Rightarrow> Inl (ErrProvider ''create portal session'')
           | Some url \<Rightarrow> Inr url)"

text \<open>
  The payloads after decoding.  \<open>org_id\<close> of the custom data is absent, a string, a number (its value as an
  \<open>int64\<close>) or something else.
\<close>

datatype custom_value = CvString string | CvNumber int | CvOther

record paddle_envelope =
  pe_EventID :: string
  pe_EventType :: string
  pe_Data :: string

record paddle_subscription =
  ps_ID :: string
  ps_Status :: string
  ps_CustomerID :: string
  ps_CustomOrg :: "custom_value option"
  ps_EndsAt :: "time option"
  ps_ScheduledChange :: "string option"
  ps_Items :: "string list"

record paddle_transaction =
  pt_ID :: string
  pt_Status :: string
  pt_CustomerID :: string
  pt_CustomOrg :: "custom_value option"
  pt_Totals :: "(string \<times> string) option"

record paddle_codec =
  pco_envelope :: "string \<Rightarrow> paddle_envelope option"
  pco_subscription :: "string \<Rightarrow> paddle_subscription option"
  pco_transaction :: "string \<Rightarrow> paddle_transaction option"

definition subscriptionEvents :: "string list" where
  "subscriptionEvents = [''subscription.created'', ''subscription.activated'', ''subscription.updated'', ''subscription.canceled'',
     ''subscription.past_due'', ''subscription.paused'', ''subscription.resumed'', ''subscription.trialing'', ''subscription.imported'']"

definition paymentEvents :: "string list" where
  "paymentEvents = [''transaction.completed'', ''transaction.paid'']"

text \<open>\<open>n, _ := strconv.ParseInt(x, 10, 64)\<close>: 0 for a text that is no number, the nearest bound for one out of range.\<close>

definition ParseInt_value :: "string \<Rightarrow> int" where
  "ParseInt_value x =
     (let r = (case x of
                 [] \<Rightarrow> None
               | c # cs \<Rightarrow> if c = CHR ''-'' then map_option (\<lambda>n. - int n) (parse_digits cs)
                           else if c = CHR ''+'' then map_option int (parse_digits cs)
                           else map_option int (parse_digits x))
      in case r of None \<Rightarrow> 0 | Some i \<Rightarrow> max (- (2 ^ 63)) (min (2 ^ 63 - 1) i))"

lemma ParseInt_value_Atoi: "Atoi x = Some i \<Longrightarrow> ParseInt_value x = i"
  by (auto simp: Atoi_def ParseInt_value_def Let_def split: option.splits if_splits list.splits)

definition orgIDFromCustomData :: "custom_value option \<Rightarrow> int" where
  "orgIDFromCustomData v =
     (case v of
        None \<Rightarrow> 0
      | Some (CvString x) \<Rightarrow> ParseInt_value x
      | Some (CvNumber n) \<Rightarrow> n
      | Some CvOther \<Rightarrow> 0)"

definition mapSubscription :: "(string \<rightharpoonup> planCycle) \<Rightarrow> paddle_subscription option \<Rightarrow> BillingEvent \<Rightarrow> BillingEvent" where
  "mapSubscription byPrice data ev =
     (case data of
        None \<Rightarrow> ev
      | Some s \<Rightarrow>
          let ev1 = ev\<lparr>be_OrgID := orgIDFromCustomData (ps_CustomOrg s), be_ProviderCustomerID := ps_CustomerID s,
                       be_ProviderSubscriptionID := ps_ID s, be_Status := ps_Status s\<rparr>;
              ev2 = (case ps_Items s of
                       [] \<Rightarrow> ev1
                     | i # _ \<Rightarrow>
                         (case byPrice i of
                            None \<Rightarrow> ev1\<lparr>be_ProviderPriceID := i\<rparr>
                          | Some pc \<Rightarrow> ev1\<lparr>be_ProviderPriceID := i, be_Plan := pcy_plan pc, be_Cycle := pcy_cycle pc\<rparr>));
              ev3 = (case ps_EndsAt s of None \<Rightarrow> ev2 | Some t \<Rightarrow> ev2\<lparr>be_CurrentPeriodEnd := Some t\<rparr>)
          in ev3\<lparr>be_CancelAtPeriodEnd := (ps_ScheduledChange s = Some ''cancel'')\<rparr>)"

definition mapTransaction :: "paddle_transaction option \<Rightarrow> BillingEvent \<Rightarrow> BillingEvent" where
  "mapTransaction data ev =
     (case data of
        None \<Rightarrow> ev
      | Some t \<Rightarrow>
          ev\<lparr>be_OrgID := orgIDFromCustomData (pt_CustomOrg t), be_ProviderCustomerID := pt_CustomerID t,
             be_Payment := Some
               \<lparr>ep_ProviderPaymentID = pt_ID t,
                ep_Amount = (case pt_Totals t of
                               None \<Rightarrow> \<lparr>mo_Minor = 0, mo_Currency = ''''\<rparr>
                             | Some (grandTotal, currency) \<Rightarrow> \<lparr>mo_Minor = ParseInt_value grandTotal, mo_Currency = currency\<rparr>),
                ep_Status = pt_Status t, ep_Period = '''', ep_HostedInvoiceURL = '''',
                ep_RefundedAmount = \<lparr>mo_Minor = 0, mo_Currency = ''''\<rparr>\<rparr>\<rparr>)"

definition blank_event :: "string \<Rightarrow> string \<Rightarrow> string \<Rightarrow> BillingEvent" where
  "blank_event i typ provider =
     \<lparr>be_ID = i, be_Type = typ, be_Kind = EventKindUnknown, be_Provider = provider, be_OrgID = 0, be_ProviderCustomerID = '''',
      be_ProviderSubscriptionID = '''', be_ProviderPriceID = '''', be_Plan = '''', be_Cycle = '''', be_Status = '''',
      be_CurrentPeriodEnd = None, be_CancelAtPeriodEnd = False, be_Payment = None\<rparr>"

definition paddle_VerifyWebhook :: "paddle_sdk \<Rightarrow> paddle_codec \<Rightarrow> (string \<rightharpoonup> planCycle) \<Rightarrow> string \<Rightarrow> string \<Rightarrow> webhook_error + BillingEvent" where
  "paddle_VerifyWebhook sdk codec byPrice payload sig =
     (if \<not> sdk_Verify sdk payload sig then Inl ErrBadSignature
      else case pco_envelope codec payload of
             None \<Rightarrow> Inl BadBody
           | Some env \<Rightarrow>
               let ev = blank_event (pe_EventID env) (pe_EventType env) ''paddle''
               in Inr (if pe_EventType env \<in> set subscriptionEvents
                       then mapSubscription byPrice (pco_subscription codec (pe_Data env)) (ev\<lparr>be_Kind := EventKindSubscription\<rparr>)
                       else if pe_EventType env \<in> set paymentEvents
                       then mapTransaction (pco_transaction codec (pe_Data env)) (ev\<lparr>be_Kind := EventKindPayment\<rparr>)
                       else ev))"

definition paddle_New :: "paddle_sdk \<Rightarrow> paddle_codec \<Rightarrow> ((string \<times> string) list \<Rightarrow> (string \<times> string) list)
    \<Rightarrow> (string \<times> string) list \<Rightarrow> (string \<times> string) list \<Rightarrow> BillingProvider" where
  "paddle_New sdk codec order prices pricesNoTrial =
     \<lparr>bp_Name = ''paddle'', bp_SignatureHeader = ''Paddle-Signature'', bp_Checkout = paddle_Checkout sdk prices pricesNoTrial,
      bp_PortalURL = paddle_PortalURL sdk, bp_UpdateSubscription = (\<lambda>_ _. Some ErrNotImplemented),
      bp_CancelSubscription = paddle_CancelSubscription sdk, bp_Refund = paddle_Refund sdk,
      bp_SetCustomPrice = (\<lambda>_ _ _. Inl ErrNotImplemented),
      bp_VerifyWebhook = paddle_VerifyWebhook sdk codec (by_price order prices pricesNoTrial)\<rparr>"

section \<open>The ingest\<close>

definition event_plan :: "BillingEvent \<Rightarrow> Plan" where
  "event_plan ev = (if be_Status ev = ''canceled'' then PlanTier1 else ParsePlan (be_Plan ev))"

definition event_subscription :: "int \<Rightarrow> BillingEvent \<Rightarrow> Subscription" where
  "event_subscription orgID ev =
     \<lparr>sub_ID = 0, sub_OrgID = orgID, sub_Plan = Plan_string (event_plan ev), sub_BillingCycle = be_Cycle ev, sub_Status = be_Status ev,
      sub_Provider = be_Provider ev, sub_ProviderCustomerID = be_ProviderCustomerID ev,
      sub_ProviderSubscriptionID = be_ProviderSubscriptionID ev, sub_ProviderPriceID = be_ProviderPriceID ev,
      sub_CurrentPeriodEnd = be_CurrentPeriodEnd ev, sub_CancelAtPeriodEnd = be_CancelAtPeriodEnd ev,
      sub_CreatedAt = zero_time, sub_UpdatedAt = zero_time\<rparr>"

definition event_payment :: "int \<Rightarrow> string \<Rightarrow> EventPayment \<Rightarrow> Payment" where
  "event_payment orgID provider p =
     \<lparr>pay_ID = 0, pay_OrgID = orgID, pay_Provider = provider, pay_ProviderPaymentID = ep_ProviderPaymentID p,
      pay_Amount = mo_Minor (ep_Amount p), pay_Currency = mo_Currency (ep_Amount p), pay_Status = ep_Status p,
      pay_Period = ep_Period p, pay_HostedInvoiceURL = ep_HostedInvoiceURL p,
      pay_RefundedAmount = mo_Minor (ep_RefundedAmount p), pay_CreatedAt = zero_time\<rparr>"

definition apply_kind :: "fault \<Rightarrow> time \<Rightarrow> int \<Rightarrow> BillingEvent \<Rightarrow> unit btx" where
  "apply_kind f now orgID ev s =
     (case be_Kind ev of
        EventKindSubscription \<Rightarrow> ApplySubscriptionEvent f now (event_subscription orgID ev) s
      | EventKindPayment \<Rightarrow>
          (case be_Payment ev of
             None \<Rightarrow> (Inl NoPaymentData, s)
           | Some p \<Rightarrow> ApplyPaymentEvent f now (event_payment orgID (be_Provider ev) p) s)
      | EventKindUnknown \<Rightarrow> (Inr (), s))"

definition act :: "(int list \<Rightarrow> int) \<Rightarrow> fault \<times> fault \<Rightarrow> time \<Rightarrow> BillingEvent \<Rightarrow> unit btx" where
  "act pick f now ev s =
     (if be_Kind ev \<noteq> EventKindSubscription \<and> be_Kind ev \<noteq> EventKindPayment then (Inr (), s)
      else if be_OrgID ev \<noteq> 0 then apply_kind (snd f) now (be_OrgID ev) ev s
      else case OrgByCustomer pick (fst f) (be_Provider ev) (be_ProviderCustomerID ev) s of
             Inl e \<Rightarrow> (Inl e, s)
           | Inr orgID \<Rightarrow> if orgID = 0 then (Inr (), s) else apply_kind (snd f) now orgID ev s)"

text \<open>
  The request: the provider of the path, the body (\<open>None\<close> when it cannot be read or is over a mebibyte) and the
  signature header.  The answer is the status code.
\<close>

record delivery =
  dl_provider :: string
  dl_body :: "string option"
  dl_sig :: string

definition ingest :: "(string \<Rightarrow> bool) \<Rightarrow> (int list \<Rightarrow> int) \<Rightarrow> (nat \<Rightarrow> fault) \<Rightarrow> time \<Rightarrow> BillingEvent \<Rightarrow> string \<Rightarrow> bill_db \<Rightarrow> int \<times> bill_db" where
  "ingest jsonb pick f now ev body s =
     (case RecordBillingEvent jsonb (f 0, f 1) now (be_Provider ev) (be_ID ev) (be_Type ev) body s of
        (Inl _, s1) \<Rightarrow> (500, s1)
      | (Inr True, s1) \<Rightarrow> (200, s1)
      | (Inr False, s1) \<Rightarrow>
          (case act pick (f 2, f 3) now ev s1 of
             (Inr _, s2) \<Rightarrow>
               (case MarkBillingEventProcessed (f 4) now (be_Provider ev) (be_ID ev) s2 of
                  (Inl _, s3) \<Rightarrow> (500, s3)
                | (Inr _, s3) \<Rightarrow> (200, s3))
           | (Inl e, s2) \<Rightarrow>
               if e = ErrOrgNotFound then (200, snd (MarkBillingEventProcessed (f 4) now (be_Provider ev) (be_ID ev) s2))
               else (500, s2)))"

definition ServeHTTP :: "BillingProvider \<Rightarrow> (string \<Rightarrow> bool) \<Rightarrow> (int list \<Rightarrow> int) \<Rightarrow> (nat \<Rightarrow> fault) \<Rightarrow> time \<Rightarrow> delivery \<Rightarrow> bill_db
    \<Rightarrow> int \<times> bill_db" where
  "ServeHTTP p jsonb pick f now d s =
     (if dl_provider d \<noteq> bp_Name p then (404, s)
      else case dl_body d of
             None \<Rightarrow> (400, s)
           | Some body \<Rightarrow>
               (case bp_VerifyWebhook p body (dl_sig d) of
                  Inl ErrBadSignature \<Rightarrow> (401, s)
                | Inl BadBody \<Rightarrow> (400, s)
                | Inr ev \<Rightarrow> if be_ID ev = '''' then (200, s) else ingest jsonb pick f now ev body s))"

end
