(* ===== verification/Pulse_Billing_Sync.thy ===== *)
theory Pulse_Billing_Sync
  imports Pulse_Billing
begin

text \<open>
  What the webhook ingest guarantees: an event that is delivered at least once, with any faults, has the
  effect of one delivery; once it is processed no delivery of it has an effect; and what a customer bought at
  the checkout is what the org gets.
\<close>

section \<open>What a transaction does to the tables\<close>

locale bill_effect =
  fixes R :: "bill_db \<Rightarrow> bill_db \<Rightarrow> bool"
  assumes R_same: "R s s"
    and R_rolled_back: "R s (bl_rolled_back s s')"
begin

lemma run: "(\<And>a s'. fn s = (Inr a, s') \<Longrightarrow> R s s') \<Longrightarrow> R s (snd (bl_run f fn s))"
  using R_same R_rolled_back by (cases "fn s"; cases "fst (fn s)") (auto simp: bl_run_def)

end

lemma bl_rolled_back_sel [simp]:
  "bl_tenant (bl_rolled_back s t) = bl_tenant s" "bl_subs (bl_rolled_back s t) = bl_subs s"
  "bl_payments (bl_rolled_back s t) = bl_payments s" "bl_events (bl_rolled_back s t) = bl_events s"
  "bl_prices (bl_rolled_back s t) = bl_prices s"
  by (simp_all add: bl_rolled_back_def)

section \<open>The books\<close>

text \<open>
  The abstract state: the plan of every active org, the subscription of every org and the payment of every
  provider id, without row ids and time stamps.
\<close>

definition plan_of :: "bill_db \<Rightarrow> int \<rightharpoonup> string" where
  "plan_of s orgID = map_option org_Plan (find (\<lambda>o'. org_ID o' = orgID \<and> org_DeletedAt o' = None) (tn_orgs (bl_tenant s)))"

definition sub_body :: "Subscription \<Rightarrow> Subscription" where
  "sub_body sub = sub\<lparr>sub_ID := 0, sub_CreatedAt := zero_time, sub_UpdatedAt := zero_time\<rparr>"

definition sub_of :: "bill_db \<Rightarrow> int \<rightharpoonup> Subscription" where
  "sub_of s orgID = map_option (sub_body \<circ> sr_Sub) (find (of_org orgID) (bl_subs s))"

definition pay_body :: "Payment \<Rightarrow> Payment" where
  "pay_body p = p\<lparr>pay_ID := 0, pay_CreatedAt := zero_time\<rparr>"

definition pay_of :: "bill_db \<Rightarrow> string \<times> string \<rightharpoonup> Payment" where
  "pay_of s k = map_option pay_body (find (\<lambda>q. (pay_Provider q, pay_ProviderPaymentID q) = k) (bl_payments s))"

type_synonym books = "(int \<rightharpoonup> string) \<times> (int \<rightharpoonup> Subscription) \<times> (string \<times> string \<rightharpoonup> Payment)"

definition books_of :: "bill_db \<Rightarrow> books" where
  "books_of s = (plan_of s, sub_of s, pay_of s)"

text \<open>The specification: what one event does to the books of an org.\<close>

definition book_payment :: "Payment \<Rightarrow> (string \<times> string \<rightharpoonup> Payment) \<Rightarrow> string \<times> string \<rightharpoonup> Payment" where
  "book_payment p pays =
     (let k = (pay_Provider p, pay_ProviderPaymentID p)
      in case pays k of
           None \<Rightarrow> pays(k \<mapsto> p)
         | Some old \<Rightarrow> if pay_OrgID old = pay_OrgID p then pays(k \<mapsto> p) else pays)"

fun book :: "BillingEvent \<Rightarrow> books \<Rightarrow> books" where
  "book ev (plans, subs, pays) =
     (let orgID = be_OrgID ev
      in if plans orgID = None then (plans, subs, pays)
         else case be_Kind ev of
                EventKindSubscription \<Rightarrow>
                  (plans(orgID \<mapsto> Plan_string (event_plan ev)), subs(orgID \<mapsto> event_subscription orgID ev), pays)
              | EventKindPayment \<Rightarrow>
                  (case be_Payment ev of
                     None \<Rightarrow> (plans, subs, pays)
                   | Some p \<Rightarrow> (plans, subs, book_payment (event_payment orgID (be_Provider ev) p) pays))
              | EventKindUnknown \<Rightarrow> (plans, subs, pays))"

lemma book_payment_twice [simp]: "book_payment p (book_payment p pays) = book_payment p pays"
  by (auto simp: book_payment_def Let_def split: option.splits)

lemma book_twice [simp]: "book ev (book ev b) = book ev b"
  by (cases b) (auto simp: Let_def split: EventKind.splits option.splits)

section \<open>One transaction and the books\<close>

lemma books_rolled_back [simp]:
  "plan_of (bl_rolled_back s t) = plan_of s" "sub_of (bl_rolled_back s t) = sub_of s" "pay_of (bl_rolled_back s t) = pay_of s"
  "books_of (bl_rolled_back s t) = books_of s"
  by (simp_all add: books_of_def plan_of_def sub_of_def pay_of_def fun_eq_iff)

lemma books_of_payments [simp]:
  "plan_of (s\<lparr>bl_next_payment := n, bl_payments := ps\<rparr>) = plan_of s" "sub_of (s\<lparr>bl_next_payment := n, bl_payments := ps\<rparr>) = sub_of s"
  by (simp_all add: plan_of_def sub_of_def fun_eq_iff)

lemma plan_of_None: "plan_of s orgID = None \<longleftrightarrow> \<not> org_active (bl_tenant s) orgID"
  by (auto simp: plan_of_def org_active_def list_ex_iff find_None_iff)

lemma find_map_update:
  "(\<And>x. P (g x) = P x) \<Longrightarrow> find P (map (\<lambda>x. if Q x then g x else x) xs) = map_option (\<lambda>x. if Q x then g x else x) (find P xs)"
  by (induction xs) auto

lemma find_cong_P: "(\<And>x. P x = Q x) \<Longrightarrow> find P xs = find Q xs"
  by (metis ext)

lemma plan_of_set_plan:
  assumes "org_active (bl_tenant s) orgID"
  shows "plan_of (set_plan orgID plan s) = (plan_of s)(orgID \<mapsto> plan)"
proof
  fix i
  show "plan_of (set_plan orgID plan s) i = ((plan_of s)(orgID \<mapsto> plan)) i"
  proof (cases "i = orgID")
    case True
    obtain o' where "find (\<lambda>o'. org_ID o' = orgID \<and> org_DeletedAt o' = None) (tn_orgs (bl_tenant s)) = Some o'"
      using assms plan_of_None [of s orgID] by (fastforce simp: plan_of_def)
    with find_Some_set [OF this] True show ?thesis
      by (simp add: plan_of_def set_plan_def find_map_update)
  next
    case False
    have "(if org_ID o' = orgID \<and> org_DeletedAt o' = None then o'\<lparr>org_Plan := plan\<rparr> else o') = o'"
      if "find (\<lambda>o'. org_ID o' = i \<and> org_DeletedAt o' = None) (tn_orgs (bl_tenant s)) = Some o'" for o'
      using find_Some_set [OF that] False by auto
    then show ?thesis using False
      by (cases "find (\<lambda>o'. org_ID o' = i \<and> org_DeletedAt o' = None) (tn_orgs (bl_tenant s))")
        (auto simp: plan_of_def set_plan_def find_map_update)
  qed
qed

lemma list_ex_map_same: "(\<And>x. P (g x) = P x) \<Longrightarrow> list_ex P (map g xs) = list_ex P xs"
  by (induction xs) auto

lemma set_plan_sel [simp]:
  "bl_subs (set_plan i p s) = bl_subs s" "bl_payments (set_plan i p s) = bl_payments s" "bl_events (set_plan i p s) = bl_events s"
  "bl_prices (set_plan i p s) = bl_prices s" "org_active (bl_tenant (set_plan i p s)) j = org_active (bl_tenant s) j"
  by (simp_all add: set_plan_def org_active_def list_ex_map_same)

lemma sub_of_upsert:
  assumes "upsertSubscriptionTx now sub s = (Inr a, s')"
  shows "sub_of s' = (sub_of s)(sub_OrgID sub \<mapsto> sub_body sub) \<and> bl_tenant s' = bl_tenant s \<and> bl_payments s' = bl_payments s \<and> bl_events s' = bl_events s"
proof (cases "list_ex (of_org (sub_OrgID sub)) (bl_subs s)")
  case True
  let ?g = "\<lambda>r. if of_org (sub_OrgID sub) r then update_sub now sub r else r"
  have P: "of_org i (update_sub now sub r) = (i = sub_OrgID sub)" for i r
    by (auto simp: of_org_def update_sub_def)
  have look: "find (of_org i) (map ?g rs) = map_option ?g (find (of_org i) rs)" for i rs
    by (induction rs) (auto simp: P, auto simp: of_org_def)
  have s': "s' = s\<lparr>bl_next_sub := bl_next_sub s + 1, bl_subs := map ?g (bl_subs s)\<rparr>"
    using assms True by (simp add: upsertSubscriptionTx_def Let_def)
  have body: "sub_body (sr_Sub (update_sub now sub r)) = sub_body sub" for r by (simp add: update_sub_def sub_body_def)
  have "sub_of s' i = ((sub_of s)(sub_OrgID sub \<mapsto> sub_body sub)) i" for i
  proof (cases "find (of_org i) (bl_subs s)")
    case None
    then have "i \<noteq> sub_OrgID sub" using True by (auto simp: find_None_iff list_ex_iff)
    then show ?thesis using None by (simp add: sub_of_def s' look)
  next
    case (Some r)
    then have "of_org i r" using find_Some_set by metis
    then have "of_org (sub_OrgID sub) r = (i = sub_OrgID sub)" by (auto simp: of_org_def)
    then show ?thesis by (simp add: sub_of_def s' look Some body)
  qed
  then show ?thesis by (auto simp: s')
next
  case False
  then have "find (of_org (sub_OrgID sub)) (bl_subs s) = None" by (auto simp: find_None_iff list_ex_iff)
  moreover have "of_org i (insert_sub now n sub) = (i = sub_OrgID sub)" "sub_body (sr_Sub (insert_sub now n sub)) = sub_body sub" for i n
    by (auto simp: of_org_def insert_sub_def sub_body_def)
  ultimately show ?thesis using assms False
    by (auto simp: upsertSubscriptionTx_def Let_def sub_of_def fun_eq_iff find_append split: if_splits option.splits)
qed

lemma pay_of_apply:
  assumes "ApplyPaymentEvent NoFault now pay s = (r, s')" and "pay_body pay = pay"
  shows "plan_of s' = plan_of s \<and> sub_of s' = sub_of s
    \<and> pay_of s' = (if org_active (bl_tenant s) (pay_OrgID pay) then book_payment pay (pay_of s) else pay_of s)"
proof -
  let ?k = "(pay_Provider pay, pay_ProviderPaymentID pay)"
  let ?g = "\<lambda>q. if same_payment pay q then pay\<lparr>pay_ID := pay_ID q, pay_CreatedAt := pay_CreatedAt q\<rparr> else q"
  have key: "same_payment pay = (\<lambda>q. (pay_Provider q, pay_ProviderPaymentID q) = ?k)" by (auto simp: same_payment_def)
  have body: "pay_body (pay\<lparr>pay_ID := i, pay_CreatedAt := t\<rparr>) = pay" for i t using assms(2) by (simp add: pay_body_def)
  have look: "find (\<lambda>q. (pay_Provider q, pay_ProviderPaymentID q) = k) (map ?g ps)
      = map_option ?g (find (\<lambda>q. (pay_Provider q, pay_ProviderPaymentID q) = k) ps)" for k ps
    by (induction ps) (auto simp: same_payment_def)
  show ?thesis
  proof (cases "find (same_payment pay) (bl_payments s)")
    case None
    then have "pay_of s ?k = None" by (simp add: pay_of_def key)
    moreover have "pay_of (s\<lparr>bl_next_payment := n, bl_payments := bl_payments s @ [pay\<lparr>pay_ID := i, pay_CreatedAt := t\<rparr>]\<rparr>)
        = (pay_of s)(?k \<mapsto> pay)" for n i t
      using None body by (auto simp: pay_of_def key fun_eq_iff find_append split: option.split)
    ultimately show ?thesis using assms(1) None
      by (auto simp: ApplyPaymentEvent_def bl_run_def Let_def book_payment_def split: if_splits)
  next
    case (Some old)
    then have old: "pay_of s ?k = Some (pay_body old)" by (simp add: pay_of_def key)
    have upd: "pay_of (s\<lparr>bl_next_payment := n, bl_payments := map ?g (bl_payments s)\<rparr>) k = ((pay_of s)(?k \<mapsto> pay)) k" for n k
    proof (cases "find (\<lambda>q. (pay_Provider q, pay_ProviderPaymentID q) = k) (bl_payments s)")
      case (Some q)
      with find_Some_set [OF this] have "same_payment pay q = (k = ?k)" by (auto simp: key)
      then show ?thesis by (simp add: pay_of_def look Some body)
    next
      case none: None
      then have "k \<noteq> ?k" using Some by (auto simp: key)
      then show ?thesis using none by (simp add: pay_of_def look)
    qed
    have "pay_of (s\<lparr>bl_next_payment := n, bl_payments := map ?g (bl_payments s)\<rparr>) = (pay_of s)(?k \<mapsto> pay)" for n
      using upd by blast
    moreover have "pay_OrgID (pay_body old) = pay_OrgID old" by (simp add: pay_body_def)
    ultimately show ?thesis using assms(1) Some old
      by (auto simp: ApplyPaymentEvent_def bl_run_def Let_def book_payment_def split: if_splits)
  qed
qed

lemma event_bodies [simp]:
  "sub_body (event_subscription i ev) = event_subscription i ev" "pay_body (event_payment i p e) = event_payment i p e"
  "sub_OrgID (event_subscription i ev) = i" "sub_Plan (event_subscription i ev) = Plan_string (event_plan ev)"
  "pay_OrgID (event_payment i p e) = i"
  by (simp_all add: sub_body_def event_subscription_def pay_body_def event_payment_def)

text \<open>A fault in front of a transaction leaves the tables, one after it only hides the answer.\<close>

lemma bl_run_fault:
  "bl_run FaultBefore fn s = (Inl (BillStore ErrConn), s)"
  "snd (bl_run FaultAfterCommit fn s) = snd (bl_run NoFault fn s)"
  "fst (bl_run FaultAfterCommit fn s) = (case fst (bl_run NoFault fn s) of Inl e \<Rightarrow> Inl e | Inr _ \<Rightarrow> Inl (BillStore ErrConn))"
  by (auto simp: bl_run_def split: prod.split sum.split)

lemma apply_sub_books:
  assumes "ApplySubscriptionEvent NoFault now (event_subscription orgID ev) s = (r, s')" and "be_OrgID ev = orgID"
    and "be_Kind ev = EventKindSubscription" and "\<not> (\<exists>e. r = Inl (BillStore e))"
  shows "books_of s' = book ev (books_of s) \<and> bl_events s' = bl_events s"
proof -
  obtain x s1 where u: "upsertSubscriptionTx now (event_subscription orgID ev) s = (x, s1)" by fastforce
  show ?thesis
  proof (cases x)
    case (Inl e)
    then show ?thesis using assms u
      by (auto simp: ApplySubscriptionEvent_def bl_run_def upsertSubscriptionTx_def Let_def split: if_splits)
  next
    case (Inr a)
    note up = sub_of_upsert [OF u [unfolded Inr]]
    have plans: "plan_of s1 = plan_of s" "pay_of s1 = pay_of s" using up by (simp_all add: plan_of_def pay_of_def fun_eq_iff)
    show ?thesis
    proof (cases "org_active (bl_tenant s) orgID")
      case True
      have "sub_of (set_plan i p t) = sub_of t" "pay_of (set_plan i p t) = pay_of t" for i p t
        by (simp_all add: sub_of_def pay_of_def fun_eq_iff)
      then show ?thesis using assms u Inr up True plans plan_of_set_plan [of s1 orgID] plan_of_None [of s orgID]
        by (auto simp: ApplySubscriptionEvent_def bl_run_def books_of_def)
    next
      case False
      then show ?thesis using assms u Inr up plan_of_None [of s orgID]
        by (auto simp: ApplySubscriptionEvent_def bl_run_def books_of_def)
    qed
  qed
qed

definition booked :: "BillingEvent \<Rightarrow> bill_error + unit \<Rightarrow> bill_db \<Rightarrow> bill_db \<Rightarrow> bool" where
  "booked ev r s s' \<longleftrightarrow> bl_events s' = bl_events s \<and> (books_of s' = books_of s \<or> books_of s' = book ev (books_of s))
     \<and> (r = Inr () \<or> r = Inl ErrOrgNotFound \<longrightarrow> books_of s' = book ev (books_of s))"

lemma bl_run_failed: "bl_run NoFault fn s = (Inl e, s') \<Longrightarrow> books_of s' = books_of s \<and> bl_events s' = bl_events s"
  by (auto simp: bl_run_def split: prod.splits sum.splits)

text \<open>It is enough to look at a transaction without a fault.\<close>

lemma booked_any_fault:
  assumes "\<And>r s'. op NoFault s = (r, s') \<Longrightarrow> booked ev r s s'" and "op f s = (r, s')" and "\<exists>fn. \<forall>f. op f = bl_run f fn"
  shows "booked ev r s s'"
proof -
  obtain fn where fn: "op f = bl_run f fn" for f using assms(3) by blast
  show ?thesis
  proof (cases f)
    case FaultAfterCommit
    obtain r0 s0 where r0: "bl_run NoFault fn s = (r0, s0)" by fastforce
    then have "s' = s0" "r = (case r0 of Inl e \<Rightarrow> Inl e | Inr _ \<Rightarrow> Inl (BillStore ErrConn))"
      using assms(2) bl_run_fault(2,3) [of fn s] FaultAfterCommit by (auto simp: fn prod_eq_iff)
    then show ?thesis using assms(1) r0 by (auto simp: fn booked_def split: sum.splits)
  qed (use assms(1,2) in \<open>auto simp: fn bl_run_fault booked_def\<close>)
qed

lemma book_unknown: "be_Kind ev = EventKindUnknown \<Longrightarrow> book ev b = b"
  by (cases b) (simp add: Let_def)

lemma apply_kind_booked:
  assumes "apply_kind f now (be_OrgID ev) ev s = (r, s')"
  shows "booked ev r s s'"
proof (cases "be_Kind ev")
  case EventKindUnknown
  then show ?thesis using assms book_unknown by (simp add: apply_kind_def booked_def)
next
  case EventKindSubscription
  have no_fault: "booked ev x s t" if x: "ApplySubscriptionEvent NoFault now (event_subscription (be_OrgID ev) ev) s = (x, t)" for x t
  proof (cases "\<exists>e. x = Inl (BillStore e)")
    case True
    then show ?thesis using x bl_run_failed unfolding ApplySubscriptionEvent_def booked_def by fastforce
  next
    case False
    then show ?thesis using apply_sub_books [OF x refl EventKindSubscription] by (simp add: booked_def)
  qed
  from assms EventKindSubscription have done': "ApplySubscriptionEvent f now (event_subscription (be_OrgID ev) ev) s = (r, s')"
    by (simp add: apply_kind_def)
  have run: "\<exists>fn. \<forall>f. ApplySubscriptionEvent f now (event_subscription (be_OrgID ev) ev) = bl_run f fn"
    unfolding ApplySubscriptionEvent_def by blast
  show ?thesis
    by (rule booked_any_fault [where op = "\<lambda>f. ApplySubscriptionEvent f now (event_subscription (be_OrgID ev) ev)", OF no_fault done' run])
next
  case EventKindPayment
  show ?thesis
  proof (cases "be_Payment ev")
    case None
    then show ?thesis using assms EventKindPayment by (auto simp: apply_kind_def booked_def)
  next
    case (Some p)
    let ?pay = "event_payment (be_OrgID ev) (be_Provider ev) p"
    have no_fault: "booked ev x s t" if x: "ApplyPaymentEvent NoFault now ?pay s = (x, t)" for x t
    proof -
      have "bl_events t = bl_events s"
        using x by (auto simp: ApplyPaymentEvent_def bl_run_def Let_def split: if_splits option.splits)
      moreover have "books_of t = book ev (books_of s)"
        using pay_of_apply [OF x] plan_of_None [of s "be_OrgID ev"] Some EventKindPayment by (auto simp: books_of_def)
      ultimately show ?thesis by (simp add: booked_def)
    qed
    from assms EventKindPayment Some have done': "ApplyPaymentEvent f now ?pay s = (r, s')" by (simp add: apply_kind_def)
    have run: "\<exists>fn. \<forall>f. ApplyPaymentEvent f now ?pay = bl_run f fn" unfolding ApplyPaymentEvent_def by blast
    show ?thesis by (rule booked_any_fault [where op = "\<lambda>f. ApplyPaymentEvent f now ?pay", OF no_fault done' run])
  qed
qed

lemma act_booked:
  assumes "act pick f now ev s = (r, s')" and "be_OrgID ev \<noteq> 0"
  shows "booked ev r s s'"
proof (cases "be_Kind ev = EventKindUnknown")
  case True
  then show ?thesis using assms book_unknown by (simp add: act_def booked_def)
next
  case False
  then have "\<not> (be_Kind ev \<noteq> EventKindSubscription \<and> be_Kind ev \<noteq> EventKindPayment)" by (cases "be_Kind ev") simp_all
  then show ?thesis using assms apply_kind_booked unfolding act_def by metis
qed

section \<open>At least once is as good as once\<close>

definition processed :: "string \<Rightarrow> string \<Rightarrow> bill_db \<Rightarrow> bool" where
  "processed provider eventID s \<longleftrightarrow>
     (case find (event_key provider eventID) (bl_events s) of None \<Rightarrow> False | Some r \<Rightarrow> er_ProcessedAt r \<noteq> None)"

text \<open>What a delivery does to the inbox: it may add a row, and it may mark the row of its event.\<close>

lemma Record_books:
  assumes "RecordBillingEvent jsonb f now provider eventID typ body s = (r, s1)"
  shows "books_of s1 = books_of s \<and> (processed p i s1 \<longleftrightarrow> processed p i s)
    \<and> (r = Inr True \<longleftrightarrow> fst f = NoFault \<and> snd f = NoFault \<and> jsonb body \<and> processed provider eventID s)
    \<and> (r = Inr False \<longrightarrow> \<not> processed provider eventID s)"
proof -
  obtain x s0 where x: "bl_run (fst f) (insert_event jsonb now provider eventID typ body) s = (x, s0)" by fastforce
  have same: "bl_tenant s0 = bl_tenant s" "bl_subs s0 = bl_subs s" "bl_payments s0 = bl_payments s" "s1 = s0"
    using x assms by (auto simp: RecordBillingEvent_def bl_run_def insert_event_def Let_def bl_read_def
        split: if_splits sum.splits)
  have "books_of s0 = books_of s" using same by (simp add: books_of_def plan_of_def sub_of_def pay_of_def fun_eq_iff)
  have found: "find (event_key p i) (bl_events s0) = find (event_key p i) (bl_events s)
      \<or> (\<exists>e. find (event_key p i) (bl_events s) = None \<and> find (event_key p i) (bl_events s0) = Some e \<and> er_ProcessedAt e = None)" for p i
    using x by (auto simp: bl_run_def insert_event_def Let_def find_append split: if_splits option.splits)
  have keep: "processed p i s0 \<longleftrightarrow> processed p i s" for p i using found [of p i] by (auto simp: processed_def split: option.split)
  have "r = Inr True \<longrightarrow> processed provider eventID s0" "r = Inr False \<longrightarrow> \<not> processed provider eventID s0"
    using assms x by (auto simp: RecordBillingEvent_def processed_def bl_read_def found_def split: if_splits sum.splits option.splits)
  moreover have "r = Inr True \<longrightarrow> fst f = NoFault \<and> snd f = NoFault \<and> jsonb body"
    using assms by (cases "fst f") (auto simp: RecordBillingEvent_def bl_run_def insert_event_def Let_def bl_read_def
        split: if_splits sum.splits)
  moreover have "processed provider eventID s0 \<and> fst f = NoFault \<and> snd f = NoFault \<and> jsonb body \<longrightarrow> r = Inr True"
    using assms x by (auto simp: RecordBillingEvent_def processed_def bl_read_def found_def bl_run_def insert_event_def Let_def
        split: if_splits sum.splits option.splits)
  ultimately show ?thesis using keep same(4) \<open>books_of s0 = books_of s\<close> by blast
qed

lemma Mark_books:
  assumes "MarkBillingEventProcessed f now provider eventID s = (r, s1)"
  shows "books_of s1 = books_of s \<and> (processed p i s \<longrightarrow> processed p i s1)
    \<and> (processed provider eventID s1 \<and> \<not> processed provider eventID s \<longrightarrow> f \<noteq> FaultBefore)
    \<and> (f = NoFault \<longrightarrow> list_ex (event_key provider eventID) (bl_events s) \<longrightarrow> processed provider eventID s1)"
proof -
  let ?g = "\<lambda>r. if event_key provider eventID r then r\<lparr>er_ProcessedAt := Some now\<rparr> else r"
  have look: "find (event_key p i) (map ?g es) = map_option ?g (find (event_key p i) es)" for p i es
    by (induction es) (auto simp: event_key_def)
  define t where "t = s\<lparr>bl_events := map ?g (bl_events s)\<rparr>"
  have "s1 = (if f = FaultBefore then s else t)" unfolding t_def
    using assms by (auto simp: MarkBillingEventProcessed_def bl_run_def split: if_splits)
  moreover have "list_ex (event_key provider eventID) (bl_events s) \<longrightarrow> processed provider eventID t" unfolding t_def
    by (cases "find (event_key provider eventID) (bl_events s)") (auto simp: processed_def look find_None_iff list_ex_iff dest: find_Some_set)
  moreover have "processed p i s \<longrightarrow> processed p i t" unfolding t_def
    by (auto simp: processed_def look split: option.splits)
  moreover have "books_of t = books_of s"
    by (simp add: t_def books_of_def plan_of_def sub_of_def pay_of_def fun_eq_iff)
  ultimately show ?thesis by (cases "f = FaultBefore") simp_all
qed

lemma Record_row: "RecordBillingEvent jsonb f now provider eventID typ body s = (Inr b, s1) \<Longrightarrow> list_ex (event_key provider eventID) (bl_events s1)"
  by (auto simp: RecordBillingEvent_def bl_read_def found_def list_ex_iff split: if_splits sum.splits option.splits prod.splits
      dest!: find_Some_set)

text \<open>One delivery of an event that names its org.\<close>

lemma ingest_step:
  assumes "ingest jsonb pick f now ev body s = (code, s')" and "be_OrgID ev \<noteq> 0"
    and "processed (be_Provider ev) (be_ID ev) s \<longrightarrow> books_of s = book ev b" and "books_of s = b \<or> books_of s = book ev b"
  shows "(processed (be_Provider ev) (be_ID ev) s' \<longrightarrow> books_of s' = book ev b) \<and> (books_of s' = b \<or> books_of s' = book ev b)
    \<and> (code = 200 \<longrightarrow> books_of s' = book ev b)"
proof -
  obtain r s1 where rec: "RecordBillingEvent jsonb (f 0, f 1) now (be_Provider ev) (be_ID ev) (be_Type ev) body s = (r, s1)" by fastforce
  note r = Record_books [OF rec]
  obtain a s2 where a: "act pick (f 2, f 3) now ev s1 = (a, s2)" by fastforce
  obtain m s3 where m: "MarkBillingEventProcessed (f 4) now (be_Provider ev) (be_ID ev) s2 = (m, s3)" by fastforce
  have done': "booked ev a s1 s2" using act_booked [OF a assms(2)] .
  then have same: "processed p i s2 = processed p i s1" for p i by (simp add: booked_def processed_def)
  show ?thesis
  proof (cases "r = Inr False")
    case False
    then have "s' = s1" "code = 200 \<longrightarrow> r = Inr True" using assms(1) rec by (auto simp: ingest_def split: sum.splits bool.splits)
    then show ?thesis using r assms(3,4) by auto
  next
    case True
    have books: "books_of s2 = b \<or> books_of s2 = book ev b" "a = Inr () \<or> a = Inl ErrOrgNotFound \<longrightarrow> books_of s2 = book ev b"
      using done' r assms(4) by (auto simp: booked_def)
    have "\<not> processed (be_Provider ev) (be_ID ev) s2" using r True same by simp
    with books Mark_books [OF m] assms(1) rec True a m show ?thesis
      by (auto simp: ingest_def split: sum.splits if_splits)
  qed
qed

text \<open>
  C15. The webhook is delivered at least once and every step of a delivery can fail: however many
  attempts an event takes, and wherever they fail, once one of them is answered with 200 the plan of the org, its
  subscription and the payments are those of the specification after one event.
\<close>

theorem billing_exactly_once:
  fixes attempts :: "((int list \<Rightarrow> int) \<times> (nat \<Rightarrow> fault) \<times> time) list"
  assumes d: "dl_provider d = bp_Name p" "dl_body d = Some body" "bp_VerifyWebhook p body (dl_sig d) = Inr ev"
    and ev: "be_ID ev \<noteq> ''''" "be_OrgID ev \<noteq> 0" and new: "\<not> processed (be_Provider ev) (be_ID ev) s"
    and s1: "s1 = fold (\<lambda>(pick, f, now) s. snd (ServeHTTP p jsonb pick f now d s)) attempts s"
    and last: "ServeHTTP p jsonb pick f now d s1 = (200, s2)"
  shows "books_of s2 = book ev (books_of s)"
proof -
  have serve: "ServeHTTP p jsonb pick f now d s = ingest jsonb pick f now ev body s" for pick f now s
    using d ev by (simp add: ServeHTTP_def)
  let ?ok = "\<lambda>t. (processed (be_Provider ev) (be_ID ev) t \<longrightarrow> books_of t = book ev (books_of s))
      \<and> (books_of t = books_of s \<or> books_of t = book ev (books_of s))"
  have "?ok (fold (\<lambda>(pick, f, now) s. snd (ingest jsonb pick f now ev body s)) attempts t)" if "?ok t" for t
    using that
  proof (induction attempts arbitrary: t)
    case (Cons x xs)
    obtain pick f now where x: "x = (pick, f, now)" by (cases x)
    obtain c t1 where c: "ingest jsonb pick f now ev body t = (c, t1)" by fastforce
    have "?ok t1" using ingest_step [OF c ev(2)] Cons.prems by blast
    from Cons.IH [OF this] show ?case by (simp add: x c)
  qed simp
  from this [of s] have "?ok s1" using new by (simp add: s1 serve)
  then show ?thesis using ingest_step [OF last [unfolded serve] ev(2)] by blast
qed

section \<open>A processed event has no further effect\<close>

interpretation ev_tbl: bill_effect "\<lambda>s s'. bl_events s' = bl_events s"
  by unfold_locales simp_all

lemma act_events: "bl_events (snd (act pick f now ev s)) = bl_events s"
proof -
  have sub: "bl_events (snd (ApplySubscriptionEvent f now sub s)) = bl_events s" for f sub
    unfolding ApplySubscriptionEvent_def
    by (rule ev_tbl.run) (auto simp: upsertSubscriptionTx_def Let_def split: if_splits sum.splits)
  have pay: "bl_events (snd (ApplyPaymentEvent f now q s)) = bl_events s" for f q
    unfolding ApplyPaymentEvent_def by (rule ev_tbl.run) (auto simp: Let_def split: if_splits option.splits)
  have "bl_events (snd (apply_kind f now i ev s)) = bl_events s" for f i
    using sub pay by (simp add: apply_kind_def split: EventKind.split option.split)
  then show ?thesis by (simp add: act_def split: sum.split)
qed

lemma ingest_processed:
  assumes "ingest jsonb pick f now ev body s = (code, s')"
  shows "(processed p i s \<longrightarrow> processed p i s') \<and> (code = 200 \<and> f 4 = NoFault \<longrightarrow> processed (be_Provider ev) (be_ID ev) s')"
proof -
  obtain r s1 where rec: "RecordBillingEvent jsonb (f 0, f 1) now (be_Provider ev) (be_ID ev) (be_Type ev) body s = (r, s1)" by fastforce
  note r = Record_books [OF rec]
  obtain a s2 where a: "act pick (f 2, f 3) now ev s1 = (a, s2)" by fastforce
  obtain m s3 where m: "MarkBillingEventProcessed (f 4) now (be_Provider ev) (be_ID ev) s2 = (m, s3)" by fastforce
  have events: "bl_events s2 = bl_events s1" using act_events [of pick "(f 2, f 3)" now ev s1] a by simp
  then have same: "processed p i s2 = processed p i s1" for p i by (simp add: processed_def)
  show ?thesis
  proof (cases "r = Inr False")
    case False
    then have "s' = s1" "code = 200 \<longrightarrow> r = Inr True" using assms rec by (auto simp: ingest_def split: sum.splits bool.splits)
    then show ?thesis using r by auto
  next
    case True
    then have row: "list_ex (event_key (be_Provider ev) (be_ID ev)) (bl_events s2)" using Record_row [of jsonb] rec events by metis
    have "s' = s3 \<or> (s' = s2 \<and> code = 500)" using assms rec True a m by (auto simp: ingest_def split: sum.splits if_splits)
    then show ?thesis using Mark_books [OF m] row same r by auto
  qed
qed

lemma ingest_keeps: "processed p i s \<Longrightarrow> processed p i (snd (ingest jsonb pick f now ev body s))"
  using ingest_processed by (metis prod.collapse)

lemma ingest_inert:
  assumes "processed (be_Provider ev) (be_ID ev) s"
  shows "let s' = snd (ingest jsonb pick f now ev body s)
    in bl_tenant s' = bl_tenant s \<and> bl_subs s' = bl_subs s \<and> bl_payments s' = bl_payments s \<and> bl_events s' = bl_events s"
proof -
  obtain r s1 where rec: "RecordBillingEvent jsonb (f 0, f 1) now (be_Provider ev) (be_ID ev) (be_Type ev) body s = (r, s1)" by fastforce
  have "list_ex (event_key (be_Provider ev) (be_ID ev)) (bl_events s)"
    using assms by (auto simp: processed_def list_ex_iff split: option.splits dest: find_Some_set)
  then have "bl_tenant s1 = bl_tenant s \<and> bl_subs s1 = bl_subs s \<and> bl_payments s1 = bl_payments s \<and> bl_events s1 = bl_events s"
    using rec by (auto simp: RecordBillingEvent_def bl_run_def insert_event_def Let_def bl_read_def split: if_splits sum.splits)
  moreover have "r \<noteq> Inr False" using Record_books [OF rec] assms by blast
  then have "snd (ingest jsonb pick f now ev body s) = s1" using rec by (auto simp: ingest_def split: sum.split bool.split)
  ultimately show ?thesis by (simp add: Let_def)
qed

text \<open>
  Once an event was answered with 200 and its mark was written, no later delivery of an event with the same id
  changes any table, whatever deliveries of other events come between and whatever fails.
\<close>

theorem processed_event_inert:
  assumes "ServeHTTP p jsonb pick f now d s = (200, s1)" and "dl_body d = Some body" and "bp_VerifyWebhook p body (dl_sig d) = Inr ev"
    and "dl_provider d = bp_Name p" and "be_ID ev \<noteq> ''''" and "f 4 = NoFault"
    and s2: "s2 = fold (\<lambda>(pick, f, now, d) s. snd (ServeHTTP p jsonb pick f now d s)) others s1"
    and again: "dl_body d' = Some body'" "bp_VerifyWebhook p body' (dl_sig d') = Inr ev'" "be_Provider ev' = be_Provider ev" "be_ID ev' = be_ID ev"
    and s3: "s3 = snd (ServeHTTP p jsonb pick' f' now' d' s2)"
  shows "bl_tenant s3 = bl_tenant s2 \<and> bl_subs s3 = bl_subs s2 \<and> bl_payments s3 = bl_payments s2 \<and> bl_events s3 = bl_events s2"
proof -
  let ?done = "processed (be_Provider ev) (be_ID ev)"
  have "?done s1" using assms(1-6) ingest_processed [of jsonb pick f now ev body s 200 s1] by (simp add: ServeHTTP_def)
  moreover have step: "?done t \<Longrightarrow> ?done (snd (ServeHTTP p jsonb pick f now d t))" for pick f now d t
    using ingest_keeps by (simp add: ServeHTTP_def split: option.split sum.split webhook_error.split)
  have "?done t \<Longrightarrow> ?done (fold (\<lambda>(pick, f, now, d) s. snd (ServeHTTP p jsonb pick f now d s)) others t)" for t
    by (induction others arbitrary: t) (auto intro: step)
  ultimately have "?done s2" by (simp add: s2)
  then show ?thesis using ingest_inert [of ev' s2 jsonb pick' f' now' body'] again
    by (auto simp: s3 ServeHTTP_def Let_def)
qed

section \<open>What was bought is what is granted\<close>

lemma set_AList_update: "set (AList.update k v xs) \<subseteq> insert (k, v) (set xs)"
  by (induction xs) auto

lemma price_loop_rows:
  "price_loop rows wt nt = (wt', nt') \<Longrightarrow> (k, i) \<in> set wt' \<union> set nt' \<Longrightarrow>
   (k, i) \<in> set wt \<union> set nt \<or> (\<exists>r \<in> set rows. k = price_key (pp_Plan r) (pp_Cycle r) \<and> i = pp_ProviderPriceID r)"
proof (induction rows wt nt rule: price_loop.induct)
  case (2 r rs wt nt)
  then show ?case using set_AList_update by (cases "pp_HasTrial r") fastforce+
qed simp

lemma key_parts_key: "CHR '':'' \<notin> set plan \<Longrightarrow> key_parts (price_key plan cycle) = \<lparr>pcy_plan = plan, pcy_cycle = cycle\<rparr>"
  by (simp add: key_parts_def price_key_def Cut_def takeWhile_tail dropWhile_append takeWhile_eq_all_conv [THEN iffD2])

lemma by_price_entry:
  assumes "(k, i) \<in> set (order prices @ order noTrial)" and "\<forall>(k', i') \<in> set (order prices @ order noTrial). i' = i \<longrightarrow> key_parts k' = pc"
  shows "by_price order prices noTrial i = Some pc"
proof -
  have "fold (\<lambda>(key, i) m. m(i \<mapsto> key_parts key)) xs m i = (if i \<in> snd ` set xs then Some pc else m i)"
    if "\<forall>(k', i') \<in> set xs. i' = i \<longrightarrow> key_parts k' = pc" for xs and m :: "string \<rightharpoonup> planCycle"
    using that by (induction xs arbitrary: m) auto
  from this [OF assms(2)] show ?thesis using assms(1) by (force simp: by_price_def)
qed

lemma priceFor_entry: "priceFor prices noTrial plan cycle withTrial = Some i \<Longrightarrow> (price_key plan cycle, i) \<in> set prices \<union> set noTrial"
  by (auto simp: priceFor_def Let_def split: if_splits option.splits dest: map_of_SomeD)

lemma bought_price:
  assumes "PriceMaps rows = (prices, noTrial)" and "\<forall>m. set (order m) = set m"
    and "\<forall>r \<in> set rows. CHR '':'' \<notin> set (pp_Plan r)"
    and "\<forall>r \<in> set rows. \<forall>r' \<in> set rows. pp_ProviderPriceID r = pp_ProviderPriceID r' \<longrightarrow> pp_Plan r = pp_Plan r' \<and> pp_Cycle r = pp_Cycle r'"
    and "priceFor prices noTrial plan cycle withTrial = Some i" and "CHR '':'' \<notin> set plan"
  shows "by_price order prices noTrial i = Some \<lparr>pcy_plan = plan, pcy_cycle = cycle\<rparr>"
proof (rule by_price_entry)
  have rows: "\<exists>r \<in> set rows. k = price_key (pp_Plan r) (pp_Cycle r) \<and> j = pp_ProviderPriceID r"
    if "(k, j) \<in> set prices \<union> set noTrial" for k j
    using price_loop_rows [OF assms(1) [unfolded PriceMaps_def] that] by auto
  note mine = priceFor_entry [OF assms(5)]
  show "(price_key plan cycle, i) \<in> set (order prices @ order noTrial)" using mine assms(2) by simp
  obtain r where r: "r \<in> set rows" "price_key plan cycle = price_key (pp_Plan r) (pp_Cycle r)" "i = pp_ProviderPriceID r"
    using rows [OF mine] by blast
  have "\<lparr>pcy_plan = plan, pcy_cycle = cycle\<rparr> = \<lparr>pcy_plan = pp_Plan r, pcy_cycle = pp_Cycle r\<rparr>"
    using key_parts_key [OF assms(6), of cycle] key_parts_key [of "pp_Plan r" "pp_Cycle r"] r assms(3) by metis
  moreover have "key_parts k = \<lparr>pcy_plan = pp_Plan r, pcy_cycle = pp_Cycle r\<rparr>" if "(k, i) \<in> set prices \<union> set noTrial" for k
    using rows [OF that] r assms(3,4) key_parts_key by metis
  ultimately show "\<forall>(k', i') \<in> set (order prices @ order noTrial). i' = i \<longrightarrow> key_parts k' = \<lparr>pcy_plan = plan, pcy_cycle = cycle\<rparr>"
    using assms(2) by auto
qed

text \<open>A delivery without faults is answered.\<close>

lemma clean_delivery:
  assumes "be_Kind ev = EventKindSubscription" and "be_OrgID ev \<noteq> 0" and "org_active (bl_tenant s) (be_OrgID ev)" and "jsonb body"
    and "\<not> processed (be_Provider ev) (be_ID ev) s"
  shows "\<exists>s'. ingest jsonb pick (\<lambda>_. NoFault) now ev body s = (200, s')"
proof -
  obtain r s1 where rec: "RecordBillingEvent jsonb (NoFault, NoFault) now (be_Provider ev) (be_ID ev) (be_Type ev) body s = (r, s1)"
    by fastforce
  have "r = Inr False" and same: "bl_tenant s1 = bl_tenant s"
    using rec assms(4,5) by (auto simp: RecordBillingEvent_def bl_run_def insert_event_def Let_def bl_read_def found_def processed_def
        find_append event_key_def list_ex_iff find_None_iff split: if_splits sum.splits option.splits)
  moreover have "be_OrgID ev \<in> org_ID ` set (tn_orgs (bl_tenant s1))" "org_active (bl_tenant s1) (be_OrgID ev)"
    using assms(3) same by (auto simp: org_active_def list_ex_iff intro: rev_image_eqI)
  then have "\<exists>s2. act pick (NoFault, NoFault) now ev s1 = (Inr (), s2)"
    using assms(1,2) by (auto simp: act_def apply_kind_def ApplySubscriptionEvent_def bl_run_def upsertSubscriptionTx_def Let_def)
  ultimately show ?thesis using rec by (auto simp: ingest_def MarkBillingEventProcessed_def bl_run_def)
qed

text \<open>
  C26. From the checkout to the plan: the page a customer is sent to sells the price of the plan and cycle that were
  asked for, with or without a trial; and when Paddle reports a subscription to that price with the custom data of that page,
  the org gets exactly this plan and cycle, provided that no two plans of the catalog share a price.
\<close>

theorem checkout_end_to_end:
  assumes "PriceMaps rows = (prices, noTrial)" and "\<forall>m. set (order m) = set m"
    and "\<forall>r \<in> set rows. CHR '':'' \<notin> set (pp_Plan r)"
    and "\<forall>r \<in> set rows. \<forall>r' \<in> set rows. pp_ProviderPriceID r = pp_ProviderPriceID r' \<longrightarrow> pp_Plan r = pp_Plan r' \<and> pp_Cycle r = pp_Cycle r'"
    and p: "p = paddle_New sdk codec order prices noTrial" and checkout: "bp_Checkout p orgID plan cycle withTrial = Inr url"
    and plan: "plan = ''tier2'' \<or> plan = ''tier3''" and org: "0 < orgID" "orgID < 2 ^ 63"
  shows "\<exists>priceID custom. sdk_CreateTransaction sdk priceID custom = Some (Some url)
    \<and> (\<forall>d body env x items s now pick jsonb.
         dl_provider d = ''paddle'' \<and> dl_body d = Some body \<and> sdk_Verify sdk body (dl_sig d) \<and> jsonb body
         \<and> pco_envelope codec body = Some env \<and> pe_EventID env \<noteq> '''' \<and> pe_EventType env \<in> set subscriptionEvents
         \<and> pco_subscription codec (pe_Data env) = Some x \<and> ps_Items x = priceID # items \<and> ps_CustomOrg x = Some (CvString custom)
         \<and> ps_Status x \<noteq> ''canceled'' \<and> org_active (bl_tenant s) orgID \<and> \<not> processed ''paddle'' (pe_EventID env) s
         \<longrightarrow> (\<exists>s' sub. ServeHTTP p jsonb pick (\<lambda>_. NoFault) now d s = (200, s') \<and> plan_of s' orgID = Some plan
               \<and> sub_of s' orgID = Some sub \<and> sub_Plan sub = plan \<and> sub_BillingCycle sub = cycle \<and> sub_Status sub = ps_Status x))"
proof -
  obtain i where i: "priceFor prices noTrial plan cycle withTrial = Some i" "sdk_CreateTransaction sdk i (Itoa orgID) = Some (Some url)"
    using checkout by (auto simp: p paddle_New_def paddle_Checkout_def split: option.splits if_splits)
  have "CHR '':'' \<notin> set plan" using plan by auto
  note mine = bought_price [OF assms(1-4) i(1) this]
  have custom: "orgIDFromCustomData (Some (CvString (Itoa orgID))) = orgID"
    using ParseInt_value_Atoi [OF Atoi_Itoa] org by (simp add: orgIDFromCustomData_def)
  have "\<exists>s' sub. ServeHTTP p jsonb pick (\<lambda>_. NoFault) now d s = (200, s') \<and> plan_of s' orgID = Some plan
      \<and> sub_of s' orgID = Some sub \<and> sub_Plan sub = plan \<and> sub_BillingCycle sub = cycle \<and> sub_Status sub = ps_Status x"
    if d: "dl_provider d = ''paddle''" "dl_body d = Some body" "sdk_Verify sdk body (dl_sig d)" and "jsonb body"
      and env: "pco_envelope codec body = Some env" "pe_EventID env \<noteq> ''''" "pe_EventType env \<in> set subscriptionEvents"
      and x: "pco_subscription codec (pe_Data env) = Some x" "ps_Items x = i # items" "ps_CustomOrg x = Some (CvString (Itoa orgID))"
        "ps_Status x \<noteq> ''canceled''"
      and s: "org_active (bl_tenant s) orgID" "\<not> processed ''paddle'' (pe_EventID env) s"
    for d body env x items s now pick jsonb
  proof -
    define ev where "ev = mapSubscription (by_price order prices noTrial) (Some x)
      ((blank_event (pe_EventID env) (pe_EventType env) ''paddle'')\<lparr>be_Kind := EventKindSubscription\<rparr>)"
    have ev: "be_OrgID ev = orgID" "be_Plan ev = plan" "be_Cycle ev = cycle" "be_Status ev = ps_Status x"
        "be_Kind ev = EventKindSubscription" "be_ID ev = pe_EventID env" "be_Provider ev = ''paddle''"
      by (simp_all add: ev_def mapSubscription_def blank_event_def Let_def x custom mine split: option.split)
    have verify: "dl_provider d = bp_Name p" "bp_VerifyWebhook p body (dl_sig d) = Inr ev"
      using d env x by (simp_all add: p paddle_New_def paddle_VerifyWebhook_def ev_def Let_def)
    obtain s' where s': "ingest jsonb pick (\<lambda>_. NoFault) now ev body s = (200, s')"
      using clean_delivery [of ev s jsonb body pick now] ev org s \<open>jsonb body\<close> by auto
    then have done': "ServeHTTP p jsonb pick (\<lambda>_. NoFault) now d s = (200, s')"
      using verify d(2) env(2) ev by (simp add: ServeHTTP_def)
    have "books_of s' = book ev (books_of s)"
      using ingest_step [OF s', of "books_of s"] ev org s(2) by simp
    moreover have "plan_of s orgID \<noteq> None" using s(1) by (simp add: plan_of_None)
    ultimately have "plan_of s' orgID = Some (Plan_string (event_plan ev))" "sub_of s' orgID = Some (event_subscription orgID ev)"
      by (simp_all add: books_of_def ev Let_def)
    moreover have "Plan_string (event_plan ev) = plan" using plan x(4) by (auto simp: event_plan_def ev ParsePlan_def Plan_of_def)
    ultimately show ?thesis using done' ev by (auto simp: event_subscription_def)
  qed
  note granted = this
  show ?thesis
    by (intro exI [of _ i] exI [of _ "Itoa orgID"] conjI allI impI i(2)) (elim conjE, rule granted, assumption+)
qed

text \<open>
  A subscription to a price that is not in the catalog, such as one negotiated for a single org, is read as the free plan.
\<close>

lemma unmapped_price_drops_to_free:
  assumes "byPrice i = None" and "ps_Items x = i # items"
  shows "event_plan (mapSubscription byPrice (Some x) (blank_event e t provider)) = PlanTier1"
  using assms by (simp add: mapSubscription_def Let_def event_plan_def blank_event_def ParsePlan_def Plan_of_def split: option.split)

text \<open>
  An event for an org that is not in the table at all runs into the foreign key before the check for a missing
  org, so that it is answered with 500 at every delivery.
\<close>

lemma missing_org_never_acked:
  assumes "be_Kind ev = EventKindSubscription" and "be_OrgID ev \<noteq> 0" and "be_OrgID ev \<notin> org_ID ` set (tn_orgs (bl_tenant s))"
    and "\<not> list_ex (of_org (be_OrgID ev)) (bl_subs s)" and "\<not> processed (be_Provider ev) (be_ID ev) s"
  shows "fst (ingest jsonb pick f now ev body s) = 500"
proof -
  obtain r s1 where rec: "RecordBillingEvent jsonb (f 0, f 1) now (be_Provider ev) (be_ID ev) (be_Type ev) body s = (r, s1)" by fastforce
  have same: "bl_tenant s1 = bl_tenant s" "bl_subs s1 = bl_subs s"
    using rec by (auto simp: RecordBillingEvent_def bl_run_def insert_event_def Let_def bl_read_def split: if_splits sum.splits)
  have "\<exists>e s2. act pick (f 2, f 3) now ev s1 = (Inl (BillStore e), s2)"
    using assms(1-4) same by (cases "f 3") (simp_all add: act_def apply_kind_def ApplySubscriptionEvent_def bl_run_def upsertSubscriptionTx_def Let_def)
  moreover have "r \<noteq> Inr True" using Record_books [OF rec] assms(5) by blast
  ultimately show ?thesis using rec by (auto simp: ingest_def split: sum.split bool.split)
qed

text \<open>Events carry no order: an older event that is delivered last decides the books of its org.\<close>

lemma stale_event_wins:
  assumes "be_Kind old = EventKindSubscription" and "be_Kind new = EventKindSubscription" and "be_OrgID old = be_OrgID new"
  shows "book old (book new b) = book old b"
  using assms by (cases b) (auto simp: Let_def)

section \<open>Witnesses\<close>

text \<open>Ann's org buys the second tier through the stub.\<close>

definition ex_envelope :: stubEnvelope where
  "ex_envelope = \<lparr>se_ID = ''e1'', se_Type = ''subscription.created'', se_OrgID = 1, se_CustomerID = ''c1'', se_SubscriptionID = ''s1'',
     se_PriceID = ''p1'', se_Plan = ''tier2'', se_Cycle = ''monthly'', se_Status = ''active'', se_CurrentPeriodEnd = None,
     se_CancelAtPeriodEnd = False, se_Payment = None\<rparr>"

definition ex_hmac :: "string \<Rightarrow> string \<Rightarrow> string" where "ex_hmac key msg = key @ take 3 msg"

definition ex_stub :: BillingProvider where
  "ex_stub = NewStub ex_hmac (\<lambda>b. if b = ''{}'' then Some ex_envelope else None) ''s''"

definition ex_delivery :: delivery where
  "ex_delivery = \<lparr>dl_provider = ''stub'', dl_body = Some ''{}'', dl_sig = SignStubWebhook ex_hmac ''s'' ''170'' ''{}''\<rparr>"

definition ex_bill :: bill_db where
  "ex_bill = \<lparr>bl_tenant = ex_tenant, bl_subs = [], bl_payments = [], bl_events = [], bl_prices = [], bl_next_sub = 1,
     bl_next_payment = 1, bl_next_event = 1, bl_next_price = 1\<rparr>"

text \<open>The first attempt loses the answer of its transaction, the second succeeds.\<close>

definition ex_lossy :: "nat \<Rightarrow> fault" where "ex_lossy n = (if n = 3 then FaultAfterCommit else NoFault)"

definition ex_once :: bill_db where
  "ex_once = snd (ServeHTTP ex_stub (\<lambda>_. True) hd ex_lossy 10 ex_delivery ex_bill)"

definition ex_twice :: "int \<times> bill_db" where
  "ex_twice = ServeHTTP ex_stub (\<lambda>_. True) hd (\<lambda>_. NoFault) 20 ex_delivery ex_once"

lemma ex_delivery_ok:
  "dl_provider ex_delivery = bp_Name ex_stub" "dl_body ex_delivery = Some ''{}''"
  "bp_VerifyWebhook ex_stub ''{}'' (dl_sig ex_delivery) = Inr (stub_event ex_envelope)"
  "be_ID (stub_event ex_envelope) = ''e1''" "be_OrgID (stub_event ex_envelope) = 1" "be_Provider (stub_event ex_envelope) = ''stub''"
  by code_simp+

lemma ex_twice_ok: "ex_twice = (200, snd ex_twice)"
proof -
  have "fst ex_twice = 200" by code_simp
  then show ?thesis by (simp add: prod_eq_iff)
qed

theorem billing_exactly_once_witness:
  "fst (ServeHTTP ex_stub (\<lambda>_. True) hd ex_lossy 10 ex_delivery ex_bill) = 500 \<and> plan_of (snd ex_twice) 1 = Some ''tier2''
   \<and> books_of (snd ex_twice) = book (stub_event ex_envelope) (books_of ex_bill)"
proof -
  have new: "\<not> processed (be_Provider (stub_event ex_envelope)) (be_ID (stub_event ex_envelope)) ex_bill" by code_simp
  have first: "ex_once = fold (\<lambda>(pick, f, now) s. snd (ServeHTTP ex_stub (\<lambda>_. True) pick f now ex_delivery s)) [(hd, ex_lossy, 10)] ex_bill"
    by (simp add: ex_once_def)
  have second: "ServeHTTP ex_stub (\<lambda>_. True) hd (\<lambda>_. NoFault) 20 ex_delivery ex_once = (200, snd ex_twice)"
    using ex_twice_ok by (simp add: ex_twice_def)
  have "books_of (snd ex_twice) = book (stub_event ex_envelope) (books_of ex_bill)"
    using billing_exactly_once [OF ex_delivery_ok(1-3) _ _ new first second] by (simp add: ex_delivery_ok)
  moreover have "fst (ServeHTTP ex_stub (\<lambda>_. True) hd ex_lossy 10 ex_delivery ex_bill) = 500" by code_simp
  moreover have "plan_of (snd ex_twice) 1 = Some ''tier2''" by code_simp
  ultimately show ?thesis by simp
qed

theorem processed_event_inert_witness:
  "fst ex_twice = 200 \<and> bl_subs (snd (ServeHTTP ex_stub (\<lambda>_. True) hd (\<lambda>_. NoFault) 30 ex_delivery (snd ex_twice))) = bl_subs (snd ex_twice)"
proof -
  have one: "ServeHTTP ex_stub (\<lambda>_. True) hd (\<lambda>_. NoFault) 20 ex_delivery ex_once = (200, snd ex_twice)"
    using ex_twice_ok by (simp add: ex_twice_def)
  have none: "snd ex_twice = fold (\<lambda>(pick, f, now, d) s. snd (ServeHTTP ex_stub (\<lambda>_. True) pick f now d s)) [] (snd ex_twice)" by simp
  have id1: "be_ID (stub_event ex_envelope) \<noteq> ''''" by (simp add: ex_delivery_ok)
  have "fst ex_twice = 200" by code_simp
  then show ?thesis
    using processed_event_inert [OF one ex_delivery_ok(2,3,1) id1 refl none ex_delivery_ok(2,3) refl refl refl] by simp
qed

text \<open>The catalog has one price, and Paddle reports a subscription to it.\<close>

definition ex_row :: PlanPrice where
  "ex_row = \<lparr>pp_ID = 1, pp_Provider = ''paddle'', pp_Plan = ''tier3'', pp_Cycle = ''annual'', pp_ProviderPriceID = ''pri_1'', pp_HasTrial = True,
     pp_TrialDays = 14, pp_CustomData = ''{}'', pp_CreatedAt = 0, pp_UpdatedAt = 0\<rparr>"

definition ex_sdk :: paddle_sdk where
  "ex_sdk = \<lparr>sdk_CreateTransaction = (\<lambda>price custom. Some (Some (''https://pay/'' @ price @ custom))), sdk_CreatePortal = (\<lambda>_ _. None),
     sdk_Cancel = (\<lambda>_ _. False), sdk_Refund = (\<lambda>_ _. False), sdk_Verify = (\<lambda>_ sig. sig = ''ok'')\<rparr>"

definition ex_paddle_codec :: paddle_codec where
  "ex_paddle_codec = \<lparr>pco_envelope = (\<lambda>_. Some \<lparr>pe_EventID = ''evt_1'', pe_EventType = ''subscription.created'', pe_Data = ''d''\<rparr>),
     pco_subscription = (\<lambda>_. Some \<lparr>ps_ID = ''sub_1'', ps_Status = ''trialing'', ps_CustomerID = ''ctm_1'', ps_CustomOrg = Some (CvString ''1''),
       ps_EndsAt = None, ps_ScheduledChange = None, ps_Items = [''pri_1'']\<rparr>), pco_transaction = (\<lambda>_. None)\<rparr>"

definition ex_paddle :: BillingProvider where
  "ex_paddle = paddle_New ex_sdk ex_paddle_codec id [(''tier3:annual'', ''pri_1'')] []"

theorem checkout_end_to_end_witness:
  "bp_Checkout ex_paddle 1 ''tier3'' ''annual'' False = Inr ''https://pay/pri_11''
   \<and> plan_of (snd (ServeHTTP ex_paddle (\<lambda>_. True) hd (\<lambda>_. NoFault) 5 \<lparr>dl_provider = ''paddle'', dl_body = Some ''b'', dl_sig = ''ok''\<rparr> ex_bill)) 1
       = Some ''tier3''
   \<and> (\<exists>priceID custom. sdk_CreateTransaction ex_sdk priceID custom = Some (Some ''https://pay/pri_11''))"
proof -
  have maps: "PriceMaps [ex_row] = ([(''tier3:annual'', ''pri_1'')], [])" by code_simp
  have co: "bp_Checkout ex_paddle 1 ''tier3'' ''annual'' False = Inr ''https://pay/pri_11''" by code_simp
  have order: "\<forall>m. set (id m) = set m" by simp
  have colon: "\<forall>r \<in> set [ex_row]. CHR '':'' \<notin> set (pp_Plan r)" by (simp add: ex_row_def)
  have one: "\<forall>r \<in> set [ex_row]. \<forall>r' \<in> set [ex_row]. pp_ProviderPriceID r = pp_ProviderPriceID r' \<longrightarrow> pp_Plan r = pp_Plan r' \<and> pp_Cycle r = pp_Cycle r'"
    by simp
  have org: "(0::int) < 1" "(1::int) < 2 ^ 63" "''tier3'' = ''tier2'' \<or> ''tier3'' = ''tier3''" by simp_all
  obtain priceID custom where "sdk_CreateTransaction ex_sdk priceID custom = Some (Some ''https://pay/pri_11'')"
    using checkout_end_to_end [OF maps order colon one ex_paddle_def co org(3,1,2)] by (elim exE conjE)
  moreover have "plan_of (snd (ServeHTTP ex_paddle (\<lambda>_. True) hd (\<lambda>_. NoFault) 5
      \<lparr>dl_provider = ''paddle'', dl_body = Some ''b'', dl_sig = ''ok''\<rparr> ex_bill)) 1 = Some ''tier3''" by code_simp
  ultimately show ?thesis using co by (intro conjI exI)
qed

end
