(* ===== verification/Pulse_Billing_Api.thy ===== *)
theory Pulse_Billing_Api
  imports Pulse_Billing_Sync Pulse_Account
begin

text \<open>
  The billing requests: the operator's (\<open>internal/api/admin.go\<close> and \<open>billing_admin.go\<close>: list the orgs, move a plan,
  cancel, refund) and the customer's (\<open>billing_selfserve.go\<close>: checkout, portal, payments, and the trial rule).

  A request works on the tables, the calls that were made at the provider and the audit trail.  \<open>billing\<close> is
  \<open>None\<close> when no provider is configured; \<open>audited\<close> says whether an audit publisher is wired and takes the event.
\<close>

section \<open>The state of a request\<close>

datatype provider_call =
    CallSetCustomPrice int Money string
  | CallUpdateSubscription string PlanChange
  | CallCancelSubscription string CancelWhen
  | CallRefund string "Money option" string

record AuditEvent =
  au_OrgID :: int
  au_Actor :: string
  au_Action :: string
  au_Detail :: "(string \<times> string) list"
  au_OccurredAt :: time

record desk =
  dk_bill :: bill_db
  dk_calls :: "provider_call list"
  dk_audit :: "AuditEvent list"

type_synonym 'a desk_handler = "desk \<Rightarrow> 'a answer \<times> desk"

definition emitAudit :: "bool \<Rightarrow> time \<Rightarrow> int \<Rightarrow> string \<Rightarrow> string \<Rightarrow> (string \<times> string) list \<Rightarrow> desk \<Rightarrow> desk" where
  "emitAudit audited now orgID actor action detail d =
     (if audited
      then d\<lparr>dk_audit := dk_audit d @ [\<lparr>au_OrgID = orgID, au_Actor = actor, au_Action = action, au_Detail = detail, au_OccurredAt = now\<rparr>]\<rparr>
      else d)"

definition call_provider :: "provider_call \<Rightarrow> desk \<Rightarrow> desk" where
  "call_provider c d = d\<lparr>dk_calls := dk_calls d @ [c]\<rparr>"

definition with_bill :: "bill_db \<Rightarrow> desk \<Rightarrow> desk" where "with_bill s d = d\<lparr>dk_bill := s\<rparr>"

text \<open>\<open>perr != nil && !errors.Is(perr, billing.ErrNotImplemented)\<close>\<close>

definition real_error :: "provider_error option \<Rightarrow> bool" where
  "real_error e \<longleftrightarrow> e \<noteq> None \<and> e \<noteq> Some ErrNotImplemented"

definition admin_only :: "string list \<Rightarrow> Principal option \<Rightarrow> (Principal \<Rightarrow> 'a desk_handler) \<Rightarrow> 'a desk_handler" where
  "admin_only admins ctx k d =
     (case ctx of
        None \<Rightarrow> (Refuse 401 ''sign in required'', d)
      | Some p \<Rightarrow>
          if p_Kind p \<noteq> ActorHuman then (Refuse 401 ''sign in required'', d)
          else if \<not> isPlatformAdmin admins (p_Email p) then (Refuse 403 ''platform admin only'', d)
          else k p d)"

section \<open>The operator\<close>

record AdminOrg =
  ao_Id :: string
  ao_Name :: string
  ao_Slug :: string
  ao_Plan :: string
  ao_CreatedAt :: time

definition adminOrgDTO :: "Organization \<Rightarrow> AdminOrg" where
  "adminOrgDTO o' = \<lparr>ao_Id = Itoa (org_ID o'), ao_Name = org_Name o', ao_Slug = org_Slug o', ao_Plan = org_Plan o', ao_CreatedAt = org_CreatedAt o'\<rparr>"

definition ListAdminOrgs :: "string list \<Rightarrow> Principal option \<Rightarrow> fault \<Rightarrow> AdminOrg list desk_handler" where
  "ListAdminOrgs admins ctx f = admin_only admins ctx (\<lambda>p d.
     case AdminListOrganizations f (bl_tenant (dk_bill d)) of
       Inl _ \<Rightarrow> (Internal, d)
     | Inr orgs \<Rightarrow> (Answer (map adminOrgDTO orgs), d))"

record AdminOrgPlanUpdate =
  apu_Plan :: string
  apu_Cycle :: "string option"
  apu_Mode :: "string option"
  apu_CustomAmount :: "int option"
  apu_CustomCurrency :: "string option"

text \<open>\<open>if v != nil && *v != "" { x = *v }\<close>\<close>

definition given_or :: "string \<Rightarrow> string option \<Rightarrow> string" where
  "given_or x v = (case v of None \<Rightarrow> x | Some y \<Rightarrow> default_to x y)"

text \<open>The price of a custom plan, when an amount is given: the price id to store, or \<open>None\<close> after an error.\<close>

definition custom_price :: "BillingProvider \<Rightarrow> int \<Rightarrow> string \<Rightarrow> AdminOrgPlanUpdate \<Rightarrow> string \<Rightarrow> desk \<Rightarrow> string option \<times> desk" where
  "custom_price billing orgID cycle body priceID d =
     (case apu_CustomAmount body of
        Some amount \<Rightarrow>
          if apu_Plan body \<noteq> ''tierCustom'' then (Some priceID, d)
          else let money = \<lparr>mo_Minor = amount, mo_Currency = given_or ''USD'' (apu_CustomCurrency body)\<rparr>;
                   d1 = call_provider (CallSetCustomPrice orgID money cycle) d
               in (case bp_SetCustomPrice billing orgID money cycle of
                     Inl e \<Rightarrow> if e = ErrNotImplemented then (Some priceID, d1) else (None, d1)
                   | Inr ref \<Rightarrow> (Some (default_to priceID ref), d1))
      | None \<Rightarrow> (Some priceID, d))"

text \<open>The provider side of a plan move, for an org with a subscription; \<open>True\<close> when the handler goes on.\<close>

definition move_subscription :: "BillingProvider \<Rightarrow> fault \<Rightarrow> time \<Rightarrow> int \<Rightarrow> string \<Rightarrow> string \<Rightarrow> AdminOrgPlanUpdate \<Rightarrow> Subscription \<Rightarrow> desk
    \<Rightarrow> bool \<times> desk" where
  "move_subscription billing f now orgID cycle mode body sub d =
     (case custom_price billing orgID cycle body (sub_ProviderPriceID sub) d of
        (None, d1) \<Rightarrow> (False, d1)
      | (Some priceID, d1) \<Rightarrow>
          let change = \<lparr>pc_Plan = apu_Plan body, pc_Cycle = cycle, pc_Mode = mode\<rparr>;
              d2 = call_provider (CallUpdateSubscription (sub_ProviderSubscriptionID sub) change) d1
          in if real_error (bp_UpdateSubscription billing (sub_ProviderSubscriptionID sub) change) then (False, d2)
             else case UpdateSubscriptionPlan f now orgID (apu_Plan body) cycle priceID (dk_bill d2) of
                    (Inl _, s) \<Rightarrow> (False, with_bill s d2)
                  | (Inr _, s) \<Rightarrow> (True, with_bill s d2))"

definition set_org_plan :: "bool \<Rightarrow> (nat \<Rightarrow> fault) \<Rightarrow> time \<Rightarrow> Principal \<Rightarrow> int \<Rightarrow> string \<Rightarrow> string \<Rightarrow> string \<Rightarrow> AdminOrg desk_handler" where
  "set_org_plan audited f now p orgID plan cycle mode d =
     (case SetOrganizationPlan (f 2) orgID plan (bl_tenant (dk_bill d)) of
        (Inl e, tn) \<Rightarrow>
          (if e = ErrNoRows then Refuse 404 ''org not found'' else Internal, with_bill ((dk_bill d)\<lparr>bl_tenant := tn\<rparr>) d)
      | (Inr _, tn) \<Rightarrow>
          let d1 = emitAudit audited now orgID (p_Email p) ''billing.plan_set'' [(''plan'', plan), (''cycle'', cycle), (''mode'', mode)]
                     (with_bill ((dk_bill d)\<lparr>bl_tenant := tn\<rparr>) d)
          in case GetOrganization (f 3) orgID tn of
               Inl _ \<Rightarrow> (Internal, d1)
             | Inr org \<Rightarrow> (Answer (adminOrgDTO org), d1))"

definition SetAdminOrgPlan :: "string list \<Rightarrow> BillingProvider option \<Rightarrow> bool \<Rightarrow> Principal option \<Rightarrow> (nat \<Rightarrow> fault) \<Rightarrow> time \<Rightarrow> string
    \<Rightarrow> AdminOrgPlanUpdate option \<Rightarrow> AdminOrg desk_handler" where
  "SetAdminOrgPlan admins billing audited ctx f now rawOrg body' = admin_only admins ctx (\<lambda>p d.
     case body' of None \<Rightarrow> (Refuse 422 ''plan is required'', d) | Some body \<Rightarrow>
     case Atoi rawOrg of None \<Rightarrow> (Refuse 404 ''org not found'', d) | Some orgID \<Rightarrow>
     if \<not> IsKnownPlan (apu_Plan body) then (Refuse 422 ''unknown plan'', d)
     else let cycle = given_or ''monthly'' (apu_Cycle body); mode = given_or ''next_cycle'' (apu_Mode body) in
     case GetSubscriptionByOrg (f 0) orgID (dk_bill d) of
       Inl e \<Rightarrow>
         if e = BillStore ErrNoRows then set_org_plan audited f now p orgID (apu_Plan body) cycle mode d else (Internal, d)
     | Inr sub \<Rightarrow>
         (case billing of
            None \<Rightarrow> set_org_plan audited f now p orgID (apu_Plan body) cycle mode d
          | Some b \<Rightarrow>
              (case move_subscription b (f 1) now orgID cycle mode body sub d of
                 (False, d1) \<Rightarrow> (Internal, d1)
               | (True, d1) \<Rightarrow> set_org_plan audited f now p orgID (apu_Plan body) cycle mode d1)))"

record AdminSubscription =
  as_OrgId :: string
  as_Plan :: string
  as_Status :: string
  as_BillingCycle :: string
  as_Provider :: string
  as_CancelAtPeriodEnd :: bool
  as_CurrentPeriodEnd :: "time option"

definition adminSubscriptionDTO :: "Subscription \<Rightarrow> AdminSubscription" where
  "adminSubscriptionDTO sub =
     \<lparr>as_OrgId = Itoa (sub_OrgID sub), as_Plan = sub_Plan sub, as_Status = sub_Status sub, as_BillingCycle = sub_BillingCycle sub,
      as_Provider = sub_Provider sub, as_CancelAtPeriodEnd = sub_CancelAtPeriodEnd sub, as_CurrentPeriodEnd = sub_CurrentPeriodEnd sub\<rparr>"

definition when_text :: "CancelWhen \<Rightarrow> string" where
  "when_text w = (case w of CancelImmediate \<Rightarrow> ''immediate'' | CancelPeriodEnd \<Rightarrow> ''period_end'')"

text \<open>\<open>when'\<close> is the field of the body, if there is a body and it has one.\<close>

definition CancelAdminOrgSubscription :: "string list \<Rightarrow> BillingProvider option \<Rightarrow> bool \<Rightarrow> Principal option \<Rightarrow> (nat \<Rightarrow> fault) \<Rightarrow> time \<Rightarrow> string
    \<Rightarrow> string option \<Rightarrow> AdminSubscription desk_handler" where
  "CancelAdminOrgSubscription admins billing audited ctx f now rawOrg when' = admin_only admins ctx (\<lambda>p d.
     case Atoi rawOrg of None \<Rightarrow> (Refuse 404 ''org not found'', d) | Some orgID \<Rightarrow>
     let w = (if when' = Some ''immediate'' then CancelImmediate else CancelPeriodEnd) in
     case GetSubscriptionByOrg (f 0) orgID (dk_bill d) of
       Inl e \<Rightarrow> (if e = BillStore ErrNoRows then Refuse 404 ''org has no subscription'' else Internal, d)
     | Inr sub \<Rightarrow>
         let d1 = (case billing of None \<Rightarrow> d | Some b \<Rightarrow> call_provider (CallCancelSubscription (sub_ProviderSubscriptionID sub) w) d) in
         if (case billing of None \<Rightarrow> False | Some b \<Rightarrow> real_error (bp_CancelSubscription b (sub_ProviderSubscriptionID sub) w)) then (Internal, d1)
         else case (if w = CancelImmediate then CancelSubscriptionNow (f 1) now orgID (dk_bill d1)
                    else SetSubscriptionCancelAtPeriodEnd (f 1) now orgID (dk_bill d1)) of
                (Inl _, s) \<Rightarrow> (Internal, with_bill s d1)
              | (Inr _, s) \<Rightarrow>
                  let d2 = emitAudit audited now orgID (p_Email p) ''billing.cancel'' [(''when'', when_text w)] (with_bill s d1)
                  in (case GetSubscriptionByOrg (f 2) orgID s of
                        Inl _ \<Rightarrow> (Internal, d2)
                      | Inr sub' \<Rightarrow> (Answer (adminSubscriptionDTO sub'), d2)))"

record AdminRefundRequest =
  arr_PaymentId :: string
  arr_Amount :: "int option"
  arr_Currency :: "string option"
  arr_Reason :: "string option"

definition RefundAdminOrgPayment :: "string list \<Rightarrow> BillingProvider option \<Rightarrow> bool \<Rightarrow> Principal option \<Rightarrow> time \<Rightarrow> string
    \<Rightarrow> AdminRefundRequest option \<Rightarrow> (string \<times> string) desk_handler" where
  "RefundAdminOrgPayment admins billing audited ctx now rawOrg body' = admin_only admins ctx (\<lambda>p d.
     case Atoi rawOrg of None \<Rightarrow> (Refuse 404 ''org not found'', d) | Some orgID \<Rightarrow>
     case body' of None \<Rightarrow> (Refuse 422 ''payment_id is required'', d) | Some body \<Rightarrow>
     if arr_PaymentId body = '''' then (Refuse 422 ''payment_id is required'', d)
     else case billing of None \<Rightarrow> (Refuse 422 ''billing provider not configured'', d) | Some b \<Rightarrow>
     let amount = map_option (\<lambda>n. \<lparr>mo_Minor = n, mo_Currency = given_or ''USD'' (arr_Currency body)\<rparr>) (arr_Amount body);
         reason = (case arr_Reason body of None \<Rightarrow> '''' | Some r \<Rightarrow> r);
         d1 = call_provider (CallRefund (arr_PaymentId body) amount reason) d
     in if bp_Refund b (arr_PaymentId body) amount reason \<noteq> None then (Internal, d1)
        else (Answer (arr_PaymentId body, ''refund_requested''),
              emitAudit audited now orgID (p_Email p) ''billing.refund''
                ((''payment_id'', arr_PaymentId body) # (case amount of None \<Rightarrow> [] | Some m \<Rightarrow> [(''amount'', Itoa (mo_Minor m))])) d1))"

section \<open>The customer\<close>

definition trialDenyWindowDays :: int where "trialDenyWindowDays = 35"

definition trialEligible :: "fault \<Rightarrow> time \<Rightarrow> int \<Rightarrow> Plan \<Rightarrow> bill_db \<Rightarrow> bill_error + bool" where
  "trialEligible f now userID plan s =
     (if plan \<noteq> PlanTier1 then Inr False
      else case PersonHadRecentInactiveSubscription f now userID trialDenyWindowDays s of
             Inl e \<Rightarrow> Inl e
           | Inr had \<Rightarrow> Inr (\<not> had))"

definition billing_gate :: "Principal option \<Rightarrow> Action \<Rightarrow> (Principal \<Rightarrow> 'a answer) \<Rightarrow> 'a answer" where
  "billing_gate ctx action k =
     (case humanInOrg ctx of
        None \<Rightarrow> Refuse 401 ''sign in required''
      | Some p \<Rightarrow>
          let d = Can (principal_Actor p) action (org_resource (p_OrgID p))
          in if \<not> dec_Allowed d then Refuse 403 (dec_Reason d) else k p)"

text \<open>The URL of a call at the provider, or the refusal when it is not implemented.\<close>

definition hosted_url :: "string \<Rightarrow> provider_error + string \<Rightarrow> string answer" where
  "hosted_url msg r =
     (case r of
        Inr url \<Rightarrow> Answer url
      | Inl e \<Rightarrow> if e = ErrNotImplemented then Refuse 422 msg else Internal)"

definition CreateBillingCheckout :: "BillingProvider option \<Rightarrow> Principal option \<Rightarrow> (nat \<Rightarrow> fault) \<Rightarrow> time \<Rightarrow> (string \<times> string) option \<Rightarrow> bill_db
    \<Rightarrow> string answer" where
  "CreateBillingCheckout billing ctx f now body s = billing_gate ctx ActionManageBilling (\<lambda>p.
     case body of None \<Rightarrow> Refuse 422 ''plan and cycle are required'' | Some (plan, cycle) \<Rightarrow>
     if plan \<noteq> ''tier2'' \<and> plan \<noteq> ''tier3'' then Refuse 422 ''only tier2 or tier3 can be bought self-serve''
     else case billing of None \<Rightarrow> Refuse 422 ''billing is not configured'' | Some b \<Rightarrow>
     case trialEligible (f 1) now (p_UserID p) (org_plan (f 0) (p_OrgID p) (bl_tenant s)) s of
       Inl _ \<Rightarrow> Internal
     | Inr withTrial \<Rightarrow> hosted_url ''checkout is not available yet'' (bp_Checkout b (p_OrgID p) plan cycle withTrial))"

definition CreateBillingPortal :: "BillingProvider option \<Rightarrow> Principal option \<Rightarrow> fault \<Rightarrow> bill_db \<Rightarrow> string answer" where
  "CreateBillingPortal billing ctx f s = billing_gate ctx ActionManageBilling (\<lambda>p.
     case billing of None \<Rightarrow> Refuse 422 ''billing is not configured'' | Some b \<Rightarrow>
     case GetSubscriptionByOrg f (p_OrgID p) s of
       Inl e \<Rightarrow> if e = BillStore ErrNoRows then Refuse 422 ''no billing to manage on this plan'' else Internal
     | Inr sub \<Rightarrow>
         if sub_ProviderCustomerID sub = '''' then Refuse 422 ''no billing to manage on this plan''
         else hosted_url ''the customer portal is not available yet''
                (bp_PortalURL b (sub_ProviderCustomerID sub) (sub_ProviderSubscriptionID sub)))"

record PaymentDTO =
  pd_Id :: string
  pd_Provider :: string
  pd_Amount :: int
  pd_Currency :: string
  pd_Status :: string
  pd_Period :: "string option"
  pd_HostedInvoiceUrl :: "string option"
  pd_RefundedAmount :: int
  pd_CreatedAt :: time

definition paymentDTO :: "Payment \<Rightarrow> PaymentDTO" where
  "paymentDTO p =
     \<lparr>pd_Id = Itoa (pay_ID p), pd_Provider = pay_Provider p, pd_Amount = pay_Amount p, pd_Currency = pay_Currency p, pd_Status = pay_Status p,
      pd_Period = (if pay_Period p \<noteq> '''' then Some (pay_Period p) else None),
      pd_HostedInvoiceUrl = (if pay_HostedInvoiceURL p \<noteq> '''' then Some (pay_HostedInvoiceURL p) else None),
      pd_RefundedAmount = pay_RefundedAmount p, pd_CreatedAt = pay_CreatedAt p\<rparr>"

definition ListBillingPayments :: "Principal option \<Rightarrow> fault \<Rightarrow> bill_db \<Rightarrow> PaymentDTO list answer" where
  "ListBillingPayments ctx f s = billing_gate ctx ActionViewBilling (\<lambda>p.
     case ListPayments f (p_OrgID p) s of Inl _ \<Rightarrow> Internal | Inr ps \<Rightarrow> Answer (map paymentDTO ps))"

section \<open>The invariant of the billing tables\<close>

definition good_sub :: "SubRow \<Rightarrow> bool" where
  "good_sub r \<longleftrightarrow> IsKnownPlan (sub_Plan (sr_Sub r)) \<and> (sr_EndedAt r = None \<longleftrightarrow> active_status (sub_Status (sr_Sub r)))"

definition wf_subs :: "bill_db \<Rightarrow> bool" where
  "wf_subs s \<longleftrightarrow> distinct (map (sub_OrgID \<circ> sr_Sub) (bl_subs s))
     \<and> (\<forall>r \<in> set (bl_subs s). sub_OrgID (sr_Sub r) \<in> org_ID ` set (tn_orgs (bl_tenant s)) \<and> good_sub r)"

definition wf_payments :: "bill_db \<Rightarrow> bool" where
  "wf_payments s \<longleftrightarrow> distinct (map (\<lambda>p. (pay_Provider p, pay_ProviderPaymentID p)) (bl_payments s))
     \<and> (\<forall>p \<in> set (bl_payments s). pay_OrgID p \<in> org_ID ` set (tn_orgs (bl_tenant s)))"

definition wf_events :: "bill_db \<Rightarrow> bool" where
  "wf_events s \<longleftrightarrow> distinct (map (\<lambda>r. (er_Provider r, er_EventID r)) (bl_events s))"

definition plans_known :: "bill_db \<Rightarrow> bool" where
  "plans_known s \<longleftrightarrow> (\<forall>o' \<in> set (tn_orgs (bl_tenant s)). IsKnownPlan (org_Plan o'))"

definition wf_billing :: "bill_db \<Rightarrow> bool" where
  "wf_billing s \<longleftrightarrow> wf_tenant (bl_tenant s) \<and> plans_known s \<and> wf_subs s \<and> wf_payments s \<and> wf_events s"

lemmas wf_bill_tables = plans_known_def wf_subs_def wf_payments_def wf_events_def

interpretation wb: bill_effect "\<lambda>s s'. wf_billing s \<longrightarrow> wf_billing s'"
  by unfold_locales (simp_all add: wf_billing_def wf_bill_tables)

lemma map_if_same: "(\<And>x. P x \<Longrightarrow> k (g x) = k x) \<Longrightarrow> map k (map (\<lambda>x. if P x then g x else x) xs) = map k xs"
  by simp

lemma set_plan_orgs: "org_ID ` set (tn_orgs (bl_tenant (set_plan i plan s))) = org_ID ` set (tn_orgs (bl_tenant s))"
proof -
  have "map org_ID (tn_orgs (bl_tenant (set_plan i plan s))) = map org_ID (tn_orgs (bl_tenant s))" by (simp add: set_plan_def)
  then show ?thesis by (metis set_map)
qed

lemma set_plan_wf:
  assumes "wf_billing s" and "IsKnownPlan plan"
  shows "wf_billing (set_plan i plan s)"
proof -
  have "wf_tenant (bl_tenant (set_plan i plan s))"
  proof (cases "org_active (bl_tenant s) i")
    case True
    then have "bl_tenant (set_plan i plan s) = snd (SetOrganizationPlan NoFault i plan (bl_tenant s))"
      by (simp add: set_plan_def SetOrganizationPlan_def tn_run_def)
    moreover have "tn_step (bl_tenant s) (snd (SetOrganizationPlan NoFault i plan (bl_tenant s)))" by (rule tn_step.intros)
    ultimately show ?thesis using tn_step_wf assms by (simp add: wf_billing_def)
  next
    case False
    then have "map (\<lambda>o'. if org_ID o' = i \<and> org_DeletedAt o' = None then o'\<lparr>org_Plan := plan\<rparr> else o') (tn_orgs (bl_tenant s)) = tn_orgs (bl_tenant s)"
      by (intro map_idI) (auto simp: org_active_def list_ex_iff)
    then show ?thesis using assms by (simp add: set_plan_def wf_billing_def)
  qed
  moreover have "plans_known (set_plan i plan s)"
    using assms by (auto simp: plans_known_def wf_billing_def set_plan_def)
  ultimately show ?thesis using assms by (simp add: wf_billing_def wf_subs_def wf_payments_def wf_events_def set_plan_orgs)
qed

lemma event_plan_known [simp]: "IsKnownPlan (Plan_string (event_plan ev))"
  by (auto simp: event_plan_def IsKnownPlan_iff ParsePlan_def split: Plan.split)

lemma wf_billing_counters [simp]:
  "wf_billing (s\<lparr>bl_next_sub := n\<rparr>) = wf_billing s" "wf_billing (s\<lparr>bl_next_payment := n\<rparr>) = wf_billing s"
  "wf_billing (s\<lparr>bl_next_event := n\<rparr>) = wf_billing s"
  by (simp_all add: wf_billing_def wf_bill_tables)

lemma update_subs_wf:
  assumes "\<And>r. of_org orgID r \<Longrightarrow> sub_OrgID (sr_Sub (g r)) = sub_OrgID (sr_Sub r)" and "\<And>r. good_sub r \<Longrightarrow> good_sub (g r)"
    and "wf_billing s"
  shows "wf_billing (s\<lparr>bl_subs := map (\<lambda>r. if of_org orgID r then g r else r) (bl_subs s)\<rparr>)"
proof -
  have "map (sub_OrgID \<circ> sr_Sub) (map (\<lambda>r. if of_org orgID r then g r else r) (bl_subs s)) = map (sub_OrgID \<circ> sr_Sub) (bl_subs s)"
    by (rule map_if_same) (simp add: assms(1))
  moreover have "sub_OrgID (sr_Sub r) \<in> org_ID ` set (tn_orgs (bl_tenant s)) \<and> good_sub r"
    if "r \<in> set (map (\<lambda>r. if of_org orgID r then g r else r) (bl_subs s))" for r
    using that assms by (fastforce simp: wf_billing_def wf_subs_def)
  ultimately show ?thesis using assms(3) by (simp add: wf_billing_def wf_bill_tables del: map_map)
qed

lemma good_update_sub: "good_sub r \<Longrightarrow> IsKnownPlan (sub_Plan sub) \<Longrightarrow> good_sub (update_sub now sub r)"
  by (auto simp: good_sub_def update_sub_def)

lemma update_sub_org: "of_org (sub_OrgID sub) r \<Longrightarrow> sub_OrgID (sr_Sub (update_sub now sub r)) = sub_OrgID (sr_Sub r)"
  by (simp add: update_sub_def of_org_def)

lemma upsert_wf:
  assumes "wf_billing s" and "upsertSubscriptionTx now sub s = (Inr a, s')" and "IsKnownPlan (sub_Plan sub)"
  shows "wf_billing s'"
proof (cases "list_ex (of_org (sub_OrgID sub)) (bl_subs s)")
  case True
  have "wf_billing ((s\<lparr>bl_next_sub := bl_next_sub s + 1\<rparr>)\<lparr>bl_subs := map (\<lambda>r. if of_org (sub_OrgID sub) r then update_sub now sub r else r)
      (bl_subs (s\<lparr>bl_next_sub := bl_next_sub s + 1\<rparr>))\<rparr>)"
    using assms good_update_sub by (intro update_subs_wf) (simp_all add: update_sub_org)
  then show ?thesis using assms(2) True by (simp add: upsertSubscriptionTx_def Let_def)
next
  case False
  have new: "good_sub (insert_sub now n sub)" "sub_OrgID (sr_Sub (insert_sub now n sub)) = sub_OrgID sub" for n
    using assms(3) by (simp_all add: good_sub_def insert_sub_def)
  have "sub_OrgID sub \<notin> (sub_OrgID \<circ> sr_Sub) ` set (bl_subs s)" using False by (force simp: of_org_def list_ex_iff)
  then show ?thesis using assms False
    by (auto simp: upsertSubscriptionTx_def Let_def wf_billing_def wf_bill_tables new split: if_splits)
qed

lemma ApplySub_wf: "IsKnownPlan (sub_Plan sub) \<Longrightarrow> wf_billing s \<longrightarrow> wf_billing (snd (ApplySubscriptionEvent f now sub s))"
  unfolding ApplySubscriptionEvent_def
  by (rule wb.run) (auto split: prod.splits sum.splits if_splits intro: set_plan_wf upsert_wf)

lemma ApplyPay_wf: "wf_billing s \<longrightarrow> wf_billing (snd (ApplyPaymentEvent f now pay s))"
  unfolding ApplyPaymentEvent_def
proof (rule wb.run, intro impI)
  fix a s'
  assume step: "(if \<not> org_active (bl_tenant s) (pay_OrgID pay) then (Inl ErrOrgNotFound, s)
     else let newID = bl_next_payment s; s1 = s\<lparr>bl_next_payment := newID + 1\<rparr>
       in case find (same_payment pay) (bl_payments s) of
            None \<Rightarrow> (Inr (), s1\<lparr>bl_payments := bl_payments s @ [pay\<lparr>pay_ID := newID, pay_CreatedAt := now\<rparr>]\<rparr>)
          | Some old \<Rightarrow>
              if pay_OrgID old \<noteq> pay_OrgID pay then (Inl RowSecurity, s1)
              else (Inr (), s1\<lparr>bl_payments := map (\<lambda>q. if same_payment pay q
                       then pay\<lparr>pay_ID := pay_ID q, pay_CreatedAt := pay_CreatedAt q\<rparr> else q) (bl_payments s)\<rparr>)) = (Inr a, s')"
    and wf: "wf_billing s"
  then have org: "pay_OrgID pay \<in> org_ID ` set (tn_orgs (bl_tenant s))"
    by (auto simp: org_active_def list_ex_iff split: if_splits intro: rev_image_eqI)
  let ?k = "\<lambda>p. (pay_Provider p, pay_ProviderPaymentID p)"
  let ?g = "\<lambda>q. if same_payment pay q then pay\<lparr>pay_ID := pay_ID q, pay_CreatedAt := pay_CreatedAt q\<rparr> else q"
  have keys: "map ?k (map ?g ps) = map ?k ps" for ps by (rule map_if_same) (simp add: same_payment_def)
  show "wf_billing s'"
  proof (cases "find (same_payment pay) (bl_payments s)")
    case None
    then have "(pay_Provider pay, pay_ProviderPaymentID pay) \<notin> ?k ` set (bl_payments s)" by (auto simp: find_None_iff same_payment_def)
    then show ?thesis using step wf org None
      by (auto simp: Let_def wf_billing_def wf_bill_tables split: if_splits)
  next
    case (Some old)
    then have "s' = s\<lparr>bl_next_payment := bl_next_payment s + 1, bl_payments := map ?g (bl_payments s)\<rparr>"
      using step by (simp add: Let_def split: if_splits)
    moreover have "pay_OrgID q \<in> org_ID ` set (tn_orgs (bl_tenant s))" if "q \<in> set (map ?g (bl_payments s))" for q
      using that wf org by (auto simp: wf_billing_def wf_payments_def)
    ultimately show ?thesis using wf keys by (simp add: wf_billing_def wf_bill_tables del: map_map)
  qed
qed

lemma Record_wf: "wf_billing s \<Longrightarrow> wf_billing (snd (RecordBillingEvent jsonb f now provider eventID typ body s))"
proof -
  have "wf_billing s \<longrightarrow> wf_billing (snd (bl_run f0 (insert_event jsonb now provider eventID typ body) s))" for f0
    by (rule wb.run) (auto simp: insert_event_def Let_def wf_billing_def wf_bill_tables event_key_def list_ex_iff split: if_splits)
  moreover have "snd (RecordBillingEvent jsonb f now provider eventID typ body s)
      = snd (bl_run (fst f) (insert_event jsonb now provider eventID typ body) s)"
    by (simp add: RecordBillingEvent_def split: prod.split sum.split)
  ultimately show "wf_billing s \<Longrightarrow> wf_billing (snd (RecordBillingEvent jsonb f now provider eventID typ body s))" by simp
qed

lemma Mark_wf: "wf_billing s \<longrightarrow> wf_billing (snd (MarkBillingEventProcessed f now provider eventID s))"
  unfolding MarkBillingEventProcessed_def
proof (rule wb.run, clarsimp)
  let ?g = "\<lambda>r. if event_key provider eventID r then r\<lparr>er_ProcessedAt := Some now\<rparr> else r"
  have "map (\<lambda>r. (er_Provider r, er_EventID r)) (map ?g es) = map (\<lambda>r. (er_Provider r, er_EventID r)) es" for es
    by (rule map_if_same) simp
  then show "wf_billing s \<Longrightarrow> wf_billing (s\<lparr>bl_events := map ?g (bl_events s)\<rparr>)"
    by (simp add: wf_billing_def wf_bill_tables del: map_map)
qed

lemma change_sub_wf:
  assumes "change_sub orgID g s = (Inr a, s')" and "wf_billing s"
    and "\<And>r. sub_OrgID (sr_Sub (g r)) = sub_OrgID (sr_Sub r)" and "\<And>r. good_sub r \<Longrightarrow> good_sub (g r)"
  shows "wf_billing s'"
  using assms update_subs_wf [of orgID g s] by (auto simp: change_sub_def split: if_splits)

lemma UpdatePlan_wf: "IsKnownPlan plan \<Longrightarrow> wf_billing s \<longrightarrow> wf_billing (snd (UpdateSubscriptionPlan f now orgID plan cycle priceID s))"
  unfolding UpdateSubscriptionPlan_def by (rule wb.run) (auto simp: good_sub_def elim!: change_sub_wf)

lemma SetCancel_wf: "wf_billing s \<longrightarrow> wf_billing (snd (SetSubscriptionCancelAtPeriodEnd f now orgID s))"
  unfolding SetSubscriptionCancelAtPeriodEnd_def by (rule wb.run) (auto simp: good_sub_def elim!: change_sub_wf)

lemma CancelNow_wf: "wf_billing s \<longrightarrow> wf_billing (snd (CancelSubscriptionNow f now orgID s))"
  unfolding CancelSubscriptionNow_def
  by (rule wb.run) (auto simp: cancel_sub_def good_sub_def active_status_def IsKnownPlan_iff [of "''tier1''"] split: prod.splits sum.splits intro!: set_plan_wf elim!: change_sub_wf)

lemma set_org_tenant_wf:
  assumes "wf_billing s" and "IsKnownPlan plan"
  shows "wf_billing (s\<lparr>bl_tenant := snd (SetOrganizationPlan f orgID plan (bl_tenant s))\<rparr>)"
proof (cases "f = FaultBefore \<or> \<not> org_active (bl_tenant s) orgID")
  case True
  then have "snd (SetOrganizationPlan f orgID plan (bl_tenant s)) = bl_tenant s"
    by (auto simp: SetOrganizationPlan_def tn_run_def tn_rolled_back_def)
  then show ?thesis using assms(1) by simp
next
  case False
  then have "s\<lparr>bl_tenant := snd (SetOrganizationPlan f orgID plan (bl_tenant s))\<rparr> = set_plan orgID plan s"
    by (simp add: set_plan_def SetOrganizationPlan_def tn_run_def)
  then show ?thesis using set_plan_wf [OF assms] by simp
qed

text \<open>The requests that write: deliveries of the provider and operator requests, each with its own faults.\<close>

datatype bill_request =
    BrWebhook "int list \<Rightarrow> int" "nat \<Rightarrow> fault" time delivery
  | BrSetPlan "Principal option" bool "nat \<Rightarrow> fault" time string "AdminOrgPlanUpdate option"
  | BrCancel "Principal option" bool "nat \<Rightarrow> fault" time string "string option"
  | BrRefund "Principal option" bool time string "AdminRefundRequest option"

fun serve_bill :: "string list \<Rightarrow> BillingProvider \<Rightarrow> (string \<Rightarrow> bool) \<Rightarrow> bill_request \<Rightarrow> desk \<Rightarrow> desk" where
  "serve_bill admins b jsonb (BrWebhook pick f now dl) d = with_bill (snd (ServeHTTP b jsonb pick f now dl (dk_bill d))) d"
| "serve_bill admins b jsonb (BrSetPlan ctx audited f now rawOrg body) d = snd (SetAdminOrgPlan admins (Some b) audited ctx f now rawOrg body d)"
| "serve_bill admins b jsonb (BrCancel ctx audited f now rawOrg w) d = snd (CancelAdminOrgSubscription admins (Some b) audited ctx f now rawOrg w d)"
| "serve_bill admins b jsonb (BrRefund ctx audited now rawOrg body) d = snd (RefundAdminOrgPayment admins (Some b) audited ctx now rawOrg body d)"

lemma desk_sel [simp]:
  "dk_bill (emitAudit a t i u x y d) = dk_bill d" "dk_bill (call_provider c d) = dk_bill d" "dk_bill (with_bill s d) = s"
  "dk_calls (emitAudit a t i u x y d) = dk_calls d" "dk_calls (call_provider c d) = dk_calls d @ [c]" "dk_calls (with_bill s d) = dk_calls d"
  by (simp_all add: emitAudit_def call_provider_def with_bill_def)

lemma ServeHTTP_wf: "wf_billing s \<Longrightarrow> wf_billing (snd (ServeHTTP b jsonb pick f now dl s))"
proof -
  have ap: "wf_billing t \<Longrightarrow> wf_billing (snd (apply_kind f now i ev t))" for f i ev t
    using ApplySub_wf ApplyPay_wf by (simp add: apply_kind_def split: EventKind.split option.split)
  have act: "wf_billing t \<Longrightarrow> wf_billing (snd (act pick f now ev t))" for f ev t
    using ap by (simp add: act_def split: sum.split)
  have "wf_billing t \<Longrightarrow> wf_billing (snd (ingest jsonb pick f now ev body t))" for ev body t
  proof -
    assume "wf_billing t"
    obtain r t1 where r: "RecordBillingEvent jsonb (f 0, f 1) now (be_Provider ev) (be_ID ev) (be_Type ev) body t = (r, t1)" by fastforce
    obtain a t2 where a: "act pick (f 2, f 3) now ev t1 = (a, t2)" by fastforce
    obtain m t3 where m: "MarkBillingEventProcessed (f 4) now (be_Provider ev) (be_ID ev) t2 = (m, t3)" by fastforce
    have "wf_billing t1" using Record_wf [OF \<open>wf_billing t\<close>] r by (metis snd_conv)
    moreover from this have "wf_billing t2" using act [of t1 "(f 2, f 3)" ev] a by simp
    moreover from this have "wf_billing t3" using Mark_wf m by (metis snd_conv)
    ultimately show ?thesis using r a m by (simp add: ingest_def split: sum.split bool.split)
  qed
  then show "wf_billing s \<Longrightarrow> ?thesis" by (simp add: ServeHTTP_def split: option.split sum.split webhook_error.split)
qed

lemma set_org_plan_wf:
  "wf_billing (dk_bill d) \<Longrightarrow> IsKnownPlan plan \<Longrightarrow> wf_billing (dk_bill (snd (set_org_plan audited f now p orgID plan cycle mode d)))"
  using set_org_tenant_wf [of "dk_bill d" plan "f 2" orgID] by (auto simp: set_org_plan_def Let_def split: prod.split sum.split)

lemma custom_price_bill: "custom_price b orgID cycle body priceID d = (r, d1) \<Longrightarrow> dk_bill d1 = dk_bill d"
  by (auto simp: custom_price_def Let_def split: option.splits if_splits sum.splits)

lemma move_wf:
  assumes "move_subscription b f now orgID cycle mode body sub d = (ok, d1)" and "wf_billing (dk_bill d)" and "IsKnownPlan (apu_Plan body)"
  shows "wf_billing (dk_bill d1)"
proof -
  obtain r d0 where r: "custom_price b orgID cycle body (sub_ProviderPriceID sub) d = (r, d0)" by fastforce
  have "dk_bill d0 = dk_bill d" using custom_price_bill [OF r] .
  then show ?thesis using assms r UpdatePlan_wf [OF assms(3)]
    by (auto simp: move_subscription_def Let_def split: option.splits if_splits prod.splits sum.splits) (metis snd_conv)+
qed

lemma SetAdminOrgPlan_wf:
  assumes "wf_billing (dk_bill d)"
  shows "wf_billing (dk_bill (snd (SetAdminOrgPlan admins (Some b) audited ctx f now rawOrg body' d)))"
proof -
  have known: "wf_billing (dk_bill (snd (case move_subscription b (f 1) now orgID cycle mode body sub d of
        (False, d1) \<Rightarrow> (Internal, d1) | (True, d1) \<Rightarrow> set_org_plan audited f now p orgID (apu_Plan body) cycle mode d1)))"
    if "IsKnownPlan (apu_Plan body)" for orgID cycle mode body sub p
    using that move_wf [OF _ assms that] set_org_plan_wf by (fastforce split: prod.split bool.split)
  show ?thesis
    using assms known set_org_plan_wf [OF assms]
    by (auto simp: SetAdminOrgPlan_def admin_only_def Let_def split: option.split sum.split)
qed

lemma Cancel_wf:
  assumes "wf_billing (dk_bill d)"
  shows "wf_billing (dk_bill (snd (CancelAdminOrgSubscription admins (Some b) audited ctx f now rawOrg w d)))"
proof -
  have now: "wf_billing s" if "CancelSubscriptionNow f0 now orgID (dk_bill d) = (r, s)" for f0 orgID r s
    using CancelNow_wf [of "dk_bill d" f0 now orgID] assms that by simp
  have later': "wf_billing s" if "SetSubscriptionCancelAtPeriodEnd f0 now orgID (dk_bill d) = (r, s)" for f0 orgID r s
    using SetCancel_wf [of "dk_bill d" f0 now orgID] assms that by simp
  show ?thesis using assms now later'
    by (auto simp: CancelAdminOrgSubscription_def admin_only_def Let_def split: option.split sum.split prod.split)
qed

lemma Refund_bill: "dk_bill (snd (RefundAdminOrgPayment admins billing audited ctx now rawOrg body d)) = dk_bill d"
  by (auto simp: RefundAdminOrgPayment_def admin_only_def Let_def split: option.split)

text \<open>
  C17. Over any sequence of webhook deliveries and operator requests, by anybody and with any faults, an org
  has at most one subscription, a provider id at most one payment and one event, every subscription and payment belongs to an
  org that exists, every stored plan is one of the four tiers, and exactly the subscriptions that are not active have an end.
\<close>

theorem billing_invariant:
  assumes "wf_billing (dk_bill d)"
  shows "wf_billing (dk_bill (fold (serve_bill admins b jsonb) rs d))"
proof -
  have "wf_billing (dk_bill d) \<Longrightarrow> wf_billing (dk_bill (serve_bill admins b jsonb r d))" for r d
    by (cases r) (simp_all add: ServeHTTP_wf SetAdminOrgPlan_wf Cancel_wf Refund_bill)
  then have "wf_billing (dk_bill d) \<Longrightarrow> wf_billing (dk_bill (fold (serve_bill admins b jsonb) rs d))" for d
    by (induction rs arbitrary: d) simp_all
  then show ?thesis using assms .
qed

section \<open>What an operator can touch\<close>

text \<open>The rows of other orgs, the payments and the inbox stay.\<close>

definition elsewhere :: "int \<Rightarrow> bill_db \<Rightarrow> bill_db \<Rightarrow> bool" where
  "elsewhere o' s s' \<longleftrightarrow> (\<forall>i. i \<noteq> o' \<longrightarrow> plan_of s' i = plan_of s i \<and> sub_of s' i = sub_of s i)
     \<and> tn_members (bl_tenant s') = tn_members (bl_tenant s) \<and> bl_payments s' = bl_payments s \<and> bl_events s' = bl_events s"

interpretation el: bill_effect "elsewhere o'" for o'
  by unfold_locales (simp_all add: elsewhere_def)

lemma elsewhere_trans: "elsewhere i a b \<Longrightarrow> elsewhere i b c \<Longrightarrow> elsewhere i a c"
  by (simp add: elsewhere_def)

lemma elsewhere_set_plan: "elsewhere i s (set_plan i plan s)"
proof -
  have "plan_of (set_plan i plan s) j = plan_of s j" if "j \<noteq> i" for j
  proof -
    let ?P = "\<lambda>o'. org_ID o' = j \<and> org_DeletedAt o' = None"
    have "find ?P (map (\<lambda>o'. if org_ID o' = i \<and> org_DeletedAt o' = None then o'\<lparr>org_Plan := plan\<rparr> else o') xs) = find ?P xs" for xs :: "Organization list"
      using that by (induction xs) auto
    then show ?thesis by (simp add: plan_of_def set_plan_def)
  qed
  then show ?thesis by (simp add: elsewhere_def sub_of_def) (simp add: set_plan_def)
qed

lemma elsewhere_change_sub:
  assumes "change_sub i g s = (Inr a, s')" and "\<And>r. sub_OrgID (sr_Sub (g r)) = sub_OrgID (sr_Sub r)"
  shows "elsewhere i s s'"
proof -
  have "find (of_org j) (map (\<lambda>r. if of_org i r then g r else r) rs) = find (of_org j) rs" if "j \<noteq> i" for j rs
    using that assms(2) by (induction rs) (auto simp: of_org_def)
  then show ?thesis using assms(1) by (auto simp: change_sub_def elsewhere_def sub_of_def plan_of_def split: if_splits)
qed

lemma elsewhere_ops:
  "elsewhere i s (snd (UpdateSubscriptionPlan f now i plan cycle priceID s))"
  "elsewhere i s (snd (SetSubscriptionCancelAtPeriodEnd f now i s))"
  "elsewhere i s (snd (CancelSubscriptionNow f now i s))"
  unfolding UpdateSubscriptionPlan_def SetSubscriptionCancelAtPeriodEnd_def CancelSubscriptionNow_def
  by (rule el.run, erule elsewhere_change_sub, simp)+
    (rule el.run, auto split: prod.splits sum.splits intro: elsewhere_trans [OF _ elsewhere_set_plan] elim!: elsewhere_change_sub simp: cancel_sub_def)

lemma elsewhere_tenant: "elsewhere i s (s\<lparr>bl_tenant := snd (SetOrganizationPlan f i plan (bl_tenant s))\<rparr>)"
proof (cases "f = FaultBefore \<or> \<not> org_active (bl_tenant s) i")
  case True
  then have "snd (SetOrganizationPlan f i plan (bl_tenant s)) = bl_tenant s"
    by (auto simp: SetOrganizationPlan_def tn_run_def tn_rolled_back_def)
  then show ?thesis by (simp add: elsewhere_def)
next
  case False
  then have "s\<lparr>bl_tenant := snd (SetOrganizationPlan f i plan (bl_tenant s))\<rparr> = set_plan i plan s"
    by (simp add: set_plan_def SetOrganizationPlan_def tn_run_def)
  then show ?thesis using elsewhere_set_plan by metis
qed

text \<open>
  A call at the provider that a request may make for an org: its own price, or its own subscription, or the refund of the payment
  \<open>pay\<close> that the request names.  Nothing ties the payment to the org.
\<close>

fun own_call :: "string option \<Rightarrow> bill_db \<Rightarrow> int \<Rightarrow> provider_call \<Rightarrow> bool" where
  "own_call pay s o' (CallSetCustomPrice i _ _) = (i = o')"
| "own_call pay s o' (CallUpdateSubscription i _) = (\<exists>sub. sub_of s o' = Some sub \<and> sub_ProviderSubscriptionID sub = i)"
| "own_call pay s o' (CallCancelSubscription i _) = (\<exists>sub. sub_of s o' = Some sub \<and> sub_ProviderSubscriptionID sub = i)"
| "own_call pay s o' (CallRefund i _ _) = (pay = Some i)"

definition operator_effect :: "string option \<Rightarrow> int \<Rightarrow> desk \<Rightarrow> desk \<Rightarrow> bool" where
  "operator_effect pay o' d d' \<longleftrightarrow> elsewhere o' (dk_bill d) (dk_bill d')
     \<and> (\<exists>cs. dk_calls d' = dk_calls d @ cs \<and> (\<forall>c \<in> set cs. own_call pay (dk_bill d) o' c))
     \<and> (\<exists>as. dk_audit d' = dk_audit d @ as \<and> (\<forall>a \<in> set as. au_OrgID a = o'))"

lemma operator_same [simp]: "operator_effect pay o' d d"
  by (simp add: operator_effect_def elsewhere_def)

lemma operator_bill: "operator_effect pay o' d d1 \<Longrightarrow> elsewhere o' (dk_bill d1) s \<Longrightarrow> operator_effect pay o' d (with_bill s d1)"
  by (auto simp: operator_effect_def intro: elsewhere_trans) (simp add: with_bill_def)

lemma operator_call: "operator_effect pay o' d d1 \<Longrightarrow> own_call pay (dk_bill d) o' c \<Longrightarrow> operator_effect pay o' d (call_provider c d1)"
  by (auto simp: operator_effect_def) (simp add: call_provider_def)

lemma operator_audit: "operator_effect pay o' d d1 \<Longrightarrow> operator_effect pay o' d (emitAudit a t o' u x y d1)"
  by (auto simp: operator_effect_def) (auto simp: emitAudit_def)

lemma sub_of_Get: "GetSubscriptionByOrg f o' s = Inr sub \<Longrightarrow> own_call pay s o' (CallUpdateSubscription (sub_ProviderSubscriptionID sub) c)
    \<and> own_call pay s o' (CallCancelSubscription (sub_ProviderSubscriptionID sub) w)"
  by (auto simp: GetSubscriptionByOrg_def bl_read_def found_def sub_of_def sub_body_def split: if_splits option.splits)

lemma set_org_plan_effect: "operator_effect pay o' d d1 \<Longrightarrow> operator_effect pay o' d (snd (set_org_plan audited f now p o' plan cycle mode d1))"
proof -
  assume e: "operator_effect pay o' d d1"
  obtain r tn where r: "SetOrganizationPlan (f 2) o' plan (bl_tenant (dk_bill d1)) = (r, tn)" by fastforce
  have "operator_effect pay o' d (with_bill ((dk_bill d1)\<lparr>bl_tenant := tn\<rparr>) d1)"
    using operator_bill [OF e elsewhere_tenant [of o' "dk_bill d1" "f 2" plan]] r by simp
  then show ?thesis using r operator_audit by (auto simp: set_org_plan_def Let_def split: sum.split)
qed

lemma move_effect:
  assumes "move_subscription b f now o' cycle mode body sub d = (ok, d1)" and "GetSubscriptionByOrg f0 o' (dk_bill d) = Inr sub"
  shows "operator_effect pay o' d d1"
proof -
  obtain r d0 where r: "custom_price b o' cycle body (sub_ProviderPriceID sub) d = (r, d0)" by fastforce
  then have e0: "operator_effect pay o' d d0" and bill: "dk_bill d0 = dk_bill d"
    using operator_call [OF operator_same] custom_price_bill [OF r]
    by (auto simp: custom_price_def Let_def split: option.splits if_splits sum.splits)
  define c where "c = CallUpdateSubscription (sub_ProviderSubscriptionID sub) \<lparr>pc_Plan = apu_Plan body, pc_Cycle = cycle, pc_Mode = mode\<rparr>"
  have e1: "operator_effect pay o' d (call_provider c d0)" unfolding c_def using sub_of_Get [OF assms(2)] by (intro operator_call [OF e0]) blast
  have e2: "operator_effect pay o' d (with_bill (snd (UpdateSubscriptionPlan f now o' (apu_Plan body) cycle i (dk_bill d))) (call_provider c d0))" for i
    using operator_bill [OF e1] elsewhere_ops(1) bill by simp
  show ?thesis using assms(1) r e0 e1 e2 bill
    by (auto simp: move_subscription_def Let_def c_def [symmetric] split: option.splits if_splits prod.splits sum.splits)
      (metis snd_conv)+
qed

fun op_ctx :: "bill_request \<Rightarrow> Principal option option" where
  "op_ctx (BrWebhook _ _ _ _) = None"
| "op_ctx (BrSetPlan ctx _ _ _ _ _) = Some ctx"
| "op_ctx (BrCancel ctx _ _ _ _ _) = Some ctx"
| "op_ctx (BrRefund ctx _ _ _ _) = Some ctx"

fun op_org :: "bill_request \<Rightarrow> int option" where
  "op_org (BrWebhook _ _ _ _) = None"
| "op_org (BrSetPlan _ _ _ _ rawOrg _) = Atoi rawOrg"
| "op_org (BrCancel _ _ _ _ rawOrg _) = Atoi rawOrg"
| "op_org (BrRefund _ _ _ rawOrg _) = Atoi rawOrg"

definition is_operator :: "string list \<Rightarrow> Principal option \<Rightarrow> bool" where
  "is_operator admins ctx \<longleftrightarrow> (case ctx of None \<Rightarrow> False | Some p \<Rightarrow> p_Kind p = ActorHuman \<and> isPlatformAdmin admins (p_Email p))"

lemma not_operator: "\<not> is_operator admins ctx \<Longrightarrow> snd (admin_only admins ctx k d) = d"
  by (auto simp: admin_only_def is_operator_def split: option.split)

lemma op_denied:
  assumes "\<not> is_operator admins ctx"
  shows "snd (SetAdminOrgPlan admins b audited ctx f now rawOrg body d) = d"
    "snd (CancelAdminOrgSubscription admins b audited ctx f now rawOrg w d) = d"
    "snd (RefundAdminOrgPayment admins b audited ctx now rawOrg body' d) = d"
  unfolding SetAdminOrgPlan_def CancelAdminOrgSubscription_def RefundAdminOrgPayment_def using not_operator [OF assms] by metis+

lemma SetAdminOrgPlan_effect:
  "case Atoi rawOrg of None \<Rightarrow> snd (SetAdminOrgPlan admins (Some b) audited ctx f now rawOrg body' d) = d
   | Some o' \<Rightarrow> operator_effect pay o' d (snd (SetAdminOrgPlan admins (Some b) audited ctx f now rawOrg body' d))"
proof -
  have moved: "operator_effect pay o' d (snd (case move_subscription b f1 now o' cycle mode body sub d of
        (False, d1) \<Rightarrow> (Internal, d1) | (True, d1) \<Rightarrow> set_org_plan audited f now p o' plan cycle mode d1))"
    if g: "GetSubscriptionByOrg f0 o' (dk_bill d) = Inr sub" for f0 f1 o' cycle mode body sub p plan
  proof -
    obtain ok d1 where m: "move_subscription b f1 now o' cycle mode body sub d = (ok, d1)" by fastforce
    show ?thesis using move_effect [OF m g] set_org_plan_effect by (simp add: m split: bool.split)
  qed
  show ?thesis
    using moved set_org_plan_effect [OF operator_same]
    by (auto simp: SetAdminOrgPlan_def admin_only_def Let_def split: option.split sum.split)
qed

lemma Cancel_effect:
  "case Atoi rawOrg of None \<Rightarrow> snd (CancelAdminOrgSubscription admins (Some b) audited ctx f now rawOrg w d) = d
   | Some o' \<Rightarrow> operator_effect pay o' d (snd (CancelAdminOrgSubscription admins (Some b) audited ctx f now rawOrg w d))"
proof -
  have called: "operator_effect pay o' d (call_provider (CallCancelSubscription (sub_ProviderSubscriptionID sub) v) d)"
    and now: "CancelSubscriptionNow f1 now o' (dk_bill d) = (r, s) \<Longrightarrow>
        operator_effect pay o' d (with_bill s (call_provider (CallCancelSubscription (sub_ProviderSubscriptionID sub) v) d))"
    and after: "SetSubscriptionCancelAtPeriodEnd f1 now o' (dk_bill d) = (r, s) \<Longrightarrow>
        operator_effect pay o' d (with_bill s (call_provider (CallCancelSubscription (sub_ProviderSubscriptionID sub) v) d))"
    if g: "GetSubscriptionByOrg f0 o' (dk_bill d) = Inr sub" for f0 f1 o' sub v r s
  proof -
    show c: "operator_effect pay o' d (call_provider (CallCancelSubscription (sub_ProviderSubscriptionID sub) v) d)"
      using sub_of_Get [OF g] by (intro operator_call [OF operator_same]) blast
    show "operator_effect pay o' d (with_bill s (call_provider (CallCancelSubscription (sub_ProviderSubscriptionID sub) v) d))"
      if "CancelSubscriptionNow f1 now o' (dk_bill d) = (r, s)"
      using operator_bill [OF c] elsewhere_ops(3) [of o' "dk_bill d" f1 now] that by simp
    show "operator_effect pay o' d (with_bill s (call_provider (CallCancelSubscription (sub_ProviderSubscriptionID sub) v) d))"
      if "SetSubscriptionCancelAtPeriodEnd f1 now o' (dk_bill d) = (r, s)"
      using operator_bill [OF c] elsewhere_ops(2) [of o' "dk_bill d" f1 now] that by simp
  qed
  show ?thesis
    using called now after
    by (auto simp: CancelAdminOrgSubscription_def admin_only_def Let_def intro!: operator_audit split: option.split sum.split prod.split)
qed

lemma Refund_effect:
  "case Atoi rawOrg of None \<Rightarrow> snd (RefundAdminOrgPayment admins (Some b) audited ctx now rawOrg body d) = d
   | Some o' \<Rightarrow> operator_effect (map_option arr_PaymentId body) o' d (snd (RefundAdminOrgPayment admins (Some b) audited ctx now rawOrg body d))
       \<and> dk_bill (snd (RefundAdminOrgPayment admins (Some b) audited ctx now rawOrg body d)) = dk_bill d"
  by (auto simp: RefundAdminOrgPayment_def admin_only_def Let_def call_provider_def [symmetric] intro!: operator_audit operator_call split: option.split)

text \<open>Whether a request was answered, whether the audit log is wired, and what it is logged as.\<close>

fun op_answered :: "string list \<Rightarrow> BillingProvider \<Rightarrow> bill_request \<Rightarrow> desk \<Rightarrow> bool" where
  "op_answered admins b (BrWebhook _ _ _ _) d = False"
| "op_answered admins b (BrSetPlan ctx a f now rawOrg body) d =
     (case fst (SetAdminOrgPlan admins (Some b) a ctx f now rawOrg body d) of Answer _ \<Rightarrow> True | _ \<Rightarrow> False)"
| "op_answered admins b (BrCancel ctx a f now rawOrg w) d =
     (case fst (CancelAdminOrgSubscription admins (Some b) a ctx f now rawOrg w d) of Answer _ \<Rightarrow> True | _ \<Rightarrow> False)"
| "op_answered admins b (BrRefund ctx a now rawOrg body) d =
     (case fst (RefundAdminOrgPayment admins (Some b) a ctx now rawOrg body d) of Answer _ \<Rightarrow> True | _ \<Rightarrow> False)"

fun op_payment :: "bill_request \<Rightarrow> string option" where
  "op_payment (BrRefund _ _ _ _ body) = map_option arr_PaymentId body"
| "op_payment _ = None"

fun op_logged :: "bill_request \<Rightarrow> (bool \<times> string) option" where
  "op_logged (BrWebhook _ _ _ _) = None"
| "op_logged (BrSetPlan _ a _ _ _ _) = Some (a, ''billing.plan_set'')"
| "op_logged (BrCancel _ a _ _ _ _) = Some (a, ''billing.cancel'')"
| "op_logged (BrRefund _ a _ _ _) = Some (a, ''billing.refund'')"

definition logged_as :: "int \<Rightarrow> string \<Rightarrow> string \<Rightarrow> desk \<Rightarrow> desk \<Rightarrow> bool" where
  "logged_as o' actor action d d' \<longleftrightarrow>
     (\<exists>e. dk_audit d' = dk_audit d @ [e] \<and> au_OrgID e = o' \<and> au_Actor e = actor \<and> au_Action e = action)"

lemma logged_emit: "dk_audit d1 = dk_audit d \<Longrightarrow> logged_as o' u x d (emitAudit True t o' u x y d1)"
  by (simp add: logged_as_def emitAudit_def)

lemma with_bill_audit [simp]: "dk_audit (with_bill s d) = dk_audit d"
  by (simp add: with_bill_def)

lemma call_audit [simp]: "dk_audit (call_provider c d) = dk_audit d"
  by (simp add: call_provider_def)

lemma set_org_plan_logged:
  assumes "set_org_plan True f now p o' plan cycle mode d1 = (Answer x, d')" and "dk_audit d1 = dk_audit d"
  shows "logged_as o' (p_Email p) ''billing.plan_set'' d d'"
  using assms by (auto simp: set_org_plan_def Let_def intro!: logged_emit split: prod.splits sum.splits if_splits)

lemma move_audit:
  assumes "move_subscription b f now o' cycle mode body sub d = (ok, d1)"
  shows "dk_audit d1 = dk_audit d"
  using assms by (auto simp: move_subscription_def custom_price_def Let_def split: option.splits if_splits prod.splits sum.splits)

lemma answered_logged:
  "SetAdminOrgPlan admins (Some b) True (Some p) f now rawOrg body d = (Answer x, d') \<Longrightarrow> Atoi rawOrg = Some o' \<Longrightarrow>
     logged_as o' (p_Email p) ''billing.plan_set'' d d'"
  "CancelAdminOrgSubscription admins (Some b) True (Some p) f now rawOrg w d = (Answer y, d') \<Longrightarrow> Atoi rawOrg = Some o' \<Longrightarrow>
     logged_as o' (p_Email p) ''billing.cancel'' d d'"
  "RefundAdminOrgPayment admins (Some b) True (Some p) now rawOrg body' d = (Answer z, d') \<Longrightarrow> Atoi rawOrg = Some o' \<Longrightarrow>
     logged_as o' (p_Email p) ''billing.refund'' d d'"
  by (auto simp: SetAdminOrgPlan_def admin_only_def Let_def move_audit
        intro: set_org_plan_logged split: option.splits if_splits sum.splits prod.splits bool.splits)
    (auto simp: CancelAdminOrgSubscription_def RefundAdminOrgPayment_def admin_only_def Let_def intro!: logged_emit
        split: option.splits if_splits sum.splits prod.splits)

lemma answered_by:
  "fst (SetAdminOrgPlan admins b' a ctx f now rawOrg body d) = Answer x \<Longrightarrow> ctx \<noteq> None"
  "fst (CancelAdminOrgSubscription admins b' a ctx f now rawOrg w d) = Answer y \<Longrightarrow> ctx \<noteq> None"
  "fst (RefundAdminOrgPayment admins b' a ctx now rawOrg body' d) = Answer z \<Longrightarrow> ctx \<noteq> None"
  by (cases ctx; simp add: SetAdminOrgPlan_def CancelAdminOrgSubscription_def RefundAdminOrgPayment_def admin_only_def)+

lemma op_answered_logged:
  assumes "op_answered admins b r d" and "op_logged r = Some (True, action)" and "op_org r = Some o'" and "op_ctx r = Some ctx"
  shows "\<exists>p. ctx = Some p \<and> logged_as o' (p_Email p) action d (serve_bill admins b jsonb r d)"
proof (cases r)
  case (BrSetPlan c a f now rawOrg body)
  then obtain x where x: "fst (SetAdminOrgPlan admins (Some b) a ctx f now rawOrg body d) = Answer x" using assms by (auto split: answer.splits)
  with answered_by(1) obtain p where "ctx = Some p" by blast
  then show ?thesis using x assms BrSetPlan answered_logged(1) [of admins b p f now rawOrg body d x]
    by (auto simp: prod_eq_iff)
next
  case (BrCancel c a f now rawOrg w)
  then obtain x where x: "fst (CancelAdminOrgSubscription admins (Some b) a ctx f now rawOrg w d) = Answer x" using assms by (auto split: answer.splits)
  with answered_by(2) obtain p where "ctx = Some p" by blast
  then show ?thesis using x assms BrCancel answered_logged(2) [of admins b p f now rawOrg w d x] by (auto simp: prod_eq_iff)
next
  case (BrRefund c a now rawOrg body)
  then obtain x where x: "fst (RefundAdminOrgPayment admins (Some b) a ctx now rawOrg body d) = Answer x" using assms by (auto split: answer.splits)
  with answered_by(3) obtain p where "ctx = Some p" by blast
  then show ?thesis using x assms BrRefund answered_logged(3) [of admins b p now rawOrg body d x] by (auto simp: prod_eq_iff)
qed (use assms in simp)

text \<open>
  C27. An operator request changes the plan and the subscription of the org it names and of no other; at the provider it
  touches only that org's price and subscription, or, for a refund, only the payment it names (the code does not ask whose payment that is) with the tables left as they are; payments and the
  inbox stay.  Whatever it logs is logged under that org, and a request that was answered has logged exactly one event, with the operator and the action, when the log is
  wired.  Without an allowlisted address, or with an org id that is no number, it does nothing at all.
\<close>

theorem operator_requests_scoped:
  assumes "op_ctx r = Some ctx" and "d' = serve_bill admins b jsonb r d"
  shows "(\<not> is_operator admins ctx \<longrightarrow> d' = d)
    \<and> (case op_org r of
         None \<Rightarrow> d' = d
       | Some o' \<Rightarrow> operator_effect (op_payment r) o' d d'
           \<and> (op_payment r \<noteq> None \<longrightarrow> dk_bill d' = dk_bill d)
           \<and> (\<forall>action. op_answered admins b r d \<and> op_logged r = Some (True, action) \<longrightarrow>
                (\<exists>p. ctx = Some p \<and> logged_as o' (p_Email p) action d d')))"
proof -
  have log: "\<forall>action. op_answered admins b r d \<and> op_logged r = Some (True, action) \<longrightarrow>
      (\<exists>p. ctx = Some p \<and> logged_as o' (p_Email p) action d d')" if "op_org r = Some o'" for o'
    using op_answered_logged [OF _ _ that assms(1)] assms(2) by blast
  show ?thesis
  proof (cases r)
    case (BrSetPlan c a f now rawOrg body)
    then show ?thesis using assms SetAdminOrgPlan_effect [of admins b a ctx f now rawOrg body d None] op_denied log
      by (cases "Atoi rawOrg") simp_all
  next
    case (BrCancel c a f now rawOrg w)
    then show ?thesis using assms Cancel_effect [of admins b a ctx f now rawOrg w d None] op_denied log
      by (cases "Atoi rawOrg") simp_all
  next
    case (BrRefund c a now rawOrg body)
    then show ?thesis using assms Refund_effect [of admins b a ctx now rawOrg body d] op_denied log
      by (cases "Atoi rawOrg") simp_all
  qed (use assms in simp)
qed

section \<open>The trial window\<close>

text \<open>The subscription of an org ended at time \<open>t\<close> and did not come back.\<close>

definition ended_since :: "int \<Rightarrow> time \<Rightarrow> bill_db \<Rightarrow> bool" where
  "ended_since o' t s \<longleftrightarrow>
     (case find (of_org o') (bl_subs s) of
        None \<Rightarrow> False
      | Some r \<Rightarrow> \<not> active_status (sub_Status (sr_Sub r)) \<and> sr_EndedAt r = Some t)"

definition stays_ended :: "int \<Rightarrow> time \<Rightarrow> bill_db \<Rightarrow> bill_db \<Rightarrow> bool" where
  "stays_ended o' t s s' \<longleftrightarrow> (ended_since o' t s \<longrightarrow> ended_since o' t s') \<and> tn_members (bl_tenant s') = tn_members (bl_tenant s)"

interpretation en: bill_effect "stays_ended o' t" for o' t
  by unfold_locales (simp_all add: stays_ended_def ended_since_def)

lemma stays_ended_trans: "stays_ended i t a b \<Longrightarrow> stays_ended i t b c \<Longrightarrow> stays_ended i t a c"
  by (simp add: stays_ended_def)

lemma stays_ended_rows: "bl_subs s' = bl_subs s \<Longrightarrow> tn_members (bl_tenant s') = tn_members (bl_tenant s) \<Longrightarrow> stays_ended i t s s'"
  by (simp add: stays_ended_def ended_since_def)

lemma upsert_ended:
  assumes "upsertSubscriptionTx now sub s = (Inr a, s')" and "sub_OrgID sub = i \<longrightarrow> \<not> active_status (sub_Status sub)"
  shows "stays_ended i t s s'"
proof (cases "find (of_org i) (bl_subs s)")
  case None
  then show ?thesis using sub_of_upsert [OF assms(1)] by (simp add: stays_ended_def ended_since_def)
next
  case (Some r)
  let ?g = "\<lambda>r. if of_org (sub_OrgID sub) r then update_sub now sub r else r"
  have r: "of_org i r" using Some find_Some_set by metis
  have "of_org i (?g x) = of_org i x" for x by (auto simp: of_org_def update_sub_def)
  then have look: "find (of_org i) (map ?g rs) = map_option ?g (find (of_org i) rs)" for rs by (induction rs) auto
  have ended: "\<not> active_status (sub_Status (sr_Sub (?g r))) \<and> sr_EndedAt (?g r) = Some t"
    if "\<not> active_status (sub_Status (sr_Sub r)) \<and> sr_EndedAt r = Some t"
    using that assms(2) r by (auto simp: update_sub_def of_org_def)
  have members: "tn_members (bl_tenant s') = tn_members (bl_tenant s)" using sub_of_upsert [OF assms(1)] by simp
  have "find (of_org i) (bl_subs s') = Some (?g r) \<or> find (of_org i) (bl_subs s') = Some r"
    using assms(1) Some by (auto simp: upsertSubscriptionTx_def Let_def look find_append split: if_splits)
  then show ?thesis using ended Some members unfolding stays_ended_def ended_since_def by fastforce
qed

text \<open>A delivery that does not make the subscription active again.\<close>

definition quiet_for :: "BillingProvider \<Rightarrow> int \<Rightarrow> delivery \<Rightarrow> bool" where
  "quiet_for p i d \<longleftrightarrow>
     (case dl_body d of
        None \<Rightarrow> True
      | Some body \<Rightarrow>
          (case bp_VerifyWebhook p body (dl_sig d) of
             Inl _ \<Rightarrow> True
           | Inr ev \<Rightarrow> be_OrgID ev = i \<or> be_OrgID ev = 0 \<longrightarrow> \<not> active_status (be_Status ev)))"

lemma set_plan_members [simp]: "tn_members (bl_tenant (set_plan i p s)) = tn_members (bl_tenant s)"
  by (simp add: set_plan_def)

lemma apply_kind_ended:
  assumes "orgID = i \<longrightarrow> \<not> active_status (be_Status ev)"
  shows "stays_ended i t s (snd (apply_kind f now orgID ev s))"
proof -
  have sub: "stays_ended i t s (snd (ApplySubscriptionEvent f now (event_subscription orgID ev) s))"
    unfolding ApplySubscriptionEvent_def
  proof (rule en.run)
    fix a s'
    assume step: "(case upsertSubscriptionTx now (event_subscription orgID ev) s of
         (Inl e, s1) \<Rightarrow> (Inl e, s1)
       | (Inr _, s1) \<Rightarrow>
           if \<not> org_active (bl_tenant s1) (sub_OrgID (event_subscription orgID ev)) then (Inl ErrOrgNotFound, s1)
           else (Inr (), set_plan (sub_OrgID (event_subscription orgID ev)) (sub_Plan (event_subscription orgID ev)) s1)) = (Inr a, s')"
    then obtain x s1 where u: "upsertSubscriptionTx now (event_subscription orgID ev) s = (Inr x, s1)" and "bl_subs s' = bl_subs s1"
        "tn_members (bl_tenant s') = tn_members (bl_tenant s1)"
      by (auto split: prod.splits sum.splits if_splits)
    moreover have "stays_ended i t s s1" by (rule upsert_ended [OF u]) (use assms in \<open>simp add: event_subscription_def\<close>)
    ultimately show "stays_ended i t s s'" using stays_ended_trans stays_ended_rows by metis
  qed
  have pay: "stays_ended i t s (snd (ApplyPaymentEvent f now q s))" for q
    unfolding ApplyPaymentEvent_def by (rule en.run) (auto simp: Let_def intro: stays_ended_rows split: if_splits option.splits)
  show ?thesis using sub pay by (simp add: apply_kind_def en.R_same split: EventKind.split option.split)
qed

lemma ServeHTTP_ended:
  assumes "quiet_for p i d"
  shows "stays_ended i t s (snd (ServeHTTP p jsonb pick f now d s))"
proof -
  have "stays_ended i t s (snd (ingest jsonb pick f now ev body s))"
    if "be_OrgID ev = i \<or> be_OrgID ev = 0 \<longrightarrow> \<not> active_status (be_Status ev)" for ev body
  proof -
    obtain r s1 where r: "RecordBillingEvent jsonb (f 0, f 1) now (be_Provider ev) (be_ID ev) (be_Type ev) body s = (r, s1)" by fastforce
    obtain a s2 where a: "act pick (f 2, f 3) now ev s1 = (a, s2)" by fastforce
    obtain m s3 where m: "MarkBillingEventProcessed (f 4) now (be_Provider ev) (be_ID ev) s2 = (m, s3)" by fastforce
    have one: "stays_ended i t s s1" using r
      by (intro stays_ended_rows) (auto simp: RecordBillingEvent_def bl_run_def insert_event_def Let_def bl_read_def split: if_splits sum.splits)
    have "stays_ended i t s1 (snd (act pick (f 2, f 3) now ev s1))"
      using that apply_kind_ended by (auto simp: act_def en.R_same split: sum.split)
    then have two: "stays_ended i t s1 s2" by (simp add: a)
    have three: "stays_ended i t s2 s3" using m
      by (intro stays_ended_rows) (auto simp: MarkBillingEventProcessed_def bl_run_def split: if_splits)
    show ?thesis using r a m one two three by (auto simp: ingest_def intro: stays_ended_trans split: sum.split bool.split)
  qed
  then show ?thesis using assms
    by (auto simp: ServeHTTP_def quiet_for_def en.R_same split: option.split sum.split webhook_error.split option.splits sum.splits)
qed

lemma find_of_org: "distinct (map (sub_OrgID \<circ> sr_Sub) rs) \<Longrightarrow> r \<in> set rs \<Longrightarrow> find (of_org (sub_OrgID (sr_Sub r))) rs = Some r"
  by (induction rs) (force simp: of_org_def)+

text \<open>
  C28. No second trial: once the subscription of an org ended at time \<open>t\<close>, nobody who owns or administers the org is offered
  a trial, for any org, in the next thirty-five days, and later deliveries for the ended subscription neither shorten nor
  restart the time; after it, a user who controls no other org is offered one again.
\<close>

theorem trial_window_fixed:
  assumes "wf_billing s" and "ended_since i t s" and m: "m \<in> set (tn_members (bl_tenant s))" "mem_OrgID m = i" "mem_UserID m = u"
      "mem_Role m = RoleOwner \<or> mem_Role m = RoleAdmin"
    and s': "s' = fold (\<lambda>(pick, f, now, d) s. snd (ServeHTTP p jsonb pick f now d s)) ds s" and quiet_for: "\<forall>(pick, f, now, d) \<in> set ds. quiet_for p i d"
  shows "(now < t + 35 * (24 * Hour) \<longrightarrow> trialEligible f now u plan s' \<noteq> Inr True)
    \<and> (t + 35 * (24 * Hour) \<le> now
        \<and> (\<forall>m \<in> set (tn_members (bl_tenant s)). mem_UserID m = u \<and> (mem_Role m = RoleOwner \<or> mem_Role m = RoleAdmin) \<longrightarrow> mem_OrgID m = i)
       \<longrightarrow> trialEligible NoFault now u PlanTier1 s' = Inr True)"
proof -
  have "stays_ended i t s s' \<and> wf_billing s'"
    unfolding s' using quiet_for assms(1)
  proof (induction ds arbitrary: s)
    case (Cons x ds)
    obtain pick f now d where x: "x = (pick, f, now, d)" by (cases x)
    have "stays_ended i t s (snd (ServeHTTP p jsonb pick f now d s))" using Cons.prems by (intro ServeHTTP_ended) (simp add: x)
    with Cons.IH [of "snd (ServeHTTP p jsonb pick f now d s)"] Cons.prems ServeHTTP_wf show ?case
      by (auto simp: x intro: stays_ended_trans)
  qed (simp add: en.R_same)
  then have e: "ended_since i t s'" and members: "tn_members (bl_tenant s') = tn_members (bl_tenant s)" and wf: "wf_billing s'"
    using assms(2) by (auto simp: stays_ended_def)
  then obtain r where r: "find (of_org i) (bl_subs s') = Some r" "\<not> active_status (sub_Status (sr_Sub r))" "sr_EndedAt r = Some t"
    by (auto simp: ended_since_def split: option.splits)
  have r': "r \<in> set (bl_subs s')" "sub_OrgID (sr_Sub r) = i" using find_Some_set [OF r(1)] by (auto simp: of_org_def)
  have "\<exists>r \<in> set (bl_subs s'). (\<exists>m \<in> set (tn_members (bl_tenant s')). mem_OrgID m = sub_OrgID (sr_Sub r) \<and> mem_UserID m = u
      \<and> (mem_Role m = RoleOwner \<or> mem_Role m = RoleAdmin)) \<and> \<not> active_status (sub_Status (sr_Sub r))
      \<and> (case sr_EndedAt r of None \<Rightarrow> False | Some t \<Rightarrow> now - 35 * (24 * Hour) < t)" if "now < t + 35 * (24 * Hour)"
    using that r r' m members by (intro bexI [of _ r]) auto
  moreover have "sr_EndedAt q = Some t" if "q \<in> set (bl_subs s')" "sub_OrgID (sr_Sub q) = i" for q
  proof -
    have "find (of_org i) (bl_subs s') = Some q" using that find_of_org wf by (force simp: wf_billing_def wf_subs_def)
    then show ?thesis using r by simp
  qed
  ultimately show ?thesis using members
    by (auto simp: trialEligible_def PersonHadRecentInactiveSubscription_def trialDenyWindowDays_def bl_read_def list_ex_iff)
qed

section \<open>Witnesses\<close>

definition ex_canceled :: stubEnvelope where
  "ex_canceled = ex_envelope\<lparr>se_ID := ''e2'', se_Type := ''subscription.canceled'', se_Status := ''canceled''\<rparr>"

definition ex_late :: stubEnvelope where "ex_late = ex_canceled\<lparr>se_ID := ''e3'', se_Type := ''subscription.updated''\<rparr>"

definition ex_provider :: BillingProvider where
  "ex_provider = NewStub ex_hmac (\<lambda>b. if b = ''{1}'' then Some ex_envelope else if b = ''{2}'' then Some ex_canceled else if b = ''{3}'' then Some ex_late else None) ''s''"

definition ex_post :: "string \<Rightarrow> delivery" where
  "ex_post body = \<lparr>dl_provider = ''stub'', dl_body = Some body, dl_sig = SignStubWebhook ex_hmac ''s'' ''170'' body\<rparr>"

definition ex_ended :: bill_db where
  "ex_ended = snd (ServeHTTP ex_provider (\<lambda>_. True) hd (\<lambda>_. NoFault) 100 (ex_post ''{2}'')
     (snd (ServeHTTP ex_provider (\<lambda>_. True) hd (\<lambda>_. NoFault) 10 (ex_post ''{1}'') ex_bill)))"

definition ex_trailing :: bill_db where
  "ex_trailing = snd (ServeHTTP ex_provider (\<lambda>_. True) hd (\<lambda>_. NoFault) 5000 (ex_post ''{3}'') ex_ended)"

lemma ex_bill_wf: "wf_billing ex_bill"
proof -
  have "wf_tenant ex_tenant" using tn_reachable_wf [OF ex_tenant_reachable empty_tenant_wf] .
  moreover have "plans_known ex_bill" by code_simp
  ultimately show ?thesis by (simp add: wf_billing_def wf_subs_def wf_payments_def wf_events_def) (simp add: ex_bill_def)
qed

lemma ex_ended_wf: "wf_billing ex_ended"
  unfolding ex_ended_def by (intro ServeHTTP_wf ex_bill_wf)

theorem trial_window_fixed_witness:
  "trialEligible NoFault 200 1 PlanTier1 ex_trailing \<noteq> Inr True
   \<and> trialEligible NoFault (100 + 35 * (24 * Hour)) 1 PlanTier1 ex_trailing = Inr True"
proof -
  define m where "m = hd (tn_members (bl_tenant ex_ended))"
  have "tn_members (bl_tenant ex_ended) = [m]" "mem_OrgID m = 1" "mem_UserID m = 1" "mem_Role m = RoleOwner" unfolding m_def by code_simp+
  then have m: "m \<in> set (tn_members (bl_tenant ex_ended))" "mem_OrgID m = 1" "mem_UserID m = 1" "mem_Role m = RoleOwner \<or> mem_Role m = RoleAdmin"
    and all: "\<forall>m \<in> set (tn_members (bl_tenant ex_ended)). mem_UserID m = 1 \<and> (mem_Role m = RoleOwner \<or> mem_Role m = RoleAdmin) \<longrightarrow> mem_OrgID m = 1"
    by auto
  have ended: "ended_since 1 100 ex_ended" by code_simp
  have ds: "ex_trailing = fold (\<lambda>(pick, f, now, d) s. snd (ServeHTTP ex_provider (\<lambda>_. True) pick f now d s))
      [(hd, \<lambda>_. NoFault, 5000, ex_post ''{3}'')] ex_ended"
    by (simp add: ex_trailing_def)
  have "quiet_for ex_provider 1 (ex_post ''{3}'')" by code_simp
  then have q: "\<forall>(pick, f, now, d) \<in> set [(hd :: int list \<Rightarrow> int, \<lambda>_ :: nat. NoFault, 5000 :: int, ex_post ''{3}'')]. quiet_for ex_provider 1 d" by simp
  note window = trial_window_fixed [OF ex_ended_wf ended m ds q]
  show ?thesis using window [of 200 NoFault PlanTier1] window [of "100 + 35 * (24 * Hour)"] all by (simp add: duration_defs)
qed

definition ex_desk :: desk where "ex_desk = \<lparr>dk_bill = snd ex_twice, dk_calls = [], dk_audit = []\<rparr>"

definition ex_cancel :: bill_request where "ex_cancel = BrCancel (Some ex_ann) True (\<lambda>_. NoFault) 50 ''1'' (Some ''immediate'')"

theorem billing_invariant_witness:
  "wf_billing (dk_bill (fold (serve_bill [''ann@example.com''] ex_stub (\<lambda>_. True)) [BrWebhook hd (\<lambda>_. NoFault) 5 ex_delivery, ex_cancel]
     \<lparr>dk_bill = ex_bill, dk_calls = [], dk_audit = []\<rparr>))
   \<and> plan_of (dk_bill (fold (serve_bill [''ann@example.com''] ex_stub (\<lambda>_. True)) [BrWebhook hd (\<lambda>_. NoFault) 5 ex_delivery, ex_cancel]
     \<lparr>dk_bill = ex_bill, dk_calls = [], dk_audit = []\<rparr>)) 1 = Some ''tier1''"
proof -
  have "wf_billing (dk_bill \<lparr>dk_bill = ex_bill, dk_calls = [], dk_audit = []\<rparr>)" using ex_bill_wf by simp
  note ok = billing_invariant [OF this]
  moreover have "plan_of (dk_bill (fold (serve_bill [''ann@example.com''] ex_stub (\<lambda>_. True)) [BrWebhook hd (\<lambda>_. NoFault) 5 ex_delivery, ex_cancel]
     \<lparr>dk_bill = ex_bill, dk_calls = [], dk_audit = []\<rparr>)) 1 = Some ''tier1''" by code_simp
  ultimately show ?thesis by blast
qed

theorem operator_requests_scoped_witness:
  "operator_effect None 1 ex_desk (serve_bill [''ann@example.com''] ex_stub (\<lambda>_. True) ex_cancel ex_desk)
   \<and> dk_calls (serve_bill [''ann@example.com''] ex_stub (\<lambda>_. True) ex_cancel ex_desk) = [CallCancelSubscription ''s1'' CancelImmediate]
   \<and> logged_as 1 ''ann@example.com'' ''billing.cancel'' ex_desk (serve_bill [''ann@example.com''] ex_stub (\<lambda>_. True) ex_cancel ex_desk)
   \<and> serve_bill [] ex_stub (\<lambda>_. True) ex_cancel ex_desk = ex_desk"
proof -
  have ctx: "op_ctx ex_cancel = Some (Some ex_ann)" by (simp add: ex_cancel_def)
  have org: "op_org ex_cancel = Some 1" by code_simp
  have none: "\<not> is_operator [] (Some ex_ann)" by code_simp
  have "dk_calls (serve_bill [''ann@example.com''] ex_stub (\<lambda>_. True) ex_cancel ex_desk) = [CallCancelSubscription ''s1'' CancelImmediate]"
    by code_simp
  moreover have "op_answered [''ann@example.com''] ex_stub ex_cancel ex_desk" by code_simp
  moreover have "op_payment ex_cancel = None" "op_logged ex_cancel = Some (True, ''billing.cancel'')" "p_Email ex_ann = ''ann@example.com''"
    by (simp_all add: ex_cancel_def ex_ann_def)
  ultimately show ?thesis
    using operator_requests_scoped [OF ctx refl, of "[''ann@example.com'']" ex_stub "\<lambda>_. True" ex_desk]
      operator_requests_scoped [OF ctx refl, of "[]" ex_stub "\<lambda>_. True" ex_desk] none
    by (simp add: org)
qed

end
