(* ===== verification/Pulse_Status_Store.thy ===== *)
theory Pulse_Status_Store
  imports Pulse_Monitor_Api
begin

text \<open>
  The status pages of \<open>internal/store/statuspages.go\<close>: the tables \<open>status_pages\<close> and
  \<open>status_page_monitors\<close> beside the monitors, results and incidents, the operations of an org on its pages,
  and the public read, which has no org and sees the rows the \<open>public_lookup\<close> policies of the schema
  let through.
\<close>

section \<open>Tables\<close>

record pages_db =
  pg_db :: db
  pg_pages :: "StatusPage list"
  pg_entries :: "StatusPageMonitor list"
  pg_next_page :: int
  pg_next_entry :: int

datatype page_error = PageStore db_error | ErrSlugTaken | ErrStatusPageNotFound | ErrMonitorNotInOrg

type_synonym 'a ptx = "pages_db \<Rightarrow> (page_error + 'a) \<times> pages_db"

definition pg_rolled_back :: "pages_db \<Rightarrow> pages_db \<Rightarrow> pages_db" where
  "pg_rolled_back s failed = s\<lparr>pg_next_page := pg_next_page failed, pg_next_entry := pg_next_entry failed\<rparr>"

definition pg_run :: "fault \<Rightarrow> 'a ptx \<Rightarrow> 'a ptx" where
  "pg_run f fn s =
     (if f = FaultBefore then (Inl (PageStore ErrConn), s)
      else case fn s of
             (Inl e, s') \<Rightarrow> (Inl e, pg_rolled_back s s')
           | (Inr a, s') \<Rightarrow> (if f = FaultAfterCommit then Inl (PageStore ErrConn) else Inr a, s'))"

definition pg_read :: "fault \<Rightarrow> page_error + 'a \<Rightarrow> page_error + 'a" where
  "pg_read f r = (if f = NoFault then r else Inl (PageStore ErrConn))"

section \<open>The pages of an org\<close>

definition of_page :: "int \<Rightarrow> int \<Rightarrow> StatusPage \<Rightarrow> bool" where
  "of_page orgID i p \<longleftrightarrow> sp_ID p = i \<and> sp_OrgID p = orgID"

text \<open>The unique index \<open>uniq_status_page_slug\<close> on the lower-case slug, and the check on the theme.\<close>

definition page_slug_taken :: "int \<Rightarrow> string \<Rightarrow> pages_db \<Rightarrow> bool" where
  "page_slug_taken own slug s \<longleftrightarrow> list_ex (\<lambda>p. sp_ID p \<noteq> own \<and> ToLower (sp_Slug p) = ToLower slug) (pg_pages s)"

definition theme_ok :: "StatusPageTheme \<Rightarrow> bool" where
  "theme_ok t \<longleftrightarrow> t = ThemeLight \<or> t = ThemeDark"

definition page_defaults :: "StatusPage \<Rightarrow> StatusPage" where
  "page_defaults sp = (if sp_Theme sp = ThemeOther '''' then sp\<lparr>sp_Theme := ThemeLight\<rparr> else sp)"

definition store_CreateStatusPage :: "fault \<Rightarrow> time \<Rightarrow> StatusPage \<Rightarrow> StatusPage ptx" where
  "store_CreateStatusPage f now sp' = pg_run f (\<lambda>s.
     let newID = pg_next_page s;
         sp = (page_defaults sp')\<lparr>sp_ID := newID, sp_CreatedAt := now, sp_UpdatedAt := now\<rparr>;
         s1 = s\<lparr>pg_next_page := newID + 1\<rparr>
     in if \<not> theme_ok (sp_Theme sp) then (Inl (PageStore ErrCheck), s1)
        else if page_slug_taken newID (sp_Slug sp) s then (Inl ErrSlugTaken, s1)
        else if sp_OrgID sp \<notin> set (db_orgs (pg_db s)) then (Inl (PageStore ErrForeignKey), s1)
        else (Inr sp, s1\<lparr>pg_pages := pg_pages s @ [sp]\<rparr>))"

definition store_GetStatusPage :: "fault \<Rightarrow> int \<Rightarrow> int \<Rightarrow> pages_db \<Rightarrow> page_error + StatusPage" where
  "store_GetStatusPage f orgID i s = pg_read f
     (case find (of_page orgID i) (pg_pages s) of None \<Rightarrow> Inl (PageStore ErrNoRows) | Some p \<Rightarrow> Inr p)"

definition store_ListStatusPages :: "fault \<Rightarrow> int \<Rightarrow> pages_db \<Rightarrow> page_error + StatusPage list" where
  "store_ListStatusPages f orgID s = pg_read f
     (Inr (order_desc sp_ID (filter (\<lambda>p. sp_OrgID p = orgID) (pg_pages s))))"

definition CountStatusPages :: "fault \<Rightarrow> int \<Rightarrow> pages_db \<Rightarrow> page_error + int" where
  "CountStatusPages f orgID s = pg_read f (Inr (int (length (filter (\<lambda>p. sp_OrgID p = orgID) (pg_pages s)))))"

definition store_UpdateStatusPage :: "fault \<Rightarrow> time \<Rightarrow> StatusPage \<Rightarrow> StatusPage ptx" where
  "store_UpdateStatusPage f now sp' = pg_run f (\<lambda>s.
     let sp = page_defaults sp' in
     case find (of_page (sp_OrgID sp) (sp_ID sp)) (pg_pages s) of
       None \<Rightarrow> (Inl (PageStore ErrNoRows), s)
     | Some old \<Rightarrow>
         let new = sp\<lparr>sp_CreatedAt := sp_CreatedAt old, sp_UpdatedAt := now\<rparr>
         in if \<not> theme_ok (sp_Theme sp) then (Inl (PageStore ErrCheck), s)
            else if page_slug_taken (sp_ID sp) (sp_Slug sp) s then (Inl ErrSlugTaken, s)
            else (Inr new, s\<lparr>pg_pages := map (\<lambda>p. if of_page (sp_OrgID sp) (sp_ID sp) p then new else p) (pg_pages s)\<rparr>))"

text \<open>The entries of a page go with it (\<open>ON DELETE CASCADE\<close>).\<close>

definition store_DeleteStatusPage :: "fault \<Rightarrow> int \<Rightarrow> int \<Rightarrow> int ptx" where
  "store_DeleteStatusPage f orgID i = pg_run f (\<lambda>s.
     if \<not> list_ex (of_page orgID i) (pg_pages s) then (Inr 0, s)
     else (Inr 1, s\<lparr>pg_pages := filter (\<lambda>p. \<not> of_page orgID i p) (pg_pages s),
                    pg_entries := filter (\<lambda>e. spm_PageID e \<noteq> i) (pg_entries s)\<rparr>))"

section \<open>The monitors of a page\<close>

definition entry_order :: "StatusPageMonitor list \<Rightarrow> StatusPageMonitor list" where
  "entry_order es = sort_key spm_SortOrder (sort_key spm_ID es)"

definition ListStatusPageMonitors :: "fault \<Rightarrow> int \<Rightarrow> int \<Rightarrow> pages_db \<Rightarrow> page_error + StatusPageMonitor list" where
  "ListStatusPageMonitors f orgID pageID s = pg_read f
     (Inr (entry_order (filter (\<lambda>e. spm_PageID e = pageID \<and> spm_OrgID e = orgID) (pg_entries s))))"

definition distinctCount :: "int list \<Rightarrow> int" where
  "distinctCount ids = int (length (remdups ids))"

text \<open>
  The inserts of one list, with the unique index on page and monitor.  The foreign keys hold, since
  the page and the monitors were found just before.
\<close>

fun insert_entries :: "int \<Rightarrow> int \<Rightarrow> int \<Rightarrow> StatusPageMonitor list \<Rightarrow> unit ptx" where
  "insert_entries orgID pageID i [] s = (Inr (), s)"
| "insert_entries orgID pageID i (e # es) s =
     (let newID = pg_next_entry s; s1 = s\<lparr>pg_next_entry := newID + 1\<rparr>
      in if list_ex (\<lambda>x. spm_PageID x = pageID \<and> spm_MonitorID x = spm_MonitorID e) (pg_entries s)
         then (Inl (PageStore ErrUnique), s1)
         else insert_entries orgID pageID (i + 1) es (s1\<lparr>pg_entries := pg_entries s @
                [\<lparr>spm_ID = newID, spm_OrgID = orgID, spm_PageID = pageID, spm_MonitorID = spm_MonitorID e,
                  spm_DisplayName = spm_DisplayName e, spm_SortOrder = i\<rparr>]\<rparr>))"

definition found_monitors :: "int \<Rightarrow> int list \<Rightarrow> db \<Rightarrow> int" where
  "found_monitors orgID ids db =
     int (length (remdups (map row_ID (filter (\<lambda>r. row_OrgID r = orgID \<and> row_ID r \<in> set ids) (db_monitors db)))))"

definition SetStatusPageMonitors :: "fault \<Rightarrow> int \<Rightarrow> int \<Rightarrow> StatusPageMonitor list \<Rightarrow> unit ptx" where
  "SetStatusPageMonitors f orgID pageID entries = pg_run f (\<lambda>s.
     if \<not> list_ex (of_page orgID pageID) (pg_pages s) then (Inl ErrStatusPageNotFound, s)
     else let ids = map spm_MonitorID entries
     in if ids \<noteq> [] \<and> found_monitors orgID ids (pg_db s) \<noteq> distinctCount ids then (Inl ErrMonitorNotInOrg, s)
        else insert_entries orgID pageID 0 entries
               (s\<lparr>pg_entries := filter (\<lambda>e. \<not> (spm_PageID e = pageID \<and> spm_OrgID e = orgID)) (pg_entries s)\<rparr>))"

section \<open>The public read\<close>

text \<open>
  What a transaction with \<open>app.public_page_slug\<close> and no org sees: the \<open>public_lookup\<close> policies of the
  five tables.
\<close>

definition named_page :: "string \<Rightarrow> StatusPage \<Rightarrow> bool" where
  "named_page slug p \<longleftrightarrow> slug \<noteq> '''' \<and> sp_Published p \<and> ToLower (sp_Slug p) = ToLower slug"

definition public_view :: "string \<Rightarrow> pages_db \<Rightarrow> pages_db" where
  "public_view slug s =
     (let pages = filter (named_page slug) (pg_pages s);
          entries = filter (\<lambda>e. list_ex (\<lambda>p. sp_ID p = spm_PageID e) pages) (pg_entries s);
          shown = (\<lambda>i. list_ex (\<lambda>e. spm_MonitorID e = i) entries);
          db = pg_db s
      in s\<lparr>pg_pages := pages, pg_entries := entries,
           pg_db := db\<lparr>db_monitors := filter (\<lambda>r. shown (row_ID r)) (db_monitors db),
                       db_results := filter (\<lambda>r. shown (res_MonitorID r)) (db_results db),
                       db_incidents := filter (\<lambda>i. shown (inc_MonitorID i)) (db_incidents db)\<rparr>\<rparr>)"

record publicMonitorRow =
  pmr_monitorID :: int
  pmr_displayName :: string
  pmr_enabled :: bool
  pmr_hasResults :: bool
  pmr_openInc :: bool
  pmr_lastIncAt :: "time option"
  pmr_lastIncEnd :: "time option"

definition last_incident :: "db \<Rightarrow> int \<Rightarrow> Incident option" where
  "last_incident db monitorID =
     (case order_desc inc_StartedAt (filter (\<lambda>i. inc_MonitorID i = monitorID) (db_incidents db)) of
        [] \<Rightarrow> None | i # _ \<Rightarrow> Some i)"

definition public_row :: "db \<Rightarrow> StatusPageMonitor \<Rightarrow> publicMonitorRow option" where
  "public_row db e =
     (case find (\<lambda>r. row_ID r = spm_MonitorID e) (db_monitors db) of
        None \<Rightarrow> None
      | Some m \<Rightarrow>
          let i = spm_MonitorID e; inc = last_incident db i
          in Some \<lparr>pmr_monitorID = i, pmr_displayName = spm_DisplayName e, pmr_enabled = mon_Enabled (row_Monitor m),
                   pmr_hasResults = list_ex (\<lambda>r. res_MonitorID r = i) (db_results db),
                   pmr_openInc = list_ex (\<lambda>x. inc_MonitorID x = i \<and> is_open x) (db_incidents db),
                   pmr_lastIncAt = map_option inc_StartedAt inc, pmr_lastIncEnd = Option.bind inc inc_EndedAt\<rparr>)"

definition uptime_window :: "db \<Rightarrow> int \<Rightarrow> time \<Rightarrow> rat \<times> bool" where
  "uptime_window db monitorID since =
     (let rs = filter (\<lambda>r. res_MonitorID r = monitorID \<and> since \<le> res_CheckedAt r) (db_results db)
      in if length rs = 0 then (100, False)
         else (of_nat (length (filter res_Healthy rs)) / of_nat (length rs) * 100, True))"

definition history_strip :: "db \<Rightarrow> int \<Rightarrow> PublicHistoryPoint list" where
  "history_strip db monitorID =
     rev (map (\<lambda>r. \<lparr>hp_At = res_CheckedAt r, hp_Up = res_Healthy r\<rparr>)
            (take 30 (order_desc res_CheckedAt (filter (\<lambda>r. res_MonitorID r = monitorID) (db_results db)))))"

definition publicMonitorUptime :: "time \<Rightarrow> db \<Rightarrow> int \<Rightarrow> UptimeSummary \<times> PublicHistoryPoint list" where
  "publicMonitorUptime now db monitorID =
     (let d = uptime_window db monitorID (now - 24 * Hour);
          w = uptime_window db monitorID (now - 7 * 24 * Hour);
          q = uptime_window db monitorID (now - 90 * 24 * Hour)
      in (\<lparr>ut_Uptime24h = fst d, ut_Uptime7d = fst w, ut_Uptime90d = fst q,
           ut_Has24h = snd d, ut_Has7d = snd w, ut_Has90d = snd q\<rparr>,
          history_strip db monitorID))"

definition max_window :: "UptimeSummary \<Rightarrow> string \<Rightarrow> string" where
  "max_window u w =
     (if ut_Has90d u then ''90d''
      else if ut_Has7d u \<and> w \<noteq> ''90d'' then ''7d''
      else if ut_Has24h u \<and> w = '''' then ''24h'' else w)"

definition public_incident :: "publicMonitorRow \<Rightarrow> PublicIncident option" where
  "public_incident r =
     (case pmr_lastIncAt r of
        None \<Rightarrow> None
      | Some t \<Rightarrow>
          Some (case pmr_lastIncEnd r of
                  None \<Rightarrow> \<lparr>pin_DisplayName = pmr_displayName r, pin_StartedAt = t, pin_EndedAt = None,
                           pin_DurationSeconds = None, pin_Resolved = False\<rparr>
                | Some u \<Rightarrow> \<lparr>pin_DisplayName = pmr_displayName r, pin_StartedAt = t, pin_EndedAt = Some u,
                             pin_DurationSeconds = Some (whole_seconds (time_Sub u t)), pin_Resolved = True\<rparr>))"

definition public_status :: "publicMonitorRow \<Rightarrow> PublicStatus" where
  "public_status r = DerivePublicStatus (DeriveStatus (pmr_enabled r) (pmr_hasResults r) (pmr_openInc r))"

text \<open>
  The loop over the displayed monitors.  The clock is read for each visible one: \<open>clock n\<close> is the instant of the
  n-th reading.
\<close>

fun public_loop :: "(nat \<Rightarrow> time) \<Rightarrow> db \<Rightarrow> publicMonitorRow list \<Rightarrow> PublicStatus list \<Rightarrow> string \<Rightarrow> PublicStatusPage
    \<Rightarrow> PublicStatus list \<times> string \<times> PublicStatusPage" where
  "public_loop clock db [] statuses w page = (statuses, w, page)"
| "public_loop clock db (r # rs) statuses w page =
     (if public_status r = PublicHidden then public_loop clock db rs statuses w page
      else let (u, hist) = publicMonitorUptime (clock (length statuses)) db (pmr_monitorID r);
               shown = \<lparr>pdm_DisplayName = pmr_displayName r, pdm_Status = public_status r, pdm_Uptime = u, pdm_History = hist\<rparr>
           in public_loop clock db rs (statuses @ [public_status r]) (max_window u w)
                (page\<lparr>psp_Monitors := psp_Monitors page @ [shown],
                      psp_Incidents := psp_Incidents page @ (case public_incident r of None \<Rightarrow> [] | Some i \<Rightarrow> [i])\<rparr>))"

definition branding :: "StatusPage \<Rightarrow> PublicStatusPage" where
  "branding sp = \<lparr>psp_Name = sp_Name sp, psp_Slug = sp_Slug sp, psp_LogoURL = sp_LogoURL sp, psp_AccentColor = sp_AccentColor sp,
     psp_Theme = sp_Theme sp, psp_Banner = BannerOperational, psp_Monitors = [], psp_Incidents = [], psp_UptimeMaxWindow = ''''\<rparr>"

definition store_GetPublicStatusPage :: "fault \<Rightarrow> (nat \<Rightarrow> time) \<Rightarrow> string \<Rightarrow> pages_db \<Rightarrow> page_error + PublicStatusPage" where
  "store_GetPublicStatusPage f clock slug s0 = pg_read f
     (let s = public_view slug s0
      in case find (\<lambda>p. sp_Published p \<and> ToLower (sp_Slug p) = ToLower slug) (pg_pages s) of
           None \<Rightarrow> Inl (PageStore ErrNoRows)
         | Some sp \<Rightarrow>
             let displayed = List.map_filter (public_row (pg_db s)) (entry_order (filter (\<lambda>e. spm_PageID e = sp_ID sp) (pg_entries s)));
                 (statuses, w, page) = public_loop clock (pg_db s) displayed [] '''' (branding sp)
             in Inr (page\<lparr>psp_Banner := DeriveBanner statuses, psp_UptimeMaxWindow := w\<rparr>))"

end
