(* ===== verification/Pulse_Status_Pages.thy ===== *)
theory Pulse_Status_Pages
  imports Pulse_Status_Store
begin

text \<open>
  The handlers of \<open>internal/api/statuspages.go\<close>: the editor of an org's status pages and the public page.
  A handler gets the caller the middleware found, the plan text of the org (absent when it could not
  be read) and a fault for each of its store calls.  The public answer has the fields of the projection of the
  store; its conversion to 32-bit floats is left out.
\<close>

section \<open>Input\<close>

definition maxStatusPageNameLen :: int where "maxStatusPageNameLen = 200"
definition maxStatusPageSlugLen :: int where "maxStatusPageSlugLen = 63"
definition maxDisplayNameLen :: int where "maxDisplayNameLen = 200"
definition maxAccentColorLen :: int where "maxAccentColorLen = 32"
definition maxLogoURLLen :: int where "maxLogoURLLen = 2048"

record StatusPageMonitorEntry =
  sme_MonitorId :: string
  sme_DisplayName :: string
  sme_Order :: int

record StatusPageInput =
  spi_Name :: string
  spi_Slug :: string
  spi_LogoUrl :: string
  spi_AccentColor :: string
  spi_Theme :: StatusPageTheme
  spi_CustomDomain :: "string option"
  spi_DisplayMonitors :: "StatusPageMonitorEntry list"

text \<open>\<open>^[a-z0-9]+(?:-[a-z0-9]+)*$\<close>: parts that are not empty, separated by single hyphens.\<close>

definition slug_part :: "string \<Rightarrow> bool" where
  "slug_part p \<longleftrightarrow> p \<noteq> [] \<and> list_all (\<lambda>c. 97 \<le> (of_char c :: nat) \<and> (of_char c :: nat) \<le> 122 \<or> is_digit c) p"

definition slugPattern :: "string \<Rightarrow> bool" where
  "slugPattern s \<longleftrightarrow> list_all slug_part (Split CHR ''-'' s)"

definition name_errors :: "string \<Rightarrow> field_errors \<Rightarrow> field_errors" where
  "name_errors name errs =
     (if name = '''' then set_field ''name'' (FieldMsg ''name is required'') errs
      else err_if (int (length name) > maxStatusPageNameLen) ''name''
             (FieldMsg (''name must be at most '' @ Itoa maxStatusPageNameLen @ '' characters'')) errs)"

definition slug_errors :: "string \<Rightarrow> field_errors \<Rightarrow> field_errors" where
  "slug_errors slug errs =
     (if slug = '''' then set_field ''slug'' (FieldMsg ''slug is required'') errs
      else if int (length slug) > maxStatusPageSlugLen
        then set_field ''slug'' (FieldMsg (''slug must be at most '' @ Itoa maxStatusPageSlugLen @ '' characters'')) errs
      else err_if (\<not> slugPattern slug) ''slug'' (FieldMsg ''slug must be lowercase letters, digits, and hyphens'') errs)"

definition entry_field :: "int \<Rightarrow> string \<Rightarrow> string" where
  "entry_field i fld = ''display_monitors.'' @ Itoa i @ ''.'' @ fld"

fun entry_loop :: "int \<Rightarrow> int \<Rightarrow> int list \<Rightarrow> StatusPageMonitorEntry list \<Rightarrow> StatusPageMonitor list \<Rightarrow> field_errors
    \<Rightarrow> StatusPageMonitor list \<times> field_errors" where
  "entry_loop orgID i seen [] entries errs = (entries, errs)"
| "entry_loop orgID i seen (e # es) entries errs =
     (let dn = TrimSpace (sme_DisplayName e);
          bad = (\<lambda>fld msg. entry_loop orgID (i + 1) seen es entries (set_field (entry_field i fld) (FieldMsg msg) errs))
      in if dn = '''' then bad ''display_name'' ''display_name is required''
         else if int (length dn) > maxDisplayNameLen then bad ''display_name'' ''display_name is too long''
         else case Atoi (sme_MonitorId e) of
                None \<Rightarrow> bad ''monitor_id'' ''monitor_id must be a monitor id''
              | Some mid \<Rightarrow>
                  if mid \<le> 0 then bad ''monitor_id'' ''monitor_id must be a monitor id''
                  else if mid \<in> set seen then bad ''monitor_id'' ''a monitor can appear once on a page''
                  else entry_loop orgID (i + 1) (mid # seen) es
                         (entries @ [\<lparr>spm_ID = 0, spm_OrgID = orgID, spm_PageID = 0, spm_MonitorID = mid,
                                      spm_DisplayName = dn, spm_SortOrder = i\<rparr>]) errs)"

definition input_theme :: "StatusPageInput \<Rightarrow> StatusPageTheme" where
  "input_theme inp = (if spi_Theme inp = ThemeOther '''' then ThemeLight else spi_Theme inp)"

definition input_domain :: "StatusPageInput \<Rightarrow> string option" where
  "input_domain inp =
     (case spi_CustomDomain inp of
        None \<Rightarrow> None
      | Some d \<Rightarrow> if TrimSpace d = '''' then None else Some (TrimSpace d))"

definition statusPageFromInput :: "int \<Rightarrow> int \<Rightarrow> StatusPageInput \<Rightarrow> StatusPage \<times> StatusPageMonitor list \<times> field_errors" where
  "statusPageFromInput orgID i inp =
     (let name = TrimSpace (spi_Name inp);
          slug = ToLower (TrimSpace (spi_Slug inp));
          e1 = slug_errors slug (name_errors name []);
          e2 = err_if (\<not> theme_ok (input_theme inp)) ''theme'' (FieldMsg ''theme must be light or dark'') e1;
          e3 = err_if (int (length (spi_AccentColor inp)) > maxAccentColorLen) ''accent_color'' (FieldMsg ''accent_color is too long'') e2;
          e4 = err_if (int (length (spi_LogoUrl inp)) > maxLogoURLLen) ''logo_url'' (FieldMsg ''logo_url is too long'') e3;
          (entries, errs) = entry_loop orgID 0 [] (spi_DisplayMonitors inp) [] e4
      in (\<lparr>sp_ID = i, sp_OrgID = orgID, sp_Name = name, sp_Slug = slug, sp_LogoURL = spi_LogoUrl inp,
           sp_AccentColor = spi_AccentColor inp, sp_Theme = input_theme inp, sp_Published = False,
           sp_CustomDomain = input_domain inp, sp_CreatedAt = zero_time, sp_UpdatedAt = zero_time\<rparr>, entries, errs))"

section \<open>Answers\<close>

datatype 'a page_answer =
    PgOk 'a | PgUnauthorized | PgForbidden string | PgNotFound | PgFields field_errors | PgInvalid string
  | PgLimit int | PgInternal

type_synonym 'a page_handler = "pages_db \<Rightarrow> 'a page_answer \<times> pages_db"

datatype statusPageAction = statusPageView | statusPageManage

definition canStatusPage :: "Principal \<Rightarrow> statusPageAction \<Rightarrow> Decision" where
  "canStatusPage p action =
     Can (principal_Actor p) (case action of statusPageManage \<Rightarrow> ActionManageStatusPages | statusPageView \<Rightarrow> ActionViewMonitoring)
       (org_resource (p_OrgID p))"

text \<open>The first lines of every handler: the caller in an org, and the role gate.\<close>

definition page_gate :: "Principal option \<Rightarrow> statusPageAction \<Rightarrow> (Principal \<Rightarrow> 'a page_handler) \<Rightarrow> 'a page_handler" where
  "page_gate ctx action k s =
     (case humanInOrg ctx of
        None \<Rightarrow> (PgUnauthorized, s)
      | Some p \<Rightarrow>
          let d = canStatusPage p action
          in if \<not> dec_Allowed d then (PgForbidden (dec_Reason d), s) else k p s)"

definition missing_or_error :: "page_error \<Rightarrow> 'a page_answer" where
  "missing_or_error e = (if e = PageStore ErrNoRows then PgNotFound else PgInternal)"

record StatusPageDTO =
  spd_Id :: string
  spd_OrgId :: string
  spd_Name :: string
  spd_Slug :: string
  spd_LogoUrl :: string
  spd_AccentColor :: string
  spd_Theme :: StatusPageTheme
  spd_State :: StatusPageState
  spd_CustomDomain :: "string option"
  spd_DisplayMonitors :: "StatusPageMonitorEntry list"
  spd_CreatedAt :: time
  spd_UpdatedAt :: time

definition statusPageDTO :: "StatusPage \<Rightarrow> StatusPageMonitor list \<Rightarrow> StatusPageDTO" where
  "statusPageDTO sp entries =
     \<lparr>spd_Id = Itoa (sp_ID sp), spd_OrgId = Itoa (sp_OrgID sp), spd_Name = sp_Name sp, spd_Slug = sp_Slug sp,
      spd_LogoUrl = sp_LogoURL sp, spd_AccentColor = sp_AccentColor sp, spd_Theme = sp_Theme sp,
      spd_State = StatusPage_State sp, spd_CustomDomain = sp_CustomDomain sp,
      spd_DisplayMonitors = map (\<lambda>e. \<lparr>sme_MonitorId = Itoa (spm_MonitorID e), sme_DisplayName = spm_DisplayName e,
                                      sme_Order = spm_SortOrder e\<rparr>) entries,
      spd_CreatedAt = sp_CreatedAt sp, spd_UpdatedAt = sp_UpdatedAt sp\<rparr>"

definition statusPageCap :: "string option \<Rightarrow> int \<Rightarrow> int" where
  "statusPageCap plan orgID = StatusPageCap orgID (orgPlan plan)"

section \<open>The editor\<close>

definition loadStatusPage :: "fault \<times> fault \<Rightarrow> int \<Rightarrow> int \<Rightarrow> pages_db \<Rightarrow> page_error + (StatusPage \<times> StatusPageMonitor list)" where
  "loadStatusPage f orgID i s =
     (case store_GetStatusPage (fst f) orgID i s of
        Inl e \<Rightarrow> Inl e
      | Inr sp \<Rightarrow>
          (case ListStatusPageMonitors (snd f) orgID i s of Inl e \<Rightarrow> Inl e | Inr entries \<Rightarrow> Inr (sp, entries)))"

definition saved_page :: "fault \<times> fault \<Rightarrow> int \<Rightarrow> int \<Rightarrow> StatusPageDTO page_handler" where
  "saved_page f orgID i s =
     (case loadStatusPage f orgID i s of
        Inl _ \<Rightarrow> (PgInternal, s)
      | Inr (sp, entries) \<Rightarrow> (PgOk (statusPageDTO sp entries), s))"

text \<open>\<open>None\<close>: the monitors were set.\<close>

definition applyMonitors :: "fault \<Rightarrow> int \<Rightarrow> int \<Rightarrow> StatusPageMonitor list \<Rightarrow> pages_db \<Rightarrow> 'a page_answer option \<times> pages_db" where
  "applyMonitors f orgID pageID entries s =
     (case SetStatusPageMonitors f orgID pageID entries s of
        (Inr _, s1) \<Rightarrow> (None, s1)
      | (Inl e, s1) \<Rightarrow>
          (if e = ErrMonitorNotInOrg then Some (PgFields [(''display_monitors'', FieldMsg ''a monitor is not in this org'')])
           else if e = ErrStatusPageNotFound then Some (PgInvalid ''status page not found'')
           else Some PgInternal, s1))"

fun list_pages :: "(nat \<Rightarrow> fault) \<Rightarrow> int \<Rightarrow> StatusPage list \<Rightarrow> pages_db \<Rightarrow> StatusPageDTO list option" where
  "list_pages f orgID [] s = Some []"
| "list_pages f orgID (sp # sps) s =
     (case ListStatusPageMonitors (f (length sps)) orgID (sp_ID sp) s of
        Inl _ \<Rightarrow> None
      | Inr entries \<Rightarrow> map_option (\<lambda>ds. statusPageDTO sp entries # ds) (list_pages f orgID sps s))"

definition ListStatusPages :: "Principal option \<Rightarrow> fault \<Rightarrow> (nat \<Rightarrow> fault) \<Rightarrow> StatusPageDTO list page_handler" where
  "ListStatusPages ctx f g = page_gate ctx statusPageView (\<lambda>p s.
     case store_ListStatusPages f (p_OrgID p) s of
       Inl _ \<Rightarrow> (PgInternal, s)
     | Inr pages \<Rightarrow> (case list_pages g (p_OrgID p) pages s of None \<Rightarrow> PgInternal | Some ds \<Rightarrow> PgOk ds, s))"

definition GetStatusPage :: "Principal option \<Rightarrow> fault \<times> fault \<Rightarrow> string \<Rightarrow> StatusPageDTO page_handler" where
  "GetStatusPage ctx f rawID = page_gate ctx statusPageView (\<lambda>p s.
     case parseMonitorID rawID of
       None \<Rightarrow> (PgNotFound, s)
     | Some i \<Rightarrow>
         (case loadStatusPage f (p_OrgID p) i s of
            Inl e \<Rightarrow> (missing_or_error e, s)
          | Inr (sp, entries) \<Rightarrow> (PgOk (statusPageDTO sp entries), s)))"

text \<open>The faults: count, insert, monitors, and the two reads of the answer.\<close>

definition CreateStatusPage :: "Principal option \<Rightarrow> string option \<Rightarrow> (nat \<Rightarrow> fault) \<Rightarrow> time \<Rightarrow> StatusPageInput option
    \<Rightarrow> StatusPageDTO page_handler" where
  "CreateStatusPage ctx plan f now body = page_gate ctx statusPageManage (\<lambda>p s.
     case body of None \<Rightarrow> (PgInvalid ''body required'', s) | Some inp \<Rightarrow>
     let (sp, entries, fieldErrs) = statusPageFromInput (p_OrgID p) 0 inp in
     if fieldErrs \<noteq> [] then (PgFields fieldErrs, s)
     else case CountStatusPages (f 0) (p_OrgID p) s of Inl _ \<Rightarrow> (PgInternal, s) | Inr used \<Rightarrow>
     if used \<ge> statusPageCap plan (p_OrgID p) then (PgLimit (statusPageCap plan (p_OrgID p)), s)
     else case store_CreateStatusPage (f 1) now sp s of
       (Inl e, s1) \<Rightarrow> (if e = ErrSlugTaken then PgFields [(''slug'', FieldMsg ''slug is already taken'')] else PgInternal, s1)
     | (Inr created, s1) \<Rightarrow>
         (case applyMonitors (f 2) (p_OrgID p) (sp_ID created) entries s1 of
            (Some r, s2) \<Rightarrow> (r, s2)
          | (None, s2) \<Rightarrow> saved_page (f 3, f 4) (p_OrgID p) (sp_ID created) s2))"

definition UpdateStatusPage :: "Principal option \<Rightarrow> (nat \<Rightarrow> fault) \<Rightarrow> time \<Rightarrow> string \<Rightarrow> StatusPageInput option
    \<Rightarrow> StatusPageDTO page_handler" where
  "UpdateStatusPage ctx f now rawID body = page_gate ctx statusPageManage (\<lambda>p s.
     case body of None \<Rightarrow> (PgInvalid ''body required'', s) | Some inp \<Rightarrow>
     case parseMonitorID rawID of None \<Rightarrow> (PgNotFound, s) | Some i \<Rightarrow>
     case store_GetStatusPage (f 0) (p_OrgID p) i s of Inl e \<Rightarrow> (missing_or_error e, s) | Inr existing \<Rightarrow>
     let (sp, entries, fieldErrs) = statusPageFromInput (p_OrgID p) i inp in
     if fieldErrs \<noteq> [] then (PgFields fieldErrs, s)
     else case store_UpdateStatusPage (f 1) now (sp\<lparr>sp_Published := sp_Published existing\<rparr>) s of
       (Inl e, s1) \<Rightarrow> (if e = ErrSlugTaken then PgFields [(''slug'', FieldMsg ''slug is already taken'')] else missing_or_error e, s1)
     | (Inr _, s1) \<Rightarrow>
         (case applyMonitors (f 2) (p_OrgID p) i entries s1 of
            (Some r, s2) \<Rightarrow> (r, s2)
          | (None, s2) \<Rightarrow> saved_page (f 3, f 4) (p_OrgID p) i s2))"

definition PublishStatusPage :: "Principal option \<Rightarrow> (nat \<Rightarrow> fault) \<Rightarrow> time \<Rightarrow> string \<Rightarrow> bool option \<Rightarrow> StatusPageDTO page_handler" where
  "PublishStatusPage ctx f now rawID body = page_gate ctx statusPageManage (\<lambda>p s.
     case body of None \<Rightarrow> (PgInvalid ''body required'', s) | Some published \<Rightarrow>
     case parseMonitorID rawID of None \<Rightarrow> (PgNotFound, s) | Some i \<Rightarrow>
     case store_GetStatusPage (f 0) (p_OrgID p) i s of Inl e \<Rightarrow> (missing_or_error e, s) | Inr sp \<Rightarrow>
     case store_UpdateStatusPage (f 1) now (sp\<lparr>sp_Published := published\<rparr>) s of
       (Inl _, s1) \<Rightarrow> (PgInternal, s1)
     | (Inr _, s1) \<Rightarrow> saved_page (f 2, f 3) (p_OrgID p) i s1)"

definition DeleteStatusPage :: "Principal option \<Rightarrow> fault \<Rightarrow> string \<Rightarrow> unit page_handler" where
  "DeleteStatusPage ctx f rawID = page_gate ctx statusPageManage (\<lambda>p s.
     case parseMonitorID rawID of None \<Rightarrow> (PgOk (), s) | Some i \<Rightarrow>
     case store_DeleteStatusPage f (p_OrgID p) i s of
       (Inl _, s1) \<Rightarrow> (PgInternal, s1)
     | (Inr _, s1) \<Rightarrow> (PgOk (), s1))"

section \<open>The public page\<close>

definition GetPublicStatusPage :: "fault \<Rightarrow> (nat \<Rightarrow> time) \<Rightarrow> string \<Rightarrow> pages_db \<Rightarrow> PublicStatusPage page_answer" where
  "GetPublicStatusPage f clock rawSlug s =
     (let slug = TrimSpace rawSlug
      in if slug = '''' then PgNotFound
         else case store_GetPublicStatusPage f clock slug s of
                Inl e \<Rightarrow> missing_or_error e
              | Inr page \<Rightarrow> PgOk page)"

end
