(* ===== verification/Pulse_Status_Facts.thy ===== *)
theory Pulse_Status_Facts
  imports Pulse_Status_Pages
begin

text \<open>
  What the status pages promise: the public answer is a function of the public data of the published page alone,
  the tables stay well formed and within the plan, a request stays in its org, and what is created and
  published is what the public sees.
\<close>

section \<open>The public answer\<close>

text \<open>
  All that a visitor may learn: the branding of the published page and, for each entry, its display name,
  whether the monitor is enabled, when it was checked with which verdict, and when its incidents began and ended.
  No id, no URL, no header, no reason, no status code, no latency, no other monitor and no other org is in it.
\<close>

definition verdicts :: "db \<Rightarrow> int \<Rightarrow> (time \<times> bool) list" where
  "verdicts db i = map (\<lambda>r. (res_CheckedAt r, res_Healthy r)) (filter (\<lambda>r. res_MonitorID r = i) (db_results db))"

definition outages :: "db \<Rightarrow> int \<Rightarrow> (time \<times> time option) list" where
  "outages db i = map (\<lambda>x. (inc_StartedAt x, inc_EndedAt x)) (filter (\<lambda>x. inc_MonitorID x = i) (db_incidents db))"

definition monitor_enabled :: "db \<Rightarrow> int \<Rightarrow> bool option" where
  "monitor_enabled db i = map_option (\<lambda>r. mon_Enabled (row_Monitor r)) (find (\<lambda>r. row_ID r = i) (db_monitors db))"

definition entry_part :: "db \<Rightarrow> StatusPageMonitor \<Rightarrow> string \<times> bool option \<times> (time \<times> bool) list \<times> (time \<times> time option) list" where
  "entry_part db e = (spm_DisplayName e, monitor_enabled db (spm_MonitorID e), verdicts db (spm_MonitorID e), outages db (spm_MonitorID e))"

definition page_entries :: "pages_db \<Rightarrow> int \<Rightarrow> StatusPageMonitor list" where
  "page_entries s i = entry_order (filter (\<lambda>e. spm_PageID e = i) (pg_entries s))"

definition public_part where
  "public_part slug s = map_option (\<lambda>p.
     ((sp_Name p, sp_Slug p, sp_LogoURL p, sp_AccentColor p, sp_Theme p), map (entry_part (pg_db s)) (page_entries s (sp_ID p))))
     (find (named_page slug) (pg_pages s))"

lemma sort_key_map: "sort_key f (map g xs) = map g (sort_key (\<lambda>x. f (g x)) xs)"
proof -
  have "insort_key f (g x) (map g ys) = map g (insort_key (\<lambda>x. f (g x)) x ys)" for x ys
    by (induction ys) simp_all
  then show ?thesis by (induction xs) simp_all
qed

lemma order_desc_map: "order_desc f (map g xs) = map g (order_desc (\<lambda>x. f (g x)) xs)"
  by (simp add: order_desc_def sort_key_map)

lemma uptime_window_verdicts:
  "uptime_window db i since =
     (let vs = filter (\<lambda>v. since \<le> fst v) (verdicts db i)
      in if vs = [] then (100, False) else (of_nat (length (filter snd vs)) / of_nat (length vs) * 100, True))"
  by (simp add: uptime_window_def verdicts_def filter_map comp_def conj_commute Let_def)

lemma history_strip_verdicts:
  "history_strip db i = rev (map (\<lambda>(t, u). \<lparr>hp_At = t, hp_Up = u\<rparr>) (take 30 (order_desc fst (verdicts db i))))"
  by (simp add: history_strip_def verdicts_def order_desc_map take_map comp_def)

lemma uptime_verdicts: "verdicts db i = verdicts db' j \<Longrightarrow> publicMonitorUptime now db i = publicMonitorUptime now db' j"
  by (simp add: publicMonitorUptime_def uptime_window_verdicts history_strip_verdicts)

lemma last_incident_outages:
  "map_option inc_StartedAt (last_incident db i) = map_option fst (case order_desc fst (outages db i) of [] \<Rightarrow> None | x # _ \<Rightarrow> Some x)"
  "Option.bind (last_incident db i) inc_EndedAt = Option.bind (case order_desc fst (outages db i) of [] \<Rightarrow> None | x # _ \<Rightarrow> Some x) snd"
  by (simp_all add: last_incident_def outages_def order_desc_map split: list.split)

lemma some_result_verdicts: "list_ex (\<lambda>r. res_MonitorID r = i) (db_results db) \<longleftrightarrow> verdicts db i \<noteq> []"
  by (auto simp: verdicts_def list_ex_iff filter_empty_conv)

lemma open_incident_outages: "list_ex (\<lambda>x. inc_MonitorID x = i \<and> is_open x) (db_incidents db) \<longleftrightarrow> (\<exists>x \<in> set (outages db i). snd x = None)"
  by (auto simp: outages_def list_ex_iff is_open_def)

text \<open>Two rows that look the same from outside.\<close>

definition same_look :: "db \<Rightarrow> db \<Rightarrow> publicMonitorRow \<Rightarrow> publicMonitorRow \<Rightarrow> bool" where
  "same_look db db' r r' \<longleftrightarrow> pmr_displayName r = pmr_displayName r' \<and> pmr_enabled r = pmr_enabled r' \<and> pmr_hasResults r = pmr_hasResults r'
     \<and> pmr_openInc r = pmr_openInc r' \<and> pmr_lastIncAt r = pmr_lastIncAt r' \<and> pmr_lastIncEnd r = pmr_lastIncEnd r'
     \<and> verdicts db (pmr_monitorID r) = verdicts db' (pmr_monitorID r')"

lemma public_row_part:
  assumes "entry_part db e = entry_part db' e'"
  shows "rel_option (same_look db db') (public_row db e) (public_row db' e')"
  using assms
  by (cases "find (\<lambda>r. row_ID r = spm_MonitorID e) (db_monitors db)"; cases "find (\<lambda>r. row_ID r = spm_MonitorID e') (db_monitors db')")
     (simp_all add: public_row_def entry_part_def monitor_enabled_def same_look_def Let_def last_incident_outages
      some_result_verdicts open_incident_outages)

lemma public_rows_part:
  "map (entry_part db) es = map (entry_part db') es' \<Longrightarrow>
     list_all2 (same_look db db') (List.map_filter (public_row db) es) (List.map_filter (public_row db') es')"
proof (induction es arbitrary: es')
  case (Cons e es)
  then obtain e' es1 where e: "es' = e' # es1" "entry_part db e = entry_part db' e'" "map (entry_part db) es = map (entry_part db') es1"
    by (cases es') auto
  from public_row_part [OF e(2)] Cons.IH [OF e(3)] show ?case
    by (auto simp: e(1) map_filter_simps elim!: option.rel_cases)
qed (simp add: map_filter_simps)

lemma public_loop_same:
  "list_all2 (same_look db db') rs rs' \<Longrightarrow> public_loop clock db rs st w page = public_loop clock db' rs' st w page"
proof (induction arbitrary: st w page rule: list_all2_induct)
  case (Cons r rs r' rs')
  have "pmr_displayName r' = pmr_displayName r" "public_status r' = public_status r" "public_incident r' = public_incident r"
    using Cons.hyps(1) by (auto simp: same_look_def public_status_def public_incident_def split: option.split)
  moreover have "publicMonitorUptime t db (pmr_monitorID r) = publicMonitorUptime t db' (pmr_monitorID r')" for t
    using Cons.hyps(1) by (intro uptime_verdicts) (simp add: same_look_def)
  ultimately show ?case by (simp add: Let_def Cons.IH split: prod.split)
qed simp


lemma filter_shown: "shown i \<Longrightarrow> filter (\<lambda>x. key x = i) (filter (\<lambda>x. shown (key x)) xs) = filter (\<lambda>x. key x = i) xs"
  by (induction xs) auto

lemma find_filter_imp: "(\<And>x. x \<in> set xs \<Longrightarrow> P x \<Longrightarrow> Q x) \<Longrightarrow> find P (filter Q xs) = find P xs"
  by (induction xs) auto

text \<open>The policies hide nothing of the page that is asked for.\<close>

lemma public_view_page:
  assumes "find (named_page slug) (pg_pages s) = Some p"
  shows "page_entries (public_view slug s) (sp_ID p) = page_entries s (sp_ID p)"
    and "e \<in> set (page_entries s (sp_ID p)) \<Longrightarrow> entry_part (pg_db (public_view slug s)) e = entry_part (pg_db s) e"
proof -
  have p: "p \<in> set (pg_pages s)" "named_page slug p" using find_Some_set [OF assms] by auto
  then show "page_entries (public_view slug s) (sp_ID p) = page_entries s (sp_ID p)"
    unfolding page_entries_def public_view_def Let_def
    by (intro arg_cong [where f = entry_order]) (auto simp: list_ex_iff intro!: filter_cong)
  assume "e \<in> set (page_entries s (sp_ID p))"
  then have e: "e \<in> set (pg_entries s)" "spm_PageID e = sp_ID p" by (auto simp: page_entries_def entry_order_def)
  let ?shown = "\<lambda>i. list_ex (\<lambda>e. spm_MonitorID e = i)
      (filter (\<lambda>e. list_ex (\<lambda>p. sp_ID p = spm_PageID e) (filter (named_page slug) (pg_pages s))) (pg_entries s))"
  have shown: "?shown (spm_MonitorID e)" using e p by (simp add: list_ex_iff) metis
  show "entry_part (pg_db (public_view slug s)) e = entry_part (pg_db s) e"
    unfolding entry_part_def monitor_enabled_def verdicts_def outages_def public_view_def Let_def
    using shown filter_shown [of ?shown "spm_MonitorID e" res_MonitorID "db_results (pg_db s)"]
      filter_shown [of ?shown "spm_MonitorID e" inc_MonitorID "db_incidents (pg_db s)"]
      find_filter_imp [of "db_monitors (pg_db s)" "\<lambda>r. row_ID r = spm_MonitorID e" "\<lambda>r. ?shown (row_ID r)"]
    by (simp del: filter_filter)
qed

lemma public_view_find: "slug \<noteq> '''' \<Longrightarrow>
    find (\<lambda>p. sp_Published p \<and> ToLower (sp_Slug p) = ToLower slug) (pg_pages (public_view slug s)) = find (named_page slug) (pg_pages s)"
  by (simp add: public_view_def Let_def find_filter_imp named_page_def [abs_def])

lemma public_answer_part:
  assumes "slug \<noteq> ''''" and "public_part slug s = public_part slug s'"
  shows "store_GetPublicStatusPage f clock slug s = store_GetPublicStatusPage f clock slug s'"
proof (cases "find (named_page slug) (pg_pages s)")
  case None
  then have "find (named_page slug) (pg_pages s') = None" using assms(2) by (simp add: public_part_def)
  with None assms(1) show ?thesis by (simp add: store_GetPublicStatusPage_def public_view_find Let_def)
next
  case (Some p)
  then obtain p' where p': "find (named_page slug) (pg_pages s') = Some p'" and b: "branding p' = branding p"
      and es: "map (entry_part (pg_db s)) (page_entries s (sp_ID p)) = map (entry_part (pg_db s')) (page_entries s' (sp_ID p'))"
    using assms(2) by (cases "find (named_page slug) (pg_pages s')") (simp_all add: public_part_def branding_def)
  let ?v = "public_view slug s" and ?v' = "public_view slug s'"
  have "map (entry_part (pg_db ?v)) (page_entries ?v (sp_ID p)) = map (entry_part (pg_db ?v')) (page_entries ?v' (sp_ID p'))"
    using es by (simp add: public_view_page [OF Some] public_view_page [OF p'] cong: map_cong)
  from public_loop_same [OF public_rows_part [OF this]] show ?thesis
    by (simp add: store_GetPublicStatusPage_def public_view_find [OF assms(1)] Some p' b Let_def flip: page_entries_def)
qed

text \<open>
  C8. The privacy boundary of the public page: its answer is a function of the public part of the published page
  with that slug, so that no URL, header, body, failure detail, id or row of another monitor or org can be told from it;
  and a draft is answered like a slug that does not exist.
\<close>

theorem public_page_noninterference:
  assumes "public_part (TrimSpace slug) s = public_part (TrimSpace slug) s'"
  shows "GetPublicStatusPage f clock slug s = GetPublicStatusPage f clock slug s'
    \<and> ((\<forall>p \<in> set (pg_pages s). ToLower (sp_Slug p) = ToLower (TrimSpace slug) \<longrightarrow> \<not> sp_Published p)
       \<longrightarrow> GetPublicStatusPage f clock slug s = GetPublicStatusPage f clock slug (s\<lparr>pg_pages := []\<rparr>))"
proof -
  have same: "GetPublicStatusPage f clock slug t = GetPublicStatusPage f clock slug t'"
    if "public_part (TrimSpace slug) t = public_part (TrimSpace slug) t'" for t t'
    using public_answer_part [OF _ that] by (simp add: GetPublicStatusPage_def Let_def)
  have "public_part (TrimSpace slug) s = public_part (TrimSpace slug) (s\<lparr>pg_pages := []\<rparr>)"
    if "\<forall>p \<in> set (pg_pages s). ToLower (sp_Slug p) = ToLower (TrimSpace slug) \<longrightarrow> \<not> sp_Published p"
    using that by (auto simp: public_part_def named_page_def find_None_iff)
  then show ?thesis using same assms by blast
qed


section \<open>Witnesses\<close>

definition ex_page :: "bool \<Rightarrow> StatusPage" where
  "ex_page published = \<lparr>sp_ID = 1, sp_OrgID = 1, sp_Name = ''Acme'', sp_Slug = ''acme'', sp_LogoURL = '''', sp_AccentColor = '''',
     sp_Theme = ThemeLight, sp_Published = published, sp_CustomDomain = None, sp_CreatedAt = 0, sp_UpdatedAt = 0\<rparr>"

definition ex_entry :: StatusPageMonitor where
  "ex_entry = \<lparr>spm_ID = 1, spm_OrgID = 1, spm_PageID = 1, spm_MonitorID = 1, spm_DisplayName = ''Shop'', spm_SortOrder = 0\<rparr>"

definition ex_url :: "string \<Rightarrow> db \<Rightarrow> db" where
  "ex_url url db = db\<lparr>db_monitors := map (\<lambda>r. r\<lparr>row_Monitor := (row_Monitor r)\<lparr>mon_URL := url\<rparr>\<rparr>) (db_monitors db)\<rparr>"

definition ex_pages :: "bool \<Rightarrow> string \<Rightarrow> pages_db" where
  "ex_pages published url = \<lparr>pg_db = ex_url url (ex_db 1 MonitorHTTP), pg_pages = [ex_page published], pg_entries = [ex_entry],
     pg_next_page = 2, pg_next_entry = 2\<rparr>"

lemma ex_public_part:
  "public_part slug (ex_pages pub url) = public_part slug (ex_pages pub ''https://example.com'')"
  by (simp add: public_part_def ex_pages_def page_entries_def entry_part_def monitor_enabled_def verdicts_def outages_def ex_url_def
      ex_db_eval)

theorem public_page_noninterference_witness:
  "GetPublicStatusPage NoFault (\<lambda>_. 99) ''acme'' (ex_pages True ''http://10.0.0.7/secret'') =
     GetPublicStatusPage NoFault (\<lambda>_. 99) ''acme'' (ex_pages True ''https://example.com'')
   \<and> GetPublicStatusPage NoFault (\<lambda>_. 99) ''acme'' (ex_pages True ''https://example.com'') \<noteq> PgNotFound
   \<and> GetPublicStatusPage NoFault (\<lambda>_. 99) ''acme'' (ex_pages False ''https://example.com'') = PgNotFound"
proof -
  have "GetPublicStatusPage NoFault (\<lambda>_. 99) ''acme'' (ex_pages True ''https://example.com'') \<noteq> PgNotFound" by code_simp
  moreover have "GetPublicStatusPage NoFault (\<lambda>_. 99) ''acme'' ((ex_pages False ''https://example.com'')\<lparr>pg_pages := []\<rparr>) = PgNotFound"
    by code_simp
  moreover have "\<forall>p \<in> set (pg_pages (ex_pages False ''https://example.com'')). \<not> sp_Published p"
    by (simp add: ex_pages_def ex_page_def)
  ultimately show ?thesis
    using public_page_noninterference [OF ex_public_part [of _ True "''http://10.0.0.7/secret''"], where slug = "''acme''" and f = NoFault and clock = "\<lambda>_. 99"]
      public_page_noninterference [OF ex_public_part [of _ False "''https://example.com''"], where slug = "''acme''" and f = NoFault and clock = "\<lambda>_. 99"]
    by auto
qed

end
