(* ===== verification/Pulse_Status_Tables.thy ===== *)
theory Pulse_Status_Tables
  imports Pulse_Status_Facts
begin

text \<open>
  The tables of the status pages over time: a locale states what the store promises for one call of an org, the requests of
  the editor inherit it, and with the steps of the monitor and incident store it gives the invariant of the tables.
\<close>

section \<open>Well-formed tables\<close>

definition org_pages :: "pages_db \<Rightarrow> int \<Rightarrow> StatusPage list" where
  "org_pages s i = filter (\<lambda>p. sp_OrgID p = i) (pg_pages s)"

definition org_entries :: "pages_db \<Rightarrow> int \<Rightarrow> StatusPageMonitor list" where
  "org_entries s i = filter (\<lambda>e. spm_OrgID e = i) (pg_entries s)"

definition page_count :: "pages_db \<Rightarrow> int \<Rightarrow> int" where
  "page_count s i = int (length (org_pages s i))"

definition page_keys :: "StatusPage list \<Rightarrow> (int \<times> int) set" where
  "page_keys ps = (\<lambda>p. (sp_ID p, sp_OrgID p)) ` set ps"

definition wf_page_rows :: "int list \<Rightarrow> int \<Rightarrow> StatusPage list \<Rightarrow> bool" where
  "wf_page_rows orgs n ps \<longleftrightarrow> distinct (map sp_ID ps) \<and> distinct (map (\<lambda>p. ToLower (sp_Slug p)) ps)
     \<and> (\<forall>p \<in> set ps. sp_ID p < n \<and> sp_OrgID p \<in> set orgs \<and> theme_ok (sp_Theme p))"

text \<open>An entry is of a page and of a monitor of its own org, and a monitor is on a page once.\<close>

definition wf_entries :: "(int \<times> int) set \<Rightarrow> (int \<times> int) set \<Rightarrow> StatusPageMonitor list \<Rightarrow> bool" where
  "wf_entries pages monitors es \<longleftrightarrow> distinct (map (\<lambda>e. (spm_PageID e, spm_MonitorID e)) es)
     \<and> (\<forall>e \<in> set es. (spm_PageID e, spm_OrgID e) \<in> pages \<and> (spm_MonitorID e, spm_OrgID e) \<in> monitors)"

definition wf_pages :: "pages_db \<Rightarrow> bool" where
  "wf_pages s \<longleftrightarrow> wf_db (pg_db s) \<and> wf_page_rows (db_orgs (pg_db s)) (pg_next_page s) (pg_pages s)
     \<and> wf_entries (page_keys (pg_pages s)) (monitor_keys (db_monitors (pg_db s))) (pg_entries s)"

section \<open>One call of an org\<close>

text \<open>What a call keeps: the other tables, the other orgs, and the bound on the number of pages.\<close>

definition page_ok :: "(int \<Rightarrow> int) \<Rightarrow> int \<Rightarrow> pages_db \<Rightarrow> pages_db \<Rightarrow> bool" where
  "page_ok cap i s s' \<longleftrightarrow> (wf_pages s \<longrightarrow> wf_pages s' \<and> pg_db s' = pg_db s
     \<and> (\<forall>j. j \<noteq> i \<longrightarrow> org_pages s' j = org_pages s j \<and> org_entries s' j = org_entries s j)
     \<and> page_count s' i \<le> max (page_count s i) (cap i))"

lemma page_ok_refl: "page_ok cap i s s"
  by (simp add: page_ok_def)

lemma page_ok_trans: "page_ok cap i s t \<Longrightarrow> page_ok cap i t u \<Longrightarrow> page_ok cap i s u"
  by (auto simp: page_ok_def)

lemma wf_page_rows_mono: "wf_page_rows orgs n ps \<Longrightarrow> n \<le> m \<Longrightarrow> wf_page_rows orgs m ps"
  by (fastforce simp: wf_page_rows_def)

lemma page_ok_run:
  assumes "\<And>a s'. fn s = (Inr a, s') \<Longrightarrow> page_ok cap i s s'" and "pg_next_page s \<le> pg_next_page (snd (fn s))"
  shows "page_ok cap i s (snd (pg_run f fn s))"
proof -
  obtain r s' where r: "fn s = (r, s')" by fastforce
  have "page_ok cap i s (pg_rolled_back s s')"
    using assms(2) r wf_page_rows_mono
    by (auto simp: page_ok_def wf_pages_def pg_rolled_back_def org_pages_def org_entries_def page_count_def)
  then show ?thesis using assms(1) r page_ok_refl by (cases r) (simp_all add: pg_run_def)
qed

lemma page_defaults_sel [simp]: "sp_OrgID (page_defaults sp) = sp_OrgID sp" "sp_ID (page_defaults sp) = sp_ID sp"
  "sp_Slug (page_defaults sp) = sp_Slug sp" "sp_Name (page_defaults sp) = sp_Name sp" "sp_Published (page_defaults sp) = sp_Published sp"
  by (simp_all add: page_defaults_def)

lemma create_page_ok:
  assumes "page_count s (sp_OrgID sp) < cap (sp_OrgID sp)"
  shows "page_ok cap (sp_OrgID sp) s (snd (store_CreateStatusPage f now sp s))"
  unfolding store_CreateStatusPage_def
proof (rule page_ok_run, goal_cases)
  case (1 a s')
  let ?sp = "(page_defaults sp)\<lparr>sp_ID := pg_next_page s, sp_CreatedAt := now, sp_UpdatedAt := now\<rparr>"
  from 1 have ok: "theme_ok (sp_Theme ?sp)" "\<not> page_slug_taken (pg_next_page s) (sp_Slug sp) s" "sp_OrgID sp \<in> set (db_orgs (pg_db s))"
    and s': "s' = s\<lparr>pg_next_page := pg_next_page s + 1, pg_pages := pg_pages s @ [?sp]\<rparr>"
    by (auto simp: Let_def split: if_splits)
  have "wf_pages s'" if wf: "wf_pages s"
  proof -
    have fresh: "\<forall>p \<in> set (pg_pages s). sp_ID p < pg_next_page s" using wf by (simp add: wf_pages_def wf_page_rows_def)
    then have "\<forall>p \<in> set (pg_pages s). ToLower (sp_Slug p) \<noteq> ToLower (sp_Slug sp)"
      using ok(2) by (fastforce simp: page_slug_taken_def list_ex_iff)
    then show ?thesis using wf ok fresh
      by (fastforce simp: s' wf_pages_def wf_page_rows_def wf_entries_def page_keys_def)
  qed
  then show ?case
    using assms by (simp add: page_ok_def s' org_pages_def org_entries_def page_count_def)
qed (simp add: Let_def)

lemma distinct_map_upd:
  assumes "distinct (map key xs)" and "\<And>x. x \<in> set xs \<Longrightarrow> \<not> P x \<Longrightarrow> key x \<noteq> key v"
    and "\<And>x y. x \<in> set xs \<Longrightarrow> y \<in> set xs \<Longrightarrow> P x \<Longrightarrow> P y \<Longrightarrow> key x = key y"
  shows "distinct (map key (map (\<lambda>x. if P x then v else x) xs))"
  using assms
proof (induction xs)
  case (Cons x xs)
  have "distinct (map key (map (\<lambda>x. if P x then v else x) xs))" using Cons by simp
  moreover have "key (if P x then v else x) \<noteq> key (if P y then v else y)" if "y \<in> set xs" for y
  proof (cases "P x"; cases "P y")
    assume "P x" "P y"
    then have "key x = key y" using Cons.prems(3) that by simp
    then show ?thesis using Cons.prems(1) that by auto
  next
    assume "P x" "\<not> P y"
    then show ?thesis using Cons.prems(2) [of y] that by simp
  next
    assume "\<not> P x" "P y"
    then show ?thesis using Cons.prems(2) [of x] by simp
  qed (use Cons.prems(1) that in auto)
  ultimately show ?case by fastforce
qed simp

lemma update_page_ok: "page_ok cap (sp_OrgID sp) s (snd (store_UpdateStatusPage f now sp s))"
  unfolding store_UpdateStatusPage_def Let_def
proof (rule page_ok_run, goal_cases)
  case (1 new s')
  let ?P = "of_page (sp_OrgID sp) (sp_ID sp)"
  from 1 have ok: "theme_ok (sp_Theme new)" "\<not> page_slug_taken (sp_ID sp) (sp_Slug sp) s"
    and new: "sp_ID new = sp_ID sp" "sp_OrgID new = sp_OrgID sp" "sp_Slug new = sp_Slug sp" and ex: "\<exists>old \<in> set (pg_pages s). ?P old"
    and s': "s' = s\<lparr>pg_pages := map (\<lambda>p. if ?P p then new else p) (pg_pages s)\<rparr>"
    by (auto split: option.splits if_splits dest: find_Some_set)
  have keys: "(sp_ID (if ?P p then new else p), sp_OrgID (if ?P p then new else p)) = (sp_ID p, sp_OrgID p)" for p
    by (simp add: of_page_def new)
  have "wf_pages s'" if wf: "wf_pages s"
  proof -
    have d: "distinct (map sp_ID (pg_pages s))" using wf by (simp add: wf_pages_def wf_page_rows_def)
    have one: "x = y" if "x \<in> set (pg_pages s)" "y \<in> set (pg_pages s)" "sp_ID x = sp_ID y" for x y
      using d that by (auto simp: distinct_map dest: inj_onD)
    have "distinct (map (\<lambda>p. ToLower (sp_Slug p)) (map (\<lambda>p. if ?P p then new else p) (pg_pages s)))"
    proof (rule distinct_map_upd)
      show "distinct (map (\<lambda>p. ToLower (sp_Slug p)) (pg_pages s))" using wf by (simp add: wf_pages_def wf_page_rows_def)
      show "ToLower (sp_Slug x) \<noteq> ToLower (sp_Slug new)" if "x \<in> set (pg_pages s)" "\<not> ?P x" for x
        using ok(2) that ex by (auto simp: page_slug_taken_def list_ex_iff new of_page_def) (metis one)
    qed (auto simp: of_page_def dest: one)
    moreover have "page_keys (map (\<lambda>p. if ?P p then new else p) (pg_pages s)) = page_keys (pg_pages s)"
      by (simp only: page_keys_def set_map image_image keys)
    moreover have "map sp_ID (map (\<lambda>p. if ?P p then new else p) (pg_pages s)) = map sp_ID (pg_pages s)"
      using keys by simp
    moreover have "\<forall>p \<in> set (map (\<lambda>p. if ?P p then new else p) (pg_pages s)).
        sp_ID p < pg_next_page s \<and> sp_OrgID p \<in> set (db_orgs (pg_db s)) \<and> theme_ok (sp_Theme p)"
      using wf ok(1) by (auto simp: wf_pages_def wf_page_rows_def of_page_def new)
    ultimately show ?thesis using wf unfolding wf_pages_def wf_page_rows_def
      by (simp add: s' del: map_map set_map list.set_map map_eq_conv)
  qed
  moreover have "org_pages s' j = org_pages s j" if "j \<noteq> sp_OrgID sp" for j
  proof -
    have "filter (\<lambda>p. sp_OrgID p = j) (map (\<lambda>p. if ?P p then new else p) (pg_pages s)) = filter (\<lambda>p. sp_OrgID p = j) (pg_pages s)"
      by (rule filter_map_other) (use that in \<open>auto simp: of_page_def new\<close>)
    then show ?thesis by (simp add: org_pages_def s' del: filter_map)
  qed
  moreover have "page_count s' j = page_count s j" for j
    using keys by (simp add: s' page_count_def org_pages_def filter_map comp_def)
  ultimately show ?case by (simp add: page_ok_def s' org_entries_def)
qed (simp split: option.split)


text \<open>The inserts of a list of monitors of the org.\<close>

lemma insert_entries_ok:
  assumes "insert_entries o' i n es s = (Inr u, s')" and "wf_entries pages keys (pg_entries s)" and "(i, o') \<in> pages"
    and "\<forall>e \<in> set es. (spm_MonitorID e, o') \<in> keys"
  shows "wf_entries pages keys (pg_entries s') \<and> (\<forall>j. j \<noteq> o' \<longrightarrow> org_entries s' j = org_entries s j)"
  using assms
proof (induction o' i n es s rule: insert_entries.induct)
  case (2 o' i n e es s)
  let ?x = "\<lparr>spm_ID = pg_next_entry s, spm_OrgID = o', spm_PageID = i, spm_MonitorID = spm_MonitorID e,
      spm_DisplayName = spm_DisplayName e, spm_SortOrder = n\<rparr>"
  let ?s = "s\<lparr>pg_next_entry := pg_next_entry s + 1, pg_entries := pg_entries s @ [?x]\<rparr>"
  have new: "\<not> list_ex (\<lambda>x. spm_PageID x = i \<and> spm_MonitorID x = spm_MonitorID e) (pg_entries s)"
    and rest: "insert_entries o' i (n + 1) es ?s = (Inr u, s')"
    using "2.prems"(1) by (auto simp: Let_def split: if_splits)
  have "wf_entries pages keys (pg_entries ?s)"
    using "2.prems"(2-4) new by (force simp: wf_entries_def list_ex_iff)
  moreover have "org_entries ?s j = org_entries s j" if "j \<noteq> o'" for j using that by (simp add: org_entries_def)
  ultimately show ?case using "2.IH" [OF refl refl new] rest "2.prems"(3,4) by simp
qed simp

lemma insert_entries_frame:
  "pg_db (snd (insert_entries o' i n es s)) = pg_db s \<and> pg_pages (snd (insert_entries o' i n es s)) = pg_pages s
   \<and> pg_next_page (snd (insert_entries o' i n es s)) = pg_next_page s"
  by (induction o' i n es s rule: insert_entries.induct) (simp_all add: Let_def)

lemma found_monitors_keys:
  assumes "found_monitors o' ids db = distinctCount ids" and "i \<in> set ids"
  shows "(i, o') \<in> monitor_keys (db_monitors db)"
proof -
  let ?rows = "filter (\<lambda>r. row_OrgID r = o' \<and> row_ID r \<in> set ids) (db_monitors db)"
  have "card (row_ID ` set ?rows) = card (set ids)"
    using assms(1) by (simp add: found_monitors_def distinctCount_def length_remdups_card_conv)
  moreover have "row_ID ` set ?rows \<subseteq> set ids" by auto
  ultimately have "row_ID ` set ?rows = set ids" by (intro card_subset_eq) simp_all
  then show ?thesis using assms(2) by (force simp: monitor_keys_def)
qed

lemma set_monitors_ok: "page_ok cap o' s (snd (SetStatusPageMonitors f o' i es s))"
  unfolding SetStatusPageMonitors_def Let_def
proof (rule page_ok_run, goal_cases)
  case (1 a s')
  let ?s = "s\<lparr>pg_entries := filter (\<lambda>e. \<not> (spm_PageID e = i \<and> spm_OrgID e = o')) (pg_entries s)\<rparr>"
  from 1 have page: "(i, o') \<in> page_keys (pg_pages s)" and ins: "insert_entries o' i 0 es ?s = (Inr a, s')"
    and ids: "es \<noteq> [] \<longrightarrow> found_monitors o' (map spm_MonitorID es) (pg_db s) = distinctCount (map spm_MonitorID es)"
    by (force simp: list_ex_iff of_page_def page_keys_def split: if_splits)+
  have es: "\<forall>e \<in> set es. (spm_MonitorID e, o') \<in> monitor_keys (db_monitors (pg_db s))"
    using ids found_monitors_keys [of o' "map spm_MonitorID es" "pg_db s"] by fastforce
  have same: "pg_db s' = pg_db s" "pg_pages s' = pg_pages s" "pg_next_page s' = pg_next_page s"
    using insert_entries_frame [of o' i 0 es ?s] ins by simp_all
  have other: "org_entries ?s j = org_entries s j" if "j \<noteq> o'" for j
    using that by (auto simp: org_entries_def intro!: filter_cong)
  show ?case unfolding page_ok_def
  proof (intro impI)
    assume wf: "wf_pages s"
    have "wf_entries (page_keys (pg_pages s)) (monitor_keys (db_monitors (pg_db s))) (pg_entries ?s)"
      using wf by (auto simp: wf_pages_def wf_entries_def distinct_map inj_on_def)
    from insert_entries_ok [OF ins this page es] wf show "wf_pages s' \<and> pg_db s' = pg_db s
        \<and> (\<forall>j. j \<noteq> o' \<longrightarrow> org_pages s' j = org_pages s j \<and> org_entries s' j = org_entries s j)
        \<and> page_count s' o' \<le> max (page_count s o') (cap o')"
      using other by (simp add: wf_pages_def same org_pages_def page_count_def)
  qed
qed (use insert_entries_frame in \<open>simp add: insert_entries_frame\<close>)

lemma length_filter_filter_le: "length (filter P (filter Q xs)) \<le> length (filter P xs)"
  by (induction xs) auto

lemma delete_page_ok: "page_ok cap o' s (snd (store_DeleteStatusPage f o' i s))"
  unfolding store_DeleteStatusPage_def
proof (rule page_ok_run, goal_cases)
  case (1 a s')
  show ?case
  proof (cases "list_ex (of_page o' i) (pg_pages s)")
    case True
    then obtain p where p: "p \<in> set (pg_pages s)" "sp_ID p = i" "sp_OrgID p = o'" by (auto simp: list_ex_iff of_page_def)
    have s': "s' = s\<lparr>pg_pages := filter (\<lambda>p. \<not> of_page o' i p) (pg_pages s), pg_entries := filter (\<lambda>e. spm_PageID e \<noteq> i) (pg_entries s)\<rparr>"
      using 1 True by simp
    show ?thesis unfolding page_ok_def
    proof (intro impI conjI allI)
      assume wf: "wf_pages s"
      have entry: "spm_OrgID e = o'" if "e \<in> set (pg_entries s)" "spm_PageID e = i" for e
        using wf that p by (force simp: wf_pages_def wf_page_rows_def wf_entries_def page_keys_def distinct_map dest: inj_onD)
      show "wf_pages s'"
        using wf by (auto simp: s' wf_pages_def wf_page_rows_def wf_entries_def page_keys_def of_page_def distinct_map inj_on_def)
      show "org_entries s' j = org_entries s j" if "j \<noteq> o'" for j
        using that entry by (auto simp: s' org_entries_def intro!: filter_cong)
      show "org_pages s' j = org_pages s j" if "j \<noteq> o'" for j
        using that by (auto simp: s' org_pages_def of_page_def intro!: filter_cong)
      show "page_count s' o' \<le> max (page_count s o') (cap o')"
        using length_filter_filter_le [of "\<lambda>p. sp_OrgID p = o'" "\<lambda>p. \<not> of_page o' i p" "pg_pages s"]
        by (simp add: s' page_count_def org_pages_def del: filter_filter)
    qed (simp add: s')
  qed (use 1 page_ok_refl in simp)
qed simp


section \<open>Requests\<close>

text \<open>
  What the editor relies on: a relation between tables that the store calls of an org keep, a new page only
  while the org is below its cap.  Every request of the editor keeps it then.
\<close>

locale page_store =
  fixes R :: "int \<Rightarrow> pages_db \<Rightarrow> pages_db \<Rightarrow> bool" and cap :: "int \<Rightarrow> int"
  assumes R_refl: "R i s s"
    and R_trans: "R i s t \<Longrightarrow> R i t u \<Longrightarrow> R i s u"
    and R_create: "page_count s (sp_OrgID sp) < cap (sp_OrgID sp) \<Longrightarrow> R (sp_OrgID sp) s (snd (store_CreateStatusPage f now sp s))"
    and R_update: "R (sp_OrgID sp) s (snd (store_UpdateStatusPage f now sp s))"
    and R_set: "R i s (snd (SetStatusPageMonitors f i page es s))"
    and R_delete: "R i s (snd (store_DeleteStatusPage f i page s))"
begin

lemma apply_monitors: "R i s (snd (applyMonitors f i page es s))"
  using R_set [of i s f page es] by (auto simp: applyMonitors_def split: prod.split sum.split)

lemma gated: "humanInOrg ctx = Some p \<Longrightarrow> R (p_OrgID p) s (snd (k p s)) \<Longrightarrow> R (p_OrgID p) s (snd (page_gate ctx a k s))"
  by (simp add: page_gate_def Let_def R_refl)

lemma saved: "snd (saved_page f i page s) = s"
  by (simp add: saved_page_def split: sum.split)

lemma create_then: "R i s (snd (case applyMonitors f i page es s of (Some r, s2) \<Rightarrow> (r, s2) | (None, s2) \<Rightarrow> saved_page g i page s2))"
proof -
  have "R i s (snd (applyMonitors f i page es s :: StatusPageDTO page_answer option \<times> pages_db))" by (rule apply_monitors)
  then show ?thesis by (auto simp: saved split: prod.split option.split)
qed

text \<open>A write, and the rest of the handler where it succeeded.\<close>

lemma write_then:
  assumes "R i s (snd x)" and "\<And>e t. snd (h e t) = t" and "\<And>a t. R i t (snd (k a t))"
  shows "R i s (snd (case x of (Inl e, t) \<Rightarrow> h e t | (Inr a, t) \<Rightarrow> k a t))"
proof -
  obtain r t where x: "x = (r, t)" by fastforce
  then show ?thesis using assms R_trans [of i s t] by (cases r) simp_all
qed

lemma CreateStatusPage_R:
  assumes "humanInOrg ctx = Some p" and "statusPageCap plan (p_OrgID p) \<le> cap (p_OrgID p)"
  shows "R (p_OrgID p) s (snd (CreateStatusPage ctx plan f now body s))"
  unfolding CreateStatusPage_def
proof (rule gated [OF assms(1)], goal_cases)
  case 1
  show ?case
  proof (cases body)
    case (Some inp)
    obtain sp entries errs where i: "statusPageFromInput (p_OrgID p) 0 inp = (sp, entries, errs)" by (cases "statusPageFromInput (p_OrgID p) 0 inp")
    then have sp: "sp_OrgID sp = p_OrgID p" by (auto simp: statusPageFromInput_def Let_def split: prod.splits)
    show ?thesis
    proof (cases "errs \<noteq> [] \<or> (\<forall>used. CountStatusPages (f 0) (p_OrgID p) s = Inr used \<longrightarrow> statusPageCap plan (p_OrgID p) \<le> used)")
      case True
      then show ?thesis using Some i R_refl by (auto split: sum.split)
    next
      case False
      then obtain used where used: "CountStatusPages (f 0) (p_OrgID p) s = Inr used" "\<not> statusPageCap plan (p_OrgID p) \<le> used" "errs = []" by auto
      then have "page_count s (p_OrgID p) < cap (p_OrgID p)"
        using assms(2) by (auto simp: CountStatusPages_def pg_read_def page_count_def org_pages_def split: if_splits)
      then have "R (p_OrgID p) s (snd (store_CreateStatusPage (f 1) now sp s))" using R_create [of s sp "f 1" now] sp by simp
      then have "R (p_OrgID p) s (snd (case store_CreateStatusPage (f 1) now sp s of
          (Inl e, s1) \<Rightarrow> (if e = ErrSlugTaken then PgFields [(''slug'', FieldMsg ''slug is already taken'')] else PgInternal, s1)
        | (Inr created, s1) \<Rightarrow>
            (case applyMonitors (f 2) (p_OrgID p) (sp_ID created) entries s1 of
               (Some r, s2) \<Rightarrow> (r, s2)
             | (None, s2) \<Rightarrow> saved_page (f 3, f 4) (p_OrgID p) (sp_ID created) s2)))"
        by (rule write_then) (simp, rule create_then)
      then show ?thesis using Some i used by (simp del: One_nat_def)
    qed
  qed (simp add: R_refl)
qed

lemma UpdateStatusPage_R:
  assumes "humanInOrg ctx = Some p"
  shows "R (p_OrgID p) s (snd (UpdateStatusPage ctx f now rawID body s))"
  unfolding UpdateStatusPage_def
proof (rule gated [OF assms], goal_cases)
  case 1
  have up: "R (p_OrgID p) s (snd (store_UpdateStatusPage (f 1) now (sp\<lparr>sp_Published := b\<rparr>) s))"
    if "statusPageFromInput (p_OrgID p) i inp = (sp, entries, errs)" for sp b i inp entries errs
    using R_update [of "sp\<lparr>sp_Published := b\<rparr>" s "f 1" now] that by (auto simp: statusPageFromInput_def Let_def split: prod.splits)
  show ?case
  proof (cases "body = None \<or> parseMonitorID rawID = None")
    case True
    then show ?thesis using R_refl by (auto split: option.split)
  next
    case False
    then obtain inp i where b: "body = Some inp" "parseMonitorID rawID = Some i" by auto
    obtain sp entries errs where inp: "statusPageFromInput (p_OrgID p) i inp = (sp, entries, errs)" by (cases "statusPageFromInput (p_OrgID p) i inp")
    show ?thesis
    proof (cases "store_GetStatusPage (f 0) (p_OrgID p) i s")
      case (Inr existing)
      have "R (p_OrgID p) s (snd (case store_UpdateStatusPage (f 1) now (sp\<lparr>sp_Published := sp_Published existing\<rparr>) s of
          (Inl e, s1) \<Rightarrow> (if e = ErrSlugTaken then PgFields [(''slug'', FieldMsg ''slug is already taken'')] else missing_or_error e, s1)
        | (Inr _, s1) \<Rightarrow>
            (case applyMonitors (f 2) (p_OrgID p) i entries s1 of
               (Some r, s2) \<Rightarrow> (r, s2)
             | (None, s2) \<Rightarrow> saved_page (f 3, f 4) (p_OrgID p) i s2)))"
        by (rule write_then) (rule up [OF inp], simp, rule create_then)
      then show ?thesis using b inp Inr R_refl by (simp del: One_nat_def)
    qed (use b R_refl in simp)
  qed
qed

lemma PublishStatusPage_R:
  assumes "humanInOrg ctx = Some p"
  shows "R (p_OrgID p) s (snd (PublishStatusPage ctx f now rawID body s))"
  unfolding PublishStatusPage_def
proof (rule gated [OF assms], goal_cases)
  case 1
  have "R (p_OrgID p) s (snd (store_UpdateStatusPage (f 1) now (sp\<lparr>sp_Published := b\<rparr>) s))"
    if "store_GetStatusPage (f 0) (p_OrgID p) i s = Inr sp" for sp b i
    using R_update [of "sp\<lparr>sp_Published := b\<rparr>" s "f 1" now] that
    by (auto simp: store_GetStatusPage_def pg_read_def of_page_def split: if_splits option.splits dest: find_Some_set)
  then have "R (p_OrgID p) s (snd (case store_UpdateStatusPage (f 1) now (sp\<lparr>sp_Published := b\<rparr>) s of
      (Inl _, s1) \<Rightarrow> (PgInternal, s1) | (Inr _, s1) \<Rightarrow> saved_page (f 2, f 3) (p_OrgID p) i s1))"
    if "store_GetStatusPage (f 0) (p_OrgID p) i s = Inr sp" for sp b i
    by (rule write_then) (use that in \<open>simp_all add: saved R_refl\<close>)
  then show ?case using R_refl by (simp del: One_nat_def split: option.split sum.split)
qed

lemma DeleteStatusPage_R: "humanInOrg ctx = Some p \<Longrightarrow> R (p_OrgID p) s (snd (DeleteStatusPage ctx f rawID s))"
  unfolding DeleteStatusPage_def
proof (erule gated, goal_cases)
  case 1
  have "R (p_OrgID p) s (snd (case store_DeleteStatusPage f (p_OrgID p) i s of (Inl _, s1) \<Rightarrow> (PgInternal, s1) | (Inr _, s1) \<Rightarrow> (PgOk (), s1)))" for i
    by (rule write_then) (simp_all add: R_delete R_refl)
  then show ?case using R_refl by (simp split: option.split)
qed

end

interpretation page_tables: page_store "page_ok cap" cap
proof
  show "page_ok cap i s u" if "page_ok cap i s t" "page_ok cap i t u" for i s t u
    using that by (rule page_ok_trans)
qed (simp_all add: page_ok_refl create_page_ok update_page_ok set_monitors_ok delete_page_ok)


datatype page_request =
    PrList fault "nat \<Rightarrow> fault"
  | PrGet "fault \<times> fault" string
  | PrCreate "nat \<Rightarrow> fault" time "StatusPageInput option"
  | PrUpdate "nat \<Rightarrow> fault" time string "StatusPageInput option"
  | PrPublish "nat \<Rightarrow> fault" time string "bool option"
  | PrDelete fault string

fun serve_page :: "Principal option \<Rightarrow> string option \<Rightarrow> page_request \<Rightarrow> pages_db \<Rightarrow> pages_db" where
  "serve_page ctx plan (PrList f g) s = snd (ListStatusPages ctx f g s)"
| "serve_page ctx plan (PrGet f i) s = snd (GetStatusPage ctx f i s)"
| "serve_page ctx plan (PrCreate f now body) s = snd (CreateStatusPage ctx plan f now body s)"
| "serve_page ctx plan (PrUpdate f now i body) s = snd (UpdateStatusPage ctx f now i body s)"
| "serve_page ctx plan (PrPublish f now i b) s = snd (PublishStatusPage ctx f now i b s)"
| "serve_page ctx plan (PrDelete f i) s = snd (DeleteStatusPage ctx f i s)"

lemma page_reads: "snd (ListStatusPages ctx f g s) = s" "snd (GetStatusPage ctx f' i s) = s"
  by (simp_all add: ListStatusPages_def GetStatusPage_def page_gate_def Let_def split: option.split sum.split prod.split)

lemma serve_page_nobody: "humanInOrg ctx = None \<Longrightarrow> serve_page ctx plan r s = s"
  by (cases r) (simp_all add: page_reads CreateStatusPage_def UpdateStatusPage_def PublishStatusPage_def DeleteStatusPage_def page_gate_def)

lemma serve_page_viewer:
  "humanInOrg ctx = Some p \<Longrightarrow> \<not> dec_Allowed (canStatusPage p statusPageManage) \<Longrightarrow> serve_page ctx plan r s = s"
  by (cases r) (simp_all add: page_reads CreateStatusPage_def UpdateStatusPage_def PublishStatusPage_def DeleteStatusPage_def page_gate_def Let_def)

lemma serve_page_ok:
  assumes "humanInOrg ctx = Some p" and "statusPageCap plan (p_OrgID p) \<le> cap (p_OrgID p)"
  shows "page_ok cap (p_OrgID p) s (serve_page ctx plan r s)"
  using assms
  by (cases r) (simp_all add: page_reads page_ok_refl page_tables.CreateStatusPage_R page_tables.UpdateStatusPage_R page_tables.PublishStatusPage_R page_tables.DeleteStatusPage_R)

text \<open>
  Tenant isolation of the status pages: a request of the editor, whatever it carries and whatever fails, changes no
  monitor, result or incident and no page and no entry of another org; without a caller in an org, or with a
  caller whose role may not manage pages, it changes nothing at all.
\<close>

theorem page_requests_scoped:
  assumes "wf_pages s"
  shows "(case humanInOrg ctx of
      None \<Rightarrow> serve_page ctx plan r s = s
    | Some p \<Rightarrow> pg_db (serve_page ctx plan r s) = pg_db s
        \<and> (\<forall>j. j \<noteq> p_OrgID p \<longrightarrow> org_pages (serve_page ctx plan r s) j = org_pages s j \<and> org_entries (serve_page ctx plan r s) j = org_entries s j)
        \<and> (\<not> dec_Allowed (canStatusPage p statusPageManage) \<longrightarrow> serve_page ctx plan r s = s))"
proof (cases "humanInOrg ctx")
  case None
  then show ?thesis by (simp add: serve_page_nobody)
next
  case (Some p)
  then show ?thesis
    using serve_page_ok [of ctx p plan "\<lambda>_. statusPageCap plan (p_OrgID p)" s r] serve_page_viewer assms
    by (auto simp: page_ok_def)
qed

section \<open>The tables over time\<close>

text \<open>A monitor that is deleted takes its entries along (\<open>ON DELETE CASCADE\<close>).\<close>

definition cascade_entries :: "db \<Rightarrow> pages_db \<Rightarrow> pages_db" where
  "cascade_entries db s = s\<lparr>pg_db := db, pg_entries := filter (\<lambda>e. monitor_exists db (spm_MonitorID e)) (pg_entries s)\<rparr>"

definition empty_pages :: "int list \<Rightarrow> pages_db" where
  "empty_pages orgs = \<lparr>pg_db = empty_db orgs, pg_pages = [], pg_entries = [], pg_next_page = 1, pg_next_entry = 1\<rparr>"

text \<open>The requests of the editor under plans whose cap of an org is at most \<open>cap\<close>, and the steps of the monitor and incident store.\<close>

inductive pages_reachable :: "(int \<Rightarrow> int) \<Rightarrow> int list \<Rightarrow> pages_db \<Rightarrow> bool" for cap orgs where
  start: "pages_reachable cap orgs (empty_pages orgs)"
| request: "pages_reachable cap orgs (serve_page ctx plan r s)" if "pages_reachable cap orgs s"
    "\<And>p. humanInOrg ctx = Some p \<Longrightarrow> statusPageCap plan (p_OrgID p) \<le> cap (p_OrgID p)"
| store: "pages_reachable cap orgs (cascade_entries db s)" if "pages_reachable cap orgs s" "db_step (pg_db s) db"

lemma step_keys:
  "db_step db db' \<Longrightarrow> wf_db db \<Longrightarrow> db_orgs db' = db_orgs db
     \<and> (\<forall>i j. (i, j) \<in> monitor_keys (db_monitors db) \<and> monitor_exists db' i \<longrightarrow> (i, j) \<in> monitor_keys (db_monitors db'))"
proof (induction rule: db_step.induct)
  case (create db f c now m)
  have "db_orgs (snd (CreateMonitor f c now m db)) = db_orgs db"
    by (auto simp: CreateMonitor_def WithOrg_def rolled_back_def Let_def split: option.split)
  then show ?case using CreateMonitor_rows [of f c now m db] by auto
next
  case (update db f c now m)
  have "db_orgs (snd (UpdateMonitor f c now m db)) = db_orgs db"
    by (auto simp: UpdateMonitor_def WithOrg_def rolled_back_def Let_def split: option.split sum.split)
  moreover have "monitor_keys (db_monitors (snd (UpdateMonitor f c now m db))) = monitor_keys (db_monitors db)"
    using UpdateMonitor_rows [of f c now m db] by (elim disjE exE conjE) (simp_all add: monitor_keys_map)
  ultimately show ?case by simp
next
  case (delete db f orgID mid)
  have "db_orgs (snd (DeleteMonitor f orgID mid db)) = db_orgs db"
    by (auto simp: DeleteMonitor_def WithOrg_def rolled_back_def Let_def)
  moreover have "r = r'" if "r \<in> set (db_monitors db)" "r' \<in> set (db_monitors db)" "row_ID r = row_ID r'" for r r'
    using delete that by (auto simp: wf_db_def wf_monitors_def distinct_map dest: inj_onD)
  ultimately show ?case using DeleteMonitor_rows [of f orgID mid db]
    by (auto simp: monitor_exists_def monitor_keys_def) blast
next
  case (apply_decision rid db f m frid d)
  have "monitor_keys (db_monitors (write_counters m rid d db1)) = monitor_keys (db_monitors db1)" for db1
    unfolding write_counters_def by (auto intro!: monitor_keys_map)
  then show ?case
    using apply_incident_frame [of m frid d "getOpenIncidentTx db (mon_OrgID m) (mon_ID m)" db]
    by (auto simp: ApplyAlertDecision_def WithOrg_def rolled_back_def Let_def write_counters_def split: option.split prod.split)
qed (auto simp: UpsertCheckResult_def InsertCheckResult_def ManualCloseIncident_def AddIncidentAnnotation_def UpsertMonitorLastFailure_def
      UpsertMonitorCert_def WithOrg_def rolled_back_def close_incident_def Let_def split: option.split)

lemma cascade_wf:
  assumes "wf_pages s" and "db_step (pg_db s) db"
  shows "wf_pages (cascade_entries db s)"
proof -
  have "wf_db db" using assms db_step_wf by (simp add: wf_pages_def)
  moreover have k: "db_orgs db = db_orgs (pg_db s)"
      "\<forall>i j. (i, j) \<in> monitor_keys (db_monitors (pg_db s)) \<and> monitor_exists db i \<longrightarrow> (i, j) \<in> monitor_keys (db_monitors db)"
    using step_keys [OF assms(2)] assms(1) by (simp_all add: wf_pages_def)
  ultimately show ?thesis
    using assms(1) by (auto simp: cascade_entries_def wf_pages_def wf_entries_def distinct_map inj_on_def)
qed

lemma pages_reachable_wf:
  "pages_reachable cap orgs s \<Longrightarrow> \<forall>i. 0 \<le> cap i \<Longrightarrow> wf_pages s \<and> (\<forall>i. page_count s i \<le> cap i)"
proof (induction rule: pages_reachable.induct)
  case start
  then show ?case
    by (simp add: empty_pages_def wf_pages_def empty_db_wf wf_page_rows_def wf_entries_def page_count_def org_pages_def)
next
  case (request s ctx plan r)
  show ?case
  proof (cases "humanInOrg ctx")
    case None
    then show ?thesis using request by (simp add: serve_page_nobody)
  next
    case (Some p)
    then have ok: "page_ok cap (p_OrgID p) s (serve_page ctx plan r s)" using request serve_page_ok by blast
    have "page_count (serve_page ctx plan r s) i \<le> cap i" for i
      using ok request by (cases "i = p_OrgID p") (auto simp: page_ok_def page_count_def)
    then show ?thesis using ok request by (simp add: page_ok_def)
  qed
next
  case (store s db)
  then show ?case using cascade_wf by (simp add: cascade_entries_def page_count_def org_pages_def)
qed

text \<open>
  C16. The tables of the status pages, over any sequence of editor requests and of steps of the monitor and incident
  store, with any faults: no two pages answer to one slug, a page shows only monitors that exist and belong to
  the org of the page, each at most once, and no org has more pages than the cap of its plan.
\<close>

theorem status_page_invariant:
  assumes "pages_reachable cap orgs s" and "\<forall>i. 0 \<le> cap i"
  shows "(\<forall>p \<in> set (pg_pages s). \<forall>q \<in> set (pg_pages s). ToLower (sp_Slug p) = ToLower (sp_Slug q) \<longrightarrow> p = q)
    \<and> (\<forall>e \<in> set (pg_entries s).
         (\<exists>p \<in> set (pg_pages s). sp_ID p = spm_PageID e \<and> sp_OrgID p = spm_OrgID e)
         \<and> (\<exists>r \<in> set (db_monitors (pg_db s)). row_ID r = spm_MonitorID e \<and> row_OrgID r = spm_OrgID e))
    \<and> distinct (map (\<lambda>e. (spm_PageID e, spm_MonitorID e)) (pg_entries s))
    \<and> (\<forall>i. page_count s i \<le> cap i)"
proof -
  have wf: "wf_pages s" "\<forall>i. page_count s i \<le> cap i" using pages_reachable_wf [OF assms] by auto
  then have "wf_entries (page_keys (pg_pages s)) (monitor_keys (db_monitors (pg_db s))) (pg_entries s)"
    and "distinct (map (\<lambda>p. ToLower (sp_Slug p)) (pg_pages s))" by (simp_all add: wf_pages_def wf_page_rows_def)
  then show ?thesis using wf(2)
    by (auto simp: wf_entries_def page_keys_def monitor_keys_def distinct_map image_iff dest: inj_onD) metis+
qed

end
