(* ===== verification/Pulse_Status_Publish.thy ===== *)
theory Pulse_Status_Publish
  imports Pulse_Status_Tables
begin

text \<open>
  From the editor to the public page: what is created and published is what a visitor sees, and nothing before.
\<close>

section \<open>The monitors of the public answer\<close>

definition is_down :: "db \<Rightarrow> int \<Rightarrow> bool" where
  "is_down db i \<longleftrightarrow> verdicts db i \<noteq> [] \<and> (\<exists>x \<in> set (outages db i). snd x = None)"

definition public_look :: "db \<Rightarrow> int \<Rightarrow> string \<Rightarrow> string \<times> PublicStatus" where
  "public_look db i name = (name, if is_down db i then PublicDown else PublicOperational)"

lemma public_row_look:
  "public_row db e = Some r \<Longrightarrow> public_status r \<noteq> PublicHidden \<longleftrightarrow> monitor_enabled db (spm_MonitorID e) = Some True"
  "public_row db e = Some r \<Longrightarrow> public_status r \<noteq> PublicHidden \<Longrightarrow>
     (pmr_displayName r, public_status r) = public_look db (spm_MonitorID e) (spm_DisplayName e)"
  "public_row db e = None \<Longrightarrow> monitor_enabled db (spm_MonitorID e) = None"
  by (auto simp: public_row_def monitor_enabled_def public_status_def DeriveStatus_def public_look_def is_down_def Let_def
      some_result_verdicts open_incident_outages split: option.splits) fastforce

lemma public_rows_look:
  "map (\<lambda>r. (pmr_displayName r, public_status r)) (filter (\<lambda>r. public_status r \<noteq> PublicHidden) (List.map_filter (public_row db) es)) =
   map (\<lambda>e. public_look db (spm_MonitorID e) (spm_DisplayName e)) (filter (\<lambda>e. monitor_enabled db (spm_MonitorID e) = Some True) es)"
proof (induction es)
  case (Cons e es)
  then show ?case using public_row_look [of db e] by (cases "public_row db e") (simp_all add: map_filter_simps)
qed (simp add: map_filter_simps)

lemma public_loop_monitors:
  "public_loop clock db rs st w page = (st', w', page') \<Longrightarrow>
     psp_Name page' = psp_Name page \<and>
     map (\<lambda>m. (pdm_DisplayName m, pdm_Status m)) (psp_Monitors page') = map (\<lambda>m. (pdm_DisplayName m, pdm_Status m)) (psp_Monitors page)
       @ map (\<lambda>r. (pmr_displayName r, public_status r)) (filter (\<lambda>r. public_status r \<noteq> PublicHidden) rs)"
  by (induction clock db rs st w page rule: public_loop.induct) (auto simp: Let_def split: if_splits prod.splits)

lemma public_answer_monitors:
  assumes "find (named_page slug) (pg_pages s) = Some p" and "slug \<noteq> ''''"
  shows "\<exists>page. store_GetPublicStatusPage NoFault clock slug s = Inr page \<and> psp_Name page = sp_Name p
    \<and> map (\<lambda>m. (pdm_DisplayName m, pdm_Status m)) (psp_Monitors page) =
        map (\<lambda>e. public_look (pg_db s) (spm_MonitorID e) (spm_DisplayName e))
          (filter (\<lambda>e. monitor_enabled (pg_db s) (spm_MonitorID e) = Some True) (page_entries s (sp_ID p)))"
proof -
  let ?v = "public_view slug s"
  let ?rows = "List.map_filter (public_row (pg_db ?v)) (page_entries ?v (sp_ID p))"
  obtain st w page where l: "public_loop clock (pg_db ?v) ?rows [] '''' (branding p) = (st, w, page)" by (cases "public_loop clock (pg_db ?v) ?rows [] '''' (branding p)")
  have part: "monitor_enabled (pg_db ?v) (spm_MonitorID e) = monitor_enabled (pg_db s) (spm_MonitorID e)"
      "public_look (pg_db ?v) (spm_MonitorID e) = public_look (pg_db s) (spm_MonitorID e)" if "e \<in> set (page_entries s (sp_ID p))" for e
    using public_view_page(2) [OF assms(1) that] by (auto simp: entry_part_def public_look_def is_down_def)
  have "map (\<lambda>e. public_look (pg_db ?v) (spm_MonitorID e) (spm_DisplayName e))
          (filter (\<lambda>e. monitor_enabled (pg_db ?v) (spm_MonitorID e) = Some True) (page_entries ?v (sp_ID p))) =
        map (\<lambda>e. public_look (pg_db s) (spm_MonitorID e) (spm_DisplayName e))
          (filter (\<lambda>e. monitor_enabled (pg_db s) (spm_MonitorID e) = Some True) (page_entries s (sp_ID p)))"
    using part by (simp add: public_view_page(1) [OF assms(1)] cong: map_cong filter_cong)
  then show ?thesis
    using l public_loop_monitors [OF l] public_rows_look [of "pg_db ?v" "page_entries ?v (sp_ID p)"]
    by (simp add: store_GetPublicStatusPage_def pg_read_def public_view_find [OF assms(2)] assms(1) Let_def branding_def flip: page_entries_def)
qed

section \<open>The entries of a new page\<close>

lemma sort_key_sorted: "sorted (map f xs) \<Longrightarrow> sort_key f xs = xs"
  by (induction xs) (simp_all add: insort_is_Cons)

lemma insert_entries_made:
  assumes "insert_entries o' i n es s = (Inr u, s')"
  shows "\<exists>made. pg_entries s' = pg_entries s @ made
    \<and> map (\<lambda>e. (spm_MonitorID e, spm_DisplayName e)) made = map (\<lambda>e. (spm_MonitorID e, spm_DisplayName e)) es
    \<and> (\<forall>e \<in> set made. spm_PageID e = i \<and> n \<le> spm_SortOrder e \<and> pg_next_entry s \<le> spm_ID e)
    \<and> sorted (map spm_SortOrder made) \<and> sorted (map spm_ID made)"
  using assms
proof (induction o' i n es s rule: insert_entries.induct)
  case (2 o' i n e es s)
  let ?x = "\<lparr>spm_ID = pg_next_entry s, spm_OrgID = o', spm_PageID = i, spm_MonitorID = spm_MonitorID e,
      spm_DisplayName = spm_DisplayName e, spm_SortOrder = n\<rparr>"
  let ?s = "s\<lparr>pg_next_entry := pg_next_entry s + 1, pg_entries := pg_entries s @ [?x]\<rparr>"
  have new: "\<not> list_ex (\<lambda>x. spm_PageID x = i \<and> spm_MonitorID x = spm_MonitorID e) (pg_entries s)"
    and rest: "insert_entries o' i (n + 1) es ?s = (Inr u, s')"
    using "2.prems" by (auto simp: Let_def split: if_splits)
  from "2.IH" [OF refl refl new] rest obtain made where "pg_entries s' = pg_entries ?s @ made"
      "map (\<lambda>e. (spm_MonitorID e, spm_DisplayName e)) made = map (\<lambda>e. (spm_MonitorID e, spm_DisplayName e)) es"
      "\<forall>e \<in> set made. spm_PageID e = i \<and> n + 1 \<le> spm_SortOrder e \<and> pg_next_entry s + 1 \<le> spm_ID e"
      "sorted (map spm_SortOrder made)" "sorted (map spm_ID made)" by auto
  then show ?case by (intro exI [of _ "?x # made"]) force
qed simp

lemma entry_order_made:
  "sorted (map spm_SortOrder made) \<Longrightarrow> sorted (map spm_ID made) \<Longrightarrow> entry_order made = made"
  by (simp add: entry_order_def sort_key_sorted)

lemma entry_loop_errs: "snd (entry_loop o' i seen es entries errs) = [] \<Longrightarrow> errs = []"
  by (induction o' i seen es entries errs rule: entry_loop.induct) (auto simp: Let_def split: if_splits option.splits)

lemma entry_loop_entries:
  "entry_loop o' i seen es entries errs = (entries', []) \<Longrightarrow>
     map (\<lambda>e. (spm_MonitorID e, spm_DisplayName e)) entries' = map (\<lambda>e. (spm_MonitorID e, spm_DisplayName e)) entries
       @ map (\<lambda>e. (the (Atoi (sme_MonitorId e)), TrimSpace (sme_DisplayName e))) es"
proof (induction o' i seen es entries errs rule: entry_loop.induct)
  case (2 o' i seen e es entries errs)
  have bad: False if "entry_loop a b c es d (set_field k v errs) = (entries', [])" for a b c d k v
    using entry_loop_errs [of a b c es d "set_field k v errs"] that by simp
  show ?case using "2.prems" "2.IH" bad by (auto simp: Let_def split: if_splits option.splits)
qed simp

lemma ToLower_idem [simp]: "ToLower (ToLower s) = ToLower s"
proof -
  have "to_lower (to_lower c) = to_lower c" for c by (auto simp: to_lower_def Let_def)
  then show ?thesis by (simp add: ToLower_def)
qed


section \<open>Create, publish, visit\<close>

lemma input_page:
  assumes "statusPageFromInput o' i inp = (sp, entries, [])"
  shows "sp_OrgID sp = o'" "sp_Name sp = TrimSpace (spi_Name inp)" "sp_Slug sp = ToLower (TrimSpace (spi_Slug inp))" "\<not> sp_Published sp"
    "sp_Slug sp \<noteq> ''''"
    "map (\<lambda>e. (spm_MonitorID e, spm_DisplayName e)) entries =
       map (\<lambda>e. (the (Atoi (sme_MonitorId e)), TrimSpace (sme_DisplayName e))) (spi_DisplayMonitors inp)"
proof -
  obtain e4 where l: "entry_loop o' 0 [] (spi_DisplayMonitors inp) [] e4 = (entries, [])"
    and e4: "e4 = [] \<longrightarrow> ToLower (TrimSpace (spi_Slug inp)) \<noteq> ''''"
    using assms by (auto simp: statusPageFromInput_def Let_def slug_errors_def split: prod.splits)
  show "sp_OrgID sp = o'" "sp_Name sp = TrimSpace (spi_Name inp)" "sp_Slug sp = ToLower (TrimSpace (spi_Slug inp))" "\<not> sp_Published sp"
    using assms by (auto simp: statusPageFromInput_def Let_def split: prod.splits)
  then show "sp_Slug sp \<noteq> ''''" using e4 entry_loop_errs [of o' 0 "[]" "spi_DisplayMonitors inp" "[]" e4] l by simp
  show "map (\<lambda>e. (spm_MonitorID e, spm_DisplayName e)) entries =
      map (\<lambda>e. (the (Atoi (sme_MonitorId e)), TrimSpace (sme_DisplayName e))) (spi_DisplayMonitors inp)"
    using entry_loop_entries [OF l] by simp
qed

lemma apply_not_ok: "applyMonitors f o' i es s \<noteq> (Some (PgOk d), s')"
  by (auto simp: applyMonitors_def split: prod.split sum.split)

lemma pg_run_Inr: "pg_run f fn s = (Inr a, s') \<longleftrightarrow> f = NoFault \<and> fn s = (Inr a, s')"
  by (cases f; cases "fn s"; cases "fst (fn s)") (auto simp: pg_run_def)

lemma apply_made:
  assumes "applyMonitors f o' i es s = (None, s')" and "\<forall>e \<in> set (pg_entries s). spm_PageID e \<noteq> i"
  shows "pg_db s' = pg_db s \<and> pg_pages s' = pg_pages s
    \<and> map (\<lambda>e. (spm_MonitorID e, spm_DisplayName e)) (page_entries s' i) = map (\<lambda>e. (spm_MonitorID e, spm_DisplayName e)) es"
proof -
  let ?s = "s\<lparr>pg_entries := filter (\<lambda>e. \<not> (spm_PageID e = i \<and> spm_OrgID e = o')) (pg_entries s)\<rparr>"
  obtain u where "SetStatusPageMonitors f o' i es s = (Inr u, s')"
    using assms(1) by (auto simp: applyMonitors_def split: prod.splits sum.splits if_splits)
  then have ins: "insert_entries o' i 0 es ?s = (Inr u, s')"
    by (auto simp: SetStatusPageMonitors_def pg_run_Inr Let_def split: if_splits)
  from insert_entries_made [OF ins] obtain made where made: "pg_entries s' = pg_entries ?s @ made"
      "map (\<lambda>e. (spm_MonitorID e, spm_DisplayName e)) made = map (\<lambda>e. (spm_MonitorID e, spm_DisplayName e)) es"
      "\<forall>e \<in> set made. spm_PageID e = i" "sorted (map spm_SortOrder made)" "sorted (map spm_ID made)" by auto
  have "filter (\<lambda>e. spm_PageID e = i) (pg_entries s') = made"
    using assms(2) made(1,3) by (auto simp: filter_empty_conv)
  then have "page_entries s' i = made" using made(4,5) by (simp add: page_entries_def entry_order_made)
  then show ?thesis using insert_entries_frame [of o' i 0 es ?s] ins made(2) by simp
qed

lemma map_filter_same:
  assumes "map k xs = map k' ys"
  shows "map (\<lambda>x. h (k x)) (filter (\<lambda>x. P (k x)) xs) = map (\<lambda>y. h (k' y)) (filter (\<lambda>y. P (k' y)) ys)"
proof -
  have "map h (filter P (map k xs)) = map h (filter P (map k' ys))" using assms by simp
  then show ?thesis by (simp add: filter_map comp_def)
qed

lemma create_ok:
  assumes "humanInOrg ctx = Some p" and "CreateStatusPage ctx plan f now (Some inp) s = (PgOk d, s1)" and "wf_pages s"
  shows "\<exists>created. pg_db s1 = pg_db s \<and> pg_pages s1 = pg_pages s @ [created] \<and> spd_Id d = Itoa (sp_ID created)
    \<and> sp_ID created = pg_next_page s \<and> sp_OrgID created = p_OrgID p \<and> \<not> sp_Published created
    \<and> sp_Name created = TrimSpace (spi_Name inp) \<and> sp_Slug created = ToLower (TrimSpace (spi_Slug inp)) \<and> sp_Slug created \<noteq> ''''
    \<and> map (\<lambda>e. (spm_MonitorID e, spm_DisplayName e)) (page_entries s1 (sp_ID created)) =
        map (\<lambda>e. (the (Atoi (sme_MonitorId e)), TrimSpace (sme_DisplayName e))) (spi_DisplayMonitors inp)"
proof -
  obtain sp entries errs where i: "statusPageFromInput (p_OrgID p) 0 inp = (sp, entries, errs)" by (cases "statusPageFromInput (p_OrgID p) 0 inp")
  note h = assms(2) [unfolded CreateStatusPage_def page_gate_def assms(1), simplified, unfolded Let_def]
  from h i have e: "errs = []" and "\<exists>created sA sB. store_CreateStatusPage (f 1) now sp s = (Inr created, sA)
      \<and> applyMonitors (f 2) (p_OrgID p) (sp_ID created) entries sA = (None :: StatusPageDTO page_answer option, sB)
      \<and> saved_page (f 3, f 4) (p_OrgID p) (sp_ID created) sB = (PgOk d, s1)"
    by (auto split: if_splits sum.splits prod.splits option.splits simp: apply_not_ok)
  then obtain created sA sB where c: "store_CreateStatusPage (f 1) now sp s = (Inr created, sA)"
    and a: "applyMonitors (f 2) (p_OrgID p) (sp_ID created) entries sA = (None :: StatusPageDTO page_answer option, sB)"
    and sv: "saved_page (f 3, f 4) (p_OrgID p) (sp_ID created) sB = (PgOk d, s1)" by blast
  note inp = input_page [OF i [unfolded e]]
  from c have cr: "created = (page_defaults sp)\<lparr>sp_ID := pg_next_page s, sp_CreatedAt := now, sp_UpdatedAt := now\<rparr>"
    and sA: "sA = s\<lparr>pg_next_page := pg_next_page s + 1, pg_pages := pg_pages s @ [created]\<rparr>"
    by (auto simp: store_CreateStatusPage_def pg_run_Inr Let_def split: if_splits)
  have s1: "s1 = sB" and d: "spd_Id d = Itoa (sp_ID created)"
    using sv by (auto simp: saved_page_def loadStatusPage_def store_GetStatusPage_def pg_read_def statusPageDTO_def of_page_def
        split: sum.splits if_splits option.splits dest!: find_Some_set)
  have "\<forall>e \<in> set (pg_entries sA). spm_PageID e \<noteq> sp_ID created"
    using assms(3) by (fastforce simp: sA cr wf_pages_def wf_page_rows_def wf_entries_def page_keys_def)
  from apply_made [OF a this] show ?thesis using d inp cr sA by (intro exI [of _ created]) (simp add: s1)
qed

lemma publish_ok:
  assumes "humanInOrg ctx = Some p" and "PublishStatusPage ctx g now raw (Some b) s = (PgOk d, s')" and "parseMonitorID raw = Some i"
  shows "\<exists>old. find (of_page (p_OrgID p) i) (pg_pages s) = Some old
    \<and> s' = s\<lparr>pg_pages := map (\<lambda>q. if of_page (p_OrgID p) i q then (page_defaults (old\<lparr>sp_Published := b\<rparr>))\<lparr>sp_UpdatedAt := now\<rparr> else q) (pg_pages s)\<rparr>"
proof -
  note h = assms(2) [unfolded PublishStatusPage_def page_gate_def assms(1), simplified, unfolded Let_def]
  from h assms(3) obtain old new s1 where old: "find (of_page (p_OrgID p) i) (pg_pages s) = Some old"
    and u: "store_UpdateStatusPage (g 1) now (old\<lparr>sp_Published := b\<rparr>) s = (Inr new, s1)"
    and sv: "saved_page (g 2, g 3) (p_OrgID p) i s1 = (PgOk d, s')"
    by (auto simp: store_GetStatusPage_def pg_read_def missing_or_error_def split: if_splits sum.splits prod.splits option.splits)
  have o': "sp_ID old = i" "sp_OrgID old = p_OrgID p" using find_Some_set [OF old] by (auto simp: of_page_def)
  have "s' = s1" using sv by (auto simp: saved_page_def split: sum.splits)
  with u o' old show ?thesis
    by (auto simp: store_UpdateStatusPage_def pg_run_Inr Let_def page_defaults_def split: if_splits option.splits)
qed

text \<open>
  C9. From the editor to the visitor: after a page was created it answers like a page that does not exist, and after it was
  published a visitor gets it under the slug that was entered, with its name and, in the order of the
  form, the display names of exactly those chosen monitors that are enabled, each down if and only if it has an open incident.
\<close>

theorem publish_end_to_end:
  assumes "wf_pages s" and n: "0 < pg_next_page s" "pg_next_page s < 2 ^ 63"
    and create: "CreateStatusPage ctx plan f now (Some inp) s = (PgOk d, s1)"
    and publish: "PublishStatusPage ctx g now' (spd_Id d) (Some True) s1 = (PgOk d', s2)"
  shows "GetPublicStatusPage NoFault clock (spi_Slug inp) s1 = PgNotFound
    \<and> (\<exists>page. GetPublicStatusPage NoFault clock (spi_Slug inp) s2 = PgOk page \<and> psp_Name page = TrimSpace (spi_Name inp)
        \<and> map (\<lambda>m. (pdm_DisplayName m, pdm_Status m)) (psp_Monitors page) =
            map (\<lambda>e. public_look (pg_db s) (the (Atoi (sme_MonitorId e))) (TrimSpace (sme_DisplayName e)))
              (filter (\<lambda>e. monitor_enabled (pg_db s) (the (Atoi (sme_MonitorId e))) = Some True) (spi_DisplayMonitors inp)))"
proof -
  let ?slug = "TrimSpace (spi_Slug inp)"
  obtain p where p: "humanInOrg ctx = Some p" using create by (cases "humanInOrg ctx") (simp_all add: CreateStatusPage_def page_gate_def)
  from create_ok [OF p create assms(1)] obtain c where c: "pg_db s1 = pg_db s" "pg_pages s1 = pg_pages s @ [c]" "spd_Id d = Itoa (sp_ID c)"
      "sp_ID c = pg_next_page s" "sp_OrgID c = p_OrgID p" "\<not> sp_Published c" "sp_Name c = TrimSpace (spi_Name inp)"
      "sp_Slug c = ToLower ?slug" "sp_Slug c \<noteq> ''''"
    and es: "map (\<lambda>e. (spm_MonitorID e, spm_DisplayName e)) (page_entries s1 (sp_ID c)) =
        map (\<lambda>e. (the (Atoi (sme_MonitorId e)), TrimSpace (sme_DisplayName e))) (spi_DisplayMonitors inp)" by blast
  have slug: "?slug \<noteq> ''''" using c(8,9) by (auto simp: ToLower_def)
  have wf1: "wf_pages s1"
    using serve_page_ok [OF p, of plan "\<lambda>_. statusPageCap plan (p_OrgID p)" s "PrCreate f now (Some inp)"] create assms(1)
    by (simp add: page_ok_def)
  then have other: "ToLower (sp_Slug q) \<noteq> ToLower ?slug" "sp_ID q \<noteq> sp_ID c" if "q \<in> set (pg_pages s)" for q
    using that c(2,8) by (auto simp: wf_pages_def wf_page_rows_def rev_image_eqI)
  have "find (named_page ?slug) (pg_pages s1) = None"
    using c(2,6) other by (auto simp: find_None_iff named_page_def)
  then have draft: "GetPublicStatusPage NoFault clock (spi_Slug inp) s1 = PgNotFound"
    using slug by (simp add: GetPublicStatusPage_def store_GetPublicStatusPage_def public_view_find pg_read_def missing_or_error_def Let_def)
  have raw: "parseMonitorID (spd_Id d) = Some (sp_ID c)" using n c(3,4) Atoi_Itoa [of "sp_ID c"] by (simp add: parseMonitorID_def)
  let ?new = "(page_defaults (c\<lparr>sp_Published := True\<rparr>))\<lparr>sp_UpdatedAt := now'\<rparr>"
  have "find (of_page (p_OrgID p) (sp_ID c)) (pg_pages s1) = Some c"
    using c(2,5) other(2) by (auto simp: find_append of_page_def find_None_iff split: option.split dest!: find_Some_set)
  note found = this
  have s2: "s2 = s1\<lparr>pg_pages := pg_pages s @ [?new]\<rparr>"
  proof -
    have "map (\<lambda>q. if of_page (p_OrgID p) (sp_ID c) q then ?new else q) (pg_pages s) = pg_pages s"
      using other(2) by (intro map_idI) (auto simp: of_page_def)
    with publish_ok [OF p publish raw] found c(2,5) show ?thesis by (auto simp: of_page_def)
  qed
  then have "find (named_page ?slug) (pg_pages s2) = Some ?new"
    using other(1) c(8) slug by (auto simp: find_append find_None_iff named_page_def split: option.split dest!: find_Some_set)
  from public_answer_monitors [OF this slug, of clock] obtain page where
    page: "store_GetPublicStatusPage NoFault clock ?slug s2 = Inr page" "psp_Name page = sp_Name c"
      "map (\<lambda>m. (pdm_DisplayName m, pdm_Status m)) (psp_Monitors page) =
        map (\<lambda>e. public_look (pg_db s) (spm_MonitorID e) (spm_DisplayName e))
          (filter (\<lambda>e. monitor_enabled (pg_db s) (spm_MonitorID e) = Some True) (page_entries s1 (sp_ID c)))"
    by (auto simp: s2 c(1) page_entries_def)
  moreover from map_filter_same [OF es, of "\<lambda>(i, x). public_look (pg_db s) i x" "\<lambda>(i, x). monitor_enabled (pg_db s) i = Some True"]
  have "map (\<lambda>e. public_look (pg_db s) (spm_MonitorID e) (spm_DisplayName e))
      (filter (\<lambda>e. monitor_enabled (pg_db s) (spm_MonitorID e) = Some True) (page_entries s1 (sp_ID c))) =
    map (\<lambda>e. public_look (pg_db s) (the (Atoi (sme_MonitorId e))) (TrimSpace (sme_DisplayName e)))
      (filter (\<lambda>e. monitor_enabled (pg_db s) (the (Atoi (sme_MonitorId e))) = Some True) (spi_DisplayMonitors inp))" by simp
  ultimately show ?thesis using draft c(7) slug by (simp add: GetPublicStatusPage_def Let_def)
qed


section \<open>Forms that are half applied\<close>

definition ex_form :: "string option \<Rightarrow> string \<Rightarrow> StatusPageInput" where
  "ex_form custom mid = \<lparr>spi_Name = '' Acme '', spi_Slug = ''Acme'', spi_LogoUrl = '''', spi_AccentColor = ''#0a0'', spi_Theme = ThemeOther '''',
     spi_CustomDomain = custom, spi_DisplayMonitors = [\<lparr>sme_MonitorId = mid, sme_DisplayName = ''Shop'', sme_Order = 7\<rparr>]\<rparr>"

definition ex_tables :: pages_db where
  "ex_tables = cascade_entries (ex_db 1 MonitorHTTP) (empty_pages [1])"

abbreviation ex_send :: "StatusPageInput \<Rightarrow> pages_db \<Rightarrow> StatusPageDTO page_answer \<times> pages_db" where
  "ex_send inp s \<equiv> CreateStatusPage (Some ex_principal) (Some ''tier1'') (\<lambda>_. NoFault) 100 (Some inp) s"

text \<open>
  A form that names a monitor of nobody is refused, and its page is stored all the same: the corrected form runs into the
  cap of the plan.
\<close>

lemma rejected_form_leaves_page:
  "fst (ex_send (ex_form None ''99'') ex_tables) = PgFields [(''display_monitors'', FieldMsg ''a monitor is not in this org'')]
   \<and> map sp_Slug (pg_pages (snd (ex_send (ex_form None ''99'') ex_tables))) = [''acme'']
   \<and> fst (ex_send (ex_form None ''1'') (snd (ex_send (ex_form None ''99'') ex_tables))) = PgLimit 1"
  by code_simp

text \<open>A member, who may not configure a custom domain, sets one with the form.\<close>

lemma member_sets_custom_domain:
  "map sp_CustomDomain (pg_pages (snd (ex_send (ex_form (Some ''status.example.com'') ''1'') ex_tables))) = [Some ''status.example.com'']
   \<and> \<not> dec_Allowed (Can (principal_Actor ex_principal) ActionConfigureCustomDomain (org_resource 1))"
  by code_simp

section \<open>Witnesses\<close>

lemma ex_tables_reachable: "pages_reachable (\<lambda>_. 1) [1] ex_tables"
  unfolding ex_tables_def ex_db_def
  by (rule pages_reachable.store [OF pages_reachable.start]) (simp add: empty_pages_def db_step.create)

lemma ex_sent_reachable: "pages_reachable (\<lambda>_. 1) [1] (snd (ex_send (ex_form None ''1'') ex_tables))"
proof -
  have "orgPlan (Some ''tier1'') = PlanTier1" by code_simp
  then have "statusPageCap (Some ''tier1'') (p_OrgID p) \<le> 1" for p by (simp add: statusPageCap_def StatusPageCap_def table_or_free_def)
  then have "pages_reachable (\<lambda>_. 1) [1] (serve_page (Some ex_principal) (Some ''tier1'') (PrCreate (\<lambda>_. NoFault) 100 (Some (ex_form None ''1''))) ex_tables)"
    by (intro pages_reachable.request [OF ex_tables_reachable])
  then show ?thesis by simp
qed

theorem status_page_invariant_witness:
  "page_count (snd (ex_send (ex_form None ''1'') ex_tables)) 1 = 1
   \<and> (\<forall>i. page_count (snd (ex_send (ex_form None ''1'') ex_tables)) i \<le> 1)
   \<and> distinct (map (\<lambda>e. (spm_PageID e, spm_MonitorID e)) (pg_entries (snd (ex_send (ex_form None ''1'') ex_tables))))"
proof -
  have "page_count (snd (ex_send (ex_form None ''1'') ex_tables)) 1 = 1" by code_simp
  then show ?thesis using status_page_invariant [OF ex_sent_reachable] by simp
qed

theorem page_requests_scoped_witness:
  "let s = snd (ex_send (ex_form None ''1'') ex_tables)
   in org_pages (serve_page (Some (ex_principal\<lparr>p_OrgID := 2\<rparr>)) None (PrDelete NoFault ''1'') s) 1 = org_pages s 1 \<and> org_pages s 1 \<noteq> []"
proof -
  let ?s = "snd (ex_send (ex_form None ''1'') ex_tables)"
  have "wf_pages ?s" using pages_reachable_wf [OF ex_sent_reachable] by simp
  moreover have "humanInOrg (Some (ex_principal\<lparr>p_OrgID := 2\<rparr>)) = Some (ex_principal\<lparr>p_OrgID := 2\<rparr>)" by code_simp
  moreover have "org_pages ?s 1 \<noteq> []" by code_simp
  ultimately show ?thesis
    using page_requests_scoped [of ?s "Some (ex_principal\<lparr>p_OrgID := 2\<rparr>)" None "PrDelete NoFault ''1''"] by (simp add: Let_def)
qed

theorem publish_end_to_end_witness:
  "\<exists>page. GetPublicStatusPage NoFault (\<lambda>_. 200) ''Acme''
       (snd (PublishStatusPage (Some ex_principal) (\<lambda>_. NoFault) 150 ''1'' (Some True) (snd (ex_send (ex_form None ''1'') ex_tables)))) = PgOk page
     \<and> map (\<lambda>m. (pdm_DisplayName m, pdm_Status m)) (psp_Monitors page) = [(''Shop'', PublicOperational)]"
proof -
  let ?s1 = "snd (ex_send (ex_form None ''1'') ex_tables)"
  let ?p = "PublishStatusPage (Some ex_principal) (\<lambda>_. NoFault) 150 ''1'' (Some True) ?s1"
  have "case fst (ex_send (ex_form None ''1'') ex_tables) of PgOk d \<Rightarrow> spd_Id d = ''1'' | _ \<Rightarrow> False" by code_simp
  then obtain d where d: "fst (ex_send (ex_form None ''1'') ex_tables) = PgOk d" "spd_Id d = ''1''" by (auto split: page_answer.splits)
  have "case fst ?p of PgOk d \<Rightarrow> True | _ \<Rightarrow> False" by code_simp
  then obtain d' where d': "fst ?p = PgOk d'" by (auto split: page_answer.splits)
  have wf: "wf_pages ex_tables" using pages_reachable_wf [OF ex_tables_reachable] by simp
  have n: "0 < pg_next_page ex_tables" "pg_next_page ex_tables < 2 ^ 63" by code_simp+
  have c: "ex_send (ex_form None ''1'') ex_tables = (PgOk d, ?s1)" using d(1) by (metis prod.collapse)
  have p: "PublishStatusPage (Some ex_principal) (\<lambda>_. NoFault) 150 (spd_Id d) (Some True) ?s1 = (PgOk d', snd ?p)"
    using d' d(2) by (metis prod.collapse)
  have look: "map (\<lambda>e. public_look (pg_db ex_tables) (the (Atoi (sme_MonitorId e))) (TrimSpace (sme_DisplayName e)))
      (filter (\<lambda>e. monitor_enabled (pg_db ex_tables) (the (Atoi (sme_MonitorId e))) = Some True) (spi_DisplayMonitors (ex_form None ''1'')))
    = [(''Shop'', PublicOperational)]" by code_simp
  have "spi_Slug (ex_form None ''1'') = ''Acme''" by (simp add: ex_form_def)
  then show ?thesis using publish_end_to_end [OF wf n c p, of "\<lambda>_. 200"] look by auto
qed

end
