(* ===== verification/Pulse_Channel_Api.thy ===== *)
theory Pulse_Channel_Api
  imports Pulse_Members Pulse_Notify
begin

text \<open>
  The settings of the notifications of an org: the handlers of \<open>internal/api/channels.go\<close> (channels) and
  \<open>webhooks.go\<close> (the outbound webhooks of the org), over the store of \<open>Pulse_Channels\<close>, with the channel
  catalog of \<open>internal/notify/catalog.go\<close>.

  A handler gets the caller the middleware found and an environment: the registry, the cipher of the store, the tables of
  people and orgs, the clock, the faults of its store calls in their order, and the answers of what is outside (the random source, the URL
  parser, the provider of a test message, the mail publisher, Go's conversion of a fraction to an integer).
\<close>

section \<open>Answers and state\<close>

datatype settings_msg = SetMsg string | SetConfig config_error

type_synonym settings_errors = "(string \<times> settings_msg) list"

datatype 'a settings_answer =
    StOk 'a | StUnauthorized | StForbidden string | StNotFound string | StFields settings_errors | StInvalid string | StInternal

text \<open>The tables, the mail intents that were published, and the channels a test message was sent to.\<close>

record settings =
  se_nd :: notify_db
  se_mail :: "EmailIntent list"
  se_tests :: "Channel list"

type_synonym 'a settings_handler = "settings \<Rightarrow> 'a settings_answer \<times> settings"

record settings_env =
  sx_reg :: registry
  sx_cipher :: cipher
  sx_tenant :: tenant_db
  sx_now :: time
  sx_fault :: "nat \<Rightarrow> fault"
  sx_random :: "string option"
  sx_parse :: "string \<Rightarrow> url option"
  sx_test :: "Channel \<Rightarrow> string option"
  sx_publish :: "bool option"
  sx_trunc :: "string \<Rightarrow> int"

definition st_reply :: "'a settings_answer \<Rightarrow> 'a settings_handler" where "st_reply a w = (a, w)"

definition st_gate :: "Principal option \<Rightarrow> Action \<Rightarrow> (Principal \<Rightarrow> 'a settings_handler) \<Rightarrow> 'a settings_handler" where
  "st_gate ctx action k =
     (case humanInOrg ctx of
        None \<Rightarrow> st_reply StUnauthorized
      | Some p \<Rightarrow>
          let d = Can (principal_Actor p) action (org_resource (p_OrgID p))
          in if \<not> dec_Allowed d then st_reply (StForbidden (dec_Reason d)) else k p)"

definition st_call :: "'r ntx \<Rightarrow> (db_error + 'r \<Rightarrow> 'a settings_handler) \<Rightarrow> 'a settings_handler" where
  "st_call op k w = (case op (se_nd w) of (r, nd) \<Rightarrow> k r (w\<lparr>se_nd := nd\<rparr>))"

text \<open>\<open>if err != nil\<close>, without and with the 404 for a missing row.\<close>

definition st_ok :: "('r \<Rightarrow> 'a settings_handler) \<Rightarrow> db_error + 'r \<Rightarrow> 'a settings_handler" where
  "st_ok k r = (case r of Inl _ \<Rightarrow> st_reply StInternal | Inr a \<Rightarrow> k a)"

definition st_found :: "string \<Rightarrow> ('r \<Rightarrow> 'a settings_handler) \<Rightarrow> db_error + 'r \<Rightarrow> 'a settings_handler" where
  "st_found msg k r =
     (case r of Inl e \<Rightarrow> st_reply (if e = ErrNoRows then StNotFound msg else StInternal) | Inr a \<Rightarrow> k a)"

section \<open>Channels\<close>

subsection \<open>Validation\<close>

definition ChannelType_string :: "ChannelType \<Rightarrow> string" where
  "ChannelType_string t =
     (case t of ChannelSlack \<Rightarrow> ''slack'' | ChannelDiscord \<Rightarrow> ''discord'' | ChannelWebhook \<Rightarrow> ''webhook'' | ChannelSMTP \<Rightarrow> ''smtp''
      | ChannelEmail \<Rightarrow> ''email'' | ChannelPagerDuty \<Rightarrow> ''pagerduty'' | ChannelOpsgenie \<Rightarrow> ''opsgenie''
      | ChannelTelegram \<Rightarrow> ''telegram'' | ChannelTeams \<Rightarrow> ''teams'' | ChannelTwilio \<Rightarrow> ''twilio'' | ChannelTypeOther s \<Rightarrow> s)"

definition ChannelType_Valid :: "ChannelType \<Rightarrow> bool" where
  "ChannelType_Valid t = (case t of ChannelTypeOther _ \<Rightarrow> False | _ \<Rightarrow> True)"

definition allowedChannelTypes :: "settings_env \<Rightarrow> fault \<Rightarrow> int \<Rightarrow> ChannelType \<Rightarrow> bool" where
  "allowedChannelTypes e f orgID t \<longleftrightarrow> ChannelType_string t \<in> set (ChannelTypesAllowed (org_plan f orgID (sx_tenant e)))"

record ChannelInput =
  ci_Name :: string
  ci_Type :: ChannelType
  ci_Config :: "config option"
  ci_Enabled :: bool

fun member_id :: "(string \<Rightarrow> int) \<Rightarrow> cfg_value \<Rightarrow> int list" where
  "member_id trunc (CfgString s) = (case Atoi s of None \<Rightarrow> [] | Some i \<Rightarrow> [i])"
| "member_id trunc (CfgWhole n) = [n]"
| "member_id trunc (CfgFrac s) = [trunc s]"
| "member_id trunc (CfgInt n) = [n]"
| "member_id trunc (CfgInt64 n) = [n]"
| "member_id trunc _ = []"

definition parseMemberIDs :: "(string \<Rightarrow> int) \<Rightarrow> cfg_value option \<Rightarrow> int list" where
  "parseMemberIDs trunc raw =
     (case raw of
        None \<Rightarrow> []
      | Some (CfgList vs) \<Rightarrow> concat (map (member_id trunc) vs)
      | Some v \<Rightarrow> member_id trunc v)"

definition validateEmailMembers :: "settings_env \<Rightarrow> fault \<Rightarrow> int \<Rightarrow> config \<Rightarrow> string" where
  "validateEmailMembers e f orgID cfg =
     (let ids = parseMemberIDs (sx_trunc e) (map_of cfg ''members'')
      in if ids = [] then ''''
         else case AreActiveMembers f orgID ids (sx_tenant e) of
                Inl _ \<Rightarrow> ''could not verify members''
              | Inr ok \<Rightarrow> if \<not> ok then ''one or more selected members are not active members of this org'' else '''')"

definition validateChannelConfig :: "registry \<Rightarrow> ChannelType \<Rightarrow> config \<Rightarrow> settings_errors" where
  "validateChannelConfig reg t cfg = (case ValidateConfig reg t cfg of Some err \<Rightarrow> [(''config'', SetConfig err)] | None \<Rightarrow> [])"

definition type_errors :: "settings_env \<Rightarrow> fault \<Rightarrow> int \<Rightarrow> ChannelType \<Rightarrow> settings_errors \<Rightarrow> settings_errors" where
  "type_errors e f orgID t errs =
     (if \<not> ChannelType_Valid t then set_field ''type'' (SetMsg ''unknown channel type'') errs
      else if \<not> allowedChannelTypes e f orgID t then set_field ''type'' (SetMsg ''channel type is not included in your plan'') errs
      else errs)"

definition member_errors :: "settings_env \<Rightarrow> fault \<Rightarrow> int \<Rightarrow> config \<Rightarrow> settings_errors \<Rightarrow> settings_errors" where
  "member_errors e f orgID cfg errs =
     (let msg = validateEmailMembers e f orgID cfg in if msg \<noteq> '''' then set_field ''members'' (SetMsg msg) errs else errs)"

text \<open>The faults: the read of the plan and the read of the members.\<close>

definition channelFromInput :: "settings_env \<Rightarrow> fault \<times> fault \<Rightarrow> int \<Rightarrow> ChannelInput \<Rightarrow> string \<times> ChannelType \<times> config \<times> settings_errors" where
  "channelFromInput e f orgID inp =
     (let name = TrimSpace (ci_Name inp);
          e1 = (if name = '''' then [(''name'', SetMsg ''name is required'')] else []);
          t = ci_Type inp;
          e2 = type_errors e (fst f) orgID t e1;
          cfg = (case ci_Config inp of None \<Rightarrow> [] | Some c \<Rightarrow> c);
          e3 = (if ChannelType_Valid t then fold (\<lambda>(k, v). set_field k v) (validateChannelConfig (sx_reg e) t cfg) e2 else e2);
          e4 = (if ChannelType_Valid t \<and> t = ChannelEmail then member_errors e (snd f) orgID cfg e3 else e3)
      in (name, t, cfg, e4))"

text \<open>A blank secret takes the stored value; \<open>missing\<close> is the test of the validator: absent, nil or the empty text.\<close>

fun mergeKeptSecrets :: "config \<Rightarrow> config \<Rightarrow> string list \<Rightarrow> config" where
  "mergeKeptSecrets inp existing [] = inp"
| "mergeKeptSecrets inp existing (key # keys) =
     (if \<not> missing inp key then mergeKeptSecrets inp existing keys
      else if \<not> missing existing key then mergeKeptSecrets (set_field key (the (map_of existing key)) inp) existing keys
      else mergeKeptSecrets inp existing keys)"

definition stripConfigErrors :: "settings_errors \<Rightarrow> settings_errors" where
  "stripConfigErrors errs = filter (\<lambda>(k, _). k \<noteq> ''config'') errs"

subsection \<open>Shapes\<close>

definition redact_header :: "string \<times> cfg_value \<Rightarrow> string \<times> cfg_value" where
  "redact_header h =
     (case snd h of CfgString s \<Rightarrow> if s \<noteq> '''' then (fst h, CfgString '''') else h | _ \<Rightarrow> h)"

definition redact_value :: "cfg_value \<Rightarrow> cfg_value" where
  "redact_value v =
     (case v of
        CfgString s \<Rightarrow> if s \<noteq> '''' then CfgString '''' else v
      | CfgMap kvs \<Rightarrow> CfgMap (map redact_header kvs)
      | _ \<Rightarrow> v)"

fun redactSecretConfig :: "config \<Rightarrow> string list \<Rightarrow> config" where
  "redactSecretConfig out [] = out"
| "redactSecretConfig out (key # keys) =
     (case map_of out key of
        None \<Rightarrow> redactSecretConfig out keys
      | Some v \<Rightarrow> if v = CfgNil then redactSecretConfig out keys
                  else redactSecretConfig (set_field key (redact_value v) out) keys)"

record ChannelDTO =
  cd_Id :: string
  cd_OrgId :: string
  cd_Name :: string
  cd_Type :: ChannelType
  cd_Enabled :: bool
  cd_Config :: config

definition channelDTO :: "registry \<Rightarrow> Channel \<Rightarrow> ChannelDTO" where
  "channelDTO reg ch =
     \<lparr>cd_Id = Itoa (ch_ID ch), cd_OrgId = Itoa (ch_OrgID ch), cd_Name = ch_Name ch, cd_Type = ch_Type ch,
      cd_Enabled = ch_Enabled ch, cd_Config = redactSecretConfig (ch_Config ch) (SecretKeys reg (ch_Type ch))\<rparr>"

record LocalizedString =
  ls_Code :: string
  ls_Message :: string

record CatalogField =
  cgf_Key :: string
  cgf_Type :: FieldType
  cgf_Required :: bool
  cgf_Secret :: bool
  cgf_Enum :: "string list"
  cgf_Default :: string
  cgf_Label :: LocalizedString
  cgf_Help :: "LocalizedString option"

record CatalogEntry =
  cge_Type :: string
  cge_DisplayName :: string
  cge_Available :: bool
  cge_ConfigFields :: "CatalogField list"
  cge_UnavailableReason :: "LocalizedString option"

text \<open>The types that are registered, in the order of their texts.\<close>

definition channel_types :: "ChannelType list" where
  "channel_types = [ChannelDiscord, ChannelEmail, ChannelOpsgenie, ChannelPagerDuty, ChannelSlack, ChannelSMTP, ChannelTeams,
     ChannelTelegram, ChannelTwilio, ChannelWebhook]"

definition registry_List :: "registry \<Rightarrow> Descriptor list" where
  "registry_List reg = List.map_filter reg channel_types"

definition catalog_field :: "string \<Rightarrow> ConfigField \<Rightarrow> CatalogField" where
  "catalog_field t f =
     \<lparr>cgf_Key = cf_Key f, cgf_Type = cf_Type f, cgf_Required = cf_Required f, cgf_Secret = cf_Secret f, cgf_Enum = cf_Enum f,
      cgf_Default = cf_Default f,
      cgf_Label = \<lparr>ls_Code = ''channel.'' @ t @ ''.config.'' @ cf_Key f @ ''.label'', ls_Message = cf_Label f\<rparr>,
      cgf_Help = (if cf_Help f \<noteq> '''' then Some \<lparr>ls_Code = ''channel.'' @ t @ ''.config.'' @ cf_Key f @ ''.help'', ls_Message = cf_Help f\<rparr>
                  else None)\<rparr>"

definition notify_Catalog :: "registry \<Rightarrow> (ChannelType \<Rightarrow> bool) \<Rightarrow> CatalogEntry list" where
  "notify_Catalog reg allowed = map (\<lambda>d.
     \<lparr>cge_Type = ChannelType_string (d_Type d), cge_DisplayName = d_DisplayName d, cge_Available = allowed (d_Type d),
      cge_ConfigFields = map (catalog_field (ChannelType_string (d_Type d))) (d_ConfigFields d),
      cge_UnavailableReason = None\<rparr>) (registry_List reg)"

definition catalogEntryDTO :: "CatalogEntry \<Rightarrow> CatalogEntry" where
  "catalogEntryDTO e =
     (if \<not> cge_Available e
      then e\<lparr>cge_UnavailableReason := Some \<lparr>ls_Code = ''channel.'' @ cge_Type e @ ''.unavailable'',
               ls_Message = ''This channel type is not available on your plan yet.''\<rparr>\<rparr>
      else e)"

subsection \<open>Handlers\<close>

definition GetChannelTypes :: "settings_env \<Rightarrow> Principal option \<Rightarrow> CatalogEntry list settings_handler" where
  "GetChannelTypes e ctx = st_gate ctx ActionManageChannels (\<lambda>p.
     st_reply (StOk (map catalogEntryDTO (notify_Catalog (sx_reg e) (allowedChannelTypes e (sx_fault e 0) (p_OrgID p))))))"

definition api_ListChannels :: "settings_env \<Rightarrow> Principal option \<Rightarrow> ChannelDTO list settings_handler" where
  "api_ListChannels e ctx = st_gate ctx ActionManageChannels (\<lambda>p.
     st_call (ListChannels (sx_fault e 0) (sx_cipher e) (Some (SecretKeys (sx_reg e))) (p_OrgID p)) (st_ok (\<lambda>channels.
     st_reply (StOk (map (channelDTO (sx_reg e)) channels)))))"

definition api_CreateChannel :: "settings_env \<Rightarrow> Principal option \<Rightarrow> ChannelInput option \<Rightarrow> ChannelDTO settings_handler" where
  "api_CreateChannel e ctx body = st_gate ctx ActionManageChannels (\<lambda>p.
     case body of
       None \<Rightarrow> st_reply (StInvalid ''body required'')
     | Some inp \<Rightarrow>
         (case channelFromInput e (sx_fault e 0, sx_fault e 1) (p_OrgID p) inp of
            (name, t, cfg, fieldErrs) \<Rightarrow>
              if fieldErrs \<noteq> [] then st_reply (StFields fieldErrs)
              else let ch = \<lparr>ch_ID = 0, ch_OrgID = p_OrgID p, ch_Name = name, ch_Type = t, ch_Config = cfg, ch_Enabled = ci_Enabled inp\<rparr>
                   in st_call (CreateChannel (sx_fault e 2) (sx_cipher e) (Some (SecretKeys (sx_reg e))) ch) (st_ok (\<lambda>i.
                      st_reply (StOk (channelDTO (sx_reg e) (ch\<lparr>ch_ID := i\<rparr>)))))))"

text \<open>The errors that are left and the config that is stored, for an existing channel of type \<open>t'\<close>.\<close>

definition keep_secrets :: "registry \<Rightarrow> ChannelType \<Rightarrow> config \<Rightarrow> ChannelType \<Rightarrow> config \<Rightarrow> settings_errors \<Rightarrow> config \<times> settings_errors" where
  "keep_secrets reg t' stored t cfg fieldErrs =
     (let merged = mergeKeptSecrets cfg stored (SecretKeys reg t)
      in if fieldErrs \<noteq> []
         then if t = t'
              then (merged, if validateChannelConfig reg t merged = [] then stripConfigErrors fieldErrs else fieldErrs)
              else (cfg, fieldErrs)
         else (if t = t' then merged else cfg, fieldErrs))"

definition api_UpdateChannel :: "settings_env \<Rightarrow> Principal option \<Rightarrow> string \<Rightarrow> ChannelInput option \<Rightarrow> ChannelDTO settings_handler" where
  "api_UpdateChannel e ctx rawID body = st_gate ctx ActionManageChannels (\<lambda>p.
     case body of
       None \<Rightarrow> st_reply (StInvalid ''body required'')
     | Some inp \<Rightarrow>
         (case parseMonitorID rawID of
            None \<Rightarrow> st_reply (StNotFound ''channel not found'')
          | Some i \<Rightarrow>
              st_call (GetChannel (sx_fault e 0) (sx_cipher e) (Some (SecretKeys (sx_reg e))) (p_OrgID p) i)
                (st_found ''channel not found'' (\<lambda>existing.
                  case channelFromInput e (sx_fault e 1, sx_fault e 2) (p_OrgID p) inp of
                    (name, t, cfg0, errs0) \<Rightarrow>
                      (case keep_secrets (sx_reg e) (ch_Type existing) (ch_Config existing) t cfg0 errs0 of
                         (cfg, fieldErrs) \<Rightarrow>
                           if fieldErrs \<noteq> [] then st_reply (StFields fieldErrs)
                           else let ch = existing\<lparr>ch_Name := name, ch_Type := t, ch_Config := cfg, ch_Enabled := ci_Enabled inp\<rparr>
                                in st_call (UpdateChannel (sx_fault e 3) (sx_cipher e) (Some (SecretKeys (sx_reg e))) ch)
                                     (st_found ''channel not found'' (\<lambda>_. st_reply (StOk (channelDTO (sx_reg e) ch)))))))))"

definition api_DeleteChannel :: "settings_env \<Rightarrow> Principal option \<Rightarrow> string \<Rightarrow> unit settings_handler" where
  "api_DeleteChannel e ctx rawID = st_gate ctx ActionManageChannels (\<lambda>p.
     case parseMonitorID rawID of
       None \<Rightarrow> st_reply (StOk ())
     | Some i \<Rightarrow> st_call (DeleteChannel (sx_fault e 0) (p_OrgID p) i) (st_ok (\<lambda>_. st_reply (StOk ()))))"

definition test_intent :: "Principal \<Rightarrow> Channel \<Rightarrow> EmailIntent" where
  "test_intent p ch =
     \<lparr>em_Type = EmailChannelTest, em_Locale = '''', em_MagicLink = None, em_Invitation = None,
      em_ChannelTest = Some \<lparr>ctr_ChannelID = ch_ID ch, ctr_ChannelName = ch_Name ch, ctr_OrgID = p_OrgID p,
        ctr_RequestedByEmail = p_Email p\<rparr>\<rparr>"

definition TestChannel :: "settings_env \<Rightarrow> Principal option \<Rightarrow> string \<Rightarrow> unit settings_handler" where
  "TestChannel e ctx rawID = st_gate ctx ActionManageChannels (\<lambda>p.
     case parseMonitorID rawID of
       None \<Rightarrow> st_reply (StNotFound ''channel not found'')
     | Some i \<Rightarrow>
         st_call (GetChannel (sx_fault e 0) (sx_cipher e) (Some (SecretKeys (sx_reg e))) (p_OrgID p) i)
           (st_found ''channel not found'' (\<lambda>ch w.
             if ch_Type ch = ChannelEmail
             then if p_Email p = '''' then (StInvalid ''a Team email test can only be sent by a signed-in user'', w)
                  else (case sx_publish e of
                          None \<Rightarrow> (StOk (), w)
                        | Some published \<Rightarrow>
                            if published then (StOk (), w\<lparr>se_mail := se_mail w @ [test_intent p ch]\<rparr>)
                            else (StInvalid ''could not queue test message'', w))
             else (case sx_test e ch of
                     None \<Rightarrow> (StOk (), w\<lparr>se_tests := se_tests w @ [ch]\<rparr>)
                   | Some err \<Rightarrow> (StInvalid (''could not deliver test message: '' @ err), w)))))"

section \<open>Webhooks of the org\<close>

definition OrgWebhookEvent_of :: "string \<Rightarrow> OrgWebhookEvent option" where
  "OrgWebhookEvent_of s =
     find (\<lambda>ev. OrgWebhookEvent_string ev = s)
       [OrgEventMonitorDown, OrgEventMonitorRecover, OrgEventIncidentOpened, OrgEventIncidentClosed]"

record OutboundWebhookInput =
  wi_Url :: string
  wi_Enabled :: "bool option"
  wi_Events :: "string list option"

fun event_loop :: "nat \<Rightarrow> string list \<Rightarrow> OrgWebhookEvent list \<Rightarrow> settings_errors \<Rightarrow> OrgWebhookEvent list \<times> settings_errors" where
  "event_loop i [] events errs = (events, errs)"
| "event_loop i (raw # raws) events errs =
     (case OrgWebhookEvent_of raw of
        None \<Rightarrow> event_loop (i + 1) raws events (set_field (''events.'' @ Itoa (int i)) (SetMsg ''unknown event type'') errs)
      | Some ev \<Rightarrow> event_loop (i + 1) raws (if ev \<in> set events then events else events @ [ev]) errs)"

definition webhookFromInput :: "(string \<Rightarrow> url option) \<Rightarrow> OutboundWebhookInput \<Rightarrow> string \<times> OrgWebhookEvent list \<times> settings_errors" where
  "webhookFromInput Parse inp =
     (let raw = TrimSpace (wi_Url inp);
          absolute = (case Parse raw of None \<Rightarrow> False | Some u \<Rightarrow> url_Scheme u = ''https'' \<and> url_Host u \<noteq> '''');
          e1 = (if raw = '''' then [(''url'', SetMsg ''url is required'')]
                else if \<not> absolute then [(''url'', SetMsg ''url must be an absolute https URL'')] else []);
          (events, errs) = (case wi_Events inp of None \<Rightarrow> ([], e1) | Some raws \<Rightarrow> event_loop 0 raws [] e1)
      in (raw, events, errs))"

record OutboundWebhook =
  ow_Id :: string
  ow_Url :: string
  ow_Enabled :: bool
  ow_Events :: "OrgWebhookEvent list"
  ow_CreatedBy :: "string option"
  ow_CreatedAt :: time
  ow_UpdatedAt :: time
  ow_LastDeliveryAt :: "time option"
  ow_LastStatus :: "string option"
  ow_LastError :: "string option"

definition webhookDTO :: "OrgWebhook \<Rightarrow> OutboundWebhook" where
  "webhookDTO w =
     \<lparr>ow_Id = Itoa (wh_ID w), ow_Url = wh_URL w, ow_Enabled = wh_Enabled w, ow_Events = wh_Events w,
      ow_CreatedBy = map_option Itoa (wh_CreatedBy w), ow_CreatedAt = wh_CreatedAt w, ow_UpdatedAt = wh_UpdatedAt w,
      ow_LastDeliveryAt = wh_LastDeliveryAt w, ow_LastStatus = (if wh_LastStatus w \<noteq> '''' then Some (wh_LastStatus w) else None),
      ow_LastError = wh_LastError w\<rparr>"

definition newWebhookSecret :: "string option \<Rightarrow> string option" where
  "newWebhookSecret random = map_option (\<lambda>b. ''whsec_'' @ RawURLEncoding_Encode b) random"

definition api_ListWebhooks :: "settings_env \<Rightarrow> Principal option \<Rightarrow> OutboundWebhook list settings_handler" where
  "api_ListWebhooks e ctx = st_gate ctx ActionManageWebhooks (\<lambda>p.
     st_call (ListWebhooks (sx_fault e 0) (sx_cipher e) (p_OrgID p)) (st_ok (\<lambda>hooks. st_reply (StOk (map webhookDTO hooks)))))"

definition api_GetWebhook :: "settings_env \<Rightarrow> Principal option \<Rightarrow> string \<Rightarrow> OutboundWebhook settings_handler" where
  "api_GetWebhook e ctx rawID = st_gate ctx ActionManageWebhooks (\<lambda>p.
     case parseMonitorID rawID of
       None \<Rightarrow> st_reply (StNotFound ''webhook not found'')
     | Some i \<Rightarrow> st_call (GetWebhook (sx_fault e 0) (sx_cipher e) (p_OrgID p) i)
                   (st_found ''webhook not found'' (\<lambda>w. st_reply (StOk (webhookDTO w)))))"

text \<open>The answer of a create or a rotation: the webhook as it was read again, and the secret.\<close>

definition api_CreateWebhook :: "settings_env \<Rightarrow> Principal option \<Rightarrow> OutboundWebhookInput option
    \<Rightarrow> (OutboundWebhook \<times> string) settings_handler" where
  "api_CreateWebhook e ctx body = st_gate ctx ActionManageWebhooks (\<lambda>p.
     case body of
       None \<Rightarrow> st_reply (StInvalid ''body required'')
     | Some inp \<Rightarrow>
         (case webhookFromInput (sx_parse e) inp of
            (u, events, fieldErrs) \<Rightarrow>
              if fieldErrs \<noteq> [] then st_reply (StFields fieldErrs)
              else case newWebhookSecret (sx_random e) of
                     None \<Rightarrow> st_reply StInternal
                   | Some secret \<Rightarrow>
                       let w = \<lparr>wh_ID = 0, wh_OrgID = p_OrgID p, wh_URL = u, wh_SigningSecret = secret,
                                wh_Enabled = (case wi_Enabled inp of None \<Rightarrow> True | Some b \<Rightarrow> b), wh_Events = events,
                                wh_CreatedBy = Some (p_UserID p), wh_CreatedAt = zero_time, wh_UpdatedAt = zero_time,
                                wh_LastDeliveryAt = None, wh_LastStatus = '''', wh_LastError = None\<rparr>
                       in st_call (CreateWebhook (sx_fault e 0) (sx_cipher e) (sx_now e) w) (st_ok (\<lambda>i.
                          st_call (GetWebhook (sx_fault e 1) (sx_cipher e) (p_OrgID p) i) (st_ok (\<lambda>stored.
                          st_reply (StOk (webhookDTO stored, secret))))))))"

definition api_UpdateWebhook :: "settings_env \<Rightarrow> Principal option \<Rightarrow> string \<Rightarrow> OutboundWebhookInput option
    \<Rightarrow> OutboundWebhook settings_handler" where
  "api_UpdateWebhook e ctx rawID body = st_gate ctx ActionManageWebhooks (\<lambda>p.
     case body of
       None \<Rightarrow> st_reply (StInvalid ''body required'')
     | Some inp \<Rightarrow>
         (case parseMonitorID rawID of
            None \<Rightarrow> st_reply (StNotFound ''webhook not found'')
          | Some i \<Rightarrow>
              st_call (GetWebhook (sx_fault e 0) (sx_cipher e) (p_OrgID p) i) (st_found ''webhook not found'' (\<lambda>existing.
                case webhookFromInput (sx_parse e) inp of
                  (u, events, fieldErrs) \<Rightarrow>
                    if fieldErrs \<noteq> [] then st_reply (StFields fieldErrs)
                    else let w = existing\<lparr>wh_URL := u, wh_Events := events,
                               wh_Enabled := (case wi_Enabled inp of None \<Rightarrow> wh_Enabled existing | Some b \<Rightarrow> b)\<rparr>
                         in st_call (UpdateWebhook (sx_fault e 1) (sx_now e) w) (st_found ''webhook not found'' (\<lambda>_.
                            st_call (GetWebhook (sx_fault e 2) (sx_cipher e) (p_OrgID p) i) (st_ok (\<lambda>stored.
                            st_reply (StOk (webhookDTO stored))))))))))"

definition api_RotateWebhookSecret :: "settings_env \<Rightarrow> Principal option \<Rightarrow> string \<Rightarrow> (OutboundWebhook \<times> string) settings_handler" where
  "api_RotateWebhookSecret e ctx rawID = st_gate ctx ActionManageWebhooks (\<lambda>p.
     case parseMonitorID rawID of
       None \<Rightarrow> st_reply (StNotFound ''webhook not found'')
     | Some i \<Rightarrow>
         (case newWebhookSecret (sx_random e) of
            None \<Rightarrow> st_reply StInternal
          | Some secret \<Rightarrow>
              st_call (RotateWebhookSecret (sx_fault e 0) (sx_cipher e) (sx_now e) (p_OrgID p) i secret)
                (st_found ''webhook not found'' (\<lambda>_.
                  st_call (GetWebhook (sx_fault e 1) (sx_cipher e) (p_OrgID p) i) (st_ok (\<lambda>stored.
                  st_reply (StOk (webhookDTO stored, secret))))))))"

definition api_DeleteWebhook :: "settings_env \<Rightarrow> Principal option \<Rightarrow> string \<Rightarrow> unit settings_handler" where
  "api_DeleteWebhook e ctx rawID = st_gate ctx ActionManageWebhooks (\<lambda>p.
     case parseMonitorID rawID of
       None \<Rightarrow> st_reply (StOk ())
     | Some i \<Rightarrow> st_call (DeleteWebhook (sx_fault e 0) (p_OrgID p) i) (st_ok (\<lambda>_. st_reply (StOk ()))))"

section \<open>Requests\<close>

datatype settings_request =
    SrChannelTypes | SrListChannels | SrCreateChannel "ChannelInput option" | SrUpdateChannel string "ChannelInput option"
  | SrDeleteChannel string | SrTestChannel string
  | SrListWebhooks | SrGetWebhook string | SrCreateWebhook "OutboundWebhookInput option"
  | SrUpdateWebhook string "OutboundWebhookInput option" | SrRotateWebhook string | SrDeleteWebhook string

datatype settings_reply =
    SpCatalog "CatalogEntry list" | SpChannels "ChannelDTO list" | SpChannel ChannelDTO | SpDone
  | SpWebhooks "OutboundWebhook list" | SpWebhook OutboundWebhook | SpSecret OutboundWebhook string

fun st_map :: "('a \<Rightarrow> 'b) \<Rightarrow> 'a settings_answer \<Rightarrow> 'b settings_answer" where
  "st_map f (StOk a) = StOk (f a)"
| "st_map f StUnauthorized = StUnauthorized"
| "st_map f (StForbidden m) = StForbidden m"
| "st_map f (StNotFound m) = StNotFound m"
| "st_map f (StFields m) = StFields m"
| "st_map f (StInvalid m) = StInvalid m"
| "st_map f StInternal = StInternal"

definition as_reply :: "('a \<Rightarrow> settings_reply) \<Rightarrow> 'a settings_handler \<Rightarrow> settings_reply settings_handler" where
  "as_reply f h w = (case h w of (a, w') \<Rightarrow> (st_map f a, w'))"

fun serve_settings :: "settings_env \<Rightarrow> Principal option \<Rightarrow> settings_request \<Rightarrow> settings_reply settings_handler" where
  "serve_settings e ctx SrChannelTypes = as_reply SpCatalog (GetChannelTypes e ctx)"
| "serve_settings e ctx SrListChannels = as_reply SpChannels (api_ListChannels e ctx)"
| "serve_settings e ctx (SrCreateChannel body) = as_reply SpChannel (api_CreateChannel e ctx body)"
| "serve_settings e ctx (SrUpdateChannel i body) = as_reply SpChannel (api_UpdateChannel e ctx i body)"
| "serve_settings e ctx (SrDeleteChannel i) = as_reply (\<lambda>_. SpDone) (api_DeleteChannel e ctx i)"
| "serve_settings e ctx (SrTestChannel i) = as_reply (\<lambda>_. SpDone) (TestChannel e ctx i)"
| "serve_settings e ctx SrListWebhooks = as_reply SpWebhooks (api_ListWebhooks e ctx)"
| "serve_settings e ctx (SrGetWebhook i) = as_reply SpWebhook (api_GetWebhook e ctx i)"
| "serve_settings e ctx (SrCreateWebhook body) = as_reply (\<lambda>(d, s). SpSecret d s) (api_CreateWebhook e ctx body)"
| "serve_settings e ctx (SrUpdateWebhook i body) = as_reply SpWebhook (api_UpdateWebhook e ctx i body)"
| "serve_settings e ctx (SrRotateWebhook i) = as_reply (\<lambda>(d, s). SpSecret d s) (api_RotateWebhookSecret e ctx i)"
| "serve_settings e ctx (SrDeleteWebhook i) = as_reply (\<lambda>_. SpDone) (api_DeleteWebhook e ctx i)"

end
