(* ===== verification/Pulse_Channel_Facts.thy ===== *)
theory Pulse_Channel_Facts
  imports Pulse_Channel_Api
begin

text \<open>
  What the notification settings promise: secrets are stored encrypted and never answered, an edit that leaves them
  untouched keeps them, a rotated signing secret is the one that signs, and a request stays in its org.
\<close>

section \<open>Configs as JSON objects\<close>

lemma alist_eqI:
  assumes "map fst xs = map fst ys" and "distinct (map fst xs)" and "\<And>k. k \<in> set (map fst xs) \<Longrightarrow> map_of xs k = map_of ys k"
  shows "xs = ys"
  using assms
proof (induction xs ys rule: list_induct2')
  case (4 x xs y ys)
  have tail: "map_of xs k = map_of ys k" if "k \<in> set (map fst xs)" for k
  proof -
    have "k \<noteq> fst x" using that 4(3) by (auto simp del: set_map)
    moreover have "fst y = fst x" using 4(2) by simp
    ultimately show ?thesis using 4(4) [of k] that by (cases x; cases y) simp
  qed
  have "map_of (x # xs) (fst x) = map_of (y # ys) (fst x)" using 4(4) [of "fst x"] by simp
  then have "x = y" using 4(2) by (cases x; cases y) simp
  then show ?case using 4(1) 4(2,3) tail by simp
qed simp_all

lemma set_field_present: "k \<in> set (map fst h) \<Longrightarrow> map fst (set_field k v h) = map fst h"
  by (induction k v h rule: set_field.induct) auto

lemma map_of_present: "map_of h k = Some v \<Longrightarrow> k \<in> set (map fst h)"
  by (metis domI dom_map_of_conv_image_fst set_map)

lemma redact_value_idem [simp]: "redact_value (redact_value v) = redact_value v"
  by (auto simp: redact_value_def redact_header_def split: cfg_value.splits)

lemma redact_value_nil: "redact_value CfgNil = CfgNil"
  by (simp add: redact_value_def)

lemma redact_keys: "map fst (redactSecretConfig cfg keys) = map fst cfg"
  by (induction cfg keys rule: redactSecretConfig.induct) (auto simp: set_field_present map_of_present simp del: set_map split: option.split)

lemma redact_map_of:
  "map_of (redactSecretConfig cfg keys) k = (if k \<in> set keys then map_option redact_value (map_of cfg k) else map_of cfg k)"
  by (induction cfg keys rule: redactSecretConfig.induct) (auto simp: map_of_set_field redact_value_nil split: option.split)

lemma missing_map_of: "missing cfg k \<longleftrightarrow> map_of cfg k \<in> {None, Some CfgNil, Some (CfgString '''')}"
  by (auto simp: missing_def split: option.split)

lemma merge_map_of:
  "map_of (mergeKeptSecrets inp ex keys) k =
     (if k \<in> set keys \<and> missing inp k \<and> \<not> missing ex k then map_of ex k else map_of inp k)"
  by (induction inp ex keys rule: mergeKeptSecrets.induct) (auto simp: map_of_set_field missing_map_of)

lemma merge_keys:
  "set (map fst ex) \<subseteq> set (map fst inp) \<Longrightarrow> map fst (mergeKeptSecrets inp ex keys) = map fst inp"
proof (induction inp ex keys rule: mergeKeptSecrets.induct)
  case (2 inp ex key keys)
  have "key \<in> set (map fst inp)" if "\<not> missing ex key"
    using that 2(4) map_of_present [of ex key] by (auto simp: missing_def split: option.splits)
  then show ?case using 2 by (simp add: set_field_present del: set_map)
qed simp

text \<open>A config whose secrets are no header maps.\<close>

definition plain_secrets :: "string list \<Rightarrow> config \<Rightarrow> bool" where
  "plain_secrets keys cfg \<longleftrightarrow> list_all (\<lambda>k. case map_of cfg k of Some (CfgMap _) \<Rightarrow> False | _ \<Rightarrow> True) keys"

text \<open>What the editor got, sent back: the blank secrets are filled in again.\<close>

lemma merge_redacted:
  assumes "distinct (map fst cfg)" and "plain_secrets keys cfg"
  shows "mergeKeptSecrets (redactSecretConfig cfg keys) cfg keys = cfg"
proof (rule alist_eqI)
  show "map fst (mergeKeptSecrets (redactSecretConfig cfg keys) cfg keys) = map fst cfg"
    by (simp add: merge_keys redact_keys del: set_map)
  then show "distinct (map fst (mergeKeptSecrets (redactSecretConfig cfg keys) cfg keys))" using assms(1) by simp
  show "map_of (mergeKeptSecrets (redactSecretConfig cfg keys) cfg keys) k = map_of cfg k" for k
  proof (cases "k \<in> set keys")
    case True
    then have "case map_of cfg k of Some (CfgMap _) \<Rightarrow> False | _ \<Rightarrow> True"
      using assms(2) by (simp add: plain_secrets_def list_all_iff)
    then show ?thesis using True
      by (auto simp: merge_map_of redact_map_of missing_map_of redact_value_def split: option.splits cfg_value.splits if_splits)
  qed (simp add: merge_map_of redact_map_of)
qed

section \<open>Answers show no secret\<close>

definition text_blank :: "cfg_value \<Rightarrow> bool" where
  "text_blank v = (case v of CfgString s \<Rightarrow> s = '''' | _ \<Rightarrow> True)"

definition value_blank :: "cfg_value \<Rightarrow> bool" where
  "value_blank v = (case v of CfgMap kvs \<Rightarrow> list_all (\<lambda>h. text_blank (snd h)) kvs | _ \<Rightarrow> text_blank v)"

definition secrets_blank :: "registry \<Rightarrow> ChannelDTO \<Rightarrow> bool" where
  "secrets_blank reg d \<longleftrightarrow>
     list_all (\<lambda>k. case map_of (cd_Config d) k of None \<Rightarrow> True | Some v \<Rightarrow> value_blank v) (SecretKeys reg (cd_Type d))"

lemma redact_blank: "value_blank (redact_value v)"
  by (auto simp: value_blank_def text_blank_def redact_value_def redact_header_def list_all_iff split: cfg_value.splits)

lemma DTO_blank: "secrets_blank reg (channelDTO reg ch)"
  by (auto simp: secrets_blank_def channelDTO_def list_all_iff redact_map_of redact_blank split: option.split)

text \<open>Every channel a reply shows.\<close>

fun shown :: "settings_reply settings_answer \<Rightarrow> ChannelDTO list" where
  "shown (StOk (SpChannels ds)) = ds"
| "shown (StOk (SpChannel d)) = [d]"
| "shown _ = []"

text \<open>A predicate of all answers of a handler, down its idioms.\<close>

definition answers :: "('a settings_answer \<Rightarrow> bool) \<Rightarrow> 'a settings_handler \<Rightarrow> bool" where
  "answers P h \<longleftrightarrow> (\<forall>w. P (fst (h w)))"

definition only_ok :: "('a \<Rightarrow> bool) \<Rightarrow> 'a settings_answer \<Rightarrow> bool" where
  "only_ok Q a = (case a of StOk x \<Rightarrow> Q x | _ \<Rightarrow> True)"

lemma only_ok_iff: "only_ok Q a \<longleftrightarrow> (\<forall>x. a = StOk x \<longrightarrow> Q x)"
  by (cases a) (simp_all add: only_ok_def)

lemma answers_reply: "only_ok Q a \<Longrightarrow> answers (only_ok Q) (st_reply a)"
  by (simp add: answers_def st_reply_def)

lemma answers_gate: "(\<And>p. answers (only_ok Q) (k p)) \<Longrightarrow> answers (only_ok Q) (st_gate ctx action k)"
  by (simp add: st_gate_def Let_def answers_def st_reply_def only_ok_def split: option.split)

lemma answers_call: "(\<And>r. answers (only_ok Q) (k r)) \<Longrightarrow> answers (only_ok Q) (st_call op k)"
  by (simp add: st_call_def answers_def split: prod.split)

lemma answers_ok: "(\<And>a. answers (only_ok Q) (k a)) \<Longrightarrow> answers (only_ok Q) (st_ok k r)"
  by (simp add: st_ok_def answers_def st_reply_def only_ok_def split: sum.split)

lemma answers_found: "(\<And>a. answers (only_ok Q) (k a)) \<Longrightarrow> answers (only_ok Q) (st_found msg k r)"
  by (simp add: st_found_def answers_def st_reply_def only_ok_def split: sum.split)

lemmas answers_rules = answers_gate answers_call answers_ok answers_found answers_reply

lemma list_shows: "answers (only_ok (list_all (secrets_blank (sx_reg e)))) (api_ListChannels e ctx)"
  unfolding api_ListChannels_def by (intro answers_rules) (simp add: only_ok_def list_all_iff DTO_blank)

lemma create_shows: "answers (only_ok (secrets_blank (sx_reg e))) (api_CreateChannel e ctx body)"
  unfolding api_CreateChannel_def
  by (rule answers_gate) (auto simp: Let_def only_ok_def DTO_blank intro!: answers_rules split: option.split prod.split)

lemma update_shows: "answers (only_ok (secrets_blank (sx_reg e))) (api_UpdateChannel e ctx i body)"
  unfolding api_UpdateChannel_def
  by (rule answers_gate) (auto simp: Let_def only_ok_def DTO_blank intro!: answers_rules split: option.split prod.split)

lemma shown_as_reply:
  "shown (fst (as_reply f h w)) = (case fst (h w) of StOk a \<Rightarrow> shown (StOk (f a)) | _ \<Rightarrow> [])"
  by (cases "h w"; cases "fst (h w)") (auto simp: as_reply_def)

lemma serve_shows: "list_all (secrets_blank (sx_reg e)) (shown (fst (serve_settings e ctx req w)))"
  using list_shows [of e ctx] create_shows [of e ctx] update_shows [of e ctx]
  by (cases req)
    (auto simp: shown_as_reply answers_def only_ok_iff split: settings_answer.split prod.split)

text \<open>Two values that differ in a secret text, and channels and webhooks that differ in their secrets alone.\<close>

definition text_alike :: "cfg_value \<Rightarrow> cfg_value \<Rightarrow> bool" where
  "text_alike v v' \<longleftrightarrow> v = v' \<or> (case (v, v') of (CfgString s, CfgString s') \<Rightarrow> s \<noteq> '''' \<and> s' \<noteq> '''' | _ \<Rightarrow> False)"

definition value_alike :: "cfg_value \<Rightarrow> cfg_value \<Rightarrow> bool" where
  "value_alike v v' \<longleftrightarrow> text_alike v v'
     \<or> (case (v, v') of (CfgMap hs, CfgMap hs') \<Rightarrow> list_all2 (\<lambda>h h'. fst h = fst h' \<and> text_alike (snd h) (snd h')) hs hs' | _ \<Rightarrow> False)"

definition channel_alike :: "registry \<Rightarrow> Channel \<Rightarrow> Channel \<Rightarrow> bool" where
  "channel_alike reg a b \<longleftrightarrow> a\<lparr>ch_Config := []\<rparr> = b\<lparr>ch_Config := []\<rparr> \<and> distinct (map fst (ch_Config a))
     \<and> list_all2 (\<lambda>(k, v) (k', v'). k = k' \<and> (v = v' \<or> k \<in> set (SecretKeys reg (ch_Type a)) \<and> value_alike v v'))
         (ch_Config a) (ch_Config b)"

definition webhook_alike :: "OrgWebhook \<Rightarrow> OrgWebhook \<Rightarrow> bool" where
  "webhook_alike a b \<longleftrightarrow> a\<lparr>wh_SigningSecret := ''''\<rparr> = b\<lparr>wh_SigningSecret := ''''\<rparr>"

lemma redact_header_alike: "fst h = fst h' \<Longrightarrow> text_alike (snd h) (snd h') \<Longrightarrow> redact_header h = redact_header h'"
  by (cases h; cases h') (auto simp: redact_header_def text_alike_def split: cfg_value.splits)

lemma redact_headers_alike:
  "list_all2 (\<lambda>h h'. fst h = fst h' \<and> text_alike (snd h) (snd h')) hs hs' \<Longrightarrow> map redact_header hs = map redact_header hs'"
  by (induction rule: list_all2_induct) (simp_all add: redact_header_alike)

lemma redact_alike: "value_alike v v' \<Longrightarrow> redact_value v = redact_value v'"
proof (cases "text_alike v v'")
  case True
  then show ?thesis by (auto simp: text_alike_def redact_value_def split: cfg_value.splits)
next
  case False
  assume "value_alike v v'"
  then show ?thesis using False redact_headers_alike
    by (cases v; cases v') (simp_all add: value_alike_def redact_value_def)
qed

lemma config_alike:
  assumes "list_all2 (\<lambda>(k, v) (k', v'). k = k' \<and> (v = v' \<or> k \<in> K \<and> value_alike v v')) cfg cfg'"
  shows "map fst cfg = map fst cfg'"
    and "(if k \<in> K then map_option redact_value (map_of cfg k) else map_of cfg k)
       = (if k \<in> K then map_option redact_value (map_of cfg' k) else map_of cfg' k)"
  using assms by (induction rule: list_all2_induct) (auto simp: redact_alike)

lemma DTO_alike: "channel_alike reg a b \<Longrightarrow> channelDTO reg a = channelDTO reg b"
proof -
  assume *: "channel_alike reg a b"
  let ?keys = "SecretKeys reg (ch_Type a)"
  have l: "list_all2 (\<lambda>(k, v) (k', v'). k = k' \<and> (v = v' \<or> k \<in> set ?keys \<and> value_alike v v')) (ch_Config a) (ch_Config b)"
    using * by (simp add: channel_alike_def)
  have "redactSecretConfig (ch_Config a) ?keys = redactSecretConfig (ch_Config b) ?keys"
  proof (rule alist_eqI)
    show "map fst (redactSecretConfig (ch_Config a) ?keys) = map fst (redactSecretConfig (ch_Config b) ?keys)"
      using config_alike(1) [OF l] by (simp add: redact_keys)
    show "distinct (map fst (redactSecretConfig (ch_Config a) ?keys))" using * by (simp add: channel_alike_def redact_keys)
    show "map_of (redactSecretConfig (ch_Config a) ?keys) k = map_of (redactSecretConfig (ch_Config b) ?keys) k" for k
      using config_alike(2) [OF l, of k] by (simp add: redact_map_of)
  qed
  then show ?thesis
    using * by (cases a; cases b) (auto simp: channel_alike_def channelDTO_def)
qed

lemma webhook_DTO_alike: "webhook_alike a b \<Longrightarrow> webhookDTO a = webhookDTO b"
  by (cases a; cases b) (simp add: webhook_alike_def webhookDTO_def)

lemma map_alike: "list_all2 R xs ys \<Longrightarrow> (\<And>x y. R x y \<Longrightarrow> f x = g y) \<Longrightarrow> map f xs = map g ys"
  by (induction rule: list_all2_induct) simp_all

lemma list_channels_alike:
  assumes "fst (ListChannels (sx_fault e 0) (sx_cipher e) (Some (SecretKeys (sx_reg e))) (ctx_org ctx) (se_nd w)) = Inr chs"
    and "fst (ListChannels (sx_fault e 0) (sx_cipher e) (Some (SecretKeys (sx_reg e))) (ctx_org ctx) (se_nd w')) = Inr chs'"
    and "list_all2 (channel_alike (sx_reg e)) chs chs'"
  shows "fst (serve_settings e ctx SrListChannels w) = fst (serve_settings e ctx SrListChannels w')"
  using assms map_alike [OF assms(3) DTO_alike]
  by (auto simp: as_reply_def api_ListChannels_def st_gate_def Let_def st_call_def st_ok_def st_reply_def
      dest!: humanInOrg_ctx split: option.split prod.splits)

lemma list_webhooks_alike:
  assumes "fst (ListWebhooks (sx_fault e 0) (sx_cipher e) (ctx_org ctx) (se_nd w)) = Inr hs"
    and "fst (ListWebhooks (sx_fault e 0) (sx_cipher e) (ctx_org ctx) (se_nd w')) = Inr hs'" and "list_all2 webhook_alike hs hs'"
  shows "fst (serve_settings e ctx SrListWebhooks w) = fst (serve_settings e ctx SrListWebhooks w')"
  using assms map_alike [OF assms(3) webhook_DTO_alike]
  by (auto simp: as_reply_def api_ListWebhooks_def st_gate_def Let_def st_call_def st_ok_def st_reply_def
      dest!: humanInOrg_ctx split: option.split prod.splits)

text \<open>
  No answer shows a secret.  In every channel of every answer the texts of the secret fields are blank, those of secret header maps
  included; and the lists of channels and webhooks do not depend on the secrets: two stores whose channels and webhooks
  differ in their secrets alone are answered alike.
\<close>

theorem settings_secrets_hidden:
  "list_all (secrets_blank (sx_reg e)) (shown (fst (serve_settings e ctx req w)))
   \<and> (fst (ListChannels (sx_fault e 0) (sx_cipher e) (Some (SecretKeys (sx_reg e))) (ctx_org ctx) (se_nd w)) = Inr chs
      \<and> fst (ListChannels (sx_fault e 0) (sx_cipher e) (Some (SecretKeys (sx_reg e))) (ctx_org ctx) (se_nd w')) = Inr chs'
      \<and> list_all2 (channel_alike (sx_reg e)) chs chs'
      \<longrightarrow> fst (serve_settings e ctx SrListChannels w) = fst (serve_settings e ctx SrListChannels w'))
   \<and> (fst (ListWebhooks (sx_fault e 0) (sx_cipher e) (ctx_org ctx) (se_nd w)) = Inr hs
      \<and> fst (ListWebhooks (sx_fault e 0) (sx_cipher e) (ctx_org ctx) (se_nd w')) = Inr hs'
      \<and> list_all2 webhook_alike hs hs'
      \<longrightarrow> fst (serve_settings e ctx SrListWebhooks w) = fst (serve_settings e ctx SrListWebhooks w'))"
  using serve_shows [of e ctx req w] list_channels_alike [of e ctx w chs w' chs'] list_webhooks_alike [of e ctx w hs w' hs']
  by blast

section \<open>An edit keeps the secrets it leaves blank\<close>

lemma GetChannel_row:
  assumes "GetChannel NoFault c keys orgID i s = (Inr ch, s')"
  obtains row where "find (\<lambda>r. ch_ID r = i \<and> ch_OrgID r = orgID) (nd_channels s) = Some row" "ch_ID row = i" "ch_OrgID row = orgID"
    "ch_ID ch = i" "ch_OrgID ch = orgID" "s' = s"
proof -
  obtain row where row: "find (\<lambda>r. ch_ID r = i \<and> ch_OrgID r = orgID) (nd_channels s) = Some row" "scanChannel c keys row = Inr ch" "s' = s"
    using assms by (cases "find (\<lambda>r. ch_ID r = i \<and> ch_OrgID r = orgID) (nd_channels s)")
      (auto simp: GetChannel_def nd_WithOrg_def split: sum.splits)
  moreover have "ch_ID row = i \<and> ch_OrgID row = orgID" using row(1) by (auto simp: find_Some_iff)
  moreover have "ch_ID ch = ch_ID row \<and> ch_OrgID ch = ch_OrgID row" using row(2) by (auto simp: scanChannel_def split: option.splits)
  ultimately show ?thesis using that by simp
qed

text \<open>A channel that is written over an existing one reads back.\<close>

lemma UpdateChannel_reads_back:
  assumes "inverse_cipher enc dec" and "distinct (keys (ch_Type ch))" and "crypt_keys enc (keys (ch_Type ch)) (ch_Config ch) = Some cfg"
    and old: "GetChannel NoFault (Some (enc, dec)) (Some keys) (ch_OrgID ch) (ch_ID ch) s = (Inr old, s0)"
  obtains s' where "UpdateChannel NoFault (Some (enc, dec)) (Some keys) ch s = (Inr (), s')"
    "GetChannel NoFault (Some (enc, dec)) (Some keys) (ch_OrgID ch) (ch_ID ch) s' = (Inr ch, s')"
proof -
  let ?here = "\<lambda>r. ch_ID r = ch_ID ch \<and> ch_OrgID r = ch_OrgID ch"
  let ?upd = "\<lambda>r. if ?here r then r\<lparr>ch_Name := ch_Name ch, ch_Type := ch_Type ch, ch_Config := cfg, ch_Enabled := ch_Enabled ch\<rparr> else r"
  let ?s' = "s\<lparr>nd_channels := map ?upd (nd_channels s)\<rparr>"
  obtain row where row: "find ?here (nd_channels s) = Some row" "?here row" using GetChannel_row [OF old] by blast
  then have ex: "list_ex ?here (nd_channels s)" by (auto simp: find_Some_iff list_ex_iff)
  have "find ?here (map ?upd (nd_channels s)) = Some (?upd row)"
    using row(1) by (subst find_map_pres) auto
  moreover have "?upd row = ch\<lparr>ch_Config := cfg\<rparr>" using row(2) by (cases row; cases ch) simp
  moreover have "crypt_keys dec (keys (ch_Type ch)) cfg = Some (ch_Config ch)"
    by (rule crypt_keys_inverse [OF assms(1-3)])
  ultimately have "GetChannel NoFault (Some (enc, dec)) (Some keys) (ch_OrgID ch) (ch_ID ch) ?s' = (Inr ch, ?s')"
    by (simp add: GetChannel_def nd_WithOrg_def scanChannel_def decryptChannelConfig_def)
  moreover have "UpdateChannel NoFault (Some (enc, dec)) (Some keys) ch s = (Inr (), ?s')"
    using ex assms(3) by (simp add: UpdateChannel_def EncryptChannelConfig_def nd_WithOrg_def Let_def)
  ultimately show ?thesis using that by blast
qed

text \<open>The form of a channel that was read, with another name and flag.\<close>

definition resubmitted :: "ChannelDTO \<Rightarrow> string \<Rightarrow> bool \<Rightarrow> ChannelInput" where
  "resubmitted d name enabled = \<lparr>ci_Name = name, ci_Type = cd_Type d, ci_Config = Some (cd_Config d), ci_Enabled = enabled\<rparr>"

text \<open>The only error that the blanks can raise is the one of the config, which the merged config takes away.\<close>

lemma resubmitted_accepted:
  assumes "TrimSpace name \<noteq> ''''" and "ChannelType_Valid (ch_Type ch)" and "allowedChannelTypes e (fst f) orgID (ch_Type ch)"
    and "ch_Type ch = ChannelEmail \<longrightarrow> validateEmailMembers e (snd f) orgID (cd_Config (channelDTO (sx_reg e) ch)) = ''''"
    and "channelFromInput e f orgID (resubmitted (channelDTO (sx_reg e) ch) name b) = (name', t, cfg, errs)"
  shows "name' = TrimSpace name" "t = ch_Type ch" "cfg = cd_Config (channelDTO (sx_reg e) ch)" "stripConfigErrors errs = []"
  using assms
  by (auto simp: channelFromInput_def resubmitted_def type_errors_def member_errors_def Let_def channelDTO_def stripConfigErrors_def
      validateChannelConfig_def split: option.splits if_splits)

lemma keep_resubmitted:
  assumes "distinct (map fst stored)" and "plain_secrets (SecretKeys reg t) stored" and "ValidateConfig reg t stored = None"
    and "stripConfigErrors errs = []"
  shows "keep_secrets reg t stored t (redactSecretConfig stored (SecretKeys reg t)) errs = (stored, [])"
  using assms by (simp add: keep_secrets_def merge_redacted validateChannelConfig_def Let_def)

text \<open>
  The editor's round trip: a channel that is read, with its secrets blanked, and sent back under another name and enabled flag is
  accepted, and afterwards the store gives the channel with the new name and flag and every secret as it was.
\<close>

theorem channel_edit_keeps_secrets:
  assumes p: "humanInOrg ctx = Some p" "dec_Allowed (Can (principal_Actor p) ActionManageChannels (org_resource (p_OrgID p)))"
    and e: "sx_fault e = (\<lambda>_. NoFault)" "sx_cipher e = Some (enc, dec)" "inverse_cipher enc dec"
    and keys: "distinct (SecretKeys (sx_reg e) (ch_Type ch))" "plain_secrets (SecretKeys (sx_reg e) (ch_Type ch)) (ch_Config ch)"
    and i: "parseMonitorID rawID = Some i"
    and stored: "GetChannel NoFault (Some (enc, dec)) (Some (SecretKeys (sx_reg e))) (p_OrgID p) i (se_nd w) = (Inr ch, nd)"
    and ch: "distinct (map fst (ch_Config ch))" "ValidateConfig (sx_reg e) (ch_Type ch) (ch_Config ch) = None"
      "crypt_keys enc (SecretKeys (sx_reg e) (ch_Type ch)) (ch_Config ch) \<noteq> None"
    and plan: "ChannelType_Valid (ch_Type ch)" "allowedChannelTypes e NoFault (p_OrgID p) (ch_Type ch)"
      "ch_Type ch = ChannelEmail \<longrightarrow> validateEmailMembers e NoFault (p_OrgID p) (cd_Config (channelDTO (sx_reg e) ch)) = ''''"
    and name: "TrimSpace name \<noteq> ''''"
  shows "\<exists>w'. serve_settings e ctx (SrUpdateChannel rawID (Some (resubmitted (channelDTO (sx_reg e) ch) name b))) w
        = (StOk (SpChannel ((channelDTO (sx_reg e) ch)\<lparr>cd_Name := TrimSpace name, cd_Enabled := b\<rparr>)), w')
    \<and> GetChannel NoFault (Some (enc, dec)) (Some (SecretKeys (sx_reg e))) (p_OrgID p) i (se_nd w')
        = (Inr (ch\<lparr>ch_Name := TrimSpace name, ch_Enabled := b\<rparr>), se_nd w')"
proof -
  let ?inp = "resubmitted (channelDTO (sx_reg e) ch) name b"
  let ?new = "ch\<lparr>ch_Name := TrimSpace name, ch_Enabled := b\<rparr>"
  let ?keys = "SecretKeys (sx_reg e)"
  obtain errs where inp: "channelFromInput e (NoFault, NoFault) (p_OrgID p) ?inp
      = (TrimSpace name, ch_Type ch, redactSecretConfig (ch_Config ch) (?keys (ch_Type ch)), errs)"
    and errs: "stripConfigErrors errs = []"
    using resubmitted_accepted [OF name plan(1), of e "(NoFault, NoFault)" "p_OrgID p" b] plan(2,3)
    by (cases "channelFromInput e (NoFault, NoFault) (p_OrgID p) ?inp") (auto simp: channelDTO_def)
  have keep: "keep_secrets (sx_reg e) (ch_Type ch) (ch_Config ch) (ch_Type ch) (redactSecretConfig (ch_Config ch) (?keys (ch_Type ch))) errs
      = (ch_Config ch, [])"
    by (rule keep_resubmitted [OF ch(1) keys(2) ch(2) errs])
  have at: "ch_OrgID ?new = p_OrgID p" "ch_ID ?new = i" "nd = se_nd w" using GetChannel_row [OF stored] by auto
  obtain cfg where cfg: "crypt_keys enc (?keys (ch_Type ?new)) (ch_Config ?new) = Some cfg" using ch(3) by auto
  have "distinct (?keys (ch_Type ?new))" using keys(1) by simp
  from UpdateChannel_reads_back [of enc dec ?keys ?new cfg "se_nd w" ch nd, OF e(3) this cfg] stored at obtain s'
    where s': "UpdateChannel NoFault (Some (enc, dec)) (Some ?keys) ?new (se_nd w) = (Inr (), s')"
      "GetChannel NoFault (Some (enc, dec)) (Some ?keys) (p_OrgID p) i s' = (Inr ?new, s')" by (metis at(1,2))
  have flag: "ci_Enabled ?inp = b" by (simp add: resubmitted_def)
  have "serve_settings e ctx (SrUpdateChannel rawID (Some ?inp)) w = (StOk (SpChannel (channelDTO (sx_reg e) ?new)), w\<lparr>se_nd := s'\<rparr>)"
    using p i e(1,2) stored inp keep s'(1) at(3)
    by (simp add: as_reply_def api_UpdateChannel_def st_gate_def st_call_def st_found_def st_reply_def Let_def flag)
  moreover have "channelDTO (sx_reg e) ?new = (channelDTO (sx_reg e) ch)\<lparr>cd_Name := TrimSpace name, cd_Enabled := b\<rparr>"
    by (simp add: channelDTO_def)
  ultimately show ?thesis using s'(2) by auto
qed

end
