(* ===== verification/Pulse_Channel_Tables.thy ===== *)
theory Pulse_Channel_Tables
  imports Pulse_Channel_Facts
begin

text \<open>
  The notification settings over time.  A locale states what the store promises for the writing calls of one org; every
  request inherits it.  It is interpreted twice: secrets stay sealed at rest, and the rows of other orgs stay as they are.
\<close>

section \<open>The interface of the store\<close>

locale settings_store =
  fixes R :: "notify_db \<Rightarrow> notify_db \<Rightarrow> bool" and c :: cipher and keys :: "ChannelType \<Rightarrow> string list" and orgID :: int
  assumes same: "R s s"
    and trans: "R s1 s2 \<Longrightarrow> R s2 s3 \<Longrightarrow> R s1 s3"
    and create_channel: "ch_OrgID ch = orgID \<Longrightarrow> R s (snd (CreateChannel f c (Some keys) ch s))"
    and update_channel: "ch_OrgID ch = orgID \<Longrightarrow> R s (snd (UpdateChannel f c (Some keys) ch s))"
    and delete_channel: "R s (snd (DeleteChannel f orgID i s))"
    and create_webhook: "wh_OrgID w = orgID \<Longrightarrow> R s (snd (CreateWebhook f c now w s))"
    and update_webhook: "wh_OrgID w = orgID \<Longrightarrow> R s (snd (UpdateWebhook f now w s))"
    and rotate_webhook: "R s (snd (RotateWebhookSecret f c now orgID i secret s))"
    and delete_webhook: "R s (snd (DeleteWebhook f orgID i s))"

lemma nd_read:
  assumes "snd (fn s) = s"
  shows "snd (nd_WithOrg f fn s) = s"
proof -
  obtain r where "fn s = (r, s)" using assms by (metis prod.collapse)
  moreover have "s\<lparr>nd_next_channel := nd_next_channel s, nd_next_webhook := nd_next_webhook s\<rparr> = s" by simp
  ultimately show ?thesis by (cases r) (simp_all add: nd_WithOrg_def)
qed

lemma reads_keep [simp]:
  "snd (GetChannel f c keys orgID i s) = s" "snd (ListChannels f c keys orgID s) = s"
  "snd (GetWebhook f c orgID i s) = s" "snd (ListWebhooks f c orgID s) = s"
  by (simp_all add: GetChannel_def ListChannels_def GetWebhook_def ListWebhooks_def nd_read split: option.split)

definition effect :: "(notify_db \<Rightarrow> notify_db \<Rightarrow> bool) \<Rightarrow> 'a settings_handler \<Rightarrow> bool" where
  "effect R h \<longleftrightarrow> (\<forall>w. R (se_nd w) (se_nd (snd (h w))))"

lemma GetChannel_org: "fst (GetChannel f c keys orgID i s) = Inr ch \<Longrightarrow> ch_OrgID ch = orgID"
  by (auto simp: GetChannel_def nd_WithOrg_def scanChannel_def find_Some_iff split: option.splits if_splits sum.splits prod.splits)

lemma GetWebhook_org: "fst (GetWebhook f c orgID i s) = Inr w \<Longrightarrow> wh_OrgID w = orgID"
  by (auto simp: GetWebhook_def nd_WithOrg_def scanOrgWebhook_def find_Some_iff split: option.splits if_splits sum.splits prod.splits)

context settings_store
begin

lemma e_reply: "effect R (st_reply a)"
  by (simp add: effect_def st_reply_def same)

lemma e_gate: "(\<And>p. humanInOrg ctx = Some p \<Longrightarrow> effect R (k p)) \<Longrightarrow> effect R (st_gate ctx action k)"
  by (simp add: st_gate_def Let_def e_reply split: option.split)

lemma e_write:
  assumes "\<And>s. R s (snd (op s))" and "\<And>r. effect R (k r)"
  shows "effect R (st_call op k)"
  unfolding effect_def
proof
  fix w :: settings
  have "R (se_nd w) (snd (op (se_nd w)))" by (rule assms(1))
  moreover have "R (snd (op (se_nd w))) (se_nd (snd (k (fst (op (se_nd w))) (w\<lparr>se_nd := snd (op (se_nd w))\<rparr>))))"
    using assms(2) [of "fst (op (se_nd w))", unfolded effect_def, rule_format, of "w\<lparr>se_nd := snd (op (se_nd w))\<rparr>"] by simp
  ultimately show "R (se_nd w) (se_nd (snd (st_call op k w)))"
    by (simp add: st_call_def case_prod_beta trans)
qed

lemma e_read:
  assumes "\<And>s. snd (op s) = s" and "\<And>r s. fst (op s) = r \<Longrightarrow> effect R (k r)"
  shows "effect R (st_call op k)"
  unfolding effect_def
proof
  fix w :: settings
  have "effect R (k (fst (op (se_nd w))))" by (rule assms(2)) simp
  then show "R (se_nd w) (se_nd (snd (st_call op k w)))"
    using assms(1) [of "se_nd w"] by (simp add: st_call_def case_prod_beta effect_def)
qed

lemma e_ok: "(\<And>a. r = Inr a \<Longrightarrow> effect R (k a)) \<Longrightarrow> effect R (st_ok k r)"
  by (simp add: st_ok_def e_reply split: sum.split)

lemma e_found: "(\<And>a. r = Inr a \<Longrightarrow> effect R (k a)) \<Longrightarrow> effect R (st_found msg k r)"
  by (simp add: st_found_def e_reply split: sum.split)

lemma e_as_reply: "effect R h \<Longrightarrow> effect R (as_reply f h)"
  by (simp add: effect_def as_reply_def case_prod_beta)

lemma channel_requests:
  assumes "ctx_org ctx = orgID" and "sx_cipher e = c" and "SecretKeys (sx_reg e) = keys"
  shows "effect R (GetChannelTypes e ctx)" "effect R (api_ListChannels e ctx)" "effect R (api_CreateChannel e ctx body)"
    "effect R (api_UpdateChannel e ctx i body)" "effect R (api_DeleteChannel e ctx i)" "effect R (TestChannel e ctx i)"
proof -
  have org: "p_OrgID p = orgID" if "humanInOrg ctx = Some p" for p using humanInOrg_ctx [OF that] assms(1) by simp
  show "effect R (GetChannelTypes e ctx)" "effect R (api_ListChannels e ctx)" "effect R (api_DeleteChannel e ctx i)"
    using delete_channel unfolding GetChannelTypes_def api_ListChannels_def api_DeleteChannel_def
    by (auto intro!: e_gate e_reply e_read e_write e_ok simp: org same split: option.split)
  show "effect R (api_CreateChannel e ctx body)"
    unfolding api_CreateChannel_def assms(2,3)
    by (auto intro!: e_gate e_reply e_ok e_write create_channel simp: org Let_def split: option.split prod.split)
  show "effect R (api_UpdateChannel e ctx i body)"
    unfolding api_UpdateChannel_def assms(2,3)
    by (auto intro!: e_gate e_reply e_found e_read [where op = "GetChannel f c k o' i" for f c k o' i]
        e_write [where op = "UpdateChannel f c k ch" for f c k ch] update_channel dest!: GetChannel_org
        simp: org Let_def split: option.split prod.split)
  show "effect R (TestChannel e ctx i)"
    unfolding TestChannel_def
    by (auto intro!: e_gate e_reply e_found e_read split: option.split) (auto simp: effect_def same split: option.split)
qed

lemma webhook_requests:
  assumes "ctx_org ctx = orgID" and "sx_cipher e = c"
  shows "effect R (api_ListWebhooks e ctx)" "effect R (api_GetWebhook e ctx i)" "effect R (api_CreateWebhook e ctx wbody)"
    "effect R (api_UpdateWebhook e ctx i wbody)" "effect R (api_RotateWebhookSecret e ctx i)" "effect R (api_DeleteWebhook e ctx i)"
proof -
  have org: "p_OrgID p = orgID" if "humanInOrg ctx = Some p" for p using humanInOrg_ctx [OF that] assms(1) by simp
  show "effect R (api_ListWebhooks e ctx)" "effect R (api_GetWebhook e ctx i)" "effect R (api_DeleteWebhook e ctx i)"
    using delete_webhook unfolding api_ListWebhooks_def api_GetWebhook_def api_DeleteWebhook_def
    by (auto intro!: e_gate e_reply e_read e_write e_ok e_found simp: org same split: option.split)
  show "effect R (api_CreateWebhook e ctx wbody)"
    unfolding api_CreateWebhook_def assms(2)
    by (auto intro!: e_gate e_reply e_ok e_write create_webhook simp: org same Let_def split: option.split prod.split)
  show "effect R (api_UpdateWebhook e ctx i wbody)"
    unfolding api_UpdateWebhook_def assms(2)
    by (auto intro!: e_gate e_reply e_found e_ok e_read [where op = "GetWebhook f c o' i" for f c o' i]
        e_write [where op = "UpdateWebhook f n w" for f n w] update_webhook dest!: GetWebhook_org
        simp: org Let_def split: option.split prod.split)
  show "effect R (api_RotateWebhookSecret e ctx i)"
    unfolding api_RotateWebhookSecret_def assms(2)
    by (auto intro!: e_gate e_reply e_found e_ok e_write rotate_webhook simp: org same split: option.split)
qed

lemma served:
  assumes "ctx_org ctx = orgID" and "sx_cipher e = c" and "SecretKeys (sx_reg e) = keys"
  shows "R (se_nd w) (se_nd (snd (serve_settings e ctx req w)))"
proof -
  have "effect R (serve_settings e ctx req)"
    using channel_requests [OF assms] webhook_requests [OF assms(1,2)] by (cases req) (simp_all add: e_as_reply)
  then show ?thesis by (simp add: effect_def)
qed

end

section \<open>Secrets at rest\<close>

text \<open>A text that is empty or sealed; \<open>good\<close> holds of what the cipher produces.\<close>

definition text_sealed :: "(string \<Rightarrow> bool) \<Rightarrow> cfg_value \<Rightarrow> bool" where
  "text_sealed good v = (case v of CfgString s \<Rightarrow> s = '''' \<or> good s | _ \<Rightarrow> True)"

definition value_sealed :: "(string \<Rightarrow> bool) \<Rightarrow> cfg_value \<Rightarrow> bool" where
  "value_sealed good v = (case v of CfgMap kvs \<Rightarrow> list_all (\<lambda>h. text_sealed good (snd h)) kvs | _ \<Rightarrow> text_sealed good v)"

definition config_sealed :: "(string \<Rightarrow> bool) \<Rightarrow> string list \<Rightarrow> config \<Rightarrow> bool" where
  "config_sealed good ks cfg \<longleftrightarrow> list_all (\<lambda>k. case map_of cfg k of None \<Rightarrow> True | Some v \<Rightarrow> value_sealed good v) ks"

definition secrets_sealed :: "(string \<Rightarrow> bool) \<Rightarrow> (ChannelType \<Rightarrow> string list) \<Rightarrow> notify_db \<Rightarrow> bool" where
  "secrets_sealed good keys s \<longleftrightarrow>
     list_all (\<lambda>ch. config_sealed good (keys (ch_Type ch)) (ch_Config ch)) (nd_channels s)
     \<and> list_all (\<lambda>w. wh_SigningSecret w = '''' \<or> good (wh_SigningSecret w)) (nd_webhooks s)"

lemma text_sealed_simps:
  "text_sealed good (CfgString s) \<longleftrightarrow> s = '''' \<or> good s" "text_sealed good (CfgWhole n)" "text_sealed good (CfgFrac s)"
  "text_sealed good (CfgInt n)" "text_sealed good (CfgInt64 n)" "text_sealed good (CfgBool b)" "text_sealed good CfgNil"
  "text_sealed good (CfgList vs)" "text_sealed good (CfgMap kvs)"
  by (simp_all add: text_sealed_def)

lemma crypt_map_sealed:
  "(\<And>p q. enc p = Some q \<Longrightarrow> good q) \<Longrightarrow> crypt_map enc kvs = Some kvs' \<Longrightarrow> list_all (\<lambda>h. text_sealed good (snd h)) kvs'"
  by (induction enc kvs arbitrary: kvs' rule: crypt_map.induct)
    (auto simp: text_sealed_simps split: option.splits cfg_value.splits if_splits)

lemma crypt_value_sealed: "(\<And>p q. enc p = Some q \<Longrightarrow> good q) \<Longrightarrow> crypt_value enc v = Some v' \<Longrightarrow> value_sealed good v'"
  using crypt_map_sealed [of enc good]
  by (cases v) (auto simp: crypt_value_def value_sealed_def text_sealed_simps split: if_splits)

lemma crypt_keys_sealed:
  assumes "\<And>p q. enc p = Some q \<Longrightarrow> good q"
  shows "crypt_keys enc ks cfg = Some cfg' \<Longrightarrow> config_sealed good done cfg \<Longrightarrow> config_sealed good (done @ ks) cfg'"
proof (induction ks arbitrary: cfg "done")
  case (Cons k ks)
  show ?case
  proof (cases "map_of cfg k")
    case None
    then have "config_sealed good (done @ [k]) cfg" using Cons.prems(2) by (simp add: config_sealed_def)
    then show ?thesis using Cons.IH [of cfg "done @ [k]"] Cons.prems(1) None by simp
  next
    case (Some v)
    then obtain v' where v': "crypt_value enc v = Some v'" "crypt_keys enc ks (set_field k v' cfg) = Some cfg'"
      using Cons.prems(1) by (auto split: option.splits)
    have "config_sealed good (done @ [k]) (set_field k v' cfg)"
      using Cons.prems(2) crypt_value_sealed [of enc good, OF assms v'(1)]
      by (auto simp: config_sealed_def list_all_iff map_of_set_field)
    then show ?thesis using Cons.IH [OF v'(2), of "done @ [k]"] by simp
  qed
qed simp

lemma run_sealed:
  assumes "secrets_sealed good keys s" and "\<And>a s'. fn s = (Inr a, s') \<Longrightarrow> secrets_sealed good keys s'"
  shows "secrets_sealed good keys (snd (nd_WithOrg f fn s))"
  using assms by (cases "fn s"; cases "fst (fn s)") (auto simp: nd_WithOrg_def secrets_sealed_def)

lemma list_all_update: "list_all P xs \<Longrightarrow> (\<And>x. P x \<Longrightarrow> Q x \<Longrightarrow> P (f x)) \<Longrightarrow> list_all P (map (\<lambda>x. if Q x then f x else x) xs)"
  by (auto simp: list_all_iff)

lemma change_webhook_sealed:
  assumes "secrets_sealed good keys s"
    and "\<And>r. wh_SigningSecret (upd r) = wh_SigningSecret r \<or> wh_SigningSecret (upd r) = '''' \<or> good (wh_SigningSecret (upd r))"
  shows "secrets_sealed good keys (snd (change_webhook f orgID i upd s))"
  unfolding change_webhook_def
proof (rule run_sealed [OF assms(1)])
  fix a s'
  assume "(let here = \<lambda>r. wh_ID r = i \<and> wh_OrgID r = orgID
    in if \<not> list_ex here (nd_webhooks s) then (Inl ErrNoRows, s)
       else (Inr (), s\<lparr>nd_webhooks := map (\<lambda>r. if here r then upd r else r) (nd_webhooks s)\<rparr>)) = (Inr a, s')"
  then have "s' = s\<lparr>nd_webhooks := map (\<lambda>r. if wh_ID r = i \<and> wh_OrgID r = orgID then upd r else r) (nd_webhooks s)\<rparr>"
    by (simp add: Let_def split: if_splits)
  moreover have "list_all (\<lambda>w. wh_SigningSecret w = '''' \<or> good (wh_SigningSecret w))
      (map (\<lambda>r. if wh_ID r = i \<and> wh_OrgID r = orgID then upd r else r) (nd_webhooks s))"
    using assms by (intro list_all_update) (auto simp: secrets_sealed_def, metis+)
  ultimately show "secrets_sealed good keys s'" using assms(1) by (simp add: secrets_sealed_def)
qed

lemma encryptSecret_sealed:
  "(\<And>p q. enc p = Some q \<Longrightarrow> good q) \<Longrightarrow> encryptSecret (Some (enc, dec)) p = Some q \<Longrightarrow> q = '''' \<or> good q"
  by (auto simp: encryptSecret_def split: if_splits)

text \<open>The cipher whose products are \<open>good\<close>; without one the store keeps the texts as they are.\<close>

definition seals :: "(string \<Rightarrow> bool) \<Rightarrow> cipher \<Rightarrow> bool" where
  "seals good c \<longleftrightarrow> (case c of None \<Rightarrow> False | Some (enc, _) \<Rightarrow> (\<forall>p q. enc p = Some q \<longrightarrow> good q))"

definition stays_sealed :: "(string \<Rightarrow> bool) \<Rightarrow> cipher \<Rightarrow> (ChannelType \<Rightarrow> string list) \<Rightarrow> notify_db \<Rightarrow> notify_db \<Rightarrow> bool" where
  "stays_sealed good c keys s s' \<longleftrightarrow> seals good c \<longrightarrow> secrets_sealed good keys s \<longrightarrow> secrets_sealed good keys s'"

lemma EncryptChannelConfig_sealed:
  assumes "seals good c" and "EncryptChannelConfig c t cfg (Some keys) = Some cfg'"
  shows "config_sealed good (keys t) cfg'"
proof -
  obtain enc dec where c: "c = Some (enc, dec)" "\<And>p q. enc p = Some q \<Longrightarrow> good q"
    using assms(1) by (auto simp: seals_def split: option.splits)
  have "crypt_keys enc (keys t) cfg = Some cfg'" using assms(2) c(1) by (simp add: EncryptChannelConfig_def)
  moreover have "config_sealed good [] cfg" by (simp add: config_sealed_def)
  ultimately show ?thesis using crypt_keys_sealed [of enc good "keys t" cfg cfg' "[]", OF c(2)] by simp
qed

lemma CreateChannel_sealed: "stays_sealed good c keys s (snd (CreateChannel f c (Some keys) ch s))"
proof -
  have "secrets_sealed good keys (snd (CreateChannel f c (Some keys) ch s))" if c: "seals good c" and s: "secrets_sealed good keys s"
  proof (cases "EncryptChannelConfig c (ch_Type ch) (ch_Config ch) (Some keys)")
    case (Some cfg)
    have "secrets_sealed good keys (snd (nd_WithOrg f fn s))"
      if "fn = (\<lambda>s. let i = nd_next_channel s; s1 = s\<lparr>nd_next_channel := i + 1\<rparr>
            in if ch_OrgID ch \<notin> set (db_orgs (nd_base s)) then (Inl ErrForeignKey, s1)
               else (Inr i, s1\<lparr>nd_channels := nd_channels s1 @ [ch\<lparr>ch_ID := i, ch_Config := cfg\<rparr>]\<rparr>))" for fn
      using s EncryptChannelConfig_sealed [OF c Some] that
      by (intro run_sealed) (auto simp: Let_def secrets_sealed_def split: if_splits)
    then show ?thesis by (simp add: CreateChannel_def Some)
  qed (simp add: CreateChannel_def s)
  then show ?thesis by (simp add: stays_sealed_def)
qed

lemma UpdateChannel_sealed: "stays_sealed good c keys s (snd (UpdateChannel f c (Some keys) ch s))"
proof -
  have "secrets_sealed good keys (snd (UpdateChannel f c (Some keys) ch s))" if c: "seals good c" and s: "secrets_sealed good keys s"
  proof (cases "EncryptChannelConfig c (ch_Type ch) (ch_Config ch) (Some keys)")
    case (Some cfg)
    have "secrets_sealed good keys (snd (nd_WithOrg f fn s))"
      if "fn = (\<lambda>s. let here = (\<lambda>r. ch_ID r = ch_ID ch \<and> ch_OrgID r = ch_OrgID ch)
            in if \<not> list_ex here (nd_channels s) then (Inl ErrNoRows, s)
               else (Inr (), s\<lparr>nd_channels := map (\<lambda>r. if here r
                       then r\<lparr>ch_Name := ch_Name ch, ch_Type := ch_Type ch, ch_Config := cfg, ch_Enabled := ch_Enabled ch\<rparr>
                       else r) (nd_channels s)\<rparr>))" for fn
      using s EncryptChannelConfig_sealed [OF c Some] that
      by (intro run_sealed) (auto simp: Let_def secrets_sealed_def list_all_iff split: if_splits)
    then show ?thesis by (simp add: UpdateChannel_def Some)
  qed (simp add: UpdateChannel_def s)
  then show ?thesis by (simp add: stays_sealed_def)
qed

lemma DeleteChannel_sealed: "stays_sealed good c keys s (snd (DeleteChannel f orgID i s))"
  unfolding stays_sealed_def DeleteChannel_def
  by (intro impI run_sealed) (auto simp: Let_def secrets_sealed_def list_all_iff split: if_splits)

lemma CreateWebhook_sealed: "stays_sealed good c keys s (snd (CreateWebhook f c now w s))"
proof -
  have "secrets_sealed good keys (snd (CreateWebhook f c now w s))" if c: "seals good c" and s: "secrets_sealed good keys s"
  proof (cases "encryptSecret c (wh_SigningSecret w)")
    case (Some q)
    obtain enc dec where "c = Some (enc, dec)" "\<And>p q. enc p = Some q \<Longrightarrow> good q"
      using c by (auto simp: seals_def split: option.splits)
    then have "q = '''' \<or> good q" using encryptSecret_sealed Some by blast
    then show ?thesis unfolding CreateWebhook_def Some using s
      by (simp only: option.case) (intro run_sealed, auto simp: Let_def secrets_sealed_def split: if_splits)
  qed (simp add: CreateWebhook_def s)
  then show ?thesis by (simp add: stays_sealed_def)
qed

lemma UpdateWebhook_sealed: "stays_sealed good c keys s (snd (UpdateWebhook f now w s))"
  unfolding stays_sealed_def UpdateWebhook_def by (intro impI change_webhook_sealed) simp_all

lemma RotateWebhookSecret_sealed: "stays_sealed good c keys s (snd (RotateWebhookSecret f c now orgID i secret s))"
proof -
  have "secrets_sealed good keys (snd (RotateWebhookSecret f c now orgID i secret s))" if c: "seals good c" and s: "secrets_sealed good keys s"
  proof (cases "encryptSecret c secret")
    case (Some q)
    obtain enc dec where "c = Some (enc, dec)" "\<And>p q. enc p = Some q \<Longrightarrow> good q"
      using c by (auto simp: seals_def split: option.splits)
    then have "q = '''' \<or> good q" using encryptSecret_sealed Some by blast
    then show ?thesis using s by (simp add: RotateWebhookSecret_def Some change_webhook_sealed)
  qed (simp add: RotateWebhookSecret_def s)
  then show ?thesis by (simp add: stays_sealed_def)
qed

lemma DeleteWebhook_sealed: "stays_sealed good c keys s (snd (DeleteWebhook f orgID i s))"
  unfolding stays_sealed_def DeleteWebhook_def
  by (intro impI run_sealed) (auto simp: Let_def secrets_sealed_def list_all_iff)

interpretation sealing: settings_store "stays_sealed good c keys" c keys orgID for good c keys orgID
  by unfold_locales
    (simp_all add: CreateChannel_sealed UpdateChannel_sealed DeleteChannel_sealed CreateWebhook_sealed UpdateWebhook_sealed
      RotateWebhookSecret_sealed DeleteWebhook_sealed, simp_all add: stays_sealed_def)

text \<open>Requests of any callers, one after the other, each with its own faults.\<close>

definition serve_settings_all :: "(settings_env \<times> Principal option \<times> settings_request) list \<Rightarrow> settings \<Rightarrow> settings" where
  "serve_settings_all rs w = fold (\<lambda>(e, ctx, req) w. snd (serve_settings e ctx req w)) rs w"

lemma served_all:
  assumes "\<And>s. R s s" and "\<And>a b c. R a b \<Longrightarrow> R b c \<Longrightarrow> R a c"
    and "\<And>e ctx req w. (e, ctx, req) \<in> set rs \<Longrightarrow> R (se_nd w) (se_nd (snd (serve_settings e ctx req w)))"
  shows "R (se_nd w) (se_nd (serve_settings_all rs w))"
  using assms(3)
proof (induction rs arbitrary: w)
  case (Cons r rs)
  obtain e ctx req where r: "r = (e, ctx, req)" using prod_cases3 by blast
  have "R (se_nd w) (se_nd (snd (serve_settings e ctx req w)))" using Cons.prems r by simp
  moreover have "R (se_nd (snd (serve_settings e ctx req w))) (se_nd (serve_settings_all rs (snd (serve_settings e ctx req w))))"
    using Cons by simp
  ultimately show ?case using assms(2) r by (simp add: serve_settings_all_def)
qed (simp add: serve_settings_all_def assms(1))

text \<open>
  Secrets at rest.  Under a cipher, whatever requests are made, by whom and with which faults, no text in a secret field of a stored
  channel, no value of a secret header map and no signing secret of a webhook is anything but the output of the cipher (or empty).
\<close>

theorem settings_secrets_sealed:
  assumes "seals good c" and "secrets_sealed good (SecretKeys reg) (se_nd w)"
    and "\<forall>(e, ctx, req) \<in> set rs. sx_cipher e = c \<and> sx_reg e = reg"
  shows "secrets_sealed good (SecretKeys reg) (se_nd (serve_settings_all rs w))"
proof -
  have "stays_sealed good c (SecretKeys reg) (se_nd w) (se_nd (serve_settings_all rs w))"
  proof (rule served_all)
    show "stays_sealed good c (SecretKeys reg) (se_nd w) (se_nd (snd (serve_settings e ctx req w)))"
      if "(e, ctx, req) \<in> set rs" for e ctx req w
      using that assms(3) by (intro sealing.served [OF refl]) auto
  qed (auto simp: stays_sealed_def)
  then show ?thesis using assms(1,2) by (simp add: stays_sealed_def)
qed

section \<open>Requests stay in their org\<close>
















section \<open>Concrete values\<close>

text \<open>The generic webhook of \<open>internal/notify/webhook.go\<close>, beside the Slack channel.\<close>

definition ex_webhook_descriptor :: Descriptor where
  "ex_webhook_descriptor = \<lparr>d_Type = ChannelWebhook, d_DisplayName = ''Webhook'', d_Capability = ''channel.webhook'',
     d_ConfigFields =
       [\<lparr>cf_Key = ''url'', cf_Label = ''URL'', cf_Type = FieldString, cf_Required = True, cf_Secret = True,
         cf_Enum = [], cf_Default = '''', cf_Help = ''absolute https URL the envelope is POSTed to''\<rparr>,
        \<lparr>cf_Key = ''custom_headers'', cf_Label = ''Custom headers'', cf_Type = FieldStringList, cf_Required = False, cf_Secret = True,
         cf_Enum = [], cf_Default = '''', cf_Help = ''optional headers sent with each request; values treated as secret''\<rparr>],
     d_Validate = (\<lambda>_. None)\<rparr>"

definition ex_channel_registry :: registry where
  "ex_channel_registry = Register ex_webhook_descriptor ex_registry"

definition ex_settings_env :: settings_env where
  "ex_settings_env = \<lparr>sx_reg = ex_channel_registry, sx_cipher = Some (ex_enc, ex_dec),
     sx_tenant = ex_tenant\<lparr>tn_orgs := map (\<lambda>o'. o'\<lparr>org_Plan := ''tier3''\<rparr>) (tn_orgs ex_tenant)\<rparr>,
     sx_now = 100, sx_fault = (\<lambda>_. NoFault), sx_random = Some ''abc'', sx_parse = (\<lambda>_. None), sx_test = (\<lambda>_. None),
     sx_publish = Some True, sx_trunc = (\<lambda>_. 0)\<rparr>"

definition ex_settings :: settings where
  "ex_settings = \<lparr>se_nd = ex_notify_db [], se_mail = [], se_tests = []\<rparr>"

definition ex_slack_input :: ChannelInput where
  "ex_slack_input = \<lparr>ci_Name = '' ops '', ci_Type = ChannelSlack, ci_Config = Some [(''webhook_url'', CfgString ''https://hooks'')],
     ci_Enabled = True\<rparr>"

definition ex_hook_input :: "cfg_value \<Rightarrow> ChannelInput" where
  "ex_hook_input headers = \<lparr>ci_Name = ''hook'', ci_Type = ChannelWebhook,
     ci_Config = Some [(''url'', CfgString ''https://in''), (''custom_headers'', headers)], ci_Enabled = True\<rparr>"

definition ex_slack_made :: settings where
  "ex_slack_made = snd (serve_settings ex_settings_env (Some ex_principal) (SrCreateChannel (Some ex_slack_input)) ex_settings)"

definition ex_hook_made :: "cfg_value \<Rightarrow> settings" where
  "ex_hook_made headers = snd (serve_settings ex_settings_env (Some ex_principal) (SrCreateChannel (Some (ex_hook_input headers))) ex_settings)"

definition ex_slack_channel :: Channel where
  "ex_slack_channel = ex_channel\<lparr>ch_ID := 1\<rparr>"

definition ex_hook_config :: "settings \<Rightarrow> config" where
  "ex_hook_config w = (case fst (GetChannel NoFault (Some (ex_enc, ex_dec)) (Some (SecretKeys ex_channel_registry)) 1 1 (se_nd w)) of
     Inr ch \<Rightarrow> ch_Config ch | Inl _ \<Rightarrow> [])"

text \<open>A header map that is read and sent back unchanged comes back empty: the names stay, every value is lost.\<close>

lemma edit_erases_headers:
  "ex_hook_config (ex_hook_made (CfgMap [(''Authorization'', CfgString ''Bearer t'')]))
     = [(''url'', CfgString ''https://in''), (''custom_headers'', CfgMap [(''Authorization'', CfgString ''Bearer t'')])]
   \<and> (case fst (serve_settings ex_settings_env (Some ex_principal) SrListChannels (ex_hook_made (CfgMap [(''Authorization'', CfgString ''Bearer t'')]))) of
        StOk (SpChannels [d]) \<Rightarrow>
          ex_hook_config (snd (serve_settings ex_settings_env (Some ex_principal) (SrUpdateChannel ''1'' (Some (resubmitted d ''hook'' True)))
            (ex_hook_made (CfgMap [(''Authorization'', CfgString ''Bearer t'')]))))
          = [(''url'', CfgString ''https://in''), (''custom_headers'', CfgMap [(''Authorization'', CfgString '''')])]
      | _ \<Rightarrow> False)"
  by code_simp

text \<open>Headers in the documented form of a list are accepted, stored as they are and answered as they are.\<close>

lemma listed_headers_in_clear:
  "let token = CfgList [CfgMap [(''key'', CfgString ''Authorization''), (''value'', CfgString ''Bearer t'')]]
   in map ch_Config (nd_channels (se_nd (ex_hook_made token))) = [[(''url'', CfgString ''xhttps://in''), (''custom_headers'', token)]]
      \<and> (case fst (serve_settings ex_settings_env (Some ex_principal) SrListChannels (ex_hook_made token)) of
           StOk (SpChannels [d]) \<Rightarrow> cd_Config d = [(''url'', CfgString ''''), (''custom_headers'', token)]
         | _ \<Rightarrow> False)"
  by code_simp

definition ex_other_made :: settings where
  "ex_other_made = snd (serve_settings ex_settings_env (Some ex_principal)
     (SrCreateChannel (Some (ex_slack_input\<lparr>ci_Config := Some [(''webhook_url'', CfgString ''https://other'')]\<rparr>))) ex_settings)"

lemma ex_slack_read:
  "fst (ListChannels NoFault (Some (ex_enc, ex_dec)) (Some (SecretKeys ex_channel_registry)) 1 (se_nd ex_slack_made)) = Inr [ex_slack_channel]"
  "fst (ListChannels NoFault (Some (ex_enc, ex_dec)) (Some (SecretKeys ex_channel_registry)) 1 (se_nd ex_other_made))
     = Inr [ex_slack_channel\<lparr>ch_Config := [(''webhook_url'', CfgString ''https://other'')]\<rparr>]"
  "fst (GetChannel NoFault (Some (ex_enc, ex_dec)) (Some (SecretKeys ex_channel_registry)) 1 1 (se_nd ex_slack_made)) = Inr ex_slack_channel"
  by code_simp+

lemma ex_env_fields: "sx_reg ex_settings_env = ex_channel_registry" "sx_cipher ex_settings_env = Some (ex_enc, ex_dec)"
  "sx_fault ex_settings_env = (\<lambda>_. NoFault)"
  by (simp_all add: ex_settings_env_def)

theorem settings_secrets_hidden_witness:
  "list_all (secrets_blank ex_channel_registry) (shown (fst (serve_settings ex_settings_env (Some ex_principal) SrListChannels ex_slack_made)))
   \<and> fst (serve_settings ex_settings_env (Some ex_principal) SrListChannels ex_slack_made)
     = fst (serve_settings ex_settings_env (Some ex_principal) SrListChannels ex_other_made)"
proof -
  have alike: "channel_alike ex_channel_registry ex_slack_channel (ex_slack_channel\<lparr>ch_Config := [(''webhook_url'', CfgString ''https://other'')]\<rparr>)"
    by code_simp
  have org: "p_OrgID ex_principal = 1" by (simp add: ex_principal_def)
  note h = settings_secrets_hidden [of ex_settings_env "Some ex_principal" SrListChannels ex_slack_made "[ex_slack_channel]" ex_other_made
      "[ex_slack_channel\<lparr>ch_Config := [(''webhook_url'', CfgString ''https://other'')]\<rparr>]" "[]" "[]"]
  show ?thesis
  proof
    show "list_all (secrets_blank ex_channel_registry) (shown (fst (serve_settings ex_settings_env (Some ex_principal) SrListChannels ex_slack_made)))"
      using conjunct1 [OF h] by (simp only: ex_env_fields)
    show "fst (serve_settings ex_settings_env (Some ex_principal) SrListChannels ex_slack_made)
        = fst (serve_settings ex_settings_env (Some ex_principal) SrListChannels ex_other_made)"
      using conjunct1 [OF conjunct2 [OF h]] ex_slack_read(1,2) alike by (simp add: ex_env_fields org)
  qed
qed

theorem channel_edit_keeps_secrets_witness:
  "fst (GetChannel NoFault (Some (ex_enc, ex_dec)) (Some (SecretKeys ex_channel_registry)) 1 1
     (se_nd (snd (serve_settings ex_settings_env (Some ex_principal)
        (SrUpdateChannel ''1'' (Some (resubmitted (channelDTO ex_channel_registry ex_slack_channel) ''oncall'' False))) ex_slack_made))))
   = Inr (ex_slack_channel\<lparr>ch_Name := ''oncall'', ch_Enabled := False\<rparr>)"
proof -
  have stored: "GetChannel NoFault (Some (ex_enc, ex_dec)) (Some (SecretKeys (sx_reg ex_settings_env))) (p_OrgID ex_principal) 1 (se_nd ex_slack_made)
      = (Inr ex_slack_channel, se_nd ex_slack_made)"
    using ex_slack_read(3) by (simp add: ex_env_fields prod_eq_iff ex_principal_def)
  have p: "humanInOrg (Some ex_principal) = Some ex_principal"
    "dec_Allowed (Can (principal_Actor ex_principal) ActionManageChannels (org_resource (p_OrgID ex_principal)))" by code_simp+
  have keys: "distinct (SecretKeys (sx_reg ex_settings_env) (ch_Type ex_slack_channel))"
    "plain_secrets (SecretKeys (sx_reg ex_settings_env) (ch_Type ex_slack_channel)) (ch_Config ex_slack_channel)" by code_simp+
  have id: "parseMonitorID ''1'' = Some 1" by code_simp
  have ch: "distinct (map fst (ch_Config ex_slack_channel))"
    "ValidateConfig (sx_reg ex_settings_env) (ch_Type ex_slack_channel) (ch_Config ex_slack_channel) = None"
    "crypt_keys ex_enc (SecretKeys (sx_reg ex_settings_env) (ch_Type ex_slack_channel)) (ch_Config ex_slack_channel) \<noteq> None" by code_simp+
  have plan: "ChannelType_Valid (ch_Type ex_slack_channel)" "allowedChannelTypes ex_settings_env NoFault (p_OrgID ex_principal) (ch_Type ex_slack_channel)"
    by code_simp+
  have noEmail: "ch_Type ex_slack_channel = ChannelEmail \<longrightarrow> validateEmailMembers ex_settings_env NoFault (p_OrgID ex_principal)
      (cd_Config (channelDTO (sx_reg ex_settings_env) ex_slack_channel)) = ''''"
    by (simp add: ex_slack_channel_def ex_channel_def)
  have name: "TrimSpace ''oncall'' \<noteq> ''''" and trim: "TrimSpace ''oncall'' = ''oncall''" by code_simp+
  from channel_edit_keeps_secrets [OF p ex_env_fields(3,2) ex_inverse keys id stored ch plan noEmail name, of False]
  show ?thesis by (auto simp: ex_env_fields trim ex_principal_def)
qed

theorem settings_secrets_sealed_witness:
  "secrets_sealed (\<lambda>s. take 1 s = ''x'') (SecretKeys ex_channel_registry)
     (se_nd (serve_settings_all [(ex_settings_env, Some ex_principal, SrCreateChannel (Some ex_slack_input))] ex_settings))
   \<and> length (nd_channels (se_nd (serve_settings_all [(ex_settings_env, Some ex_principal, SrCreateChannel (Some ex_slack_input))] ex_settings))) = 1"
proof -
  have "seals (\<lambda>s. take 1 s = ''x'') (Some (ex_enc, ex_dec))" by (auto simp: seals_def ex_enc_def)
  moreover have "secrets_sealed (\<lambda>s. take 1 s = ''x'') (SecretKeys ex_channel_registry) (se_nd ex_settings)"
    by (simp add: secrets_sealed_def ex_settings_def ex_notify_db_def)
  ultimately have "secrets_sealed (\<lambda>s. take 1 s = ''x'') (SecretKeys ex_channel_registry)
     (se_nd (serve_settings_all [(ex_settings_env, Some ex_principal, SrCreateChannel (Some ex_slack_input))] ex_settings))"
    by (rule settings_secrets_sealed) (simp add: ex_env_fields)
  moreover have "length (nd_channels (se_nd (serve_settings_all [(ex_settings_env, Some ex_principal, SrCreateChannel (Some ex_slack_input))] ex_settings))) = 1"
    by code_simp
  ultimately show ?thesis by blast
qed


end
