(* ===== verification/Pulse_Incident_Api.thy ===== *)
theory Pulse_Incident_Api
  imports Pulse_Members
begin

text \<open>
  The incidents of an org, \<open>internal/api/incidents.go\<close>: the list, the detail, annotations and the manual close; and the
  two paged reads of one monitor (\<open>ListResults\<close> and \<open>ListMonitorIncidents\<close> of \<open>internal/api/monitors.go\<close>).  The format of a time
  cursor is an argument: \<open>pe_format\<close> writes a time and \<open>pe_parse\<close> reads it.
\<close>

section \<open>Shapes\<close>

definition maxAnnotationLen :: int where "maxAnnotationLen = 5000"
definition defaultResultsLimit :: int where "defaultResultsLimit = 100"

record IncidentDTO =
  idt_Id :: string
  idt_MonitorId :: string
  idt_StartedAt :: time
  idt_EndedAt :: "time option"
  idt_CauseReason :: FailureReason
  idt_CloseReason :: "CloseReason option"
  idt_DurationSeconds :: "int option"

definition incidentDTO :: "Incident \<Rightarrow> IncidentDTO" where
  "incidentDTO inc =
     \<lparr>idt_Id = Itoa (inc_ID inc), idt_MonitorId = Itoa (inc_MonitorID inc), idt_StartedAt = inc_StartedAt inc,
      idt_EndedAt = inc_EndedAt inc, idt_CauseReason = inc_CauseReason inc, idt_CloseReason = inc_CloseReason inc,
      idt_DurationSeconds = map_option (\<lambda>t. whole_seconds (time_Sub t (inc_StartedAt inc))) (inc_EndedAt inc)\<rparr>"

record AnnotationDTO =
  and_Id :: string
  and_IncidentId :: string
  and_AuthorUserId :: string
  and_Note :: string
  and_CreatedAt :: time

definition annotationDTO :: "IncidentAnnotation \<Rightarrow> AnnotationDTO" where
  "annotationDTO a =
     \<lparr>and_Id = Itoa (ann_ID a), and_IncidentId = Itoa (ann_IncidentID a),
      and_AuthorUserId = (case ann_AuthorUserID a of None \<Rightarrow> '''' | Some u \<Rightarrow> Itoa u),
      and_Note = ann_Note a, and_CreatedAt = ann_CreatedAt a\<rparr>"

type_synonym IncidentDetail = "IncidentDTO \<times> AnnotationDTO list"

definition incidentDetailDTO :: "Incident \<Rightarrow> IncidentAnnotation list \<Rightarrow> IncidentDetail" where
  "incidentDetailDTO inc annotations = (incidentDTO inc, map annotationDTO annotations)"

record CheckResultDTO =
  crd_Id :: string
  crd_MonitorId :: string
  crd_Region :: string
  crd_ScheduledAt :: time
  crd_CheckedAt :: time
  crd_Healthy :: bool
  crd_StatusCode :: "int option"
  crd_LatencyMs :: "int option"
  crd_Error :: "string option"
  crd_FailureReason :: "FailureReason option"
  crd_CertExpiresAt :: "time option"

definition checkResultDTO :: "CheckResult \<Rightarrow> CheckResultDTO" where
  "checkResultDTO r =
     \<lparr>crd_Id = Itoa (res_ID r), crd_MonitorId = Itoa (res_MonitorID r), crd_Region = res_Region r,
      crd_ScheduledAt = res_ScheduledAt r, crd_CheckedAt = res_CheckedAt r, crd_Healthy = res_Healthy r,
      crd_StatusCode = res_StatusCode r, crd_LatencyMs = res_LatencyMs r, crd_Error = res_ErrorText r,
      crd_FailureReason = res_FailureReason r, crd_CertExpiresAt = res_CertExpiresAt r\<rparr>"

section \<open>Cursors\<close>

record page_env =
  pe_now :: time
  pe_parse :: "string \<Rightarrow> time option"
  pe_format :: "time \<Rightarrow> string"

definition parseTimeCursor :: "page_env \<Rightarrow> string option \<Rightarrow> time option" where
  "parseTimeCursor e c = (case c of None \<Rightarrow> None | Some s \<Rightarrow> if s = '''' then None else pe_parse e s)"

definition nextTimeCursor :: "page_env \<Rightarrow> time \<Rightarrow> string" where
  "nextTimeCursor e t = pe_format e t"

definition rangeSince :: "page_env \<Rightarrow> string option \<Rightarrow> time" where
  "rangeSince e r =
     (case r of
        None \<Rightarrow> pe_now e - 24 * Hour
      | Some s \<Rightarrow> if s = ''7d'' then pe_now e - 7 * 24 * Hour else if s = ''90d'' then pe_now e - 90 * 24 * Hour
                  else pe_now e - 24 * Hour)"

text \<open>A page: the items and, when it is full, the cursor of the next one.\<close>

definition time_page :: "page_env \<Rightarrow> ('a \<Rightarrow> 'b) \<Rightarrow> ('a \<Rightarrow> time) \<Rightarrow> 'a list \<Rightarrow> 'b list \<times> string option" where
  "time_page e dto key xs =
     (map dto xs, if int (length xs) = defaultResultsLimit then Some (nextTimeCursor e (key (last xs))) else None)"

section \<open>Handlers\<close>

datatype 'a incident_answer =
    InOk 'a | InUnauthorized | InForbidden string | InNotFound | InNote string | InInvalid string | InConflict | InInternal

type_synonym 'a incident_handler = "db \<Rightarrow> 'a incident_answer \<times> db"

definition incident_gate :: "Principal option \<Rightarrow> (Principal \<Rightarrow> Decision) \<Rightarrow> (Principal \<Rightarrow> 'a incident_handler) \<Rightarrow> 'a incident_handler" where
  "incident_gate ctx may k db =
     (case humanInOrg ctx of
        None \<Rightarrow> (InUnauthorized, db)
      | Some p \<Rightarrow> if \<not> dec_Allowed (may p) then (InForbidden (dec_Reason (may p)), db) else k p db)"

definition may_view :: "Principal \<Rightarrow> Decision" where "may_view p = canMonitor p authzView"

definition may_close :: "Principal \<Rightarrow> Decision" where
  "may_close p = Can (principal_Actor p) ActionCloseIncident (org_resource (p_OrgID p))"

definition api_ListResults :: "page_env \<Rightarrow> fault \<Rightarrow> Principal option \<Rightarrow> string \<Rightarrow> string option \<Rightarrow> string option \<Rightarrow> string option
    \<Rightarrow> (CheckResultDTO list \<times> string option) incident_handler" where
  "api_ListResults e f ctx rawID rng cursor region = incident_gate ctx may_view (\<lambda>p db.
     case parseMonitorID rawID of
       None \<Rightarrow> (InOk ([], None), db)
     | Some i \<Rightarrow>
         (case ListResults f (p_OrgID p) i (rangeSince e rng) (parseTimeCursor e cursor)
                 (case region of None \<Rightarrow> '''' | Some r \<Rightarrow> r) defaultResultsLimit db of
            (Inl _, db1) \<Rightarrow> (InInternal, db1)
          | (Inr results, db1) \<Rightarrow> (InOk (time_page e checkResultDTO res_CheckedAt results), db1)))"

definition ListMonitorIncidents :: "page_env \<Rightarrow> fault \<Rightarrow> Principal option \<Rightarrow> string \<Rightarrow> string option
    \<Rightarrow> (IncidentDTO list \<times> string option) incident_handler" where
  "ListMonitorIncidents e f ctx rawID cursor = incident_gate ctx may_view (\<lambda>p db.
     case parseMonitorID rawID of
       None \<Rightarrow> (InOk ([], None), db)
     | Some i \<Rightarrow>
         (case ListIncidents f (p_OrgID p) i (parseTimeCursor e cursor) defaultResultsLimit db of
            (Inl _, db1) \<Rightarrow> (InInternal, db1)
          | (Inr incidents, db1) \<Rightarrow> (InOk (time_page e incidentDTO inc_StartedAt incidents), db1)))"

definition api_ListIncidents :: "page_env \<Rightarrow> fault \<Rightarrow> Principal option \<Rightarrow> string option \<Rightarrow> string option
    \<Rightarrow> (IncidentDTO list \<times> string option) incident_handler" where
  "api_ListIncidents e f ctx status cursor = incident_gate ctx may_view (\<lambda>p db.
     case ListOrgIncidents f (p_OrgID p) (status = Some ''open'') (parseTimeCursor e cursor) defaultResultsLimit db of
       (Inl _, db1) \<Rightarrow> (InInternal, db1)
     | (Inr incidents, db1) \<Rightarrow> (InOk (time_page e incidentDTO inc_StartedAt incidents), db1))"

definition incident_detail :: "fault \<Rightarrow> int \<Rightarrow> int \<Rightarrow> Incident \<Rightarrow> IncidentDetail incident_handler" where
  "incident_detail f orgID i inc db =
     (case ListIncidentAnnotations f orgID i db of
        (Inl _, db1) \<Rightarrow> (InInternal, db1)
      | (Inr annotations, db1) \<Rightarrow> (InOk (incidentDetailDTO inc annotations), db1))"

definition api_GetIncident :: "fault \<times> fault \<Rightarrow> Principal option \<Rightarrow> string \<Rightarrow> IncidentDetail incident_handler" where
  "api_GetIncident f ctx rawID = incident_gate ctx may_view (\<lambda>p db.
     case parseMonitorID rawID of
       None \<Rightarrow> (InNotFound, db)
     | Some i \<Rightarrow>
         (case GetIncident (fst f) (p_OrgID p) i db of
            (Inl err, db1) \<Rightarrow> (if err = ErrNoRows then InNotFound else InInternal, db1)
          | (Inr inc, db1) \<Rightarrow> incident_detail (snd f) (p_OrgID p) i inc db1))"

definition api_AddIncidentAnnotation :: "fault \<Rightarrow> time \<Rightarrow> Principal option \<Rightarrow> string \<Rightarrow> string option \<Rightarrow> AnnotationDTO incident_handler" where
  "api_AddIncidentAnnotation f now ctx rawID body = incident_gate ctx may_view (\<lambda>p db.
     case body of
       None \<Rightarrow> (InInvalid ''body required'', db)
     | Some raw \<Rightarrow>
         let note = TrimSpace raw
         in if note = '''' then (InNote ''note is required'', db)
            else if int (length note) > maxAnnotationLen then (InNote ''note is too long'', db)
            else case parseMonitorID rawID of
                   None \<Rightarrow> (InNotFound, db)
                 | Some i \<Rightarrow>
                     (case AddIncidentAnnotation f (p_OrgID p) i (p_UserID p) note now db of
                        (Inl err, db1) \<Rightarrow> (if err = ErrNoRows then InNotFound else InInternal, db1)
                      | (Inr a, db1) \<Rightarrow> (InOk (annotationDTO a), db1)))"

definition CloseIncident :: "fault \<times> fault \<Rightarrow> time \<Rightarrow> Principal option \<Rightarrow> string \<Rightarrow> IncidentDetail incident_handler" where
  "CloseIncident f now ctx rawID = incident_gate ctx may_close (\<lambda>p db.
     case parseMonitorID rawID of
       None \<Rightarrow> (InNotFound, db)
     | Some i \<Rightarrow>
         (case ManualCloseIncident (fst f) (p_OrgID p) i (p_UserID p) now db of
            (Inl err, db1) \<Rightarrow>
              (if err = ErrNoRows then InNotFound else if err = ErrIncidentNotOpen then InConflict else InInternal, db1)
          | (Inr inc, db1) \<Rightarrow> incident_detail (snd f) (p_OrgID p) i inc db1))"

section \<open>Reading all pages\<close>

text \<open>A client that follows the cursors, for at most \<open>n\<close> pages; \<open>None\<close> when they are not enough or a page is refused.\<close>

fun read_pages :: "(string option \<Rightarrow> ('a list \<times> string option) incident_answer) \<Rightarrow> nat \<Rightarrow> string option \<Rightarrow> 'a list option" where
  "read_pages get 0 cursor = None"
| "read_pages get (Suc n) cursor =
     (case get cursor of
        InOk (items, nxt) \<Rightarrow>
          (case nxt of None \<Rightarrow> Some items | Some c \<Rightarrow> map_option (\<lambda>rest. items @ rest) (read_pages get n (Some c)))
      | _ \<Rightarrow> None)"

text \<open>The cursors of these times read back.\<close>

definition cursor_codec :: "page_env \<Rightarrow> time list \<Rightarrow> bool" where
  "cursor_codec e ts \<longleftrightarrow> list_all (\<lambda>t. pe_parse e (pe_format e t) = Some t \<and> pe_format e t \<noteq> '''') ts"

lemma cursor_roundtrip: "cursor_codec e ts \<Longrightarrow> t \<in> set ts \<Longrightarrow> parseTimeCursor e (Some (nextTimeCursor e t)) = Some t"
  by (simp add: cursor_codec_def parseTimeCursor_def nextTimeCursor_def list_all_iff)

definition get_page :: "page_env \<Rightarrow> ('a \<Rightarrow> 'b) \<Rightarrow> ('a \<Rightarrow> time) \<Rightarrow> (time option \<Rightarrow> 'a list) \<Rightarrow> string option \<Rightarrow> ('b list \<times> string option) incident_answer" where
  "get_page e dto key read cursor = InOk (time_page e dto key (read (parseTimeCursor e cursor)))"

text \<open>
  What the store promises of a paged read: the first hundred rows before the cursor, of a list that is ordered newest first.
\<close>

locale paged_read =
  fixes read :: "time option \<Rightarrow> 'a list" and key :: "'a \<Rightarrow> time" and whole :: "'a list"
  assumes read_page: "read b = take 100 (case b of None \<Rightarrow> whole | Some t \<Rightarrow> filter (\<lambda>x. key x < t) whole)"
    and newest_first: "sorted_wrt (\<lambda>x y. key y \<le> key x) whole"
begin

lemma strictly_before:
  assumes "distinct (map key whole)" and "whole = xs @ y # ys"
  shows "filter (\<lambda>x. key x < key y) whole = ys"
proof -
  have "\<forall>x \<in> set xs. key y \<le> key x" "\<forall>z \<in> set ys. key z \<le> key y"
    using newest_first by (auto simp: assms(2) sorted_wrt_append)
  moreover have "\<forall>z \<in> set ys. key z \<noteq> key y" using assms(1) by (metis assms(2) distinct.simps(2) distinct_append image_eqI list.set_map map_append list.simps(9))
  ultimately have "filter (\<lambda>x. key x < key y) xs = []" "filter (\<lambda>x. key x < key y) ys = ys"
    by (force simp: filter_empty_conv filter_id_conv)+
  then show ?thesis by (simp add: assms(2))
qed

lemma pages_from:
  assumes "cursor_codec e (map key whole)" and "distinct (map key whole)"
  shows "whole = xs @ rest \<Longrightarrow> read (parseTimeCursor e c) = take 100 rest \<Longrightarrow> length rest div 100 < n
    \<Longrightarrow> read_pages (get_page e dto key read) n c = Some (map dto rest)"
proof (induction n arbitrary: xs rest c)
  case (Suc n)
  show ?case
  proof (cases "length rest < 100")
    case True
    then show ?thesis using Suc.prems(2) by (simp add: get_page_def time_page_def defaultResultsLimit_def)
  next
    case False
    then have len: "length (take 100 rest) = 100" by simp
    let ?y = "last (take 100 rest)"
    have y: "take 100 rest = butlast (take 100 rest) @ [?y]" using len by (metis append_butlast_last_id list.size(3) zero_neq_numeral)
    have split: "whole = (xs @ butlast (take 100 rest)) @ ?y # drop 100 rest"
      using Suc.prems(1) y by (metis append.assoc append_Cons append_Nil append_take_drop_id)
    from strictly_before [OF assms(2) this] have "read (Some (key ?y)) = take 100 (drop 100 rest)"
      by (simp only: read_page option.case)
    moreover have "key ?y \<in> set (map key whole)" using split by simp
    ultimately have "read (parseTimeCursor e (Some (nextTimeCursor e (key ?y)))) = take 100 (drop 100 rest)"
      by (simp only: cursor_roundtrip [OF assms(1)])
    moreover have "whole = (xs @ take 100 rest) @ drop 100 rest" using Suc.prems(1) by simp
    moreover have "length (drop 100 rest) div 100 < n" using Suc.prems(3) False by (simp add: le_div_geq)
    ultimately have "read_pages (get_page e dto key read) n (Some (nextTimeCursor e (key ?y))) = Some (map dto (drop 100 rest))"
      using Suc.IH by blast
    moreover have "map dto (take 100 rest) @ map dto (drop 100 rest) = map dto rest"
      by (metis append_take_drop_id map_append)
    moreover have "get_page e dto key read c = InOk (map dto (take 100 rest), Some (nextTimeCursor e (key ?y)))"
      using Suc.prems(2) len by (simp add: get_page_def time_page_def defaultResultsLimit_def)
    ultimately show ?thesis by simp
  qed
qed simp

lemma all_pages:
  assumes "cursor_codec e (map key whole)" and "distinct (map key whole)" and "length whole div 100 < n"
  shows "read_pages (get_page e dto key read) n None = Some (map dto whole)"
  by (rule pages_from [OF assms(1,2), of "[]"]) (simp_all add: read_page parseTimeCursor_def assms(3))

text \<open>Rows with one time that do not fit a page: the rest of them is not reached.\<close>

lemma tied_rows_skipped:
  assumes "cursor_codec e (map key whole)" and "\<forall>x \<in> set whole. key x = t" and "100 \<le> length whole" and "1 < n"
  shows "read_pages (get_page e dto key read) n None = Some (map dto (take 100 whole))"
proof -
  obtain m where n: "n = Suc (Suc m)" using assms(4) by (cases n) (auto simp: gr0_conv_Suc)
  have first: "read None = take 100 whole" by (simp add: read_page)
  have full: "length (take 100 whole) = 100" using assms(3) by simp
  have "take 100 whole \<noteq> []" using assms(3) by (cases whole) simp_all
  from last_in_set [OF this] have lw: "last (take 100 whole) \<in> set whole" by (rule in_set_takeD)
  with assms(2) have k: "key (last (take 100 whole)) = t" by (rule bspec)
  have "filter (\<lambda>x. key x < t) whole = []" using assms(2) by (auto simp: filter_empty_conv)
  then have later: "read (Some t) = []" by (simp add: read_page)
  have tin: "t \<in> set (map key whole)" using imageI [OF lw, of key] by (simp add: k)
  have "get_page e dto key read None = InOk (map dto (take 100 whole), Some (nextTimeCursor e t))"
    using first full by (simp add: get_page_def time_page_def parseTimeCursor_def defaultResultsLimit_def k)
  moreover have "get_page e dto key read (Some (nextTimeCursor e t)) = InOk ([], None)"
    by (simp add: get_page_def time_page_def cursor_roundtrip [OF assms(1) tin] later defaultResultsLimit_def)
  ultimately show ?thesis by (simp add: n)
qed

end

lemma order_desc_sorted: "sorted_wrt (\<lambda>x y. key y \<le> key x) (order_desc key xs)"
  using sorted_sort_key [of "\<lambda>x. - key x" xs] by (simp add: order_desc_def sorted_map)

lemma filter_order_desc: "filter P (order_desc key xs) = order_desc key (filter P xs)"
  by (simp add: order_desc_def filter_sort)

text \<open>The rows behind the three paged reads, newest first.\<close>

definition org_incidents :: "int \<Rightarrow> bool \<Rightarrow> db \<Rightarrow> Incident list" where
  "org_incidents orgID openOnly db =
     order_desc inc_StartedAt (order_desc inc_ID (filter (\<lambda>i. inc_OrgID i = orgID \<and> (\<not> openOnly \<or> is_open i)) (db_incidents db)))"

definition monitor_incidents :: "int \<Rightarrow> int \<Rightarrow> db \<Rightarrow> Incident list" where
  "monitor_incidents orgID monitorID db =
     order_desc inc_StartedAt (filter (\<lambda>i. inc_MonitorID i = monitorID \<and> inc_OrgID i = orgID) (db_incidents db))"

definition monitor_results :: "int \<Rightarrow> int \<Rightarrow> time \<Rightarrow> string \<Rightarrow> db \<Rightarrow> CheckResult list" where
  "monitor_results orgID monitorID since region db =
     order_desc res_CheckedAt (filter (\<lambda>r. res_MonitorID r = monitorID \<and> res_OrgID r = orgID \<and> since \<le> res_CheckedAt r
        \<and> (region = '''' \<or> res_Region r = region)) (db_results db))"

definition rows_of :: "(db_error + 'a list) \<times> db \<Rightarrow> 'a list" where
  "rows_of r = (case fst r of Inr xs \<Rightarrow> xs | Inl _ \<Rightarrow> [])"

interpretation org_list: paged_read "\<lambda>b. rows_of (ListOrgIncidents NoFault orgID openOnly b 100 db)" inc_StartedAt "org_incidents orgID openOnly db"
  for orgID openOnly db
  by unfold_locales
    (simp_all add: rows_of_def ListOrgIncidents_def WithOrg_def org_incidents_def filter_order_desc order_desc_sorted page_limit_def
      conj_ac split: option.split)

interpretation monitor_list: paged_read "\<lambda>b. rows_of (ListIncidents NoFault orgID i b 100 db)" inc_StartedAt "monitor_incidents orgID i db"
  for orgID i db
  by unfold_locales
    (simp_all add: rows_of_def ListIncidents_def WithOrg_def monitor_incidents_def filter_order_desc order_desc_sorted page_limit_def
      conj_ac split: option.split)

interpretation result_list: paged_read "\<lambda>b. rows_of (ListResults NoFault orgID i since b region 100 db)" res_CheckedAt
    "monitor_results orgID i since region db"
  for orgID i since region db
  by unfold_locales
    (simp_all add: rows_of_def ListResults_def WithOrg_def monitor_results_def filter_order_desc order_desc_sorted page_limit_def
      conj_ac split: option.split)

lemma may_view_roles: "dec_Allowed (may_view p) \<longleftrightarrow> p_Role p \<in> {RoleOwner, RoleAdmin, RoleMember, RoleViewer}"
  by (cases "p_Role p") (auto simp: may_view_def canMonitor_def Can_def principal_Actor_def org_resource_def allow_def deny_def)

lemma handler_pages:
  assumes "humanInOrg ctx = Some p" and "dec_Allowed (may_view p)"
  shows "(\<lambda>c. fst (api_ListIncidents e NoFault ctx status c db))
      = get_page e incidentDTO inc_StartedAt (\<lambda>b. rows_of (ListOrgIncidents NoFault (p_OrgID p) (status = Some ''open'') b 100 db))"
    and "parseMonitorID rawID = Some i \<Longrightarrow> (\<lambda>c. fst (ListMonitorIncidents e NoFault ctx rawID c db))
      = get_page e incidentDTO inc_StartedAt (\<lambda>b. rows_of (ListIncidents NoFault (p_OrgID p) i b 100 db))"
    and "parseMonitorID rawID = Some i \<Longrightarrow> (\<lambda>c. fst (api_ListResults e NoFault ctx rawID rng c region db))
      = get_page e checkResultDTO res_CheckedAt
          (\<lambda>b. rows_of (ListResults NoFault (p_OrgID p) i (rangeSince e rng) b (case region of None \<Rightarrow> '''' | Some r \<Rightarrow> r) 100 db))"
  using assms
  by (auto simp: fun_eq_iff api_ListIncidents_def ListMonitorIncidents_def api_ListResults_def incident_gate_def get_page_def rows_of_def
      defaultResultsLimit_def ListOrgIncidents_def ListIncidents_def ListResults_def WithOrg_def)

text \<open>
  Following the cursors shows everything once: a member of the org, whatever the role, who reads the incidents of the org (all or the open ones), the
  incidents of a monitor or its results in a range page by page gets, after one page more than there are full ones, every row, newest
  first, each once, and nothing of another org, provided the rows start at different times.
\<close>

theorem pages_complete:
  assumes "humanInOrg ctx = Some p" and "p_Role p \<in> {RoleOwner, RoleAdmin, RoleMember, RoleViewer}"
    and "parseMonitorID rawID = Some i" and "cursor_codec e (map inc_StartedAt (db_incidents db) @ map res_CheckedAt (db_results db))"
  shows "(distinct (map inc_StartedAt (org_incidents (p_OrgID p) (status = Some ''open'') db))
      \<and> length (org_incidents (p_OrgID p) (status = Some ''open'') db) div 100 < n
      \<longrightarrow> read_pages (\<lambda>c. fst (api_ListIncidents e NoFault ctx status c db)) n None
          = Some (map incidentDTO (org_incidents (p_OrgID p) (status = Some ''open'') db)))
    \<and> (distinct (map inc_StartedAt (monitor_incidents (p_OrgID p) i db)) \<and> length (monitor_incidents (p_OrgID p) i db) div 100 < n
      \<longrightarrow> read_pages (\<lambda>c. fst (ListMonitorIncidents e NoFault ctx rawID c db)) n None
          = Some (map incidentDTO (monitor_incidents (p_OrgID p) i db)))
    \<and> (distinct (map res_CheckedAt (monitor_results (p_OrgID p) i (rangeSince e rng) region db))
      \<and> length (monitor_results (p_OrgID p) i (rangeSince e rng) region db) div 100 < n
      \<longrightarrow> read_pages (\<lambda>c. fst (api_ListResults e NoFault ctx rawID rng c (Some region) db)) n None
          = Some (map checkResultDTO (monitor_results (p_OrgID p) i (rangeSince e rng) region db)))"
proof -
  have may: "dec_Allowed (may_view p)" using assms(2) by (simp add: may_view_roles)
  have codec: "cursor_codec e (map inc_StartedAt (org_incidents (p_OrgID p) b db))" "cursor_codec e (map inc_StartedAt (monitor_incidents (p_OrgID p) i db))"
    "cursor_codec e (map res_CheckedAt (monitor_results (p_OrgID p) i since region db))" for b since
    using assms(4) by (auto simp: cursor_codec_def list_all_iff org_incidents_def monitor_incidents_def monitor_results_def order_desc_def)
  show ?thesis
    unfolding handler_pages(1) [OF assms(1) may] handler_pages(2) [OF assms(1) may assms(3)] handler_pages(3) [OF assms(1) may assms(3)] option.case
    by (intro conjI impI; elim conjE)
      (blast intro: org_list.all_pages [OF codec(1)] monitor_list.all_pages [OF codec(2)] result_list.all_pages [OF codec(3)])+
qed

text \<open>
  More than a hundred incidents that started at one instant: the cursor is the time alone, so that the page after the first is empty
  and the others are never shown.
\<close>

lemma tied_incidents_lost:
  assumes "humanInOrg ctx = Some p" and "dec_Allowed (may_view p)" and "cursor_codec e [t]"
    and "\<forall>inc \<in> set (org_incidents (p_OrgID p) (status = Some ''open'') db). inc_StartedAt inc = t"
    and "100 < length (org_incidents (p_OrgID p) (status = Some ''open'') db)" and "1 < n"
  shows "\<exists>items. read_pages (\<lambda>c. fst (api_ListIncidents e NoFault ctx status c db)) n None = Some items
    \<and> length items = 100"
proof -
  have "cursor_codec e (map inc_StartedAt (org_incidents (p_OrgID p) (status = Some ''open'') db))"
    using assms(3,4) by (auto simp: cursor_codec_def list_all_iff)
  from org_list.tied_rows_skipped [OF this assms(4) _ assms(6), of incidentDTO] assms(5) show ?thesis
    unfolding handler_pages(1) [OF assms(1,2)] by simp
qed

section \<open>Concrete values\<close>

definition ex_page_env :: page_env where
  "ex_page_env = \<lparr>pe_now = 0, pe_parse = (\<lambda>s. case s of [] \<Rightarrow> None | _ # r \<Rightarrow> Atoi r), pe_format = (\<lambda>t. CHR ''t'' # Itoa t)\<rparr>"

text \<open>A viewer, who by the permission matrix may not annotate, adds a note to an incident.\<close>

lemma viewer_annotates:
  "case api_AddIncidentAnnotation NoFault 50 (Some (ex_principal\<lparr>p_Role := RoleViewer\<rparr>)) ''1'' (Some '' seen '') ex_db_open of
     (InOk a, db) \<Rightarrow> and_Note a = ''seen'' \<and> map ann_Note (db_annotations db) = [''seen'']
   | _ \<Rightarrow> False"
  by code_simp

end
