(* ===== verification/Spec2Isabelle.thy ===== *)
theory Spec2Isabelle
  imports Pulse_Entitlements Pulse_Authz Pulse_Alert_Service Pulse_Checker Pulse_Maglink Pulse_Monitor_Api Pulse_Scheduler Pulse_Worker Pulse_Notify Pulse_Tenancy Pulse_Refresh Pulse_Members Pulse_Account Pulse_Signin Pulse_Billing_Api Pulse_Status_Publish Pulse_Channel_Tables Pulse_Incident_Api
begin

text \<open>
  \<^bold>\<open>Pulse Pager: a verification development.\<close>

  Pulse is an uptime monitor: it checks URLs and certificates on a schedule from several regions,
  opens and closes incidents, notifies people and publishes status pages.  It is a set of Go services around
  PostgreSQL, Redis and an event bus.  Paths below are under \<open>src/\<close>.

  \<^bold>\<open>The parts and how they interact.\<close>
  The api writes monitors and channels.  The scheduler lists the enabled monitors at every tick and
  publishes one job per region for the due ones on the topic of the region.  A worker takes a job, runs
  the check behind the address guard, publishes the result on \<open>check.results\<close> and keeps the live state
  of the check in Redis.  The alerting consumer stores the result, reduces the results of the regions
  to a verdict, runs the state machine and commits counters, incident and watermark in one transaction;
  it publishes what is to be notified on \<open>notify.events\<close>.  The notifier claims the event, sends it to
  the channels of the monitor with retries, records the outcomes and posts signed events to the webhooks
  of the org.  A request to the api passes the authentication chain, which turns an access token or an API key into
  a principal with a role; roles (who may do what) and entitlements (what a plan allows) then guard the handler.  People
  sign in through a provider or a mailed link and hold sessions; they belong to orgs through memberships and
  invitations.  The payment provider moves the plan of an org through webhooks.  A published
  status page shows the state of chosen monitors to everyone.

  \<^bold>\<open>Which theory models which part.\<close>
  Shared:
  \<^item> \<open>Pulse_Prelude\<close>: lemma collections, lists, options, transactions, decimal numbers, Go's string functions.
  \<^item> \<open>Pulse_Domain\<close>: \<open>internal/domain\<close>; structs as records, enums as datatypes with their wire strings.
  \<^item> \<open>Pulse_Entitlements\<close>: \<open>internal/region\<close>, \<open>internal/entitlements\<close>.  Locale \<open>plan_table\<close> and its
    extension \<open>plan_ladder\<close> state what a resolver over a plan table promises; every table interprets them.
  \<^item> \<open>Pulse_Authz\<close>: \<open>internal/authz\<close>, the role gate and the last-owner rule.
  \<^item> \<open>Pulse_KV\<close>, \<open>Pulse_Checkstate\<close>, \<open>Pulse_Maglink\<close>, \<open>Pulse_Crypto\<close>: \<open>internal/kv\<close>, \<open>checkstate\<close>, \<open>maglink\<close>,
    \<open>crypto\<close>.  Locale \<open>once_store\<close> is the contract of a claim that expires; the Redis claim and the
    manual-check cooldown interpret it.
  \<^item> \<open>Pulse_Events\<close>, \<open>Pulse_Bus\<close>: the payloads, and the Redis and Kafka consumers.  Locale \<open>at_least_once\<close>
    is the contract under which redelivery is harmless; the alerting consumer and the notifier interpret it.
  \<^item> \<open>Pulse_Cache\<close>: locale \<open>read_through\<close>, the contract of a cache in front of a table, with the bound on the age of
    its answers; the API key verifier and the member role lookup interpret it.

  The pipeline from a schedule to a notification:
  \<^item> \<open>Pulse_Alerting\<close>: \<open>internal/alerting/alerting.go\<close>, the pure state machine \<open>Apply\<close>, with a
    specification by trailing runs of failures.
  \<^item> \<open>Pulse_Incident_Store\<close>: \<open>internal/store\<close> for monitors, results, incidents and alert state: the tables
    as a record of lists, each statement with the constraints of \<open>schema.sql\<close>, each call with a fault
    before or after its commit; \<open>wf_db\<close> is the invariant, \<open>db_step\<close> the interleaving of all services.
  \<^item> \<open>Pulse_Alert_Service\<close>: \<open>internal/alerting/service.go\<close>, the handler.
  \<^item> \<open>Pulse_Checker\<close>: \<open>internal/checker\<close>: status matcher, address guard, HTTP and certificate checks.  The client
    and the TLS dialer are arguments that get the \<open>Control\<close> hook and answer with what they connected to.
  \<^item> \<open>Pulse_Scheduler\<close>, \<open>Pulse_Worker\<close>: \<open>internal/scheduler\<close>, \<open>internal/worker\<close>.
  \<^item> \<open>Pulse_Channels\<close>, \<open>Pulse_Notify\<close>: the channel registry and store, and the notifier with its webhooks.

  The api:
  \<^item> \<open>Pulse_Monitor_Input\<close>, \<open>Pulse_Monitor_Api\<close>: \<open>internal/api/monitors.go\<close>: validation, the handlers as a
    function from request and state to response and state, and the gate of manual checks.
  \<^item> \<open>Pulse_Tenancy\<close>: the store of users, identities, orgs, memberships and invitations; \<open>wf_tenant\<close> is its
    invariant.  \<open>Pulse_Refresh\<close>: the table of refresh tokens and the session service of \<open>internal/authn\<close>.
  \<^item> \<open>Pulse_Apikeys\<close>, \<open>Pulse_Principal\<close>, \<open>Pulse_Authn\<close>: API keys with their cache, the principal in the context of
    a request, the access token and the middleware chain that produces the principal.
  \<^item> \<open>Pulse_Web\<close>: what the handlers share.  Locales \<open>table_effect\<close> and \<open>row_effect\<close> state that every
    store call of a handler satisfies a relation, and give it for the handler.
  \<^item> \<open>Pulse_Members\<close>, \<open>Pulse_Account\<close>: \<open>internal/api/members.go\<close>, \<open>api.go\<close> and the API key handlers, which interpret these locales.
  \<^item> \<open>Pulse_Email\<close>: the mail intents and the consumer that sends them.
  \<^item> \<open>Pulse_Login\<close>, \<open>Pulse_Signin\<close>: the social login, the mailed link and the session handlers; \<open>account_of\<close> is the
    specification of which account a sign-in reaches.
  \<^item> \<open>Pulse_Billing_Store\<close>, \<open>Pulse_Billing\<close>, \<open>Pulse_Billing_Sync\<close>, \<open>Pulse_Billing_Api\<close>: the billing tables,
    \<open>internal/billing\<close> with its adapters and the webhook ingest, and the requests of operators and owners.  Locale \<open>bill_effect\<close> is
    to the billing tables what \<open>table_effect\<close> is to the tenancy tables.
  \<^item> \<open>Pulse_Status_Store\<close>, \<open>Pulse_Status_Pages\<close>, \<open>Pulse_Status_Facts\<close>, \<open>Pulse_Status_Tables\<close>,
    \<open>Pulse_Status_Publish\<close>: the tables of the status pages, the editor and the public page
    (\<open>internal/api/statuspages.go\<close>), and what they promise.  Locale \<open>page_store\<close> is the contract of one call of an org.
  \<^item> \<open>Pulse_Channel_Api\<close>, \<open>Pulse_Channel_Facts\<close>, \<open>Pulse_Channel_Tables\<close>: the handlers of channels and webhooks
    (\<open>internal/api/channels.go\<close>, \<open>webhooks.go\<close>) with the catalog, what they show and keep of secrets, and what they do to the tables.
    Locale \<open>settings_store\<close> is the contract of one store call; sealing of secrets and scoping to an org interpret it.
  \<^item> \<open>Pulse_Incident_Api\<close>: \<open>internal/api/incidents.go\<close> and the paged reads of a monitor.  Locale \<open>paged_read\<close> is the
    contract of a read page by page; the three lists interpret it.
  \<^item> This theory: the composition of scheduler, worker, bus and alerting, and of alerting and notifier.

  \<^bold>\<open>What the lemmas show.\<close>
  \<^item> Detection: end to end, a new monitor has an open incident exactly when at least its threshold of latest checks
    failed; the alerting consumer refines the trailing-run specification over all faulty and repeated
    deliveries, and applies every result once; the tables keep their invariant under every interleaving.
  \<^item> Checks and delivery: a check is healthy exactly when its assertions hold, and with the guard on it
    connects to no blocked address; the validation of a monitor accepts exactly the field table; rounds are spaced; consumers reorder nothing; what was
    sent is not sent again, and a claimed event goes to exactly the enabled channels; retry loops end.
  \<^item> Tenants and plans: requests on monitors, members, account, channels, webhooks, billing and status pages stay in their org or
    with their user; the caps on monitors, seats and status pages hold in every reachable state; every org keeps an owner.
  \<^item> Sessions: a replayed refresh token ends its family, and the usable tokens of a login are bounded by the rotations
    that overlapped; a sign-in reaches the account the specification names and never
    moves an identity; access tokens round-trip; roles and API keys that the caches answer are at most as old as
    their time to live allows; redirects stay in the app.
  \<^item> Money: a billing event has the effect of one delivery; what is bought is what the org gets; no second trial is
    offered within thirty-five days of the end of a subscription.
  \<^item> Status pages: the public answer depends on the public data of the published page alone, and what is
    created and published is what a visitor sees.

  The lemmas of kind \<open>error\<close> and the lemmas the findings name state where a
  failure loses or repeats work, or the code and its documentation differ.

  \<^bold>\<open>Modelling decisions.\<close>
  Identifiers and counters are \<open>int\<close>; where a width is observable it is written out.  Instants and durations are
  integers of nanoseconds.  Percentages are rationals.  Strings are lists of bytes (\<open>char\<close>).  A handler is a function of its
  environment (the clock, the faults of its calls, what the network answers) and the state.  Errors are
  values.  No definition has fuel: loops are structural recursions or have a termination proof.
  SQL statements act on tables with the constraints of the schema; Redis commands act on a map with
  expiry as documented.  Handlers run one after the other, while the statements about the store hold for all
  interleavings of its transactions.
  Code outside the repository is an argument of the definitions that use it: AES-GCM, SHA-256 and HMAC, the random
  source, JSON, the URL and address parsers, HTTP, TLS, the payment and login providers, the SMTP and chat services.

  \<^bold>\<open>Not modelled.\<close>
  Logs, metrics and traces (they are not state); wiring, configuration, process start-up and migrations;
  HTTP routing and encoding; generated types beyond those the handlers use; the development server, a
  fake; the message texts of the channel providers and of mail; the operator figures, which are read-only aggregates, and the verification of the Cloudflare
  Access token in front of the operator routes.
\<close>

section \<open>From the schedule to an incident\<close>

text \<open>Every job of a run of the scheduler is of a monitor some tick has listed.\<close>

lemma due_loop_all:
  assumes "list_all Q (sch_jobs d)"
    and "\<And>em f' job. em \<in> set ems \<Longrightarrow> job \<in> set (round_jobs f' now (em_Monitor em)) \<Longrightarrow> Q job"
  shows "list_all Q (sch_jobs (due_loop js f now ems d))"
  using assms
proof (induction ems arbitrary: d)
  case (Cons em ems)
  have "list_all Q (sch_jobs (due_step js f now em d))"
    using Cons.prems by (auto simp: due_step_jobs list_all_iff)
  then show ?case using Cons by auto
qed simp

definition owned :: "int \<Rightarrow> int \<Rightarrow> tick \<Rightarrow> bool" where
  "owned orgID mid tk \<longleftrightarrow> list_all (\<lambda>r. mon_ID (row_Monitor r) = mid \<longrightarrow> mon_OrgID (row_Monitor r) = orgID) (db_monitors (tk_db tk))"

lemma listed_owner:
  assumes "ListEnabledMonitorsWithLastCheck f c db = Inr ems" "em \<in> set ems"
  shows "\<exists>r \<in> set (db_monitors db). mon_ID (row_Monitor r) = mon_ID (em_Monitor em) \<and> mon_OrgID (row_Monitor r) = mon_OrgID (em_Monitor em)"
proof -
  let ?rows = "filter (\<lambda>r. mon_Enabled (row_Monitor r)) (db_monitors db)"
  have "map (\<lambda>em. (mon_ID (em_Monitor em), mon_OrgID (em_Monitor em))) ems
      = map (\<lambda>r. (mon_ID (row_Monitor r), mon_OrgID (row_Monitor r))) ?rows"
    using assms(1)
    by (intro scan_all_map [where scan = "\<lambda>r. case scanMonitor c (row_Monitor r) of Inl e \<Rightarrow> Inl e
          | Inr m \<Rightarrow> Inr \<lparr>em_Monitor = m, em_LastCheckedAt = map_option res_CheckedAt (last_result db (mon_ID m))\<rparr>"])
      (auto simp: ListEnabledMonitorsWithLastCheck_def scanMonitor_def split: if_splits sum.splits option.splits)
  then have "(mon_ID (em_Monitor em), mon_OrgID (em_Monitor em)) \<in> (\<lambda>r. (mon_ID (row_Monitor r), mon_OrgID (row_Monitor r))) ` set ?rows"
    using assms(2) by (metis (no_types, lifting) image_eqI set_map)
  then show ?thesis by auto
qed

lemma sched_jobs_owner:
  assumes "list_all (owned orgID mid) ticks"
    and "list_all (\<lambda>j. mon_ID (job_Monitor j) = mid \<longrightarrow> job_OrgID j = orgID) (sch_jobs d)"
  shows "list_all (\<lambda>j. mon_ID (job_Monitor j) = mid \<longrightarrow> job_OrgID j = orgID) (sch_jobs (sched_Run js c ticks d))"
  using assms
proof (induction ticks arbitrary: d)
  case (Cons tk ticks)
  have "list_all (\<lambda>j. mon_ID (job_Monitor j) = mid \<longrightarrow> job_OrgID j = orgID) (sch_jobs (dispatchDue js c tk d))"
  proof (cases "ListEnabledMonitorsWithLastCheck (tk_list tk) c (tk_db tk)")
    case (Inr ems)
    have "mon_ID (job_Monitor j) = mid \<longrightarrow> job_OrgID j = orgID"
      if "em \<in> set ems" "j \<in> set (round_jobs f' (tk_now tk) (em_Monitor em))" for em f' j
      using listed_owner [OF Inr that(1)] round_jobs_mem [OF that(2)] Cons.prems(1) by (auto simp: owned_def list_all_iff)
    then show ?thesis
      using Inr Cons.prems(2) by (simp add: dispatchDue_def due_loop_all)
  qed (use Cons.prems in \<open>simp add: dispatchDue_def\<close>)
  then show ?case using Cons by simp
qed simp

lemma trailing_map: "trailing P (map f xs) = map f (trailing (\<lambda>x. P (f x)) xs)"
  by (simp add: trailing_def rev_map takeWhile_map comp_def)

text \<open>A run of one job as the specification sees it: it failed when its check was not healthy.\<close>

definition check_failed :: "worker_env \<times> CheckJob \<Rightarrow> bool" where
  "check_failed r \<longleftrightarrow> \<not> res_Healthy (job_result (fst r) (snd r))"

lemma published_healthy: "res_Healthy (cre_Result (published r)) = (\<not> check_failed r)"
  by (simp add: published_def result_event_def wire_result_def check_failed_def)

lemma current_run_published: "length (current_run (map published runs)) = length (trailing check_failed runs)"
  by (simp add: current_run_def trailing_map published_healthy)

text \<open>The alert state of a new monitor after a history of results, read off the trailing run.\<close>

lemma alerting_follows_checks:
  assumes "wf_db db" and "config_of c db orgID mid = Inr m" and "alert_of db orgID mid = Inr initial_state"
    and "\<And>r. r \<in> set (db_results db) \<Longrightarrow> res_MonitorID r \<noteq> mid"
    and "monitor_history orgID mid ds = map published runs"
  shows "\<exists>st. alert_of (deliver_all sha c ds db) orgID mid = Inr st
    \<and> as_ConsecutiveFails st = int (length (trailing check_failed runs))
    \<and> (as_OpenIncident st \<noteq> None \<longleftrightarrow> open_threshold m \<le> length (trailing check_failed runs))"
proof -
  have "find_result db (event_result e) = None" if "ev_mon e = mid" for e
    using assms(4) that unfolding find_result_def find_None_iff same_result_key_def event_result_fields by metis
  moreover have "matches_run m [] initial_state"
    using open_threshold_pos [of m] by (simp add: matches_run_def initial_state_def)
  ultimately have "tracked c orgID mid m [] [] db"
    using assms(1-3) by (auto simp: tracked_def)
  from tracked_history [OF this, of ds sha] obtain st where st: "alert_of (deliver_all sha c ds db) orgID mid = Inr st"
      "matches_run m (current_run (map published runs)) st"
    unfolding assms(5) by (auto simp: tracked_def)
  then show ?thesis
    using current_run_published [of runs] by (auto simp: matches_run_def split: option.splits)
qed

text \<open>
  C1. Detection, end to end: let the scheduler run over any ticks in which the monitor belongs to
  its org, let the workers handle the jobs of the monitor in the order they were published,
  each job once and with any faults but a lost result, and let the bus deliver the results
  to alerting with any faulty attempts, repetitions and results of other monitors in between.
  Then a monitor that was new has an open incident exactly when at least the failure
  threshold of its latest checks failed, and its failure count is the number of those checks.
\<close>

theorem detection_end_to_end:
  assumes "wf_db db" and "config_of c db orgID mid = Inr m" and "alert_of db orgID mid = Inr initial_state"
    and "\<And>r. r \<in> set (db_results db) \<Longrightarrow> res_MonitorID r \<noteq> mid"
    and "list_all (owned orgID mid) ticks"
    and "map snd runs = jobs_of mid (sch_jobs (sched_Run js c ticks (sched_New s)))"
    and "list_all delivered runs" and "wk_results w = []"
    and "monitor_history orgID mid ds = wk_results (worker_run js runs w)"
  shows "list_all (\<lambda>r. ev_org (published r) = orgID \<and> ev_mon (published r) = mid) runs
    \<and> (\<exists>st. alert_of (deliver_all sha c ds db) orgID mid = Inr st
      \<and> as_ConsecutiveFails st = int (length (trailing check_failed runs))
      \<and> (as_OpenIncident st \<noteq> None \<longleftrightarrow> open_threshold m \<le> length (trailing check_failed runs)))"
proof -
  have "list_all (\<lambda>j. mon_ID (job_Monitor j) = mid \<longrightarrow> job_OrgID j = orgID) (sch_jobs (sched_Run js c ticks (sched_New s)))"
    by (rule sched_jobs_owner [OF assms(5)]) (simp add: sched_New_def)
  then have "list_all (\<lambda>j. mon_ID (job_Monitor j) = mid \<and> job_OrgID j = orgID) (map snd runs)"
    unfolding assms(6) by (auto simp: jobs_of_def list_all_iff)
  then have "list_all (\<lambda>r. ev_org (published r) = orgID \<and> ev_mon (published r) = mid) runs"
    by (auto simp: list_all_iff published_def result_event_def wire_result_def)
  moreover have "filter delivered runs = runs"
    using assms(7) by (simp add: list_all_iff filter_id_conv)
  then have "monitor_history orgID mid ds = map published runs"
    using assms(8,9) by (simp add: worker_run_results)
  ultimately show ?thesis using alerting_follows_checks [OF assms(1-4)] by blast
qed

text \<open>
  A job that the worker handles twice counts twice: when a failing job is redelivered (its
  result went out but the acknowledgement was lost), the second run has a stamp of its own
  and is a second result, so that a monitor with a failure threshold of two has an open
  incident after one scheduled check.
\<close>

theorem redelivered_job_counts_twice:
  assumes "wf_db db" and "config_of c db orgID mid = Inr m" and "alert_of db orgID mid = Inr initial_state"
    and "\<And>r. r \<in> set (db_results db) \<Longrightarrow> res_MonitorID r \<noteq> mid"
    and "mon_FailureThreshold m = 2"
    and "we_marshal e1" "we_produce e1 = SendAckLost" "check_failed (e1, job)"
    and "we_marshal e2" "we_produce e2 = SendOk" "check_failed (e2, job)"
    and "wk_results w = []"
    and "monitor_history orgID mid ds = wk_results (worker_run js [(e1, job), (e2, job)] w)"
  shows "\<not> fst (worker_handle js e1 (Some job) w)
    \<and> (\<exists>st. alert_of (deliver_all sha c ds db) orgID mid = Inr st \<and> as_OpenIncident st \<noteq> None)"
proof -
  have "monitor_history orgID mid ds = map published [(e1, job), (e2, job)]"
    using assms(6,7,9,10,12,13) by (simp add: worker_handle_results delivered_def)
  moreover have "length (trailing check_failed [(e1, job), (e2, job)]) = 2"
    using assms(8,11) by (simp add: trailing_def)
  moreover have "open_threshold m = 2" using assms(5) by (simp add: open_threshold_def)
  ultimately have "\<exists>st. alert_of (deliver_all sha c ds db) orgID mid = Inr st \<and> as_OpenIncident st \<noteq> None"
    using alerting_follows_checks [OF assms(1-4)] by fastforce
  moreover have "\<not> fst (worker_handle js e1 (Some job) w)"
    using assms(6,7) by (simp add: worker_handle_def worker_emit_def Produce_def Let_def)
  ultimately show ?thesis by blast
qed

section \<open>Dedup ids of the two sides\<close>

text \<open>
  The id the notifier derives for an event that carries none is never the one alerting gives:
  the texts that are hashed differ.
\<close>

lemma dedup_ids_differ:
  assumes "inj sha"
  shows "notify_DedupKey sha i t \<noteq> dedupKey sha j (NotifyEventType_string k) w"
proof
  assume "notify_DedupKey sha i t = dedupKey sha j (NotifyEventType_string k) w"
  then have eq: "Itoa i @ [CHR 0x00] @ t = dedupInput j (NotifyEventType_string k) w"
    using assms by (auto simp: notify_DedupKey_def dedupKey_def dest: injD)
  have no: "CHR 0x00 \<notin> set (Itoa n)" for n using Itoa_chars [of "CHR 0x00" n] by (auto simp: is_digit_def)
  have "CHR 0x00 \<notin> set (dedupInput j (NotifyEventType_string k) w)"
    by (cases k; cases w) (simp_all add: dedupInput_def no)
  moreover have "CHR 0x00 \<in> set (Itoa i @ [CHR 0x00] @ t)" by simp
  ultimately show False by (simp only: eq)
qed

section \<open>Concrete histories\<close>

definition ex_worker_env :: "time \<Rightarrow> send \<Rightarrow> worker_env" where
  "ex_worker_env t sn = \<lparr>we_cfg = ex_checker_config, we_check = (ex_check_env [10, 0, 0, 1] ''ok'')\<lparr>env_start := t\<rparr>, we_tls = ex_tls_env,
     we_running = (KvOk, KvOk), we_result = (KvOk, KvOk), we_marshal = True, we_produce = sn, we_snapshot = NoFault,
     we_cert = NoFault, we_now = t\<rparr>"

definition ex_worker :: worker_state where
  "ex_worker = \<lparr>wk_kv = Map.empty, wk_results = [], wk_db = ex_db 1 MonitorHTTP\<rparr>"

definition ex_job :: "int \<Rightarrow> CheckJob" where
  "ex_job n = sched_job (ex_mon n MonitorHTTP) 0 DefaultRegion"

lemma ex_check_failed: "check_failed (ex_worker_env t sn, ex_job n)"
proof -
  have blocked: "isBlockedIP [10, 0, 0, 1]" by code_simp
  have "res_Healthy (Check ex_checker_config ((ex_check_env [10, 0, 0, 1] ''ok'')\<lparr>env_start := t\<rparr>) ex_tls_env (ex_mon n MonitorHTTP) True) = False"
    by (simp add: Check_cases checkHTTP_result ex_mon_def monitor_defaults_def ex_monitor_def ex_checker_config_def NewConfig_def
        ex_check_env_def hostFromURL_def resolveAndCheck_def blocked isBlockedErr_def Let_def)
  then show ?thesis
    by (simp add: check_failed_def job_result_def ex_worker_env_def ex_job_def AllOn_For_def)
qed

lemma ex_sched_jobs:
  "sch_jobs (sched_Run js None [ex_tick 0 (ex_db 1 MonitorHTTP) no_faults] (sched_New s)) = [ex_job 1]"
  using ex_listed [of 0 no_faults] ex_due [of 0 s]
  by (simp add: dispatchDue_def due_step_jobs ex_job_def sched_New_def round_jobs_def ex_tick_def no_faults_def arrives_def
      sched_regions_def ex_enabled_def ex_mon_def monitor_defaults_def ex_monitor_def Let_def)

lemma ex_published_key:
  "ev_key (published (ex_worker_env t sn, ex_job n)) = (1, 1, DefaultRegion, t)"
  "ev_org (published (ex_worker_env t sn, ex_job n)) = 1" "ev_mon (published (ex_worker_env t sn, ex_job n)) = 1"
  by (simp_all add: ev_key_def result_key_def published_def result_event_def wire_result_def event_result_def
      ex_job_def ex_worker_env_def ex_mon_def monitor_defaults_def ex_monitor_def)

lemma ex_worker_env_fields: "we_marshal (ex_worker_env t sn)" "we_produce (ex_worker_env t sn) = sn"
  by (simp_all add: ex_worker_env_def)

lemma ex_no_results: "r \<in> set (db_results (ex_db n ty)) \<Longrightarrow> res_MonitorID r \<noteq> 1"
  by (simp add: ex_db_eval)

theorem detection_end_to_end_witness:
  "\<exists>st. alert_of (deliver_all (\<lambda>s. s) None [(published (ex_worker_env 20 SendOk, ex_job 1), [], 30)] (ex_db 1 MonitorHTTP)) 1 1 = Inr st
     \<and> as_OpenIncident st \<noteq> None"
proof -
  let ?run = "(ex_worker_env 20 SendOk, ex_job 1)"
  have "monitor_history 1 1 [(published ?run, [], 30)] = wk_results (worker_run ex_codec [?run] ex_worker)"
    by (simp add: monitor_history_def ex_published_key worker_handle_results delivered_def ex_worker_env_fields ex_worker_def)
  moreover have "map snd [?run] = jobs_of 1 (sch_jobs (sched_Run ex_codec None [ex_tick 0 (ex_db 1 MonitorHTTP) no_faults] (sched_New Map.empty)))"
    unfolding ex_sched_jobs by (simp add: jobs_of_def ex_job_def ex_mon_ID)
  moreover have "list_all (owned 1 1) [ex_tick 0 (ex_db 1 MonitorHTTP) no_faults]"
    by (simp add: owned_def ex_tick_def ex_db_eval monitor_defaults_def ex_monitor_def)
  moreover have "list_all delivered [?run]" by (simp add: delivered_def ex_worker_env_fields)
  moreover have "wk_results ex_worker = []" by (simp add: ex_worker_def)
  ultimately show ?thesis
    using detection_end_to_end [OF ex_facts(1,3,2) ex_no_results, where ticks = "[ex_tick 0 (ex_db 1 MonitorHTTP) no_faults]"
        and runs = "[?run]" and js = ex_codec and s = Map.empty and w = ex_worker and ds = "[(published ?run, [], 30)]"
        and sha = "\<lambda>s. s"]
    by (fastforce simp: trailing_def ex_check_failed open_threshold_def ex_mon_def monitor_defaults_def ex_monitor_def)
qed

theorem redelivered_job_counts_twice_witness:
  "\<exists>st. alert_of (deliver_all (\<lambda>s. s) None [(published (ex_worker_env 20 SendAckLost, ex_job 2), [], 30),
       (published (ex_worker_env 25 SendOk, ex_job 2), [], 30)] (ex_db 2 MonitorHTTP)) 1 1 = Inr st \<and> as_OpenIncident st \<noteq> None"
proof -
  let ?r1 = "(ex_worker_env 20 SendAckLost, ex_job 2)" and ?r2 = "(ex_worker_env 25 SendOk, ex_job 2)"
  have "monitor_history 1 1 [(published ?r1, [], 30), (published ?r2, [], 30)] = wk_results (worker_run ex_codec [?r1, ?r2] ex_worker)"
    by (simp add: monitor_history_def ex_published_key worker_handle_results delivered_def ex_worker_env_fields ex_worker_def)
  then show ?thesis
    using redelivered_job_counts_twice [OF ex_facts(1) [of 2 MonitorHTTP] ex_facts(3) ex_facts(2) ex_no_results, where sha = "\<lambda>s. s"
        and ?e1.0 = "ex_worker_env 20 SendAckLost" and ?e2.0 = "ex_worker_env 25 SendOk" and job = "ex_job 2"
        and ds = "[(published ?r1, [], 30), (published ?r2, [], 30)]" and js = ex_codec and w = ex_worker]
    by (fastforce simp: ex_check_failed ex_worker_env_fields ex_worker_def ex_mon_def monitor_defaults_def ex_monitor_def)
qed

end
